(* ===== verification/Prelude.thy ===== *)
theory Prelude
  imports Main "HOL-Library.Word"
begin

text \<open>
  Shared vocabulary of the development: the C integer types, the C idioms that several
  components use (first match in an array, removal by \<open>memmove\<close>, little-endian memory
  images of integers, arrays of records searched by an identifier) and the lemmas on them.
\<close>

unbundle bit_operations_syntax

type_synonym u8 = "8 word"
type_synonym u16 = "16 word"
type_synonym u32 = "32 word"
type_synonym u64 = "64 word"

named_theorems size_simps \<open>sizes of memory images and packets\<close>
named_theorems codec_simps \<open>round trips of memory images\<close>

section \<open>Word arithmetic\<close>

lemma unat_times_le: "unat (a * b) \<le> unat a * unat b"
  by (simp add: unat_word_ariths)

lemma unat_plus_le: "unat (a + b) \<le> unat a + unat b"
  by (simp add: unat_word_ariths)

text \<open>Widening conversions keep the value.\<close>

lemma unat_ucast_widen:
  "LENGTH('a) \<le> LENGTH('b) \<Longrightarrow> unat (ucast (x :: 'a::len word) :: 'b::len word) = unat x"
  by (simp add: unsigned_ucast_eq take_bit_nat_eq_self unsigned_less
      less_le_trans [OF unsigned_less power_increasing])

lemma unat_ucast_mod: "unat (ucast (x :: 'a::len word) :: 'b::len word) = unat x mod 2 ^ LENGTH('b)"
  by (simp add: unsigned_ucast_eq take_bit_eq_mod)

lemma unat_ucast_widen_simps [simp]:
  "unat (ucast (a :: u8) :: u16) = unat a" "unat (ucast (a :: u8) :: u32) = unat a"
  "unat (ucast (a :: u8) :: u64) = unat a" "unat (ucast (b :: u16) :: u32) = unat b"
  "unat (ucast (b :: u16) :: u64) = unat b" "unat (ucast (c :: u32) :: u64) = unat c"
  by (simp_all add: unat_ucast_widen)

lemma unat_word_of_nat_small: "n < 2 ^ LENGTH('a) \<Longrightarrow> unat (word_of_nat n :: 'a::len word) = n"
  by (simp add: unsigned_of_nat take_bit_nat_eq_self)

section \<open>First match in an array\<close>

text \<open>
  The loop \<open>for (i = 0; i < count; ++i) if (P (a[i])) return i;\<close> over the live prefix
  of an array.
\<close>

fun find_index :: "('a \<Rightarrow> bool) \<Rightarrow> 'a list \<Rightarrow> nat option" where
  "find_index P [] = None"
| "find_index P (x # xs) = (if P x then Some 0 else map_option Suc (find_index P xs))"

lemma find_index_None [simp]: "find_index P xs = None \<longleftrightarrow> (\<forall>x\<in>set xs. \<not> P x)"
  by (induction xs) auto

lemma find_index_SomeD:
  "find_index P xs = Some i \<Longrightarrow> i < length xs \<and> P (xs ! i) \<and> (\<forall>j<i. \<not> P (xs ! j))"
proof (induction xs arbitrary: i)
  case Nil
  then show ?case by simp
next
  case (Cons x xs)
  show ?case
  proof (cases "P x")
    case True
    with Cons.prems show ?thesis by simp
  next
    case False
    with Cons.prems obtain k where k: "find_index P xs = Some k" "i = Suc k" by auto
    from Cons.IH [OF k(1)] k(2) False show ?thesis
      by (auto simp: nth_Cons split: nat.splits)
  qed
qed

lemma find_index_less: "find_index P xs = Some i \<Longrightarrow> i < length xs"
  by (simp add: find_index_SomeD)

lemma find_index_holds: "find_index P xs = Some i \<Longrightarrow> P (xs ! i)"
  by (simp add: find_index_SomeD)

lemma find_index_cong: "(\<And>x. x \<in> set xs \<Longrightarrow> P x = Q x) \<Longrightarrow> find_index P xs = find_index Q xs"
  by (induction xs) auto

lemma find_index_append:
  "find_index P (xs @ ys) =
     (case find_index P xs of Some i \<Rightarrow> Some i
      | None \<Rightarrow> map_option (\<lambda>i. length xs + i) (find_index P ys))"
proof (induction xs)
  case Nil
  show ?case by (cases "find_index P ys") (simp_all del: find_index_None)
next
  case (Cons x xs)
  then show ?case
    by (cases "find_index P xs"; cases "find_index P ys") (simp_all del: find_index_None)
qed

text \<open>A selection from an index range that ends before the range does.\<close>

lemma filter_upt_prefix:
  assumes "m \<le> n" and "\<And>j. m \<le> j \<Longrightarrow> j < n \<Longrightarrow> \<not> P j"
  shows "filter P [0..<n] = filter P [0..<m]"
proof -
  have "[0..<n] = [0..<m] @ [m..<n]" using upt_add_eq_append [of 0 m "n - m"] assms(1) by simp
  moreover have "filter P [m..<n] = []" using assms(2) by (auto simp: filter_empty_conv)
  ultimately show ?thesis by simp
qed

section \<open>Counting and updating array elements\<close>

definition count_if :: "('a \<Rightarrow> bool) \<Rightarrow> 'a list \<Rightarrow> nat" where
  "count_if P xs = length (filter P xs)"

lemma count_if_simps [simp]:
  "count_if P [] = 0"
  "count_if P (x # xs) = (if P x then Suc (count_if P xs) else count_if P xs)"
  "count_if P (xs @ ys) = count_if P xs + count_if P ys"
  by (simp_all add: count_if_def)

lemma count_if_le_length: "count_if P xs \<le> length xs"
  by (simp add: count_if_def)

lemma count_if_replicate: "count_if P (replicate n x) = (if P x then n else 0)"
  by (simp add: count_if_def)

lemma count_if_update:
  assumes "i < length xs"
  shows "count_if P (xs[i := y]) + (if P (xs ! i) then 1 else 0) =
         count_if P xs + (if P y then 1 else 0)"
  using assms
proof (induction xs arbitrary: i)
  case Nil
  then show ?case by simp
next
  case (Cons x xs)
  then show ?case by (cases i) auto
qed

lemma count_if_pos: "i < length xs \<Longrightarrow> P (xs ! i) \<Longrightarrow> 0 < count_if P xs"
  by (auto simp: count_if_def length_greater_0_conv filter_empty_conv dest: nth_mem)

lemma count_if_mono: "(\<And>x. x \<in> set xs \<Longrightarrow> P x \<Longrightarrow> Q x) \<Longrightarrow> count_if P xs \<le> count_if Q xs"
  by (induction xs) (auto simp: le_SucI)

lemma count_if_map_mono: "(\<And>x. P (f x) \<Longrightarrow> P x) \<Longrightarrow> count_if P (map f xs) \<le> count_if P xs"
  by (induction xs) (auto simp: le_SucI)

text \<open>Removal of one element by \<open>memmove\<close> of the tail.\<close>

definition remove_at :: "nat \<Rightarrow> 'a list \<Rightarrow> 'a list" where
  "remove_at i xs = take i xs @ drop (Suc i) xs"

lemma length_remove_at [simp]: "i < length xs \<Longrightarrow> length (remove_at i xs) = length xs - 1"
  by (simp add: remove_at_def)

lemma remove_at_Cons [simp]:
  "remove_at 0 (x # xs) = xs"
  "remove_at (Suc i) (x # xs) = x # remove_at i xs"
  by (simp_all add: remove_at_def)

lemma set_remove_at_subset: "set (remove_at i xs) \<subseteq> set xs"
  by (auto simp: remove_at_def dest: in_set_takeD in_set_dropD)

lemma remove_at_find_index:
  assumes "find_index P xs = Some i" and "distinct (map f xs)"
    and "\<And>x. x \<in> set xs \<Longrightarrow> P x \<longleftrightarrow> f x = k"
  shows "remove_at i xs = filter (\<lambda>x. f x \<noteq> k) xs"
  using assms
proof (induction xs arbitrary: i)
  case Nil
  then show ?case by simp
next
  case (Cons x xs)
  show ?case
  proof (cases "f x = k")
    case True
    from True Cons.prems(2) have "\<forall>y\<in>set xs. f y \<noteq> k"
      by (metis distinct.simps(2) imageI list.map(2) list.set_map)
    then have "filter (\<lambda>x. f x \<noteq> k) xs = xs" by simp
    with True Cons.prems(1,3) show ?thesis by simp
  next
    case False
    with Cons.prems(3) have "\<not> P x" by simp
    with Cons.prems(1) obtain j where j: "find_index P xs = Some j" "i = Suc j" by auto
    have "remove_at j xs = filter (\<lambda>x. f x \<noteq> k) xs"
      using Cons.prems(2,3) by (intro Cons.IH [OF j(1)]) auto
    with False j(2) show ?thesis by simp
  qed
qed

section \<open>Arrays searched by an identifier\<close>

text \<open>
  An array whose live entries are found by a key is read as the partial map that the search
  computes.  The lemmas say what appending, overwriting and removing an entry do to that map.
\<close>

definition lookup_by :: "('a \<Rightarrow> 'k) \<Rightarrow> 'a list \<Rightarrow> 'k \<Rightarrow> 'a option" where
  "lookup_by key xs k = map_option ((!) xs) (find_index (\<lambda>x. key x = k) xs)"

lemma lookup_by_Nil [simp]: "lookup_by key [] k = None"
  by (simp add: lookup_by_def)

lemma lookup_by_Cons [simp]:
  "lookup_by key (x # xs) k = (if key x = k then Some x else lookup_by key xs k)"
  by (cases "find_index (\<lambda>x. key x = k) xs") (simp_all add: lookup_by_def del: find_index_None)

lemma lookup_by_None: "lookup_by key xs k = None \<longleftrightarrow> k \<notin> key ` set xs"
  by (induction xs) auto

lemma lookup_by_SomeD: "lookup_by key xs k = Some x \<Longrightarrow> x \<in> set xs \<and> key x = k"
  by (induction xs) (auto split: if_splits)

lemma lookup_by_mem: "distinct (map key xs) \<Longrightarrow> x \<in> set xs \<Longrightarrow> lookup_by key xs (key x) = Some x"
  by (induction xs) auto

lemma find_index_lookup_None:
  "find_index (\<lambda>x. key x = k) xs = None \<longleftrightarrow> lookup_by key xs k = None"
  by (simp add: lookup_by_def del: find_index_None)

lemma find_index_lookup_Some:
  "find_index (\<lambda>x. key x = k) xs = Some i \<Longrightarrow> lookup_by key xs k = Some (xs ! i)"
  by (simp add: lookup_by_def)

lemma lookup_by_append:
  "lookup_by key (xs @ ys) k = (case lookup_by key xs k of Some x \<Rightarrow> Some x | None \<Rightarrow> lookup_by key ys k)"
  by (induction xs) auto

lemma lookup_by_update:
  "find_index (\<lambda>x. key x = k) xs = Some i \<Longrightarrow> key y = k \<Longrightarrow>
   lookup_by key (xs[i := y]) k' = (if k' = k then Some y else lookup_by key xs k')"
proof (induction xs arbitrary: i)
  case Nil
  then show ?case by simp
next
  case (Cons x xs)
  show ?case
  proof (cases "key x = k")
    case True
    with Cons.prems show ?thesis by simp
  next
    case False
    with Cons.prems obtain j where "find_index (\<lambda>x. key x = k) xs = Some j" "i = Suc j" by auto
    with Cons.IH [of j] Cons.prems(2) False show ?thesis by auto
  qed
qed

lemma lookup_by_filter:
  "lookup_by key (filter (\<lambda>x. key x \<noteq> k) xs) k' = (if k' = k then None else lookup_by key xs k')"
  by (induction xs) auto

lemma lookup_by_remove:
  assumes "find_index (\<lambda>x. key x = k) xs = Some i" and "distinct (map key xs)"
  shows "lookup_by key (remove_at i xs) k' = (if k' = k then None else lookup_by key xs k')"
  using remove_at_find_index [OF assms(1), of key k] assms(2) by (simp add: lookup_by_filter)

lemma distinct_append_key:
  "distinct (map key xs) \<Longrightarrow> lookup_by key xs (key x) = None \<Longrightarrow> distinct (map key (xs @ [x]))"
  by (auto simp: lookup_by_None)

lemma distinct_update_key:
  assumes "distinct (map key xs)" and "find_index (\<lambda>x. key x = k) xs = Some i" and "key y = k"
  shows "distinct (map key (xs[i := y]))"
proof -
  have "map key (xs[i := y]) = map key xs"
    using assms(2,3) find_index_less [OF assms(2)] find_index_holds [OF assms(2)]
    by (simp add: map_update list_update_same_conv)
  with assms(1) show ?thesis by simp
qed

lemma distinct_remove_at: "distinct (map key xs) \<Longrightarrow> distinct (map key (remove_at i xs))"
proof (induction xs arbitrary: i)
  case Nil
  then show ?case by (simp add: remove_at_def)
next
  case (Cons x xs)
  then show ?case
    by (cases i) (use set_remove_at_subset in fastforce)+
qed

text \<open>Two key-searched arrays with the same keys have the same length.\<close>

lemma lookup_by_same_length:
  assumes "distinct (map key xs)" and "distinct (map key ys)"
    and "\<And>k. lookup_by key xs k = None \<longleftrightarrow> lookup_by key ys k = None"
  shows "length xs = length ys"
proof -
  from assms(3) have "key ` set xs = key ` set ys" by (auto simp: lookup_by_None)
  with assms(1,2) show ?thesis by (metis distinct_card length_map list.set_map)
qed

text \<open>\<dots> and with the same content they hold the same entries.\<close>

lemma lookup_by_same_set:
  assumes "distinct (map key xs)" and "distinct (map key ys)"
    and "\<And>k. lookup_by key xs k = lookup_by key ys k"
  shows "set xs = set ys"
proof -
  have "x \<in> set xs \<longleftrightarrow> lookup_by key xs (key x) = Some x" for x
    using lookup_by_mem [OF assms(1)] lookup_by_SomeD by metis
  moreover have "x \<in> set ys \<longleftrightarrow> lookup_by key ys (key x) = Some x" for x
    using lookup_by_mem [OF assms(2)] lookup_by_SomeD by metis
  ultimately show ?thesis using assms(3) by auto
qed

section \<open>Tables of slots\<close>

text \<open>
  A table whose slots are live or free, searched by a key among the live ones: writing a live
  entry into a slot that is free or holds the same key adds it to the map the table stands for.
\<close>

lemma filter_update:
  assumes "i < length xs"
  shows "filter P (xs[i := y]) = filter P (take i xs) @ (if P y then [y] else []) @ filter P (drop (Suc i) xs)"
  using assms by (simp add: upd_conv_take_nth_drop)

lemma filter_split_nth:
  assumes "i < length xs"
  shows "filter P xs = filter P (take i xs) @ (if P (xs ! i) then [xs ! i] else []) @ filter P (drop (Suc i) xs)"
  using filter_update [OF assms, of P "xs ! i"] by simp

lemma slot_write:
  assumes "distinct (map key (filter live xs))" and "i < length xs" and "live y"
    and "if live (xs ! i) then key (xs ! i) = key y else lookup_by key (filter live xs) (key y) = None"
  shows "distinct (map key (filter live (xs[i := y])))"
    and "lookup_by key (filter live (xs[i := y])) = (lookup_by key (filter live xs))(key y \<mapsto> y)"
proof -
  let ?l = "filter live (take i xs)" and ?r = "filter live (drop (Suc i) xs)"
  have new: "filter live (xs[i := y]) = ?l @ y # ?r" using filter_update [OF assms(2), of live y] assms(3) by simp
  have old: "filter live xs = ?l @ (if live (xs ! i) then [xs ! i] else []) @ ?r"
    by (rule filter_split_nth [OF assms(2)])
  have fresh: "key y \<notin> key ` set (?l @ ?r)"
    using assms(1,4) unfolding lookup_by_None old by (auto split: if_splits)
  show "distinct (map key (filter live (xs[i := y])))"
    using assms(1) fresh unfolding new old by (auto split: if_splits)
  show "lookup_by key (filter live (xs[i := y])) = (lookup_by key (filter live xs))(key y \<mapsto> y)"
  proof
    fix k
    have none: "k = key y \<Longrightarrow> lookup_by key ?l k = None" using fresh by (simp add: lookup_by_None image_Un)
    show "lookup_by key (filter live (xs[i := y])) k = ((lookup_by key (filter live xs))(key y \<mapsto> y)) k"
      using none assms(4) unfolding new old by (auto simp: lookup_by_append split: option.splits if_splits)
  qed
qed

text \<open>A key is in one live slot at most.\<close>

lemma slot_unique:
  assumes "distinct (map key (filter live xs))" and "i < length xs" and "j < length xs"
    and "live (xs ! i)" and "live (xs ! j)" and "key (xs ! i) = key (xs ! j)"
  shows "i = j"
  using assms
proof (induction xs arbitrary: i j)
  case Nil
  then show ?case by simp
next
  case (Cons x xs)
  have other: "key (xs ! k) \<noteq> key x" if "live x" "k < length xs" "live (xs ! k)" for k
  proof
    assume "key (xs ! k) = key x"
    moreover have "key (xs ! k) \<in> key ` set (filter live xs)" using that(2,3) by (intro imageI) simp
    moreover have "key x \<notin> key ` set (filter live xs)" using Cons.prems(1) that(1) by simp
    ultimately show False by simp
  qed
  show ?case
  proof (cases i; cases j)
    fix i' j' assume "i = Suc i'" "j = Suc j'"
    with Cons show ?thesis by (auto split: if_splits)
  qed (use Cons.prems other in \<open>auto\<close>)
qed

lemma slot_lookup:
  assumes "distinct (map key (filter live xs))" and "i < length xs" and "live (xs ! i)"
  shows "lookup_by key (filter live xs) (key (xs ! i)) = Some (xs ! i)"
  using assms by (intro lookup_by_mem) auto

lemma lookup_by_filter_distinct:
  "distinct (map key xs) \<Longrightarrow>
   lookup_by key (filter P xs) k = Option.bind (lookup_by key xs k) (\<lambda>x. if P x then Some x else None)"
proof (induction xs)
  case (Cons x xs)
  have "lookup_by key (filter P xs) (key x) = None" using Cons.prems by (auto simp: lookup_by_None)
  with Cons show ?case by auto
qed simp

text \<open>The last match of a scan over an array.\<close>

fun find_last :: "('a \<Rightarrow> bool) \<Rightarrow> 'a list \<Rightarrow> nat \<Rightarrow> nat option \<Rightarrow> nat option" where
  "find_last P [] k found = found"
| "find_last P (x # xs) k found = find_last P xs (Suc k) (if P x then Some k else found)"

lemma find_last_None: "find_last P xs k found = None \<longleftrightarrow> found = None \<and> (\<forall>x \<in> set xs. \<not> P x)"
  by (induction xs arbitrary: k found) auto

lemma find_last_SomeD:
  "find_last P xs k found = Some i \<Longrightarrow> found = Some i \<or> (k \<le> i \<and> i - k < length xs \<and> P (xs ! (i - k)))"
proof (induction xs arbitrary: k found)
  case Nil
  then show ?case by simp
next
  case (Cons x xs)
  from Cons.prems have "find_last P xs (Suc k) (if P x then Some k else found) = Some i" by simp
  from Cons.IH [OF this] show ?case
  proof
    assume "(if P x then Some k else found) = Some i"
    then show ?thesis by (cases "P x") auto
  next
    assume later: "Suc k \<le> i \<and> i - Suc k < length xs \<and> P (xs ! (i - Suc k))"
    then have "i - k = Suc (i - Suc k)" by arith
    with later show ?thesis by simp
  qed
qed

end
