(* ===== verification/Chat_Admission.thy ===== *)
theory Chat_Admission
  imports Prelude
begin

text \<open>
  Chat text admission, \<open>src/shared/chat_admission.c\<close>.  A buffer is the list of its bytes
  from the pointer on; a NULL pointer is \<open>None\<close>.  The caller's input buffer holds at least
  \<open>input_capacity\<close> bytes or a NUL byte earlier (reading on is undefined behaviour in C).
  The result pairs the returned boolean with the C string left in the output buffer
  (\<open>None\<close> where the code returns before it writes the buffer).
\<close>

definition SHROOM_CHAT_MAX_MESSAGE_LENGTH :: nat where "SHROOM_CHAT_MAX_MESSAGE_LENGTH = 200"

definition IsAsciiWhitespace :: "u8 \<Rightarrow> bool" where
  "IsAsciiWhitespace c \<longleftrightarrow> c = 0x20 \<or> c = 0x09 \<or> c = 0x0a \<or> c = 0x0d \<or> c = 0x0c \<or> c = 0x0b"

text \<open>The length of the string in a buffer of a given capacity (the capacity if unterminated).\<close>

definition bounded_length :: "u8 list \<Rightarrow> nat \<Rightarrow> nat" where
  "bounded_length input capacity = length (takeWhile (\<lambda>c. c \<noteq> 0) (take capacity input))"

text \<open>
  The main loop over the input bytes; \<open>output\<close> is what has been written so far,
  \<open>pending_space\<close> the flag of the code.  \<open>None\<close> is the early \<open>return false\<close> when
  the output buffer is full.
\<close>

fun canonicalize_loop :: "nat \<Rightarrow> u8 list \<Rightarrow> u8 list \<Rightarrow> bool \<Rightarrow> u8 list option" where
  "canonicalize_loop output_capacity [] output pending_space = Some output"
| "canonicalize_loop output_capacity (character # rest) output pending_space =
     (if 0x7e < character then canonicalize_loop output_capacity rest output pending_space
      else if IsAsciiWhitespace character then
        canonicalize_loop output_capacity rest output
          (if 0 < length output then True else pending_space)
      else if pending_space then
        (if output_capacity \<le> length output + 1 then None
         else
           let output1 = output @ [0x20]
           in if output_capacity \<le> length output1 + 1 then None
              else canonicalize_loop output_capacity rest (output1 @ [character]) False)
      else if output_capacity \<le> length output + 1 then None
      else canonicalize_loop output_capacity rest (output @ [character]) False)"

definition ShroomChatCanonicalizeMessage ::
  "u8 list option \<Rightarrow> nat \<Rightarrow> bool \<Rightarrow> nat \<Rightarrow> bool \<times> u8 list option" where
  "ShroomChatCanonicalizeMessage input input_capacity output_present output_capacity =
     (case input of
        None \<Rightarrow> (False, None)
      | Some bytes \<Rightarrow>
          if \<not> output_present \<or> output_capacity = 0 then (False, None)
          else
            let input_length = bounded_length bytes input_capacity
            in if input_length = input_capacity \<or> SHROOM_CHAT_MAX_MESSAGE_LENGTH < input_length
               then (False, Some [])
               else
                 case canonicalize_loop output_capacity (take input_length bytes) [] False of
                   None \<Rightarrow> (False, Some [])
                 | Some output \<Rightarrow> (0 < length output, Some output))"

text \<open>The comparison stops at the end of the canonical text, not at the end of the message.\<close>

fun compare_prefix :: "u8 list \<Rightarrow> u8 list \<Rightarrow> bool" where
  "compare_prefix [] message = True"
| "compare_prefix (c # canonical) [] = False"
| "compare_prefix (c # canonical) (m # message) = (if c \<noteq> m then False else compare_prefix canonical message)"

definition ShroomChatIsCanonicalMessage :: "u8 list option \<Rightarrow> nat \<Rightarrow> bool" where
  "ShroomChatIsCanonicalMessage message capacity =
     (case ShroomChatCanonicalizeMessage message capacity True (SHROOM_CHAT_MAX_MESSAGE_LENGTH + 1) of
        (False, _) \<Rightarrow> False
      | (True, None) \<Rightarrow> False
      | (True, Some canonical) \<Rightarrow>
          (case message of None \<Rightarrow> False
           | Some bytes \<Rightarrow> compare_prefix canonical bytes \<and> canonical \<noteq> []))"

section \<open>The canonical text of a message\<close>

text \<open>
  The specification: drop the bytes above 0x7e, split at whitespace into nonempty words, join
  the words with single spaces.
\<close>

fun words_from :: "u8 list \<Rightarrow> u8 list \<Rightarrow> u8 list list" where
  "words_from w [] = (if w = [] then [] else [w])"
| "words_from w (c # cs) =
     (if 0x7e < c then words_from w cs
      else if IsAsciiWhitespace c then (if w = [] then words_from [] cs else w # words_from [] cs)
      else words_from (w @ [c]) cs)"

fun join_words :: "u8 list list \<Rightarrow> u8 list" where
  "join_words [] = []"
| "join_words [w] = w"
| "join_words (w # ws) = w @ 0x20 # join_words ws"

definition canonical_text :: "u8 list \<Rightarrow> u8 list" where
  "canonical_text cs = join_words (words_from [] cs)"

definition chat_byte :: "u8 \<Rightarrow> bool" where
  "chat_byte c \<longleftrightarrow> c \<le> 0x7e \<and> \<not> IsAsciiWhitespace c"

definition chat_word :: "u8 list \<Rightarrow> bool" where
  "chat_word w \<longleftrightarrow> w \<noteq> [] \<and> list_all chat_byte w"

lemma words_from_words: "list_all chat_byte w \<Longrightarrow> list_all chat_word (words_from w cs)"
  by (induction w cs rule: words_from.induct) (simp_all add: chat_word_def chat_byte_def not_less)

lemma words_from_Nil_iff: "words_from w cs = [] \<Longrightarrow> w = []"
  by (induction w cs rule: words_from.induct) (auto split: if_splits)

lemma join_words_Nil_iff: "list_all chat_word ws \<Longrightarrow> join_words ws = [] \<longleftrightarrow> ws = []"
  by (induction ws rule: join_words.induct) (auto simp: chat_word_def)

lemma join_words_Cons: "join_words (w # ws) = w @ (if ws = [] then [] else 0x20 # join_words ws)"
  by (cases ws) auto

text \<open>Writing with unlimited room, and what the capacity check adds.\<close>

fun write_all :: "u8 list \<Rightarrow> u8 list \<Rightarrow> bool \<Rightarrow> u8 list" where
  "write_all [] out pending = out"
| "write_all (c # cs) out pending =
     (if 0x7e < c then write_all cs out pending
      else if IsAsciiWhitespace c then write_all cs out (if out \<noteq> [] then True else pending)
      else write_all cs (out @ (if pending then [0x20] else []) @ [c]) False)"

lemma write_all_grows: "length out \<le> length (write_all cs out pending)"
proof (induction cs out pending rule: write_all.induct)
  case (2 c cs out pending)
  then show ?case by (cases "0x7e < c"; cases "IsAsciiWhitespace c") auto
qed simp

lemma loop_write_all:
  "length out < cap \<Longrightarrow>
   canonicalize_loop cap cs out pending =
     (if length (write_all cs out pending) < cap then Some (write_all cs out pending) else None)"
proof (induction cs out pending rule: write_all.induct)
  case (1 out pending)
  then show ?case by simp
next
  case (2 c cs out pending)
  consider "0x7e < c" | "\<not> 0x7e < c" "IsAsciiWhitespace c"
    | "\<not> 0x7e < c" "\<not> IsAsciiWhitespace c" by blast
  then show ?case
  proof cases
    case 3
    let ?out = "out @ (if pending then [0x20] else []) @ [c]"
    show ?thesis
    proof (cases "length ?out < cap")
      case True
      with 3 "2.IH"(3) show ?thesis by (auto simp: Let_def)
    next
      case False
      with write_all_grows [of ?out cs False] have "\<not> length (write_all cs ?out False) < cap" by linarith
      with 3 False show ?thesis by (auto simp: Let_def)
    qed
  qed (use 2 in auto)
qed

lemma write_all_words:
  "(w \<noteq> [] \<longrightarrow> write_all cs (p @ w) False = p @ join_words (words_from w cs)) \<and>
   (out \<noteq> [] \<longrightarrow> write_all cs out True =
      out @ (if words_from [] cs = [] then [] else 0x20 # join_words (words_from [] cs)))"
proof (induction cs arbitrary: w p out)
  case Nil
  then show ?case by simp
next
  case (Cons c cs)
  consider "0x7e < c" | "\<not> 0x7e < c" "IsAsciiWhitespace c"
    | "\<not> 0x7e < c" "\<not> IsAsciiWhitespace c" by blast
  then show ?case
  proof cases
    case 1
    with Cons.IH show ?thesis by simp
  next
    case 2
    with Cons.IH [where out = "p @ w"] Cons.IH [where out = out] show ?thesis
      by (auto simp: join_words_Cons)
  next
    case 3
    have "words_from [c] cs \<noteq> []" using words_from_Nil_iff [of "[c]" cs] by auto
    with 3 Cons.IH [where w = "w @ [c]" and p = p]
      Cons.IH [where w = "[c]" and p = "out @ [0x20]"] show ?thesis by auto
  qed
qed

lemma write_all_canonical: "write_all cs [] False = canonical_text cs"
proof (induction cs)
  case Nil
  then show ?case by (simp add: canonical_text_def)
next
  case (Cons c cs)
  then show ?case
    using write_all_words [of "[c]" cs "[]" "[]"] by (simp add: canonical_text_def)
qed

text \<open>A canonical text is its own canonical text.\<close>

lemma words_from_word: "list_all chat_byte v \<Longrightarrow> words_from w (v @ cs) = words_from (w @ v) cs"
  by (induction v arbitrary: w) (auto simp: chat_byte_def not_less [symmetric])

lemma words_from_join: "list_all chat_word ws \<Longrightarrow> words_from [] (join_words ws) = ws"
proof (induction ws)
  case Nil
  then show ?case by simp
next
  case (Cons w ws)
  then have w: "w \<noteq> []" "list_all chat_byte w" by (auto simp: chat_word_def)
  from Cons w words_from_word [OF w(2), of "[]" "[]"] show ?case
    by (simp add: join_words_Cons words_from_word IsAsciiWhitespace_def)
qed

lemma canonical_text_idem: "canonical_text (canonical_text cs) = canonical_text cs"
  using words_from_words [of "[]" cs] by (simp add: canonical_text_def words_from_join)

lemma canonical_text_length: "length (canonical_text cs) \<le> length cs"
proof -
  have "length (write_all cs out pending) \<le> length out + (if pending then 1 else 0) + length cs"
    for out pending
  proof (induction cs out pending rule: write_all.induct)
    case (2 c cs out pending)
    then show ?case by (cases "0x7e < c"; cases "IsAsciiWhitespace c") (auto split: if_splits)
  qed simp
  from this [of "[]" False] show ?thesis by (simp add: write_all_canonical)
qed

lemma canonical_text_bytes: "c \<in> set (canonical_text cs) \<Longrightarrow> c \<in> insert 0x20 (set cs)"
proof -
  have "set (write_all cs out pending) \<subseteq> set out \<union> set cs \<union> {0x20}" for out pending
    by (induction cs out pending rule: write_all.induct) (fastforce split: if_splits)+
  from this [of "[]" False] show "c \<in> set (canonical_text cs) \<Longrightarrow> c \<in> insert 0x20 (set cs)"
    by (auto simp: write_all_canonical)
qed

section \<open>Properties\<close>

text \<open>The text of a buffer: its bytes up to the NUL.\<close>

definition buffer_text :: "u8 list \<Rightarrow> nat \<Rightarrow> u8 list" where
  "buffer_text bytes capacity = takeWhile (\<lambda>c. c \<noteq> 0) (take capacity bytes)"

lemma bounded_length_text: "bounded_length bytes capacity = length (buffer_text bytes capacity)"
  by (simp add: bounded_length_def buffer_text_def)

lemma take_bounded_length: "take (length (buffer_text bytes capacity)) bytes = buffer_text bytes capacity"
proof -
  have "length (buffer_text bytes capacity) \<le> capacity"
    using length_takeWhile_le [of _ "take capacity bytes"] by (simp add: buffer_text_def)
  then have "take (length (buffer_text bytes capacity)) bytes =
      take (length (buffer_text bytes capacity)) (take capacity bytes)" by (simp add: min_absorb1)
  also have "\<dots> = buffer_text bytes capacity"
    unfolding buffer_text_def by (rule takeWhile_eq_take [symmetric])
  finally show ?thesis .
qed

lemma canonicalize_unfold:
  assumes "0 < output_capacity"
  shows "ShroomChatCanonicalizeMessage (Some bytes) capacity True output_capacity =
     (let text = buffer_text bytes capacity
      in if length text < capacity \<and> length text \<le> SHROOM_CHAT_MAX_MESSAGE_LENGTH \<and>
            length (canonical_text text) < output_capacity
         then (canonical_text text \<noteq> [], Some (canonical_text text))
         else (False, Some []))"
proof -
  have le: "length (buffer_text bytes capacity) \<le> capacity"
    using length_takeWhile_le [of _ "take capacity bytes"] by (simp add: buffer_text_def)
  show ?thesis
    using assms le
    by (auto simp: ShroomChatCanonicalizeMessage_def Let_def loop_write_all write_all_canonical
        take_bounded_length bounded_length_text)
qed

text \<open>C15. The single pass with its pending-space flag computes the specified text: when the message
  is terminated, at most 200 bytes long and its canonical text fits the output buffer, the
  buffer holds exactly the words of the message (bytes above 0x7e removed) joined by single
  spaces, and the call succeeds if there is at least one word; otherwise the buffer is empty
  and the call fails.\<close>

theorem canonicalize_computes_canonical_text:
  assumes "0 < output_capacity"
  shows "ShroomChatCanonicalizeMessage (Some bytes) capacity True output_capacity =
     (let text = buffer_text bytes capacity; canonical = join_words (words_from [] text)
      in if length text < capacity \<and> length text \<le> 200 \<and> length canonical < output_capacity
         then (words_from [] text \<noteq> [], Some canonical)
         else (False, Some []))"
  using join_words_Nil_iff [OF words_from_words [of "[]"]]
  by (simp add: canonicalize_unfold [OF assms] Let_def canonical_text_def SHROOM_CHAT_MAX_MESSAGE_LENGTH_def)

theorem canonicalize_computes_canonical_text_witness:
  "ShroomChatCanonicalizeMessage (Some [0x20, 0x48, 0x80, 0x69, 0x09, 0x0a, 0x79, 0x20, 0, 0x41]) 10 True 201
     = (True, Some [0x48, 0x69, 0x20, 0x79])"
  by (subst canonicalize_computes_canonical_text)
    (simp_all add: buffer_text_def IsAsciiWhitespace_def)

text \<open>C16. Canonicalisation is idempotent: what the server broadcasts after admitting a message is
  accepted unchanged by the same check on the receiving side.\<close>

theorem canonicalize_idempotent:
  assumes "ShroomChatCanonicalizeMessage (Some bytes) capacity True 201 = (True, Some out)"
  shows "ShroomChatCanonicalizeMessage (Some (out @ [0])) 201 True 201 = (True, Some out) \<and>
         ShroomChatIsCanonicalMessage (Some (out @ [0])) 201"
proof -
  let ?text = "buffer_text bytes capacity"
  from assms have out: "out = canonical_text ?text" "out \<noteq> []" "length out < 201"
    by (auto simp: canonicalize_unfold Let_def SHROOM_CHAT_MAX_MESSAGE_LENGTH_def split: if_splits)
  have "0 \<notin> set ?text" by (auto simp: buffer_text_def dest: set_takeWhileD)
  then have "0 \<notin> set out" using canonical_text_bytes [of 0 ?text] out(1) by auto
  then have "takeWhile (\<lambda>c. c \<noteq> 0) (out @ [0]) = out @ takeWhile (\<lambda>c. c \<noteq> 0) [0]"
    by (intro takeWhile_append2) auto
  then have body: "buffer_text (out @ [0]) 201 = out"
    using out(3) by (simp add: buffer_text_def)
  have idem: "canonical_text out = out" by (simp add: out(1) canonical_text_idem)
  have again: "ShroomChatCanonicalizeMessage (Some (out @ [0])) 201 True 201 = (True, Some out)"
    using out body idem by (simp add: canonicalize_unfold Let_def SHROOM_CHAT_MAX_MESSAGE_LENGTH_def)
  have "compare_prefix xs (xs @ ys)" for xs ys by (induction xs) auto
  with again out(2) show ?thesis
    by (simp add: ShroomChatIsCanonicalMessage_def SHROOM_CHAT_MAX_MESSAGE_LENGTH_def)
qed

theorem canonicalize_idempotent_witness:
  "ShroomChatIsCanonicalMessage (Some ([0x48, 0x69, 0x20, 0x79] @ [0])) 201"
proof -
  have "ShroomChatCanonicalizeMessage (Some [0x20, 0x48, 0x80, 0x69, 0x09, 0x0a, 0x79, 0x20, 0, 0x41]) 10 True 201
     = (True, Some [0x48, 0x69, 0x20, 0x79])"
    by (simp add: canonicalize_unfold canonical_text_def buffer_text_def IsAsciiWhitespace_def
        SHROOM_CHAT_MAX_MESSAGE_LENGTH_def)
  from canonicalize_idempotent [OF this] show ?thesis by blast
qed

text \<open>C17. What the receiving check really accepts: a message is taken as canonical exactly when its
  canonical text is nonempty and is a prefix of the message; in particular a message with
  trailing whitespace (\<open>"Hi "\<close>) passes although canonicalising it changes it.\<close>

theorem is_canonical_accepts_prefix:
  "(ShroomChatIsCanonicalMessage (Some bytes) capacity \<longleftrightarrow>
      length (buffer_text bytes capacity) < capacity \<and> length (buffer_text bytes capacity) \<le> 200 \<and>
      canonical_text (buffer_text bytes capacity) \<noteq> [] \<and>
      take (length (canonical_text (buffer_text bytes capacity))) bytes =
        canonical_text (buffer_text bytes capacity)) \<and>
   ShroomChatIsCanonicalMessage (Some [0x48, 0x69, 0x20, 0]) 4 \<and>
   canonical_text (buffer_text [0x48, 0x69, 0x20, 0] 4) = [0x48, 0x69]"
proof -
  have prefix: "compare_prefix xs ys \<longleftrightarrow> take (length xs) ys = xs" for xs ys
    by (induction xs ys rule: compare_prefix.induct) auto
  have main: "ShroomChatIsCanonicalMessage (Some bytes) capacity \<longleftrightarrow>
      length (buffer_text bytes capacity) < capacity \<and> length (buffer_text bytes capacity) \<le> 200 \<and>
      canonical_text (buffer_text bytes capacity) \<noteq> [] \<and>
      take (length (canonical_text (buffer_text bytes capacity))) bytes =
        canonical_text (buffer_text bytes capacity)" for bytes capacity
    using canonical_text_length [of "buffer_text bytes capacity"]
    by (auto simp: ShroomChatIsCanonicalMessage_def canonicalize_unfold Let_def prefix
        SHROOM_CHAT_MAX_MESSAGE_LENGTH_def split: bool.splits)
  have hi: "canonical_text (buffer_text [0x48, 0x69, 0x20, 0] 4) = [0x48, 0x69]"
    by (simp add: canonical_text_def buffer_text_def IsAsciiWhitespace_def)
  have "length (buffer_text [0x48, 0x69, 0x20, 0] 4) = 3" by (simp add: buffer_text_def)
  with main hi show ?thesis by simp
qed

end
