(* ===== verification/Lifecycle.thy ===== *)
theory Lifecycle
  imports Prelude
begin

text \<open>
  The server lifecycle of \<open>src/shared/lifecycle.c\<close>: the states and events of
  \<open>lifecycle.h\<close>, the guarded transition function and the queries on it.  A NULL
  \<open>ShroomLifecycle*\<close> is \<open>None\<close>.  The error message is a nullable C string.
\<close>

datatype ShroomLifecycleState =
    SHROOM_LIFECYCLE_UNINITIALIZED
  | SHROOM_LIFECYCLE_INITIALIZING
  | SHROOM_LIFECYCLE_INITIALIZED
  | SHROOM_LIFECYCLE_RUNNING
  | SHROOM_LIFECYCLE_PAUSED
  | SHROOM_LIFECYCLE_SHUTTING_DOWN
  | SHROOM_LIFECYCLE_SHUTDOWN
  | SHROOM_LIFECYCLE_ERROR

datatype ShroomLifecycleEvent =
    SHROOM_LIFECYCLE_EVENT_INIT
  | SHROOM_LIFECYCLE_EVENT_START
  | SHROOM_LIFECYCLE_EVENT_PAUSE
  | SHROOM_LIFECYCLE_EVENT_RESUME
  | SHROOM_LIFECYCLE_EVENT_STOP
  | SHROOM_LIFECYCLE_EVENT_SHUTDOWN
  | SHROOM_LIFECYCLE_EVENT_ERROR

record ShroomLifecycle =
  lc_state :: ShroomLifecycleState
  lc_shutdown_requested :: bool
  lc_error_code :: u32
  lc_error_message :: "string option"

definition ShroomLifecycleInit :: "ShroomLifecycle option \<Rightarrow> ShroomLifecycle option" where
  "ShroomLifecycleInit lifecycle =
     (case lifecycle of
        None \<Rightarrow> None
      | Some _ \<Rightarrow> Some \<lparr>lc_state = SHROOM_LIFECYCLE_UNINITIALIZED, lc_shutdown_requested = False,
                       lc_error_code = 0, lc_error_message = None\<rparr>)"

definition ShroomLifecycleCanTransition ::
  "ShroomLifecycle option \<Rightarrow> ShroomLifecycleEvent \<Rightarrow> bool" where
  "ShroomLifecycleCanTransition lifecycle event =
     (case lifecycle of
        None \<Rightarrow> False
      | Some l \<Rightarrow>
          (case lc_state l of
             SHROOM_LIFECYCLE_UNINITIALIZED \<Rightarrow> event = SHROOM_LIFECYCLE_EVENT_INIT
           | SHROOM_LIFECYCLE_INITIALIZING \<Rightarrow>
               event = SHROOM_LIFECYCLE_EVENT_START \<or> event = SHROOM_LIFECYCLE_EVENT_ERROR
           | SHROOM_LIFECYCLE_INITIALIZED \<Rightarrow>
               event = SHROOM_LIFECYCLE_EVENT_START \<or> event = SHROOM_LIFECYCLE_EVENT_SHUTDOWN \<or>
               event = SHROOM_LIFECYCLE_EVENT_ERROR
           | SHROOM_LIFECYCLE_RUNNING \<Rightarrow>
               event = SHROOM_LIFECYCLE_EVENT_PAUSE \<or> event = SHROOM_LIFECYCLE_EVENT_STOP \<or>
               event = SHROOM_LIFECYCLE_EVENT_SHUTDOWN \<or> event = SHROOM_LIFECYCLE_EVENT_ERROR
           | SHROOM_LIFECYCLE_PAUSED \<Rightarrow>
               event = SHROOM_LIFECYCLE_EVENT_RESUME \<or> event = SHROOM_LIFECYCLE_EVENT_STOP \<or>
               event = SHROOM_LIFECYCLE_EVENT_SHUTDOWN \<or> event = SHROOM_LIFECYCLE_EVENT_ERROR
           | SHROOM_LIFECYCLE_SHUTTING_DOWN \<Rightarrow>
               event = SHROOM_LIFECYCLE_EVENT_SHUTDOWN \<or> event = SHROOM_LIFECYCLE_EVENT_ERROR
           | SHROOM_LIFECYCLE_SHUTDOWN \<Rightarrow> False
           | SHROOM_LIFECYCLE_ERROR \<Rightarrow> event = SHROOM_LIFECYCLE_EVENT_SHUTDOWN))"

definition ShroomLifecycleTransition ::
  "ShroomLifecycle option \<Rightarrow> ShroomLifecycleEvent \<Rightarrow> ShroomLifecycle option \<times> bool" where
  "ShroomLifecycleTransition lifecycle event =
     (case lifecycle of
        None \<Rightarrow> (None, False)
      | Some l \<Rightarrow>
          if \<not> ShroomLifecycleCanTransition (Some l) event then (Some l, False)
          else
            (case event of
               SHROOM_LIFECYCLE_EVENT_INIT \<Rightarrow>
                 (Some (l\<lparr>lc_state := SHROOM_LIFECYCLE_INITIALIZING\<rparr>), True)
             | SHROOM_LIFECYCLE_EVENT_START \<Rightarrow>
                 (if lc_state l = SHROOM_LIFECYCLE_INITIALIZING \<or>
                     lc_state l = SHROOM_LIFECYCLE_INITIALIZED
                  then (Some (l\<lparr>lc_state := SHROOM_LIFECYCLE_RUNNING\<rparr>), True)
                  else if lc_state l = SHROOM_LIFECYCLE_PAUSED
                  then (Some (l\<lparr>lc_state := SHROOM_LIFECYCLE_RUNNING\<rparr>), True)
                  else (Some l, True))
             | SHROOM_LIFECYCLE_EVENT_PAUSE \<Rightarrow>
                 (Some (l\<lparr>lc_state := SHROOM_LIFECYCLE_PAUSED\<rparr>), True)
             | SHROOM_LIFECYCLE_EVENT_RESUME \<Rightarrow>
                 (Some (l\<lparr>lc_state := SHROOM_LIFECYCLE_RUNNING\<rparr>), True)
             | SHROOM_LIFECYCLE_EVENT_STOP \<Rightarrow>
                 (Some (l\<lparr>lc_state := SHROOM_LIFECYCLE_SHUTTING_DOWN\<rparr>), True)
             | SHROOM_LIFECYCLE_EVENT_SHUTDOWN \<Rightarrow>
                 (Some (l\<lparr>lc_state := SHROOM_LIFECYCLE_SHUTDOWN\<rparr>), True)
             | SHROOM_LIFECYCLE_EVENT_ERROR \<Rightarrow>
                 (Some (l\<lparr>lc_state := SHROOM_LIFECYCLE_ERROR\<rparr>), True)))"

definition ShroomLifecycleRequestShutdown :: "ShroomLifecycle option \<Rightarrow> ShroomLifecycle option" where
  "ShroomLifecycleRequestShutdown lifecycle =
     (case lifecycle of None \<Rightarrow> None | Some l \<Rightarrow> Some (l\<lparr>lc_shutdown_requested := True\<rparr>))"

definition ShroomLifecycleIsRunning :: "ShroomLifecycle option \<Rightarrow> bool" where
  "ShroomLifecycleIsRunning lifecycle =
     (case lifecycle of
        None \<Rightarrow> False
      | Some l \<Rightarrow> lc_state l = SHROOM_LIFECYCLE_RUNNING \<or> lc_state l = SHROOM_LIFECYCLE_PAUSED)"

definition ShroomLifecycleIsShutdownRequested :: "ShroomLifecycle option \<Rightarrow> bool" where
  "ShroomLifecycleIsShutdownRequested lifecycle =
     (case lifecycle of
        None \<Rightarrow> True
      | Some l \<Rightarrow> lc_shutdown_requested l \<or> lc_state l = SHROOM_LIFECYCLE_SHUTTING_DOWN \<or>
                  lc_state l = SHROOM_LIFECYCLE_SHUTDOWN)"

definition ShroomLifecycleSetError ::
  "ShroomLifecycle option \<Rightarrow> u32 \<Rightarrow> string option \<Rightarrow> ShroomLifecycle option" where
  "ShroomLifecycleSetError lifecycle error_code error_message =
     (case lifecycle of
        None \<Rightarrow> None
      | Some l \<Rightarrow> Some (l\<lparr>lc_error_code := error_code, lc_error_message := error_message,
                         lc_state := SHROOM_LIFECYCLE_ERROR\<rparr>))"

fun ShroomLifecycleStateToString :: "ShroomLifecycleState \<Rightarrow> string" where
  "ShroomLifecycleStateToString SHROOM_LIFECYCLE_UNINITIALIZED = ''UNINITIALIZED''"
| "ShroomLifecycleStateToString SHROOM_LIFECYCLE_INITIALIZING = ''INITIALIZING''"
| "ShroomLifecycleStateToString SHROOM_LIFECYCLE_INITIALIZED = ''INITIALIZED''"
| "ShroomLifecycleStateToString SHROOM_LIFECYCLE_RUNNING = ''RUNNING''"
| "ShroomLifecycleStateToString SHROOM_LIFECYCLE_PAUSED = ''PAUSED''"
| "ShroomLifecycleStateToString SHROOM_LIFECYCLE_SHUTTING_DOWN = ''SHUTTING_DOWN''"
| "ShroomLifecycleStateToString SHROOM_LIFECYCLE_SHUTDOWN = ''SHUTDOWN''"
| "ShroomLifecycleStateToString SHROOM_LIFECYCLE_ERROR = ''ERROR''"

fun ShroomLifecycleEventToString :: "ShroomLifecycleEvent \<Rightarrow> string" where
  "ShroomLifecycleEventToString SHROOM_LIFECYCLE_EVENT_INIT = ''INIT''"
| "ShroomLifecycleEventToString SHROOM_LIFECYCLE_EVENT_START = ''START''"
| "ShroomLifecycleEventToString SHROOM_LIFECYCLE_EVENT_PAUSE = ''PAUSE''"
| "ShroomLifecycleEventToString SHROOM_LIFECYCLE_EVENT_RESUME = ''RESUME''"
| "ShroomLifecycleEventToString SHROOM_LIFECYCLE_EVENT_STOP = ''STOP''"
| "ShroomLifecycleEventToString SHROOM_LIFECYCLE_EVENT_SHUTDOWN = ''SHUTDOWN''"
| "ShroomLifecycleEventToString SHROOM_LIFECYCLE_EVENT_ERROR = ''ERROR''"

section \<open>The operations as steps\<close>

text \<open>
  One step is one call of a state-changing operation on a live lifecycle object.
\<close>

inductive lifecycle_step :: "ShroomLifecycle \<Rightarrow> ShroomLifecycle \<Rightarrow> bool" where
  transition: "ShroomLifecycleTransition (Some l) event = (Some l', ok) \<Longrightarrow> lifecycle_step l l'"
| request_shutdown: "ShroomLifecycleRequestShutdown (Some l) = Some l' \<Longrightarrow> lifecycle_step l l'"

inductive_cases lifecycle_stepE: "lifecycle_step l l'"

text \<open>How far along the lifecycle a state is; no transition goes back.\<close>

fun lifecycle_rank :: "ShroomLifecycleState \<Rightarrow> nat" where
  "lifecycle_rank SHROOM_LIFECYCLE_UNINITIALIZED = 0"
| "lifecycle_rank SHROOM_LIFECYCLE_INITIALIZING = 1"
| "lifecycle_rank SHROOM_LIFECYCLE_INITIALIZED = 1"
| "lifecycle_rank SHROOM_LIFECYCLE_RUNNING = 2"
| "lifecycle_rank SHROOM_LIFECYCLE_PAUSED = 2"
| "lifecycle_rank SHROOM_LIFECYCLE_SHUTTING_DOWN = 3"
| "lifecycle_rank SHROOM_LIFECYCLE_ERROR = 4"
| "lifecycle_rank SHROOM_LIFECYCLE_SHUTDOWN = 5"

lemmas lifecycle_defs =
  ShroomLifecycleCanTransition_def ShroomLifecycleTransition_def
  ShroomLifecycleRequestShutdown_def ShroomLifecycleIsShutdownRequested_def
  ShroomLifecycleIsRunning_def

lemma transition_rank:
  "ShroomLifecycleTransition (Some l) event = (Some l', ok) \<Longrightarrow>
     lifecycle_rank (lc_state l) \<le> lifecycle_rank (lc_state l')"
  by (cases "lc_state l"; cases event) (auto simp: lifecycle_defs split: if_splits)

lemma transition_frame:
  "ShroomLifecycleTransition (Some l) event = (Some l', ok) \<Longrightarrow>
     lc_shutdown_requested l' = lc_shutdown_requested l \<and> lc_error_code l' = lc_error_code l \<and>
     lc_error_message l' = lc_error_message l"
  by (cases "lc_state l"; cases event) (auto simp: lifecycle_defs split: if_splits)

lemma step_rank: "lifecycle_step l l' \<Longrightarrow> lifecycle_rank (lc_state l) \<le> lifecycle_rank (lc_state l')"
  by (auto elim!: lifecycle_stepE dest: transition_rank simp: ShroomLifecycleRequestShutdown_def)

lemma step_requested: "lifecycle_step l l' \<Longrightarrow> lc_shutdown_requested l \<Longrightarrow> lc_shutdown_requested l'"
  by (auto elim!: lifecycle_stepE dest!: transition_frame simp: ShroomLifecycleRequestShutdown_def)

lemma rank_not_past_shutdown:
  "lifecycle_rank s \<ge> 3 \<Longrightarrow>
     s = SHROOM_LIFECYCLE_SHUTTING_DOWN \<or> s = SHROOM_LIFECYCLE_SHUTDOWN \<or> s = SHROOM_LIFECYCLE_ERROR"
  by (cases s) auto

text \<open>C14. Along any sequence of transitions and shutdown requests the lifecycle never moves
  back: its rank (uninitialised, initialising, running or paused, shutting down, error, shut
  down) never decreases, a shutdown request is never forgotten, and the terminal state
  SHUTDOWN is never left.\<close>

theorem lifecycle_never_goes_back:
  assumes "lifecycle_step\<^sup>*\<^sup>* l l'"
  shows "lifecycle_rank (lc_state l) \<le> lifecycle_rank (lc_state l')
       \<and> (lc_shutdown_requested l \<longrightarrow> lc_shutdown_requested l')
       \<and> (lc_state l = SHROOM_LIFECYCLE_SHUTDOWN \<longrightarrow> lc_state l' = SHROOM_LIFECYCLE_SHUTDOWN)"
  using assms
proof (induction rule: rtranclp_induct)
  case base
  show ?case by simp
next
  case (step m n)
  have top: "s = SHROOM_LIFECYCLE_SHUTDOWN" if "5 \<le> lifecycle_rank s" for s
    using that by (cases s) auto
  from step.IH step_rank [OF step.hyps(2)] step_requested [OF step.hyps(2)] show ?case
    by (fastforce intro: top)
qed

theorem lifecycle_never_goes_back_witness:
  "let l = \<lparr>lc_state = SHROOM_LIFECYCLE_RUNNING, lc_shutdown_requested = True,
            lc_error_code = 0, lc_error_message = None\<rparr>;
       l' = l\<lparr>lc_state := SHROOM_LIFECYCLE_SHUTDOWN\<rparr>
   in lifecycle_step\<^sup>*\<^sup>* l l' \<and> lifecycle_rank (lc_state l) \<le> lifecycle_rank (lc_state l')"
proof -
  let ?l = "\<lparr>lc_state = SHROOM_LIFECYCLE_RUNNING, lc_shutdown_requested = True,
             lc_error_code = 0, lc_error_message = None\<rparr>"
  have "lifecycle_step ?l (?l\<lparr>lc_state := SHROOM_LIFECYCLE_SHUTDOWN\<rparr>)"
    by (rule lifecycle_step.transition [where event = SHROOM_LIFECYCLE_EVENT_SHUTDOWN and ok = True])
      (simp add: lifecycle_defs)
  then have r: "lifecycle_step\<^sup>*\<^sup>* ?l (?l\<lparr>lc_state := SHROOM_LIFECYCLE_SHUTDOWN\<rparr>)" by blast
  show ?thesis using r lifecycle_never_goes_back [OF r] by (simp add: Let_def)
qed

end
