(* ===== verification/Config.thy ===== *)
theory Config
  imports Prelude
begin

text \<open>The capacity that several parts of the program share (\<open>src/src/shared/config.h\<close>).\<close>

definition SHROOM_MAX_PARTICIPANTS :: nat where "SHROOM_MAX_PARTICIPANTS = 256"

end
