(* ===== verification/Intermission.thy ===== *)
theory Intermission
  imports Config
begin

text \<open>
  The rematch vote between two rounds, \<open>src/shared/intermission.c\<close>.  The array
  \<open>voters\<close> with its \<open>voter_count\<close> is the list of its live entries.  Votes
  are the bytes of \<open>ShroomRematchVote\<close>; tallies are 16-bit counters.
\<close>


abbreviation (input) SHROOM_REMATCH_VOTE_NONE :: u8 where "SHROOM_REMATCH_VOTE_NONE \<equiv> 0"
abbreviation (input) SHROOM_REMATCH_VOTE_PLAY_AGAIN :: u8 where "SHROOM_REMATCH_VOTE_PLAY_AGAIN \<equiv> 1"
abbreviation (input) SHROOM_REMATCH_VOTE_RETURN_TO_LOBBY :: u8 where
  "SHROOM_REMATCH_VOTE_RETURN_TO_LOBBY \<equiv> 2"
abbreviation (input) SHROOM_REMATCH_VOTE_SPECTATE :: u8 where "SHROOM_REMATCH_VOTE_SPECTATE \<equiv> 3"

record ShroomIntermissionVoter =
  iv_player_id :: u32
  iv_vote :: u8
  iv_eligible :: bool

record ShroomIntermissionState =
  is_voters :: "ShroomIntermissionVoter list"
  is_eligible_count :: u16
  is_play_again_votes :: u16
  is_return_to_lobby_votes :: u16
  is_spectate_votes :: u16
  is_round_id :: u32
  is_resolved :: bool
  is_decision :: u8

definition zero_intermission :: ShroomIntermissionState where
  "zero_intermission = \<lparr>is_voters = [], is_eligible_count = 0, is_play_again_votes = 0,
     is_return_to_lobby_votes = 0, is_spectate_votes = 0, is_round_id = 0, is_resolved = False,
     is_decision = 0\<rparr>"

definition AdjustTotal :: "ShroomIntermissionState \<Rightarrow> u8 \<Rightarrow> int \<Rightarrow> ShroomIntermissionState" where
  "AdjustTotal st vote delta =
     (if vote = SHROOM_REMATCH_VOTE_PLAY_AGAIN then
        st\<lparr>is_play_again_votes := word_of_int (uint (is_play_again_votes st) + delta)\<rparr>
      else if vote = SHROOM_REMATCH_VOTE_RETURN_TO_LOBBY then
        st\<lparr>is_return_to_lobby_votes := word_of_int (uint (is_return_to_lobby_votes st) + delta)\<rparr>
      else if vote = SHROOM_REMATCH_VOTE_SPECTATE then
        st\<lparr>is_spectate_votes := word_of_int (uint (is_spectate_votes st) + delta)\<rparr>
      else st)"

text \<open>
  The loop of \<open>ShroomIntermissionBegin\<close>: one voter per nonzero identifier.  A NULL
  identifier array (\<open>None\<close>) skips every iteration; otherwise the caller passes at
  least \<open>player_count\<close> identifiers.
\<close>

fun begin_voters :: "ShroomIntermissionState \<Rightarrow> u32 list \<Rightarrow> ShroomIntermissionState" where
  "begin_voters st [] = st"
| "begin_voters st (pid # pids) =
     (if pid = 0 then begin_voters st pids
      else begin_voters
             (st\<lparr>is_voters := is_voters st @
                   [\<lparr>iv_player_id = pid, iv_vote = SHROOM_REMATCH_VOTE_NONE, iv_eligible = True\<rparr>],
                 is_eligible_count := is_eligible_count st + 1\<rparr>) pids)"

definition ShroomIntermissionBegin ::
  "ShroomIntermissionState option \<Rightarrow> u32 list option \<Rightarrow> u16 \<Rightarrow> u32 \<Rightarrow>
     ShroomIntermissionState option" where
  "ShroomIntermissionBegin state player_ids player_count round_id =
     (case state of
        None \<Rightarrow> None
      | Some _ \<Rightarrow>
          let st = zero_intermission\<lparr>is_round_id := round_id\<rparr>;
              count = (if SHROOM_MAX_PARTICIPANTS < unat player_count
                       then SHROOM_MAX_PARTICIPANTS else unat player_count)
          in case player_ids of
               None \<Rightarrow> Some st
             | Some ids \<Rightarrow> Some (begin_voters st (take count ids)))"

definition is_voter_for :: "u32 \<Rightarrow> ShroomIntermissionVoter \<Rightarrow> bool" where
  "is_voter_for player_id v \<longleftrightarrow> iv_eligible v \<and> iv_player_id v = player_id"

definition ShroomIntermissionCastVote ::
  "ShroomIntermissionState option \<Rightarrow> u32 \<Rightarrow> u8 \<Rightarrow> ShroomIntermissionState option \<times> bool" where
  "ShroomIntermissionCastVote state player_id vote =
     (case state of
        None \<Rightarrow> (None, False)
      | Some st \<Rightarrow>
          if is_resolved st \<or> vote < SHROOM_REMATCH_VOTE_PLAY_AGAIN \<or>
             SHROOM_REMATCH_VOTE_SPECTATE < vote
          then (Some st, False)
          else
            case find_index (is_voter_for player_id) (is_voters st) of
              None \<Rightarrow> (Some st, False)
            | Some i \<Rightarrow>
                let voter = is_voters st ! i
                in if iv_vote voter = vote then (Some st, False)
                   else
                     let st1 = AdjustTotal st (iv_vote voter) (-1);
                         st2 = st1\<lparr>is_voters := (is_voters st1)[i := voter\<lparr>iv_vote := vote\<rparr>]\<rparr>;
                         st3 = AdjustTotal st2 vote 1
                     in (Some st3, True))"

definition ShroomIntermissionRemoveVoter ::
  "ShroomIntermissionState option \<Rightarrow> u32 \<Rightarrow> ShroomIntermissionState option \<times> bool" where
  "ShroomIntermissionRemoveVoter state player_id =
     (case state of
        None \<Rightarrow> (None, False)
      | Some st \<Rightarrow>
          if is_resolved st then (Some st, False)
          else
            case find_index (is_voter_for player_id) (is_voters st) of
              None \<Rightarrow> (Some st, False)
            | Some i \<Rightarrow>
                let voter = is_voters st ! i;
                    st1 = AdjustTotal st (iv_vote voter) (-1)
                in (Some (st1\<lparr>is_voters := (is_voters st1)[i := voter\<lparr>iv_eligible := False\<rparr>],
                              is_eligible_count := is_eligible_count st1 - 1\<rparr>), True))"

definition ShroomIntermissionAllEligibleVoted :: "ShroomIntermissionState option \<Rightarrow> bool" where
  "ShroomIntermissionAllEligibleVoted state =
     (case state of
        None \<Rightarrow> False
      | Some st \<Rightarrow>
          if is_eligible_count st = 0 then False
          else is_play_again_votes st + is_return_to_lobby_votes st + is_spectate_votes st =
               is_eligible_count st)"

definition ShroomIntermissionResolve ::
  "ShroomIntermissionState option \<Rightarrow> ShroomIntermissionState option \<times> u8" where
  "ShroomIntermissionResolve state =
     (case state of
        None \<Rightarrow> (None, SHROOM_REMATCH_VOTE_RETURN_TO_LOBBY)
      | Some st \<Rightarrow>
          if is_resolved st then (Some st, is_decision st)
          else
            let lobby_total = is_return_to_lobby_votes st + is_eligible_count st -
                  is_play_again_votes st - is_return_to_lobby_votes st - is_spectate_votes st;
                decision =
                  (if lobby_total < is_play_again_votes st \<and>
                      is_spectate_votes st \<le> is_play_again_votes st
                   then SHROOM_REMATCH_VOTE_PLAY_AGAIN
                   else if lobby_total < is_spectate_votes st \<and>
                           is_play_again_votes st < is_spectate_votes st
                   then SHROOM_REMATCH_VOTE_SPECTATE
                   else SHROOM_REMATCH_VOTE_RETURN_TO_LOBBY)
            in (Some (st\<lparr>is_decision := decision, is_resolved := True\<rparr>), decision))"

definition ShroomIntermissionPlayerContinuesMatch ::
  "ShroomIntermissionState option \<Rightarrow> u32 \<Rightarrow> bool" where
  "ShroomIntermissionPlayerContinuesMatch state player_id =
     (case state of
        None \<Rightarrow> False
      | Some st \<Rightarrow>
          if \<not> is_resolved st \<or> player_id = 0 \<or> is_decision st \<noteq> SHROOM_REMATCH_VOTE_PLAY_AGAIN
          then False
          else find_index (is_voter_for player_id) (is_voters st) \<noteq> None)"

section \<open>The tallies count the votes\<close>

definition votes_for :: "u8 \<Rightarrow> ShroomIntermissionState \<Rightarrow> nat" where
  "votes_for d st = count_if (\<lambda>v. iv_eligible v \<and> iv_vote v = d) (is_voters st)"

definition eligible_voters :: "ShroomIntermissionState \<Rightarrow> nat" where
  "eligible_voters st = count_if iv_eligible (is_voters st)"

definition tallies_exact :: "ShroomIntermissionState \<Rightarrow> bool" where
  "tallies_exact st \<longleftrightarrow>
     length (is_voters st) \<le> SHROOM_MAX_PARTICIPANTS \<and>
     (\<forall>v\<in>set (is_voters st). iv_vote v \<le> 3) \<and>
     unat (is_eligible_count st) = eligible_voters st \<and>
     unat (is_play_again_votes st) = votes_for 1 st \<and>
     unat (is_return_to_lobby_votes st) = votes_for 2 st \<and>
     unat (is_spectate_votes st) = votes_for 3 st"

inductive intermission_step :: "ShroomIntermissionState \<Rightarrow> ShroomIntermissionState \<Rightarrow> bool" where
  cast: "ShroomIntermissionCastVote (Some st) pid vote = (Some st', ok) \<Longrightarrow> intermission_step st st'"
| remove: "ShroomIntermissionRemoveVoter (Some st) pid = (Some st', ok) \<Longrightarrow> intermission_step st st'"
| resolve: "ShroomIntermissionResolve (Some st) = (Some st', d) \<Longrightarrow> intermission_step st st'"

inductive intermission_reachable :: "ShroomIntermissionState \<Rightarrow> bool" where
  start: "ShroomIntermissionBegin (Some st0) ids n round_id = Some st \<Longrightarrow> intermission_reachable st"
| step: "intermission_reachable st \<Longrightarrow> intermission_step st st' \<Longrightarrow> intermission_reachable st'"

lemma word_le_3_cases: "(v :: u8) \<le> 3 \<longleftrightarrow> v = 0 \<or> v = 1 \<or> v = 2 \<or> v = 3"
proof
  assume "v \<le> 3"
  then have "unat v \<le> 3" by (simp add: word_le_nat_alt)
  then have "unat v = 0 \<or> unat v = 1 \<or> unat v = 2 \<or> unat v = 3" by arith
  then show "v = 0 \<or> v = 1 \<or> v = 2 \<or> v = 3" by (simp add: word_unat_eq_iff)
qed auto

text \<open>The counter of a vote, and how one adjustment moves it.\<close>

definition tally :: "u8 \<Rightarrow> ShroomIntermissionState \<Rightarrow> u16" where
  "tally d st = (if d = 1 then is_play_again_votes st
                 else if d = 2 then is_return_to_lobby_votes st
                 else if d = 3 then is_spectate_votes st else 0)"

lemma tallies_exact_iff:
  "tallies_exact st \<longleftrightarrow>
     length (is_voters st) \<le> SHROOM_MAX_PARTICIPANTS \<and> (\<forall>v\<in>set (is_voters st). iv_vote v \<le> 3) \<and>
     unat (is_eligible_count st) = eligible_voters st \<and>
     (\<forall>d\<in>{1, 2, 3}. unat (tally d st) = votes_for d st)"
  by (simp add: tallies_exact_def tally_def)

lemma tally_adjust:
  "d \<in> {1, 2, 3} \<Longrightarrow> tally d (AdjustTotal st v 1) = tally d st + (if d = v then 1 else 0)"
  "d \<in> {1, 2, 3} \<Longrightarrow> tally d (AdjustTotal st v (-1)) = tally d st - (if d = v then 1 else 0)"
  by (auto simp: tally_def AdjustTotal_def)

lemma adjust_frame [simp]:
  "is_voters (AdjustTotal st v \<delta>) = is_voters st"
  "is_eligible_count (AdjustTotal st v \<delta>) = is_eligible_count st"
  "is_resolved (AdjustTotal st v \<delta>) = is_resolved st"
  by (simp_all add: AdjustTotal_def)

lemma tally_frame [simp]:
  "tally d (st\<lparr>is_voters := vs\<rparr>) = tally d st"
  "tally d (st\<lparr>is_eligible_count := c\<rparr>) = tally d st"
  "tally d (st\<lparr>is_decision := x, is_resolved := y\<rparr>) = tally d st"
  by (simp_all add: tally_def)

lemma unat_dec: "0 < unat (w :: u16) \<Longrightarrow> unat (w - 1) = unat w - 1"
  by (simp add: unat_sub word_le_nat_alt)

lemma unat_inc: "unat (w :: u16) < 65535 \<Longrightarrow> unat (w + 1) = unat w + 1"
  by (simp add: unat_word_ariths)

lemma votes_for_le: "votes_for d st \<le> length (is_voters st)"
  by (simp add: votes_for_def count_if_le_length)

lemma voter_update_counts:
  assumes "i < length (is_voters st)" and "is_voters st ! i = old"
  shows "votes_for d (st\<lparr>is_voters := (is_voters st)[i := new]\<rparr>) +
           (if iv_eligible old \<and> iv_vote old = d then 1 else 0) =
         votes_for d st + (if iv_eligible new \<and> iv_vote new = d then 1 else 0)"
    and "eligible_voters (st\<lparr>is_voters := (is_voters st)[i := new]\<rparr>) + (if iv_eligible old then 1 else 0) =
         eligible_voters st + (if iv_eligible new then 1 else 0)"
  using count_if_update [OF assms(1), of "\<lambda>v. iv_eligible v \<and> iv_vote v = d" new]
    count_if_update [OF assms(1), of iv_eligible new] assms(2)
  by (simp_all add: votes_for_def eligible_voters_def)

lemma cast_exact:
  assumes "tallies_exact st" and "ShroomIntermissionCastVote (Some st) pid vote = (Some st', ok)"
  shows "tallies_exact st'"
proof (cases "st' = st")
  case True
  with assms(1) show ?thesis by simp
next
  case False
  let ?vs = "is_voters st"
  from assms(2) False obtain i where range: "vote \<in> {1, 2, 3}"
    and i: "find_index (is_voter_for pid) ?vs = Some i" and ne: "iv_vote (?vs ! i) \<noteq> vote"
    and st': "st' = AdjustTotal ((AdjustTotal st (iv_vote (?vs ! i)) (-1))
        \<lparr>is_voters := ?vs[i := (?vs ! i)\<lparr>iv_vote := vote\<rparr>]\<rparr>) vote 1"
    by (auto simp: ShroomIntermissionCastVote_def Let_def not_less word_le_3_cases
        split: if_splits option.splits)
  note il = find_index_less [OF i]
  have el: "iv_eligible (?vs ! i)" using find_index_holds [OF i] by (simp add: is_voter_for_def)
  from assms(1) have inv: "length ?vs \<le> 256" "\<forall>v\<in>set ?vs. iv_vote v \<le> 3"
    "unat (is_eligible_count st) = eligible_voters st"
    "\<And>d. d \<in> {1, 2, 3} \<Longrightarrow> unat (tally d st) = votes_for d st"
    by (auto simp: tallies_exact_iff SHROOM_MAX_PARTICIPANTS_def)
  note upd = voter_update_counts [OF il refl, where new = "(?vs ! i)\<lparr>iv_vote := vote\<rparr>"]
  have voters: "is_voters st' = ?vs[i := (?vs ! i)\<lparr>iv_vote := vote\<rparr>]" using st' by simp
  have vf: "votes_for d st' + (if iv_vote (?vs ! i) = d then 1 else 0) =
      votes_for d st + (if vote = d then 1 else 0)" for d
    using upd(1) [of d] voters el by (simp add: votes_for_def)
  have "unat (tally d st') = votes_for d st'" if d: "d \<in> {1, 2, 3}" for d
  proof -
    have "votes_for d st \<le> 256" using votes_for_le [of d st] inv(1) by linarith
    moreover have "0 < votes_for d st" if "iv_vote (?vs ! i) = d"
      using count_if_pos [OF il, of "\<lambda>v. iv_eligible v \<and> iv_vote v = d"] that el
      by (simp add: votes_for_def)
    ultimately show ?thesis
      using vf [of d] inv(4) [OF d] ne d
      by (auto simp: st' tally_adjust unat_dec unat_inc simp del: insert_iff split: if_splits)
  qed
  moreover have "\<forall>v\<in>set (is_voters st'). iv_vote v \<le> 3"
    using inv(2) range voters by (auto simp: word_le_3_cases dest!: set_update_subset_insert [THEN subsetD])
  moreover have "eligible_voters st' = eligible_voters st"
    using upd(2) voters el by (simp add: eligible_voters_def)
  moreover have "is_eligible_count st' = is_eligible_count st" using st' by simp
  ultimately show ?thesis
    using inv voters by (simp add: tallies_exact_iff SHROOM_MAX_PARTICIPANTS_def)
qed

lemma remove_exact:
  assumes "tallies_exact st" and "ShroomIntermissionRemoveVoter (Some st) pid = (Some st', ok)"
  shows "tallies_exact st'"
proof (cases "st' = st")
  case True
  with assms(1) show ?thesis by simp
next
  case False
  let ?vs = "is_voters st"
  from assms(2) False obtain i where
    i: "find_index (is_voter_for pid) ?vs = Some i"
    and st': "st' = (AdjustTotal st (iv_vote (?vs ! i)) (-1))
        \<lparr>is_voters := ?vs[i := (?vs ! i)\<lparr>iv_eligible := False\<rparr>],
         is_eligible_count := is_eligible_count st - 1\<rparr>"
    by (auto simp: ShroomIntermissionRemoveVoter_def Let_def split: if_splits option.splits)
  note il = find_index_less [OF i]
  have el: "iv_eligible (?vs ! i)" using find_index_holds [OF i] by (simp add: is_voter_for_def)
  from assms(1) have inv: "length ?vs \<le> 256" "\<forall>v\<in>set ?vs. iv_vote v \<le> 3"
    "unat (is_eligible_count st) = eligible_voters st"
    "\<And>d. d \<in> {1, 2, 3} \<Longrightarrow> unat (tally d st) = votes_for d st"
    by (auto simp: tallies_exact_iff SHROOM_MAX_PARTICIPANTS_def)
  note upd = voter_update_counts [OF il refl, where new = "(?vs ! i)\<lparr>iv_eligible := False\<rparr>"]
  have voters: "is_voters st' = ?vs[i := (?vs ! i)\<lparr>iv_eligible := False\<rparr>]" using st' by simp
  have vf: "votes_for d st' + (if iv_vote (?vs ! i) = d then 1 else 0) = votes_for d st" for d
    using upd(1) [of d] voters el by (simp add: votes_for_def)
  have ev: "eligible_voters st' + 1 = eligible_voters st"
    using upd(2) voters el by (simp add: eligible_voters_def)
  have "unat (tally d st') = votes_for d st'" if d: "d \<in> {1, 2, 3}" for d
    using vf [of d] inv(4) [OF d] d
    by (auto simp: st' tally_adjust unat_dec simp del: insert_iff split: if_splits)
  moreover have "\<forall>v\<in>set (is_voters st'). iv_vote v \<le> 3"
    using inv(2) il voters by (auto dest!: set_update_subset_insert [THEN subsetD])
  moreover have "unat (is_eligible_count st') = eligible_voters st'"
    using ev inv(3) by (simp add: st' unat_dec)
  ultimately show ?thesis
    using inv voters by (simp add: tallies_exact_iff SHROOM_MAX_PARTICIPANTS_def)
qed

lemma exact_cong:
  "is_voters st' = is_voters st \<Longrightarrow> is_eligible_count st' = is_eligible_count st \<Longrightarrow>
   is_play_again_votes st' = is_play_again_votes st \<Longrightarrow>
   is_return_to_lobby_votes st' = is_return_to_lobby_votes st \<Longrightarrow>
   is_spectate_votes st' = is_spectate_votes st \<Longrightarrow> tallies_exact st' \<longleftrightarrow> tallies_exact st"
  by (simp add: tallies_exact_def votes_for_def eligible_voters_def)

lemma resolve_exact:
  assumes "tallies_exact st" and "ShroomIntermissionResolve (Some st) = (Some st', d)"
  shows "tallies_exact st'"
  using assms exact_cong [of st' st]
  by (auto simp: ShroomIntermissionResolve_def Let_def split: if_splits)

lemma begin_voters_exact:
  assumes "length (is_voters st) + length ids \<le> 256"
    and "\<forall>v\<in>set (is_voters st). iv_eligible v \<and> iv_vote v = 0"
    and "unat (is_eligible_count st) = length (is_voters st)"
    and "is_play_again_votes st = 0" "is_return_to_lobby_votes st = 0" "is_spectate_votes st = 0"
  shows "tallies_exact (begin_voters st ids)"
  using assms
proof (induction st ids rule: begin_voters.induct)
  case (1 st)
  have none: "votes_for d st = 0" if "d \<noteq> 0" for d
    using 1(2) that by (auto simp: votes_for_def count_if_def filter_empty_conv)
  have all: "eligible_voters st = length (is_voters st)"
    using 1(2) by (simp add: eligible_voters_def count_if_def)
  from 1 show ?case by (auto simp: tallies_exact_def none all SHROOM_MAX_PARTICIPANTS_def)
next
  case (2 st pid pids)
  show ?case
  proof (cases "pid = 0")
    case True
    with 2 show ?thesis by simp
  next
    case False
    have "unat (is_eligible_count st) < 65535" using 2(3,5) by simp
    with 2(3-) False show ?thesis by (simp add: unat_inc 2(2))
  qed
qed

lemma begin_exact:
  assumes "ShroomIntermissionBegin (Some st0) ids n round_id = Some st"
  shows "tallies_exact st"
proof -
  have "tallies_exact (begin_voters (zero_intermission\<lparr>is_round_id := round_id\<rparr>) (take k xs))"
    if "k \<le> 256" for k xs
    by (rule begin_voters_exact) (use that in \<open>auto simp: zero_intermission_def min_def\<close>)
  from this this [of 0] show ?thesis
    using assms by (auto simp: ShroomIntermissionBegin_def Let_def SHROOM_MAX_PARTICIPANTS_def
        split: option.splits if_splits)
qed

lemma reachable_exact: "intermission_reachable st \<Longrightarrow> tallies_exact st"
proof (induction rule: intermission_reachable.induct)
  case (start st0 ids n round_id st)
  then show ?case by (rule begin_exact)
next
  case (step st st')
  then show ?case
    by (auto elim!: intermission_step.cases intro: cast_exact remove_exact resolve_exact)
qed

lemma eligible_split:
  assumes "\<forall>v\<in>set vs. iv_vote v \<le> 3"
  shows "count_if iv_eligible vs =
    count_if (\<lambda>v. iv_eligible v \<and> iv_vote v = 0) vs + count_if (\<lambda>v. iv_eligible v \<and> iv_vote v = 1) vs +
    count_if (\<lambda>v. iv_eligible v \<and> iv_vote v = 2) vs + count_if (\<lambda>v. iv_eligible v \<and> iv_vote v = 3) vs"
  using assms by (induction vs) (auto simp: word_le_3_cases)

lemma exact_split:
  "tallies_exact st \<Longrightarrow>
     eligible_voters st = votes_for 0 st + votes_for 1 st + votes_for 2 st + votes_for 3 st"
  using eligible_split [of "is_voters st"]
  by (simp add: tallies_exact_def votes_for_def eligible_voters_def)

text \<open>C10. In every state reachable from the start of an intermission by votes, departures and
  resolution, the published tallies are exactly the numbers of eligible voters with that vote,
  and the eligible count is the number of eligible voters (no counter drifts or wraps).\<close>

theorem intermission_tallies_exact:
  assumes "intermission_reachable st"
  shows "unat (is_play_again_votes st) = votes_for SHROOM_REMATCH_VOTE_PLAY_AGAIN st \<and>
         unat (is_return_to_lobby_votes st) = votes_for SHROOM_REMATCH_VOTE_RETURN_TO_LOBBY st \<and>
         unat (is_spectate_votes st) = votes_for SHROOM_REMATCH_VOTE_SPECTATE st \<and>
         unat (is_eligible_count st) = eligible_voters st"
  using reachable_exact [OF assms] by (simp add: tallies_exact_def)

definition three_players :: ShroomIntermissionState where
  "three_players = zero_intermission\<lparr>is_round_id := 9, is_eligible_count := 3,
     is_voters := map (\<lambda>i. \<lparr>iv_player_id = i, iv_vote = 0, iv_eligible = True\<rparr>) [4, 5, 6]\<rparr>"

lemma three_players_reachable: "intermission_reachable three_players"
  by (rule intermission_reachable.start [where ids = "Some [4, 0, 5, 6]" and n = 4 and round_id = 9])
    (simp add: ShroomIntermissionBegin_def SHROOM_MAX_PARTICIPANTS_def three_players_def
      zero_intermission_def)

text \<open>Two of three players vote to play again.\<close>

definition two_voted :: ShroomIntermissionState where
  "two_voted = three_players\<lparr>is_play_again_votes := 2,
     is_voters := [\<lparr>iv_player_id = 4, iv_vote = 1, iv_eligible = True\<rparr>,
       \<lparr>iv_player_id = 5, iv_vote = 1, iv_eligible = True\<rparr>,
       \<lparr>iv_player_id = 6, iv_vote = 0, iv_eligible = True\<rparr>]\<rparr>"

lemma two_voted_reachable: "intermission_reachable two_voted"
proof -
  let ?one = "three_players\<lparr>is_play_again_votes := 1,
     is_voters := [\<lparr>iv_player_id = 4, iv_vote = 1, iv_eligible = True\<rparr>,
       \<lparr>iv_player_id = 5, iv_vote = 0, iv_eligible = True\<rparr>,
       \<lparr>iv_player_id = 6, iv_vote = 0, iv_eligible = True\<rparr>]\<rparr>"
  have "intermission_reachable ?one"
    by (rule intermission_reachable.step [OF three_players_reachable
          intermission_step.cast [where pid = 4 and vote = 1 and ok = True]])
      (simp add: ShroomIntermissionCastVote_def three_players_def zero_intermission_def
        is_voter_for_def AdjustTotal_def)
  then show ?thesis
    by (rule intermission_reachable.step [OF _
          intermission_step.cast [where pid = 5 and vote = 1 and ok = True]])
      (simp add: ShroomIntermissionCastVote_def two_voted_def three_players_def
        zero_intermission_def is_voter_for_def AdjustTotal_def)
qed

theorem intermission_tallies_exact_witness:
  "intermission_reachable two_voted \<and>
   unat (is_play_again_votes two_voted) = votes_for SHROOM_REMATCH_VOTE_PLAY_AGAIN two_voted \<and>
   unat (is_play_again_votes two_voted) = 2"
  using two_voted_reachable intermission_tallies_exact [OF two_voted_reachable]
  by (simp add: two_voted_def)

text \<open>The votes as the resolution counts them: whoever did not vote counts for the lobby.\<close>

definition support :: "ShroomIntermissionState \<Rightarrow> u8 \<Rightarrow> nat" where
  "support st d = (if d = SHROOM_REMATCH_VOTE_RETURN_TO_LOBBY
                   then votes_for 2 st + votes_for 0 st else votes_for d st)"

text \<open>C11. Resolving an open intermission picks a choice with maximal support among the eligible
  voters, non-voters counting for the lobby; ties go to the lobby first, then to playing again;
  and resolving again returns the same decision without changing the state.\<close>

theorem intermission_resolve_plurality:
  assumes "intermission_reachable st" and "\<not> is_resolved st"
    and "ShroomIntermissionResolve (Some st) = (Some st', d)"
  shows "d \<in> {1, 2, 3} \<and> (\<forall>e\<in>{1, 2, 3}. support st e \<le> support st d) \<and>
         (support st 2 = support st d \<longrightarrow> d = SHROOM_REMATCH_VOTE_RETURN_TO_LOBBY) \<and>
         (d = SHROOM_REMATCH_VOTE_SPECTATE \<longrightarrow> support st 1 < support st d) \<and>
         ShroomIntermissionResolve (Some st') = (Some st', d)"
proof -
  note ex = reachable_exact [OF assms(1)]
  let ?p = "is_play_again_votes st" and ?l = "is_return_to_lobby_votes st"
    and ?s = "is_spectate_votes st" and ?e = "is_eligible_count st"
  have v: "unat ?p = votes_for 1 st" "unat ?l = votes_for 2 st" "unat ?s = votes_for 3 st"
    "unat ?e = votes_for 0 st + votes_for 1 st + votes_for 2 st + votes_for 3 st"
    using ex exact_split [OF ex] by (auto simp: tallies_exact_def)
  have "unat (?e - ?p) = unat ?e - unat ?p" by (rule unat_sub) (simp add: word_le_nat_alt v)
  then have "unat (?e - ?p - ?s) = unat ?e - unat ?p - unat ?s"
    by (subst unat_sub) (simp_all add: word_le_nat_alt v)
  then have lobby: "unat (?e - ?p - ?s) = support st 2"
    by (simp add: v support_def)
  have play: "unat ?p = support st 1" and spec: "unat ?s = support st 3"
    by (simp_all add: v support_def)
  from assms(2,3) show ?thesis
    by (auto simp: ShroomIntermissionResolve_def Let_def word_less_nat_alt word_le_nat_alt
        lobby play spec not_less split: if_splits)
qed

theorem intermission_resolve_plurality_witness:
  "ShroomIntermissionResolve (Some two_voted) =
     (Some (two_voted\<lparr>is_decision := 1, is_resolved := True\<rparr>), 1) \<and>
   support two_voted 2 \<le> support two_voted 1"
proof -
  have r: "ShroomIntermissionResolve (Some two_voted) =
     (Some (two_voted\<lparr>is_decision := 1, is_resolved := True\<rparr>), 1)"
    by (simp add: ShroomIntermissionResolve_def two_voted_def three_players_def zero_intermission_def
        word_less_nat_alt)
  have open_vote: "\<not> is_resolved two_voted"
    by (simp add: two_voted_def three_players_def zero_intermission_def)
  show ?thesis
    using r intermission_resolve_plurality [OF two_voted_reachable open_vote r] by simp
qed

text \<open>C12. The vote is complete exactly when at least one voter is eligible and every eligible voter
  has chosen.\<close>

theorem intermission_complete_iff_all_voted:
  assumes "intermission_reachable st"
  shows "ShroomIntermissionAllEligibleVoted (Some st) \<longleftrightarrow>
           (\<exists>v\<in>set (is_voters st). iv_eligible v) \<and>
           (\<forall>v\<in>set (is_voters st). iv_eligible v \<longrightarrow> iv_vote v \<noteq> SHROOM_REMATCH_VOTE_NONE)"
proof -
  note ex = reachable_exact [OF assms]
  let ?p = "is_play_again_votes st" and ?l = "is_return_to_lobby_votes st"
    and ?s = "is_spectate_votes st" and ?e = "is_eligible_count st"
  have v: "unat ?p = votes_for 1 st" "unat ?l = votes_for 2 st" "unat ?s = votes_for 3 st"
    "unat ?e = votes_for 0 st + votes_for 1 st + votes_for 2 st + votes_for 3 st"
    using ex exact_split [OF ex] by (auto simp: tallies_exact_def)
  have "unat ?e \<le> 256" using ex count_if_le_length [of iv_eligible "is_voters st"]
    by (simp add: tallies_exact_def eligible_voters_def SHROOM_MAX_PARTICIPANTS_def)
  then have sum: "unat (?p + ?l + ?s) = unat ?p + unat ?l + unat ?s"
    using v by (simp add: unat_word_ariths)
  have none: "?e = 0 \<longleftrightarrow> \<not> (\<exists>v\<in>set (is_voters st). iv_eligible v)"
  proof -
    have "?e = 0 \<longleftrightarrow> eligible_voters st = 0" using ex by (auto simp: tallies_exact_def unat_eq_0)
    then show ?thesis by (auto simp: eligible_voters_def count_if_def filter_empty_conv)
  qed
  have "?p + ?l + ?s = ?e \<longleftrightarrow> votes_for 0 st = 0"
    using sum v by (auto simp: word_unat_eq_iff)
  also have "\<dots> \<longleftrightarrow> (\<forall>v\<in>set (is_voters st). iv_eligible v \<longrightarrow> iv_vote v \<noteq> 0)"
    by (auto simp: votes_for_def count_if_def filter_empty_conv)
  finally show ?thesis
    using none by (auto simp: ShroomIntermissionAllEligibleVoted_def)
qed

theorem intermission_complete_iff_all_voted_witness:
  "\<not> ShroomIntermissionAllEligibleVoted (Some two_voted)"
  using intermission_complete_iff_all_voted [OF two_voted_reachable] by (simp add: two_voted_def)

end
