(* ===== verification/Serial_Numbers.thy ===== *)
theory Serial_Numbers
  imports Prelude
begin

text \<open>
  Modular sequence numbers.  Four components compare sequence numbers modulo a power of
  two: input packets (32 bits, \<open>SequenceIsNewer\<close>), rounds of the intermission (32 bits,
  \<open>ShroomIntermissionRoundIsNewer\<close>), voice frames (16 bits, \<open>sequence_rejected\<close> of the relay)
  and snapshot ticks (64 bits, \<open>ShroomSnapshotTickIsNewer\<close>).  The locale states what
  they share; each component interprets it on its own comparison and takes the replay
  lemmas from here.
\<close>

text \<open>The signed reading of a difference, as the 64-bit comparison makes it.\<close>

lemma sint_pos_iff: "0 < sint (x :: 'a::len word) \<longleftrightarrow> 0 < unat x \<and> unat x < 2 ^ (LENGTH('a) - 1)"
proof -
  define k n where "k = uint x" and "n = LENGTH('a) - Suc 0"
  have len: "LENGTH('a) = Suc n" by (simp add: n_def)
  have k: "0 \<le> k" "k < 2 * 2 ^ n" using uint_lt2p [of x] by (simp_all add: k_def len)
  have eq: "sint x = (k + 2 ^ n) mod (2 * 2 ^ n) - 2 ^ n"
    by (simp add: k_def sint_uint signed_take_bit_eq_take_bit_shift take_bit_eq_mod len)
  have "0 < sint x \<longleftrightarrow> 0 < k \<and> k < 2 ^ n"
  proof (cases "k < 2 ^ n")
    case True
    with k have "(k + 2 ^ n) mod (2 * 2 ^ n) = k + 2 ^ n" by (intro mod_pos_pos_trivial) auto
    with True eq show ?thesis by simp
  next
    case False
    have "(k + 2 ^ n) mod (2 * 2 ^ n) = (k + 2 ^ n - 2 * 2 ^ n) mod (2 * 2 ^ n)"
      by (simp only: minus_mod_self2)
    also have "\<dots> = k - 2 ^ n" using False k by (subst mod_pos_pos_trivial) auto
    finally show ?thesis using False k eq by simp
  qed
  moreover have "unat x = nat k" by (simp add: k_def)
  ultimately show ?thesis using k by (simp add: nat_less_iff n_def)
qed

locale serial_order =
  fixes newer :: "'a::len word \<Rightarrow> 'a word \<Rightarrow> bool"
  assumes newer_iff: "newer a b \<longleftrightarrow> 0 < unat (a - b) \<and> unat (a - b) < 2 ^ (LENGTH('a) - 1)"
begin

lemma half_range: "2 ^ LENGTH('a) = 2 * (2 ^ (LENGTH('a) - 1) :: nat)"
  by (metis One_nat_def Suc_pred len_gt_0 power_Suc)

lemma irrefl: "\<not> newer a a"
  by (simp add: newer_iff)

lemma shift: "newer (a + c) (b + c) \<longleftrightarrow> newer a b"
  by (simp add: newer_iff)

lemma asym:
  assumes "newer a b"
  shows "\<not> newer b a"
proof
  assume "newer b a"
  with assms have "unat (a - b) < 2 ^ (LENGTH('a) - 1)" "unat (b - a) < 2 ^ (LENGTH('a) - 1)"
    and nz: "0 < unat (a - b)" by (auto simp: newer_iff)
  then have "unat (a - b) + unat (b - a) < 2 ^ LENGTH('a)" by (simp add: half_range)
  then have "unat ((a - b) + (b - a)) = unat (a - b) + unat (b - a)"
    by (rule unat_add_lem [THEN iffD1])
  with nz show False by simp
qed

lemma advance:
  assumes "0 < d" and "d < 2 ^ (LENGTH('a) - 1)"
  shows "newer (a + word_of_nat d) a"
proof -
  have "d < 2 ^ LENGTH('a)" using assms(2) by (simp add: half_range)
  then show ?thesis using assms by (simp add: newer_iff unat_of_nat)
qed

lemma trans_in_window:
  assumes "newer a b" and "newer b c" and "unat (a - b) + unat (b - c) < 2 ^ (LENGTH('a) - 1)"
  shows "newer a c"
proof -
  have "unat (a - b) + unat (b - c) < 2 ^ LENGTH('a)" using assms(3) by (simp add: half_range)
  then have "unat ((a - b) + (b - c)) = unat (a - b) + unat (b - c)"
    by (rule unat_add_lem [THEN iffD1])
  then have "unat (a - c) = unat (a - b) + unat (b - c)" by simp
  with assms show ?thesis by (auto simp: newer_iff)
qed

text \<open>
  Numbers less than half the range above a base are ordered by their distance from it, and a
  receiver that only accepts numbers newer than the last one accepts none of them twice.
\<close>

lemma newer_in_window:
  assumes "unat (a - base) < 2 ^ (LENGTH('a) - 1)" and "unat (b - base) < 2 ^ (LENGTH('a) - 1)"
  shows "newer a b \<longleftrightarrow> unat (b - base) < unat (a - base)"
proof -
  have ahead: "newer x y" if "unat (x - base) < 2 ^ (LENGTH('a) - 1)" "unat (y - base) < unat (x - base)" for x y
  proof -
    have "unat ((x - base) - (y - base)) = unat (x - base) - unat (y - base)"
      using that(2) by (intro unat_sub) (simp add: word_le_nat_alt)
    with that show ?thesis by (simp add: newer_iff)
  qed
  consider "unat (b - base) < unat (a - base)" | "unat (a - base) < unat (b - base)" | "a - base = b - base"
    by (metis linorder_neqE_nat word_unat_eq_iff)
  then show ?thesis
  proof cases
    case 1
    with ahead [OF assms(1)] show ?thesis by simp
  next
    case 2
    with ahead [OF assms(2)] asym show ?thesis by fastforce
  next
    case 3
    with irrefl show ?thesis by simp
  qed
qed

lemma chain_sorted:
  assumes "successively (\<lambda>a b. newer b a) xs" and "\<forall>x \<in> set xs. unat (x - base) < 2 ^ (LENGTH('a) - 1)"
  shows "sorted_wrt (\<lambda>a b. unat (a - base) < unat (b - base)) xs"
proof -
  have "successively (\<lambda>a b. unat (a - base) < unat (b - base)) xs"
    using assms(1) by (rule successively_mono) (use assms(2) newer_in_window in blast)
  then show ?thesis by (simp add: successively_conv_sorted_wrt transp_def)
qed

lemma chain_distinct:
  assumes "successively (\<lambda>a b. newer b a) xs" and "\<forall>x \<in> set xs. unat (x - base) < 2 ^ (LENGTH('a) - 1)"
  shows "distinct xs"
proof -
  have "sorted_wrt (\<lambda>a b. a \<noteq> b) xs"
    using chain_sorted [OF assms] by (rule sorted_wrt_mono_rel [rotated]) auto
  then show ?thesis by (simp add: distinct_conv_nth sorted_wrt_iff_nth_less) (metis linorder_neqE_nat)
qed

end

end
