(* ===== verification/Input_Admission.thy ===== *)
theory Input_Admission
  imports Serial_Numbers
begin

text \<open>
  Admission of client input packets, \<open>src/server/input_admission.c\<close>: a token bucket (in
  thousandths of a token, refilled from a millisecond clock) and a replay filter on 32-bit
  sequence numbers.
\<close>

definition SHROOM_SERVER_INPUT_RATE_HZ :: u32 where "SHROOM_SERVER_INPUT_RATE_HZ = 30"
definition SHROOM_SERVER_INPUT_BURST_CAPACITY :: u32 where "SHROOM_SERVER_INPUT_BURST_CAPACITY = 10"
definition SHROOM_INPUT_TOKEN_MILLI :: u32 where "SHROOM_INPUT_TOKEN_MILLI = 1000"
definition SHROOM_INPUT_REFILL_MILLI_PER_MS :: u32 where
  "SHROOM_INPUT_REFILL_MILLI_PER_MS = SHROOM_SERVER_INPUT_RATE_HZ"
definition SHROOM_INPUT_CAPACITY_MILLI :: u32 where
  "SHROOM_INPUT_CAPACITY_MILLI = SHROOM_SERVER_INPUT_BURST_CAPACITY * SHROOM_INPUT_TOKEN_MILLI"

lemmas input_constants =
  SHROOM_SERVER_INPUT_RATE_HZ_def SHROOM_SERVER_INPUT_BURST_CAPACITY_def
  SHROOM_INPUT_TOKEN_MILLI_def SHROOM_INPUT_REFILL_MILLI_PER_MS_def SHROOM_INPUT_CAPACITY_MILLI_def

datatype ShroomInputAdmissionResult =
    SHROOM_INPUT_ADMITTED
  | SHROOM_INPUT_REJECTED_STALE
  | SHROOM_INPUT_REJECTED_RATE

record ShroomInputAdmission =
  ia_initialized :: bool
  ia_has_sequence :: bool
  ia_last_sequence :: u32
  ia_last_refill_ms :: u64
  ia_token_milli :: u32
  ia_accepted_count :: u64
  ia_stale_count :: u64
  ia_rate_limited_count :: u64

definition SequenceIsNewer :: "u32 \<Rightarrow> u32 \<Rightarrow> bool" where
  "SequenceIsNewer sequence previous =
     (let delta = sequence - previous in delta \<noteq> 0 \<and> delta < 0x80000000)"

text \<open>
  The refill product is a 64-bit product; the comparison and the subtraction from the
  capacity are made in 64 bits, the addition in 32.
\<close>

definition Refill :: "ShroomInputAdmission \<Rightarrow> u64 \<Rightarrow> ShroomInputAdmission" where
  "Refill a now_ms =
     (if \<not> ia_initialized a then
        a\<lparr>ia_initialized := True, ia_last_refill_ms := now_ms,
          ia_token_milli := SHROOM_INPUT_CAPACITY_MILLI\<rparr>
      else if now_ms < ia_last_refill_ms a then a\<lparr>ia_last_refill_ms := now_ms\<rparr>
      else
        let elapsed_ms = now_ms - ia_last_refill_ms a;
            a1 = a\<lparr>ia_last_refill_ms := now_ms\<rparr>;
            refill = elapsed_ms * ucast SHROOM_INPUT_REFILL_MILLI_PER_MS
        in if ucast SHROOM_INPUT_CAPACITY_MILLI \<le> refill \<or>
              ucast SHROOM_INPUT_CAPACITY_MILLI - refill \<le> ucast (ia_token_milli a1)
           then a1\<lparr>ia_token_milli := SHROOM_INPUT_CAPACITY_MILLI\<rparr>
           else a1\<lparr>ia_token_milli := ia_token_milli a1 + ucast refill\<rparr>)"

definition ShroomInputAdmissionReset :: "ShroomInputAdmission option \<Rightarrow> ShroomInputAdmission option" where
  "ShroomInputAdmissionReset admission =
     (case admission of
        None \<Rightarrow> None
      | Some _ \<Rightarrow> Some \<lparr>ia_initialized = False, ia_has_sequence = False, ia_last_sequence = 0,
                       ia_last_refill_ms = 0, ia_token_milli = 0, ia_accepted_count = 0,
                       ia_stale_count = 0, ia_rate_limited_count = 0\<rparr>)"

definition ShroomInputAdmissionCheck ::
  "ShroomInputAdmission option \<Rightarrow> u32 \<Rightarrow> u64 \<Rightarrow>
     ShroomInputAdmission option \<times> ShroomInputAdmissionResult" where
  "ShroomInputAdmissionCheck admission sequence now_ms =
     (case admission of
        None \<Rightarrow> (None, SHROOM_INPUT_REJECTED_RATE)
      | Some a \<Rightarrow>
          let a1 = Refill a now_ms
          in if ia_token_milli a1 < SHROOM_INPUT_TOKEN_MILLI
             then (Some (a1\<lparr>ia_rate_limited_count := ia_rate_limited_count a1 + 1\<rparr>),
                   SHROOM_INPUT_REJECTED_RATE)
             else
               let a2 = a1\<lparr>ia_token_milli := ia_token_milli a1 - SHROOM_INPUT_TOKEN_MILLI\<rparr>
               in if sequence = 0 \<or>
                     (ia_has_sequence a2 \<and> \<not> SequenceIsNewer sequence (ia_last_sequence a2))
                  then (Some (a2\<lparr>ia_stale_count := ia_stale_count a2 + 1\<rparr>),
                        SHROOM_INPUT_REJECTED_STALE)
                  else (Some (a2\<lparr>ia_has_sequence := True, ia_last_sequence := sequence,
                                 ia_accepted_count := ia_accepted_count a2 + 1\<rparr>),
                        SHROOM_INPUT_ADMITTED))"

text \<open>A client's packets, each a sequence number and its arrival time, checked in order.\<close>

fun admission_run ::
  "ShroomInputAdmission \<Rightarrow> (u32 \<times> u64) list \<Rightarrow>
     ShroomInputAdmission \<times> ShroomInputAdmissionResult list" where
  "admission_run a [] = (a, [])"
| "admission_run a ((sequence, now_ms) # rest) =
     (case ShroomInputAdmissionCheck (Some a) sequence now_ms of
        (None, _) \<Rightarrow> (a, [])
      | (Some a1, r) \<Rightarrow> (let (a2, rs) = admission_run a1 rest in (a2, r # rs)))"

section \<open>The replay filter\<close>

interpretation input_serial: serial_order SequenceIsNewer
proof
  fix a b :: u32
  show "SequenceIsNewer a b \<longleftrightarrow> 0 < unat (a - b) \<and> unat (a - b) < 2 ^ (LENGTH(32) - 1)"
    by (simp add: SequenceIsNewer_def Let_def unat_gt_0 word_less_nat_alt)
qed

lemma check_never_None: "fst (ShroomInputAdmissionCheck (Some a) s t) \<noteq> None"
  by (simp add: ShroomInputAdmissionCheck_def Let_def)

lemma check_cases:
  obtains (rate) "ShroomInputAdmissionCheck (Some a) sq now =
      (Some ((Refill a now)\<lparr>ia_rate_limited_count := ia_rate_limited_count (Refill a now) + 1\<rparr>),
       SHROOM_INPUT_REJECTED_RATE)"
    "ia_token_milli (Refill a now) < SHROOM_INPUT_TOKEN_MILLI"
  | (stale) a1 where "ShroomInputAdmissionCheck (Some a) sq now = (Some a1, SHROOM_INPUT_REJECTED_STALE)"
    "SHROOM_INPUT_TOKEN_MILLI \<le> ia_token_milli (Refill a now)"
    "a1 = (Refill a now)\<lparr>ia_token_milli := ia_token_milli (Refill a now) - SHROOM_INPUT_TOKEN_MILLI,
            ia_stale_count := ia_stale_count (Refill a now) + 1\<rparr>"
    "sq = 0 \<or> (ia_has_sequence a \<and> \<not> SequenceIsNewer sq (ia_last_sequence a))"
  | (admitted) a1 where "ShroomInputAdmissionCheck (Some a) sq now = (Some a1, SHROOM_INPUT_ADMITTED)"
    "SHROOM_INPUT_TOKEN_MILLI \<le> ia_token_milli (Refill a now)"
    "a1 = (Refill a now)\<lparr>ia_token_milli := ia_token_milli (Refill a now) - SHROOM_INPUT_TOKEN_MILLI,
            ia_has_sequence := True, ia_last_sequence := sq,
            ia_accepted_count := ia_accepted_count (Refill a now) + 1\<rparr>"
    "sq \<noteq> 0" "ia_has_sequence a \<longrightarrow> SequenceIsNewer sq (ia_last_sequence a)"
proof -
  have frame: "ia_has_sequence (Refill a now) = ia_has_sequence a"
    "ia_last_sequence (Refill a now) = ia_last_sequence a"
    by (simp_all add: Refill_def Let_def)
  show thesis
  proof (cases "ia_token_milli (Refill a now) < SHROOM_INPUT_TOKEN_MILLI")
    case True
    then show thesis by (intro rate) (simp_all add: ShroomInputAdmissionCheck_def Let_def)
  next
    case False
    show thesis
    proof (cases "sq = 0 \<or> (ia_has_sequence a \<and> \<not> SequenceIsNewer sq (ia_last_sequence a))")
      case True
      with False frame show thesis
        by (intro stale [OF _ _ refl]) (auto simp: ShroomInputAdmissionCheck_def Let_def not_less)
    next
      case sq: False
      with False frame show thesis
        by (intro admitted [OF _ _ refl]) (auto simp: ShroomInputAdmissionCheck_def Let_def not_less)
    qed
  qed
qed

text \<open>The sequence numbers that were admitted, in order.\<close>

fun admitted_of :: "(u32 \<times> u64) list \<Rightarrow> ShroomInputAdmissionResult list \<Rightarrow> u32 list" where
  "admitted_of ((s, _) # ps) (r # rs) =
     (if r = SHROOM_INPUT_ADMITTED then s # admitted_of ps rs else admitted_of ps rs)"
| "admitted_of _ _ = []"

lemma run_chain:
  assumes "ia_has_sequence a"
  shows "successively (\<lambda>x y. SequenceIsNewer y x)
           (ia_last_sequence a # admitted_of ps (snd (admission_run a ps)))"
  using assms
proof (induction ps arbitrary: a)
  case Nil
  then show ?case by simp
next
  case (Cons p ps)
  obtain sq now where p: "p = (sq, now)" by (cases p)
  have frame: "ia_has_sequence (Refill a now)" "ia_last_sequence (Refill a now) = ia_last_sequence a"
    using Cons.prems by (simp_all add: Refill_def Let_def)
  show ?case
  proof (cases rule: check_cases [of a sq now])
    case rate
    with Cons.IH [of "(Refill a now)\<lparr>ia_rate_limited_count := ia_rate_limited_count (Refill a now) + 1\<rparr>"]
      frame p show ?thesis by (simp add: case_prod_beta)
  next
    case (stale a1)
    with Cons.IH [of a1] frame p show ?thesis by (simp add: case_prod_beta)
  next
    case (admitted a1)
    with Cons.IH [of a1] Cons.prems p show ?thesis by (simp add: case_prod_beta)
  qed
qed

lemma run_chain_any:
  "successively (\<lambda>x y. SequenceIsNewer y x) (admitted_of ps (snd (admission_run a ps)))"
proof (induction ps arbitrary: a)
  case Nil
  then show ?case by simp
next
  case (Cons p ps)
  obtain sq now where p: "p = (sq, now)" by (cases p)
  show ?case
  proof (cases rule: check_cases [of a sq now])
    case (admitted a1)
    with run_chain [of a1 ps] p show ?thesis by (simp add: case_prod_beta)
  qed (use Cons.IH p in \<open>simp_all add: case_prod_beta\<close>)
qed

lemma admitted_of_subset: "set (admitted_of ps rs) \<subseteq> fst ` set ps"
  by (induction ps rs rule: admitted_of.induct) auto

lemma run_length: "length (snd (admission_run a ps)) = length ps"
proof (induction ps arbitrary: a)
  case (Cons p ps)
  then show ?case using check_never_None [of a "fst p" "snd p"]
    by (cases p) (auto simp: case_prod_beta split: option.splits)
qed simp

text \<open>The numbers a packet has to be ahead of, by the distance from the base of the window.\<close>

definition ahead_of :: "u32 \<Rightarrow> ShroomInputAdmission \<Rightarrow> u32 \<Rightarrow> bool" where
  "ahead_of base a sq \<longleftrightarrow> (ia_has_sequence a \<longrightarrow> unat (ia_last_sequence a - base) < unat (sq - base))"

lemma run_decides:
  assumes "\<forall>(sq, now) \<in> set ps. unat (sq - base) < 2 ^ 31"
    and "ia_has_sequence a \<longrightarrow> unat (ia_last_sequence a - base) < 2 ^ 31" and "i < length ps"
  shows "snd (admission_run a ps) ! i = SHROOM_INPUT_ADMITTED \<longleftrightarrow>
    snd (admission_run a ps) ! i \<noteq> SHROOM_INPUT_REJECTED_RATE \<and> fst (ps ! i) \<noteq> 0 \<and> ahead_of base a (fst (ps ! i)) \<and>
    (\<forall>j < i. snd (admission_run a ps) ! j = SHROOM_INPUT_ADMITTED \<longrightarrow> unat (fst (ps ! j) - base) < unat (fst (ps ! i) - base))"
  using assms
proof (induction ps arbitrary: a i)
  case Nil
  then show ?case by simp
next
  case (Cons p ps)
  obtain sq now where p: "p = (sq, now)" by (cases p)
  have same: "ia_has_sequence (Refill a now) = ia_has_sequence a" "ia_last_sequence (Refill a now) = ia_last_sequence a"
    by (simp_all add: Refill_def Let_def)
  have newer: "SequenceIsNewer sq (ia_last_sequence a) \<longleftrightarrow> ahead_of base a sq" if "ia_has_sequence a"
    using input_serial.newer_in_window [of sq base "ia_last_sequence a"] Cons.prems(1,2) that p by (simp add: ahead_of_def)
  have first: "ahead_of base a sq" if "\<not> ia_has_sequence a" using that by (simp add: ahead_of_def)
  have keeps: "ahead_of base b s = ahead_of base a s"
    if "ia_has_sequence b = ia_has_sequence a" "ia_last_sequence b = ia_last_sequence a" for b s
    using that by (simp add: ahead_of_def)
  have ps: "\<forall>(sq, now) \<in> set ps. unat (sq - base) < 2 ^ 31" "unat (sq - base) < 2 ^ 31" using Cons.prems(1) p by simp_all
  note ih = Cons.IH [OF ps(1)]
  show ?case
  proof (cases rule: check_cases [of a sq now])
    case rate
    let ?b = "(Refill a now)\<lparr>ia_rate_limited_count := ia_rate_limited_count (Refill a now) + 1\<rparr>"
    show ?thesis
      using ih [of ?b "i - 1"] rate(1) Cons.prems(2,3) p same keeps [of ?b]
      by (cases i) (simp_all add: case_prod_beta All_less_Suc2)
  next
    case (stale a1)
    have "ia_has_sequence a1 = ia_has_sequence a" "ia_last_sequence a1 = ia_last_sequence a"
      using stale(3) same by simp_all
    then show ?thesis
      using ih [of a1 "i - 1"] stale(1,4) Cons.prems(2,3) p keeps [of a1] newer
      by (cases i) (auto simp: case_prod_beta All_less_Suc2)
  next
    case (admitted a1)
    have a1: "ia_has_sequence a1" "ia_last_sequence a1 = sq" using admitted(3) by simp_all
    have "ahead_of base a sq" using admitted(5) newer first by blast
    moreover have "ahead_of base a1 s \<longleftrightarrow> ahead_of base a s \<and> unat (sq - base) < unat (s - base)" for s
      using a1 \<open>ahead_of base a sq\<close> by (auto simp: ahead_of_def)
    ultimately show ?thesis
      using ih [of a1 "i - 1"] a1 ps(2) admitted(1,4) Cons.prems(3) p
      by (cases i) (auto simp: case_prod_beta All_less_Suc2)
  qed
qed

text \<open>C8. Replay protection, for packets whose sequence numbers lie less than half of the 32-bit range
  above some base (which may wrap past zero): whatever their order, their duplicates and their
  timing, a packet that the rate limit lets through is admitted exactly when its number is not zero and
  ahead of the session's last number and of the numbers of all the packets admitted before it; so
  no number is admitted twice.\<close>

theorem input_replay_rejected:
  fixes a :: ShroomInputAdmission and ps :: "(u32 \<times> u64) list" and base :: u32
  defines "rs \<equiv> snd (admission_run a ps)"
  assumes "\<forall>(sq, now) \<in> set ps. unat (sq - base) < 2 ^ 31"
    and "ia_has_sequence a \<longrightarrow> unat (ia_last_sequence a - base) < 2 ^ 31"
  shows "length rs = length ps \<and>
    (\<forall>i < length ps. rs ! i = SHROOM_INPUT_ADMITTED \<longleftrightarrow>
       rs ! i \<noteq> SHROOM_INPUT_REJECTED_RATE \<and> fst (ps ! i) \<noteq> 0 \<and>
       (ia_has_sequence a \<longrightarrow> unat (ia_last_sequence a - base) < unat (fst (ps ! i) - base)) \<and>
       (\<forall>j < i. rs ! j = SHROOM_INPUT_ADMITTED \<longrightarrow> unat (fst (ps ! j) - base) < unat (fst (ps ! i) - base))) \<and>
    distinct (admitted_of ps rs)"
proof (intro conjI)
  show "length rs = length ps" unfolding rs_def by (rule run_length)
  show "\<forall>i < length ps. rs ! i = SHROOM_INPUT_ADMITTED \<longleftrightarrow>
       rs ! i \<noteq> SHROOM_INPUT_REJECTED_RATE \<and> fst (ps ! i) \<noteq> 0 \<and>
       (ia_has_sequence a \<longrightarrow> unat (ia_last_sequence a - base) < unat (fst (ps ! i) - base)) \<and>
       (\<forall>j < i. rs ! j = SHROOM_INPUT_ADMITTED \<longrightarrow> unat (fst (ps ! j) - base) < unat (fst (ps ! i) - base))"
    using run_decides [OF assms(2,3)] unfolding rs_def ahead_of_def by blast
  have "\<forall>x \<in> set (admitted_of ps rs). unat (x - base) < 2 ^ (LENGTH(32) - 1)"
    using admitted_of_subset [of ps rs] assms(2) by fastforce
  then show "distinct (admitted_of ps rs)"
    unfolding rs_def by (rule input_serial.chain_distinct [OF run_chain_any])
qed

definition fresh_admission :: ShroomInputAdmission where
  "fresh_admission = \<lparr>ia_initialized = False, ia_has_sequence = False, ia_last_sequence = 0,
     ia_last_refill_ms = 0, ia_token_milli = 0, ia_accepted_count = 0, ia_stale_count = 0,
     ia_rate_limited_count = 0\<rparr>"

lemmas admission_eval = fresh_admission_def ShroomInputAdmissionCheck_def Refill_def
  SequenceIsNewer_def Let_def input_constants

text \<open>Numbers that wrap past zero, with a replay before and one after the wrap, and a late packet.\<close>

theorem input_replay_rejected_witness:
  "admitted_of [(0xFFFFFFFE, 0), (0xFFFFFFFE, 1), (3, 2), (1, 3), (3, 4), (0, 5), (4, 6)]
     (snd (admission_run fresh_admission
        [(0xFFFFFFFE, 0), (0xFFFFFFFE, 1), (3, 2), (1, 3), (3, 4), (0, 5), (4, 6)])) = [0xFFFFFFFE, 3, 4] \<and>
   snd (admission_run fresh_admission
        [(0xFFFFFFFE, 0), (0xFFFFFFFE, 1), (3, 2), (1, 3), (3, 4), (0, 5), (4, 6)]) ! 3 \<noteq> SHROOM_INPUT_ADMITTED"
proof -
  let ?ps = "[(0xFFFFFFFE, 0), (0xFFFFFFFE, 1), (3, 2), (1, 3), (3, 4), (0, 5), (4, 6)] :: (u32 \<times> u64) list"
  have e: "snd (admission_run fresh_admission ?ps) =
    [SHROOM_INPUT_ADMITTED, SHROOM_INPUT_REJECTED_STALE, SHROOM_INPUT_ADMITTED, SHROOM_INPUT_REJECTED_STALE,
     SHROOM_INPUT_REJECTED_STALE, SHROOM_INPUT_REJECTED_STALE, SHROOM_INPUT_ADMITTED]"
    by (simp add: admission_eval)
  have "\<forall>(sq, now) \<in> set ?ps. unat (sq - 0xFFFFFFFE) < 2 ^ 31"
    "ia_has_sequence fresh_admission \<longrightarrow> unat (ia_last_sequence fresh_admission - 0xFFFFFFFE) < 2 ^ 31"
    by (simp_all add: fresh_admission_def)
  from input_replay_rejected [OF this] have "\<not> (snd (admission_run fresh_admission ?ps) ! 3 = SHROOM_INPUT_ADMITTED)"
    unfolding e by (auto simp: fresh_admission_def)
  with e show ?thesis by simp
qed

section \<open>The rate limit\<close>

lemma refill_tokens:
  assumes "ia_initialized a" and "ia_last_refill_ms a \<le> now"
  shows "unat (ia_token_milli (Refill a now)) \<le>
           unat (ia_token_milli a) + 30 * (unat now - unat (ia_last_refill_ms a))"
    and "ia_last_refill_ms (Refill a now) = now" and "ia_initialized (Refill a now)"
proof -
  let ?e = "now - ia_last_refill_ms a"
  let ?r = "?e * 30 :: u64"
  have e: "unat ?e = unat now - unat (ia_last_refill_ms a)"
    using assms(2) by (rule unat_sub)
  have "unat ?r \<le> unat ?e * 30"
    using unat_times_le [of ?e 30] by simp
  then have r: "unat ?r \<le> 30 * (unat now - unat (ia_last_refill_ms a))" by (simp add: e)
  have "unat (ia_token_milli (Refill a now)) \<le> unat (ia_token_milli a) + unat ?r"
  proof (cases "10000 \<le> ?r \<or> 10000 - ?r \<le> ucast (ia_token_milli a)")
    case True
    have "10000 \<le> unat (ia_token_milli a) + unat ?r"
    proof (cases "10000 \<le> ?r")
      case True
      then have "10000 \<le> unat ?r" by (simp add: word_le_nat_alt)
      then show ?thesis by simp
    next
      case False
      with True have "10000 - ?r \<le> ucast (ia_token_milli a)" and lt: "?r \<le> 10000" by auto
      then have "unat (10000 - ?r) \<le> unat (ia_token_milli a)"
        by (simp add: word_le_nat_alt)
      then show ?thesis using unat_sub [OF lt] by simp
    qed
    with True assms show ?thesis
      by (simp add: Refill_def Let_def input_constants not_less)
  next
    case False
    then have "?r < 10000" by (simp add: not_le)
    then have "unat ?r < 10000" by (simp add: word_less_nat_alt)
    then have "unat (ucast ?r :: u32) = unat ?r"
      by (simp add: unat_ucast_mod)
    moreover have "unat (ia_token_milli a + ucast ?r) \<le> unat (ia_token_milli a) + unat (ucast ?r :: u32)"
      by (rule unat_plus_le)
    ultimately show ?thesis
      using False assms by (auto simp: Refill_def Let_def input_constants not_less)
  qed
  with r show "unat (ia_token_milli (Refill a now)) \<le>
           unat (ia_token_milli a) + 30 * (unat now - unat (ia_last_refill_ms a))" by linarith
  show "ia_last_refill_ms (Refill a now) = now" "ia_initialized (Refill a now)"
    using assms by (auto simp: Refill_def Let_def)
qed

text \<open>How many packets spent a token (admitted or stale), and the potential argument.\<close>

abbreviation spent :: "ShroomInputAdmissionResult list \<Rightarrow> nat" where
  "spent rs \<equiv> count_if (\<lambda>r. r \<noteq> SHROOM_INPUT_REJECTED_RATE) rs"

lemma run_spends_at_most:
  assumes "ia_initialized a" and "sorted (map snd ps)"
    and "\<forall>p\<in>set ps. ia_last_refill_ms a \<le> snd p \<and> snd p \<le> stop" and "ia_last_refill_ms a \<le> stop"
  shows "1000 * spent (snd (admission_run a ps)) \<le>
           unat (ia_token_milli a) + 30 * (unat stop - unat (ia_last_refill_ms a))"
  using assms
proof (induction ps arbitrary: a)
  case Nil
  then show ?case by simp
next
  case (Cons p ps)
  obtain sq now where p: "p = (sq, now)" by (cases p)
  let ?R = "Refill a now"
  have now: "ia_last_refill_ms a \<le> now" "now \<le> stop" using Cons.prems(3) p by auto
  note R = refill_tokens [OF Cons.prems(1) now(1)]
  have rest: "1000 * spent (snd (admission_run b ps)) \<le> unat (ia_token_milli b) + 30 * (unat stop - unat now)"
    if "ia_initialized b" "ia_last_refill_ms b = now" for b
    using Cons.IH [of b] Cons.prems(2,3) that p now(2) by simp
  have time: "30 * (unat now - unat (ia_last_refill_ms a)) + 30 * (unat stop - unat now) =
      30 * (unat stop - unat (ia_last_refill_ms a))"
    using now by (simp add: word_le_nat_alt)
  show ?case
  proof (cases rule: check_cases [of a sq now])
    case rate
    with rest [of "?R\<lparr>ia_rate_limited_count := ia_rate_limited_count ?R + 1\<rparr>"] R time p
    show ?thesis by (simp add: case_prod_beta)
  next
    case (stale a1)
    then have "unat (ia_token_milli a1) + 1000 = unat (ia_token_milli ?R)"
      by (simp add: unat_sub input_constants word_le_nat_alt)
    with stale rest [of a1] R time p show ?thesis by (simp add: case_prod_beta)
  next
    case (admitted a1)
    then have "unat (ia_token_milli a1) + 1000 = unat (ia_token_milli ?R)"
      by (simp add: unat_sub input_constants word_le_nat_alt)
    with admitted rest [of a1] R time p show ?thesis by (simp add: case_prod_beta)
  qed
qed

text \<open>C9. Rate limit: from a reset, over any sequence of packets whose arrival times do not go back,
  the number of packets that pass the limiter is at most the burst of 10 plus 30 per second of
  elapsed time.\<close>

theorem input_rate_bounded:
  assumes "sorted (map snd ((sq, start) # ps))" and "\<forall>p\<in>set ps. snd p \<le> stop" and "start \<le> stop"
  shows "1000 * spent (snd (admission_run fresh_admission ((sq, start) # ps)))
           \<le> 10000 + 30 * (unat stop - unat start)"
proof -
  let ?b = "fresh_admission\<lparr>ia_initialized := True, ia_last_refill_ms := start, ia_token_milli := 10000\<rparr>"
  have "Refill fresh_admission start = Refill ?b start"
    by (simp add: admission_eval)
  then have "ShroomInputAdmissionCheck (Some fresh_admission) sq start =
      ShroomInputAdmissionCheck (Some ?b) sq start"
    by (simp add: ShroomInputAdmissionCheck_def)
  then have same: "admission_run fresh_admission ((sq, start) # ps) = admission_run ?b ((sq, start) # ps)"
    using check_never_None [of ?b sq start] by (auto split: option.splits prod.splits)
  have "1000 * spent (snd (admission_run ?b ((sq, start) # ps)))
      \<le> unat (ia_token_milli ?b) + 30 * (unat stop - unat (ia_last_refill_ms ?b))"
    by (rule run_spends_at_most) (use assms in auto)
  then show ?thesis unfolding same by simp
qed

theorem input_rate_bounded_witness:
  "1000 * spent (snd (admission_run fresh_admission ((1, 5) # [(2, 5), (2, 40), (3, 105)])))
     \<le> 10000 + 30 * (unat (105 :: u64) - unat (5 :: u64))"
  by (rule input_rate_bounded) simp_all

end
