(* ===== verification/Snapshot_Scheduler.thy ===== *)
theory Snapshot_Scheduler
  imports Prelude
begin

text \<open>
  The snapshot scheduler of \<open>src/shared/snapshot_scheduler.c\<close>: a phase accumulator that
  decides on which server ticks a snapshot is sent.
\<close>

definition SHROOM_SNAPSHOT_RATE_MIN :: u32 where "SHROOM_SNAPSHOT_RATE_MIN = 15"
definition SHROOM_SNAPSHOT_RATE_MAX :: u32 where "SHROOM_SNAPSHOT_RATE_MAX = 20"

record ShroomSnapshotScheduler =
  sch_tick_rate :: u32
  sch_snapshot_rate :: u32
  sch_phase :: u32
  sch_tick_count :: u64
  sch_emission_count :: u64

text \<open>A refused initialisation leaves the caller's object as it was (\<open>None\<close>: NULL).\<close>

definition ShroomSnapshotSchedulerInit ::
  "ShroomSnapshotScheduler option \<Rightarrow> u32 \<Rightarrow> u32 \<Rightarrow> ShroomSnapshotScheduler option \<times> bool" where
  "ShroomSnapshotSchedulerInit scheduler tick_rate snapshot_rate =
     (if scheduler = None \<or> tick_rate = 0 \<or> tick_rate < snapshot_rate \<or>
         snapshot_rate < SHROOM_SNAPSHOT_RATE_MIN \<or> SHROOM_SNAPSHOT_RATE_MAX < snapshot_rate
      then (scheduler, False)
      else (Some \<lparr>sch_tick_rate = tick_rate, sch_snapshot_rate = snapshot_rate, sch_phase = 0,
                  sch_tick_count = 0, sch_emission_count = 0\<rparr>, True))"

definition ShroomSnapshotSchedulerStep ::
  "ShroomSnapshotScheduler option \<Rightarrow> ShroomSnapshotScheduler option \<times> bool" where
  "ShroomSnapshotSchedulerStep scheduler =
     (case scheduler of
        None \<Rightarrow> (None, False)
      | Some s \<Rightarrow>
          if sch_tick_rate s = 0 \<or> sch_snapshot_rate s = 0 then (Some s, False)
          else
            let s1 = s\<lparr>sch_tick_count := sch_tick_count s + 1,
                       sch_phase := sch_phase s + sch_snapshot_rate s\<rparr>
            in if sch_phase s1 < sch_tick_rate s1 then (Some s1, False)
               else (Some (s1\<lparr>sch_phase := sch_phase s1 - sch_tick_rate s1,
                              sch_emission_count := sch_emission_count s1 + 1\<rparr>), True))"

text \<open>\<open>n\<close> consecutive ticks, with the list of answers in order.\<close>

fun scheduler_run ::
  "nat \<Rightarrow> ShroomSnapshotScheduler option \<Rightarrow> ShroomSnapshotScheduler option \<times> bool list" where
  "scheduler_run 0 s = (s, [])"
| "scheduler_run (Suc n) s =
     (let (s1, emit) = ShroomSnapshotSchedulerStep s; (s2, rest) = scheduler_run n s1
      in (s2, emit # rest))"

text \<open>
  The scheduler as arithmetic: a valid state has a phase below the tick rate and rates that
  fit the 32-bit addition.
\<close>

definition scheduler_ok :: "ShroomSnapshotScheduler \<Rightarrow> bool" where
  "scheduler_ok s \<longleftrightarrow> 0 < unat (sch_snapshot_rate s) \<and>
     unat (sch_snapshot_rate s) \<le> unat (sch_tick_rate s) \<and>
     unat (sch_phase s) < unat (sch_tick_rate s) \<and>
     unat (sch_tick_rate s) + unat (sch_snapshot_rate s) \<le> 2 ^ 32"

lemma init_ok:
  assumes "ShroomSnapshotSchedulerInit (Some s0) tick_rate snapshot_rate = (Some s, True)"
    and "unat tick_rate + 20 \<le> 2 ^ 32"
  shows "scheduler_ok s" and "sch_phase s = 0" and "sch_emission_count s = 0"
    and "sch_tick_rate s = tick_rate" and "sch_snapshot_rate s = snapshot_rate"
proof -
  have "snapshot_rate \<le> tick_rate" "15 \<le> snapshot_rate" "snapshot_rate \<le> 20"
    and s: "s = \<lparr>sch_tick_rate = tick_rate, sch_snapshot_rate = snapshot_rate, sch_phase = 0,
                 sch_tick_count = 0, sch_emission_count = 0\<rparr>"
    using assms(1)
    by (auto simp: ShroomSnapshotSchedulerInit_def SHROOM_SNAPSHOT_RATE_MIN_def
        SHROOM_SNAPSHOT_RATE_MAX_def not_less split: if_splits)
  then have "unat snapshot_rate \<le> unat tick_rate" "15 \<le> unat snapshot_rate" "unat snapshot_rate \<le> 20"
    by (simp_all add: word_le_nat_alt)
  with s assms(2) show "scheduler_ok s" by (simp add: scheduler_ok_def)
  from s show "sch_phase s = 0" "sch_emission_count s = 0" "sch_tick_rate s = tick_rate"
    "sch_snapshot_rate s = snapshot_rate" by simp_all
qed

lemma step_arith:
  assumes "scheduler_ok s"
  obtains s' where
    "ShroomSnapshotSchedulerStep (Some s) =
       (Some s', unat (sch_tick_rate s) \<le> unat (sch_phase s) + unat (sch_snapshot_rate s))"
    "scheduler_ok s'" "sch_tick_rate s' = sch_tick_rate s" "sch_snapshot_rate s' = sch_snapshot_rate s"
    "unat (sch_phase s') =
       (unat (sch_phase s) + unat (sch_snapshot_rate s)) mod unat (sch_tick_rate s)"
    "sch_emission_count s' = sch_emission_count s +
       of_bool (unat (sch_tick_rate s) \<le> unat (sch_phase s) + unat (sch_snapshot_rate s))"
    "sch_tick_count s' = sch_tick_count s + 1"
proof -
  let ?p = "sch_phase s" and ?r = "sch_snapshot_rate s" and ?t = "sch_tick_rate s"
  from assms have b: "0 < unat ?r" "unat ?r \<le> unat ?t" "unat ?p < unat ?t" "unat ?t + unat ?r \<le> 2 ^ 32"
    by (auto simp: scheduler_ok_def)
  then have sum: "unat (?p + ?r) = unat ?p + unat ?r"
    by (subst unat_add_lem [THEN iffD1]) auto
  have nz: "?t \<noteq> 0" "?r \<noteq> 0" using b by auto
  show thesis
  proof (cases "?p + ?r < ?t")
    case True
    then have lt: "unat ?p + unat ?r < unat ?t" by (simp add: word_less_nat_alt sum)
    show thesis
      using True nz lt b sum
      by (intro that [of "s\<lparr>sch_tick_count := sch_tick_count s + 1, sch_phase := ?p + ?r\<rparr>"])
        (simp_all add: ShroomSnapshotSchedulerStep_def Let_def scheduler_ok_def)
  next
    case False
    then have ge: "unat ?t \<le> unat ?p + unat ?r" by (simp add: word_less_nat_alt sum not_less)
    have sub: "unat (?p + ?r - ?t) = unat ?p + unat ?r - unat ?t"
      using False by (subst unat_sub) (simp_all add: not_less sum)
    have lt: "unat ?p + unat ?r - unat ?t < unat ?t" using b by linarith
    then have md: "(unat ?p + unat ?r) mod unat ?t = unat ?p + unat ?r - unat ?t"
      using ge by (simp add: le_mod_geq)
    show thesis
      using False nz ge b sub lt md
      by (intro that [of "s\<lparr>sch_tick_count := sch_tick_count s + 1, sch_phase := ?p + ?r - ?t,
            sch_emission_count := sch_emission_count s + 1\<rparr>"])
        (simp_all add: ShroomSnapshotSchedulerStep_def Let_def scheduler_ok_def)
  qed
qed

text \<open>Counting the snapshots of a run: the accumulator divides exactly.\<close>

lemma run_count:
  assumes "scheduler_ok s" and "scheduler_run n (Some s) = (s', answers)"
  shows "count_if (\<lambda>b. b) answers =
           (unat (sch_phase s) + n * unat (sch_snapshot_rate s)) div unat (sch_tick_rate s)"
  using assms
proof (induction n arbitrary: s s' answers)
  case 0
  then show ?case by (auto simp: scheduler_ok_def)
next
  case (Suc n)
  let ?p = "unat (sch_phase s)" and ?r = "unat (sch_snapshot_rate s)" and ?t = "unat (sch_tick_rate s)"
  from step_arith [OF Suc.prems(1)] obtain s1 where s1:
    "ShroomSnapshotSchedulerStep (Some s) = (Some s1, ?t \<le> ?p + ?r)" "scheduler_ok s1"
    "unat (sch_tick_rate s1) = ?t" "unat (sch_snapshot_rate s1) = ?r"
    "unat (sch_phase s1) = (?p + ?r) mod ?t" by metis
  obtain s2 rest where run: "scheduler_run n (Some s1) = (s2, rest)" by (cases "scheduler_run n (Some s1)")
  with Suc.prems(2) s1(1) have answers: "answers = (?t \<le> ?p + ?r) # rest" by (simp add: Let_def)
  have rest: "count_if (\<lambda>b. b) rest = ((?p + ?r) mod ?t + n * ?r) div ?t"
    using Suc.IH [OF s1(2) run] s1(3-5) by simp
  from Suc.prems(1) have b: "0 < ?t" "?p + ?r < 2 * ?t" by (auto simp: scheduler_ok_def)
  have "(?p + ?r) div ?t = 1" if "?t \<le> ?p + ?r"
    using that b by (intro div_nat_eqI) auto
  then have one: "(if ?t \<le> ?p + ?r then 1 else 0) = (?p + ?r) div ?t" by simp
  let ?c = "(?p + ?r) mod ?t + n * ?r" and ?q = "(?p + ?r) div ?t"
  have "?p + Suc n * ?r = ?c + ?q * ?t" by simp
  then have "(?p + Suc n * ?r) div ?t = ?q + ?c div ?t"
    using b(1) div_mult_self1 [of ?t ?c ?q] by (metis less_not_refl)
  with rest answers have "(?p + Suc n * ?r) div ?t = ?q + count_if (\<lambda>b. b) rest" by simp
  with one answers show ?case by (cases "?t \<le> ?p + ?r") simp_all
qed

text \<open>C13. After a successful initialisation, the number of snapshots sent in the first n ticks is
  exactly the integer part of n * snapshot_rate / tick_rate: the scheduler neither drifts nor
  bursts, however long it runs.\<close>

theorem scheduler_emits_exact_rate:
  assumes "ShroomSnapshotSchedulerInit (Some s0) tick_rate snapshot_rate = (Some s, True)"
    and "unat tick_rate + 20 \<le> 2 ^ 32"
  shows "count_if (\<lambda>b. b) (snd (scheduler_run n (Some s))) = n * unat snapshot_rate div unat tick_rate"
proof -
  obtain s' answers where run: "scheduler_run n (Some s) = (s', answers)"
    by (cases "scheduler_run n (Some s)")
  from run_count [OF init_ok(1) [OF assms] run] init_ok [OF assms] run show ?thesis by simp
qed

theorem scheduler_emits_exact_rate_witness:
  "\<exists>s. ShroomSnapshotSchedulerInit (Some s) 30 20 = (Some s, True) \<and>
       count_if (\<lambda>b. b) (snd (scheduler_run 31 (Some s))) = 31 * 20 div 30"
proof -
  let ?s = "\<lparr>sch_tick_rate = 30, sch_snapshot_rate = 20, sch_phase = 0, sch_tick_count = 0,
             sch_emission_count = 0\<rparr>"
  have i: "ShroomSnapshotSchedulerInit (Some ?s) 30 20 = (Some ?s, True)"
    by (simp add: ShroomSnapshotSchedulerInit_def SHROOM_SNAPSHOT_RATE_MIN_def
        SHROOM_SNAPSHOT_RATE_MAX_def)
  have t: "unat (30 :: u32) + 20 \<le> 2 ^ 32" by simp
  show ?thesis using i scheduler_emits_exact_rate [OF i t, of 31] by auto
qed

end
