(* ===== verification/Byte_Codec.thy ===== *)
theory Byte_Codec
  imports Prelude
begin

text \<open>
  Memory images: little-endian bytes of C integers (every build target of the program is
  little-endian; \<open>memcpy\<close> of an integer field copies exactly these bytes), the bounded
  \<open>WriteBytes\<close> and \<open>ReadBytes\<close> of \<open>src/shared/snapshot_replication.c\<close>,
  the interface of a fixed-width field, and IEEE single-precision comparison on the 32-bit
  images of floats.
\<close>

section \<open>Little-endian images\<close>

primrec le_bytes :: "nat \<Rightarrow> 'a::len word \<Rightarrow> u8 list" where
  "le_bytes 0 w = []"
| "le_bytes (Suc n) w = ucast w # le_bytes n (drop_bit 8 w)"

primrec le_value :: "u8 list \<Rightarrow> 'a::len word" where
  "le_value [] = 0"
| "le_value (b # bs) = ucast b OR push_bit 8 (le_value bs)"

lemma length_le_bytes [simp]: "length (le_bytes n w) = n"
  by (induction n arbitrary: w) auto

lemma le_value_le_bytes: "le_value (le_bytes n w) = take_bit (8 * n) w"
proof (induction n arbitrary: w)
  case 0
  then show ?case by simp
next
  case (Suc n)
  have "ucast (ucast w :: u8) OR push_bit 8 (take_bit (8 * n) (drop_bit 8 w)) = take_bit (8 + 8 * n) w"
    by (rule bit_eqI) (auto simp: bit_simps)
  with Suc show ?case by simp
qed

lemma le_round_trip: "LENGTH('a) \<le> 8 * n \<Longrightarrow> le_value (le_bytes n w) = (w :: 'a::len word)"
  by (simp add: le_value_le_bytes take_bit_word_eq_self)

section \<open>Bounded writes and reads\<close>

text \<open>
  \<open>WriteBytes\<close> appends at \<open>*offset\<close>, which is the number of bytes written so
  far; \<open>ReadBytes\<close> returns the bytes read and the advanced offset.
\<close>

definition WriteBytes :: "nat \<Rightarrow> u8 list \<Rightarrow> u8 list \<Rightarrow> u8 list option" where
  "WriteBytes capacity destination source =
     (if capacity < length destination + length source then None else Some (destination @ source))"

definition ReadBytes :: "u8 list \<Rightarrow> nat \<Rightarrow> nat \<Rightarrow> nat \<Rightarrow> (u8 list \<times> nat) option" where
  "ReadBytes source sz offset field_size =
     (if sz < offset + field_size then None
      else Some (take field_size (drop offset source), offset + field_size))"

section \<open>Fixed-width fields\<close>

text \<open>
  A field type has an image of fixed width for every value the program stores (\<open>ok\<close>),
  and reading the image gives the value back.  The facts of the block say what a bounded
  read finds at a place where the field was written, and are what the record codec uses.
\<close>

locale field_codec =
  fixes ok :: "'a \<Rightarrow> bool" and put :: "'a \<Rightarrow> u8 list" and get :: "u8 list \<Rightarrow> 'a" and width :: nat
  assumes put_width: "ok x \<Longrightarrow> length (put x) = width"
    and get_put: "ok x \<Longrightarrow> get (put x) = x"
begin

lemma read_written:
  assumes "ok x" and "drop offset source = put x @ rest" and "offset + width \<le> sz"
  shows "ReadBytes source sz offset width = Some (put x, offset + width)"
    and "get (put x) = x" and "drop (offset + width) source = rest"
proof -
  show "ReadBytes source sz offset width = Some (put x, offset + width)"
    using assms by (simp add: ReadBytes_def put_width)
  show "get (put x) = x" using assms(1) by (rule get_put)
  have "drop (offset + width) source = drop width (drop offset source)" by (simp add: add.commute)
  then show "drop (offset + width) source = rest" using assms(1,2) by (simp add: put_width)
qed

lemma write_fits:
  "ok x \<Longrightarrow> length d + width \<le> capacity \<Longrightarrow> WriteBytes capacity d (put x) = Some (d @ put x)"
  by (simp add: WriteBytes_def put_width)

end

interpretation u8_field: field_codec "\<lambda>_. True" "le_bytes 1 :: u8 \<Rightarrow> u8 list" le_value 1
  by unfold_locales (simp_all add: le_round_trip)

interpretation u16_field: field_codec "\<lambda>_. True" "le_bytes 2 :: u16 \<Rightarrow> u8 list" le_value 2
  by unfold_locales (simp_all add: le_round_trip)

interpretation u32_field: field_codec "\<lambda>_. True" "le_bytes 4 :: u32 \<Rightarrow> u8 list" le_value 4
  by unfold_locales (simp_all add: le_round_trip)

text \<open>A \<open>char name[SHROOM_MAX_NAME_LENGTH]\<close> field is its 32 bytes.\<close>

interpretation name_field: field_codec "\<lambda>n. length n = 32" "\<lambda>n. n" "\<lambda>b. b" 32
  by unfold_locales simp_all

section \<open>Single-precision floats by their bits\<close>

text \<open>
  A C \<open>float\<close> is its 32-bit image; \<open>memcpy\<close> and \<open>memcmp\<close> see the image,
  \<open>==\<close> and \<open>!=\<close> see the value: NaN differs from everything, the two zeros are equal.
\<close>

type_synonym f32 = u32

definition f32_is_nan :: "f32 \<Rightarrow> bool" where
  "f32_is_nan a \<longleftrightarrow> a AND 0x7f800000 = 0x7f800000 \<and> a AND 0x007fffff \<noteq> 0"

definition f32_is_zero :: "f32 \<Rightarrow> bool" where
  "f32_is_zero a \<longleftrightarrow> a AND 0x7fffffff = 0"

definition f32_eq :: "f32 \<Rightarrow> f32 \<Rightarrow> bool" where
  "f32_eq a b \<longleftrightarrow> \<not> f32_is_nan a \<and> \<not> f32_is_nan b \<and> (a = b \<or> f32_is_zero a \<and> f32_is_zero b)"

text \<open>Same image, or both a zero: what a receiver may see of a float that was not resent.\<close>

definition f32_same :: "f32 \<Rightarrow> f32 \<Rightarrow> bool" where
  "f32_same a b \<longleftrightarrow> a = b \<or> f32_is_zero a \<and> f32_is_zero b"

lemma f32_eq_same: "f32_eq a b \<Longrightarrow> f32_same a b"
  by (auto simp: f32_eq_def f32_same_def)

lemma f32_same_refl [simp]: "f32_same a a"
  by (simp add: f32_same_def)

lemma f32_same_sym: "f32_same a b \<Longrightarrow> f32_same b a"
  by (auto simp: f32_same_def)

lemma f32_same_trans: "f32_same a b \<Longrightarrow> f32_same b c \<Longrightarrow> f32_same a c"
  by (auto simp: f32_same_def)

end
