(* ===== verification/Protocol.thy ===== *)
theory Protocol
  imports Prelude
begin

text \<open>
  The wire protocol of \<open>src/shared/protocol.h\<close>: the C layout rules that give the packet
  sizes, the layouts of the packets, the packet metadata table with its channel, reliability
  and minimum-size functions, packet headers, and the validity check of voice frames.
  Layouts follow the C rules on the build targets of the program (x86-64 and ARM64: an
  integer of \<open>n\<close> bytes is aligned to \<open>n\<close>, a struct to its widest field).
\<close>

section \<open>Sizes\<close>

type_synonym ctype = "nat \<times> nat"  \<comment> \<open>size and alignment\<close>

definition c_u8 :: ctype where "c_u8 = (1, 1)"
definition c_u16 :: ctype where "c_u16 = (2, 2)"
definition c_u32 :: ctype where "c_u32 = (4, 4)"
definition c_u64 :: ctype where "c_u64 = (8, 8)"
definition c_float :: ctype where "c_float = (4, 4)"
definition c_array :: "nat \<Rightarrow> ctype \<Rightarrow> ctype" where "c_array n t = (n * fst t, snd t)"

definition align_up :: "nat \<Rightarrow> nat \<Rightarrow> nat" where
  "align_up n a = (n + (a - 1)) div a * a"

fun layout_end :: "nat \<Rightarrow> ctype list \<Rightarrow> nat" where
  "layout_end off [] = off"
| "layout_end off (t # ts) = layout_end (align_up off (snd t) + fst t) ts"

fun widest :: "ctype list \<Rightarrow> nat" where
  "widest [] = 1"
| "widest (t # ts) = max (snd t) (widest ts)"

text \<open>The type of a struct with these fields, and the offset of the field after a prefix.\<close>

definition c_struct :: "ctype list \<Rightarrow> ctype" where
  "c_struct ts = (align_up (layout_end 0 ts) (widest ts), widest ts)"

definition offset_of :: "ctype list \<Rightarrow> nat \<Rightarrow> nat" where
  "offset_of ts i = align_up (layout_end 0 (take i ts)) (snd (ts ! i))"

definition SHROOM_MAX_UNRELIABLE_PACKET_SIZE :: nat where "SHROOM_MAX_UNRELIABLE_PACKET_SIZE = 1200"
definition SHROOM_MAX_NAME_LENGTH :: nat where "SHROOM_MAX_NAME_LENGTH = 32"
definition SHROOM_SNAPSHOT_PAYLOAD_SIZE :: nat where "SHROOM_SNAPSHOT_PAYLOAD_SIZE = 1100"
definition SHROOM_SNAPSHOT_MAX_CHUNKS :: nat where "SHROOM_SNAPSHOT_MAX_CHUNKS = 128"
definition SHROOM_MAX_SNAPSHOT_PLAYERS :: nat where "SHROOM_MAX_SNAPSHOT_PLAYERS = 256 * 4"
definition SHROOM_MAX_SPORES :: nat where "SHROOM_MAX_SPORES = 4096"
definition SHROOM_MAX_POWERUPS :: nat where "SHROOM_MAX_POWERUPS = 8"
definition SHROOM_VOICE_MAX_PAYLOAD_SIZE :: nat where "SHROOM_VOICE_MAX_PAYLOAD_SIZE = 512"

definition ShroomPacketHeader_layout :: "ctype list" where
  "ShroomPacketHeader_layout = [c_u8, c_u8, c_u16]"
definition c_header :: ctype where "c_header = c_struct ShroomPacketHeader_layout"

definition ShroomHelloPacket_layout :: "ctype list" where
  "ShroomHelloPacket_layout = [c_header, c_u32, c_array 32 c_u8]"
definition ShroomWelcomePacket_layout :: "ctype list" where
  "ShroomWelcomePacket_layout = [c_header, c_u32, c_u32, c_u32, c_u16, c_u16, c_float, c_float]"
definition ShroomInputPacket_layout :: "ctype list" where
  "ShroomInputPacket_layout =
     [c_header, c_u32, c_float, c_float, c_float, c_float, c_u8, c_u8, c_array 2 c_u8, c_u32]"
definition ShroomSnapshotPacket_layout :: "ctype list" where
  "ShroomSnapshotPacket_layout =
     [c_header, c_u64, c_u64, c_u32, c_u32, c_u32, c_u16, c_u16, c_u16, c_u16, c_u16, c_u8, c_u8,
      c_u8, c_u8, c_float, c_float, c_u32, c_u8, c_array 3 c_u8, c_array 3 c_u32,
      c_array 3 c_float, c_array SHROOM_SNAPSHOT_PAYLOAD_SIZE c_u8]"
definition ShroomSnapshotAckPacket_layout :: "ctype list" where
  "ShroomSnapshotAckPacket_layout = [c_header, c_u64]"
definition ShroomPingPacket_layout :: "ctype list" where
  "ShroomPingPacket_layout = [c_header, c_u32]"
definition ShroomPongPacket_layout :: "ctype list" where
  "ShroomPongPacket_layout = [c_header, c_u32]"
definition ShroomServerProbePacket_layout :: "ctype list" where
  "ShroomServerProbePacket_layout = [c_header, c_u32, c_u32, c_u32]"
definition ShroomServerProbeResponsePacket_layout :: "ctype list" where
  "ShroomServerProbeResponsePacket_layout = [c_header, c_u32, c_u32, c_u32, c_u16, c_u16]"
definition ShroomDirectoryServerEntry_layout :: "ctype list" where
  "ShroomDirectoryServerEntry_layout =
     [c_u64, c_array 48 c_u8, c_array 64 c_u8, c_u16, c_u16, c_u16, c_u16]"
definition c_ShroomDirectoryServerEntry :: ctype where
  "c_ShroomDirectoryServerEntry = c_struct ShroomDirectoryServerEntry_layout"
definition ShroomDirectoryHeartbeatPacket_layout :: "ctype list" where
  "ShroomDirectoryHeartbeatPacket_layout =
     [c_header, c_u32, c_ShroomDirectoryServerEntry]"
definition ShroomDirectoryQueryPacket_layout :: "ctype list" where
  "ShroomDirectoryQueryPacket_layout = [c_header, c_u32, c_u32]"
definition ShroomDirectoryListPacket_layout :: "ctype list" where
  "ShroomDirectoryListPacket_layout =
     [c_header, c_u32, c_u32, c_u8, c_u8, c_u8, c_u8,
      c_array 7 c_ShroomDirectoryServerEntry]"
definition ShroomSnapshotSporeState_layout :: "ctype list" where
  "ShroomSnapshotSporeState_layout = [c_u32, c_float, c_float, c_u16, c_u16]"
definition c_ShroomSnapshotSporeState :: ctype where
  "c_ShroomSnapshotSporeState = c_struct ShroomSnapshotSporeState_layout"
definition ShroomSporeStatePacket_layout :: "ctype list" where
  "ShroomSporeStatePacket_layout =
     [c_header, c_u64, c_u16, c_u16,
      c_array SHROOM_MAX_SPORES c_ShroomSnapshotSporeState]"
definition ShroomSnapshotPowerupState_layout :: "ctype list" where
  "ShroomSnapshotPowerupState_layout = [c_u32, c_float, c_float, c_u8, c_u8, c_u16]"
definition c_ShroomSnapshotPowerupState :: ctype where
  "c_ShroomSnapshotPowerupState = c_struct ShroomSnapshotPowerupState_layout"
definition ShroomPowerupStatePacket_layout :: "ctype list" where
  "ShroomPowerupStatePacket_layout =
     [c_header, c_u64, c_u16, c_u16,
      c_array SHROOM_MAX_POWERUPS c_ShroomSnapshotPowerupState]"
definition ShroomWorldStateRecord_layout :: "ctype list" where
  "ShroomWorldStateRecord_layout =
     [c_u32, c_float, c_float, c_u16, c_u8, c_u8, c_u8, c_array 3 c_u8]"
definition c_ShroomWorldStateRecord :: ctype where
  "c_ShroomWorldStateRecord = c_struct ShroomWorldStateRecord_layout"
definition ShroomWorldStatePacket_layout :: "ctype list" where
  "ShroomWorldStatePacket_layout =
     [c_header, c_u64, c_u16, c_u16, c_u8, c_u8, c_u16,
      c_array 1 c_ShroomWorldStateRecord]"
definition ShroomMushroomSpeciesEntry_layout :: "ctype list" where
  "ShroomMushroomSpeciesEntry_layout =
     [c_u8, c_u8, c_u8, c_u8, c_u32, c_array 32 c_u8, c_array 128 c_u8]"
definition c_ShroomMushroomSpeciesEntry :: ctype where
  "c_ShroomMushroomSpeciesEntry = c_struct ShroomMushroomSpeciesEntry_layout"
definition ShroomMushroomSpeciesCatalogPacket_layout :: "ctype list" where
  "ShroomMushroomSpeciesCatalogPacket_layout =
     [c_header, c_u8, c_array 3 c_u8, c_array 10 c_ShroomMushroomSpeciesEntry]"
definition ShroomAuthRequestPacket_layout :: "ctype list" where
  "ShroomAuthRequestPacket_layout =
     [c_header, c_u8, c_u8, c_u16, c_array 32 c_u8, c_array 64 c_u8, c_array 64 c_u8]"
definition ShroomAuthResponsePacket_layout :: "ctype list" where
  "ShroomAuthResponsePacket_layout =
     [c_header, c_u8, c_array 3 c_u8, c_u32, c_array 64 c_u8, c_array 64 c_u8]"
definition ShroomLobbyEntry_layout :: "ctype list" where
  "ShroomLobbyEntry_layout =
     [c_u32, c_array 32 c_u8, c_u16, c_u16, c_u16, c_u16, c_u8, c_u8, c_array 2 c_u8]"
definition c_ShroomLobbyEntry :: ctype where
  "c_ShroomLobbyEntry = c_struct ShroomLobbyEntry_layout"
definition ShroomLobbyListPacket_layout :: "ctype list" where
  "ShroomLobbyListPacket_layout =
     [c_header, c_u8, c_array 3 c_u8, c_array 8 c_ShroomLobbyEntry]"
definition ShroomLobbyJoinPacket_layout :: "ctype list" where
  "ShroomLobbyJoinPacket_layout = [c_header, c_u32, c_u8, c_array 3 c_u8]"
definition ShroomLobbyJoinedPacket_layout :: "ctype list" where
  "ShroomLobbyJoinedPacket_layout =
     [c_header, c_u32, c_u64, c_u32, c_u32, c_u8, c_u8, c_array 2 c_u8, c_array 32 c_u8,
      c_u16, c_u16, c_u16, c_u16, c_float, c_float]"
definition ShroomLobbyLeavePacket_layout :: "ctype list" where
  "ShroomLobbyLeavePacket_layout = [c_header, c_u32]"
definition ShroomLobbyCreatePacket_layout :: "ctype list" where
  "ShroomLobbyCreatePacket_layout = [c_header, c_array 32 c_u8, c_u16, c_u8, c_u8]"
definition ShroomLobbyCreatedPacket_layout :: "ctype list" where
  "ShroomLobbyCreatedPacket_layout = [c_header, c_u32, c_array 32 c_u8]"
definition ShroomChatPacket_layout :: "ctype list" where
  "ShroomChatPacket_layout = [c_header, c_u32, c_u64, c_u32, c_array 32 c_u8, c_array 201 c_u8]"
definition ShroomVoiceFramePacket_layout :: "ctype list" where
  "ShroomVoiceFramePacket_layout =
     [c_header, c_u32, c_u32, c_u32, c_u16, c_u16, c_u8, c_array 3 c_u8, c_array 0 c_u8]"
definition ShroomReadyStatePacket_layout :: "ctype list" where
  "ShroomReadyStatePacket_layout = [c_header, c_u32, c_u8, c_array 3 c_u8]"
definition ShroomEnterMatchPacket_layout :: "ctype list" where
  "ShroomEnterMatchPacket_layout = [c_header, c_u32]"
definition ShroomLobbyRosterEntry_layout :: "ctype list" where
  "ShroomLobbyRosterEntry_layout = [c_u32, c_u8, c_u8, c_u8, c_u8]"
definition c_ShroomLobbyRosterEntry :: ctype where
  "c_ShroomLobbyRosterEntry = c_struct ShroomLobbyRosterEntry_layout"
definition ShroomLobbyRosterPacket_layout :: "ctype list" where
  "ShroomLobbyRosterPacket_layout =
     [c_header, c_u32, c_u32, c_u16, c_u16, c_u16, c_u16, c_u8, c_array 3 c_u8,
      c_array 128 c_ShroomLobbyRosterEntry]"
definition ShroomRematchVotePacket_layout :: "ctype list" where
  "ShroomRematchVotePacket_layout = [c_header, c_u32, c_u8, c_array 3 c_u8]"
definition ShroomIntermissionStatusPacket_layout :: "ctype list" where
  "ShroomIntermissionStatusPacket_layout =
     [c_header, c_u32, c_float, c_u16, c_u16, c_u16, c_u16, c_u8, c_u8, c_u8, c_u8]"

definition size_of :: "ctype list \<Rightarrow> nat" where "size_of ts = fst (c_struct ts)"

lemmas basic_layout = size_of_def offset_of_def c_struct_def align_up_def c_array_def
  c_u8_def c_u16_def c_u32_def c_u64_def c_float_def
  numeral_2_eq_2 [symmetric]
  SHROOM_SNAPSHOT_PAYLOAD_SIZE_def SHROOM_MAX_SPORES_def SHROOM_MAX_POWERUPS_def

lemma c_header_eval: "c_header = (4, 2)"
  by (simp add: c_header_def ShroomPacketHeader_layout_def basic_layout)

lemma c_entries_eval:
  "c_ShroomDirectoryServerEntry = (128, 8)"
  "c_ShroomSnapshotSporeState = (16, 4)"
  "c_ShroomSnapshotPowerupState = (16, 4)"
  "c_ShroomWorldStateRecord = (20, 4)"
  "c_ShroomMushroomSpeciesEntry = (168, 4)"
  "c_ShroomLobbyEntry = (48, 4)"
  "c_ShroomLobbyRosterEntry = (8, 4)"
  by (simp_all add: basic_layout ShroomDirectoryServerEntry_layout_def
      ShroomSnapshotSporeState_layout_def ShroomSnapshotPowerupState_layout_def
      ShroomWorldStateRecord_layout_def ShroomMushroomSpeciesEntry_layout_def
      ShroomLobbyEntry_layout_def ShroomLobbyRosterEntry_layout_def c_ShroomDirectoryServerEntry_def
      c_ShroomSnapshotSporeState_def c_ShroomSnapshotPowerupState_def
      c_ShroomWorldStateRecord_def c_ShroomMushroomSpeciesEntry_def c_ShroomLobbyEntry_def
      c_ShroomLobbyRosterEntry_def)

lemmas packet_layouts =
  ShroomPacketHeader_layout_def ShroomHelloPacket_layout_def ShroomWelcomePacket_layout_def
  ShroomInputPacket_layout_def ShroomSnapshotPacket_layout_def ShroomSnapshotAckPacket_layout_def
  ShroomPingPacket_layout_def ShroomPongPacket_layout_def ShroomServerProbePacket_layout_def
  ShroomServerProbeResponsePacket_layout_def
  ShroomDirectoryHeartbeatPacket_layout_def ShroomDirectoryQueryPacket_layout_def
  ShroomDirectoryListPacket_layout_def
  ShroomSporeStatePacket_layout_def
  ShroomPowerupStatePacket_layout_def
  ShroomWorldStatePacket_layout_def
  ShroomMushroomSpeciesCatalogPacket_layout_def ShroomAuthRequestPacket_layout_def
  ShroomAuthResponsePacket_layout_def ShroomLobbyListPacket_layout_def
  ShroomLobbyJoinPacket_layout_def ShroomLobbyJoinedPacket_layout_def
  ShroomLobbyLeavePacket_layout_def ShroomLobbyCreatePacket_layout_def
  ShroomLobbyCreatedPacket_layout_def ShroomChatPacket_layout_def ShroomVoiceFramePacket_layout_def
  ShroomReadyStatePacket_layout_def ShroomEnterMatchPacket_layout_def
  ShroomLobbyRosterPacket_layout_def
  ShroomRematchVotePacket_layout_def ShroomIntermissionStatusPacket_layout_def

lemma entry_sizes [size_simps]:
  "size_of ShroomWorldStateRecord_layout = 20"
  "size_of ShroomSnapshotSporeState_layout = 16"
  "size_of ShroomDirectoryServerEntry_layout = 128"
  unfolding size_of_def c_ShroomWorldStateRecord_def [symmetric]
    c_ShroomSnapshotSporeState_def [symmetric] c_ShroomDirectoryServerEntry_def [symmetric]
  by (simp_all add: c_entries_eval)

lemma packet_sizes [size_simps]:
  "size_of ShroomPacketHeader_layout = 4"
  "offset_of ShroomSnapshotPacket_layout 22 = 92"
  "size_of ShroomSnapshotPacket_layout = 1192"
  "offset_of ShroomWorldStatePacket_layout 7 = 24"
  "offset_of ShroomSporeStatePacket_layout 4 = 20"
  "offset_of ShroomVoiceFramePacket_layout 8 = 24"
  "size_of ShroomDirectoryHeartbeatPacket_layout = 136"
  "offset_of ShroomDirectoryListPacket_layout 7 = 16"
  "size_of ShroomDirectoryListPacket_layout = 912"
  "size_of ShroomLobbyRosterPacket_layout = 1048"
  by (simp_all add: packet_layouts c_header_eval c_entries_eval basic_layout)

section \<open>Packet types and their metadata\<close>

text \<open>
  \<open>ShroomPacketType\<close> values are the numbers of the C enumeration: code casts an
  arbitrary header byte to the enumeration, so a packet type here is any number.
\<close>

abbreviation (input) SHROOM_PACKET_HELLO :: nat where "SHROOM_PACKET_HELLO \<equiv> 1"
abbreviation (input) SHROOM_PACKET_WELCOME :: nat where "SHROOM_PACKET_WELCOME \<equiv> 2"
abbreviation (input) SHROOM_PACKET_INPUT :: nat where "SHROOM_PACKET_INPUT \<equiv> 3"
abbreviation (input) SHROOM_PACKET_SNAPSHOT :: nat where "SHROOM_PACKET_SNAPSHOT \<equiv> 4"
abbreviation (input) SHROOM_PACKET_PING :: nat where "SHROOM_PACKET_PING \<equiv> 5"
abbreviation (input) SHROOM_PACKET_PONG :: nat where "SHROOM_PACKET_PONG \<equiv> 6"
abbreviation (input) SHROOM_PACKET_SPORE_STATE :: nat where "SHROOM_PACKET_SPORE_STATE \<equiv> 7"
abbreviation (input) SHROOM_PACKET_AUTH_REQUEST :: nat where "SHROOM_PACKET_AUTH_REQUEST \<equiv> 8"
abbreviation (input) SHROOM_PACKET_AUTH_RESPONSE :: nat where "SHROOM_PACKET_AUTH_RESPONSE \<equiv> 9"
abbreviation (input) SHROOM_PACKET_CHAT :: nat where "SHROOM_PACKET_CHAT \<equiv> 10"
abbreviation (input) SHROOM_PACKET_LOBBY_LIST_QUERY :: nat where "SHROOM_PACKET_LOBBY_LIST_QUERY \<equiv> 11"
abbreviation (input) SHROOM_PACKET_LOBBY_LIST :: nat where "SHROOM_PACKET_LOBBY_LIST \<equiv> 12"
abbreviation (input) SHROOM_PACKET_LOBBY_JOIN :: nat where "SHROOM_PACKET_LOBBY_JOIN \<equiv> 13"
abbreviation (input) SHROOM_PACKET_LOBBY_JOINED :: nat where "SHROOM_PACKET_LOBBY_JOINED \<equiv> 14"
abbreviation (input) SHROOM_PACKET_LOBBY_LEAVE :: nat where "SHROOM_PACKET_LOBBY_LEAVE \<equiv> 15"
abbreviation (input) SHROOM_PACKET_LOBBY_CREATE :: nat where "SHROOM_PACKET_LOBBY_CREATE \<equiv> 16"
abbreviation (input) SHROOM_PACKET_LOBBY_CREATED :: nat where "SHROOM_PACKET_LOBBY_CREATED \<equiv> 17"
abbreviation (input) SHROOM_PACKET_POWERUP_STATE :: nat where "SHROOM_PACKET_POWERUP_STATE \<equiv> 18"
abbreviation (input) SHROOM_PACKET_MUSHROOM_SPECIES_CATALOG :: nat where "SHROOM_PACKET_MUSHROOM_SPECIES_CATALOG \<equiv> 19"
abbreviation (input) SHROOM_PACKET_VOICE_FRAME :: nat where "SHROOM_PACKET_VOICE_FRAME \<equiv> 20"
abbreviation (input) SHROOM_PACKET_READY_STATE :: nat where "SHROOM_PACKET_READY_STATE \<equiv> 21"
abbreviation (input) SHROOM_PACKET_ENTER_MATCH :: nat where "SHROOM_PACKET_ENTER_MATCH \<equiv> 22"
abbreviation (input) SHROOM_PACKET_LOBBY_ROSTER :: nat where "SHROOM_PACKET_LOBBY_ROSTER \<equiv> 23"
abbreviation (input) SHROOM_PACKET_REMATCH_VOTE :: nat where "SHROOM_PACKET_REMATCH_VOTE \<equiv> 24"
abbreviation (input) SHROOM_PACKET_INTERMISSION_STATUS :: nat where "SHROOM_PACKET_INTERMISSION_STATUS \<equiv> 25"
abbreviation (input) SHROOM_PACKET_DIRECTORY_HEARTBEAT :: nat where "SHROOM_PACKET_DIRECTORY_HEARTBEAT \<equiv> 26"
abbreviation (input) SHROOM_PACKET_DIRECTORY_QUERY :: nat where "SHROOM_PACKET_DIRECTORY_QUERY \<equiv> 27"
abbreviation (input) SHROOM_PACKET_DIRECTORY_LIST :: nat where "SHROOM_PACKET_DIRECTORY_LIST \<equiv> 28"
abbreviation (input) SHROOM_PACKET_WORLD_STATE :: nat where "SHROOM_PACKET_WORLD_STATE \<equiv> 29"
abbreviation (input) SHROOM_PACKET_SNAPSHOT_ACK :: nat where "SHROOM_PACKET_SNAPSHOT_ACK \<equiv> 30"
abbreviation (input) SHROOM_PACKET_SERVER_PROBE :: nat where "SHROOM_PACKET_SERVER_PROBE \<equiv> 31"
abbreviation (input) SHROOM_PACKET_SERVER_PROBE_RESPONSE :: nat where "SHROOM_PACKET_SERVER_PROBE_RESPONSE \<equiv> 32"

abbreviation (input) SHROOM_ENET_CHANNEL_CONTROL :: u8 where "SHROOM_ENET_CHANNEL_CONTROL \<equiv> 0"
abbreviation (input) SHROOM_ENET_CHANNEL_SNAPSHOT :: u8 where "SHROOM_ENET_CHANNEL_SNAPSHOT \<equiv> 1"
abbreviation (input) SHROOM_ENET_CHANNEL_INPUT :: u8 where "SHROOM_ENET_CHANNEL_INPUT \<equiv> 2"
abbreviation (input) SHROOM_ENET_CHANNEL_CHAT :: u8 where "SHROOM_ENET_CHANNEL_CHAT \<equiv> 3"
abbreviation (input) SHROOM_ENET_CHANNEL_VOICE :: u8 where "SHROOM_ENET_CHANNEL_VOICE \<equiv> 4"
definition SHROOM_SERVER_MAX_CLIENTS :: nat where "SHROOM_SERVER_MAX_CLIENTS = 256"
definition SHROOM_ENET_CHANNEL_COUNT :: nat where "SHROOM_ENET_CHANNEL_COUNT = 5"

definition SHROOM_VOICE_FRAME_HEADER_SIZE :: nat where
  "SHROOM_VOICE_FRAME_HEADER_SIZE = offset_of ShroomVoiceFramePacket_layout 8"
definition SHROOM_VOICE_FRAME_MAX_SIZE :: nat where
  "SHROOM_VOICE_FRAME_MAX_SIZE = SHROOM_VOICE_FRAME_HEADER_SIZE + SHROOM_VOICE_MAX_PAYLOAD_SIZE"
definition SHROOM_DIRECTORY_LIST_HEADER_SIZE :: nat where
  "SHROOM_DIRECTORY_LIST_HEADER_SIZE = offset_of ShroomDirectoryListPacket_layout 7"

text \<open>One row of the table: type, channel, reliable delivery, minimum size.\<close>

definition SHROOM_PACKET_METADATA :: "(nat \<times> u8 \<times> bool \<times> nat) list" where
  "SHROOM_PACKET_METADATA =
    [(SHROOM_PACKET_HELLO, SHROOM_ENET_CHANNEL_CONTROL, True, size_of ShroomHelloPacket_layout),
     (SHROOM_PACKET_WELCOME, SHROOM_ENET_CHANNEL_CONTROL, True, size_of ShroomWelcomePacket_layout),
     (SHROOM_PACKET_INPUT, SHROOM_ENET_CHANNEL_INPUT, False, size_of ShroomInputPacket_layout),
     (SHROOM_PACKET_SNAPSHOT, SHROOM_ENET_CHANNEL_SNAPSHOT, False,
      offset_of ShroomSnapshotPacket_layout 22),
     (SHROOM_PACKET_SNAPSHOT_ACK, SHROOM_ENET_CHANNEL_INPUT, False,
      size_of ShroomSnapshotAckPacket_layout),
     (SHROOM_PACKET_PING, SHROOM_ENET_CHANNEL_CONTROL, True, size_of ShroomPingPacket_layout),
     (SHROOM_PACKET_PONG, SHROOM_ENET_CHANNEL_CONTROL, True, size_of ShroomPongPacket_layout),
     (SHROOM_PACKET_SERVER_PROBE, SHROOM_ENET_CHANNEL_CONTROL, True,
      size_of ShroomServerProbePacket_layout),
     (SHROOM_PACKET_SERVER_PROBE_RESPONSE, SHROOM_ENET_CHANNEL_CONTROL, True,
      size_of ShroomServerProbeResponsePacket_layout),
     (SHROOM_PACKET_SPORE_STATE, SHROOM_ENET_CHANNEL_SNAPSHOT, False,
      offset_of ShroomSporeStatePacket_layout 4),
     (SHROOM_PACKET_AUTH_REQUEST, SHROOM_ENET_CHANNEL_CONTROL, True,
      size_of ShroomAuthRequestPacket_layout),
     (SHROOM_PACKET_AUTH_RESPONSE, SHROOM_ENET_CHANNEL_CONTROL, True,
      size_of ShroomAuthResponsePacket_layout),
     (SHROOM_PACKET_CHAT, SHROOM_ENET_CHANNEL_CHAT, True, size_of ShroomChatPacket_layout),
     (SHROOM_PACKET_VOICE_FRAME, SHROOM_ENET_CHANNEL_VOICE, False, SHROOM_VOICE_FRAME_HEADER_SIZE),
     (SHROOM_PACKET_LOBBY_LIST_QUERY, SHROOM_ENET_CHANNEL_CONTROL, True,
      size_of ShroomPacketHeader_layout),
     (SHROOM_PACKET_LOBBY_LIST, SHROOM_ENET_CHANNEL_CONTROL, True,
      offset_of ShroomLobbyListPacket_layout 3),
     (SHROOM_PACKET_LOBBY_JOIN, SHROOM_ENET_CHANNEL_CONTROL, True,
      size_of ShroomLobbyJoinPacket_layout),
     (SHROOM_PACKET_LOBBY_JOINED, SHROOM_ENET_CHANNEL_CONTROL, True,
      size_of ShroomLobbyJoinedPacket_layout),
     (SHROOM_PACKET_LOBBY_LEAVE, SHROOM_ENET_CHANNEL_CONTROL, True,
      size_of ShroomLobbyLeavePacket_layout),
     (SHROOM_PACKET_LOBBY_CREATE, SHROOM_ENET_CHANNEL_CONTROL, True,
      size_of ShroomLobbyCreatePacket_layout),
     (SHROOM_PACKET_LOBBY_CREATED, SHROOM_ENET_CHANNEL_CONTROL, True,
      size_of ShroomLobbyCreatedPacket_layout),
     (SHROOM_PACKET_POWERUP_STATE, SHROOM_ENET_CHANNEL_SNAPSHOT, False,
      offset_of ShroomPowerupStatePacket_layout 4),
     (SHROOM_PACKET_MUSHROOM_SPECIES_CATALOG, SHROOM_ENET_CHANNEL_CONTROL, True,
      offset_of ShroomMushroomSpeciesCatalogPacket_layout 3),
     (SHROOM_PACKET_READY_STATE, SHROOM_ENET_CHANNEL_CONTROL, True,
      size_of ShroomReadyStatePacket_layout),
     (SHROOM_PACKET_ENTER_MATCH, SHROOM_ENET_CHANNEL_CONTROL, True,
      size_of ShroomEnterMatchPacket_layout),
     (SHROOM_PACKET_LOBBY_ROSTER, SHROOM_ENET_CHANNEL_CONTROL, True,
      offset_of ShroomLobbyRosterPacket_layout 9),
     (SHROOM_PACKET_REMATCH_VOTE, SHROOM_ENET_CHANNEL_CONTROL, True,
      size_of ShroomRematchVotePacket_layout),
     (SHROOM_PACKET_INTERMISSION_STATUS, SHROOM_ENET_CHANNEL_CONTROL, True,
      size_of ShroomIntermissionStatusPacket_layout),
     (SHROOM_PACKET_DIRECTORY_HEARTBEAT, SHROOM_ENET_CHANNEL_CONTROL, True,
      size_of ShroomDirectoryHeartbeatPacket_layout),
     (SHROOM_PACKET_DIRECTORY_QUERY, SHROOM_ENET_CHANNEL_CONTROL, True,
      size_of ShroomDirectoryQueryPacket_layout),
     (SHROOM_PACKET_DIRECTORY_LIST, SHROOM_ENET_CHANNEL_CONTROL, True,
      SHROOM_DIRECTORY_LIST_HEADER_SIZE),
     (SHROOM_PACKET_WORLD_STATE, SHROOM_ENET_CHANNEL_SNAPSHOT, False,
      offset_of ShroomWorldStatePacket_layout 7)]"

definition ShroomPacketTypeToChannel :: "nat \<Rightarrow> u8" where
  "ShroomPacketTypeToChannel type =
     (case map_of SHROOM_PACKET_METADATA type of
        Some (channel, reliable, minimum_size) \<Rightarrow> channel
      | None \<Rightarrow> SHROOM_ENET_CHANNEL_CONTROL)"

definition ShroomPacketTypeUsesReliableDelivery :: "nat \<Rightarrow> bool" where
  "ShroomPacketTypeUsesReliableDelivery type =
     (case map_of SHROOM_PACKET_METADATA type of
        Some (channel, reliable, minimum_size) \<Rightarrow> reliable
      | None \<Rightarrow> False)"

definition ShroomPacketTypeUsesUnsequencedDelivery :: "nat \<Rightarrow> bool" where
  "ShroomPacketTypeUsesUnsequencedDelivery type \<longleftrightarrow> type = SHROOM_PACKET_SNAPSHOT"

definition ShroomPacketTypeMinimumSize :: "nat \<Rightarrow> u16" where
  "ShroomPacketTypeMinimumSize type =
     (case map_of SHROOM_PACKET_METADATA type of
        Some (channel, reliable, minimum_size) \<Rightarrow> word_of_nat minimum_size
      | None \<Rightarrow> word_of_nat (size_of ShroomPacketHeader_layout))"

section \<open>Headers\<close>

record ShroomPacketHeader =
  ph_type :: u8
  ph_reserved :: u8
  ph_size :: u16

definition ShroomPacketHeaderInit :: "ShroomPacketHeader option \<Rightarrow> nat \<Rightarrow> u16 \<Rightarrow> ShroomPacketHeader option" where
  "ShroomPacketHeaderInit header type size' =
     (case header of
        None \<Rightarrow> None
      | Some h \<Rightarrow> Some (h\<lparr>ph_type := word_of_nat type, ph_reserved := ShroomPacketTypeToChannel type,
                         ph_size := size'\<rparr>))"

definition ShroomPacketHeaderUsesExpectedChannel :: "ShroomPacketHeader option \<Rightarrow> u8 \<Rightarrow> bool" where
  "ShroomPacketHeaderUsesExpectedChannel header actual_channel =
     (case header of
        None \<Rightarrow> False
      | Some h \<Rightarrow> ph_reserved h = actual_channel \<and>
                  ph_reserved h = ShroomPacketTypeToChannel (unat (ph_type h)))"

definition ShroomSporeStatePacketMaxSpores :: u16 where
  "ShroomSporeStatePacketMaxSpores =
     (let header_size = offset_of ShroomSporeStatePacket_layout 4;
          available = (if header_size < SHROOM_MAX_UNRELIABLE_PACKET_SIZE
                       then SHROOM_MAX_UNRELIABLE_PACKET_SIZE - header_size else 0)
      in word_of_nat (available div size_of ShroomSnapshotSporeState_layout))"

definition ShroomWorldStatePacketMaxRecords :: u16 where
  "ShroomWorldStatePacketMaxRecords =
     (let header_size = offset_of ShroomWorldStatePacket_layout 7;
          available = (if header_size < SHROOM_MAX_UNRELIABLE_PACKET_SIZE
                       then SHROOM_MAX_UNRELIABLE_PACKET_SIZE - header_size else 0)
      in word_of_nat (available div size_of ShroomWorldStateRecord_layout))"

lemma max_records [size_simps]:
  "ShroomSporeStatePacketMaxSpores = 73" "ShroomWorldStatePacketMaxRecords = 58"
  by (simp_all add: ShroomSporeStatePacketMaxSpores_def ShroomWorldStatePacketMaxRecords_def
      size_simps SHROOM_MAX_UNRELIABLE_PACKET_SIZE_def)

section \<open>Voice frames\<close>

record ShroomVoiceFramePacket =
  vf_header :: ShroomPacketHeader
  vf_sender_id :: u32
  vf_stream_id :: u32
  vf_timestamp :: u32
  vf_sequence :: u16
  vf_payload_size :: u16
  vf_flags :: u8
  vf_reserved :: "u8 \<times> u8 \<times> u8"
  vf_payload :: "u8 list"

abbreviation (input) SHROOM_VOICE_FLAG_START :: u8 where "SHROOM_VOICE_FLAG_START \<equiv> 0x01"
abbreviation (input) SHROOM_VOICE_FLAG_END :: u8 where "SHROOM_VOICE_FLAG_END \<equiv> 0x02"
abbreviation (input) SHROOM_VOICE_FLAG_MASK :: u8 where
  "SHROOM_VOICE_FLAG_MASK \<equiv> SHROOM_VOICE_FLAG_START OR SHROOM_VOICE_FLAG_END"

definition ShroomVoiceFramePacketSize :: "u16 \<Rightarrow> nat" where
  "ShroomVoiceFramePacketSize payload_size = SHROOM_VOICE_FRAME_HEADER_SIZE + unat payload_size"

definition ShroomVoiceFramePacketIsValid :: "ShroomVoiceFramePacket option \<Rightarrow> nat \<Rightarrow> bool" where
  "ShroomVoiceFramePacketIsValid packet wire_size =
     (case packet of
        None \<Rightarrow> False
      | Some p \<Rightarrow>
          if wire_size < SHROOM_VOICE_FRAME_HEADER_SIZE \<or> SHROOM_VOICE_FRAME_MAX_SIZE < wire_size \<or>
             65535 < wire_size
          then False
          else if unat (ph_type (vf_header p)) \<noteq> SHROOM_PACKET_VOICE_FRAME \<or>
                  ph_reserved (vf_header p) \<noteq> SHROOM_ENET_CHANNEL_VOICE \<or>
                  unat (ph_size (vf_header p)) \<noteq> wire_size \<or> vf_stream_id p = 0 \<or>
                  vf_payload_size p = 0 \<or>
                  SHROOM_VOICE_MAX_PAYLOAD_SIZE < unat (vf_payload_size p) \<or>
                  ShroomVoiceFramePacketSize (vf_payload_size p) \<noteq> wire_size \<or>
                  vf_flags p AND NOT SHROOM_VOICE_FLAG_MASK \<noteq> 0 \<or> vf_reserved p \<noteq> (0, 0, 0)
          then False
          else True)"

section \<open>Properties\<close>

text \<open>The largest packet of every unreliable kind fits the 1200-byte packet budget: a full
  snapshot chunk, the spore and world-state packets filled to their computed maxima, the
  largest voice frame, directory lists and roster chunks, and all fixed-size unreliable packets.\<close>

theorem unreliable_packets_fit_mtu:
  "size_of ShroomSnapshotPacket_layout \<le> SHROOM_MAX_UNRELIABLE_PACKET_SIZE \<and>
   offset_of ShroomSporeStatePacket_layout 4 +
     unat ShroomSporeStatePacketMaxSpores * size_of ShroomSnapshotSporeState_layout
     \<le> SHROOM_MAX_UNRELIABLE_PACKET_SIZE \<and>
   SHROOM_MAX_UNRELIABLE_PACKET_SIZE < offset_of ShroomWorldStatePacket_layout 7 +
     (unat ShroomWorldStatePacketMaxRecords + 1) * size_of ShroomWorldStateRecord_layout \<and>
   offset_of ShroomWorldStatePacket_layout 7 +
     unat ShroomWorldStatePacketMaxRecords * size_of ShroomWorldStateRecord_layout
     \<le> SHROOM_MAX_UNRELIABLE_PACKET_SIZE \<and>
   SHROOM_VOICE_FRAME_MAX_SIZE \<le> SHROOM_MAX_UNRELIABLE_PACKET_SIZE \<and>
   size_of ShroomDirectoryListPacket_layout \<le> SHROOM_MAX_UNRELIABLE_PACKET_SIZE \<and>
   size_of ShroomLobbyRosterPacket_layout \<le> SHROOM_MAX_UNRELIABLE_PACKET_SIZE \<and>
   list_all (\<lambda>(type, channel, reliable, size). reliable \<or> size \<le> SHROOM_MAX_UNRELIABLE_PACKET_SIZE)
     SHROOM_PACKET_METADATA"
proof -
  have "size_of ShroomInputPacket_layout = 32" "size_of ShroomSnapshotAckPacket_layout = 16"
    "offset_of ShroomPowerupStatePacket_layout 4 = 20"
    by (simp_all add: packet_layouts c_header_eval c_entries_eval basic_layout)
  then show ?thesis
    by (simp add: size_simps SHROOM_PACKET_METADATA_def SHROOM_MAX_UNRELIABLE_PACKET_SIZE_def
        SHROOM_VOICE_FRAME_MAX_SIZE_def SHROOM_VOICE_FRAME_HEADER_SIZE_def
        SHROOM_VOICE_MAX_PAYLOAD_SIZE_def)
qed

end
