(* ===== verification/Snapshot_Codec.thy ===== *)
theory Snapshot_Codec
  imports Byte_Codec Protocol "HOL-Library.Monad_Syntax"
begin

text \<open>
  Snapshot records: the player state replicated to clients, the component mask of a change,
  and the encoder and decoder of one record (\<open>ComponentMask\<close>, \<open>EncodeRecord\<close>,
  \<open>DecodeRecord\<close> of \<open>src/shared/snapshot_replication.c\<close>).  Float fields hold the
  32-bit images.  A players array with its count is the list of its live entries.
\<close>

record ShroomSnapshotPlayerState =
  sp_player_id :: u32
  sp_entity_id :: u32
  sp_position_x :: f32
  sp_position_y :: f32
  sp_mass :: f32
  sp_radius :: f32
  sp_name :: "u8 list"
  sp_alive :: u8
  sp_is_bot :: u8
  sp_effect_flags :: u16
  sp_team_id :: u8
  sp_piece_index :: u8
  sp_round_spores :: u16
  sp_round_kills :: u8
  sp_life_generation :: u8
  sp_objective_score :: f32

text \<open>\<open>(ShroomSnapshotPlayerState){.entity_id = e}\<close>\<close>

definition zero_player :: "u32 \<Rightarrow> ShroomSnapshotPlayerState" where
  "zero_player e = \<lparr>sp_player_id = 0, sp_entity_id = e, sp_position_x = 0, sp_position_y = 0,
     sp_mass = 0, sp_radius = 0, sp_name = replicate SHROOM_MAX_NAME_LENGTH 0, sp_alive = 0,
     sp_is_bot = 0, sp_effect_flags = 0, sp_team_id = 0, sp_piece_index = 0, sp_round_spores = 0,
     sp_round_kills = 0, sp_life_generation = 0, sp_objective_score = 0\<rparr>"

abbreviation (input) SHROOM_SNAPSHOT_RECORD_SPAWN :: u8 where "SHROOM_SNAPSHOT_RECORD_SPAWN \<equiv> 1"
abbreviation (input) SHROOM_SNAPSHOT_RECORD_UPDATE :: u8 where "SHROOM_SNAPSHOT_RECORD_UPDATE \<equiv> 2"
abbreviation (input) SHROOM_SNAPSHOT_RECORD_DESPAWN :: u8 where "SHROOM_SNAPSHOT_RECORD_DESPAWN \<equiv> 3"

abbreviation (input) SHROOM_SNAPSHOT_COMPONENT_IDENTITY :: u16 where
  "SHROOM_SNAPSHOT_COMPONENT_IDENTITY \<equiv> 0x0001"
abbreviation (input) SHROOM_SNAPSHOT_COMPONENT_TRANSFORM :: u16 where
  "SHROOM_SNAPSHOT_COMPONENT_TRANSFORM \<equiv> 0x0002"
abbreviation (input) SHROOM_SNAPSHOT_COMPONENT_MASS :: u16 where "SHROOM_SNAPSHOT_COMPONENT_MASS \<equiv> 0x0004"
abbreviation (input) SHROOM_SNAPSHOT_COMPONENT_EFFECTS :: u16 where
  "SHROOM_SNAPSHOT_COMPONENT_EFFECTS \<equiv> 0x0008"
abbreviation (input) SHROOM_SNAPSHOT_COMPONENT_STATS :: u16 where "SHROOM_SNAPSHOT_COMPONENT_STATS \<equiv> 0x0010"
abbreviation (input) SHROOM_SNAPSHOT_COMPONENT_ALL :: u16 where "SHROOM_SNAPSHOT_COMPONENT_ALL \<equiv> 0x001f"

record ShroomSnapshotRecordHeader =
  rh_entity_id :: u32
  rh_component_mask :: u16
  rh_operation :: u8
  rh_size :: u8

definition ShroomSnapshotRecordHeader_layout :: "ctype list" where
  "ShroomSnapshotRecordHeader_layout = [c_u32, c_u16, c_u8, c_u8]"

text \<open>The memory image of a record header (its layout has no padding), and the header read back.\<close>

definition header_image :: "ShroomSnapshotRecordHeader \<Rightarrow> u8 list" where
  "header_image h = le_bytes 4 (rh_entity_id h) @ le_bytes 2 (rh_component_mask h) @
     le_bytes 1 (rh_operation h) @ le_bytes 1 (rh_size h)"

definition header_of_image :: "u8 list \<Rightarrow> ShroomSnapshotRecordHeader" where
  "header_of_image b = \<lparr>rh_entity_id = le_value (take 4 b), rh_component_mask = le_value (take 2 (drop 4 b)),
     rh_operation = le_value (take 1 (drop 6 b)), rh_size = le_value (take 1 (drop 7 b))\<rparr>"

definition record_header_size :: nat where
  "record_header_size = size_of ShroomSnapshotRecordHeader_layout"

lemma record_header_size_eq [simp]: "record_header_size = 8"
  by (simp add: record_header_size_def ShroomSnapshotRecordHeader_layout_def basic_layout)

lemma record_round_trips:
  "le_value (le_bytes 4 (w :: u32)) = w" "le_value (le_bytes 2 (v :: u16)) = v"
  "le_value (le_bytes 1 (u :: u8)) = u" "le_value (le_bytes (Suc 0) (u :: u8)) = u"
  using le_round_trip [of 1 u] by (simp_all add: le_round_trip)

interpretation header_field: field_codec "\<lambda>_. True" header_image header_of_image 8
proof
  fix h :: ShroomSnapshotRecordHeader
  show "length (header_image h) = 8" by (simp add: header_image_def)
  show "header_of_image (header_image h) = h"
    by (simp add: header_image_def header_of_image_def record_round_trips)
qed

section \<open>Lookup and change masks\<close>

definition find_entity :: "ShroomSnapshotPlayerState list \<Rightarrow> u32 \<Rightarrow> nat option" where
  "find_entity players entity_id = find_index (\<lambda>p. sp_entity_id p = entity_id) players"

definition FindPlayer :: "ShroomSnapshotPlayerState list \<Rightarrow> u32 \<Rightarrow> ShroomSnapshotPlayerState option" where
  "FindPlayer players entity_id =
     (case find_entity players entity_id of None \<Rightarrow> None | Some i \<Rightarrow> Some (players ! i))"

definition ComponentMask :: "ShroomSnapshotPlayerState \<Rightarrow> ShroomSnapshotPlayerState \<Rightarrow> u16" where
  "ComponentMask current baseline =
     (if sp_player_id current \<noteq> sp_player_id baseline \<or> sp_name current \<noteq> sp_name baseline \<or>
         sp_alive current \<noteq> sp_alive baseline \<or> sp_is_bot current \<noteq> sp_is_bot baseline \<or>
         sp_team_id current \<noteq> sp_team_id baseline \<or>
         sp_piece_index current \<noteq> sp_piece_index baseline \<or>
         sp_life_generation current \<noteq> sp_life_generation baseline
      then SHROOM_SNAPSHOT_COMPONENT_IDENTITY else 0)
     OR (if \<not> f32_eq (sp_position_x current) (sp_position_x baseline) \<or>
            \<not> f32_eq (sp_position_y current) (sp_position_y baseline)
         then SHROOM_SNAPSHOT_COMPONENT_TRANSFORM else 0)
     OR (if \<not> f32_eq (sp_mass current) (sp_mass baseline) \<or>
            \<not> f32_eq (sp_radius current) (sp_radius baseline)
         then SHROOM_SNAPSHOT_COMPONENT_MASS else 0)
     OR (if sp_effect_flags current \<noteq> sp_effect_flags baseline
         then SHROOM_SNAPSHOT_COMPONENT_EFFECTS else 0)
     OR (if sp_round_spores current \<noteq> sp_round_spores baseline \<or>
            sp_round_kills current \<noteq> sp_round_kills baseline \<or>
            \<not> f32_eq (sp_objective_score current) (sp_objective_score baseline)
         then SHROOM_SNAPSHOT_COMPONENT_STATS else 0)"

section \<open>Encoding a record\<close>

definition has_component :: "u16 \<Rightarrow> u16 \<Rightarrow> bool" where
  "has_component cmask c \<longleftrightarrow> cmask AND c \<noteq> 0"

text \<open>The blocks of field writes, one per component of the mask.\<close>

definition write_identity :: "nat \<Rightarrow> u8 list \<Rightarrow> ShroomSnapshotPlayerState \<Rightarrow> u8 list option" where
  "write_identity capacity d player =
     do {
       d \<leftarrow> WriteBytes capacity d (le_bytes 4 (sp_player_id player));
       d \<leftarrow> WriteBytes capacity d (sp_name player);
       d \<leftarrow> WriteBytes capacity d (le_bytes 1 (sp_alive player));
       d \<leftarrow> WriteBytes capacity d (le_bytes 1 (sp_is_bot player));
       d \<leftarrow> WriteBytes capacity d (le_bytes 1 (sp_team_id player));
       d \<leftarrow> WriteBytes capacity d (le_bytes 1 (sp_piece_index player));
       WriteBytes capacity d (le_bytes 1 (sp_life_generation player))
     }"

definition write_transform :: "nat \<Rightarrow> u8 list \<Rightarrow> ShroomSnapshotPlayerState \<Rightarrow> u8 list option" where
  "write_transform capacity d player =
     do {
       d \<leftarrow> WriteBytes capacity d (le_bytes 4 (sp_position_x player));
       WriteBytes capacity d (le_bytes 4 (sp_position_y player))
     }"

definition write_mass :: "nat \<Rightarrow> u8 list \<Rightarrow> ShroomSnapshotPlayerState \<Rightarrow> u8 list option" where
  "write_mass capacity d player =
     do {
       d \<leftarrow> WriteBytes capacity d (le_bytes 4 (sp_mass player));
       WriteBytes capacity d (le_bytes 4 (sp_radius player))
     }"

definition write_effects :: "nat \<Rightarrow> u8 list \<Rightarrow> ShroomSnapshotPlayerState \<Rightarrow> u8 list option" where
  "write_effects capacity d player = WriteBytes capacity d (le_bytes 2 (sp_effect_flags player))"

definition write_stats :: "nat \<Rightarrow> u8 list \<Rightarrow> ShroomSnapshotPlayerState \<Rightarrow> u8 list option" where
  "write_stats capacity d player =
     do {
       d \<leftarrow> WriteBytes capacity d (le_bytes 2 (sp_round_spores player));
       d \<leftarrow> WriteBytes capacity d (le_bytes 1 (sp_round_kills player));
       WriteBytes capacity d (le_bytes 4 (sp_objective_score player))
     }"

definition write_components ::
  "nat \<Rightarrow> u16 \<Rightarrow> ShroomSnapshotPlayerState \<Rightarrow> u8 list \<Rightarrow> u8 list option" where
  "write_components capacity cmask player d =
     do {
       d \<leftarrow> (if has_component cmask SHROOM_SNAPSHOT_COMPONENT_IDENTITY
             then write_identity capacity d player else Some d);
       d \<leftarrow> (if has_component cmask SHROOM_SNAPSHOT_COMPONENT_TRANSFORM
             then write_transform capacity d player else Some d);
       d \<leftarrow> (if has_component cmask SHROOM_SNAPSHOT_COMPONENT_MASS
             then write_mass capacity d player else Some d);
       d \<leftarrow> (if has_component cmask SHROOM_SNAPSHOT_COMPONENT_EFFECTS
             then write_effects capacity d player else Some d);
       (if has_component cmask SHROOM_SNAPSHOT_COMPONENT_STATS
        then write_stats capacity d player else Some d)
     }"

text \<open>
  The result is the record written at the destination, whose length is the returned size; the
  empty list is the failure result 0.  A NULL player is only passed with a despawn, which does
  not read it.
\<close>

definition EncodeRecord ::
  "nat \<Rightarrow> u8 \<Rightarrow> u16 \<Rightarrow> u32 \<Rightarrow> ShroomSnapshotPlayerState option \<Rightarrow> u8 list" where
  "EncodeRecord capacity operation cmask entity_id player =
     (if capacity < record_header_size then []
      else
        let d0 = replicate record_header_size 0;
            body = (if operation = SHROOM_SNAPSHOT_RECORD_DESPAWN then Some d0
                    else case player of None \<Rightarrow> None
                         | Some p \<Rightarrow> write_components capacity cmask p d0)
        in case body of
             None \<Rightarrow> []
           | Some d \<Rightarrow>
               if 255 < length d then []
               else header_image \<lparr>rh_entity_id = entity_id, rh_component_mask = cmask,
                      rh_operation = operation, rh_size = word_of_nat (length d)\<rparr>
                    @ drop record_header_size d)"

section \<open>Decoding a record\<close>

text \<open>The blocks of field reads; each field is stored in the player as soon as it is read.\<close>

definition read_identity ::
  "u8 list \<Rightarrow> nat \<Rightarrow> ShroomSnapshotPlayerState \<Rightarrow> nat \<Rightarrow>
     (ShroomSnapshotPlayerState \<times> nat) option" where
  "read_identity record sz p off =
     do {
       (b, off) \<leftarrow> ReadBytes record sz off 4;
       let p = p\<lparr>sp_player_id := le_value b\<rparr>;
       (b, off) \<leftarrow> ReadBytes record sz off SHROOM_MAX_NAME_LENGTH;
       let p = p\<lparr>sp_name := b[SHROOM_MAX_NAME_LENGTH - 1 := 0]\<rparr>;
       (b, off) \<leftarrow> ReadBytes record sz off 1;
       let p = p\<lparr>sp_alive := le_value b\<rparr>;
       (b, off) \<leftarrow> ReadBytes record sz off 1;
       let p = p\<lparr>sp_is_bot := le_value b\<rparr>;
       (b, off) \<leftarrow> ReadBytes record sz off 1;
       let p = p\<lparr>sp_team_id := le_value b\<rparr>;
       (b, off) \<leftarrow> ReadBytes record sz off 1;
       let p = p\<lparr>sp_piece_index := le_value b\<rparr>;
       (b, off) \<leftarrow> ReadBytes record sz off 1;
       Some (p\<lparr>sp_life_generation := le_value b\<rparr>, off)
     }"

definition read_transform ::
  "u8 list \<Rightarrow> nat \<Rightarrow> ShroomSnapshotPlayerState \<Rightarrow> nat \<Rightarrow>
     (ShroomSnapshotPlayerState \<times> nat) option" where
  "read_transform record sz p off =
     do {
       (b, off) \<leftarrow> ReadBytes record sz off 4;
       let p = p\<lparr>sp_position_x := le_value b\<rparr>;
       (b, off) \<leftarrow> ReadBytes record sz off 4;
       Some (p\<lparr>sp_position_y := le_value b\<rparr>, off)
     }"

definition read_mass ::
  "u8 list \<Rightarrow> nat \<Rightarrow> ShroomSnapshotPlayerState \<Rightarrow> nat \<Rightarrow>
     (ShroomSnapshotPlayerState \<times> nat) option" where
  "read_mass record sz p off =
     do {
       (b, off) \<leftarrow> ReadBytes record sz off 4;
       let p = p\<lparr>sp_mass := le_value b\<rparr>;
       (b, off) \<leftarrow> ReadBytes record sz off 4;
       Some (p\<lparr>sp_radius := le_value b\<rparr>, off)
     }"

definition read_effects ::
  "u8 list \<Rightarrow> nat \<Rightarrow> ShroomSnapshotPlayerState \<Rightarrow> nat \<Rightarrow>
     (ShroomSnapshotPlayerState \<times> nat) option" where
  "read_effects record sz p off =
     do {
       (b, off) \<leftarrow> ReadBytes record sz off 2;
       Some (p\<lparr>sp_effect_flags := le_value b\<rparr>, off)
     }"

definition read_stats ::
  "u8 list \<Rightarrow> nat \<Rightarrow> ShroomSnapshotPlayerState \<Rightarrow> nat \<Rightarrow>
     (ShroomSnapshotPlayerState \<times> nat) option" where
  "read_stats record sz p off =
     do {
       (b, off) \<leftarrow> ReadBytes record sz off 2;
       let p = p\<lparr>sp_round_spores := le_value b\<rparr>;
       (b, off) \<leftarrow> ReadBytes record sz off 1;
       let p = p\<lparr>sp_round_kills := le_value b\<rparr>;
       (b, off) \<leftarrow> ReadBytes record sz off 4;
       Some (p\<lparr>sp_objective_score := le_value b\<rparr>, off)
     }"

definition read_components ::
  "u8 list \<Rightarrow> nat \<Rightarrow> u16 \<Rightarrow> ShroomSnapshotPlayerState \<Rightarrow> nat \<Rightarrow>
     (ShroomSnapshotPlayerState \<times> nat) option" where
  "read_components record sz cmask p off =
     do {
       (p, off) \<leftarrow> (if has_component cmask SHROOM_SNAPSHOT_COMPONENT_IDENTITY
                   then read_identity record sz p off else Some (p, off));
       (p, off) \<leftarrow> (if has_component cmask SHROOM_SNAPSHOT_COMPONENT_TRANSFORM
                   then read_transform record sz p off else Some (p, off));
       (p, off) \<leftarrow> (if has_component cmask SHROOM_SNAPSHOT_COMPONENT_MASS
                   then read_mass record sz p off else Some (p, off));
       (p, off) \<leftarrow> (if has_component cmask SHROOM_SNAPSHOT_COMPONENT_EFFECTS
                   then read_effects record sz p off else Some (p, off));
       (if has_component cmask SHROOM_SNAPSHOT_COMPONENT_STATS
        then read_stats record sz p off else Some (p, off))
     }"

text \<open>
  \<open>None\<close> is \<open>false\<close>; the caller then drops the partly rebuilt array.  A spawn writes
  a fresh entry behind the live ones, an update the entry found.
\<close>

definition DecodeRecord ::
  "u8 list \<Rightarrow> nat \<Rightarrow> ShroomSnapshotPlayerState list \<Rightarrow> ShroomSnapshotPlayerState list option" where
  "DecodeRecord record available players =
     (if available < record_header_size then None
      else
        let header = header_of_image (take record_header_size record)
        in if unat (rh_size header) < record_header_size \<or> available < unat (rh_size header) \<or>
              rh_component_mask header AND NOT SHROOM_SNAPSHOT_COMPONENT_ALL \<noteq> 0
           then None
           else
             let found = find_entity players (rh_entity_id header)
             in if rh_operation header = SHROOM_SNAPSHOT_RECORD_DESPAWN then
                  (if rh_component_mask header \<noteq> 0 \<or> unat (rh_size header) \<noteq> record_header_size
                   then None
                   else case found of None \<Rightarrow> None | Some index \<Rightarrow> Some (remove_at index players))
                else if rh_operation header \<noteq> SHROOM_SNAPSHOT_RECORD_SPAWN \<and>
                        rh_operation header \<noteq> SHROOM_SNAPSHOT_RECORD_UPDATE
                then None
                else if rh_operation header = SHROOM_SNAPSHOT_RECORD_SPAWN then
                  (if found \<noteq> None \<or> SHROOM_MAX_SNAPSHOT_PLAYERS \<le> length players \<or>
                      rh_component_mask header \<noteq> SHROOM_SNAPSHOT_COMPONENT_ALL
                   then None
                   else
                     case read_components record (unat (rh_size header)) (rh_component_mask header)
                            (zero_player (rh_entity_id header)) record_header_size of
                       None \<Rightarrow> None
                     | Some (player, offset) \<Rightarrow>
                         if offset = unat (rh_size header) then Some (players @ [player]) else None)
                else
                  case found of
                    None \<Rightarrow> None
                  | Some index \<Rightarrow>
                      case read_components record (unat (rh_size header)) (rh_component_mask header)
                             (players ! index) record_header_size of
                        None \<Rightarrow> None
                      | Some (player, offset) \<Rightarrow>
                          if offset = unat (rh_size header) then Some (players[index := player])
                          else None)"

section \<open>Round trip of one record\<close>

text \<open>
  Each component is written and read by its own block of code; the locale is what a record
  needs of a component: writing appends its image, and reading at a place where the image of
  \<open>q\<close> lies copies exactly the component's fields of \<open>q\<close>.
\<close>

definition wf_player :: "ShroomSnapshotPlayerState \<Rightarrow> bool" where
  "wf_player p \<longleftrightarrow> length (sp_name p) = 32 \<and> sp_name p ! 31 = 0"

locale record_component =
  fixes img :: "ShroomSnapshotPlayerState \<Rightarrow> u8 list"
    and store :: "nat \<Rightarrow> u8 list \<Rightarrow> ShroomSnapshotPlayerState \<Rightarrow> u8 list option"
    and load :: "u8 list \<Rightarrow> nat \<Rightarrow> ShroomSnapshotPlayerState \<Rightarrow> nat \<Rightarrow>
      (ShroomSnapshotPlayerState \<times> nat) option"
    and copy :: "ShroomSnapshotPlayerState \<Rightarrow> ShroomSnapshotPlayerState \<Rightarrow> ShroomSnapshotPlayerState"
    and width :: nat
  assumes image_width: "wf_player q \<Longrightarrow> length (img q) = width"
    and write_image: "wf_player q \<Longrightarrow> length d + width \<le> capacity \<Longrightarrow>
      store capacity d q = Some (d @ img q)"
    and read_image: "wf_player q \<Longrightarrow> drop off record = img q @ rest \<Longrightarrow> off + width \<le> sz \<Longrightarrow>
      load record sz p off = Some (copy q p, off + width)"
begin

lemma optional_write:
  "wf_player q \<Longrightarrow> length d + width \<le> capacity \<Longrightarrow>
   (if on then store capacity d q else Some d) = Some (d @ (if on then img q else []))"
  by (simp add: write_image)

lemma optional_read:
  assumes "wf_player q" and "drop off record = (if on then img q else []) @ rest"
    and "off + (if on then width else 0) \<le> sz"
  shows "(if on then load record sz p off else Some (p, off)) =
           Some (if on then copy q p else p, off + (if on then width else 0))"
    and "drop (off + (if on then width else 0)) record = rest"
proof -
  show "(if on then load record sz p off else Some (p, off)) =
      Some (if on then copy q p else p, off + (if on then width else 0))"
    using assms by (auto intro: read_image)
  have "drop (off + width) record = drop width (drop off record)" by (simp add: add.commute)
  then show "drop (off + (if on then width else 0)) record = rest"
    using assms(1,2) by (auto simp: image_width)
qed

end

definition identity_image :: "ShroomSnapshotPlayerState \<Rightarrow> u8 list" where
  "identity_image q = le_bytes 4 (sp_player_id q) @ sp_name q @ le_bytes 1 (sp_alive q) @
     le_bytes 1 (sp_is_bot q) @ le_bytes 1 (sp_team_id q) @ le_bytes 1 (sp_piece_index q) @
     le_bytes 1 (sp_life_generation q)"

definition copy_identity ::
  "ShroomSnapshotPlayerState \<Rightarrow> ShroomSnapshotPlayerState \<Rightarrow> ShroomSnapshotPlayerState" where
  "copy_identity q p = p\<lparr>sp_player_id := sp_player_id q, sp_name := sp_name q, sp_alive := sp_alive q,
     sp_is_bot := sp_is_bot q, sp_team_id := sp_team_id q, sp_piece_index := sp_piece_index q,
     sp_life_generation := sp_life_generation q\<rparr>"

lemma drop_split:
  "drop off xs = a @ b \<Longrightarrow> length a = n \<Longrightarrow> drop (off + n) xs = b"
  by (metis add.commute append_eq_conv_conj drop_drop)

lemma ReadBytes_at:
  "drop off bs = a @ rest \<Longrightarrow> length a = n \<Longrightarrow> off + n \<le> sz \<Longrightarrow>
   ReadBytes bs sz off n = Some (a, off + n)"
  by (simp add: ReadBytes_def)

interpretation identity: record_component identity_image write_identity read_identity copy_identity 41
proof
  fix q p :: ShroomSnapshotPlayerState and d bs rest :: "u8 list" and capacity off sz :: nat
  assume wf: "wf_player q"
  show "length (identity_image q) = 41" using wf by (simp add: identity_image_def wf_player_def)
  show "write_identity capacity d q = Some (d @ identity_image q)" if "length d + 41 \<le> capacity"
    using wf that by (simp add: write_identity_def WriteBytes_def identity_image_def wf_player_def)
  assume at: "drop off bs = identity_image q @ rest" and sz: "off + 41 \<le> sz"
  from wf have nm: "length (sp_name q) = 32" "(sp_name q)[31 := 0] = sp_name q"
    by (simp add: wf_player_def) (metis list_update_id wf wf_player_def)
  note at0 = at [unfolded identity_image_def append_assoc]
  note at1 = drop_split [OF at0 length_le_bytes]
  note at2 = drop_split [OF at1 nm(1)]
  note at3 = drop_split [OF at2 length_le_bytes]
  note at4 = drop_split [OF at3 length_le_bytes]
  note at5 = drop_split [OF at4 length_le_bytes]
  note at6 = drop_split [OF at5 length_le_bytes]
  show "read_identity bs sz p off = Some (copy_identity q p, off + 41)"
    using sz nm ReadBytes_at [OF at0 length_le_bytes] ReadBytes_at [OF at1 nm(1)]
      ReadBytes_at [OF at2 length_le_bytes] ReadBytes_at [OF at3 length_le_bytes]
      ReadBytes_at [OF at4 length_le_bytes] ReadBytes_at [OF at5 length_le_bytes]
      ReadBytes_at [OF at6 length_le_bytes]
    by (simp add: read_identity_def copy_identity_def SHROOM_MAX_NAME_LENGTH_def record_round_trips)
qed

definition transform_image :: "ShroomSnapshotPlayerState \<Rightarrow> u8 list" where
  "transform_image q = le_bytes 4 (sp_position_x q) @ le_bytes 4 (sp_position_y q)"

definition copy_transform ::
  "ShroomSnapshotPlayerState \<Rightarrow> ShroomSnapshotPlayerState \<Rightarrow> ShroomSnapshotPlayerState" where
  "copy_transform q p = p\<lparr>sp_position_x := sp_position_x q, sp_position_y := sp_position_y q\<rparr>"

definition mass_image :: "ShroomSnapshotPlayerState \<Rightarrow> u8 list" where
  "mass_image q = le_bytes 4 (sp_mass q) @ le_bytes 4 (sp_radius q)"

definition copy_mass ::
  "ShroomSnapshotPlayerState \<Rightarrow> ShroomSnapshotPlayerState \<Rightarrow> ShroomSnapshotPlayerState" where
  "copy_mass q p = p\<lparr>sp_mass := sp_mass q, sp_radius := sp_radius q\<rparr>"

definition effects_image :: "ShroomSnapshotPlayerState \<Rightarrow> u8 list" where
  "effects_image q = le_bytes 2 (sp_effect_flags q)"

definition copy_effects ::
  "ShroomSnapshotPlayerState \<Rightarrow> ShroomSnapshotPlayerState \<Rightarrow> ShroomSnapshotPlayerState" where
  "copy_effects q p = p\<lparr>sp_effect_flags := sp_effect_flags q\<rparr>"

definition stats_image :: "ShroomSnapshotPlayerState \<Rightarrow> u8 list" where
  "stats_image q = le_bytes 2 (sp_round_spores q) @ le_bytes 1 (sp_round_kills q) @
     le_bytes 4 (sp_objective_score q)"

definition copy_stats ::
  "ShroomSnapshotPlayerState \<Rightarrow> ShroomSnapshotPlayerState \<Rightarrow> ShroomSnapshotPlayerState" where
  "copy_stats q p = p\<lparr>sp_round_spores := sp_round_spores q, sp_round_kills := sp_round_kills q,
     sp_objective_score := sp_objective_score q\<rparr>"

interpretation transform: record_component transform_image write_transform read_transform copy_transform 8
proof
  fix q p :: ShroomSnapshotPlayerState and d bs rest :: "u8 list" and capacity off sz :: nat
  show "length (transform_image q) = 8" by (simp add: transform_image_def)
  show "write_transform capacity d q = Some (d @ transform_image q)" if "length d + 8 \<le> capacity"
    using that by (simp add: write_transform_def WriteBytes_def transform_image_def)
  assume at: "drop off bs = transform_image q @ rest" and sz: "off + 8 \<le> sz"
  note at0 = at [unfolded transform_image_def append_assoc]
  note at1 = drop_split [OF at0 length_le_bytes]
  show "read_transform bs sz p off = Some (copy_transform q p, off + 8)"
    using sz ReadBytes_at [OF at0 length_le_bytes] ReadBytes_at [OF at1 length_le_bytes]
    by (simp add: read_transform_def copy_transform_def record_round_trips)
qed

interpretation mass: record_component mass_image write_mass read_mass copy_mass 8
proof
  fix q p :: ShroomSnapshotPlayerState and d bs rest :: "u8 list" and capacity off sz :: nat
  show "length (mass_image q) = 8" by (simp add: mass_image_def)
  show "write_mass capacity d q = Some (d @ mass_image q)" if "length d + 8 \<le> capacity"
    using that by (simp add: write_mass_def WriteBytes_def mass_image_def)
  assume at: "drop off bs = mass_image q @ rest" and sz: "off + 8 \<le> sz"
  note at0 = at [unfolded mass_image_def append_assoc]
  note at1 = drop_split [OF at0 length_le_bytes]
  show "read_mass bs sz p off = Some (copy_mass q p, off + 8)"
    using sz ReadBytes_at [OF at0 length_le_bytes] ReadBytes_at [OF at1 length_le_bytes]
    by (simp add: read_mass_def copy_mass_def record_round_trips)
qed

interpretation effects: record_component effects_image write_effects read_effects copy_effects 2
proof
  fix q p :: ShroomSnapshotPlayerState and d bs rest :: "u8 list" and capacity off sz :: nat
  show "length (effects_image q) = 2" by (simp add: effects_image_def)
  show "write_effects capacity d q = Some (d @ effects_image q)" if "length d + 2 \<le> capacity"
    using that by (simp add: write_effects_def WriteBytes_def effects_image_def)
  assume at: "drop off bs = effects_image q @ rest" and sz: "off + 2 \<le> sz"
  note at0 = at [unfolded effects_image_def]
  show "read_effects bs sz p off = Some (copy_effects q p, off + 2)"
    using sz ReadBytes_at [OF at0 length_le_bytes]
    by (simp add: read_effects_def copy_effects_def record_round_trips)
qed

interpretation stats: record_component stats_image write_stats read_stats copy_stats 7
proof
  fix q p :: ShroomSnapshotPlayerState and d bs rest :: "u8 list" and capacity off sz :: nat
  show "length (stats_image q) = 7" by (simp add: stats_image_def)
  show "write_stats capacity d q = Some (d @ stats_image q)" if "length d + 7 \<le> capacity"
    using that by (simp add: write_stats_def WriteBytes_def stats_image_def)
  assume at: "drop off bs = stats_image q @ rest" and sz: "off + 7 \<le> sz"
  note at0 = at [unfolded stats_image_def append_assoc]
  note at1 = drop_split [OF at0 length_le_bytes]
  note at2 = drop_split [OF at1 length_le_bytes]
  show "read_stats bs sz p off = Some (copy_stats q p, off + 7)"
    using sz ReadBytes_at [OF at0 length_le_bytes] ReadBytes_at [OF at1 length_le_bytes]
      ReadBytes_at [OF at2 length_le_bytes]
    by (simp add: read_stats_def copy_stats_def record_round_trips)
qed

text \<open>All components of a mask: the image, its width, and the merge of the fields.\<close>

abbreviation "has_id m \<equiv> has_component m SHROOM_SNAPSHOT_COMPONENT_IDENTITY"
abbreviation "has_tr m \<equiv> has_component m SHROOM_SNAPSHOT_COMPONENT_TRANSFORM"
abbreviation "has_ma m \<equiv> has_component m SHROOM_SNAPSHOT_COMPONENT_MASS"
abbreviation "has_ef m \<equiv> has_component m SHROOM_SNAPSHOT_COMPONENT_EFFECTS"
abbreviation "has_st m \<equiv> has_component m SHROOM_SNAPSHOT_COMPONENT_STATS"

definition components_image :: "u16 \<Rightarrow> ShroomSnapshotPlayerState \<Rightarrow> u8 list" where
  "components_image m q = (if has_id m then identity_image q else []) @
     (if has_tr m then transform_image q else []) @ (if has_ma m then mass_image q else []) @
     (if has_ef m then effects_image q else []) @ (if has_st m then stats_image q else [])"

definition components_width :: "u16 \<Rightarrow> nat" where
  "components_width m = (if has_id m then 41 else 0) + (if has_tr m then 8 else 0) +
     (if has_ma m then 8 else 0) + (if has_ef m then 2 else 0) + (if has_st m then 7 else 0)"

definition merge_player ::
  "u16 \<Rightarrow> ShroomSnapshotPlayerState \<Rightarrow> ShroomSnapshotPlayerState \<Rightarrow> ShroomSnapshotPlayerState" where
  "merge_player m q p =
     (let p = (if has_id m then copy_identity q p else p);
          p = (if has_tr m then copy_transform q p else p);
          p = (if has_ma m then copy_mass q p else p);
          p = (if has_ef m then copy_effects q p else p)
      in if has_st m then copy_stats q p else p)"

lemma components_width_le: "components_width m \<le> 66"
  by (simp add: components_width_def)

lemma components_image_length: "wf_player q \<Longrightarrow> length (components_image m q) = components_width m"
  by (simp add: components_image_def components_width_def identity.image_width transform.image_width
      mass.image_width effects.image_width stats.image_width)

lemma write_components_image:
  assumes wf: "wf_player q" and room: "length d + 66 \<le> capacity"
  shows "write_components capacity m q d = Some (d @ components_image m q)"
proof -
  note widths = identity.image_width [OF wf] transform.image_width [OF wf] mass.image_width [OF wf]
    effects.image_width [OF wf] stats.image_width [OF wf]
  note writes = identity.optional_write [OF wf] transform.optional_write [OF wf]
    mass.optional_write [OF wf] effects.optional_write [OF wf] stats.optional_write [OF wf]
  show ?thesis
    using room by (simp add: write_components_def components_image_def writes widths)
qed

lemma read_components_image:
  assumes wf: "wf_player q" and at: "drop off bs = components_image m q @ rest"
    and sz: "off + components_width m \<le> sz"
  shows "read_components bs sz m p off = Some (merge_player m q p, off + components_width m)"
proof -
  note at0 = at [unfolded components_image_def append_assoc]
  have w: "off + (if has_id m then 41 else 0) \<le> sz"
    "off + (if has_id m then 41 else 0) + (if has_tr m then 8 else 0) \<le> sz"
    "off + (if has_id m then 41 else 0) + (if has_tr m then 8 else 0) + (if has_ma m then 8 else 0) \<le> sz"
    "off + (if has_id m then 41 else 0) + (if has_tr m then 8 else 0) + (if has_ma m then 8 else 0)
       + (if has_ef m then 2 else 0) \<le> sz"
    "off + (if has_id m then 41 else 0) + (if has_tr m then 8 else 0) + (if has_ma m then 8 else 0)
       + (if has_ef m then 2 else 0) + (if has_st m then 7 else 0) \<le> sz"
    using sz by (auto simp: components_width_def)
  note r1 = identity.optional_read [OF wf at0 w(1)]
  note r2 = transform.optional_read [OF wf r1(2) w(2)]
  note r3 = mass.optional_read [OF wf r2(2) w(3)]
  note r4 = effects.optional_read [OF wf r3(2) w(4)]
  note r5 = stats.optional_read [OF wf r4(2) w(5)]
  show ?thesis
    unfolding read_components_def merge_player_def Let_def
    by (simp only: r1(1) r2(1) r3(1) r4(1) r5(1) Option.bind.bind_lunit prod.case)
      (simp only: components_width_def add.assoc)
qed


text \<open>What the encoder produces, and how the decoder reads each kind of record.\<close>

definition record_size :: "u16 \<Rightarrow> nat" where
  "record_size m = 8 + components_width m"

lemma record_size_bounds: "8 \<le> record_size m" "record_size m \<le> 74"
  by (simp_all add: record_size_def components_width_le)

lemma length_header_image [simp]: "length (header_image h) = 8"
  using header_field.put_width by simp

lemma EncodeRecord_player:
  assumes "wf_player p" and "operation \<noteq> SHROOM_SNAPSHOT_RECORD_DESPAWN" and "74 \<le> capacity"
  shows "EncodeRecord capacity operation m e (Some p) =
     header_image \<lparr>rh_entity_id = e, rh_component_mask = m, rh_operation = operation,
       rh_size = word_of_nat (record_size m)\<rparr> @ components_image m p"
proof -
  have "write_components capacity m p (replicate 8 0) = Some (replicate 8 0 @ components_image m p)"
    using assms(1,3) by (intro write_components_image) simp_all
  with assms record_size_bounds(2) [of m] show ?thesis
    by (simp add: EncodeRecord_def record_size_def components_image_length)
qed

lemma EncodeRecord_despawn:
  "8 \<le> capacity \<Longrightarrow> EncodeRecord capacity SHROOM_SNAPSHOT_RECORD_DESPAWN 0 e None =
     header_image \<lparr>rh_entity_id = e, rh_component_mask = 0,
       rh_operation = SHROOM_SNAPSHOT_RECORD_DESPAWN, rh_size = 8\<rparr>"
  by (simp add: EncodeRecord_def)

lemma header_of_encoded [simp]: "header_of_image (header_image h) = h"
  using header_field.get_put by simp

lemma unat_record_size [simp]: "unat (word_of_nat (record_size m) :: u8) = record_size m"
  using record_size_bounds(2) [of m] by (simp add: unat_of_nat)

lemma has_all [simp]: "has_id 0x1f" "has_tr 0x1f" "has_ma 0x1f" "has_ef 0x1f" "has_st 0x1f"
  by (simp_all add: has_component_def)

lemma merge_all: "merge_player 0x1f p (zero_player (sp_entity_id p)) = p"
  by (simp add: merge_player_def copy_identity_def copy_transform_def copy_mass_def
      copy_effects_def copy_stats_def zero_player_def)

lemma merge_keeps_id [simp]: "sp_entity_id (merge_player m p q) = sp_entity_id q"
  by (simp add: merge_player_def copy_identity_def copy_transform_def copy_mass_def
      copy_effects_def copy_stats_def Let_def)

lemma wf_merge: "wf_player p \<Longrightarrow> wf_player q \<Longrightarrow> wf_player (merge_player m p q)"
  by (simp add: merge_player_def copy_identity_def copy_transform_def copy_mass_def
      copy_effects_def copy_stats_def Let_def wf_player_def)

lemma read_encoded_components:
  assumes "wf_player p"
  shows "read_components (header_image h @ components_image m p @ rest) (record_size m) m q 8 =
    Some (merge_player m p q, record_size m)"
  using read_components_image [of p 8 "header_image h @ components_image m p @ rest" m rest
      "record_size m" q] assms
  by (simp add: record_size_def)

lemma DecodeRecord_spawn:
  assumes "wf_player p" and "find_entity players (sp_entity_id p) = None"
    and "length players < 1024" and "74 \<le> capacity" and "record_size 0x1f \<le> available"
  shows "DecodeRecord (EncodeRecord capacity SHROOM_SNAPSHOT_RECORD_SPAWN SHROOM_SNAPSHOT_COMPONENT_ALL
      (sp_entity_id p) (Some p) @ rest) available players = Some (players @ [p])"
  using assms record_size_bounds(1) [of "0x1f"]
  by (simp add: DecodeRecord_def EncodeRecord_player read_encoded_components merge_all
      SHROOM_MAX_SNAPSHOT_PLAYERS_def Let_def)

lemma DecodeRecord_update:
  assumes "wf_player p" and "find_entity players e = Some i" and "m AND NOT 0x1f = 0"
    and "74 \<le> capacity" and "record_size m \<le> available"
  shows "DecodeRecord (EncodeRecord capacity SHROOM_SNAPSHOT_RECORD_UPDATE m e (Some p) @ rest)
      available players = Some (players[i := merge_player m p (players ! i)])"
  using assms record_size_bounds(1) [of m]
  by (simp add: DecodeRecord_def EncodeRecord_player read_encoded_components Let_def)

lemma DecodeRecord_despawn:
  assumes "find_entity players e = Some i" and "8 \<le> capacity" and "8 \<le> available"
  shows "DecodeRecord (EncodeRecord capacity SHROOM_SNAPSHOT_RECORD_DESPAWN 0 e None @ rest)
      available players = Some (remove_at i players)"
  using assms by (simp add: DecodeRecord_def EncodeRecord_despawn Let_def)

section \<open>Change masks\<close>

text \<open>
  Two players agree when all integer fields are equal and each float has the same image or both
  are zeros: an update that is not sent because nothing changed leaves at most the sign of a
  zero behind.
\<close>

definition player_same :: "ShroomSnapshotPlayerState \<Rightarrow> ShroomSnapshotPlayerState \<Rightarrow> bool" where
  "player_same a b \<longleftrightarrow> sp_entity_id a = sp_entity_id b \<and>
     sp_player_id a = sp_player_id b \<and> sp_name a = sp_name b \<and> sp_alive a = sp_alive b \<and>
     sp_is_bot a = sp_is_bot b \<and> sp_team_id a = sp_team_id b \<and> sp_piece_index a = sp_piece_index b \<and>
     sp_life_generation a = sp_life_generation b \<and>
     f32_same (sp_position_x a) (sp_position_x b) \<and> f32_same (sp_position_y a) (sp_position_y b) \<and>
     f32_same (sp_mass a) (sp_mass b) \<and> f32_same (sp_radius a) (sp_radius b) \<and>
     sp_effect_flags a = sp_effect_flags b \<and> sp_round_spores a = sp_round_spores b \<and>
     sp_round_kills a = sp_round_kills b \<and> f32_same (sp_objective_score a) (sp_objective_score b)"

lemma player_same_refl [simp]: "player_same p p"
  by (simp add: player_same_def)

lemma has_component_or [simp]: "has_component (a OR b) c \<longleftrightarrow> has_component a c \<or> has_component b c"
  by (simp add: has_component_def word_ao_dist or_eq_0_iff)

lemma has_component_if [simp]: "has_component (if P then a else 0) c \<longleftrightarrow> P \<and> has_component a c"
  by (simp add: has_component_def)

lemma has_flags [simp]:
  "has_id 1" "\<not> has_id 2" "\<not> has_id 4" "\<not> has_id 8" "\<not> has_id 16"
  "\<not> has_tr 1" "has_tr 2" "\<not> has_tr 4" "\<not> has_tr 8" "\<not> has_tr 16"
  "\<not> has_ma 1" "\<not> has_ma 2" "has_ma 4" "\<not> has_ma 8" "\<not> has_ma 16"
  "\<not> has_ef 1" "\<not> has_ef 2" "\<not> has_ef 4" "has_ef 8" "\<not> has_ef 16"
  "\<not> has_st 1" "\<not> has_st 2" "\<not> has_st 4" "\<not> has_st 8" "has_st 16"
  by (simp_all add: has_component_def)

lemma ComponentMask_valid: "ComponentMask p b AND NOT 0x1f = 0"
  by (simp add: ComponentMask_def)

lemma merge_fields:
  "sp_player_id (merge_player m p q) = (if has_id m then sp_player_id p else sp_player_id q)"
  "sp_name (merge_player m p q) = (if has_id m then sp_name p else sp_name q)"
  "sp_alive (merge_player m p q) = (if has_id m then sp_alive p else sp_alive q)"
  "sp_is_bot (merge_player m p q) = (if has_id m then sp_is_bot p else sp_is_bot q)"
  "sp_team_id (merge_player m p q) = (if has_id m then sp_team_id p else sp_team_id q)"
  "sp_piece_index (merge_player m p q) = (if has_id m then sp_piece_index p else sp_piece_index q)"
  "sp_life_generation (merge_player m p q) =
     (if has_id m then sp_life_generation p else sp_life_generation q)"
  "sp_position_x (merge_player m p q) = (if has_tr m then sp_position_x p else sp_position_x q)"
  "sp_position_y (merge_player m p q) = (if has_tr m then sp_position_y p else sp_position_y q)"
  "sp_mass (merge_player m p q) = (if has_ma m then sp_mass p else sp_mass q)"
  "sp_radius (merge_player m p q) = (if has_ma m then sp_radius p else sp_radius q)"
  "sp_effect_flags (merge_player m p q) = (if has_ef m then sp_effect_flags p else sp_effect_flags q)"
  "sp_round_spores (merge_player m p q) = (if has_st m then sp_round_spores p else sp_round_spores q)"
  "sp_round_kills (merge_player m p q) = (if has_st m then sp_round_kills p else sp_round_kills q)"
  "sp_objective_score (merge_player m p q) =
     (if has_st m then sp_objective_score p else sp_objective_score q)"
  by (simp_all add: merge_player_def copy_identity_def copy_transform_def copy_mass_def
      copy_effects_def copy_stats_def Let_def)

lemma has_ComponentMask:
  "has_id (ComponentMask p b) \<longleftrightarrow> sp_player_id p \<noteq> sp_player_id b \<or> sp_name p \<noteq> sp_name b \<or>
     sp_alive p \<noteq> sp_alive b \<or> sp_is_bot p \<noteq> sp_is_bot b \<or> sp_team_id p \<noteq> sp_team_id b \<or>
     sp_piece_index p \<noteq> sp_piece_index b \<or> sp_life_generation p \<noteq> sp_life_generation b"
  "has_tr (ComponentMask p b) \<longleftrightarrow> \<not> f32_eq (sp_position_x p) (sp_position_x b) \<or>
     \<not> f32_eq (sp_position_y p) (sp_position_y b)"
  "has_ma (ComponentMask p b) \<longleftrightarrow> \<not> f32_eq (sp_mass p) (sp_mass b) \<or>
     \<not> f32_eq (sp_radius p) (sp_radius b)"
  "has_ef (ComponentMask p b) \<longleftrightarrow> sp_effect_flags p \<noteq> sp_effect_flags b"
  "has_st (ComponentMask p b) \<longleftrightarrow> sp_round_spores p \<noteq> sp_round_spores b \<or>
     sp_round_kills p \<noteq> sp_round_kills b \<or> \<not> f32_eq (sp_objective_score p) (sp_objective_score b)"
  unfolding ComponentMask_def by (simp_all only: has_component_or has_component_if has_flags simp_thms)

lemma merge_mask_same:
  assumes "player_same b q" and "sp_entity_id p = sp_entity_id b"
  shows "player_same p (merge_player (ComponentMask p b) p q)"
proof -
  have float: "f32_same x (if \<not> f32_eq x y \<or> c then x else z)"
    "f32_same x (if c \<or> \<not> f32_eq x y then x else z)" if "f32_same y z" for x y z c
    using that by (auto intro: f32_same_trans f32_eq_same)
  have stats: "f32_same x (if c \<or> d \<or> \<not> f32_eq x y then x else z)" if "f32_same y z" for x y z c d
    using float(2) [OF that, where c = "c \<or> d"] by simp
  note same = assms(1) [unfolded player_same_def] assms(2)
  show ?thesis
    unfolding player_same_def merge_fields merge_keeps_id has_ComponentMask
    by (intro conjI float stats; use same in \<open>simp\<close>)
qed

lemma mask_zero_same:
  assumes "ComponentMask p b = 0" and "player_same b q" and "sp_entity_id p = sp_entity_id b"
  shows "player_same p q"
  using merge_mask_same [OF assms(2,3)] assms(1)
  by (simp add: merge_player_def has_component_def)

end
