(* ===== verification/Snapshot_Encoder.thy ===== *)
theory Snapshot_Encoder
  imports Snapshot_Codec Serial_Numbers
begin

text \<open>
  The sending side of snapshot replication in \<open>src/shared/snapshot_replication.c\<close>: the
  history of sent frames, the delta of a frame against its baseline, and the packing of its
  records into chunks (\<open>HistoryFind\<close>, \<open>HistoryStore\<close>, \<open>InitPacket\<close>,
  \<open>AppendRecord\<close>, \<open>EncodeFrame\<close>).  A frame's players with their count are a list;
  the packets of an encoded frame with their count are a list; the payload array with
  \<open>payload_size\<close> is the list of the bytes written.  The NULL checks on pointer arguments
  that stand for records or arrays have no counterpart; a baseline pointer that may be NULL is an
  option.
\<close>

section \<open>State\<close>

record ShroomSnapshotFrameMetadata =
  fm_tick :: u64
  fm_last_processed_input_sequence :: u32
  fm_player_id :: u32
  fm_entity_id :: u32
  fm_match_phase :: u8
  fm_game_mode :: u8
  fm_match_time_remaining :: f32
  fm_objective_target_score :: f32
  fm_objective_controller_id :: u32
  fm_objective_contested :: u8
  fm_podium_player_ids :: "u32 list"
  fm_podium_masses :: "f32 list"

record ShroomSnapshotFrame =
  fr_tick :: u64
  fr_players :: "ShroomSnapshotPlayerState list"

record ShroomSnapshotHistory =
  hi_next :: u8
  hi_frames :: "ShroomSnapshotFrame list"

record ShroomSnapshotPacket =
  sn_header :: ShroomPacketHeader
  sn_tick :: u64
  sn_baseline_tick :: u64
  sn_last_processed_input_sequence :: u32
  sn_player_id :: u32
  sn_entity_id :: u32
  sn_total_player_count :: u16
  sn_chunk_index :: u16
  sn_chunk_count :: u16
  sn_record_count :: u16
  sn_payload_size :: u16
  sn_flags :: u8
  sn_match_phase :: u8
  sn_game_mode :: u8
  sn_match_time_remaining :: f32
  sn_objective_target_score :: f32
  sn_objective_controller_id :: u32
  sn_objective_contested :: u8
  sn_podium_player_ids :: "u32 list"
  sn_podium_masses :: "f32 list"
  sn_payload :: "u8 list"

record ShroomSnapshotEncodedFrame =
  ef_packets :: "ShroomSnapshotPacket list"
  ef_wire_bytes :: nat

definition SHROOM_SNAPSHOT_HISTORY_SIZE :: nat where "SHROOM_SNAPSHOT_HISTORY_SIZE = 4"
abbreviation (input) SHROOM_SNAPSHOT_FLAG_KEYFRAME :: u8 where "SHROOM_SNAPSHOT_FLAG_KEYFRAME \<equiv> 0x01"

section \<open>Ticks and history\<close>

definition ShroomSnapshotTickIsNewer :: "u64 \<Rightarrow> u64 \<Rightarrow> bool" where
  "ShroomSnapshotTickIsNewer candidate reference \<longleftrightarrow>
     candidate \<noteq> reference \<and> 0 < sint (candidate - reference)"

interpretation tick_order: serial_order ShroomSnapshotTickIsNewer
  by unfold_locales (auto simp: ShroomSnapshotTickIsNewer_def sint_pos_iff)

definition ShroomSnapshotHistoryFind ::
  "ShroomSnapshotHistory option \<Rightarrow> u64 \<Rightarrow> ShroomSnapshotFrame option" where
  "ShroomSnapshotHistoryFind history tick =
     (case history of
        None \<Rightarrow> None
      | Some h \<Rightarrow>
          if tick = 0 then None
          else case find_index (\<lambda>f. fr_tick f = tick) (take SHROOM_SNAPSHOT_HISTORY_SIZE (hi_frames h)) of
                 None \<Rightarrow> None
               | Some i \<Rightarrow> Some (hi_frames h ! i))"

text \<open>The remaining fields of the overwritten frame are zeros beyond the stored players.\<close>

definition ShroomSnapshotHistoryStore ::
  "ShroomSnapshotHistory option \<Rightarrow> u64 \<Rightarrow> ShroomSnapshotPlayerState list option \<Rightarrow>
     ShroomSnapshotHistory option" where
  "ShroomSnapshotHistoryStore history tick players =
     (case (history, players) of
        (Some h, Some ps) \<Rightarrow>
          if tick = 0 \<or> SHROOM_MAX_SNAPSHOT_PLAYERS < length ps then Some h
          else Some (h\<lparr>hi_frames := (hi_frames h)[unat (hi_next h) mod SHROOM_SNAPSHOT_HISTORY_SIZE :=
                         \<lparr>fr_tick = tick, fr_players = ps\<rparr>],
                       hi_next := word_of_nat ((unat (hi_next h) + 1) mod SHROOM_SNAPSHOT_HISTORY_SIZE)\<rparr>)
      | _ \<Rightarrow> history)"

definition ShroomSnapshotChunkCount :: "nat \<Rightarrow> nat" where
  "ShroomSnapshotChunkCount player_count =
     (let full_record_size = record_header_size + 4 + SHROOM_MAX_NAME_LENGTH + 5 + 4 * 4 + 2 + 2 + 1 + 4;
          records_per_chunk = SHROOM_SNAPSHOT_PAYLOAD_SIZE div full_record_size
      in if player_count = 0 then 1 else (player_count + records_per_chunk - 1) div records_per_chunk)"

section \<open>Packing records into chunks\<close>

definition InitPacket ::
  "ShroomSnapshotFrameMetadata \<Rightarrow> u64 \<Rightarrow> u16 \<Rightarrow> bool \<Rightarrow> ShroomSnapshotPacket" where
  "InitPacket metadata baseline_tick player_count keyframe =
     \<lparr>sn_header = \<lparr>ph_type = 0, ph_reserved = 0, ph_size = 0\<rparr>,
      sn_tick = fm_tick metadata,
      sn_baseline_tick = baseline_tick,
      sn_last_processed_input_sequence = fm_last_processed_input_sequence metadata,
      sn_player_id = fm_player_id metadata,
      sn_entity_id = fm_entity_id metadata,
      sn_total_player_count = player_count,
      sn_chunk_index = 0, sn_chunk_count = 0, sn_record_count = 0, sn_payload_size = 0,
      sn_flags = (if keyframe then SHROOM_SNAPSHOT_FLAG_KEYFRAME else 0),
      sn_match_phase = fm_match_phase metadata,
      sn_game_mode = fm_game_mode metadata,
      sn_match_time_remaining = fm_match_time_remaining metadata,
      sn_objective_target_score = fm_objective_target_score metadata,
      sn_objective_controller_id = fm_objective_controller_id metadata,
      sn_objective_contested = fm_objective_contested metadata,
      sn_podium_player_ids = fm_podium_player_ids metadata,
      sn_podium_masses = fm_podium_masses metadata,
      sn_payload = []\<rparr>"

definition put_record :: "ShroomSnapshotPacket \<Rightarrow> u8 list \<Rightarrow> ShroomSnapshotPacket" where
  "put_record packet r = packet\<lparr>sn_payload := sn_payload packet @ r,
     sn_payload_size := word_of_nat (unat (sn_payload_size packet) + length r),
     sn_record_count := sn_record_count packet + 1\<rparr>"

definition AppendRecord ::
  "ShroomSnapshotPacket list \<Rightarrow> ShroomSnapshotFrameMetadata \<Rightarrow> u64 \<Rightarrow> u16 \<Rightarrow> bool \<Rightarrow> u8 list \<Rightarrow>
     ShroomSnapshotPacket list option" where
  "AppendRecord packets metadata baseline_tick player_count keyframe r =
     (if length r = 0 \<or> SHROOM_SNAPSHOT_PAYLOAD_SIZE < length r then None
      else
        let fresh = InitPacket metadata baseline_tick player_count keyframe;
            packets = (if packets = [] then [fresh] else packets);
            packet = last packets
        in if SHROOM_SNAPSHOT_PAYLOAD_SIZE < unat (sn_payload_size packet) + length r then
             (if SHROOM_SNAPSHOT_MAX_CHUNKS \<le> length packets then None
              else Some (packets @ [put_record fresh r]))
           else Some (butlast packets @ [put_record packet r]))"

fun encode_players ::
  "ShroomSnapshotFrameMetadata \<Rightarrow> u16 \<Rightarrow> ShroomSnapshotFrame option \<Rightarrow> bool \<Rightarrow>
     ShroomSnapshotPacket list \<Rightarrow> ShroomSnapshotPlayerState list \<Rightarrow> ShroomSnapshotPacket list option" where
  "encode_players metadata player_count baseline keyframe encoded [] = Some encoded"
| "encode_players metadata player_count baseline keyframe encoded (player # players) =
     (let previous = (if keyframe then None
                      else case baseline of None \<Rightarrow> None
                           | Some b \<Rightarrow> FindPlayer (fr_players b) (sp_entity_id player));
          operation = (case previous of None \<Rightarrow> SHROOM_SNAPSHOT_RECORD_SPAWN
                       | Some _ \<Rightarrow> SHROOM_SNAPSHOT_RECORD_UPDATE);
          cmask = (case previous of None \<Rightarrow> SHROOM_SNAPSHOT_COMPONENT_ALL
                  | Some p \<Rightarrow> ComponentMask player p)
      in if cmask = 0 then encode_players metadata player_count baseline keyframe encoded players
         else
           case AppendRecord encoded metadata
                  (if keyframe then 0 else case baseline of None \<Rightarrow> 0 | Some b \<Rightarrow> fr_tick b)
                  player_count keyframe
                  (EncodeRecord 128 operation cmask (sp_entity_id player) (Some player)) of
             None \<Rightarrow> None
           | Some encoded \<Rightarrow> encode_players metadata player_count baseline keyframe encoded players)"

fun encode_despawns ::
  "ShroomSnapshotFrameMetadata \<Rightarrow> u16 \<Rightarrow> ShroomSnapshotPlayerState list \<Rightarrow> u64 \<Rightarrow>
     ShroomSnapshotPacket list \<Rightarrow> ShroomSnapshotPlayerState list \<Rightarrow> ShroomSnapshotPacket list option" where
  "encode_despawns metadata player_count players baseline_tick encoded [] = Some encoded"
| "encode_despawns metadata player_count players baseline_tick encoded (old # olds) =
     (if FindPlayer players (sp_entity_id old) \<noteq> None
      then encode_despawns metadata player_count players baseline_tick encoded olds
      else
        case AppendRecord encoded metadata baseline_tick player_count False
               (EncodeRecord 128 SHROOM_SNAPSHOT_RECORD_DESPAWN 0 (sp_entity_id old) None) of
          None \<Rightarrow> None
        | Some encoded \<Rightarrow> encode_despawns metadata player_count players baseline_tick encoded olds)"

definition packet_wire_size :: "ShroomSnapshotPacket \<Rightarrow> nat" where
  "packet_wire_size packet = offset_of ShroomSnapshotPacket_layout 22 + unat (sn_payload_size packet)"

definition finish_packet :: "nat \<Rightarrow> nat \<Rightarrow> ShroomSnapshotPacket \<Rightarrow> ShroomSnapshotPacket" where
  "finish_packet packet_count index packet =
     (let header = ShroomPacketHeaderInit (Some (sn_header packet)) SHROOM_PACKET_SNAPSHOT
                     (word_of_nat (packet_wire_size packet))
      in packet\<lparr>sn_chunk_index := word_of_nat index, sn_chunk_count := word_of_nat packet_count,
                sn_header := (case header of Some h \<Rightarrow> h | None \<Rightarrow> sn_header packet)\<rparr>)"

definition ShroomSnapshotEncodeFrame ::
  "ShroomSnapshotFrameMetadata \<Rightarrow> ShroomSnapshotPlayerState list \<Rightarrow> ShroomSnapshotFrame option \<Rightarrow> bool \<Rightarrow>
     ShroomSnapshotEncodedFrame option" where
  "ShroomSnapshotEncodeFrame metadata players baseline keyframe =
     (if SHROOM_MAX_SNAPSHOT_PLAYERS < length players \<or> \<not> keyframe \<and> baseline = None then None
      else
        let player_count = word_of_nat (length players);
            baseline_tick = (if keyframe then 0 else case baseline of None \<Rightarrow> 0 | Some b \<Rightarrow> fr_tick b)
        in case encode_players metadata player_count baseline keyframe [] players of
             None \<Rightarrow> None
           | Some encoded \<Rightarrow>
             case (if keyframe then Some encoded
                   else encode_despawns metadata player_count players baseline_tick encoded
                          (case baseline of None \<Rightarrow> [] | Some b \<Rightarrow> fr_players b)) of
               None \<Rightarrow> None
             | Some encoded \<Rightarrow>
                 let packets = (if encoded = []
                                then [InitPacket metadata baseline_tick player_count keyframe]
                                else encoded)
                 in Some \<lparr>ef_packets = map (\<lambda>index. finish_packet (length packets) index (packets ! index))
                                          [0..<length packets],
                          ef_wire_bytes = sum_list (map packet_wire_size packets)\<rparr>)"

section \<open>A frame as a sequence of changes\<close>

text \<open>
  The abstract content of an encoded frame: the changes in the order the encoder emits them, and
  what the decoder does with one of them.
\<close>

datatype snapshot_change =
  Spawn_change ShroomSnapshotPlayerState
| Update_change u16 ShroomSnapshotPlayerState
| Despawn_change u32

fun change_bytes :: "snapshot_change \<Rightarrow> u8 list" where
  "change_bytes (Spawn_change p) =
     EncodeRecord 128 SHROOM_SNAPSHOT_RECORD_SPAWN SHROOM_SNAPSHOT_COMPONENT_ALL (sp_entity_id p) (Some p)"
| "change_bytes (Update_change m p) =
     EncodeRecord 128 SHROOM_SNAPSHOT_RECORD_UPDATE m (sp_entity_id p) (Some p)"
| "change_bytes (Despawn_change e) = EncodeRecord 128 SHROOM_SNAPSHOT_RECORD_DESPAWN 0 e None"

fun change_ok :: "snapshot_change \<Rightarrow> bool" where
  "change_ok (Spawn_change p) \<longleftrightarrow> wf_player p"
| "change_ok (Update_change m p) \<longleftrightarrow> wf_player p \<and> m AND NOT 0x1f = 0"
| "change_ok (Despawn_change e) \<longleftrightarrow> True"

definition player_changes ::
  "(u32 \<Rightarrow> ShroomSnapshotPlayerState option) \<Rightarrow> ShroomSnapshotPlayerState list \<Rightarrow> snapshot_change list" where
  "player_changes known players = concat (map (\<lambda>p.
     case known (sp_entity_id p) of
       None \<Rightarrow> [Spawn_change p]
     | Some b \<Rightarrow> if ComponentMask p b = 0 then [] else [Update_change (ComponentMask p b) p]) players)"

definition despawn_changes ::
  "ShroomSnapshotPlayerState list \<Rightarrow> ShroomSnapshotPlayerState list \<Rightarrow> snapshot_change list" where
  "despawn_changes players olds =
     map (\<lambda>b. Despawn_change (sp_entity_id b))
       (filter (\<lambda>b. lookup_by sp_entity_id players (sp_entity_id b) = None) olds)"

abbreviation "find_player \<equiv> lookup_by sp_entity_id"

lemma FindPlayer_lookup [simp]: "FindPlayer players e = find_player players e"
  by (simp add: FindPlayer_def lookup_by_def find_entity_def map_option_case)

lemma length_change_bytes:
  assumes "change_ok c"
  shows "8 \<le> length (change_bytes c)" and "length (change_bytes c) \<le> 74"
  using assms record_size_bounds
  by (cases c; simp add: EncodeRecord_player EncodeRecord_despawn components_image_length
      record_size_def components_width_le)+

lemma player_changes_ok:
  "list_all wf_player players \<Longrightarrow> list_all change_ok (player_changes known players)"
  by (induction players) (auto simp: player_changes_def ComponentMask_valid [simplified] split: option.splits)

lemma despawn_changes_ok: "list_all change_ok (despawn_changes players olds)"
  by (induction olds) (simp_all add: despawn_changes_def)

section \<open>The chunks of a frame\<close>

fun append_all ::
  "ShroomSnapshotFrameMetadata \<Rightarrow> u64 \<Rightarrow> u16 \<Rightarrow> bool \<Rightarrow> ShroomSnapshotPacket list \<Rightarrow> u8 list list \<Rightarrow>
     ShroomSnapshotPacket list option" where
  "append_all metadata tick count keyframe packets [] = Some packets"
| "append_all metadata tick count keyframe packets (r # rs) =
     (case AppendRecord packets metadata tick count keyframe r of
        None \<Rightarrow> None | Some packets \<Rightarrow> append_all metadata tick count keyframe packets rs)"

lemma encode_players_changes:
  "encode_players md n base kf packets players =
     append_all md (if kf then 0 else case base of None \<Rightarrow> 0 | Some b \<Rightarrow> fr_tick b) n kf packets
       (map change_bytes (player_changes
          (\<lambda>e. if kf then None else case base of None \<Rightarrow> None | Some b \<Rightarrow> find_player (fr_players b) e)
          players))"
  by (induction players arbitrary: packets)
    (auto simp: player_changes_def Let_def split: option.splits)

lemma encode_despawns_changes:
  "encode_despawns md n players tick packets olds =
     append_all md tick n False packets (map change_bytes (despawn_changes players olds))"
  by (induction olds arbitrary: packets) (auto simp: despawn_changes_def split: option.splits)

lemma append_all_append:
  "append_all md t n kf packets (xs @ ys) =
     Option.bind (append_all md t n kf packets xs) (\<lambda>packets. append_all md t n kf packets ys)"
  by (induction xs arbitrary: packets) (auto split: option.splits)

text \<open>A chunk is a packet with records put in; every chunk but the last is nearly full.\<close>

abbreviation chunk_of :: "ShroomSnapshotPacket \<Rightarrow> u8 list list \<Rightarrow> ShroomSnapshotPacket" where
  "chunk_of \<equiv> foldl put_record"

abbreviation bytes_of :: "u8 list list \<Rightarrow> nat" where
  "bytes_of rs \<equiv> length (concat rs)"

definition packed :: "u8 list list list \<Rightarrow> bool" where
  "packed rss \<longleftrightarrow> (\<forall>rs \<in> set (butlast rss). 1027 \<le> bytes_of rs) \<and>
     (\<forall>rs \<in> set rss. rs \<noteq> [] \<and> bytes_of rs \<le> 1100)"

lemma full_total: "\<forall>rs \<in> set rss. 1027 \<le> bytes_of rs \<Longrightarrow> 1027 * length rss \<le> bytes_of (concat rss)"
  by (induction rss) auto

lemma packed_total:
  assumes "packed rss"
  shows "1027 * (length rss - 1) \<le> bytes_of (concat rss)"
proof (cases rss rule: rev_cases)
  case (snoc full cur)
  with assms full_total [of full] show ?thesis by (simp add: packed_def)
qed simp

lemma chunk_fields:
  assumes "sn_payload fresh = []" and "sn_payload_size fresh = 0" and "sn_record_count fresh = 0"
    and "bytes_of rs \<le> 1100"
  shows "sn_payload (chunk_of fresh rs) = concat rs"
    and "unat (sn_payload_size (chunk_of fresh rs)) = bytes_of rs"
    and "sn_record_count (chunk_of fresh rs) = word_of_nat (length rs)"
  using assms
  by (induction rs rule: rev_induct) (simp_all add: put_record_def unat_of_nat flip: of_nat_add)

lemma InitPacket_empty [simp]:
  "sn_payload (InitPacket md t n kf) = []" "sn_payload_size (InitPacket md t n kf) = 0"
  "sn_record_count (InitPacket md t n kf) = 0"
  by (simp_all add: InitPacket_def)

lemma AppendRecord_packed:
  fixes md t n kf
  defines "fresh \<equiv> InitPacket md t n kf"
  assumes "packed rss" and r: "0 < length r" "length r \<le> 74"
    and few: "bytes_of (concat rss) < 1027 * 128"
  obtains rss' where
    "AppendRecord (map (chunk_of fresh) rss) md t n kf r = Some (map (chunk_of fresh) rss')"
    "packed rss'" "concat rss' = concat rss @ [r]"
proof (cases rss rule: rev_cases)
  case Nil
  then show thesis
    using r by (intro that [of "[[r]]"])
      (simp_all add: AppendRecord_def fresh_def packed_def SHROOM_SNAPSHOT_PAYLOAD_SIZE_def)
next
  case (snoc full cur)
  have cur: "bytes_of cur \<le> 1100" using assms(2) snoc by (simp add: packed_def)
  then have sz: "unat (sn_payload_size (chunk_of fresh cur)) = bytes_of cur"
    by (simp add: fresh_def chunk_fields)
  have last: "last (map (chunk_of fresh) rss) = chunk_of fresh cur"
    and butlast: "butlast (map (chunk_of fresh) rss) = map (chunk_of fresh) full" using snoc by simp_all
  show thesis
  proof (cases "1100 < bytes_of cur + length r")
    case True
    with r have "packed (rss @ [[r]])" using assms(2) snoc by (auto simp: packed_def butlast_append)
    have "1027 * length rss \<le> bytes_of (concat rss)"
      using assms(2) snoc True r by (intro full_total) (auto simp: packed_def)
    then have "length rss < 128" using few by simp
    with True r sz last snoc \<open>packed (rss @ [[r]])\<close> show thesis
      by (intro that [of "rss @ [[r]]"])
        (simp_all add: AppendRecord_def Let_def SHROOM_SNAPSHOT_PAYLOAD_SIZE_def
          SHROOM_SNAPSHOT_MAX_CHUNKS_def fresh_def)
  next
    case False
    have "packed (full @ [cur @ [r]])" using assms(2) snoc r False by (auto simp: packed_def)
    with False r sz last butlast snoc show thesis
      by (intro that [of "full @ [cur @ [r]]"])
        (simp_all add: AppendRecord_def Let_def SHROOM_SNAPSHOT_PAYLOAD_SIZE_def fresh_def)
  qed
qed

lemma append_all_packed:
  fixes md t n kf
  defines "fresh \<equiv> InitPacket md t n kf"
  assumes "packed rss" and "list_all (\<lambda>r. 0 < length r \<and> length r \<le> 74) rs"
    and "bytes_of (concat rss) + bytes_of rs \<le> 1027 * 128"
  obtains rss' where "append_all md t n kf (map (chunk_of fresh) rss) rs = Some (map (chunk_of fresh) rss')"
    "packed rss'" "concat rss' = concat rss @ rs"
proof -
  have "\<exists>rss'. append_all md t n kf (map (chunk_of fresh) rss) rs = Some (map (chunk_of fresh) rss') \<and>
      packed rss' \<and> concat rss' = concat rss @ rs"
    using assms(2-4)
  proof (induction rs arbitrary: rss)
    case Nil
    then show ?case by auto
  next
    case (Cons r rs)
    then have r: "0 < length r" "length r \<le> 74" by auto
    have few: "bytes_of (concat rss) < 1027 * 128" using Cons.prems(3) r(1) by (simp del: length_greater_0_conv)
    obtain rss1 where 1:
      "AppendRecord (map (chunk_of fresh) rss) md t n kf r = Some (map (chunk_of fresh) rss1)"
      "packed rss1" "concat rss1 = concat rss @ [r]"
      unfolding fresh_def using AppendRecord_packed [OF Cons.prems(1) r few] by metis
    from Cons.prems(2,3) 1(3) Cons.IH [OF 1(2)] obtain rss2 where
      "append_all md t n kf (map (chunk_of fresh) rss1) rs = Some (map (chunk_of fresh) rss2)"
      "packed rss2" "concat rss2 = concat rss1 @ rs" by auto
    with 1 show ?case by (intro exI [of _ rss2]) simp
  qed
  with that show thesis by blast
qed

section \<open>The encoded frame\<close>

definition known_players :: "bool \<Rightarrow> ShroomSnapshotFrame option \<Rightarrow> u32 \<Rightarrow> ShroomSnapshotPlayerState option" where
  "known_players keyframe baseline e =
     (if keyframe then None else case baseline of None \<Rightarrow> None | Some b \<Rightarrow> find_player (fr_players b) e)"

definition baseline_players :: "bool \<Rightarrow> ShroomSnapshotFrame option \<Rightarrow> ShroomSnapshotPlayerState list" where
  "baseline_players keyframe baseline =
     (if keyframe then [] else case baseline of None \<Rightarrow> [] | Some b \<Rightarrow> fr_players b)"

definition baseline_tick_of :: "bool \<Rightarrow> ShroomSnapshotFrame option \<Rightarrow> u64" where
  "baseline_tick_of keyframe baseline =
     (if keyframe then 0 else case baseline of None \<Rightarrow> 0 | Some b \<Rightarrow> fr_tick b)"

definition frame_changes ::
  "bool \<Rightarrow> ShroomSnapshotFrame option \<Rightarrow> ShroomSnapshotPlayerState list \<Rightarrow> snapshot_change list" where
  "frame_changes keyframe baseline players =
     player_changes (find_player (baseline_players keyframe baseline)) players @
     despawn_changes players (baseline_players keyframe baseline)"

definition frame_chunk ::
  "ShroomSnapshotFrameMetadata \<Rightarrow> u64 \<Rightarrow> nat \<Rightarrow> bool \<Rightarrow> u8 list list list \<Rightarrow> nat \<Rightarrow> ShroomSnapshotPacket" where
  "frame_chunk md tick n keyframe rss i =
     finish_packet (length rss) i (chunk_of (InitPacket md tick (word_of_nat n) keyframe) (rss ! i))"

lemma frame_changes_ok: "list_all wf_player players \<Longrightarrow> list_all change_ok (frame_changes kf base players)"
  by (simp add: frame_changes_def player_changes_ok despawn_changes_ok)

lemma change_list_bytes: "list_all change_ok cs \<Longrightarrow> bytes_of (map change_bytes cs) \<le> 74 * length cs"
  by (induction cs) (auto dest: length_change_bytes(2))

lemma player_change_bytes:
  assumes "list_all wf_player players"
  shows "bytes_of (map change_bytes (player_changes known players)) \<le> 74 * length players"
proof -
  have "length (player_changes known players) \<le> length players"
    by (induction players) (auto simp: player_changes_def split: option.splits)
  with change_list_bytes [OF player_changes_ok [OF assms], of known] show ?thesis by linarith
qed

lemma despawn_change_bytes: "bytes_of (map change_bytes (despawn_changes players olds)) \<le> 8 * length olds"
  by (induction olds) (simp_all add: despawn_changes_def EncodeRecord_despawn)

lemma EncodeFrame_chunks:
  assumes wf: "list_all wf_player players" and n: "length players \<le> 1024"
    and base: "keyframe \<or> baseline \<noteq> None" and nb: "length (baseline_players keyframe baseline) \<le> 1024"
  obtains rss where
    "ef_packets (the (ShroomSnapshotEncodeFrame md players baseline keyframe)) =
       map (frame_chunk md (baseline_tick_of keyframe baseline) (length players) keyframe rss) [0..<length rss]"
    "ShroomSnapshotEncodeFrame md players baseline keyframe \<noteq> None"
    "concat rss = map change_bytes (frame_changes keyframe baseline players)"
    "\<forall>rs \<in> set rss. bytes_of rs \<le> 1100" "0 < length rss" "length rss \<le> 82"
proof -
  let ?fresh = "InitPacket md (baseline_tick_of keyframe baseline) (word_of_nat (length players)) keyframe"
  let ?changes = "frame_changes keyframe baseline players"
  let ?append = "append_all md (baseline_tick_of keyframe baseline) (word_of_nat (length players)) keyframe"
  have ok: "list_all change_ok ?changes" using wf by (rule frame_changes_ok)
  have total: "bytes_of (map change_bytes ?changes) \<le> 83968"
    using player_change_bytes [OF wf, of "find_player (baseline_players keyframe baseline)"] n nb
      despawn_change_bytes [of players "baseline_players keyframe baseline"]
    by (simp add: frame_changes_def)
  have small: "list_all (\<lambda>r. 0 < length r \<and> length r \<le> 74) (map change_bytes ?changes)"
    using ok length_change_bytes by (fastforce simp: list_all_iff)
  obtain rss where rss: "?append [] (map change_bytes ?changes) = Some (map (chunk_of ?fresh) rss)"
    "packed rss" "concat rss = map change_bytes ?changes"
    using total append_all_packed [OF _ small, where rss = "[]" and md = md and n = "word_of_nat (length players)"
        and kf = keyframe and t = "baseline_tick_of keyframe baseline"]
    by (simp add: packed_def) blast
  have "known_players keyframe baseline = find_player (baseline_players keyframe baseline)"
    by (auto simp: known_players_def baseline_players_def split: option.splits)
  then have enc: "encode_players md (word_of_nat (length players)) baseline keyframe [] players =
      ?append [] (map change_bytes (player_changes (find_player (baseline_players keyframe baseline)) players))"
    unfolding encode_players_changes baseline_tick_of_def [symmetric] known_players_def [symmetric] by simp
  define rss0 where "rss0 = (if rss = [] then [[]] else rss)"
  have packets: "(if map (chunk_of ?fresh) rss = [] then [?fresh] else map (chunk_of ?fresh) rss) =
      map (chunk_of ?fresh) rss0" by (simp add: rss0_def)
  have both: "(case encode_players md (word_of_nat (length players)) baseline keyframe [] players of
       None \<Rightarrow> None
     | Some encoded \<Rightarrow> if keyframe then Some encoded
         else encode_despawns md (word_of_nat (length players)) players
           (baseline_tick_of keyframe baseline) encoded (case baseline of None \<Rightarrow> [] | Some b \<Rightarrow> fr_players b)) =
     Some (map (chunk_of ?fresh) rss)"
    using rss(1) base unfolding enc encode_despawns_changes frame_changes_def map_append append_all_append
    by (cases keyframe) (auto simp: baseline_players_def despawn_changes_def bind_eq_Some_conv split: option.splits)
  then obtain encoded where first:
    "encode_players md (word_of_nat (length players)) baseline keyframe [] players = Some encoded"
    and second: "(if keyframe then Some encoded
         else encode_despawns md (word_of_nat (length players)) players
           (baseline_tick_of keyframe baseline) encoded (case baseline of None \<Rightarrow> [] | Some b \<Rightarrow> fr_players b)) =
     Some (map (chunk_of ?fresh) rss)" by (auto split: option.splits)
  have guard: "(256 * 4 < length players \<or> \<not> keyframe \<and> baseline = None) = False" using n base by simp
  show thesis
  proof (rule that [of rss0])
    have "ShroomSnapshotEncodeFrame md players baseline keyframe =
      Some \<lparr>ef_packets = map (\<lambda>i. finish_packet (length rss0) i (map (chunk_of ?fresh) rss0 ! i)) [0..<length rss0],
        ef_wire_bytes = sum_list (map packet_wire_size (map (chunk_of ?fresh) rss0))\<rparr>"
      unfolding ShroomSnapshotEncodeFrame_def Let_def baseline_tick_of_def [symmetric]
        SHROOM_MAX_SNAPSHOT_PLAYERS_def guard if_False first option.case second packets length_map ..
    then show "ShroomSnapshotEncodeFrame md players baseline keyframe \<noteq> None"
      "ef_packets (the (ShroomSnapshotEncodeFrame md players baseline keyframe)) =
       map (frame_chunk md (baseline_tick_of keyframe baseline) (length players) keyframe rss0) [0..<length rss0]"
      by (auto simp: frame_chunk_def)
    show "concat rss0 = map change_bytes ?changes" using rss(3) by (cases rss) (simp_all add: rss0_def)
    show "\<forall>rs \<in> set rss0. bytes_of rs \<le> 1100" using rss(2) by (simp add: rss0_def packed_def)
    show "0 < length rss0" by (simp add: rss0_def)
    have "length rss - 1 \<le> 81" using packed_total [OF rss(2)] total unfolding rss(3) by linarith
    then show "length rss0 \<le> 82" unfolding rss0_def by (cases "rss = []") (simp, simp del: One_nat_def)
  qed
qed

lemma EncodeFrame_total:
  assumes "list_all wf_player players" and "length players \<le> 1024"
    and "keyframe \<or> baseline \<noteq> None" and "length (baseline_players keyframe baseline) \<le> 1024"
  shows "\<exists>encoded. ShroomSnapshotEncodeFrame md players baseline keyframe = Some encoded \<and>
    0 < length (ef_packets encoded) \<and> length (ef_packets encoded) \<le> 82"
proof -
  obtain rss where "ef_packets (the (ShroomSnapshotEncodeFrame md players baseline keyframe)) =
       map (frame_chunk md (baseline_tick_of keyframe baseline) (length players) keyframe rss) [0..<length rss]"
    "ShroomSnapshotEncodeFrame md players baseline keyframe \<noteq> None" "0 < length rss" "length rss \<le> 82"
    using EncodeFrame_chunks [OF assms, of md] by metis
  then show ?thesis by (cases "ShroomSnapshotEncodeFrame md players baseline keyframe") simp_all
qed

end
