(* ===== verification/Chunk_Receipts.thy ===== *)
theory Chunk_Receipts
  imports Prelude
begin

text \<open>
  Receipts of numbered chunks.  Snapshot frames and world keyframes are both reassembled from
  chunks that arrive in any order and more than once; both clients note the chunks received as
  bits of two 64-bit words.  The locale states what a client needs of such a note, with the
  consequence it relies on: the note is complete exactly when every chunk has arrived.
\<close>

locale chunk_receipts =
  fixes none :: 'm and got :: "'m \<Rightarrow> nat \<Rightarrow> bool" and mark :: "'m \<Rightarrow> nat \<Rightarrow> 'm"
    and ok :: "'m \<Rightarrow> bool" and capacity :: nat
  assumes ok_none: "ok none"
    and ok_mark: "ok m \<Longrightarrow> i < capacity \<Longrightarrow> ok (mark m i)"
    and got_none: "i < capacity \<Longrightarrow> \<not> got none i"
    and got_mark: "ok m \<Longrightarrow> i < capacity \<Longrightarrow> j < capacity \<Longrightarrow> got (mark m i) j \<longleftrightarrow> got m j \<or> j = i"
begin

definition holds :: "'m \<Rightarrow> nat set \<Rightarrow> bool" where
  "holds m I \<longleftrightarrow> ok m \<and> I \<subseteq> {..<capacity} \<and> (\<forall>j < capacity. got m j \<longleftrightarrow> j \<in> I)"

lemma holds_none: "holds none {}"
  by (simp add: holds_def ok_none got_none)

lemma holds_mark: "holds m I \<Longrightarrow> i < capacity \<Longrightarrow> holds (mark m i) (insert i I)"
  by (auto simp: holds_def ok_mark got_mark)

lemma holds_got: "holds m I \<Longrightarrow> i < capacity \<Longrightarrow> got m i \<longleftrightarrow> i \<in> I"
  by (simp add: holds_def)

lemma holds_again: "holds m I \<Longrightarrow> got m i \<Longrightarrow> i < capacity \<Longrightarrow> holds m (insert i I)"
  by (simp add: holds_def insert_absorb)

lemma complete_iff:
  assumes "holds m I" and "n \<le> capacity" and "I \<subseteq> {..<n}"
  shows "list_all (got m) [0..<n] \<longleftrightarrow> I = {..<n}"
  using assms by (auto simp: holds_def list_all_iff)

end

section \<open>Two words of bits\<close>

definition no_chunks :: "u64 list" where
  "no_chunks = [0, 0]"

definition chunk_received :: "u64 list \<Rightarrow> nat \<Rightarrow> bool" where
  "chunk_received received index \<longleftrightarrow> received ! (index div 64) AND push_bit (index mod 64) 1 \<noteq> 0"

definition mark_chunk :: "u64 list \<Rightarrow> nat \<Rightarrow> u64 list" where
  "mark_chunk received index =
     received[index div 64 := received ! (index div 64) OR push_bit (index mod 64) 1]"

lemma chunk_received_bit: "chunk_received received i \<longleftrightarrow> bit (received ! (i div 64)) (i mod 64)"
  by (simp add: chunk_received_def bit_iff_and_push_bit_not_eq_0)

interpretation receipts: chunk_receipts no_chunks chunk_received mark_chunk "\<lambda>r. length r = 2" 128
proof
  show "length no_chunks = 2" by (simp add: no_chunks_def)
  fix m :: "u64 list" and i j :: nat
  show "length (mark_chunk m i) = 2" if "length m = 2" using that by (simp add: mark_chunk_def)
  have words: "i div 64 = 0 \<or> i div 64 = 1" if "i < 128" for i :: nat using that by linarith
  show "\<not> chunk_received no_chunks i" if "i < 128"
    using words [OF that] by (auto simp: chunk_received_def no_chunks_def)
  have one: "bit (push_bit a 1 :: u64) b \<longleftrightarrow> b = a" if "a < 64" "b < 64" for a b
    using that by (auto simp: bit_exp_iff)
  assume len: "length m = 2" and i: "i < 128" and j: "j < 128"
  show "chunk_received (mark_chunk m i) j \<longleftrightarrow> chunk_received m j \<or> j = i"
  proof (cases "j div 64 = i div 64")
    case True
    then have "j = i \<longleftrightarrow> j mod 64 = i mod 64" by (metis div_mult_mod_eq)
    with True len words [OF i] show ?thesis
      by (auto simp: chunk_received_bit mark_chunk_def bit_or_iff one simp del: push_bit_of_1 mod_less)
  next
    case False
    then have "j \<noteq> i" by auto
    with False show ?thesis by (simp add: chunk_received_def mark_chunk_def)
  qed
qed

end
