(* ===== verification/Snapshot_Assembly.thy ===== *)
theory Snapshot_Assembly
  imports Snapshot_Encoder Chunk_Receipts
begin

text \<open>
  The receiving side of snapshot replication in \<open>src/shared/snapshot_replication.c\<close>: the
  reassembly of a frame from chunks that arrive in any order, possibly more than once
  (\<open>ShroomSnapshotAssemblyPush\<close>), and the application of its records to the baseline
  (\<open>ApplyChunks\<close>).  The result enumeration carries what the out-parameters hold: they are
  read by the caller only after \<open>COMPLETE\<close>.  A packet's payload is the list of the bytes
  received behind the fixed header.
\<close>

record ShroomSnapshotAssembly =
  as_active :: bool
  as_tick :: u64
  as_baseline_tick :: u64
  as_received_chunks :: "u64 list"
  as_chunk_count :: u16
  as_total_player_count :: u16
  as_flags :: u8
  as_metadata :: ShroomSnapshotFrameMetadata
  as_chunks :: "ShroomSnapshotPacket list"

datatype ShroomSnapshotAssemblyResult =
  SHROOM_SNAPSHOT_ASSEMBLY_REJECTED
| SHROOM_SNAPSHOT_ASSEMBLY_PENDING
| SHROOM_SNAPSHOT_ASSEMBLY_COMPLETE ShroomSnapshotFrameMetadata "ShroomSnapshotPlayerState list"

definition zero_packet :: ShroomSnapshotPacket where
  "zero_packet = \<lparr>sn_header = \<lparr>ph_type = 0, ph_reserved = 0, ph_size = 0\<rparr>, sn_tick = 0,
     sn_baseline_tick = 0, sn_last_processed_input_sequence = 0, sn_player_id = 0, sn_entity_id = 0,
     sn_total_player_count = 0, sn_chunk_index = 0, sn_chunk_count = 0, sn_record_count = 0,
     sn_payload_size = 0, sn_flags = 0, sn_match_phase = 0, sn_game_mode = 0,
     sn_match_time_remaining = 0, sn_objective_target_score = 0, sn_objective_controller_id = 0,
     sn_objective_contested = 0, sn_podium_player_ids = [0, 0, 0], sn_podium_masses = [0, 0, 0],
     sn_payload = []\<rparr>"

definition PacketMetadata :: "ShroomSnapshotPacket \<Rightarrow> ShroomSnapshotFrameMetadata" where
  "PacketMetadata packet =
     \<lparr>fm_tick = sn_tick packet,
      fm_last_processed_input_sequence = sn_last_processed_input_sequence packet,
      fm_player_id = sn_player_id packet,
      fm_entity_id = sn_entity_id packet,
      fm_match_phase = sn_match_phase packet,
      fm_game_mode = sn_game_mode packet,
      fm_match_time_remaining = sn_match_time_remaining packet,
      fm_objective_target_score = sn_objective_target_score packet,
      fm_objective_controller_id = sn_objective_controller_id packet,
      fm_objective_contested = sn_objective_contested packet,
      fm_podium_player_ids = sn_podium_player_ids packet,
      fm_podium_masses = sn_podium_masses packet\<rparr>"

text \<open>Both sides of the \<open>memcmp\<close> are cleared before their fields are set.\<close>

definition MetadataMatches :: "ShroomSnapshotFrameMetadata \<Rightarrow> ShroomSnapshotPacket \<Rightarrow> bool" where
  "MetadataMatches metadata packet \<longleftrightarrow> metadata = PacketMetadata packet"

section \<open>Applying the records of a frame\<close>

text \<open>
  The loop over the records of one packet.  Every record is at least as long as its header, so
  the offset grows with each one.
\<close>

function apply_records ::
  "ShroomSnapshotPacket \<Rightarrow> nat \<Rightarrow> u16 \<Rightarrow> ShroomSnapshotPlayerState list \<Rightarrow>
     (u16 \<times> ShroomSnapshotPlayerState list) option" where
  "apply_records packet offset records players =
     (let payload_size = unat (sn_payload_size packet)
      in if payload_size \<le> offset then Some (records, players)
         else if payload_size - offset < record_header_size then None
         else
           case ReadBytes (sn_payload packet) payload_size offset record_header_size of
             None \<Rightarrow> None
           | Some (b, offset') \<Rightarrow>
               let header_size = unat (rh_size (header_of_image b))
               in if header_size < record_header_size \<or>
                     payload_size - (offset' - record_header_size) < header_size
                  then None
                  else
                    case DecodeRecord (drop (offset' - record_header_size) (sn_payload packet))
                           (payload_size - offset' + record_header_size) players of
                      None \<Rightarrow> None
                    | Some players' \<Rightarrow>
                        apply_records packet (offset' + header_size - record_header_size) (records + 1)
                          players')"
  by pat_completeness auto

termination
  by (relation "measure (\<lambda>(packet, offset, _). unat (sn_payload_size packet) - offset)")
    (auto simp: ReadBytes_def split: if_splits)

declare apply_records.simps [simp del]

fun apply_chunks ::
  "ShroomSnapshotPacket list \<Rightarrow> ShroomSnapshotPlayerState list \<Rightarrow> ShroomSnapshotPlayerState list option" where
  "apply_chunks [] players = Some players"
| "apply_chunks (packet # packets) players =
     (case apply_records packet 0 0 players of
        None \<Rightarrow> None
      | Some (records, players') \<Rightarrow>
          if records \<noteq> sn_record_count packet then None else apply_chunks packets players')"

definition ApplyChunks ::
  "ShroomSnapshotAssembly \<Rightarrow> ShroomSnapshotHistory \<Rightarrow> ShroomSnapshotPlayerState list option" where
  "ApplyChunks assembly history =
     (let first = as_chunks assembly ! 0;
          keyframe = sn_flags first AND SHROOM_SNAPSHOT_FLAG_KEYFRAME \<noteq> 0;
          baseline = (if keyframe then None else ShroomSnapshotHistoryFind (Some history) (sn_baseline_tick first))
      in if \<not> keyframe \<and> baseline = None then None
         else
           let start = (if keyframe then [] else case baseline of None \<Rightarrow> [] | Some b \<Rightarrow> fr_players b)
           in case apply_chunks (map ((!) (as_chunks assembly)) [0..<unat (as_chunk_count assembly)]) start of
                None \<Rightarrow> None
              | Some players \<Rightarrow>
                  if length players \<noteq> unat (sn_total_player_count first) then None else Some players)"

section \<open>Receiving a chunk\<close>

definition packet_acceptable :: "ShroomSnapshotPacket \<Rightarrow> nat \<Rightarrow> bool" where
  "packet_acceptable packet packet_size \<longleftrightarrow>
     (let header_size = offset_of ShroomSnapshotPacket_layout 22
      in \<not> (packet_size < header_size \<or> unat (ph_type (sn_header packet)) \<noteq> SHROOM_PACKET_SNAPSHOT \<or>
            unat (ph_size (sn_header packet)) \<noteq> packet_size \<or>
            SHROOM_MAX_SNAPSHOT_PLAYERS < unat (sn_total_player_count packet) \<or>
            sn_chunk_count packet = 0 \<or>
            SHROOM_SNAPSHOT_MAX_CHUNKS < unat (sn_chunk_count packet) \<or>
            sn_chunk_count packet \<le> sn_chunk_index packet \<or>
            SHROOM_SNAPSHOT_PAYLOAD_SIZE < unat (sn_payload_size packet) \<or>
            packet_size \<noteq> header_size + unat (sn_payload_size packet) \<or>
            sn_flags packet AND NOT SHROOM_SNAPSHOT_FLAG_KEYFRAME \<noteq> 0 \<or>
            (sn_flags packet AND SHROOM_SNAPSHOT_FLAG_KEYFRAME \<noteq> 0) \<noteq> (sn_baseline_tick packet = 0)))"

definition start_assembly :: "ShroomSnapshotPacket \<Rightarrow> ShroomSnapshotAssembly" where
  "start_assembly packet =
     \<lparr>as_active = True, as_tick = sn_tick packet, as_baseline_tick = sn_baseline_tick packet,
      as_received_chunks = no_chunks,
      as_chunk_count = sn_chunk_count packet, as_total_player_count = sn_total_player_count packet,
      as_flags = sn_flags packet, as_metadata = PacketMetadata packet,
      as_chunks = replicate SHROOM_SNAPSHOT_MAX_CHUNKS zero_packet\<rparr>"

definition store_chunk :: "ShroomSnapshotAssembly \<Rightarrow> ShroomSnapshotPacket \<Rightarrow> ShroomSnapshotAssembly" where
  "store_chunk assembly packet =
     (let index = unat (sn_chunk_index packet)
      in if \<not> chunk_received (as_received_chunks assembly) index
         then assembly\<lparr>as_chunks := (as_chunks assembly)[index := packet],
                as_received_chunks := mark_chunk (as_received_chunks assembly) index\<rparr>
         else assembly)"

definition ShroomSnapshotAssemblyPush ::
  "ShroomSnapshotAssembly \<Rightarrow> ShroomSnapshotPacket \<Rightarrow> nat \<Rightarrow> ShroomSnapshotHistory \<Rightarrow>
     ShroomSnapshotAssemblyResult \<times> ShroomSnapshotAssembly \<times> ShroomSnapshotHistory" where
  "ShroomSnapshotAssemblyPush assembly packet packet_size history =
     (if \<not> packet_acceptable packet packet_size
      then (SHROOM_SNAPSHOT_ASSEMBLY_REJECTED, assembly, history)
      else if as_active assembly \<and> sn_tick packet \<noteq> as_tick assembly \<and>
              \<not> ShroomSnapshotTickIsNewer (sn_tick packet) (as_tick assembly)
      then (SHROOM_SNAPSHOT_ASSEMBLY_REJECTED, assembly, history)
      else
        let fresh = (\<not> as_active assembly \<or> sn_tick packet \<noteq> as_tick assembly \<and>
                     ShroomSnapshotTickIsNewer (sn_tick packet) (as_tick assembly));
            assembly = (if fresh then start_assembly packet else assembly)
        in if \<not> fresh \<and>
              (sn_chunk_count packet \<noteq> as_chunk_count assembly \<or>
               sn_total_player_count packet \<noteq> as_total_player_count assembly \<or>
               sn_baseline_tick packet \<noteq> as_baseline_tick assembly \<or>
               sn_flags packet \<noteq> as_flags assembly \<or> \<not> MetadataMatches (as_metadata assembly) packet)
           then (SHROOM_SNAPSHOT_ASSEMBLY_REJECTED, assembly, history)
           else
             let assembly = store_chunk assembly packet
             in if \<not> list_all (chunk_received (as_received_chunks assembly))
                       [0..<unat (as_chunk_count assembly)]
                then (SHROOM_SNAPSHOT_ASSEMBLY_PENDING, assembly, history)
                else
                  case ApplyChunks assembly history of
                    None \<Rightarrow> (SHROOM_SNAPSHOT_ASSEMBLY_REJECTED, assembly\<lparr>as_active := False\<rparr>, history)
                  | Some players \<Rightarrow>
                      (SHROOM_SNAPSHOT_ASSEMBLY_COMPLETE (as_metadata assembly) players,
                       assembly\<lparr>as_active := False\<rparr>,
                       case ShroomSnapshotHistoryStore (Some history) (fm_tick (as_metadata assembly))
                              (Some players) of
                         Some h \<Rightarrow> h | None \<Rightarrow> history))"

end
