(* ===== verification/Snapshot_Delta.thy ===== *)
theory Snapshot_Delta
  imports Snapshot_Assembly
begin

text \<open>
  What an encoded frame does to the receiver's baseline: the decoder applied to the chunks of a
  frame computes the frame's changes one by one, and these changes turn any baseline that agrees
  with the sender's baseline into a frame that agrees with the frame sent.
\<close>

section \<open>The decoder on the changes of a frame\<close>

fun apply_change :: "snapshot_change \<Rightarrow> ShroomSnapshotPlayerState list \<Rightarrow> ShroomSnapshotPlayerState list option" where
  "apply_change (Spawn_change p) players =
     (if find_entity players (sp_entity_id p) = None \<and> length players < 1024
      then Some (players @ [p]) else None)"
| "apply_change (Update_change m p) players =
     (case find_entity players (sp_entity_id p) of
        None \<Rightarrow> None | Some i \<Rightarrow> Some (players[i := merge_player m p (players ! i)]))"
| "apply_change (Despawn_change e) players =
     (case find_entity players e of None \<Rightarrow> None | Some i \<Rightarrow> Some (remove_at i players))"

fun apply_changes ::
  "snapshot_change list \<Rightarrow> ShroomSnapshotPlayerState list \<Rightarrow> ShroomSnapshotPlayerState list option" where
  "apply_changes [] players = Some players"
| "apply_changes (c # cs) players =
     (case apply_change c players of None \<Rightarrow> None | Some players \<Rightarrow> apply_changes cs players)"

lemma apply_changes_append:
  "apply_changes (xs @ ys) players =
     (case apply_changes xs players of None \<Rightarrow> None | Some players \<Rightarrow> apply_changes ys players)"
  by (induction xs arbitrary: players) (auto split: option.splits)

lemma change_length:
  "wf_player p \<Longrightarrow> length (change_bytes (Spawn_change p)) = record_size 0x1f"
  "wf_player p \<Longrightarrow> length (change_bytes (Update_change m p)) = record_size m"
  "length (change_bytes (Despawn_change e)) = 8"
  by (simp_all add: EncodeRecord_player EncodeRecord_despawn components_image_length record_size_def)

lemma DecodeRecord_change:
  assumes "change_ok c" and "apply_change c players = Some players'"
    and "length (change_bytes c) \<le> available"
  shows "DecodeRecord (change_bytes c @ rest) available players = Some players'"
proof (cases c)
  case (Spawn_change p)
  with assms have "wf_player p" "find_entity players (sp_entity_id p) = None" "length players < 1024"
    "players' = players @ [p]" by (auto split: if_splits)
  moreover have "record_size 0x1f \<le> available"
    using assms(3) change_length(1) [OF \<open>wf_player p\<close>] Spawn_change by simp
  ultimately show ?thesis using Spawn_change by (simp add: DecodeRecord_spawn del: find_index_None)
next
  case (Update_change m p)
  with assms obtain i where "wf_player p" "m AND NOT 0x1f = 0" "find_entity players (sp_entity_id p) = Some i"
    "players' = players[i := merge_player m p (players ! i)]" by (auto split: option.splits)
  moreover have "record_size m \<le> available"
    using assms(3) change_length(2) [OF \<open>wf_player p\<close>, of m] Update_change by simp
  ultimately show ?thesis using Update_change by (simp add: DecodeRecord_update)
next
  case (Despawn_change e)
  with assms change_length(3) [of e] show ?thesis
    by (auto simp: DecodeRecord_despawn split: option.splits)
qed

lemma change_header_size:
  assumes "change_ok c"
  shows "unat (rh_size (header_of_image (take 8 (change_bytes c @ rest)))) = length (change_bytes c)"
proof (cases c)
  case (Spawn_change p)
  with assms change_length(1) [of p] show ?thesis by (simp add: EncodeRecord_player)
next
  case (Update_change m p)
  with assms change_length(2) [of p m] show ?thesis by (simp add: EncodeRecord_player)
next
  case (Despawn_change e)
  then show ?thesis by (simp add: EncodeRecord_despawn)
qed

lemma apply_records_changes:
  assumes "list_all change_ok cs" and "drop offset (sn_payload packet) = concat (map change_bytes cs)"
    and "unat (sn_payload_size packet) = offset + bytes_of (map change_bytes cs)"
    and "apply_changes cs players = Some players'"
  shows "apply_records packet offset n players = Some (n + word_of_nat (length cs), players')"
  using assms
proof (induction cs arbitrary: offset n players)
  case Nil
  then show ?case by (simp add: apply_records.simps)
next
  case (Cons c cs)
  let ?len = "length (change_bytes c)"
  from Cons.prems(1) have c: "change_ok c" by simp
  note len = length_change_bytes(1) [OF c]
  then have nonempty: "change_bytes c \<noteq> []" by auto
  from Cons.prems(4) obtain players1 where 1: "apply_change c players = Some players1"
    "apply_changes cs players1 = Some players'" by (auto split: option.splits)
  have at: "drop offset (sn_payload packet) = change_bytes c @ concat (map change_bytes cs)"
    using Cons.prems(2) by simp
  have next_at: "drop (offset + ?len) (sn_payload packet) = concat (map change_bytes cs)"
    using at by (rule drop_split) simp
  have "apply_records packet (offset + ?len) (n + 1) players1 =
      Some (n + 1 + word_of_nat (length cs), players')"
    using Cons.prems(1,3) 1(2) next_at by (intro Cons.IH) simp_all
  moreover have "apply_records packet offset n players = apply_records packet (offset + ?len) (n + 1) players1"
    using Cons.prems(3) len change_header_size [OF c, of "concat (map change_bytes cs)"]
      DecodeRecord_change [OF c 1(1), of "?len + bytes_of (map change_bytes cs)" "concat (map change_bytes cs)"]
    by (subst apply_records.simps) (simp add: ReadBytes_def at Let_def nonempty)
  ultimately show ?case by (simp add: algebra_simps)
qed

lemma split_changes:
  "concat rss = map f cs \<Longrightarrow> \<exists>css. concat css = cs \<and> rss = map (map f) css"
proof (induction rss arbitrary: cs)
  case Nil
  then show ?case by (intro exI [of _ "[]"]) simp
next
  case (Cons rs rss)
  then obtain a b where "cs = a @ b" "rs = map f a" "concat rss = map f b"
    by (auto simp: append_eq_map_conv)
  with Cons.IH [of b] obtain css where "concat css = b" "rss = map (map f) css" by auto
  with \<open>cs = a @ b\<close> \<open>rs = map f a\<close> show ?case by (intro exI [of _ "a # css"]) simp
qed

lemma finish_packet_payload [simp]:
  "sn_payload (finish_packet n i p) = sn_payload p"
  "sn_payload_size (finish_packet n i p) = sn_payload_size p"
  "sn_record_count (finish_packet n i p) = sn_record_count p"
  by (simp_all add: finish_packet_def Let_def)

lemma apply_chunks_changes:
  assumes "\<forall>i < length packets. sn_payload (packets ! i) = concat (rss ! i) \<and>
      unat (sn_payload_size (packets ! i)) = bytes_of (rss ! i) \<and>
      sn_record_count (packets ! i) = word_of_nat (length (rss ! i))"
    and "length packets = length rss" and "concat rss = map change_bytes cs" and "list_all change_ok cs"
    and "apply_changes cs players = Some players'"
  shows "apply_chunks packets players = Some players'"
  using assms
proof (induction packets arbitrary: rss cs players)
  case Nil
  then show ?case by simp
next
  case (Cons p packets)
  from Cons.prems(2) obtain rs rss' where rss: "rss = rs # rss'" by (cases rss) auto
  from Cons.prems(3) obtain a b where cs: "cs = a @ b" "rs = map change_bytes a"
    "concat rss' = map change_bytes b" unfolding rss by (auto simp: append_eq_map_conv)
  from Cons.prems(5) obtain mid where mid: "apply_changes a players = Some mid"
    "apply_changes b mid = Some players'" by (auto simp: cs apply_changes_append split: option.splits)
  have "apply_records p 0 0 players = Some (word_of_nat (length a), mid)"
    using apply_records_changes [of a 0 p players mid 0] Cons.prems(1,4) mid(1)
    by (simp add: cs rss) (metis nth_Cons_0 zero_less_Suc)
  moreover have "sn_record_count p = word_of_nat (length a)"
    using Cons.prems(1) by (auto simp: rss cs)
  moreover have "apply_chunks packets mid = Some players'"
    using Cons.prems(1,2,4) mid(2) cs by (intro Cons.IH [of rss' b]) (auto simp: rss)
  ultimately show ?case by simp
qed

section \<open>Frames that agree\<close>

text \<open>
  The abstract content of a frame is the partial map from entity identifiers to players.  A
  receiver's frame agrees with the sender's when both have distinct identifiers, the same
  identifiers, and equal players up to the sign of zeros.
\<close>

definition frame_agrees :: "ShroomSnapshotPlayerState list \<Rightarrow> ShroomSnapshotPlayerState list \<Rightarrow> bool" where
  "frame_agrees sent held \<longleftrightarrow> distinct (map sp_entity_id sent) \<and> distinct (map sp_entity_id held) \<and>
     (\<forall>e. rel_option player_same (find_player sent e) (find_player held e))"

lemma find_entity_None: "find_entity players e = None \<longleftrightarrow> find_player players e = None"
  by (simp add: find_entity_def find_index_lookup_None del: find_index_None)

lemma find_entity_Some: "find_entity players e = Some i \<Longrightarrow> find_player players e = Some (players ! i)"
  by (simp add: find_entity_def find_index_lookup_Some)

lemma player_phase:
  assumes "distinct (map sp_entity_id players)" and "distinct (map sp_entity_id held)"
    and "\<forall>p \<in> set players. rel_option player_same (known (sp_entity_id p)) (find_player held (sp_entity_id p))"
    and "\<forall>e b. known e = Some b \<longrightarrow> sp_entity_id b = e"
    and "length held + count_if (\<lambda>p. known (sp_entity_id p) = None) players \<le> 1024"
  shows "\<exists>held'. apply_changes (player_changes known players) held = Some held' \<and>
    distinct (map sp_entity_id held') \<and>
    (\<forall>e. e \<notin> sp_entity_id ` set players \<longrightarrow> find_player held' e = find_player held e) \<and>
    (\<forall>p \<in> set players. \<exists>q. find_player held' (sp_entity_id p) = Some q \<and> player_same p q)"
  using assms
proof (induction players arbitrary: held)
  case Nil
  then show ?case by (simp add: player_changes_def)
next
  case (Cons p ps)
  have step: "\<exists>held1. apply_changes (player_changes known [p]) held = Some held1 \<and>
      distinct (map sp_entity_id held1) \<and>
      length held1 = length held + (if known (sp_entity_id p) = None then 1 else 0) \<and>
      (\<forall>e. e \<noteq> sp_entity_id p \<longrightarrow> find_player held1 e = find_player held e) \<and>
      (\<exists>q. find_player held1 (sp_entity_id p) = Some q \<and> player_same p q)"
  proof (cases "known (sp_entity_id p)")
    case None
    with Cons.prems(3) have new: "find_player held (sp_entity_id p) = None" by simp
    with None Cons.prems(2,5) show ?thesis
      by (intro exI [of _ "held @ [p]"])
        (auto simp: player_changes_def find_entity_None lookup_by_append distinct_append_key
          simp del: map_append split: option.splits)
  next
    case (Some b)
    with Cons.prems(3) obtain q where q: "find_player held (sp_entity_id p) = Some q" "player_same b q"
      by (auto simp: option_rel_Some1)
    have id: "sp_entity_id p = sp_entity_id b" using Some Cons.prems(4) by simp
    obtain i where i: "find_entity held (sp_entity_id p) = Some i" "held ! i = q"
      using q(1) find_entity_Some [of held "sp_entity_id p"]
      by (cases "find_entity held (sp_entity_id p)") (auto simp: find_entity_None)
    show ?thesis
    proof (cases "ComponentMask p b = 0")
      case True
      with Some Cons.prems(2) q id show ?thesis
        by (intro exI [of _ held]) (auto simp: player_changes_def intro: mask_zero_same)
    next
      case False
      let ?q = "merge_player (ComponentMask p b) p q"
      have qid: "sp_entity_id (held ! i) = sp_entity_id p" using lookup_by_SomeD [OF q(1)] i(2) by simp
      note found = i(1) [unfolded find_entity_def]
      have "player_same p ?q" using q(2) id by (rule merge_mask_same)
      with False Some Cons.prems(2) i show ?thesis
        by (intro exI [of _ "held[i := ?q]"])
          (auto simp: player_changes_def lookup_by_update [OF found] qid
            intro!: distinct_update_key [OF _ found])
    qed
  qed
  then obtain held1 where h1: "apply_changes (player_changes known [p]) held = Some held1"
    "distinct (map sp_entity_id held1)"
    "length held1 = length held + (if known (sp_entity_id p) = None then 1 else 0)"
    "\<forall>e. e \<noteq> sp_entity_id p \<longrightarrow> find_player held1 e = find_player held e"
    "\<exists>q. find_player held1 (sp_entity_id p) = Some q \<and> player_same p q" by blast
  have new: "sp_entity_id p \<notin> sp_entity_id ` set ps" using Cons.prems(1) by simp
  then have "\<forall>p' \<in> set ps. sp_entity_id p' \<noteq> sp_entity_id p" by (metis image_eqI)
  then have "\<exists>held'. apply_changes (player_changes known ps) held1 = Some held' \<and>
    distinct (map sp_entity_id held') \<and>
    (\<forall>e. e \<notin> sp_entity_id ` set ps \<longrightarrow> find_player held' e = find_player held1 e) \<and>
    (\<forall>p \<in> set ps. \<exists>q. find_player held' (sp_entity_id p) = Some q \<and> player_same p q)"
    using Cons.prems h1 by (intro Cons.IH) auto
  then obtain held' where "apply_changes (player_changes known ps) held1 = Some held'"
    "distinct (map sp_entity_id held')"
    "\<forall>e. e \<notin> sp_entity_id ` set ps \<longrightarrow> find_player held' e = find_player held1 e"
    "\<forall>p \<in> set ps. \<exists>q. find_player held' (sp_entity_id p) = Some q \<and> player_same p q" by blast
  moreover have "player_changes known (p # ps) = player_changes known [p] @ player_changes known ps"
    by (simp add: player_changes_def)
  ultimately show ?case using h1 new
    by (intro exI [of _ held']) (auto simp: apply_changes_append)
qed

lemma despawn_phase:
  assumes "distinct (map sp_entity_id olds)" and "distinct (map sp_entity_id held)"
    and "\<forall>b \<in> set olds. find_player players (sp_entity_id b) = None \<longrightarrow> find_player held (sp_entity_id b) \<noteq> None"
  shows "\<exists>held'. apply_changes (despawn_changes players olds) held = Some held' \<and>
    distinct (map sp_entity_id held') \<and>
    (\<forall>e. find_player held' e =
      (if e \<in> sp_entity_id ` set olds \<and> find_player players e = None then None else find_player held e))"
  using assms
proof (induction olds arbitrary: held)
  case Nil
  then show ?case by (simp add: despawn_changes_def)
next
  case (Cons b olds)
  have new: "sp_entity_id b \<notin> sp_entity_id ` set olds" using Cons.prems(1) by simp
  show ?case
  proof (cases "find_player players (sp_entity_id b)")
    case (Some p)
    have "\<exists>held'. apply_changes (despawn_changes players olds) held = Some held' \<and>
      distinct (map sp_entity_id held') \<and>
      (\<forall>e. find_player held' e =
        (if e \<in> sp_entity_id ` set olds \<and> find_player players e = None then None else find_player held e))"
      using Cons.prems by (intro Cons.IH) auto
    with Some show ?thesis by (auto simp: despawn_changes_def)
  next
    case None
    with Cons.prems(3) obtain i where i: "find_entity held (sp_entity_id b) = Some i"
      by (cases "find_entity held (sp_entity_id b)") (auto simp: find_entity_None)
    let ?held = "remove_at i held"
    have found: "find_player ?held e = (if e = sp_entity_id b then None else find_player held e)" for e
      using lookup_by_remove [OF i [unfolded find_entity_def] Cons.prems(2)] by simp
    have "\<forall>b' \<in> set olds. sp_entity_id b' \<noteq> sp_entity_id b" using new by (metis image_eqI)
    then have "\<exists>held'. apply_changes (despawn_changes players olds) ?held = Some held' \<and>
      distinct (map sp_entity_id held') \<and>
      (\<forall>e. find_player held' e =
        (if e \<in> sp_entity_id ` set olds \<and> find_player players e = None then None else find_player ?held e))"
      using Cons.prems found by (intro Cons.IH) (auto simp: distinct_remove_at)
    with None i found show ?thesis by (auto simp: despawn_changes_def)
  qed
qed

lemma frame_changes_agree:
  assumes base: "frame_agrees (baseline_players keyframe baseline) held"
    and players: "distinct (map sp_entity_id players)"
    and room: "length held + count_if (\<lambda>p. find_player (baseline_players keyframe baseline) (sp_entity_id p) = None)
      players \<le> 1024"
  shows "\<exists>held'. apply_changes (frame_changes keyframe baseline players) held = Some held' \<and>
    frame_agrees players held'"
proof -
  let ?base = "baseline_players keyframe baseline"
  have agree: "rel_option player_same (find_player ?base e) (find_player held e)" for e
    using base by (simp add: frame_agrees_def)
  obtain mid where mid: "apply_changes (player_changes (find_player ?base) players) held = Some mid"
    "distinct (map sp_entity_id mid)"
    "\<forall>e. e \<notin> sp_entity_id ` set players \<longrightarrow> find_player mid e = find_player held e"
    "\<forall>p \<in> set players. \<exists>q. find_player mid (sp_entity_id p) = Some q \<and> player_same p q"
    using player_phase [OF players _ _ _ room] agree base lookup_by_SomeD [of sp_entity_id ?base]
    by (auto simp: frame_agrees_def)
  have "find_player mid (sp_entity_id b) \<noteq> None"
    if "b \<in> set ?base" "find_player players (sp_entity_id b) = None" for b
  proof -
    have "find_player mid (sp_entity_id b) = find_player held (sp_entity_id b)"
      using mid(3) that(2) by (simp add: lookup_by_None)
    moreover have "find_player ?base (sp_entity_id b) \<noteq> None" using that(1) by (auto simp: lookup_by_None)
    ultimately show ?thesis using agree [of "sp_entity_id b"] by (auto simp: option_rel_Some1)
  qed
  then obtain held' where held': "apply_changes (despawn_changes players ?base) mid = Some held'"
    "distinct (map sp_entity_id held')"
    "\<forall>e. find_player held' e =
      (if e \<in> sp_entity_id ` set ?base \<and> find_player players e = None then None else find_player mid e)"
    using despawn_phase [OF _ mid(2), of ?base players] base by (auto simp: frame_agrees_def)
  have "rel_option player_same (find_player players e) (find_player held' e)" for e
  proof (cases "find_player players e")
    case None
    have "find_player held' e = None"
    proof (cases "e \<in> sp_entity_id ` set ?base")
      case True
      with None held'(3) show ?thesis by simp
    next
      case False
      with agree [of e] have "find_player held e = None" by (simp add: lookup_by_None [symmetric])
      with False None held'(3) mid(3) show ?thesis by (simp add: lookup_by_None)
    qed
    with None show ?thesis by simp
  next
    case (Some p)
    then have "p \<in> set players" "sp_entity_id p = e" by (auto dest: lookup_by_SomeD)
    with mid(4) held'(3) Some show ?thesis by auto
  qed
  with mid(1) held'(1,2) players show ?thesis
    by (auto simp: frame_changes_def apply_changes_append frame_agrees_def)
qed

lemma frame_agrees_length: "frame_agrees sent held \<Longrightarrow> length held = length sent"
proof -
  assume a: "frame_agrees sent held"
  have "length sent = length held"
  proof (rule lookup_by_same_length [of sp_entity_id])
    show "find_player sent k = None \<longleftrightarrow> find_player held k = None" for k
      using a by (auto simp: frame_agrees_def dest: spec [of _ k] split: option.splits)
  qed (use a in \<open>simp_all add: frame_agrees_def\<close>)
  then show ?thesis by simp
qed

end
