(* ===== verification/Snapshot_Delivery.thy ===== *)
theory Snapshot_Delivery
  imports Snapshot_Delta
begin

text \<open>
  End-to-end delivery of a snapshot frame: the chunks the server encodes, received in any order
  with duplicates, complete exactly with the last missing chunk, and the frame completed agrees
  with the frame sent.
\<close>

section \<open>The chunks of one frame at the receiver\<close>

text \<open>What the chunks of one frame have in common, and what they differ in.\<close>

definition frame_stream ::
  "ShroomSnapshotFrameMetadata \<Rightarrow> u64 \<Rightarrow> u16 \<Rightarrow> u8 \<Rightarrow> ShroomSnapshotPacket list \<Rightarrow> bool" where
  "frame_stream md tick all_players fl packets \<longleftrightarrow> 0 < length packets \<and> length packets \<le> 128 \<and>
     (\<forall>i < length packets. let p = packets ! i in
        packet_acceptable p (packet_wire_size p) \<and> PacketMetadata p = md \<and> sn_baseline_tick p = tick \<and>
        sn_total_player_count p = all_players \<and> sn_flags p = fl \<and> unat (sn_chunk_index p) = i \<and>
        unat (sn_chunk_count p) = length packets)"

lemma frame_streamD:
  assumes "frame_stream md tick all_players fl packets" and "i < length packets"
  shows "packet_acceptable (packets ! i) (packet_wire_size (packets ! i))"
    and "PacketMetadata (packets ! i) = md" and "sn_tick (packets ! i) = fm_tick md"
    and "sn_baseline_tick (packets ! i) = tick"
    and "sn_total_player_count (packets ! i) = all_players" and "sn_flags (packets ! i) = fl"
    and "unat (sn_chunk_index (packets ! i)) = i"
    and "sn_chunk_count (packets ! i) = word_of_nat (length packets)"
proof -
  have p: "packet_acceptable (packets ! i) (packet_wire_size (packets ! i))"
    "PacketMetadata (packets ! i) = md" "sn_baseline_tick (packets ! i) = tick"
    "sn_total_player_count (packets ! i) = all_players" "sn_flags (packets ! i) = fl"
    "unat (sn_chunk_index (packets ! i)) = i" "unat (sn_chunk_count (packets ! i)) = length packets"
    using assms by (simp_all add: frame_stream_def Let_def)
  then show "packet_acceptable (packets ! i) (packet_wire_size (packets ! i))"
    "PacketMetadata (packets ! i) = md" "sn_baseline_tick (packets ! i) = tick"
    "sn_total_player_count (packets ! i) = all_players" "sn_flags (packets ! i) = fl"
    "unat (sn_chunk_index (packets ! i)) = i" by simp_all
  from p(2) show "sn_tick (packets ! i) = fm_tick md" by (auto simp: PacketMetadata_def)
  from p(7) show "sn_chunk_count (packets ! i) = word_of_nat (length packets)"
    by (simp flip: p(7))
qed

text \<open>The assembly holds the chunks with indices in \<open>I\<close> of the stream.\<close>

definition holds_chunks ::
  "ShroomSnapshotFrameMetadata \<Rightarrow> u64 \<Rightarrow> u16 \<Rightarrow> u8 \<Rightarrow> ShroomSnapshotPacket list \<Rightarrow> nat set \<Rightarrow>
     ShroomSnapshotAssembly \<Rightarrow> bool" where
  "holds_chunks md tick all_players fl packets I a \<longleftrightarrow>
     as_active a \<and> as_tick a = fm_tick md \<and> as_baseline_tick a = tick \<and>
     as_chunk_count a = word_of_nat (length packets) \<and> as_total_player_count a = all_players \<and>
     as_flags a = fl \<and> as_metadata a = md \<and> length (as_chunks a) = 128 \<and>
     I \<subseteq> {..<length packets} \<and> receipts.holds (as_received_chunks a) I \<and>
     (\<forall>i \<in> I. as_chunks a ! i = packets ! i)"

lemma store_chunk_holds:
  assumes stream: "frame_stream md tick all_players fl packets" and i: "i < length packets"
    and a: "holds_chunks md tick all_players fl packets I a"
  shows "holds_chunks md tick all_players fl packets (insert i I) (store_chunk a (packets ! i))"
proof -
  have i128: "i < 128" using stream i by (simp add: frame_stream_def)
  note idx = frame_streamD(7) [OF stream i]
  have r: "receipts.holds (as_received_chunks a) I" using a by (simp add: holds_chunks_def)
  show ?thesis
  proof (cases "chunk_received (as_received_chunks a) i")
    case True
    then have "i \<in> I" using receipts.holds_got [OF r i128] by simp
    with a True idx show ?thesis by (simp add: store_chunk_def insert_absorb)
  next
    case False
    with a i i128 idx receipts.holds_mark [OF r i128] show ?thesis
      by (auto simp: store_chunk_def holds_chunks_def nth_list_update)
  qed
qed

lemma start_assembly_holds:
  assumes stream: "frame_stream md tick all_players fl packets" and i: "i < length packets"
  shows "holds_chunks md tick all_players fl packets {} (start_assembly (packets ! i))"
  using frame_streamD [OF stream i] receipts.holds_none
  by (simp add: holds_chunks_def start_assembly_def SHROOM_SNAPSHOT_MAX_CHUNKS_def)

text \<open>What completing the frame yields, given all its chunks.\<close>

definition completed_frame ::
  "ShroomSnapshotPacket list \<Rightarrow> ShroomSnapshotHistory \<Rightarrow> ShroomSnapshotPlayerState list option" where
  "completed_frame packets history =
     ApplyChunks ((start_assembly (packets ! 0))\<lparr>as_chunks := packets\<rparr>) history"

lemma ApplyChunks_holds:
  assumes stream: "frame_stream md tick all_players fl packets"
    and a: "holds_chunks md tick all_players fl packets {..<length packets} a"
  shows "ApplyChunks a history = completed_frame packets history"
proof -
  have n: "0 < length packets" "length packets \<le> 128" using stream by (auto simp: frame_stream_def)
  then have u: "unat (word_of_nat (length packets) :: u16) = length packets" by (simp add: unat_of_nat)
  have "map ((!) (as_chunks a)) [0..<length packets] = packets"
    using a by (intro nth_equalityI) (auto simp: holds_chunks_def)
  moreover have "as_chunks a ! 0 = packets ! 0" using a n by (simp add: holds_chunks_def)
  moreover have "as_chunk_count a = word_of_nat (length packets)" using a by (simp add: holds_chunks_def)
  ultimately show ?thesis
    using frame_streamD(8) [OF stream n(1)] u
    by (auto simp: completed_frame_def ApplyChunks_def start_assembly_def Let_def map_nth)
qed

definition push_outcome ::
  "ShroomSnapshotFrameMetadata \<Rightarrow> ShroomSnapshotPacket list \<Rightarrow> nat set \<Rightarrow> ShroomSnapshotHistory \<Rightarrow>
     ShroomSnapshotAssemblyResult \<Rightarrow> ShroomSnapshotHistory \<Rightarrow> bool" where
  "push_outcome md packets I history result history' \<longleftrightarrow>
     (if I \<noteq> {..<length packets} then result = SHROOM_SNAPSHOT_ASSEMBLY_PENDING \<and> history' = history
      else case completed_frame packets history of
             None \<Rightarrow> result = SHROOM_SNAPSHOT_ASSEMBLY_REJECTED \<and> history' = history
           | Some players \<Rightarrow> result = SHROOM_SNAPSHOT_ASSEMBLY_COMPLETE md players \<and>
               Some history' = ShroomSnapshotHistoryStore (Some history) (fm_tick md) (Some players))"

text \<open>A receiver that will start over on the first chunk of a frame with this tick.\<close>

definition ready_for :: "ShroomSnapshotAssembly \<Rightarrow> u64 \<Rightarrow> bool" where
  "ready_for a tick \<longleftrightarrow> \<not> as_active a \<or> ShroomSnapshotTickIsNewer tick (as_tick a)"

lemma push_chunk:
  assumes stream: "frame_stream md tick all_players fl packets" and i: "i < length packets"
    and a: "holds_chunks md tick all_players fl packets I a \<or> I = {} \<and> ready_for a (fm_tick md)"
  obtains result a' history' where
    "ShroomSnapshotAssemblyPush a (packets ! i) (packet_wire_size (packets ! i)) history =
       (result, a', history')"
    "push_outcome md packets (insert i I) history result history'"
    "insert i I \<noteq> {..<length packets} \<Longrightarrow> holds_chunks md tick all_players fl packets (insert i I) a'"
    "insert i I = {..<length packets} \<Longrightarrow> \<not> as_active a'"
proof -
  let ?p = "packets ! i"
  note p = frame_streamD [OF stream i]
  define a0 where "a0 = (if \<not> as_active a \<or> sn_tick ?p \<noteq> as_tick a \<and>
      ShroomSnapshotTickIsNewer (sn_tick ?p) (as_tick a) then start_assembly ?p else a)"
  have a0: "holds_chunks md tick all_players fl packets I a0"
  proof (cases "holds_chunks md tick all_players fl packets I a")
    case True
    then have "a0 = a" using p(3) by (simp add: a0_def holds_chunks_def)
    with True show ?thesis by simp
  next
    case False
    with a have "I = {}" "ready_for a (fm_tick md)" by auto
    then have "a0 = start_assembly ?p"
      using p(3) tick_order.irrefl by (auto simp: a0_def ready_for_def)
    with start_assembly_holds [OF stream i] \<open>I = {}\<close> show ?thesis by simp
  qed
  define a1 where "a1 = store_chunk a0 ?p"
  have a1: "holds_chunks md tick all_players fl packets (insert i I) a1"
    unfolding a1_def by (rule store_chunk_holds [OF stream i a0])
  have u: "unat (as_chunk_count a1) = length packets"
    using a1 stream by (simp add: holds_chunks_def frame_stream_def unat_of_nat)
  have complete: "list_all (chunk_received (as_received_chunks a1)) [0..<length packets] \<longleftrightarrow>
      insert i I = {..<length packets}"
    using a1 stream by (intro receipts.complete_iff) (auto simp: holds_chunks_def frame_stream_def)
  have stale: "(as_active a \<and> sn_tick ?p \<noteq> as_tick a \<and>
      \<not> ShroomSnapshotTickIsNewer (sn_tick ?p) (as_tick a)) = False"
    using a p(3) by (auto simp: ready_for_def holds_chunks_def)
  have same: "(sn_chunk_count ?p \<noteq> as_chunk_count a0 \<or> sn_total_player_count ?p \<noteq> as_total_player_count a0 \<or>
      sn_baseline_tick ?p \<noteq> as_baseline_tick a0 \<or> sn_flags ?p \<noteq> as_flags a0 \<or>
      \<not> MetadataMatches (as_metadata a0) ?p) = False"
    using a0 p by (simp add: holds_chunks_def MetadataMatches_def)
  have push: "ShroomSnapshotAssemblyPush a ?p (packet_wire_size ?p) history =
     (if insert i I \<noteq> {..<length packets} then (SHROOM_SNAPSHOT_ASSEMBLY_PENDING, a1, history)
      else case ApplyChunks a1 history of
             None \<Rightarrow> (SHROOM_SNAPSHOT_ASSEMBLY_REJECTED, a1\<lparr>as_active := False\<rparr>, history)
           | Some players \<Rightarrow> (SHROOM_SNAPSHOT_ASSEMBLY_COMPLETE (as_metadata a1) players,
               a1\<lparr>as_active := False\<rparr>,
               case ShroomSnapshotHistoryStore (Some history) (fm_tick (as_metadata a1)) (Some players) of
                 Some h \<Rightarrow> h | None \<Rightarrow> history))"
    unfolding ShroomSnapshotAssemblyPush_def Let_def a0_def [symmetric] a1_def [symmetric] u complete
      stale same
    using p(1) by simp
  have "as_metadata a1 = md" using a1 by (simp add: holds_chunks_def)
  moreover have "ApplyChunks a1 history = completed_frame packets history" if "insert i I = {..<length packets}"
    using ApplyChunks_holds [OF stream] a1 that by simp
  ultimately show thesis
    using a1 push
    by (cases "completed_frame packets history"; cases "insert i I = {..<length packets}")
      (force intro: that simp: push_outcome_def ShroomSnapshotHistoryStore_def split: if_splits)+
qed

section \<open>Any order of arrival\<close>

fun push_all ::
  "ShroomSnapshotAssembly \<Rightarrow> ShroomSnapshotHistory \<Rightarrow> ShroomSnapshotPacket list \<Rightarrow>
     ShroomSnapshotAssemblyResult list \<times> ShroomSnapshotAssembly \<times> ShroomSnapshotHistory" where
  "push_all a history [] = ([], a, history)"
| "push_all a history (p # ps) =
     (case ShroomSnapshotAssemblyPush a p (packet_wire_size p) history of
        (result, a, history) \<Rightarrow>
          (case push_all a history ps of (results, a, history) \<Rightarrow> (result # results, a, history)))"

lemma push_all_append:
  "push_all a history (ps @ qs) =
     (case push_all a history ps of (rs, a, history) \<Rightarrow>
        (case push_all a history qs of (rs', a, history) \<Rightarrow> (rs @ rs', a, history)))"
  by (induction ps arbitrary: a history) (auto split: prod.splits)

lemma push_incomplete:
  assumes stream: "frame_stream md tick all_players fl packets"
    and "set arrived \<subseteq> {..<length packets}" and "k < length packets" and "k \<notin> I \<union> set arrived"
    and "holds_chunks md tick all_players fl packets I a \<or> I = {} \<and> ready_for a (fm_tick md)"
  shows "\<exists>a'. push_all a history (map ((!) packets) arrived) =
      (replicate (length arrived) SHROOM_SNAPSHOT_ASSEMBLY_PENDING, a', history) \<and>
    (holds_chunks md tick all_players fl packets (I \<union> set arrived) a' \<or>
     I \<union> set arrived = {} \<and> ready_for a' (fm_tick md))"
  using assms(2-)
proof (induction arrived arbitrary: I a)
  case Nil
  then show ?case by simp
next
  case (Cons i arrived)
  from Cons.prems(1) have i: "i < length packets" by simp
  have some_missing: "insert i I \<noteq> {..<length packets}" using Cons.prems(2,3) by auto
  obtain result a' history' where push:
    "ShroomSnapshotAssemblyPush a (packets ! i) (packet_wire_size (packets ! i)) history = (result, a', history')"
    "push_outcome md packets (insert i I) history result history'"
    "holds_chunks md tick all_players fl packets (insert i I) a'"
    using push_chunk [OF stream i Cons.prems(4)] some_missing by metis
  then have "result = SHROOM_SNAPSHOT_ASSEMBLY_PENDING" "history' = history"
    using some_missing by (simp_all add: push_outcome_def)
  with Cons.IH [of "insert i I" a'] Cons.prems(1-3) push show ?case by auto
qed

lemma push_complete:
  assumes stream: "frame_stream md tick all_players fl packets"
    and "set (front @ [k]) = {..<length packets}" and "k \<notin> set front"
    and "ready_for a (fm_tick md)" and "completed_frame packets history = Some players"
  shows "\<exists>a' history'. push_all a history (map ((!) packets) (front @ [k])) =
      (replicate (length front) SHROOM_SNAPSHOT_ASSEMBLY_PENDING @
         [SHROOM_SNAPSHOT_ASSEMBLY_COMPLETE md players], a', history') \<and> \<not> as_active a' \<and>
    Some history' = ShroomSnapshotHistoryStore (Some history) (fm_tick md) (Some players)"
proof -
  have k: "k < length packets" and front: "set front \<subseteq> {..<length packets}" using assms(2) by auto
  obtain a1 where 1: "push_all a history (map ((!) packets) front) =
      (replicate (length front) SHROOM_SNAPSHOT_ASSEMBLY_PENDING, a1, history)"
    "holds_chunks md tick all_players fl packets (set front) a1 \<or>
     set front = {} \<and> ready_for a1 (fm_tick md)"
    using push_incomplete [OF stream front k, of "{}" a history] assms(3,4) by auto
  obtain result a' history' where push:
    "ShroomSnapshotAssemblyPush a1 (packets ! k) (packet_wire_size (packets ! k)) history = (result, a', history')"
    "push_outcome md packets (insert k (set front)) history result history'" "\<not> as_active a'"
    using push_chunk [OF stream k 1(2)] assms(2) by (metis insert_is_Un list.simps(15) set_append Un_commute list.set(1))
  moreover have "insert k (set front) = {..<length packets}" using assms(2) by auto
  ultimately show ?thesis using 1(1) assms(5) by (auto simp: push_outcome_def push_all_append)
qed

section \<open>The chunks of an encoded frame\<close>

lemma chunk_of_fields:
  "sn_tick (chunk_of p rs) = sn_tick p" "sn_baseline_tick (chunk_of p rs) = sn_baseline_tick p"
  "sn_total_player_count (chunk_of p rs) = sn_total_player_count p" "sn_flags (chunk_of p rs) = sn_flags p"
  "PacketMetadata (chunk_of p rs) = PacketMetadata p"
  by (induction rs arbitrary: p) (simp_all add: put_record_def PacketMetadata_def)

lemma finish_packet_fields:
  "sn_tick (finish_packet n i p) = sn_tick p" "sn_baseline_tick (finish_packet n i p) = sn_baseline_tick p"
  "sn_total_player_count (finish_packet n i p) = sn_total_player_count p"
  "sn_flags (finish_packet n i p) = sn_flags p" "PacketMetadata (finish_packet n i p) = PacketMetadata p"
  "sn_chunk_index (finish_packet n i p) = word_of_nat i" "sn_chunk_count (finish_packet n i p) = word_of_nat n"
  "packet_wire_size (finish_packet n i p) = packet_wire_size p"
  "sn_header (finish_packet n i p) =
     \<lparr>ph_type = 4, ph_reserved = ShroomPacketTypeToChannel 4, ph_size = word_of_nat (packet_wire_size p)\<rparr>"
  by (simp_all add: finish_packet_def PacketMetadata_def ShroomPacketHeaderInit_def packet_wire_size_def)

lemma InitPacket_fields:
  "PacketMetadata (InitPacket md tick n keyframe) = md" "sn_baseline_tick (InitPacket md tick n keyframe) = tick"
  "sn_total_player_count (InitPacket md tick n keyframe) = n"
  "sn_flags (InitPacket md tick n keyframe) = (if keyframe then 1 else 0)"
  by (simp_all add: InitPacket_def PacketMetadata_def)

lemma frame_chunks_stream:
  assumes "0 < length rss" and "length rss \<le> 128" and "n \<le> 1024"
    and small: "\<forall>rs \<in> set rss. bytes_of rs \<le> 1100" and "keyframe \<longleftrightarrow> tick = 0"
  shows "frame_stream md tick (word_of_nat n) (if keyframe then 1 else 0)
    (map (frame_chunk md tick n keyframe rss) [0..<length rss])"
proof -
  have chunk: "packet_acceptable p (packet_wire_size p) \<and> PacketMetadata p = md \<and> sn_baseline_tick p = tick \<and>
      sn_total_player_count p = word_of_nat n \<and> sn_flags p = (if keyframe then 1 else 0) \<and>
      unat (sn_chunk_index p) = i \<and> unat (sn_chunk_count p) = length rss"
    if i: "i < length rss" and p: "p = frame_chunk md tick n keyframe rss i" for i p
  proof -
    have sz: "unat (sn_payload_size p) = bytes_of (rss ! i)" "bytes_of (rss ! i) \<le> 1100"
      using small i by (simp_all add: p frame_chunk_def chunk_fields)
    have counts: "unat (word_of_nat (length rss) :: u16) = length rss" "unat (word_of_nat i :: u16) = i"
      "unat (word_of_nat n :: u16) = n" using assms(2,3) i by (simp_all add: unat_of_nat)
    have wire: "unat (92 + word_of_nat (bytes_of (rss ! i)) :: u16) = 92 + bytes_of (rss ! i)"
    proof -
      have "92 + word_of_nat (bytes_of (rss ! i)) = (word_of_nat (92 + bytes_of (rss ! i)) :: u16)" by simp
      then show ?thesis using sz(2) by (simp only: unat_of_nat) simp
    qed
    have hdr: "sn_header p = \<lparr>ph_type = 4, ph_reserved = ShroomPacketTypeToChannel 4,
        ph_size = 92 + word_of_nat (bytes_of (rss ! i))\<rparr>"
      using sz by (simp add: p frame_chunk_def finish_packet_fields packet_wire_size_def size_simps)
    have fields: "PacketMetadata p = md" "sn_baseline_tick p = tick" "sn_total_player_count p = word_of_nat n"
      "sn_flags p = (if keyframe then 1 else 0)" "sn_chunk_index p = word_of_nat i"
      "sn_chunk_count p = word_of_nat (length rss)"
      by (simp_all add: p frame_chunk_def finish_packet_fields chunk_of_fields InitPacket_fields)
    have size: "packet_wire_size p = 92 + bytes_of (rss ! i)"
      using sz by (simp add: packet_wire_size_def size_simps)
    have nonzero: "sn_chunk_count p \<noteq> 0"
      using counts(1) assms(1) unfolding fields by (metis less_not_refl2 unsigned_0)
    have order: "\<not> sn_chunk_count p \<le> sn_chunk_index p"
      using i unfolding fields word_le_nat_alt counts by simp
    have flags: "sn_flags p AND NOT 1 = 0" "(sn_flags p AND 1 \<noteq> 0) = (sn_baseline_tick p = 0)"
      using assms(5) unfolding fields by simp_all
    have vals: "unat (sn_total_player_count p) = n" "unat (sn_chunk_count p) = length rss"
      "unat (sn_payload_size p) = bytes_of (rss ! i)"
      "unat (92 + word_of_nat (bytes_of (rss ! i)) :: u16) = 92 + bytes_of (rss ! i)"
      using counts sz(1) wire unfolding fields by iprover+
    have "packet_acceptable p (packet_wire_size p)"
      unfolding packet_acceptable_def Let_def size hdr size_simps SHROOM_MAX_SNAPSHOT_PLAYERS_def
        SHROOM_SNAPSHOT_MAX_CHUNKS_def SHROOM_SNAPSHOT_PAYLOAD_SIZE_def
        vals ShroomPacketHeader.select_convs de_Morgan_disj not_not
      using sz(2) assms(2,3)
      by (intro conjI nonzero order flags) simp_all
    with fields counts show ?thesis by simp
  qed
  from assms(1,2) chunk [OF _ refl] show ?thesis by (simp add: frame_stream_def Let_def)
qed

section \<open>Delivery of a frame\<close>

text \<open>What the receiver starts from: nothing for a keyframe, else its frame of the baseline's tick.\<close>

definition held_baseline ::
  "bool \<Rightarrow> ShroomSnapshotFrame option \<Rightarrow> ShroomSnapshotHistory \<Rightarrow> ShroomSnapshotPlayerState list option" where
  "held_baseline keyframe baseline history =
     (if keyframe then Some []
      else case baseline of None \<Rightarrow> None
           | Some b \<Rightarrow> map_option fr_players (ShroomSnapshotHistoryFind (Some history) (fr_tick b)))"

lemma history_find_nonzero: "ShroomSnapshotHistoryFind h tick = Some f \<Longrightarrow> tick \<noteq> 0"
  by (auto simp: ShroomSnapshotHistoryFind_def split: option.splits)

lemma completed_frame_encoded:
  fixes md n keyframe baseline rss
  defines "packets \<equiv> map (frame_chunk md (baseline_tick_of keyframe baseline) n keyframe rss) [0..<length rss]"
  assumes rss: "0 < length rss" "length rss \<le> 128" "\<forall>rs \<in> set rss. bytes_of rs \<le> 1100"
      "concat rss = map change_bytes changes" "list_all change_ok changes"
    and held: "held_baseline keyframe baseline history = Some held"
    and "apply_changes changes held = Some received" and "length received = n" and "n \<le> 1024"
  shows "completed_frame packets history = Some received"
proof -
  have pay: "sn_payload (packets ! i) = concat (rss ! i)" "unat (sn_payload_size (packets ! i)) = bytes_of (rss ! i)"
    "sn_record_count (packets ! i) = word_of_nat (length (rss ! i))" if "i < length rss" for i
    using that rss(3) by (simp_all add: packets_def frame_chunk_def chunk_fields)
  have chunks: "apply_chunks packets held = Some received"
    using pay rss assms(8) by (intro apply_chunks_changes [of packets rss changes]) (simp_all add: packets_def)
  have first: "sn_flags (packets ! 0) = (if keyframe then 1 else 0)"
    "sn_baseline_tick (packets ! 0) = baseline_tick_of keyframe baseline"
    "sn_total_player_count (packets ! 0) = word_of_nat n"
    "sn_chunk_count (packets ! 0) = word_of_nat (length rss)"
    using rss(1) by (simp_all add: packets_def frame_chunk_def finish_packet_fields chunk_of_fields InitPacket_fields)
  have counts: "unat (word_of_nat n :: u16) = n" "unat (word_of_nat (length rss) :: u16) = length rss"
    using assms(10) rss(2) by (simp_all add: unat_of_nat)
  have all: "map ((!) packets) [0..<length rss] = packets"
    using map_nth [of packets] by (simp add: packets_def)
  have start: "as_chunks ((start_assembly (packets ! 0))\<lparr>as_chunks := packets\<rparr>) = packets"
    "as_chunk_count ((start_assembly (packets ! 0))\<lparr>as_chunks := packets\<rparr>) = word_of_nat (length rss)"
    using first(4) by (simp_all add: start_assembly_def)
  show ?thesis
  proof (cases keyframe)
    case True
    with held have "held = []" by (simp add: held_baseline_def)
    with True chunks assms(9) show ?thesis
      unfolding completed_frame_def ApplyChunks_def Let_def start first counts all by simp
  next
    case False
    with held obtain b f where b: "baseline = Some b" "fr_players f = held"
      "ShroomSnapshotHistoryFind (Some history) (fr_tick b) = Some f"
      by (auto simp: held_baseline_def split: option.splits)
    with False have "baseline_tick_of keyframe baseline = fr_tick b" by (simp add: baseline_tick_of_def)
    with False b chunks assms(9) show ?thesis
      unfolding completed_frame_def ApplyChunks_def Let_def start first counts all by simp
  qed
qed

lemma history_store_find:
  assumes "length (hi_frames history) = 4" and "tick \<noteq> 0" and "length players \<le> 1024"
    and "ShroomSnapshotHistoryFind (Some history) tick = None"
    and "Some history' = ShroomSnapshotHistoryStore (Some history) tick (Some players)"
  shows "ShroomSnapshotHistoryFind (Some history') tick = Some \<lparr>fr_tick = tick, fr_players = players\<rparr>"
proof -
  let ?frame = "\<lparr>fr_tick = tick, fr_players = players\<rparr>" and ?slot = "unat (hi_next history) mod 4"
  have h': "hi_frames history' = (hi_frames history)[?slot := ?frame]"
    using assms(2,3,5) by (simp add: ShroomSnapshotHistoryStore_def SHROOM_MAX_SNAPSHOT_PLAYERS_def
        SHROOM_SNAPSHOT_HISTORY_SIZE_def)
  have absent: "\<forall>f \<in> set (hi_frames history). fr_tick f \<noteq> tick"
    using assms(1,2,4) by (auto simp: ShroomSnapshotHistoryFind_def SHROOM_SNAPSHOT_HISTORY_SIZE_def
        split: option.splits)
  have "?frame \<in> set (hi_frames history')" using assms(1) by (simp add: h' set_update_memI)
  then obtain i where i: "find_index (\<lambda>f. fr_tick f = tick) (hi_frames history') = Some i"
    by (cases "find_index (\<lambda>f. fr_tick f = tick) (hi_frames history')") auto
  then have "i < length (hi_frames history')" "fr_tick (hi_frames history' ! i) = tick"
    by (auto dest: find_index_SomeD)
  then have "hi_frames history' ! i = ?frame"
    using absent assms(1) by (auto simp: h' nth_list_update split: if_splits)
  moreover have "take 4 (hi_frames history') = hi_frames history'" using assms(1) by (simp add: h')
  ultimately show ?thesis
    using i assms(2) by (simp add: ShroomSnapshotHistoryFind_def SHROOM_SNAPSHOT_HISTORY_SIZE_def)
qed

text \<open>C1. A frame that the server encodes is delivered: whenever the client's frame of the baseline's
  tick agrees with the server's baseline (or the frame is a keyframe), the chunks received in any
  order and with any repetition before the last missing one are all pending, the last one
  completes the frame with the sent metadata, the completed players agree with the players sent
  (same identifiers, every field equal up to the sign of a zero), and the client's history then
  holds them under the frame's tick, ready to be a baseline.\<close>

theorem snapshot_frame_delivered:
  assumes encoded: "ShroomSnapshotEncodeFrame md players baseline keyframe = Some encoded"
    and wf: "list_all wf_player players" and distinct: "distinct (map sp_entity_id players)"
    and held: "held_baseline keyframe baseline history = Some held"
    and agrees: "frame_agrees (baseline_players keyframe baseline) held"
    and room: "length held + count_if (\<lambda>p. find_player (baseline_players keyframe baseline) (sp_entity_id p) = None)
      players \<le> 1024"
    and tick: "fm_tick md \<noteq> 0" "ShroomSnapshotHistoryFind (Some history) (fm_tick md) = None"
      "length (hi_frames history) = 4" "ready_for assembly (fm_tick md)"
    and arrivals: "set (front @ [k]) = {..<length (ef_packets encoded)}" "k \<notin> set front"
  shows "\<exists>assembly' history' received.
    push_all assembly history (map ((!) (ef_packets encoded)) (front @ [k])) =
      (replicate (length front) SHROOM_SNAPSHOT_ASSEMBLY_PENDING @
         [SHROOM_SNAPSHOT_ASSEMBLY_COMPLETE md received], assembly', history') \<and>
    frame_agrees players received \<and> \<not> as_active assembly' \<and>
    ShroomSnapshotHistoryFind (Some history') (fm_tick md) =
      Some \<lparr>fr_tick = fm_tick md, fr_players = received\<rparr>"
proof -
  let ?changes = "frame_changes keyframe baseline players"
  let ?tick = "baseline_tick_of keyframe baseline"
  have base: "keyframe \<or> baseline \<noteq> None" and n: "length players \<le> 1024"
    using encoded by (auto simp: ShroomSnapshotEncodeFrame_def SHROOM_MAX_SNAPSHOT_PLAYERS_def split: if_splits)
  have nb: "length (baseline_players keyframe baseline) \<le> 1024"
    using frame_agrees_length [OF agrees] room by simp
  obtain rss where rss: "ef_packets encoded = map (frame_chunk md ?tick (length players) keyframe rss) [0..<length rss]"
    "concat rss = map change_bytes ?changes" "\<forall>rs \<in> set rss. bytes_of rs \<le> 1100" "0 < length rss" "length rss \<le> 82"
    using EncodeFrame_chunks [OF wf n base nb, of md] encoded by (metis option.sel)
  have nonzero: "keyframe \<longleftrightarrow> ?tick = 0"
    using held base by (auto simp: held_baseline_def baseline_tick_of_def dest: history_find_nonzero split: option.splits)
  have stream: "frame_stream md ?tick (word_of_nat (length players)) (if keyframe then 1 else 0) (ef_packets encoded)"
    unfolding rss(1) using rss(3-5) n nonzero by (intro frame_chunks_stream) simp_all
  obtain received where received: "apply_changes ?changes held = Some received" "frame_agrees players received"
    using frame_changes_agree [OF agrees distinct room] by blast
  have "completed_frame (ef_packets encoded) history = Some received"
    unfolding rss(1) using rss(2-5) wf held received n
    by (intro completed_frame_encoded [where changes = ?changes]) (simp_all add: frame_changes_ok frame_agrees_length)
  from push_complete [OF stream arrivals tick(4) this] obtain assembly' history' where pushed:
    "push_all assembly history (map ((!) (ef_packets encoded)) (front @ [k])) =
      (replicate (length front) SHROOM_SNAPSHOT_ASSEMBLY_PENDING @
         [SHROOM_SNAPSHOT_ASSEMBLY_COMPLETE md received], assembly', history')" "\<not> as_active assembly'"
    "Some history' = ShroomSnapshotHistoryStore (Some history) (fm_tick md) (Some received)" by blast
  have "ShroomSnapshotHistoryFind (Some history') (fm_tick md) = Some \<lparr>fr_tick = fm_tick md, fr_players = received\<rparr>"
    using tick n frame_agrees_length [OF received(2)] pushed(3) by (intro history_store_find) simp_all
  with pushed(1,2) received(2) show ?thesis by blast
qed

text \<open>
  A delta that despawns one player, keeps one and spawns one, received by a client that holds
  the baseline under tick 3, its chunks in reverse order.
\<close>

definition witness_metadata :: "u64 \<Rightarrow> ShroomSnapshotFrameMetadata" where
  "witness_metadata tick = PacketMetadata (zero_packet\<lparr>sn_tick := tick\<rparr>)"

definition witness_history :: "ShroomSnapshotPlayerState list \<Rightarrow> ShroomSnapshotHistory" where
  "witness_history players =
     \<lparr>hi_next = 1, hi_frames = [\<lparr>fr_tick = 3, fr_players = players\<rparr>, \<lparr>fr_tick = 0, fr_players = []\<rparr>,
        \<lparr>fr_tick = 0, fr_players = []\<rparr>, \<lparr>fr_tick = 0, fr_players = []\<rparr>]\<rparr>"

lemma reverse_arrival: "0 < n \<Longrightarrow> set (rev [1..<n] @ [0]) = {..<n} \<and> (0::nat) \<notin> set (rev [1..<n])"
  by auto

theorem snapshot_frame_delivered_witness:
  "\<exists>encoded assembly' history' received.
    ShroomSnapshotEncodeFrame (witness_metadata 5) [zero_player 2, zero_player 9]
      (Some \<lparr>fr_tick = 3, fr_players = [zero_player 1, zero_player 2]\<rparr>) False = Some encoded \<and>
    push_all (start_assembly zero_packet) (witness_history [zero_player 2, zero_player 1])
      (map ((!) (ef_packets encoded)) (rev [1..<length (ef_packets encoded)] @ [0])) =
      (replicate (length (ef_packets encoded) - 1) SHROOM_SNAPSHOT_ASSEMBLY_PENDING @
         [SHROOM_SNAPSHOT_ASSEMBLY_COMPLETE (witness_metadata 5) received], assembly', history') \<and>
    frame_agrees [zero_player 2, zero_player 9] received"
proof -
  let ?players = "[zero_player 2, zero_player 9]"
  let ?base = "Some \<lparr>fr_tick = 3, fr_players = [zero_player 1, zero_player 2]\<rparr>"
  let ?held = "[zero_player 2, zero_player 1]"
  have id: "sp_entity_id (zero_player e) = e" for e by (simp add: zero_player_def)
  have wf: "list_all wf_player ?players" by (simp add: wf_player_def zero_player_def SHROOM_MAX_NAME_LENGTH_def)
  obtain encoded where enc: "ShroomSnapshotEncodeFrame (witness_metadata 5) ?players ?base False = Some encoded"
    and n: "0 < length (ef_packets encoded)"
    using EncodeFrame_total [OF wf, of False ?base "witness_metadata 5"]
    by (auto simp: baseline_players_def)
  have held: "held_baseline False ?base (witness_history ?held) = Some ?held"
    by (simp add: held_baseline_def witness_history_def ShroomSnapshotHistoryFind_def SHROOM_SNAPSHOT_HISTORY_SIZE_def)
  have agrees: "frame_agrees (baseline_players False ?base) ?held"
    by (simp add: frame_agrees_def baseline_players_def id)
  have room: "length ?held + count_if (\<lambda>p. find_player (baseline_players False ?base) (sp_entity_id p) = None)
      ?players \<le> 1024"
    by (simp add: baseline_players_def id)
  have tick: "fm_tick (witness_metadata 5) \<noteq> 0"
    "ShroomSnapshotHistoryFind (Some (witness_history ?held)) (fm_tick (witness_metadata 5)) = None"
    "length (hi_frames (witness_history ?held)) = 4"
    "ready_for (start_assembly zero_packet) (fm_tick (witness_metadata 5))"
    by (simp_all add: witness_metadata_def PacketMetadata_def witness_history_def ShroomSnapshotHistoryFind_def
        SHROOM_SNAPSHOT_HISTORY_SIZE_def ready_for_def start_assembly_def zero_packet_def
        ShroomSnapshotTickIsNewer_def)
  have distinct: "distinct (map sp_entity_id ?players)" by (simp add: id)
  from snapshot_frame_delivered [OF enc wf distinct held agrees room tick] reverse_arrival [OF n] enc
  show ?thesis by (metis (no_types, lifting) length_rev length_upt)
qed

end
