(* ===== verification/Snapshot_Safety.thy ===== *)
theory Snapshot_Safety
  imports Snapshot_Delivery
begin

text \<open>
  What holds of the snapshot receiver for arbitrary packets, well encoded or not: every list of
  players it ever completes or stores has distinct entity identifiers, at most
  \<open>SHROOM_MAX_SNAPSHOT_PLAYERS\<close> entries and NUL-terminated names.  And the packet budget of
  the frames the server encodes.
\<close>

definition frame_ok :: "ShroomSnapshotPlayerState list \<Rightarrow> bool" where
  "frame_ok players \<longleftrightarrow> distinct (map sp_entity_id players) \<and>
     length players \<le> SHROOM_MAX_SNAPSHOT_PLAYERS \<and> (\<forall>p \<in> set players. wf_player p)"

definition history_ok :: "ShroomSnapshotHistory \<Rightarrow> bool" where
  "history_ok h \<longleftrightarrow> length (hi_frames h) = SHROOM_SNAPSHOT_HISTORY_SIZE \<and>
     unat (hi_next h) < SHROOM_SNAPSHOT_HISTORY_SIZE \<and> (\<forall>f \<in> set (hi_frames h). frame_ok (fr_players f))"

text \<open>
  A packet as it arrives: of a datagram of \<open>sz\<close> bytes, the payload is what follows the 92 bytes of the
  fixed fields, whatever \<open>payload_size\<close> announces.
\<close>

definition payload_received :: "ShroomSnapshotPacket \<Rightarrow> nat \<Rightarrow> bool" where
  "payload_received p sz \<longleftrightarrow> length (sn_payload p) = sz - offset_of ShroomSnapshotPacket_layout 22"

text \<open>The payload bytes that \<open>payload_size\<close> announces are there.\<close>

definition payload_present :: "ShroomSnapshotPacket \<Rightarrow> bool" where
  "payload_present p \<longleftrightarrow> unat (sn_payload_size p) \<le> length (sn_payload p)"

definition assembly_ok :: "ShroomSnapshotAssembly \<Rightarrow> bool" where
  "assembly_ok a \<longleftrightarrow> length (as_chunks a) = SHROOM_SNAPSHOT_MAX_CHUNKS \<and>
     unat (as_chunk_count a) \<le> SHROOM_SNAPSHOT_MAX_CHUNKS \<and> (\<forall>p \<in> set (as_chunks a). payload_present p)"

section \<open>Decoding arbitrary records\<close>

lemma ReadBytes_Some:
  "ReadBytes src sz off n = Some (b, off') \<Longrightarrow> sz \<le> length src \<Longrightarrow> length b = n"
  by (auto simp: ReadBytes_def split: if_splits)

lemma read_identity_wf:
  "read_identity r sz p off = Some (p', off') \<Longrightarrow> sz \<le> length r \<Longrightarrow>
   wf_player p' \<and> sp_entity_id p' = sp_entity_id p"
  by (auto simp: read_identity_def bind_eq_Some_conv wf_player_def SHROOM_MAX_NAME_LENGTH_def Let_def
      dest: ReadBytes_Some)

lemma read_other_wf:
  "read_transform r sz p off = Some (p', off') \<Longrightarrow> sp_entity_id p' = sp_entity_id p \<and> (wf_player p \<longrightarrow> wf_player p')"
  "read_mass r sz p off = Some (p', off') \<Longrightarrow> sp_entity_id p' = sp_entity_id p \<and> (wf_player p \<longrightarrow> wf_player p')"
  "read_effects r sz p off = Some (p', off') \<Longrightarrow> sp_entity_id p' = sp_entity_id p \<and> (wf_player p \<longrightarrow> wf_player p')"
  "read_stats r sz p off = Some (p', off') \<Longrightarrow> sp_entity_id p' = sp_entity_id p \<and> (wf_player p \<longrightarrow> wf_player p')"
  by (auto simp: read_transform_def read_mass_def read_effects_def read_stats_def bind_eq_Some_conv
      Let_def wf_player_def)

lemma read_components_wf:
  assumes "read_components r sz m p off = Some (p', off')" and "sz \<le> length r"
    and "wf_player p \<or> has_id m"
  shows "wf_player p' \<and> sp_entity_id p' = sp_entity_id p"
proof -
  obtain p1 o1 p2 o2 p3 o3 p4 o4 where steps:
    "(if has_id m then read_identity r sz p off else Some (p, off)) = Some (p1, o1)"
    "(if has_tr m then read_transform r sz p1 o1 else Some (p1, o1)) = Some (p2, o2)"
    "(if has_ma m then read_mass r sz p2 o2 else Some (p2, o2)) = Some (p3, o3)"
    "(if has_ef m then read_effects r sz p3 o3 else Some (p3, o3)) = Some (p4, o4)"
    "(if has_st m then read_stats r sz p4 o4 else Some (p4, o4)) = Some (p', off')"
    using assms(1) by (auto simp: read_components_def bind_eq_Some_conv)
  have 1: "wf_player p1 \<and> sp_entity_id p1 = sp_entity_id p"
    using steps(1) assms(2,3) read_identity_wf by (auto split: if_splits)
  with steps(2) have 2: "wf_player p2 \<and> sp_entity_id p2 = sp_entity_id p"
    using read_other_wf(1) by (fastforce split: if_splits)
  with steps(3) have 3: "wf_player p3 \<and> sp_entity_id p3 = sp_entity_id p"
    using read_other_wf(2) by (fastforce split: if_splits)
  with steps(4) have 4: "wf_player p4 \<and> sp_entity_id p4 = sp_entity_id p"
    using read_other_wf(3) by (fastforce split: if_splits)
  with steps(5) show ?thesis
    using read_other_wf(4) by (fastforce split: if_splits)
qed

lemma frame_ok_append:
  "frame_ok players \<Longrightarrow> find_entity players (sp_entity_id p) = None \<Longrightarrow> wf_player p \<Longrightarrow>
   length players < SHROOM_MAX_SNAPSHOT_PLAYERS \<Longrightarrow> frame_ok (players @ [p])"
  by (auto simp: frame_ok_def find_entity_None lookup_by_None image_iff)

lemma frame_ok_update:
  assumes "frame_ok players" and "find_entity players e = Some i" and "wf_player p" and "sp_entity_id p = e"
  shows "frame_ok (players[i := p])"
  using assms distinct_update_key [OF _ assms(2) [unfolded find_entity_def] assms(4)]
    set_update_subset_insert [of players i p] by (auto simp: frame_ok_def)

lemma frame_ok_remove:
  assumes "frame_ok players" and "find_entity players e = Some i"
  shows "frame_ok (remove_at i players)"
  using assms find_index_less [of "\<lambda>p. sp_entity_id p = e" players i] set_remove_at_subset [of i players]
  by (auto simp: frame_ok_def distinct_remove_at find_entity_def)

lemma DecodeRecord_ok:
  assumes "DecodeRecord r available players = Some players'" and "available \<le> length r" and ok: "frame_ok players"
  shows "frame_ok players'"
proof -
  define header where "header = header_of_image (take record_header_size r)"
  let ?found = "find_entity players (rh_entity_id header)"
  from assms(1) have size: "unat (rh_size header) \<le> length r"
    and cases: "(\<exists>i. ?found = Some i \<and> players' = remove_at i players) \<or>
      (?found = None \<and> length players < SHROOM_MAX_SNAPSHOT_PLAYERS \<and>
        (\<exists>p off. read_components r (unat (rh_size header)) 0x1f (zero_player (rh_entity_id header))
          record_header_size = Some (p, off) \<and> players' = players @ [p])) \<or>
      (\<exists>i p off. ?found = Some i \<and> players' = players[i := p] \<and>
        read_components r (unat (rh_size header)) (rh_component_mask header) (players ! i)
          record_header_size = Some (p, off))"
    using assms(2) unfolding DecodeRecord_def Let_def header_def [symmetric]
    by (auto split: if_splits option.splits prod.splits simp del: find_index_None)
  from cases show ?thesis
  proof (elim disjE exE conjE)
    fix i assume "?found = Some i" "players' = remove_at i players"
    with ok show ?thesis by (simp add: frame_ok_remove)
  next
    fix p off assume new: "?found = None" "length players < SHROOM_MAX_SNAPSHOT_PLAYERS"
      and read: "read_components r (unat (rh_size header)) 0x1f (zero_player (rh_entity_id header))
        record_header_size = Some (p, off)" and "players' = players @ [p]"
    from read_components_wf [OF read size] have "wf_player p \<and> sp_entity_id p = rh_entity_id header"
      by (simp add: zero_player_def)
    with new ok \<open>players' = players @ [p]\<close> show ?thesis by (simp add: frame_ok_append)
  next
    fix i p off assume found: "?found = Some i" and "players' = players[i := p]"
      and read: "read_components r (unat (rh_size header)) (rh_component_mask header) (players ! i)
        record_header_size = Some (p, off)"
    have "players ! i \<in> set players" "sp_entity_id (players ! i) = rh_entity_id header"
      using found find_index_SomeD [of "\<lambda>p. sp_entity_id p = rh_entity_id header" players i]
      by (simp_all add: find_entity_def)
    with read_components_wf [OF read size] ok have "wf_player p" "sp_entity_id p = rh_entity_id header"
      by (auto simp: frame_ok_def)
    with found ok \<open>players' = players[i := p]\<close> show ?thesis by (simp add: frame_ok_update)
  qed
qed

lemma apply_records_ok:
  "apply_records packet offset records players = Some (n, players') \<Longrightarrow> payload_present packet \<Longrightarrow>
   frame_ok players \<Longrightarrow> frame_ok players'"
proof (induction packet offset records players rule: apply_records.induct)
  case (1 packet offset records players)
  show ?case
  proof (cases "unat (sn_payload_size packet) \<le> offset")
    case True
    with 1 show ?thesis by (simp add: apply_records.simps [of packet offset])
  next
    case False
    from 1(2) False obtain b off' players1 where step:
      "\<not> unat (sn_payload_size packet) - offset < record_header_size"
      "ReadBytes (sn_payload packet) (unat (sn_payload_size packet)) offset record_header_size = Some (b, off')"
      "\<not> (unat (rh_size (header_of_image b)) < record_header_size \<or>
         unat (sn_payload_size packet) - (off' - record_header_size) < unat (rh_size (header_of_image b)))"
      "DecodeRecord (drop (off' - record_header_size) (sn_payload packet))
         (unat (sn_payload_size packet) - off' + record_header_size) players = Some players1"
      "apply_records packet (off' + unat (rh_size (header_of_image b)) - record_header_size) (records + 1)
         players1 = Some (n, players')"
      by (subst (asm) apply_records.simps) (auto simp: Let_def split: if_splits option.splits)
    have "off' = offset + 8" "off' \<le> unat (sn_payload_size packet)"
      using step(2) by (auto simp: ReadBytes_def split: if_splits)
    then have "frame_ok players1"
      using DecodeRecord_ok [OF step(4)] 1(3,4) by (simp add: payload_present_def)
    with 1(1) [OF refl False step(1,2) refl refl step(3) step(4) step(5) 1(3)] show ?thesis by simp
  qed
qed

lemma apply_chunks_ok:
  "apply_chunks packets players = Some players' \<Longrightarrow> \<forall>p \<in> set packets. payload_present p \<Longrightarrow>
   frame_ok players \<Longrightarrow> frame_ok players'"
  by (induction packets arbitrary: players) (auto dest: apply_records_ok split: option.splits if_splits prod.splits)

lemma history_find_ok: "history_ok h \<Longrightarrow> ShroomSnapshotHistoryFind (Some h) t = Some f \<Longrightarrow> frame_ok (fr_players f)"
proof -
  assume h: "history_ok h" and f: "ShroomSnapshotHistoryFind (Some h) t = Some f"
  then obtain i where "find_index (\<lambda>f. fr_tick f = t) (take SHROOM_SNAPSHOT_HISTORY_SIZE (hi_frames h)) = Some i"
    "f = hi_frames h ! i" by (auto simp: ShroomSnapshotHistoryFind_def split: if_splits option.splits)
  with h find_index_less have "f \<in> set (hi_frames h)" by (fastforce simp: history_ok_def)
  with h show ?thesis by (simp add: history_ok_def)
qed

lemma history_store_ok:
  "history_ok h \<Longrightarrow> frame_ok players \<Longrightarrow> Some h' = ShroomSnapshotHistoryStore (Some h) t (Some players) \<Longrightarrow>
   history_ok h'"
  by (auto simp: ShroomSnapshotHistoryStore_def history_ok_def frame_ok_def SHROOM_SNAPSHOT_HISTORY_SIZE_def
      unat_of_nat dest!: set_update_subset_insert [THEN subsetD] split: if_splits)

lemma ApplyChunks_ok:
  assumes "assembly_ok a" and "history_ok h" and "ApplyChunks a h = Some players"
  shows "frame_ok players"
proof -
  have "\<forall>p \<in> set (map ((!) (as_chunks a)) [0..<unat (as_chunk_count a)]). payload_present p"
    using assms(1) by (auto simp: assembly_ok_def)
  moreover obtain start where "apply_chunks (map ((!) (as_chunks a)) [0..<unat (as_chunk_count a)]) start = Some players"
    "frame_ok start"
    using assms(3) history_find_ok [OF assms(2)]
    by (auto simp: ApplyChunks_def Let_def frame_ok_def split: if_splits option.splits)
  ultimately show ?thesis using apply_chunks_ok by blast
qed

lemma start_assembly_ok: "packet_acceptable p sz \<Longrightarrow> assembly_ok (start_assembly p)"
  by (auto simp: assembly_ok_def start_assembly_def packet_acceptable_def Let_def payload_present_def zero_packet_def)

lemma store_chunk_ok: "assembly_ok a \<Longrightarrow> payload_present p \<Longrightarrow> assembly_ok (store_chunk a p)"
  by (auto simp: assembly_ok_def store_chunk_def Let_def dest!: set_update_subset_insert [THEN subsetD])

text \<open>The size checks make sure of the announced bytes.\<close>

lemma acceptable_present:
  assumes "packet_acceptable p sz" and "payload_received p sz"
  shows "payload_present p"
proof -
  have "sz = offset_of ShroomSnapshotPacket_layout 22 + unat (sn_payload_size p)"
    using assms(1) by (simp add: packet_acceptable_def Let_def)
  with assms(2) show ?thesis by (simp add: payload_received_def payload_present_def)
qed

lemma push_ok:
  assumes "assembly_ok a" and h: "history_ok h" and p: "payload_received p sz"
    and push: "ShroomSnapshotAssemblyPush a p sz h = (result, a', h')"
  shows "assembly_ok a' \<and> history_ok h' \<and>
    (\<forall>md players. result = SHROOM_SNAPSHOT_ASSEMBLY_COMPLETE md players \<longrightarrow> frame_ok players)"
proof (cases "packet_acceptable p sz")
  case False
  with assms show ?thesis by (simp add: ShroomSnapshotAssemblyPush_def)
next
  case True
  define fresh where "fresh \<longleftrightarrow> \<not> as_active a \<or> sn_tick p \<noteq> as_tick a \<and> ShroomSnapshotTickIsNewer (sn_tick p) (as_tick a)"
  define a0 where "a0 = (if fresh then start_assembly p else a)"
  have a0: "assembly_ok a0" using assms(1) start_assembly_ok [OF True] by (simp add: a0_def)
  then have a1: "assembly_ok (store_chunk a0 p)" using acceptable_present [OF True p] by (rule store_chunk_ok)
  then have done1: "assembly_ok ((store_chunk a0 p)\<lparr>as_active := False\<rparr>)" by (simp add: assembly_ok_def)
  have frame: "frame_ok players" if "ApplyChunks (store_chunk a0 p) h = Some players" for players
    using ApplyChunks_ok [OF a1 h that] .
  have store: "history_ok h2" if "ApplyChunks (store_chunk a0 p) h = Some players"
    "ShroomSnapshotHistoryStore (Some h) t (Some players) = Some h2" for players t h2
    using history_store_ok [OF h frame [OF that(1)]] that(2) by metis
  show ?thesis
    using push a0 a1 done1 h assms(1) frame store
    unfolding ShroomSnapshotAssemblyPush_def Let_def fresh_def [symmetric] a0_def [symmetric]
    by (auto split: if_splits option.splits)
qed

fun receive_all ::
  "ShroomSnapshotAssembly \<Rightarrow> ShroomSnapshotHistory \<Rightarrow> (ShroomSnapshotPacket \<times> nat) list \<Rightarrow>
     ShroomSnapshotAssemblyResult list \<times> ShroomSnapshotAssembly \<times> ShroomSnapshotHistory" where
  "receive_all a history [] = ([], a, history)"
| "receive_all a history ((p, packet_size) # ps) =
     (case ShroomSnapshotAssemblyPush a p packet_size history of
        (result, a, history) \<Rightarrow>
          (case receive_all a history ps of (results, a, history) \<Rightarrow> (result # results, a, history)))"

text \<open>C6. Robustness of the receiver: whatever datagrams arrive, of whatever sizes and with whatever header
  fields (announcing more bytes than came among them), every player list it completes has distinct
  entity identifiers, at most 1024 players and NUL-terminated names, and the history and the assembly
  stay well formed: every chunk that is stored has the bytes it announces.  The one hypothesis on a
  packet says what its payload is, the bytes of the datagram behind the fixed fields.\<close>

theorem snapshot_receiver_robust:
  assumes "assembly_ok a" and "history_ok h" and "\<forall>(p, sz) \<in> set packets. payload_received p sz"
    and "receive_all a h packets = (results, a', h')"
  shows "assembly_ok a' \<and> history_ok h' \<and>
    (\<forall>md players. SHROOM_SNAPSHOT_ASSEMBLY_COMPLETE md players \<in> set results \<longrightarrow> frame_ok players)"
  using assms
proof (induction packets arbitrary: a h results)
  case Nil
  then show ?case by simp
next
  case (Cons x packets)
  obtain p sz where x: "x = (p, sz)" by force
  obtain result a1 h1 where push: "ShroomSnapshotAssemblyPush a p sz h = (result, a1, h1)" by (metis prod_cases3)
  with Cons.prems(4) x obtain results1 where rest: "receive_all a1 h1 packets = (results1, a', h')"
    "results = result # results1" by (auto split: prod.splits)
  have "assembly_ok a1 \<and> history_ok h1 \<and>
      (\<forall>md players. result = SHROOM_SNAPSHOT_ASSEMBLY_COMPLETE md players \<longrightarrow> frame_ok players)"
    using Cons.prems x by (intro push_ok [OF _ _ _ push]) auto
  with Cons.IH [OF _ _ _ rest(1)] Cons.prems(3) rest(2) show ?case by auto
qed

text \<open>
  A keyframe with one player as it is sent, and two forged ones of the same tick: one announces 500
  bytes of payload in the same datagram, one holds a record that announces 200 bytes.
\<close>

definition wire_packet :: "u8 list \<Rightarrow> u16 \<Rightarrow> ShroomSnapshotPacket" where
  "wire_packet record_bytes announced = zero_packet\<lparr>sn_header := \<lparr>ph_type = 4, ph_reserved = 1, ph_size = 166\<rparr>,
     sn_tick := 5, sn_total_player_count := 1, sn_chunk_count := 1, sn_record_count := 1, sn_payload_size := announced,
     sn_flags := 1, sn_payload := record_bytes\<rparr>"

definition arriving_packets :: "(ShroomSnapshotPacket \<times> nat) list" where
  "arriving_packets = [(wire_packet ([2, 0, 0, 0, 31, 0, 1, 74] @ replicate 66 0) 500, 166),
     (wire_packet ([2, 0, 0, 0, 31, 0, 1, 200] @ replicate 66 0) 74, 166),
     (wire_packet ([2, 0, 0, 0, 31, 0, 1, 74] @ replicate 66 0) 74, 166)]"

theorem snapshot_receiver_robust_witness:
  "\<exists>a' h' md. receive_all (start_assembly zero_packet) (witness_history []) arriving_packets =
      ([SHROOM_SNAPSHOT_ASSEMBLY_REJECTED, SHROOM_SNAPSHOT_ASSEMBLY_REJECTED,
        SHROOM_SNAPSHOT_ASSEMBLY_COMPLETE md [zero_player 2]], a', h') \<and>
    assembly_ok a' \<and> history_ok h' \<and> frame_ok [zero_player 2]"
proof -
  have ok: "assembly_ok (start_assembly zero_packet)"
    by (simp add: assembly_ok_def start_assembly_def payload_present_def zero_packet_def)
  have hist: "history_ok (witness_history [])"
    by (simp add: history_ok_def witness_history_def frame_ok_def SHROOM_SNAPSHOT_HISTORY_SIZE_def)
  have wire: "\<forall>(p, sz) \<in> set arriving_packets. payload_received p sz"
    by (simp add: arriving_packets_def wire_packet_def payload_received_def size_simps)
  have "fst (receive_all (start_assembly zero_packet) (witness_history []) arriving_packets) =
    [SHROOM_SNAPSHOT_ASSEMBLY_REJECTED, SHROOM_SNAPSHOT_ASSEMBLY_REJECTED,
     SHROOM_SNAPSHOT_ASSEMBLY_COMPLETE (witness_metadata 5) [zero_player 2]]"
    by code_simp
  then obtain a' h' where run: "receive_all (start_assembly zero_packet) (witness_history []) arriving_packets =
    ([SHROOM_SNAPSHOT_ASSEMBLY_REJECTED, SHROOM_SNAPSHOT_ASSEMBLY_REJECTED,
      SHROOM_SNAPSHOT_ASSEMBLY_COMPLETE (witness_metadata 5) [zero_player 2]], a', h')"
    by (metis prod.collapse)
  from snapshot_receiver_robust [OF ok hist wire run] run show ?thesis by auto
qed

section \<open>The packet budget\<close>

text \<open>C7. Every frame of at most 1024 players encodes, against any stored baseline, into at most 82
  chunks (of the 128 the receiver can note), each of which fits the 1200-byte packet budget and
  carries its exact length in its header.\<close>

theorem snapshot_frame_fits:
  assumes wf: "list_all wf_player players" and n: "length players \<le> 1024"
    and base: "keyframe \<or> baseline \<noteq> None" and nb: "length (baseline_players keyframe baseline) \<le> 1024"
  shows "\<exists>encoded. ShroomSnapshotEncodeFrame md players baseline keyframe = Some encoded \<and>
    0 < length (ef_packets encoded) \<and> length (ef_packets encoded) \<le> 82 \<and>
    (\<forall>p \<in> set (ef_packets encoded). packet_wire_size p \<le> 1192 \<and>
       unat (ph_size (sn_header p)) = packet_wire_size p \<and>
       packet_wire_size p = 92 + length (sn_payload p))"
proof -
  obtain rss where rss: "ef_packets (the (ShroomSnapshotEncodeFrame md players baseline keyframe)) =
       map (frame_chunk md (baseline_tick_of keyframe baseline) (length players) keyframe rss) [0..<length rss]"
    "ShroomSnapshotEncodeFrame md players baseline keyframe \<noteq> None"
    "\<forall>rs \<in> set rss. bytes_of rs \<le> 1100" "0 < length rss" "length rss \<le> 82"
    using EncodeFrame_chunks [OF assms, of md] by metis
  have chunk: "packet_wire_size p \<le> 1192 \<and> unat (ph_size (sn_header p)) = packet_wire_size p \<and>
      packet_wire_size p = 92 + length (sn_payload p)"
    if i: "i < length rss" and p: "p = frame_chunk md (baseline_tick_of keyframe baseline) (length players) keyframe rss i"
    for i p
  proof -
    have pay: "sn_payload p = concat (rss ! i)" "unat (sn_payload_size p) = bytes_of (rss ! i)"
      "bytes_of (rss ! i) \<le> 1100"
      using rss(3) i by (simp_all add: p frame_chunk_def chunk_fields)
    then have size: "packet_wire_size p = 92 + bytes_of (rss ! i)" by (simp add: packet_wire_size_def size_simps)
    have "ph_size (sn_header p) = word_of_nat (packet_wire_size p)"
      by (simp add: p frame_chunk_def finish_packet_fields)
    then have "unat (ph_size (sn_header p)) = packet_wire_size p"
      using pay(3) unfolding size by (simp only: unat_of_nat) simp
    with pay size show ?thesis by simp
  qed
  from rss(2) obtain encoded where enc: "ShroomSnapshotEncodeFrame md players baseline keyframe = Some encoded"
    by blast
  have "\<forall>p \<in> set (ef_packets encoded). packet_wire_size p \<le> 1192 \<and>
       unat (ph_size (sn_header p)) = packet_wire_size p \<and> packet_wire_size p = 92 + length (sn_payload p)"
  proof
    fix p assume "p \<in> set (ef_packets encoded)"
    then obtain i where "i < length rss"
      "p = frame_chunk md (baseline_tick_of keyframe baseline) (length players) keyframe rss i"
      using rss(1) by (auto simp: enc)
    then show "packet_wire_size p \<le> 1192 \<and> unat (ph_size (sn_header p)) = packet_wire_size p \<and>
        packet_wire_size p = 92 + length (sn_payload p)" by (rule chunk)
  qed
  moreover have "0 < length (ef_packets encoded) \<and> length (ef_packets encoded) \<le> 82"
    using rss(1,4,5) by (simp add: enc)
  ultimately show ?thesis using enc by blast
qed

theorem snapshot_frame_fits_witness:
  "\<exists>encoded. ShroomSnapshotEncodeFrame (witness_metadata 5) [zero_player 2] None True = Some encoded \<and>
    length (ef_packets encoded) \<le> 82"
  using snapshot_frame_fits [of "[zero_player 2]" True None "witness_metadata 5"]
  by (auto simp: wf_player_def zero_player_def SHROOM_MAX_NAME_LENGTH_def baseline_players_def)

end
