(* ===== verification/Float32.thy ===== *)
theory Float32
  imports Byte_Codec
begin

text \<open>
  IEEE single precision on the 32-bit images, as the game rules compute with it: comparison,
  addition, subtraction and multiplication with rounding to nearest, ties to even.  A finite
  float is an integer multiple of \<open>2 ^ -149\<close>; results are computed exactly in that unit and
  rounded once.  (The program is built as ISO C without contraction of expressions.)
\<close>

definition f32_neg :: "f32 \<Rightarrow> bool" where
  "f32_neg a \<longleftrightarrow> bit a 31"

definition f32_magnitude :: "f32 \<Rightarrow> int" where
  "f32_magnitude a = uint (a AND 0x7fffffff)"

definition f32_exponent :: "f32 \<Rightarrow> nat" where
  "f32_exponent a = nat (f32_magnitude a div 0x800000)"

definition f32_fraction :: "f32 \<Rightarrow> int" where
  "f32_fraction a = f32_magnitude a mod 0x800000"

definition f32_is_inf :: "f32 \<Rightarrow> bool" where
  "f32_is_inf a \<longleftrightarrow> a AND 0x7fffffff = 0x7f800000"

text \<open>The value of a finite float in units of \<open>2 ^ -149\<close>.\<close>

definition f32_units :: "f32 \<Rightarrow> int" where
  "f32_units a =
     (let m = (if f32_exponent a = 0 then f32_fraction a
               else (0x800000 + f32_fraction a) * 2 ^ (f32_exponent a - 1))
      in if f32_neg a then - m else m)"

section \<open>Comparison\<close>

text \<open>The order of floats is the order of sign and magnitude.\<close>

definition f32_order :: "f32 \<Rightarrow> int" where
  "f32_order a = (if f32_neg a then - f32_magnitude a else f32_magnitude a)"

definition f32_lt :: "f32 \<Rightarrow> f32 \<Rightarrow> bool" where
  "f32_lt a b \<longleftrightarrow> \<not> f32_is_nan a \<and> \<not> f32_is_nan b \<and> f32_order a < f32_order b"

definition f32_le :: "f32 \<Rightarrow> f32 \<Rightarrow> bool" where
  "f32_le a b \<longleftrightarrow> f32_lt a b \<or> f32_eq a b"

lemma f32_magnitude_bits: "f32_magnitude a = uint (take_bit 31 a)"
  by (simp add: f32_magnitude_def take_bit_eq_mask mask_eq_exp_minus_1)

lemma f32_ext:
  assumes "f32_magnitude a = f32_magnitude b" and "f32_neg a = f32_neg b"
  shows "a = b"
proof (rule bit_word_eqI)
  fix n assume n: "n < LENGTH(32)"
  have low: "take_bit 31 a = take_bit 31 b" using assms(1) by (simp add: f32_magnitude_bits word_uint_eq_iff)
  show "bit a n = bit b n"
  proof (cases "n < 31")
    case True
    with low show ?thesis by (metis bit_take_bit_iff)
  next
    case False
    with n have "n = 31" by simp
    with assms(2) show ?thesis by (simp add: f32_neg_def)
  qed
qed

lemma f32_magnitude_zero: "f32_magnitude a = 0 \<longleftrightarrow> f32_is_zero a"
  by (simp add: f32_magnitude_def f32_is_zero_def word_uint_eq_iff)

lemma f32_magnitude_nonneg: "0 \<le> f32_magnitude a"
  by (simp add: f32_magnitude_def)

lemma f32_same_order:
  assumes "f32_order a = f32_order b"
  shows "a = b \<or> f32_is_zero a \<and> f32_is_zero b"
proof (cases "f32_neg a = f32_neg b")
  case True
  with assms have "f32_magnitude a = f32_magnitude b" by (simp add: f32_order_def split: if_splits)
  with True show ?thesis by (blast intro: f32_ext)
next
  case False
  with assms f32_magnitude_nonneg [of a] f32_magnitude_nonneg [of b]
  have "f32_magnitude a = 0" "f32_magnitude b = 0" by (auto simp: f32_order_def split: if_splits)
  then show ?thesis by (simp add: f32_magnitude_zero)
qed

lemma f32_trichotomy:
  assumes "\<not> f32_is_nan a" and "\<not> f32_is_nan b"
  shows "f32_lt a b \<or> f32_eq a b \<or> f32_lt b a"
  using assms f32_same_order [of a b] by (auto simp: f32_lt_def f32_eq_def)

lemma f32_lt_trans: "f32_lt a b \<Longrightarrow> f32_lt b c \<Longrightarrow> f32_lt a c"
  by (simp add: f32_lt_def)

lemma f32_lt_irrefl: "\<not> f32_lt a a"
  by (simp add: f32_lt_def)

section \<open>Arithmetic\<close>

text \<open>Number of binary digits.\<close>

function digits :: "int \<Rightarrow> nat" where
  "digits n = (if n \<le> 0 then 0 else Suc (digits (n div 2)))"
  by pat_completeness auto

termination by (relation "measure nat") auto

declare digits.simps [simp del]

definition round_half_even :: "int \<Rightarrow> nat \<Rightarrow> int" where
  "round_half_even a d =
     (let q = a div 2 ^ d; r = a mod 2 ^ d
      in if 2 * r < 2 ^ d then q
         else if 2 ^ d < 2 * r then q + 1
         else if even q then q else q + 1)"

definition f32_with_sign :: "bool \<Rightarrow> int \<Rightarrow> f32" where
  "f32_with_sign neg magnitude = (if neg then 0x80000000 else 0) OR word_of_int magnitude"

text \<open>
  The float nearest to \<open>a * 2 ^ (-149 - k)\<close>: at most 24 significant digits are kept, none
  below the unit, and a magnitude past the largest finite one is infinity.  A mantissa rounded up
  to 25 digits carries into the exponent by itself.
\<close>

definition f32_round :: "bool \<Rightarrow> int \<Rightarrow> nat \<Rightarrow> f32" where
  "f32_round neg a k =
     (let d = max k (digits a - 24);
          bits = int (d - k) * 0x800000 + round_half_even a d
      in f32_with_sign neg (if 0x7f800000 \<le> bits then 0x7f800000 else bits))"

definition f32_default_nan :: f32 where
  "f32_default_nan = 0x7fc00000"

definition f32_uminus :: "f32 \<Rightarrow> f32" where
  "f32_uminus a = a XOR 0x80000000"

definition f32_add :: "f32 \<Rightarrow> f32 \<Rightarrow> f32" where
  "f32_add a b =
     (if f32_is_nan a \<or> f32_is_nan b then f32_default_nan
      else if f32_is_inf a then
        (if f32_is_inf b \<and> f32_neg a \<noteq> f32_neg b then f32_default_nan else a)
      else if f32_is_inf b then b
      else
        let s = f32_units a + f32_units b
        in if s = 0 then (if f32_neg a \<and> f32_neg b then 0x80000000 else 0)
           else f32_round (s < 0) \<bar>s\<bar> 0)"

definition f32_sub :: "f32 \<Rightarrow> f32 \<Rightarrow> f32" where
  "f32_sub a b = (if f32_is_nan b then f32_default_nan else f32_add a (f32_uminus b))"

definition f32_mul :: "f32 \<Rightarrow> f32 \<Rightarrow> f32" where
  "f32_mul a b =
     (let neg = (f32_neg a \<noteq> f32_neg b)
      in if f32_is_nan a \<or> f32_is_nan b then f32_default_nan
         else if f32_is_inf a \<or> f32_is_inf b then
           (if f32_is_zero a \<or> f32_is_zero b then f32_default_nan else f32_with_sign neg 0x7f800000)
         else f32_round neg \<bar>f32_units a * f32_units b\<bar> 149)"

lemma f32_eval_examples:
  "f32_add 0x3f800000 0x3f800000 = 0x40000000"
  "f32_mul 0x40400000 0x40400000 = 0x41100000"
  "f32_sub 0x3f800000 0x3f800000 = 0"
  "f32_add 0x3dcccccd 0x3e4ccccd = 0x3e99999a"
  "f32_mul 0x3dcccccd 0x3dcccccd = 0x3c23d70b"
  "f32_mul 0x7f000000 0x40000000 = 0x7f800000"
  "f32_mul 0x00000001 0x3f000000 = 0"
  "f32_mul 0x45098000 0x45098000 = 0x4a93b480"
  by code_simp+

end
