(* ===== verification/World.thy ===== *)
theory World
  imports Float32 Protocol
begin

text \<open>
  The world state that server and clients share (\<open>src/shared/world.h\<close>,
  \<open>src/shared/vec2.h\<close>).  Floats are their 32-bit images, enumeration fields 32-bit
  numbers.  The players array with its count is the list of live entries; the spore and powerup
  arrays keep their full length because replication reads past their counts.
\<close>

record ShroomVec2 =
  v2_x :: f32
  v2_y :: f32

definition ShroomVec2Sub :: "ShroomVec2 \<Rightarrow> ShroomVec2 \<Rightarrow> ShroomVec2" where
  "ShroomVec2Sub a b = \<lparr>v2_x = f32_sub (v2_x a) (v2_x b), v2_y = f32_sub (v2_y a) (v2_y b)\<rparr>"

definition ShroomVec2Add :: "ShroomVec2 \<Rightarrow> ShroomVec2 \<Rightarrow> ShroomVec2" where
  "ShroomVec2Add a b = \<lparr>v2_x = f32_add (v2_x a) (v2_x b), v2_y = f32_add (v2_y a) (v2_y b)\<rparr>"

definition ShroomVec2Scale :: "ShroomVec2 \<Rightarrow> f32 \<Rightarrow> ShroomVec2" where
  "ShroomVec2Scale v scale = \<lparr>v2_x = f32_mul (v2_x v) scale, v2_y = f32_mul (v2_y v) scale\<rparr>"

definition ShroomVec2LengthSqr :: "ShroomVec2 \<Rightarrow> f32" where
  "ShroomVec2LengthSqr v = f32_add (f32_mul (v2_x v) (v2_x v)) (f32_mul (v2_y v) (v2_y v))"

definition ShroomVec2Dot :: "ShroomVec2 \<Rightarrow> ShroomVec2 \<Rightarrow> f32" where
  "ShroomVec2Dot a b = f32_add (f32_mul (v2_x a) (v2_x b)) (f32_mul (v2_y a) (v2_y b))"

record ShroomPlayerState =
  pl_player_id :: u32
  pl_entity_id :: u32
  pl_position :: ShroomVec2
  pl_input_direction :: ShroomVec2
  pl_mass :: f32
  pl_radius :: f32
  pl_decay_spore_accumulator :: f32
  pl_last_move_time_ms :: u64
  pl_name :: "u8 list"
  pl_alive :: bool
  pl_is_bot :: bool
  pl_ai_controlled :: bool
  pl_has_split :: bool
  pl_split_velocity :: ShroomVec2
  pl_merge_timer :: f32
  pl_spawn_protection_timer :: f32
  pl_speed_powerup_timer :: f32
  pl_shield_powerup_timer :: f32
  pl_magnet_powerup_timer :: f32
  pl_decay_immune_powerup_timer :: f32
  pl_eject_cooldown_timer :: f32
  pl_bot_tactical_cooldown_timer :: f32
  pl_piece_index :: u8
  pl_team_id :: u8
  pl_life_generation :: u8

record ShroomSporeState =
  spo_entity_id :: u32
  spo_position :: ShroomVec2
  spo_value :: u16
  spo_active :: bool

record ShroomPowerupState =
  pow_entity_id :: u32
  pow_position :: ShroomVec2
  pow_type :: u32
  pow_respawn_timer :: f32
  pow_active :: bool

record ShroomRoundStats =
  rs_colony_mass :: f32
  rs_peak_mass :: f32
  rs_survival_seconds :: f32
  rs_kills :: u32
  rs_deaths :: u32
  rs_mass_consumed :: f32
  rs_mass_lost :: f32
  rs_distance_traveled :: f32
  rs_spores_collected :: u32
  rs_powerups_collected :: u32
  rs_center_zone_seconds :: f32
  rs_mid_zone_seconds :: f32
  rs_outer_zone_seconds :: f32
  rs_splits_used :: u32
  rs_ejects_used :: u32

record ShroomRoundStatsSlot =
  rss_player_id :: u32
  rss_stats :: ShroomRoundStats

record ShroomWorldState =
  ws_tick :: u64
  ws_width :: f32
  ws_height :: f32
  ws_random_seed :: u32
  ws_random_state :: u32
  ws_next_entity_id :: u32
  ws_match_phase :: u32
  ws_match_duration_seconds :: f32
  ws_match_time_remaining :: f32
  ws_match_results_time_remaining :: f32
  ws_podium_player_ids :: "u32 list"
  ws_podium_masses :: "f32 list"
  ws_game_mode :: u32
  ws_objective_target_score :: f32
  ws_objective_controller_id :: u32
  ws_objective_contested :: bool
  ws_objective_player_ids :: "u32 list"
  ws_objective_scores :: "f32 list"
  ws_team_count :: u8
  ws_team_masses :: "f32 list"
  ws_players :: "ShroomPlayerState list"
  ws_spore_count :: nat
  ws_spores :: "ShroomSporeState list"
  ws_powerup_count :: nat
  ws_powerups :: "ShroomPowerupState list"
  ws_round_stats :: "ShroomRoundStatsSlot list"

end
