(* ===== verification/World_Replication.thy ===== *)
theory World_Replication
  imports World Chunk_Receipts
begin

text \<open>
  Replication of spores and powerups (\<open>src/shared/world_replication.c\<close> and
  \<open>SendWorldState\<close> of \<open>src/server/main.c\<close>): the server notes per peer what it has
  replicated of each slot and sends the differences, or a keyframe of everything in the peer's
  interest area; the client applies records as they arrive and removes what a complete keyframe
  did not mention.  A client array with its count is the list of live entries; an index of -1 is
  \<open>None\<close>.  Enumeration constants are abbreviations.
\<close>

section \<open>Data\<close>

abbreviation (input) SHROOM_WORLD_ENTITY_SPORE :: u8 where "SHROOM_WORLD_ENTITY_SPORE \<equiv> 1"
abbreviation (input) SHROOM_WORLD_ENTITY_POWERUP :: u8 where "SHROOM_WORLD_ENTITY_POWERUP \<equiv> 2"
abbreviation (input) SHROOM_WORLD_RECORD_SPAWN :: u8 where "SHROOM_WORLD_RECORD_SPAWN \<equiv> 1"
abbreviation (input) SHROOM_WORLD_RECORD_UPDATE :: u8 where "SHROOM_WORLD_RECORD_UPDATE \<equiv> 2"
abbreviation (input) SHROOM_WORLD_RECORD_REMOVE :: u8 where "SHROOM_WORLD_RECORD_REMOVE \<equiv> 3"
abbreviation (input) SHROOM_WORLD_STATE_FLAG_KEYFRAME :: u8 where "SHROOM_WORLD_STATE_FLAG_KEYFRAME \<equiv> 0x01"
definition SHROOM_WORLD_REPLICATION_KEYFRAME_TICKS :: u64 where "SHROOM_WORLD_REPLICATION_KEYFRAME_TICKS = 30"
definition SHROOM_WORLD_REPLICATION_MAX_CHUNKS :: nat where "SHROOM_WORLD_REPLICATION_MAX_CHUNKS = 72"
definition SHROOM_MAX_WORLD_STATE_RECORDS :: nat where
  "SHROOM_MAX_WORLD_STATE_RECORDS = SHROOM_MAX_SPORES + SHROOM_MAX_POWERUPS"
definition SHROOM_WORLD_REPLICATION_INTEREST_RADIUS :: f32 where
  "SHROOM_WORLD_REPLICATION_INTEREST_RADIUS = 0x45098000"  \<comment> \<open>2200.0\<close>

record ShroomSnapshotSporeState =
  ss_entity_id :: u32
  ss_position_x :: f32
  ss_position_y :: f32
  ss_value :: u16

record ShroomSnapshotPowerupState =
  sw_entity_id :: u32
  sw_position_x :: f32
  sw_position_y :: f32
  sw_type :: u8
  sw_active :: u8

record ShroomWorldStateRecord =
  wr_entity_id :: u32
  wr_position_x :: f32
  wr_position_y :: f32
  wr_value :: u16
  wr_entity_kind :: u8
  wr_operation :: u8
  wr_powerup_type :: u8

record ShroomWorldStatePacket =
  wp_header :: ShroomPacketHeader
  wp_tick :: u64
  wp_chunk_index :: u16
  wp_chunk_count :: u16
  wp_flags :: u8
  wp_record_count :: u8
  wp_records :: "ShroomWorldStateRecord list"

record ShroomWorldReplicationPeerState =
  rp_initialized :: bool
  rp_last_keyframe_tick :: u64
  rp_spore_known :: "bool list"
  rp_powerup_known :: "bool list"
  rp_spores :: "ShroomSnapshotSporeState list"
  rp_powerups :: "ShroomSnapshotPowerupState list"

record ShroomWorldReplicationBatch =
  rb_tick :: u64
  rb_record_count :: nat
  rb_keyframe :: bool

record ShroomWorldReplicationClientState =
  rc_tick_received :: bool
  rc_latest_tick :: u64
  rc_keyframe_pending :: bool
  rc_keyframe_tick :: u64
  rc_keyframe_chunk_count :: u16
  rc_keyframe_chunks :: "u64 list"
  rc_keyframe_spores :: "u32 list"
  rc_keyframe_powerups :: "u32 list"

section \<open>The server: differences against what a peer knows\<close>

definition SporeEqual :: "ShroomSnapshotSporeState \<Rightarrow> ShroomSnapshotSporeState \<Rightarrow> bool" where
  "SporeEqual left right \<longleftrightarrow> ss_entity_id left = ss_entity_id right \<and>
     f32_eq (ss_position_x left) (ss_position_x right) \<and>
     f32_eq (ss_position_y left) (ss_position_y right) \<and> ss_value left = ss_value right"

definition PowerupEqual :: "ShroomSnapshotPowerupState \<Rightarrow> ShroomSnapshotPowerupState \<Rightarrow> bool" where
  "PowerupEqual left right \<longleftrightarrow> sw_entity_id left = sw_entity_id right \<and>
     f32_eq (sw_position_x left) (sw_position_x right) \<and>
     f32_eq (sw_position_y left) (sw_position_y right) \<and> sw_type left = sw_type right \<and>
     sw_active left = sw_active right"

definition AppendWorldRecord ::
  "ShroomWorldStateRecord list \<Rightarrow> nat \<Rightarrow> ShroomWorldStateRecord \<Rightarrow> ShroomWorldStateRecord list option" where
  "AppendWorldRecord records capacity r =
     (if capacity \<le> length records then None else Some (records @ [r]))"

definition ShroomWorldReplicationInInterest :: "ShroomVec2 \<Rightarrow> ShroomVec2 \<Rightarrow> bool" where
  "ShroomWorldReplicationInInterest center position =
     (let radius = SHROOM_WORLD_REPLICATION_INTEREST_RADIUS;
          delta_x = f32_sub (v2_x center) (v2_x position);
          delta_y = f32_sub (v2_y center) (v2_y position)
      in f32_le (f32_add (f32_mul delta_x delta_x) (f32_mul delta_y delta_y)) (f32_mul radius radius))"

definition spore_current :: "ShroomWorldState \<Rightarrow> ShroomVec2 \<Rightarrow> nat \<Rightarrow> bool" where
  "spore_current world center index \<longleftrightarrow>
     index < ws_spore_count world \<and> spo_active (ws_spores world ! index) \<and>
     ShroomWorldReplicationInInterest center (spo_position (ws_spores world ! index))"

definition spore_snapshot :: "ShroomWorldState \<Rightarrow> nat \<Rightarrow> ShroomSnapshotSporeState" where
  "spore_snapshot world index =
     (let spore = ws_spores world ! index
      in \<lparr>ss_entity_id = spo_entity_id spore, ss_position_x = v2_x (spo_position spore),
          ss_position_y = v2_y (spo_position spore), ss_value = spo_value spore\<rparr>)"

definition powerup_current :: "ShroomWorldState \<Rightarrow> ShroomVec2 \<Rightarrow> nat \<Rightarrow> bool" where
  "powerup_current world center index \<longleftrightarrow>
     index < ws_powerup_count world \<and> pow_active (ws_powerups world ! index) \<and>
     ShroomWorldReplicationInInterest center (pow_position (ws_powerups world ! index))"

definition powerup_snapshot :: "ShroomWorldState \<Rightarrow> nat \<Rightarrow> ShroomSnapshotPowerupState" where
  "powerup_snapshot world index =
     (let powerup = ws_powerups world ! index
      in \<lparr>sw_entity_id = pow_entity_id powerup, sw_position_x = v2_x (pow_position powerup),
          sw_position_y = v2_y (pow_position powerup), sw_type = ucast (pow_type powerup),
          sw_active = 1\<rparr>)"

text \<open>One slot of the spore loop; \<open>Inl\<close> is the early return with the peer state reached.\<close>

fun build_spores ::
  "bool \<Rightarrow> ShroomWorldState \<Rightarrow> ShroomVec2 \<Rightarrow> nat \<Rightarrow> nat list \<Rightarrow> ShroomWorldReplicationPeerState \<Rightarrow>
     ShroomWorldStateRecord list \<Rightarrow>
     ShroomWorldReplicationPeerState + (ShroomWorldReplicationPeerState \<times> ShroomWorldStateRecord list)" where
  "build_spores keyframe world center capacity [] peer records = Inr (peer, records)"
| "build_spores keyframe world center capacity (index # indices) peer records =
     (let current = spore_current world center index;
          snapshot = spore_snapshot world index;
          operation = (if current then
                         (if keyframe \<or> \<not> rp_spore_known peer ! index then SHROOM_WORLD_RECORD_SPAWN
                          else if \<not> SporeEqual snapshot (rp_spores peer ! index)
                          then SHROOM_WORLD_RECORD_UPDATE else 0)
                       else if \<not> keyframe \<and> rp_spore_known peer ! index
                       then SHROOM_WORLD_RECORD_REMOVE else 0);
          appended = (if operation = 0 then Some records
                      else AppendWorldRecord records capacity
                        \<lparr>wr_entity_id = (if current then ss_entity_id snapshot
                                          else ss_entity_id (rp_spores peer ! index)),
                         wr_position_x = ss_position_x snapshot, wr_position_y = ss_position_y snapshot,
                         wr_value = ss_value snapshot, wr_entity_kind = SHROOM_WORLD_ENTITY_SPORE,
                         wr_operation = operation, wr_powerup_type = 0\<rparr>)
      in case appended of
           None \<Rightarrow> Inl peer
         | Some records \<Rightarrow>
             build_spores keyframe world center capacity indices
               (peer\<lparr>rp_spore_known := (rp_spore_known peer)[index := current],
                     rp_spores := (if current then (rp_spores peer)[index := snapshot]
                                   else rp_spores peer)\<rparr>) records)"

fun build_powerups ::
  "bool \<Rightarrow> ShroomWorldState \<Rightarrow> ShroomVec2 \<Rightarrow> nat \<Rightarrow> nat list \<Rightarrow> ShroomWorldReplicationPeerState \<Rightarrow>
     ShroomWorldStateRecord list \<Rightarrow>
     ShroomWorldReplicationPeerState + (ShroomWorldReplicationPeerState \<times> ShroomWorldStateRecord list)" where
  "build_powerups keyframe world center capacity [] peer records = Inr (peer, records)"
| "build_powerups keyframe world center capacity (index # indices) peer records =
     (let current = powerup_current world center index;
          snapshot = powerup_snapshot world index;
          operation = (if current then
                         (if keyframe \<or> \<not> rp_powerup_known peer ! index then SHROOM_WORLD_RECORD_SPAWN
                          else if \<not> PowerupEqual snapshot (rp_powerups peer ! index)
                          then SHROOM_WORLD_RECORD_UPDATE else 0)
                       else if \<not> keyframe \<and> rp_powerup_known peer ! index
                       then SHROOM_WORLD_RECORD_REMOVE else 0);
          appended = (if operation = 0 then Some records
                      else AppendWorldRecord records capacity
                        \<lparr>wr_entity_id = (if current then sw_entity_id snapshot
                                          else sw_entity_id (rp_powerups peer ! index)),
                         wr_position_x = sw_position_x snapshot, wr_position_y = sw_position_y snapshot,
                         wr_value = 0, wr_entity_kind = SHROOM_WORLD_ENTITY_POWERUP,
                         wr_operation = operation, wr_powerup_type = sw_type snapshot\<rparr>)
      in case appended of
           None \<Rightarrow> Inl peer
         | Some records \<Rightarrow>
             build_powerups keyframe world center capacity indices
               (peer\<lparr>rp_powerup_known := (rp_powerup_known peer)[index := current],
                     rp_powerups := (if current then (rp_powerups peer)[index := snapshot]
                                     else rp_powerups peer)\<rparr>) records)"

text \<open>A known slot that now shows another entity forces a keyframe.\<close>

definition spore_replaced :: "ShroomWorldReplicationPeerState \<Rightarrow> ShroomWorldState \<Rightarrow> ShroomVec2 \<Rightarrow> nat \<Rightarrow> bool" where
  "spore_replaced peer world center index \<longleftrightarrow>
     rp_spore_known peer ! index \<and> spo_active (ws_spores world ! index) \<and>
     ShroomWorldReplicationInInterest center (spo_position (ws_spores world ! index)) \<and>
     ss_entity_id (rp_spores peer ! index) \<noteq> spo_entity_id (ws_spores world ! index)"

definition powerup_replaced :: "ShroomWorldReplicationPeerState \<Rightarrow> ShroomWorldState \<Rightarrow> ShroomVec2 \<Rightarrow> nat \<Rightarrow> bool" where
  "powerup_replaced peer world center index \<longleftrightarrow>
     rp_powerup_known peer ! index \<and> pow_active (ws_powerups world ! index) \<and>
     ShroomWorldReplicationInInterest center (pow_position (ws_powerups world ! index)) \<and>
     sw_entity_id (rp_powerups peer ! index) \<noteq> pow_entity_id (ws_powerups world ! index)"

definition keyframe_due ::
  "ShroomWorldReplicationPeerState \<Rightarrow> ShroomWorldState \<Rightarrow> ShroomVec2 \<Rightarrow> bool \<Rightarrow> bool" where
  "keyframe_due peer world center force_keyframe \<longleftrightarrow>
     force_keyframe \<or> \<not> rp_initialized peer \<or> ws_tick world < rp_last_keyframe_tick peer \<or>
     SHROOM_WORLD_REPLICATION_KEYFRAME_TICKS \<le> ws_tick world - rp_last_keyframe_tick peer \<or>
     list_ex (spore_replaced peer world center) [0..<ws_spore_count world] \<or>
     list_ex (powerup_replaced peer world center) [0..<ws_powerup_count world]"

definition zero_batch :: ShroomWorldReplicationBatch where
  "zero_batch = \<lparr>rb_tick = 0, rb_record_count = 0, rb_keyframe = False\<rparr>"

definition ShroomWorldReplicationBuild ::
  "ShroomWorldReplicationPeerState \<Rightarrow> ShroomWorldState \<Rightarrow> ShroomVec2 \<Rightarrow> bool \<Rightarrow> nat \<Rightarrow>
     ShroomWorldReplicationBatch \<times> ShroomWorldReplicationPeerState \<times> ShroomWorldStateRecord list" where
  "ShroomWorldReplicationBuild peer world interest_center force_keyframe record_capacity =
     (let keyframe = keyframe_due peer world interest_center force_keyframe
      in case build_spores keyframe world interest_center record_capacity [0..<SHROOM_MAX_SPORES] peer [] of
           Inl peer \<Rightarrow> (zero_batch, peer, [])
         | Inr (peer, records) \<Rightarrow>
             (case build_powerups keyframe world interest_center record_capacity
                     [0..<SHROOM_MAX_POWERUPS] peer records of
                Inl peer \<Rightarrow> (zero_batch, peer, [])
              | Inr (peer, records) \<Rightarrow>
                  (\<lparr>rb_tick = ws_tick world, rb_record_count = length records, rb_keyframe = keyframe\<rparr>,
                   peer\<lparr>rp_initialized := True,
                        rp_last_keyframe_tick := (if keyframe then ws_tick world
                                                  else rp_last_keyframe_tick peer)\<rparr>,
                   records)))"

definition ShroomWorldReplicationPacketCount :: "nat \<Rightarrow> nat" where
  "ShroomWorldReplicationPacketCount record_count =
     (let per_packet = unat ShroomWorldStatePacketMaxRecords
      in if record_count = 0 then 1 else (record_count + per_packet - 1) div per_packet)"

definition ShroomWorldReplicationPacketBytes :: "nat \<Rightarrow> nat" where
  "ShroomWorldReplicationPacketBytes record_count =
     ShroomWorldReplicationPacketCount record_count * offset_of ShroomWorldStatePacket_layout 7 +
     record_count * size_of ShroomWorldStateRecord_layout"

text \<open>The packets of a batch; the loop body of \<open>SendWorldState\<close> for one chunk.\<close>

definition world_packet_size :: "ShroomWorldStatePacket \<Rightarrow> nat" where
  "world_packet_size packet = offset_of ShroomWorldStatePacket_layout 7 +
     unat (wp_record_count packet) * size_of ShroomWorldStateRecord_layout"

definition world_packet ::
  "ShroomWorldReplicationBatch \<Rightarrow> ShroomWorldStateRecord list \<Rightarrow> nat \<Rightarrow> nat \<Rightarrow> ShroomWorldStatePacket" where
  "world_packet batch records chunk_count chunk_index =
     (let records_per_packet = unat ShroomWorldStatePacketMaxRecords;
          record_start = chunk_index * records_per_packet;
          remaining = rb_record_count batch - record_start;
          record_count = (word_of_nat (if remaining < records_per_packet then remaining else records_per_packet) :: u8);
          packet_size = offset_of ShroomWorldStatePacket_layout 7 +
            unat record_count * size_of ShroomWorldStateRecord_layout;
          header = ShroomPacketHeaderInit (Some \<lparr>ph_type = 0, ph_reserved = 0, ph_size = 0\<rparr>)
            SHROOM_PACKET_WORLD_STATE (word_of_nat packet_size)
      in \<lparr>wp_header = (case header of Some h \<Rightarrow> h | None \<Rightarrow> \<lparr>ph_type = 0, ph_reserved = 0, ph_size = 0\<rparr>),
          wp_tick = rb_tick batch, wp_chunk_index = word_of_nat chunk_index,
          wp_chunk_count = word_of_nat chunk_count,
          wp_flags = (if rb_keyframe batch then SHROOM_WORLD_STATE_FLAG_KEYFRAME else 0),
          wp_record_count = record_count,
          wp_records = take (unat record_count) (drop record_start records)\<rparr>)"

definition SendWorldState_packets ::
  "ShroomWorldReplicationBatch \<Rightarrow> ShroomWorldStateRecord list \<Rightarrow> ShroomWorldStatePacket list" where
  "SendWorldState_packets batch records =
     (let chunk_count = unat (word_of_nat (ShroomWorldReplicationPacketCount (rb_record_count batch)) :: u16)
      in if \<not> rb_keyframe batch \<and> rb_record_count batch = 0 then []
         else map (world_packet batch records chunk_count) [0..<chunk_count])"

section \<open>The records of a batch\<close>

text \<open>What one slot contributes to a batch, and the slots a peer knows.\<close>

definition spore_record :: "ShroomWorldState \<Rightarrow> nat \<Rightarrow> u32 \<Rightarrow> u8 \<Rightarrow> ShroomWorldStateRecord" where
  "spore_record world i e operation =
     \<lparr>wr_entity_id = e, wr_position_x = ss_position_x (spore_snapshot world i),
      wr_position_y = ss_position_y (spore_snapshot world i), wr_value = ss_value (spore_snapshot world i),
      wr_entity_kind = SHROOM_WORLD_ENTITY_SPORE, wr_operation = operation, wr_powerup_type = 0\<rparr>"

definition spore_records ::
  "bool \<Rightarrow> ShroomWorldState \<Rightarrow> ShroomVec2 \<Rightarrow> ShroomWorldReplicationPeerState \<Rightarrow> nat \<Rightarrow> ShroomWorldStateRecord list" where
  "spore_records keyframe world center peer i =
     (if spore_current world center i then
        (if keyframe \<or> \<not> rp_spore_known peer ! i
         then [spore_record world i (ss_entity_id (spore_snapshot world i)) SHROOM_WORLD_RECORD_SPAWN]
         else if \<not> SporeEqual (spore_snapshot world i) (rp_spores peer ! i)
         then [spore_record world i (ss_entity_id (spore_snapshot world i)) SHROOM_WORLD_RECORD_UPDATE]
         else [])
      else if \<not> keyframe \<and> rp_spore_known peer ! i
      then [spore_record world i (ss_entity_id (rp_spores peer ! i)) SHROOM_WORLD_RECORD_REMOVE]
      else [])"

definition powerup_record :: "ShroomWorldState \<Rightarrow> nat \<Rightarrow> u32 \<Rightarrow> u8 \<Rightarrow> ShroomWorldStateRecord" where
  "powerup_record world i e operation =
     \<lparr>wr_entity_id = e, wr_position_x = sw_position_x (powerup_snapshot world i),
      wr_position_y = sw_position_y (powerup_snapshot world i), wr_value = 0,
      wr_entity_kind = SHROOM_WORLD_ENTITY_POWERUP, wr_operation = operation,
      wr_powerup_type = sw_type (powerup_snapshot world i)\<rparr>"

definition powerup_records ::
  "bool \<Rightarrow> ShroomWorldState \<Rightarrow> ShroomVec2 \<Rightarrow> ShroomWorldReplicationPeerState \<Rightarrow> nat \<Rightarrow> ShroomWorldStateRecord list" where
  "powerup_records keyframe world center peer i =
     (if powerup_current world center i then
        (if keyframe \<or> \<not> rp_powerup_known peer ! i
         then [powerup_record world i (sw_entity_id (powerup_snapshot world i)) SHROOM_WORLD_RECORD_SPAWN]
         else if \<not> PowerupEqual (powerup_snapshot world i) (rp_powerups peer ! i)
         then [powerup_record world i (sw_entity_id (powerup_snapshot world i)) SHROOM_WORLD_RECORD_UPDATE]
         else [])
      else if \<not> keyframe \<and> rp_powerup_known peer ! i
      then [powerup_record world i (sw_entity_id (rp_powerups peer ! i)) SHROOM_WORLD_RECORD_REMOVE]
      else [])"

definition peer_ok :: "ShroomWorldReplicationPeerState \<Rightarrow> bool" where
  "peer_ok peer \<longleftrightarrow> length (rp_spore_known peer) = 4096 \<and> length (rp_spores peer) = 4096 \<and>
     length (rp_powerup_known peer) = 8 \<and> length (rp_powerups peer) = 8"

lemma slot_records_length:
  "length (spore_records keyframe world center peer i) \<le> 1"
  "length (powerup_records keyframe world center peer i) \<le> 1"
  by (simp_all add: spore_records_def powerup_records_def)

lemma slot_lengths:
  "length (concat (map (spore_records keyframe world center peer) is)) \<le> length is"
  "length (concat (map (powerup_records keyframe world center peer) is)) \<le> length is"
  using slot_records_length by (induction "is") (auto intro: add_le_mono [of _ 1, simplified])

lemma build_spores_records:
  assumes "distinct is" and "\<forall>i \<in> set is. i < 4096" and "peer_ok peer"
    and "length records + length is \<le> capacity"
  shows "\<exists>peer'. build_spores keyframe world center capacity is peer records =
      Inr (peer', records @ concat (map (spore_records keyframe world center peer) is)) \<and> peer_ok peer' \<and>
    (\<forall>i < 4096. rp_spore_known peer' ! i = (if i \<in> set is then spore_current world center i else rp_spore_known peer ! i) \<and>
       rp_spores peer' ! i = (if i \<in> set is \<and> spore_current world center i then spore_snapshot world i else rp_spores peer ! i)) \<and>
    rp_powerup_known peer' = rp_powerup_known peer \<and> rp_powerups peer' = rp_powerups peer \<and>
    rp_initialized peer' = rp_initialized peer \<and> rp_last_keyframe_tick peer' = rp_last_keyframe_tick peer"
  using assms
proof (induction "is" arbitrary: peer records)
  case Nil
  then show ?case by simp
next
  case (Cons i "is")
  let ?current = "spore_current world center i"
  let ?peer = "peer\<lparr>rp_spore_known := (rp_spore_known peer)[i := ?current],
     rp_spores := (if ?current then (rp_spores peer)[i := spore_snapshot world i] else rp_spores peer)\<rparr>"
  let ?records = "records @ spore_records keyframe world center peer i"
  from Cons.prems have i: "i < 4096" "i \<notin> set is" and room: "length records < capacity" by auto
  have step: "build_spores keyframe world center capacity (i # is) peer records =
      build_spores keyframe world center capacity is ?peer ?records"
    using room by (auto simp: Let_def AppendWorldRecord_def spore_records_def spore_record_def)
  have ok: "peer_ok ?peer" using Cons.prems(3) by (simp add: peer_ok_def)
  have tail: "distinct is" "\<forall>i \<in> set is. i < 4096" using Cons.prems(1,2) by simp_all
  have fits: "length ?records + length is \<le> capacity"
    using Cons.prems(4) slot_records_length(1) [of keyframe world center peer i] by simp
  from Cons.IH [OF tail ok fits] obtain peer' where ih:
    "build_spores keyframe world center capacity is ?peer ?records =
      Inr (peer', ?records @ concat (map (spore_records keyframe world center ?peer) is))" "peer_ok peer'"
    "\<forall>j < 4096. rp_spore_known peer' ! j = (if j \<in> set is then spore_current world center j else rp_spore_known ?peer ! j) \<and>
       rp_spores peer' ! j = (if j \<in> set is \<and> spore_current world center j then spore_snapshot world j else rp_spores ?peer ! j)"
    "rp_powerup_known peer' = rp_powerup_known peer" "rp_powerups peer' = rp_powerups peer"
    "rp_initialized peer' = rp_initialized peer" "rp_last_keyframe_tick peer' = rp_last_keyframe_tick peer"
    by simp blast
  have "spore_records keyframe world center ?peer j = spore_records keyframe world center peer j"
    if "j \<in> set is" for j
  proof -
    have "i \<noteq> j" using i(2) that by auto
    then show ?thesis by (simp add: spore_records_def)
  qed
  then have "map (spore_records keyframe world center ?peer) is = map (spore_records keyframe world center peer) is"
    by simp
  with ih(1) have "build_spores keyframe world center capacity (i # is) peer records =
      Inr (peer', records @ concat (map (spore_records keyframe world center peer) (i # is)))"
    unfolding step by simp
  moreover have "rp_spore_known peer' ! j = (if j \<in> set (i # is) then spore_current world center j else rp_spore_known peer ! j) \<and>
      rp_spores peer' ! j = (if j \<in> set (i # is) \<and> spore_current world center j then spore_snapshot world j else rp_spores peer ! j)"
    if "j < 4096" for j
    using ih(3) that i Cons.prems(3) by (cases "j = i") (auto simp: peer_ok_def)
  ultimately show ?case using ih(2,4-7) by blast
qed

lemma build_powerups_records:
  assumes "distinct is" and "\<forall>i \<in> set is. i < 8" and "peer_ok peer"
    and "length records + length is \<le> capacity"
  shows "\<exists>peer'. build_powerups keyframe world center capacity is peer records =
      Inr (peer', records @ concat (map (powerup_records keyframe world center peer) is)) \<and> peer_ok peer' \<and>
    (\<forall>i < 8. rp_powerup_known peer' ! i = (if i \<in> set is then powerup_current world center i else rp_powerup_known peer ! i) \<and>
       rp_powerups peer' ! i = (if i \<in> set is \<and> powerup_current world center i then powerup_snapshot world i else rp_powerups peer ! i)) \<and>
    rp_spore_known peer' = rp_spore_known peer \<and> rp_spores peer' = rp_spores peer \<and>
    rp_initialized peer' = rp_initialized peer \<and> rp_last_keyframe_tick peer' = rp_last_keyframe_tick peer"
  using assms
proof (induction "is" arbitrary: peer records)
  case Nil
  then show ?case by simp
next
  case (Cons i "is")
  let ?current = "powerup_current world center i"
  let ?peer = "peer\<lparr>rp_powerup_known := (rp_powerup_known peer)[i := ?current],
     rp_powerups := (if ?current then (rp_powerups peer)[i := powerup_snapshot world i] else rp_powerups peer)\<rparr>"
  let ?records = "records @ powerup_records keyframe world center peer i"
  from Cons.prems have i: "i < 8" "i \<notin> set is" and room: "length records < capacity" by auto
  have step: "build_powerups keyframe world center capacity (i # is) peer records =
      build_powerups keyframe world center capacity is ?peer ?records"
    using room by (auto simp: Let_def AppendWorldRecord_def powerup_records_def powerup_record_def)
  have ok: "peer_ok ?peer" using Cons.prems(3) by (simp add: peer_ok_def)
  have tail: "distinct is" "\<forall>i \<in> set is. i < 8" using Cons.prems(1,2) by simp_all
  have fits: "length ?records + length is \<le> capacity"
    using Cons.prems(4) slot_records_length(2) [of keyframe world center peer i] by simp
  from Cons.IH [OF tail ok fits] obtain peer' where ih:
    "build_powerups keyframe world center capacity is ?peer ?records =
      Inr (peer', ?records @ concat (map (powerup_records keyframe world center ?peer) is))" "peer_ok peer'"
    "\<forall>j < 8. rp_powerup_known peer' ! j = (if j \<in> set is then powerup_current world center j else rp_powerup_known ?peer ! j) \<and>
       rp_powerups peer' ! j = (if j \<in> set is \<and> powerup_current world center j then powerup_snapshot world j else rp_powerups ?peer ! j)"
    "rp_spore_known peer' = rp_spore_known peer" "rp_spores peer' = rp_spores peer"
    "rp_initialized peer' = rp_initialized peer" "rp_last_keyframe_tick peer' = rp_last_keyframe_tick peer"
    by simp blast
  have "powerup_records keyframe world center ?peer j = powerup_records keyframe world center peer j"
    if "j \<in> set is" for j
  proof -
    have "i \<noteq> j" using i(2) that by auto
    then show ?thesis by (simp add: powerup_records_def)
  qed
  then have "map (powerup_records keyframe world center ?peer) is = map (powerup_records keyframe world center peer) is"
    by simp
  with ih(1) have "build_powerups keyframe world center capacity (i # is) peer records =
      Inr (peer', records @ concat (map (powerup_records keyframe world center peer) (i # is)))"
    unfolding step by simp
  moreover have "rp_powerup_known peer' ! j = (if j \<in> set (i # is) then powerup_current world center j else rp_powerup_known peer ! j) \<and>
      rp_powerups peer' ! j = (if j \<in> set (i # is) \<and> powerup_current world center j then powerup_snapshot world j else rp_powerups peer ! j)"
    if "j < 8" for j
    using ih(3) that i Cons.prems(3) by (cases "j = i") (auto simp: peer_ok_def)
  ultimately show ?case using ih(2,4-7) by blast
qed

definition batch_records ::
  "bool \<Rightarrow> ShroomWorldState \<Rightarrow> ShroomVec2 \<Rightarrow> ShroomWorldReplicationPeerState \<Rightarrow> ShroomWorldStateRecord list" where
  "batch_records keyframe world center peer =
     concat (map (spore_records keyframe world center peer) [0..<4096]) @
     concat (map (powerup_records keyframe world center peer) [0..<8])"

text \<open>The peer state after a batch: a slot is known exactly when it is current.\<close>

definition peer_after ::
  "ShroomWorldState \<Rightarrow> ShroomVec2 \<Rightarrow> ShroomWorldReplicationPeerState \<Rightarrow> ShroomWorldReplicationPeerState \<Rightarrow> bool" where
  "peer_after world center peer peer' \<longleftrightarrow> peer_ok peer' \<and>
     (\<forall>i < 4096. rp_spore_known peer' ! i = spore_current world center i \<and>
        rp_spores peer' ! i = (if spore_current world center i then spore_snapshot world i else rp_spores peer ! i)) \<and>
     (\<forall>i < 8. rp_powerup_known peer' ! i = powerup_current world center i \<and>
        rp_powerups peer' ! i = (if powerup_current world center i then powerup_snapshot world i else rp_powerups peer ! i))"

lemma batch_records_length: "length (batch_records keyframe world center peer) \<le> 4104"
  using slot_lengths(1) [of keyframe world center peer "[0..<4096]"]
    slot_lengths(2) [of keyframe world center peer "[0..<8]"] by (simp add: batch_records_def)

lemma Build_records:
  assumes ok: "peer_ok peer"
  obtains peer' where
    "ShroomWorldReplicationBuild peer world center force SHROOM_MAX_WORLD_STATE_RECORDS =
      (\<lparr>rb_tick = ws_tick world,
        rb_record_count = length (batch_records (keyframe_due peer world center force) world center peer),
        rb_keyframe = keyframe_due peer world center force\<rparr>, peer',
       batch_records (keyframe_due peer world center force) world center peer)"
    "peer_after world center peer peer'"
    "rp_initialized peer'"
    "rp_last_keyframe_tick peer' =
      (if keyframe_due peer world center force then ws_tick world else rp_last_keyframe_tick peer)"
proof -
  let ?k = "keyframe_due peer world center force"
  let ?rs = "concat (map (spore_records ?k world center peer) [0..<4096])"
  have cap: "SHROOM_MAX_WORLD_STATE_RECORDS = 4104"
    by (simp add: SHROOM_MAX_WORLD_STATE_RECORDS_def SHROOM_MAX_SPORES_def SHROOM_MAX_POWERUPS_def)
  obtain p1 where p1: "build_spores ?k world center 4104 [0..<4096] peer [] = Inr (p1, ?rs)" "peer_ok p1"
    "\<forall>i < 4096. rp_spore_known p1 ! i = spore_current world center i \<and>
       rp_spores p1 ! i = (if spore_current world center i then spore_snapshot world i else rp_spores peer ! i)"
    "rp_powerup_known p1 = rp_powerup_known peer" "rp_powerups p1 = rp_powerups peer"
    "rp_initialized p1 = rp_initialized peer" "rp_last_keyframe_tick p1 = rp_last_keyframe_tick peer"
    using build_spores_records [of "[0..<4096]" peer "[]" 4104 ?k world center] ok by auto
  have same: "powerup_records ?k world center p1 = powerup_records ?k world center peer"
    by (rule ext) (simp add: powerup_records_def p1(4,5))
  have "length ?rs + length [0..<8] \<le> 4104"
    using slot_lengths(1) [of ?k world center peer "[0..<4096]"] by simp
  then obtain p2 where p2: "build_powerups ?k world center 4104 [0..<8] p1 ?rs = Inr (p2, batch_records ?k world center peer)"
    "peer_ok p2"
    "\<forall>i < 8. rp_powerup_known p2 ! i = powerup_current world center i \<and>
       rp_powerups p2 ! i = (if powerup_current world center i then powerup_snapshot world i else rp_powerups peer ! i)"
    "rp_spore_known p2 = rp_spore_known p1" "rp_spores p2 = rp_spores p1"
    "rp_initialized p2 = rp_initialized p1" "rp_last_keyframe_tick p2 = rp_last_keyframe_tick p1"
    using build_powerups_records [of "[0..<8]" p1 ?rs 4104 ?k world center] p1(2,5)
    by (auto simp: same batch_records_def)
  let ?peer = "p2\<lparr>rp_initialized := True,
    rp_last_keyframe_tick := (if ?k then ws_tick world else rp_last_keyframe_tick p2)\<rparr>"
  show thesis
  proof (rule that [of ?peer])
    show "ShroomWorldReplicationBuild peer world center force SHROOM_MAX_WORLD_STATE_RECORDS =
      (\<lparr>rb_tick = ws_tick world, rb_record_count = length (batch_records ?k world center peer),
        rb_keyframe = ?k\<rparr>, ?peer, batch_records ?k world center peer)"
      unfolding ShroomWorldReplicationBuild_def Let_def cap SHROOM_MAX_SPORES_def SHROOM_MAX_POWERUPS_def
        p1(1) sum.case prod.case p2(1) by (rule refl)
    show "peer_after world center peer ?peer"
      using p1(3) p2(2-5) by (simp add: peer_after_def peer_ok_def)
  qed (simp_all add: p1(7) p2(7))
qed

section \<open>The packets of a batch\<close>

lemma packet_count_le: "n \<le> 4104 \<Longrightarrow> ShroomWorldReplicationPacketCount n \<le> 71"
  by (simp add: ShroomWorldReplicationPacketCount_def size_simps) linarith

lemma packet_count_covers: "n \<le> 58 * ShroomWorldReplicationPacketCount n"
  by (simp add: ShroomWorldReplicationPacketCount_def size_simps) linarith

lemma packet_count_pos: "0 < ShroomWorldReplicationPacketCount n"
  by (simp add: ShroomWorldReplicationPacketCount_def size_simps) linarith

lemma concat_slices:
  "0 < m \<Longrightarrow> concat (map (\<lambda>i. take m (drop (i * m) xs)) [0..<n]) = take (n * m) xs"
proof (induction n)
  case 0
  then show ?case by simp
next
  case (Suc n)
  then show ?case by (simp add: take_add add.commute [of m])
qed

lemma world_packet_fields:
  assumes "rb_record_count batch = length records"
  shows "wp_records (world_packet batch records n i) = take 58 (drop (i * 58) records)"
    and "unat (wp_record_count (world_packet batch records n i)) = length (take 58 (drop (i * 58) records))"
    and "wp_tick (world_packet batch records n i) = rb_tick batch"
    and "wp_chunk_index (world_packet batch records n i) = word_of_nat i"
    and "wp_chunk_count (world_packet batch records n i) = word_of_nat n"
    and "wp_flags (world_packet batch records n i) = (if rb_keyframe batch then 1 else 0)"
    and "ph_type (wp_header (world_packet batch records n i)) = 29"
    and "ph_size (wp_header (world_packet batch records n i)) =
      word_of_nat (world_packet_size (world_packet batch records n i))"
proof -
  have small: "unat (word_of_nat m :: u8) = m" if "m \<le> 58" for m using that by (simp add: unat_of_nat)
  have len: "(if rb_record_count batch - i * 58 < 58 then rb_record_count batch - i * 58 else 58) =
      length (take 58 (drop (i * 58) records))"
    using assms by simp
  then show "wp_records (world_packet batch records n i) = take 58 (drop (i * 58) records)"
    "unat (wp_record_count (world_packet batch records n i)) = length (take 58 (drop (i * 58) records))"
    by (simp_all add: world_packet_def Let_def size_simps small min_def)
  show "wp_tick (world_packet batch records n i) = rb_tick batch"
    "wp_chunk_index (world_packet batch records n i) = word_of_nat i"
    "wp_chunk_count (world_packet batch records n i) = word_of_nat n"
    "wp_flags (world_packet batch records n i) = (if rb_keyframe batch then 1 else 0)"
    "ph_type (wp_header (world_packet batch records n i)) = 29"
    "ph_size (wp_header (world_packet batch records n i)) =
      word_of_nat (world_packet_size (world_packet batch records n i))"
    by (simp_all add: world_packet_def Let_def ShroomPacketHeaderInit_def world_packet_size_def)
qed

end
