(* ===== verification/World_Client.thy ===== *)
theory World_Client
  imports World_Replication
begin

text \<open>
  The client side of spore and powerup replication (\<open>ApplyRecord\<close>,
  \<open>ShroomWorldReplicationApplyPacket\<close> of \<open>src/shared/world_replication.c\<close>): both
  stores obey the laws of an identifier-keyed store with a capacity, stated as a locale, and the
  effect of a sequence of records follows from the laws.
\<close>

section \<open>Definitions\<close>

definition FindSpore :: "ShroomSnapshotSporeState list \<Rightarrow> u32 \<Rightarrow> nat option" where
  "FindSpore spores entity_id = find_index (\<lambda>s. ss_entity_id s = entity_id) spores"

definition FindPowerup :: "ShroomSnapshotPowerupState list \<Rightarrow> u32 \<Rightarrow> nat option" where
  "FindPowerup powerups entity_id = find_index (\<lambda>p. sw_entity_id p = entity_id) powerups"

definition IdInList :: "u32 list \<Rightarrow> u32 \<Rightarrow> bool" where
  "IdInList ids i \<longleftrightarrow> list_ex (\<lambda>x. x = i) ids"

definition RememberId :: "u32 list \<Rightarrow> nat \<Rightarrow> u32 \<Rightarrow> u32 list" where
  "RememberId ids capacity i = (if \<not> IdInList ids i \<and> length ids < capacity then ids @ [i] else ids)"

definition RemoveSpore :: "ShroomSnapshotSporeState list \<Rightarrow> nat \<Rightarrow> ShroomSnapshotSporeState list" where
  "RemoveSpore spores index = remove_at index spores"

definition RemovePowerup :: "ShroomSnapshotPowerupState list \<Rightarrow> nat \<Rightarrow> ShroomSnapshotPowerupState list" where
  "RemovePowerup powerups index = remove_at index powerups"

definition record_spore :: "ShroomWorldStateRecord \<Rightarrow> ShroomSnapshotSporeState" where
  "record_spore r = \<lparr>ss_entity_id = wr_entity_id r, ss_position_x = wr_position_x r,
     ss_position_y = wr_position_y r, ss_value = wr_value r\<rparr>"

definition record_powerup :: "ShroomWorldStateRecord \<Rightarrow> ShroomSnapshotPowerupState" where
  "record_powerup r = \<lparr>sw_entity_id = wr_entity_id r, sw_position_x = wr_position_x r,
     sw_position_y = wr_position_y r, sw_type = wr_powerup_type r, sw_active = 1\<rparr>"

definition apply_spore :: "ShroomSnapshotSporeState list \<Rightarrow> ShroomWorldStateRecord \<Rightarrow> ShroomSnapshotSporeState list" where
  "apply_spore spores r =
     (let index = FindSpore spores (wr_entity_id r)
      in if wr_operation r = SHROOM_WORLD_RECORD_REMOVE
         then (case index of None \<Rightarrow> spores | Some i \<Rightarrow> RemoveSpore spores i)
         else if wr_operation r = SHROOM_WORLD_RECORD_SPAWN \<or> wr_operation r = SHROOM_WORLD_RECORD_UPDATE
         then (case index of
                 Some i \<Rightarrow> spores[i := record_spore r]
               | None \<Rightarrow> if length spores < SHROOM_MAX_SPORES then spores @ [record_spore r] else spores)
         else spores)"

definition apply_powerup ::
  "ShroomSnapshotPowerupState list \<Rightarrow> ShroomWorldStateRecord \<Rightarrow> ShroomSnapshotPowerupState list" where
  "apply_powerup powerups r =
     (let index = FindPowerup powerups (wr_entity_id r)
      in if wr_operation r = SHROOM_WORLD_RECORD_REMOVE
         then (case index of None \<Rightarrow> powerups | Some i \<Rightarrow> RemovePowerup powerups i)
         else if wr_operation r = SHROOM_WORLD_RECORD_SPAWN \<or> wr_operation r = SHROOM_WORLD_RECORD_UPDATE
         then (case index of
                 Some i \<Rightarrow> powerups[i := record_powerup r]
               | None \<Rightarrow> if length powerups < SHROOM_MAX_POWERUPS then powerups @ [record_powerup r] else powerups)
         else powerups)"

definition ApplyRecord ::
  "ShroomSnapshotSporeState list \<times> ShroomSnapshotPowerupState list \<Rightarrow> ShroomWorldStateRecord \<Rightarrow>
     ShroomSnapshotSporeState list \<times> ShroomSnapshotPowerupState list" where
  "ApplyRecord stores r =
     (if wr_entity_kind r = SHROOM_WORLD_ENTITY_SPORE then (apply_spore (fst stores) r, snd stores)
      else if wr_entity_kind r = SHROOM_WORLD_ENTITY_POWERUP then (fst stores, apply_powerup (snd stores) r)
      else stores)"

definition KeyframeComplete :: "ShroomWorldReplicationClientState \<Rightarrow> bool" where
  "KeyframeComplete st \<longleftrightarrow>
     list_all (chunk_received (rc_keyframe_chunks st)) [0..<unat (rc_keyframe_chunk_count st)]"

definition world_packet_acceptable ::
  "ShroomWorldReplicationClientState \<Rightarrow> ShroomWorldStatePacket \<Rightarrow> nat \<Rightarrow> bool" where
  "world_packet_acceptable st packet packet_size \<longleftrightarrow>
     (let header_size = offset_of ShroomWorldStatePacket_layout 7
      in \<not> (packet_size < header_size \<or>
            unat (ph_type (wp_header packet)) \<noteq> SHROOM_PACKET_WORLD_STATE \<or>
            unat (ph_size (wp_header packet)) \<noteq> packet_size \<or>
            wp_flags packet AND NOT SHROOM_WORLD_STATE_FLAG_KEYFRAME \<noteq> 0 \<or>
            wp_chunk_count packet = 0 \<or>
            SHROOM_WORLD_REPLICATION_MAX_CHUNKS < unat (wp_chunk_count packet) \<or>
            wp_chunk_count packet \<le> wp_chunk_index packet \<or>
            unat ShroomWorldStatePacketMaxRecords < unat (wp_record_count packet) \<or>
            packet_size \<noteq> header_size +
              unat (wp_record_count packet) * size_of ShroomWorldStateRecord_layout \<or>
            rc_tick_received st \<and> wp_tick packet < rc_latest_tick st))"

definition world_record_valid :: "ShroomWorldStateRecord \<Rightarrow> bool" where
  "world_record_valid r \<longleftrightarrow>
     \<not> (wr_entity_kind r \<noteq> SHROOM_WORLD_ENTITY_SPORE \<and> wr_entity_kind r \<noteq> SHROOM_WORLD_ENTITY_POWERUP \<or>
        wr_operation r < SHROOM_WORLD_RECORD_SPAWN \<or> SHROOM_WORLD_RECORD_REMOVE < wr_operation r \<or>
        wr_entity_id r = 0)"

definition note_tick ::
  "ShroomWorldReplicationClientState \<Rightarrow> u64 \<Rightarrow> ShroomWorldReplicationClientState" where
  "note_tick st tick =
     (if \<not> rc_tick_received st \<or> rc_latest_tick st < tick
      then st\<lparr>rc_tick_received := True, rc_latest_tick := tick,
              rc_keyframe_pending := (if rc_keyframe_pending st \<and> rc_keyframe_tick st < tick then False
                                      else rc_keyframe_pending st)\<rparr>
      else st)"

definition begin_keyframe ::
  "ShroomWorldReplicationClientState \<Rightarrow> ShroomWorldStatePacket \<Rightarrow> ShroomWorldReplicationClientState" where
  "begin_keyframe st packet =
     (if \<not> rc_keyframe_pending st \<or> rc_keyframe_tick st < wp_tick packet
      then st\<lparr>rc_keyframe_pending := True, rc_keyframe_tick := wp_tick packet,
              rc_keyframe_chunk_count := wp_chunk_count packet, rc_keyframe_chunks := no_chunks,
              rc_keyframe_spores := [], rc_keyframe_powerups := []\<rparr>
      else st)"

definition remember_record ::
  "bool \<Rightarrow> ShroomWorldReplicationClientState \<Rightarrow> ShroomWorldStateRecord \<Rightarrow> ShroomWorldReplicationClientState" where
  "remember_record keyframe st r =
     (if keyframe \<and> wr_operation r \<noteq> SHROOM_WORLD_RECORD_REMOVE
      then (if wr_entity_kind r = SHROOM_WORLD_ENTITY_SPORE
            then st\<lparr>rc_keyframe_spores := RememberId (rc_keyframe_spores st) SHROOM_MAX_SPORES (wr_entity_id r)\<rparr>
            else st\<lparr>rc_keyframe_powerups :=
                     RememberId (rc_keyframe_powerups st) SHROOM_MAX_POWERUPS (wr_entity_id r)\<rparr>)
      else st)"

fun apply_world_records ::
  "bool \<Rightarrow> ShroomWorldReplicationClientState \<Rightarrow>
     ShroomSnapshotSporeState list \<times> ShroomSnapshotPowerupState list \<Rightarrow> ShroomWorldStateRecord list \<Rightarrow>
     ShroomWorldReplicationClientState \<times>
       (ShroomSnapshotSporeState list \<times> ShroomSnapshotPowerupState list)" where
  "apply_world_records keyframe st stores [] = (st, stores)"
| "apply_world_records keyframe st stores (r # rs) =
     apply_world_records keyframe (remember_record keyframe st r) (ApplyRecord stores r) rs"

text \<open>The two removal loops run from the last entry to the first.\<close>

fun remove_unlisted_spores :: "u32 list \<Rightarrow> nat \<Rightarrow> ShroomSnapshotSporeState list \<Rightarrow> ShroomSnapshotSporeState list" where
  "remove_unlisted_spores ids 0 spores = spores"
| "remove_unlisted_spores ids (Suc index) spores =
     remove_unlisted_spores ids index
       (if \<not> IdInList ids (ss_entity_id (spores ! index)) then RemoveSpore spores index else spores)"

fun remove_unlisted_powerups ::
  "u32 list \<Rightarrow> nat \<Rightarrow> ShroomSnapshotPowerupState list \<Rightarrow> ShroomSnapshotPowerupState list" where
  "remove_unlisted_powerups ids 0 powerups = powerups"
| "remove_unlisted_powerups ids (Suc index) powerups =
     remove_unlisted_powerups ids index
       (if \<not> IdInList ids (sw_entity_id (powerups ! index)) then RemovePowerup powerups index else powerups)"

definition ShroomWorldReplicationApplyPacket ::
  "ShroomWorldReplicationClientState \<Rightarrow> ShroomSnapshotSporeState list \<times> ShroomSnapshotPowerupState list \<Rightarrow>
     ShroomWorldStatePacket \<Rightarrow> nat \<Rightarrow>
     bool \<times> ShroomWorldReplicationClientState \<times>
       (ShroomSnapshotSporeState list \<times> ShroomSnapshotPowerupState list)" where
  "ShroomWorldReplicationApplyPacket st stores packet packet_size =
     (if \<not> world_packet_acceptable st packet packet_size then (False, st, stores)
      else
        let keyframe = (wp_flags packet AND SHROOM_WORLD_STATE_FLAG_KEYFRAME \<noteq> 0);
            records = take (unat (wp_record_count packet)) (wp_records packet)
        in if \<not> list_all world_record_valid records then (False, st, stores)
           else
             let st = note_tick st (wp_tick packet);
                 st = (if keyframe then begin_keyframe st packet else st)
             in if keyframe \<and> (wp_tick packet \<noteq> rc_keyframe_tick st \<or>
                                wp_chunk_count packet \<noteq> rc_keyframe_chunk_count st)
                then (False, st, stores)
                else
                  case apply_world_records keyframe st stores records of
                    (st, stores) \<Rightarrow>
                      if \<not> keyframe then (True, st, stores)
                      else
                        let st = st\<lparr>rc_keyframe_chunks :=
                                     mark_chunk (rc_keyframe_chunks st) (unat (wp_chunk_index packet))\<rparr>
                        in if \<not> KeyframeComplete st then (True, st, stores)
                           else
                             (True, st\<lparr>rc_keyframe_pending := False\<rparr>,
                              remove_unlisted_spores (rc_keyframe_spores st) (length (fst stores)) (fst stores),
                              remove_unlisted_powerups (rc_keyframe_powerups st) (length (snd stores)) (snd stores)))"

section \<open>Keyed stores\<close>

text \<open>
  A client store: an array found by identifier in which a put overwrites the entry of the
  identifier or appends one while there is room, and a deletion removes the entry.
\<close>

locale keyed_store =
  fixes key :: "'a \<Rightarrow> u32" and put :: "'a list \<Rightarrow> 'a \<Rightarrow> 'a list" and del :: "'a list \<Rightarrow> u32 \<Rightarrow> 'a list"
    and capacity :: nat
  assumes put_lookup: "distinct (map key xs) \<Longrightarrow> lookup_by key xs (key x) \<noteq> None \<or> length xs < capacity \<Longrightarrow>
      lookup_by key (put xs x) k = (if k = key x then Some x else lookup_by key xs k)"
    and put_distinct: "distinct (map key xs) \<Longrightarrow> distinct (map key (put xs x))"
    and put_length: "length (put xs x) \<le> length xs + (if lookup_by key xs (key x) = None then 1 else 0)"
    and del_lookup: "distinct (map key xs) \<Longrightarrow>
      lookup_by key (del xs i) k = (if k = i then None else lookup_by key xs k)"
    and del_distinct: "distinct (map key xs) \<Longrightarrow> distinct (map key (del xs i))"
    and del_length: "length (del xs i) \<le> length xs"
begin

text \<open>A change is a put (\<open>Inl\<close>) or a deletion (\<open>Inr\<close>).\<close>

definition change :: "'a list \<Rightarrow> 'a + u32 \<Rightarrow> 'a list" where
  "change xs c = (case c of Inl x \<Rightarrow> put xs x | Inr i \<Rightarrow> del xs i)"

definition target :: "'a + u32 \<Rightarrow> u32" where
  "target c = (case c of Inl x \<Rightarrow> key x | Inr i \<Rightarrow> i)"

definition outcome :: "'a + u32 \<Rightarrow> 'a option" where
  "outcome c = (case c of Inl x \<Rightarrow> Some x | Inr i \<Rightarrow> None)"

lemma change_lookup:
  "distinct (map key xs) \<Longrightarrow> length xs < capacity \<or> lookup_by key xs (target c) \<noteq> None \<or> isl c = False \<Longrightarrow>
   lookup_by key (change xs c) k = (if k = target c then outcome c else lookup_by key xs k)"
  by (cases c) (auto simp: change_def target_def outcome_def put_lookup del_lookup)

lemma change_distinct: "distinct (map key xs) \<Longrightarrow> distinct (map key (change xs c))"
  by (cases c) (simp_all add: change_def put_distinct del_distinct)

lemma change_grows:
  "length (change xs c) \<le> length xs + (if isl c \<and> lookup_by key xs (target c) = None then 1 else 0)"
  using put_length del_length by (cases c) (auto simp: change_def target_def le_SucI)

lemma changes_lookup:
  assumes "distinct (map key xs)" and "distinct (map target cs)"
    and "length xs + length (filter (\<lambda>c. isl c \<and> lookup_by key xs (target c) = None) cs) \<le> capacity"
  shows "distinct (map key (foldl change xs cs)) \<and>
    (\<forall>k. lookup_by key (foldl change xs cs) k =
      (case find_index (\<lambda>c. target c = k) cs of Some i \<Rightarrow> outcome (cs ! i) | None \<Rightarrow> lookup_by key xs k))"
  using assms
proof (induction cs arbitrary: xs)
  case Nil
  then show ?case by simp
next
  case (Cons c cs)
  have look: "lookup_by key (change xs c) k = (if k = target c then outcome c else lookup_by key xs k)" for k
    using Cons.prems(1,3) by (intro change_lookup) (simp, auto split: if_splits)
  have tail: "target d \<noteq> target c" if "d \<in> set cs" for d
    using Cons.prems(2) that by (metis distinct.simps(2) image_eqI list.map(2) list.set_map)
  have same: "filter (\<lambda>d. isl d \<and> lookup_by key (change xs c) (target d) = None) cs =
      filter (\<lambda>d. isl d \<and> lookup_by key xs (target d) = None) cs"
    using tail by (intro filter_cong) (simp_all add: look)
  have "length (change xs c) + length (filter (\<lambda>d. isl d \<and> lookup_by key (change xs c) (target d) = None) cs) \<le> capacity"
    using Cons.prems(3) change_grows [of xs c] unfolding same by (auto split: if_splits)
  with Cons.IH [OF change_distinct [OF Cons.prems(1)], of c] Cons.prems(2)
  have ih: "distinct (map key (foldl change (change xs c) cs)) \<and>
    (\<forall>k. lookup_by key (foldl change (change xs c) cs) k =
      (case find_index (\<lambda>c. target c = k) cs of Some i \<Rightarrow> outcome (cs ! i)
       | None \<Rightarrow> lookup_by key (change xs c) k))" by simp
  have none: "find_index (\<lambda>d. target d = target c) cs = None" using tail by simp
  have "lookup_by key (foldl change xs (c # cs)) k =
      (case find_index (\<lambda>c. target c = k) (c # cs) of Some i \<Rightarrow> outcome ((c # cs) ! i) | None \<Rightarrow> lookup_by key xs k)" for k
    using ih look none by (auto simp del: find_index_None split: option.splits)
  with ih show ?case by simp
qed

lemma put_within:
  assumes "distinct (map key xs)" and "finite U" and "card U \<le> capacity"
    and "key ` set xs \<subseteq> U" and "key x \<in> U"
  shows "lookup_by key (put xs x) k = (if k = key x then Some x else lookup_by key xs k)"
    and "key ` set (put xs x) \<subseteq> U"
proof -
  have "lookup_by key xs (key x) \<noteq> None \<or> length xs < capacity"
  proof (cases "lookup_by key xs (key x)")
    case None
    then have "key ` set xs \<subset> U" using assms(4,5) by (auto simp: lookup_by_None)
    then have "card (key ` set xs) < card U" using assms(2) by (rule psubset_card_mono [rotated])
    moreover have "length xs = card (key ` set xs)" using assms(1) by (metis distinct_card length_map list.set_map)
    ultimately show ?thesis using assms(3) by simp
  qed simp
  then show look: "lookup_by key (put xs x) k = (if k = key x then Some x else lookup_by key xs k)" for k
    using assms(1) by (intro put_lookup)
  have "k \<in> U" if "k \<in> key ` set (put xs x)" for k
    using that look [of k] assms(4,5) lookup_by_None [of key "put xs x" k] lookup_by_None [of key xs k]
    by (auto split: if_splits)
  then show "key ` set (put xs x) \<subseteq> U" by blast
qed

lemma puts_lookup:
  assumes "distinct (map key xs)" and "finite U" and "card U \<le> capacity"
    and "key ` set xs \<subseteq> U" and "key ` set ps \<subseteq> U" and "\<forall>x \<in> set ps. V (key x) = Some x"
  shows "distinct (map key (foldl put xs ps)) \<and> key ` set (foldl put xs ps) \<subseteq> U \<and>
    (\<forall>k. lookup_by key (foldl put xs ps) k = (if k \<in> key ` set ps then V k else lookup_by key xs k))"
  using assms
proof (induction ps arbitrary: xs)
  case Nil
  then show ?case by simp
next
  case (Cons x ps)
  have one: "lookup_by key (put xs x) k = (if k = key x then Some x else lookup_by key xs k)"
    "key ` set (put xs x) \<subseteq> U" for k
    using put_within [OF Cons.prems(1-4)] Cons.prems(5) by auto
  from Cons.IH [OF put_distinct [OF Cons.prems(1), of x] Cons.prems(2,3) one(2)] Cons.prems(5,6)
  show ?case by (auto simp: one(1))
qed

end

section \<open>The two stores\<close>

definition keyed_put :: "('a \<Rightarrow> u32) \<Rightarrow> nat \<Rightarrow> 'a list \<Rightarrow> 'a \<Rightarrow> 'a list" where
  "keyed_put key capacity xs x =
     (case find_index (\<lambda>y. key y = key x) xs of
        Some i \<Rightarrow> xs[i := x] | None \<Rightarrow> if length xs < capacity then xs @ [x] else xs)"

definition keyed_del :: "('a \<Rightarrow> u32) \<Rightarrow> 'a list \<Rightarrow> u32 \<Rightarrow> 'a list" where
  "keyed_del key xs k =
     (case find_index (\<lambda>y. key y = k) xs of Some i \<Rightarrow> remove_at i xs | None \<Rightarrow> xs)"

lemma keyed_store_array: "keyed_store key (keyed_put key capacity) (keyed_del key) capacity"
proof
  fix xs x k i
  show "lookup_by key (keyed_put key capacity xs x) k = (if k = key x then Some x else lookup_by key xs k)"
    if "distinct (map key xs)" "lookup_by key xs (key x) \<noteq> None \<or> length xs < capacity"
    using that find_index_lookup_None [of key "key x" xs]
    by (auto simp: keyed_put_def lookup_by_update lookup_by_append simp del: find_index_None split: option.splits)
  show "distinct (map key (keyed_put key capacity xs x))" if "distinct (map key xs)"
    using that find_index_lookup_None [of key "key x" xs]
    by (auto simp: keyed_put_def distinct_update_key distinct_append_key simp del: find_index_None map_append
        split: option.splits)
  show "length (keyed_put key capacity xs x) \<le> length xs + (if lookup_by key xs (key x) = None then 1 else 0)"
    using find_index_lookup_None [of key "key x" xs]
    by (auto simp: keyed_put_def simp del: find_index_None split: option.splits)
  show "lookup_by key (keyed_del key xs i) k = (if k = i then None else lookup_by key xs k)"
    if "distinct (map key xs)"
    using that find_index_lookup_None [of key i xs]
    by (auto simp: keyed_del_def lookup_by_remove simp del: find_index_None split: option.splits)
  show "distinct (map key (keyed_del key xs i))" if "distinct (map key xs)"
    using that by (auto simp: keyed_del_def distinct_remove_at split: option.splits)
  show "length (keyed_del key xs i) \<le> length xs"
    using find_index_less [of "\<lambda>y. key y = i" xs] by (auto simp: keyed_del_def split: option.splits)
qed

interpretation spore_store: keyed_store ss_entity_id "keyed_put ss_entity_id 4096" "keyed_del ss_entity_id" 4096
  by (rule keyed_store_array)

interpretation powerup_store: keyed_store sw_entity_id "keyed_put sw_entity_id 8" "keyed_del sw_entity_id" 8
  by (rule keyed_store_array)

text \<open>A record as a change of its store.\<close>

definition spore_change :: "ShroomWorldStateRecord \<Rightarrow> ShroomSnapshotSporeState + u32" where
  "spore_change r = (if wr_operation r = SHROOM_WORLD_RECORD_REMOVE then Inr (wr_entity_id r) else Inl (record_spore r))"

definition powerup_change :: "ShroomWorldStateRecord \<Rightarrow> ShroomSnapshotPowerupState + u32" where
  "powerup_change r = (if wr_operation r = SHROOM_WORLD_RECORD_REMOVE then Inr (wr_entity_id r) else Inl (record_powerup r))"

lemma valid_operation:
  "world_record_valid r \<Longrightarrow> wr_operation r = 1 \<or> wr_operation r = 2 \<or> wr_operation r = 3"
  by (auto simp: world_record_valid_def not_less word_le_nat_alt word_less_nat_alt word_unat_eq_iff)

lemma apply_spore_change:
  "world_record_valid r \<Longrightarrow> apply_spore spores r = spore_store.change spores (spore_change r)"
  using valid_operation [of r]
  by (auto simp: apply_spore_def spore_change_def spore_store.change_def keyed_put_def keyed_del_def
      FindSpore_def RemoveSpore_def record_spore_def SHROOM_MAX_SPORES_def Let_def simp del: find_index_None split: option.splits)

lemma apply_powerup_change:
  "world_record_valid r \<Longrightarrow> apply_powerup powerups r = powerup_store.change powerups (powerup_change r)"
  using valid_operation [of r]
  by (auto simp: apply_powerup_def powerup_change_def powerup_store.change_def keyed_put_def keyed_del_def
      FindPowerup_def RemovePowerup_def record_powerup_def SHROOM_MAX_POWERUPS_def Let_def simp del: find_index_None split: option.splits)

abbreviation is_spore :: "ShroomWorldStateRecord \<Rightarrow> bool" where
  "is_spore r \<equiv> wr_entity_kind r = SHROOM_WORLD_ENTITY_SPORE"

abbreviation spores_of :: "ShroomWorldStateRecord list \<Rightarrow> ShroomWorldStateRecord list" where
  "spores_of \<equiv> filter (\<lambda>r. wr_entity_kind r = SHROOM_WORLD_ENTITY_SPORE)"

abbreviation powerups_of :: "ShroomWorldStateRecord list \<Rightarrow> ShroomWorldStateRecord list" where
  "powerups_of \<equiv> filter (\<lambda>r. wr_entity_kind r \<noteq> SHROOM_WORLD_ENTITY_SPORE)"

lemma ApplyRecord_change:
  "world_record_valid r \<Longrightarrow> ApplyRecord (ss, ps) r =
     (if is_spore r then (spore_store.change ss (spore_change r), ps)
      else (ss, powerup_store.change ps (powerup_change r)))"
  by (auto simp: ApplyRecord_def apply_spore_change apply_powerup_change world_record_valid_def)

lemma apply_world_records_changes:
  "list_all world_record_valid rs \<Longrightarrow>
   apply_world_records keyframe st (ss, ps) rs =
     (foldl (remember_record keyframe) st rs,
      foldl spore_store.change ss (map spore_change (spores_of rs)),
      foldl powerup_store.change ps (map powerup_change (powerups_of rs)))"
  by (induction rs arbitrary: st ss ps) (auto simp: ApplyRecord_change)

section \<open>Removal of what a keyframe did not mention\<close>

lemma IdInList_set [simp]: "IdInList ids i \<longleftrightarrow> i \<in> set ids"
  by (auto simp: IdInList_def list_ex_iff)

lemma remove_unlisted_filter:
  assumes "index \<le> length spores"
  shows "remove_unlisted_spores ids index spores =
    filter (\<lambda>s. ss_entity_id s \<in> set ids) (take index spores) @ drop index spores"
  using assms
proof (induction index arbitrary: spores)
  case 0
  then show ?case by simp
next
  case (Suc index)
  then show ?case
    by (auto simp: RemoveSpore_def remove_at_def take_Suc_conv_app_nth Cons_nth_drop_Suc min_def)
qed

lemma remove_unlisted_powerups_filter:
  assumes "index \<le> length powerups"
  shows "remove_unlisted_powerups ids index powerups =
    filter (\<lambda>s. sw_entity_id s \<in> set ids) (take index powerups) @ drop index powerups"
  using assms
proof (induction index arbitrary: powerups)
  case 0
  then show ?case by simp
next
  case (Suc index)
  then show ?case
    by (auto simp: RemovePowerup_def remove_at_def take_Suc_conv_app_nth Cons_nth_drop_Suc min_def)
qed

lemma lookup_by_keep:
  "lookup_by key (filter (\<lambda>x. key x \<in> A) xs) k = (if k \<in> A then lookup_by key xs k else None)"
  by (induction xs) auto

end
