(* ===== verification/World_Delivery.thy ===== *)
theory World_Delivery
  imports World_Client
begin

text \<open>
  Delivery of a batch of spore and powerup records: a keyframe received in any order leaves the
  client with exactly the entities the server holds for this peer, and a difference batch keeps
  a client that agrees with the server's note of it in agreement.
\<close>

section \<open>The packets of one batch at the client\<close>

definition world_stream :: "u64 \<Rightarrow> bool \<Rightarrow> ShroomWorldStatePacket list \<Rightarrow> bool" where
  "world_stream tick keyframe packets \<longleftrightarrow> 0 < length packets \<and> length packets \<le> 72 \<and>
     (\<forall>i < length packets. let p = packets ! i in
        wp_tick p = tick \<and> unat (wp_chunk_index p) = i \<and> unat (wp_chunk_count p) = length packets \<and>
        wp_flags p = (if keyframe then 1 else 0) \<and> ph_type (wp_header p) = 29 \<and>
        unat (ph_size (wp_header p)) = world_packet_size p \<and>
        unat (wp_record_count p) = length (wp_records p) \<and> length (wp_records p) \<le> 58 \<and>
        list_all world_record_valid (wp_records p))"

lemma world_streamD:
  assumes "world_stream tick keyframe packets" and "i < length packets"
  shows "wp_tick (packets ! i) = tick" and "unat (wp_chunk_index (packets ! i)) = i"
    and "wp_chunk_count (packets ! i) = word_of_nat (length packets)"
    and "wp_flags (packets ! i) = (if keyframe then 1 else 0)"
    and "take (unat (wp_record_count (packets ! i))) (wp_records (packets ! i)) = wp_records (packets ! i)"
    and "list_all world_record_valid (wp_records (packets ! i))"
    and "\<not> (rc_tick_received st \<and> tick < rc_latest_tick st) \<Longrightarrow>
      world_packet_acceptable st (packets ! i) (world_packet_size (packets ! i))"
proof -
  let ?p = "packets ! i"
  have p: "wp_tick ?p = tick" "unat (wp_chunk_index ?p) = i" "unat (wp_chunk_count ?p) = length packets"
    "wp_flags ?p = (if keyframe then 1 else 0)" "ph_type (wp_header ?p) = 29"
    "unat (ph_size (wp_header ?p)) = world_packet_size ?p"
    "unat (wp_record_count ?p) = length (wp_records ?p)" "length (wp_records ?p) \<le> 58"
    "list_all world_record_valid (wp_records ?p)"
    and n: "0 < length packets" "length packets \<le> 72"
    using assms by (simp_all add: world_stream_def Let_def)
  then show "wp_tick ?p = tick" "unat (wp_chunk_index ?p) = i" "wp_flags ?p = (if keyframe then 1 else 0)"
    "take (unat (wp_record_count ?p)) (wp_records ?p) = wp_records ?p"
    "list_all world_record_valid (wp_records ?p)" by simp_all
  show "wp_chunk_count ?p = word_of_nat (length packets)" by (simp flip: p(3))
  assume ready: "\<not> (rc_tick_received st \<and> tick < rc_latest_tick st)"
  have nonzero: "wp_chunk_count ?p \<noteq> 0" using p(3) n(1) by (metis less_not_refl2 unsigned_0)
  have order: "\<not> wp_chunk_count ?p \<le> wp_chunk_index ?p"
    using assms(2) unfolding word_le_nat_alt p(2,3) by simp
  have flags: "wp_flags ?p AND NOT 1 = 0" unfolding p(4) by simp
  show "world_packet_acceptable st ?p (world_packet_size ?p)"
    unfolding world_packet_acceptable_def Let_def world_packet_size_def [symmetric] p(1,3,5-7) de_Morgan_disj
      not_not SHROOM_WORLD_REPLICATION_MAX_CHUNKS_def max_records
    using n p(8) by (intro conjI nonzero order flags ready [unfolded p]) (simp_all add: world_packet_size_def p(7))
qed

section \<open>What a keyframe has been received of\<close>

lemma RememberId_set:
  assumes "distinct ids" and "finite U" and "card U \<le> capacity" and "set ids \<subseteq> U" and "i \<in> U"
  shows "distinct (RememberId ids capacity i) \<and> set (RememberId ids capacity i) = insert i (set ids)"
proof (cases "i \<in> set ids")
  case True
  with assms show ?thesis by (simp add: RememberId_def insert_absorb)
next
  case False
  with assms(4,5) have "set ids \<subset> U" by auto
  with assms(2) have "card (set ids) < card U" by (rule psubset_card_mono)
  with False assms(1,3) show ?thesis by (simp add: RememberId_def distinct_card)
qed

lemma same_notes:
  "st\<lparr>rc_keyframe_spores := rc_keyframe_spores st, rc_keyframe_powerups := rc_keyframe_powerups st\<rparr> = st"
  by (cases st) simp

lemma remember_fold:
  assumes "\<forall>r \<in> set rs. wr_operation r = SHROOM_WORLD_RECORD_SPAWN"
    and "distinct (rc_keyframe_spores st)" "distinct (rc_keyframe_powerups st)"
    and "finite U" "card U \<le> 4096" "set (rc_keyframe_spores st) \<subseteq> U" "wr_entity_id ` set (spores_of rs) \<subseteq> U"
    and "finite W" "card W \<le> 8" "set (rc_keyframe_powerups st) \<subseteq> W" "wr_entity_id ` set (powerups_of rs) \<subseteq> W"
  shows "\<exists>ss ps. foldl (remember_record True) st rs = st\<lparr>rc_keyframe_spores := ss, rc_keyframe_powerups := ps\<rparr> \<and>
    distinct ss \<and> set ss = set (rc_keyframe_spores st) \<union> wr_entity_id ` set (spores_of rs) \<and>
    distinct ps \<and> set ps = set (rc_keyframe_powerups st) \<union> wr_entity_id ` set (powerups_of rs)"
  using assms
proof (induction rs arbitrary: st)
  case Nil
  then show ?case
    by (intro exI [of _ "rc_keyframe_spores st"] exI [of _ "rc_keyframe_powerups st"])
      (simp only: foldl.simps same_notes filter.simps list.set image_empty Un_empty_right simp_thms)
next
  case (Cons r rs)
  let ?st = "remember_record True st r"
  have keep: "distinct (rc_keyframe_spores ?st) \<and>
      set (rc_keyframe_spores ?st) = set (rc_keyframe_spores st) \<union> wr_entity_id ` set (spores_of [r])"
    "distinct (rc_keyframe_powerups ?st) \<and>
      set (rc_keyframe_powerups ?st) = set (rc_keyframe_powerups st) \<union> wr_entity_id ` set (powerups_of [r])"
    using Cons.prems RememberId_set [of "rc_keyframe_spores st" U 4096 "wr_entity_id r"]
      RememberId_set [of "rc_keyframe_powerups st" W 8 "wr_entity_id r"]
    by (auto simp: remember_record_def SHROOM_MAX_SPORES_def SHROOM_MAX_POWERUPS_def)
  have shape: "?st = st\<lparr>rc_keyframe_spores := rc_keyframe_spores ?st, rc_keyframe_powerups := rc_keyframe_powerups ?st\<rparr>"
    by (cases st) (simp add: remember_record_def)
  have "\<exists>ss ps. foldl (remember_record True) ?st rs = ?st\<lparr>rc_keyframe_spores := ss, rc_keyframe_powerups := ps\<rparr> \<and>
    distinct ss \<and> set ss = set (rc_keyframe_spores ?st) \<union> wr_entity_id ` set (spores_of rs) \<and>
    distinct ps \<and> set ps = set (rc_keyframe_powerups ?st) \<union> wr_entity_id ` set (powerups_of rs)"
    using Cons.prems keep by (intro Cons.IH) auto
  then obtain ss ps where "foldl (remember_record True) ?st rs = ?st\<lparr>rc_keyframe_spores := ss, rc_keyframe_powerups := ps\<rparr>"
    "distinct ss" "set ss = set (rc_keyframe_spores ?st) \<union> wr_entity_id ` set (spores_of rs)"
    "distinct ps" "set ps = set (rc_keyframe_powerups ?st) \<union> wr_entity_id ` set (powerups_of rs)" by blast
  moreover have "?st\<lparr>rc_keyframe_spores := ss, rc_keyframe_powerups := ps\<rparr> =
      st\<lparr>rc_keyframe_spores := ss, rc_keyframe_powerups := ps\<rparr>" by (subst shape) simp
  ultimately show ?case using keep by (intro exI [of _ ss] exI [of _ ps]) auto
qed

text \<open>The records of the chunks received.\<close>

definition received_records :: "ShroomWorldStatePacket list \<Rightarrow> nat set \<Rightarrow> ShroomWorldStateRecord set" where
  "received_records packets I = (\<Union>i \<in> I. set (wp_records (packets ! i)))"

definition spore_ids :: "ShroomWorldStateRecord set \<Rightarrow> u32 set" where
  "spore_ids rs = wr_entity_id ` {r \<in> rs. wr_entity_kind r = SHROOM_WORLD_ENTITY_SPORE}"

definition powerup_ids :: "ShroomWorldStateRecord set \<Rightarrow> u32 set" where
  "powerup_ids rs = wr_entity_id ` {r \<in> rs. wr_entity_kind r \<noteq> SHROOM_WORLD_ENTITY_SPORE}"

abbreviation "find_spore \<equiv> lookup_by ss_entity_id"
abbreviation "find_powerup \<equiv> lookup_by sw_entity_id"

text \<open>
  The content of a keyframe: what its records say about each identifier, and that the client's
  stores have room for it beside what they hold.
\<close>

definition keyframe_content ::
  "ShroomWorldStatePacket list \<Rightarrow> ShroomSnapshotSporeState list \<Rightarrow> ShroomSnapshotPowerupState list \<Rightarrow>
     (u32 \<Rightarrow> ShroomSnapshotSporeState option) \<Rightarrow> (u32 \<Rightarrow> ShroomSnapshotPowerupState option) \<Rightarrow> bool" where
  "keyframe_content packets ss0 ps0 V W \<longleftrightarrow>
     (let R = received_records packets {..<length packets}
      in (\<forall>r \<in> R. wr_operation r = SHROOM_WORLD_RECORD_SPAWN \<and>
           (if is_spore r then V (wr_entity_id r) = Some (record_spore r)
            else W (wr_entity_id r) = Some (record_powerup r))) \<and>
         (\<forall>k. k \<notin> spore_ids R \<longrightarrow> V k = None) \<and> (\<forall>k. k \<notin> powerup_ids R \<longrightarrow> W k = None) \<and>
         distinct (map ss_entity_id ss0) \<and> distinct (map sw_entity_id ps0) \<and>
         card (ss_entity_id ` set ss0 \<union> spore_ids R) \<le> 4096 \<and>
         card (sw_entity_id ` set ps0 \<union> powerup_ids R) \<le> 8)"

definition holds_keyframe ::
  "u64 \<Rightarrow> ShroomWorldStatePacket list \<Rightarrow> ShroomSnapshotSporeState list \<Rightarrow> ShroomSnapshotPowerupState list \<Rightarrow>
     (u32 \<Rightarrow> ShroomSnapshotSporeState option) \<Rightarrow> (u32 \<Rightarrow> ShroomSnapshotPowerupState option) \<Rightarrow> nat set \<Rightarrow>
     ShroomWorldReplicationClientState \<Rightarrow> ShroomSnapshotSporeState list \<Rightarrow> ShroomSnapshotPowerupState list \<Rightarrow> bool" where
  "holds_keyframe tick packets ss0 ps0 V W I st ss ps \<longleftrightarrow>
     rc_tick_received st \<and> rc_latest_tick st = tick \<and> rc_keyframe_pending st \<and> rc_keyframe_tick st = tick \<and>
     rc_keyframe_chunk_count st = word_of_nat (length packets) \<and> I \<subseteq> {..<length packets} \<and>
     receipts.holds (rc_keyframe_chunks st) I \<and>
     distinct (rc_keyframe_spores st) \<and> set (rc_keyframe_spores st) = spore_ids (received_records packets I) \<and>
     distinct (rc_keyframe_powerups st) \<and> set (rc_keyframe_powerups st) = powerup_ids (received_records packets I) \<and>
     distinct (map ss_entity_id ss) \<and>
     ss_entity_id ` set ss \<subseteq> ss_entity_id ` set ss0 \<union> spore_ids (received_records packets {..<length packets}) \<and>
     (\<forall>k. find_spore ss k = (if k \<in> spore_ids (received_records packets I) then V k else find_spore ss0 k)) \<and>
     distinct (map sw_entity_id ps) \<and>
     sw_entity_id ` set ps \<subseteq> sw_entity_id ` set ps0 \<union> powerup_ids (received_records packets {..<length packets}) \<and>
     (\<forall>k. find_powerup ps k = (if k \<in> powerup_ids (received_records packets I) then W k else find_powerup ps0 k))"

text \<open>A client that will start over on the first chunk of a keyframe with this tick.\<close>

definition ready_for_keyframe :: "ShroomWorldReplicationClientState \<Rightarrow> u64 \<Rightarrow> bool" where
  "ready_for_keyframe st tick \<longleftrightarrow>
     \<not> (rc_tick_received st \<and> tick < rc_latest_tick st) \<and> (rc_keyframe_pending st \<longrightarrow> rc_keyframe_tick st < tick)"

lemma begin_holds:
  assumes stream: "world_stream tick True packets" and i: "i < length packets"
    and content: "keyframe_content packets ss0 ps0 V W" and ready: "ready_for_keyframe st tick"
  shows "holds_keyframe tick packets ss0 ps0 V W {} (begin_keyframe (note_tick st tick) (packets ! i)) ss0 ps0"
proof -
  have latest: "rc_tick_received (note_tick st tick)" "rc_latest_tick (note_tick st tick) = tick"
    using ready by (auto simp: note_tick_def ready_for_keyframe_def)
  have "\<not> rc_keyframe_pending (note_tick st tick) \<or> rc_keyframe_tick (note_tick st tick) < tick"
    using ready by (auto simp: note_tick_def ready_for_keyframe_def)
  with latest world_streamD(1,3) [OF stream i] receipts.holds_none content show ?thesis
    by (auto simp: begin_keyframe_def holds_keyframe_def received_records_def spore_ids_def powerup_ids_def
        keyframe_content_def Let_def)
qed

lemma hold_again:
  assumes "holds_keyframe tick packets ss0 ps0 V W I st ss ps" and "wp_tick p = tick"
  shows "begin_keyframe (note_tick st tick) p = st"
  using assms by (simp add: note_tick_def begin_keyframe_def holds_keyframe_def)

lemma foldl_change_puts:
  "foldl spore_store.change ss (map Inl xs) = foldl (keyed_put ss_entity_id 4096) ss xs"
  "foldl powerup_store.change ps (map Inl ys) = foldl (keyed_put sw_entity_id 8) ps ys"
  by (induction xs arbitrary: ss) (simp_all add: spore_store.change_def,
      induction ys arbitrary: ps, simp_all add: powerup_store.change_def)

lemma received_insert:
  "spore_ids (received_records packets (insert i I)) =
     spore_ids (received_records packets I) \<union> wr_entity_id ` set (spores_of (wp_records (packets ! i)))"
  "powerup_ids (received_records packets (insert i I)) =
     powerup_ids (received_records packets I) \<union> wr_entity_id ` set (powerups_of (wp_records (packets ! i)))"
  by (auto simp: spore_ids_def powerup_ids_def received_records_def)

lemma received_finite:
  "I \<subseteq> {..<n} \<Longrightarrow> finite (spore_ids (received_records packets I))"
  "I \<subseteq> {..<n} \<Longrightarrow> finite (powerup_ids (received_records packets I))"
  by (auto simp: spore_ids_def powerup_ids_def received_records_def dest: finite_subset)

lemma received_mono:
  "I \<subseteq> J \<Longrightarrow> spore_ids (received_records packets I) \<subseteq> spore_ids (received_records packets J)"
  "I \<subseteq> J \<Longrightarrow> powerup_ids (received_records packets I) \<subseteq> powerup_ids (received_records packets J)"
  by (auto simp: spore_ids_def powerup_ids_def received_records_def)

lemma keyframe_records_held:
  assumes content: "keyframe_content packets ss0 ps0 V W" and i: "i < length packets"
    and valid: "list_all world_record_valid (wp_records (packets ! i))"
    and n: "length packets \<le> 128"
    and held: "holds_keyframe tick packets ss0 ps0 V W I st ss ps"
  obtains st' ss' ps' where
    "apply_world_records True st (ss, ps) (wp_records (packets ! i)) = (st', ss', ps')"
    "holds_keyframe tick packets ss0 ps0 V W (insert i I)
      (st'\<lparr>rc_keyframe_chunks := mark_chunk (rc_keyframe_chunks st') i\<rparr>) ss' ps'"
proof -
  let ?rs = "wp_records (packets ! i)" and ?all = "{..<length packets}"
  let ?R = "received_records packets ?all"
  have I: "I \<subseteq> ?all" "insert i I \<subseteq> ?all" using held i by (auto simp: holds_keyframe_def)
  have sub: "set ?rs \<subseteq> ?R" using i by (auto simp: received_records_def)
  have spawn: "\<forall>r \<in> set ?rs. wr_operation r = SHROOM_WORLD_RECORD_SPAWN"
    and V: "\<forall>r \<in> set ?rs. is_spore r \<longrightarrow> V (wr_entity_id r) = Some (record_spore r)"
    and W: "\<forall>r \<in> set ?rs. \<not> is_spore r \<longrightarrow> W (wr_entity_id r) = Some (record_powerup r)"
    using content sub by (auto simp: keyframe_content_def Let_def split: if_splits)
  let ?U = "ss_entity_id ` set ss0 \<union> spore_ids ?R" and ?W = "sw_entity_id ` set ps0 \<union> powerup_ids ?R"
  have fin: "finite ?U" "finite ?W" using received_finite [of ?all "length packets" packets] by auto
  have card: "card ?U \<le> 4096" "card ?W \<le> 8" using content by (simp_all add: keyframe_content_def Let_def)
  have ids: "wr_entity_id ` set (spores_of ?rs) \<subseteq> spore_ids ?R" "wr_entity_id ` set (powerups_of ?rs) \<subseteq> powerup_ids ?R"
    using sub by (auto simp: spore_ids_def powerup_ids_def)
  have mono: "spore_ids (received_records packets I) \<subseteq> ?U" "powerup_ids (received_records packets I) \<subseteq> ?W"
    using received_mono [OF I(1)] by blast+
  have marked: "distinct (rc_keyframe_spores st)" "set (rc_keyframe_spores st) = spore_ids (received_records packets I)"
    "distinct (rc_keyframe_powerups st)" "set (rc_keyframe_powerups st) = powerup_ids (received_records packets I)"
    using held by (simp_all add: holds_keyframe_def)
  have inside: "set (rc_keyframe_spores st) \<subseteq> ?U" "set (rc_keyframe_powerups st) \<subseteq> ?W"
    "wr_entity_id ` set (spores_of ?rs) \<subseteq> ?U" "wr_entity_id ` set (powerups_of ?rs) \<subseteq> ?W"
    using mono ids unfolding marked by blast+
  obtain ks kp where noted:
    "foldl (remember_record True) st ?rs = st\<lparr>rc_keyframe_spores := ks, rc_keyframe_powerups := kp\<rparr>"
    "distinct ks" "set ks = spore_ids (received_records packets (insert i I))"
    "distinct kp" "set kp = powerup_ids (received_records packets (insert i I))"
    using remember_fold [OF spawn marked(1,3) fin(1) card(1) inside(1,3) fin(2) card(2) inside(2,4)]
    by (auto simp: received_insert marked)
  have changes: "map spore_change (spores_of ?rs) = map Inl (map record_spore (spores_of ?rs))"
    "map powerup_change (powerups_of ?rs) = map Inl (map record_powerup (powerups_of ?rs))"
    using spawn by (simp_all add: spore_change_def powerup_change_def)
  have keys: "ss_entity_id ` set (map record_spore (spores_of ?rs)) = wr_entity_id ` set (spores_of ?rs)"
    "sw_entity_id ` set (map record_powerup (powerups_of ?rs)) = wr_entity_id ` set (powerups_of ?rs)"
    by (force simp: record_spore_def record_powerup_def)+
  let ?ss = "foldl (keyed_put ss_entity_id 4096) ss (map record_spore (spores_of ?rs))"
  let ?ps = "foldl (keyed_put sw_entity_id 8) ps (map record_powerup (powerups_of ?rs))"
  have store: "distinct (map ss_entity_id ss)" "ss_entity_id ` set ss \<subseteq> ?U"
    "distinct (map sw_entity_id ps)" "sw_entity_id ` set ps \<subseteq> ?W"
    using held by (simp_all add: holds_keyframe_def)
  have put_inside: "ss_entity_id ` set (map record_spore (spores_of ?rs)) \<subseteq> ?U"
    "sw_entity_id ` set (map record_powerup (powerups_of ?rs)) \<subseteq> ?W"
    unfolding keys using inside(3,4) .
  have put_values: "\<forall>x \<in> set (map record_spore (spores_of ?rs)). V (ss_entity_id x) = Some x"
    "\<forall>x \<in> set (map record_powerup (powerups_of ?rs)). W (sw_entity_id x) = Some x"
    using V W by (auto simp: record_spore_def record_powerup_def)
  have ss: "distinct (map ss_entity_id ?ss) \<and> ss_entity_id ` set ?ss \<subseteq> ?U \<and>
      (\<forall>k. find_spore ?ss k = (if k \<in> wr_entity_id ` set (spores_of ?rs) then V k else find_spore ss k))"
    using spore_store.puts_lookup [OF store(1) fin(1) card(1) store(2) put_inside(1) put_values(1)]
    unfolding keys .
  have ps: "distinct (map sw_entity_id ?ps) \<and> sw_entity_id ` set ?ps \<subseteq> ?W \<and>
      (\<forall>k. find_powerup ?ps k = (if k \<in> wr_entity_id ` set (powerups_of ?rs) then W k else find_powerup ps k))"
    using powerup_store.puts_lookup [OF store(3) fin(2) card(2) store(4) put_inside(2) put_values(2)]
    unfolding keys .
  show thesis
  proof (rule that)
    show "apply_world_records True st (ss, ps) ?rs =
        (st\<lparr>rc_keyframe_spores := ks, rc_keyframe_powerups := kp\<rparr>, ?ss, ?ps)"
      unfolding apply_world_records_changes [OF valid] noted(1) changes foldl_change_puts by (rule refl)
    have marks: "receipts.holds (mark_chunk (rc_keyframe_chunks st) i) (insert i I)"
      using held i n by (intro receipts.holds_mark) (auto simp: holds_keyframe_def)
    show "holds_keyframe tick packets ss0 ps0 V W (insert i I)
      ((st\<lparr>rc_keyframe_spores := ks, rc_keyframe_powerups := kp\<rparr>)\<lparr>rc_keyframe_chunks :=
         mark_chunk (rc_keyframe_chunks (st\<lparr>rc_keyframe_spores := ks, rc_keyframe_powerups := kp\<rparr>)) i\<rparr>) ?ss ?ps"
      using held noted(2-5) ss ps marks i
      unfolding holds_keyframe_def received_insert by simp
  qed
qed

text \<open>A finished keyframe: the client's stores are the keyframe's content.\<close>

definition keyframe_done ::
  "(u32 \<Rightarrow> ShroomSnapshotSporeState option) \<Rightarrow> (u32 \<Rightarrow> ShroomSnapshotPowerupState option) \<Rightarrow>
     ShroomWorldReplicationClientState \<Rightarrow> ShroomSnapshotSporeState list \<Rightarrow> ShroomSnapshotPowerupState list \<Rightarrow> bool" where
  "keyframe_done V W st ss ps \<longleftrightarrow> \<not> rc_keyframe_pending st \<and>
     distinct (map ss_entity_id ss) \<and> (\<forall>k. find_spore ss k = V k) \<and>
     distinct (map sw_entity_id ps) \<and> (\<forall>k. find_powerup ps k = W k)"

lemma keyframe_finish:
  assumes "keyframe_content packets ss0 ps0 V W"
    and "holds_keyframe tick packets ss0 ps0 V W {..<length packets} st ss ps"
  shows "keyframe_done V W (st\<lparr>rc_keyframe_pending := False\<rparr>)
    (remove_unlisted_spores (rc_keyframe_spores st) (length ss) ss)
    (remove_unlisted_powerups (rc_keyframe_powerups st) (length ps) ps)"
  using assms
  by (simp add: keyframe_done_def holds_keyframe_def keyframe_content_def Let_def remove_unlisted_filter
      remove_unlisted_powerups_filter lookup_by_keep distinct_map_filter)

lemma apply_keyframe_chunk:
  assumes stream: "world_stream tick True packets" and i: "i < length packets"
    and content: "keyframe_content packets ss0 ps0 V W"
    and st: "holds_keyframe tick packets ss0 ps0 V W I st ss ps \<or>
      I = {} \<and> ready_for_keyframe st tick \<and> ss = ss0 \<and> ps = ps0"
  obtains st' ss' ps' where
    "ShroomWorldReplicationApplyPacket st (ss, ps) (packets ! i) (world_packet_size (packets ! i)) = (True, st', ss', ps')"
    "insert i I \<noteq> {..<length packets} \<Longrightarrow> holds_keyframe tick packets ss0 ps0 V W (insert i I) st' ss' ps'"
    "insert i I = {..<length packets} \<Longrightarrow> keyframe_done V W st' ss' ps'"
proof -
  let ?p = "packets ! i"
  note p = world_streamD [OF stream i]
  have n: "length packets \<le> 72" "length packets \<le> 128" using stream by (simp_all add: world_stream_def)
  define st1 where "st1 = begin_keyframe (note_tick st tick) ?p"
  have held: "holds_keyframe tick packets ss0 ps0 V W I st1 ss ps"
    using st begin_holds [OF stream i content] hold_again [OF _ p(1)] by (auto simp: st1_def)
  obtain st2 ss2 ps2 where applied: "apply_world_records True st1 (ss, ps) (wp_records ?p) = (st2, ss2, ps2)"
    and held2: "holds_keyframe tick packets ss0 ps0 V W (insert i I)
      (st2\<lparr>rc_keyframe_chunks := mark_chunk (rc_keyframe_chunks st2) i\<rparr>) ss2 ps2"
    using keyframe_records_held [OF content i p(6) n(2) held] by metis
  define st3 where "st3 = st2\<lparr>rc_keyframe_chunks := mark_chunk (rc_keyframe_chunks st2) i\<rparr>"
  have complete: "KeyframeComplete st3 \<longleftrightarrow> insert i I = {..<length packets}"
  proof -
    have "unat (rc_keyframe_chunk_count st3) = length packets"
      using held2 n by (simp add: holds_keyframe_def st3_def unat_of_nat)
    moreover have "list_all (chunk_received (rc_keyframe_chunks st3)) [0..<length packets] \<longleftrightarrow>
        insert i I = {..<length packets}"
      using held2 n(2) by (intro receipts.complete_iff) (auto simp: holds_keyframe_def st3_def)
    ultimately show ?thesis by (simp add: KeyframeComplete_def)
  qed
  have ready: "\<not> (rc_tick_received st \<and> tick < rc_latest_tick st)"
    using st by (auto simp: holds_keyframe_def ready_for_keyframe_def)
  have same: "(tick \<noteq> rc_keyframe_tick st1 \<or> word_of_nat (length packets) \<noteq> rc_keyframe_chunk_count st1) = False"
    using held by (simp add: holds_keyframe_def)
  have result: "ShroomWorldReplicationApplyPacket st (ss, ps) ?p (world_packet_size ?p) =
     (if \<not> KeyframeComplete st3 then (True, st3, ss2, ps2)
      else (True, st3\<lparr>rc_keyframe_pending := False\<rparr>,
         remove_unlisted_spores (rc_keyframe_spores st3) (length ss2) ss2,
         remove_unlisted_powerups (rc_keyframe_powerups st3) (length ps2) ps2))"
  proof -
    have guards: "world_packet_acceptable st ?p (world_packet_size ?p) = True"
      "list_all world_record_valid (wp_records ?p) = True" "(wp_flags ?p AND 1 \<noteq> 0) = True"
      using p(7) [OF ready] p(4,6) by simp_all
    show ?thesis
      unfolding ShroomWorldReplicationApplyPacket_def Let_def p(5) guards p(1,3) not_True_eq_False if_False
        if_True st1_def [symmetric] same simp_thms applied prod.case p(2) st3_def [symmetric] fst_conv snd_conv
      by (rule TrueI)
  qed
  show thesis
  proof (cases "insert i I = {..<length packets}")
    case True
    with held2 have "holds_keyframe tick packets ss0 ps0 V W {..<length packets} st3 ss2 ps2"
      by (simp add: st3_def)
    from keyframe_finish [OF content this] True result complete show thesis by (intro that) simp_all
  next
    case False
    with held2 result complete show thesis by (intro that) (simp_all add: st3_def)
  qed
qed

section \<open>Any order of arrival\<close>

fun apply_all ::
  "ShroomWorldReplicationClientState \<Rightarrow> ShroomSnapshotSporeState list \<times> ShroomSnapshotPowerupState list \<Rightarrow>
     ShroomWorldStatePacket list \<Rightarrow>
     bool list \<times> ShroomWorldReplicationClientState \<times>
       (ShroomSnapshotSporeState list \<times> ShroomSnapshotPowerupState list)" where
  "apply_all st stores [] = ([], st, stores)"
| "apply_all st stores (p # ps) =
     (case ShroomWorldReplicationApplyPacket st stores p (world_packet_size p) of
        (ok, st, stores) \<Rightarrow> (case apply_all st stores ps of (oks, st, stores) \<Rightarrow> (ok # oks, st, stores)))"

lemma apply_all_append:
  "apply_all st stores (ps @ qs) =
     (case apply_all st stores ps of (xs, st, stores) \<Rightarrow>
        (case apply_all st stores qs of (ys, st, stores) \<Rightarrow> (xs @ ys, st, stores)))"
  by (induction ps arbitrary: st stores) (auto split: prod.splits)

lemma keyframe_incomplete:
  assumes stream: "world_stream tick True packets" and content: "keyframe_content packets ss0 ps0 V W"
    and "set arrived \<subseteq> {..<length packets}" and "k < length packets" and "k \<notin> I \<union> set arrived"
    and "holds_keyframe tick packets ss0 ps0 V W I st ss ps \<or>
      I = {} \<and> ready_for_keyframe st tick \<and> ss = ss0 \<and> ps = ps0"
  shows "\<exists>st' ss' ps'. apply_all st (ss, ps) (map ((!) packets) arrived) =
      (replicate (length arrived) True, st', ss', ps') \<and>
    (holds_keyframe tick packets ss0 ps0 V W (I \<union> set arrived) st' ss' ps' \<or>
     I \<union> set arrived = {} \<and> ready_for_keyframe st' tick \<and> ss' = ss0 \<and> ps' = ps0)"
  using assms(3-)
proof (induction arrived arbitrary: I st ss ps)
  case Nil
  then show ?case by simp
next
  case (Cons i arrived)
  from Cons.prems(1) have i: "i < length packets" by simp
  have some_missing: "insert i I \<noteq> {..<length packets}" using Cons.prems(2,3) by auto
  obtain st' ss' ps' where step:
    "ShroomWorldReplicationApplyPacket st (ss, ps) (packets ! i) (world_packet_size (packets ! i)) = (True, st', ss', ps')"
    "holds_keyframe tick packets ss0 ps0 V W (insert i I) st' ss' ps'"
    using apply_keyframe_chunk [OF stream i content Cons.prems(4)] some_missing by metis
  with Cons.IH [of "insert i I" st' ss' ps'] Cons.prems(1-3) show ?case by auto
qed

lemma keyframe_complete:
  assumes stream: "world_stream tick True packets" and content: "keyframe_content packets ss0 ps0 V W"
    and arrivals: "set (front @ [k]) = {..<length packets}" "k \<notin> set front"
    and ready: "ready_for_keyframe st tick"
  shows "\<exists>st' ss' ps'. apply_all st (ss0, ps0) (map ((!) packets) (front @ [k])) =
      (replicate (length front + 1) True, st', ss', ps') \<and> keyframe_done V W st' ss' ps'"
proof -
  have k: "k < length packets" and front: "set front \<subseteq> {..<length packets}" using arrivals(1) by auto
  obtain st1 ss1 ps1 where 1: "apply_all st (ss0, ps0) (map ((!) packets) front) =
      (replicate (length front) True, st1, ss1, ps1)"
    "holds_keyframe tick packets ss0 ps0 V W (set front) st1 ss1 ps1 \<or>
     set front = {} \<and> ready_for_keyframe st1 tick \<and> ss1 = ss0 \<and> ps1 = ps0"
    using keyframe_incomplete [OF stream content front k, of "{}" st ss0 ps0] arrivals(2) ready by auto
  have all: "insert k (set front) = {..<length packets}" using arrivals(1) by auto
  obtain st' ss' ps' where
    "ShroomWorldReplicationApplyPacket st1 (ss1, ps1) (packets ! k) (world_packet_size (packets ! k)) = (True, st', ss', ps')"
    "keyframe_done V W st' ss' ps'"
    using apply_keyframe_chunk [OF stream k content 1(2)] all by metis
  with 1(1) show ?thesis by (auto simp: apply_all_append simp flip: replicate_append_same)
qed

section \<open>The keyframe that the server sends\<close>

definition current_spores :: "ShroomWorldState \<Rightarrow> ShroomVec2 \<Rightarrow> ShroomSnapshotSporeState list" where
  "current_spores world center = map (spore_snapshot world) (filter (spore_current world center) [0..<4096])"

definition current_powerups :: "ShroomWorldState \<Rightarrow> ShroomVec2 \<Rightarrow> ShroomSnapshotPowerupState list" where
  "current_powerups world center = map (powerup_snapshot world) (filter (powerup_current world center) [0..<8])"

text \<open>What the server notes the peer to know.\<close>

definition known_spores :: "ShroomWorldReplicationPeerState \<Rightarrow> ShroomSnapshotSporeState list" where
  "known_spores peer = map ((!) (rp_spores peer)) (filter ((!) (rp_spore_known peer)) [0..<4096])"

definition known_powerups :: "ShroomWorldReplicationPeerState \<Rightarrow> ShroomSnapshotPowerupState list" where
  "known_powerups peer = map ((!) (rp_powerups peer)) (filter ((!) (rp_powerup_known peer)) [0..<8])"

lemma peer_after_known:
  assumes "peer_after world center peer peer'"
  shows "known_spores peer' = current_spores world center" "known_powerups peer' = current_powerups world center"
proof -
  have "filter ((!) (rp_spore_known peer')) [0..<4096] = filter (spore_current world center) [0..<4096]"
    using assms by (intro filter_cong) (auto simp: peer_after_def)
  then show "known_spores peer' = current_spores world center"
    using assms by (auto simp: known_spores_def current_spores_def peer_after_def)
  have "filter ((!) (rp_powerup_known peer')) [0..<8] = filter (powerup_current world center) [0..<8]"
    using assms by (intro filter_cong) (auto simp: peer_after_def)
  then show "known_powerups peer' = current_powerups world center"
    using assms by (auto simp: known_powerups_def current_powerups_def peer_after_def)
qed

text \<open>Identifiers of a world's replicated entities: distinct, and none zero.\<close>

definition ids_ok :: "ShroomWorldState \<Rightarrow> ShroomVec2 \<Rightarrow> bool" where
  "ids_ok world center \<longleftrightarrow>
     distinct (map ss_entity_id (current_spores world center)) \<and>
     distinct (map sw_entity_id (current_powerups world center)) \<and>
     (\<forall>s \<in> set (current_spores world center). ss_entity_id s \<noteq> 0) \<and>
     (\<forall>p \<in> set (current_powerups world center). sw_entity_id p \<noteq> 0)"

lemma SendWorldState_stream:
  assumes "rb_record_count batch = length records" and "length records \<le> 4104"
    and "list_all world_record_valid records" and "rb_keyframe batch \<or> records \<noteq> []"
  shows "world_stream (rb_tick batch) (rb_keyframe batch) (SendWorldState_packets batch records)"
    and "concat (map wp_records (SendWorldState_packets batch records)) = records"
proof -
  let ?n = "ShroomWorldReplicationPacketCount (length records)"
  have n: "0 < ?n" "?n \<le> 71" using packet_count_pos packet_count_le [OF assms(2)] by simp_all
  then have u: "unat (word_of_nat ?n :: u16) = ?n" by (simp add: unat_of_nat)
  have packets: "SendWorldState_packets batch records = map (world_packet batch records ?n) [0..<?n]"
    using assms(1,4) u by (auto simp: SendWorldState_packets_def Let_def)
  note fields = world_packet_fields [OF assms(1), of ?n]
  have "map wp_records (SendWorldState_packets batch records) = map (\<lambda>i. take 58 (drop (i * 58) records)) [0..<?n]"
    by (simp add: packets fields(1))
  then show "concat (map wp_records (SendWorldState_packets batch records)) = records"
    using packet_count_covers [of "length records"] by (simp add: concat_slices)
  have one: "wp_tick p = rb_tick batch \<and> unat (wp_chunk_index p) = i \<and> unat (wp_chunk_count p) = ?n \<and>
      wp_flags p = (if rb_keyframe batch then 1 else 0) \<and> ph_type (wp_header p) = 29 \<and>
      unat (ph_size (wp_header p)) = world_packet_size p \<and>
      unat (wp_record_count p) = length (wp_records p) \<and> length (wp_records p) \<le> 58 \<and>
      list_all world_record_valid (wp_records p)"
    if i: "i < ?n" and p: "p = world_packet batch records ?n i" for i p
  proof -
    have len: "length (wp_records p) \<le> 58" "unat (wp_record_count p) = length (wp_records p)"
      by (simp_all add: p fields)
    then have size: "world_packet_size p \<le> 24 + 58 * 20" by (simp add: world_packet_size_def size_simps)
    have "unat (ph_size (wp_header p)) = world_packet_size p"
      using size unfolding p fields(8) by (simp only: unat_of_nat) simp
    moreover have "unat (word_of_nat i :: u16) = i" using i n(2) by (simp add: unat_of_nat)
    moreover have "list_all world_record_valid (wp_records p)"
      using assms(3) by (auto simp: p fields list_all_iff dest: in_set_takeD in_set_dropD)
    ultimately show ?thesis using len u by (simp add: p fields)
  qed
  show "world_stream (rb_tick batch) (rb_keyframe batch) (SendWorldState_packets batch records)"
    unfolding world_stream_def Let_def packets
    using n one [OF _ refl] by simp
qed

lemma received_all:
  "received_records packets {..<length packets} = set (concat (map wp_records packets))"
proof -
  have "set packets = (!) packets ` {..<length packets}"
    using nth_image [of "length packets" packets] by (simp add: atLeast0LessThan)
  then show ?thesis by (simp add: received_records_def)
qed

lemma keyframe_slot_records:
  "concat (map (spore_records True world center peer) is) =
     map (\<lambda>i. spore_record world i (ss_entity_id (spore_snapshot world i)) 1) (filter (spore_current world center) is)"
  "concat (map (powerup_records True world center peer) is) =
     map (\<lambda>i. powerup_record world i (sw_entity_id (powerup_snapshot world i)) 1) (filter (powerup_current world center) is)"
  by (induction "is") (simp_all add: spore_records_def powerup_records_def)

lemma slot_record_fields:
  "wr_entity_id (spore_record world i e operation) = e" "wr_operation (spore_record world i e operation) = operation"
  "wr_entity_kind (spore_record world i e operation) = 1"
  "record_spore (spore_record world i (ss_entity_id (spore_snapshot world i)) operation) = spore_snapshot world i"
  "wr_entity_id (powerup_record world i e operation) = e" "wr_operation (powerup_record world i e operation) = operation"
  "wr_entity_kind (powerup_record world i e operation) = 2"
  "record_powerup (powerup_record world i (sw_entity_id (powerup_snapshot world i)) operation) = powerup_snapshot world i"
  by (simp_all add: spore_record_def powerup_record_def record_spore_def record_powerup_def spore_snapshot_def
      powerup_snapshot_def Let_def)

lemma keyframe_records:
  "set (batch_records True world center peer) =
     (\<lambda>s. \<lparr>wr_entity_id = ss_entity_id s, wr_position_x = ss_position_x s, wr_position_y = ss_position_y s,
           wr_value = ss_value s, wr_entity_kind = 1, wr_operation = 1, wr_powerup_type = 0\<rparr>) ` set (current_spores world center) \<union>
     (\<lambda>p. \<lparr>wr_entity_id = sw_entity_id p, wr_position_x = sw_position_x p, wr_position_y = sw_position_y p,
           wr_value = 0, wr_entity_kind = 2, wr_operation = 1, wr_powerup_type = sw_type p\<rparr>) ` set (current_powerups world center)"
  by (simp add: batch_records_def keyframe_slot_records current_spores_def current_powerups_def image_image
      spore_record_def powerup_record_def)

lemma current_powerups_active: "p \<in> set (current_powerups world center) \<Longrightarrow> sw_active p = 1"
  by (auto simp: current_powerups_def powerup_snapshot_def Let_def)

lemma keyframe_records_valid:
  assumes "ids_ok world center"
  shows "list_all world_record_valid (batch_records True world center peer)"
  using assms unfolding list_all_iff keyframe_records ids_ok_def by (auto simp: world_record_valid_def)

lemma keyframe_content_sent:
  assumes sent: "set (concat (map wp_records packets)) = set (batch_records True world center peer)"
    and ids: "ids_ok world center"
    and stores: "distinct (map ss_entity_id ss0)" "distinct (map sw_entity_id ps0)"
    and room: "card (ss_entity_id ` (set ss0 \<union> set (current_spores world center))) \<le> 4096"
      "card (sw_entity_id ` (set ps0 \<union> set (current_powerups world center))) \<le> 8"
  shows "keyframe_content packets ss0 ps0 (find_spore (current_spores world center))
    (find_powerup (current_powerups world center))"
proof -
  let ?R = "received_records packets {..<length packets}"
  let ?ss = "current_spores world center" and ?ps = "current_powerups world center"
  have R: "?R = set (batch_records True world center peer)" using sent by (simp add: received_all)
  have ids_spores: "spore_ids ?R = ss_entity_id ` set ?ss"
    unfolding R keyframe_records spore_ids_def by (auto simp: image_iff) force
  have ids_powerups: "powerup_ids ?R = sw_entity_id ` set ?ps"
    unfolding R keyframe_records powerup_ids_def by (auto simp: image_iff) force
  have found: "find_spore ?ss (ss_entity_id s) = Some s" if "s \<in> set ?ss" for s
    using ids that by (intro lookup_by_mem) (simp_all add: ids_ok_def)
  have found_p: "find_powerup ?ps (sw_entity_id p) = Some p" if "p \<in> set ?ps" for p
    using ids that by (intro lookup_by_mem) (simp_all add: ids_ok_def)
  have "\<forall>r \<in> ?R. wr_operation r = SHROOM_WORLD_RECORD_SPAWN \<and>
      (if is_spore r then find_spore ?ss (wr_entity_id r) = Some (record_spore r)
       else find_powerup ?ps (wr_entity_id r) = Some (record_powerup r))"
    unfolding R keyframe_records using current_powerups_active [of _ world center]
    by (auto simp: found found_p record_spore_def record_powerup_def)
  moreover have "\<forall>k. k \<notin> spore_ids ?R \<longrightarrow> find_spore ?ss k = None"
    "\<forall>k. k \<notin> powerup_ids ?R \<longrightarrow> find_powerup ?ps k = None"
    by (simp_all add: ids_spores ids_powerups lookup_by_None)
  moreover have "card (ss_entity_id ` set ss0 \<union> spore_ids ?R) \<le> 4096" "card (sw_entity_id ` set ps0 \<union> powerup_ids ?R) \<le> 8"
    using room by (simp_all add: ids_spores ids_powerups image_Un)
  ultimately show ?thesis using stores by (simp add: keyframe_content_def Let_def)
qed

text \<open>C3. A keyframe of spores and powerups is delivered: whenever the server builds a keyframe
  batch for a peer and sends its packets, a client that receives each packet once, in any order,
  accepts all of them, closes the keyframe with the last one, and then stores exactly the spores
  and powerups that are active in the peer's interest area, each once, whatever it stored before
  (as long as its arrays have room while old and new entries overlap).  The server's note of what
  the peer knows is that same content.\<close>

theorem world_keyframe_delivered:
  assumes "ShroomWorldReplicationBuild peer world center force SHROOM_MAX_WORLD_STATE_RECORDS = (batch, peer', records)"
    and "rb_keyframe batch" and "peer_ok peer" and ids: "ids_ok world center"
    and stores: "distinct (map ss_entity_id spores)" "distinct (map sw_entity_id powerups)"
    and room: "card (ss_entity_id ` (set spores \<union> set (current_spores world center))) \<le> 4096"
      "card (sw_entity_id ` (set powerups \<union> set (current_powerups world center))) \<le> 8"
    and ready: "ready_for_keyframe client (ws_tick world)"
    and arrivals: "set (front @ [k]) = {..<length (SendWorldState_packets batch records)}" "k \<notin> set front"
  shows "\<exists>client' spores' powerups'.
    apply_all client (spores, powerups) (map ((!) (SendWorldState_packets batch records)) (front @ [k])) =
      (replicate (length front + 1) True, client', spores', powerups') \<and> \<not> rc_keyframe_pending client' \<and>
    distinct (map ss_entity_id spores') \<and> set spores' = set (current_spores world center) \<and>
    distinct (map sw_entity_id powerups') \<and> set powerups' = set (current_powerups world center) \<and>
    known_spores peer' = current_spores world center \<and> known_powerups peer' = current_powerups world center"
proof -
  let ?packets = "SendWorldState_packets batch records"
  let ?V = "find_spore (current_spores world center)" and ?W = "find_powerup (current_powerups world center)"
  have built: "rb_tick batch = ws_tick world" "rb_record_count batch = length records"
      "records = batch_records True world center peer" "peer_after world center peer peer'"
    using assms(1,2) Build_records [OF assms(3), of world center force] by fastforce+
  have stream: "world_stream (ws_tick world) True ?packets"
    and sent: "concat (map wp_records ?packets) = records"
    using SendWorldState_stream [OF built(2)] batch_records_length keyframe_records_valid [OF ids, of peer] assms(2)
    by (simp_all add: built(1,3))
  have content: "keyframe_content ?packets spores powerups ?V ?W"
    by (rule keyframe_content_sent [OF _ ids stores room, of _ peer]) (simp only: sent, simp only: built(3))
  obtain client' spores' powerups' where applied:
    "apply_all client (spores, powerups) (map ((!) ?packets) (front @ [k])) =
      (replicate (length front + 1) True, client', spores', powerups')" "keyframe_done ?V ?W client' spores' powerups'"
    using keyframe_complete [OF stream content arrivals ready] by blast
  have same: "set spores' = set (current_spores world center)"
    using applied(2) ids by (intro lookup_by_same_set [of ss_entity_id]) (simp_all add: keyframe_done_def ids_ok_def)
  have same_p: "set powerups' = set (current_powerups world center)"
    using applied(2) ids by (intro lookup_by_same_set [of sw_entity_id]) (simp_all add: keyframe_done_def ids_ok_def)
  show ?thesis
    using applied same same_p peer_after_known [OF built(4)] by (auto simp: keyframe_done_def)
qed

text \<open>The slots from the count on hold nothing, so a small world's content is quickly listed.\<close>

lemma current_by_count:
  "ws_spore_count world \<le> 4096 \<Longrightarrow>
     current_spores world center = map (spore_snapshot world) (filter (spore_current world center) [0..<ws_spore_count world])"
  "ws_powerup_count world \<le> 8 \<Longrightarrow>
     current_powerups world center = map (powerup_snapshot world) (filter (powerup_current world center) [0..<ws_powerup_count world])"
proof -
  assume "ws_spore_count world \<le> 4096"
  then have "[0..<4096] = [0..<ws_spore_count world] @ [ws_spore_count world..<4096]"
    by (metis le_add_diff_inverse upt_add_eq_append zero_le)
  then show "current_spores world center = map (spore_snapshot world) (filter (spore_current world center) [0..<ws_spore_count world])"
    by (simp add: current_spores_def spore_current_def filter_empty_conv)
next
  assume "ws_powerup_count world \<le> 8"
  then have "[0..<8] = [0..<ws_powerup_count world] @ [ws_powerup_count world..<8]"
    by (metis le_add_diff_inverse upt_add_eq_append zero_le)
  then show "current_powerups world center = map (powerup_snapshot world) (filter (powerup_current world center) [0..<ws_powerup_count world])"
    by (simp only: current_powerups_def) (simp add: powerup_current_def filter_empty_conv)
qed

text \<open>A world with one spore near the peer, one far away and one powerup, and a client that still
  holds an entry that is gone.\<close>

definition witness_spore :: "u32 \<Rightarrow> f32 \<Rightarrow> ShroomSporeState" where
  "witness_spore e x = \<lparr>spo_entity_id = e, spo_position = \<lparr>v2_x = x, v2_y = 0\<rparr>, spo_value = 7, spo_active = True\<rparr>"

definition witness_powerup :: ShroomPowerupState where
  "witness_powerup = \<lparr>pow_entity_id = 20, pow_position = \<lparr>v2_x = 0, v2_y = 0\<rparr>, pow_type = 1,
     pow_respawn_timer = 0, pow_active = True\<rparr>"

definition witness_world :: ShroomWorldState where
  "witness_world = \<lparr>ws_tick = 5, ws_width = 0, ws_height = 0, ws_random_seed = 0, ws_random_state = 0,
     ws_next_entity_id = 30, ws_match_phase = 0, ws_match_duration_seconds = 0, ws_match_time_remaining = 0,
     ws_match_results_time_remaining = 0, ws_podium_player_ids = [], ws_podium_masses = [], ws_game_mode = 0,
     ws_objective_target_score = 0, ws_objective_controller_id = 0, ws_objective_contested = False,
     ws_objective_player_ids = [], ws_objective_scores = [], ws_team_count = 0, ws_team_masses = [],
     ws_players = [], ws_spore_count = 2, ws_spores = [witness_spore 10 0, witness_spore 11 0x47000000],
     ws_powerup_count = 1, ws_powerups = [witness_powerup], ws_round_stats = []\<rparr>"

definition fresh_peer :: ShroomWorldReplicationPeerState where
  "fresh_peer = \<lparr>rp_initialized = False, rp_last_keyframe_tick = 0, rp_spore_known = replicate 4096 False,
     rp_powerup_known = replicate 8 False,
     rp_spores = replicate 4096 \<lparr>ss_entity_id = 0, ss_position_x = 0, ss_position_y = 0, ss_value = 0\<rparr>,
     rp_powerups = replicate 8 \<lparr>sw_entity_id = 0, sw_position_x = 0, sw_position_y = 0, sw_type = 0, sw_active = 0\<rparr>\<rparr>"

definition fresh_client :: ShroomWorldReplicationClientState where
  "fresh_client = \<lparr>rc_tick_received = False, rc_latest_tick = 0, rc_keyframe_pending = False, rc_keyframe_tick = 0,
     rc_keyframe_chunk_count = 0, rc_keyframe_chunks = no_chunks, rc_keyframe_spores = [], rc_keyframe_powerups = []\<rparr>"

definition origin :: ShroomVec2 where "origin = \<lparr>v2_x = 0, v2_y = 0\<rparr>"

lemma witness_interest:
  "ShroomWorldReplicationInInterest origin (spo_position (witness_spore 10 0))"
  "\<not> ShroomWorldReplicationInInterest origin (spo_position (witness_spore 11 0x47000000))"
  "ShroomWorldReplicationInInterest origin (pow_position witness_powerup)"
  by code_simp+

lemma witness_content:
  "current_spores witness_world origin = [spore_snapshot witness_world 0]"
  "current_powerups witness_world origin = [powerup_snapshot witness_world 0]"
  using witness_interest
  by (simp_all add: current_by_count witness_world_def spore_current_def powerup_current_def upt_rec numeral_2_eq_2
      witness_spore_def witness_powerup_def)

theorem world_keyframe_delivered_witness:
  "\<exists>batch peer records client spores powerups.
    ShroomWorldReplicationBuild fresh_peer witness_world origin False SHROOM_MAX_WORLD_STATE_RECORDS = (batch, peer, records) \<and>
    rb_keyframe batch \<and>
    apply_all fresh_client ([\<lparr>ss_entity_id = 9, ss_position_x = 0, ss_position_y = 0, ss_value = 1\<rparr>], [])
      (map ((!) (SendWorldState_packets batch records)) (rev [1..<length (SendWorldState_packets batch records)] @ [0])) =
      (replicate (length (SendWorldState_packets batch records)) True, client, spores, powerups) \<and>
    set spores = {spore_snapshot witness_world 0} \<and> set powerups = {powerup_snapshot witness_world 0}"
proof -
  let ?w = witness_world and ?c = origin
  let ?ss = "[\<lparr>ss_entity_id = 9, ss_position_x = 0, ss_position_y = 0, ss_value = 1\<rparr>]"
  have ok: "peer_ok fresh_peer" by (simp add: peer_ok_def fresh_peer_def)
  have due: "keyframe_due fresh_peer ?w ?c False = True" by (simp add: keyframe_due_def fresh_peer_def)
  let ?records = "batch_records True ?w ?c fresh_peer"
  define batch where
    "batch = \<lparr>rb_tick = ws_tick ?w, rb_record_count = length ?records, rb_keyframe = True\<rparr>"
  define records where "records = ?records"
  obtain peer where built': "ShroomWorldReplicationBuild fresh_peer ?w ?c False SHROOM_MAX_WORLD_STATE_RECORDS =
      (\<lparr>rb_tick = ws_tick ?w, rb_record_count = length ?records, rb_keyframe = True\<rparr>, peer, ?records)"
    by (rule Build_records [OF ok, of ?w ?c False, unfolded due]) (rule that)
  have built: "ShroomWorldReplicationBuild fresh_peer ?w ?c False SHROOM_MAX_WORLD_STATE_RECORDS = (batch, peer, records)"
    unfolding batch_def records_def by (rule built')
  have keyframe: "rb_keyframe batch" by (simp add: batch_def)
  have ids: "ids_ok ?w ?c"
    unfolding ids_ok_def witness_content
    by (simp add: spore_snapshot_def powerup_snapshot_def Let_def witness_world_def witness_spore_def witness_powerup_def)
  have stores: "distinct (map ss_entity_id ?ss)" "distinct (map sw_entity_id [])" by simp_all
  have room: "card (ss_entity_id ` (set ?ss \<union> set (current_spores ?w ?c))) \<le> 4096"
    "card (sw_entity_id ` (set [] \<union> set (current_powerups ?w ?c))) \<le> 8"
    using card_insert_le_m1 [of 4096] by (simp_all add: witness_content card_insert_if)
  have ready: "ready_for_keyframe fresh_client (ws_tick ?w)"
    by (simp add: ready_for_keyframe_def fresh_client_def)
  have n: "0 < length (SendWorldState_packets batch records)"
    using SendWorldState_stream(1) [of batch records] batch_records_length [of True ?w ?c fresh_peer]
      keyframe_records_valid [OF ids, of fresh_peer]
    by (simp add: batch_def records_def world_stream_def)
  have order: "set (rev [1..<length (SendWorldState_packets batch records)] @ [0]) = {..<length (SendWorldState_packets batch records)}"
    "0 \<notin> set (rev [1..<length (SendWorldState_packets batch records)])" using n by auto
  have len: "length (rev [1..<length (SendWorldState_packets batch records)]) + 1 = length (SendWorldState_packets batch records)"
    using n by simp
  show ?thesis
    using world_keyframe_delivered [OF built keyframe ok ids stores room ready order] built keyframe
    unfolding witness_content len by (metis list.simps(15) empty_set)
qed

end
