(* ===== verification/Voice_Relay.thy ===== *)
theory Voice_Relay
  imports Serial_Numbers Protocol
begin

text \<open>
  The server's voice relay (\<open>src/server/voice_relay.c\<close>): one slot per client with its
  lobby, its open voice stream and its rate window; a routed frame is stamped with the sender's
  player number and handed to every other client of the lobby.  The send callback is a
  parameter; the model returns the calls made to it.
\<close>

definition SHROOM_VOICE_RATE_WINDOW_MS :: u64 where "SHROOM_VOICE_RATE_WINDOW_MS = 1000"
definition SHROOM_VOICE_MAX_FRAMES_PER_WINDOW :: u32 where "SHROOM_VOICE_MAX_FRAMES_PER_WINDOW = 50"
definition SHROOM_VOICE_MAX_BYTES_PER_WINDOW :: nat where "SHROOM_VOICE_MAX_BYTES_PER_WINDOW = 16384"
definition SHROOM_VOICE_MAX_ACTIVE_TALKERS :: nat where "SHROOM_VOICE_MAX_ACTIVE_TALKERS = 8"
definition SHROOM_VOICE_TALKER_TIMEOUT_MS :: u64 where "SHROOM_VOICE_TALKER_TIMEOUT_MS = 500"

lemmas voice_constants = SHROOM_SERVER_MAX_CLIENTS_def SHROOM_VOICE_RATE_WINDOW_MS_def
  SHROOM_VOICE_MAX_FRAMES_PER_WINDOW_def SHROOM_VOICE_MAX_BYTES_PER_WINDOW_def
  SHROOM_VOICE_MAX_ACTIVE_TALKERS_def SHROOM_VOICE_TALKER_TIMEOUT_MS_def

record ShroomVoiceRelayPeer =
  vp_connected :: bool
  vp_active_talker :: bool
  vp_has_sequence :: bool
  vp_lobby_id :: u32
  vp_player_id :: u32
  vp_active_stream_id :: u32
  vp_frame_count :: u32
  vp_byte_count :: u32
  vp_last_sequence :: u16
  vp_window_start_ms :: u64
  vp_last_frame_ms :: u64

record ShroomVoiceRelay =
  vr_peers :: "ShroomVoiceRelayPeer list"

datatype ShroomVoiceRelayResult =
    SHROOM_VOICE_RELAY_ACCEPTED
  | SHROOM_VOICE_RELAY_INVALID_PEER
  | SHROOM_VOICE_RELAY_INVALID_FRAME
  | SHROOM_VOICE_RELAY_NOT_IN_LOBBY
  | SHROOM_VOICE_RELAY_STREAM_NOT_STARTED
  | SHROOM_VOICE_RELAY_SEQUENCE_REJECTED
  | SHROOM_VOICE_RELAY_FRAME_RATE_LIMITED
  | SHROOM_VOICE_RELAY_BYTE_RATE_LIMITED
  | SHROOM_VOICE_RELAY_TALKER_LIMITED

definition ResetPeer :: ShroomVoiceRelayPeer where
  "ResetPeer = \<lparr>vp_connected = False, vp_active_talker = False, vp_has_sequence = False, vp_lobby_id = 0,
     vp_player_id = 0, vp_active_stream_id = 0, vp_frame_count = 0, vp_byte_count = 0,
     vp_last_sequence = 0, vp_window_start_ms = 0, vp_last_frame_ms = 0\<rparr>"

definition TalkerExpired :: "ShroomVoiceRelayPeer \<Rightarrow> u64 \<Rightarrow> bool" where
  "TalkerExpired peer now_ms \<longleftrightarrow> vp_active_talker peer \<and>
     (now_ms < vp_last_frame_ms peer \<or> SHROOM_VOICE_TALKER_TIMEOUT_MS \<le> now_ms - vp_last_frame_ms peer)"

definition close_stream :: "ShroomVoiceRelayPeer \<Rightarrow> ShroomVoiceRelayPeer" where
  "close_stream peer = peer\<lparr>vp_active_talker := False, vp_active_stream_id := 0, vp_has_sequence := False\<rparr>"

definition ExpireTalkers :: "ShroomVoiceRelay \<Rightarrow> u64 \<Rightarrow> ShroomVoiceRelay" where
  "ExpireTalkers relay now_ms =
     relay\<lparr>vr_peers := map (\<lambda>peer. if TalkerExpired peer now_ms then close_stream peer else peer) (vr_peers relay)\<rparr>"

definition CountLobbyTalkers :: "ShroomVoiceRelay \<Rightarrow> u32 \<Rightarrow> nat" where
  "CountLobbyTalkers relay lobby_id =
     count_if (\<lambda>peer. vp_connected peer \<and> vp_active_talker peer \<and> vp_lobby_id peer = lobby_id) (vr_peers relay)"

definition ResetRateWindowIfNeeded :: "ShroomVoiceRelayPeer \<Rightarrow> u64 \<Rightarrow> ShroomVoiceRelayPeer" where
  "ResetRateWindowIfNeeded peer now_ms =
     (if vp_frame_count peer = 0 \<or> now_ms < vp_window_start_ms peer \<or>
         SHROOM_VOICE_RATE_WINDOW_MS \<le> now_ms - vp_window_start_ms peer
      then peer\<lparr>vp_window_start_ms := now_ms, vp_frame_count := 0, vp_byte_count := 0\<rparr> else peer)"

definition ShroomVoiceRelayInit :: "ShroomVoiceRelay option \<Rightarrow> ShroomVoiceRelay option" where
  "ShroomVoiceRelayInit relay =
     (case relay of None \<Rightarrow> None
      | Some _ \<Rightarrow> Some \<lparr>vr_peers = replicate SHROOM_SERVER_MAX_CLIENTS ResetPeer\<rparr>)"

definition ShroomVoiceRelaySetPeer ::
  "ShroomVoiceRelay option \<Rightarrow> nat \<Rightarrow> bool \<Rightarrow> u32 \<Rightarrow> u32 \<Rightarrow> ShroomVoiceRelay option" where
  "ShroomVoiceRelaySetPeer relay peer_index connected lobby_id player_id =
     (case relay of
        None \<Rightarrow> None
      | Some r \<Rightarrow>
          if SHROOM_SERVER_MAX_CLIENTS \<le> peer_index then Some r
          else
            let peer = vr_peers r ! peer_index
            in if \<not> connected then Some (r\<lparr>vr_peers := (vr_peers r)[peer_index := ResetPeer]\<rparr>)
               else
                 let peer = (if \<not> vp_connected peer \<or> vp_lobby_id peer \<noteq> lobby_id \<or> vp_player_id peer \<noteq> player_id
                             then ResetPeer else peer)
                 in Some (r\<lparr>vr_peers := (vr_peers r)[peer_index :=
                      peer\<lparr>vp_connected := True, vp_lobby_id := lobby_id, vp_player_id := player_id\<rparr>]\<rparr>))"

text \<open>A frame that continues a stream must be ahead of the last one, modulo 16 bits.\<close>

definition sequence_rejected :: "u16 \<Rightarrow> u16 \<Rightarrow> bool" where
  "sequence_rejected sequence last_sequence \<longleftrightarrow>
     (let sequence_delta = sequence - last_sequence in sequence_delta = 0 \<or> 0x8000 \<le> sequence_delta)"

interpretation voice_serial: serial_order "\<lambda>a b. \<not> sequence_rejected a b"
proof
  fix a b :: u16
  show "\<not> sequence_rejected a b \<longleftrightarrow> 0 < unat (a - b) \<and> unat (a - b) < 2 ^ (LENGTH(16) - 1)"
    by (auto simp: sequence_rejected_def Let_def unat_gt_0 word_less_nat_alt word_le_nat_alt)
qed

definition note_frame :: "ShroomVoiceRelayPeer \<Rightarrow> ShroomVoiceFramePacket \<Rightarrow> nat \<Rightarrow> u64 \<Rightarrow> ShroomVoiceRelayPeer" where
  "note_frame sender incoming wire_size now_ms =
     sender\<lparr>vp_active_talker := True, vp_active_stream_id := vf_stream_id incoming,
            vp_last_sequence := vf_sequence incoming, vp_has_sequence := True, vp_last_frame_ms := now_ms,
            vp_frame_count := vp_frame_count sender + 1,
            vp_byte_count := vp_byte_count sender + word_of_nat wire_size\<rparr>"

definition voice_recipients :: "ShroomVoiceRelay \<Rightarrow> nat \<Rightarrow> nat list" where
  "voice_recipients relay sender_index =
     filter (\<lambda>index. \<not> (index = sender_index \<or> \<not> vp_connected (vr_peers relay ! index) \<or>
                        vp_lobby_id (vr_peers relay ! index) \<noteq> vp_lobby_id (vr_peers relay ! sender_index)))
       [0..<SHROOM_SERVER_MAX_CLIENTS]"

text \<open>The bookkeeping before the checks: expired talkers and the sender's rate window.\<close>

definition route_base :: "ShroomVoiceRelay \<Rightarrow> nat \<Rightarrow> u64 \<Rightarrow> ShroomVoiceRelay" where
  "route_base relay sender_index now_ms =
     (let r = ExpireTalkers relay now_ms
      in r\<lparr>vr_peers := (vr_peers r)[sender_index := ResetRateWindowIfNeeded (vr_peers r ! sender_index) now_ms]\<rparr>)"

text \<open>The checks and the delivery: the result, the relay, the frames handed to the callback by
  client, and the delivered count.\<close>

definition route_frame ::
  "ShroomVoiceRelay \<Rightarrow> nat \<Rightarrow> ShroomVoiceFramePacket \<Rightarrow> nat \<Rightarrow> u64 \<Rightarrow>
     (nat \<Rightarrow> ShroomVoiceFramePacket \<Rightarrow> nat \<Rightarrow> bool) option \<Rightarrow>
     ShroomVoiceRelayResult \<times> ShroomVoiceRelay \<times> (nat \<times> ShroomVoiceFramePacket) list \<times> nat" where
  "route_frame r sender_index incoming wire_size now_ms send_fn =
     (let sender = vr_peers r ! sender_index;
          starts_stream = (vf_flags incoming AND SHROOM_VOICE_FLAG_START \<noteq> 0)
      in if SHROOM_VOICE_MAX_FRAMES_PER_WINDOW \<le> vp_frame_count sender
         then (SHROOM_VOICE_RELAY_FRAME_RATE_LIMITED, r, [], 0)
         else if SHROOM_VOICE_MAX_BYTES_PER_WINDOW < wire_size \<or>
                 SHROOM_VOICE_MAX_BYTES_PER_WINDOW - wire_size < unat (vp_byte_count sender)
         then (SHROOM_VOICE_RELAY_BYTE_RATE_LIMITED, r, [], 0)
         else if \<not> vp_active_talker sender \<and> \<not> starts_stream
         then (SHROOM_VOICE_RELAY_STREAM_NOT_STARTED, r, [], 0)
         else if vp_active_talker sender \<and> vp_active_stream_id sender \<noteq> vf_stream_id incoming \<and> \<not> starts_stream
         then (SHROOM_VOICE_RELAY_STREAM_NOT_STARTED, r, [], 0)
         else if vp_active_talker sender \<and> vp_active_stream_id sender = vf_stream_id incoming \<and>
                 vp_has_sequence sender \<and> \<not> starts_stream \<and>
                 sequence_rejected (vf_sequence incoming) (vp_last_sequence sender)
         then (SHROOM_VOICE_RELAY_SEQUENCE_REJECTED, r, [], 0)
         else if \<not> vp_active_talker sender \<and>
                 SHROOM_VOICE_MAX_ACTIVE_TALKERS \<le> CountLobbyTalkers r (vp_lobby_id sender)
         then (SHROOM_VOICE_RELAY_TALKER_LIMITED, r, [], 0)
         else
           let output = incoming\<lparr>vf_sender_id := vp_player_id sender\<rparr>;
               sender = note_frame sender incoming wire_size now_ms;
               r = r\<lparr>vr_peers := (vr_peers r)[sender_index := sender]\<rparr>;
               calls = (case send_fn of None \<Rightarrow> []
                        | Some _ \<Rightarrow> map (\<lambda>index. (index, output)) (voice_recipients r sender_index));
               delivered = (case send_fn of None \<Rightarrow> 0
                            | Some send \<Rightarrow> count_if (\<lambda>(index, out). send index out wire_size) calls);
               sender = (if vf_flags incoming AND SHROOM_VOICE_FLAG_END \<noteq> 0
                         then close_stream sender else sender)
           in (SHROOM_VOICE_RELAY_ACCEPTED, r\<lparr>vr_peers := (vr_peers r)[sender_index := sender]\<rparr>, calls, delivered))"

definition ShroomVoiceRelayRoute ::
  "ShroomVoiceRelay option \<Rightarrow> nat \<Rightarrow> ShroomVoiceFramePacket option \<Rightarrow> nat \<Rightarrow> u64 \<Rightarrow>
     (nat \<Rightarrow> ShroomVoiceFramePacket \<Rightarrow> nat \<Rightarrow> bool) option \<Rightarrow>
     ShroomVoiceRelayResult \<times> ShroomVoiceRelay option \<times> (nat \<times> ShroomVoiceFramePacket) list \<times> nat" where
  "ShroomVoiceRelayRoute relay sender_index data wire_size now_ms send_fn =
     (case relay of
        None \<Rightarrow> (SHROOM_VOICE_RELAY_INVALID_PEER, relay, [], 0)
      | Some r \<Rightarrow>
          if SHROOM_SERVER_MAX_CLIENTS \<le> sender_index then (SHROOM_VOICE_RELAY_INVALID_PEER, relay, [], 0)
          else if \<not> ShroomVoiceFramePacketIsValid data wire_size
          then (SHROOM_VOICE_RELAY_INVALID_FRAME, relay, [], 0)
          else
            let sender = vr_peers r ! sender_index
            in if \<not> vp_connected sender \<or> vp_lobby_id sender = 0 \<or> vp_player_id sender = 0
               then (SHROOM_VOICE_RELAY_NOT_IN_LOBBY, relay, [], 0)
               else (case route_frame (route_base r sender_index now_ms) sender_index (the data) wire_size now_ms send_fn of
                       (result, r, calls, delivered) \<Rightarrow> (result, Some r, calls, delivered)))"

section \<open>What a route does\<close>

abbreviation talking :: "u32 \<Rightarrow> ShroomVoiceRelayPeer \<Rightarrow> bool" where
  "talking lobby peer \<equiv> vp_connected peer \<and> vp_active_talker peer \<and> vp_lobby_id peer = lobby"

definition relay_ok :: "ShroomVoiceRelay \<Rightarrow> bool" where
  "relay_ok r \<longleftrightarrow> length (vr_peers r) = 256"

lemma peer_fields [simp]:
  "vp_connected (ResetRateWindowIfNeeded p now) = vp_connected p"
  "vp_active_talker (ResetRateWindowIfNeeded p now) = vp_active_talker p"
  "vp_lobby_id (ResetRateWindowIfNeeded p now) = vp_lobby_id p"
  "vp_player_id (ResetRateWindowIfNeeded p now) = vp_player_id p"
  "vp_connected (close_stream p) = vp_connected p" "vp_active_talker (close_stream p) = False"
  "vp_lobby_id (close_stream p) = vp_lobby_id p" "vp_player_id (close_stream p) = vp_player_id p"
  "vp_frame_count (close_stream p) = vp_frame_count p" "vp_window_start_ms (close_stream p) = vp_window_start_ms p"
  "vp_connected (note_frame p incoming n now) = vp_connected p" "vp_active_talker (note_frame p incoming n now)"
  "vp_lobby_id (note_frame p incoming n now) = vp_lobby_id p"
  "vp_player_id (note_frame p incoming n now) = vp_player_id p"
  "vp_frame_count (note_frame p incoming n now) = vp_frame_count p + 1"
  "vp_window_start_ms (note_frame p incoming n now) = vp_window_start_ms p"
  by (simp_all add: ResetRateWindowIfNeeded_def close_stream_def note_frame_def)

lemma route_base_peer:
  assumes "relay_ok r" and "j < 256"
  shows "vp_connected (vr_peers (route_base r i now) ! j) = vp_connected (vr_peers r ! j)"
    and "vp_lobby_id (vr_peers (route_base r i now) ! j) = vp_lobby_id (vr_peers r ! j)"
    and "vp_player_id (vr_peers (route_base r i now) ! j) = vp_player_id (vr_peers r ! j)"
  using assms
  by (cases "j = i"; simp add: route_base_def ExpireTalkers_def relay_ok_def Let_def)+

lemma route_base_ok [simp]: "relay_ok (route_base r i now) = relay_ok r"
  by (simp add: route_base_def ExpireTalkers_def relay_ok_def Let_def)

lemma route_frame_cases:
  assumes "route_frame r i p n now send = (result, r', calls, k)"
  obtains
    (refused) "result \<noteq> SHROOM_VOICE_RELAY_ACCEPTED" "r' = r" "calls = []" "k = 0"
  | (accepted) sender r2 where "result = SHROOM_VOICE_RELAY_ACCEPTED" "sender = vr_peers r ! i"
      "vp_frame_count sender < 50" "unat (vp_byte_count sender) + n \<le> 16384"
      "\<not> vp_active_talker sender \<Longrightarrow> CountLobbyTalkers r (vp_lobby_id sender) < 8"
      "r2 = r\<lparr>vr_peers := (vr_peers r)[i := note_frame sender p n now]\<rparr>"
      "calls = (case send of None \<Rightarrow> [] | Some _ \<Rightarrow>
         map (\<lambda>j. (j, p\<lparr>vf_sender_id := vp_player_id sender\<rparr>)) (voice_recipients r2 i))"
      "k = (case send of None \<Rightarrow> 0 | Some f \<Rightarrow> count_if (\<lambda>(j, out). f j out n) calls)"
      "r' = r\<lparr>vr_peers := (vr_peers r)[i := if vf_flags p AND SHROOM_VOICE_FLAG_END \<noteq> 0
         then close_stream (note_frame sender p n now) else note_frame sender p n now]\<rparr>"
proof (cases "result = SHROOM_VOICE_RELAY_ACCEPTED")
  case False
  then have "r' = r \<and> calls = [] \<and> k = 0"
    using assms unfolding route_frame_def Let_def by (auto split: if_splits)
  with False show ?thesis by (intro refused) simp_all
next
  case True
  then show ?thesis
    using assms unfolding route_frame_def Let_def voice_constants
    by (intro accepted [OF _ refl _ _ _ refl]) (auto simp: not_le not_less split: if_splits)
qed

lemma Route_cases:
  assumes "ShroomVoiceRelayRoute (Some r) i data n now send = (result, r', calls, k)"
  obtains
    (invalid) "result \<noteq> SHROOM_VOICE_RELAY_ACCEPTED" "r' = Some r" "calls = []" "k = 0"
  | (routed) p r2 where "i < 256" "data = Some p" "ShroomVoiceFramePacketIsValid (Some p) n"
      "vp_connected (vr_peers r ! i)" "vp_lobby_id (vr_peers r ! i) \<noteq> 0" "vp_player_id (vr_peers r ! i) \<noteq> 0"
      "route_frame (route_base r i now) i p n now send = (result, r2, calls, k)" "r' = Some r2"
proof (cases "i < 256 \<and> ShroomVoiceFramePacketIsValid data n \<and> vp_connected (vr_peers r ! i) \<and>
    vp_lobby_id (vr_peers r ! i) \<noteq> 0 \<and> vp_player_id (vr_peers r ! i) \<noteq> 0")
  case False
  then have "result \<noteq> SHROOM_VOICE_RELAY_ACCEPTED \<and> r' = Some r \<and> calls = [] \<and> k = 0"
    using assms by (auto simp: ShroomVoiceRelayRoute_def Let_def voice_constants not_le split: if_splits)
  then show ?thesis by (intro invalid) simp_all
next
  case True
  then obtain p where p: "data = Some p" by (cases data) (auto simp: ShroomVoiceFramePacketIsValid_def)
  from True assms p obtain r2 where "route_frame (route_base r i now) i p n now send = (result, r2, calls, k)" "r' = Some r2"
    by (auto simp: ShroomVoiceRelayRoute_def Let_def voice_constants split: prod.splits)
  with True p show ?thesis by (intro routed) simp_all
qed

section \<open>Frames stay in the lobby\<close>

lemma voice_recipients_noted:
  assumes "relay_ok r" and "i < 256"
  shows "voice_recipients (r\<lparr>vr_peers := (vr_peers r)[i := note_frame (vr_peers r ! i) p n now]\<rparr>) i = voice_recipients r i"
  using assms unfolding voice_recipients_def voice_constants
  by (intro filter_cong) (auto simp: relay_ok_def nth_list_update)

lemma voice_recipients_base:
  assumes "relay_ok r" and "i < 256"
  shows "voice_recipients (route_base r i now) i = voice_recipients r i"
  using assms unfolding voice_recipients_def voice_constants
  by (intro filter_cong) (auto simp: route_base_peer)

lemma voice_recipients_filter:
  "voice_recipients r i = filter (\<lambda>j. j \<noteq> i \<and> vp_connected (vr_peers r ! j) \<and>
     vp_lobby_id (vr_peers r ! j) = vp_lobby_id (vr_peers r ! i)) [0..<256]"
  unfolding voice_recipients_def voice_constants by (intro filter_cong) auto

text \<open>C20. A voice frame reaches the sender's lobby and no one else: a frame that is not accepted is
  handed to nobody; an accepted one is handed exactly once to every other connected client whose
  lobby is the sender's, with the sender's own player number in it whatever the sender wrote
  there, and otherwise as it came.\<close>

theorem voice_frame_reaches_its_lobby:
  assumes "ShroomVoiceRelayRoute (Some r) i data n now (Some send) = (result, r', calls, k)" and ok: "relay_ok r"
  shows "if result = SHROOM_VOICE_RELAY_ACCEPTED
     then i < 256 \<and> (\<exists>p. data = Some p \<and> ShroomVoiceFramePacketIsValid data n \<and>
       calls = map (\<lambda>j. (j, p\<lparr>vf_sender_id := vp_player_id (vr_peers r ! i)\<rparr>))
         (filter (\<lambda>j. j \<noteq> i \<and> vp_connected (vr_peers r ! j) \<and>
            vp_lobby_id (vr_peers r ! j) = vp_lobby_id (vr_peers r ! i)) [0..<256]) \<and>
       k = length (filter (\<lambda>(j, out). send j out n) calls))
     else calls = [] \<and> k = 0"
  using assms(1)
proof (cases rule: Route_cases)
  case invalid
  then show ?thesis by simp
next
  case (routed p r2)
  from routed(7) show ?thesis
  proof (cases rule: route_frame_cases)
    case refused
    then show ?thesis by simp
  next
    case (accepted sender r3)
    have "voice_recipients r3 i = voice_recipients r i"
      using voice_recipients_noted [of "route_base r i now" i p n now] voice_recipients_base [OF ok routed(1)]
        ok routed(1) by (simp add: accepted(2,6))
    then show ?thesis
      using accepted routed(1-3) ok
      by (simp add: voice_recipients_filter route_base_peer count_if_def)
  qed
qed

definition witness_peer :: "u32 \<Rightarrow> u32 \<Rightarrow> ShroomVoiceRelayPeer" where
  "witness_peer lobby player = ResetPeer\<lparr>vp_connected := True, vp_lobby_id := lobby, vp_player_id := player\<rparr>"

definition witness_relay :: ShroomVoiceRelay where
  "witness_relay = \<lparr>vr_peers = [witness_peer 1 11, witness_peer 1 12, witness_peer 2 13] @ replicate 253 ResetPeer\<rparr>"

definition witness_frame :: ShroomVoiceFramePacket where
  "witness_frame = \<lparr>vf_header = \<lparr>ph_type = 20, ph_reserved = 4, ph_size = 25\<rparr>, vf_sender_id = 99, vf_stream_id = 5,
     vf_timestamp = 0, vf_sequence = 1, vf_payload_size = 1, vf_flags = 1, vf_reserved = (0, 0, 0), vf_payload = [7]\<rparr>"

lemma witness_relay_ok: "relay_ok witness_relay"
  by (simp add: witness_relay_def relay_ok_def)

lemma witness_frame_valid: "ShroomVoiceFramePacketIsValid (Some witness_frame) 25"
  by (simp add: witness_frame_def ShroomVoiceFramePacketIsValid_def ShroomVoiceFramePacketSize_def size_simps
      SHROOM_VOICE_FRAME_HEADER_SIZE_def SHROOM_VOICE_FRAME_MAX_SIZE_def SHROOM_VOICE_MAX_PAYLOAD_SIZE_def)

lemma lobby_filter:
  "filter (\<lambda>j. j \<noteq> 0 \<and> vp_connected (vr_peers witness_relay ! j) \<and>
     vp_lobby_id (vr_peers witness_relay ! j) = vp_lobby_id (vr_peers witness_relay ! 0)) [0..<256] = [1]"
proof -
  let ?P = "\<lambda>j. j \<noteq> 0 \<and> vp_connected (vr_peers witness_relay ! j) \<and>
     vp_lobby_id (vr_peers witness_relay ! j) = vp_lobby_id (vr_peers witness_relay ! 0)"
  have "\<not> ?P j" if "3 \<le> j" "j < 256" for j
    using that by (simp add: witness_relay_def nth_append ResetPeer_def)
  then have "filter ?P [0..<256] = filter ?P [0..<3]" by (intro filter_upt_prefix) auto
  then show ?thesis by (simp add: upt_rec witness_relay_def witness_peer_def)
qed

theorem voice_frame_reaches_its_lobby_witness:
  "\<exists>r'. ShroomVoiceRelayRoute (Some witness_relay) 0 (Some witness_frame) 25 3 (Some (\<lambda>j out n. True)) =
     (SHROOM_VOICE_RELAY_ACCEPTED, r', [(1, witness_frame\<lparr>vf_sender_id := 11\<rparr>)], 1)"
proof -
  obtain result r' calls k where route:
    "ShroomVoiceRelayRoute (Some witness_relay) 0 (Some witness_frame) 25 3 (Some (\<lambda>j out n. True)) = (result, r', calls, k)"
    by (metis prod_cases4)
  have expire: "ExpireTalkers witness_relay 3 = witness_relay"
    by (simp add: ExpireTalkers_def TalkerExpired_def witness_relay_def witness_peer_def ResetPeer_def)
  have base: "route_base witness_relay 0 3 =
      \<lparr>vr_peers = [(witness_peer 1 11)\<lparr>vp_window_start_ms := 3\<rparr>, witness_peer 1 12, witness_peer 2 13] @ replicate 253 ResetPeer\<rparr>"
    unfolding route_base_def Let_def expire
    by (simp add: witness_relay_def ResetRateWindowIfNeeded_def) (simp add: witness_peer_def ResetPeer_def)
  have "count_if (talking 1) (vr_peers (route_base witness_relay 0 3)) = 0"
    by (simp add: base count_if_replicate) (simp add: witness_peer_def ResetPeer_def)
  then have quiet: "CountLobbyTalkers (route_base witness_relay 0 3) 1 < 8" by (simp add: CountLobbyTalkers_def)
  have sender: "vr_peers (route_base witness_relay 0 3) ! 0 = (witness_peer 1 11)\<lparr>vp_window_start_ms := 3\<rparr>"
    by (simp add: base)
  have "fst (route_frame (route_base witness_relay 0 3) 0 witness_frame 25 3 (Some (\<lambda>j out n. True))) = SHROOM_VOICE_RELAY_ACCEPTED"
    using quiet unfolding route_frame_def Let_def sender voice_constants
    by (simp add: witness_frame_def witness_peer_def ResetPeer_def)
  then have "result = SHROOM_VOICE_RELAY_ACCEPTED"
    using route witness_frame_valid
    by (simp add: ShroomVoiceRelayRoute_def voice_constants witness_relay_def witness_peer_def split: prod.splits)
  with voice_frame_reaches_its_lobby [OF route witness_relay_ok] lobby_filter route show ?thesis
    by (auto simp: witness_relay_def witness_peer_def)
qed

section \<open>At most eight talkers\<close>

text \<open>Everything that can happen to the relay.\<close>

inductive voice_step :: "ShroomVoiceRelay \<Rightarrow> ShroomVoiceRelay \<Rightarrow> bool" where
  set_peer: "ShroomVoiceRelaySetPeer (Some r) i connected lobby player = Some r' \<Longrightarrow> voice_step r r'"
| route: "ShroomVoiceRelayRoute (Some r) i data n now send = (result, Some r', calls, k) \<Longrightarrow> voice_step r r'"

lemma talkers_update:
  assumes "relay_ok r" and "i < 256"
  shows "CountLobbyTalkers (r\<lparr>vr_peers := (vr_peers r)[i := p]\<rparr>) l + (if talking l (vr_peers r ! i) then 1 else 0) =
    CountLobbyTalkers r l + (if talking l p then 1 else 0)"
  using assms count_if_update [of i "vr_peers r" "talking l" p]
  by (simp add: CountLobbyTalkers_def relay_ok_def)

lemma base_talkers:
  assumes "relay_ok r" and "i < 256"
  shows "CountLobbyTalkers (route_base r i now) l \<le> CountLobbyTalkers r l"
proof -
  have ok: "relay_ok (ExpireTalkers r now)" using assms(1) by (simp add: relay_ok_def ExpireTalkers_def)
  have "CountLobbyTalkers (route_base r i now) l = CountLobbyTalkers (ExpireTalkers r now) l"
    using talkers_update [OF ok assms(2), of "ResetRateWindowIfNeeded (vr_peers (ExpireTalkers r now) ! i) now" l]
    by (simp add: route_base_def Let_def split: if_splits)
  also have "\<dots> \<le> CountLobbyTalkers r l"
    unfolding CountLobbyTalkers_def ExpireTalkers_def by (simp, rule count_if_map_mono) (auto split: if_splits)
  finally show ?thesis .
qed

definition talkers_ok :: "ShroomVoiceRelay \<Rightarrow> bool" where
  "talkers_ok r \<longleftrightarrow> relay_ok r \<and> (\<forall>l. CountLobbyTalkers r l \<le> 8)"

lemma set_peer_talkers:
  assumes "ShroomVoiceRelaySetPeer (Some r) i connected lobby player = Some r'" and "talkers_ok r"
  shows "talkers_ok r'"
proof (cases "i < 256")
  case False
  with assms show ?thesis by (simp add: ShroomVoiceRelaySetPeer_def voice_constants)
next
  case True
  have ok: "relay_ok r" using assms(2) by (simp add: talkers_ok_def)
  obtain p where r': "r' = r\<lparr>vr_peers := (vr_peers r)[i := p]\<rparr>"
    and p: "talking l p \<Longrightarrow> talking l (vr_peers r ! i)" for l
    using assms(1) True by (fastforce simp: ShroomVoiceRelaySetPeer_def voice_constants Let_def ResetPeer_def split: if_splits)
  have "CountLobbyTalkers r' l \<le> CountLobbyTalkers r l" for l
    using talkers_update [OF ok True, of p l] p [of l] unfolding r' by (auto split: if_splits)
  then show ?thesis using assms(2) by (auto simp: talkers_ok_def r' relay_ok_def intro: le_trans)
qed

lemma route_talkers:
  assumes "ShroomVoiceRelayRoute (Some r) i data n now send = (result, Some r', calls, k)" and "talkers_ok r"
  shows "talkers_ok r'"
  using assms(1)
proof (cases rule: Route_cases)
  case invalid
  with assms(2) show ?thesis by simp
next
  case (routed p r2)
  have base: "talkers_ok (route_base r i now)"
    using assms(2) base_talkers [OF _ routed(1), of r now] by (auto simp: talkers_ok_def intro: le_trans)
  from routed(7) show ?thesis
  proof (cases rule: route_frame_cases)
    case refused
    with base routed(8) show ?thesis by simp
  next
    case (accepted sender r3)
    let ?b = "route_base r i now"
    have ok: "relay_ok ?b" using base by (simp add: talkers_ok_def)
    obtain q where r2: "r2 = ?b\<lparr>vr_peers := (vr_peers ?b)[i := q]\<rparr>"
      and q: "talking l q \<Longrightarrow> vp_connected sender \<and> vp_lobby_id sender = l" for l
      by (rule that [OF accepted(9)]) (auto split: if_splits)
    have "CountLobbyTalkers r2 l \<le> 8" for l
    proof (cases "talking l q")
      case True
      with q [of l] accepted(5) talkers_update [OF ok routed(1), of q l] base show ?thesis
        unfolding r2 accepted(2) talkers_ok_def
        by (cases "vp_active_talker (vr_peers (route_base r i now) ! i)") (auto intro: le_trans)
    next
      case False
      have "CountLobbyTalkers ?b l \<le> 8" using base by (simp add: talkers_ok_def)
      with False talkers_update [OF ok routed(1), of q l] show ?thesis unfolding r2 by (simp split: if_splits)
    qed
    then show ?thesis using ok routed(8) by (simp add: talkers_ok_def r2 relay_ok_def)
  qed
qed

text \<open>C21. At most eight clients of a lobby talk at once, in every state the relay can reach from its
  initialisation by clients joining, leaving and changing lobbies and by frames of any content
  from any client at any time.\<close>

theorem voice_talkers_bounded:
  assumes "ShroomVoiceRelayInit (Some r0) = Some r1" and "voice_step\<^sup>*\<^sup>* r1 r"
  shows "length (vr_peers r) = SHROOM_SERVER_MAX_CLIENTS \<and> CountLobbyTalkers r lobby \<le> SHROOM_VOICE_MAX_ACTIVE_TALKERS"
  using assms(2)
proof -
  have "talkers_ok r1" using assms(1)
    by (auto simp: ShroomVoiceRelayInit_def talkers_ok_def relay_ok_def voice_constants CountLobbyTalkers_def
        count_if_replicate ResetPeer_def)
  with assms(2) have "talkers_ok r"
  proof (induction rule: rtranclp_induct)
    case base
    then show ?case .
  next
    case (step y z)
    from step(2) step(3) [OF step(4)] show ?case
      by (cases rule: voice_step.cases) (blast intro: set_peer_talkers route_talkers)+
  qed
  then show ?thesis by (simp add: talkers_ok_def relay_ok_def voice_constants)
qed

theorem voice_talkers_bounded_witness:
  "\<exists>r. voice_step\<^sup>*\<^sup>* \<lparr>vr_peers = replicate 256 ResetPeer\<rparr> r \<and> r \<noteq> \<lparr>vr_peers = replicate 256 ResetPeer\<rparr> \<and>
     CountLobbyTalkers r 1 \<le> SHROOM_VOICE_MAX_ACTIVE_TALKERS"
proof -
  let ?start = "\<lparr>vr_peers = replicate 256 ResetPeer\<rparr>"
  let ?next = "\<lparr>vr_peers = (replicate 256 ResetPeer)[3 := witness_peer 1 7]\<rparr>"
  have init: "ShroomVoiceRelayInit (Some ?start) = Some ?start" by (simp add: ShroomVoiceRelayInit_def voice_constants)
  have "ShroomVoiceRelaySetPeer (Some ?start) 3 True 1 7 = Some ?next"
    by (simp add: ShroomVoiceRelaySetPeer_def voice_constants ResetPeer_def witness_peer_def)
  then have reach: "voice_step\<^sup>*\<^sup>* ?start ?next" by (intro r_into_rtranclp voice_step.set_peer)
  have "?next \<noteq> ?start"
  proof
    assume "?next = ?start"
    then have "vr_peers ?next ! 3 = vr_peers ?start ! 3" by (rule arg_cong)
    then show False by (simp add: nth_list_update witness_peer_def ResetPeer_def)
  qed
  with reach voice_talkers_bounded [OF init reach, of 1] show ?thesis by blast
qed

section \<open>The rate limit\<close>

text \<open>Frames as they arrive: the client, the data, its size and the time.\<close>

fun voice_run ::
  "ShroomVoiceRelay \<Rightarrow> (nat \<times> ShroomVoiceFramePacket option \<times> nat \<times> u64) list \<Rightarrow> ShroomVoiceRelayResult list" where
  "voice_run r [] = []"
| "voice_run r ((i, data, n, now) # frames) =
     (case ShroomVoiceRelayRoute (Some r) i data n now None of
        (result, Some r, _, _) \<Rightarrow> result # voice_run r frames
      | (result, None, _, _) \<Rightarrow> [result])"

text \<open>The frames accepted from one client: the time and the size of each.\<close>

fun accepted_log ::
  "nat \<Rightarrow> (nat \<times> ShroomVoiceFramePacket option \<times> nat \<times> u64) list \<Rightarrow> ShroomVoiceRelayResult list \<Rightarrow> (nat \<times> nat) list" where
  "accepted_log s ((i, data, n, now) # frames) (result # results) =
     (if i = s \<and> result = SHROOM_VOICE_RELAY_ACCEPTED then (unat now, n) # accepted_log s frames results
      else accepted_log s frames results)"
| "accepted_log s _ _ = []"

text \<open>The windows of a log: the first frame opens a window of a second, the first frame after it the next.\<close>

function rate_windows :: "(nat \<times> nat) list \<Rightarrow> (nat \<times> nat) list list" where
  "rate_windows [] = []"
| "rate_windows ((t, n) # log) =
     ((t, n) # takeWhile (\<lambda>f. fst f < t + 1000) log) # rate_windows (dropWhile (\<lambda>f. fst f < t + 1000) log)"
  by pat_completeness auto
termination
  by (relation "measure length") (simp_all add: length_dropWhile_le le_imp_less_Suc)

definition within_limits :: "nat \<Rightarrow> nat \<Rightarrow> (nat \<times> nat) list \<Rightarrow> bool" where
  "within_limits c b w \<longleftrightarrow> c + length w \<le> 50 \<and> b + sum_list (map snd w) \<le> 16384"

text \<open>The same, counting along the log from a window that opened at \<open>w\<close> with \<open>c\<close> frames and \<open>b\<close> bytes.\<close>

fun limits_from :: "nat \<Rightarrow> nat \<Rightarrow> nat \<Rightarrow> (nat \<times> nat) list \<Rightarrow> bool" where
  "limits_from w c b [] \<longleftrightarrow> within_limits c b []"
| "limits_from w c b ((t, n) # log) \<longleftrightarrow>
     (if 0 < c \<and> t < w + 1000 then limits_from w (c + 1) (b + n) log
      else within_limits c b [] \<and> limits_from t 1 n log)"

lemma limits_windows:
  assumes "limits_from w c b log" and "0 < c"
  shows "within_limits c b (takeWhile (\<lambda>f. fst f < w + 1000) log) \<and>
    (\<forall>x \<in> set (rate_windows (dropWhile (\<lambda>f. fst f < w + 1000) log)). within_limits 0 0 x)"
  using assms
proof (induction w c b log rule: limits_from.induct)
  case (2 w c b t n log)
  show ?case
  proof (cases "t < w + 1000")
    case True
    with 2 show ?thesis by (simp add: within_limits_def add.assoc)
  next
    case False
    with 2 show ?thesis by (simp add: within_limits_def add.commute)
  qed
qed simp

lemma limits_new_window:
  assumes "limits_from v 0 d log" and "within_limits c b []" and "c = 0 \<or> (\<forall>f \<in> set log. w + 1000 \<le> fst f)"
  shows "limits_from w c b log"
  using assms by (cases log) (auto simp: not_less)

lemma window_fields [simp]:
  "vp_byte_count (close_stream p) = vp_byte_count p"
  "vp_byte_count (note_frame p incoming n now) = vp_byte_count p + word_of_nat n"
  by (simp_all add: close_stream_def note_frame_def)

text \<open>The rate window of client \<open>s\<close>: its opening time and what it counts.\<close>

definition rate_slot :: "ShroomVoiceRelay \<Rightarrow> nat \<Rightarrow> nat \<Rightarrow> nat \<Rightarrow> nat \<Rightarrow> bool" where
  "rate_slot r s w c b \<longleftrightarrow> relay_ok r \<and> within_limits c b [] \<and> unat (vp_window_start_ms (vr_peers r ! s)) = w \<and>
     unat (vp_frame_count (vr_peers r ! s)) = c \<and> unat (vp_byte_count (vr_peers r ! s)) = b"

lemma route_base_other:
  "relay_ok r \<Longrightarrow> j < 256 \<Longrightarrow> j \<noteq> i \<Longrightarrow>
   vp_frame_count (vr_peers (route_base r i now) ! j) = vp_frame_count (vr_peers r ! j) \<and>
   vp_byte_count (vr_peers (route_base r i now) ! j) = vp_byte_count (vr_peers r ! j) \<and>
   vp_window_start_ms (vr_peers (route_base r i now) ! j) = vp_window_start_ms (vr_peers r ! j)"
  by (simp add: route_base_def ExpireTalkers_def relay_ok_def Let_def)

lemma route_base_sender:
  assumes "relay_ok r" and "i < 256"
  shows "vp_frame_count (vr_peers (route_base r i now) ! i) = vp_frame_count (ResetRateWindowIfNeeded (vr_peers r ! i) now) \<and>
   vp_byte_count (vr_peers (route_base r i now) ! i) = vp_byte_count (ResetRateWindowIfNeeded (vr_peers r ! i) now) \<and>
   vp_window_start_ms (vr_peers (route_base r i now) ! i) = vp_window_start_ms (ResetRateWindowIfNeeded (vr_peers r ! i) now)"
  using assms
  by (simp add: route_base_def ExpireTalkers_def relay_ok_def Let_def ResetRateWindowIfNeeded_def close_stream_def)

text \<open>The bookkeeping opens a new window when nothing is counted or a second is over, and only then.\<close>

lemma base_slot:
  assumes slot: "rate_slot r s w c b" and s: "s < 256" and time: "c = 0 \<or> w \<le> unat now"
  shows "if c = 0 \<or> w + 1000 \<le> unat now then rate_slot (route_base r s now) s (unat now) 0 0
    else rate_slot (route_base r s now) s w c b"
proof -
  let ?p = "vr_peers r ! s"
  have ok: "relay_ok r" and w: "unat (vp_window_start_ms ?p) = w" and c: "vp_frame_count ?p = 0 \<longleftrightarrow> c = 0"
    using slot by (auto simp: rate_slot_def unat_eq_zero)
  note sender = route_base_sender [OF ok s, of now]
  have late: "1000 \<le> now - vp_window_start_ms ?p \<longleftrightarrow> w + 1000 \<le> unat now" if "w \<le> unat now"
  proof -
    have "unat (now - vp_window_start_ms ?p) = unat now - w"
      using that w by (subst unat_sub) (simp_all add: word_le_nat_alt)
    then show ?thesis using that by (simp add: word_le_nat_alt) linarith
  qed
  show ?thesis
  proof (cases "c = 0 \<or> w + 1000 \<le> unat now")
    case True
    then have "vp_frame_count ?p = 0 \<or> 1000 \<le> now - vp_window_start_ms ?p" using c late by auto
    with True sender ok show ?thesis
      by (auto simp: rate_slot_def within_limits_def ResetRateWindowIfNeeded_def voice_constants)
  next
    case False
    then have "w \<le> unat now" "vp_frame_count ?p \<noteq> 0" using time c by auto
    with late False w have "ResetRateWindowIfNeeded ?p now = ?p"
      by (auto simp: ResetRateWindowIfNeeded_def voice_constants word_less_nat_alt)
    with False sender slot show ?thesis by (simp add: rate_slot_def)
  qed
qed

lemma accept_slot:
  assumes "rate_slot r s w c b" and "s < 256" and "c < 50" and "b + n \<le> 16384"
    and "r' = r\<lparr>vr_peers := (vr_peers r)[s := if ending then close_stream (note_frame (vr_peers r ! s) p n now)
        else note_frame (vr_peers r ! s) p n now]\<rparr>"
  shows "rate_slot r' s w (c + 1) (b + n)"
proof -
  have "unat (vp_frame_count (vr_peers r ! s) + 1) = c + 1"
    using assms(1,3) by (simp add: rate_slot_def unat_word_ariths)
  moreover have "unat (vp_byte_count (vr_peers r ! s) + word_of_nat n) = b + n"
    using assms(1,4) by (simp add: rate_slot_def unat_word_ariths unat_of_nat)
  ultimately show ?thesis
    using assms by (simp add: rate_slot_def relay_ok_def within_limits_def)
qed

text \<open>One frame: it is counted when it is accepted, in a window that is open or that it opens.\<close>

lemma route_slot:
  assumes route: "ShroomVoiceRelayRoute (Some r) i data n now None = (result, r', calls, k)"
    and slot: "rate_slot r s w c b" and s: "s < 256" and time: "c = 0 \<or> w \<le> unat now"
  obtains r2 w1 c1 b1 where "r' = Some r2"
    "if c = 0 \<or> w + 1000 \<le> unat now then (w1, c1, b1) = (unat now, 0, 0) else (w1, c1, b1) = (w, c, b)"
    "if i = s \<and> result = SHROOM_VOICE_RELAY_ACCEPTED then rate_slot r2 s w1 (c1 + 1) (b1 + n)
     else rate_slot r2 s w c b \<or> rate_slot r2 s w1 c1 b1"
proof -
  obtain w1 c1 b1 where new: "if c = 0 \<or> w + 1000 \<le> unat now then (w1, c1, b1) = (unat now, 0, 0) else (w1, c1, b1) = (w, c, b)"
    by (metis (full_types))
  then have base: "rate_slot (route_base r s now) s w1 c1 b1" using base_slot [OF slot s time] by (auto split: if_splits)
  from route show thesis
  proof (cases rule: Route_cases)
    case invalid
    with that [OF _ new] slot show thesis by simp
  next
    case (routed p r2)
    have ok: "relay_ok r" using slot by (simp add: rate_slot_def)
    show thesis
    proof (cases "i = s")
      case False
      have "rate_slot (route_base r i now) s w c b"
        using slot route_base_other [OF ok s, of i now] False by (simp add: rate_slot_def)
      with routed(7) False have "rate_slot r2 s w c b"
        by (cases rule: route_frame_cases) (auto simp: rate_slot_def relay_ok_def)
      with that [OF routed(8) new] False show thesis by simp
    next
      case True
      from routed(7) show thesis
      proof (cases rule: route_frame_cases)
        case refused
        with base True that [OF routed(8) new] show thesis by simp
      next
        case (accepted sender r3)
        have "c1 < 50" "b1 + n \<le> 16384"
          using accepted(2-4) True base by (simp_all add: rate_slot_def word_less_nat_alt)
        with accept_slot [OF base s _ _ accepted(9) [unfolded accepted(2) True]]
        have "rate_slot r2 s w1 (c1 + 1) (b1 + n)" by simp
        with that [OF routed(8) new] accepted(1) True show thesis by simp
      qed
    qed
  qed
qed

lemma accepted_log_after:
  "\<forall>(i, data, n, now) \<in> set frames. m \<le> unat now \<Longrightarrow> f \<in> set (accepted_log s frames results) \<Longrightarrow> m \<le> fst f"
  by (induction s frames results rule: accepted_log.induct) (auto split: if_splits)

lemma run_limits:
  assumes "rate_slot r s w c b" and "s < 256" and "sorted (map (snd \<circ> snd \<circ> snd) frames)"
    and "c = 0 \<or> (\<forall>(i, data, n, now) \<in> set frames. w \<le> unat now)"
  shows "limits_from w c b (accepted_log s frames (voice_run r frames))"
  using assms
proof (induction frames arbitrary: r w c b)
  case Nil
  then show ?case by (simp add: rate_slot_def)
next
  case (Cons f frames)
  obtain i data n now where f: "f = (i, data, n, now)" by (cases f)
  obtain result r' calls k where route: "ShroomVoiceRelayRoute (Some r) i data n now None = (result, r', calls, k)"
    by (metis prod_cases4)
  have time: "c = 0 \<or> w \<le> unat now" using Cons.prems(4) f by auto
  obtain r2 w1 c1 b1 where r2: "r' = Some r2"
    and new: "if c = 0 \<or> w + 1000 \<le> unat now then (w1, c1, b1) = (unat now, 0, 0) else (w1, c1, b1) = (w, c, b)"
    and slot: "if i = s \<and> result = SHROOM_VOICE_RELAY_ACCEPTED then rate_slot r2 s w1 (c1 + 1) (b1 + n)
      else rate_slot r2 s w c b \<or> rate_slot r2 s w1 c1 b1"
    using route_slot [OF route Cons.prems(1,2) time] by blast
  have later: "\<forall>(i, data, n, t) \<in> set frames. unat now \<le> unat t"
    using Cons.prems(3) f by (fastforce simp: word_le_nat_alt)
  have sorted: "sorted (map (snd \<circ> snd \<circ> snd) frames)" using Cons.prems(3) by (simp add: comp_def)
  have limits: "within_limits c b []" using Cons.prems(1) by (simp add: rate_slot_def)
  let ?log = "accepted_log s frames (voice_run r2 frames)"
  have same: "limits_from w c b ?log" if "rate_slot r2 s w c b"
    using Cons.IH [OF that Cons.prems(2) sorted] Cons.prems(4) by auto
  show ?case
  proof (cases "i = s \<and> result = SHROOM_VOICE_RELAY_ACCEPTED")
    case True
    have "w1 \<le> unat now" using new time by (auto split: if_splits)
    then have "\<forall>(i, data, n, t) \<in> set frames. w1 \<le> unat t" using later by fastforce
    then have "limits_from w1 (c1 + 1) (b1 + n) ?log"
      using Cons.IH [of r2 w1 "c1 + 1" "b1 + n"] slot True Cons.prems(2) sorted by (simp add: comp_def)
    with True route r2 f new limits show ?thesis by (auto split: if_splits)
  next
    case False
    have "limits_from w c b ?log"
    proof (cases "rate_slot r2 s w c b")
      case True
      then show ?thesis by (rule same)
    next
      case moved: False
      with slot False have slot1: "rate_slot r2 s w1 c1 b1" by simp
      have fresh: "(c = 0 \<or> w + 1000 \<le> unat now) \<and> (w1, c1, b1) = (unat now, 0, 0)"
        using moved slot1 new by (auto split: if_splits)
      then have "limits_from (unat now) 0 0 ?log" using Cons.IH [OF _ Cons.prems(2) sorted] slot1 by simp
      moreover have "c = 0 \<or> (\<forall>f \<in> set ?log. w + 1000 \<le> fst f)"
        using fresh accepted_log_after [OF later] by (meson order_trans)
      ultimately show ?thesis using limits limits_new_window by blast
    qed
    with False route r2 f show ?thesis by auto
  qed
qed

text \<open>C22. Rate limit of the relay: from a slot whose counts are within the limits, and whatever frames all
  clients send while it keeps that slot, in an order in which time does not go back, the frames accepted from a
  client in one window number at most 50 and hold at most 16 KiB.
  The window that is open in the client's slot counts with what the slot has counted (and holds
  the frames accepted less than a second after it opened); every later window starts with a frame accepted after
  the one before it was over, and lasts a second.\<close>

theorem voice_rate_bounded:
  fixes r :: ShroomVoiceRelay and s :: nat and frames :: "(nat \<times> ShroomVoiceFramePacket option \<times> nat \<times> u64) list"
  defines "c \<equiv> unat (vp_frame_count (vr_peers r ! s))" and "b \<equiv> unat (vp_byte_count (vr_peers r ! s))"
    and "w \<equiv> unat (vp_window_start_ms (vr_peers r ! s))"
    and "log \<equiv> accepted_log s frames (voice_run r frames)"
  defines "here \<equiv> (if c = 0 then [] else takeWhile (\<lambda>f. fst f < w + 1000) log)"
  assumes "relay_ok r" and "s < SHROOM_SERVER_MAX_CLIENTS" and "c \<le> 50" and "b \<le> 16384"
    and "sorted (map (snd \<circ> snd \<circ> snd) frames)" and "c = 0 \<or> (\<forall>(i, data, n, now) \<in> set frames. w \<le> unat now)"
  shows "c + length here \<le> 50 \<and> b + sum_list (map snd here) \<le> 16384 \<and>
    (\<forall>x \<in> set (rate_windows (drop (length here) log)). length x \<le> 50 \<and> sum_list (map snd x) \<le> 16384)"
proof -
  have slot: "rate_slot r s w c b"
    using assms(6,8,9) by (simp add: rate_slot_def within_limits_def c_def b_def w_def)
  have "s < 256" using assms(7) by (simp add: voice_constants)
  from run_limits [OF slot this assms(10,11)] have limits: "limits_from w c b log" unfolding log_def .
  show ?thesis
  proof (cases "c = 0")
    case False
    have "drop (length here) log = dropWhile (\<lambda>f. fst f < w + 1000) log"
      using False by (simp add: here_def dropWhile_eq_drop)
    with False limits_windows [OF limits] show ?thesis by (simp add: here_def within_limits_def)
  next
    case True
    have "\<forall>x \<in> set (rate_windows log). within_limits 0 0 x"
    proof (cases log)
      case (Cons f rest)
      then obtain t n where f: "f = (t, n)" by (cases f)
      have "limits_from t 1 n rest" using limits True Cons f by simp
      from limits_windows [OF this] show ?thesis
        by (simp add: Cons f within_limits_def)
    qed simp
    with True assms(8,9) show ?thesis by (simp add: here_def within_limits_def)
  qed
qed

text \<open>A slot whose window has counted 49 frames: of three frames within its second and one after it the
  first and the last are accepted, and the two others refused.\<close>

definition busy_relay :: ShroomVoiceRelay where
  "busy_relay = \<lparr>vr_peers = (witness_peer 1 11)\<lparr>vp_frame_count := 49, vp_byte_count := 1225, vp_window_start_ms := 100\<rparr>
     # replicate 255 ResetPeer\<rparr>"

definition busy_frames :: "(nat \<times> ShroomVoiceFramePacket option \<times> nat \<times> u64) list" where
  "busy_frames = [(0, Some witness_frame, 25, 200), (0, Some witness_frame, 25, 300), (0, Some witness_frame, 25, 1099),
     (0, Some witness_frame, 25, 1100)]"

lemma reset_peer_idle: "\<not> TalkerExpired ResetPeer now" "\<not> vp_connected ResetPeer"
  by (simp_all add: TalkerExpired_def ResetPeer_def)

lemma witness_frame_flags: "vf_flags witness_frame = 1" "vf_stream_id witness_frame = 5"
  by (simp_all add: witness_frame_def)

lemmas busy_eval = ShroomVoiceRelayRoute_def route_frame_def route_base_def ExpireTalkers_def reset_peer_idle
  witness_frame_valid witness_frame_flags CountLobbyTalkers_def count_if_def ResetRateWindowIfNeeded_def note_frame_def
  TalkerExpired_def close_stream_def voice_constants

lemma busy_run: "voice_run busy_relay busy_frames = [SHROOM_VOICE_RELAY_ACCEPTED, SHROOM_VOICE_RELAY_FRAME_RATE_LIMITED,
     SHROOM_VOICE_RELAY_FRAME_RATE_LIMITED, SHROOM_VOICE_RELAY_ACCEPTED]"
  by (simp add: busy_relay_def busy_frames_def witness_peer_def busy_eval Let_def)

theorem voice_rate_bounded_witness:
  "accepted_log 0 busy_frames (voice_run busy_relay busy_frames) = [(200, 25), (1100, 25)] \<and>
   49 + length (takeWhile (\<lambda>f. fst f < 100 + 1000) (accepted_log 0 busy_frames (voice_run busy_relay busy_frames))) \<le> 50"
proof -
  have log: "accepted_log 0 busy_frames (voice_run busy_relay busy_frames) = [(200, 25), (1100, 25)]"
    by (simp add: busy_run) (simp add: busy_frames_def)
  have slot: "relay_ok busy_relay" "unat (vp_frame_count (vr_peers busy_relay ! 0)) = 49"
    "unat (vp_byte_count (vr_peers busy_relay ! 0)) = 1225" "unat (vp_window_start_ms (vr_peers busy_relay ! 0)) = 100"
    "sorted (map (snd \<circ> snd \<circ> snd) busy_frames)" "\<forall>(i, data, n, now) \<in> set busy_frames. 100 \<le> unat now"
    by (simp_all add: busy_relay_def witness_relay_def witness_peer_def relay_ok_def busy_frames_def)
  show ?thesis
    using voice_rate_bounded [of busy_relay 0 busy_frames] slot log by (simp add: voice_constants)
qed

end
