(* ===== verification/Voice_Jitter.thy ===== *)
theory Voice_Jitter
  imports Serial_Numbers Protocol
begin

text \<open>
  The client's voice jitter buffer (\<open>src/client/voice_jitter.c\<close>): frames of one voice
  stream are held until their turn and played in sequence order, a missing frame being concealed
  from its successor (FEC) or by extrapolation (PLC).  The array of frames with its count is the
  list of live frames, and a search that fails is \<open>None\<close>.
\<close>

definition SHROOM_VOICE_JITTER_CAPACITY :: nat where "SHROOM_VOICE_JITTER_CAPACITY = 12"
definition SHROOM_VOICE_JITTER_TARGET_FRAMES :: nat where "SHROOM_VOICE_JITTER_TARGET_FRAMES = 3"
definition SHROOM_VOICE_JITTER_MAX_START_DELAY_MS :: u64 where "SHROOM_VOICE_JITTER_MAX_START_DELAY_MS = 60"
definition SHROOM_VOICE_JITTER_MAX_CONSECUTIVE_LOSS :: u8 where "SHROOM_VOICE_JITTER_MAX_CONSECUTIVE_LOSS = 5"

lemmas jitter_constants = SHROOM_VOICE_JITTER_CAPACITY_def SHROOM_VOICE_JITTER_TARGET_FRAMES_def
  SHROOM_VOICE_JITTER_MAX_START_DELAY_MS_def SHROOM_VOICE_JITTER_MAX_CONSECUTIVE_LOSS_def

record ShroomVoiceJitterFrame =
  jf_timestamp :: u32
  jf_arrival_ms :: u64
  jf_sequence :: u16
  jf_payload_size :: u16
  jf_flags :: u8
  jf_payload :: "u8 list"

record ShroomVoiceJitterBuffer =
  jb_frames :: "ShroomVoiceJitterFrame list"
  jb_stream_id :: u32
  jb_first_arrival_ms :: u64
  jb_expected_sequence :: u16
  jb_consecutive_loss :: u8
  jb_initialized :: bool
  jb_started :: bool
  jb_end_received :: bool

datatype ShroomVoiceJitterPushResult =
    SHROOM_VOICE_JITTER_PUSH_ACCEPTED
  | SHROOM_VOICE_JITTER_PUSH_STREAM_NOT_STARTED
  | SHROOM_VOICE_JITTER_PUSH_LATE
  | SHROOM_VOICE_JITTER_PUSH_DUPLICATE
  | SHROOM_VOICE_JITTER_PUSH_OVERFLOW
  | SHROOM_VOICE_JITTER_PUSH_INVALID

datatype ShroomVoiceJitterPopKind =
    SHROOM_VOICE_JITTER_POP_WAIT
  | SHROOM_VOICE_JITTER_POP_FRAME
  | SHROOM_VOICE_JITTER_POP_FEC
  | SHROOM_VOICE_JITTER_POP_PLC
  | SHROOM_VOICE_JITTER_POP_FINISHED

record ShroomVoiceJitterPop =
  jp_kind :: ShroomVoiceJitterPopKind
  jp_frame :: ShroomVoiceJitterFrame
  jp_missing_sequence :: u16
  jp_stream_ended :: bool

definition SequenceDelta :: "u16 \<Rightarrow> u16 \<Rightarrow> int" where
  "SequenceDelta value' reference = sint (value' - reference)"

definition ShroomVoiceJitterInit :: ShroomVoiceJitterBuffer where
  "ShroomVoiceJitterInit = \<lparr>jb_frames = [], jb_stream_id = 0, jb_first_arrival_ms = 0,
     jb_expected_sequence = 0, jb_consecutive_loss = 0, jb_initialized = False, jb_started = False,
     jb_end_received = False\<rparr>"

definition ShroomVoiceJitterReset :: ShroomVoiceJitterBuffer where
  "ShroomVoiceJitterReset = ShroomVoiceJitterInit"

definition StartStream :: "ShroomVoiceFramePacket \<Rightarrow> u64 \<Rightarrow> ShroomVoiceJitterBuffer" where
  "StartStream packet arrival_ms =
     ShroomVoiceJitterReset\<lparr>jb_stream_id := vf_stream_id packet, jb_expected_sequence := vf_sequence packet,
       jb_first_arrival_ms := arrival_ms, jb_initialized := True\<rparr>"

definition FindSequence :: "ShroomVoiceJitterBuffer \<Rightarrow> u16 \<Rightarrow> nat option" where
  "FindSequence jitter sequence = find_index (\<lambda>f. jf_sequence f = sequence) (jb_frames jitter)"

definition FindNextSequence :: "ShroomVoiceJitterBuffer \<Rightarrow> nat option" where
  "FindNextSequence jitter =
     find_index (\<lambda>f. SequenceDelta (jf_sequence f) (jb_expected_sequence jitter) = 1) (jb_frames jitter)"

definition RemoveFrame :: "ShroomVoiceJitterBuffer \<Rightarrow> nat \<Rightarrow> ShroomVoiceJitterFrame \<times> ShroomVoiceJitterBuffer" where
  "RemoveFrame jitter index =
     (jb_frames jitter ! index, jitter\<lparr>jb_frames := remove_at index (jb_frames jitter)\<rparr>)"

definition jitter_frame :: "ShroomVoiceFramePacket \<Rightarrow> u64 \<Rightarrow> ShroomVoiceJitterFrame" where
  "jitter_frame packet arrival_ms =
     \<lparr>jf_timestamp = vf_timestamp packet, jf_arrival_ms = arrival_ms, jf_sequence = vf_sequence packet,
      jf_payload_size = vf_payload_size packet, jf_flags = vf_flags packet,
      jf_payload = take (unat (vf_payload_size packet)) (vf_payload packet)\<rparr>"

definition ShroomVoiceJitterPush ::
  "ShroomVoiceJitterBuffer option \<Rightarrow> ShroomVoiceFramePacket option \<Rightarrow> nat \<Rightarrow> u64 \<Rightarrow>
     ShroomVoiceJitterPushResult \<times> ShroomVoiceJitterBuffer option" where
  "ShroomVoiceJitterPush jitter packet wire_size arrival_ms =
     (case (jitter, packet) of
        (Some j, Some p) \<Rightarrow>
          if \<not> ShroomVoiceFramePacketIsValid packet wire_size \<or> vf_sender_id p = 0
          then (SHROOM_VOICE_JITTER_PUSH_INVALID, jitter)
          else if vf_flags p AND SHROOM_VOICE_FLAG_START = 0 \<and>
                  (\<not> jb_initialized j \<or> jb_stream_id j \<noteq> vf_stream_id p)
          then (SHROOM_VOICE_JITTER_PUSH_STREAM_NOT_STARTED, jitter)
          else
            let j = (if vf_flags p AND SHROOM_VOICE_FLAG_START \<noteq> 0 then StartStream p arrival_ms else j)
            in if jb_started j \<and> SequenceDelta (vf_sequence p) (jb_expected_sequence j) < 0
               then (SHROOM_VOICE_JITTER_PUSH_LATE, Some j)
               else if FindSequence j (vf_sequence p) \<noteq> None
               then (SHROOM_VOICE_JITTER_PUSH_DUPLICATE, Some j)
               else if SHROOM_VOICE_JITTER_CAPACITY \<le> length (jb_frames j)
               then (SHROOM_VOICE_JITTER_PUSH_OVERFLOW, Some j)
               else (SHROOM_VOICE_JITTER_PUSH_ACCEPTED,
                     Some (j\<lparr>jb_frames := jb_frames j @ [jitter_frame p arrival_ms],
                             jb_end_received := (jb_end_received j \<or> vf_flags p AND SHROOM_VOICE_FLAG_END \<noteq> 0)\<rparr>))
      | _ \<Rightarrow> (SHROOM_VOICE_JITTER_PUSH_INVALID, jitter))"

definition zero_frame :: ShroomVoiceJitterFrame where
  "zero_frame = \<lparr>jf_timestamp = 0, jf_arrival_ms = 0, jf_sequence = 0, jf_payload_size = 0, jf_flags = 0,
     jf_payload = []\<rparr>"

definition wait_pop :: ShroomVoiceJitterPop where
  "wait_pop = \<lparr>jp_kind = SHROOM_VOICE_JITTER_POP_WAIT, jp_frame = zero_frame, jp_missing_sequence = 0,
     jp_stream_ended = False\<rparr>"

definition must_wait :: "ShroomVoiceJitterBuffer \<Rightarrow> u64 \<Rightarrow> bool" where
  "must_wait j now_ms \<longleftrightarrow> \<not> jb_started j \<and>
     (let delay_elapsed = (now_ms < jb_first_arrival_ms j \<or>
            SHROOM_VOICE_JITTER_MAX_START_DELAY_MS \<le> now_ms - jb_first_arrival_ms j)
      in length (jb_frames j) < SHROOM_VOICE_JITTER_TARGET_FRAMES \<and> \<not> jb_end_received j \<and> \<not> delay_elapsed)"

definition play_frame :: "ShroomVoiceJitterBuffer \<Rightarrow> nat \<Rightarrow> ShroomVoiceJitterPop \<times> ShroomVoiceJitterBuffer" where
  "play_frame j frame_index =
     (case RemoveFrame j frame_index of
        (frame, j) \<Rightarrow>
          let ended = (jf_flags frame AND SHROOM_VOICE_FLAG_END \<noteq> 0);
              j = j\<lparr>jb_expected_sequence := jb_expected_sequence j + 1, jb_consecutive_loss := 0\<rparr>
          in (wait_pop\<lparr>jp_kind := SHROOM_VOICE_JITTER_POP_FRAME, jp_frame := frame, jp_stream_ended := ended\<rparr>,
              if ended then ShroomVoiceJitterReset else j))"

definition conceal_frame :: "ShroomVoiceJitterBuffer \<Rightarrow> ShroomVoiceJitterPop \<times> ShroomVoiceJitterBuffer" where
  "conceal_frame j =
     (let result = (case FindNextSequence j of
                      Some i \<Rightarrow> wait_pop\<lparr>jp_kind := SHROOM_VOICE_JITTER_POP_FEC, jp_frame := jb_frames j ! i\<rparr>
                    | None \<Rightarrow> wait_pop\<lparr>jp_kind := SHROOM_VOICE_JITTER_POP_PLC\<rparr>);
          result = result\<lparr>jp_missing_sequence := jb_expected_sequence j\<rparr>;
          j = j\<lparr>jb_expected_sequence := jb_expected_sequence j + 1,
                jb_consecutive_loss := jb_consecutive_loss j + 1\<rparr>
      in if SHROOM_VOICE_JITTER_MAX_CONSECUTIVE_LOSS < jb_consecutive_loss j
         then (result\<lparr>jp_kind := SHROOM_VOICE_JITTER_POP_FINISHED\<rparr>, ShroomVoiceJitterReset)
         else (result, j))"

definition ShroomVoiceJitterPopNext ::
  "ShroomVoiceJitterBuffer option \<Rightarrow> u64 \<Rightarrow> ShroomVoiceJitterPop \<times> ShroomVoiceJitterBuffer option" where
  "ShroomVoiceJitterPopNext jitter now_ms =
     (case jitter of
        None \<Rightarrow> (wait_pop\<lparr>jp_kind := SHROOM_VOICE_JITTER_POP_FINISHED\<rparr>, None)
      | Some j \<Rightarrow>
          if \<not> jb_initialized j then (wait_pop\<lparr>jp_kind := SHROOM_VOICE_JITTER_POP_FINISHED\<rparr>, jitter)
          else if must_wait j now_ms then (wait_pop, jitter)
          else
            let j = j\<lparr>jb_started := True\<rparr>
            in case FindSequence j (jb_expected_sequence j) of
                 Some i \<Rightarrow> (case play_frame j i of (pop, j) \<Rightarrow> (pop, Some j))
               | None \<Rightarrow> (case conceal_frame j of (pop, j) \<Rightarrow> (pop, Some j)))"

section \<open>A run of the buffer\<close>

datatype jitter_event =
    Push "ShroomVoiceFramePacket option" nat u64
  | Pop u64

fun jitter_run :: "ShroomVoiceJitterBuffer \<Rightarrow> jitter_event list \<Rightarrow> ShroomVoiceJitterPop list" where
  "jitter_run j [] = []"
| "jitter_run j (Push packet n now # events) =
     (case ShroomVoiceJitterPush (Some j) packet n now of
        (_, Some j) \<Rightarrow> jitter_run j events | (_, None) \<Rightarrow> [])"
| "jitter_run j (Pop now # events) =
     (case ShroomVoiceJitterPopNext (Some j) now of
        (pop, Some j) \<Rightarrow> pop # jitter_run j events | (pop, None) \<Rightarrow> [pop])"

text \<open>The sequence number that a pop plays, if it plays one.\<close>

definition played :: "ShroomVoiceJitterPop \<Rightarrow> u16 option" where
  "played pop =
     (case jp_kind pop of
        SHROOM_VOICE_JITTER_POP_FRAME \<Rightarrow> Some (jf_sequence (jp_frame pop))
      | SHROOM_VOICE_JITTER_POP_FEC \<Rightarrow> Some (jp_missing_sequence pop)
      | SHROOM_VOICE_JITTER_POP_PLC \<Rightarrow> Some (jp_missing_sequence pop)
      | _ \<Rightarrow> None)"

fun starts :: "jitter_event \<Rightarrow> bool" where
  "starts (Push (Some p) n now) = (vf_flags p AND SHROOM_VOICE_FLAG_START \<noteq> 0)"
| "starts _ = False"

fun pushed :: "jitter_event \<Rightarrow> ShroomVoiceJitterFrame set" where
  "pushed (Push (Some p) n now) = {jitter_frame p now}"
| "pushed _ = {}"

definition jitter_ok :: "ShroomVoiceJitterBuffer \<Rightarrow> bool" where
  "jitter_ok j \<longleftrightarrow> length (jb_frames j) \<le> SHROOM_VOICE_JITTER_CAPACITY \<and>
     distinct (map jf_sequence (jb_frames j)) \<and> jb_consecutive_loss j \<le> SHROOM_VOICE_JITTER_MAX_CONSECUTIVE_LOSS"

lemma reset_buffer [simp]:
  "jb_initialized ShroomVoiceJitterReset = False" "jb_frames ShroomVoiceJitterReset = []"
  "jb_consecutive_loss ShroomVoiceJitterReset = 0" "jb_started ShroomVoiceJitterReset = False"
  by (simp_all add: ShroomVoiceJitterReset_def ShroomVoiceJitterInit_def)

lemma Push_cases:
  assumes "ShroomVoiceJitterPush (Some j) packet n now = (result, j')"
  obtains
    (unchanged) "j' = Some j" "result \<noteq> SHROOM_VOICE_JITTER_PUSH_ACCEPTED"
  | (refused) p where "packet = Some p" "vf_flags p AND SHROOM_VOICE_FLAG_START \<noteq> 0" "j' = Some (StartStream p now)"
      "result \<noteq> SHROOM_VOICE_JITTER_PUSH_ACCEPTED"
  | (accepted) p j1 where "packet = Some p" "ShroomVoiceFramePacketIsValid packet n"
      "j1 = (if vf_flags p AND SHROOM_VOICE_FLAG_START \<noteq> 0 then StartStream p now else j)" "jb_initialized j1"
      "result = SHROOM_VOICE_JITTER_PUSH_ACCEPTED" "FindSequence j1 (vf_sequence p) = None" "length (jb_frames j1) < 12"
      "j' = Some (j1\<lparr>jb_frames := jb_frames j1 @ [jitter_frame p now],
          jb_end_received := (jb_end_received j1 \<or> vf_flags p AND SHROOM_VOICE_FLAG_END \<noteq> 0)\<rparr>)"
proof (cases packet)
  case None
  with assms unchanged show ?thesis by (simp add: ShroomVoiceJitterPush_def)
next
  case (Some p)
  let ?start = "vf_flags p AND SHROOM_VOICE_FLAG_START \<noteq> 0"
  show ?thesis
  proof (cases "result = SHROOM_VOICE_JITTER_PUSH_ACCEPTED")
    case True
    with assms Some show ?thesis
      by (intro accepted [OF Some _ refl])
        (auto simp: ShroomVoiceJitterPush_def Let_def jitter_constants StartStream_def not_le split: if_splits)
  next
    case False
    with assms Some have "j' = Some j \<or> ?start \<and> j' = Some (StartStream p now)"
      by (auto simp: ShroomVoiceJitterPush_def Let_def split: if_splits)
    with False Some unchanged refused show ?thesis by blast
  qed
qed

lemma Pop_cases:
  assumes "ShroomVoiceJitterPopNext (Some j) now = (pop, j')"
  obtains
    (idle) "\<not> jb_initialized j \<or> must_wait j now" "j' = Some j" "played pop = None" "jp_kind pop \<noteq> SHROOM_VOICE_JITTER_POP_FRAME"
  | (frame) i f where "jb_initialized j" "\<not> must_wait j now" "FindSequence j (jb_expected_sequence j) = Some i"
      "f = jb_frames j ! i" "jp_kind pop = SHROOM_VOICE_JITTER_POP_FRAME" "jp_frame pop = f"
      "j' = Some (if jf_flags f AND SHROOM_VOICE_FLAG_END \<noteq> 0 then ShroomVoiceJitterReset
        else j\<lparr>jb_started := True, jb_frames := remove_at i (jb_frames j),
          jb_expected_sequence := jb_expected_sequence j + 1, jb_consecutive_loss := 0\<rparr>)"
  | (conceal) "jb_initialized j" "\<not> must_wait j now" "jb_consecutive_loss j + 1 \<le> 5" "played pop = Some (jb_expected_sequence j)"
      "jp_kind pop = SHROOM_VOICE_JITTER_POP_FEC \<or> jp_kind pop = SHROOM_VOICE_JITTER_POP_PLC"
      "j' = Some (j\<lparr>jb_started := True, jb_expected_sequence := jb_expected_sequence j + 1,
          jb_consecutive_loss := jb_consecutive_loss j + 1\<rparr>)"
  | (lost) "jb_initialized j" "\<not> must_wait j now" "jp_kind pop = SHROOM_VOICE_JITTER_POP_FINISHED"
      "j' = Some ShroomVoiceJitterReset"
proof (cases "\<not> jb_initialized j \<or> must_wait j now")
  case True
  with assms show ?thesis by (intro idle) (auto simp: ShroomVoiceJitterPopNext_def wait_pop_def played_def split: if_splits)
next
  case False
  show ?thesis
  proof (cases "FindSequence j (jb_expected_sequence j)")
    case (Some i)
    have "FindSequence (j\<lparr>jb_started := True\<rparr>) (jb_expected_sequence j) = Some i" using Some by (simp add: FindSequence_def)
    with False Some assms show ?thesis
      by (intro frame [OF _ _ Some refl])
        (auto simp: ShroomVoiceJitterPopNext_def play_frame_def RemoveFrame_def Let_def wait_pop_def)
  next
    case None
    have none: "FindSequence (j\<lparr>jb_started := True\<rparr>) (jb_expected_sequence j) = None"
      using None by (simp add: FindSequence_def)
    show ?thesis
    proof (cases "jb_consecutive_loss j + 1 \<le> 5")
      case True
      then have "\<not> 5 < jb_consecutive_loss j + 1" by (simp add: not_less)
      with True False none assms show ?thesis
        by (intro conceal)
          (auto simp: ShroomVoiceJitterPopNext_def conceal_frame_def Let_def wait_pop_def played_def jitter_constants
            split: option.splits)
    next
      case more: False
      then have "5 < jb_consecutive_loss j + 1" by (simp add: not_le)
      with False none assms show ?thesis
        by (intro lost)
          (auto simp: ShroomVoiceJitterPopNext_def conceal_frame_def Let_def wait_pop_def jitter_constants
            split: option.splits)
    qed
  qed
qed

section \<open>Playback is in order\<close>

abbreviation plays :: "ShroomVoiceJitterPop list \<Rightarrow> u16 list" where
  "plays pops \<equiv> List.map_filter played pops"

abbreviation frames_of :: "ShroomVoiceJitterPop list \<Rightarrow> ShroomVoiceJitterFrame set" where
  "frames_of pops \<equiv> jp_frame ` {pop \<in> set pops. jp_kind pop = SHROOM_VOICE_JITTER_POP_FRAME}"

lemma plays_Cons: "plays (pop # pops) = (case played pop of None \<Rightarrow> plays pops | Some n \<Rightarrow> n # plays pops)"
  by (simp add: List.map_filter_def split: option.splits)

lemma frames_of_Cons: "frames_of (pop # pops) =
   (if jp_kind pop = SHROOM_VOICE_JITTER_POP_FRAME then insert (jp_frame pop) (frames_of pops) else frames_of pops)"
  by auto

lemma count_up_Cons:
  "(e :: u16) # map (\<lambda>k. e + 1 + word_of_nat k) [0..<n] = map (\<lambda>k. e + word_of_nat k) [0..<Suc n]"
  by (simp add: map_upt_Suc add.assoc del: upt_Suc)

lemma closed_run:
  "\<not> jb_initialized j \<Longrightarrow> list_all (\<lambda>e. \<not> starts e) events \<Longrightarrow>
   plays (jitter_run j events) = [] \<and> frames_of (jitter_run j events) = {}"
proof (induction events arbitrary: j)
  case Nil
  then show ?case by (simp add: List.map_filter_def)
next
  case (Cons e events)
  show ?case
  proof (cases e)
    case (Push packet n now)
    obtain result j' where p: "ShroomVoiceJitterPush (Some j) packet n now = (result, j')" by (metis surj_pair)
    then have "j' = Some j" using Cons.prems Push by (cases rule: Push_cases) auto
    with Cons Push p show ?thesis by simp
  next
    case (Pop now)
    obtain pop j' where p: "ShroomVoiceJitterPopNext (Some j) now = (pop, j')" by (metis surj_pair)
    then have "j' = Some j \<and> played pop = None \<and> jp_kind pop \<noteq> SHROOM_VOICE_JITTER_POP_FRAME"
      using Cons.prems(1) by (cases rule: Pop_cases) auto
    with Cons Pop p show ?thesis by (auto simp: plays_Cons)
  qed
qed

lemma run_in_order:
  "list_all (\<lambda>e. \<not> starts e) events \<Longrightarrow>
   (\<exists>n. plays (jitter_run j events) = map (\<lambda>k. jb_expected_sequence j + word_of_nat k) [0..<n]) \<and>
   frames_of (jitter_run j events) \<subseteq> set (jb_frames j) \<union> (\<Union>e \<in> set events. pushed e)"
proof (induction events arbitrary: j)
  case Nil
  then show ?case by (simp add: List.map_filter_def)
next
  case (Cons e events)
  from Cons.prems have e: "\<not> starts e" and rest: "list_all (\<lambda>e. \<not> starts e) events" by simp_all
  show ?case
  proof (cases e)
    case (Push packet n now)
    obtain result j' where p: "ShroomVoiceJitterPush (Some j) packet n now = (result, j')" by (metis surj_pair)
    then obtain j2 where "j' = Some j2" "jb_expected_sequence j2 = jb_expected_sequence j"
      "set (jb_frames j2) \<subseteq> set (jb_frames j) \<union> pushed e"
      using e Push by (cases rule: Push_cases) (auto split: if_splits)
    with Cons.IH [OF rest, of j2] Push p show ?thesis by fastforce
  next
    case (Pop now)
    obtain pop j' where p: "ShroomVoiceJitterPopNext (Some j) now = (pop, j')" by (metis surj_pair)
    then show ?thesis
    proof (cases rule: Pop_cases)
      case idle
      with Cons.IH [OF rest, of j] Pop p show ?thesis by (auto simp: plays_Cons)
    next
      case (frame i f)
      have f: "f \<in> set (jb_frames j)" "played pop = Some (jb_expected_sequence j)"
        using frame(3-6) find_index_SomeD [of _ "jb_frames j" i] by (auto simp: FindSequence_def played_def)
      show ?thesis
      proof (cases "jf_flags f AND SHROOM_VOICE_FLAG_END \<noteq> 0")
        case True
        with frame p Pop closed_run [of ShroomVoiceJitterReset events] rest f show ?thesis
          by (auto simp: plays_Cons intro!: exI [of _ 1])
      next
        case False
        define j2 where "j2 = j\<lparr>jb_started := True, jb_frames := remove_at i (jb_frames j),
          jb_expected_sequence := jb_expected_sequence j + 1, jb_consecutive_loss := 0\<rparr>"
        have run: "jitter_run j (e # events) = pop # jitter_run j2 events" using False frame p Pop by (simp add: j2_def)
        have sub: "set (jb_frames j2) \<subseteq> set (jb_frames j)" by (simp add: j2_def set_remove_at_subset)
        obtain n where n: "plays (jitter_run j2 events) = map (\<lambda>k. jb_expected_sequence j + 1 + word_of_nat k) [0..<n]"
          and frames: "frames_of (jitter_run j2 events) \<subseteq> set (jb_frames j2) \<union> (\<Union>e \<in> set events. pushed e)"
          using Cons.IH [OF rest, of j2] by (auto simp: j2_def)
        have "plays (jitter_run j (e # events)) = map (\<lambda>k. jb_expected_sequence j + word_of_nat k) [0..<Suc n]"
          unfolding run plays_Cons f(2) option.case n by (rule count_up_Cons)
        moreover have "frames_of (jitter_run j (e # events)) \<subseteq> set (jb_frames j) \<union> (\<Union>e \<in> set (e # events). pushed e)"
          using frames sub f(1) frame(6) unfolding run frames_of_Cons by auto
        ultimately show ?thesis by blast
      qed
    next
      case conceal
      define j2 where "j2 = j\<lparr>jb_started := True, jb_expected_sequence := jb_expected_sequence j + 1,
          jb_consecutive_loss := jb_consecutive_loss j + 1\<rparr>"
      have run: "jitter_run j (e # events) = pop # jitter_run j2 events" using conceal p Pop by (simp add: j2_def)
      obtain n where n: "plays (jitter_run j2 events) = map (\<lambda>k. jb_expected_sequence j + 1 + word_of_nat k) [0..<n]"
        and frames: "frames_of (jitter_run j2 events) \<subseteq> set (jb_frames j) \<union> (\<Union>e \<in> set events. pushed e)"
        using Cons.IH [OF rest, of j2] by (auto simp: j2_def)
      have "plays (jitter_run j (e # events)) = map (\<lambda>k. jb_expected_sequence j + word_of_nat k) [0..<Suc n]"
        unfolding run plays_Cons conceal(4) option.case n by (rule count_up_Cons)
      moreover have "frames_of (jitter_run j (e # events)) \<subseteq> set (jb_frames j) \<union> (\<Union>e \<in> set (e # events). pushed e)"
        using frames conceal(5) unfolding run frames_of_Cons by auto
      ultimately show ?thesis by blast
    next
      case lost
      then have "played pop = None" by (simp add: played_def)
      with lost p Pop closed_run [of ShroomVoiceJitterReset events] rest show ?thesis
        by (auto simp: plays_Cons intro!: exI [of _ 0])
    qed
  qed
qed

text \<open>C23. Voice playback is in order: until another stream starts, the sequence numbers that the
  buffer plays, whether from a frame, concealed from its successor or extrapolated, are
  consecutive from the one expected, whatever frames are pushed when, in whatever order and
  however often; so none is played twice in less than a full cycle of 65536, and every frame
  played is one that was held or pushed.\<close>

theorem jitter_plays_in_order:
  assumes "list_all (\<lambda>e. \<not> starts e) events"
  shows "plays (jitter_run j events) =
      map (\<lambda>k. jb_expected_sequence j + word_of_nat k) [0..<length (plays (jitter_run j events))] \<and>
    (length (plays (jitter_run j events)) \<le> 65536 \<longrightarrow> distinct (plays (jitter_run j events))) \<and>
    frames_of (jitter_run j events) \<subseteq> set (jb_frames j) \<union> (\<Union>e \<in> set events. pushed e)"
proof -
  obtain n where n: "plays (jitter_run j events) = map (\<lambda>k. jb_expected_sequence j + word_of_nat k) [0..<n]"
    and frames: "frames_of (jitter_run j events) \<subseteq> set (jb_frames j) \<union> (\<Union>e \<in> set events. pushed e)"
    using run_in_order [OF assms] by blast
  then have len: "length (plays (jitter_run j events)) = n" by simp
  have "distinct (plays (jitter_run j events))" if "n \<le> 65536"
  proof -
    have "inj_on (\<lambda>k. jb_expected_sequence j + word_of_nat k) {0..<n}"
    proof (rule inj_onI)
      fix a b assume "a \<in> {0..<n}" "b \<in> {0..<n}" "jb_expected_sequence j + word_of_nat a = jb_expected_sequence j + word_of_nat b"
      then have "unat (word_of_nat a :: u16) = unat (word_of_nat b :: u16)" "a < 65536" "b < 65536" using that by auto
      then show "a = b" by (simp add: unat_of_nat)
    qed
    then show ?thesis unfolding n by (simp add: distinct_map)
  qed
  then show ?thesis using n frames by (simp add: len)
qed

definition witness_packet :: "u16 \<Rightarrow> u8 \<Rightarrow> ShroomVoiceFramePacket" where
  "witness_packet n flags = \<lparr>vf_header = \<lparr>ph_type = 20, ph_reserved = 4, ph_size = 25\<rparr>, vf_sender_id = 9, vf_stream_id = 5,
     vf_timestamp = 0, vf_sequence = n, vf_payload_size = 1, vf_flags = flags, vf_reserved = (0, 0, 0), vf_payload = [7]\<rparr>"

lemma witness_packet_valid:
  "flags = 0 \<or> flags = 1 \<or> flags = 2 \<Longrightarrow> ShroomVoiceFramePacketIsValid (Some (witness_packet n flags)) 25"
  by (auto simp: witness_packet_def ShroomVoiceFramePacketIsValid_def ShroomVoiceFramePacketSize_def size_simps
      SHROOM_VOICE_FRAME_HEADER_SIZE_def SHROOM_VOICE_FRAME_MAX_SIZE_def SHROOM_VOICE_MAX_PAYLOAD_SIZE_def)

text \<open>Frame 7 arrives, 8 never: 7 plays and 8 is extrapolated.\<close>

definition open_stream :: "ShroomVoiceJitterFrame list \<Rightarrow> bool \<Rightarrow> u16 \<Rightarrow> u8 \<Rightarrow> ShroomVoiceJitterBuffer" where
  "open_stream frames started expected loss = \<lparr>jb_frames = frames, jb_stream_id = 5, jb_first_arrival_ms = 0,
     jb_expected_sequence = expected, jb_consecutive_loss = loss, jb_initialized = True, jb_started = started,
     jb_end_received = False\<rparr>"

lemma open_stream_run:
  "ShroomVoiceJitterPush (Some (open_stream [] False 7 0)) (Some (witness_packet 7 0)) 25 0 =
     (SHROOM_VOICE_JITTER_PUSH_ACCEPTED, Some (open_stream [jitter_frame (witness_packet 7 0) 0] False 7 0))"
  "ShroomVoiceJitterPopNext (Some (open_stream [jitter_frame (witness_packet 7 0) 0] False 7 0)) 70 =
     (wait_pop\<lparr>jp_kind := SHROOM_VOICE_JITTER_POP_FRAME, jp_frame := jitter_frame (witness_packet 7 0) 0\<rparr>,
      Some (open_stream [] True 8 0))"
  "ShroomVoiceJitterPopNext (Some (open_stream [] True 8 0)) 80 =
     (wait_pop\<lparr>jp_kind := SHROOM_VOICE_JITTER_POP_PLC, jp_missing_sequence := 8\<rparr>, Some (open_stream [] True 9 1))"
proof -
  have "vf_sender_id (witness_packet 7 0) \<noteq> 0" "vf_flags (witness_packet 7 0) = 0" "vf_sequence (witness_packet 7 0) = 7"
    "vf_stream_id (witness_packet 7 0) = 5" by (simp_all add: witness_packet_def)
  then show "ShroomVoiceJitterPush (Some (open_stream [] False 7 0)) (Some (witness_packet 7 0)) 25 0 =
     (SHROOM_VOICE_JITTER_PUSH_ACCEPTED, Some (open_stream [jitter_frame (witness_packet 7 0) 0] False 7 0))"
    using witness_packet_valid [of 0 7]
    by (simp add: ShroomVoiceJitterPush_def Let_def open_stream_def FindSequence_def jitter_constants)
  have "jf_sequence (jitter_frame (witness_packet 7 0) 0) = 7" "jf_flags (jitter_frame (witness_packet 7 0) 0) = 0"
    by (simp_all add: jitter_frame_def witness_packet_def)
  then show "ShroomVoiceJitterPopNext (Some (open_stream [jitter_frame (witness_packet 7 0) 0] False 7 0)) 70 =
     (wait_pop\<lparr>jp_kind := SHROOM_VOICE_JITTER_POP_FRAME, jp_frame := jitter_frame (witness_packet 7 0) 0\<rparr>,
      Some (open_stream [] True 8 0))"
    by (simp add: ShroomVoiceJitterPopNext_def must_wait_def open_stream_def FindSequence_def jitter_constants
        play_frame_def RemoveFrame_def Let_def wait_pop_def)
  show "ShroomVoiceJitterPopNext (Some (open_stream [] True 8 0)) 80 =
     (wait_pop\<lparr>jp_kind := SHROOM_VOICE_JITTER_POP_PLC, jp_missing_sequence := 8\<rparr>, Some (open_stream [] True 9 1))"
    by (simp add: ShroomVoiceJitterPopNext_def must_wait_def open_stream_def FindSequence_def FindNextSequence_def
        jitter_constants conceal_frame_def Let_def wait_pop_def)
qed

theorem jitter_plays_in_order_witness:
  "plays (jitter_run (open_stream [] False 7 0) [Push (Some (witness_packet 7 0)) 25 0, Pop 70, Pop 80]) = [7, 8]"
proof -
  let ?run = "jitter_run (open_stream [] False 7 0) [Push (Some (witness_packet 7 0)) 25 0, Pop 70, Pop 80]"
  have fresh: "list_all (\<lambda>e. \<not> starts e) [Push (Some (witness_packet 7 0)) 25 0, Pop 70, Pop 80]"
    by (simp add: witness_packet_def)
  have length: "length (plays ?run) = 2"
    by (simp add: open_stream_run plays_Cons played_def wait_pop_def)
  show ?thesis
    using jitter_plays_in_order [OF fresh, of "open_stream [] False 7 0", THEN conjunct1]
    unfolding length by (simp add: upt_rec open_stream_def)
qed

section \<open>The buffer is bounded, and playback ends\<close>

inductive jitter_step :: "ShroomVoiceJitterBuffer \<Rightarrow> ShroomVoiceJitterBuffer \<Rightarrow> bool" where
  push: "ShroomVoiceJitterPush (Some j) packet n now = (result, Some j') \<Longrightarrow> jitter_step j j'"
| pop: "ShroomVoiceJitterPopNext (Some j) now = (pop, Some j') \<Longrightarrow> jitter_step j j'"

lemma jitter_ok_init: "jitter_ok ShroomVoiceJitterInit"
  by (simp add: jitter_ok_def ShroomVoiceJitterInit_def jitter_constants)

lemma jitter_ok_start: "jitter_ok (StartStream p now)"
  by (simp add: jitter_ok_def StartStream_def jitter_constants)

lemma jitter_push_ok:
  assumes "ShroomVoiceJitterPush (Some j) packet n now = (result, Some j')" and "jitter_ok j"
  shows "jitter_ok j'"
  using assms(1)
proof (cases rule: Push_cases)
  case (accepted p j1)
  have "jitter_ok j1" using accepted(3) assms(2) jitter_ok_start by auto
  moreover have "vf_sequence p \<notin> jf_sequence ` set (jb_frames j1)" using accepted(6) by (auto simp: FindSequence_def)
  ultimately show ?thesis using accepted(7,8) by (simp add: jitter_ok_def jitter_constants jitter_frame_def)
qed (use assms(2) jitter_ok_start in auto)

lemma pop_ok:
  assumes "ShroomVoiceJitterPopNext (Some j) now = (pop, Some j')" and "jitter_ok j"
  shows "jitter_ok j'"
  using assms(1)
proof (cases rule: Pop_cases)
  case (frame i f)
  have "i < length (jb_frames j)" using frame(3) find_index_less by (auto simp: FindSequence_def)
  moreover have "jitter_ok ShroomVoiceJitterReset" using jitter_ok_init by (simp add: ShroomVoiceJitterReset_def)
  ultimately show ?thesis using frame(7) assms(2) distinct_remove_at [of jf_sequence "jb_frames j" i]
    by (auto simp: jitter_ok_def jitter_constants)
next
  case lost
  then show ?thesis using jitter_ok_init by (simp add: ShroomVoiceJitterReset_def)
qed (use assms(2) in \<open>auto simp: jitter_ok_def jitter_constants\<close>)

lemma jitter_reachable_ok:
  assumes "jitter_step\<^sup>*\<^sup>* ShroomVoiceJitterInit j"
  shows "jitter_ok j"
  using assms
proof (induction rule: rtranclp_induct)
  case base
  show ?case by (rule jitter_ok_init)
next
  case (step y z)
  from step(2) step.IH show ?case by (cases rule: jitter_step.cases) (blast intro: jitter_push_ok pop_ok)+
qed

text \<open>C24. In every state that pushes and pops can bring about the buffer holds at most 12 frames, with
  distinct sequence numbers, and at most 5 frames in a row have been concealed.\<close>

theorem jitter_buffer_bounded:
  assumes "jitter_step\<^sup>*\<^sup>* ShroomVoiceJitterInit j"
  shows "length (jb_frames j) \<le> SHROOM_VOICE_JITTER_CAPACITY \<and> distinct (map jf_sequence (jb_frames j)) \<and>
    jb_consecutive_loss j \<le> SHROOM_VOICE_JITTER_MAX_CONSECUTIVE_LOSS"
  using jitter_reachable_ok [OF assms] by (simp add: jitter_ok_def)

definition witness_buffer :: ShroomVoiceJitterBuffer where
  "witness_buffer = (StartStream (witness_packet 7 1) 4)\<lparr>jb_frames := [jitter_frame (witness_packet 7 1) 4]\<rparr>"

lemma witness_buffer_reachable: "jitter_step\<^sup>*\<^sup>* ShroomVoiceJitterInit witness_buffer"
proof -
  have "ShroomVoiceJitterPush (Some ShroomVoiceJitterInit) (Some (witness_packet 7 1)) 25 4 =
      (SHROOM_VOICE_JITTER_PUSH_ACCEPTED, Some witness_buffer)"
    using witness_packet_valid [of 1 7]
    by (simp add: ShroomVoiceJitterPush_def Let_def StartStream_def FindSequence_def jitter_constants
        ShroomVoiceJitterReset_def ShroomVoiceJitterInit_def witness_buffer_def) (simp add: witness_packet_def)
  then show ?thesis by (intro r_into_rtranclp jitter_step.push)
qed

theorem jitter_buffer_bounded_witness:
  "jb_initialized witness_buffer \<and> length (jb_frames witness_buffer) \<le> SHROOM_VOICE_JITTER_CAPACITY"
  using jitter_buffer_bounded [OF witness_buffer_reachable] by (simp add: witness_buffer_def StartStream_def)

fun jitter_end :: "ShroomVoiceJitterBuffer \<Rightarrow> u64 list \<Rightarrow> ShroomVoiceJitterBuffer" where
  "jitter_end j [] = j"
| "jitter_end j (now # clock) =
     (case snd (ShroomVoiceJitterPopNext (Some j) now) of Some j \<Rightarrow> jitter_end j clock | None \<Rightarrow> j)"

lemma jitter_end_closed: "\<not> jb_initialized j \<Longrightarrow> jitter_end j clock = j"
  by (induction clock) (simp_all add: ShroomVoiceJitterPopNext_def)

lemma playback_measure:
  assumes "jitter_ok j" and "jb_initialized j" and "\<not> must_wait j now"
    and "ShroomVoiceJitterPopNext (Some j) now = (pop, Some j')"
  shows "\<not> jb_initialized j' \<or> jb_started j' \<and> jitter_ok j' \<and>
    6 * length (jb_frames j') + 6 - unat (jb_consecutive_loss j') < 6 * length (jb_frames j) + 6 - unat (jb_consecutive_loss j)"
  using assms(4)
proof (cases rule: Pop_cases)
  case idle
  with assms(2,3) show ?thesis by simp
next
  case (frame i f)
  have i: "i < length (jb_frames j)" using frame(3) find_index_less by (auto simp: FindSequence_def)
  have loss: "unat (jb_consecutive_loss j) \<le> 5"
    using assms(1) by (simp add: jitter_ok_def jitter_constants word_le_nat_alt)
  show ?thesis
  proof (cases "jf_flags f AND SHROOM_VOICE_FLAG_END \<noteq> 0")
    case True
    with frame(7) show ?thesis by simp
  next
    case False
    with frame(7) have "jb_started j'" "jb_consecutive_loss j' = 0" "length (jb_frames j') = length (jb_frames j) - 1"
      using i by simp_all
    with i loss pop_ok [OF assms(4,1)] show ?thesis by (auto simp del: One_nat_def)
  qed
next
  case conceal
  have "unat (jb_consecutive_loss j + 1) = unat (jb_consecutive_loss j) + 1"
    using assms(1) by (simp add: jitter_ok_def jitter_constants word_le_nat_alt unat_word_ariths)
  with conceal pop_ok [OF assms(4,1)] assms(1) show ?thesis
    by (simp add: jitter_ok_def jitter_constants word_le_nat_alt)
next
  case lost
  then show ?thesis by simp
qed

lemma playback_ends:
  "jitter_ok j \<Longrightarrow> jb_started j \<or> (\<forall>now \<in> set clock. \<not> must_wait j now) \<Longrightarrow>
   6 * length (jb_frames j) + 6 - unat (jb_consecutive_loss j) \<le> length clock \<Longrightarrow> \<not> jb_initialized (jitter_end j clock)"
proof (induction clock arbitrary: j)
  case Nil
  then have "unat (jb_consecutive_loss j) \<le> 5" by (simp add: jitter_ok_def jitter_constants word_le_nat_alt)
  with Nil.prems(3) show ?case by simp
next
  case (Cons now clock)
  show ?case
  proof (cases "jb_initialized j")
    case False
    then show ?thesis using jitter_end_closed [OF False, of "now # clock"] by simp
  next
    case True
    have go: "\<not> must_wait j now" using Cons.prems(2) by (auto simp: must_wait_def)
    obtain pop j' where p: "ShroomVoiceJitterPopNext (Some j) now = (pop, j')" by (metis surj_pair)
    then obtain j2 where j2: "j' = Some j2" by (cases rule: Pop_cases) auto
    from playback_measure [OF Cons.prems(1) True go p [unfolded j2]] Cons.IH [of j2] Cons.prems(3) p j2
    show ?thesis using jitter_end_closed [of j2 clock] by auto
  qed
qed

text \<open>C25. Playback of a stream ends by itself: when no more frames arrive, then after the 60 ms start
  delay at most six pops per buffered frame and six more close the stream, even when its end
  frame was lost or frames that never play remain in the buffer.\<close>

theorem jitter_playback_ends:
  assumes "jitter_step\<^sup>*\<^sup>* ShroomVoiceJitterInit j"
    and "\<forall>now \<in> set clock. now < jb_first_arrival_ms j \<or> SHROOM_VOICE_JITTER_MAX_START_DELAY_MS \<le> now - jb_first_arrival_ms j"
    and "6 * length (jb_frames j) + 6 \<le> length clock"
  shows "\<not> jb_initialized (jitter_end j clock)"
proof (rule playback_ends)
  show "jitter_ok j" using assms(1) by (rule jitter_reachable_ok)
  show "jb_started j \<or> (\<forall>now \<in> set clock. \<not> must_wait j now)" using assms(2) by (auto simp: must_wait_def Let_def)
  show "6 * length (jb_frames j) + 6 - unat (jb_consecutive_loss j) \<le> length clock" using assms(3) by simp
qed

theorem jitter_playback_ends_witness:
  "jb_initialized witness_buffer \<and> \<not> jb_initialized (jitter_end witness_buffer (replicate 12 80))"
  using jitter_playback_ends [OF witness_buffer_reachable, of "replicate 12 80"]
  by (simp add: witness_buffer_def jitter_constants StartStream_def ShroomVoiceJitterReset_def ShroomVoiceJitterInit_def)

end
