(* ===== verification/Chat_History.thy ===== *)
theory Chat_History
  imports Prelude
begin

text \<open>
  The server's chat history of a lobby (\<open>src/server/chat_history.c\<close>): a bounded list of
  messages, oldest first, with its byte count, saved to and loaded from SQLite.  A char array is
  the string it holds; SQLite is a parameter that answers whether a statement succeeded, and the
  model returns the statements it was given.
\<close>

definition SHROOM_SERVER_CHAT_HISTORY_MAX_MESSAGES :: nat where "SHROOM_SERVER_CHAT_HISTORY_MAX_MESSAGES = 50"
definition SHROOM_SERVER_CHAT_HISTORY_MAX_BYTES :: nat where "SHROOM_SERVER_CHAT_HISTORY_MAX_BYTES = 16 * 1024"
definition SHROOM_SERVER_CHAT_HISTORY_RETENTION_SECONDS :: u32 where
  "SHROOM_SERVER_CHAT_HISTORY_RETENTION_SECONDS = 7 * 24 * 60 * 60"
definition SHROOM_SERVER_CHAT_HISTORY_FLUSH_INTERVAL_MS :: u64 where
  "SHROOM_SERVER_CHAT_HISTORY_FLUSH_INTERVAL_MS = 1000"

lemmas history_constants = SHROOM_SERVER_CHAT_HISTORY_MAX_MESSAGES_def SHROOM_SERVER_CHAT_HISTORY_MAX_BYTES_def
  SHROOM_SERVER_CHAT_HISTORY_RETENTION_SECONDS_def SHROOM_SERVER_CHAT_HISTORY_FLUSH_INTERVAL_MS_def

record ShroomServerChatHistoryMessage =
  hm_sender_id :: u32
  hm_message_id :: u64
  hm_timestamp_sec :: u32
  hm_sender_name :: "u8 list"
  hm_message :: "u8 list"

record ShroomServerChatHistory =
  ch_identity :: u64
  ch_byte_count :: nat
  ch_messages :: "ShroomServerChatHistoryMessage list"
  ch_dirty :: bool
  ch_last_flush_ms :: u64

definition MessageBytes :: "ShroomServerChatHistoryMessage \<Rightarrow> nat" where
  "MessageBytes message = length (hm_sender_name message) + length (hm_message message)"

definition Retained :: "u32 \<Rightarrow> u32 \<Rightarrow> bool" where
  "Retained timestamp_sec now_sec \<longleftrightarrow> timestamp_sec \<noteq> 0 \<and> timestamp_sec \<le> now_sec \<and>
     now_sec - timestamp_sec \<le> SHROOM_SERVER_CHAT_HISTORY_RETENTION_SECONDS"

definition RemoveOldest :: "ShroomServerChatHistory \<Rightarrow> ShroomServerChatHistory" where
  "RemoveOldest history =
     (case ch_messages history of
        [] \<Rightarrow> history
      | oldest # rest \<Rightarrow> history\<lparr>ch_byte_count := ch_byte_count history - MessageBytes oldest, ch_messages := rest\<rparr>)"

definition ShroomServerChatHistoryInit :: "ShroomServerChatHistory option \<Rightarrow> u64 \<Rightarrow> ShroomServerChatHistory option" where
  "ShroomServerChatHistoryInit history identity =
     map_option (\<lambda>_. \<lparr>ch_identity = identity, ch_byte_count = 0, ch_messages = [], ch_dirty = False,
       ch_last_flush_ms = 0\<rparr>) history"

text \<open>The loop that makes room; it would not end for a message that can never fit.\<close>

partial_function (option) make_room ::
  "ShroomServerChatHistory \<Rightarrow> nat \<Rightarrow> ShroomServerChatHistory option" where
  "make_room history bytes =
     (if SHROOM_SERVER_CHAT_HISTORY_MAX_MESSAGES \<le> length (ch_messages history) \<or>
         SHROOM_SERVER_CHAT_HISTORY_MAX_BYTES < ch_byte_count history + bytes
      then make_room (RemoveOldest history) bytes else Some history)"

declare make_room.simps [code]

text \<open>\<open>None\<close>: the call does not return.  The result pairs the returned boolean and the history.\<close>

definition ShroomServerChatHistoryAppend ::
  "ShroomServerChatHistory \<Rightarrow> ShroomServerChatHistoryMessage \<Rightarrow> u32 \<Rightarrow> (bool \<times> ShroomServerChatHistory) option" where
  "ShroomServerChatHistoryAppend history message now_sec =
     (if ch_identity history = 0 \<or> \<not> Retained (hm_timestamp_sec message) now_sec \<or> hm_message_id message = 0 \<or>
         hm_sender_name message = [] \<or> hm_message message = []
      then Some (False, history)
      else if list_ex (\<lambda>m. hm_message_id m = hm_message_id message) (ch_messages history) then Some (True, history)
      else
        let bytes = MessageBytes message
        in case make_room history bytes of
             None \<Rightarrow> None
           | Some history \<Rightarrow>
               Some (True, history\<lparr>ch_messages := ch_messages history @ [message],
                                   ch_byte_count := ch_byte_count history + bytes, ch_dirty := True\<rparr>))"

section \<open>The database\<close>

datatype chat_statement =
    Begin_Immediate
  | Delete_History u64
  | Insert_Message u64 ShroomServerChatHistoryMessage
  | Commit
  | Rollback

type_synonym database = "chat_statement list \<Rightarrow> chat_statement \<Rightarrow> bool"

text \<open>The insertion loop, with the statements given so far.\<close>

fun insert_messages ::
  "database \<Rightarrow> u64 \<Rightarrow> ShroomServerChatHistoryMessage list \<Rightarrow> chat_statement list \<Rightarrow> bool \<times> chat_statement list" where
  "insert_messages db identity [] given = (True, given)"
| "insert_messages db identity (m # ms) given =
     (let given' = given @ [Insert_Message identity m]
      in if \<not> db given (Insert_Message identity m) then (False, given' @ [Rollback])
         else insert_messages db identity ms given')"

definition ShroomServerChatHistoryFlush ::
  "database option \<Rightarrow> ShroomServerChatHistory option \<Rightarrow> u64 \<Rightarrow>
     bool \<times> ShroomServerChatHistory option \<times> chat_statement list" where
  "ShroomServerChatHistoryFlush db history now_ms =
     (case (db, history) of
        (Some answer, Some h) \<Rightarrow>
          if \<not> ch_dirty h then (True, history, [])
          else if \<not> answer [] Begin_Immediate then (False, history, [Begin_Immediate])
          else if \<not> answer [Begin_Immediate] (Delete_History (ch_identity h))
          then (False, history, [Begin_Immediate, Delete_History (ch_identity h), Rollback])
          else (case insert_messages answer (ch_identity h) (ch_messages h)
                       [Begin_Immediate, Delete_History (ch_identity h)] of
                  (False, given) \<Rightarrow> (False, history, given)
                | (True, given) \<Rightarrow>
                    if \<not> answer given Commit then (False, history, given @ [Commit, Rollback])
                    else (True, Some (h\<lparr>ch_dirty := False, ch_last_flush_ms := now_ms\<rparr>), given @ [Commit]))
      | _ \<Rightarrow> (True, history, []))"

definition ShroomServerChatHistoryFlushIfDue ::
  "database option \<Rightarrow> ShroomServerChatHistory option \<Rightarrow> u64 \<Rightarrow>
     bool \<times> ShroomServerChatHistory option \<times> chat_statement list" where
  "ShroomServerChatHistoryFlushIfDue db history now_ms =
     (case history of
        None \<Rightarrow> (True, history, [])
      | Some h \<Rightarrow>
          if \<not> ch_dirty h \<or> now_ms - ch_last_flush_ms h < SHROOM_SERVER_CHAT_HISTORY_FLUSH_INTERVAL_MS
          then (True, history, [])
          else ShroomServerChatHistoryFlush db history now_ms)"

text \<open>A row as SQLite returns it: integers of 64 bits, texts that may be NULL.\<close>

record chat_row =
  row_sender_id :: u64
  row_message_id :: u64
  row_timestamp_sec :: u64
  row_sender_name :: "u8 list option"
  row_message :: "u8 list option"

text \<open>\<open>snprintf\<close> with \<open>"%s"\<close> into an array of the given size.\<close>

definition copy_text :: "nat \<Rightarrow> u8 list option \<Rightarrow> u8 list" where
  "copy_text size' source =
     take (size' - 1) (takeWhile (\<lambda>c. c \<noteq> 0) (case source of None \<Rightarrow> [] | Some bytes \<Rightarrow> bytes))"

definition row_message_of :: "chat_row \<Rightarrow> ShroomServerChatHistoryMessage" where
  "row_message_of row = \<lparr>hm_sender_id = ucast (row_sender_id row), hm_message_id = row_message_id row,
     hm_timestamp_sec = ucast (row_timestamp_sec row), hm_sender_name = copy_text 32 (row_sender_name row),
     hm_message = copy_text 201 (row_message row)\<rparr>"

fun load_rows :: "ShroomServerChatHistory \<Rightarrow> u32 \<Rightarrow> chat_row list \<Rightarrow> ShroomServerChatHistory option" where
  "load_rows history now_sec [] = Some history"
| "load_rows history now_sec (row # rows) =
     (let message = row_message_of row
      in if Retained (hm_timestamp_sec message) now_sec \<and> hm_message_id message \<noteq> 0 \<and>
            hm_sender_name message \<noteq> [] \<and> hm_message message \<noteq> []
         then (case ShroomServerChatHistoryAppend history message now_sec of
                 None \<Rightarrow> None | Some (_, history) \<Rightarrow> load_rows history now_sec rows)
         else load_rows history now_sec rows)"

text \<open>\<open>selected\<close>: the answer to the query, its rows and whether it ran to the end.\<close>

definition ShroomServerChatHistoryLoad ::
  "(chat_row list \<times> bool) option \<Rightarrow> ShroomServerChatHistory option \<Rightarrow> u32 \<Rightarrow>
     (bool \<times> ShroomServerChatHistory option) option" where
  "ShroomServerChatHistoryLoad selected history now_sec =
     (case (selected, history) of
        (Some (rows, finished), Some h) \<Rightarrow>
          if ch_identity h = 0 then Some (False, history)
          else (case load_rows h now_sec rows of
                  None \<Rightarrow> None
                | Some h \<Rightarrow> Some (finished, Some (h\<lparr>ch_dirty := False\<rparr>)))
      | _ \<Rightarrow> Some (False, history))"

section \<open>The bounds\<close>

text \<open>Texts that fit the arrays of the message.\<close>

definition message_ok :: "ShroomServerChatHistoryMessage \<Rightarrow> bool" where
  "message_ok m \<longleftrightarrow> length (hm_sender_name m) \<le> 31 \<and> length (hm_message m) \<le> 200"

definition chat_history_ok :: "ShroomServerChatHistory \<Rightarrow> bool" where
  "chat_history_ok h \<longleftrightarrow> length (ch_messages h) \<le> 50 \<and> ch_byte_count h = sum_list (map MessageBytes (ch_messages h)) \<and>
     ch_byte_count h \<le> 16384 \<and> distinct (map hm_message_id (ch_messages h)) \<and>
     (\<forall>m \<in> set (ch_messages h). hm_message_id m \<noteq> 0 \<and> hm_sender_name m \<noteq> [] \<and> hm_message m \<noteq> [])"

lemma id_known: "list_ex (\<lambda>m. hm_message_id m = i) ms \<longleftrightarrow> i \<in> hm_message_id ` set ms"
  by (auto simp: list_ex_iff)

lemma make_room_returns:
  assumes "chat_history_ok h" and "bytes \<le> 231"
  shows "\<exists>k. make_room h bytes = Some (h\<lparr>ch_byte_count := sum_list (map MessageBytes (drop k (ch_messages h))),
      ch_messages := drop k (ch_messages h)\<rparr>) \<and> k \<le> length (ch_messages h) \<and>
    length (drop k (ch_messages h)) < 50 \<and> sum_list (map MessageBytes (drop k (ch_messages h))) + bytes \<le> 16384 \<and>
    (\<forall>i < k. 50 \<le> length (drop i (ch_messages h)) \<or> 16384 < sum_list (map MessageBytes (drop i (ch_messages h))) + bytes)"
  using assms
proof (induction "ch_messages h" arbitrary: h)
  case Nil
  then have "make_room h bytes = Some h"
    by (subst make_room.simps) (simp add: history_constants chat_history_ok_def)
  moreover have "h\<lparr>ch_byte_count := sum_list (map MessageBytes (ch_messages h)), ch_messages := ch_messages h\<rparr> = h"
    using Nil.prems(1) by (cases h) (simp add: chat_history_ok_def)
  ultimately show ?case using Nil by (intro exI [of _ 0]) (simp add: chat_history_ok_def)
next
  case (Cons m ms)
  let ?full = "50 \<le> length (ch_messages h) \<or> 16384 < ch_byte_count h + bytes"
  show ?case
  proof (cases ?full)
    case False
    then have "make_room h bytes = Some h"
      by (subst make_room.simps) (simp add: history_constants)
    moreover have "h\<lparr>ch_byte_count := sum_list (map MessageBytes (ch_messages h)), ch_messages := ch_messages h\<rparr> = h"
      using Cons.prems(1) by (cases h) (simp add: chat_history_ok_def)
    ultimately show ?thesis using False Cons.prems(1) by (intro exI [of _ 0]) (simp add: chat_history_ok_def)
  next
    case True
    let ?h = "RemoveOldest h"
    have h: "ch_messages h = m # ms" using Cons.hyps(2) by simp
    have rest: "?h = h\<lparr>ch_byte_count := sum_list (map MessageBytes ms), ch_messages := ms\<rparr>"
      using Cons.prems(1) by (simp add: RemoveOldest_def h chat_history_ok_def)
    have ok: "chat_history_ok ?h" using Cons.prems(1) by (simp add: rest chat_history_ok_def h)
    have step: "make_room h bytes = make_room ?h bytes"
      using True by (subst make_room.simps) (simp add: history_constants)
    obtain k where k: "make_room ?h bytes = Some (?h\<lparr>ch_byte_count := sum_list (map MessageBytes (drop k ms)), ch_messages := drop k ms\<rparr>)"
      "k \<le> length ms" "length (drop k ms) < 50" "sum_list (map MessageBytes (drop k ms)) + bytes \<le> 16384"
      "\<forall>i < k. 50 \<le> length (drop i ms) \<or> 16384 < sum_list (map MessageBytes (drop i ms)) + bytes"
      using Cons.hyps(1) [of ?h, OF _ ok Cons.prems(2)] by (auto simp: rest)
    have "\<forall>i < Suc k. 50 \<le> length (drop i (ch_messages h)) \<or>
        16384 < sum_list (map MessageBytes (drop i (ch_messages h))) + bytes"
      using k(5) True Cons.prems(1) by (auto simp: h chat_history_ok_def less_Suc_eq_0_disj)
    with k step show ?thesis by (intro exI [of _ "Suc k"]) (simp add: rest h)
  qed
qed

text \<open>C26. Appending to a chat history that is in order always returns, and leaves it in order: at most
  50 messages with distinct identifiers, and a byte count of at most 16 KiB that is the sum of the
  texts.  A message that is expired, or lacks an identifier, a sender or a text is refused and a
  repeated identifier is ignored; any other message is appended, and the oldest messages are
  dropped for it, none more than needed.\<close>

theorem chat_append_keeps_newest:
  assumes "chat_history_ok h" and "message_ok m"
  shows "\<exists>ok h'. ShroomServerChatHistoryAppend h m now = Some (ok, h') \<and> chat_history_ok h' \<and>
    (ok \<longleftrightarrow> ch_identity h \<noteq> 0 \<and> Retained (hm_timestamp_sec m) now \<and> hm_message_id m \<noteq> 0 \<and>
       hm_sender_name m \<noteq> [] \<and> hm_message m \<noteq> []) \<and>
    (if \<not> ok \<or> hm_message_id m \<in> hm_message_id ` set (ch_messages h) then h' = h
     else ch_dirty h' \<and> (\<exists>k. ch_messages h' = drop k (ch_messages h) @ [m] \<and>
       (\<forall>i < k. 50 < length (drop i (ch_messages h) @ [m]) \<or>
          16384 < sum_list (map MessageBytes (drop i (ch_messages h) @ [m])))))"
proof (cases "\<not> (ch_identity h \<noteq> 0 \<and> Retained (hm_timestamp_sec m) now \<and> hm_message_id m \<noteq> 0 \<and>
    hm_sender_name m \<noteq> [] \<and> hm_message m \<noteq> []) \<or> hm_message_id m \<in> hm_message_id ` set (ch_messages h)")
  case True
  then show ?thesis
    using assms(1) by (auto simp: ShroomServerChatHistoryAppend_def id_known)
next
  case False
  have "MessageBytes m \<le> 231" using assms(2) by (simp add: message_ok_def MessageBytes_def)
  from make_room_returns [OF assms(1) this] obtain k where
    k: "make_room h (MessageBytes m) = Some (h\<lparr>ch_byte_count := sum_list (map MessageBytes (drop k (ch_messages h))),
      ch_messages := drop k (ch_messages h)\<rparr>)"
    "length (drop k (ch_messages h)) < 50"
    "sum_list (map MessageBytes (drop k (ch_messages h))) + MessageBytes m \<le> 16384"
    "\<forall>i < k. 50 \<le> length (drop i (ch_messages h)) \<or> 16384 < sum_list (map MessageBytes (drop i (ch_messages h))) + MessageBytes m"
    by blast
  define h' where "h' = h\<lparr>ch_byte_count := sum_list (map MessageBytes (drop k (ch_messages h))) + MessageBytes m,
      ch_messages := drop k (ch_messages h) @ [m], ch_dirty := True\<rparr>"
  have append: "ShroomServerChatHistoryAppend h m now = Some (True, h')"
    using False k(1) by (simp add: ShroomServerChatHistoryAppend_def id_known h'_def Let_def)
  have "set (drop k (ch_messages h)) \<subseteq> set (ch_messages h)" by (rule set_drop_subset)
  then have "chat_history_ok h'"
    using assms(1) False k(2,3) set_drop_subset [of k "map hm_message_id (ch_messages h)"]
    by (auto simp: chat_history_ok_def h'_def drop_map [symmetric])
  with append False k(4) show ?thesis
    by (intro exI [of _ True] exI [of _ h']) (auto simp: h'_def less_Suc_eq_le intro!: exI [of _ k])
qed

definition witness_message :: "u64 \<Rightarrow> ShroomServerChatHistoryMessage" where
  "witness_message i = \<lparr>hm_sender_id = 4, hm_message_id = i, hm_timestamp_sec = 100, hm_sender_name = [65], hm_message = [72, 105]\<rparr>"

definition witness_chat_history :: "ShroomServerChatHistoryMessage list \<Rightarrow> ShroomServerChatHistory" where
  "witness_chat_history ms = \<lparr>ch_identity = 3, ch_byte_count = 3 * length ms, ch_messages = ms, ch_dirty = False, ch_last_flush_ms = 0\<rparr>"

lemma witness_history_ok: "chat_history_ok (witness_chat_history [witness_message 8])"
  by (simp add: chat_history_ok_def witness_chat_history_def witness_message_def MessageBytes_def)

theorem chat_append_keeps_newest_witness:
  "\<exists>h'. ShroomServerChatHistoryAppend (witness_chat_history [witness_message 8]) (witness_message 9) 160 = Some (True, h') \<and>
     chat_history_ok h'"
proof -
  have "message_ok (witness_message 9)" by (simp add: message_ok_def witness_message_def)
  from chat_append_keeps_newest [OF witness_history_ok this, of 160] show ?thesis
    by (auto simp: witness_chat_history_def witness_message_def Retained_def history_constants)
qed

section \<open>Saving is one transaction\<close>

lemma insert_messages_given:
  "insert_messages db identity ms given = (ok, given') \<Longrightarrow>
   (ok \<longrightarrow> given' = given @ map (Insert_Message identity) ms) \<and>
   (\<not> ok \<longrightarrow> (\<exists>k < length ms. given' = given @ map (Insert_Message identity) (take (Suc k) ms) @ [Rollback]))"
proof (induction ms arbitrary: given)
  case Nil
  then show ?case by simp
next
  case (Cons m ms)
  show ?case
  proof (cases "db given (Insert_Message identity m)")
    case True
    with Cons.prems have "insert_messages db identity ms (given @ [Insert_Message identity m]) = (ok, given')" by simp
    from Cons.IH [OF this] show ?thesis by fastforce
  next
    case False
    with Cons.prems show ?thesis by (auto intro!: exI [of _ 0])
  qed
qed

text \<open>C27. Saving a history is one transaction: when it reports success for a history that had changed,
  the statements run were the start of a transaction, the deletion of the history's rows, the
  insertion of every message in order, and the commit, and the history counts as saved; when it
  reports failure the history stays to be saved again, and either no transaction was started or
  the last statement rolled it back.\<close>

theorem chat_flush_is_transaction:
  assumes "ShroomServerChatHistoryFlush (Some db) (Some h) now = (ok, h', given)" and "ch_dirty h"
  shows "if ok
     then given = [Begin_Immediate, Delete_History (ch_identity h)] @ map (Insert_Message (ch_identity h)) (ch_messages h) @ [Commit] \<and>
       h' = Some (h\<lparr>ch_dirty := False, ch_last_flush_ms := now\<rparr>)
     else h' = Some h \<and> (given = [Begin_Immediate] \<and> \<not> db [] Begin_Immediate \<or> given \<noteq> [] \<and> last given = Rollback)"
proof -
  obtain inserted given1 where
    ins: "insert_messages db (ch_identity h) (ch_messages h) [Begin_Immediate, Delete_History (ch_identity h)] = (inserted, given1)"
    by (metis surj_pair)
  from insert_messages_given [OF ins] assms ins show ?thesis
    by (auto simp: ShroomServerChatHistoryFlush_def split: if_splits bool.splits)
qed

theorem chat_flush_is_transaction_witness:
  "\<exists>h'. ShroomServerChatHistoryFlush (Some (\<lambda>given s. s \<noteq> Commit))
      (Some ((witness_chat_history [witness_message 8])\<lparr>ch_dirty := True\<rparr>)) 5 = (False, h', [Begin_Immediate, Delete_History 3,
        Insert_Message 3 (witness_message 8), Commit, Rollback]) \<and> h' = Some ((witness_chat_history [witness_message 8])\<lparr>ch_dirty := True\<rparr>)"
proof -
  let ?h = "(witness_chat_history [witness_message 8])\<lparr>ch_dirty := True\<rparr>"
  obtain h' where flush: "ShroomServerChatHistoryFlush (Some (\<lambda>given s. s \<noteq> Commit)) (Some ?h) 5 = (False, h', [Begin_Immediate, Delete_History 3,
        Insert_Message 3 (witness_message 8), Commit, Rollback])"
    by (simp add: ShroomServerChatHistoryFlush_def witness_chat_history_def)
  from chat_flush_is_transaction [OF this] flush show ?thesis by simp
qed

section \<open>Loading restores what was saved\<close>

text \<open>The row that an insertion leaves in the table.\<close>

definition saved_row :: "ShroomServerChatHistoryMessage \<Rightarrow> chat_row" where
  "saved_row m = \<lparr>row_sender_id = ucast (hm_sender_id m), row_message_id = hm_message_id m,
     row_timestamp_sec = ucast (hm_timestamp_sec m), row_sender_name = Some (hm_sender_name m),
     row_message = Some (hm_message m)\<rparr>"

definition c_text :: "u8 list \<Rightarrow> bool" where
  "c_text bytes \<longleftrightarrow> 0 \<notin> set bytes"

lemma row_message_of_saved:
  assumes "message_ok m" and "c_text (hm_sender_name m)" and "c_text (hm_message m)"
  shows "row_message_of (saved_row m) = m"
proof -
  have "takeWhile (\<lambda>c. c \<noteq> 0) bytes = bytes" if "c_text bytes" for bytes :: "u8 list"
    using that by (auto simp: c_text_def takeWhile_eq_all_conv)
  then have "takeWhile (\<lambda>c. c \<noteq> 0) (hm_sender_name m) = hm_sender_name m"
    "takeWhile (\<lambda>c. c \<noteq> 0) (hm_message m) = hm_message m" using assms(2,3) by blast+
  moreover have "ucast (ucast (x :: u32) :: u64) = x" for x
    by (simp add: word_uint_eq_iff unsigned_ucast_eq take_bit_word_eq_self)
  ultimately show ?thesis
    using assms(1) by (intro ShroomServerChatHistoryMessage.equality)
      (simp_all del: takeWhile_eq_all_conv add: row_message_of_def saved_row_def copy_text_def message_ok_def)
qed

lemma load_saved_rows:
  assumes "chat_history_ok h" and "ch_identity h \<noteq> 0" and "chat_history_ok (h\<lparr>ch_messages := ch_messages h @ ms,
      ch_byte_count := sum_list (map MessageBytes (ch_messages h @ ms))\<rparr>)"
    and "\<forall>m \<in> set ms. message_ok m \<and> c_text (hm_sender_name m) \<and> c_text (hm_message m) \<and> Retained (hm_timestamp_sec m) now"
  shows "\<exists>dirty. load_rows h now (map saved_row ms) = Some (h\<lparr>ch_messages := ch_messages h @ ms,
      ch_byte_count := sum_list (map MessageBytes (ch_messages h @ ms)), ch_dirty := dirty\<rparr>)"
  using assms
proof (induction ms arbitrary: h)
  case Nil
  then have "h\<lparr>ch_messages := ch_messages h, ch_byte_count := sum_list (map MessageBytes (ch_messages h)), ch_dirty := ch_dirty h\<rparr> = h"
    by (cases h) (simp add: chat_history_ok_def)
  then show ?case by (intro exI [of _ "ch_dirty h"]) simp
next
  case (Cons m ms)
  let ?h = "h\<lparr>ch_messages := ch_messages h @ [m], ch_byte_count := sum_list (map MessageBytes (ch_messages h @ [m])), ch_dirty := True\<rparr>"
  have m: "hm_message_id m \<noteq> 0" "hm_sender_name m \<noteq> []" "hm_message m \<noteq> []" "hm_message_id m \<notin> hm_message_id ` set (ch_messages h)"
    "length (ch_messages h) < 50" "ch_byte_count h + MessageBytes m \<le> 16384"
    using Cons.prems(1,3) by (auto simp: chat_history_ok_def)
  have "make_room h (MessageBytes m) = Some h"
    using m(5,6) by (subst make_room.simps) (simp add: history_constants)
  then have "ShroomServerChatHistoryAppend h m now = Some (True, ?h)"
    using m Cons.prems by (simp add: ShroomServerChatHistoryAppend_def id_known Let_def chat_history_ok_def)
  then have step: "load_rows h now (map saved_row (m # ms)) = load_rows ?h now (map saved_row ms)"
    using m Cons.prems(4) by (simp add: row_message_of_saved Let_def)
  have "chat_history_ok ?h" using Cons.prems(3) by (auto simp: chat_history_ok_def)
  moreover have "chat_history_ok (?h\<lparr>ch_messages := ch_messages ?h @ ms,
      ch_byte_count := sum_list (map MessageBytes (ch_messages ?h @ ms))\<rparr>)"
    using Cons.prems(3) by (simp add: chat_history_ok_def add.assoc)
  ultimately have "\<exists>dirty. load_rows ?h now (map saved_row ms) = Some (?h\<lparr>ch_messages := ch_messages ?h @ ms,
      ch_byte_count := sum_list (map MessageBytes (ch_messages ?h @ ms)), ch_dirty := dirty\<rparr>)"
    using Cons.prems(2,4) by (intro Cons.IH) simp_all
  then show ?case unfolding step by (simp add: add.assoc)
qed

text \<open>C28. Loading restores what was saved: from the rows that the insertions of a saved history left,
  in the order of their identifiers, an empty history for the same identity is filled with the
  same messages, provided none has expired since.\<close>

theorem chat_history_reload:
  assumes "chat_history_ok h" and "ch_identity h \<noteq> 0"
    and "\<forall>m \<in> set (ch_messages h). message_ok m \<and> c_text (hm_sender_name m) \<and> c_text (hm_message m) \<and> Retained (hm_timestamp_sec m) now"
    and "sorted (map (sint \<circ> hm_message_id) (ch_messages h))"
    and "rows = sort_key (sint \<circ> row_message_id) [saved_row m. Insert_Message i m \<leftarrow> given, i = ch_identity h]"
    and "ShroomServerChatHistoryFlush (Some db) (Some h) t = (True, h', given)" and "ch_dirty h"
    and "ShroomServerChatHistoryInit (Some any) (ch_identity h) = Some fresh"
  shows "\<exists>h2. ShroomServerChatHistoryLoad (Some (rows, True)) (Some fresh) now = Some (True, Some h2) \<and>
    ch_messages h2 = ch_messages h \<and> ch_byte_count h2 = ch_byte_count h \<and> \<not> ch_dirty h2"
proof -
  obtain inserted given1 where
    ins: "insert_messages db (ch_identity h) (ch_messages h) [Begin_Immediate, Delete_History (ch_identity h)] = (inserted, given1)"
    by (metis surj_pair)
  from insert_messages_given [OF ins] assms(6,7) ins
  have given: "given = [Begin_Immediate, Delete_History (ch_identity h)] @ map (Insert_Message (ch_identity h)) (ch_messages h) @ [Commit]"
    by (auto simp: ShroomServerChatHistoryFlush_def split: if_splits bool.splits)
  have "[saved_row m. Insert_Message i m \<leftarrow> map (Insert_Message (ch_identity h)) ms, i = ch_identity h] = map saved_row ms" for ms
    by (induction ms) simp_all
  then have "[saved_row m. Insert_Message i m \<leftarrow> given, i = ch_identity h] = map saved_row (ch_messages h)"
    by (simp add: given)
  moreover have "sorted (map (sint \<circ> row_message_id) (map saved_row (ch_messages h)))"
    using assms(4) by (simp add: comp_def saved_row_def)
  ultimately have rows: "rows = map saved_row (ch_messages h)"
    using assms(5) by (simp add: sorted_sort_id sort_key_id_if_sorted)
  have fresh: "fresh = \<lparr>ch_identity = ch_identity h, ch_byte_count = 0, ch_messages = [], ch_dirty = False, ch_last_flush_ms = 0\<rparr>"
    using assms(8) by (simp add: ShroomServerChatHistoryInit_def)
  obtain dirty where "load_rows fresh now rows = Some (fresh\<lparr>ch_messages := ch_messages fresh @ ch_messages h,
      ch_byte_count := sum_list (map MessageBytes (ch_messages fresh @ ch_messages h)), ch_dirty := dirty\<rparr>)"
    using load_saved_rows [of fresh "ch_messages h" now] assms(1-3) rows by (auto simp: fresh chat_history_ok_def)
  then show ?thesis using assms(1,2) by (simp add: ShroomServerChatHistoryLoad_def fresh chat_history_ok_def)
qed

theorem chat_history_reload_witness:
  "\<exists>h2. ShroomServerChatHistoryLoad (Some ([saved_row (witness_message 8), saved_row (witness_message 9)], True))
      (ShroomServerChatHistoryInit (Some (witness_chat_history [])) 3) 160 = Some (True, Some h2) \<and>
    ch_messages h2 = [witness_message 8, witness_message 9]"
proof -
  let ?h = "(witness_chat_history [witness_message 8, witness_message 9])\<lparr>ch_dirty := True\<rparr>"
  let ?given = "[Begin_Immediate, Delete_History 3, Insert_Message 3 (witness_message 8), Insert_Message 3 (witness_message 9), Commit]"
  have ok: "chat_history_ok ?h"
    by (simp add: chat_history_ok_def witness_chat_history_def witness_message_def MessageBytes_def)
  have identity: "ch_identity ?h \<noteq> 0" "ch_dirty ?h" by (simp_all add: witness_chat_history_def)
  have texts: "\<forall>m \<in> set (ch_messages ?h). message_ok m \<and> c_text (hm_sender_name m) \<and> c_text (hm_message m) \<and> Retained (hm_timestamp_sec m) 160"
    by (simp add: witness_chat_history_def witness_message_def message_ok_def c_text_def Retained_def history_constants)
  have ids: "sorted (map (sint \<circ> hm_message_id) (ch_messages ?h))" by (simp add: witness_chat_history_def witness_message_def)
  have rows: "[saved_row (witness_message 8), saved_row (witness_message 9)] =
      sort_key (sint \<circ> row_message_id) [saved_row m. Insert_Message i m \<leftarrow> ?given, i = ch_identity ?h]"
    by (simp add: witness_chat_history_def saved_row_def witness_message_def)
  obtain h' where flush: "ShroomServerChatHistoryFlush (Some (\<lambda>given s. True)) (Some ?h) 5 = (True, h', ?given)"
    by (simp add: ShroomServerChatHistoryFlush_def witness_chat_history_def)
  obtain fresh where fresh: "ShroomServerChatHistoryInit (Some (witness_chat_history [])) (ch_identity ?h) = Some fresh"
    by (simp add: ShroomServerChatHistoryInit_def)
  from chat_history_reload [OF ok identity(1) texts ids rows flush identity(2) fresh] fresh show ?thesis
    by (auto simp: witness_chat_history_def)
qed

end
