(* ===== verification/Rest_Rate_Limit.thy ===== *)
theory Rest_Rate_Limit
  imports Prelude
begin

text \<open>
  The request limiter of the REST service (\<open>src/server/rest_rate_limit.c\<close>): a table of 128
  entries, one per client key and route, each with the times of the requests admitted in the
  last minute.  A table without the client reuses an unused entry or the one seen longest ago.
  A char array is the string it holds, an attempts array with its count the list of attempts.
  The spin lock makes each check one step.
\<close>

definition SHROOM_REST_RATE_LIMIT_KEYS :: nat where "SHROOM_REST_RATE_LIMIT_KEYS = 128"
definition RATE_WINDOW_SECONDS :: u64 where "RATE_WINDOW_SECONDS = 60"

lemmas rate_constants = SHROOM_REST_RATE_LIMIT_KEYS_def RATE_WINDOW_SECONDS_def

datatype ShroomRestRateRoute =
    SHROOM_REST_RATE_REGISTER
  | SHROOM_REST_RATE_LOGIN
  | SHROOM_REST_RATE_REFRESH
  | SHROOM_REST_RATE_AUTHENTICATED

record ShroomRestRateLimitResult =
  rr_allowed :: bool
  rr_limit :: u32
  rr_remaining :: u32
  rr_reset_at :: u64
  rr_retry_after :: u32

record ShroomRestRateLimitEntry =
  re_key :: "u8 list"
  re_route :: ShroomRestRateRoute
  re_attempts :: "u64 list"
  re_last_seen :: u64
  re_active :: bool

definition LimitForRoute :: "ShroomRestRateRoute \<Rightarrow> u32" where
  "LimitForRoute route =
     (case route of
        SHROOM_REST_RATE_REGISTER \<Rightarrow> 5
      | SHROOM_REST_RATE_LOGIN \<Rightarrow> 5
      | SHROOM_REST_RATE_REFRESH \<Rightarrow> 10
      | SHROOM_REST_RATE_AUTHENTICATED \<Rightarrow> 60)"

definition zero_entry :: ShroomRestRateLimitEntry where
  "zero_entry = \<lparr>re_key = [], re_route = SHROOM_REST_RATE_REGISTER, re_attempts = [], re_last_seen = 0, re_active = False\<rparr>"

definition ShroomRestRateLimiterInit :: "ShroomRestRateLimitEntry list" where
  "ShroomRestRateLimiterInit = replicate SHROOM_REST_RATE_LIMIT_KEYS zero_entry"

text \<open>The search: \<open>Inl\<close> the entry of the client, \<open>Inr\<close> the entry to reuse.\<close>

fun scan_entries ::
  "u8 list \<Rightarrow> ShroomRestRateRoute \<Rightarrow> nat \<Rightarrow> (nat \<times> ShroomRestRateLimitEntry) option \<Rightarrow>
     ShroomRestRateLimitEntry list \<Rightarrow> nat + nat" where
  "scan_entries key route index replacement [] = Inr (case replacement of None \<Rightarrow> 0 | Some (i, e) \<Rightarrow> i)"
| "scan_entries key route index replacement (entry # entries) =
     (if re_active entry \<and> re_route entry = route \<and> re_key entry = key then Inl index
      else scan_entries key route (Suc index)
             (case replacement of
                None \<Rightarrow> Some (index, entry)
              | Some (i, e) \<Rightarrow> if \<not> re_active entry \<or> re_last_seen entry < re_last_seen e
                               then Some (index, entry) else replacement) entries)"

definition FindEntry ::
  "ShroomRestRateLimitEntry list \<Rightarrow> u8 list \<Rightarrow> ShroomRestRateRoute \<Rightarrow> nat \<times> ShroomRestRateLimitEntry list" where
  "FindEntry entries key route =
     (case scan_entries key route 0 None entries of
        Inl i \<Rightarrow> (i, entries)
      | Inr i \<Rightarrow> (i, entries[i := zero_entry\<lparr>re_key := take 63 key, re_route := route, re_active := True\<rparr>]))"

text \<open>A NULL limiter or key is \<open>None\<close>.\<close>

definition ShroomRestRateLimitCheck ::
  "ShroomRestRateLimitEntry list option \<Rightarrow> u8 list option \<Rightarrow> ShroomRestRateRoute \<Rightarrow> u64 \<Rightarrow>
     ShroomRestRateLimitResult \<times> ShroomRestRateLimitEntry list option" where
  "ShroomRestRateLimitCheck limiter key route now_seconds =
     (let result = \<lparr>rr_allowed = False, rr_limit = LimitForRoute route, rr_remaining = 0, rr_reset_at = 0,
                    rr_retry_after = 0\<rparr>
      in case (limiter, key) of
           (Some entries, Some (c # cs)) \<Rightarrow>
             (case FindEntry entries (c # cs) route of
                (i, entries) \<Rightarrow>
                  let entry = entries ! i;
                      retained = filter (\<lambda>a. now_seconds < a + RATE_WINDOW_SECONDS) (re_attempts entry)
                  in if unat (rr_limit result) \<le> length retained
                     then let reset_at = hd retained + RATE_WINDOW_SECONDS
                          in (result\<lparr>rr_reset_at := reset_at,
                                     rr_retry_after := (if now_seconds < reset_at then ucast (reset_at - now_seconds) else 1)\<rparr>,
                              Some (entries[i := entry\<lparr>re_attempts := retained, re_last_seen := now_seconds\<rparr>]))
                     else let attempts = retained @ [now_seconds]
                          in (result\<lparr>rr_allowed := True,
                                     rr_remaining := rr_limit result - word_of_nat (length attempts),
                                     rr_reset_at := hd attempts + RATE_WINDOW_SECONDS\<rparr>,
                              Some (entries[i := entry\<lparr>re_attempts := attempts, re_last_seen := now_seconds\<rparr>])))
         | _ \<Rightarrow> (result, limiter))"

section \<open>The limiter as a bounded map\<close>

text \<open>What the table means: for each client key and route it knows, when it was last seen and the
  times of its admitted requests.\<close>

type_synonym rate_key = "u8 list \<times> ShroomRestRateRoute"

type_synonym rate_map = "rate_key \<rightharpoonup> u64 \<times> u64 list"

abbreviation entry_key :: "ShroomRestRateLimitEntry \<Rightarrow> rate_key" where
  "entry_key e \<equiv> (re_key e, re_route e)"

abbreviation entry_value :: "ShroomRestRateLimitEntry \<Rightarrow> u64 \<times> u64 list" where
  "entry_value e \<equiv> (re_last_seen e, re_attempts e)"

definition table_map :: "ShroomRestRateLimitEntry list \<Rightarrow> rate_map" where
  "table_map entries k =
     map_option (\<lambda>i. entry_value (entries ! i)) (find_index (\<lambda>e. re_active e \<and> entry_key e = k) entries)"

definition attempts_in :: "rate_map \<Rightarrow> rate_key \<Rightarrow> u64 list" where
  "attempts_in m k = (case m k of None \<Rightarrow> [] | Some (seen, attempts) \<Rightarrow> attempts)"

text \<open>The promise: a client that is known, or for which there is room, forgets nobody; for any
  other one that was seen longest ago is forgotten, and nobody else.\<close>

definition evicted :: "rate_map \<Rightarrow> rate_key \<Rightarrow> rate_map \<Rightarrow> bool" where
  "evicted m k m' \<longleftrightarrow>
     (if k \<in> dom m \<or> card (dom m) < SHROOM_REST_RATE_LIMIT_KEYS then m' = m
      else \<exists>victim \<in> dom m. (\<forall>other \<in> dom m. fst (the (m victim)) \<le> fst (the (m other))) \<and> m' = m(victim := None))"

definition limiter_spec :: "rate_map \<Rightarrow> rate_key \<Rightarrow> u64 \<Rightarrow> bool \<Rightarrow> rate_map \<Rightarrow> bool" where
  "limiter_spec m k now allowed m2 \<longleftrightarrow>
     (\<exists>m'. evicted m k m' \<and>
       (let recent = filter (\<lambda>a. now < a + 60) (attempts_in m' k)
        in allowed = (length recent < unat (LimitForRoute (snd k))) \<and>
           m2 = m'(k \<mapsto> (now, if allowed then recent @ [now] else recent))))"

definition limiter_ok :: "ShroomRestRateLimitEntry list \<Rightarrow> bool" where
  "limiter_ok entries \<longleftrightarrow> length entries = 128 \<and> (\<forall>e \<in> set entries. \<not> re_active e \<longrightarrow> re_last_seen e = 0) \<and>
     (\<forall>i < 128. \<forall>j < 128. re_active (entries ! i) \<and> re_active (entries ! j) \<and>
        entry_key (entries ! i) = entry_key (entries ! j) \<longrightarrow> i = j)"

lemma limiter_unique:
  "limiter_ok entries \<Longrightarrow> i < 128 \<Longrightarrow> j < 128 \<Longrightarrow> re_active (entries ! i) \<Longrightarrow> re_active (entries ! j) \<Longrightarrow>
   entry_key (entries ! i) = entry_key (entries ! j) \<Longrightarrow> i = j"
  unfolding limiter_ok_def by blast

lemma table_map_iff:
  assumes "limiter_ok entries"
  shows "table_map entries k = Some v \<longleftrightarrow>
    (\<exists>i < 128. re_active (entries ! i) \<and> entry_key (entries ! i) = k \<and> v = entry_value (entries ! i))"
proof (cases "find_index (\<lambda>e. re_active e \<and> entry_key e = k) entries")
  case None
  then have "\<forall>e \<in> set entries. \<not> (re_active e \<and> entry_key e = k)" by simp
  then have "\<not> (re_active (entries ! i) \<and> entry_key (entries ! i) = k)" if "i < 128" for i
    using that assms by (simp add: limiter_ok_def)
  with None show ?thesis by (auto simp: table_map_def simp del: find_index_None)
next
  case (Some i)
  from find_index_SomeD [OF Some] assms have i: "i < 128" "re_active (entries ! i)" "entry_key (entries ! i) = k"
    by (simp_all add: limiter_ok_def)
  show ?thesis
  proof
    assume "table_map entries k = Some v"
    with Some i show "\<exists>i < 128. re_active (entries ! i) \<and> entry_key (entries ! i) = k \<and> v = entry_value (entries ! i)"
      by (auto simp: table_map_def)
  next
    assume "\<exists>i < 128. re_active (entries ! i) \<and> entry_key (entries ! i) = k \<and> v = entry_value (entries ! i)"
    then obtain j where j: "j < 128" "re_active (entries ! j)" "entry_key (entries ! j) = k" "v = entry_value (entries ! j)" by blast
    then have "j = i" using limiter_unique [OF assms j(1) i(1) j(2) i(2)] i(3) by simp
    with j(4) Some show "table_map entries k = Some v" by (simp add: table_map_def)
  qed
qed

lemma table_dom:
  "limiter_ok entries \<Longrightarrow> dom (table_map entries) = (\<lambda>i. entry_key (entries ! i)) ` {i. i < 128 \<and> re_active (entries ! i)}"
  by (auto simp: dom_def table_map_iff)

text \<open>The map is full when no entry is unused.\<close>

lemma table_full:
  assumes "limiter_ok entries"
  shows "finite (dom (table_map entries))" and "card (dom (table_map entries)) < 128 \<longleftrightarrow> (\<exists>e \<in> set entries. \<not> re_active e)"
proof -
  let ?A = "{i. i < 128 \<and> re_active (entries ! i)}"
  show "finite (dom (table_map entries))" by (simp add: table_dom [OF assms])
  have "inj_on (\<lambda>i. entry_key (entries ! i)) ?A"
    by (rule inj_onI, rule limiter_unique [OF assms]) auto
  then have card: "card (dom (table_map entries)) = card ?A" by (simp add: table_dom [OF assms] card_image)
  have sub: "?A \<subseteq> {..<128}" by auto
  show "card (dom (table_map entries)) < 128 \<longleftrightarrow> (\<exists>e \<in> set entries. \<not> re_active e)"
  proof
    assume "card (dom (table_map entries)) < 128"
    then have "?A \<noteq> {..<128}" using card by (metis card_lessThan less_irrefl)
    then obtain i where "i \<in> {..<128}" "i \<notin> ?A" using sub by blast
    then have "i < 128" "\<not> re_active (entries ! i)" by simp_all
    moreover have "i < length entries" using assms \<open>i < 128\<close> by (simp add: limiter_ok_def)
    ultimately show "\<exists>e \<in> set entries. \<not> re_active e" using nth_mem by blast
  next
    assume "\<exists>e \<in> set entries. \<not> re_active e"
    then obtain i where "i < length entries" "\<not> re_active (entries ! i)" by (metis in_set_conv_nth)
    then have "i < 128" "\<not> re_active (entries ! i)" using assms by (simp_all add: limiter_ok_def)
    then have "?A \<subset> {..<128}" using sub by blast
    from psubset_card_mono [OF _ this] show "card (dom (table_map entries)) < 128" using card by simp
  qed
qed

section \<open>The search\<close>

abbreviation hit :: "u8 list \<Rightarrow> ShroomRestRateRoute \<Rightarrow> ShroomRestRateLimitEntry \<Rightarrow> bool" where
  "hit key route e \<equiv> re_active e \<and> re_route e = route \<and> re_key e = key"

lemma scan_skip:
  "\<not> hit key route e \<Longrightarrow>
   \<exists>rep'. scan_entries key route n rep (e # entries) = scan_entries key route (Suc n) rep' entries"
  by (subst scan_entries.simps) (rule exI, subst if_not_P, blast, rule refl)

lemma scan_hit:
  "\<exists>e \<in> set entries. hit key route e \<Longrightarrow>
   \<exists>i < length entries. scan_entries key route n rep entries = Inl (n + i) \<and> hit key route (entries ! i)"
proof (induction entries arbitrary: n rep)
  case Nil
  then show ?case by simp
next
  case (Cons e entries)
  show ?case
  proof (cases "hit key route e")
    case True
    then show ?thesis by (intro exI [of _ 0]) simp
  next
    case False
    with Cons.prems have "\<exists>e \<in> set entries. hit key route e" by auto
    from Cons.IH [OF this, of "Suc n"] scan_skip [OF False, of n rep entries] obtain i where
      "i < length entries" "hit key route (entries ! i)" "scan_entries key route n rep (e # entries) = Inl (Suc n + i)"
      by metis
    then show ?thesis by (intro exI [of _ "Suc i"]) simp
  qed
qed

text \<open>Without the client, the search ends at an unused entry if there is one, and at one seen
  longest ago otherwise.  An unused entry has never been seen.\<close>

definition reusable :: "ShroomRestRateLimitEntry list \<Rightarrow> ShroomRestRateLimitEntry \<Rightarrow> bool" where
  "reusable entries r \<longleftrightarrow> (re_active r \<longrightarrow> (\<forall>e \<in> set entries. re_active e \<and> re_last_seen r \<le> re_last_seen e))"

lemma scan_rest:
  "\<forall>e \<in> set (r # entries). \<not> hit key route e \<and> (\<not> re_active e \<longrightarrow> re_last_seen e = 0) \<Longrightarrow>
   (\<exists>m. scan_entries key route n (Some (i, r)) entries = Inr m \<and>
     (m = i \<and> reusable (r # entries) r \<or>
      (\<exists>j < length entries. m = n + j \<and> reusable (r # entries) (entries ! j))))"
proof (induction entries arbitrary: n i r)
  case Nil
  then show ?case by (simp add: reusable_def)
next
  case (Cons e entries)
  show ?case
  proof (cases "\<not> re_active e \<or> re_last_seen e < re_last_seen r")
    case True
    with Cons.prems have step: "scan_entries key route n (Some (i, r)) (e # entries) = scan_entries key route (Suc n) (Some (n, e)) entries"
      by auto
    have keep: "reusable (r # e # entries) q" if "reusable (e # entries) q" for q
      using True that Cons.prems by (auto simp: reusable_def)
    from Cons.IH [of e "Suc n" n] Cons.prems obtain m where m: "scan_entries key route (Suc n) (Some (n, e)) entries = Inr m"
      "m = n \<and> reusable (e # entries) e \<or> (\<exists>j < length entries. m = Suc n + j \<and> reusable (e # entries) (entries ! j))" by auto
    from m(2) show ?thesis
    proof
      assume "m = n \<and> reusable (e # entries) e"
      with m(1) step keep show ?thesis by (intro exI [of _ n]) force
    next
      assume "\<exists>j < length entries. m = Suc n + j \<and> reusable (e # entries) (entries ! j)"
      then obtain j where "j < length entries" "m = Suc n + j" "reusable (e # entries) (entries ! j)" by blast
      with m(1) step keep show ?thesis by (intro exI [of _ m]) (auto intro!: exI [of _ "Suc j"])
    qed
  next
    case False
    with Cons.prems have step: "scan_entries key route n (Some (i, r)) (e # entries) = scan_entries key route (Suc n) (Some (i, r)) entries"
      by auto
    have keep: "reusable (r # e # entries) q" if "reusable (r # entries) q" for q
      using False that by (auto simp: reusable_def)
    from Cons.IH [of r "Suc n" i] Cons.prems obtain m where m: "scan_entries key route (Suc n) (Some (i, r)) entries = Inr m"
      "m = i \<and> reusable (r # entries) r \<or> (\<exists>j < length entries. m = Suc n + j \<and> reusable (r # entries) (entries ! j))" by auto
    from m(2) show ?thesis
    proof
      assume "m = i \<and> reusable (r # entries) r"
      with m(1) step keep show ?thesis by (intro exI [of _ i]) force
    next
      assume "\<exists>j < length entries. m = Suc n + j \<and> reusable (r # entries) (entries ! j)"
      then obtain j where "j < length entries" "m = Suc n + j" "reusable (r # entries) (entries ! j)" by blast
      with m(1) step keep show ?thesis by (intro exI [of _ m]) (auto intro!: exI [of _ "Suc j"])
    qed
  qed
qed

lemma scan_miss:
  assumes "\<forall>e \<in> set entries. \<not> hit key route e \<and> (\<not> re_active e \<longrightarrow> re_last_seen e = 0)" and "entries \<noteq> []"
  shows "\<exists>j < length entries. scan_entries key route 0 None entries = Inr j \<and> reusable entries (entries ! j)"
proof -
  obtain e rest where e: "entries = e # rest" using assms(2) by (cases entries) auto
  with assms(1) have "scan_entries key route 0 None entries = scan_entries key route 1 (Some (0, e)) rest" by auto
  with scan_rest [of e rest route key 1 0] assms(1) e show ?thesis by fastforce
qed

section \<open>One check\<close>

text \<open>Writing an entry whose key no other entry has.\<close>

lemma map_eq_by_some: "(\<And>k v. m k = Some v \<longleftrightarrow> m' k = Some v) \<Longrightarrow> m = m'"
  by (rule ext) (metis option.exhaust)

lemma update_entry:
  assumes ok: "limiter_ok entries" and i: "i < 128" and y: "re_active y"
    and only: "\<forall>j < 128. re_active (entries ! j) \<and> entry_key (entries ! j) = entry_key y \<longrightarrow> j = i"
  shows "limiter_ok (entries[i := y])"
    and "table_map (entries[i := y]) =
      (if re_active (entries ! i) then (table_map entries)(entry_key (entries ! i) := None) else table_map entries)
        (entry_key y \<mapsto> entry_value y)"
proof -
  have len: "length entries = 128" using ok by (simp add: limiter_ok_def)
  have upd: "entries[i := y] ! c = (if c = i then y else entries ! c)" for c
    using i len by (auto simp: nth_list_update)
  show ok': "limiter_ok (entries[i := y])"
    unfolding limiter_ok_def
  proof (intro conjI allI impI ballI)
    fix e assume "e \<in> set (entries[i := y])" "\<not> re_active e"
    then show "re_last_seen e = 0" using ok y by (auto simp: limiter_ok_def dest!: subsetD [OF set_update_subset_insert])
  next
    fix a b assume ab: "a < 128" "b < 128" "re_active (entries[i := y] ! a) \<and> re_active (entries[i := y] ! b) \<and>
      entry_key (entries[i := y] ! a) = entry_key (entries[i := y] ! b)"
    have other: "c = i" if "c < 128" "re_active (entries[i := y] ! c)" "entry_key (entries[i := y] ! c) = entry_key y" for c
    proof (rule ccontr)
      assume "c \<noteq> i"
      then have "entries[i := y] ! c = entries ! c" by simp
      with only that \<open>c \<noteq> i\<close> show False by simp
    qed
    have here: "entry_key (entries[i := y] ! i) = entry_key y" using i len by simp
    show "a = b"
    proof (cases "a = i \<or> b = i")
      case True
      then have "entry_key (entries[i := y] ! a) = entry_key y" "entry_key (entries[i := y] ! b) = entry_key y"
        using ab(3) here by auto
      with other [of a] other [of b] ab show ?thesis by blast
    next
      case False
      then have "entries[i := y] ! a = entries ! a" "entries[i := y] ! b = entries ! b" by auto
      with ab limiter_unique [OF ok ab(1,2)] show ?thesis by metis
    qed
  qed (simp add: len)
  let ?m = "if re_active (entries ! i) then (table_map entries)(entry_key (entries ! i) := None) else table_map entries"
  have rest: "?m k = Some v \<longleftrightarrow>
    (\<exists>j < 128. j \<noteq> i \<and> re_active (entries ! j) \<and> entry_key (entries ! j) = k \<and> v = entry_value (entries ! j))" for k v
  proof (cases "re_active (entries ! i) \<and> k = entry_key (entries ! i)")
    case True
    with limiter_unique [OF ok _ i] show ?thesis by auto
  next
    case False
    then have "?m k = Some v \<longleftrightarrow> table_map entries k = Some v" by (cases "re_active (entries ! i)") simp_all
    also note table_map_iff [OF ok]
    finally show ?thesis using False by blast
  qed
  have "table_map (entries[i := y]) k = Some v \<longleftrightarrow> (?m(entry_key y \<mapsto> entry_value y)) k = Some v" for k v
  proof (cases "k = entry_key y")
    case True
    have here: "table_map (entries[i := y]) (entry_key y) = Some (entry_value y)"
      unfolding table_map_iff [OF ok'] using i y len by (intro exI [of _ i]) simp
    with True show ?thesis by auto
  next
    case False
    then have "(?m(entry_key y \<mapsto> entry_value y)) k = Some v \<longleftrightarrow> ?m k = Some v" by simp
    also note rest
    also have "(\<exists>j < 128. j \<noteq> i \<and> re_active (entries ! j) \<and> entry_key (entries ! j) = k \<and> v = entry_value (entries ! j)) \<longleftrightarrow>
      table_map (entries[i := y]) k = Some v"
      unfolding table_map_iff [OF ok']
    proof (intro iffI; elim exE conjE)
      fix j assume j: "j < 128" "j \<noteq> i" "re_active (entries ! j)" "entry_key (entries ! j) = k" "v = entry_value (entries ! j)"
      then have "entries[i := y] ! j = entries ! j" by simp
      with j show "\<exists>j < 128. re_active (entries[i := y] ! j) \<and> entry_key (entries[i := y] ! j) = k \<and>
          v = entry_value (entries[i := y] ! j)" by metis
    next
      fix j assume j: "j < 128" "re_active (entries[i := y] ! j)" "entry_key (entries[i := y] ! j) = k"
        "v = entry_value (entries[i := y] ! j)"
      then have "j \<noteq> i" using False i len by auto
      then have "entries[i := y] ! j = entries ! j" by simp
      with j \<open>j \<noteq> i\<close> show "\<exists>j < 128. j \<noteq> i \<and> re_active (entries ! j) \<and> entry_key (entries ! j) = k \<and> v = entry_value (entries ! j)"
        by metis
    qed
    finally show ?thesis by blast
  qed
  then show "table_map (entries[i := y]) = ?m(entry_key y \<mapsto> entry_value y)" by (rule map_eq_by_some)
qed

text \<open>The entry that \<open>FindEntry\<close> returns, in the map that remembers what it should.\<close>

lemma FindEntry_found:
  assumes ok: "limiter_ok entries" and key: "length key \<le> 63"
  obtains i entries' m' where "FindEntry entries key route = (i, entries')" "i < 128" "limiter_ok entries'"
    "re_active (entries' ! i)" "entry_key (entries' ! i) = (key, route)"
    "evicted (table_map entries) (key, route) m'" "re_attempts (entries' ! i) = attempts_in m' (key, route)"
    "(table_map entries')((key, route) := None) = m'((key, route) := None)"
proof (cases "(key, route) \<in> dom (table_map entries)")
  case True
  then obtain j where "j < 128" "hit key route (entries ! j)" by (auto simp: table_dom [OF ok])
  then have "\<exists>e \<in> set entries. hit key route e" using ok nth_mem [of j entries] by (auto simp: limiter_ok_def)
  from scan_hit [OF this, of 0 None] obtain i where i: "i < 128" "scan_entries key route 0 None entries = Inl i"
    "hit key route (entries ! i)" using ok by (auto simp: limiter_ok_def)
  then have "table_map entries (key, route) = Some (entry_value (entries ! i))" by (auto simp: table_map_iff [OF ok])
  with that [of i entries "table_map entries"] ok True i show thesis
    by (simp add: FindEntry_def evicted_def attempts_in_def)
next
  case False
  have len: "length entries = 128" using ok by (simp add: limiter_ok_def)
  have none: "\<not> hit key route (entries ! j)" if "j < 128" for j using False that by (auto simp: table_dom [OF ok])
  have "\<forall>e \<in> set entries. \<not> hit key route e \<and> (\<not> re_active e \<longrightarrow> re_last_seen e = 0)"
  proof
    fix e assume "e \<in> set entries"
    then obtain j where "j < 128" "e = entries ! j" using len by (metis in_set_conv_nth)
    with none [of j] ok \<open>e \<in> set entries\<close> show "\<not> hit key route e \<and> (\<not> re_active e \<longrightarrow> re_last_seen e = 0)"
      unfolding limiter_ok_def by blast
  qed
  moreover have "entries \<noteq> []" using len by auto
  ultimately obtain j where j: "j < 128" "scan_entries key route 0 None entries = Inr j" "reusable entries (entries ! j)"
    using scan_miss [of entries route key] len by auto
  let ?y = "zero_entry\<lparr>re_key := take 63 key, re_route := route, re_active := True\<rparr>"
  let ?m' = "if re_active (entries ! j) then (table_map entries)(entry_key (entries ! j) := None) else table_map entries"
  have y: "re_active ?y" "entry_key ?y = (key, route)" "re_attempts ?y = []" using key by (simp_all add: zero_entry_def)
  have "\<forall>c < 128. re_active (entries ! c) \<and> entry_key (entries ! c) = entry_key ?y \<longrightarrow> c = j" using none unfolding y(2) by auto
  note up = update_entry [OF ok j(1) y(1) this]
  have "evicted (table_map entries) (key, route) ?m'"
  proof (cases "re_active (entries ! j)")
    case True
    with j(3) have all: "\<forall>e \<in> set entries. re_active e \<and> re_last_seen (entries ! j) \<le> re_last_seen e" by (simp add: reusable_def)
    then have "\<not> card (dom (table_map entries)) < 128" unfolding table_full(2) [OF ok] by blast
    moreover have seen: "table_map entries (entry_key (entries ! j)) = Some (entry_value (entries ! j))"
      using True j(1) by (auto simp: table_map_iff [OF ok])
    moreover have "re_last_seen (entries ! j) \<le> fst v" if "table_map entries other = Some v" for other v
      using that all len by (auto simp: table_map_iff [OF ok])
    ultimately show ?thesis using True False
      by (auto simp: evicted_def rate_constants intro!: bexI [of _ "entry_key (entries ! j)"])
  next
    case unused: False
    then have "card (dom (table_map entries)) < 128" unfolding table_full(2) [OF ok] using j(1) len by (metis nth_mem)
    with unused show ?thesis by (simp add: evicted_def rate_constants)
  qed
  moreover have "?m' (key, route) = None"
  proof -
    have "table_map entries (key, route) = None" using False unfolding domIff by blast
    then show ?thesis by simp
  qed
  ultimately show thesis using that [of j "entries[j := ?y]" ?m'] up j y len
    by (simp add: FindEntry_def attempts_in_def)
qed

lemma check_refines:
  assumes ok: "limiter_ok entries" and key: "key \<noteq> []" "length key \<le> 63"
  shows "\<exists>result entries'. ShroomRestRateLimitCheck (Some entries) (Some key) route now = (result, Some entries') \<and>
    limiter_ok entries' \<and> limiter_spec (table_map entries) (key, route) now (rr_allowed result) (table_map entries')"
proof -
  obtain c cs where c: "key = c # cs" using key(1) by (cases key) auto
  obtain i e1 m' where find: "FindEntry entries key route = (i, e1)" "i < 128" "limiter_ok e1"
    "re_active (e1 ! i)" "entry_key (e1 ! i) = (key, route)" "evicted (table_map entries) (key, route) m'"
    "re_attempts (e1 ! i) = attempts_in m' (key, route)" "(table_map e1)((key, route) := None) = m'((key, route) := None)"
    using FindEntry_found [OF ok key(2)] .
  let ?recent = "filter (\<lambda>a. now < a + 60) (attempts_in m' (key, route))"
  let ?new = "\<lambda>attempts. (e1 ! i)\<lparr>re_attempts := attempts, re_last_seen := now\<rparr>"
  have up: "limiter_ok (e1[i := ?new attempts])" "table_map (e1[i := ?new attempts]) = m'((key, route) \<mapsto> (now, attempts))"
    for attempts
  proof -
    have only: "\<forall>j < 128. re_active (e1 ! j) \<and> entry_key (e1 ! j) = entry_key (?new attempts) \<longrightarrow> j = i"
      using limiter_unique [OF find(3) _ find(2) _ find(4)] by simp
    have active: "re_active (?new attempts)" using find(4) by simp
    note u = update_entry [OF find(3,2) active only]
    show "limiter_ok (e1[i := ?new attempts])" by (rule u(1))
    have "table_map (e1[i := ?new attempts]) = ((table_map e1)((key, route) := None))((key, route) \<mapsto> (now, attempts))"
      using u(2) find(4,5) by simp
    then show "table_map (e1[i := ?new attempts]) = m'((key, route) \<mapsto> (now, attempts))" unfolding find(8) by simp
  qed
  show ?thesis
  proof (cases "unat (LimitForRoute route) \<le> length ?recent")
    case True
    with find(1,7) have "\<exists>result. ShroomRestRateLimitCheck (Some entries) (Some key) route now = (result, Some (e1[i := ?new ?recent])) \<and>
        \<not> rr_allowed result"
      unfolding c by (simp add: ShroomRestRateLimitCheck_def rate_constants Let_def)
    moreover have "limiter_spec (table_map entries) (key, route) now False (m'((key, route) \<mapsto> (now, ?recent)))"
      unfolding limiter_spec_def using True find(6) by (intro exI [of _ m']) (simp add: Let_def)
    ultimately show ?thesis using up [of ?recent] by auto
  next
    case False
    with find(1,7) have "\<exists>result. ShroomRestRateLimitCheck (Some entries) (Some key) route now =
        (result, Some (e1[i := ?new (?recent @ [now])])) \<and> rr_allowed result"
      unfolding c by (simp add: ShroomRestRateLimitCheck_def rate_constants Let_def)
    moreover have "limiter_spec (table_map entries) (key, route) now True (m'((key, route) \<mapsto> (now, ?recent @ [now])))"
      unfolding limiter_spec_def using False find(6) by (intro exI [of _ m']) (simp add: Let_def)
    ultimately show ?thesis using up [of "?recent @ [now]"] by auto
  qed
qed

text \<open>C29. The 128 entries implement a bounded map from client keys and routes to the times of their
  recent requests.  In a consistent table, and for a key as its callers build it (not empty, at most
  63 bytes), a check answers as the map does: the request is admitted when fewer than the route's
  limit were admitted in the last 60 seconds, and is remembered.  A client that is known, or for which
  an entry is unused, leaves the other clients as they are; when the table is full, a new client
  makes exactly one other one be forgotten, the one seen longest ago.  The table stays consistent.\<close>

theorem rest_limiter_refines_map:
  assumes ok: "limiter_ok entries" and key: "key \<noteq> []" "length key \<le> 63"
  shows "\<exists>result entries'. ShroomRestRateLimitCheck (Some entries) (Some key) route now = (result, Some entries') \<and>
    limiter_ok entries' \<and> limiter_spec (table_map entries) (key, route) now (rr_allowed result) (table_map entries')"
  by (rule check_refines [OF ok key])

definition witness_table :: "ShroomRestRateLimitEntry list" where
  "witness_table = (replicate 128 zero_entry)[5 := zero_entry\<lparr>re_key := [105], re_route := SHROOM_REST_RATE_LOGIN,
     re_attempts := [10, 20, 30, 40, 50], re_last_seen := 50, re_active := True\<rparr>]"

text \<open>A table full of clients: the one in entry \<open>i\<close> has the key \<open>i + 1\<close> and was last seen at \<open>1000 + i\<close>.\<close>

definition full_entry :: "nat \<Rightarrow> ShroomRestRateLimitEntry" where
  "full_entry i = \<lparr>re_key = [word_of_nat (i + 1)], re_route = SHROOM_REST_RATE_LOGIN,
     re_attempts = [1000 + word_of_nat i], re_last_seen = 1000 + word_of_nat i, re_active = True\<rparr>"

definition full_table :: "ShroomRestRateLimitEntry list" where
  "full_table = map full_entry [0..<128]"

lemma limiter_ok_init: "limiter_ok ShroomRestRateLimiterInit" "table_map ShroomRestRateLimiterInit = Map.empty"
proof -
  show ok: "limiter_ok ShroomRestRateLimiterInit"
    by (auto simp: limiter_ok_def ShroomRestRateLimiterInit_def rate_constants zero_entry_def)
  have "table_map ShroomRestRateLimiterInit k \<noteq> Some v" for k v
  proof
    assume "table_map ShroomRestRateLimiterInit k = Some v"
    then obtain i where "i < 128" "re_active (ShroomRestRateLimiterInit ! i)" unfolding table_map_iff [OF ok] by blast
    then show False by (simp add: ShroomRestRateLimiterInit_def rate_constants zero_entry_def)
  qed
  then show "table_map ShroomRestRateLimiterInit = Map.empty" by (intro map_eq_by_some) auto
qed

lemma witness_table_ok: "limiter_ok witness_table"
  "table_map witness_table = [([105], SHROOM_REST_RATE_LOGIN) \<mapsto> (50, [10, 20, 30, 40, 50])]"
proof -
  let ?y = "zero_entry\<lparr>re_key := [105], re_route := SHROOM_REST_RATE_LOGIN,
     re_attempts := [10, 20, 30, 40, 50], re_last_seen := 50, re_active := True\<rparr>"
  have i: "(5 :: nat) < 128" "re_active ?y" by simp_all
  have unused: "\<not> re_active (ShroomRestRateLimiterInit ! j)" if "j < 128" for j
    using that by (simp add: zero_entry_def ShroomRestRateLimiterInit_def rate_constants)
  then have "\<forall>j < 128. re_active (ShroomRestRateLimiterInit ! j) \<and> entry_key (ShroomRestRateLimiterInit ! j) = entry_key ?y \<longrightarrow> j = 5"
    by blast
  note up = update_entry [OF limiter_ok_init(1) i this]
  have t: "witness_table = ShroomRestRateLimiterInit[5 := ?y]"
    by (simp add: witness_table_def ShroomRestRateLimiterInit_def rate_constants)
  show "limiter_ok witness_table" unfolding t by (rule up(1))
  show "table_map witness_table = [([105], SHROOM_REST_RATE_LOGIN) \<mapsto> (50, [10, 20, 30, 40, 50])]"
    unfolding t up(2) using unused [of 5] by (simp add: limiter_ok_init(2))
qed

lemma small_byte: "i < 128 \<Longrightarrow> unat (word_of_nat (i + 1) :: u8) = i + 1"
  unfolding unat_of_nat by simp

lemma full_table_ok:
  shows "limiter_ok full_table" and "i < 128 \<Longrightarrow> table_map full_table ([word_of_nat (i + 1)], SHROOM_REST_RATE_LOGIN) =
      Some (1000 + word_of_nat i, [1000 + word_of_nat i])"
    and "card (dom (table_map full_table)) \<ge> 128"
    and "k \<in> dom (table_map full_table) \<Longrightarrow> \<exists>i < 128. k = ([word_of_nat (i + 1)], SHROOM_REST_RATE_LOGIN)"
proof -
  have inj: "i = j" if "(word_of_nat (i + 1) :: u8) = word_of_nat (j + 1)" "i < 128" "j < 128" for i j
  proof -
    from that(1) have "unat (word_of_nat (i + 1) :: u8) = unat (word_of_nat (j + 1) :: u8)" by simp
    with small_byte that(2,3) show ?thesis by simp
  qed
  have at: "full_table ! i = full_entry i" if "i < 128" for i using that by (simp add: full_table_def)
  show ok: "limiter_ok full_table"
    unfolding limiter_ok_def
  proof (intro conjI allI impI)
    fix i j :: nat assume "i < 128" "j < 128" "re_active (full_table ! i) \<and> re_active (full_table ! j) \<and>
      entry_key (full_table ! i) = entry_key (full_table ! j)"
    with inj [of i j] show "i = j" by (simp add: at full_entry_def)
  qed (auto simp: full_table_def full_entry_def)
  show "table_map full_table ([word_of_nat (i + 1)], SHROOM_REST_RATE_LOGIN) =
      Some (1000 + word_of_nat i, [1000 + word_of_nat i])" if "i < 128"
    unfolding table_map_iff [OF ok] using that by (intro exI [of _ i]) (simp add: at full_entry_def)
  show "card (dom (table_map full_table)) \<ge> 128"
    using table_full(2) [OF ok] by (auto simp: full_table_def full_entry_def)
  show "\<exists>i < 128. k = ([word_of_nat (i + 1)], SHROOM_REST_RATE_LOGIN)" if "k \<in> dom (table_map full_table)"
    using that by (auto simp: table_dom [OF ok] at full_entry_def)
qed

text \<open>A client with five logins in the last minute is refused the sixth, and admitted once the first is
  a minute old; in the full table a new client takes the place of the one seen longest ago.\<close>

theorem rest_limiter_refines_map_witness:
  "(\<exists>result entries. ShroomRestRateLimitCheck (Some witness_table) (Some [105]) SHROOM_REST_RATE_LOGIN 69 = (result, Some entries) \<and>
     \<not> rr_allowed result) \<and>
   (\<exists>result entries. ShroomRestRateLimitCheck (Some witness_table) (Some [105]) SHROOM_REST_RATE_LOGIN 70 = (result, Some entries) \<and>
     rr_allowed result) \<and>
   (\<exists>result entries. ShroomRestRateLimitCheck (Some full_table) (Some [200]) SHROOM_REST_RATE_LOGIN 2000 = (result, Some entries) \<and>
     rr_allowed result \<and> table_map entries = (table_map full_table)
       (([1], SHROOM_REST_RATE_LOGIN) := None, ([200], SHROOM_REST_RATE_LOGIN) := Some (2000, [2000])))"
proof -
  have key: "[105 :: u8] \<noteq> []" "length [105 :: u8] \<le> 63" "[200 :: u8] \<noteq> []" "length [200 :: u8] \<le> 63" by simp_all
  obtain result entries where full: "ShroomRestRateLimitCheck (Some full_table) (Some [200]) SHROOM_REST_RATE_LOGIN 2000 = (result, Some entries)"
    "limiter_spec (table_map full_table) ([200], SHROOM_REST_RATE_LOGIN) 2000 (rr_allowed result) (table_map entries)"
    using rest_limiter_refines_map [OF full_table_ok(1) key(3,4), of SHROOM_REST_RATE_LOGIN 2000] by blast
  have new: "([200], SHROOM_REST_RATE_LOGIN) \<notin> dom (table_map full_table)"
  proof
    assume "([200], SHROOM_REST_RATE_LOGIN) \<in> dom (table_map full_table)"
    from full_table_ok(4) [OF this] obtain i where i: "i < 128" "(word_of_nat (i + 1) :: u8) = 200" by auto
    then have "unat (word_of_nat (i + 1) :: u8) = 200" by simp
    with small_byte [OF i(1)] i(1) show False by simp
  qed
  have oldest: "victim = ([1], SHROOM_REST_RATE_LOGIN)"
    if "victim \<in> dom (table_map full_table)"
      "\<forall>other \<in> dom (table_map full_table). fst (the (table_map full_table victim)) \<le> fst (the (table_map full_table other))"
    for victim
  proof -
    from full_table_ok(4) [OF that(1)] obtain i where
      i: "i < 128" "victim = ([word_of_nat (i + 1)], SHROOM_REST_RATE_LOGIN)" by blast
    have "table_map full_table ([1], SHROOM_REST_RATE_LOGIN) = Some (1000, [1000])" using full_table_ok(2) [of 0] by simp
    then have "fst (the (table_map full_table victim)) \<le> 1000" using that(2) by force
    then have "(1000 + word_of_nat i :: u64) \<le> 1000" using full_table_ok(2) [OF i(1)] i(2) by simp
    with i(1) have "i = 0" by (simp add: word_le_nat_alt unat_word_ariths unat_of_nat)
    with i(2) show ?thesis by simp
  qed
  obtain m' where m': "evicted (table_map full_table) ([200], SHROOM_REST_RATE_LOGIN) m'"
    "rr_allowed result = (length (filter (\<lambda>a. 2000 < a + 60) (attempts_in m' ([200], SHROOM_REST_RATE_LOGIN))) < 5)"
    "table_map entries = m'(([200], SHROOM_REST_RATE_LOGIN) \<mapsto>
       (2000, if rr_allowed result then filter (\<lambda>a. 2000 < a + 60) (attempts_in m' ([200], SHROOM_REST_RATE_LOGIN)) @ [2000]
              else filter (\<lambda>a. 2000 < a + 60) (attempts_in m' ([200], SHROOM_REST_RATE_LOGIN))))"
    using full(2) by (auto simp: limiter_spec_def Let_def LimitForRoute_def)
  have "m' = (table_map full_table)(([1], SHROOM_REST_RATE_LOGIN) := None)"
    using m'(1) new full_table_ok(3) oldest by (auto simp: evicted_def rate_constants)
  moreover have "table_map full_table ([200], SHROOM_REST_RATE_LOGIN) = None" using new unfolding domIff by blast
  moreover have "attempts_in m' ([200], SHROOM_REST_RATE_LOGIN) = []"
    using calculation by (simp add: attempts_in_def)
  ultimately have "rr_allowed result \<and> table_map entries = (table_map full_table)
       (([1], SHROOM_REST_RATE_LOGIN) := None, ([200], SHROOM_REST_RATE_LOGIN) := Some (2000, [2000]))"
    using m'(2,3) by simp
  with full(1) rest_limiter_refines_map [OF witness_table_ok(1) key(1,2), of SHROOM_REST_RATE_LOGIN 69]
    rest_limiter_refines_map [OF witness_table_ok(1) key(1,2), of SHROOM_REST_RATE_LOGIN 70]
  show ?thesis
    by (auto simp: limiter_spec_def evicted_def attempts_in_def witness_table_ok LimitForRoute_def Let_def)
qed

section \<open>The limit over any minute\<close>

fun limiter_run :: "ShroomRestRateLimitEntry list \<Rightarrow> (u8 list \<times> ShroomRestRateRoute \<times> u64) list \<Rightarrow> bool list" where
  "limiter_run entries [] = []"
| "limiter_run entries ((key, route, now) # calls) =
     (case ShroomRestRateLimitCheck (Some entries) (Some key) route now of
        (result, Some entries) \<Rightarrow> rr_allowed result # limiter_run entries calls
      | (result, None) \<Rightarrow> [rr_allowed result])"

text \<open>The times at which a client was admitted.\<close>

fun admitted_times :: "rate_key \<Rightarrow> (u8 list \<times> ShroomRestRateRoute \<times> u64) list \<Rightarrow> bool list \<Rightarrow> nat list" where
  "admitted_times k ((key, route, now) # calls) (ok # oks) =
     (if ok \<and> (key, route) = k then unat now # admitted_times k calls oks else admitted_times k calls oks)"
| "admitted_times k _ _ = []"

abbreviation in_minute :: "nat \<Rightarrow> nat \<Rightarrow> bool" where
  "in_minute t a \<equiv> t < a + 60 \<and> a \<le> t"

lemma recent_words:
  assumes "\<forall>a \<in> set attempts. unat a + 60 < 2 ^ 64"
  shows "filter (\<lambda>a. (now :: u64) < a + 60) attempts = filter (\<lambda>a. unat now < unat a + 60) attempts"
proof (rule filter_cong [OF refl])
  fix a assume "a \<in> set attempts"
  with assms have "unat a + unat (60 :: u64) < 2 ^ LENGTH(64)" by simp
  then have "unat (a + 60) = unat a + 60" by (simp add: unat_word_ariths)
  then show "now < a + 60 \<longleftrightarrow> unat now < unat a + 60" by (simp add: word_less_nat_alt)
qed

lemma admitted_times_ge:
  "\<forall>(key, route, now) \<in> set calls. n \<le> unat now \<Longrightarrow> a \<in> set (admitted_times k calls oks) \<Longrightarrow> n \<le> a"
  by (induction k calls oks rule: admitted_times.induct) (auto split: if_splits)

text \<open>What the map remembers, with what is admitted later, never exceeds the limit in a minute.\<close>

lemma minute_bound:
  assumes "length recent \<le> L" and "length attempts \<le> L" and "recent = filter (\<lambda>a. n < a + 60) attempts"
    and "\<forall>a \<in> set later. n \<le> a" and "count_if (in_minute t) (recent @ later) \<le> L"
  shows "count_if (in_minute t) (attempts @ later) \<le> L"
proof (cases "t < n")
  case True
  then have "count_if (in_minute t) later = 0" using assms(4) by (fastforce simp: count_if_def filter_empty_conv)
  with assms(2) count_if_le_length [of "in_minute t" attempts] show ?thesis by simp
next
  case False
  then have "count_if (in_minute t) attempts = count_if (in_minute t) recent"
    unfolding assms(3) count_if_def filter_filter by (intro arg_cong [of _ _ length] filter_cong) auto
  with assms(5) show ?thesis by simp
qed

text \<open>What a table may hold at a time: no later request, and never more than the limit.\<close>

definition map_good :: "rate_map \<Rightarrow> nat \<Rightarrow> bool" where
  "map_good m n \<longleftrightarrow> (\<forall>k seen attempts. m k = Some (seen, attempts) \<longrightarrow>
     unat seen \<le> n \<and> unat seen + 60 < 2 ^ 64 \<and> (\<forall>a \<in> set attempts. unat a \<le> unat seen) \<and>
     length attempts \<le> unat (LimitForRoute (snd k)))"

text \<open>The clients that were seen in the minute that ends at a time.\<close>

definition map_seen :: "rate_map \<Rightarrow> nat \<Rightarrow> rate_key set" where
  "map_seen m t = {k. \<exists>seen attempts. m k = Some (seen, attempts) \<and> in_minute t (unat seen)}"

definition calls_seen :: "(u8 list \<times> ShroomRestRateRoute \<times> u64) list \<Rightarrow> nat \<Rightarrow> rate_key set" where
  "calls_seen calls t = {(key, route) |key route now. (key, route, now) \<in> set calls \<and> in_minute t (unat now)}"

lemma map_goodD:
  assumes "map_good m n" and "m k = Some (seen, attempts)"
  shows "unat seen \<le> n" and "unat seen + 60 < 2 ^ 64" and "a \<in> set attempts \<Longrightarrow> unat a \<le> unat seen"
    and "length attempts \<le> unat (LimitForRoute (snd k))"
  using assms unfolding map_good_def by blast+

lemma map_good_attempts:
  assumes good: "map_good m n" and a: "a \<in> set (attempts_in m k)"
  shows "unat a \<le> n" and "unat a + 60 < 2 ^ 64"
proof -
  obtain seen attempts where v: "m k = Some (seen, attempts)" "a \<in> set attempts"
    using a by (cases "m k") (auto simp: attempts_in_def)
  note d = map_goodD [OF good v(1)]
  show "unat a \<le> n" "unat a + 60 < 2 ^ 64" using d(1,2) d(3) [OF v(2)] by linarith+
qed

lemma map_good_short: "map_good m n \<Longrightarrow> length (attempts_in m k) \<le> unat (LimitForRoute (snd k))"
  by (cases "m k") (auto simp: attempts_in_def dest: map_goodD(4))

text \<open>Who is forgotten was not seen for a minute, if the last minute saw at most 128 clients.\<close>

lemma evicted_expired:
  assumes "evicted m k m'" and "map_good m n" and "finite (dom m)" and "card (insert k (map_seen m n)) \<le> 128"
  shows "(m' = m \<or> k \<notin> dom m) \<and> (\<forall>x. m' x = m x \<or> m' x = None \<and> (\<forall>a \<in> set (attempts_in m x). unat a + 60 \<le> n))"
proof (cases "k \<in> dom m \<or> card (dom m) < 128")
  case True
  with assms(1) show ?thesis by (simp add: evicted_def rate_constants)
next
  case False
  with assms(1) obtain victim where v: "victim \<in> dom m"
    "\<forall>other \<in> dom m. fst (the (m victim)) \<le> fst (the (m other))" "m' = m(victim := None)"
    by (auto simp: evicted_def rate_constants)
  obtain seen attempts where s: "m victim = Some (seen, attempts)" using v(1) by auto
  have "unat seen + 60 \<le> n"
  proof (rule ccontr)
    assume recent: "\<not> unat seen + 60 \<le> n"
    have "dom m \<subseteq> map_seen m n"
    proof
      fix x assume x: "x \<in> dom m"
      then obtain xs xa where xm: "m x = Some (xs, xa)" by auto
      from v(2) x s xm have "seen \<le> xs" by force
      moreover have "unat xs \<le> n" using assms(2) xm unfolding map_good_def by blast
      ultimately show "x \<in> map_seen m n" using recent xm by (auto simp: map_seen_def word_le_nat_alt)
    qed
    moreover have "map_seen m n \<subseteq> dom m" by (auto simp: map_seen_def)
    ultimately have "map_seen m n = dom m" by blast
    then have "card (insert k (map_seen m n)) = Suc (card (dom m))" using False assms(3) by simp
    then show False using False assms(4) by simp
  qed
  moreover have "unat a \<le> unat seen" if "a \<in> set attempts" for a using assms(2) s that unfolding map_good_def by blast
  ultimately have "\<forall>a \<in> set (attempts_in m victim). unat a + 60 \<le> n"
    using s by (fastforce simp: attempts_in_def)
  with v(3) False show ?thesis by simp
qed

text \<open>One check, seen by the client it is for and by the others.\<close>

lemma spec_step:
  assumes check: "limiter_spec m k now allowed m2" and good: "map_good m n" and n: "n \<le> unat now" "unat now + 60 < 2 ^ 64"
    and fin: "finite (dom m)" and few: "card (insert k (map_seen m (unat now))) \<le> 128"
  shows "map_good m2 (unat now)" and "map_seen m2 t \<subseteq> map_seen m t \<union> (if in_minute t (unat now) then {k} else {})"
    and "x \<noteq> k \<Longrightarrow> attempts_in m2 x = attempts_in m x \<or>
      attempts_in m2 x = [] \<and> (\<forall>a \<in> set (attempts_in m x). unat a + 60 \<le> unat now)"
    and "allowed \<longleftrightarrow> length (filter (\<lambda>a. unat now < unat a + 60) (attempts_in m k)) < unat (LimitForRoute (snd k))"
    and "attempts_in m2 k = filter (\<lambda>a. unat now < unat a + 60) (attempts_in m k) @ (if allowed then [now] else [])"
proof -
  obtain m' where m': "evicted m k m'"
    "allowed = (length (filter (\<lambda>a. now < a + 60) (attempts_in m' k)) < unat (LimitForRoute (snd k)))"
    "m2 = m'(k \<mapsto> (now, if allowed then filter (\<lambda>a. now < a + 60) (attempts_in m' k) @ [now]
       else filter (\<lambda>a. now < a + 60) (attempts_in m' k)))"
    using check by (auto simp: limiter_spec_def Let_def)
  have good': "map_good m (unat now)" using good n(1) unfolding map_good_def by (meson order_trans)
  note ev = evicted_expired [OF m'(1) good' fin few]
  have "m' k = m k" using ev unfolding domIff by metis
  then have same: "attempts_in m' k = attempts_in m k" by (simp add: attempts_in_def)
  have recent: "filter (\<lambda>a. now < a + 60) (attempts_in m' k) = filter (\<lambda>a. unat now < unat a + 60) (attempts_in m k)"
    unfolding same by (rule recent_words) (use map_good_attempts(2) [OF good] in blast)
  show allowed: "allowed \<longleftrightarrow> length (filter (\<lambda>a. unat now < unat a + 60) (attempts_in m k)) < unat (LimitForRoute (snd k))"
    using m'(2) unfolding recent .
  have m2: "m2 = m'(k \<mapsto> (now, filter (\<lambda>a. unat now < unat a + 60) (attempts_in m k) @ (if allowed then [now] else [])))"
    using m'(3) unfolding recent by simp
  then show "attempts_in m2 k = filter (\<lambda>a. unat now < unat a + 60) (attempts_in m k) @ (if allowed then [now] else [])"
    by (simp add: attempts_in_def)
  have entry: "length (filter (\<lambda>a. unat now < unat a + 60) (attempts_in m k) @ (if allowed then [now] else [])) \<le> unat (LimitForRoute (snd k))"
    using allowed map_good_short [OF good, of k] length_filter_le [of "\<lambda>a. unat now < unat a + 60" "attempts_in m k"]
    by (auto simp del: length_filter_le)
  have old: "\<forall>a \<in> set (attempts_in m k). unat a \<le> unat now"
    using map_good_attempts(1) [OF good'] by blast
  have other: "m x = Some v" if "m' x = Some v" for x v using ev that by (metis option.distinct(1))
  show "map_good m2 (unat now)"
    unfolding map_good_def
  proof (intro allI impI)
    fix x seen attempts assume x: "m2 x = Some (seen, attempts)"
    show "unat seen \<le> unat now \<and> unat seen + 60 < 2 ^ 64 \<and> (\<forall>a \<in> set attempts. unat a \<le> unat seen) \<and>
        length attempts \<le> unat (LimitForRoute (snd x))"
    proof (cases "x = k")
      case True
      with x m2 have "seen = now" "attempts = filter (\<lambda>a. unat now < unat a + 60) (attempts_in m k) @ (if allowed then [now] else [])"
        by auto
      with n(2) old entry True show ?thesis by auto
    next
      case False
      with x m2 other [of x] have "m x = Some (seen, attempts)" by simp
      with good' show ?thesis unfolding map_good_def by blast
    qed
  qed
  show "map_seen m2 t \<subseteq> map_seen m t \<union> (if in_minute t (unat now) then {k} else {})"
    using m2 other by (auto simp: map_seen_def split: if_splits)
  show "attempts_in m2 x = attempts_in m x \<or>
      attempts_in m2 x = [] \<and> (\<forall>a \<in> set (attempts_in m x). unat a + 60 \<le> unat now)" if "x \<noteq> k"
  proof -
    have "m2 x = m' x" using m2 that by simp
    moreover have "m' x = m x \<or> m' x = None \<and> (\<forall>a \<in> set (attempts_in m x). unat a + 60 \<le> unat now)"
      by (rule spec [OF conjunct2 [OF ev]])
    ultimately show ?thesis unfolding attempts_in_def by (elim disjE conjE) simp_all
  qed
qed

lemma run_minutes:
  assumes "limiter_ok entries" and "map_good (table_map entries) n"
    and "\<forall>(key, route, now) \<in> set calls. key \<noteq> [] \<and> length key \<le> 63 \<and> n \<le> unat now \<and> unat now + 60 < 2 ^ 64"
    and "sorted (map (\<lambda>(key, route, now). unat now) calls)"
    and "\<forall>t. card (map_seen (table_map entries) t \<union> calls_seen calls t) \<le> 128"
  shows "count_if (in_minute t) (map unat (attempts_in (table_map entries) k) @ admitted_times k calls (limiter_run entries calls))
    \<le> unat (LimitForRoute (snd k))"
  using assms
proof (induction calls arbitrary: entries n)
  case Nil
  then show ?case
    using count_if_le_length [of "in_minute t" "map unat (attempts_in (table_map entries) k)"] map_good_short [OF Nil.prems(2), of k]
    by simp
next
  case (Cons c calls)
  obtain key route now where c: "c = (key, route, now)" by (cases c)
  have call: "key \<noteq> []" "length key \<le> 63" "n \<le> unat now" "unat now + 60 < 2 ^ 64" using Cons.prems(3) c by auto
  obtain result e2 where check: "ShroomRestRateLimitCheck (Some entries) (Some key) route now = (result, Some e2)"
    "limiter_ok e2" "limiter_spec (table_map entries) (key, route) now (rr_allowed result) (table_map e2)"
    using check_refines [OF Cons.prems(1) call(1,2)] by metis
  let ?m = "table_map entries" and ?m2 = "table_map e2" and ?L = "unat (LimitForRoute (snd k))"
  have fin: "finite (map_seen ?m t \<union> calls_seen (c # calls) t)" for t
  proof -
    have "calls_seen (c # calls) t \<subseteq> (\<lambda>(key, route, now). (key, route)) ` set (c # calls)" by (force simp: calls_seen_def)
    moreover have "map_seen ?m t \<subseteq> dom ?m" by (auto simp: map_seen_def)
    ultimately show ?thesis using table_full(1) [OF Cons.prems(1)] by (meson finite_UnI finite_subset finite_imageI List.finite_set)
  qed
  have "insert (key, route) (map_seen ?m (unat now)) \<subseteq> map_seen ?m (unat now) \<union> calls_seen (c # calls) (unat now)"
    by (auto simp: calls_seen_def c)
  then have few: "card (insert (key, route) (map_seen ?m (unat now))) \<le> 128"
    using card_mono [OF fin] Cons.prems(5) by (meson order_trans)
  note step = spec_step [OF check(3) Cons.prems(2) call(3,4) table_full(1) [OF Cons.prems(1)] few]
  have sub: "map_seen ?m2 t \<union> calls_seen calls t \<subseteq> map_seen ?m t \<union> calls_seen (c # calls) t" for t
    using step(2) [of t] by (fastforce simp: calls_seen_def c split: if_splits)
  have "\<forall>t. card (map_seen ?m2 t \<union> calls_seen calls t) \<le> 128"
    using card_mono [OF fin sub] Cons.prems(5) by (meson order_trans)
  moreover have later: "\<forall>(key, route, t) \<in> set calls. unat now \<le> unat t" using Cons.prems(4) c by fastforce
  moreover have "\<forall>(key, route, t) \<in> set calls. key \<noteq> [] \<and> length key \<le> 63 \<and> unat now \<le> unat t \<and> unat t + 60 < 2 ^ 64"
    using Cons.prems(3) later by fastforce
  ultimately have ih: "count_if (in_minute t) (map unat (attempts_in ?m2 k) @ admitted_times k calls (limiter_run e2 calls)) \<le> ?L"
    using Cons.IH [OF check(2) step(1)] Cons.prems(4) by simp
  let ?later = "if rr_allowed result \<and> (key, route) = k then unat now # admitted_times k calls (limiter_run e2 calls)
    else admitted_times k calls (limiter_run e2 calls)"
  let ?kept = "filter (\<lambda>a. unat now < a + 60) (map unat (attempts_in ?m k))"
  have from_now: "\<forall>a \<in> set ?later. unat now \<le> a" using admitted_times_ge [OF later] by auto
  have A: "length (map unat (attempts_in ?m k)) \<le> ?L" using map_good_short [OF Cons.prems(2), of k] by simp
  then have kept: "length ?kept \<le> ?L" using length_filter_le order_trans by blast
  have "count_if (in_minute t) (?kept @ ?later) \<le> ?L \<or> attempts_in ?m2 k = attempts_in ?m k \<and> (key, route) \<noteq> k"
  proof (cases "(key, route) = k")
    case True
    have "map unat (attempts_in ?m2 k) = ?kept @ (if rr_allowed result then [unat now] else [])"
      using step(5) True by (simp add: filter_map comp_def)
    with ih True show ?thesis by auto
  next
    case False
    from step(3) [of k] False consider "attempts_in ?m2 k = attempts_in ?m k"
      | "attempts_in ?m2 k = []" "\<forall>a \<in> set (attempts_in ?m k). unat a + 60 \<le> unat now" by blast
    then show ?thesis
    proof cases
      case 2
      then have "?kept = []" by (auto simp: filter_empty_conv not_less)
      with ih 2 False show ?thesis by simp
    qed (use False in simp)
  qed
  then have "count_if (in_minute t) (map unat (attempts_in ?m k) @ ?later) \<le> ?L"
  proof (elim disjE conjE)
    assume "count_if (in_minute t) (?kept @ ?later) \<le> ?L"
    then show ?thesis by (rule minute_bound [OF kept A refl from_now])
  next
    assume same: "attempts_in ?m2 k = attempts_in ?m k" "(key, route) \<noteq> k"
    then show ?thesis using ih unfolding same(1) by simp
  qed
  then show ?case using check(1) c by simp
qed

text \<open>C30. The limit holds over any minute, as long as no minute sees requests of more than 128 client
  keys and routes: from an initialised table, for keys as the callers build them (not empty, at most 63
  bytes) and times that do not go back, the requests admitted to a client on a route in any 60
  consecutive seconds are at most the route's limit (5 registrations, 5 logins, 10 refreshes, 60
  others), however many clients there are in all: a client that the full table forgets has not been
  seen for a minute.  With more than 128 in a minute the table forgets one that has (\<open>evicted\<close>), whose
  count starts again.\<close>

theorem rest_minute_bounded:
  assumes "\<forall>(key, route, now) \<in> set calls. key \<noteq> [] \<and> length key \<le> 63 \<and> unat now + 60 < 2 ^ 64"
    and "sorted (map (\<lambda>(key, route, now). unat now) calls)"
    and "\<forall>t. card {(key, route) |key route now. (key, route, now) \<in> set calls \<and> t < unat now + 60 \<and> unat now \<le> t} \<le> 128"
  shows "count_if (\<lambda>a. t < a + 60 \<and> a \<le> t) (admitted_times (key, route) calls (limiter_run ShroomRestRateLimiterInit calls))
    \<le> unat (LimitForRoute route)"
proof -
  have good: "map_good (table_map ShroomRestRateLimiterInit) 0" by (simp add: limiter_ok_init(2) map_good_def)
  have calls: "\<forall>(key, route, now) \<in> set calls. key \<noteq> [] \<and> length key \<le> 63 \<and> 0 \<le> unat now \<and> unat now + 60 < 2 ^ 64"
    using assms(1) by auto
  have few: "\<forall>t. card (map_seen (table_map ShroomRestRateLimiterInit) t \<union> calls_seen calls t) \<le> 128"
    using assms(3) by (simp add: limiter_ok_init(2) map_seen_def calls_seen_def)
  from run_minutes [OF limiter_ok_init(1) good calls assms(2) few, of t "(key, route)"]
  show ?thesis by (simp add: limiter_ok_init(2) attempts_in_def)
qed

text \<open>Six logins within a minute: the sixth is refused.\<close>

theorem rest_minute_bounded_witness:
  "count_if (\<lambda>a. 70 < a + 60 \<and> a \<le> (70 :: nat)) (admitted_times ([105], SHROOM_REST_RATE_LOGIN)
     (map (\<lambda>now. ([105], SHROOM_REST_RATE_LOGIN, now)) [60, 62, 64, 66, 68, 70])
     (limiter_run ShroomRestRateLimiterInit (map (\<lambda>now. ([105], SHROOM_REST_RATE_LOGIN, now)) [60, 62, 64, 66, 68, 70]))) \<le> 5"
proof -
  let ?calls = "map (\<lambda>now. ([105 :: u8], SHROOM_REST_RATE_LOGIN, now)) [60, 62, 64, 66, 68, 70 :: u64]"
  have "card {(key, route) |key route now. (key, route, now) \<in> set ?calls \<and> t < unat now + 60 \<and> unat now \<le> t} \<le> 128" for t
  proof -
    have "{(key, route) |key route now. (key, route, now) \<in> set ?calls \<and> t < unat now + 60 \<and> unat now \<le> t}
        \<subseteq> {([105], SHROOM_REST_RATE_LOGIN)}" by auto
    from card_mono [OF _ this] show ?thesis by simp
  qed
  then show ?thesis
    using rest_minute_bounded [of ?calls 70 "[105]" SHROOM_REST_RATE_LOGIN] by (simp add: LimitForRoute_def)
qed

end
