(* ===== verification/C_Text.thy ===== *)
theory C_Text
  imports Prelude
begin

text \<open>
  Texts in fixed arrays of bytes, as the C library reads and writes them: the string an array
  holds, \<open>snprintf\<close> with \<open>"%s"\<close>, \<open>strncmp\<close>, and the character classes of \<open>ctype.h\<close> in the C locale.
\<close>

text \<open>The bytes before the first NUL, or the whole array when there is none.\<close>

definition c_string :: "u8 list \<Rightarrow> u8 list" where
  "c_string bytes = takeWhile (\<lambda>c. c \<noteq> 0) bytes"

text \<open>\<open>snprintf (array, sizeof (array), "%s", source)\<close>: the array and the length that is returned.\<close>

definition snprintf_s :: "u8 list \<Rightarrow> u8 list \<Rightarrow> u8 list \<times> nat" where
  "snprintf_s dest source =
     (let s = c_string source; n = min (length s) (length dest - 1)
      in (take n s @ 0 # drop (Suc n) dest, length s))"

text \<open>\<open>strncmp (left, right, n) == 0\<close> on arrays of \<open>n\<close> bytes.\<close>

definition same_text :: "u8 list \<Rightarrow> u8 list \<Rightarrow> bool" where
  "same_text left right \<longleftrightarrow> c_string left = c_string right"

definition isprint :: "u8 \<Rightarrow> bool" where "isprint c \<longleftrightarrow> 0x20 \<le> c \<and> c \<le> 0x7E"
definition isspace :: "u8 \<Rightarrow> bool" where "isspace c \<longleftrightarrow> c = 0x20 \<or> 0x09 \<le> c \<and> c \<le> 0x0D"
definition isdigit :: "u8 \<Rightarrow> bool" where "isdigit c \<longleftrightarrow> 0x30 \<le> c \<and> c \<le> 0x39"
definition isalpha :: "u8 \<Rightarrow> bool" where
  "isalpha c \<longleftrightarrow> 0x41 \<le> c \<and> c \<le> 0x5A \<or> 0x61 \<le> c \<and> c \<le> 0x7A"
definition isalnum :: "u8 \<Rightarrow> bool" where "isalnum c \<longleftrightarrow> isalpha c \<or> isdigit c"

lemma c_string_nonzero: "c \<in> set (c_string xs) \<Longrightarrow> c \<noteq> 0"
  unfolding c_string_def by (auto dest: set_takeWhileD)

lemma c_string_text: "0 \<notin> set s \<Longrightarrow> c_string (s @ 0 # rest) = s"
  unfolding c_string_def by (induction s) auto

lemma c_string_idem [simp]: "c_string (c_string xs) = c_string xs"
  by (simp add: c_string_def takeWhile_idem)

lemma c_string_length: "length (c_string xs) \<le> length xs"
  by (simp add: c_string_def length_takeWhile_le)

lemma c_string_short: "0 \<in> set xs \<longleftrightarrow> length (c_string xs) < length xs"
  unfolding c_string_def by (induction xs) auto

text \<open>A text that fits is stored as it is.\<close>

lemma snprintf_s_fits:
  assumes "snprintf_s dest source = (array, n)" and "n < length dest"
  shows "c_string array = c_string source" "length array = length dest" "n = length (c_string source)"
proof -
  let ?s = "c_string source"
  have n: "n = length ?s" and a: "array = ?s @ 0 # drop (Suc (length ?s)) dest"
    using assms by (auto simp: snprintf_s_def Let_def)
  show "n = length (c_string source)" by (rule n)
  show "length array = length dest" using a n assms(2) by simp
  have "0 \<notin> set ?s" using c_string_nonzero by blast
  then show "c_string array = c_string source" unfolding a by (rule c_string_text)
qed

end
