(* ===== verification/Directory_Registry.thy ===== *)
theory Directory_Registry
  imports Protocol C_Text
begin

text \<open>
  The directory of game servers (\<open>src/src/server/directory_registry.c\<close>): heartbeats register a
  server under an identifier computed from the address it is seen at, entries expire, and the
  active entries are listed in chunks.  The table is read as a map from identifiers to entries;
  the theorem says what each operation does to that map.
\<close>

definition SHROOM_DIRECTORY_PROTOCOL_VERSION :: u32 where "SHROOM_DIRECTORY_PROTOCOL_VERSION = 1"
definition SHROOM_DIRECTORY_MAX_ENTRIES :: nat where "SHROOM_DIRECTORY_MAX_ENTRIES = 32"
definition SHROOM_DIRECTORY_ENTRIES_PER_PACKET :: nat where "SHROOM_DIRECTORY_ENTRIES_PER_PACKET = 7"
definition SHROOM_DIRECTORY_SERVER_NAME_LENGTH :: nat where "SHROOM_DIRECTORY_SERVER_NAME_LENGTH = 48"
definition SHROOM_DIRECTORY_HOST_LENGTH :: nat where "SHROOM_DIRECTORY_HOST_LENGTH = 64"
definition SHROOM_DIRECTORY_ENTRY_TTL_MS :: u64 where "SHROOM_DIRECTORY_ENTRY_TTL_MS = 15000"

text \<open>The name and the host are the bytes of the arrays.\<close>

record ShroomDirectoryServerEntry =
  ds_server_id :: u64
  ds_name :: "u8 list"
  ds_host :: "u8 list"
  ds_port :: u16
  ds_player_count :: u16
  ds_capacity :: u16
  ds_reserved :: u16

record ShroomDirectoryHeartbeatPacket =
  dh_header :: ShroomPacketHeader
  dh_protocol_version :: u32
  dh_server :: ShroomDirectoryServerEntry

record ShroomDirectoryQueryPacket =
  dq_header :: ShroomPacketHeader
  dq_protocol_version :: u32
  dq_generation :: u32

record ShroomDirectoryListPacket =
  dl_header :: ShroomPacketHeader
  dl_protocol_version :: u32
  dl_generation :: u32
  dl_chunk_index :: u8
  dl_chunk_count :: u8
  dl_entry_count :: u8
  dl_entries :: "ShroomDirectoryServerEntry list"

record ShroomDirectoryRegistration =
  dr_server :: ShroomDirectoryServerEntry
  dr_last_seen_ms :: u64
  dr_active :: bool

record ShroomDirectoryRegistry =
  dr_registrations :: "ShroomDirectoryRegistration list"

section \<open>Checking an entry\<close>

fun terminated_printable :: "bool \<Rightarrow> u8 list \<Rightarrow> bool" where
  "terminated_printable has_visible [] = False"
| "terminated_printable has_visible (character # rest) =
     (if character = 0 then has_visible
      else if \<not> isprint character then False
      else terminated_printable (has_visible \<or> \<not> isspace character) rest)"

definition IsTerminatedPrintableText :: "u8 list \<Rightarrow> nat \<Rightarrow> bool" where
  "IsTerminatedPrintableText bytes capacity = terminated_printable False (take capacity bytes)"

definition host_char :: "u8 \<Rightarrow> bool" where
  "host_char character \<longleftrightarrow> isalnum character \<or> character = 0x2E \<or> character = 0x2D \<or> character = 0x3A"

text \<open>The two hosts no client can connect to: \<open>0.0.0.0\<close> and \<open>::\<close>.\<close>

definition IsValidAdvertisedHost :: "u8 list \<Rightarrow> nat \<Rightarrow> bool" where
  "IsValidAdvertisedHost host capacity =
     (let scanned = takeWhile (\<lambda>c. c \<noteq> 0) (take capacity host)
      in if \<not> list_all host_char scanned then False
         else if length scanned = 0 \<or> length scanned = capacity then False
         else scanned \<noteq> [0x30, 0x2E, 0x30, 0x2E, 0x30, 0x2E, 0x30] \<and> scanned \<noteq> [0x3A, 0x3A])"

definition EndpointMatches :: "ShroomDirectoryServerEntry \<Rightarrow> ShroomDirectoryServerEntry \<Rightarrow> bool" where
  "EndpointMatches left right \<longleftrightarrow> ds_port left = ds_port right \<and> same_text (ds_host left) (ds_host right)"

definition hash_byte :: "u64 \<Rightarrow> u8 \<Rightarrow> u64" where
  "hash_byte hash byte = (hash XOR ucast byte) * 1099511628211"

definition StableEndpointId :: "u8 list \<Rightarrow> u16 \<Rightarrow> u64" where
  "StableEndpointId host port =
     (let hash = fold (\<lambda>cursor hash. hash_byte hash cursor) (c_string host) 1469598103934665603;
          hash = hash_byte hash (ucast (drop_bit 8 port));
          hash = hash_byte hash (ucast port)
      in if hash = 0 then 1 else hash)"

definition ValidateAndClampEntry :: "ShroomDirectoryServerEntry \<Rightarrow> ShroomDirectoryServerEntry option" where
  "ValidateAndClampEntry entry =
     (if ds_server_id entry = 0 \<or>
         \<not> IsTerminatedPrintableText (ds_name entry) SHROOM_DIRECTORY_SERVER_NAME_LENGTH \<or>
         \<not> IsValidAdvertisedHost (ds_host entry) SHROOM_DIRECTORY_HOST_LENGTH \<or>
         ds_port entry = 0 \<or> ds_capacity entry = 0 \<or> ds_capacity entry < ds_player_count entry \<or>
         SHROOM_SERVER_MAX_CLIENTS < unat (ds_player_count entry)
      then None
      else Some (entry\<lparr>ds_capacity := if SHROOM_SERVER_MAX_CLIENTS < unat (ds_capacity entry)
                          then word_of_nat SHROOM_SERVER_MAX_CLIENTS else ds_capacity entry,
                       ds_reserved := 0\<rparr>))"

section \<open>The table\<close>

definition zero_entry :: ShroomDirectoryServerEntry where
  "zero_entry = \<lparr>ds_server_id = 0, ds_name = replicate SHROOM_DIRECTORY_SERVER_NAME_LENGTH 0,
     ds_host = replicate SHROOM_DIRECTORY_HOST_LENGTH 0, ds_port = 0, ds_player_count = 0,
     ds_capacity = 0, ds_reserved = 0\<rparr>"

definition zero_registration :: ShroomDirectoryRegistration where
  "zero_registration = \<lparr>dr_server = zero_entry, dr_last_seen_ms = 0, dr_active = False\<rparr>"

definition ShroomDirectoryRegistryInit :: "ShroomDirectoryRegistry option \<Rightarrow> ShroomDirectoryRegistry option" where
  "ShroomDirectoryRegistryInit registry =
     map_option (\<lambda>_. \<lparr>dr_registrations = replicate SHROOM_DIRECTORY_MAX_ENTRIES zero_registration\<rparr>) registry"

text \<open>The entry a heartbeat advertises, seen at the observed host; \<open>None\<close>: the host is too long.\<close>

definition observed_entry :: "ShroomDirectoryServerEntry \<Rightarrow> u8 list \<Rightarrow> ShroomDirectoryServerEntry option" where
  "observed_entry server observed_host =
     (case snprintf_s (ds_host server) observed_host of
        (host, host_length) \<Rightarrow>
          if SHROOM_DIRECTORY_HOST_LENGTH \<le> host_length then None
          else Some (server\<lparr>ds_host := host, ds_server_id := StableEndpointId host (ds_port server)\<rparr>))"

text \<open>The scan: the last slot of the identifier, the last of the endpoint, the first free slot.\<close>

definition id_slot :: "ShroomDirectoryRegistration list \<Rightarrow> ShroomDirectoryServerEntry \<Rightarrow> nat option" where
  "id_slot regs entry =
     find_last (\<lambda>r. dr_active r \<and> ds_server_id (dr_server r) = ds_server_id entry) regs 0 None"

definition endpoint_slot :: "ShroomDirectoryRegistration list \<Rightarrow> ShroomDirectoryServerEntry \<Rightarrow> nat option" where
  "endpoint_slot regs entry = find_last (\<lambda>r. dr_active r \<and> EndpointMatches (dr_server r) entry) regs 0 None"

definition free_slot :: "ShroomDirectoryRegistration list \<Rightarrow> nat option" where
  "free_slot regs = find_index (\<lambda>r. \<not> dr_active r) regs"

definition is_stale :: "ShroomDirectoryRegistration list \<Rightarrow> nat option \<Rightarrow> u64 \<Rightarrow> bool" where
  "is_stale regs match now_ms \<longleftrightarrow> (case match of None \<Rightarrow> False | Some i \<Rightarrow> now_ms < dr_last_seen_ms (regs ! i))"

definition store_entry ::
  "ShroomDirectoryRegistration list \<Rightarrow> ShroomDirectoryServerEntry \<Rightarrow> u64 \<Rightarrow> ShroomDirectoryRegistration list option" where
  "store_entry regs entry now_ms =
     (let id_match = id_slot regs entry;
          endpoint_match = endpoint_slot regs entry
      in if is_stale regs id_match now_ms then None
         else if is_stale regs endpoint_match now_ms then None
         else
           let target = (if id_match \<noteq> None then id_match else endpoint_match);
               target = (if target = None then free_slot regs else target)
           in case target of
                None \<Rightarrow> None
              | Some t \<Rightarrow>
                  let regs = (if id_match \<noteq> None \<and> endpoint_match \<noteq> None \<and> id_match \<noteq> endpoint_match
                              then regs[the endpoint_match := zero_registration] else regs)
                  in Some (regs[t := \<lparr>dr_server = entry, dr_last_seen_ms = now_ms, dr_active = True\<rparr>]))"

definition ShroomDirectoryRegistryRegister ::
  "ShroomDirectoryRegistry option \<Rightarrow> ShroomDirectoryHeartbeatPacket option \<Rightarrow> nat \<Rightarrow> u8 list option \<Rightarrow> u64 \<Rightarrow>
     bool \<times> ShroomDirectoryRegistry option" where
  "ShroomDirectoryRegistryRegister registry heartbeat packet_size observed_host now_ms =
     (case (registry, heartbeat, observed_host) of
        (Some reg, Some hb, Some host) \<Rightarrow>
          if packet_size \<noteq> size_of ShroomDirectoryHeartbeatPacket_layout \<or>
             unat (ph_type (dh_header hb)) \<noteq> SHROOM_PACKET_DIRECTORY_HEARTBEAT \<or>
             unat (ph_size (dh_header hb)) \<noteq> size_of ShroomDirectoryHeartbeatPacket_layout \<or>
             dh_protocol_version hb \<noteq> SHROOM_DIRECTORY_PROTOCOL_VERSION
          then (False, registry)
          else (case observed_entry (dh_server hb) host of
                  None \<Rightarrow> (False, registry)
                | Some entry \<Rightarrow>
                    (case ValidateAndClampEntry entry of
                       None \<Rightarrow> (False, registry)
                     | Some entry \<Rightarrow>
                         (case store_entry (dr_registrations reg) entry now_ms of
                            None \<Rightarrow> (False, registry)
                          | Some regs \<Rightarrow> (True, Some (reg\<lparr>dr_registrations := regs\<rparr>)))))
      | _ \<Rightarrow> (False, registry))"

definition has_expired :: "ShroomDirectoryRegistration \<Rightarrow> u64 \<Rightarrow> bool" where
  "has_expired registration now_ms \<longleftrightarrow>
     dr_active registration \<and> dr_last_seen_ms registration \<le> now_ms \<and>
     SHROOM_DIRECTORY_ENTRY_TTL_MS \<le> now_ms - dr_last_seen_ms registration"

definition ShroomDirectoryRegistryEvictExpired ::
  "ShroomDirectoryRegistry option \<Rightarrow> u64 \<Rightarrow> nat \<times> ShroomDirectoryRegistry option" where
  "ShroomDirectoryRegistryEvictExpired registry now_ms =
     (case registry of
        None \<Rightarrow> (0, None)
      | Some reg \<Rightarrow>
          (count_if (\<lambda>r. has_expired r now_ms) (dr_registrations reg),
           Some (reg\<lparr>dr_registrations := map (\<lambda>r. if has_expired r now_ms then zero_registration else r)
                       (dr_registrations reg)\<rparr>)))"

text \<open>The entries written to an array of the given capacity.\<close>

definition ShroomDirectoryRegistryCopyActive ::
  "ShroomDirectoryRegistry option \<Rightarrow> nat \<Rightarrow> ShroomDirectoryServerEntry list" where
  "ShroomDirectoryRegistryCopyActive registry capacity =
     (case registry of
        None \<Rightarrow> []
      | Some reg \<Rightarrow> take (min capacity SHROOM_DIRECTORY_MAX_ENTRIES)
                      (map dr_server (filter dr_active (dr_registrations reg))))"

section \<open>Queries and lists\<close>

definition ShroomDirectoryQueryIsValid :: "ShroomDirectoryQueryPacket option \<Rightarrow> nat \<Rightarrow> bool" where
  "ShroomDirectoryQueryIsValid query packet_size \<longleftrightarrow>
     (case query of
        None \<Rightarrow> False
      | Some q \<Rightarrow> packet_size = size_of ShroomDirectoryQueryPacket_layout \<and>
                  unat (ph_type (dq_header q)) = SHROOM_PACKET_DIRECTORY_QUERY \<and>
                  unat (ph_size (dq_header q)) = size_of ShroomDirectoryQueryPacket_layout \<and>
                  dq_protocol_version q = SHROOM_DIRECTORY_PROTOCOL_VERSION \<and> dq_generation q \<noteq> 0)"

definition SHROOM_DIRECTORY_LIST_PACKET_SIZE :: "nat \<Rightarrow> nat" where
  "SHROOM_DIRECTORY_LIST_PACKET_SIZE count =
     SHROOM_DIRECTORY_LIST_HEADER_SIZE + count * size_of ShroomDirectoryServerEntry_layout"

definition ShroomDirectoryListChunkCount :: "nat \<Rightarrow> nat" where
  "ShroomDirectoryListChunkCount entry_count =
     (let entry_count = min entry_count SHROOM_DIRECTORY_MAX_ENTRIES
      in if entry_count = 0 then 1
         else (entry_count + SHROOM_DIRECTORY_ENTRIES_PER_PACKET - 1) div SHROOM_DIRECTORY_ENTRIES_PER_PACKET)"

text \<open>The packet and the size returned; \<open>None\<close>: nothing is written and 0 is returned.\<close>

definition ShroomDirectoryBuildListPacket ::
  "ShroomDirectoryServerEntry list \<Rightarrow> u32 \<Rightarrow> nat \<Rightarrow> (ShroomDirectoryListPacket \<times> nat) option" where
  "ShroomDirectoryBuildListPacket entries generation chunk_index =
     (let entry_count = length entries;
          chunk_count = ShroomDirectoryListChunkCount entry_count;
          start = chunk_index * SHROOM_DIRECTORY_ENTRIES_PER_PACKET
      in if generation = 0 \<or> SHROOM_DIRECTORY_MAX_ENTRIES < entry_count \<or> chunk_count \<le> chunk_index then None
         else
           let count = (if start < entry_count then entry_count - start else 0);
               count = min count SHROOM_DIRECTORY_ENTRIES_PER_PACKET;
               packet_size = SHROOM_DIRECTORY_LIST_PACKET_SIZE count
           in Some (\<lparr>dl_header = the (ShroomPacketHeaderInit
                       (Some \<lparr>ph_type = 0, ph_reserved = 0, ph_size = 0\<rparr>)
                       SHROOM_PACKET_DIRECTORY_LIST (word_of_nat packet_size)),
                     dl_protocol_version = SHROOM_DIRECTORY_PROTOCOL_VERSION,
                     dl_generation = generation, dl_chunk_index = word_of_nat chunk_index,
                     dl_chunk_count = word_of_nat chunk_count, dl_entry_count = word_of_nat count,
                     dl_entries = take count (drop start entries) @
                       replicate (SHROOM_DIRECTORY_ENTRIES_PER_PACKET - count) zero_entry\<rparr>, packet_size))"

section \<open>The map the table stands for\<close>

abbreviation registration_id :: "ShroomDirectoryRegistration \<Rightarrow> u64" where
  "registration_id r \<equiv> ds_server_id (dr_server r)"

definition registered :: "ShroomDirectoryRegistry \<Rightarrow> u64 \<Rightarrow> (ShroomDirectoryServerEntry \<times> u64) option" where
  "registered reg id' = map_option (\<lambda>r. (dr_server r, dr_last_seen_ms r))
     (lookup_by registration_id (filter dr_active (dr_registrations reg)) id')"

text \<open>A listed entry: valid texts and counts, and the identifier of its address.\<close>

definition entry_ok :: "ShroomDirectoryServerEntry \<Rightarrow> bool" where
  "entry_ok e \<longleftrightarrow>
     ds_server_id e = StableEndpointId (ds_host e) (ds_port e) \<and> ds_server_id e \<noteq> 0 \<and>
     IsTerminatedPrintableText (ds_name e) SHROOM_DIRECTORY_SERVER_NAME_LENGTH \<and>
     IsValidAdvertisedHost (ds_host e) SHROOM_DIRECTORY_HOST_LENGTH \<and>
     ds_port e \<noteq> 0 \<and> ds_capacity e \<noteq> 0 \<and> ds_player_count e \<le> ds_capacity e \<and>
     unat (ds_capacity e) \<le> SHROOM_SERVER_MAX_CLIENTS \<and> ds_reserved e = 0 \<and>
     length (ds_host e) = SHROOM_DIRECTORY_HOST_LENGTH"

definition registry_ok :: "ShroomDirectoryRegistry \<Rightarrow> bool" where
  "registry_ok reg \<longleftrightarrow>
     length (dr_registrations reg) = SHROOM_DIRECTORY_MAX_ENTRIES \<and>
     distinct (map registration_id (filter dr_active (dr_registrations reg))) \<and>
     (\<forall>r \<in> set (dr_registrations reg). dr_active r \<longrightarrow> entry_ok (dr_server r))"

lemma registry_ok_init: "ShroomDirectoryRegistryInit (Some reg) = Some reg' \<Longrightarrow> registry_ok reg' \<and> registered reg' = Map.empty"
  by (auto simp: ShroomDirectoryRegistryInit_def registry_ok_def registered_def zero_registration_def)

lemma card_registered:
  assumes "registry_ok reg"
  shows "card (dom (registered reg)) = length (filter dr_active (dr_registrations reg))"
proof -
  let ?live = "filter dr_active (dr_registrations reg)"
  have "dom (registered reg) = set (map registration_id ?live)"
    unfolding registered_def dom_def by (simp add: lookup_by_None)
  moreover have "distinct (map registration_id ?live)" using assms by (simp add: registry_ok_def)
  ultimately show ?thesis using distinct_card [of "map registration_id ?live"] by simp
qed

text \<open>The endpoint of an entry decides its identifier, so the scan finds at most one slot.\<close>

lemma endpoint_id: "EndpointMatches a b \<Longrightarrow> StableEndpointId (ds_host a) (ds_port a) = StableEndpointId (ds_host b) (ds_port b)"
  by (simp add: EndpointMatches_def same_text_def StableEndpointId_def)

lemma id_slot_SomeD:
  "id_slot regs e = Some i \<Longrightarrow> i < length regs \<and> dr_active (regs ! i) \<and> registration_id (regs ! i) = ds_server_id e"
  unfolding id_slot_def by (drule find_last_SomeD) auto

lemma endpoint_slot_SomeD:
  "endpoint_slot regs e = Some i \<Longrightarrow> i < length regs \<and> dr_active (regs ! i) \<and> EndpointMatches (dr_server (regs ! i)) e"
  unfolding endpoint_slot_def by (drule find_last_SomeD) auto

lemma id_slot_None:
  "id_slot regs e = None \<longleftrightarrow> lookup_by registration_id (filter dr_active regs) (ds_server_id e) = None"
  unfolding id_slot_def find_last_None lookup_by_None by (simp add: image_iff) metis

lemma endpoint_slot_cases:
  assumes "registry_ok reg" and "entry_ok e"
  shows "endpoint_slot (dr_registrations reg) e = None \<or> endpoint_slot (dr_registrations reg) e = id_slot (dr_registrations reg) e"
proof (cases "endpoint_slot (dr_registrations reg) e")
  case (Some j)
  let ?regs = "dr_registrations reg"
  have j: "j < length ?regs" "dr_active (?regs ! j)" "EndpointMatches (dr_server (?regs ! j)) e"
    using endpoint_slot_SomeD [OF Some] by auto
  have "entry_ok (dr_server (?regs ! j))" using assms(1) j by (auto simp: registry_ok_def)
  with assms(2) endpoint_id [OF j(3)] have id_j: "registration_id (?regs ! j) = ds_server_id e" by (simp add: entry_ok_def)
  have "id_slot ?regs e \<noteq> None"
    unfolding id_slot_def find_last_None using j(1,2) id_j nth_mem [OF j(1)] by blast
  then obtain i where i: "id_slot ?regs e = Some i" by blast
  have "i = j"
    using assms(1) id_slot_SomeD [OF i] j(1,2) id_j
    by (intro slot_unique [of registration_id dr_active ?regs]) (auto simp: registry_ok_def)
  with i Some show ?thesis by simp
qed simp

section \<open>What a registration does\<close>

text \<open>When an entry may be stored under an identifier.\<close>

definition may_store :: "(u64 \<Rightarrow> (ShroomDirectoryServerEntry \<times> u64) option) \<Rightarrow> u64 \<Rightarrow> u64 \<Rightarrow> bool" where
  "may_store m id' now_ms \<longleftrightarrow>
     (case m id' of Some (_, seen) \<Rightarrow> seen \<le> now_ms | None \<Rightarrow> card (dom m) < SHROOM_DIRECTORY_MAX_ENTRIES)"

lemma store_at:
  assumes "registry_ok reg" and "entry_ok e" and "t < length (dr_registrations reg)"
    and "if dr_active (dr_registrations reg ! t) then registration_id (dr_registrations reg ! t) = ds_server_id e
         else lookup_by registration_id (filter dr_active (dr_registrations reg)) (ds_server_id e) = None"
  shows "registry_ok (reg\<lparr>dr_registrations := (dr_registrations reg)[t := \<lparr>dr_server = e, dr_last_seen_ms = now, dr_active = True\<rparr>]\<rparr>)"
    and "registered (reg\<lparr>dr_registrations := (dr_registrations reg)[t := \<lparr>dr_server = e, dr_last_seen_ms = now, dr_active = True\<rparr>]\<rparr>)
      = (registered reg)(ds_server_id e \<mapsto> (e, now))"
proof -
  let ?y = "\<lparr>dr_server = e, dr_last_seen_ms = now, dr_active = True\<rparr>"
  have cond: "if dr_active (dr_registrations reg ! t) then registration_id (dr_registrations reg ! t) = registration_id ?y
      else lookup_by registration_id (filter dr_active (dr_registrations reg)) (registration_id ?y) = None"
    using assms(4) by simp
  have dist: "distinct (map registration_id (filter dr_active (dr_registrations reg)))" using assms(1) by (simp add: registry_ok_def)
  have live: "dr_active ?y" by simp
  note stored = slot_write [OF dist assms(3) live cond]
  show "registry_ok (reg\<lparr>dr_registrations := (dr_registrations reg)[t := ?y]\<rparr>)"
    using assms(1,2) stored(1) by (auto simp: registry_ok_def dest!: set_update_subset_insert [THEN subsetD])
  show "registered (reg\<lparr>dr_registrations := (dr_registrations reg)[t := ?y]\<rparr>) = (registered reg)(ds_server_id e \<mapsto> (e, now))"
    using stored(2) by (auto simp: registered_def fun_eq_iff)
qed

lemma store_entry_refines:
  assumes ok: "registry_ok reg" and e: "entry_ok e"
  shows "case store_entry (dr_registrations reg) e now of
           None \<Rightarrow> \<not> may_store (registered reg) (ds_server_id e) now
         | Some regs \<Rightarrow> may_store (registered reg) (ds_server_id e) now \<and> registry_ok (reg\<lparr>dr_registrations := regs\<rparr>) \<and>
             registered (reg\<lparr>dr_registrations := regs\<rparr>) = (registered reg)(ds_server_id e \<mapsto> (e, now))"
proof (cases "id_slot (dr_registrations reg) e")
  case None
  let ?regs = "dr_registrations reg"
  from None have unknown: "lookup_by registration_id (filter dr_active ?regs) (ds_server_id e) = None"
    by (simp add: id_slot_None)
  have no_endpoint: "endpoint_slot ?regs e = None" using endpoint_slot_cases [OF ok e] None by simp
  have may: "may_store (registered reg) (ds_server_id e) now \<longleftrightarrow> length (filter dr_active ?regs) < length ?regs"
    using ok unknown by (simp add: may_store_def card_registered [OF ok] registry_ok_def registered_def [of reg "ds_server_id e"])
  show ?thesis
  proof (cases "free_slot ?regs")
    case None
    then have "filter dr_active ?regs = ?regs" by (simp add: free_slot_def)
    with may no_endpoint None \<open>id_slot ?regs e = None\<close> show ?thesis by (simp add: store_entry_def is_stale_def)
  next
    case (Some t)
    have t: "t < length ?regs" "\<not> dr_active (?regs ! t)"
      using find_index_SomeD [OF Some [unfolded free_slot_def]] by auto
    have "length (filter dr_active ?regs) < length ?regs"
      using t nth_mem by (metis length_filter_less)
    with may store_at [OF ok e t(1), of now] t(2) unknown no_endpoint Some \<open>id_slot ?regs e = None\<close> show ?thesis
      by (simp add: store_entry_def is_stale_def)
  qed
next
  case (Some i)
  let ?regs = "dr_registrations reg"
  have i: "i < length ?regs" "dr_active (?regs ! i)" "registration_id (?regs ! i) = ds_server_id e"
    using id_slot_SomeD [OF Some] by auto
  have known: "registered reg (ds_server_id e) = Some (dr_server (?regs ! i), dr_last_seen_ms (?regs ! i))"
    using slot_lookup [of registration_id dr_active ?regs i] ok i by (simp add: registered_def registry_ok_def)
  have stale: "is_stale ?regs (endpoint_slot ?regs e) now \<Longrightarrow> is_stale ?regs (Some i) now"
    using endpoint_slot_cases [OF ok e] Some by (auto simp: is_stale_def)
  have result: "store_entry ?regs e now =
      (if now < dr_last_seen_ms (?regs ! i) then None
       else Some (?regs[i := \<lparr>dr_server = e, dr_last_seen_ms = now, dr_active = True\<rparr>]))"
    using stale endpoint_slot_cases [OF ok e] Some by (auto simp: store_entry_def is_stale_def Let_def)
  show ?thesis
    using store_at [OF ok e i(1), of now] i(2,3) known by (auto simp: result may_store_def)
qed

text \<open>The entry a heartbeat advertises, when it is well formed.\<close>

definition advertised :: "ShroomDirectoryHeartbeatPacket \<Rightarrow> nat \<Rightarrow> u8 list \<Rightarrow> ShroomDirectoryServerEntry option" where
  "advertised hb packet_size host =
     (if packet_size = 136 \<and> unat (ph_type (dh_header hb)) = SHROOM_PACKET_DIRECTORY_HEARTBEAT \<and>
         unat (ph_size (dh_header hb)) = 136 \<and> dh_protocol_version hb = 1
      then Option.bind (observed_entry (dh_server hb) host) ValidateAndClampEntry else None)"

lemma advertised_ok:
  assumes "advertised hb n host = Some e" and "length (ds_host (dh_server hb)) = SHROOM_DIRECTORY_HOST_LENGTH"
  shows "entry_ok e"
  using assms snprintf_s_fits(2) [of "ds_host (dh_server hb)" host]
  by (auto simp: advertised_def observed_entry_def ValidateAndClampEntry_def entry_ok_def SHROOM_SERVER_MAX_CLIENTS_def
      word_le_nat_alt word_less_nat_alt not_less bind_eq_Some_conv split: prod.splits if_splits)

lemma register_eq:
  "ShroomDirectoryRegistryRegister (Some reg) (Some hb) n (Some host) now =
     (case Option.bind (advertised hb n host) (\<lambda>e. store_entry (dr_registrations reg) e now) of
        None \<Rightarrow> (False, Some reg)
      | Some regs \<Rightarrow> (True, Some (reg\<lparr>dr_registrations := regs\<rparr>)))"
  by (simp add: ShroomDirectoryRegistryRegister_def advertised_def size_simps SHROOM_DIRECTORY_PROTOCOL_VERSION_def
      split: option.splits)

lemma has_expired_iff:
  "has_expired r now \<longleftrightarrow> dr_active r \<and> unat (dr_last_seen_ms r) + 15000 \<le> unat now"
  unfolding has_expired_def SHROOM_DIRECTORY_ENTRY_TTL_MS_def
  by (auto simp: word_le_nat_alt unat_sub_if')

lemma evict_live:
  "filter dr_active (map (\<lambda>r. if has_expired r now then zero_registration else r) regs) =
   filter (\<lambda>r. \<not> has_expired r now) (filter dr_active regs)"
  by (induction regs) (auto simp: zero_registration_def)

lemma evict_count:
  "count_if (\<lambda>r. has_expired r now) regs + length (filter (\<lambda>r. \<not> has_expired r now) (filter dr_active regs)) =
   length (filter dr_active regs)"
  by (induction regs) (auto simp: has_expired_def)

lemma evict_refines:
  assumes "registry_ok reg" and "ShroomDirectoryRegistryEvictExpired (Some reg) now = (evicted, reg')"
  shows "reg' \<noteq> None \<and> registry_ok (the reg') \<and>
    registered (the reg') = (\<lambda>id'. Option.bind (registered reg id')
      (\<lambda>(e, seen). if unat seen + 15000 \<le> unat now then None else Some (e, seen))) \<and>
    evicted + card (dom (registered (the reg'))) = card (dom (registered reg))"
proof -
  let ?regs = "dr_registrations reg"
  let ?f = "\<lambda>r. if has_expired r now then zero_registration else r"
  let ?reg' = "reg\<lparr>dr_registrations := map ?f ?regs\<rparr>"
  have eq: "reg' = Some ?reg'" "evicted = count_if (\<lambda>r. has_expired r now) ?regs"
    using assms(2) by (auto simp: ShroomDirectoryRegistryEvictExpired_def)
  have dist: "distinct (map registration_id (filter dr_active ?regs))" using assms(1) by (simp add: registry_ok_def)
  have "distinct (map registration_id (filter (\<lambda>r. \<not> has_expired r now) (filter dr_active ?regs)))"
    by (rule distinct_map_filter [OF dist])
  then have ok: "registry_ok ?reg'"
    using assms(1) unfolding registry_ok_def by (simp add: evict_live del: filter_filter) (auto simp: zero_registration_def)
  have map_eq: "registered ?reg' = (\<lambda>id'. Option.bind (registered reg id')
      (\<lambda>(e, seen). if unat seen + 15000 \<le> unat now then None else Some (e, seen)))"
  proof
    fix id'
    show "registered ?reg' id' = Option.bind (registered reg id')
        (\<lambda>(e, seen). if unat seen + 15000 \<le> unat now then None else Some (e, seen))"
    proof (cases "lookup_by registration_id (filter dr_active ?regs) id'")
      case None
      then show ?thesis by (simp add: registered_def evict_live lookup_by_filter_distinct [OF dist] del: filter_filter)
    next
      case (Some r)
      have "dr_active r" using lookup_by_SomeD [OF Some] by simp
      then have "has_expired r now \<longleftrightarrow> unat (dr_last_seen_ms r) + 15000 \<le> unat now" by (simp add: has_expired_iff)
      with Some show ?thesis
        by (simp add: registered_def evict_live lookup_by_filter_distinct [OF dist] del: filter_filter)
    qed
  qed
  show ?thesis
    using ok map_eq evict_count [of now ?regs] card_registered [OF assms(1)] card_registered [OF ok]
    by (simp add: eq evict_live del: filter_filter)
qed

text \<open>C31. The directory implements a map from the identifier of a server's address to its entry and the
  time it was last seen.  From any table that satisfies the invariant (distinct identifiers, every
  listed entry valid and under the identifier of its address), a heartbeat is accepted exactly when
  it is well formed, does not go back in time and finds its server known or fewer than 32 servers
  registered; then it maps the identifier to the entry and the time and changes nothing else, and
  otherwise it changes nothing.  Eviction removes exactly the servers not seen for 15 seconds and
  returns how many it removed.  Both keep the invariant.\<close>

theorem directory_registry_refines_map:
  assumes "registry_ok reg" and "length (ds_host (dh_server hb)) = 64"
  shows "(case ShroomDirectoryRegistryRegister (Some reg) (Some hb) n (Some host) now of
            (accepted, reg') \<Rightarrow> reg' \<noteq> None \<and> registry_ok (the reg') \<and>
              (case advertised hb n host of
                 Some e \<Rightarrow> accepted = may_store (registered reg) (ds_server_id e) now \<and>
                   (if accepted then registered (the reg') = (registered reg)(ds_server_id e \<mapsto> (e, now))
                    else the reg' = reg)
               | None \<Rightarrow> \<not> accepted \<and> the reg' = reg)) \<and>
         (case ShroomDirectoryRegistryEvictExpired (Some reg) now of
            (evicted, reg') \<Rightarrow> reg' \<noteq> None \<and> registry_ok (the reg') \<and>
              registered (the reg') = (\<lambda>id'. Option.bind (registered reg id')
                (\<lambda>(e, seen). if unat seen + 15000 \<le> unat now then None else Some (e, seen))) \<and>
              evicted + card (dom (registered (the reg'))) = card (dom (registered reg)))"
proof
  show "case ShroomDirectoryRegistryEvictExpired (Some reg) now of
      (evicted, reg') \<Rightarrow> reg' \<noteq> None \<and> registry_ok (the reg') \<and>
        registered (the reg') = (\<lambda>id'. Option.bind (registered reg id')
          (\<lambda>(e, seen). if unat seen + 15000 \<le> unat now then None else Some (e, seen))) \<and>
        evicted + card (dom (registered (the reg'))) = card (dom (registered reg))"
  proof (cases "ShroomDirectoryRegistryEvictExpired (Some reg) now")
    case (Pair evicted reg')
    from evict_refines [OF assms(1) Pair] show ?thesis unfolding Pair prod.case .
  qed
next
  show "case ShroomDirectoryRegistryRegister (Some reg) (Some hb) n (Some host) now of
      (accepted, reg') \<Rightarrow> reg' \<noteq> None \<and> registry_ok (the reg') \<and>
        (case advertised hb n host of
           Some e \<Rightarrow> accepted = may_store (registered reg) (ds_server_id e) now \<and>
             (if accepted then registered (the reg') = (registered reg)(ds_server_id e \<mapsto> (e, now))
              else the reg' = reg)
         | None \<Rightarrow> \<not> accepted \<and> the reg' = reg)"
  proof (cases "advertised hb n host")
    case None
    with assms(1) show ?thesis by (simp add: register_eq)
  next
    case (Some e)
    have "entry_ok e" using advertised_ok [OF Some] assms(2) by (simp add: SHROOM_DIRECTORY_HOST_LENGTH_def)
    from store_entry_refines [OF assms(1) this, of now] Some assms(1) show ?thesis
      by (cases "store_entry (dr_registrations reg) e now") (simp_all add: register_eq)
  qed
qed

definition witness_registry :: ShroomDirectoryRegistry where
  "witness_registry = \<lparr>dr_registrations = replicate 32 zero_registration\<rparr>"

definition witness_heartbeat :: ShroomDirectoryHeartbeatPacket where
  "witness_heartbeat = \<lparr>dh_header = \<lparr>ph_type = 26, ph_reserved = 0, ph_size = 136\<rparr>, dh_protocol_version = 1,
     dh_server = \<lparr>ds_server_id = 7, ds_name = 65 # replicate 47 0, ds_host = replicate 64 0, ds_port = 7777,
       ds_player_count = 2, ds_capacity = 300, ds_reserved = 9\<rparr>\<rparr>"

definition witness_entry :: ShroomDirectoryServerEntry where
  "witness_entry = \<lparr>ds_server_id = StableEndpointId ([0x31] @ replicate 63 0) 7777, ds_name = 65 # replicate 47 0,
     ds_host = [0x31] @ replicate 63 0, ds_port = 7777, ds_player_count = 2, ds_capacity = 256, ds_reserved = 0\<rparr>"

lemma witness_registry: "registry_ok witness_registry" "registered witness_registry = Map.empty"
  by (simp_all add: witness_registry_def registry_ok_def registered_def zero_registration_def
      SHROOM_DIRECTORY_MAX_ENTRIES_def fun_eq_iff)

lemma witness_bytes: "terminated_printable True (replicate 47 0)" "0 # replicate 62 (0 :: u8) = replicate 63 0"
  by (simp_all add: numeral_eq_Suc)

lemma witness_host: "length (ds_host (dh_server witness_heartbeat)) = 64"
  by (simp add: witness_heartbeat_def)

lemma witness_advertised: "advertised witness_heartbeat 136 [0x31] = Some witness_entry"
  by (simp add: advertised_def witness_heartbeat_def witness_entry_def observed_entry_def ValidateAndClampEntry_def
      snprintf_s_def c_string_def StableEndpointId_def hash_byte_def IsTerminatedPrintableText_def
      IsValidAdvertisedHost_def host_char_def isalnum_def isalpha_def isdigit_def isprint_def isspace_def
      SHROOM_DIRECTORY_HOST_LENGTH_def SHROOM_DIRECTORY_SERVER_NAME_LENGTH_def SHROOM_SERVER_MAX_CLIENTS_def
      SHROOM_DIRECTORY_PROTOCOL_VERSION_def word_le_nat_alt word_less_nat_alt witness_bytes)

theorem directory_registry_refines_map_witness:
  "fst (ShroomDirectoryRegistryRegister (Some witness_registry) (Some witness_heartbeat) 136 (Some [0x31]) 1000) \<and>
   registry_ok (the (snd (ShroomDirectoryRegistryRegister (Some witness_registry) (Some witness_heartbeat) 136 (Some [0x31]) 1000)))"
  using directory_registry_refines_map [OF witness_registry(1), where hb = witness_heartbeat and n = 136
      and host = "[0x31]" and now = 1000]
  by (simp add: witness_host witness_advertised may_store_def witness_registry(2) SHROOM_DIRECTORY_MAX_ENTRIES_def
      split: prod.splits)

end
