(* ===== verification/Server_Discovery.thy ===== *)
theory Server_Discovery
  imports Directory_Registry Chunk_Receipts "HOL-Library.Multiset"
begin

text \<open>
  The client's search for servers (\<open>src/src/client/server_discovery_state.c\<close>): it collects the
  directory's list from its chunks, probes every server that is not full, and ends when each
  probe is answered or given up.  The sending of packets (\<open>server_discovery.c\<close>) is ENet calls
  and not modelled.
\<close>

definition SHROOM_PROTOCOL_VERSION :: u32 where "SHROOM_PROTOCOL_VERSION = 18"
definition SHROOM_DISCOVERY_PROBE_TIMEOUT_MS :: u64 where "SHROOM_DISCOVERY_PROBE_TIMEOUT_MS = 2000"
definition SHROOM_DISCOVERY_OVERALL_TIMEOUT_MS :: u64 where "SHROOM_DISCOVERY_OVERALL_TIMEOUT_MS = 5000"

datatype ShroomDiscoveryPhase =
    SHROOM_DISCOVERY_IDLE
  | SHROOM_DISCOVERY_DIRECTORY
  | SHROOM_DISCOVERY_PROBING
  | SHROOM_DISCOVERY_COMPLETE
  | SHROOM_DISCOVERY_FAILED
  | SHROOM_DISCOVERY_CANCELLED

datatype ShroomDiscoveryCandidateStatus =
    SHROOM_DISCOVERY_CANDIDATE_PENDING
  | SHROOM_DISCOVERY_CANDIDATE_REACHABLE
  | SHROOM_DISCOVERY_CANDIDATE_UNAVAILABLE

record ShroomDiscoveryCandidate =
  dc_server :: ShroomDirectoryServerEntry
  dc_probe_started_ms :: u64
  dc_probe_nonce :: u32
  dc_latency_ms :: u16
  dc_status :: ShroomDiscoveryCandidateStatus

text \<open>The candidates in use are the list; its length is \<open>candidate_count\<close>.\<close>

record ShroomServerDiscoveryState =
  sd_phase :: ShroomDiscoveryPhase
  sd_generation :: u32
  sd_started_ms :: u64
  sd_received_directory_chunks :: u32
  sd_directory_chunk_count :: u8
  sd_full_server_count :: nat
  sd_candidates :: "ShroomDiscoveryCandidate list"

record ShroomServerProbeResponsePacket =
  pr_header :: ShroomPacketHeader
  pr_protocol_version :: u32
  pr_generation :: u32
  pr_nonce :: u32
  pr_player_count :: u16
  pr_capacity :: u16

section \<open>Entries of the directory\<close>

definition TextIsTerminated :: "u8 list \<Rightarrow> nat \<Rightarrow> bool" where
  "TextIsTerminated bytes capacity \<longleftrightarrow> 0 \<in> set (take capacity bytes) \<and> hd bytes \<noteq> 0"

definition CandidateMatches :: "ShroomDirectoryServerEntry \<Rightarrow> ShroomDirectoryServerEntry \<Rightarrow> bool" where
  "CandidateMatches left right \<longleftrightarrow> ds_port left = ds_port right \<and> same_text (ds_host left) (ds_host right)"

text \<open>The entry with its capacity clamped, and whether it has a free place; \<open>None\<close>: it is invalid.\<close>

definition NormalizeEntry :: "ShroomDirectoryServerEntry \<Rightarrow> (ShroomDirectoryServerEntry \<times> bool) option" where
  "NormalizeEntry entry =
     (if ds_server_id entry = 0 \<or>
         \<not> TextIsTerminated (ds_name entry) SHROOM_DIRECTORY_SERVER_NAME_LENGTH \<or>
         \<not> TextIsTerminated (ds_host entry) SHROOM_DIRECTORY_HOST_LENGTH \<or> ds_port entry = 0 \<or>
         ds_capacity entry = 0 \<or> ds_capacity entry < ds_player_count entry \<or>
         SHROOM_SERVER_MAX_CLIENTS < unat (ds_player_count entry)
      then None
      else
        let entry = entry\<lparr>ds_capacity := if SHROOM_SERVER_MAX_CLIENTS < unat (ds_capacity entry)
                            then word_of_nat SHROOM_SERVER_MAX_CLIENTS else ds_capacity entry,
                          ds_reserved := 0\<rparr>
        in Some (entry, ds_player_count entry < ds_capacity entry))"

definition is_full_server :: "ShroomDirectoryServerEntry \<Rightarrow> bool" where
  "is_full_server entry \<longleftrightarrow>
     0 < ds_capacity entry \<and> ds_player_count entry = ds_capacity entry \<and>
     unat (ds_player_count entry) \<le> SHROOM_SERVER_MAX_CLIENTS \<and>
     TextIsTerminated (ds_name entry) SHROOM_DIRECTORY_SERVER_NAME_LENGTH \<and>
     TextIsTerminated (ds_host entry) SHROOM_DIRECTORY_HOST_LENGTH \<and> ds_server_id entry \<noteq> 0 \<and> ds_port entry \<noteq> 0"

definition new_candidate :: "ShroomDirectoryServerEntry \<Rightarrow> ShroomDiscoveryCandidate" where
  "new_candidate entry = \<lparr>dc_server = entry, dc_probe_started_ms = 0, dc_probe_nonce = 0, dc_latency_ms = 0,
     dc_status = SHROOM_DISCOVERY_CANDIDATE_PENDING\<rparr>"

definition AddDirectoryEntry :: "ShroomServerDiscoveryState \<Rightarrow> ShroomDirectoryServerEntry \<Rightarrow> ShroomServerDiscoveryState" where
  "AddDirectoryEntry state source =
     (let state = (if is_full_server source
                   then state\<lparr>sd_full_server_count := sd_full_server_count state + 1\<rparr> else state)
      in case NormalizeEntry source of
           None \<Rightarrow> state
         | Some (entry, has_room) \<Rightarrow>
             if \<not> has_room then state
             else if list_ex (\<lambda>c. CandidateMatches (dc_server c) entry) (sd_candidates state) then state
             else if length (sd_candidates state) < SHROOM_DIRECTORY_MAX_ENTRIES
             then state\<lparr>sd_candidates := sd_candidates state @ [new_candidate entry]\<rparr>
             else state)"

section \<open>Operations\<close>

definition no_pending :: "ShroomDiscoveryCandidate list \<Rightarrow> bool" where
  "no_pending candidates \<longleftrightarrow> list_all (\<lambda>c. dc_status c \<noteq> SHROOM_DISCOVERY_CANDIDATE_PENDING) candidates"

definition MaybeFinish :: "ShroomServerDiscoveryState \<Rightarrow> ShroomServerDiscoveryState" where
  "MaybeFinish state =
     (if sd_phase state \<noteq> SHROOM_DISCOVERY_PROBING then state
      else if \<not> no_pending (sd_candidates state) then state
      else state\<lparr>sd_phase := SHROOM_DISCOVERY_COMPLETE\<rparr>)"

definition zero_discovery :: ShroomServerDiscoveryState where
  "zero_discovery = \<lparr>sd_phase = SHROOM_DISCOVERY_IDLE, sd_generation = 0, sd_started_ms = 0,
     sd_received_directory_chunks = 0, sd_directory_chunk_count = 0, sd_full_server_count = 0, sd_candidates = []\<rparr>"

definition ShroomServerDiscoveryStateBegin :: "u32 \<Rightarrow> u64 \<Rightarrow> ShroomServerDiscoveryState" where
  "ShroomServerDiscoveryStateBegin generation now_ms =
     (if generation = 0 then zero_discovery\<lparr>sd_phase := SHROOM_DISCOVERY_FAILED\<rparr>
      else zero_discovery\<lparr>sd_phase := SHROOM_DISCOVERY_DIRECTORY, sd_generation := generation,
                          sd_started_ms := now_ms\<rparr>)"

definition directory_list_valid :: "ShroomServerDiscoveryState \<Rightarrow> ShroomDirectoryListPacket \<Rightarrow> nat \<Rightarrow> u64 \<Rightarrow> bool" where
  "directory_list_valid state packet packet_size now_ms \<longleftrightarrow>
     \<not> (sd_phase state \<noteq> SHROOM_DISCOVERY_DIRECTORY \<or> now_ms < sd_started_ms state \<or>
        SHROOM_DISCOVERY_OVERALL_TIMEOUT_MS \<le> now_ms - sd_started_ms state \<or>
        packet_size < SHROOM_DIRECTORY_LIST_HEADER_SIZE \<or>
        unat (ph_type (dl_header packet)) \<noteq> SHROOM_PACKET_DIRECTORY_LIST \<or>
        unat (ph_size (dl_header packet)) \<noteq> packet_size \<or>
        dl_protocol_version packet \<noteq> SHROOM_DIRECTORY_PROTOCOL_VERSION \<or>
        dl_generation packet \<noteq> sd_generation state \<or> dl_chunk_count packet = 0 \<or>
        SHROOM_DIRECTORY_MAX_ENTRIES < unat (dl_chunk_count packet) \<or>
        dl_chunk_count packet \<le> dl_chunk_index packet \<or>
        SHROOM_DIRECTORY_ENTRIES_PER_PACKET < unat (dl_entry_count packet) \<or>
        packet_size \<noteq> SHROOM_DIRECTORY_LIST_PACKET_SIZE (unat (dl_entry_count packet)))"

definition got_chunk :: "u32 \<Rightarrow> nat \<Rightarrow> bool" where
  "got_chunk received index \<longleftrightarrow> received AND push_bit index 1 \<noteq> 0"

definition note_chunk :: "u32 \<Rightarrow> nat \<Rightarrow> u32" where
  "note_chunk received index = received OR push_bit index 1"

definition all_chunks :: "nat \<Rightarrow> u32" where
  "all_chunks chunk_count = (if chunk_count = 32 then 0xFFFFFFFF else push_bit chunk_count 1 - 1)"

text \<open>The entries of a chunk that has not been received, and the end of the list.\<close>

definition store_list_chunk :: "ShroomServerDiscoveryState \<Rightarrow> ShroomDirectoryListPacket \<Rightarrow> ShroomServerDiscoveryState" where
  "store_list_chunk state packet =
     (let state = state\<lparr>sd_directory_chunk_count := dl_chunk_count packet\<rparr>;
          chunk_index = unat (dl_chunk_index packet)
      in if \<not> got_chunk (sd_received_directory_chunks state) chunk_index
         then
           let state = fold (\<lambda>entry state. AddDirectoryEntry state entry)
                         (take (unat (dl_entry_count packet)) (dl_entries packet)) state
           in state\<lparr>sd_received_directory_chunks := note_chunk (sd_received_directory_chunks state) chunk_index\<rparr>
         else state)"

definition finish_list :: "ShroomServerDiscoveryState \<Rightarrow> ShroomServerDiscoveryState" where
  "finish_list state =
     (if sd_received_directory_chunks state = all_chunks (unat (sd_directory_chunk_count state))
      then state\<lparr>sd_phase := if length (sd_candidates state) = 0
                   then SHROOM_DISCOVERY_COMPLETE else SHROOM_DISCOVERY_PROBING\<rparr>
      else state)"

definition ShroomServerDiscoveryStateIngestDirectory ::
  "ShroomServerDiscoveryState \<Rightarrow> ShroomDirectoryListPacket \<Rightarrow> nat \<Rightarrow> u64 \<Rightarrow> bool \<times> ShroomServerDiscoveryState" where
  "ShroomServerDiscoveryStateIngestDirectory state packet packet_size now_ms =
     (if \<not> directory_list_valid state packet packet_size now_ms then (False, state)
      else if sd_directory_chunk_count state \<noteq> 0 \<and> sd_directory_chunk_count state \<noteq> dl_chunk_count packet
      then (False, state)
      else (True, finish_list (store_list_chunk state packet)))"

definition ShroomServerDiscoveryStateStartProbe ::
  "ShroomServerDiscoveryState \<Rightarrow> nat \<Rightarrow> u32 \<Rightarrow> u64 \<Rightarrow> bool \<times> ShroomServerDiscoveryState" where
  "ShroomServerDiscoveryStateStartProbe state index nonce now_ms =
     (if sd_phase state \<noteq> SHROOM_DISCOVERY_PROBING \<or> length (sd_candidates state) \<le> index \<or> nonce = 0 \<or>
         now_ms < sd_started_ms state
      then (False, state)
      else
        let candidate = sd_candidates state ! index
        in if dc_status candidate \<noteq> SHROOM_DISCOVERY_CANDIDATE_PENDING \<or> dc_probe_started_ms candidate \<noteq> 0
           then (False, state)
           else (True, state\<lparr>sd_candidates := (sd_candidates state)[index :=
                   candidate\<lparr>dc_probe_nonce := nonce,
                             dc_probe_started_ms := if now_ms = 0 then 1 else now_ms\<rparr>]\<rparr>))"

text \<open>The candidate after an answer with room for players or without.\<close>

definition answered :: "ShroomDiscoveryCandidate \<Rightarrow> u16 \<Rightarrow> u16 \<Rightarrow> u64 \<Rightarrow> ShroomDiscoveryCandidate" where
  "answered candidate player_count capacity now_ms =
     (let candidate = candidate\<lparr>dc_server := (dc_server candidate)\<lparr>ds_player_count := player_count,
                                                                   ds_capacity := capacity\<rparr>\<rparr>
      in if capacity \<le> player_count
         then candidate\<lparr>dc_status := SHROOM_DISCOVERY_CANDIDATE_UNAVAILABLE\<rparr>
         else
           let elapsed = now_ms - dc_probe_started_ms candidate
           in candidate\<lparr>dc_latency_ms := if 0xFFFF < elapsed then 0xFFFF else ucast elapsed,
                        dc_status := SHROOM_DISCOVERY_CANDIDATE_REACHABLE\<rparr>)"

definition ShroomServerDiscoveryStateAcceptProbe ::
  "ShroomServerDiscoveryState \<Rightarrow> nat \<Rightarrow> ShroomServerProbeResponsePacket \<Rightarrow> nat \<Rightarrow> u64 \<Rightarrow>
     bool \<times> ShroomServerDiscoveryState" where
  "ShroomServerDiscoveryStateAcceptProbe state index packet packet_size now_ms =
     (if sd_phase state \<noteq> SHROOM_DISCOVERY_PROBING \<or> length (sd_candidates state) \<le> index \<or>
         packet_size \<noteq> size_of ShroomServerProbeResponsePacket_layout \<or>
         unat (ph_type (pr_header packet)) \<noteq> SHROOM_PACKET_SERVER_PROBE_RESPONSE \<or>
         unat (ph_size (pr_header packet)) \<noteq> size_of ShroomServerProbeResponsePacket_layout \<or>
         pr_protocol_version packet \<noteq> SHROOM_PROTOCOL_VERSION \<or> pr_generation packet \<noteq> sd_generation state
      then (False, state)
      else
        let candidate = sd_candidates state ! index
        in if dc_status candidate \<noteq> SHROOM_DISCOVERY_CANDIDATE_PENDING \<or> dc_probe_started_ms candidate = 0 \<or>
              pr_nonce packet \<noteq> dc_probe_nonce candidate \<or> now_ms < dc_probe_started_ms candidate
           then (False, state)
           else
             let capacity = (if SHROOM_SERVER_MAX_CLIENTS < unat (pr_capacity packet)
                             then word_of_nat SHROOM_SERVER_MAX_CLIENTS else pr_capacity packet)
             in if capacity = 0 \<or> capacity < pr_player_count packet then (False, state)
                else (True, MaybeFinish (state\<lparr>sd_candidates := (sd_candidates state)[index :=
                              answered candidate (pr_player_count packet) capacity now_ms]\<rparr>)))"

definition give_up :: "ShroomDiscoveryCandidate \<Rightarrow> ShroomDiscoveryCandidate" where
  "give_up candidate =
     (if dc_status candidate = SHROOM_DISCOVERY_CANDIDATE_PENDING
      then candidate\<lparr>dc_status := SHROOM_DISCOVERY_CANDIDATE_UNAVAILABLE\<rparr> else candidate)"

definition ShroomServerDiscoveryStateMarkUnavailable ::
  "ShroomServerDiscoveryState \<Rightarrow> nat \<Rightarrow> ShroomServerDiscoveryState" where
  "ShroomServerDiscoveryStateMarkUnavailable state index =
     (if sd_phase state \<noteq> SHROOM_DISCOVERY_PROBING \<or> length (sd_candidates state) \<le> index then state
      else MaybeFinish (state\<lparr>sd_candidates := (sd_candidates state)[index := give_up (sd_candidates state ! index)]\<rparr>))"

definition probe_expired :: "ShroomServerDiscoveryState \<Rightarrow> ShroomDiscoveryCandidate \<Rightarrow> u64 \<Rightarrow> bool" where
  "probe_expired state candidate now_ms \<longleftrightarrow>
     dc_status candidate = SHROOM_DISCOVERY_CANDIDATE_PENDING \<and>
     ((dc_probe_started_ms candidate \<noteq> 0 \<and> dc_probe_started_ms candidate \<le> now_ms \<and>
       SHROOM_DISCOVERY_PROBE_TIMEOUT_MS \<le> now_ms - dc_probe_started_ms candidate) \<or>
      SHROOM_DISCOVERY_OVERALL_TIMEOUT_MS \<le> now_ms - sd_started_ms state)"

definition ShroomServerDiscoveryStateUpdate :: "ShroomServerDiscoveryState \<Rightarrow> u64 \<Rightarrow> ShroomServerDiscoveryState" where
  "ShroomServerDiscoveryStateUpdate state now_ms =
     (if now_ms < sd_started_ms state then state
      else if sd_phase state = SHROOM_DISCOVERY_DIRECTORY \<and>
              SHROOM_DISCOVERY_OVERALL_TIMEOUT_MS \<le> now_ms - sd_started_ms state
      then state\<lparr>sd_phase := SHROOM_DISCOVERY_FAILED\<rparr>
      else if sd_phase state \<noteq> SHROOM_DISCOVERY_PROBING then state
      else MaybeFinish (state\<lparr>sd_candidates := map (\<lambda>c. if probe_expired state c now_ms
                              then c\<lparr>dc_status := SHROOM_DISCOVERY_CANDIDATE_UNAVAILABLE\<rparr> else c)
                              (sd_candidates state)\<rparr>))"

definition ShroomServerDiscoveryStateFailDirectory :: "ShroomServerDiscoveryState \<Rightarrow> ShroomServerDiscoveryState" where
  "ShroomServerDiscoveryStateFailDirectory state =
     (if sd_phase state = SHROOM_DISCOVERY_DIRECTORY then state\<lparr>sd_phase := SHROOM_DISCOVERY_FAILED\<rparr> else state)"

definition ShroomServerDiscoveryStateCancel :: "ShroomServerDiscoveryState \<Rightarrow> ShroomServerDiscoveryState" where
  "ShroomServerDiscoveryStateCancel state =
     (if sd_phase state \<noteq> SHROOM_DISCOVERY_IDLE then state\<lparr>sd_phase := SHROOM_DISCOVERY_CANCELLED\<rparr> else state)"

definition ShroomServerDiscoveryStateResultCount :: "ShroomServerDiscoveryState \<Rightarrow> nat" where
  "ShroomServerDiscoveryStateResultCount state =
     count_if (\<lambda>c. dc_status c = SHROOM_DISCOVERY_CANDIDATE_REACHABLE) (sd_candidates state)"

fun nth_reachable :: "ShroomDiscoveryCandidate list \<Rightarrow> nat \<Rightarrow> ShroomDiscoveryCandidate option" where
  "nth_reachable [] result_index = None"
| "nth_reachable (c # cs) result_index =
     (if dc_status c = SHROOM_DISCOVERY_CANDIDATE_REACHABLE
      then if result_index = 0 then Some c else nth_reachable cs (result_index - 1)
      else nth_reachable cs result_index)"

definition ShroomServerDiscoveryStateResult ::
  "ShroomServerDiscoveryState \<Rightarrow> nat \<Rightarrow> ShroomDiscoveryCandidate option" where
  "ShroomServerDiscoveryStateResult state result_index = nth_reachable (sd_candidates state) result_index"

section \<open>The chunks of the list as receipts\<close>

lemma got_chunk_bit: "got_chunk received i \<longleftrightarrow> bit received i"
  by (simp add: got_chunk_def bit_iff_and_push_bit_not_eq_0)

interpretation list_chunks: chunk_receipts "0 :: u32" got_chunk note_chunk "\<lambda>_. True" 32
proof
  fix m :: u32 and i j :: nat
  show "\<not> got_chunk 0 i" if "i < 32" by (simp add: got_chunk_def)
  show "got_chunk (note_chunk m i) j \<longleftrightarrow> got_chunk m j \<or> j = i" if "i < 32" "j < 32"
    using that by (auto simp: got_chunk_bit note_chunk_def bit_or_iff bit_exp_iff)
qed simp_all

lemma all_chunks_mask: "n \<le> 32 \<Longrightarrow> all_chunks n = mask n"
  by (auto simp: all_chunks_def mask_eq_exp_minus_1)

lemma all_chunks_iff:
  assumes "list_chunks.holds m I" and "n \<le> 32" and "I \<subseteq> {..<n}"
  shows "m = all_chunks n \<longleftrightarrow> I = {..<n}"
proof -
  have "m = mask n \<longleftrightarrow> (\<forall>j < 32. bit m j \<longleftrightarrow> j < n)"
    by (auto simp: bit_eq_iff bit_mask_iff)
  also have "\<dots> \<longleftrightarrow> (\<forall>j < 32. j \<in> I \<longleftrightarrow> j < n)" using assms(1) by (auto simp: list_chunks.holds_def got_chunk_bit)
  also have "\<dots> \<longleftrightarrow> I = {..<n}" using assms(2,3) by force
  finally show ?thesis by (simp add: all_chunks_mask [OF assms(2)])
qed

section \<open>Adding the entries of a chunk\<close>

abbreviation endpoint :: "ShroomDirectoryServerEntry \<Rightarrow> u16 \<times> u8 list" where
  "endpoint e \<equiv> (ds_port e, c_string (ds_host e))"

abbreviation has_place :: "ShroomDirectoryServerEntry \<Rightarrow> bool" where
  "has_place e \<equiv> ds_player_count e < ds_capacity e"

abbreviation is_full :: "ShroomDirectoryServerEntry \<Rightarrow> bool" where
  "is_full e \<equiv> ds_player_count e = ds_capacity e"

lemma CandidateMatches_iff: "CandidateMatches a b \<longleftrightarrow> endpoint a = endpoint b"
  by (auto simp: CandidateMatches_def same_text_def)

lemma printable_terminated: "terminated_printable v bytes \<Longrightarrow> 0 \<in> set bytes"
  by (induction v bytes rule: terminated_printable.induct) (auto split: if_splits)

lemma printable_text: "IsTerminatedPrintableText bytes n \<Longrightarrow> TextIsTerminated bytes n"
proof -
  assume a: "IsTerminatedPrintableText bytes n"
  then have "0 \<in> set (take n bytes)" unfolding IsTerminatedPrintableText_def by (rule printable_terminated)
  moreover have "hd bytes \<noteq> 0"
    using a by (cases bytes; cases n) (auto simp: IsTerminatedPrintableText_def split: if_splits)
  ultimately show ?thesis by (simp add: TextIsTerminated_def)
qed

lemma advertised_host_text:
  assumes "IsValidAdvertisedHost host n" and "length host = n"
  shows "TextIsTerminated host n"
proof -
  have "c_string host \<noteq> []" "length (c_string host) \<noteq> n"
    using assms by (auto simp: IsValidAdvertisedHost_def c_string_def Let_def split: if_splits)
  then have "0 \<in> set host" using assms(2) c_string_length [of host] by (simp add: c_string_short)
  with \<open>c_string host \<noteq> []\<close> assms(2) show ?thesis
    by (cases host) (auto simp: TextIsTerminated_def c_string_def)
qed

text \<open>What the client does with a valid entry of the directory.\<close>

lemma NormalizeEntry_listable: "entry_ok e \<Longrightarrow> NormalizeEntry e = Some (e, has_place e)"
  using advertised_host_text [of "ds_host e" SHROOM_DIRECTORY_HOST_LENGTH]
  by (auto simp: NormalizeEntry_def entry_ok_def printable_text Let_def word_le_nat_alt word_less_nat_alt)

lemma is_full_server_listable: "entry_ok e \<Longrightarrow> is_full_server e \<longleftrightarrow> is_full e"
  using advertised_host_text [of "ds_host e" SHROOM_DIRECTORY_HOST_LENGTH]
  by (auto simp: is_full_server_def entry_ok_def printable_text word_le_nat_alt word_less_nat_alt
      word_unat_eq_iff)

lemma add_listable:
  assumes "entry_ok e" and "has_place e \<Longrightarrow> endpoint e \<notin> (endpoint \<circ> dc_server) ` set (sd_candidates s)"
    and "has_place e \<Longrightarrow> length (sd_candidates s) < 32"
  shows "AddDirectoryEntry s e =
    s\<lparr>sd_full_server_count := sd_full_server_count s + (if is_full e then 1 else 0),
      sd_candidates := sd_candidates s @ (if has_place e then [new_candidate e] else [])\<rparr>"
proof (cases "has_place e")
  case True
  have none: "\<not> list_ex (\<lambda>c. CandidateMatches (dc_server c) e) (sd_candidates s)"
    using assms(2) [OF True] by (force simp: list_ex_iff CandidateMatches_iff)
  from True have "\<not> is_full e" by auto
  with none True assms(3) [OF True] show ?thesis
    by (simp add: AddDirectoryEntry_def NormalizeEntry_listable [OF assms(1)] is_full_server_listable [OF assms(1)]
        SHROOM_DIRECTORY_MAX_ENTRIES_def)
next
  case False
  then show ?thesis
    by (simp add: AddDirectoryEntry_def NormalizeEntry_listable [OF assms(1)] is_full_server_listable [OF assms(1)] Let_def)
qed

lemma add_chunk:
  assumes "list_all entry_ok es"
    and "distinct (map endpoint (map dc_server (sd_candidates s) @ filter has_place es))"
    and "length (sd_candidates s) + length (filter has_place es) \<le> 32"
  shows "fold (\<lambda>e s. AddDirectoryEntry s e) es s =
    s\<lparr>sd_full_server_count := sd_full_server_count s + count_if is_full es,
      sd_candidates := sd_candidates s @ map new_candidate (filter has_place es)\<rparr>"
  using assms
proof (induction es arbitrary: s)
  case Nil
  then show ?case by simp
next
  case (Cons e es)
  let ?s = "s\<lparr>sd_full_server_count := sd_full_server_count s + (if is_full e then 1 else 0),
      sd_candidates := sd_candidates s @ (if has_place e then [new_candidate e] else [])\<rparr>"
  have "AddDirectoryEntry s e = ?s"
    using Cons.prems by (intro add_listable) (auto simp: image_comp [symmetric] image_image)
  moreover have "fold (\<lambda>e s. AddDirectoryEntry s e) es ?s =
    ?s\<lparr>sd_full_server_count := sd_full_server_count ?s + count_if is_full es,
      sd_candidates := sd_candidates ?s @ map new_candidate (filter has_place es)\<rparr>"
    using Cons.prems by (intro Cons.IH) (auto simp: new_candidate_def split: if_splits)
  ultimately show ?case by simp
qed

section \<open>The chunks of a list\<close>

definition chunk_of :: "'a list \<Rightarrow> nat \<Rightarrow> 'a list" where
  "chunk_of es i = take 7 (drop (i * 7) es)"

text \<open>The positions in the list of the entries of chunk \<open>i\<close>.\<close>

definition chunk_range :: "nat \<Rightarrow> nat \<Rightarrow> nat list" where
  "chunk_range n i = [i * 7..<min (i * 7 + 7) n]"

lemma set_chunk_range: "set (chunk_range n i) = {k. k < n \<and> k div 7 = i}"
  by (auto simp: chunk_range_def)

lemma distinct_chunk_range: "distinct (chunk_range n i)"
  by (simp add: chunk_range_def)

lemma chunk_of_nth: "chunk_of es i = map ((!) es) (chunk_range (length es) i)"
proof -
  have "take 7 [i * 7..<length es] = [i * 7..<min (i * 7 + 7) (length es)]"
    by (cases "i * 7 + 7 \<le> length es") (simp_all add: take_upt min_def)
  then have "take 7 (drop (i * 7) (map ((!) es) [0..<length es])) = map ((!) es) (chunk_range (length es) i)"
    by (simp only: drop_map take_map drop_upt add_0 chunk_range_def)
  then show ?thesis unfolding chunk_of_def map_nth .
qed

lemma chunk_indices:
  assumes "distinct D"
  shows "distinct (concat (map (chunk_range n) D))"
    and "set (concat (map (chunk_range n) D)) = {k. k < n \<and> k div 7 \<in> set D}"
  using assms by (induction D) (auto simp: set_chunk_range distinct_chunk_range)

lemma chunks_concat: "concat (map (chunk_of es) D) = map ((!) es) (concat (map (chunk_range (length es)) D))"
  by (induction D) (simp_all add: chunk_of_nth)

lemma chunks_distinct:
  assumes "distinct D" and "distinct (map f es)"
  shows "distinct (map f (concat (map (chunk_of es) D)))" and "length (concat (map (chunk_of es) D)) \<le> length es"
    and "set (concat (map (chunk_of es) D)) \<subseteq> set es"
proof -
  let ?is = "concat (map (chunk_range (length es)) D)"
  have sub: "set ?is \<subseteq> {..<length es}" unfolding chunk_indices(2) [OF assms(1)] by auto
  have "map f (concat (map (chunk_of es) D)) = map ((!) (map f es)) ?is"
    unfolding chunks_concat map_map using sub by (intro map_cong) auto
  moreover have "inj_on ((!) (map f es)) (set ?is)"
    using sub by (intro inj_on_nth [OF assms(2)]) auto
  ultimately show "distinct (map f (concat (map (chunk_of es) D)))"
    using chunk_indices(1) [OF assms(1)] by (simp add: distinct_map)
  show "length (concat (map (chunk_of es) D)) \<le> length es"
    using card_mono [OF _ sub] distinct_card [OF chunk_indices(1) [OF assms(1)]]
    unfolding chunks_concat length_map by simp
  show "set (concat (map (chunk_of es) D)) \<subseteq> set es" using sub unfolding chunks_concat set_map by auto
qed

lemma chunks_complete:
  assumes "distinct D" and "set D = {..<n}" and "length es \<le> n * 7"
  shows "mset (concat (map (chunk_of es) D)) = mset es"
proof -
  let ?is = "concat (map (chunk_range (length es)) D)"
  have "set ?is = set [0..<length es]"
    unfolding chunk_indices(2) [OF assms(1)] assms(2) using assms(3) by (auto simp: div_less_iff_less_mult)
  then have "mset ?is = mset [0..<length es]"
    by (intro set_eq_iff_mset_eq_distinct [THEN iffD1] chunk_indices(1) [OF assms(1)] distinct_upt)
  then have "mset (map ((!) es) ?is) = mset (map ((!) es) [0..<length es])" by (metis mset_map)
  then show ?thesis by (simp add: chunks_concat map_nth)
qed

section \<open>From the directory to the client\<close>

lemma list_size: "SHROOM_DIRECTORY_LIST_PACKET_SIZE n = 16 + n * 128" "SHROOM_DIRECTORY_LIST_HEADER_SIZE = 16"
  by (simp_all add: SHROOM_DIRECTORY_LIST_PACKET_SIZE_def SHROOM_DIRECTORY_LIST_HEADER_SIZE_def size_simps)

lemma chunk_count_bounds:
  assumes "n \<le> 32"
  shows "0 < ShroomDirectoryListChunkCount n" "ShroomDirectoryListChunkCount n \<le> 5" "n \<le> ShroomDirectoryListChunkCount n * 7"
  using assms by (auto simp: ShroomDirectoryListChunkCount_def SHROOM_DIRECTORY_MAX_ENTRIES_def
      SHROOM_DIRECTORY_ENTRIES_PER_PACKET_def min_def)

lemma built_packet:
  assumes "length es \<le> 32" and "gen \<noteq> 0" and "i < ShroomDirectoryListChunkCount (length es)"
  obtains pk n where "ShroomDirectoryBuildListPacket es gen i = Some (pk, n)"
    and "take (unat (dl_entry_count pk)) (dl_entries pk) = chunk_of es i"
    and "unat (dl_chunk_index pk) = i" and "unat (dl_chunk_count pk) = ShroomDirectoryListChunkCount (length es)"
    and "\<And>s now. directory_list_valid s pk n now \<longleftrightarrow> sd_phase s = SHROOM_DISCOVERY_DIRECTORY \<and> sd_generation s = gen \<and>
      unat (sd_started_ms s) \<le> unat now \<and> unat now < unat (sd_started_ms s) + 5000"
proof -
  let ?cc = "ShroomDirectoryListChunkCount (length es)"
  let ?count = "min (length es - i * 7) 7"
  let ?n = "16 + ?count * 128"
  let ?pk = "\<lparr>dl_header = the (ShroomPacketHeaderInit (Some \<lparr>ph_type = 0, ph_reserved = 0, ph_size = 0\<rparr>) 28 (word_of_nat ?n)),
      dl_protocol_version = 1, dl_generation = gen, dl_chunk_index = word_of_nat i, dl_chunk_count = word_of_nat ?cc,
      dl_entry_count = word_of_nat ?count, dl_entries = take ?count (drop (i * 7) es) @ replicate (7 - ?count) zero_entry\<rparr>"
  have i: "i < 5" using assms(3) chunk_count_bounds(2) [OF assms(1)] by simp
  have built: "ShroomDirectoryBuildListPacket es gen i = Some (?pk, ?n)"
    using assms by (simp add: ShroomDirectoryBuildListPacket_def SHROOM_DIRECTORY_MAX_ENTRIES_def
        SHROOM_DIRECTORY_ENTRIES_PER_PACKET_def SHROOM_DIRECTORY_PROTOCOL_VERSION_def list_size(1) Let_def if_distrib min_def)
  have count_word: "unat (word_of_nat ?count :: u8) = ?count" by (intro unat_word_of_nat_small) (simp add: min_def)
  have entries: "take (unat (dl_entry_count ?pk)) (dl_entries ?pk) = chunk_of es i"
    by (simp add: count_word) (simp add: chunk_of_def min_def)
  have index_word: "unat (word_of_nat i :: u8) = i" using i by (intro unat_word_of_nat_small) simp
  have cc_word: "unat (word_of_nat ?cc :: u8) = ?cc"
    using chunk_count_bounds(2) [OF assms(1)] by (intro unat_word_of_nat_small) simp
  have n_word: "unat (word_of_nat ?n :: u16) = ?n" by (intro unat_word_of_nat_small) (simp add: min_def)
  have valid: "directory_list_valid s ?pk ?n now \<longleftrightarrow> sd_phase s = SHROOM_DISCOVERY_DIRECTORY \<and> sd_generation s = gen \<and>
      unat (sd_started_ms s) \<le> unat now \<and> unat now < unat (sd_started_ms s) + 5000" for s now
  proof -
    have ranges: "(word_of_nat ?cc :: u8) \<noteq> 0" "\<not> (word_of_nat ?cc :: u8) \<le> word_of_nat i" "?cc \<le> 32" "?count \<le> 7"
      using cc_word index_word assms(3) chunk_count_bounds [OF assms(1)] by (auto simp: word_le_nat_alt)
    have time: "\<not> (now < sd_started_ms s \<or> 5000 \<le> now - sd_started_ms s) \<longleftrightarrow>
        unat (sd_started_ms s) \<le> unat now \<and> unat now < unat (sd_started_ms s) + 5000"
      by (auto simp: word_le_nat_alt word_less_nat_alt unat_sub_if')
    show ?thesis
      unfolding directory_list_valid_def
      using ranges time count_word n_word cc_word
      by (auto simp: ShroomPacketHeaderInit_def list_size SHROOM_DIRECTORY_PROTOCOL_VERSION_def
          SHROOM_DIRECTORY_MAX_ENTRIES_def SHROOM_DIRECTORY_ENTRIES_PER_PACKET_def SHROOM_DISCOVERY_OVERALL_TIMEOUT_MS_def)
  qed
  show ?thesis
  proof (rule that [of ?pk ?n])
    show "unat (dl_chunk_index ?pk) = i" "unat (dl_chunk_count ?pk) = ?cc" by (simp_all only: ShroomDirectoryListPacket.simps index_word cc_word)
  qed (fact built entries valid)+
qed

text \<open>The client receives the chunks of one list, each as often and in whatever order it arrives.\<close>

definition receive_chunk ::
  "ShroomDirectoryServerEntry list \<Rightarrow> u32 \<Rightarrow> nat \<times> u64 \<Rightarrow> ShroomServerDiscoveryState \<Rightarrow> ShroomServerDiscoveryState" where
  "receive_chunk es gen arrival s =
     (case ShroomDirectoryBuildListPacket es gen (fst arrival) of
        None \<Rightarrow> s
      | Some (pk, n) \<Rightarrow> snd (ShroomServerDiscoveryStateIngestDirectory s pk n (snd arrival)))"

definition listing_state ::
  "ShroomDirectoryServerEntry list \<Rightarrow> u32 \<Rightarrow> u64 \<Rightarrow> ShroomDiscoveryPhase \<Rightarrow> nat list \<Rightarrow> u32 \<Rightarrow> ShroomServerDiscoveryState" where
  "listing_state es gen started phase D received =
     (let got = concat (map (chunk_of es) D)
      in \<lparr>sd_phase = phase, sd_generation = gen, sd_started_ms = started, sd_received_directory_chunks = received,
         sd_directory_chunk_count = (if D = [] then 0 else word_of_nat (ShroomDirectoryListChunkCount (length es))),
         sd_full_server_count = count_if is_full got, sd_candidates = map new_candidate (filter has_place got)\<rparr>)"

text \<open>The state after the chunks \<open>D\<close>, complete or not.\<close>

definition final_phase :: "ShroomDirectoryServerEntry list \<Rightarrow> nat list \<Rightarrow> ShroomDiscoveryPhase" where
  "final_phase es D =
     (if set D \<noteq> {..<ShroomDirectoryListChunkCount (length es)} then SHROOM_DISCOVERY_DIRECTORY
      else if filter has_place (concat (map (chunk_of es) D)) = [] then SHROOM_DISCOVERY_COMPLETE
      else SHROOM_DISCOVERY_PROBING)"

definition listed :: "ShroomDirectoryServerEntry list \<Rightarrow> u32 \<Rightarrow> u64 \<Rightarrow> nat list \<Rightarrow> ShroomServerDiscoveryState \<Rightarrow> bool" where
  "listed es gen started D s \<longleftrightarrow>
     distinct D \<and> set D \<subseteq> {..<ShroomDirectoryListChunkCount (length es)} \<and>
     list_chunks.holds (sd_received_directory_chunks s) (set D) \<and>
     s = listing_state es gen started (final_phase es D) D (sd_received_directory_chunks s)"

lemma store_new_chunk:
  assumes "s0 = s\<lparr>sd_directory_chunk_count := dl_chunk_count pk\<rparr>" and "i = unat (dl_chunk_index pk)"
    and "\<not> got_chunk (sd_received_directory_chunks s) i \<Longrightarrow>
      fold (\<lambda>e s. AddDirectoryEntry s e) (take (unat (dl_entry_count pk)) (dl_entries pk)) s0 = s1"
  shows "store_list_chunk s pk =
    (if got_chunk (sd_received_directory_chunks s) i then s0
     else s1\<lparr>sd_received_directory_chunks := note_chunk (sd_received_directory_chunks s1) i\<rparr>)"
proof (cases "got_chunk (sd_received_directory_chunks s) i")
  case True
  then show ?thesis by (simp add: store_list_chunk_def assms(1,2))
next
  case False
  from False assms(3) [OF False] show ?thesis by (simp add: store_list_chunk_def assms(1,2) Let_def)
qed

lemma ingest_chunk:
  assumes es: "length es \<le> 32" "list_all entry_ok es" "distinct (map endpoint es)" and gen: "gen \<noteq> 0"
    and s: "listed es gen started D s" and i: "i < ShroomDirectoryListChunkCount (length es)"
    and t: "unat started \<le> unat now" "unat now < unat started + 5000"
  shows "listed es gen started (if i \<in> set D \<or> set D = {..<ShroomDirectoryListChunkCount (length es)} then D else D @ [i])
    (receive_chunk es gen (i, now) s)"
proof -
  let ?cc = "ShroomDirectoryListChunkCount (length es)" and ?r = "sd_received_directory_chunks s"
  obtain pk n where pk: "ShroomDirectoryBuildListPacket es gen i = Some (pk, n)"
    "take (unat (dl_entry_count pk)) (dl_entries pk) = chunk_of es i" "unat (dl_chunk_index pk) = i"
    "unat (dl_chunk_count pk) = ?cc"
    "\<And>s now. directory_list_valid s pk n now \<longleftrightarrow> sd_phase s = SHROOM_DISCOVERY_DIRECTORY \<and> sd_generation s = gen \<and>
      unat (sd_started_ms s) \<le> unat now \<and> unat now < unat (sd_started_ms s) + 5000"
    using built_packet [OF es(1) gen i] by blast
  have D: "distinct D" "set D \<subseteq> {..<?cc}" "list_chunks.holds ?r (set D)"
    and s_eq: "s = listing_state es gen started (final_phase es D) D ?r" using s by (auto simp: listed_def)
  have cc: "?cc \<le> 32" using chunk_count_bounds(2) [OF es(1)] by simp
  have cc_word: "word_of_nat ?cc = dl_chunk_count pk" using pk(4) by (simp flip: pk(4))
  show ?thesis
  proof (cases "set D = {..<?cc}")
    case True
    then have "sd_phase s \<noteq> SHROOM_DISCOVERY_DIRECTORY"
      by (subst s_eq) (simp add: listing_state_def final_phase_def Let_def)
    then have "receive_chunk es gen (i, now) s = s"
      by (simp add: receive_chunk_def pk(1,5) ShroomServerDiscoveryStateIngestDirectory_def)
    with True s show ?thesis by simp
  next
    case False
    let ?s0 = "s\<lparr>sd_directory_chunk_count := dl_chunk_count pk\<rparr>"
    let ?D = "if i \<in> set D then D else D @ [i]" and ?r' = "if i \<in> set D then ?r else note_chunk ?r i"
    have s0: "?s0 = listing_state es gen started SHROOM_DISCOVERY_DIRECTORY (i # D) ?r
        \<lparr>sd_full_server_count := count_if is_full (concat (map (chunk_of es) D)),
         sd_candidates := map new_candidate (filter has_place (concat (map (chunk_of es) D)))\<rparr>"
      using False by (subst s_eq) (simp add: listing_state_def final_phase_def Let_def cc_word)
    have got: "got_chunk ?r i \<longleftrightarrow> i \<in> set D" using list_chunks.holds_got [OF D(3)] i cc by simp
    have added: "fold (\<lambda>e s. AddDirectoryEntry s e) (chunk_of es i) ?s0 =
        ?s0\<lparr>sd_full_server_count := count_if is_full (concat (map (chunk_of es) (D @ [i]))),
            sd_candidates := map new_candidate (filter has_place (concat (map (chunk_of es) (D @ [i]))))\<rparr>"
      if new: "i \<notin> set D"
    proof -
      have dD: "distinct (D @ [i])" using D(1) new by simp
      note all = chunks_distinct [OF dD es(3)]
      have "distinct (map endpoint (filter has_place (concat (map (chunk_of es) (D @ [i])))))"
        by (rule distinct_map_filter [OF all(1)])
      moreover have "length (filter has_place (concat (map (chunk_of es) (D @ [i])))) \<le> 32"
        using length_filter_le [of has_place "concat (map (chunk_of es) (D @ [i]))"] all(2) es(1) by linarith
      moreover have "list_all entry_ok (chunk_of es i)" using es(2) all(3) by (auto simp: list_all_iff)
      ultimately have "fold (\<lambda>e s. AddDirectoryEntry s e) (chunk_of es i) ?s0 =
        ?s0\<lparr>sd_full_server_count := sd_full_server_count ?s0 + count_if is_full (chunk_of es i),
            sd_candidates := sd_candidates ?s0 @ map new_candidate (filter has_place (chunk_of es i))\<rparr>"
        by (intro add_chunk) (simp_all add: s0 comp_def new_candidate_def)
      then show ?thesis by (simp add: s0)
    qed
    let ?s1 = "?s0\<lparr>sd_full_server_count := count_if is_full (concat (map (chunk_of es) (D @ [i]))),
            sd_candidates := map new_candidate (filter has_place (concat (map (chunk_of es) (D @ [i]))))\<rparr>"
    have s1: "(if got_chunk ?r i then ?s0
          else ?s1\<lparr>sd_received_directory_chunks := note_chunk (sd_received_directory_chunks ?s1) i\<rparr>)
        = listing_state es gen started SHROOM_DISCOVERY_DIRECTORY ?D ?r'"
      unfolding s0 got by (auto simp: listing_state_def Let_def)
    have count_ok: "\<not> (sd_directory_chunk_count s \<noteq> 0 \<and> sd_directory_chunk_count s \<noteq> dl_chunk_count pk)"
      by (subst (1 2) s_eq) (simp add: listing_state_def Let_def cc_word)
    have valid: "directory_list_valid s pk n now"
      unfolding pk(5) by (subst (1 2 3 4) s_eq) (use False t in \<open>simp add: listing_state_def final_phase_def Let_def\<close>)
    have accepted: "ShroomServerDiscoveryStateIngestDirectory s pk n now = (True, finish_list (store_list_chunk s pk))"
      using valid count_ok by (simp only: ShroomServerDiscoveryStateIngestDirectory_def not_True_eq_False if_False)
    have "receive_chunk es gen (i, now) s = finish_list (listing_state es gen started SHROOM_DISCOVERY_DIRECTORY ?D ?r')"
      unfolding receive_chunk_def pk(1) fst_conv snd_conv option.case prod.case s1 [symmetric] accepted
      by (intro arg_cong [of _ _ finish_list] store_new_chunk) (simp_all only: pk(2,3) got added not_False_eq_True)
    also have "\<dots> =
        listing_state es gen started (if ?r' = all_chunks ?cc
           then if filter has_place (concat (map (chunk_of es) ?D)) = [] then SHROOM_DISCOVERY_COMPLETE else SHROOM_DISCOVERY_PROBING
           else SHROOM_DISCOVERY_DIRECTORY) ?D ?r'"
      using pk(4) by (auto simp: finish_list_def listing_state_def Let_def cc_word)
    finally have "receive_chunk es gen (i, now) s =
        listing_state es gen started (if ?r' = all_chunks ?cc
           then if filter has_place (concat (map (chunk_of es) ?D)) = [] then SHROOM_DISCOVERY_COMPLETE else SHROOM_DISCOVERY_PROBING
           else SHROOM_DISCOVERY_DIRECTORY) ?D ?r'" .
    moreover have "list_chunks.holds ?r' (set ?D)" using D(3) list_chunks.holds_mark [OF D(3), of i] i cc by auto
    moreover have "?r' = all_chunks ?cc \<longleftrightarrow> set ?D = {..<?cc}"
      using all_chunks_iff [OF calculation(2) cc] D(2) i by auto
    ultimately show ?thesis using False D(1,2) i
      by (auto simp: listed_def final_phase_def listing_state_def Let_def)
  qed
qed

lemma receive_chunks:
  assumes es: "length es \<le> 32" "list_all entry_ok es" "distinct (map endpoint es)" and gen: "gen \<noteq> 0"
    and "\<forall>(i, now) \<in> set arrivals. i < ShroomDirectoryListChunkCount (length es) \<and>
      unat started \<le> unat now \<and> unat now < unat started + 5000"
    and "listed es gen started D s"
  shows "\<exists>D'. listed es gen started D' (fold (receive_chunk es gen) arrivals s) \<and> set D' = set D \<union> fst ` set arrivals"
  using assms(5,6)
proof (induction arrivals arbitrary: D s)
  case Nil
  then show ?case by auto
next
  case (Cons a arrivals)
  obtain i now where a: "a = (i, now)" by (cases a)
  let ?all = "{..<ShroomDirectoryListChunkCount (length es)}"
  let ?D = "if i \<in> set D \<or> set D = ?all then D else D @ [i]"
  have a_ok: "i < ShroomDirectoryListChunkCount (length es)" "unat started \<le> unat now" "unat now < unat started + 5000"
    using Cons.prems(1) a by auto
  have next_ok: "\<forall>(i, now) \<in> set arrivals. i < ShroomDirectoryListChunkCount (length es) \<and>
      unat started \<le> unat now \<and> unat now < unat started + 5000" using Cons.prems(1) by simp
  obtain D' where D': "listed es gen started D' (fold (receive_chunk es gen) arrivals (receive_chunk es gen (i, now) s))"
    "set D' = set ?D \<union> fst ` set arrivals"
    using Cons.IH [OF next_ok ingest_chunk [OF es gen Cons.prems(2) a_ok]] by blast
  have "set ?D = set D \<union> {i}" using a_ok(1) by auto
  with D' a show ?case by (intro exI [of _ D']) auto
qed

lemma listed_begin:
  assumes "gen \<noteq> 0" and "length es \<le> 32"
  shows "listed es gen started [] (ShroomServerDiscoveryStateBegin gen started)"
proof -
  have "{..<ShroomDirectoryListChunkCount (length es)} \<noteq> {}" using chunk_count_bounds(1) [OF assms(2)] by auto
  with assms(1) list_chunks.holds_none show ?thesis
    by (simp add: listed_def final_phase_def listing_state_def ShroomServerDiscoveryStateBegin_def zero_discovery_def)
qed

lemma listed_fields:
  assumes "listed es gen started D s"
  shows "sd_candidates s = map new_candidate (filter has_place (concat (map (chunk_of es) D)))"
    and "sd_full_server_count s = count_if is_full (concat (map (chunk_of es) D))" and "sd_phase s = final_phase es D"
proof -
  have s: "s = listing_state es gen started (final_phase es D) D (sd_received_directory_chunks s)"
    using assms by (simp add: listed_def)
  show "sd_candidates s = map new_candidate (filter has_place (concat (map (chunk_of es) D)))"
    "sd_full_server_count s = count_if is_full (concat (map (chunk_of es) D))" "sd_phase s = final_phase es D"
    by (subst s, simp add: listing_state_def Let_def)+
qed

lemma registry_list:
  assumes "registry_ok reg" and "es = ShroomDirectoryRegistryCopyActive (Some reg) SHROOM_DIRECTORY_MAX_ENTRIES"
  shows "length es \<le> 32" "list_all entry_ok es" "distinct (map endpoint es)" "distinct es"
    and "set es = {e. \<exists>id' seen. registered reg id' = Some (e, seen)}"
proof -
  let ?live = "filter dr_active (dr_registrations reg)"
  have len: "length ?live \<le> 32"
    using assms(1) length_filter_le [of dr_active "dr_registrations reg"] by (simp add: registry_ok_def SHROOM_DIRECTORY_MAX_ENTRIES_def)
  have es: "es = map dr_server ?live"
    using len by (simp add: assms(2) ShroomDirectoryRegistryCopyActive_def SHROOM_DIRECTORY_MAX_ENTRIES_def)
  show "length es \<le> 32" using len by (simp add: es)
  show ok: "list_all entry_ok es" using assms(1) by (auto simp: es list_all_iff registry_ok_def)
  have ids: "distinct (map ds_server_id es)" using assms(1) by (simp add: es registry_ok_def comp_def)
  then show "distinct es" by (simp add: distinct_map)
  have "inj_on endpoint (set es)"
  proof (rule inj_onI)
    fix a b assume ab: "a \<in> set es" "b \<in> set es" "endpoint a = endpoint b"
    then have "StableEndpointId (ds_host a) (ds_port a) = StableEndpointId (ds_host b) (ds_port b)"
      by (intro endpoint_id) (simp add: EndpointMatches_def same_text_def)
    then have "ds_server_id a = ds_server_id b" using ok ab(1,2) by (simp add: list_all_iff entry_ok_def)
    with ids ab(1,2) show "a = b" by (simp add: distinct_map inj_on_def)
  qed
  with \<open>distinct es\<close> show "distinct (map endpoint es)" by (simp add: distinct_map)
  have dist: "distinct (map registration_id ?live)" using assms(1) by (simp add: registry_ok_def)
  show "set es = {e. \<exists>id' seen. registered reg id' = Some (e, seen)}"
  proof (intro set_eqI iffI)
    fix e assume "e \<in> set es"
    then obtain r where "r \<in> set ?live" "e = dr_server r" by (auto simp: es)
    with lookup_by_mem [OF dist this(1)] show "e \<in> {e. \<exists>id' seen. registered reg id' = Some (e, seen)}"
      by (auto simp: registered_def)
  next
    fix e assume "e \<in> {e. \<exists>id' seen. registered reg id' = Some (e, seen)}"
    then show "e \<in> set es" by (auto simp: registered_def es dest!: lookup_by_SomeD)
  qed
qed

text \<open>C32. The directory's list reaches the client: whatever the order in which the chunks of the list arrive,
  each of them at least once and within five seconds, the client ends with exactly the registered
  servers that have a free place, each once and waiting for its probe; it counts the full servers,
  and goes on to probing, or is done when there is no server to probe.\<close>

theorem directory_listing_delivered:
  assumes "registry_ok reg" and "gen \<noteq> 0"
    and "es = ShroomDirectoryRegistryCopyActive (Some reg) SHROOM_DIRECTORY_MAX_ENTRIES"
    and "fst ` set arrivals = {..<ShroomDirectoryListChunkCount (length es)}"
    and "\<forall>(i, now) \<in> set arrivals. unat started \<le> unat now \<and> unat now < unat started + 5000"
    and "s = fold (receive_chunk es gen) arrivals (ShroomServerDiscoveryStateBegin gen started)"
  shows "dc_server ` set (sd_candidates s) =
      {e. ds_player_count e < ds_capacity e \<and> (\<exists>id' seen. registered reg id' = Some (e, seen))} \<and>
    distinct (map dc_server (sd_candidates s)) \<and>
    list_all (\<lambda>c. dc_status c = SHROOM_DISCOVERY_CANDIDATE_PENDING \<and> dc_probe_started_ms c = 0) (sd_candidates s) \<and>
    sd_full_server_count s = count_if (\<lambda>e. ds_player_count e = ds_capacity e) es \<and>
    sd_phase s = (if sd_candidates s = [] then SHROOM_DISCOVERY_COMPLETE else SHROOM_DISCOVERY_PROBING)"
proof -
  note es = registry_list [OF assms(1,3)]
  have arrivals: "\<forall>(i, now) \<in> set arrivals. i < ShroomDirectoryListChunkCount (length es) \<and>
      unat started \<le> unat now \<and> unat now < unat started + 5000"
  proof
    fix a assume a: "a \<in> set arrivals"
    then have "fst a \<in> {..<ShroomDirectoryListChunkCount (length es)}" unfolding assms(4) [symmetric] by simp
    with assms(5) a show "case a of (i, now) \<Rightarrow> i < ShroomDirectoryListChunkCount (length es) \<and>
      unat started \<le> unat now \<and> unat now < unat started + 5000" by (auto split: prod.splits)
  qed
  obtain D where D: "listed es gen started D s" "set D = {..<ShroomDirectoryListChunkCount (length es)}"
    using receive_chunks [OF es(1-3) assms(2) arrivals listed_begin [OF assms(2) es(1)]] assms(4,6) by auto
  let ?got = "concat (map (chunk_of es) D)"
  have s: "sd_candidates s = map new_candidate (filter has_place ?got)" "sd_full_server_count s = count_if is_full ?got"
    "sd_phase s = final_phase es D"
    using listed_fields [OF D(1)] by simp_all
  have mset: "mset ?got = mset es"
    using D by (intro chunks_complete [OF _ D(2)] chunk_count_bounds(3) [OF es(1)]) (simp add: listed_def)
  have set: "set ?got = set es" by (rule mset_eq_setD [OF mset])
  have dist: "distinct ?got" using mset_eq_imp_distinct_iff [OF mset] es(4) by simp
  have servers: "map dc_server (sd_candidates s) = filter has_place ?got" by (simp add: s(1) comp_def new_candidate_def)
  then have "dc_server ` set (sd_candidates s) = set (filter has_place ?got)" by (metis list.set_map)
  then have "dc_server ` set (sd_candidates s) = {e. has_place e \<and> (\<exists>id' seen. registered reg id' = Some (e, seen))}"
    unfolding set_filter set es(5) by auto
  moreover have "distinct (map dc_server (sd_candidates s))" unfolding servers using dist by (rule distinct_filter)
  moreover have "list_all (\<lambda>c. dc_status c = SHROOM_DISCOVERY_CANDIDATE_PENDING \<and> dc_probe_started_ms c = 0) (sd_candidates s)"
    by (simp add: s(1) list_all_iff new_candidate_def)
  moreover have "count_if is_full ?got = count_if is_full es"
    unfolding count_if_def using mset by (metis mset_filter size_mset)
  moreover have "final_phase es D = (if sd_candidates s = [] then SHROOM_DISCOVERY_COMPLETE else SHROOM_DISCOVERY_PROBING)"
    by (simp add: final_phase_def D(2) s(1))
  ultimately show ?thesis using s(2,3) by simp
qed

definition witness_listing :: ShroomDirectoryRegistry where
  "witness_listing = witness_registry\<lparr>dr_registrations := (dr_registrations witness_registry)[0 :=
     \<lparr>dr_server = witness_entry, dr_last_seen_ms = 500, dr_active = True\<rparr>]\<rparr>"

lemma witness_listing:
  "registry_ok witness_listing" "registered witness_listing = [ds_server_id witness_entry \<mapsto> (witness_entry, 500)]"
  "ShroomDirectoryRegistryCopyActive (Some witness_listing) SHROOM_DIRECTORY_MAX_ENTRIES = [witness_entry]"
proof -
  have ok: "entry_ok witness_entry" using advertised_ok [OF witness_advertised] witness_host
    by (simp add: SHROOM_DIRECTORY_HOST_LENGTH_def)
  have slot: "0 < length (dr_registrations witness_registry)" "\<not> dr_active (dr_registrations witness_registry ! 0)"
    "filter dr_active (dr_registrations witness_registry) = []"
    by (simp_all add: witness_registry_def zero_registration_def)
  show "registry_ok witness_listing" "registered witness_listing = [ds_server_id witness_entry \<mapsto> (witness_entry, 500)]"
    using store_at [OF witness_registry(1) ok slot(1), of 500] slot(2,3) witness_registry(2)
    by (simp_all add: witness_listing_def)
  show "ShroomDirectoryRegistryCopyActive (Some witness_listing) SHROOM_DIRECTORY_MAX_ENTRIES = [witness_entry]"
    by (simp add: ShroomDirectoryRegistryCopyActive_def witness_listing_def witness_registry_def zero_registration_def
        SHROOM_DIRECTORY_MAX_ENTRIES_def filter_update)
qed

theorem directory_listing_delivered_witness:
  "sd_phase (fold (receive_chunk [witness_entry] 1) [(0, 5), (0, 6)] (ShroomServerDiscoveryStateBegin 1 5))
    = SHROOM_DISCOVERY_PROBING \<and>
   dc_server ` set (sd_candidates (fold (receive_chunk [witness_entry] 1) [(0, 5), (0, 6)] (ShroomServerDiscoveryStateBegin 1 5)))
    = {witness_entry}"
proof -
  define s where "s = fold (receive_chunk [witness_entry] 1) [(0, 5), (0, 6)] (ShroomServerDiscoveryStateBegin 1 5)"
  have one: "{0} = {..<ShroomDirectoryListChunkCount (length [witness_entry])}"
    by (auto simp: ShroomDirectoryListChunkCount_def SHROOM_DIRECTORY_MAX_ENTRIES_def SHROOM_DIRECTORY_ENTRIES_PER_PACKET_def)
  have place: "{e. ds_player_count e < ds_capacity e \<and> (\<exists>id' seen. registered witness_listing id' = Some (e, seen))} = {witness_entry}"
    by (auto simp: witness_listing(2) split: if_splits) (simp add: witness_entry_def)
  have order: "fst ` set [(0, 5 :: u64), (0, 6)] = {..<ShroomDirectoryListChunkCount (length [witness_entry])}"
    unfolding one [symmetric] by simp
  have times: "\<forall>(i :: nat, now) \<in> set [(0, 5 :: u64), (0, 6)]. unat (5 :: u64) \<le> unat now \<and> unat now < unat (5 :: u64) + 5000"
    by simp
  note delivered = directory_listing_delivered [OF witness_listing(1) one_neq_zero witness_listing(3) [symmetric] order times s_def]
  have servers: "dc_server ` set (sd_candidates s) = {witness_entry}"
    and "sd_phase s = (if sd_candidates s = [] then SHROOM_DISCOVERY_COMPLETE else SHROOM_DISCOVERY_PROBING)"
    using delivered unfolding place by blast+
  moreover have "sd_candidates s \<noteq> []" using servers by auto
  ultimately show ?thesis unfolding s_def by simp
qed

section \<open>The search as a state machine\<close>

inductive discovery_step :: "ShroomServerDiscoveryState \<Rightarrow> ShroomServerDiscoveryState \<Rightarrow> bool" where
  ingest: "discovery_step s (snd (ShroomServerDiscoveryStateIngestDirectory s packet packet_size now_ms))"
| start_probe: "discovery_step s (snd (ShroomServerDiscoveryStateStartProbe s index nonce now_ms))"
| accept_probe: "discovery_step s (snd (ShroomServerDiscoveryStateAcceptProbe s index response packet_size now_ms))"
| mark_unavailable: "discovery_step s (ShroomServerDiscoveryStateMarkUnavailable s index)"
| update: "discovery_step s (ShroomServerDiscoveryStateUpdate s now_ms)"
| fail_directory: "discovery_step s (ShroomServerDiscoveryStateFailDirectory s)"
| cancel: "discovery_step s (ShroomServerDiscoveryStateCancel s)"

definition candidate_ok :: "ShroomDiscoveryCandidate \<Rightarrow> bool" where
  "candidate_ok c \<longleftrightarrow>
     unat (ds_capacity (dc_server c)) \<le> SHROOM_SERVER_MAX_CLIENTS \<and>
     (dc_status c \<noteq> SHROOM_DISCOVERY_CANDIDATE_UNAVAILABLE \<longrightarrow> has_place (dc_server c)) \<and>
     (dc_status c = SHROOM_DISCOVERY_CANDIDATE_REACHABLE \<longrightarrow> dc_probe_started_ms c \<noteq> 0)"

definition candidates_ok :: "ShroomDiscoveryCandidate list \<Rightarrow> bool" where
  "candidates_ok cs \<longleftrightarrow>
     length cs \<le> SHROOM_DIRECTORY_MAX_ENTRIES \<and> distinct (map (endpoint \<circ> dc_server) cs) \<and> list_all candidate_ok cs"

definition discovery_ok :: "ShroomServerDiscoveryState \<Rightarrow> bool" where
  "discovery_ok s \<longleftrightarrow>
     candidates_ok (sd_candidates s) \<and>
     (sd_phase s = SHROOM_DISCOVERY_COMPLETE \<longrightarrow> no_pending (sd_candidates s))"

lemma discovery_ok_begin: "discovery_ok (ShroomServerDiscoveryStateBegin gen now)"
  by (simp add: discovery_ok_def candidates_ok_def ShroomServerDiscoveryStateBegin_def zero_discovery_def no_pending_def)

text \<open>Changing a candidate without moving it to another server keeps the table in order.\<close>

lemma candidates_update:
  assumes "candidates_ok cs" and "i < length cs" and "endpoint (dc_server c) = endpoint (dc_server (cs ! i))" and "candidate_ok c"
  shows "candidates_ok (cs[i := c])"
proof -
  have "map (endpoint \<circ> dc_server) (cs[i := c]) = map (endpoint \<circ> dc_server) cs"
    using assms(2,3) by (simp add: map_update list_update_same_conv)
  moreover have "list_all candidate_ok (cs[i := c])"
    using assms(1,4) set_update_subset_insert [of cs i c] by (auto simp: candidates_ok_def list_all_iff)
  ultimately show ?thesis using assms(1) unfolding candidates_ok_def by (simp only: length_list_update)
qed

lemma candidates_nth: "candidates_ok cs \<Longrightarrow> i < length cs \<Longrightarrow> candidate_ok (cs ! i)"
  by (simp add: candidates_ok_def list_all_length)

lemma AddDirectoryEntry_ok:
  assumes "candidates_ok (sd_candidates s)"
  shows "candidates_ok (sd_candidates (AddDirectoryEntry s e))"
proof (cases "NormalizeEntry e")
  case None
  with assms show ?thesis by (simp add: AddDirectoryEntry_def)
next
  case (Some a)
  obtain e' room where a: "a = (e', room)" by (cases a)
  have e': "room = has_place e'" "unat (ds_capacity e') \<le> SHROOM_SERVER_MAX_CLIENTS"
    using Some a by (auto simp: NormalizeEntry_def Let_def SHROOM_SERVER_MAX_CLIENTS_def split: if_splits)
  have new: "candidates_ok (sd_candidates s @ [new_candidate e'])"
    if "\<not> list_ex (\<lambda>c. CandidateMatches (dc_server c) e') (sd_candidates s)" "has_place e'"
      "length (sd_candidates s) < SHROOM_DIRECTORY_MAX_ENTRIES"
  proof -
    have "endpoint e' \<notin> (endpoint \<circ> dc_server) ` set (sd_candidates s)"
      using that(1) by (force simp: list_ex_iff CandidateMatches_iff)
    with assms that(2,3) e'(2) show ?thesis by (auto simp: candidates_ok_def candidate_ok_def new_candidate_def)
  qed
  with assms Some a e'(1) show ?thesis by (simp add: AddDirectoryEntry_def Let_def)
qed

lemma add_entries_ok:
  "candidates_ok (sd_candidates s) \<Longrightarrow> candidates_ok (sd_candidates (fold (\<lambda>e s. AddDirectoryEntry s e) es s))"
  by (induction es arbitrary: s) (simp_all add: AddDirectoryEntry_ok)

lemma AddDirectoryEntry_phase: "sd_phase (AddDirectoryEntry s e) = sd_phase s"
  by (simp add: AddDirectoryEntry_def Let_def split: option.split prod.split)

lemma add_entries_phase: "sd_phase (fold (\<lambda>e s. AddDirectoryEntry s e) es s) = sd_phase s"
  by (induction es arbitrary: s) (simp_all add: AddDirectoryEntry_phase)

lemma MaybeFinish_ok: "candidates_ok (sd_candidates s) \<Longrightarrow> sd_phase s = SHROOM_DISCOVERY_PROBING \<Longrightarrow> discovery_ok (MaybeFinish s)"
  by (simp add: MaybeFinish_def discovery_ok_def)

lemma ingest_ok:
  assumes "discovery_ok s"
  shows "discovery_ok (snd (ShroomServerDiscoveryStateIngestDirectory s packet n now))"
proof (cases "directory_list_valid s packet n now \<and>
    \<not> (sd_directory_chunk_count s \<noteq> 0 \<and> sd_directory_chunk_count s \<noteq> dl_chunk_count packet)")
  case False
  with assms show ?thesis by (auto simp: ShroomServerDiscoveryStateIngestDirectory_def)
next
  case True
  let ?s = "store_list_chunk s packet"
  have "sd_phase s = SHROOM_DISCOVERY_DIRECTORY" using True by (simp add: directory_list_valid_def)
  then have phase: "sd_phase ?s = SHROOM_DISCOVERY_DIRECTORY"
    by (simp add: store_list_chunk_def Let_def add_entries_phase)
  have "candidates_ok (sd_candidates ?s)"
    using assms by (simp add: store_list_chunk_def Let_def discovery_ok_def add_entries_ok)
  with phase have "discovery_ok (finish_list ?s)" by (simp add: finish_list_def discovery_ok_def no_pending_def)
  moreover have "ShroomServerDiscoveryStateIngestDirectory s packet n now = (True, finish_list ?s)"
    using True by (simp only: ShroomServerDiscoveryStateIngestDirectory_def not_True_eq_False if_False simp_thms)
  ultimately show ?thesis by simp
qed

lemma start_probe_ok:
  assumes "discovery_ok s"
  shows "discovery_ok (snd (ShroomServerDiscoveryStateStartProbe s i nonce now))"
proof (cases "sd_phase s \<noteq> SHROOM_DISCOVERY_PROBING \<or> length (sd_candidates s) \<le> i")
  case True
  with assms show ?thesis by (auto simp: ShroomServerDiscoveryStateStartProbe_def)
next
  case False
  have "candidates_ok ((sd_candidates s)[i := (sd_candidates s ! i)\<lparr>dc_probe_nonce := nonce, dc_probe_started_ms := t\<rparr>])"
    if "t \<noteq> 0" for t
    using assms False that candidates_nth [of "sd_candidates s" i]
    by (intro candidates_update) (auto simp: discovery_ok_def candidate_ok_def)
  with assms False show ?thesis
    by (auto simp: ShroomServerDiscoveryStateStartProbe_def Let_def discovery_ok_def)
qed

lemma accept_probe_ok:
  assumes "discovery_ok s"
  shows "discovery_ok (snd (ShroomServerDiscoveryStateAcceptProbe s i packet n now))"
proof (cases "sd_phase s \<noteq> SHROOM_DISCOVERY_PROBING \<or> length (sd_candidates s) \<le> i \<or> dc_probe_started_ms (sd_candidates s ! i) = 0")
  case True
  with assms show ?thesis by (auto simp: ShroomServerDiscoveryStateAcceptProbe_def Let_def)
next
  case False
  have "candidates_ok ((sd_candidates s)[i := answered (sd_candidates s ! i) players capacity now])"
    if "unat capacity \<le> SHROOM_SERVER_MAX_CLIENTS" for players capacity
    using assms False that
    by (intro candidates_update) (auto simp: discovery_ok_def candidate_ok_def answered_def Let_def not_le)
  then have "discovery_ok (MaybeFinish (s\<lparr>sd_candidates := (sd_candidates s)[i := answered (sd_candidates s ! i) players capacity now]\<rparr>))"
    if "unat capacity \<le> SHROOM_SERVER_MAX_CLIENTS" for players capacity
    using False that by (intro MaybeFinish_ok) simp_all
  moreover have "unat (if SHROOM_SERVER_MAX_CLIENTS < unat c then word_of_nat SHROOM_SERVER_MAX_CLIENTS else c) \<le> SHROOM_SERVER_MAX_CLIENTS"
    for c :: u16 by (simp add: SHROOM_SERVER_MAX_CLIENTS_def)
  ultimately show ?thesis using assms
    by (simp add: ShroomServerDiscoveryStateAcceptProbe_def Let_def)
qed

lemma mark_unavailable_ok: "discovery_ok s \<Longrightarrow> discovery_ok (ShroomServerDiscoveryStateMarkUnavailable s i)"
  using candidates_nth [of "sd_candidates s" i]
  by (auto simp: ShroomServerDiscoveryStateMarkUnavailable_def discovery_ok_def give_up_def candidate_ok_def not_le
      intro!: MaybeFinish_ok [unfolded discovery_ok_def] candidates_update)

lemma update_ok: "discovery_ok s \<Longrightarrow> discovery_ok (ShroomServerDiscoveryStateUpdate s now)"
proof -
  assume ok: "discovery_ok s"
  let ?f = "\<lambda>c. if probe_expired s c now then c\<lparr>dc_status := SHROOM_DISCOVERY_CANDIDATE_UNAVAILABLE\<rparr> else c"
  have "map (endpoint \<circ> dc_server) (map ?f (sd_candidates s)) = map (endpoint \<circ> dc_server) (sd_candidates s)" by simp
  moreover have "list_all candidate_ok (map ?f (sd_candidates s))"
    using ok by (auto simp: discovery_ok_def candidates_ok_def list_all_iff candidate_ok_def)
  ultimately have "candidates_ok (map ?f (sd_candidates s))"
    using ok unfolding discovery_ok_def candidates_ok_def by (simp only: length_map)
  with ok show ?thesis
    by (auto simp: ShroomServerDiscoveryStateUpdate_def discovery_ok_def intro!: MaybeFinish_ok [unfolded discovery_ok_def])
qed

lemma discovery_step_ok: "discovery_step s s' \<Longrightarrow> discovery_ok s \<Longrightarrow> discovery_ok s'"
  by (cases rule: discovery_step.cases)
    (auto simp: ingest_ok start_probe_ok accept_probe_ok mark_unavailable_ok update_ok,
     auto simp: ShroomServerDiscoveryStateFailDirectory_def ShroomServerDiscoveryStateCancel_def discovery_ok_def)

lemma nth_reachable_SomeD:
  "nth_reachable cs k = Some c \<Longrightarrow> c \<in> set cs \<and> dc_status c = SHROOM_DISCOVERY_CANDIDATE_REACHABLE"
  by (induction cs k rule: nth_reachable.induct) (auto split: if_splits)

lemma nth_reachable_defined:
  "nth_reachable cs k \<noteq> None \<longleftrightarrow> k < count_if (\<lambda>c. dc_status c = SHROOM_DISCOVERY_CANDIDATE_REACHABLE) cs"
  by (induction cs k rule: nth_reachable.induct) (auto split: if_splits)

lemma update_settles:
  assumes "unat (sd_started_ms s) + 5000 \<le> unat now"
  shows "sd_phase (ShroomServerDiscoveryStateUpdate s now) \<notin> {SHROOM_DISCOVERY_DIRECTORY, SHROOM_DISCOVERY_PROBING}"
    and "ShroomServerDiscoveryStateResultCount (ShroomServerDiscoveryStateUpdate s now) = ShroomServerDiscoveryStateResultCount s"
proof -
  let ?f = "\<lambda>c. if probe_expired s c now then c\<lparr>dc_status := SHROOM_DISCOVERY_CANDIDATE_UNAVAILABLE\<rparr> else c"
  have late: "\<not> now < sd_started_ms s" "SHROOM_DISCOVERY_OVERALL_TIMEOUT_MS \<le> now - sd_started_ms s"
    using assms by (auto simp: word_le_nat_alt word_less_nat_alt unat_sub_if' SHROOM_DISCOVERY_OVERALL_TIMEOUT_MS_def)
  have "no_pending (map ?f (sd_candidates s))" using late(2) by (auto simp: no_pending_def list_all_iff probe_expired_def)
  with late show "sd_phase (ShroomServerDiscoveryStateUpdate s now) \<notin> {SHROOM_DISCOVERY_DIRECTORY, SHROOM_DISCOVERY_PROBING}"
    by (auto simp: ShroomServerDiscoveryStateUpdate_def MaybeFinish_def)
  have "count_if (\<lambda>c. dc_status c = SHROOM_DISCOVERY_CANDIDATE_REACHABLE) (map ?f cs) =
      count_if (\<lambda>c. dc_status c = SHROOM_DISCOVERY_CANDIDATE_REACHABLE) cs" for cs
    by (induction cs) (auto simp: probe_expired_def)
  then show "ShroomServerDiscoveryStateResultCount (ShroomServerDiscoveryStateUpdate s now) = ShroomServerDiscoveryStateResultCount s"
    by (simp add: ShroomServerDiscoveryStateResultCount_def ShroomServerDiscoveryStateUpdate_def MaybeFinish_def)
qed

text \<open>C33. The search can be relied on, whatever packets, failures, probes, clock readings and cancellations
  come in whatever order.  The results are numbered without gaps, and every result is a server that
  answered its probe, with fewer players than places and at most 256 places, and no server is
  listed twice; a search that is complete waits for no answer.  The search ends: the first update
  five seconds or more after its start leaves it neither waiting for the directory nor probing, and
  loses no result.\<close>

theorem discovery_results_and_end:
  assumes "discovery_step\<^sup>*\<^sup>* (ShroomServerDiscoveryStateBegin gen started) s"
  shows "(\<forall>k. ShroomServerDiscoveryStateResult s k \<noteq> None \<longleftrightarrow> k < ShroomServerDiscoveryStateResultCount s) \<and>
    (\<forall>k c. ShroomServerDiscoveryStateResult s k = Some c \<longrightarrow>
       dc_status c = SHROOM_DISCOVERY_CANDIDATE_REACHABLE \<and> dc_probe_started_ms c \<noteq> 0 \<and>
       ds_player_count (dc_server c) < ds_capacity (dc_server c) \<and> unat (ds_capacity (dc_server c)) \<le> 256) \<and>
    distinct (map (\<lambda>c. (ds_port (dc_server c), c_string (ds_host (dc_server c)))) (sd_candidates s)) \<and>
    (sd_phase s = SHROOM_DISCOVERY_COMPLETE \<longrightarrow>
       (\<forall>c \<in> set (sd_candidates s). dc_status c \<noteq> SHROOM_DISCOVERY_CANDIDATE_PENDING)) \<and>
    (unat (sd_started_ms s) + 5000 \<le> unat now \<longrightarrow>
       sd_phase (ShroomServerDiscoveryStateUpdate s now) \<notin> {SHROOM_DISCOVERY_DIRECTORY, SHROOM_DISCOVERY_PROBING} \<and>
       ShroomServerDiscoveryStateResultCount (ShroomServerDiscoveryStateUpdate s now) = ShroomServerDiscoveryStateResultCount s)"
proof -
  have ok: "discovery_ok s"
    using assms by (induction rule: rtranclp_induct) (auto intro: discovery_ok_begin discovery_step_ok)
  have result: "dc_status c = SHROOM_DISCOVERY_CANDIDATE_REACHABLE \<and> dc_probe_started_ms c \<noteq> 0 \<and>
       ds_player_count (dc_server c) < ds_capacity (dc_server c) \<and> unat (ds_capacity (dc_server c)) \<le> 256"
    if "ShroomServerDiscoveryStateResult s k = Some c" for k c
    using nth_reachable_SomeD [OF that [unfolded ShroomServerDiscoveryStateResult_def]] ok
    by (auto simp: discovery_ok_def candidates_ok_def list_all_iff candidate_ok_def SHROOM_SERVER_MAX_CLIENTS_def)
  have numbered: "ShroomServerDiscoveryStateResult s k \<noteq> None \<longleftrightarrow> k < ShroomServerDiscoveryStateResultCount s" for k
    unfolding ShroomServerDiscoveryStateResult_def ShroomServerDiscoveryStateResultCount_def by (rule nth_reachable_defined)
  have "distinct (map (\<lambda>c. (ds_port (dc_server c), c_string (ds_host (dc_server c)))) (sd_candidates s))"
    using ok by (simp add: discovery_ok_def candidates_ok_def comp_def)
  moreover have "sd_phase s = SHROOM_DISCOVERY_COMPLETE \<longrightarrow>
      (\<forall>c \<in> set (sd_candidates s). dc_status c \<noteq> SHROOM_DISCOVERY_CANDIDATE_PENDING)"
    using ok by (simp add: discovery_ok_def no_pending_def list_all_iff)
  ultimately show ?thesis using result numbered update_settles [of s now] by blast
qed

theorem discovery_results_and_end_witness:
  "sd_phase (ShroomServerDiscoveryStateUpdate (ShroomServerDiscoveryStateBegin 3 100) 5100)
     \<notin> {SHROOM_DISCOVERY_DIRECTORY, SHROOM_DISCOVERY_PROBING}"
  using discovery_results_and_end [OF rtranclp.rtrancl_refl, of 3 100 5100]
  by (simp add: ShroomServerDiscoveryStateBegin_def)

end
