(* ===== verification/Float_Arith.thy ===== *)
theory Float_Arith
  imports Float32
begin

text \<open>
  The rest of single precision as the simulation uses it: division, square root, minimum and
  maximum, conversions to and from integers, and the conversions through double precision that
  compute the simulated time.
\<close>

section \<open>Division and square root\<close>

text \<open>
  A quotient or root that is not exact gets one more bit, set, below the digits computed, which is
  all that rounding to nearest can see of the rest.
\<close>

definition sticky :: "int \<Rightarrow> bool \<Rightarrow> int" where
  "sticky q inexact = 2 * q + (if inexact then 1 else 0)"

definition f32_div :: "f32 \<Rightarrow> f32 \<Rightarrow> f32" where
  "f32_div a b =
     (let neg = (f32_neg a \<noteq> f32_neg b)
      in if f32_is_nan a \<or> f32_is_nan b then f32_default_nan
         else if f32_is_inf a then (if f32_is_inf b then f32_default_nan else f32_with_sign neg 0x7f800000)
         else if f32_is_inf b then f32_with_sign neg 0
         else if f32_is_zero b then (if f32_is_zero a then f32_default_nan else f32_with_sign neg 0x7f800000)
         else
           let n = \<bar>f32_units a\<bar> * 2 ^ 309; d = \<bar>f32_units b\<bar>
           in f32_round neg (sticky (n div d) (n mod d \<noteq> 0)) 161)"

text \<open>The integer square root, rounded down.\<close>

function isqrt :: "int \<Rightarrow> int" where
  "isqrt n = (if n \<le> 0 then 0 else let r = 2 * isqrt (n div 4) in if (r + 1) * (r + 1) \<le> n then r + 1 else r)"
  by pat_completeness auto

termination by (relation "measure nat") auto

declare isqrt.simps [simp del]

definition f32_sqrt :: "f32 \<Rightarrow> f32" where
  "f32_sqrt a =
     (if f32_is_nan a then f32_default_nan
      else if f32_is_zero a then a
      else if f32_neg a then f32_default_nan
      else if f32_is_inf a then a
      else
        let n = f32_units a * 2 ^ 209; r = isqrt n
        in f32_round False (sticky r (r * r \<noteq> n)) 31)"

section \<open>Selection and conversion\<close>

definition f32_min :: "f32 \<Rightarrow> f32 \<Rightarrow> f32" where
  "f32_min a b = (if f32_is_nan a then b else if f32_is_nan b then a else if f32_lt b a then b else a)"

definition f32_max :: "f32 \<Rightarrow> f32 \<Rightarrow> f32" where
  "f32_max a b = (if f32_is_nan a then b else if f32_is_nan b then a else if f32_lt a b then b else a)"

definition f32_of_int :: "int \<Rightarrow> f32" where
  "f32_of_int n = f32_round (n < 0) (\<bar>n\<bar> * 2 ^ 149) 0"

text \<open>Truncation to an integer, for a finite float; C leaves the rest undefined.\<close>

definition f32_to_int :: "f32 \<Rightarrow> int" where
  "f32_to_int a = (if f32_neg a then - (\<bar>f32_units a\<bar> div 2 ^ 149) else \<bar>f32_units a\<bar> div 2 ^ 149)"

section \<open>Double precision\<close>

text \<open>
  Nonnegative doubles in the range of the program's times, as integers \<open>m\<close> and exponents \<open>e\<close> that
  stand for \<open>m * 2 ^ e\<close>: at most 53 digits are kept.  The values never reach the ends of the
  exponent range.
\<close>

type_synonym f64 = "int \<times> int"

definition f64_round :: "int \<Rightarrow> int \<Rightarrow> f64" where
  "f64_round m e = (let d = digits m - 53 in (round_half_even m d, e + int d))"

definition f64_of_u64 :: "64 word \<Rightarrow> f64" where
  "f64_of_u64 w = f64_round (uint w) 0"

definition f64_of_f32 :: "f32 \<Rightarrow> f64" where
  "f64_of_f32 a = (f32_units a, -149)"

definition f64_mul :: "f64 \<Rightarrow> f64 \<Rightarrow> f64" where
  "f64_mul a b = f64_round (fst a * fst b) (snd a + snd b)"

text \<open>At least 64 digits of the quotient are computed.\<close>

definition f64_div :: "f64 \<Rightarrow> f64 \<Rightarrow> f64" where
  "f64_div a b =
     (let k = 64 + digits (fst b); n = fst a * 2 ^ k
      in f64_round (sticky (n div fst b) (n mod fst b \<noteq> 0)) (snd a - snd b - int k - 1))"

definition f64_to_u64 :: "f64 \<Rightarrow> 64 word" where
  "f64_to_u64 a = word_of_int (if 0 \<le> snd a then fst a * 2 ^ nat (snd a) else fst a div 2 ^ nat (- snd a))"

lemma f32_arith_examples:
  "f32_div 0x3f800000 0x40400000 = 0x3eaaaaab"
  "f32_of_int 16777217 = 0x4b800000"
  "f32_to_int 0xc0600000 = - 3"
  "f64_to_u64 (f64_div (f64_mul (f64_of_u64 7) (1000, 0)) (30, 0)) = 233"
  by code_simp+

end
