(* ===== verification/Float_Order.thy ===== *)
theory Float_Order
  imports Float_Arith
begin

text \<open>
  What rounding does to the order of floats: it is monotone and leaves representable values as they
  are, so a bound that is itself a float and holds of the exact result holds of the rounded one.
  With these lemmas the simulation's bounds are proved of the computed floats, not of reals.
\<close>

section \<open>Digits and rounding\<close>

lemma digits_bounds: "0 < n \<Longrightarrow> 2 ^ (digits n - 1) \<le> n \<and> n < 2 ^ digits n"
proof (induction n rule: digits.induct)
  case (1 n)
  show ?case
  proof (cases "n = 1")
    case True
    then show ?thesis by (simp add: digits.simps [of 1] digits.simps [of 0])
  next
    case False
    with 1(2) have half: "0 < n div 2" by linarith
    have ih: "2 ^ (digits (n div 2) - 1) \<le> n div 2" "n div 2 < 2 ^ digits (n div 2)"
      using 1(1) [OF _ half] 1(2) by simp_all
    have d: "digits n = Suc (digits (n div 2))" using 1(2) by (simp add: digits.simps [of n])
    have pos: "0 < digits (n div 2)" using half by (simp add: digits.simps [of "n div 2"])
    then have "2 ^ digits (n div 2) = 2 * (2 :: int) ^ (digits (n div 2) - 1)"
      by (cases "digits (n div 2)") simp_all
    with ih have "2 ^ digits (n div 2) \<le> n" "n < 2 * 2 ^ digits (n div 2)" by linarith+
    then show ?thesis by (simp add: d)
  qed
qed

lemma digits_nonpos: "n \<le> 0 \<Longrightarrow> digits n = 0"
  by (simp add: digits.simps)

lemma digits_eq:
  assumes "2 ^ m \<le> n" and "n < 2 ^ Suc m"
  shows "digits n = Suc m"
proof -
  have pos: "0 < n" using assms(1) zero_less_power [of "2 :: int" m] by linarith
  note b = digits_bounds [OF pos]
  have "(2 :: int) ^ m < 2 ^ digits n" using assms(1) b by linarith
  then have "m < digits n" by (rule power_less_imp_less_exp [rotated]) simp
  moreover have "(2 :: int) ^ (digits n - 1) < 2 ^ Suc m" using assms(2) b by linarith
  then have "digits n - 1 < Suc m" by (rule power_less_imp_less_exp [rotated]) simp
  ultimately show ?thesis by simp
qed

lemma digits_less: "n < 2 ^ m \<Longrightarrow> digits n \<le> m"
proof (cases "0 < n")
  case True
  assume "n < 2 ^ m"
  then have "(2 :: int) ^ (digits n - 1) < 2 ^ m" using digits_bounds [OF True] by linarith
  then show ?thesis by simp
qed (simp add: digits_nonpos)

lemma digits_mono: "a \<le> b \<Longrightarrow> digits a \<le> digits b"
proof (cases "0 < b")
  case True
  assume "a \<le> b"
  then show ?thesis using digits_bounds [OF True] by (intro digits_less) linarith
qed (simp add: digits_nonpos)

lemma div_power_bounds: "a div 2 ^ d * 2 ^ d \<le> (a :: int)" "a < (a div 2 ^ d + 1) * 2 ^ d"
proof -
  have m: "0 \<le> a mod 2 ^ d" "a mod 2 ^ d < 2 ^ d" by simp_all
  note eq = div_mult_mod_eq [of a "2 ^ d"]
  show "a div 2 ^ d * 2 ^ d \<le> a" using m eq by linarith
  show "a < (a div 2 ^ d + 1) * 2 ^ d" unfolding distrib_right using m eq by linarith
qed

lemma round_half_even_exact: "round_half_even (q * 2 ^ d) d = q"
  by (simp add: round_half_even_def Let_def)

lemma round_half_even_bounds: "a div 2 ^ d \<le> round_half_even a d" "round_half_even a d \<le> a div 2 ^ d + 1"
  by (simp_all add: round_half_even_def Let_def)

lemma round_half_even_mono:
  assumes "a \<le> b"
  shows "round_half_even a d \<le> round_half_even b d"
proof (cases "a div 2 ^ d = b div 2 ^ d")
  case True
  moreover have "a mod 2 ^ d \<le> b mod 2 ^ d"
    using assms True by (simp add: minus_div_mult_eq_mod [symmetric])
  ultimately show ?thesis by (auto simp: round_half_even_def Let_def)
next
  case False
  with assms have "a div 2 ^ d + 1 \<le> b div 2 ^ d" using zdiv_mono1 [OF assms, of "2 ^ d"] by simp
  with round_half_even_bounds [of a d] round_half_even_bounds [of b d] show ?thesis by linarith
qed

section \<open>Magnitudes\<close>

text \<open>The magnitude bits of the rounded value, before the cut at infinity, and the value of given bits.\<close>

definition round_bits :: "int \<Rightarrow> nat \<Rightarrow> int" where
  "round_bits a k = (let d = max k (digits a - 24) in int (d - k) * 0x800000 + round_half_even a d)"

definition bits_units :: "int \<Rightarrow> int" where
  "bits_units m =
     (let e = nat (m div 0x800000); f = m mod 0x800000
      in if e = 0 then f else (0x800000 + f) * 2 ^ (e - 1))"

lemma f32_units_eq: "f32_units a = (if f32_neg a then - bits_units (f32_magnitude a) else bits_units (f32_magnitude a))"
  by (simp add: f32_units_def bits_units_def f32_exponent_def f32_fraction_def Let_def)

lemma bits_units_nonneg: "0 \<le> m \<Longrightarrow> 0 \<le> bits_units m"
  by (simp add: bits_units_def Let_def)

lemma round_bits_exact:
  assumes "0 \<le> m"
  shows "round_bits (bits_units m * 2 ^ k) k = m"
proof -
  define e where "e = nat (m div 0x800000)"
  define f where "f = m mod 0x800000"
  have m: "m = int e * 0x800000 + f" "0 \<le> f" "f < 0x800000"
    using assms by (simp_all add: e_def f_def pos_imp_zdiv_nonneg_iff)
  show ?thesis
  proof (cases "e = 0")
    case True
    then have u: "bits_units m = f" by (simp add: bits_units_def e_def f_def Let_def)
    have "f * 2 ^ k < 2 ^ 24 * 2 ^ k" using m(3) by simp
    then have "f * 2 ^ k < 2 ^ (24 + k)" unfolding power_add .
    then have "digits (f * 2 ^ k) \<le> 24 + k" by (rule digits_less)
    then have "max k (digits (f * 2 ^ k) - 24) = k" by simp
    then have "round_bits (f * 2 ^ k) k = f" by (simp add: round_bits_def Let_def round_half_even_exact)
    with True m(1) show ?thesis unfolding u by simp
  next
    case False
    then have u: "bits_units m = (0x800000 + f) * 2 ^ (e - 1)" by (simp add: bits_units_def e_def f_def Let_def)
    let ?a = "bits_units m * 2 ^ k"
    have a: "?a = (0x800000 + f) * 2 ^ (e - 1 + k)" unfolding u power_add by simp
    have lo: "(2 :: int) ^ (23 + (e - 1 + k)) \<le> ?a" unfolding a power_add [of 2 23] using m(2) by simp
    have hi: "?a < 2 ^ Suc (23 + (e - 1 + k))"
    proof -
      have "?a < 0x1000000 * 2 ^ (e - 1 + k)" unfolding a using m(3) by simp
      then show ?thesis by (simp add: power_add)
    qed
    have d: "max k (digits ?a - 24) = e - 1 + k" unfolding digits_eq [OF lo hi] by simp
    have "round_bits ?a k = int (e - 1) * 0x800000 + (0x800000 + f)"
      unfolding round_bits_def d Let_def by (simp add: a round_half_even_exact)
    with False m(1) show ?thesis by (cases e) simp_all
  qed
qed

lemma round_half_even_upper:
  assumes "a < 2 ^ (24 + d)"
  shows "round_half_even a d \<le> 0x1000000"
proof -
  have "a < 0x1000000 * 2 ^ d" using assms by (simp add: power_add)
  with div_power_bounds(1) [of a d] have "a div 2 ^ d * 2 ^ d < 0x1000000 * 2 ^ d" by linarith
  then have "a div 2 ^ d < 0x1000000" by (rule mult_right_less_imp_less) simp
  with round_half_even_bounds(2) [of a d] show ?thesis by linarith
qed

lemma round_half_even_lower:
  assumes "2 ^ (23 + d) \<le> a"
  shows "0x800000 \<le> round_half_even a d"
proof -
  have "0x800000 * 2 ^ d \<le> a" using assms by (simp add: power_add)
  with div_power_bounds(2) [of a d] have "0x800000 * 2 ^ d < (a div 2 ^ d + 1) * 2 ^ d" by linarith
  then have "0x800000 < a div 2 ^ d + 1" by (rule mult_right_less_imp_less) simp
  with round_half_even_bounds(1) [of a d] show ?thesis by linarith
qed

lemma round_bits_mono_step:
  fixes a b :: int
  assumes "a < 2 ^ (24 + da)" and "2 ^ (23 + db) \<le> b" and "k \<le> da" and "da < db"
  shows "int (da - k) * 0x800000 + round_half_even a da \<le> int (db - k) * 0x800000 + round_half_even b db"
proof -
  have "int (da - k) + 1 \<le> int (db - k)" using assms(3,4) by simp
  with round_half_even_upper [OF assms(1)] round_half_even_lower [OF assms(2)] show ?thesis by linarith
qed

lemma round_bits_mono:
  assumes "0 \<le> a" and "a \<le> b"
  shows "round_bits a k \<le> round_bits b k"
proof -
  define da where "da = max k (digits a - 24)"
  define db where "db = max k (digits b - 24)"
  have bits: "round_bits a k = int (da - k) * 0x800000 + round_half_even a da"
    "round_bits b k = int (db - k) * 0x800000 + round_half_even b db"
    by (simp_all add: round_bits_def da_def db_def Let_def)
  have "da \<le> db" unfolding da_def db_def by (intro max.mono diff_le_mono digits_mono assms(2) order_refl)
  show ?thesis
  proof (cases "da = db")
    case True
    then show ?thesis unfolding bits using round_half_even_mono [OF assms(2)] by simp
  next
    case False
    with \<open>da \<le> db\<close> have less: "da < db" by simp
    have k: "k \<le> da" unfolding da_def by (rule max.cobounded1)
    with less have "db = digits b - 24" "24 < digits b" unfolding db_def by (auto simp: max_def split: if_splits)
    then have db: "digits b - 1 = 23 + db" "0 < digits b" by simp_all
    have b0: "0 < b" using db(2) digits_nonpos [of b] by (cases "0 < b") auto
    have lower: "2 ^ (23 + db) \<le> b" using digits_bounds [OF b0] unfolding db(1) by (rule conjunct1)
    have "digits a \<le> 24 + da" unfolding da_def by simp
    then have p: "(2 :: int) ^ digits a \<le> 2 ^ (24 + da)" by (rule power_increasing) simp
    have "a < 2 ^ (24 + da)"
    proof (cases "0 < a")
      case True
      then show ?thesis using digits_bounds [OF True] p by (meson less_le_trans)
    next
      case False
      with assms(1) have "a = 0" by linarith
      then show ?thesis by (simp only: zero_less_power zero_less_numeral)
    qed
    from round_bits_mono_step [OF this lower k less] show ?thesis unfolding bits .
  qed
qed

lemma bits_units_mono_iff:
  assumes "0 \<le> m" and "0 \<le> n"
  shows "bits_units m \<le> bits_units n \<longleftrightarrow> m \<le> n"
proof
  assume "bits_units m \<le> bits_units n"
  from round_bits_mono [OF bits_units_nonneg [OF assms(1)] this, of 0] show "m \<le> n"
    using round_bits_exact [of m 0] round_bits_exact [of n 0] assms by simp
next
  assume le: "m \<le> n"
  show "bits_units m \<le> bits_units n"
  proof (rule ccontr)
    assume "\<not> bits_units m \<le> bits_units n"
    then have "bits_units n \<le> bits_units m" by simp
    from round_bits_mono [OF bits_units_nonneg [OF assms(2)] this, of 0] have "n \<le> m"
      using round_bits_exact [of m 0] round_bits_exact [of n 0] assms by simp
    with le have "m = n" by simp
    with \<open>\<not> bits_units m \<le> bits_units n\<close> show False by simp
  qed
qed

lemma round_bits_nonneg: "0 \<le> a \<Longrightarrow> 0 \<le> round_bits a k"
proof -
  assume "0 \<le> a"
  then have "0 \<le> a div 2 ^ max k (digits a - 24)" by (simp add: pos_imp_zdiv_nonneg_iff)
  with round_half_even_bounds(1) [of a "max k (digits a - 24)"]
  have "0 \<le> round_half_even a (max k (digits a - 24))" by linarith
  then show ?thesis unfolding round_bits_def Let_def by (intro add_nonneg_nonneg) simp_all
qed

section \<open>The order of rounded results\<close>

definition f32_finite :: "f32 \<Rightarrow> bool" where
  "f32_finite a \<longleftrightarrow> f32_magnitude a < 0x7f800000"

lemma f32_is_nan_iff: "f32_is_nan a \<longleftrightarrow> 0x7f800000 < f32_magnitude a"
proof -
  let ?m = "f32_magnitude a"
  have m: "?m = uint (take_bit 31 a)" "0 \<le> ?m" by (simp_all add: f32_magnitude_bits)
  then have "?m = take_bit 31 (uint a)" by (simp add: unsigned_take_bit_eq)
  then have m31: "?m < 2 ^ 31" by (simp only: take_bit_int_less_exp)
  have c: "0x7f800000 = (push_bit 23 (mask 8) :: f32)" "0x7fffff = (mask 23 :: f32)"
    by (simp_all add: mask_eq_exp_minus_1 push_bit_eq_mult)
  have frac: "a AND mask 23 = 0 \<longleftrightarrow> ?m mod 0x800000 = 0"
  proof -
    have "uint (take_bit 23 a) = take_bit 23 ?m" by (simp add: m(1) unsigned_take_bit_eq)
    moreover have "take_bit 23 ?m = ?m mod 0x800000" by (simp add: take_bit_eq_mod)
    ultimately have "uint (a AND mask 23) = ?m mod 0x800000" unfolding take_bit_eq_mask [of 23 a] by simp
    then show ?thesis by (metis uint_0_iff)
  qed
  have "a AND push_bit 23 (mask 8) = push_bit 23 (mask 8) \<longleftrightarrow> drop_bit 23 (take_bit 31 a) = mask 8"
  proof
    assume "a AND push_bit 23 (mask 8) = push_bit 23 (mask 8)"
    then have "drop_bit 23 (take_bit 31 (a AND push_bit 23 (mask 8))) = drop_bit 23 (take_bit 31 (push_bit 23 (mask 8) :: f32))" by simp
    then show "drop_bit 23 (take_bit 31 a) = mask 8" by (auto simp: bit_eq_iff bit_simps)
  next
    assume d: "drop_bit 23 (take_bit 31 a) = mask 8"
    show "a AND push_bit 23 (mask 8) = push_bit 23 (mask 8)"
    proof (rule bit_word_eqI)
      fix n assume n: "n < LENGTH(32)"
      show "bit (a AND push_bit 23 (mask 8)) n = bit (push_bit 23 (mask 8) :: f32) n"
      proof (cases "23 \<le> n \<and> n < 31")
        case True
        then have "n - 23 < 8" by arith
        then have "bit (drop_bit 23 (take_bit 31 a)) (n - 23)" using d by (simp add: bit_mask_iff)
        with True have "bit a n" by (simp add: bit_drop_bit_eq bit_take_bit_iff)
        then show ?thesis by (simp add: bit_and_iff)
      next
        case False
        with n show ?thesis by (auto simp: bit_and_iff bit_push_bit_iff bit_mask_iff)
      qed
    qed
  qed
  also have "\<dots> \<longleftrightarrow> ?m div 0x800000 = 255"
  proof -
    have "uint (drop_bit 23 (take_bit 31 a)) = drop_bit 23 ?m"
      unfolding unsigned_drop_bit_eq m(1) [symmetric] using m(2) m31 by (simp add: take_bit_int_eq_self)
    then have "uint (drop_bit 23 (take_bit 31 a)) = ?m div 0x800000" by (simp add: drop_bit_eq_div)
    moreover have "uint (mask 8 :: f32) = 255" by (simp add: mask_eq_exp_minus_1)
    ultimately show ?thesis by (metis word_uint_eq_iff)
  qed
  also have "\<dots> \<longleftrightarrow> 0x7f800000 \<le> ?m" using m(2) m31 by auto
  finally have top: "a AND 0x7f800000 = 0x7f800000 \<longleftrightarrow> 0x7f800000 \<le> ?m" unfolding c .
  have "?m mod 0x800000 = ?m - 0x7f800000" if "0x7f800000 \<le> ?m"
  proof -
    have "?m div 0x800000 = 255" using that m31 by auto
    then show ?thesis using div_mult_mod_eq [of ?m "0x800000"] by simp
  qed
  then show ?thesis unfolding f32_is_nan_def top using frac unfolding c(2) by fastforce
qed

lemma f32_is_inf_iff: "f32_is_inf a \<longleftrightarrow> f32_magnitude a = 0x7f800000"
  by (simp add: f32_is_inf_def f32_magnitude_def word_uint_eq_iff)

lemma finite_not [simp]: "f32_finite a \<Longrightarrow> \<not> f32_is_nan a" "f32_finite a \<Longrightarrow> \<not> f32_is_inf a"
  by (simp_all add: f32_finite_def f32_is_nan_iff f32_is_inf_iff)

lemma f32_with_sign:
  assumes "0 \<le> m" and "m \<le> 0x7fffffff"
  shows "f32_magnitude (f32_with_sign neg m) = m" "f32_neg (f32_with_sign neg m) = neg"
proof -
  have w: "uint (word_of_int m :: f32) = m" using assms by (simp add: unsigned_of_int take_bit_int_eq_self)
  have low: "take_bit 31 (word_of_int m :: f32) = word_of_int m"
    using assms by (simp add: word_uint_eq_iff unsigned_take_bit_eq w take_bit_int_eq_self)
  have high: "\<not> bit (word_of_int m :: f32) 31" using low by (metis bit_take_bit_iff less_irrefl)
  have "take_bit 31 (f32_with_sign neg m) = word_of_int m"
    using low by (auto simp: f32_with_sign_def take_bit_or)
  then show "f32_magnitude (f32_with_sign neg m) = m" by (simp add: f32_magnitude_bits w)
  show "f32_neg (f32_with_sign neg m) = neg"
    using high by (auto simp: f32_with_sign_def f32_neg_def bit_or_iff)
qed

text \<open>\<open>rounded s k r\<close>: the float \<open>r\<close> is the rounded value of \<open>s\<close> in units of \<open>2 ^ (-149 - k)\<close>.\<close>

definition rounded :: "int \<Rightarrow> nat \<Rightarrow> f32 \<Rightarrow> bool" where
  "rounded s k r \<longleftrightarrow>
     f32_magnitude r = min 0x7f800000 (round_bits \<bar>s\<bar> k) \<and> (s < 0 \<longrightarrow> f32_neg r) \<and> (0 < s \<longrightarrow> \<not> f32_neg r)"

lemma f32_round_rounded:
  assumes "0 \<le> a" and "a = \<bar>s\<bar>" and "s \<noteq> 0 \<Longrightarrow> neg = (s < 0)"
  shows "rounded s k (f32_round neg a k)"
proof -
  have "f32_round neg a k = f32_with_sign neg (min 0x7f800000 (round_bits a k))"
    by (simp add: f32_round_def round_bits_def Let_def min_def)
  moreover have "0 \<le> min 0x7f800000 (round_bits a k)" using round_bits_nonneg [OF assms(1)] by simp
  ultimately show ?thesis using assms(2,3) by (auto simp: rounded_def f32_with_sign)
qed

lemma f32_round_nonneg: "0 \<le> s \<Longrightarrow> (s \<noteq> 0 \<Longrightarrow> \<not> neg) \<Longrightarrow> rounded s k (f32_round neg s k)"
  by (rule f32_round_rounded) auto

lemma rounded_not_nan: "rounded s k r \<Longrightarrow> \<not> f32_is_nan r"
  by (simp add: rounded_def f32_is_nan_iff)

lemma order_eq: "f32_order r = (if f32_neg r then - f32_magnitude r else f32_magnitude r)"
  by (simp add: f32_order_def)

lemma units_mono_iff: "f32_units a \<le> f32_units b \<longleftrightarrow> f32_order a \<le> f32_order b"
proof -
  note ab = f32_magnitude_nonneg [of a] f32_magnitude_nonneg [of b]
  note le = bits_units_mono_iff [OF ab] bits_units_mono_iff [OF ab(2,1)]
  have zero: "bits_units m \<le> 0 \<longleftrightarrow> m = 0" if "0 \<le> m" for m
    using bits_units_mono_iff [OF that, of 0] that by (simp add: bits_units_def Let_def)
  have nonneg: "0 \<le> bits_units (f32_magnitude a)" "0 \<le> bits_units (f32_magnitude b)"
    using ab by (simp_all add: bits_units_nonneg)
  show ?thesis
  proof (cases "f32_neg a"; cases "f32_neg b")
    assume "\<not> f32_neg a" "f32_neg b"
    moreover have "bits_units (f32_magnitude a) \<le> - bits_units (f32_magnitude b) \<longleftrightarrow>
        bits_units (f32_magnitude a) \<le> 0 \<and> bits_units (f32_magnitude b) \<le> 0" using nonneg by linarith
    moreover have "f32_magnitude a \<le> - f32_magnitude b \<longleftrightarrow> f32_magnitude a = 0 \<and> f32_magnitude b = 0"
      using ab by linarith
    ultimately show ?thesis using zero ab by (simp add: f32_units_eq order_eq)
  qed (use nonneg ab le in \<open>auto simp: f32_units_eq order_eq\<close>)
qed

lemma rounded_le:
  assumes "rounded s k r" and "f32_finite c" and "s \<le> f32_units c * 2 ^ k"
  shows "f32_order r \<le> f32_order c"
proof -
  let ?m = "f32_magnitude c"
  note m = f32_magnitude_nonneg [of c]
  have r: "0 \<le> f32_magnitude r" by (rule f32_magnitude_nonneg)
  show ?thesis
  proof (cases "f32_neg c")
    case False
    show ?thesis
    proof (cases "0 < s")
      case True
      then have "round_bits s k \<le> ?m"
        using round_bits_mono [of s "bits_units ?m * 2 ^ k" k] assms(3) False round_bits_exact [OF m, of k]
        by (simp add: f32_units_eq)
      with True assms(1) False show ?thesis by (simp add: rounded_def order_eq)
    next
      case nonpos: False
      show ?thesis
      proof (cases "s = 0")
        case True
        then have "f32_magnitude r = 0" using assms(1) round_bits_exact [of 0 k] by (simp add: rounded_def bits_units_def Let_def)
        with False m show ?thesis by (simp add: order_eq)
      next
        case False
        with nonpos assms(1) have "f32_neg r" by (simp add: rounded_def)
        with r m \<open>\<not> f32_neg c\<close> show ?thesis by (simp add: order_eq)
      qed
    qed
  next
    case True
    then have s: "s \<le> - (bits_units ?m * 2 ^ k)" using assms(3) by (simp add: f32_units_eq)
    have pos: "0 \<le> bits_units ?m * 2 ^ k" using bits_units_nonneg [OF m] by simp
    have "?m \<le> round_bits \<bar>s\<bar> k"
      using round_bits_mono [OF pos, of "\<bar>s\<bar>" k] s pos round_bits_exact [OF m, of k] by simp
    then have mr: "?m \<le> f32_magnitude r" using assms(1,2) by (simp add: rounded_def f32_finite_def)
    show ?thesis
    proof (cases "s = 0")
      case True
      then have "f32_magnitude r = 0" using assms(1) round_bits_exact [of 0 k] by (simp add: rounded_def bits_units_def Let_def)
      with mr m show ?thesis by (simp add: order_eq)
    next
      case False
      with s pos have "s < 0" by linarith
      with assms(1) have "f32_neg r" by (simp add: rounded_def)
      with True mr show ?thesis by (simp add: order_eq)
    qed
  qed
qed

lemma f32_uminus_simps:
  "f32_magnitude (f32_uminus a) = f32_magnitude a" "f32_neg (f32_uminus a) = (\<not> f32_neg a)"
  "f32_order (f32_uminus a) = - f32_order a" "f32_units (f32_uminus a) = - f32_units a"
  "f32_finite (f32_uminus a) = f32_finite a"
proof -
  have "take_bit 31 (f32_uminus a) = take_bit 31 a" by (simp add: f32_uminus_def take_bit_xor)
  then show m: "f32_magnitude (f32_uminus a) = f32_magnitude a" by (simp add: f32_magnitude_bits)
  show n: "f32_neg (f32_uminus a) = (\<not> f32_neg a)" by (simp add: f32_uminus_def f32_neg_def bit_xor_iff)
  show "f32_order (f32_uminus a) = - f32_order a" "f32_units (f32_uminus a) = - f32_units a"
    "f32_finite (f32_uminus a) = f32_finite a"
    by (simp_all add: order_eq f32_units_eq m n f32_finite_def)
qed

lemma rounded_ge:
  assumes "rounded s k r" and "f32_finite c" and "f32_units c * 2 ^ k \<le> s"
  shows "f32_order c \<le> f32_order r"
proof -
  have "rounded (- s) k (f32_uminus r)" using assms(1) by (simp add: rounded_def f32_uminus_simps)
  from rounded_le [OF this, of "f32_uminus c"] assms(2,3) show ?thesis by (simp add: f32_uminus_simps)
qed

section \<open>Comparisons\<close>

lemma f32_lt_iff: "\<not> f32_is_nan a \<Longrightarrow> \<not> f32_is_nan b \<Longrightarrow> f32_lt a b \<longleftrightarrow> f32_order a < f32_order b"
  by (simp add: f32_lt_def)

lemma f32_order_zero: "f32_is_zero a \<Longrightarrow> f32_order a = 0"
  by (simp add: order_eq flip: f32_magnitude_zero)

lemma f32_eq_iff: "\<not> f32_is_nan a \<Longrightarrow> \<not> f32_is_nan b \<Longrightarrow> f32_eq a b \<longleftrightarrow> f32_order a = f32_order b"
  using f32_same_order [of a b] by (auto simp: f32_eq_def f32_order_zero)

lemma f32_le_iff: "\<not> f32_is_nan a \<Longrightarrow> \<not> f32_is_nan b \<Longrightarrow> f32_le a b \<longleftrightarrow> f32_order a \<le> f32_order b"
  by (auto simp: f32_le_def f32_lt_iff f32_eq_iff)

section \<open>The operations round the exact results\<close>

lemma rounded_zero: "f32_is_zero r \<Longrightarrow> rounded 0 k r"
  using round_bits_exact [of 0 k] by (simp add: rounded_def bits_units_def Let_def f32_magnitude_zero)

lemma f32_units_zero: "f32_is_zero a \<Longrightarrow> f32_units a = 0"
proof -
  assume "f32_is_zero a"
  then have "f32_magnitude a = 0" by (simp add: f32_magnitude_zero)
  then show ?thesis by (simp add: f32_units_eq bits_units_def)
qed

lemma f32_add_rounded:
  assumes "f32_finite a" and "f32_finite b"
  shows "rounded (f32_units a + f32_units b) 0 (f32_add a b)"
proof (cases "f32_units a + f32_units b = 0")
  case True
  moreover have "f32_is_zero (if f32_neg a \<and> f32_neg b then 0x80000000 else 0)" by (simp add: f32_is_zero_def)
  ultimately show ?thesis using assms rounded_zero by (simp add: f32_add_def Let_def)
next
  case False
  with assms have "f32_add a b = f32_round (f32_units a + f32_units b < 0) \<bar>f32_units a + f32_units b\<bar> 0"
    by (simp add: f32_add_def Let_def)
  then show ?thesis by (simp add: f32_round_rounded)
qed

lemma f32_sub_rounded:
  assumes "f32_finite a" and "f32_finite b"
  shows "rounded (f32_units a - f32_units b) 0 (f32_sub a b)"
  using f32_add_rounded [of a "f32_uminus b"] assms by (simp add: f32_sub_def f32_uminus_simps)

lemma f32_neg_units: "f32_units a < 0 \<Longrightarrow> f32_neg a" "0 < f32_units a \<Longrightarrow> \<not> f32_neg a"
  using bits_units_nonneg [OF f32_magnitude_nonneg [of a]] by (auto simp: f32_units_eq split: if_splits)

lemma f32_mul_rounded:
  assumes "f32_finite a" and "f32_finite b"
  shows "rounded (f32_units a * f32_units b) 149 (f32_mul a b)"
proof -
  have sign: "(f32_neg a \<noteq> f32_neg b) = (f32_units a * f32_units b < 0)" if "f32_units a * f32_units b \<noteq> 0"
    using that f32_neg_units [of a] f32_neg_units [of b] by (auto simp: mult_less_0_iff linorder_neq_iff)
  have "f32_mul a b = f32_round (f32_neg a \<noteq> f32_neg b) \<bar>f32_units a * f32_units b\<bar> 149"
    using assms by (simp add: f32_mul_def Let_def)
  then show ?thesis using f32_round_rounded [OF abs_ge_zero refl sign, of 149] by simp
qed

text \<open>Quotients and roots: bounds by representable values.\<close>

lemma sticky_le: "0 < d \<Longrightarrow> n \<le> x * d \<Longrightarrow> sticky (n div d) (n mod d \<noteq> 0) \<le> 2 * x"
proof -
  assume d: "0 < d" and n: "n \<le> x * d"
  have q: "n div d * d + n mod d = n" by simp
  show ?thesis
  proof (cases "n mod d = 0")
    case True
    with q n have "n div d * d \<le> x * d" by simp
    with d True show ?thesis by (simp add: sticky_def)
  next
    case False
    moreover have "0 \<le> n mod d" using d by simp
    ultimately have "0 < n mod d" by linarith
    with q n have "n div d * d < x * d" by linarith
    with d have "n div d < x" by simp
    then show ?thesis by (simp add: sticky_def)
  qed
qed

lemma sticky_ge: "0 < d \<Longrightarrow> x * d \<le> n \<Longrightarrow> 2 * x \<le> sticky (n div d) (n mod d \<noteq> 0)"
proof -
  assume d: "0 < d" and n: "x * d \<le> (n :: int)"
  have "x \<le> n div d" using zdiv_mono1 [OF n d] d by simp
  then show ?thesis by (simp add: sticky_def)
qed

lemma isqrt_bounds: "0 \<le> n \<Longrightarrow> 0 \<le> isqrt n \<and> isqrt n * isqrt n \<le> n \<and> n < (isqrt n + 1) * (isqrt n + 1)"
proof (induction n rule: isqrt.induct)
  case (1 n)
  show ?case
  proof (cases "n = 0")
    case True
    then show ?thesis by (simp add: isqrt.simps)
  next
    case False
    with 1(2) have pos: "\<not> n \<le> 0" by simp
    define r where "r = isqrt (n div 4)"
    have ih: "0 \<le> r" "r * r \<le> n div 4" "n div 4 < (r + 1) * (r + 1)"
      using 1(1) [OF pos] 1(2) unfolding r_def by simp_all
    have n4: "4 * (n div 4) \<le> n" "n < 4 * (n div 4) + 4" by linarith+
    have lower: "(2 * r) * (2 * r) \<le> n" using ih(2) n4(1) by linarith
    have "(2 * r + 2) * (2 * r + 2) = 4 * ((r + 1) * (r + 1))" by (simp add: algebra_simps)
    then have upper: "n < (2 * r + 2) * (2 * r + 2)" using ih(3) n4(2) by linarith
    have eq: "isqrt n = (if (2 * r + 1) * (2 * r + 1) \<le> n then 2 * r + 1 else 2 * r)"
      using pos by (simp add: isqrt.simps [of n] r_def Let_def)
    show ?thesis using lower upper ih(1) unfolding eq by (simp add: add.commute)
  qed
qed

text \<open>A float in a range given by finite floats.\<close>

definition f32_within :: "f32 \<Rightarrow> f32 \<Rightarrow> f32 \<Rightarrow> bool" where
  "f32_within lo hi a \<longleftrightarrow> f32_finite a \<and> f32_order lo \<le> f32_order a \<and> f32_order a \<le> f32_order hi"

lemma withinD:
  assumes "f32_within lo hi a"
  shows "f32_finite a" "f32_units lo \<le> f32_units a" "f32_units a \<le> f32_units hi" "\<not> f32_is_nan a"
  using assms by (simp_all add: f32_within_def units_mono_iff)

lemma order_abs: "\<bar>f32_order a\<bar> = f32_magnitude a"
  using f32_magnitude_nonneg [of a] by (simp add: order_eq)

lemma withinI:
  assumes "f32_finite lo" and "f32_finite hi" and "f32_order lo \<le> f32_order a" and "f32_order a \<le> f32_order hi"
  shows "f32_within lo hi a"
proof -
  have "\<bar>f32_order lo\<bar> < 0x7f800000" "\<bar>f32_order hi\<bar> < 0x7f800000" using assms(1,2) by (simp_all add: order_abs f32_finite_def)
  with assms(3,4) have "\<bar>f32_order a\<bar> < 0x7f800000" by linarith
  with assms(3,4) show ?thesis by (simp add: f32_within_def f32_finite_def order_abs)
qed

lemma within_rounded:
  assumes "rounded s k r" and "f32_finite lo" and "f32_finite hi"
    and "f32_units lo * 2 ^ k \<le> s" and "s \<le> f32_units hi * 2 ^ k"
  shows "f32_within lo hi r"
  by (rule withinI [OF assms(2,3) rounded_ge [OF assms(1,2,4)] rounded_le [OF assms(1,3,5)]])

lemma within_weaken:
  assumes "f32_within lo hi a" and "f32_units lo' \<le> f32_units lo" and "f32_units hi \<le> f32_units hi'"
  shows "f32_within lo' hi' a"
  using assms by (auto simp: f32_within_def units_mono_iff)

lemma within_add:
  assumes "f32_within l1 h1 a" and "f32_within l2 h2 b" and "f32_finite lo" and "f32_finite hi"
    and "f32_units lo \<le> f32_units l1 + f32_units l2" and "f32_units h1 + f32_units h2 \<le> f32_units hi"
  shows "f32_within lo hi (f32_add a b)"
  using withinD [OF assms(1)] withinD [OF assms(2)] assms(3-6)
  by (intro within_rounded [OF f32_add_rounded]) simp_all

lemma within_sub:
  assumes "f32_within l1 h1 a" and "f32_within l2 h2 b" and "f32_finite lo" and "f32_finite hi"
    and "f32_units lo \<le> f32_units l1 - f32_units h2" and "f32_units h1 - f32_units l2 \<le> f32_units hi"
  shows "f32_within lo hi (f32_sub a b)"
  using withinD [OF assms(1)] withinD [OF assms(2)] assms(3-6)
  by (intro within_rounded [OF f32_sub_rounded]) simp_all

lemma within_mul_nonneg:
  assumes "f32_within l1 h1 a" and "f32_within l2 h2 b" and "0 \<le> f32_units l1" and "0 \<le> f32_units l2"
    and "f32_finite lo" and "f32_finite hi"
    and "f32_units lo * 2 ^ 149 \<le> f32_units l1 * f32_units l2" and "f32_units h1 * f32_units h2 \<le> f32_units hi * 2 ^ 149"
  shows "f32_within lo hi (f32_mul a b)"
proof (rule within_rounded [OF f32_mul_rounded assms(5,6)])
  note a = withinD [OF assms(1)] and b = withinD [OF assms(2)]
  show "f32_finite a" "f32_finite b" by (rule a b)+
  have "f32_units l1 * f32_units l2 \<le> f32_units a * f32_units b" using a b assms(3,4) by (intro mult_mono) simp_all
  with assms(7) show "f32_units lo * 2 ^ 149 \<le> f32_units a * f32_units b" by (rule order_trans)
  have "f32_units a * f32_units b \<le> f32_units h1 * f32_units h2" using a b assms(3,4) by (intro mult_mono) linarith+
  with assms(8) show "f32_units a * f32_units b \<le> f32_units hi * 2 ^ 149" by linarith
qed

lemma within_mul_abs:
  assumes "f32_within (f32_uminus h1) h1 a" and "f32_within (f32_uminus h2) h2 b" and "f32_finite hi"
    and "f32_units h1 * f32_units h2 \<le> f32_units hi * 2 ^ 149"
  shows "f32_within (f32_uminus hi) hi (f32_mul a b)"
proof -
  note a = withinD [OF assms(1)] and b = withinD [OF assms(2)]
  have "\<bar>f32_units a\<bar> \<le> f32_units h1" "\<bar>f32_units b\<bar> \<le> f32_units h2"
    using a(2,3) b(2,3) by (simp_all add: f32_uminus_simps abs_le_iff)
  then have "\<bar>f32_units a\<bar> * \<bar>f32_units b\<bar> \<le> f32_units h1 * f32_units h2" by (intro mult_mono) linarith+
  then have "\<bar>f32_units a * f32_units b\<bar> \<le> f32_units hi * 2 ^ 149" using assms(4) by (simp add: abs_mult)
  with assms(3) a(1) b(1) show ?thesis
    by (intro within_rounded [OF f32_mul_rounded]) (simp_all add: f32_uminus_simps abs_le_iff)
qed

text \<open>Division of a nonnegative float by a positive one.\<close>

lemma within_div:
  assumes "f32_within l1 h1 a" and "f32_within l2 h2 b" and "0 \<le> f32_units l1" and "0 < f32_units l2"
    and "f32_finite lo" and "f32_finite hi" and "0 \<le> f32_units lo"
    and "f32_units lo * f32_units h2 \<le> f32_units l1 * 2 ^ 149" and "f32_units h1 * 2 ^ 149 \<le> f32_units hi * f32_units l2"
  shows "f32_within lo hi (f32_div a b)"
proof -
  note a = withinD [OF assms(1)] and b = withinD [OF assms(2)]
  let ?d = "f32_units b" and ?n = "f32_units a * 2 ^ 309"
  let ?s = "sticky (?n div ?d) (?n mod ?d \<noteq> 0)"
  have pos: "0 < ?d" "0 \<le> f32_units a" using a b assms(3,4) by linarith+
  have nz: "\<not> f32_is_zero b"
    using pos(1) f32_units_zero [of b] by auto
  have s0: "0 \<le> ?s" using pos by (simp add: sticky_def pos_imp_zdiv_nonneg_iff)
  have eq: "f32_div a b = f32_round (f32_neg a \<noteq> f32_neg b) ?s 161"
    using a(1,4) b(1,4) pos nz by (simp add: f32_div_def Let_def)
  have sign: "\<not> (f32_neg a \<noteq> f32_neg b)" if "?s \<noteq> 0"
  proof -
    have "f32_units a \<noteq> 0" using that by (auto simp: sticky_def)
    then show ?thesis using pos f32_neg_units [of a] f32_neg_units [of b] by simp
  qed
  have r: "rounded ?s 161 (f32_div a b)" unfolding eq by (rule f32_round_nonneg [OF s0 sign])
  have upper: "?s \<le> 2 * (f32_units hi * 2 ^ 160)"
  proof (rule sticky_le [OF pos(1)])
    have "f32_units a * 2 ^ 149 \<le> f32_units h1 * 2 ^ 149" using a(3) by simp
    also have "\<dots> \<le> f32_units hi * f32_units l2" by (rule assms(9))
    also have "\<dots> \<le> f32_units hi * ?d"
    proof (rule mult_left_mono [OF b(2)])
      have "0 \<le> f32_units h1 * 2 ^ 149" using a assms(3) by simp
      with assms(9) have "0 \<le> f32_units hi * f32_units l2" by linarith
      with assms(4) show "0 \<le> f32_units hi" by (simp add: zero_le_mult_iff)
    qed
    finally have "f32_units a * 2 ^ 149 * 2 ^ 160 \<le> f32_units hi * ?d * 2 ^ 160" by (rule mult_right_mono) simp
    then show "?n \<le> f32_units hi * 2 ^ 160 * ?d" by (simp add: ac_simps)
  qed
  have lower: "2 * (f32_units lo * 2 ^ 160) \<le> ?s"
  proof (rule sticky_ge [OF pos(1)])
    have "f32_units lo * ?d \<le> f32_units lo * f32_units h2" using b(3) assms(7) by (rule mult_left_mono)
    also have "\<dots> \<le> f32_units l1 * 2 ^ 149" by (rule assms(8))
    also have "\<dots> \<le> f32_units a * 2 ^ 149" using a(2) by simp
    finally have "f32_units lo * ?d * 2 ^ 160 \<le> f32_units a * 2 ^ 149 * 2 ^ 160" by (rule mult_right_mono) simp
    then show "f32_units lo * 2 ^ 160 * ?d \<le> ?n" by (simp add: ac_simps)
  qed
  from lower upper show ?thesis by (intro within_rounded [OF r assms(5,6)]) simp_all
qed

lemma square_le: "0 \<le> (y :: int) \<Longrightarrow> x * x \<le> y * y \<Longrightarrow> x \<le> y"
  by (rule power2_le_imp_le) (simp_all add: power2_eq_square)

lemma square_less: "0 \<le> (y :: int) \<Longrightarrow> x * x < y * y \<Longrightarrow> x < y"
  by (rule power2_less_imp_less) (simp_all add: power2_eq_square)

lemma within_sqrt:
  assumes "f32_within l1 h1 a" and "0 < f32_units l1"
    and "f32_finite lo" and "f32_finite hi" and "0 \<le> f32_units lo" and "0 \<le> f32_units hi"
    and "f32_units lo * f32_units lo \<le> f32_units l1 * 2 ^ 149" and "f32_units h1 * 2 ^ 149 \<le> f32_units hi * f32_units hi"
  shows "f32_within lo hi (f32_sqrt a)"
proof -
  note a = withinD [OF assms(1)]
  let ?n = "f32_units a * 2 ^ 209"
  let ?s = "sticky (isqrt ?n) (isqrt ?n * isqrt ?n \<noteq> ?n)"
  have pos: "0 < f32_units a" using a assms(2) by linarith
  have nz: "\<not> f32_is_zero a" "\<not> f32_neg a"
    using pos f32_units_zero [of a] f32_neg_units(2) [OF pos] by auto
  have n: "0 \<le> isqrt ?n" "isqrt ?n * isqrt ?n \<le> ?n" "?n < (isqrt ?n + 1) * (isqrt ?n + 1)"
    using isqrt_bounds [of ?n] pos by simp_all
  have eq: "f32_sqrt a = f32_round False ?s 31" using a(1,4) nz by (simp add: f32_sqrt_def Let_def)
  have s0: "0 \<le> ?s" using n(1) by (simp add: sticky_def)
  have r: "rounded ?s 31 (f32_sqrt a)" unfolding eq by (rule f32_round_nonneg [OF s0]) simp
  have n60: "f32_units a * 2 ^ 149 * 2 ^ 60 = ?n" by simp
  have sq: "(x * 2 ^ 30) * (x * 2 ^ 30) = x * x * 2 ^ 60" for x :: int by (simp add: ac_simps)
  have upper: "?s \<le> 2 * (f32_units hi * 2 ^ 30)"
  proof -
    have "f32_units a * 2 ^ 149 \<le> f32_units h1 * 2 ^ 149" using a(3) by simp
    also have "\<dots> \<le> f32_units hi * f32_units hi" by (rule assms(8))
    finally have "f32_units a * 2 ^ 149 * 2 ^ 60 \<le> f32_units hi * f32_units hi * 2 ^ 60" by (rule mult_right_mono) simp
    then have hi: "?n \<le> (f32_units hi * 2 ^ 30) * (f32_units hi * 2 ^ 30)" unfolding sq n60 .
    have h0: "0 \<le> f32_units hi * 2 ^ 30" using assms(6) by simp
    show ?thesis
    proof (cases "isqrt ?n * isqrt ?n = ?n")
      case True
      then have "isqrt ?n * isqrt ?n \<le> (f32_units hi * 2 ^ 30) * (f32_units hi * 2 ^ 30)" using hi by simp
      then have "isqrt ?n \<le> f32_units hi * 2 ^ 30" using h0 by (rule square_le [rotated])
      with True show ?thesis by (simp add: sticky_def)
    next
      case False
      with n(2) hi have "isqrt ?n * isqrt ?n < (f32_units hi * 2 ^ 30) * (f32_units hi * 2 ^ 30)" by linarith
      then have "isqrt ?n < f32_units hi * 2 ^ 30" using h0 by (rule square_less [rotated])
      then show ?thesis by (simp add: sticky_def)
    qed
  qed
  have lower: "2 * (f32_units lo * 2 ^ 30) \<le> ?s"
  proof -
    have "f32_units l1 * 2 ^ 149 \<le> f32_units a * 2 ^ 149" using a(2) by simp
    with assms(7) have "f32_units lo * f32_units lo \<le> f32_units a * 2 ^ 149" by (rule order_trans)
    then have "f32_units lo * f32_units lo * 2 ^ 60 \<le> f32_units a * 2 ^ 149 * 2 ^ 60" by (rule mult_right_mono) simp
    then have "(f32_units lo * 2 ^ 30) * (f32_units lo * 2 ^ 30) \<le> ?n" unfolding sq n60 .
    with n(3) have "(f32_units lo * 2 ^ 30) * (f32_units lo * 2 ^ 30) < (isqrt ?n + 1) * (isqrt ?n + 1)" by linarith
    then have "f32_units lo * 2 ^ 30 < isqrt ?n + 1" by (rule square_less [rotated]) (use n(1) in linarith)
    then show ?thesis by (simp add: sticky_def)
  qed
  have double: "2 * (x * 2 ^ 30) = x * 2 ^ 31" for x :: int by simp
  show ?thesis using lower upper unfolding double by (rule within_rounded [OF r assms(3,4)])
qed

end
