(* ===== verification/Sim_Math.thy ===== *)
theory Sim_Math
  imports World Float_Order Config
begin

text \<open>
  The simulation's constants (\<open>src/src/shared/config.h\<close>) and its pure functions
  (\<open>src/src/shared/sim.c\<close>): clamping, the random generator, zones, and the rules that depend on a
  position or a mass.  A float constant is the bit pattern of its decimal literal; an expression of
  constants is computed as written.  The cosine and sine of the C library, whose last bits the
  standard leaves open, are the parameter \<open>libm\<close>.
\<close>

record libm =
  lm_cosf :: "f32 \<Rightarrow> f32"
  lm_sinf :: "f32 \<Rightarrow> f32"

section \<open>Constants\<close>

definition SHROOM_MAX_SPLIT_PIECES :: nat where "SHROOM_MAX_SPLIT_PIECES = 4"
definition SHROOM_MAX_PLAYER_ENTITIES :: nat where
  "SHROOM_MAX_PLAYER_ENTITIES = SHROOM_MAX_PARTICIPANTS * SHROOM_MAX_SPLIT_PIECES"
definition SHROOM_WORLD_WIDTH :: f32 where "SHROOM_WORLD_WIDTH = 0x45bb8000"
definition SHROOM_WORLD_HEIGHT :: f32 where "SHROOM_WORLD_HEIGHT = 0x45bb8000"
definition SHROOM_ZONE_CENTER_RADIUS :: f32 where "SHROOM_ZONE_CENTER_RADIUS = 0x44610000"
definition SHROOM_ZONE_MID_RADIUS :: f32 where "SHROOM_ZONE_MID_RADIUS = 0x44fa0000"
definition SHROOM_DEFAULT_PLAYER_MASS :: f32 where "SHROOM_DEFAULT_PLAYER_MASS = 0x42c00000"
definition SHROOM_DECAY_MASS_THRESHOLD :: f32 where
  "SHROOM_DECAY_MASS_THRESHOLD = f32_mul SHROOM_DEFAULT_PLAYER_MASS 0x40c00000"
definition SHROOM_DECAY_RATE_CENTER_PER_SECOND :: f32 where "SHROOM_DECAY_RATE_CENTER_PER_SECOND = 0x3d75c28f"
definition SHROOM_DECAY_RATE_MID_PER_SECOND :: f32 where "SHROOM_DECAY_RATE_MID_PER_SECOND = 0x3cf5c28f"
definition SHROOM_DECAY_RATE_OUTER_PER_SECOND :: f32 where "SHROOM_DECAY_RATE_OUTER_PER_SECOND = 0x3c75c28f"
definition SHROOM_MAX_PLAYER_MASS :: f32 where
  "SHROOM_MAX_PLAYER_MASS = f32_mul SHROOM_DEFAULT_PLAYER_MASS 0x41a00000"
definition SHROOM_IDLE_PENALTY_GRACE_SECONDS :: f32 where "SHROOM_IDLE_PENALTY_GRACE_SECONDS = 0x41000000"
definition SHROOM_IDLE_PENALTY_BLEED_PER_SECOND :: f32 where
  "SHROOM_IDLE_PENALTY_BLEED_PER_SECOND = f32_div (f32_mul SHROOM_DEFAULT_PLAYER_MASS 0x3f000000) 0x42700000"
definition SHROOM_IDLE_PENALTY_MOVEMENT_THRESHOLD_SQR :: f32 where
  "SHROOM_IDLE_PENALTY_MOVEMENT_THRESHOLD_SQR = 0x3c23d70a"
definition SHROOM_SPEED_FLOOR_FACTOR :: f32 where "SHROOM_SPEED_FLOOR_FACTOR = 0x3f19999a"
definition SHROOM_MIN_PLAYER_SPEED :: f32 where "SHROOM_MIN_PLAYER_SPEED = 0x43040000"
definition SHROOM_MAX_PLAYER_SPEED :: f32 where "SHROOM_MAX_PLAYER_SPEED = 0x437c0000"
definition SHROOM_PLAYER_SPEED_MASS_SCALE :: f32 where "SHROOM_PLAYER_SPEED_MASS_SCALE = 0x3ed70a3d"
definition SHROOM_CONSUME_MASS_ADVANTAGE :: f32 where "SHROOM_CONSUME_MASS_ADVANTAGE = 0x3f970a3d"
definition SHROOM_CENTER_CONSUME_ADVANTAGE :: f32 where "SHROOM_CENTER_CONSUME_ADVANTAGE = 0x3f8a3d71"
definition SHROOM_CONSUME_MASS_GAIN_FACTOR :: f32 where "SHROOM_CONSUME_MASS_GAIN_FACTOR = 0x3f147ae1"
definition SHROOM_BOUNDARY_CONSUME_MARGIN :: f32 where "SHROOM_BOUNDARY_CONSUME_MARGIN = 0x42c80000"

section \<open>Numbers\<close>

definition ShroomClamp :: "f32 \<Rightarrow> f32 \<Rightarrow> f32 \<Rightarrow> f32" where
  "ShroomClamp value min_value max_value =
     (if f32_lt value min_value then min_value
      else if f32_lt max_value value then max_value else value)"

definition ShroomLerp :: "f32 \<Rightarrow> f32 \<Rightarrow> f32 \<Rightarrow> f32" where
  "ShroomLerp start end' t = f32_add start (f32_mul (f32_sub end' start) t)"

text \<open>The tick rate is 30; the millisecond clock is computed in double precision.\<close>

definition ShroomWorldCurrentTimeMs :: "ShroomWorldState \<Rightarrow> u64" where
  "ShroomWorldCurrentTimeMs world =
     f64_to_u64 (f64_div (f64_mul (f64_of_u64 (ws_tick world)) (1000, 0)) (30, 0))"

definition ShroomWorldStepEndTimeMs :: "ShroomWorldState \<Rightarrow> f32 \<Rightarrow> u64" where
  "ShroomWorldStepEndTimeMs world delta_time =
     (let delta_ms = f64_mul (f64_of_f32 delta_time) (1000, 0)
      in ShroomWorldCurrentTimeMs world + (if 0 < fst delta_ms then f64_to_u64 delta_ms else 0))"

definition ShroomNormalizeSeed :: "u32 \<Rightarrow> u32" where
  "ShroomNormalizeSeed seed = (if seed = 0 then 0x6d2b79f5 else seed)"

definition next_random :: "u32 \<Rightarrow> u32" where
  "next_random x =
     (let x = x XOR push_bit 13 x;
          x = x XOR drop_bit 17 x
      in x XOR push_bit 5 x)"

definition ShroomNextRandom :: "ShroomWorldState \<Rightarrow> u32 \<times> ShroomWorldState" where
  "ShroomNextRandom world =
     (let x = next_random (ws_random_state world) in (x, world\<lparr>ws_random_state := x\<rparr>))"

text \<open>\<open>UINT32_MAX\<close> becomes \<open>2 ^ 32\<close> as a float.\<close>

definition ShroomRandomFloat :: "ShroomWorldState \<Rightarrow> f32 \<Rightarrow> f32 \<Rightarrow> f32 \<times> ShroomWorldState" where
  "ShroomRandomFloat world min_value max_value =
     (let (x, world) = ShroomNextRandom world;
          normalized = f32_div (f32_of_int (uint x)) (f32_of_int 0xFFFFFFFF)
      in (f32_add min_value (f32_mul normalized (f32_sub max_value min_value)), world))"

definition ShroomDistanceSqr :: "ShroomVec2 \<Rightarrow> ShroomVec2 \<Rightarrow> f32" where
  "ShroomDistanceSqr a b = ShroomVec2LengthSqr (ShroomVec2Sub a b)"

definition ShroomNextLifeGeneration :: "u8 \<Rightarrow> u8" where
  "ShroomNextLifeGeneration generation = (if generation = 0xFF then 1 else generation + 1)"

definition zero_vec2 :: ShroomVec2 where
  "zero_vec2 = \<lparr>v2_x = 0, v2_y = 0\<rparr>"

definition ShroomNormalizeOrZero :: "ShroomVec2 \<Rightarrow> ShroomVec2" where
  "ShroomNormalizeOrZero v =
     (let length_sqr = ShroomVec2LengthSqr v
      in if f32_le length_sqr 0x38d1b717 then zero_vec2
         else ShroomVec2Scale v (f32_div 0x3f800000 (f32_sqrt length_sqr)))"

definition ShroomWorldCenter :: "ShroomWorldState \<Rightarrow> ShroomVec2" where
  "ShroomWorldCenter world = \<lparr>v2_x = f32_mul (ws_width world) 0x3f000000, v2_y = f32_mul (ws_height world) 0x3f000000\<rparr>"

section \<open>Zones\<close>

datatype ShroomZone = SHROOM_ZONE_OUTER | SHROOM_ZONE_MID | SHROOM_ZONE_CENTER

definition ShroomGetZoneAtPosition :: "ShroomWorldState \<Rightarrow> ShroomVec2 \<Rightarrow> ShroomZone" where
  "ShroomGetZoneAtPosition world position =
     (let distance_sqr = ShroomDistanceSqr position (ShroomWorldCenter world)
      in if f32_le distance_sqr (f32_mul SHROOM_ZONE_CENTER_RADIUS SHROOM_ZONE_CENTER_RADIUS) then SHROOM_ZONE_CENTER
         else if f32_le distance_sqr (f32_mul SHROOM_ZONE_MID_RADIUS SHROOM_ZONE_MID_RADIUS) then SHROOM_ZONE_MID
         else SHROOM_ZONE_OUTER)"

definition ShroomGetConsumeMassAdvantageAtPosition :: "ShroomWorldState \<Rightarrow> ShroomVec2 \<Rightarrow> f32" where
  "ShroomGetConsumeMassAdvantageAtPosition world position =
     (if ShroomGetZoneAtPosition world position = SHROOM_ZONE_CENTER
      then SHROOM_CENTER_CONSUME_ADVANTAGE else SHROOM_CONSUME_MASS_ADVANTAGE)"

definition ShroomDecayMassThresholdAtPosition :: "ShroomWorldState \<Rightarrow> ShroomVec2 \<Rightarrow> f32" where
  "ShroomDecayMassThresholdAtPosition world position =
     (case ShroomGetZoneAtPosition world position of
        SHROOM_ZONE_CENTER \<Rightarrow> f32_mul SHROOM_DEFAULT_PLAYER_MASS 0x40000000
      | SHROOM_ZONE_MID \<Rightarrow> SHROOM_DECAY_MASS_THRESHOLD
      | SHROOM_ZONE_OUTER \<Rightarrow> SHROOM_MAX_PLAYER_MASS)"

definition ShroomDecayRateAtPosition :: "ShroomWorldState \<Rightarrow> ShroomVec2 \<Rightarrow> f32" where
  "ShroomDecayRateAtPosition world position =
     (case ShroomGetZoneAtPosition world position of
        SHROOM_ZONE_CENTER \<Rightarrow> SHROOM_DECAY_RATE_CENTER_PER_SECOND
      | SHROOM_ZONE_MID \<Rightarrow> SHROOM_DECAY_RATE_MID_PER_SECOND
      | SHROOM_ZONE_OUTER \<Rightarrow> SHROOM_DECAY_RATE_OUTER_PER_SECOND)"

section \<open>Masses\<close>

definition ShroomMassToRadius :: "f32 \<Rightarrow> f32" where
  "ShroomMassToRadius mass = f32_add 0x41200000 (f32_mul mass 0x3e0f5c29)"

definition ShroomMassToSpeed :: "f32 \<Rightarrow> f32" where
  "ShroomMassToSpeed mass =
     (let decay_threshold = f32_mul SHROOM_DEFAULT_PLAYER_MASS 0x41000000;
          floor_speed = f32_mul SHROOM_MIN_PLAYER_SPEED SHROOM_SPEED_FLOOR_FACTOR;
          scaled_mass = f32_mul mass SHROOM_PLAYER_SPEED_MASS_SCALE;
          speed = f32_div SHROOM_MAX_PLAYER_SPEED (f32_add 0x3f800000 (f32_div scaled_mass 0x42c80000));
          clamped_base_speed = ShroomClamp speed SHROOM_MIN_PLAYER_SPEED SHROOM_MAX_PLAYER_SPEED
      in if f32_le mass decay_threshold then clamped_base_speed
         else if f32_le SHROOM_MAX_PLAYER_MASS decay_threshold then floor_speed
         else ShroomClamp
                (f32_add SHROOM_MIN_PLAYER_SPEED
                   (f32_mul (f32_sub floor_speed SHROOM_MIN_PLAYER_SPEED)
                      (ShroomClamp (f32_div (f32_sub mass decay_threshold) (f32_sub SHROOM_MAX_PLAYER_MASS decay_threshold))
                         0 0x3f800000)))
                floor_speed SHROOM_MIN_PLAYER_SPEED)"

section \<open>Rules on players\<close>

definition ShroomPlayerHasConsumeProtection :: "ShroomPlayerState \<Rightarrow> bool" where
  "ShroomPlayerHasConsumeProtection player \<longleftrightarrow>
     f32_lt 0 (pl_shield_powerup_timer player) \<or> f32_lt 0 (pl_spawn_protection_timer player)"

definition near_boundary :: "ShroomWorldState \<Rightarrow> ShroomVec2 \<Rightarrow> bool" where
  "near_boundary world p \<longleftrightarrow>
     f32_lt (v2_x p) SHROOM_BOUNDARY_CONSUME_MARGIN \<or>
     f32_lt (f32_sub (ws_width world) SHROOM_BOUNDARY_CONSUME_MARGIN) (v2_x p) \<or>
     f32_lt (v2_y p) SHROOM_BOUNDARY_CONSUME_MARGIN \<or>
     f32_lt (f32_sub (ws_height world) SHROOM_BOUNDARY_CONSUME_MARGIN) (v2_y p)"

definition ShroomPlayerCanConsume :: "ShroomWorldState \<Rightarrow> ShroomPlayerState \<Rightarrow> ShroomPlayerState \<Rightarrow> bool" where
  "ShroomPlayerCanConsume world attacker target =
     (let overlap_radius = f32_mul (pl_radius attacker) 0x3f6147ae;
          required_advantage = ShroomGetConsumeMassAdvantageAtPosition world (pl_position target)
      in if \<not> pl_alive attacker \<or> \<not> pl_alive target then False
         else if pl_player_id attacker = pl_player_id target then False
         else if ShroomPlayerHasConsumeProtection target then False
         else if f32_lt (pl_mass attacker) (f32_mul (pl_mass target) required_advantage) then False
         else
           let overlap_radius = (if near_boundary world (pl_position attacker) \<or> near_boundary world (pl_position target)
                 then f32_add (f32_mul (pl_radius attacker) 0x3f99999a) (f32_mul (pl_radius target) 0x3f000000)
                 else overlap_radius)
           in f32_le (ShroomDistanceSqr (pl_position attacker) (pl_position target))
                (f32_mul overlap_radius overlap_radius))"

definition ShroomPlayerCanDecay :: "ShroomWorldState \<Rightarrow> ShroomPlayerState \<Rightarrow> bool" where
  "ShroomPlayerCanDecay world player =
     (if \<not> pl_alive player then False
      else if f32_lt 0 (pl_decay_immune_powerup_timer player) then False
      else f32_lt (ShroomDecayMassThresholdAtPosition world (pl_position player)) (pl_mass player))"

definition ShroomPlayerIdlePenaltyActive :: "ShroomPlayerState \<Rightarrow> u64 \<Rightarrow> bool" where
  "ShroomPlayerIdlePenaltyActive player current_time_ms =
     (let grace_ms = word_of_int (f32_to_int (f32_mul SHROOM_IDLE_PENALTY_GRACE_SECONDS 0x447a0000))
      in if \<not> pl_alive player then False
         else pl_last_move_time_ms player + grace_ms < current_time_ms)"

end
