(* ===== verification/Sim_Spawn.thy ===== *)
theory Sim_Spawn
  imports Sim_Math
begin

text \<open>
  Entering and leaving the world (\<open>src/src/shared/sim.c\<close>): where players spawn, the spores and
  powerups, the table of round statistics, and the set-up of a world.  A pointer into an array of the
  world is the index of the element; an operation returns what it returns in C and the world after it.
\<close>

definition SHROOM_SPORE_TARGET_COUNT :: nat where "SHROOM_SPORE_TARGET_COUNT = 1100"
definition SHROOM_SPORE_VALUE :: u16 where "SHROOM_SPORE_VALUE = 7"
definition SHROOM_POWERUP_TYPE_COUNT :: u32 where "SHROOM_POWERUP_TYPE_COUNT = 4"
definition SHROOM_SPAWN_SAFE_DISTANCE :: f32 where "SHROOM_SPAWN_SAFE_DISTANCE = 0x43dc0000"
definition SHROOM_SPAWN_MEDIUM_SAFE_DISTANCE :: f32 where "SHROOM_SPAWN_MEDIUM_SAFE_DISTANCE = 0x43a00000"
definition SHROOM_SPAWN_MIN_SAFE_DISTANCE :: f32 where "SHROOM_SPAWN_MIN_SAFE_DISTANCE = 0x435c0000"
definition SHROOM_SPAWN_PADDING :: f32 where "SHROOM_SPAWN_PADDING = 0x42f00000"
definition SHROOM_SPAWN_SMALL_LOBBY_PLAYERS :: nat where "SHROOM_SPAWN_SMALL_LOBBY_PLAYERS = 16"
definition SHROOM_SPAWN_MEDIUM_LOBBY_PLAYERS :: nat where "SHROOM_SPAWN_MEDIUM_LOBBY_PLAYERS = 40"
definition SHROOM_SPAWN_MIN_RADIUS :: f32 where "SHROOM_SPAWN_MIN_RADIUS = f32_add SHROOM_ZONE_MID_RADIUS SHROOM_SPAWN_PADDING"
definition SHROOM_SPAWN_MAX_BAND_WIDTH :: f32 where "SHROOM_SPAWN_MAX_BAND_WIDTH = 0x44610000"
definition SHROOM_SPAWN_MIN_BAND_WIDTH :: f32 where "SHROOM_SPAWN_MIN_BAND_WIDTH = 0x435c0000"
definition SHROOM_PLAYER_SPAWN_PROTECTION_SECONDS :: f32 where "SHROOM_PLAYER_SPAWN_PROTECTION_SECONDS = 0x40000000"
definition SHROOM_MATCH_DURATION_SECONDS :: f32 where "SHROOM_MATCH_DURATION_SECONDS = 0x44160000"
definition SHROOM_MATCH_PODIUM_COUNT :: nat where "SHROOM_MATCH_PODIUM_COUNT = 3"
definition SHROOM_KOTH_TARGET_SCORE :: f32 where "SHROOM_KOTH_TARGET_SCORE = 0x42c80000"
definition SHROOM_MAX_TEAMS :: nat where "SHROOM_MAX_TEAMS = 8"
definition SHROOM_MATCH_PHASE_RUNNING :: u32 where "SHROOM_MATCH_PHASE_RUNNING = 0"
definition SHROOM_MATCH_PHASE_RESULTS :: u32 where "SHROOM_MATCH_PHASE_RESULTS = 1"
definition SHROOM_MATCH_PHASE_RESET :: u32 where "SHROOM_MATCH_PHASE_RESET = 2"
definition SHROOM_GAME_MODE_FFA :: u32 where "SHROOM_GAME_MODE_FFA = 0"
definition SHROOM_GAME_MODE_KING_OF_HILL :: u32 where "SHROOM_GAME_MODE_KING_OF_HILL = 5"
definition SHROOM_GAME_MODE_COUNT :: u32 where "SHROOM_GAME_MODE_COUNT = 7"

section \<open>Zeroed records\<close>

definition empty_player :: ShroomPlayerState where
  "empty_player = \<lparr>pl_player_id = 0, pl_entity_id = 0, pl_position = zero_vec2, pl_input_direction = zero_vec2,
     pl_mass = 0, pl_radius = 0, pl_decay_spore_accumulator = 0, pl_last_move_time_ms = 0,
     pl_name = replicate SHROOM_MAX_NAME_LENGTH 0, pl_alive = False, pl_is_bot = False, pl_ai_controlled = False,
     pl_has_split = False, pl_split_velocity = zero_vec2, pl_merge_timer = 0, pl_spawn_protection_timer = 0,
     pl_speed_powerup_timer = 0, pl_shield_powerup_timer = 0, pl_magnet_powerup_timer = 0,
     pl_decay_immune_powerup_timer = 0, pl_eject_cooldown_timer = 0, pl_bot_tactical_cooldown_timer = 0,
     pl_piece_index = 0, pl_team_id = 0, pl_life_generation = 0\<rparr>"

definition zero_round_stats :: ShroomRoundStats where
  "zero_round_stats = \<lparr>rs_colony_mass = 0, rs_peak_mass = 0, rs_survival_seconds = 0, rs_kills = 0, rs_deaths = 0,
     rs_mass_consumed = 0, rs_mass_lost = 0, rs_distance_traveled = 0, rs_spores_collected = 0,
     rs_powerups_collected = 0, rs_center_zone_seconds = 0, rs_mid_zone_seconds = 0, rs_outer_zone_seconds = 0,
     rs_splits_used = 0, rs_ejects_used = 0\<rparr>"

definition zero_stats_slot :: ShroomRoundStatsSlot where
  "zero_stats_slot = \<lparr>rss_player_id = 0, rss_stats = zero_round_stats\<rparr>"

definition zero_world :: ShroomWorldState where
  "zero_world = \<lparr>ws_tick = 0, ws_width = 0, ws_height = 0, ws_random_seed = 0, ws_random_state = 0,
     ws_next_entity_id = 0, ws_match_phase = 0, ws_match_duration_seconds = 0, ws_match_time_remaining = 0,
     ws_match_results_time_remaining = 0, ws_podium_player_ids = replicate SHROOM_MATCH_PODIUM_COUNT 0,
     ws_podium_masses = replicate SHROOM_MATCH_PODIUM_COUNT 0, ws_game_mode = 0, ws_objective_target_score = 0,
     ws_objective_controller_id = 0, ws_objective_contested = False,
     ws_objective_player_ids = replicate SHROOM_MAX_PARTICIPANTS 0,
     ws_objective_scores = replicate SHROOM_MAX_PARTICIPANTS 0, ws_team_count = 0,
     ws_team_masses = replicate SHROOM_MAX_TEAMS 0, ws_players = [], ws_spore_count = 0,
     ws_spores = replicate SHROOM_MAX_SPORES \<lparr>spo_entity_id = 0, spo_position = zero_vec2, spo_value = 0, spo_active = False\<rparr>,
     ws_powerup_count = 0,
     ws_powerups = replicate SHROOM_MAX_POWERUPS
       \<lparr>pow_entity_id = 0, pow_position = zero_vec2, pow_type = 0, pow_respawn_timer = 0, pow_active = False\<rparr>,
     ws_round_stats = replicate SHROOM_MAX_PARTICIPANTS zero_stats_slot\<rparr>"

definition upd_player :: "ShroomWorldState \<Rightarrow> nat \<Rightarrow> (ShroomPlayerState \<Rightarrow> ShroomPlayerState) \<Rightarrow> ShroomWorldState" where
  "upd_player world i f = world\<lparr>ws_players := (ws_players world)[i := f (ws_players world ! i)]\<rparr>"

section \<open>Where players spawn\<close>

definition ShroomSpawnPopulation :: "ShroomWorldState \<Rightarrow> nat" where
  "ShroomSpawnPopulation world = count_if (\<lambda>p. pl_alive p \<and> pl_piece_index p = 0) (ws_players world)"

definition ShroomSpawnDensity :: "ShroomWorldState \<Rightarrow> f32" where
  "ShroomSpawnDensity world =
     (let population = ShroomSpawnPopulation world
      in if population \<le> 1 then 0
         else ShroomClamp (f32_div (f32_of_int (int (population - 1))) (f32_of_int (int (SHROOM_MAX_PARTICIPANTS - 1))))
                0 0x3f800000)"

definition ShroomSpawnSafeDistance :: "ShroomWorldState \<Rightarrow> f32" where
  "ShroomSpawnSafeDistance world =
     (let population = ShroomSpawnPopulation world
      in if population \<le> SHROOM_SPAWN_SMALL_LOBBY_PLAYERS then SHROOM_SPAWN_SAFE_DISTANCE
         else if population \<le> SHROOM_SPAWN_MEDIUM_LOBBY_PLAYERS then
           let t = f32_div (f32_of_int (int (population - SHROOM_SPAWN_SMALL_LOBBY_PLAYERS)))
                     (f32_of_int (int (SHROOM_SPAWN_MEDIUM_LOBBY_PLAYERS - SHROOM_SPAWN_SMALL_LOBBY_PLAYERS)))
           in ShroomLerp SHROOM_SPAWN_SAFE_DISTANCE SHROOM_SPAWN_MEDIUM_SAFE_DISTANCE t
         else
           let t = f32_div (f32_of_int (int (population - SHROOM_SPAWN_MEDIUM_LOBBY_PLAYERS)))
                     (f32_of_int (int (SHROOM_MAX_PARTICIPANTS - SHROOM_SPAWN_MEDIUM_LOBBY_PLAYERS)))
           in ShroomLerp SHROOM_SPAWN_MEDIUM_SAFE_DISTANCE SHROOM_SPAWN_MIN_SAFE_DISTANCE (ShroomClamp t 0 0x3f800000))"

definition ShroomSpawnOuterRadius :: "ShroomWorldState \<Rightarrow> f32" where
  "ShroomSpawnOuterRadius world =
     (let max_radius = f32_sub (f32_mul (f32_min (ws_width world) (ws_height world)) 0x3f000000) SHROOM_SPAWN_PADDING;
          min_radius = f32_min SHROOM_SPAWN_MIN_RADIUS max_radius
      in ShroomLerp max_radius min_radius (ShroomSpawnDensity world))"

text \<open>A point at a random angle, between two distances from the centre, within the given margin.\<close>

definition random_ring_point :: "libm \<Rightarrow> ShroomWorldState \<Rightarrow> f32 \<Rightarrow> f32 \<Rightarrow> f32 \<Rightarrow> ShroomVec2 \<times> ShroomWorldState" where
  "random_ring_point lm world inner_radius outer_radius margin =
     (let center = ShroomWorldCenter world;
          (roll, world1) = ShroomRandomFloat world (f32_mul inner_radius inner_radius) (f32_mul outer_radius outer_radius);
          distance = f32_sqrt roll;
          (angle, world2) = ShroomRandomFloat world1 0 0x40c90fdb
      in (\<lparr>v2_x = ShroomClamp (f32_add (v2_x center) (f32_mul (lm_cosf lm angle) distance))
                    margin (f32_sub (ws_width world) margin),
           v2_y = ShroomClamp (f32_add (v2_y center) (f32_mul (lm_sinf lm angle) distance))
                    margin (f32_sub (ws_height world) margin)\<rparr>, world2))"

definition ShroomRandomSpawnCandidate :: "libm \<Rightarrow> ShroomWorldState \<Rightarrow> bool \<Rightarrow> ShroomVec2 \<times> ShroomWorldState" where
  "ShroomRandomSpawnCandidate lm world prefer_outer =
     (if prefer_outer then
        let density = ShroomSpawnDensity world;
            outer_radius = ShroomSpawnOuterRadius world;
            band_width = ShroomLerp SHROOM_SPAWN_MAX_BAND_WIDTH SHROOM_SPAWN_MIN_BAND_WIDTH density;
            inner_radius = f32_max SHROOM_ZONE_MID_RADIUS (f32_sub outer_radius band_width)
        in random_ring_point lm world inner_radius outer_radius SHROOM_SPAWN_PADDING
      else
        let (x, world1) = ShroomRandomFloat world SHROOM_SPAWN_PADDING (f32_sub (ws_width world) SHROOM_SPAWN_PADDING);
            (y, world2) = ShroomRandomFloat world1 SHROOM_SPAWN_PADDING (f32_sub (ws_height world) SHROOM_SPAWN_PADDING)
        in (\<lparr>v2_x = x, v2_y = y\<rparr>, world2))"

definition ShroomRandomPointInZone :: "libm \<Rightarrow> ShroomWorldState \<Rightarrow> ShroomZone \<Rightarrow> ShroomVec2 \<times> ShroomWorldState" where
  "ShroomRandomPointInZone lm world zone =
     (let inner_radius = (case zone of SHROOM_ZONE_CENTER \<Rightarrow> 0 | SHROOM_ZONE_MID \<Rightarrow> SHROOM_ZONE_CENTER_RADIUS
                          | SHROOM_ZONE_OUTER \<Rightarrow> SHROOM_ZONE_MID_RADIUS);
          outer_radius = (case zone of SHROOM_ZONE_CENTER \<Rightarrow> SHROOM_ZONE_CENTER_RADIUS
                          | SHROOM_ZONE_MID \<Rightarrow> SHROOM_ZONE_MID_RADIUS
                          | SHROOM_ZONE_OUTER \<Rightarrow> f32_mul (f32_min (ws_width world) (ws_height world)) 0x3f000000)
      in random_ring_point lm world inner_radius outer_radius 0x42700000)"

definition ShroomIsSafeSpawn :: "ShroomWorldState \<Rightarrow> ShroomVec2 \<Rightarrow> bool" where
  "ShroomIsSafeSpawn world position =
     (let safe_distance = ShroomSpawnSafeDistance world
      in list_all (\<lambda>other.
           let safety_radius = f32_add (pl_radius other) safe_distance
           in \<not> pl_alive other \<or>
              \<not> f32_lt (ShroomDistanceSqr position (pl_position other)) (f32_mul safety_radius safety_radius))
           (ws_players world))"

definition nearest_player_sqr :: "ShroomWorldState \<Rightarrow> ShroomVec2 \<Rightarrow> f32" where
  "nearest_player_sqr world candidate =
     fold (\<lambda>other nearest_sqr.
       if \<not> pl_alive other then nearest_sqr
       else f32_min nearest_sqr (ShroomDistanceSqr candidate (pl_position other))) (ws_players world) 0x7f800000"

text \<open>The attempts that are left, with the best candidate so far and its clearance.\<close>

fun spawn_attempts ::
  "libm \<Rightarrow> nat \<Rightarrow> ShroomWorldState \<Rightarrow> bool \<Rightarrow> ShroomVec2 \<Rightarrow> f32 \<Rightarrow> ShroomVec2 \<times> ShroomWorldState" where
  "spawn_attempts lm 0 world prefer_outer best_candidate best_clearance_sqr = (best_candidate, world)"
| "spawn_attempts lm (Suc attempts) world prefer_outer best_candidate best_clearance_sqr =
     (let (candidate, world) = ShroomRandomSpawnCandidate lm world prefer_outer;
          zone = ShroomGetZoneAtPosition world candidate;
          nearest_sqr = nearest_player_sqr world candidate
      in if prefer_outer \<and> zone \<noteq> SHROOM_ZONE_OUTER
         then spawn_attempts lm attempts world prefer_outer best_candidate best_clearance_sqr
         else
           let better = f32_lt best_clearance_sqr nearest_sqr;
               best_candidate = (if better then candidate else best_candidate);
               best_clearance_sqr = (if better then nearest_sqr else best_clearance_sqr)
           in if ShroomIsSafeSpawn world candidate then (candidate, world)
              else spawn_attempts lm attempts world prefer_outer best_candidate best_clearance_sqr)"

definition ShroomRandomSpawnPosition :: "libm \<Rightarrow> ShroomWorldState \<Rightarrow> bool \<Rightarrow> ShroomVec2 \<times> ShroomWorldState" where
  "ShroomRandomSpawnPosition lm world prefer_outer =
     (let (best_candidate, world) = ShroomRandomSpawnCandidate lm world prefer_outer
      in spawn_attempts lm 64 world prefer_outer best_candidate 0xbf800000)"

definition ShroomRespawnPlayer :: "libm \<Rightarrow> ShroomWorldState \<Rightarrow> nat \<Rightarrow> ShroomWorldState" where
  "ShroomRespawnPlayer lm world i =
     (let world = upd_player world i (\<lambda>p. p\<lparr>pl_life_generation := ShroomNextLifeGeneration (pl_life_generation p)\<rparr>);
          (position, world) = ShroomRandomSpawnPosition lm world True
      in upd_player world i (\<lambda>p. p\<lparr>pl_position := position, pl_input_direction := zero_vec2,
           pl_mass := SHROOM_DEFAULT_PLAYER_MASS, pl_radius := ShroomMassToRadius SHROOM_DEFAULT_PLAYER_MASS,
           pl_decay_spore_accumulator := 0, pl_last_move_time_ms := ShroomWorldCurrentTimeMs world,
           pl_alive := True, pl_ai_controlled := False, pl_has_split := False, pl_split_velocity := zero_vec2,
           pl_merge_timer := 0,
           pl_spawn_protection_timer := if pl_is_bot p then 0 else SHROOM_PLAYER_SPAWN_PROTECTION_SECONDS,
           pl_speed_powerup_timer := 0, pl_shield_powerup_timer := 0, pl_magnet_powerup_timer := 0,
           pl_decay_immune_powerup_timer := 0, pl_eject_cooldown_timer := 0, pl_piece_index := 0\<rparr>))"

section \<open>Spores and powerups\<close>

definition fresh_entity :: "u32 \<Rightarrow> ShroomWorldState \<Rightarrow> u32 \<times> ShroomWorldState" where
  "fresh_entity entity_id world =
     (if entity_id = 0
      then (ws_next_entity_id world, world\<lparr>ws_next_entity_id := ws_next_entity_id world + 1\<rparr>)
      else (entity_id, world))"

definition ShroomSpawnOrResetSpore :: "libm \<Rightarrow> ShroomWorldState \<Rightarrow> nat \<Rightarrow> ShroomWorldState" where
  "ShroomSpawnOrResetSpore lm world i =
     (let (zone_roll, world) = ShroomRandomFloat world 0 0x3f800000;
          zone = (if f32_lt zone_roll 0x3e99999a then SHROOM_ZONE_OUTER
                  else if f32_lt zone_roll 0x3f266666 then SHROOM_ZONE_MID else SHROOM_ZONE_CENTER);
          (candidate, world) = ShroomRandomPointInZone lm world zone;
          (entity_id, world) = fresh_entity (spo_entity_id (ws_spores world ! i)) world
      in world\<lparr>ws_spores := (ws_spores world)[i := \<lparr>spo_entity_id = entity_id, spo_position = candidate,
           spo_value = SHROOM_SPORE_VALUE, spo_active = True\<rparr>]\<rparr>)"

definition ShroomSpawnDecaySpore :: "ShroomWorldState \<Rightarrow> ShroomVec2 \<Rightarrow> u16 \<Rightarrow> ShroomWorldState" where
  "ShroomSpawnDecaySpore world position value =
     (if value = 0 then world
      else
        let (i, world) = (if ws_spore_count world < SHROOM_MAX_SPORES
              then (ws_spore_count world, world\<lparr>ws_spore_count := ws_spore_count world + 1\<rparr>)
              else case ShroomNextRandom world of (x, world) \<Rightarrow> (unat x mod ws_spore_count world, world));
            (entity_id, world) = fresh_entity (spo_entity_id (ws_spores world ! i)) world
        in world\<lparr>ws_spores := (ws_spores world)[i := \<lparr>spo_entity_id = entity_id, spo_position = position,
             spo_value = value, spo_active = True\<rparr>]\<rparr>)"

definition ShroomInitializeSpores :: "libm \<Rightarrow> ShroomWorldState \<Rightarrow> ShroomWorldState" where
  "ShroomInitializeSpores lm world =
     fold (\<lambda>index world. ShroomSpawnOrResetSpore lm world index) [0..<SHROOM_SPORE_TARGET_COUNT]
       (world\<lparr>ws_spore_count := SHROOM_SPORE_TARGET_COUNT\<rparr>)"

definition ShroomSpawnOrResetPowerup :: "libm \<Rightarrow> ShroomWorldState \<Rightarrow> nat \<Rightarrow> ShroomWorldState" where
  "ShroomSpawnOrResetPowerup lm world slot_index =
     (let zone = (if slot_index mod 4 = 0 then SHROOM_ZONE_OUTER
                  else if slot_index mod 4 = 1 then SHROOM_ZONE_MID else SHROOM_ZONE_CENTER);
          (position, world) = ShroomRandomPointInZone lm world zone;
          (x, world) = ShroomNextRandom world;
          (entity_id, world) = fresh_entity (pow_entity_id (ws_powerups world ! slot_index)) world
      in world\<lparr>ws_powerups := (ws_powerups world)[slot_index := \<lparr>pow_entity_id = entity_id, pow_position = position,
           pow_type = 1 + x mod SHROOM_POWERUP_TYPE_COUNT, pow_respawn_timer = 0, pow_active = True\<rparr>]\<rparr>)"

definition ShroomInitializePowerups :: "libm \<Rightarrow> ShroomWorldState \<Rightarrow> ShroomWorldState" where
  "ShroomInitializePowerups lm world =
     fold (\<lambda>index world. ShroomSpawnOrResetPowerup lm world index) [0..<SHROOM_MAX_POWERUPS]
       (world\<lparr>ws_powerup_count := SHROOM_MAX_POWERUPS\<rparr>)"

definition ShroomWorldInitWithSeed :: "libm \<Rightarrow> u32 \<Rightarrow> ShroomWorldState" where
  "ShroomWorldInitWithSeed lm seed =
     (let seed = ShroomNormalizeSeed seed;
          world = zero_world\<lparr>ws_width := SHROOM_WORLD_WIDTH, ws_height := SHROOM_WORLD_HEIGHT,
            ws_random_seed := seed, ws_random_state := seed, ws_next_entity_id := 1,
            ws_match_phase := SHROOM_MATCH_PHASE_RUNNING,
            ws_match_duration_seconds := SHROOM_MATCH_DURATION_SECONDS,
            ws_match_time_remaining := SHROOM_MATCH_DURATION_SECONDS,
            ws_match_results_time_remaining := 0, ws_game_mode := SHROOM_GAME_MODE_FFA,
            ws_objective_target_score := SHROOM_KOTH_TARGET_SCORE\<rparr>
      in ShroomInitializePowerups lm (ShroomInitializeSpores lm world))"

section \<open>Round statistics\<close>

definition ShroomWorldGetRoundStats :: "ShroomWorldState \<Rightarrow> u32 \<Rightarrow> ShroomRoundStats option" where
  "ShroomWorldGetRoundStats world player_id =
     (if player_id = 0 then None
      else map_option (\<lambda>i. rss_stats (ws_round_stats world ! i))
             (find_index (\<lambda>slot. rss_player_id slot = player_id) (ws_round_stats world)))"

definition ShroomWorldEnsureRoundStats :: "ShroomWorldState \<Rightarrow> u32 \<Rightarrow> nat option \<times> ShroomWorldState" where
  "ShroomWorldEnsureRoundStats world player_id =
     (if player_id = 0 then (None, world)
      else case find_index (\<lambda>slot. rss_player_id slot = player_id) (ws_round_stats world) of
             Some i \<Rightarrow> (Some i, world)
           | None \<Rightarrow>
               (case find_index (\<lambda>slot. rss_player_id slot = 0) (ws_round_stats world) of
                  Some i \<Rightarrow> (Some i, world\<lparr>ws_round_stats := (ws_round_stats world)[i :=
                               \<lparr>rss_player_id = player_id, rss_stats = zero_round_stats\<rparr>]\<rparr>)
                | None \<Rightarrow> (None, world)))"

text \<open>The statistics of a player, changed where there is a slot for them.\<close>

definition note_stats :: "ShroomWorldState \<Rightarrow> u32 \<Rightarrow> (ShroomRoundStats \<Rightarrow> ShroomRoundStats) \<Rightarrow> ShroomWorldState" where
  "note_stats world player_id f =
     (case ShroomWorldEnsureRoundStats world player_id of
        (None, world) \<Rightarrow> world
      | (Some i, world) \<Rightarrow> world\<lparr>ws_round_stats := (ws_round_stats world)[i :=
           (ws_round_stats world ! i)\<lparr>rss_stats := f (rss_stats (ws_round_stats world ! i))\<rparr>]\<rparr>)"

section \<open>Players come and go\<close>

text \<open>The slot returned is the index of the new player; \<open>None\<close>: the world is full.\<close>

definition ShroomWorldSpawnPlayer :: "libm \<Rightarrow> ShroomWorldState \<Rightarrow> u32 \<Rightarrow> bool \<Rightarrow> nat option \<times> ShroomWorldState" where
  "ShroomWorldSpawnPlayer lm world player_id is_bot =
     (if player_id = 0 then (None, world)
      else
        let free = find_index (\<lambda>p. \<not> pl_alive p) (ws_players world)
        in if free = None \<and> SHROOM_MAX_PLAYER_ENTITIES \<le> length (ws_players world) then (None, world)
           else
             let world = snd (ShroomWorldEnsureRoundStats world player_id);
                 i = (case free of Some i \<Rightarrow> i | None \<Rightarrow> length (ws_players world));
                 world = (case free of Some _ \<Rightarrow> world
                          | None \<Rightarrow> world\<lparr>ws_players := ws_players world @ [empty_player]\<rparr>);
                 (entity_id, world) = fresh_entity 0 world;
                 (position, world) = ShroomRandomSpawnPosition lm world True
             in (Some i, upd_player world i (\<lambda>_. empty_player\<lparr>pl_player_id := player_id, pl_entity_id := entity_id,
                   pl_position := position, pl_mass := SHROOM_DEFAULT_PLAYER_MASS,
                   pl_radius := ShroomMassToRadius SHROOM_DEFAULT_PLAYER_MASS,
                   pl_last_move_time_ms := ShroomWorldCurrentTimeMs world, pl_alive := True, pl_is_bot := is_bot,
                   pl_spawn_protection_timer := if is_bot then 0 else SHROOM_PLAYER_SPAWN_PROTECTION_SECONDS,
                   pl_life_generation := 1\<rparr>)))"

definition drop_empty_tail :: "ShroomPlayerState list \<Rightarrow> ShroomPlayerState list" where
  "drop_empty_tail players = rev (dropWhile (\<lambda>p. pl_player_id p = 0) (rev players))"

definition ShroomWorldRemovePlayer :: "ShroomWorldState \<Rightarrow> u32 \<Rightarrow> nat \<times> ShroomWorldState" where
  "ShroomWorldRemovePlayer world player_id =
     (if player_id = 0 then (0, world)
      else
        let removed = count_if (\<lambda>p. pl_player_id p = player_id) (ws_players world);
            world = world\<lparr>ws_players := drop_empty_tail
              (map (\<lambda>p. if pl_player_id p = player_id then empty_player else p) (ws_players world))\<rparr>
        in if removed = 0 then (0, world)
           else
             let world = (case find_index (\<lambda>id'. id' = player_id) (ws_objective_player_ids world) of
                   None \<Rightarrow> world
                 | Some i \<Rightarrow> world\<lparr>ws_objective_player_ids := (ws_objective_player_ids world)[i := 0],
                                 ws_objective_scores := (ws_objective_scores world)[i := 0]\<rparr>);
                 world = (case find_index (\<lambda>slot. rss_player_id slot = player_id) (ws_round_stats world) of
                   None \<Rightarrow> world
                 | Some i \<Rightarrow> world\<lparr>ws_round_stats := (ws_round_stats world)[i := zero_stats_slot]\<rparr>)
             in (removed, world))"

end
