(* ===== verification/Sim_Rules.thy ===== *)
theory Sim_Rules
  imports Sim_Spawn C_Text
begin

text \<open>
  The rules of one tick (\<open>src/src/shared/sim.c\<close>): collecting spores and powerups, consuming,
  losing mass, splitting, ejecting and merging.
\<close>

definition SHROOM_POWERUP_SPEED :: u32 where "SHROOM_POWERUP_SPEED = 1"
definition SHROOM_POWERUP_SHIELD :: u32 where "SHROOM_POWERUP_SHIELD = 2"
definition SHROOM_POWERUP_MAGNET :: u32 where "SHROOM_POWERUP_MAGNET = 3"
definition SHROOM_POWERUP_DECAY_IMMUNE :: u32 where "SHROOM_POWERUP_DECAY_IMMUNE = 4"
definition SHROOM_POWERUP_RADIUS :: f32 where "SHROOM_POWERUP_RADIUS = 0x41900000"
definition SHROOM_POWERUP_RESPAWN_SECONDS :: f32 where "SHROOM_POWERUP_RESPAWN_SECONDS = 0x41c00000"
definition SHROOM_POWERUP_SPEED_MULTIPLIER :: f32 where "SHROOM_POWERUP_SPEED_MULTIPLIER = 0x3fcccccd"
definition SHROOM_POWERUP_SPEED_SECONDS :: f32 where "SHROOM_POWERUP_SPEED_SECONDS = 0x40a00000"
definition SHROOM_POWERUP_SHIELD_SECONDS :: f32 where "SHROOM_POWERUP_SHIELD_SECONDS = 0x40800000"
definition SHROOM_POWERUP_MAGNET_SECONDS :: f32 where "SHROOM_POWERUP_MAGNET_SECONDS = 0x40c00000"
definition SHROOM_POWERUP_MAGNET_RADIUS :: f32 where "SHROOM_POWERUP_MAGNET_RADIUS = 0x438c0000"
definition SHROOM_POWERUP_MAGNET_PULL_SPEED :: f32 where "SHROOM_POWERUP_MAGNET_PULL_SPEED = 0x44020000"
definition SHROOM_POWERUP_DECAY_IMMUNE_SECONDS :: f32 where "SHROOM_POWERUP_DECAY_IMMUNE_SECONDS = 0x40e00000"
definition SHROOM_EJECT_MASS_VALUE :: f32 where "SHROOM_EJECT_MASS_VALUE = 0x41e00000"
definition SHROOM_EJECT_COOLDOWN_SECONDS :: f32 where "SHROOM_EJECT_COOLDOWN_SECONDS = 0x3ee66666"
definition SHROOM_EJECT_COST_FRACTION :: f32 where "SHROOM_EJECT_COST_FRACTION = 0x3dcccccd"
definition SHROOM_EJECT_MIN_MASS :: f32 where "SHROOM_EJECT_MIN_MASS = f32_mul SHROOM_DEFAULT_PLAYER_MASS 0x3fe00000"
definition SHROOM_EJECT_IMPULSE_RANGE :: f32 where "SHROOM_EJECT_IMPULSE_RANGE = 0x42900000"
definition SHROOM_SPLIT_MIN_MASS :: f32 where "SHROOM_SPLIT_MIN_MASS = f32_mul SHROOM_DEFAULT_PLAYER_MASS 0x40800000"
definition SHROOM_SPLIT_MASS_LOSS_FRACTION :: f32 where "SHROOM_SPLIT_MASS_LOSS_FRACTION = 0x3d4ccccd"
definition SHROOM_SPLIT_MERGE_SECONDS :: f32 where "SHROOM_SPLIT_MERGE_SECONDS = 0x41200000"
definition SHROOM_SPLIT_PROTECTION_SECONDS :: f32 where "SHROOM_SPLIT_PROTECTION_SECONDS = 0x3fb33333"
definition SHROOM_SPLIT_IMPULSE_SPEED :: f32 where "SHROOM_SPLIT_IMPULSE_SPEED = 0x435c0000"

abbreviation player_at :: "ShroomWorldState \<Rightarrow> nat \<Rightarrow> ShroomPlayerState" where
  "player_at world i \<equiv> ws_players world ! i"

abbreviation spore_at :: "ShroomWorldState \<Rightarrow> nat \<Rightarrow> ShroomSporeState" where
  "spore_at world i \<equiv> ws_spores world ! i"

section \<open>The spore grid\<close>

definition SHROOM_SPORE_GRID_CELL_SIZE :: f32 where "SHROOM_SPORE_GRID_CELL_SIZE = 0x43480000"
definition SHROOM_SPORE_GRID_COLS :: int where
  "SHROOM_SPORE_GRID_COLS = f32_to_int (f32_div SHROOM_WORLD_WIDTH SHROOM_SPORE_GRID_CELL_SIZE) + 1"
definition SHROOM_SPORE_GRID_ROWS :: int where
  "SHROOM_SPORE_GRID_ROWS = f32_to_int (f32_div SHROOM_WORLD_HEIGHT SHROOM_SPORE_GRID_CELL_SIZE) + 1"
definition SHROOM_SPORE_GRID_CELLS :: nat where
  "SHROOM_SPORE_GRID_CELLS = nat (SHROOM_SPORE_GRID_COLS * SHROOM_SPORE_GRID_ROWS)"
definition SHROOM_SPORE_GRID_MAX_PER_CELL :: nat where "SHROOM_SPORE_GRID_MAX_PER_CELL = 64"

text \<open>A cell is the list of the spore indices it holds.\<close>

type_synonym spore_grid = "nat list list"

definition grid_coordinate :: "f32 \<Rightarrow> int" where
  "grid_coordinate x = f32_to_int (f32_div x SHROOM_SPORE_GRID_CELL_SIZE)"

definition place_spore :: "ShroomWorldState \<Rightarrow> nat \<Rightarrow> spore_grid \<Rightarrow> spore_grid" where
  "place_spore world spore_index grid =
     (let spore = spore_at world spore_index
      in if \<not> spo_active spore then grid
         else
           let col = grid_coordinate (v2_x (spo_position spore));
               row = grid_coordinate (v2_y (spo_position spore));
               col = (if col < 0 then 0 else col);
               col = (if SHROOM_SPORE_GRID_COLS \<le> col then SHROOM_SPORE_GRID_COLS - 1 else col);
               row = (if row < 0 then 0 else row);
               row = (if SHROOM_SPORE_GRID_ROWS \<le> row then SHROOM_SPORE_GRID_ROWS - 1 else row);
               cell = nat (row * SHROOM_SPORE_GRID_COLS + col)
           in if length (grid ! cell) < SHROOM_SPORE_GRID_MAX_PER_CELL
              then grid[cell := grid ! cell @ [spore_index]] else grid)"

definition ShroomBuildSporeGrid :: "ShroomWorldState \<Rightarrow> spore_grid" where
  "ShroomBuildSporeGrid world =
     fold (place_spore world) [0..<ws_spore_count world] (replicate SHROOM_SPORE_GRID_CELLS [])"

text \<open>The spores of the cells a square around a position touches, in the order the loops visit them.\<close>

definition grid_range :: "f32 \<Rightarrow> f32 \<Rightarrow> int \<Rightarrow> int list" where
  "grid_range x reach limit =
     (let first = grid_coordinate (f32_sub x reach);
          last' = grid_coordinate (f32_add x reach)
      in [(if first < 0 then 0 else first)..(if limit \<le> last' then limit - 1 else last')])"

definition spores_near :: "spore_grid \<Rightarrow> ShroomVec2 \<Rightarrow> f32 \<Rightarrow> nat list" where
  "spores_near grid position reach =
     concat (map (\<lambda>row. concat (map (\<lambda>col. grid ! nat (row * SHROOM_SPORE_GRID_COLS + col))
         (grid_range (v2_x position) reach SHROOM_SPORE_GRID_COLS)))
       (grid_range (v2_y position) reach SHROOM_SPORE_GRID_ROWS))"

section \<open>Collecting spores\<close>

definition pull_spore :: "ShroomPlayerState \<Rightarrow> f32 \<Rightarrow> ShroomSporeState \<Rightarrow> ShroomSporeState" where
  "pull_spore player delta_time spore =
     (let to_player = ShroomVec2Sub (pl_position player) (spo_position spore);
          distance_sqr = ShroomVec2LengthSqr to_player
      in if \<not> spo_active spore then spore
         else if f32_le distance_sqr 0x38d1b717 \<or>
                 f32_lt (f32_mul SHROOM_POWERUP_MAGNET_RADIUS SHROOM_POWERUP_MAGNET_RADIUS) distance_sqr then spore
         else
           let distance = f32_sqrt distance_sqr;
               step = f32_min distance (f32_mul SHROOM_POWERUP_MAGNET_PULL_SPEED delta_time)
           in spore\<lparr>spo_position := ShroomVec2Add (spo_position spore) (ShroomVec2Scale to_player (f32_div step distance))\<rparr>)"

definition ShroomApplyMagnetToSpores :: "ShroomWorldState \<Rightarrow> ShroomPlayerState \<Rightarrow> f32 \<Rightarrow> ShroomWorldState" where
  "ShroomApplyMagnetToSpores world player delta_time =
     (if f32_le (pl_magnet_powerup_timer player) 0 \<or> f32_le delta_time 0 then world
      else world\<lparr>ws_spores := map (pull_spore player delta_time) (take (ws_spore_count world) (ws_spores world)) @
             drop (ws_spore_count world) (ws_spores world)\<rparr>)"

definition collect_spore :: "libm \<Rightarrow> nat \<Rightarrow> f32 \<Rightarrow> nat \<Rightarrow> ShroomWorldState \<Rightarrow> ShroomWorldState" where
  "collect_spore lm player_index collection_radius spore_index world =
     (let player = player_at world player_index; spore = spore_at world spore_index
      in if \<not> spo_active spore then world
         else if f32_le (ShroomDistanceSqr (pl_position player) (spo_position spore))
                   (f32_mul collection_radius collection_radius)
         then
           let world = upd_player world player_index (\<lambda>p. p\<lparr>pl_mass :=
                 ShroomClamp (f32_add (pl_mass p) (f32_of_int (uint (spo_value spore)))) 0 SHROOM_MAX_PLAYER_MASS\<rparr>);
               world = ShroomSpawnOrResetSpore lm world spore_index
           in note_stats world (pl_player_id player) (\<lambda>s. s\<lparr>rs_spores_collected := rs_spores_collected s + 1,
                rs_mass_consumed := f32_add (rs_mass_consumed s)
                  (f32_of_int (uint (spo_value (spore_at world spore_index))))\<rparr>)
         else world)"

definition collect_spores_of :: "libm \<Rightarrow> spore_grid \<Rightarrow> f32 \<Rightarrow> nat \<Rightarrow> ShroomWorldState \<Rightarrow> ShroomWorldState" where
  "collect_spores_of lm grid delta_time player_index world =
     (let player = player_at world player_index;
          collection_radius = f32_add (pl_radius player) 0x40c00000
      in if \<not> pl_alive player then world
         else
           let world = ShroomApplyMagnetToSpores world player delta_time
           in if f32_le SHROOM_MAX_PLAYER_MASS (pl_mass player) then world
              else fold (collect_spore lm player_index collection_radius)
                     (spores_near grid (pl_position player) collection_radius) world)"

definition ShroomCollectSpores :: "libm \<Rightarrow> ShroomWorldState \<Rightarrow> spore_grid \<Rightarrow> f32 \<Rightarrow> ShroomWorldState" where
  "ShroomCollectSpores lm world grid delta_time =
     fold (collect_spores_of lm grid delta_time) [0..<length (ws_players world)] world"

section \<open>Consuming\<close>

text \<open>Who consumes whom: the index of the consumer of each consumed player.\<close>

definition mark_target :: "ShroomWorldState \<Rightarrow> nat \<Rightarrow> nat \<Rightarrow> nat option list \<Rightarrow> nat option list" where
  "mark_target world attacker_index target_index consumed_by =
     (if attacker_index = target_index \<or> consumed_by ! target_index \<noteq> None then consumed_by
      else if ShroomPlayerCanConsume world (player_at world attacker_index) (player_at world target_index)
      then consumed_by[target_index := Some attacker_index]
      else consumed_by)"

definition mark_attacker :: "ShroomWorldState \<Rightarrow> nat \<Rightarrow> nat option list \<Rightarrow> nat option list" where
  "mark_attacker world attacker_index consumed_by =
     (if \<not> pl_alive (player_at world attacker_index) \<or> consumed_by ! attacker_index \<noteq> None then consumed_by
      else fold (mark_target world attacker_index) [0..<length (ws_players world)] consumed_by)"

definition consumed_players :: "ShroomWorldState \<Rightarrow> nat option list" where
  "consumed_players world =
     fold (mark_attacker world) [0..<length (ws_players world)] (replicate (length (ws_players world)) None)"

definition clear_orphan :: "nat \<Rightarrow> u32 \<Rightarrow> nat \<Rightarrow> ShroomWorldState \<Rightarrow> ShroomWorldState" where
  "clear_orphan victim_index victim_player_id ki world =
     (let p = player_at world ki
      in if ki \<noteq> victim_index \<and> pl_alive p \<and> pl_player_id p = victim_player_id \<and> 0 < pl_piece_index p
         then upd_player world ki (\<lambda>_. empty_player) else world)"

definition consume_victim :: "libm \<Rightarrow> nat \<Rightarrow> nat \<Rightarrow> ShroomWorldState \<Rightarrow> ShroomWorldState" where
  "consume_victim lm victim_index winner_index world =
     (let victim = player_at world victim_index;
          victim_player_id = pl_player_id victim;
          victim_mass = pl_mass victim;
          world = upd_player world winner_index (\<lambda>p. p\<lparr>pl_mass := ShroomClamp
            (f32_add (pl_mass p) (f32_mul (pl_mass victim) SHROOM_CONSUME_MASS_GAIN_FACTOR)) 0 SHROOM_MAX_PLAYER_MASS\<rparr>);
          world = upd_player world victim_index (\<lambda>p. p\<lparr>pl_alive := False\<rparr>);
          world = note_stats world (pl_player_id (player_at world winner_index)) (\<lambda>s. s\<lparr>rs_kills := rs_kills s + 1,
            rs_mass_consumed := f32_add (rs_mass_consumed s) (f32_mul victim_mass SHROOM_CONSUME_MASS_GAIN_FACTOR)\<rparr>);
          world = note_stats world victim_player_id (\<lambda>s. s\<lparr>rs_mass_lost := f32_add (rs_mass_lost s) victim_mass,
            rs_deaths := if pl_piece_index victim = 0 then rs_deaths s + 1 else rs_deaths s\<rparr>)
      in if pl_piece_index victim = 0 then
           let world = ShroomRespawnPlayer lm world victim_index
           in fold (clear_orphan victim_index victim_player_id) [0..<length (ws_players world)] world
         else upd_player world victim_index (\<lambda>p. p\<lparr>pl_mass := 0, pl_radius := 0, pl_split_velocity := zero_vec2,
                pl_merge_timer := 0, pl_ai_controlled := False, pl_piece_index := 0, pl_player_id := 0\<rparr>))"

definition ShroomResolveConsumes :: "libm \<Rightarrow> ShroomWorldState \<Rightarrow> ShroomWorldState" where
  "ShroomResolveConsumes lm world =
     (let consumed_by = consumed_players world
      in fold (\<lambda>victim_index world. case consumed_by ! victim_index of
                  None \<Rightarrow> world
                | Some winner_index \<Rightarrow> consume_victim lm victim_index winner_index world)
           [0..<length (ws_players world)] world)"

section \<open>Losing mass\<close>

definition ShroomApplyMassLoss :: "libm \<Rightarrow> ShroomWorldState \<Rightarrow> nat \<Rightarrow> f32 \<Rightarrow> ShroomWorldState" where
  "ShroomApplyMassLoss lm world i mass_loss =
     (if f32_le mass_loss 0 then world
      else
        let player = player_at world i;
            eject_radius = f32_add (pl_radius player) 0x41400000;
            (angle, world) = ShroomRandomFloat world 0 0x40c90fdb;
            spore_position = \<lparr>v2_x = ShroomClamp (f32_add (v2_x (pl_position player)) (f32_mul (lm_cosf lm angle) eject_radius))
                                0x42700000 (f32_sub (ws_width world) 0x42700000),
                              v2_y = ShroomClamp (f32_add (v2_y (pl_position player)) (f32_mul (lm_sinf lm angle) eject_radius))
                                0x42700000 (f32_sub (ws_height world) 0x42700000)\<rparr>;
            world = upd_player world i (\<lambda>p. p\<lparr>pl_mass := ShroomClamp (f32_sub (pl_mass p) mass_loss) 0 SHROOM_MAX_PLAYER_MASS\<rparr>);
            world = note_stats world (pl_player_id player) (\<lambda>s. s\<lparr>rs_mass_lost := f32_add (rs_mass_lost s) mass_loss\<rparr>);
            accumulator = f32_add (pl_decay_spore_accumulator player) mass_loss;
            spore_value = word_of_int (f32_to_int accumulator) :: u16;
            world = upd_player world i (\<lambda>p. p\<lparr>pl_decay_spore_accumulator := accumulator\<rparr>)
        in if 0 < spore_value then
             let world = ShroomSpawnDecaySpore world spore_position spore_value
             in upd_player world i (\<lambda>p. p\<lparr>pl_decay_spore_accumulator := f32_sub accumulator (f32_of_int (uint spore_value))\<rparr>)
           else world)"

definition mass_rules_of :: "libm \<Rightarrow> f32 \<Rightarrow> u64 \<Rightarrow> nat \<Rightarrow> ShroomWorldState \<Rightarrow> ShroomWorldState" where
  "mass_rules_of lm delta_time current_time_ms i world =
     (if \<not> pl_alive (player_at world i) then world
      else
        let world = upd_player world i (\<lambda>p. p\<lparr>pl_mass := ShroomClamp (pl_mass p) 0 SHROOM_MAX_PLAYER_MASS\<rparr>);
            player = player_at world i;
            world = (if ShroomPlayerCanDecay world player
               then
                 let excess_mass = f32_sub (pl_mass player) (ShroomDecayMassThresholdAtPosition world (pl_position player))
                 in ShroomApplyMassLoss lm world i
                      (f32_mul (f32_mul excess_mass (ShroomDecayRateAtPosition world (pl_position player))) delta_time)
               else world);
            world = (if f32_le (pl_decay_immune_powerup_timer (player_at world i)) 0 \<and>
                        ShroomPlayerIdlePenaltyActive (player_at world i) current_time_ms
               then ShroomApplyMassLoss lm world i (f32_mul SHROOM_IDLE_PENALTY_BLEED_PER_SECOND delta_time)
               else world)
        in upd_player world i (\<lambda>p. p\<lparr>pl_radius := ShroomMassToRadius (pl_mass p)\<rparr>))"

definition ShroomApplyMassRules :: "libm \<Rightarrow> ShroomWorldState \<Rightarrow> f32 \<Rightarrow> u64 \<Rightarrow> ShroomWorldState" where
  "ShroomApplyMassRules lm world delta_time current_time_ms =
     fold (mass_rules_of lm delta_time current_time_ms) [0..<length (ws_players world)] world"

section \<open>Powerups\<close>

definition grant_powerup :: "u32 \<Rightarrow> ShroomPlayerState \<Rightarrow> ShroomPlayerState" where
  "grant_powerup type player =
     (if type = SHROOM_POWERUP_SPEED then player\<lparr>pl_speed_powerup_timer := SHROOM_POWERUP_SPEED_SECONDS\<rparr>
      else if type = SHROOM_POWERUP_SHIELD then player\<lparr>pl_shield_powerup_timer := SHROOM_POWERUP_SHIELD_SECONDS\<rparr>
      else if type = SHROOM_POWERUP_MAGNET then player\<lparr>pl_magnet_powerup_timer := SHROOM_POWERUP_MAGNET_SECONDS\<rparr>
      else if type = SHROOM_POWERUP_DECAY_IMMUNE
      then player\<lparr>pl_decay_immune_powerup_timer := SHROOM_POWERUP_DECAY_IMMUNE_SECONDS\<rparr>
      else player)"

definition collect_powerup :: "nat \<Rightarrow> nat \<Rightarrow> ShroomWorldState \<Rightarrow> ShroomWorldState" where
  "collect_powerup player_index powerup_index world =
     (let player = player_at world player_index;
          powerup = ws_powerups world ! powerup_index;
          collection_radius = f32_add (pl_radius player) SHROOM_POWERUP_RADIUS
      in if \<not> pow_active powerup then world
         else if f32_lt (f32_mul collection_radius collection_radius)
                   (ShroomDistanceSqr (pl_position player) (pow_position powerup)) then world
         else (upd_player world player_index (grant_powerup (pow_type powerup)))
                \<lparr>ws_powerups := (ws_powerups world)[powerup_index := powerup\<lparr>pow_active := False,
                   pow_respawn_timer := SHROOM_POWERUP_RESPAWN_SECONDS\<rparr>]\<rparr>)"

definition ShroomCollectPowerups :: "ShroomWorldState \<Rightarrow> ShroomWorldState" where
  "ShroomCollectPowerups world =
     fold (\<lambda>player_index world. if \<not> pl_alive (player_at world player_index) then world
             else fold (collect_powerup player_index) [0..<ws_powerup_count world] world)
       [0..<length (ws_players world)] world"

definition update_powerup :: "libm \<Rightarrow> f32 \<Rightarrow> nat \<Rightarrow> ShroomWorldState \<Rightarrow> ShroomWorldState" where
  "update_powerup lm delta_time index world =
     (let powerup = ws_powerups world ! index
      in if pow_active powerup \<or> f32_le (pow_respawn_timer powerup) 0 then world
         else
           let timer = f32_sub (pow_respawn_timer powerup) delta_time;
               world = world\<lparr>ws_powerups := (ws_powerups world)[index := powerup\<lparr>pow_respawn_timer := timer\<rparr>]\<rparr>
           in if f32_le timer 0 then ShroomSpawnOrResetPowerup lm world index else world)"

definition ShroomUpdatePowerups :: "libm \<Rightarrow> ShroomWorldState \<Rightarrow> f32 \<Rightarrow> ShroomWorldState" where
  "ShroomUpdatePowerups lm world delta_time =
     fold (update_powerup lm delta_time) [0..<ws_powerup_count world] world"

definition count_down :: "f32 \<Rightarrow> f32 \<Rightarrow> f32 \<Rightarrow> f32" where
  "count_down timer delta_time limit = (if f32_lt 0 timer then ShroomClamp (f32_sub timer delta_time) 0 limit else timer)"

definition ShroomUpdatePlayerEffects :: "ShroomWorldState \<Rightarrow> f32 \<Rightarrow> ShroomWorldState" where
  "ShroomUpdatePlayerEffects world delta_time =
     world\<lparr>ws_players := map (\<lambda>p. if \<not> pl_alive p then p
       else p\<lparr>pl_speed_powerup_timer := count_down (pl_speed_powerup_timer p) delta_time SHROOM_POWERUP_SPEED_SECONDS,
              pl_shield_powerup_timer := count_down (pl_shield_powerup_timer p) delta_time SHROOM_POWERUP_SHIELD_SECONDS,
              pl_magnet_powerup_timer := count_down (pl_magnet_powerup_timer p) delta_time SHROOM_POWERUP_MAGNET_SECONDS,
              pl_decay_immune_powerup_timer :=
                count_down (pl_decay_immune_powerup_timer p) delta_time SHROOM_POWERUP_DECAY_IMMUNE_SECONDS\<rparr>)
       (ws_players world)\<rparr>"

section \<open>Splitting, ejecting and merging\<close>

definition ShroomCountPlayerPieces :: "ShroomWorldState \<Rightarrow> u32 \<Rightarrow> nat" where
  "ShroomCountPlayerPieces world player_id = count_if (\<lambda>p. pl_alive p \<and> pl_player_id p = player_id) (ws_players world)"

definition ShroomPlayerCanSplit :: "ShroomWorldState \<Rightarrow> ShroomPlayerState \<Rightarrow> bool" where
  "ShroomPlayerCanSplit world player =
     (if \<not> pl_alive player then False
      else if f32_lt (pl_mass player) SHROOM_SPLIT_MIN_MASS then False
      else if \<not> pl_is_bot player \<and> pl_has_split player then False
      else ShroomCountPlayerPieces world (pl_player_id player) < SHROOM_MAX_SPLIT_PIECES)"

definition ShroomFindPrimaryPiece :: "ShroomWorldState \<Rightarrow> u32 \<Rightarrow> nat option" where
  "ShroomFindPrimaryPiece world player_id =
     find_index (\<lambda>p. pl_alive p \<and> pl_player_id p = player_id \<and> pl_piece_index p = 0) (ws_players world)"

text \<open>The direction of a launch: the aim, or the way the player moves, or to the right.\<close>

definition launch_direction :: "ShroomVec2 \<Rightarrow> ShroomVec2 \<Rightarrow> ShroomVec2" where
  "launch_direction aim_direction input_direction =
     (let dir = ShroomNormalizeOrZero aim_direction;
          dir = (if f32_lt (ShroomVec2LengthSqr dir) 0x38d1b717 then ShroomNormalizeOrZero input_direction else dir)
      in if f32_lt (ShroomVec2LengthSqr dir) 0x38d1b717 then \<lparr>v2_x = 0x3f800000, v2_y = 0\<rparr> else dir)"

definition ShroomWorldSplitPlayerToward :: "ShroomWorldState \<Rightarrow> nat \<Rightarrow> ShroomVec2 \<Rightarrow> bool \<times> ShroomWorldState" where
  "ShroomWorldSplitPlayerToward world i aim_direction =
     (let player = player_at world i
      in if \<not> ShroomPlayerCanSplit world player then (False, world)
         else
           let piece_count = ShroomCountPlayerPieces world (pl_player_id player);
               free = find_index (\<lambda>p. \<not> pl_alive p \<and> pl_player_id p = 0) (ws_players world)
           in if free = None \<and> SHROOM_MAX_PLAYER_ENTITIES \<le> length (ws_players world) then (False, world)
              else
                let new_piece = (case free of Some j \<Rightarrow> j | None \<Rightarrow> length (ws_players world));
                    world = (case free of Some _ \<Rightarrow> world
                             | None \<Rightarrow> world\<lparr>ws_players := ws_players world @ [empty_player]\<rparr>);
                    split_cost = f32_mul (pl_mass player) SHROOM_SPLIT_MASS_LOSS_FRACTION;
                    half_mass = f32_div (f32_sub (pl_mass player) split_cost) 0x40000000;
                    launch_dir = launch_direction aim_direction (pl_input_direction player);
                    (entity_id, world) = fresh_entity 0 world;
                    world = upd_player world new_piece (\<lambda>_. empty_player\<lparr>pl_player_id := pl_player_id player,
                      pl_entity_id := entity_id, pl_position := pl_position player, pl_input_direction := launch_dir,
                      pl_mass := half_mass, pl_radius := ShroomMassToRadius half_mass,
                      pl_last_move_time_ms := ShroomWorldCurrentTimeMs world,
                      pl_name := fst (snprintf_s (replicate SHROOM_MAX_NAME_LENGTH 0) (pl_name player)),
                      pl_alive := True, pl_is_bot := pl_is_bot player, pl_ai_controlled := pl_is_bot player,
                      pl_split_velocity := ShroomVec2Scale launch_dir SHROOM_SPLIT_IMPULSE_SPEED,
                      pl_merge_timer := SHROOM_SPLIT_MERGE_SECONDS,
                      pl_spawn_protection_timer := SHROOM_SPLIT_PROTECTION_SECONDS,
                      pl_piece_index := word_of_nat piece_count, pl_life_generation := pl_life_generation player\<rparr>)
                in (True, upd_player world i (\<lambda>p. p\<lparr>pl_mass := half_mass, pl_radius := ShroomMassToRadius half_mass,
                      pl_last_move_time_ms := ShroomWorldCurrentTimeMs world, pl_has_split := True,
                      pl_merge_timer := if f32_le (pl_merge_timer p) 0 then SHROOM_SPLIT_MERGE_SECONDS else pl_merge_timer p,
                      pl_spawn_protection_timer := SHROOM_SPLIT_PROTECTION_SECONDS\<rparr>)))"

definition ShroomWorldSplitPlayer :: "ShroomWorldState \<Rightarrow> nat \<Rightarrow> bool \<times> ShroomWorldState" where
  "ShroomWorldSplitPlayer world i = ShroomWorldSplitPlayerToward world i (pl_input_direction (player_at world i))"

definition eject_cost :: f32 where
  "eject_cost = f32_mul SHROOM_EJECT_MASS_VALUE (f32_add 0x3f800000 SHROOM_EJECT_COST_FRACTION)"

definition ShroomWorldEjectMass :: "ShroomWorldState \<Rightarrow> nat \<Rightarrow> ShroomVec2 \<Rightarrow> bool \<times> ShroomWorldState" where
  "ShroomWorldEjectMass world i aim_direction =
     (let player = player_at world i
      in if \<not> pl_alive player then (False, world)
         else if f32_lt 0 (pl_eject_cooldown_timer player) \<or> f32_lt (pl_mass player) SHROOM_EJECT_MIN_MASS
         then (False, world)
         else if f32_lt (f32_sub (pl_mass player) eject_cost) SHROOM_DEFAULT_PLAYER_MASS then (False, world)
         else
           let eject_dir = launch_direction aim_direction (pl_input_direction player);
               target = ShroomVec2Add (pl_position player) (ShroomVec2Scale eject_dir
                 (f32_add (f32_add (pl_radius player) SHROOM_POWERUP_RADIUS) SHROOM_EJECT_IMPULSE_RANGE));
               eject_position = \<lparr>v2_x = ShroomClamp (v2_x target) SHROOM_POWERUP_RADIUS (f32_sub (ws_width world) SHROOM_POWERUP_RADIUS),
                                 v2_y = ShroomClamp (v2_y target) SHROOM_POWERUP_RADIUS (f32_sub (ws_height world) SHROOM_POWERUP_RADIUS)\<rparr>;
               mass = f32_sub (pl_mass player) eject_cost;
               world = upd_player world i (\<lambda>p. p\<lparr>pl_mass := mass, pl_radius := ShroomMassToRadius mass,
                 pl_eject_cooldown_timer := SHROOM_EJECT_COOLDOWN_SECONDS\<rparr>)
           in (True, ShroomSpawnDecaySpore world eject_position (word_of_int (f32_to_int SHROOM_EJECT_MASS_VALUE))))"

definition ShroomPlayersCanMerge :: "ShroomPlayerState \<Rightarrow> ShroomPlayerState \<Rightarrow> bool" where
  "ShroomPlayersCanMerge primary piece =
     (if \<not> pl_alive primary \<or> \<not> pl_alive piece then False
      else if pl_player_id primary \<noteq> pl_player_id piece \<or> pl_piece_index primary \<noteq> 0 \<or> pl_piece_index piece = 0 then False
      else if f32_lt 0 (pl_merge_timer primary) \<or> f32_lt 0 (pl_merge_timer piece) then False
      else
        let merge_radius = f32_add (pl_radius primary) (pl_radius piece)
        in f32_le (ShroomDistanceSqr (pl_position primary) (pl_position piece)) (f32_mul merge_radius merge_radius))"

definition merge_piece :: "nat \<Rightarrow> ShroomWorldState \<Rightarrow> ShroomWorldState" where
  "merge_piece i world =
     (let piece = player_at world i
      in if \<not> pl_alive piece \<or> pl_piece_index piece = 0 then world
         else case ShroomFindPrimaryPiece world (pl_player_id piece) of
                None \<Rightarrow> world
              | Some k \<Rightarrow>
                  if \<not> ShroomPlayersCanMerge (player_at world k) piece then world
                  else
                    let world = upd_player world k (\<lambda>p.
                          let mass = ShroomClamp (f32_add (pl_mass p) (pl_mass piece)) 0 SHROOM_MAX_PLAYER_MASS
                          in p\<lparr>pl_mass := mass, pl_radius := ShroomMassToRadius mass\<rparr>)
                    in upd_player world i (\<lambda>_. empty_player))"

definition ShroomResolveMerges :: "ShroomWorldState \<Rightarrow> ShroomWorldState" where
  "ShroomResolveMerges world = fold merge_piece [0..<length (ws_players world)] world"

definition forced_split :: "nat \<Rightarrow> ShroomWorldState \<Rightarrow> ShroomWorldState" where
  "forced_split i world =
     (let player = player_at world i
      in if \<not> pl_is_bot player then world
         else if \<not> ShroomPlayerCanSplit world player \<or> f32_lt (pl_mass player) SHROOM_MAX_PLAYER_MASS then world
         else snd (ShroomWorldSplitPlayer world i))"

definition ShroomApplyForcedSplits :: "ShroomWorldState \<Rightarrow> ShroomWorldState" where
  "ShroomApplyForcedSplits world = fold forced_split [0..<length (ws_players world)] world"

end
