(* ===== verification/Sim_Bots.thy ===== *)
theory Sim_Bots
  imports Sim_Rules
begin

text \<open>
  How a bot plays (\<open>src/src/shared/sim.c\<close>): what it fears, chases and collects, when it splits or
  ejects, and the direction it moves in.  Who is the best so far is an index with its score.
\<close>

datatype ShroomBotRiskProfile =
  SHROOM_BOT_PROFILE_CONSERVATIVE | SHROOM_BOT_PROFILE_AGGRESSIVE | SHROOM_BOT_PROFILE_OBJECTIVE | SHROOM_BOT_PROFILE_COUNT

definition SHROOM_BOT_TACTICAL_COOLDOWN_CONSERVATIVE :: f32 where "SHROOM_BOT_TACTICAL_COOLDOWN_CONSERVATIVE = 0x3fe00000"
definition SHROOM_BOT_TACTICAL_COOLDOWN_AGGRESSIVE :: f32 where "SHROOM_BOT_TACTICAL_COOLDOWN_AGGRESSIVE = 0x3f400000"
definition SHROOM_BOT_TACTICAL_COOLDOWN_OBJECTIVE :: f32 where "SHROOM_BOT_TACTICAL_COOLDOWN_OBJECTIVE = 0x3fa00000"
definition SHROOM_BOT_POWERUP_SEARCH_RADIUS :: f32 where "SHROOM_BOT_POWERUP_SEARCH_RADIUS = 0x44610000"
definition SHROOM_BOT_SPLIT_REACH :: f32 where "SHROOM_BOT_SPLIT_REACH = 0x43b40000"
definition SHROOM_BOT_EJECT_PRESSURE_RANGE :: f32 where "SHROOM_BOT_EJECT_PRESSURE_RANGE = 0x442f0000"
definition SHROOM_BOT_SPORE_SEARCH_RADIUS :: f32 where "SHROOM_BOT_SPORE_SEARCH_RADIUS = 0x44160000"

section \<open>Preferences\<close>

definition ShroomBotSporeZoneWeight :: "f32 \<Rightarrow> ShroomZone \<Rightarrow> f32" where
  "ShroomBotSporeZoneWeight bot_mass zone =
     (if f32_lt bot_mass (f32_mul SHROOM_DEFAULT_PLAYER_MASS 0x3fa00000) then
        (case zone of SHROOM_ZONE_OUTER \<Rightarrow> 0x3f933333 | SHROOM_ZONE_MID \<Rightarrow> 0x3f800000 | SHROOM_ZONE_CENTER \<Rightarrow> 0x3f266666)
      else if f32_lt (f32_mul SHROOM_DEFAULT_PLAYER_MASS 0x3fe66666) bot_mass then
        (case zone of SHROOM_ZONE_OUTER \<Rightarrow> 0x3f4ccccd | SHROOM_ZONE_MID \<Rightarrow> 0x3f800000 | SHROOM_ZONE_CENTER \<Rightarrow> 0x3faccccd)
      else
        (case zone of SHROOM_ZONE_OUTER \<Rightarrow> 0x3f733333 | SHROOM_ZONE_MID \<Rightarrow> 0x3f866666 | SHROOM_ZONE_CENTER \<Rightarrow> 0x3f800000))"

definition ShroomBotCenterPressureWeight :: "f32 \<Rightarrow> ShroomZone \<Rightarrow> f32" where
  "ShroomBotCenterPressureWeight bot_mass zone =
     (if f32_le bot_mass (f32_mul SHROOM_DEFAULT_PLAYER_MASS 0x3fc00000)
      then if zone = SHROOM_ZONE_OUTER then 0x3e800000 else 0x3ee66666
      else if zone = SHROOM_ZONE_OUTER then 0x3f99999a else 0x3f4ccccd)"

definition ShroomBotProfileForPlayer :: "u32 \<Rightarrow> ShroomBotRiskProfile" where
  "ShroomBotProfileForPlayer player_id =
     (if player_id = 0 then SHROOM_BOT_PROFILE_CONSERVATIVE
      else [SHROOM_BOT_PROFILE_CONSERVATIVE, SHROOM_BOT_PROFILE_AGGRESSIVE, SHROOM_BOT_PROFILE_OBJECTIVE]
             ! unat ((player_id - 1) mod 3))"

definition ShroomBotPowerupUtility :: "ShroomPlayerState \<Rightarrow> ShroomPowerupState \<Rightarrow> ShroomBotRiskProfile \<Rightarrow> f32" where
  "ShroomBotPowerupUtility me powerup profile =
     (let discount = (\<lambda>utility timer. if f32_lt 0x3f800000 timer then f32_mul utility 0x3e800000 else utility);
          objective = (\<lambda>utility. if profile = SHROOM_BOT_PROFILE_OBJECTIVE then f32_mul utility 0x3fc00000 else utility)
      in if pow_type powerup = SHROOM_POWERUP_SPEED then
           objective (discount (if profile = SHROOM_BOT_PROFILE_AGGRESSIVE then 0x3fb9999a else 0x3f8ccccd)
             (pl_speed_powerup_timer me))
         else if pow_type powerup = SHROOM_POWERUP_SHIELD then
           objective (discount (if profile = SHROOM_BOT_PROFILE_CONSERVATIVE then 0x3fd9999a else 0x3f99999a)
             (pl_shield_powerup_timer me))
         else if pow_type powerup = SHROOM_POWERUP_MAGNET then
           objective (discount (if profile = SHROOM_BOT_PROFILE_OBJECTIVE then 0x3fd33333 else 0x3f866666)
             (pl_magnet_powerup_timer me))
         else if pow_type powerup = SHROOM_POWERUP_DECAY_IMMUNE then
           objective (discount (if f32_le SHROOM_DECAY_MASS_THRESHOLD (pl_mass me) then 0x3fb33333 else 0x3f4ccccd)
             (pl_decay_immune_powerup_timer me))
         else 0)"

definition ShroomBotTacticalCooldown :: "ShroomBotRiskProfile \<Rightarrow> f32" where
  "ShroomBotTacticalCooldown profile =
     (case profile of
        SHROOM_BOT_PROFILE_AGGRESSIVE \<Rightarrow> SHROOM_BOT_TACTICAL_COOLDOWN_AGGRESSIVE
      | SHROOM_BOT_PROFILE_OBJECTIVE \<Rightarrow> SHROOM_BOT_TACTICAL_COOLDOWN_OBJECTIVE
      | _ \<Rightarrow> SHROOM_BOT_TACTICAL_COOLDOWN_CONSERVATIVE)"

section \<open>Splitting and ejecting\<close>

text \<open>
  Three opportunities, tried in order until one succeeds: split onto the prey, eject to press it,
  eject towards the objective.  Each says whether it acted and how the world is then.
\<close>

definition split_onto_prey :: "ShroomWorldState \<Rightarrow> nat \<Rightarrow> (nat \<times> f32) option \<Rightarrow> bool \<Rightarrow> bool \<times> ShroomWorldState" where
  "split_onto_prey world i prey_found threat_close =
     (let me = player_at world i; profile = ShroomBotProfileForPlayer (pl_player_id me)
      in case prey_found of
           None \<Rightarrow> (False, world)
         | Some (k, prey_distance_sqr) \<Rightarrow>
             let prey = player_at world k
             in if \<not> ShroomPlayerHasConsumeProtection prey \<and> \<not> threat_close \<and>
                   f32_le prey_distance_sqr (f32_mul SHROOM_BOT_SPLIT_REACH SHROOM_BOT_SPLIT_REACH) \<and>
                   ShroomPlayerCanSplit world me
                then
                  let post_split_mass = f32_mul (f32_mul (pl_mass me)
                        (f32_sub 0x3f800000 SHROOM_SPLIT_MASS_LOSS_FRACTION)) 0x3f000000;
                      safety_margin = (if profile = SHROOM_BOT_PROFILE_CONSERVATIVE then 0x3fb9999a
                                       else if profile = SHROOM_BOT_PROFILE_AGGRESSIVE then 0x3f83d70a else 0x3f970a3d);
                      profile_allows_split = (profile = SHROOM_BOT_PROFILE_CONSERVATIVE \<longrightarrow>
                        f32_lt 0 (pl_shield_powerup_timer me))
                  in if profile_allows_split \<and>
                        f32_le (f32_mul (f32_mul (pl_mass prey)
                          (ShroomGetConsumeMassAdvantageAtPosition world (pl_position prey))) safety_margin) post_split_mass
                     then ShroomWorldSplitPlayerToward world i (ShroomVec2Sub (pl_position prey) (pl_position me))
                     else (False, world)
                else (False, world))"

definition eject_at_prey :: "ShroomWorldState \<Rightarrow> nat \<Rightarrow> (nat \<times> f32) option \<Rightarrow> bool \<Rightarrow> bool \<times> ShroomWorldState" where
  "eject_at_prey world i prey_found threat_close =
     (let me = player_at world i; profile = ShroomBotProfileForPlayer (pl_player_id me)
      in case prey_found of
           None \<Rightarrow> (False, world)
         | Some (k, prey_distance_sqr) \<Rightarrow>
             let prey = player_at world k
             in if profile = SHROOM_BOT_PROFILE_AGGRESSIVE \<and> \<not> ShroomPlayerHasConsumeProtection prey \<and> \<not> threat_close \<and>
                   f32_le prey_distance_sqr (f32_mul SHROOM_BOT_EJECT_PRESSURE_RANGE SHROOM_BOT_EJECT_PRESSURE_RANGE)
                then
                  let post_eject_mass = f32_sub (pl_mass me) eject_cost
                  in if f32_le (f32_mul (f32_mul (pl_mass prey)
                          (ShroomGetConsumeMassAdvantageAtPosition world (pl_position prey))) 0x3f8ccccd) post_eject_mass
                     then ShroomWorldEjectMass world i (ShroomVec2Sub (pl_position prey) (pl_position me))
                     else (False, world)
                else (False, world))"

definition eject_for_objective :: "ShroomWorldState \<Rightarrow> nat \<Rightarrow> nat option \<Rightarrow> bool \<Rightarrow> bool \<times> ShroomWorldState" where
  "eject_for_objective world i objective threat_close =
     (let me = player_at world i
      in case objective of
           None \<Rightarrow> (False, world)
         | Some k \<Rightarrow>
             if ShroomBotProfileForPlayer (pl_player_id me) = SHROOM_BOT_PROFILE_OBJECTIVE \<and> \<not> threat_close \<and>
                f32_le (f32_mul SHROOM_EJECT_MIN_MASS 0x3f933333) (pl_mass me)
             then ShroomWorldEjectMass world i (ShroomVec2Sub (pl_position me) (pow_position (ws_powerups world ! k)))
             else (False, world))"

definition ShroomBotTryTacticalAction ::
  "ShroomWorldState \<Rightarrow> nat \<Rightarrow> (nat \<times> f32) option \<Rightarrow> (nat \<times> f32) option \<Rightarrow> nat option \<Rightarrow> bool \<times> ShroomWorldState" where
  "ShroomBotTryTacticalAction world i prey threat objective =
     (let me = player_at world i;
          profile = ShroomBotProfileForPlayer (pl_player_id me);
          threat_close = (case threat of None \<Rightarrow> False
            | Some (_, threat_distance_sqr) \<Rightarrow> f32_lt threat_distance_sqr (f32_mul 0x442f0000 0x442f0000));
          cool_down = (\<lambda>world. upd_player world i (\<lambda>p. p\<lparr>pl_bot_tactical_cooldown_timer := ShroomBotTacticalCooldown profile\<rparr>))
      in if pl_piece_index me \<noteq> 0 \<or> f32_lt 0 (pl_bot_tactical_cooldown_timer me) then (False, world)
         else case split_onto_prey world i prey threat_close of
           (True, world) \<Rightarrow> (True, cool_down world)
         | (False, world) \<Rightarrow>
             (case eject_at_prey world i prey threat_close of
                (True, world) \<Rightarrow> (True, cool_down world)
              | (False, world) \<Rightarrow>
                  (case eject_for_objective world i objective threat_close of
                     (True, world) \<Rightarrow> (True, cool_down world)
                   | (False, world) \<Rightarrow> (False, world))))"

section \<open>Where a bot moves\<close>

text \<open>The best candidate so far, with its score and its distance.\<close>

definition keep_better :: "nat \<Rightarrow> f32 \<Rightarrow> f32 \<Rightarrow> (nat \<times> f32 \<times> f32) option \<Rightarrow> (nat \<times> f32 \<times> f32) option" where
  "keep_better index score distance_sqr best =
     (case best of
        None \<Rightarrow> Some (index, score, distance_sqr)
      | Some (_, best_score, _) \<Rightarrow> if f32_lt best_score score then Some (index, score, distance_sqr) else best)"

type_synonym candidate = "(nat \<times> f32 \<times> f32) option"

definition weigh_player :: "ShroomWorldState \<Rightarrow> nat \<Rightarrow> nat \<Rightarrow> candidate \<times> candidate \<Rightarrow> candidate \<times> candidate" where
  "weigh_player world i index found =
     (let me = player_at world i; other = player_at world index; (threat, prey) = found;
          distance_sqr = ShroomDistanceSqr (pl_position me) (pl_position other);
          distance_bias = f32_add distance_sqr 0x3f800000
      in if index = i \<or> \<not> pl_alive other \<or> pl_player_id other = pl_player_id me then found
         else if f32_lt (f32_mul (pl_mass me) (ShroomGetConsumeMassAdvantageAtPosition world (pl_position me))) (pl_mass other)
         then (keep_better index (f32_mul (f32_div (pl_mass other) (pl_mass me)) (f32_div 0x49c35000 distance_bias))
                 distance_sqr threat, prey)
         else if f32_lt (f32_mul (pl_mass other) (ShroomGetConsumeMassAdvantageAtPosition world (pl_position other))) (pl_mass me)
         then (threat, keep_better index (f32_mul (f32_div (pl_mass me) (pl_mass other)) (f32_div 0x49864700 distance_bias))
                 distance_sqr prey)
         else found)"

definition weigh_powerup :: "ShroomWorldState \<Rightarrow> nat \<Rightarrow> nat \<Rightarrow> candidate \<Rightarrow> candidate" where
  "weigh_powerup world i index best =
     (let me = player_at world i; powerup = ws_powerups world ! index;
          profile = ShroomBotProfileForPlayer (pl_player_id me);
          distance_sqr = ShroomDistanceSqr (pl_position me) (pow_position powerup)
      in if \<not> pow_active powerup \<or>
            f32_lt (f32_mul SHROOM_BOT_POWERUP_SEARCH_RADIUS SHROOM_BOT_POWERUP_SEARCH_RADIUS) distance_sqr then best
         else keep_better index (f32_div (f32_mul (ShroomBotPowerupUtility me powerup profile) 0x49864700)
                (f32_add distance_sqr 0x44c80000)) distance_sqr best)"

definition weigh_spore :: "ShroomWorldState \<Rightarrow> nat \<Rightarrow> nat \<Rightarrow> candidate \<Rightarrow> candidate" where
  "weigh_spore world i index best =
     (let me = player_at world i; spore = spore_at world index;
          distance_sqr = ShroomDistanceSqr (pl_position me) (spo_position spore);
          weighted_distance = f32_div (f32_add distance_sqr 0x44c80000)
            (ShroomBotSporeZoneWeight (pl_mass me) (ShroomGetZoneAtPosition world (spo_position spore)))
      in if \<not> spo_active spore then best
         else keep_better index (f32_div 0x3f800000 weighted_distance) distance_sqr best)"

definition best_score :: "candidate \<Rightarrow> f32" where
  "best_score best = (case best of None \<Rightarrow> 0 | Some (_, score, _) \<Rightarrow> score)"

text \<open>The direction, once the tactical action is done.\<close>

definition bot_direction ::
  "ShroomWorldState \<Rightarrow> nat \<Rightarrow> spore_grid option \<Rightarrow> candidate \<Rightarrow> candidate \<Rightarrow> candidate \<Rightarrow> ShroomVec2" where
  "bot_direction world i grid threat prey powerup =
     (let me = player_at world i;
          profile = ShroomBotProfileForPlayer (pl_player_id me);
          current_zone = ShroomGetZoneAtPosition world (pl_position me);
          to_center = ShroomVec2Sub (ShroomWorldCenter world) (pl_position me);
          threat_near = (case threat of None \<Rightarrow> False | Some (_, _, d) \<Rightarrow> f32_lt d (f32_mul 0x448fc000 0x448fc000))
      in if threat_near then
           let flee_direction = ShroomVec2Sub (pl_position me) (pl_position (player_at world (fst (the threat))));
               flee_direction = (if current_zone \<noteq> SHROOM_ZONE_OUTER
                 then ShroomVec2Add flee_direction
                        (ShroomVec2Scale (ShroomVec2Sub (pl_position me) (ShroomWorldCenter world)) 0x3ee66666)
                 else flee_direction)
           in ShroomNormalizeOrZero flee_direction
         else if ws_game_mode world = SHROOM_GAME_MODE_KING_OF_HILL \<and> profile = SHROOM_BOT_PROFILE_OBJECTIVE \<and>
                 current_zone \<noteq> SHROOM_ZONE_CENTER
         then ShroomNormalizeOrZero to_center
         else if powerup \<noteq> None \<and> (profile = SHROOM_BOT_PROFILE_OBJECTIVE \<or> prey = None \<or>
                 f32_lt (f32_mul (best_score prey) 0x3fa00000) (best_score powerup))
         then ShroomNormalizeOrZero (ShroomVec2Sub (pow_position (ws_powerups world ! fst (the powerup))) (pl_position me))
         else if prey \<noteq> None \<and> f32_lt 0x3f99999a (best_score prey)
         then ShroomNormalizeOrZero (ShroomVec2Sub (pl_position (player_at world (fst (the prey)))) (pl_position me))
         else
           let spore = fold (weigh_spore world i)
                 (case grid of Some grid \<Rightarrow> spores_near grid (pl_position me) SHROOM_BOT_SPORE_SEARCH_RADIUS
                  | None \<Rightarrow> [0..<ws_spore_count world]) None
           in if f32_lt (f32_mul SHROOM_DEFAULT_PLAYER_MASS 0x3fc00000) (pl_mass me) \<and> current_zone \<noteq> SHROOM_ZONE_CENTER \<and>
                 (spore = None \<or> f32_lt (best_score spore) 0x37a7c5ac)
              then ShroomNormalizeOrZero
                     (ShroomVec2Scale to_center (ShroomBotCenterPressureWeight (pl_mass me) current_zone))
              else case spore of
                     Some (k, _) \<Rightarrow> ShroomNormalizeOrZero (ShroomVec2Sub (spo_position (spore_at world k)) (pl_position me))
                   | None \<Rightarrow> ShroomNormalizeOrZero to_center)"

definition ShroomUpdateBotInput :: "ShroomWorldState \<Rightarrow> nat \<Rightarrow> spore_grid option \<Rightarrow> ShroomWorldState" where
  "ShroomUpdateBotInput world i grid =
     (let (threat, prey) = fold (weigh_player world i) [0..<length (ws_players world)] (None, None);
          powerup = fold (weigh_powerup world i) [0..<ws_powerup_count world] None;
          distance = map_option (\<lambda>(index, _, distance_sqr). (index, distance_sqr));
          (_, world) = ShroomBotTryTacticalAction world i (distance prey) (distance threat) (map_option fst powerup)
      in upd_player world i (\<lambda>p. p\<lparr>pl_input_direction := bot_direction world i grid threat prey powerup\<rparr>))"

end
