(* ===== verification/Sim_Match.thy ===== *)
theory Sim_Match
  imports Sim_Bots
begin

text \<open>
  The match (\<open>src/src/shared/sim.c\<close>): colony masses, the podium, game modes, the objective, the round
  statistics, starting over, and the step of the world.
\<close>

definition SHROOM_MATCH_RESULTS_SECONDS :: f32 where "SHROOM_MATCH_RESULTS_SECONDS = 0x41f00000"
definition SHROOM_KOTH_SCORE_PER_SECOND :: f32 where "SHROOM_KOTH_SCORE_PER_SECOND = 0x3f800000"
definition SHROOM_SPLIT_IMPULSE_DECAY :: f32 where "SHROOM_SPLIT_IMPULSE_DECAY = 0x40200000"

definition ShroomPlayerSetInput :: "ShroomPlayerState \<Rightarrow> ShroomVec2 \<Rightarrow> ShroomPlayerState" where
  "ShroomPlayerSetInput player input_direction = player\<lparr>pl_input_direction := input_direction\<rparr>"

section \<open>Colonies and the podium\<close>

definition ShroomWorldGetColonyMass :: "ShroomWorldState \<Rightarrow> u32 \<Rightarrow> f32" where
  "ShroomWorldGetColonyMass world player_id =
     (if player_id = 0 then 0
      else fold (\<lambda>piece total_mass.
             if pl_alive piece \<and> pl_player_id piece = player_id \<and> f32_lt 0 (pl_mass piece)
             then f32_add total_mass (pl_mass piece) else total_mass) (ws_players world) 0)"

definition ShroomWorldGetObjectiveScore :: "ShroomWorldState \<Rightarrow> u32 \<Rightarrow> f32" where
  "ShroomWorldGetObjectiveScore world player_id =
     (if player_id = 0 then 0
      else case find_index (\<lambda>id'. id' = player_id) (ws_objective_player_ids world) of
             Some i \<Rightarrow> ws_objective_scores world ! i | None \<Rightarrow> 0)"

text \<open>One element moves in, those behind it move back, and the last one falls off.\<close>

definition shift_in :: "nat \<Rightarrow> 'a \<Rightarrow> 'a list \<Rightarrow> 'a list" where
  "shift_in j x xs = take (length xs) (take j xs @ x # drop j xs)"

text \<open>Whether a colony goes before the one at a place of the podium.\<close>

definition beats :: "ShroomWorldState \<Rightarrow> u32 \<Rightarrow> f32 \<Rightarrow> nat \<Rightarrow> bool" where
  "beats world player_id colony_mass j =
     (let placed_id = ws_podium_player_ids world ! j; placed_mass = ws_podium_masses world ! j;
          candidate_tiebreak_mass = ShroomWorldGetColonyMass world player_id;
          placed_tiebreak_mass = ShroomWorldGetColonyMass world placed_id;
          koth = (ws_game_mode world = SHROOM_GAME_MODE_KING_OF_HILL)
      in f32_lt placed_mass colony_mass \<or>
         f32_eq colony_mass placed_mass \<and>
           (placed_id = 0 \<or>
            koth \<and> (f32_lt placed_tiebreak_mass candidate_tiebreak_mass \<or>
                     f32_eq candidate_tiebreak_mass placed_tiebreak_mass \<and> player_id < placed_id) \<or>
            \<not> koth \<and> player_id < placed_id))"

definition podium_score :: "ShroomWorldState \<Rightarrow> u32 \<Rightarrow> f32" where
  "podium_score world player_id =
     (if ws_game_mode world = SHROOM_GAME_MODE_KING_OF_HILL then ShroomWorldGetObjectiveScore world player_id
      else ShroomWorldGetColonyMass world player_id)"

definition place_on_podium :: "u32 \<Rightarrow> ShroomWorldState \<Rightarrow> ShroomWorldState" where
  "place_on_podium player_id world =
     (let colony_mass = podium_score world player_id
      in case find_index (beats world player_id colony_mass) [0..<SHROOM_MATCH_PODIUM_COUNT] of
           None \<Rightarrow> world
         | Some j \<Rightarrow> world\<lparr>ws_podium_player_ids := shift_in j player_id (ws_podium_player_ids world),
                          ws_podium_masses := shift_in j colony_mass (ws_podium_masses world)\<rparr>)"

definition clear_podium :: "ShroomWorldState \<Rightarrow> ShroomWorldState" where
  "clear_podium world = world\<lparr>ws_podium_player_ids := replicate SHROOM_MATCH_PODIUM_COUNT 0,
     ws_podium_masses := replicate SHROOM_MATCH_PODIUM_COUNT 0\<rparr>"

definition podium_candidate :: "ShroomPlayerState list \<Rightarrow> nat \<Rightarrow> bool" where
  "podium_candidate players i \<longleftrightarrow>
     pl_alive (players ! i) \<and> \<not> f32_le (pl_mass (players ! i)) 0 \<and>
     \<not> list_ex (\<lambda>p. pl_alive p \<and> pl_player_id p = pl_player_id (players ! i)) (take i players)"

definition ShroomComputeMatchPodium :: "ShroomWorldState \<Rightarrow> ShroomWorldState" where
  "ShroomComputeMatchPodium world =
     fold (\<lambda>i world. if podium_candidate (ws_players world) i
             then place_on_podium (pl_player_id (player_at world i)) world else world)
       [0..<length (ws_players world)] (clear_podium world)"

section \<open>Modes and starting over\<close>

definition clear_objective :: "ShroomWorldState \<Rightarrow> ShroomWorldState" where
  "clear_objective world = world\<lparr>ws_objective_controller_id := 0, ws_objective_contested := False,
     ws_objective_player_ids := replicate SHROOM_MAX_PARTICIPANTS 0,
     ws_objective_scores := replicate SHROOM_MAX_PARTICIPANTS 0\<rparr>"

definition ShroomWorldSetGameMode :: "ShroomWorldState \<Rightarrow> u32 \<Rightarrow> ShroomWorldState" where
  "ShroomWorldSetGameMode world game_mode =
     (if SHROOM_GAME_MODE_COUNT \<le> game_mode then world
      else clear_objective (world\<lparr>ws_game_mode := game_mode, ws_objective_target_score := SHROOM_KOTH_TARGET_SCORE\<rparr>))"

definition ShroomWorldSetMatchDuration :: "ShroomWorldState \<Rightarrow> f32 \<Rightarrow> ShroomWorldState" where
  "ShroomWorldSetMatchDuration world duration_seconds =
     (let duration_seconds = (if f32_lt duration_seconds 0x3f800000 then 0x3f800000 else duration_seconds)
      in world\<lparr>ws_match_duration_seconds := duration_seconds, ws_match_time_remaining := duration_seconds\<rparr>)"

definition reset_player :: "libm \<Rightarrow> nat \<Rightarrow> ShroomWorldState \<Rightarrow> ShroomWorldState" where
  "reset_player lm i world =
     (let player = player_at world i;
          primary_already_seen = list_ex (\<lambda>p. pl_alive p \<and> pl_player_id p = pl_player_id player \<and> pl_piece_index p = 0)
            (take i (ws_players world))
      in if \<not> pl_alive player then world
         else if pl_piece_index player \<noteq> 0 \<or> primary_already_seen then upd_player world i (\<lambda>_. empty_player)
         else
           let (position, world) = ShroomRandomSpawnPosition lm world True
           in upd_player world i (\<lambda>p. p\<lparr>pl_position := position,
                pl_life_generation := ShroomNextLifeGeneration (pl_life_generation p),
                pl_mass := SHROOM_DEFAULT_PLAYER_MASS, pl_radius := ShroomMassToRadius SHROOM_DEFAULT_PLAYER_MASS,
                pl_input_direction := zero_vec2, pl_split_velocity := zero_vec2, pl_ai_controlled := False,
                pl_has_split := False, pl_piece_index := 0, pl_merge_timer := 0,
                pl_spawn_protection_timer := if pl_is_bot p then 0 else SHROOM_PLAYER_SPAWN_PROTECTION_SECONDS,
                pl_speed_powerup_timer := 0, pl_shield_powerup_timer := 0, pl_magnet_powerup_timer := 0,
                pl_decay_immune_powerup_timer := 0, pl_eject_cooldown_timer := 0, pl_decay_spore_accumulator := 0,
                pl_last_move_time_ms := ShroomWorldCurrentTimeMs world\<rparr>))"

definition ShroomWorldResetMatch :: "libm \<Rightarrow> ShroomWorldState \<Rightarrow> ShroomWorldState" where
  "ShroomWorldResetMatch lm world =
     (let world = fold (reset_player lm) [0..<length (ws_players world)] world;
          world = ShroomInitializePowerups lm (ShroomInitializeSpores lm (world\<lparr>ws_spore_count := 0, ws_powerup_count := 0\<rparr>));
          world = (clear_podium world)\<lparr>ws_round_stats := replicate SHROOM_MAX_PARTICIPANTS zero_stats_slot,
            ws_match_phase := SHROOM_MATCH_PHASE_RUNNING, ws_match_time_remaining := ws_match_duration_seconds world,
            ws_match_results_time_remaining := 0\<rparr>
      in clear_objective world)"

section \<open>King of the hill\<close>

definition ShroomWorldSetObjectiveScore :: "ShroomWorldState \<Rightarrow> u32 \<Rightarrow> f32 \<Rightarrow> bool \<times> ShroomWorldState" where
  "ShroomWorldSetObjectiveScore world player_id score =
     (if player_id = 0 then (False, world)
      else case find_index (\<lambda>id'. id' = player_id) (ws_objective_player_ids world) of
             Some i \<Rightarrow> (True, world\<lparr>ws_objective_scores := (ws_objective_scores world)[i := score]\<rparr>)
           | None \<Rightarrow>
               (case find_index (\<lambda>id'. id' = 0) (ws_objective_player_ids world) of
                  None \<Rightarrow> (False, world)
                | Some i \<Rightarrow> (True, world\<lparr>ws_objective_player_ids := (ws_objective_player_ids world)[i := player_id],
                                        ws_objective_scores := (ws_objective_scores world)[i := score]\<rparr>)))"

definition on_the_hill :: "ShroomWorldState \<Rightarrow> ShroomPlayerState \<Rightarrow> bool" where
  "on_the_hill world piece \<longleftrightarrow>
     pl_alive piece \<and> \<not> f32_le (pl_mass piece) 0 \<and> \<not> f32_lt 0 (pl_spawn_protection_timer piece) \<and>
     pl_player_id piece \<noteq> 0 \<and> ShroomGetZoneAtPosition world (pl_position piece) = SHROOM_ZONE_CENTER"

text \<open>The colonies on the hill, each once, in the order of their first pieces.\<close>

definition colonies_present :: "ShroomWorldState \<Rightarrow> u32 list" where
  "colonies_present world =
     fold (\<lambda>piece present.
       if on_the_hill world piece \<and> pl_player_id piece \<notin> set present \<and> length present < SHROOM_MAX_PARTICIPANTS
       then present @ [pl_player_id piece] else present) (ws_players world) []"

definition ShroomUpdateKingOfHill :: "ShroomWorldState \<Rightarrow> f32 \<Rightarrow> bool \<times> ShroomWorldState" where
  "ShroomUpdateKingOfHill world delta_time =
     (if ws_game_mode world \<noteq> SHROOM_GAME_MODE_KING_OF_HILL
      then (False, world\<lparr>ws_objective_controller_id := 0, ws_objective_contested := False\<rparr>)
      else
        let present = colonies_present world;
            controller = (if length present = 1 then present ! 0 else 0);
            world = world\<lparr>ws_objective_contested := (1 < length present), ws_objective_controller_id := controller\<rparr>
        in if controller = 0 then (False, world)
           else
             let score = f32_add (ShroomWorldGetObjectiveScore world controller)
                   (f32_mul SHROOM_KOTH_SCORE_PER_SECOND delta_time)
             in if f32_le (ws_objective_target_score world) score
                then (True, snd (ShroomWorldSetObjectiveScore world controller (ws_objective_target_score world)))
                else (False, snd (ShroomWorldSetObjectiveScore world controller score)))"

section \<open>Round statistics\<close>

definition ShroomFindStatsRepresentative :: "ShroomWorldState \<Rightarrow> u32 \<Rightarrow> ShroomPlayerState option" where
  "ShroomFindStatsRepresentative world player_id =
     (let pieces = filter (\<lambda>p. pl_alive p \<and> pl_player_id p = player_id) (ws_players world);
          earlier = (\<lambda>p q. pl_piece_index p < pl_piece_index q \<or>
            pl_piece_index p = pl_piece_index q \<and> pl_entity_id p < pl_entity_id q)
      in case find (\<lambda>p. pl_piece_index p = 0) pieces of
           Some p \<Rightarrow> Some p
         | None \<Rightarrow> fold (\<lambda>p best. case best of
                      None \<Rightarrow> Some p | Some q \<Rightarrow> if earlier p q then Some p else Some q) pieces None)"

definition colony_round_stats :: "ShroomWorldState \<Rightarrow> f32 \<Rightarrow> ShroomRoundStatsSlot \<Rightarrow> ShroomRoundStatsSlot" where
  "colony_round_stats world delta_time slot =
     (if rss_player_id slot = 0 then slot
      else
        let stats = rss_stats slot
        in case ShroomFindStatsRepresentative world (rss_player_id slot) of
             None \<Rightarrow> slot\<lparr>rss_stats := stats\<lparr>rs_colony_mass := 0\<rparr>\<rparr>
           | Some representative \<Rightarrow>
               let colony_mass = ShroomWorldGetColonyMass world (rss_player_id slot);
                   stats = stats\<lparr>rs_colony_mass := colony_mass,
                     rs_peak_mass := if f32_lt (rs_peak_mass stats) colony_mass then colony_mass else rs_peak_mass stats,
                     rs_survival_seconds := f32_add (rs_survival_seconds stats) delta_time\<rparr>
               in slot\<lparr>rss_stats :=
                    (case ShroomGetZoneAtPosition world (pl_position representative) of
                       SHROOM_ZONE_CENTER \<Rightarrow> stats\<lparr>rs_center_zone_seconds := f32_add (rs_center_zone_seconds stats) delta_time\<rparr>
                     | SHROOM_ZONE_MID \<Rightarrow> stats\<lparr>rs_mid_zone_seconds := f32_add (rs_mid_zone_seconds stats) delta_time\<rparr>
                     | SHROOM_ZONE_OUTER \<Rightarrow> stats\<lparr>rs_outer_zone_seconds := f32_add (rs_outer_zone_seconds stats) delta_time\<rparr>)\<rparr>)"

definition ShroomUpdateColonyRoundStats :: "ShroomWorldState \<Rightarrow> f32 \<Rightarrow> ShroomWorldState" where
  "ShroomUpdateColonyRoundStats world delta_time =
     (let world = fold (\<lambda>player world. if pl_alive player then snd (ShroomWorldEnsureRoundStats world (pl_player_id player))
                       else world) (ws_players world) world
      in world\<lparr>ws_round_stats := map (colony_round_stats world delta_time) (ws_round_stats world)\<rparr>)"

section \<open>The step\<close>

text \<open>Moving: the part of a player's step that only concerns the player, and what it walked.\<close>

definition run_out :: "f32 \<Rightarrow> f32 \<Rightarrow> f32" where
  "run_out delta_time timer =
     (if f32_lt 0 timer
      then let left = f32_sub timer delta_time in if f32_lt left 0 then 0 else left
      else timer)"

definition keep_inside :: "ShroomWorldState \<Rightarrow> f32 \<Rightarrow> ShroomVec2 \<Rightarrow> ShroomVec2" where
  "keep_inside world radius position =
     \<lparr>v2_x = ShroomClamp (v2_x position) radius (f32_sub (ws_width world) radius),
      v2_y = ShroomClamp (v2_y position) radius (f32_sub (ws_height world) radius)\<rparr>"

definition step_velocity :: "f32 \<Rightarrow> ShroomPlayerState \<Rightarrow> ShroomVec2" where
  "step_velocity delta_time player =
     (let speed = ShroomMassToSpeed (pl_mass player);
          speed = (if f32_lt 0 (pl_speed_powerup_timer player) then f32_mul speed SHROOM_POWERUP_SPEED_MULTIPLIER else speed)
      in ShroomVec2Scale (pl_input_direction player) (f32_mul speed delta_time))"

definition apply_impulse :: "ShroomWorldState \<Rightarrow> f32 \<Rightarrow> ShroomPlayerState \<Rightarrow> ShroomPlayerState" where
  "apply_impulse world delta_time player =
     (if f32_lt 0x3f800000 (ShroomVec2LengthSqr (pl_split_velocity player)) then
        let position = keep_inside world (pl_radius player)
              (ShroomVec2Add (pl_position player) (ShroomVec2Scale (pl_split_velocity player) delta_time));
            decay = f32_sub 0x3f800000 (f32_mul SHROOM_SPLIT_IMPULSE_DECAY delta_time);
            decay = (if f32_lt decay 0 then 0 else decay);
            velocity = ShroomVec2Scale (pl_split_velocity player) decay
        in player\<lparr>pl_position := position,
             pl_split_velocity := if f32_lt (ShroomVec2LengthSqr velocity) 0x3f800000 then zero_vec2 else velocity\<rparr>
      else player)"

definition moved_player :: "ShroomWorldState \<Rightarrow> f32 \<Rightarrow> u64 \<Rightarrow> ShroomPlayerState \<Rightarrow> ShroomPlayerState" where
  "moved_player world delta_time step_end_time_ms player =
     (let radius = ShroomMassToRadius (pl_mass player);
          player = player\<lparr>pl_last_move_time_ms :=
              if f32_lt SHROOM_IDLE_PENALTY_MOVEMENT_THRESHOLD_SQR (ShroomVec2LengthSqr (pl_input_direction player))
              then step_end_time_ms else pl_last_move_time_ms player,
            pl_radius := radius,
            pl_position := keep_inside world radius (ShroomVec2Add (pl_position player) (step_velocity delta_time player))\<rparr>;
          player = apply_impulse world delta_time player
      in player\<lparr>pl_merge_timer := run_out delta_time (pl_merge_timer player),
           pl_spawn_protection_timer := run_out delta_time (pl_spawn_protection_timer player),
           pl_eject_cooldown_timer := run_out delta_time (pl_eject_cooldown_timer player),
           pl_bot_tactical_cooldown_timer := run_out delta_time (pl_bot_tactical_cooldown_timer player)\<rparr>)"

definition move_player :: "f32 \<Rightarrow> u64 \<Rightarrow> nat \<Rightarrow> ShroomWorldState \<Rightarrow> ShroomWorldState" where
  "move_player delta_time step_end_time_ms i world =
     (let player = player_at world i
      in if \<not> pl_alive player then world
         else
           let walked = f32_sqrt (ShroomVec2LengthSqr (step_velocity delta_time player));
               world = upd_player world i (moved_player world delta_time step_end_time_ms)
           in note_stats world (pl_player_id player) (\<lambda>s. s\<lparr>rs_distance_traveled := f32_add (rs_distance_traveled s) walked\<rparr>))"

text \<open>A bot may split, which puts a piece at the end of the array that the loop then visits too.\<close>

definition steer_bots :: "spore_grid \<Rightarrow> ShroomWorldState \<Rightarrow> ShroomWorldState" where
  "steer_bots grid world =
     fold (\<lambda>i world.
       if i < length (ws_players world) \<and> (pl_is_bot (player_at world i) \<or> pl_ai_controlled (player_at world i)) \<and>
          pl_alive (player_at world i)
       then ShroomUpdateBotInput world i (Some grid) else world) [0..<SHROOM_MAX_PLAYER_ENTITIES] world"

text \<open>The intermission: only the clock of the results runs.\<close>

definition intermission_step :: "ShroomWorldState \<Rightarrow> f32 \<Rightarrow> ShroomWorldState" where
  "intermission_step world delta_time =
     (let remaining = f32_sub (ws_match_results_time_remaining world) delta_time;
          world = (if ws_match_phase world \<noteq> SHROOM_MATCH_PHASE_RESULTS then world
            else if f32_le remaining 0
            then world\<lparr>ws_match_results_time_remaining := 0, ws_match_phase := SHROOM_MATCH_PHASE_RESET\<rparr>
            else world\<lparr>ws_match_results_time_remaining := remaining\<rparr>)
      in world\<lparr>ws_tick := ws_tick world + 1\<rparr>)"

definition finish_step :: "bool \<Rightarrow> f32 \<Rightarrow> ShroomWorldState \<Rightarrow> ShroomWorldState" where
  "finish_step objective_won delta_time world =
     (let world = world\<lparr>ws_match_time_remaining := f32_sub (ws_match_time_remaining world) delta_time\<rparr>;
          world = (if objective_won \<or> f32_le (ws_match_time_remaining world) 0
            then (ShroomComputeMatchPodium (world\<lparr>ws_match_time_remaining := 0\<rparr>))
                   \<lparr>ws_match_phase := SHROOM_MATCH_PHASE_RESULTS,
                    ws_match_results_time_remaining := SHROOM_MATCH_RESULTS_SECONDS\<rparr>
            else world)
      in world\<lparr>ws_tick := ws_tick world + 1\<rparr>)"

definition ShroomWorldStep :: "libm \<Rightarrow> ShroomWorldState \<Rightarrow> f32 \<Rightarrow> ShroomWorldState" where
  "ShroomWorldStep lm world delta_time =
     (let step_end_time_ms = ShroomWorldStepEndTimeMs world delta_time
      in if ws_match_phase world \<noteq> SHROOM_MATCH_PHASE_RUNNING then intermission_step world delta_time
         else
           let grid = ShroomBuildSporeGrid world;
               world = steer_bots grid world;
               world = fold (move_player delta_time step_end_time_ms) [0..<length (ws_players world)] world;
               world = ShroomUpdatePlayerEffects world delta_time;
               world = ShroomCollectSpores lm world grid delta_time;
               world = ShroomCollectPowerups world;
               world = ShroomResolveConsumes lm world;
               (objective_won, world) = ShroomUpdateKingOfHill world delta_time;
               world = ShroomUpdateColonyRoundStats world delta_time;
               world = ShroomApplyMassRules lm world delta_time step_end_time_ms;
               world = ShroomApplyForcedSplits world;
               world = ShroomResolveMerges world;
               world = ShroomUpdatePowerups lm world delta_time
           in finish_step objective_won delta_time world)"

end
