(* ===== verification/Snapshot_Interest.thy ===== *)
theory Snapshot_Interest
  imports Sim_Match Snapshot_Delivery World_Replication "HOL-Library.Product_Lexorder" "HOL-Library.Multiset"
begin

text \<open>
  Which players a client is shown, and the frame it is sent: the interest selection of
  \<open>src/src/shared/snapshot_replication.c\<close>, \<open>src/src/server/snapshot_stats.c\<close>, and the snapshot
  fields \<open>SendSnapshot\<close> of \<open>src/src/server/main.c\<close> fills in.  The known entities are an array of the
  full length; the selected indices with their count are a list.
\<close>

definition SHROOM_SNAPSHOT_INTEREST_HYSTERESIS :: f32 where "SHROOM_SNAPSHOT_INTEREST_HYSTERESIS = 0x43700000"
definition SHROOM_POWERUP_EFFECT_SPEED :: u16 where "SHROOM_POWERUP_EFFECT_SPEED = 1"
definition SHROOM_POWERUP_EFFECT_SHIELD :: u16 where "SHROOM_POWERUP_EFFECT_SHIELD = 2"
definition SHROOM_POWERUP_EFFECT_MAGNET :: u16 where "SHROOM_POWERUP_EFFECT_MAGNET = 4"
definition SHROOM_POWERUP_EFFECT_DECAY_IMMUNE :: u16 where "SHROOM_POWERUP_EFFECT_DECAY_IMMUNE = 8"

record ShroomSnapshotInterestState =
  in_known_entity_ids :: "u32 list"

record SnapshotCandidate =
  sc_index :: u16
  sc_priority :: u8
  sc_distance_sqr :: f32
  sc_player_id :: u32
  sc_piece_index :: u8
  sc_entity_id :: u32

definition EntityWasKnown :: "ShroomSnapshotInterestState \<Rightarrow> u32 \<Rightarrow> bool" where
  "EntityWasKnown state entity_id = list_ex (\<lambda>known. known = entity_id) (in_known_entity_ids state)"

text \<open>
  The scan for the centre of interest: the piece in focus ends it; before that the first primary
  piece is the fallback, or the last primary piece of the viewer.
\<close>

fun interest_scan ::
  "u32 \<Rightarrow> u32 \<Rightarrow> bool \<Rightarrow> ShroomPlayerState option \<Rightarrow> ShroomPlayerState list \<Rightarrow> ShroomPlayerState option" where
  "interest_scan viewer focus spectator fallback [] = fallback"
| "interest_scan viewer focus spectator fallback (player # players) =
     (if \<not> pl_alive player \<or> f32_le (pl_mass player) 0 then interest_scan viewer focus spectator fallback players
      else
        let fallback = (if fallback = None \<and> pl_piece_index player = 0 then Some player else fallback)
        in if focus \<noteq> 0 \<and> pl_entity_id player = focus then Some player
           else if \<not> spectator \<and> pl_player_id player = viewer \<and> pl_piece_index player = 0
           then interest_scan viewer focus spectator (Some player) players
           else interest_scan viewer focus spectator fallback players)"

definition FindInterestCenter :: "ShroomWorldState \<Rightarrow> u32 \<Rightarrow> u32 \<Rightarrow> bool \<Rightarrow> ShroomVec2 \<times> f32" where
  "FindInterestCenter world viewer_player_id focus_entity_id spectator =
     (case interest_scan viewer_player_id focus_entity_id spectator None (ws_players world) of
        Some player \<Rightarrow> (pl_position player, pl_mass player)
      | None \<Rightarrow> (\<lparr>v2_x = f32_mul (ws_width world) 0x3f000000, v2_y = f32_mul (ws_height world) 0x3f000000\<rparr>, 0))"

definition CompareCandidate :: "SnapshotCandidate \<Rightarrow> SnapshotCandidate \<Rightarrow> int" where
  "CompareCandidate left right =
     (if sc_priority left \<noteq> sc_priority right then (if sc_priority left < sc_priority right then -1 else 1)
      else if \<not> f32_eq (sc_distance_sqr left) (sc_distance_sqr right)
      then (if f32_lt (sc_distance_sqr left) (sc_distance_sqr right) then -1 else 1)
      else if sc_player_id left \<noteq> sc_player_id right then (if sc_player_id left < sc_player_id right then -1 else 1)
      else if sc_piece_index left \<noteq> sc_piece_index right then (if sc_piece_index left < sc_piece_index right then -1 else 1)
      else if sc_entity_id left \<noteq> sc_entity_id right then (if sc_entity_id left < sc_entity_id right then -1 else 1)
      else 0)"

text \<open>One round of the insertion sort, on the sorted front of the array read from its end.\<close>

fun sift_down :: "SnapshotCandidate \<Rightarrow> SnapshotCandidate list \<Rightarrow> SnapshotCandidate list" where
  "sift_down candidate [] = [candidate]"
| "sift_down candidate (previous # front) =
     (if CompareCandidate candidate previous < 0 then previous # sift_down candidate front
      else candidate # previous # front)"

definition SortCandidates :: "SnapshotCandidate list \<Rightarrow> SnapshotCandidate list" where
  "SortCandidates candidates = rev (fold sift_down candidates [])"

text \<open>The candidate a player makes, if it is of interest.\<close>

definition snapshot_candidate ::
  "ShroomSnapshotInterestState \<Rightarrow> ShroomWorldState \<Rightarrow> u32 \<Rightarrow> u32 \<Rightarrow> bool \<Rightarrow> ShroomVec2 \<Rightarrow> f32 \<Rightarrow> nat \<Rightarrow>
     SnapshotCandidate option" where
  "snapshot_candidate state world viewer focus spectator center focus_mass index =
     (let player = player_at world index;
          dx = f32_sub (v2_x (pl_position player)) (v2_x center);
          dy = f32_sub (v2_y (pl_position player)) (v2_y center);
          distance_sqr = f32_add (f32_mul dx dx) (f32_mul dy dy);
          base_radius = SHROOM_WORLD_REPLICATION_INTEREST_RADIUS;
          retained_radius = f32_add base_radius SHROOM_SNAPSHOT_INTEREST_HYSTERESIS;
          focused = (focus \<noteq> 0 \<and> pl_entity_id player = focus);
          own_colony = (\<not> spectator \<and> pl_player_id player = viewer);
          objective = (ws_objective_controller_id world \<noteq> 0 \<and> pl_player_id player = ws_objective_controller_id world);
          threat = (f32_lt 0 focus_mass \<and> pl_player_id player \<noteq> viewer \<and>
                    f32_le (f32_mul focus_mass SHROOM_CONSUME_MASS_ADVANTAGE) (pl_mass player) \<and>
                    f32_le distance_sqr (f32_mul retained_radius retained_radius));
          nearby = f32_le distance_sqr (f32_mul base_radius base_radius);
          retained = (EntityWasKnown state (pl_entity_id player) \<and>
                      f32_le distance_sqr (f32_mul retained_radius retained_radius))
      in if \<not> pl_alive player \<or> f32_le (pl_mass player) 0 \<or>
            (\<not> focused \<and> \<not> own_colony \<and> \<not> objective \<and> \<not> threat \<and> \<not> nearby \<and> \<not> retained) then None
         else Some \<lparr>sc_index = word_of_nat index,
                sc_priority = (if focused \<or> own_colony then 0 else if objective then 1 else if threat then 2 else 3),
                sc_distance_sqr = distance_sqr, sc_player_id = pl_player_id player,
                sc_piece_index = pl_piece_index player, sc_entity_id = pl_entity_id player\<rparr>)"

definition snapshot_candidates ::
  "ShroomSnapshotInterestState \<Rightarrow> ShroomWorldState \<Rightarrow> u32 \<Rightarrow> u32 \<Rightarrow> bool \<Rightarrow> SnapshotCandidate list" where
  "snapshot_candidates state world viewer focus spectator =
     (let (center, focus_mass) = FindInterestCenter world viewer focus spectator
      in List.map_filter (snapshot_candidate state world viewer focus spectator center focus_mass)
           [0..<min (length (ws_players world)) SHROOM_MAX_PLAYER_ENTITIES])"

definition ShroomSnapshotSelectPlayers ::
  "ShroomSnapshotInterestState \<Rightarrow> ShroomWorldState \<Rightarrow> u32 \<Rightarrow> u32 \<Rightarrow> bool \<Rightarrow> nat \<Rightarrow>
     u16 list \<times> ShroomSnapshotInterestState" where
  "ShroomSnapshotSelectPlayers state world viewer_player_id focus_entity_id spectator selected_capacity =
     (let selected = take selected_capacity
            (SortCandidates (snapshot_candidates state world viewer_player_id focus_entity_id spectator))
      in (map sc_index selected,
          state\<lparr>in_known_entity_ids := map sc_entity_id selected @
             replicate (SHROOM_MAX_PLAYER_ENTITIES - length selected) 0\<rparr>))"

section \<open>The frame\<close>

definition ShroomServerPopulateSnapshotRoundStats ::
  "ShroomWorldState \<Rightarrow> u32 \<Rightarrow> ShroomSnapshotPlayerState \<Rightarrow> ShroomSnapshotPlayerState" where
  "ShroomServerPopulateSnapshotRoundStats world player_id snapshot_player =
     (let snapshot_player = snapshot_player\<lparr>sp_round_spores := 0, sp_round_kills := 0\<rparr>
      in case ShroomWorldGetRoundStats world player_id of
           None \<Rightarrow> snapshot_player
         | Some stats \<Rightarrow> snapshot_player\<lparr>sp_round_spores := ucast (rs_spores_collected stats),
                          sp_round_kills := ucast (rs_kills stats)\<rparr>)"

definition effect_flags :: "ShroomPlayerState \<Rightarrow> u16" where
  "effect_flags player =
     (if f32_lt 0 (pl_speed_powerup_timer player) then SHROOM_POWERUP_EFFECT_SPEED else 0) OR
     (if f32_lt 0 (pl_shield_powerup_timer player) then SHROOM_POWERUP_EFFECT_SHIELD else 0) OR
     (if f32_lt 0 (pl_magnet_powerup_timer player) then SHROOM_POWERUP_EFFECT_MAGNET else 0) OR
     (if f32_lt 0 (pl_decay_immune_powerup_timer player) then SHROOM_POWERUP_EFFECT_DECAY_IMMUNE else 0)"

text \<open>The name is written with \<open>snprintf\<close> into a buffer of zeros.\<close>

definition snapshot_of :: "ShroomWorldState \<Rightarrow> ShroomPlayerState \<Rightarrow> ShroomSnapshotPlayerState" where
  "snapshot_of world player =
     (let snapshot = ShroomServerPopulateSnapshotRoundStats world (pl_player_id player)
            ((zero_player (pl_entity_id player))\<lparr>sp_player_id := pl_player_id player,
               sp_position_x := v2_x (pl_position player), sp_position_y := v2_y (pl_position player),
               sp_mass := pl_mass player, sp_radius := pl_radius player,
               sp_objective_score := ShroomWorldGetObjectiveScore world (pl_player_id player),
               sp_alive := 1, sp_is_bot := if pl_is_bot player then 1 else 0,
               sp_piece_index := pl_piece_index player, sp_life_generation := pl_life_generation player,
               sp_effect_flags := effect_flags player\<rparr>)
      in snapshot\<lparr>sp_name := fst (snprintf_s (sp_name snapshot) (pl_name player))\<rparr>)"

section \<open>The insertion sort\<close>

text \<open>The order by priority, distance, player, piece and entity, as a key of the library's sort.\<close>

definition candidate_key :: "SnapshotCandidate \<Rightarrow> u8 \<times> int \<times> u32 \<times> u8 \<times> u32" where
  "candidate_key c = (sc_priority c, f32_order (sc_distance_sqr c), sc_player_id c, sc_piece_index c, sc_entity_id c)"

lemma CompareCandidate_key:
  assumes "\<not> f32_is_nan (sc_distance_sqr l)" and "\<not> f32_is_nan (sc_distance_sqr r)"
  shows "CompareCandidate l r < 0 \<longleftrightarrow> candidate_key l < candidate_key r"
  by (auto simp: CompareCandidate_def candidate_key_def less_prod_def' f32_eq_iff [OF assms] f32_lt_iff [OF assms])

lemma sift_down_permutes: "mset (sift_down c xs) = add_mset c (mset xs)"
  by (induction xs) auto

lemma sift_down_sorted:
  assumes "sorted_wrt (\<lambda>x y. candidate_key y \<le> candidate_key x) xs"
    and "\<And>x. x \<in> set (c # xs) \<Longrightarrow> \<not> f32_is_nan (sc_distance_sqr x)"
  shows "sorted_wrt (\<lambda>x y. candidate_key y \<le> candidate_key x) (sift_down c xs)"
  using assms
proof (induction xs)
  case (Cons x xs)
  have "set (sift_down c xs) = insert c (set xs)" by (metis set_mset_add_mset_insert set_mset_mset sift_down_permutes)
  with Cons show ?case by (auto simp: CompareCandidate_key not_less intro: order.trans)
qed simp

lemma sift_down_stable:
  assumes "\<And>x. x \<in> set (c # xs) \<Longrightarrow> \<not> f32_is_nan (sc_distance_sqr x)"
  shows "filter (\<lambda>x. candidate_key x = k) (sift_down c xs) = filter (\<lambda>x. candidate_key x = k) (c # xs)"
  using assms
proof (induction xs)
  case (Cons x xs)
  have "filter (\<lambda>x. candidate_key x = k) (sift_down c xs) = filter (\<lambda>x. candidate_key x = k) (c # xs)"
    by (rule Cons.IH) (use Cons.prems in auto)
  moreover have "CompareCandidate c x < 0 \<longleftrightarrow> candidate_key c < candidate_key x"
    by (rule CompareCandidate_key) (use Cons.prems in simp_all)
  ultimately show ?case by auto
qed simp

text \<open>The insertion sort is the stable sort of the library.\<close>

lemma SortCandidates_sort_key:
  assumes "\<And>x. x \<in> set cs \<Longrightarrow> \<not> f32_is_nan (sc_distance_sqr x)"
  shows "SortCandidates cs = sort_key candidate_key cs"
proof -
  have "mset (fold sift_down cs acc) = mset cs + mset acc \<and>
      sorted_wrt (\<lambda>x y. candidate_key y \<le> candidate_key x) (fold sift_down cs acc) \<and>
      (\<forall>k. filter (\<lambda>x. candidate_key x = k) (fold sift_down cs acc) = filter (\<lambda>x. candidate_key x = k) (rev cs @ acc))"
    if "\<And>x. x \<in> set (cs @ acc) \<Longrightarrow> \<not> f32_is_nan (sc_distance_sqr x)"
      "sorted_wrt (\<lambda>x y. candidate_key y \<le> candidate_key x) acc" for acc
    using that
  proof (induction cs arbitrary: acc)
    case (Cons c cs)
    have "set (sift_down c acc) = insert c (set acc)" by (metis set_mset_add_mset_insert set_mset_mset sift_down_permutes)
    with Cons.prems have step: "mset (fold sift_down cs (sift_down c acc)) = mset cs + mset (sift_down c acc) \<and>
      sorted_wrt (\<lambda>x y. candidate_key y \<le> candidate_key x) (fold sift_down cs (sift_down c acc)) \<and>
      (\<forall>k. filter (\<lambda>x. candidate_key x = k) (fold sift_down cs (sift_down c acc)) =
        filter (\<lambda>x. candidate_key x = k) (rev cs @ sift_down c acc))"
      by (intro Cons.IH sift_down_sorted) auto
    have "filter (\<lambda>x. candidate_key x = k) (sift_down c acc) = filter (\<lambda>x. candidate_key x = k) (c # acc)" for k
      by (rule sift_down_stable) (use Cons.prems in auto)
    with step show ?case by (simp add: sift_down_permutes)
  qed simp
  from this [of "[]"] assms have *: "mset (fold sift_down cs []) = mset cs"
    "sorted_wrt (\<lambda>x y. candidate_key y \<le> candidate_key x) (fold sift_down cs [])"
    "\<And>k. filter (\<lambda>x. candidate_key x = k) (fold sift_down cs []) = filter (\<lambda>x. candidate_key x = k) (rev cs)"
    by (simp_all del: split_paired_All)
  show ?thesis
  proof (rule properties_for_sort_key [symmetric])
    show "mset (SortCandidates cs) = mset cs" using * by (simp add: SortCandidates_def)
    show "sorted (map candidate_key (SortCandidates cs))"
      using *(2) by (simp add: SortCandidates_def sorted_wrt_rev sorted_map)
    show "filter (\<lambda>x. candidate_key k = candidate_key x) (SortCandidates cs) = filter (\<lambda>x. candidate_key k = candidate_key x) cs" for k
    proof -
      have "filter (\<lambda>x. candidate_key x = candidate_key k) (SortCandidates cs) = filter (\<lambda>x. candidate_key x = candidate_key k) cs"
        unfolding SortCandidates_def rev_filter [symmetric] *(3) by (simp add: rev_filter)
      then show ?thesis by (metis (mono_tags, lifting) filter_cong)
    qed
  qed
qed

text \<open>C34.
  The players a client is shown are the ones of interest, in the order of the library's stable sort
  by priority, distance, player, piece and entity, cut off at the capacity of the caller.
\<close>

theorem snapshot_selection_sorted:
  assumes "\<And>c. c \<in> set (snapshot_candidates state world viewer focus spectator) \<Longrightarrow> \<not> f32_is_nan (sc_distance_sqr c)"
  shows "fst (ShroomSnapshotSelectPlayers state world viewer focus spectator capacity) =
    map sc_index (take capacity (sort_key candidate_key (snapshot_candidates state world viewer focus spectator)))"
  using SortCandidates_sort_key [OF assms] by (simp add: ShroomSnapshotSelectPlayers_def Let_def)

text \<open>Two players, the farther one the viewer's own: it comes first.\<close>

definition witness_shown :: ShroomWorldState where
  "witness_shown = zero_world\<lparr>ws_players := [
     empty_player\<lparr>pl_player_id := 7, pl_entity_id := 1, pl_mass := 0x42c80000, pl_alive := True\<rparr>,
     empty_player\<lparr>pl_player_id := 5, pl_entity_id := 2, pl_mass := 0x42c80000, pl_alive := True, pl_piece_index := 1,
       pl_position := \<lparr>v2_x = 0x41200000, v2_y = 0\<rparr>\<rparr>]\<rparr>"

lemma witness_candidates:
  "snapshot_candidates \<lparr>in_known_entity_ids = []\<rparr> witness_shown 5 0 False =
     [\<lparr>sc_index = 0, sc_priority = 3, sc_distance_sqr = 0, sc_player_id = 7, sc_piece_index = 0, sc_entity_id = 1\<rparr>,
      \<lparr>sc_index = 1, sc_priority = 0, sc_distance_sqr = 0x42c80000, sc_player_id = 5, sc_piece_index = 1, sc_entity_id = 2\<rparr>]"
  by code_simp

theorem snapshot_selection_sorted_witness:
  "fst (ShroomSnapshotSelectPlayers \<lparr>in_known_entity_ids = []\<rparr> witness_shown 5 0 False 2) = [1, 0]"
proof -
  let ?cs = "snapshot_candidates \<lparr>in_known_entity_ids = []\<rparr> witness_shown 5 0 False"
  have nan: "\<not> f32_is_nan 0" "\<not> f32_is_nan 0x42c80000" by code_simp+
  have "fst (ShroomSnapshotSelectPlayers \<lparr>in_known_entity_ids = []\<rparr> witness_shown 5 0 False 2) =
      map sc_index (take 2 (sort_key candidate_key ?cs))"
    by (rule snapshot_selection_sorted) (use nan in \<open>auto simp: witness_candidates\<close>)
  moreover have "sort_key candidate_key ?cs = rev ?cs"
    unfolding witness_candidates by (simp add: candidate_key_def)
  ultimately show ?thesis by (simp add: witness_candidates)
qed

end
