(* ===== verification/Server_State.thy ===== *)
theory Server_State
  imports Sim_Match Input_Admission Intermission Chat_Admission Chat_History Voice_Relay Snapshot_Scheduler
    Snapshot_Interest Server_Discovery
begin

text \<open>
  The state of the game server (\<open>src/src/server/main.c\<close>): lobbies, sessions, peers, and what its
  handlers send.  A session's \<open>player\<close> pointer is the index of the player in the world of the
  session's lobby.  The ENet host is the list of its peers, each with the slot of the static session
  array that belongs to it; \<open>pe_attached\<close> says whether \<open>peer->data\<close> points to that slot.  The
  fields that only serve log lines, the authentication token text and the persistence of
  match results are left out.
\<close>

definition SHROOM_MAX_LOBBIES :: nat where "SHROOM_MAX_LOBBIES = 8"
definition SHROOM_LOBBY_DEFAULT_COUNT :: nat where "SHROOM_LOBBY_DEFAULT_COUNT = 4"
definition SHROOM_LOBBY_MAX_NAME_LENGTH :: nat where "SHROOM_LOBBY_MAX_NAME_LENGTH = 32"
definition SHROOM_LOBBY_DYNAMIC_EMPTY_TIMEOUT_S :: u64 where "SHROOM_LOBBY_DYNAMIC_EMPTY_TIMEOUT_S = 120"
definition SHROOM_BOT_FLOOR :: u32 where "SHROOM_BOT_FLOOR = 4"
definition SHROOM_MAX_PLAYABLE_PARTICIPANTS :: u32 where
  "SHROOM_MAX_PLAYABLE_PARTICIPANTS = word_of_nat SHROOM_MAX_PARTICIPANTS"
definition SHROOM_BOT_TARGET_TOTAL :: u32 where "SHROOM_BOT_TARGET_TOTAL = 16"
definition SHROOM_BOT_REAL_PLAYER_WEIGHT :: u32 where "SHROOM_BOT_REAL_PLAYER_WEIGHT = 2"
definition SHROOM_CHAT_RATE_LIMIT_COUNT :: u32 where "SHROOM_CHAT_RATE_LIMIT_COUNT = 5"
definition SHROOM_CHAT_RATE_LIMIT_WINDOW_MS :: u64 where "SHROOM_CHAT_RATE_LIMIT_WINDOW_MS = 10000"
definition kBotAdjustIntervalMs :: u64 where "kBotAdjustIntervalMs = 3000"

record ServerSession =
  se_active :: bool
  se_authenticated :: bool
  se_handshake_received :: bool
  se_spectating :: bool
  se_is_ready :: bool
  se_entered_match :: bool
  se_lobby_id :: u32
  se_player_id :: u32
  se_user_id :: u32
  se_last_processed_input_sequence :: u32
  se_input_admission :: ShroomInputAdmission
  se_invalid_input_count :: u32
  se_chat_message_count :: u32
  se_chat_rate_limit_logged :: bool
  se_focused_entity_id :: u32
  se_chat_window_start_ms :: u64
  se_player :: "nat option"
  se_display_name :: "u8 list"
  se_world_replication :: ShroomWorldReplicationPeerState
  se_snapshot_interest :: ShroomSnapshotInterestState
  se_snapshot_history :: ShroomSnapshotHistory
  se_acknowledged_snapshot_tick :: u64

record ShroomLobby =
  lb_lobby_id :: u32
  lb_chat_history_identity :: u64
  lb_name :: "u8 list"
  lb_world :: ShroomWorldState
  lb_active :: bool
  lb_is_dynamic :: bool
  lb_chat_history :: ShroomServerChatHistory
  lb_empty_since_ms :: u64
  lb_last_bot_adjust_ms :: u64
  lb_intermission :: ShroomIntermissionState
  lb_last_intermission_second :: u16
  lb_next_round_id :: u32
  lb_snapshot_scheduler :: ShroomSnapshotScheduler

record server_peer =
  pe_connected :: bool
  pe_attached :: bool
  pe_session :: ServerSession

record server =
  sv_peers :: "server_peer list"
  sv_lobbies :: "ShroomLobby list"
  sv_voice_relay :: ShroomVoiceRelay
  sv_next_player_id :: u32
  sv_next_lobby_id :: u32
  sv_roster_generation :: u32
  sv_chat_message_epoch :: u32
  sv_chat_message_sequence :: u32
  sv_match_duration_seconds :: f32
  sv_snapshot_rate :: u16

section \<open>Zeroed records\<close>

definition zero_admission :: ShroomInputAdmission where
  "zero_admission = \<lparr>ia_initialized = False, ia_has_sequence = False, ia_last_sequence = 0, ia_last_refill_ms = 0,
     ia_token_milli = 0, ia_accepted_count = 0, ia_stale_count = 0, ia_rate_limited_count = 0\<rparr>"

definition zero_replication :: ShroomWorldReplicationPeerState where
  "zero_replication = \<lparr>rp_initialized = False, rp_last_keyframe_tick = 0,
     rp_spore_known = replicate SHROOM_MAX_SPORES False, rp_powerup_known = replicate SHROOM_MAX_POWERUPS False,
     rp_spores = replicate SHROOM_MAX_SPORES \<lparr>ss_entity_id = 0, ss_position_x = 0, ss_position_y = 0, ss_value = 0\<rparr>,
     rp_powerups = replicate SHROOM_MAX_POWERUPS \<lparr>sw_entity_id = 0, sw_position_x = 0, sw_position_y = 0, sw_type = 0, sw_active = 0\<rparr>\<rparr>"

definition zero_interest :: ShroomSnapshotInterestState where
  "zero_interest = \<lparr>in_known_entity_ids = replicate SHROOM_MAX_PLAYER_ENTITIES 0\<rparr>"

definition zero_history :: ShroomSnapshotHistory where
  "zero_history = \<lparr>hi_next = 0, hi_frames = replicate SHROOM_SNAPSHOT_HISTORY_SIZE \<lparr>fr_tick = 0, fr_players = []\<rparr>\<rparr>"

definition zero_session :: ServerSession where
  "zero_session = \<lparr>se_active = False, se_authenticated = False, se_handshake_received = False, se_spectating = False,
     se_is_ready = False, se_entered_match = False, se_lobby_id = 0, se_player_id = 0, se_user_id = 0,
     se_last_processed_input_sequence = 0, se_input_admission = zero_admission, se_invalid_input_count = 0,
     se_chat_message_count = 0, se_chat_rate_limit_logged = False, se_focused_entity_id = 0,
     se_chat_window_start_ms = 0, se_player = None, se_display_name = replicate SHROOM_MAX_NAME_LENGTH 0,
     se_world_replication = zero_replication, se_snapshot_interest = zero_interest,
     se_snapshot_history = zero_history, se_acknowledged_snapshot_tick = 0\<rparr>"

definition zero_chat_history :: ShroomServerChatHistory where
  "zero_chat_history = \<lparr>ch_identity = 0, ch_byte_count = 0, ch_messages = [], ch_dirty = False, ch_last_flush_ms = 0\<rparr>"

definition zero_scheduler :: ShroomSnapshotScheduler where
  "zero_scheduler = \<lparr>sch_tick_rate = 0, sch_snapshot_rate = 0, sch_phase = 0, sch_tick_count = 0, sch_emission_count = 0\<rparr>"

definition zero_lobby :: ShroomLobby where
  "zero_lobby = \<lparr>lb_lobby_id = 0, lb_chat_history_identity = 0, lb_name = replicate SHROOM_LOBBY_MAX_NAME_LENGTH 0,
     lb_world = zero_world, lb_active = False, lb_is_dynamic = False, lb_chat_history = zero_chat_history,
     lb_empty_since_ms = 0, lb_last_bot_adjust_ms = 0, lb_intermission = zero_intermission,
     lb_last_intermission_second = 0, lb_next_round_id = 0, lb_snapshot_scheduler = zero_scheduler\<rparr>"

section \<open>What is sent\<close>

record ShroomLobbyEntry =
  le_lobby_id :: u32
  le_name :: "u8 list"
  le_player_count :: u16
  le_bot_count :: u16
  le_max_players :: u16
  le_spectator_count :: u16
  le_is_dynamic :: u8
  le_game_mode :: u8

record ShroomLobbyJoinedPacket =
  lj_lobby_id :: u32
  lj_chat_history_identity :: u64
  lj_player_id :: u32
  lj_entity_id :: u32
  lj_spectating :: u8
  lj_game_mode :: u8
  lj_lobby_name :: "u8 list"
  lj_server_tick_rate :: u16
  lj_snapshot_rate :: u16
  lj_max_players :: u16
  lj_world_width :: f32
  lj_world_height :: f32

record ShroomLobbyRosterEntry =
  re_player_id :: u32
  re_is_spectator :: u8
  re_is_ready :: u8
  re_entered_match :: u8

record ShroomLobbyRosterPacket =
  ro_lobby_id :: u32
  ro_generation :: u32
  ro_total_player_count :: u16
  ro_chunk_index :: u16
  ro_chunk_count :: u16
  ro_match_started :: u8
  ro_players :: "ShroomLobbyRosterEntry list"

record ShroomIntermissionStatusPacket =
  im_round_id :: u32
  im_seconds_remaining :: f32
  im_eligible_count :: u16
  im_play_again_votes :: u16
  im_return_to_lobby_votes :: u16
  im_spectate_votes :: u16
  im_resolved :: u8
  im_decision :: u8
  im_your_vote :: u8
  im_can_vote :: u8

record ShroomChatPacket =
  cp_sender_id :: u32
  cp_message_id :: u64
  cp_timestamp_sec :: u32
  cp_sender_name :: "u8 list"
  cp_message :: "u8 list"

record ShroomMushroomSpeciesEntry =
  sp_species_id :: u8
  sp_pattern_id :: u8
  sp_rarity_tier :: u8
  sp_cap_color_rgba :: u32
  sp_name :: "u8 list"
  sp_description :: "u8 list"

datatype server_message =
    Welcome u32 u16 u16 \<comment> \<open>protocol version, tick rate, snapshot rate\<close>
  | Species_Catalog "ShroomMushroomSpeciesEntry list"
  | Auth_Response u8 u32 "u8 list" "u8 list" \<comment> \<open>result, player, token, message\<close>
  | Pong u32
  | Probe_Response ShroomServerProbeResponsePacket
  | Lobby_List "ShroomLobbyEntry list"
  | Lobby_Joined ShroomLobbyJoinedPacket
  | Lobby_Created u32 "u8 list"
  | Lobby_Roster ShroomLobbyRosterPacket
  | Intermission_Status ShroomIntermissionStatusPacket
  | Chat ShroomChatPacket
  | Voice_Frame ShroomVoiceFramePacket
  | Snapshot ShroomSnapshotPacket
  | World_State ShroomWorldStatePacket
  | Disconnect \<comment> \<open>\<open>enet_peer_disconnect\<close>\<close>

type_synonym sends = "(nat \<times> server_message) list"

section \<open>Access\<close>

abbreviation peer_at :: "server \<Rightarrow> nat \<Rightarrow> server_peer" where
  "peer_at sv i \<equiv> sv_peers sv ! i"

abbreviation session_at :: "server \<Rightarrow> nat \<Rightarrow> ServerSession" where
  "session_at sv i \<equiv> pe_session (sv_peers sv ! i)"

abbreviation lobby_at :: "server \<Rightarrow> nat \<Rightarrow> ShroomLobby" where
  "lobby_at sv l \<equiv> sv_lobbies sv ! l"

definition upd_session :: "server \<Rightarrow> nat \<Rightarrow> (ServerSession \<Rightarrow> ServerSession) \<Rightarrow> server" where
  "upd_session sv i f = sv\<lparr>sv_peers := (sv_peers sv)[i := (peer_at sv i)\<lparr>pe_session := f (session_at sv i)\<rparr>]\<rparr>"

definition upd_lobby :: "server \<Rightarrow> nat \<Rightarrow> (ShroomLobby \<Rightarrow> ShroomLobby) \<Rightarrow> server" where
  "upd_lobby sv l f = sv\<lparr>sv_lobbies := (sv_lobbies sv)[l := f (lobby_at sv l)]\<rparr>"

abbreviation upd_world :: "(ShroomWorldState \<Rightarrow> ShroomWorldState) \<Rightarrow> ShroomLobby \<Rightarrow> ShroomLobby" where
  "upd_world f lobby \<equiv> lobby\<lparr>lb_world := f (lb_world lobby)\<rparr>"

text \<open>The peers with an active session in a lobby, whether connected or not, and the connected ones.\<close>

definition in_lobby :: "u32 \<Rightarrow> server_peer \<Rightarrow> bool" where
  "in_lobby lobby_id peer \<longleftrightarrow>
     pe_attached peer \<and> se_active (pe_session peer) \<and> se_lobby_id (pe_session peer) = lobby_id"

definition members :: "server_peer list \<Rightarrow> u32 \<Rightarrow> nat list" where
  "members peers lobby_id = filter (\<lambda>i. pe_connected (peers ! i) \<and> in_lobby lobby_id (peers ! i)) [0..<length peers]"

end
