(* ===== verification/Server_Input.thy ===== *)
theory Server_Input
  imports Server_State
begin

text \<open>
  How the input packets of a client reach the world (\<open>src/src/server/main.c\<close>): \<open>HandlePacket\<close> for
  packets of type \<open>SHROOM_PACKET_INPUT\<close>, \<open>HandleInputPacket\<close> and \<open>AdjustSessionAiControl\<close>, over
  the session record of \<open>Server_State\<close>.  The world is that of the session's lobby, which exists.
  Telemetry and log lines are left out.
\<close>

record ShroomInputPacket =
  ip_sequence :: u32
  ip_direction_x :: f32
  ip_direction_y :: f32
  ip_split_direction_x :: f32
  ip_split_direction_y :: f32
  ip_split_requested :: u8
  ip_eject_requested :: u8
  ip_reserved :: "u8 list"
  ip_focused_entity_id :: u32

definition NormalizeInput :: "ShroomVec2 \<Rightarrow> ShroomVec2" where
  "NormalizeInput input =
     (let length_sqr = ShroomVec2LengthSqr input
      in if f32_le length_sqr 0x38d1b717 then zero_vec2
         else ShroomVec2Scale input (f32_div 0x3f800000 (f32_sqrt length_sqr)))"

definition IsInputVectorValid :: "f32 \<Rightarrow> f32 \<Rightarrow> bool" where
  "IsInputVectorValid x y =
     (let length_sqr = f32_add (f32_mul x x) (f32_mul y y)
      in f32_finite x \<and> f32_finite y \<and> f32_finite length_sqr \<and> f32_le length_sqr 0x40800000)"

definition IsInputPacketValid :: "ShroomInputPacket \<Rightarrow> bool" where
  "IsInputPacketValid packet \<longleftrightarrow>
     IsInputVectorValid (ip_direction_x packet) (ip_direction_y packet) \<and>
     IsInputVectorValid (ip_split_direction_x packet) (ip_split_direction_y packet) \<and>
     ip_reserved packet ! 0 = 0 \<and> ip_reserved packet ! 1 = 0 \<and>
     ip_split_requested packet \<le> 1 \<and> ip_eject_requested packet \<le> 1"

text \<open>The piece the client steers: the one in focus if it is a live piece of its player, or the primary one.\<close>

definition target_piece :: "ServerSession \<Rightarrow> nat \<Rightarrow> u32 \<Rightarrow> ShroomWorldState \<Rightarrow> nat" where
  "target_piece session player focused_entity_id world =
     (if focused_entity_id = 0 then player
      else case find_index (\<lambda>p. pl_alive p \<and> pl_player_id p = se_player_id session \<and> pl_entity_id p = focused_entity_id)
                  (ws_players world) of
             Some i \<Rightarrow> i | None \<Rightarrow> player)"

definition HandleInputPacket ::
  "ServerSession \<Rightarrow> ShroomInputPacket \<Rightarrow> ShroomWorldState \<Rightarrow> ServerSession \<times> ShroomWorldState" where
  "HandleInputPacket session packet world =
     (if \<not> se_active session \<or> se_spectating session \<or> \<not> se_entered_match session then (session, world)
      else case se_player session of
        None \<Rightarrow> (session, world)
      | Some player \<Rightarrow>
          let session = session\<lparr>se_last_processed_input_sequence := ip_sequence packet\<rparr>;
              i = target_piece session player (ip_focused_entity_id packet) world;
              focused = pl_entity_id (player_at world i);
              session = session\<lparr>se_focused_entity_id := focused\<rparr>;
              world = upd_player world i (\<lambda>p. ShroomPlayerSetInput p
                (NormalizeInput \<lparr>v2_x = ip_direction_x packet, v2_y = ip_direction_y packet\<rparr>));
              world = world\<lparr>ws_players := map (\<lambda>p. if pl_alive p \<and> pl_player_id p = se_player_id session
                then p\<lparr>pl_ai_controlled := pl_is_bot p \<and> pl_entity_id p \<noteq> focused\<rparr> else p) (ws_players world)\<rparr>;
              aim = NormalizeInput \<lparr>v2_x = ip_split_direction_x packet, v2_y = ip_split_direction_y packet\<rparr>;
              world = (if ip_split_requested packet \<noteq> 0 then snd (ShroomWorldSplitPlayerToward world i aim) else world);
              world = (if ip_eject_requested packet \<noteq> 0 then snd (ShroomWorldEjectMass world i aim) else world)
          in (session, world))"

datatype input_outcome =
    Input_dropped
  | Input_invalid bool \<comment> \<open>whether the peer is disconnected\<close>
  | Input_refused ShroomInputAdmissionResult
  | Input_handled

definition ReceiveInput ::
  "ServerSession \<Rightarrow> ShroomInputPacket \<Rightarrow> u64 \<Rightarrow> ShroomWorldState \<Rightarrow> input_outcome \<times> ServerSession \<times> ShroomWorldState" where
  "ReceiveInput session packet now_ms world =
     (if \<not> se_active session \<or> se_spectating session \<or> \<not> se_entered_match session \<or> se_player session = None
      then (Input_dropped, session, world)
      else if \<not> IsInputPacketValid packet then
        let session = session\<lparr>se_invalid_input_count := se_invalid_input_count session + 1\<rparr>
        in (Input_invalid (3 \<le> se_invalid_input_count session), session, world)
      else
        let (admission, result) = ShroomInputAdmissionCheck (Some (se_input_admission session)) (ip_sequence packet) now_ms;
            session = session\<lparr>se_input_admission := the admission\<rparr>
        in if result \<noteq> SHROOM_INPUT_ADMITTED then (Input_refused result, session, world)
           else (Input_handled, HandleInputPacket session packet world))"

definition AdjustSessionAiControl :: "ServerSession \<Rightarrow> ShroomWorldState \<Rightarrow> ServerSession \<times> ShroomWorldState" where
  "AdjustSessionAiControl session world =
     (if \<not> se_active session \<or> se_player session = None then (session, world)
      else if se_focused_entity_id session = 0 then (session, world)
      else if list_ex (\<lambda>p. pl_alive p \<and> pl_entity_id p = se_focused_entity_id session) (ws_players world) then (session, world)
      else (session\<lparr>se_focused_entity_id := 0\<rparr>,
            world\<lparr>ws_players := map (\<lambda>p. if pl_alive p \<and> pl_player_id p = se_player_id session
              then p\<lparr>pl_ai_controlled := False\<rparr> else p) (ws_players world)\<rparr>))"

end
