(* ===== verification/Sim_Sound.thy ===== *)
theory Sim_Sound
  imports Sim_Match
begin

text \<open>
  When a world is sound: its arrays have their sizes and their counts stay inside them, every mass,
  position and direction is a finite float in its range, no player has two entries in the tables of
  scores and statistics, and the random generator is not stuck at zero.  The ranges are shown to be
  kept by the computations of \<open>Sim_Math\<close> and \<open>Sim_Spawn\<close>.
\<close>

definition mass_ok :: "f32 \<Rightarrow> bool" where
  "mass_ok m \<longleftrightarrow> f32_within 0 SHROOM_MAX_PLAYER_MASS m"

text \<open>Ten units of the border stay free of the centres of players.\<close>

definition position_ok :: "ShroomVec2 \<Rightarrow> bool" where
  "position_ok v \<longleftrightarrow> f32_within 0x41200000 0x45bb3000 (v2_x v) \<and> f32_within 0x41200000 0x45bb3000 (v2_y v)"

definition in_arena :: "ShroomVec2 \<Rightarrow> bool" where
  "in_arena v \<longleftrightarrow> f32_within 0 SHROOM_WORLD_WIDTH (v2_x v) \<and> f32_within 0 SHROOM_WORLD_HEIGHT (v2_y v)"

definition vec_within :: "f32 \<Rightarrow> ShroomVec2 \<Rightarrow> bool" where
  "vec_within b v \<longleftrightarrow> f32_within (f32_uminus b) b (v2_x v) \<and> f32_within (f32_uminus b) b (v2_y v)"

text \<open>Directions stay within 2, split velocities within 440.\<close>

definition player_ok :: "ShroomPlayerState \<Rightarrow> bool" where
  "player_ok p \<longleftrightarrow> mass_ok (pl_mass p) \<and> f32_within 0 0x438b8000 (pl_radius p) \<and>
     (pl_alive p \<longrightarrow> position_ok (pl_position p)) \<and> in_arena (pl_position p) \<and>
     vec_within 0x40000000 (pl_input_direction p) \<and> vec_within 0x43dc0000 (pl_split_velocity p) \<and>
     f32_within 0 0x3f800000 (pl_decay_spore_accumulator p)"

definition ids_ok :: "u32 list \<Rightarrow> bool" where
  "ids_ok ids \<longleftrightarrow> length ids = SHROOM_MAX_PARTICIPANTS \<and> distinct (filter (\<lambda>i. i \<noteq> 0) ids)"

definition world_ok :: "ShroomWorldState \<Rightarrow> bool" where
  "world_ok w \<longleftrightarrow>
     ws_width w = SHROOM_WORLD_WIDTH \<and> ws_height w = SHROOM_WORLD_HEIGHT \<and> ws_random_state w \<noteq> 0 \<and>
     length (ws_players w) \<le> SHROOM_MAX_PLAYER_ENTITIES \<and> list_all player_ok (ws_players w) \<and>
     length (ws_spores w) = SHROOM_MAX_SPORES \<and> ws_spore_count w \<le> SHROOM_MAX_SPORES \<and>
     list_all (\<lambda>s. in_arena (spo_position s)) (ws_spores w) \<and>
     length (ws_powerups w) = SHROOM_MAX_POWERUPS \<and> ws_powerup_count w \<le> SHROOM_MAX_POWERUPS \<and>
     list_all (\<lambda>s. in_arena (pow_position s)) (ws_powerups w) \<and>
     length (ws_podium_player_ids w) = SHROOM_MATCH_PODIUM_COUNT \<and> length (ws_podium_masses w) = SHROOM_MATCH_PODIUM_COUNT \<and>
     ids_ok (ws_objective_player_ids w) \<and> length (ws_objective_scores w) = SHROOM_MAX_PARTICIPANTS \<and>
     ids_ok (map rss_player_id (ws_round_stats w))"

text \<open>
  What every part of a tick leaves alone: the clocks and the phase of the match and the podium; and
  no player slot goes away.
\<close>

definition same_match :: "ShroomWorldState \<Rightarrow> ShroomWorldState \<Rightarrow> bool" where
  "same_match w w' \<longleftrightarrow>
     ws_tick w' = ws_tick w \<and> ws_match_phase w' = ws_match_phase w \<and>
     ws_match_time_remaining w' = ws_match_time_remaining w \<and>
     ws_match_duration_seconds w' = ws_match_duration_seconds w \<and>
     ws_match_results_time_remaining w' = ws_match_results_time_remaining w \<and>
     ws_game_mode w' = ws_game_mode w \<and> ws_podium_player_ids w' = ws_podium_player_ids w \<and>
     ws_podium_masses w' = ws_podium_masses w \<and> length (ws_players w) \<le> length (ws_players w')"

definition sound_step :: "ShroomWorldState \<Rightarrow> ShroomWorldState \<Rightarrow> bool" where
  "sound_step w w' \<longleftrightarrow> (world_ok w \<longrightarrow> world_ok w') \<and> same_match w w'"

lemma sound_step_refl [simp]: "sound_step w w"
  by (simp add: sound_step_def same_match_def)

lemma sound_step_trans: "sound_step w w' \<Longrightarrow> sound_step w' w'' \<Longrightarrow> sound_step w w''"
  by (auto simp: sound_step_def same_match_def)

lemma sound_step_ok: "sound_step w w' \<Longrightarrow> world_ok w \<Longrightarrow> world_ok w'"
  by (simp add: sound_step_def)

lemma sound_step_length: "sound_step w w' \<Longrightarrow> i < length (ws_players w) \<Longrightarrow> i < length (ws_players w')"
  by (simp add: sound_step_def same_match_def)

text \<open>Loops over the players and over the spores.\<close>

lemma sound_step_fold:
  assumes "\<And>x w'. x \<in> set xs \<Longrightarrow> sound_step w w' \<Longrightarrow> world_ok w' \<Longrightarrow> sound_step w' (f x w')" and "world_ok w"
  shows "sound_step w (fold f xs w)"
proof -
  have "sound_step w (fold f xs w')" if "sound_step w w'" for w'
    using assms that
  proof (induction xs arbitrary: w')
    case (Cons x xs)
    have "sound_step w' (f x w')" using Cons.prems by (auto intro: sound_step_ok)
    then have "sound_step w (f x w')" by (rule sound_step_trans [OF Cons.prems(3)])
    then show ?case using Cons by simp
  qed simp
  then show ?thesis by simp
qed

section \<open>Ranges of the basic computations\<close>

lemma clamp_within:
  assumes "\<not> f32_is_nan v" and "f32_finite lo" and "f32_finite hi" and "f32_order lo \<le> f32_order hi"
  shows "f32_within lo hi (ShroomClamp v lo hi)"
proof -
  have nan: "\<not> f32_is_nan lo" "\<not> f32_is_nan hi" using assms by simp_all
  show ?thesis
  proof (rule withinI [OF assms(2,3)])
    show "f32_order lo \<le> f32_order (ShroomClamp v lo hi)" "f32_order (ShroomClamp v lo hi) \<le> f32_order hi"
      using assms nan by (auto simp: ShroomClamp_def f32_lt_iff)
  qed
qed

lemma within_finite: "f32_within lo hi a \<Longrightarrow> f32_finite a"
  by (simp add: f32_within_def)

lemma within_not_nan: "f32_within lo hi a \<Longrightarrow> \<not> f32_is_nan a"
  by (simp add: f32_within_def)

lemma within_const: "f32_finite c \<Longrightarrow> f32_order lo \<le> f32_order c \<Longrightarrow> f32_order c \<le> f32_order hi \<Longrightarrow> f32_within lo hi c"
  by (simp add: f32_within_def)

lemma mass_clamp: "\<not> f32_is_nan m \<Longrightarrow> mass_ok (ShroomClamp m 0 SHROOM_MAX_PLAYER_MASS)"
  unfolding mass_ok_def by (rule clamp_within, assumption) code_simp+

lemma radius_within:
  assumes "mass_ok m"
  shows "f32_within 0x41200000 0x438b8000 (ShroomMassToRadius m)"
proof -
  have m: "f32_within 0 SHROOM_MAX_PLAYER_MASS m" using assms by (simp add: mass_ok_def)
  have k: "f32_within 0x3e0f5c29 0x3e0f5c29 0x3e0f5c29" "f32_within 0x41200000 0x41200000 0x41200000"
    by code_simp+
  have "f32_within 0 0x43868000 (f32_mul m 0x3e0f5c29)" by (rule within_mul_nonneg [OF m k(1)]) code_simp+
  then show ?thesis unfolding ShroomMassToRadius_def by (rule within_add [OF k(2)]) code_simp+
qed

lemma vec_within_zero: "0 \<le> f32_order b \<Longrightarrow> vec_within b zero_vec2"
proof -
  assume b: "0 \<le> f32_order b"
  have z: "f32_finite 0" "f32_order 0 = 0" by code_simp+
  with b show ?thesis by (simp add: vec_within_def zero_vec2_def f32_within_def f32_uminus_simps)
qed

section \<open>Unit vectors\<close>

text \<open>The powers of two, by their exponents in units of \<open>2 ^ -149\<close>.\<close>

definition pow_unit :: "nat \<Rightarrow> f32" where
  "pow_unit e = word_of_int (int (e - 22) * 0x800000)"

lemma pow_unit:
  assumes "23 \<le> e" and "e \<le> 276"
  shows "f32_finite (pow_unit e)" "f32_units (pow_unit e) = 2 ^ e"
proof -
  have le: "int (e - 22) \<le> 254" "1 \<le> int (e - 22)" using assms by linarith+
  have m: "f32_with_sign False (int (e - 22) * 0x800000) = pow_unit e" by (simp add: f32_with_sign_def pow_unit_def)
  have "f32_magnitude (pow_unit e) = int (e - 22) * 0x800000" "\<not> f32_neg (pow_unit e)"
    using f32_with_sign [of "int (e - 22) * 0x800000" False] le unfolding m by simp_all
  note mag = this
  from mag(1) le show "f32_finite (pow_unit e)" by (simp add: f32_finite_def)
  have ex: "f32_exponent (pow_unit e) = e - 22" "f32_fraction (pow_unit e) = 0"
    unfolding f32_exponent_def f32_fraction_def mag(1) by simp_all
  have "e = 23 + (e - 22 - 1)" using assms(1) by simp
  then have "(2 :: int) ^ e = 2 ^ 23 * 2 ^ (e - 22 - 1)" by (metis power_add)
  moreover have "e - 22 \<noteq> 0" using assms(1) by simp
  ultimately show "f32_units (pow_unit e) = 2 ^ e"
    unfolding f32_units_def Let_def ex using mag(2) by simp
qed

lemma abs_units: "f32_finite a \<Longrightarrow> \<bar>f32_units a\<bar> \<le> f32_units b \<Longrightarrow> f32_within (f32_uminus b) b a"
  unfolding f32_within_def units_mono_iff [symmetric] by (simp add: f32_uminus_simps abs_le_iff)

lemma within_abs: "f32_within (f32_uminus b) b a \<Longrightarrow> \<bar>f32_units a\<bar> \<le> f32_units b"
  using withinD(2,3) [of "f32_uminus b" b a] by (simp add: f32_uminus_simps abs_le_iff)

text \<open>A component times the inverse length, when the square of the length is known from below.\<close>

lemma scaled_component:
  assumes x: "f32_finite x" "\<bar>f32_units x\<bar> < 2 ^ Suc j"
    and l: "f32_within (pow_unit (2 * j - 149)) 0x54000000 l" and j: "142 \<le> j" "j \<le> 200"
  shows "f32_within 0xc0000000 0x40000000 (f32_mul x (f32_div 0x3f800000 (f32_sqrt l)))"
proof -
  have e: "23 \<le> 2 * j - 149" "2 * j - 149 \<le> 276" "23 \<le> j" "j \<le> 276" "23 \<le> 298 - j" "298 - j \<le> 276"
    using j by linarith+
  note p2 = pow_unit [OF e(1,2)] and pj = pow_unit [OF e(3,4)] and pi = pow_unit [OF e(5,6)]
  have "2 * j - 149 + 149 = j + j" using j by simp
  then have jj: "(2 :: int) ^ j * 2 ^ j = 2 ^ (2 * j - 149) * 2 ^ 149" by (simp only: power_add [symmetric])
  have h: "f32_finite 0x50000000" "0 \<le> f32_units 0x50000000"
    "f32_units 0x54000000 * 2 ^ 149 \<le> f32_units 0x50000000 * f32_units 0x50000000"
    by code_simp+
  have root: "f32_within (pow_unit j) 0x50000000 (f32_sqrt l)"
    by (rule within_sqrt [OF l _ pj(1) h(1) _ h(2) _ h(3)]) (simp_all add: p2 pj jj)
  have "298 - j + j = 298" using j by simp
  then have inv: "(2 :: int) ^ (298 - j) * 2 ^ j = 2 ^ 298" by (simp only: power_add [symmetric])
  have one: "f32_within 0x3f800000 0x3f800000 0x3f800000" "f32_units 0x3f800000 = 2 ^ 149" by code_simp+
  have z: "f32_finite 0" "f32_units 0 = 0" by code_simp+
  have q: "f32_within 0 (pow_unit (298 - j)) (f32_div 0x3f800000 (f32_sqrt l))"
    by (rule within_div [OF one(1) root]) (simp_all add: one(2) pj pi z inv)
  then have q: "f32_finite (f32_div 0x3f800000 (f32_sqrt l))" "0 \<le> f32_units (f32_div 0x3f800000 (f32_sqrt l))"
    "f32_units (f32_div 0x3f800000 (f32_sqrt l)) \<le> 2 ^ (298 - j)"
    by (simp_all add: withinD(1) withinD(2) [of 0, unfolded z] withinD(3) [of _ "pow_unit (298 - j)", unfolded pi])
  let ?q = "f32_units (f32_div 0x3f800000 (f32_sqrt l))"
  have two: "f32_finite 0xc0000000" "f32_finite 0x40000000" "f32_units 0xc0000000 = - (2 ^ 150)" "f32_units 0x40000000 = 2 ^ 150"
    by code_simp+
  have "\<bar>f32_units x * ?q\<bar> \<le> 2 ^ Suc j * 2 ^ (298 - j)"
    unfolding abs_mult using x(2) q(2,3) by (intro mult_mono) simp_all
  also have "\<dots> = 2 ^ 150 * 2 ^ 149" using inv by (simp add: mult.commute)
  finally show ?thesis
    by (intro within_rounded [OF f32_mul_rounded [OF x(1) q(1)] two(1,2)]) (simp_all add: two(3,4) abs_le_iff)
qed

text \<open>A component whose square is at most the square of the length.\<close>

lemma normalized_component:
  assumes x: "f32_within (f32_uminus 0x49800000) 0x49800000 x" and l: "f32_within 0x38d1b717 0x54000000 l"
    and sq: "f32_units (f32_mul x x) \<le> f32_units l"
  shows "f32_within 0xc0000000 0x40000000 (f32_mul x (f32_div 0x3f800000 (f32_sqrt l)))"
proof (cases "\<bar>f32_units x\<bar> < 2 ^ Suc 142")
  case True
  have "f32_within (pow_unit (2 * 142 - 149)) 0x54000000 l" by (rule within_weaken [OF l]) code_simp+
  with x True show ?thesis by (intro scaled_component [where j = 142]) (simp_all add: within_finite)
next
  case False
  define u j where "u = \<bar>f32_units x\<bar>" and "j = digits u - 1"
  have "f32_units 0x49800000 = 2 ^ 169" by code_simp
  then have u: "2 ^ 143 \<le> u" "u \<le> 2 ^ 169" using False within_abs [OF x] by (simp_all add: u_def)
  then have "0 < u" by simp
  have "(2 :: int) ^ 143 < 2 ^ digits u" by (rule le_less_trans [OF u(1)]) (simp add: digits_bounds \<open>0 < u\<close>)
  then have d: "143 < digits u" by (rule power_less_imp_less_exp [rotated]) simp
  have "digits u \<le> 170" using u by (intro digits_less) simp
  with d have j: "142 \<le> j" "j \<le> 200" "Suc j = digits u" by (simp_all add: j_def)
  have b: "2 ^ j \<le> u" "u < 2 ^ Suc j" using digits_bounds [OF \<open>0 < u\<close>] j(3) by (simp_all add: j_def)
  have e: "23 \<le> 2 * j - 149" "2 * j - 149 \<le> 276" using u j \<open>digits u \<le> 170\<close> by linarith+
  have "2 * j - 149 + 149 = j + j" using j by simp
  then have "(2 :: int) ^ (2 * j - 149) * 2 ^ 149 = 2 ^ j * 2 ^ j" by (simp only: power_add [symmetric])
  also have "\<dots> \<le> u * u" using b(1) \<open>0 < u\<close> by (intro mult_mono) simp_all
  also have "\<dots> = f32_units x * f32_units x" by (simp add: u_def abs_mult_self_eq)
  finally have "f32_order (pow_unit (2 * j - 149)) \<le> f32_order (f32_mul x x)"
    using x by (intro rounded_ge [OF f32_mul_rounded]) (simp_all add: within_finite pow_unit [OF e])
  then have "f32_units (pow_unit (2 * j - 149)) \<le> f32_units l" using sq unfolding units_mono_iff [symmetric] by linarith
  with l have "f32_within (pow_unit (2 * j - 149)) 0x54000000 l" by (simp add: f32_within_def units_mono_iff)
  with x b(2) j show ?thesis by (intro scaled_component) (simp_all add: within_finite u_def)
qed

lemma square_within: "f32_within (f32_uminus 0x49800000) 0x49800000 x \<Longrightarrow> f32_within 0 0x53800000 (f32_mul x x)"
proof (rule within_rounded [OF f32_mul_rounded])
  assume x: "f32_within (f32_uminus 0x49800000) 0x49800000 x"
  then show "f32_finite x" "f32_finite x" by (simp_all add: within_finite)
  show "f32_finite 0" "f32_finite 0x53800000" by code_simp+
  have z: "f32_units 0 = 0" "f32_units 0x53800000 * 2 ^ 149 = f32_units 0x49800000 * f32_units 0x49800000" by code_simp+
  show "f32_units 0 * 2 ^ 149 \<le> f32_units x * f32_units x" unfolding z(1) by simp
  have "f32_units x * f32_units x = \<bar>f32_units x\<bar> * \<bar>f32_units x\<bar>" by (simp add: abs_mult_self_eq)
  also have "\<dots> \<le> f32_units 0x49800000 * f32_units 0x49800000" using within_abs [OF x] by (intro mult_mono) simp_all
  finally show "f32_units x * f32_units x \<le> f32_units 0x53800000 * 2 ^ 149" unfolding z(2) .
qed

lemma add_nonneg_le:
  assumes "f32_finite a" and "f32_finite b"
  shows "0 \<le> f32_units b \<Longrightarrow> f32_units a \<le> f32_units (f32_add a b)"
    and "0 \<le> f32_units a \<Longrightarrow> f32_units b \<le> f32_units (f32_add a b)"
  unfolding units_mono_iff using assms by (auto intro!: rounded_ge [OF f32_add_rounded])

lemma length_sqr_within:
  assumes "vec_within 0x49800000 v"
  shows "f32_within 0 0x54000000 (ShroomVec2LengthSqr v)"
    and "f32_units (f32_mul (v2_x v) (v2_x v)) \<le> f32_units (ShroomVec2LengthSqr v)"
    and "f32_units (f32_mul (v2_y v) (v2_y v)) \<le> f32_units (ShroomVec2LengthSqr v)"
proof -
  have x: "f32_within 0 0x53800000 (f32_mul (v2_x v) (v2_x v))" and y: "f32_within 0 0x53800000 (f32_mul (v2_y v) (v2_y v))"
    using assms by (simp_all add: vec_within_def square_within)
  show "f32_within 0 0x54000000 (ShroomVec2LengthSqr v)"
    unfolding ShroomVec2LengthSqr_def by (rule within_add [OF x y]) code_simp+
  have "f32_units 0 = 0" by code_simp
  with x y have "0 \<le> f32_units (f32_mul (v2_x v) (v2_x v))" "0 \<le> f32_units (f32_mul (v2_y v) (v2_y v))"
    by (metis withinD(2))+
  then show "f32_units (f32_mul (v2_x v) (v2_x v)) \<le> f32_units (ShroomVec2LengthSqr v)"
    and "f32_units (f32_mul (v2_y v) (v2_y v)) \<le> f32_units (ShroomVec2LengthSqr v)"
    using add_nonneg_le [OF within_finite [OF x] within_finite [OF y]] by (simp_all add: ShroomVec2LengthSqr_def)
qed

lemma not_le_within:
  assumes "f32_within lo hi a" and "\<not> f32_le a c" and "f32_finite c"
  shows "f32_within c hi a"
  using assms by (simp add: f32_within_def f32_le_iff)

lemma not_lt_within:
  assumes "f32_within lo hi a" and "\<not> f32_lt a c" and "f32_finite c"
  shows "f32_within c hi a"
  using assms by (simp add: f32_within_def f32_lt_iff)

lemma normalized_within:
  assumes "vec_within 0x49800000 v"
  shows "vec_within 0x40000000 (ShroomNormalizeOrZero v)"
proof (cases "f32_le (ShroomVec2LengthSqr v) 0x38d1b717")
  case True
  have "0 \<le> f32_order 0x40000000" by code_simp
  then show ?thesis using True by (simp add: ShroomNormalizeOrZero_def Let_def vec_within_zero)
next
  case False
  note l = length_sqr_within [OF assms]
  have "f32_finite 0x38d1b717" by code_simp
  then have "f32_within 0x38d1b717 0x54000000 (ShroomVec2LengthSqr v)" by (rule not_le_within [OF l(1) False])
  note c = normalized_component [OF _ this]
  have two: "f32_uminus 0x40000000 = 0xc0000000" by code_simp
  from assms False show ?thesis
    by (simp add: ShroomNormalizeOrZero_def Let_def vec_within_def two ShroomVec2Scale_def c l(2,3))
qed

section \<open>The random generator\<close>

lemma xor_push_bit_zero:
  assumes "0 < k" and "x XOR push_bit k x = (0 :: 'a :: len word)"
  shows "x = 0"
proof (rule bit_word_eqI)
  fix n assume "n < LENGTH('a)"
  show "bit x n = bit (0 :: 'a word) n"
    using \<open>n < LENGTH('a)\<close>
  proof (induction n rule: less_induct)
    case (less n)
    have "\<not> bit (x XOR push_bit k x) n" using assms(2) by simp
    then have "bit x n = bit (push_bit k x) n" by (simp add: bit_xor_iff)
    also have "\<dots> \<longleftrightarrow> k \<le> n \<and> bit x (n - k)" using less.prems by (simp add: bit_push_bit_iff)
    also have "\<dots> \<longleftrightarrow> False" using less assms(1) by (cases "k \<le> n") simp_all
    finally show ?case by simp
  qed
qed

lemma xor_drop_bit_zero:
  assumes "0 < k" and "x XOR drop_bit k x = (0 :: 'a :: len word)"
  shows "x = 0"
proof (rule bit_word_eqI)
  fix n assume "n < LENGTH('a)"
  then show "bit x n = bit (0 :: 'a word) n"
  proof (induction "LENGTH('a) - n" arbitrary: n rule: less_induct)
    case less
    have "\<not> bit (x XOR drop_bit k x) n" using assms(2) by simp
    then have eq: "bit x n = bit x (k + n)" by (simp add: bit_xor_iff bit_drop_bit_eq)
    show ?case
    proof (cases "k + n < LENGTH('a)")
      case True
      with less assms(1) have "\<not> bit x (k + n)" by simp
      with eq show ?thesis by simp
    next
      case False
      then have "\<not> bit x (k + n)" using bit_imp_le_length [of x "k + n"] by linarith
      with eq show ?thesis by simp
    qed
  qed
qed

lemma next_random_nonzero: "x \<noteq> 0 \<Longrightarrow> next_random x \<noteq> 0"
  unfolding next_random_def Let_def
  by (metis xor_push_bit_zero xor_drop_bit_zero zero_less_numeral)

text \<open>Only the state of the generator differs.\<close>

definition reseeded :: "ShroomWorldState \<Rightarrow> ShroomWorldState \<Rightarrow> bool" where
  "reseeded w w' \<longleftrightarrow> (\<exists>r. w' = w\<lparr>ws_random_state := r\<rparr> \<and> (ws_random_state w \<noteq> 0 \<longrightarrow> r \<noteq> 0))"

lemma reseeded_refl [simp]: "reseeded w w"
  unfolding reseeded_def by (rule exI [of _ "ws_random_state w"]) simp

lemma reseeded_trans: "reseeded w w' \<Longrightarrow> reseeded w' w'' \<Longrightarrow> reseeded w w''"
  by (auto simp: reseeded_def)

lemma reseeded_players [simp]: "reseeded w w' \<Longrightarrow> ws_players w' = ws_players w"
  by (auto simp: reseeded_def)

lemma reseeded_sound: "reseeded w w' \<Longrightarrow> sound_step w w'"
  by (auto simp: reseeded_def sound_step_def same_match_def world_ok_def)

lemma reseeded_ok: "reseeded w w' \<Longrightarrow> world_ok w \<Longrightarrow> world_ok w'"
  by (rule sound_step_ok [OF reseeded_sound])

lemma ShroomNextRandom_reseeds: "reseeded w (snd (ShroomNextRandom w))"
  by (auto simp: ShroomNextRandom_def reseeded_def Let_def next_random_nonzero)

lemma ShroomRandomFloat_reseeds: "reseeded w (snd (ShroomRandomFloat w a b))"
  using ShroomNextRandom_reseeds [of w] by (cases "ShroomNextRandom w") (simp add: ShroomRandomFloat_def Let_def)

lemma of_int_rounded: "rounded (n * 2 ^ 149) 0 (f32_of_int n)"
  unfolding f32_of_int_def by (rule f32_round_rounded) (auto simp: abs_mult mult_less_0_iff)

lemma of_int_within:
  assumes "f32_finite lo" and "f32_finite hi" and "f32_units lo \<le> n * 2 ^ 149" and "n * 2 ^ 149 \<le> f32_units hi"
  shows "f32_within lo hi (f32_of_int n)"
  using assms by (intro within_rounded [OF of_int_rounded]) simp_all

lemma within_scaled:
  assumes "f32_within 0 0x3f800000 t" and "f32_within lo hi a" and "f32_finite lo" and "f32_finite hi"
    and "f32_units lo \<le> 0" and "0 \<le> f32_units hi"
  shows "f32_within lo hi (f32_mul t a)" and "f32_within lo hi (f32_mul a t)"
proof -
  have one: "f32_units 0x3f800000 = 2 ^ 149" "f32_units 0 = 0" by code_simp+
  note t = withinD [OF assms(1), unfolded one] and a = withinD [OF assms(2)]
  let ?t = "f32_units t" and ?a = "f32_units a"
  have "?t * ?a \<le> ?t * f32_units hi" using a t by (intro mult_left_mono)
  also have "\<dots> \<le> 2 ^ 149 * f32_units hi" using t assms(6) by (intro mult_right_mono)
  finally have up: "?t * ?a \<le> f32_units hi * 2 ^ 149" by (simp add: ac_simps)
  have "2 ^ 149 * f32_units lo \<le> ?t * f32_units lo" using t assms(5) by (intro mult_right_mono_neg)
  also have "\<dots> \<le> ?t * ?a" using a t by (intro mult_left_mono)
  finally have low: "f32_units lo * 2 ^ 149 \<le> ?t * ?a" by (simp add: ac_simps)
  show "f32_within lo hi (f32_mul t a)" by (rule within_rounded [OF f32_mul_rounded assms(3,4) low up]) (rule t a)+
  show "f32_within lo hi (f32_mul a t)"
    by (rule within_rounded [OF f32_mul_rounded assms(3,4)]) (use t a low up in \<open>simp_all add: ac_simps\<close>)
qed

lemma ShroomRandomFloat_within:
  assumes "f32_within l1 h1 a" and "f32_within l2 h2 (f32_sub b a)" and "f32_units l2 \<le> 0" and "0 \<le> f32_units h2"
    and "f32_finite l2" and "f32_finite h2" and "f32_finite lo" and "f32_finite hi"
    and "f32_units lo \<le> f32_units l1 + f32_units l2" and "f32_units h1 + f32_units h2 \<le> f32_units hi"
  shows "f32_within lo hi (fst (ShroomRandomFloat w a b))"
proof -
  define x where "x = fst (ShroomNextRandom w)"
  have "uint x < 2 ^ 32" using uint_lt2p [of x] by simp
  then have "uint x \<le> 2 ^ 32" by simp
  then have "uint x * 2 ^ 149 \<le> 2 ^ 32 * 2 ^ 149" by (rule mult_right_mono) simp
  moreover have u: "f32_units 0x4f800000 = 2 ^ 32 * 2 ^ 149" "f32_units 0 = 0" "f32_finite 0" "f32_finite 0x4f800000"
    "f32_within 0x4f800000 0x4f800000 (f32_of_int 0xFFFFFFFF)"
    by code_simp+
  ultimately have n: "f32_within 0 0x4f800000 (f32_of_int (uint x))" by (intro of_int_within) (simp_all add: u)
  have t: "f32_within 0 0x3f800000 (f32_div (f32_of_int (uint x)) (f32_of_int 0xFFFFFFFF))"
    by (rule within_div [OF n u(5)]) code_simp+
  have "fst (ShroomRandomFloat w a b) =
      f32_add a (f32_mul (f32_div (f32_of_int (uint x)) (f32_of_int 0xFFFFFFFF)) (f32_sub b a))"
    by (simp add: ShroomRandomFloat_def x_def Let_def split: prod.split)
  then show ?thesis using within_add [OF assms(1) within_scaled(1) [OF t assms(2,5,6,3,4)] assms(7-10)] by simp
qed

lemma sqrt_within:
  assumes "f32_within 0 h1 a" and "f32_finite hi" and "0 \<le> f32_units hi" and "f32_units h1 * 2 ^ 149 \<le> f32_units hi * f32_units hi"
  shows "f32_within 0 hi (f32_sqrt a)"
proof -
  have z: "f32_finite 0" "f32_units 0 = 0" by code_simp+
  note a = withinD [OF assms(1), unfolded z]
  show ?thesis
  proof (cases "f32_is_zero a")
    case True
    with a(4) have "f32_sqrt a = a" by (simp add: f32_sqrt_def)
    with a(1) True assms(2,3) show ?thesis
      by (simp add: f32_within_def units_mono_iff [symmetric] z f32_units_zero)
  next
    case False
    have "f32_units a \<noteq> 0"
    proof
      assume "f32_units a = 0"
      then have "f32_order a = f32_order 0" using units_mono_iff [of a 0] units_mono_iff [of 0 a] z by simp
      moreover have "f32_is_zero 0" by code_simp
      ultimately show False using False f32_same_order [of a 0] by auto
    qed
    with a have "0 < f32_units a" by simp
    moreover have "f32_within a h1 a" using assms(1) by (simp add: f32_within_def)
    ultimately show ?thesis using z assms(2-4) within_sqrt [of a h1 a 0 hi] by simp
  qed
qed

section \<open>Spawn positions\<close>

definition libm_ok :: "libm \<Rightarrow> bool" where
  "libm_ok lm \<longleftrightarrow> (\<forall>a. f32_finite a \<longrightarrow>
     f32_within 0xbf800000 0x3f800000 (lm_cosf lm a) \<and> f32_within 0xbf800000 0x3f800000 (lm_sinf lm a))"

text \<open>A point at a distance from the centre, brought inside a margin.\<close>

lemma clamped_coordinate:
  assumes t: "f32_within 0xbf800000 0x3f800000 t" and d: "f32_within 0 0x45800000 d"
    and c: "f32_within 0 0x45bb8000 c" and m: "f32_finite lo" "f32_finite hi" "f32_order lo \<le> f32_order hi"
  shows "f32_within lo hi (ShroomClamp (f32_add c (f32_mul t d)) lo hi)"
proof -
  have d': "f32_within (f32_uminus 0x45800000) 0x45800000 d" by (rule within_weaken [OF d]) code_simp+
  have t': "f32_within (f32_uminus 0x3f800000) 0x3f800000 t" by (rule within_weaken [OF t]) code_simp+
  have "f32_within (f32_uminus 0x45800000) 0x45800000 (f32_mul t d)" by (rule within_mul_abs [OF t' d']) code_simp+
  then have "f32_within 0xc6400000 0x46400000 (f32_add c (f32_mul t d))" by (rule within_add [OF c]) code_simp+
  then show ?thesis by (intro clamp_within [OF within_not_nan m])
qed

lemma random_ring_point_ok:
  assumes "libm_ok lm" and "world_ok w"
    and sq: "f32_within l1 h1 (f32_mul inner inner)" "f32_within l2 h2 (f32_sub (f32_mul outer outer) (f32_mul inner inner))"
    and num: "f32_units l2 \<le> 0" "0 \<le> f32_units h2" "f32_finite l2" "f32_finite h2"
      "0 \<le> f32_units l1 + f32_units l2" "f32_units h1 + f32_units h2 \<le> f32_units 0x4b800000"
    and m: "f32_finite margin" "f32_finite (f32_sub SHROOM_WORLD_WIDTH margin)"
      "f32_order margin \<le> f32_order (f32_sub SHROOM_WORLD_WIDTH margin)"
  shows "reseeded w (snd (random_ring_point lm w inner outer margin))"
    and "f32_within margin (f32_sub SHROOM_WORLD_WIDTH margin) (v2_x (fst (random_ring_point lm w inner outer margin)))"
    and "f32_within margin (f32_sub SHROOM_WORLD_WIDTH margin) (v2_y (fst (random_ring_point lm w inner outer margin)))"
proof -
  obtain roll w1 where r: "ShroomRandomFloat w (f32_mul inner inner) (f32_mul outer outer) = (roll, w1)" by fastforce
  obtain angle w2 where a: "ShroomRandomFloat w1 0 0x40c90fdb = (angle, w2)" by fastforce
  have w: "reseeded w w1" "reseeded w1 w2"
    using ShroomRandomFloat_reseeds [of w "f32_mul inner inner" "f32_mul outer outer"]
      ShroomRandomFloat_reseeds [of w1 0 "0x40c90fdb"] r a by simp_all
  from w show "reseeded w (snd (random_ring_point lm w inner outer margin))"
    by (auto simp: random_ring_point_def r a Let_def intro: reseeded_trans)
  have z: "f32_finite 0" "f32_finite 0x4b800000" "f32_units 0 = 0" by code_simp+
  have "f32_within 0 0x4b800000 (fst (ShroomRandomFloat w (f32_mul inner inner) (f32_mul outer outer)))"
    by (rule ShroomRandomFloat_within [OF sq num(1-4) z(1,2) _ num(6)]) (simp add: z num)
  then have "f32_within 0 0x4b800000 roll" by (simp add: r)
  then have d: "f32_within 0 0x45800000 (f32_sqrt roll)" by (rule sqrt_within) code_simp+
  have k: "f32_within 0 0 0" "f32_within 0 0x40c90fdb (f32_sub 0x40c90fdb 0)" by code_simp+
  have "f32_within 0 0x40c90fdb (fst (ShroomRandomFloat w1 0 0x40c90fdb))"
    by (rule ShroomRandomFloat_within [OF k]) code_simp+
  then have "f32_finite angle" by (simp add: a within_finite)
  with assms(1) have t: "f32_within 0xbf800000 0x3f800000 (lm_cosf lm angle)" "f32_within 0xbf800000 0x3f800000 (lm_sinf lm angle)"
    by (simp_all add: libm_ok_def)
  have "f32_within 0 0x45bb8000 (f32_mul SHROOM_WORLD_WIDTH 0x3f000000)" "SHROOM_WORLD_HEIGHT = SHROOM_WORLD_WIDTH" by code_simp+
  moreover have "ws_width w = SHROOM_WORLD_WIDTH" "ws_height w = SHROOM_WORLD_HEIGHT"
    using assms(2) by (simp_all add: world_ok_def)
  ultimately show "f32_within margin (f32_sub SHROOM_WORLD_WIDTH margin) (v2_x (fst (random_ring_point lm w inner outer margin)))"
    and "f32_within margin (f32_sub SHROOM_WORLD_WIDTH margin) (v2_y (fst (random_ring_point lm w inner outer margin)))"
    by (simp_all add: random_ring_point_def r a Let_def ShroomWorldCenter_def clamped_coordinate [OF _ d _ m] t)
qed

lemma ShroomRandomPointInZone_ok:
  assumes "libm_ok lm" and "world_ok w"
  shows "reseeded w (snd (ShroomRandomPointInZone lm w zone))" and "in_arena (fst (ShroomRandomPointInZone lm w zone))"
proof -
  let ?inner = "case zone of SHROOM_ZONE_CENTER \<Rightarrow> 0 | SHROOM_ZONE_MID \<Rightarrow> SHROOM_ZONE_CENTER_RADIUS
     | SHROOM_ZONE_OUTER \<Rightarrow> SHROOM_ZONE_MID_RADIUS"
  let ?outer = "case zone of SHROOM_ZONE_CENTER \<Rightarrow> SHROOM_ZONE_CENTER_RADIUS | SHROOM_ZONE_MID \<Rightarrow> SHROOM_ZONE_MID_RADIUS
     | SHROOM_ZONE_OUTER \<Rightarrow> f32_mul (f32_min SHROOM_WORLD_WIDTH SHROOM_WORLD_HEIGHT) 0x3f000000"
  have w: "ws_width w = SHROOM_WORLD_WIDTH" "ws_height w = SHROOM_WORLD_HEIGHT" using assms(2) by (simp_all add: world_ok_def)
  have eq: "ShroomRandomPointInZone lm w zone = random_ring_point lm w ?inner ?outer 0x42700000"
    unfolding ShroomRandomPointInZone_def Let_def w ..
  have sq: "f32_within 0 0x4a742400 (f32_mul ?inner ?inner)"
    "f32_within 0 0x4b189680 (f32_sub (f32_mul ?outer ?outer) (f32_mul ?inner ?inner))"
  proof -
    have v: "f32_mul 0 0 = 0" "f32_mul SHROOM_ZONE_CENTER_RADIUS SHROOM_ZONE_CENTER_RADIUS = 0x4945c100"
      "f32_mul SHROOM_ZONE_MID_RADIUS SHROOM_ZONE_MID_RADIUS = 0x4a742400"
      "f32_mul (f32_min SHROOM_WORLD_WIDTH SHROOM_WORLD_HEIGHT) 0x3f000000 = 0x453b8000"
      "f32_mul 0x453b8000 0x453b8000 = 0x4b095440"
      by code_simp+
    have d: "f32_sub 0x4945c100 0 = 0x4945c100" "f32_sub 0x4a742400 0x4945c100 = 0x4a42b3c0"
      "f32_sub 0x4b095440 0x4a742400 = 0x4a989680"
      by code_simp+
    show "f32_within 0 0x4a742400 (f32_mul ?inner ?inner)" by (cases zone; simp only: v ShroomZone.case; code_simp)
    show "f32_within 0 0x4b189680 (f32_sub (f32_mul ?outer ?outer) (f32_mul ?inner ?inner))"
      by (cases zone; simp only: v d ShroomZone.case; code_simp)
  qed
  have num: "f32_units 0 \<le> 0" "0 \<le> f32_units 0x4b189680" "f32_finite 0" "f32_finite 0x4b189680"
    "0 \<le> f32_units 0 + f32_units 0" "f32_units 0x4a742400 + f32_units 0x4b189680 \<le> f32_units 0x4b800000"
    and m: "f32_finite 0x42700000" "f32_finite (f32_sub SHROOM_WORLD_WIDTH 0x42700000)"
      "f32_order 0x42700000 \<le> f32_order (f32_sub SHROOM_WORLD_WIDTH 0x42700000)"
    by code_simp+
  note ring = random_ring_point_ok [OF assms sq num m]
  show "reseeded w (snd (ShroomRandomPointInZone lm w zone))" unfolding eq by (rule ring)
  have b: "f32_units 0 \<le> f32_units 0x42700000" "f32_units (f32_sub SHROOM_WORLD_WIDTH 0x42700000) \<le> f32_units SHROOM_WORLD_WIDTH"
    "f32_units (f32_sub SHROOM_WORLD_WIDTH 0x42700000) \<le> f32_units SHROOM_WORLD_HEIGHT"
    by code_simp+
  show "in_arena (fst (ShroomRandomPointInZone lm w zone))"
    unfolding eq in_arena_def by (intro conjI within_weaken [OF ring(2) b(1,2)] within_weaken [OF ring(3) b(1,3)])
qed

lemma lerp_within:
  assumes t: "f32_within 0 0x3f800000 t" and a: "f32_within l1 h1 a" and d: "f32_within l2 h2 (f32_sub b a)"
    and num: "f32_finite l2" "f32_finite h2" "f32_units l2 \<le> 0" "0 \<le> f32_units h2" "f32_finite lo" "f32_finite hi"
      "f32_units lo \<le> f32_units l1 + f32_units l2" "f32_units h1 + f32_units h2 \<le> f32_units hi"
  shows "f32_within lo hi (ShroomLerp a b t)"
  unfolding ShroomLerp_def by (rule within_add [OF a within_scaled(2) [OF t d num(1-4)] num(5-8)])

lemma ShroomSpawnDensity_within:
  assumes "world_ok w"
  shows "f32_within 0 0x3f800000 (ShroomSpawnDensity w)"
proof (cases "ShroomSpawnPopulation w \<le> 1")
  case True
  have "f32_within 0 0x3f800000 0" by code_simp
  with True show ?thesis by (simp add: ShroomSpawnDensity_def)
next
  case False
  let ?n = "int (ShroomSpawnPopulation w - 1)"
  have "length (ws_players w) \<le> 1024"
    using assms by (simp add: world_ok_def SHROOM_MAX_PLAYER_ENTITIES_def SHROOM_MAX_PARTICIPANTS_def SHROOM_MAX_SPLIT_PIECES_def)
  moreover have "ShroomSpawnPopulation w \<le> length (ws_players w)" by (simp add: ShroomSpawnPopulation_def count_if_def)
  ultimately have n: "0 \<le> ?n" "?n \<le> 1024" by simp_all
  have u: "f32_units 0 = 0" "f32_units 0x44800000 = 1024 * 2 ^ 149" "f32_finite 0" "f32_finite 0x44800000" by code_simp+
  have "?n * 2 ^ 149 \<le> 1024 * 2 ^ 149" using n(2) by (rule mult_right_mono) simp
  then have a: "f32_within 0 0x44800000 (f32_of_int ?n)" using n(1) by (intro of_int_within) (simp_all add: u)
  have "int (SHROOM_MAX_PARTICIPANTS - 1) = 255" by (simp add: SHROOM_MAX_PARTICIPANTS_def)
  moreover have b: "f32_within 0x437f0000 0x437f0000 (f32_of_int 255)" by code_simp
  have "f32_within 0 0x41000000 (f32_div (f32_of_int ?n) (f32_of_int 255))" by (rule within_div [OF a b]) code_simp+
  then have "f32_within 0 0x3f800000 (ShroomClamp (f32_div (f32_of_int ?n) (f32_of_int 255)) 0 0x3f800000)"
    by (rule clamp_within [OF within_not_nan]) code_simp+
  ultimately show ?thesis using False by (simp add: ShroomSpawnDensity_def Let_def)
qed

lemma ShroomSpawnOuterRadius_within:
  assumes "world_ok w"
  shows "f32_within 0x45048000 0x45340000 (ShroomSpawnOuterRadius w)"
proof -
  have w: "ws_width w = SHROOM_WORLD_WIDTH" "ws_height w = SHROOM_WORLD_HEIGHT" using assms by (simp_all add: world_ok_def)
  have v: "f32_sub (f32_mul (f32_min SHROOM_WORLD_WIDTH SHROOM_WORLD_HEIGHT) 0x3f000000) SHROOM_SPAWN_PADDING = 0x45340000"
    "f32_min SHROOM_SPAWN_MIN_RADIUS 0x45340000 = 0x45048000"
    by code_simp+
  have k: "f32_within 0x45340000 0x45340000 0x45340000" "f32_within 0xc43e0000 0 (f32_sub 0x45048000 0x45340000)" by code_simp+
  have "f32_within 0x45048000 0x45340000 (ShroomLerp 0x45340000 0x45048000 (ShroomSpawnDensity w))"
    by (rule lerp_within [OF ShroomSpawnDensity_within [OF assms] k]) code_simp+
  then show ?thesis by (simp add: ShroomSpawnOuterRadius_def Let_def w v)
qed

lemma max_within:
  assumes "f32_within l1 h1 a" and "f32_within l2 h2 b" and "f32_units h1 \<le> f32_units hi" and "f32_units h2 \<le> f32_units hi"
  shows "f32_within l1 hi (f32_max a b)"
  using assms by (auto simp: f32_within_def units_mono_iff f32_max_def f32_lt_iff)

text \<open>The spawn band lies between 2000 and 2880 units from the centre.\<close>

lemma ShroomRandomSpawnCandidate_ok:
  assumes "libm_ok lm" and "world_ok w"
  shows "reseeded w (snd (ShroomRandomSpawnCandidate lm w True))"
    and "position_ok (fst (ShroomRandomSpawnCandidate lm w True))"
    and "in_arena (fst (ShroomRandomSpawnCandidate lm w True))"
proof -
  note outer = ShroomSpawnOuterRadius_within [OF assms(2)]
  define band where "band = ShroomLerp SHROOM_SPAWN_MAX_BAND_WIDTH SHROOM_SPAWN_MIN_BAND_WIDTH (ShroomSpawnDensity w)"
  define inner where "inner = f32_max SHROOM_ZONE_MID_RADIUS (f32_sub (ShroomSpawnOuterRadius w) band)"
  have k: "f32_within 0x44610000 0x44610000 SHROOM_SPAWN_MAX_BAND_WIDTH"
    "f32_within 0xc42a0000 0 (f32_sub SHROOM_SPAWN_MIN_BAND_WIDTH SHROOM_SPAWN_MAX_BAND_WIDTH)"
    by code_simp+
  have band: "f32_within 0x435c0000 0x44610000 band"
    unfolding band_def by (rule lerp_within [OF ShroomSpawnDensity_within [OF assms(2)] k]) code_simp+
  have sub: "f32_within 0x44800000 0x45264000 (f32_sub (ShroomSpawnOuterRadius w) band)" by (rule within_sub [OF outer band]) code_simp+
  have mid: "f32_within 0x44fa0000 0x44fa0000 SHROOM_ZONE_MID_RADIUS" by code_simp
  have "f32_within 0x44fa0000 0x45264000 inner" unfolding inner_def by (rule max_within [OF mid sub]) code_simp+
  note inner = this
  have sq: "f32_within 0x4a742400 0x4ad8acc0 (f32_mul inner inner)" by (rule within_mul_nonneg [OF inner inner]) code_simp+
  have sq2: "f32_within 0x4a7a0000 0x4afd4bc0 (f32_mul (ShroomSpawnOuterRadius w) (ShroomSpawnOuterRadius w))"
    by (rule within_mul_nonneg [OF outer outer]) code_simp+
  have d: "f32_within 0xca4b0000 0x4a864700
      (f32_sub (f32_mul (ShroomSpawnOuterRadius w) (ShroomSpawnOuterRadius w)) (f32_mul inner inner))"
    by (rule within_sub [OF sq2 sq]) code_simp+
  have num: "f32_units 0xca4b0000 \<le> 0" "0 \<le> f32_units 0x4a864700" "f32_finite 0xca4b0000" "f32_finite 0x4a864700"
    "0 \<le> f32_units 0x4a742400 + f32_units 0xca4b0000" "f32_units 0x4ad8acc0 + f32_units 0x4a864700 \<le> f32_units 0x4b800000"
    and m: "f32_finite SHROOM_SPAWN_PADDING" "f32_finite (f32_sub SHROOM_WORLD_WIDTH SHROOM_SPAWN_PADDING)"
      "f32_order SHROOM_SPAWN_PADDING \<le> f32_order (f32_sub SHROOM_WORLD_WIDTH SHROOM_SPAWN_PADDING)"
    by code_simp+
  note ring = random_ring_point_ok [OF assms sq d num m]
  have eq: "ShroomRandomSpawnCandidate lm w True = random_ring_point lm w inner (ShroomSpawnOuterRadius w) SHROOM_SPAWN_PADDING"
    by (simp add: ShroomRandomSpawnCandidate_def inner_def band_def Let_def)
  show "reseeded w (snd (ShroomRandomSpawnCandidate lm w True))" unfolding eq by (rule ring)
  have b: "f32_units 0x41200000 \<le> f32_units SHROOM_SPAWN_PADDING" "f32_units 0 \<le> f32_units SHROOM_SPAWN_PADDING"
    "f32_units (f32_sub SHROOM_WORLD_WIDTH SHROOM_SPAWN_PADDING) \<le> f32_units 0x45bb3000"
    "f32_units (f32_sub SHROOM_WORLD_WIDTH SHROOM_SPAWN_PADDING) \<le> f32_units SHROOM_WORLD_WIDTH"
    "f32_units (f32_sub SHROOM_WORLD_WIDTH SHROOM_SPAWN_PADDING) \<le> f32_units SHROOM_WORLD_HEIGHT"
    by code_simp+
  show "position_ok (fst (ShroomRandomSpawnCandidate lm w True))" "in_arena (fst (ShroomRandomSpawnCandidate lm w True))"
    unfolding eq position_ok_def in_arena_def
    by (intro conjI within_weaken [OF ring(2) b(1,3)] within_weaken [OF ring(3) b(1,3)]
        within_weaken [OF ring(2) b(2,4)] within_weaken [OF ring(3) b(2,5)])+
qed

lemma spawn_attempts_ok:
  assumes "libm_ok lm" and "world_ok w" and "position_ok best" and "in_arena best"
  shows "reseeded w (snd (spawn_attempts lm n w True best clearance)) \<and>
    position_ok (fst (spawn_attempts lm n w True best clearance)) \<and> in_arena (fst (spawn_attempts lm n w True best clearance))"
  using assms(2-4)
proof (induction n arbitrary: w best clearance)
  case (Suc n)
  obtain c w' where c: "ShroomRandomSpawnCandidate lm w True = (c, w')" by fastforce
  note ok = ShroomRandomSpawnCandidate_ok [OF assms(1) Suc.prems(1), unfolded c fst_conv snd_conv]
  note w' = reseeded_ok [OF ok(1) Suc.prems(1)]
  note ih = Suc.IH [OF w'] and trans = reseeded_trans [OF ok(1)]
  show ?case using ok Suc.prems(2,3) by (auto simp: c Let_def intro: trans ih [THEN conjunct1] dest: ih split del: if_split split: if_split)
qed simp

lemma ShroomRandomSpawnPosition_ok:
  assumes "libm_ok lm" and "world_ok w"
  shows "reseeded w (snd (ShroomRandomSpawnPosition lm w True))" and "position_ok (fst (ShroomRandomSpawnPosition lm w True))"
    and "in_arena (fst (ShroomRandomSpawnPosition lm w True))"
proof -
  obtain c w' where c: "ShroomRandomSpawnCandidate lm w True = (c, w')" by fastforce
  note ok = ShroomRandomSpawnCandidate_ok [OF assms, unfolded c fst_conv snd_conv]
  note all = spawn_attempts_ok [OF assms(1) reseeded_ok [OF ok(1) assms(2)] ok(2,3), of 64 "0xbf800000"]
  then show "reseeded w (snd (ShroomRandomSpawnPosition lm w True))" "position_ok (fst (ShroomRandomSpawnPosition lm w True))"
    "in_arena (fst (ShroomRandomSpawnPosition lm w True))"
    using reseeded_trans [OF ok(1)] by (simp_all add: ShroomRandomSpawnPosition_def c)
qed

end
