(* ===== verification/Sim_Sound_Rules.thy ===== *)
theory Sim_Sound_Rules
  imports Sim_Sound
begin

text \<open>
  Every operation of \<open>Sim_Spawn\<close> and \<open>Sim_Rules\<close> keeps a sound world sound and leaves the match alone.
\<close>

section \<open>Changing one entry\<close>

lemma player_okD: "world_ok w \<Longrightarrow> i < length (ws_players w) \<Longrightarrow> player_ok (player_at w i)"
  by (simp add: world_ok_def list_all_length)

lemma list_all_update: "list_all P xs \<Longrightarrow> (i < length xs \<Longrightarrow> P x) \<Longrightarrow> list_all P (xs[i := x])"
  by (cases "i < length xs") (auto simp: list_all_length nth_list_update)

lemma upd_player_sound:
  assumes "i < length (ws_players w) \<Longrightarrow> player_ok (player_at w i) \<Longrightarrow> player_ok (f (player_at w i))"
  shows "sound_step w (upd_player w i f)"
proof -
  have "list_all player_ok (ws_players w) \<Longrightarrow> list_all player_ok ((ws_players w)[i := f (player_at w i)])"
    using assms by (intro list_all_update) (simp_all add: list_all_length)
  then show ?thesis by (simp add: sound_step_def same_match_def upd_player_def world_ok_def)
qed

lemma upd_player_simps [simp]:
  "ws_width (upd_player w i f) = ws_width w" "ws_height (upd_player w i f) = ws_height w"
  "length (ws_players (upd_player w i f)) = length (ws_players w)"
  "i < length (ws_players w) \<Longrightarrow> ws_players (upd_player w i f) ! i = f (ws_players w ! i)"
  "j \<noteq> i \<Longrightarrow> ws_players (upd_player w i f) ! j = ws_players w ! j"
  "ws_spores (upd_player w i f) = ws_spores w" "ws_spore_count (upd_player w i f) = ws_spore_count w"
  by (simp_all add: upd_player_def)

lemma ids_ok_insert:
  assumes "ids_ok ids" and "x \<notin> set ids" and "ids ! i = 0"
  shows "ids_ok (ids[i := x])"
proof (cases "i < length ids \<and> x \<noteq> 0")
  case True
  then have i: "i < length ids" and x: "x \<noteq> 0" by simp_all
  have "filter (\<lambda>j. j \<noteq> 0) (ids[i := x]) = filter (\<lambda>j. j \<noteq> 0) (take i ids) @ x # filter (\<lambda>j. j \<noteq> 0) (drop (Suc i) ids)"
    using filter_update [OF i, of "\<lambda>j. j \<noteq> 0" x] x by simp
  moreover have "filter (\<lambda>j. j \<noteq> 0) ids = filter (\<lambda>j. j \<noteq> 0) (take i ids) @ filter (\<lambda>j. j \<noteq> 0) (drop (Suc i) ids)"
    using filter_split_nth [OF i, of "\<lambda>j. j \<noteq> 0"] assms(3) by simp
  ultimately show ?thesis using assms(1,2) by (auto simp: ids_ok_def dest: in_set_takeD in_set_dropD)
next
  case False
  then have "ids[i := x] = ids" using assms(3) by (metis list_update_beyond list_update_id not_less)
  with assms(1) show ?thesis by simp
qed

lemma ids_ok_clear:
  assumes "ids_ok ids"
  shows "ids_ok (ids[i := 0])"
proof (cases "i < length ids")
  case True
  then show ?thesis
    using assms filter_update [OF True, of "\<lambda>j. j \<noteq> 0" 0] filter_split_nth [OF True, of "\<lambda>j. j \<noteq> 0"]
    by (auto simp: ids_ok_def split: if_splits)
qed (use assms in \<open>simp add: list_update_beyond\<close>)

lemma ids_ok_zero: "ids_ok (replicate SHROOM_MAX_PARTICIPANTS 0)"
  by (simp add: ids_ok_def)

section \<open>Statistics\<close>

lemma EnsureRoundStats_sound: "sound_step w (snd (ShroomWorldEnsureRoundStats w k))"
proof -
  consider "k = 0 \<or> find_index (\<lambda>slot. rss_player_id slot = k) (ws_round_stats w) \<noteq> None \<or>
      find_index (\<lambda>slot. rss_player_id slot = 0) (ws_round_stats w) = None"
    | i where "k \<noteq> 0" "find_index (\<lambda>slot. rss_player_id slot = k) (ws_round_stats w) = None"
      "find_index (\<lambda>slot. rss_player_id slot = 0) (ws_round_stats w) = Some i"
    by (cases "find_index (\<lambda>slot. rss_player_id slot = 0) (ws_round_stats w)") auto
  then show ?thesis
  proof cases
    case 1
    then have "snd (ShroomWorldEnsureRoundStats w k) = w"
      by (auto simp: ShroomWorldEnsureRoundStats_def simp del: find_index_None split: option.split)
    then show ?thesis by simp
  next
    case 2
    from 2(2) have "k \<notin> set (map rss_player_id (ws_round_stats w))" by auto
    moreover have "map rss_player_id (ws_round_stats w) ! i = 0" using find_index_SomeD [OF 2(3)] by simp
    ultimately have "ids_ok (map rss_player_id (ws_round_stats w)) \<Longrightarrow> ids_ok ((map rss_player_id (ws_round_stats w))[i := k])"
      by (intro ids_ok_insert)
    with 2 show ?thesis
      by (simp add: ShroomWorldEnsureRoundStats_def sound_step_def same_match_def world_ok_def map_update del: find_index_None)
  qed
qed

lemma EnsureRoundStats_players [simp]: "ws_players (snd (ShroomWorldEnsureRoundStats w k)) = ws_players w"
  by (auto simp: ShroomWorldEnsureRoundStats_def split: option.split)

lemma note_stats_sound: "sound_step w (note_stats w k f)"
proof -
  obtain slot w' where e: "ShroomWorldEnsureRoundStats w k = (slot, w')" by fastforce
  have w': "sound_step w w'" using EnsureRoundStats_sound [of w k] by (simp add: e)
  show ?thesis
  proof (cases slot)
    case (Some i)
    let ?slot = "(ws_round_stats w' ! i)\<lparr>rss_stats := f (rss_stats (ws_round_stats w' ! i))\<rparr>"
    have "map rss_player_id ((ws_round_stats w')[i := ?slot]) = map rss_player_id (ws_round_stats w')"
      by (cases "i < length (ws_round_stats w')") (simp_all add: map_update list_update_same_conv list_update_beyond)
    then have "sound_step w' (w'\<lparr>ws_round_stats := (ws_round_stats w')[i := ?slot]\<rparr>)"
      by (simp add: sound_step_def same_match_def world_ok_def)
    with w' Some show ?thesis by (auto simp: note_stats_def e intro: sound_step_trans)
  qed (simp add: note_stats_def e w')
qed

lemma note_stats_players [simp]: "ws_players (note_stats w k f) = ws_players w"
  using EnsureRoundStats_players [of w k]
  by (cases "ShroomWorldEnsureRoundStats w k"; cases "fst (ShroomWorldEnsureRoundStats w k)") (auto simp: note_stats_def)

section \<open>Spores and powerups\<close>

lemma fresh_entity_sound: "sound_step w (snd (fresh_entity e w))"
  by (simp add: fresh_entity_def sound_step_def same_match_def world_ok_def)

lemma fresh_entity_simps [simp]:
  "ws_players (snd (fresh_entity e w)) = ws_players w" "ws_spores (snd (fresh_entity e w)) = ws_spores w"
  "ws_powerups (snd (fresh_entity e w)) = ws_powerups w"
  by (simp_all add: fresh_entity_def)

lemma spore_update_sound:
  "in_arena (spo_position s) \<Longrightarrow> sound_step w (w\<lparr>ws_spores := (ws_spores w)[i := s]\<rparr>)"
  by (simp add: sound_step_def same_match_def world_ok_def list_all_update)

lemma powerup_update_sound:
  "in_arena (pow_position s) \<Longrightarrow> sound_step w (w\<lparr>ws_powerups := (ws_powerups w)[i := s]\<rparr>)"
  by (simp add: sound_step_def same_match_def world_ok_def list_all_update)

lemma SpawnOrResetSpore_sound:
  assumes "libm_ok lm" and "world_ok w"
  shows "sound_step w (ShroomSpawnOrResetSpore lm w i)"
proof -
  obtain roll w1 where 1: "ShroomRandomFloat w 0 0x3f800000 = (roll, w1)" by fastforce
  define zone where "zone = (if f32_lt roll 0x3e99999a then SHROOM_ZONE_OUTER
    else if f32_lt roll 0x3f266666 then SHROOM_ZONE_MID else SHROOM_ZONE_CENTER)"
  obtain c w2 where 2: "ShroomRandomPointInZone lm w1 zone = (c, w2)" by fastforce
  obtain e w3 where 3: "fresh_entity (spo_entity_id (ws_spores w2 ! i)) w2 = (e, w3)" by fastforce
  have s1: "reseeded w w1" using ShroomRandomFloat_reseeds [of w 0 "0x3f800000"] by (simp add: 1)
  note p = ShroomRandomPointInZone_ok [OF assms(1) reseeded_ok [OF s1 assms(2)], of zone, unfolded 2 fst_conv snd_conv]
  have s3: "sound_step w2 w3" using fresh_entity_sound [of w2 "spo_entity_id (ws_spores w2 ! i)"] by (simp add: 3)
  have "ShroomSpawnOrResetSpore lm w i = w3\<lparr>ws_spores := (ws_spores w3)[i := \<lparr>spo_entity_id = e, spo_position = c,
      spo_value = SHROOM_SPORE_VALUE, spo_active = True\<rparr>]\<rparr>"
    by (simp add: ShroomSpawnOrResetSpore_def 1 2 3 Let_def flip: zone_def)
  then have "sound_step w3 (ShroomSpawnOrResetSpore lm w i)" using p(2) by (simp add: spore_update_sound)
  from sound_step_trans [OF sound_step_trans [OF reseeded_sound [OF reseeded_trans [OF s1 p(1)]] s3] this] show ?thesis .
qed

lemma SpawnDecaySpore_sound:
  assumes "in_arena p" and "world_ok w"
  shows "sound_step w (ShroomSpawnDecaySpore w p v)"
proof (cases "v = 0")
  case False
  obtain i w1 where 1: "(if ws_spore_count w < SHROOM_MAX_SPORES
      then (ws_spore_count w, w\<lparr>ws_spore_count := ws_spore_count w + 1\<rparr>)
      else case ShroomNextRandom w of (x, w) \<Rightarrow> (unat x mod ws_spore_count w, w)) = (i, w1)" by fastforce
  have s1: "sound_step w w1"
  proof (cases "ws_spore_count w < SHROOM_MAX_SPORES")
    case True
    with 1 show ?thesis by (auto simp: sound_step_def same_match_def world_ok_def)
  next
    case False
    with 1 ShroomNextRandom_reseeds [of w] show ?thesis by (cases "ShroomNextRandom w") (auto intro: reseeded_sound)
  qed
  obtain e w2 where 2: "fresh_entity (spo_entity_id (ws_spores w1 ! i)) w1 = (e, w2)" by fastforce
  have s2: "sound_step w1 w2" using fresh_entity_sound [of w1 "spo_entity_id (ws_spores w1 ! i)"] by (simp add: 2)
  have "ShroomSpawnDecaySpore w p v = w2\<lparr>ws_spores := (ws_spores w2)[i := \<lparr>spo_entity_id = e, spo_position = p,
      spo_value = v, spo_active = True\<rparr>]\<rparr>"
    using False unfolding ShroomSpawnDecaySpore_def 1 by (simp add: 2)
  then have "sound_step w2 (ShroomSpawnDecaySpore w p v)" using assms(1) by (simp add: spore_update_sound)
  from sound_step_trans [OF sound_step_trans [OF s1 s2] this] show ?thesis .
qed (simp add: ShroomSpawnDecaySpore_def)

lemma SpawnDecaySpore_players [simp]: "ws_players (ShroomSpawnDecaySpore w p v) = ws_players w"
  by (auto simp: ShroomSpawnDecaySpore_def fresh_entity_def ShroomNextRandom_def Let_def)

lemma SpawnOrResetPowerup_sound:
  assumes "libm_ok lm" and "world_ok w"
  shows "sound_step w (ShroomSpawnOrResetPowerup lm w i)"
proof -
  define zone where "zone = (if i mod 4 = 0 then SHROOM_ZONE_OUTER else if i mod 4 = 1 then SHROOM_ZONE_MID else SHROOM_ZONE_CENTER)"
  obtain c w1 where 1: "ShroomRandomPointInZone lm w zone = (c, w1)" by fastforce
  obtain x w2 where 2: "ShroomNextRandom w1 = (x, w2)" by fastforce
  obtain e w3 where 3: "fresh_entity (pow_entity_id (ws_powerups w2 ! i)) w2 = (e, w3)" by fastforce
  note p = ShroomRandomPointInZone_ok [OF assms, of zone, unfolded 1 fst_conv snd_conv]
  have s2: "reseeded w1 w2" using ShroomNextRandom_reseeds [of w1] by (simp add: 2)
  have s3: "sound_step w2 w3" using fresh_entity_sound [of w2 "pow_entity_id (ws_powerups w2 ! i)"] by (simp add: 3)
  have "ShroomSpawnOrResetPowerup lm w i = w3\<lparr>ws_powerups := (ws_powerups w3)[i := \<lparr>pow_entity_id = e, pow_position = c,
      pow_type = 1 + x mod SHROOM_POWERUP_TYPE_COUNT, pow_respawn_timer = 0, pow_active = True\<rparr>]\<rparr>"
    by (simp add: ShroomSpawnOrResetPowerup_def 1 2 3 Let_def flip: zone_def)
  then have "sound_step w3 (ShroomSpawnOrResetPowerup lm w i)" using p(2) by (simp add: powerup_update_sound)
  from sound_step_trans [OF sound_step_trans [OF reseeded_sound [OF reseeded_trans [OF p(1) s2]] s3] this] show ?thesis .
qed

lemma InitializeSpores_sound:
  assumes "libm_ok lm" and "world_ok w"
  shows "sound_step w (ShroomInitializeSpores lm w)"
proof -
  let ?w = "w\<lparr>ws_spore_count := SHROOM_SPORE_TARGET_COUNT\<rparr>"
  have 1: "sound_step w ?w"
    by (simp add: sound_step_def same_match_def world_ok_def SHROOM_SPORE_TARGET_COUNT_def SHROOM_MAX_SPORES_def)
  show ?thesis unfolding ShroomInitializeSpores_def
    by (rule sound_step_trans [OF 1], rule sound_step_fold)
      (use assms sound_step_ok [OF 1] in \<open>simp_all add: SpawnOrResetSpore_sound\<close>)
qed

lemma InitializePowerups_sound:
  assumes "libm_ok lm" and "world_ok w"
  shows "sound_step w (ShroomInitializePowerups lm w)"
proof -
  let ?w = "w\<lparr>ws_powerup_count := SHROOM_MAX_POWERUPS\<rparr>"
  have 1: "sound_step w ?w" by (simp add: sound_step_def same_match_def world_ok_def)
  show ?thesis unfolding ShroomInitializePowerups_def
    by (rule sound_step_trans [OF 1], rule sound_step_fold)
      (use assms sound_step_ok [OF 1] in \<open>simp_all add: SpawnOrResetPowerup_sound\<close>)
qed

section \<open>Players enter, return and leave\<close>

lemma default_mass: "mass_ok SHROOM_DEFAULT_PLAYER_MASS" "f32_within 0 0x438b8000 (ShroomMassToRadius SHROOM_DEFAULT_PLAYER_MASS)"
  unfolding mass_ok_def by code_simp+

lemma unit_zero: "f32_within 0 0x3f800000 0" "f32_within 0 0x438b8000 0" "mass_ok 0"
  "vec_within 0x40000000 zero_vec2" "vec_within 0x43dc0000 zero_vec2" "in_arena zero_vec2"
proof -
  have "0 \<le> f32_order 0x40000000" "0 \<le> f32_order 0x43dc0000" by code_simp+
  then show "vec_within 0x40000000 zero_vec2" "vec_within 0x43dc0000 zero_vec2" by (simp_all add: vec_within_zero)
  show "f32_within 0 0x3f800000 0" "f32_within 0 0x438b8000 0" "mass_ok 0" "in_arena zero_vec2"
    unfolding mass_ok_def in_arena_def by code_simp+
qed

lemma empty_player_ok: "player_ok empty_player"
  using unit_zero by (simp add: player_ok_def empty_player_def)

lemma RespawnPlayer_sound:
  assumes "libm_ok lm" and "world_ok w"
  shows "sound_step w (ShroomRespawnPlayer lm w i)"
proof -
  define w1 where "w1 = upd_player w i (\<lambda>p. p\<lparr>pl_life_generation := ShroomNextLifeGeneration (pl_life_generation p)\<rparr>)"
  have s1: "sound_step w w1" unfolding w1_def by (rule upd_player_sound) (simp add: player_ok_def)
  obtain c w2 where 2: "ShroomRandomSpawnPosition lm w1 True = (c, w2)" by fastforce
  note p = ShroomRandomSpawnPosition_ok [OF assms(1) sound_step_ok [OF s1 assms(2)], unfolded 2 fst_conv snd_conv]
  have "sound_step w2 (ShroomRespawnPlayer lm w i)"
    unfolding ShroomRespawnPlayer_def Let_def w1_def [symmetric] 2 prod.case
    by (rule upd_player_sound) (use p default_mass unit_zero in \<open>simp add: player_ok_def\<close>)
  from sound_step_trans [OF sound_step_trans [OF s1 reseeded_sound [OF p(1)]] this] show ?thesis .
qed

lemma append_player_sound:
  assumes "length (ws_players w) < SHROOM_MAX_PLAYER_ENTITIES"
  shows "sound_step w (w\<lparr>ws_players := ws_players w @ [empty_player]\<rparr>)"
  using assms empty_player_ok by (auto simp: sound_step_def same_match_def world_ok_def)

lemma SpawnPlayer_sound:
  assumes "libm_ok lm" and "world_ok w"
  shows "sound_step w (snd (ShroomWorldSpawnPlayer lm w k b))"
proof -
  let ?free = "find_index (\<lambda>p. \<not> pl_alive p) (ws_players w)"
  consider "k = 0 \<or> ?free = None \<and> SHROOM_MAX_PLAYER_ENTITIES \<le> length (ws_players w)"
    | "k \<noteq> 0" "?free = None \<longrightarrow> length (ws_players w) < SHROOM_MAX_PLAYER_ENTITIES" by fastforce
  then show ?thesis
  proof cases
    case 1
    then show ?thesis by (auto simp: ShroomWorldSpawnPlayer_def Let_def)
  next
    case 2
    define w1 where "w1 = snd (ShroomWorldEnsureRoundStats w k)"
    define i where "i = (case ?free of Some i \<Rightarrow> i | None \<Rightarrow> length (ws_players w1))"
    define w2 where "w2 = (case ?free of Some _ \<Rightarrow> w1 | None \<Rightarrow> w1\<lparr>ws_players := ws_players w1 @ [empty_player]\<rparr>)"
    obtain e w3 where 3: "fresh_entity 0 w2 = (e, w3)" by fastforce
    obtain c w4 where 4: "ShroomRandomSpawnPosition lm w3 True = (c, w4)" by fastforce
    have s1: "sound_step w w1" unfolding w1_def by (rule EnsureRoundStats_sound)
    have "sound_step w1 w2" using 2(2) append_player_sound [of w1]
      by (cases ?free) (simp_all add: w2_def w1_def del: find_index_None)
    moreover have "sound_step w2 w3" using fresh_entity_sound [of w2 0] by (simp add: 3)
    ultimately have s3: "sound_step w w3" by (blast intro: s1 sound_step_trans)
    note p = ShroomRandomSpawnPosition_ok [OF assms(1) sound_step_ok [OF s3 assms(2)], unfolded 4 fst_conv snd_conv]
    have len: "length (ws_players w1) = length (ws_players w)" by (simp add: w1_def)
    have eq: "snd (ShroomWorldSpawnPlayer lm w k b) = upd_player w4 i (\<lambda>_. empty_player\<lparr>pl_player_id := k, pl_entity_id := e,
        pl_position := c, pl_mass := SHROOM_DEFAULT_PLAYER_MASS, pl_radius := ShroomMassToRadius SHROOM_DEFAULT_PLAYER_MASS,
        pl_last_move_time_ms := ShroomWorldCurrentTimeMs w4, pl_alive := True, pl_is_bot := b,
        pl_spawn_protection_timer := if b then 0 else SHROOM_PLAYER_SPAWN_PROTECTION_SECONDS, pl_life_generation := 1\<rparr>)"
      using 2 unfolding ShroomWorldSpawnPlayer_def Let_def w1_def [symmetric] i_def [symmetric] w2_def [symmetric] 3 4 prod.case
      by (auto simp del: find_index_None)
    have "sound_step w4 (snd (ShroomWorldSpawnPlayer lm w k b))"
      unfolding eq by (rule upd_player_sound) (use p default_mass empty_player_ok in \<open>simp add: player_ok_def\<close>)
    from sound_step_trans [OF sound_step_trans [OF s3 reseeded_sound [OF p(1)]] this] show ?thesis .
  qed
qed

lemma drop_empty_tail_le: "length (drop_empty_tail ps) \<le> length ps" "list_all P ps \<Longrightarrow> list_all P (drop_empty_tail ps)"
proof -
  show "length (drop_empty_tail ps) \<le> length ps"
    using length_dropWhile_le [of "\<lambda>p. pl_player_id p = 0" "rev ps"] by (simp add: drop_empty_tail_def)
  show "list_all P ps \<Longrightarrow> list_all P (drop_empty_tail ps)"
    by (auto simp: drop_empty_tail_def list_all_iff dest: set_dropWhileD)
qed

lemma RemovePlayer_ok:
  assumes "world_ok w"
  shows "world_ok (snd (ShroomWorldRemovePlayer w k))"
proof -
  let ?ps = "drop_empty_tail (map (\<lambda>p. if pl_player_id p = k then empty_player else p) (ws_players w))"
  have len: "length ?ps \<le> length (ws_players w)" by (rule drop_empty_tail_le(1) [THEN order_trans]) simp
  have "list_all player_ok ?ps"
    by (rule drop_empty_tail_le(2)) (use assms empty_player_ok in \<open>auto simp: world_ok_def list_all_iff\<close>)
  with assms len have 1: "world_ok (w\<lparr>ws_players := ?ps\<rparr>)" by (simp add: world_ok_def)
  have stats: "map rss_player_id ((ws_round_stats w)[i := zero_stats_slot]) = (map rss_player_id (ws_round_stats w))[i := 0]" for i
    by (simp add: map_update zero_stats_slot_def)
  show ?thesis using 1 assms
    by (auto simp: ShroomWorldRemovePlayer_def Let_def world_ok_def ids_ok_clear stats split: option.split)
qed

section \<open>Collecting spores\<close>

lemma sum_not_nan: "f32_finite a \<Longrightarrow> f32_finite b \<Longrightarrow> \<not> f32_is_nan (f32_add a b)"
  by (rule rounded_not_nan [OF f32_add_rounded])

lemma mass_gain: "mass_ok m \<Longrightarrow> f32_finite x \<Longrightarrow> mass_ok (ShroomClamp (f32_add m x) 0 SHROOM_MAX_PLAYER_MASS)"
  by (rule mass_clamp, rule sum_not_nan) (simp_all add: mass_ok_def within_finite)

lemma mass_finite: "mass_ok m \<Longrightarrow> f32_finite m"
  by (simp add: mass_ok_def within_finite)

text \<open>The float of a small positive integer is exact.\<close>

lemma int_unit:
  assumes "0 \<le> n" and "n < 2 ^ 24"
  obtains c where "f32_finite c" and "f32_units c = n * 2 ^ 149"
proof (cases "n = 0")
  case True
  have "f32_finite 0" "f32_units 0 = 0" by code_simp+
  with True that show thesis by simp
next
  case False
  then have pos: "0 < n" using assms(1) by simp
  define d where "d = digits n"
  have d: "1 \<le> d" "d \<le> 24" using pos digits_less [OF assms(2)] by (simp_all add: d_def digits.simps [of n])
  have b: "2 ^ (d - 1) \<le> n" "n < 2 ^ d" using digits_bounds [OF pos] by (simp_all add: d_def)
  define q where "q = n * 2 ^ (24 - d)"
  have "(2 :: int) ^ (d - 1) * 2 ^ (24 - d) = 2 ^ 23" "(2 :: int) ^ d * 2 ^ (24 - d) = 2 ^ 24"
    unfolding power_add [symmetric] using d by simp_all
  then have q: "2 ^ 23 \<le> q" "q < 2 ^ 24"
    unfolding q_def using b mult_right_mono [of "2 ^ (d - 1)" n "2 ^ (24 - d)"] mult_strict_right_mono [of n "2 ^ d" "2 ^ (24 - d)"]
    by simp_all
  define bits where "bits = int (126 + d) * 0x800000 + (q - 0x800000)"
  define c where "c = f32_with_sign False bits"
  have bits: "0 \<le> bits" "bits < 0x7f800000" using q d by (simp_all add: bits_def)
  then have m: "f32_magnitude c = bits" "\<not> f32_neg c" using f32_with_sign [of bits False] by (simp_all add: c_def)
  have fin: "f32_finite c" using bits m by (simp add: f32_finite_def)
  have e: "f32_exponent c = 126 + d" "f32_fraction c = q - 0x800000"
  proof -
    have "(k * 0x800000 + r) div 0x800000 = k" "(k * 0x800000 + r) mod 0x800000 = r" if "0 \<le> r" "r < 0x800000" for k r :: int
      using that by (simp_all add: add.commute [of "k * _"])
    from this [of "q - 0x800000" "int (126 + d)"] q show "f32_exponent c = 126 + d" "f32_fraction c = q - 0x800000"
      unfolding f32_exponent_def f32_fraction_def m(1) bits_def by simp_all
  qed
  have "(24 - d) + (125 + d) = 149" using d by simp
  then have "q * 2 ^ (125 + d) = n * 2 ^ 149" unfolding q_def mult.assoc power_add [symmetric] by simp
  then have "f32_units c = n * 2 ^ 149" using m(2) by (simp add: f32_units_def e Let_def)
  with fin that show thesis by blast
qed

end
