(* ===== verification/Sim_Spawning.thy ===== *)
theory Sim_Spawning
  imports Sim_Sound_Rules
begin

text \<open>
  What spawning does to the players of the world: drawing positions, spores and powerups leave
  them alone, and a newcomer takes one dead or new slot.
\<close>

text \<open>Choosing a position draws numbers and changes nothing else.\<close>

lemma random_ring_point_reseeds: "reseeded w (snd (random_ring_point lm w inner outer margin))"
proof -
  obtain roll w1 where r: "ShroomRandomFloat w (f32_mul inner inner) (f32_mul outer outer) = (roll, w1)" by fastforce
  obtain angle w2 where a: "ShroomRandomFloat w1 0 0x40c90fdb = (angle, w2)" by fastforce
  have "reseeded w w1" "reseeded w1 w2"
    using ShroomRandomFloat_reseeds [of w "f32_mul inner inner" "f32_mul outer outer"]
      ShroomRandomFloat_reseeds [of w1 0 "0x40c90fdb"] by (simp_all add: r a)
  then show ?thesis by (auto simp: random_ring_point_def r a Let_def intro: reseeded_trans)
qed

lemma spawn_candidate_reseeds: "reseeded w (snd (ShroomRandomSpawnCandidate lm w b))"
proof (cases b)
  case False
  obtain x w1 where x: "ShroomRandomFloat w SHROOM_SPAWN_PADDING (f32_sub (ws_width w) SHROOM_SPAWN_PADDING) = (x, w1)" by fastforce
  obtain y w2 where y: "ShroomRandomFloat w1 SHROOM_SPAWN_PADDING (f32_sub (ws_height w) SHROOM_SPAWN_PADDING) = (y, w2)" by fastforce
  have "reseeded w w1" "reseeded w1 w2"
    using ShroomRandomFloat_reseeds [of w SHROOM_SPAWN_PADDING "f32_sub (ws_width w) SHROOM_SPAWN_PADDING"]
      ShroomRandomFloat_reseeds [of w1 SHROOM_SPAWN_PADDING "f32_sub (ws_height w) SHROOM_SPAWN_PADDING"] by (simp_all add: x y)
  moreover have "ws_height w1 = ws_height w" using \<open>reseeded w w1\<close> by (auto simp: reseeded_def)
  ultimately show ?thesis using False by (auto simp: ShroomRandomSpawnCandidate_def x y intro: reseeded_trans)
qed (simp add: ShroomRandomSpawnCandidate_def Let_def random_ring_point_reseeds)

lemma spawn_attempts_reseeds: "reseeded w (snd (spawn_attempts lm n w b best clearance))"
proof (induction n arbitrary: w best clearance)
  case (Suc n)
  obtain c w' where c: "ShroomRandomSpawnCandidate lm w b = (c, w')" by fastforce
  have w': "reseeded w w'" using spawn_candidate_reseeds [of w lm b] by (simp add: c)
  have "reseeded w (snd (spawn_attempts lm n w' b best' clearance'))" for best' clearance'
    by (rule reseeded_trans [OF w' Suc.IH])
  with w' show ?case by (auto simp: c Let_def)
qed simp

lemma spawn_position_reseeds: "reseeded w (snd (ShroomRandomSpawnPosition lm w b))"
proof -
  obtain c w' where c: "ShroomRandomSpawnCandidate lm w b = (c, w')" by fastforce
  have "reseeded w w'" using spawn_candidate_reseeds [of w lm b] by (simp add: c)
  then show ?thesis
    by (simp add: ShroomRandomSpawnPosition_def c) (rule reseeded_trans [OF _ spawn_attempts_reseeds])
qed

text \<open>What entering the world does to the players: one dead or new slot becomes the newcomer.\<close>

lemma SpawnPlayer_players:
  assumes "ShroomWorldSpawnPlayer lm w k b = (Some i, w')"
  obtains ps p where "ws_players w' = ps[i := p]" and "ps = ws_players w \<or> ps = ws_players w @ [empty_player]"
    and "i < length ps" and "\<not> pl_alive (ps ! i)"
    and "pl_player_id p = k" and "pl_alive p" and "pl_is_bot p = b" and "pl_piece_index p = 0" and "k \<noteq> 0"
proof -
  let ?free = "find_index (\<lambda>p. \<not> pl_alive p) (ws_players w)"
  define w0 where "w0 = snd (ShroomWorldEnsureRoundStats w k)"
  define w1 where "w1 = (case ?free of Some _ \<Rightarrow> w0 | None \<Rightarrow> w0\<lparr>ws_players := ws_players w0 @ [empty_player]\<rparr>)"
  have w0: "ws_players w0 = ws_players w" by (simp add: w0_def)
  obtain e w2 where e: "fresh_entity 0 w1 = (e, w2)" by fastforce
  obtain c w3 where c: "ShroomRandomSpawnPosition lm w2 True = (c, w3)" by fastforce
  have ps: "ws_players w3 = ws_players w1"
    using reseeded_players [OF spawn_position_reseeds [of w2 lm True]] e by (auto simp: c fresh_entity_def)
  have free: "k \<noteq> 0" "i = (case ?free of Some i \<Rightarrow> i | None \<Rightarrow> length (ws_players w))"
    and w': "ws_players w' = (ws_players w1)[i := empty_player\<lparr>pl_player_id := k, pl_entity_id := e,
       pl_position := c, pl_mass := SHROOM_DEFAULT_PLAYER_MASS, pl_radius := ShroomMassToRadius SHROOM_DEFAULT_PLAYER_MASS,
       pl_last_move_time_ms := ShroomWorldCurrentTimeMs w3, pl_alive := True, pl_is_bot := b,
       pl_spawn_protection_timer := if b then 0 else SHROOM_PLAYER_SPAWN_PROTECTION_SECONDS, pl_life_generation := 1\<rparr>]"
    using assms unfolding ShroomWorldSpawnPlayer_def Let_def w0_def [symmetric] w1_def [symmetric] e
    by (auto simp: c ps w0 upd_player_def cong: option.case_cong split: if_splits)
  show ?thesis
  proof (rule that [OF w'])
    show "ws_players w1 = ws_players w \<or> ws_players w1 = ws_players w @ [empty_player]"
      by (simp add: w1_def w0 split: option.split)
    show "i < length (ws_players w1)" "\<not> pl_alive (ws_players w1 ! i)"
      using find_index_less [of "\<lambda>p. \<not> pl_alive p" "ws_players w"] find_index_holds [of "\<lambda>p. \<not> pl_alive p" "ws_players w"]
      by (auto simp: free(2) w1_def w0 empty_player_def simp del: find_index_None split: option.split)
  qed (use free(1) in \<open>simp_all add: empty_player_def\<close>)
qed

text \<open>Spores and powerups do not touch the players.\<close>

lemma RandomPointInZone_reseeds: "reseeded w (snd (ShroomRandomPointInZone lm w zone))"
  by (simp add: ShroomRandomPointInZone_def random_ring_point_reseeds)

lemma SpawnOrResetSpore_players [simp]: "ws_players (ShroomSpawnOrResetSpore lm w k) = ws_players w"
proof -
  obtain a w1 where 1: "ShroomRandomFloat w 0 0x3f800000 = (a, w1)" by fastforce
  define zone where "zone = (if f32_lt a 0x3e99999a then SHROOM_ZONE_OUTER
    else if f32_lt a 0x3f266666 then SHROOM_ZONE_MID else SHROOM_ZONE_CENTER)"
  obtain c w2 where 2: "ShroomRandomPointInZone lm w1 zone = (c, w2)" by fastforce
  have "ws_players w2 = ws_players w"
    using reseeded_players [OF ShroomRandomFloat_reseeds [of w 0 "0x3f800000"]]
      reseeded_players [OF RandomPointInZone_reseeds [of w1 lm zone]] by (simp add: 1 2)
  then show ?thesis
    unfolding ShroomSpawnOrResetSpore_def 1 Let_def prod.case zone_def [symmetric] 2 by (simp add: fresh_entity_def)
qed

lemma SpawnOrResetPowerup_players [simp]: "ws_players (ShroomSpawnOrResetPowerup lm w k) = ws_players w"
proof -
  define zone where "zone = (if k mod 4 = 0 then SHROOM_ZONE_OUTER else if k mod 4 = 1 then SHROOM_ZONE_MID else SHROOM_ZONE_CENTER)"
  obtain c w1 where 1: "ShroomRandomPointInZone lm w zone = (c, w1)" by fastforce
  obtain x w2 where 2: "ShroomNextRandom w1 = (x, w2)" by fastforce
  have "ws_players w2 = ws_players w"
    using reseeded_players [OF RandomPointInZone_reseeds [of w lm zone]] reseeded_players [OF ShroomNextRandom_reseeds [of w1]]
    by (simp add: 1 2)
  then show ?thesis
    unfolding ShroomSpawnOrResetPowerup_def zone_def [symmetric] 1 Let_def prod.case 2 by (simp add: fresh_entity_def)
qed

lemma fold_players: "(\<And>x w. ws_players (f x w) = ws_players w) \<Longrightarrow> ws_players (fold f xs w) = ws_players w"
  by (induction xs arbitrary: w) simp_all

lemma Initialize_players [simp]:
  "ws_players (ShroomInitializeSpores lm w) = ws_players w" "ws_players (ShroomInitializePowerups lm w) = ws_players w"
  by (simp_all add: ShroomInitializeSpores_def ShroomInitializePowerups_def fold_players)

text \<open>A split that happens: one free slot becomes a piece like the parent, with half of what is left of its mass.\<close>

definition half_mass :: "f32 \<Rightarrow> f32" where
  "half_mass m = f32_div (f32_sub m (f32_mul m SHROOM_SPLIT_MASS_LOSS_FRACTION)) 0x40000000"

lemma SplitPlayerToward_done:
  assumes "fst (ShroomWorldSplitPlayerToward w i aim)" and "i < length (ws_players w)"
  obtains ps j child parent where
    "ws_players (snd (ShroomWorldSplitPlayerToward w i aim)) = ps[j := child, i := parent]" "i \<noteq> j"
    "ps = ws_players w \<or> ps = ws_players w @ [empty_player] \<and> length (ws_players w) < SHROOM_MAX_PLAYER_ENTITIES"
    "j < length ps" "\<not> pl_alive (ps ! j)" "pl_player_id (ps ! j) = 0"
    "pl_alive child" "pl_player_id child = pl_player_id (player_at w i)" "pl_is_bot child = pl_is_bot (player_at w i)"
    "pl_piece_index child = word_of_nat (ShroomCountPlayerPieces w (pl_player_id (player_at w i)))"
    "pl_mass child = half_mass (pl_mass (player_at w i))"
    "pl_alive parent" "pl_player_id parent = pl_player_id (player_at w i)" "pl_is_bot parent = pl_is_bot (player_at w i)"
    "pl_piece_index parent = pl_piece_index (player_at w i)" "pl_mass parent = half_mass (pl_mass (player_at w i))"
    "ShroomPlayerCanSplit w (player_at w i)"
proof -
  let ?p = "player_at w i"
  let ?free = "find_index (\<lambda>p. \<not> pl_alive p \<and> pl_player_id p = 0) (ws_players w)"
  have can: "ShroomPlayerCanSplit w ?p" and room: "?free = None \<longrightarrow> length (ws_players w) < SHROOM_MAX_PLAYER_ENTITIES"
    using assms(1) unfolding ShroomWorldSplitPlayerToward_def Let_def by (auto simp del: find_index_None split: if_splits)
  define half where "half = half_mass (pl_mass ?p)"
  define dir where "dir = launch_direction aim (pl_input_direction ?p)"
  define j where "j = (case ?free of Some j \<Rightarrow> j | None \<Rightarrow> length (ws_players w))"
  define w1 where "w1 = (case ?free of Some _ \<Rightarrow> w | None \<Rightarrow> w\<lparr>ws_players := ws_players w @ [empty_player]\<rparr>)"
  obtain e w2 where e: "fresh_entity 0 w1 = (e, w2)" by fastforce
  have ps: "ws_players w2 = ws_players w1" using e by (auto simp: fresh_entity_def)
  define child where "child = empty_player\<lparr>pl_player_id := pl_player_id ?p, pl_entity_id := e,
    pl_position := pl_position ?p, pl_input_direction := dir, pl_mass := half, pl_radius := ShroomMassToRadius half,
    pl_last_move_time_ms := ShroomWorldCurrentTimeMs w2,
    pl_name := fst (snprintf_s (replicate SHROOM_MAX_NAME_LENGTH 0) (pl_name ?p)),
    pl_alive := True, pl_is_bot := pl_is_bot ?p, pl_ai_controlled := pl_is_bot ?p,
    pl_split_velocity := ShroomVec2Scale dir SHROOM_SPLIT_IMPULSE_SPEED, pl_merge_timer := SHROOM_SPLIT_MERGE_SECONDS,
    pl_spawn_protection_timer := SHROOM_SPLIT_PROTECTION_SECONDS,
    pl_piece_index := word_of_nat (ShroomCountPlayerPieces w (pl_player_id ?p)), pl_life_generation := pl_life_generation ?p\<rparr>"
  define w3 where "w3 = upd_player w2 j (\<lambda>_. child)"
  define parent where "parent = (\<lambda>p. p\<lparr>pl_mass := half, pl_radius := ShroomMassToRadius half,
      pl_last_move_time_ms := ShroomWorldCurrentTimeMs w3, pl_has_split := True,
      pl_merge_timer := if f32_le (pl_merge_timer p) 0 then SHROOM_SPLIT_MERGE_SECONDS else pl_merge_timer p,
      pl_spawn_protection_timer := SHROOM_SPLIT_PROTECTION_SECONDS\<rparr> :: ShroomPlayerState)"
  have false: "(?free = None \<and> SHROOM_MAX_PLAYER_ENTITIES \<le> length (ws_players w)) = False" "(\<not> ShroomPlayerCanSplit w ?p) = False"
    using can room by (blast dest: leD)+
  have "snd (ShroomWorldSplitPlayerToward w i aim) = upd_player w3 i parent"
    unfolding ShroomWorldSplitPlayerToward_def Let_def j_def [symmetric] w1_def [symmetric]
      half_mass_def [symmetric] half_def [symmetric] dir_def [symmetric] e prod.case child_def [symmetric] w3_def [symmetric] parent_def
    by (simp only: false if_False snd_conv)
  then have eq: "ws_players (snd (ShroomWorldSplitPlayerToward w i aim)) =
      (ws_players w1)[j := child, i := parent ((ws_players w1)[j := child] ! i)]"
    by (simp add: upd_player_def w3_def ps)
  have w1: "ws_players w1 = ws_players w \<or>
      ws_players w1 = ws_players w @ [empty_player] \<and> length (ws_players w) < SHROOM_MAX_PLAYER_ENTITIES"
    using room unfolding w1_def by (cases ?free) (simp_all del: find_index_None)
  have j: "j < length (ws_players w1)" "\<not> pl_alive (ws_players w1 ! j)" "pl_player_id (ws_players w1 ! j) = 0"
    using find_index_less [of "\<lambda>p. \<not> pl_alive p \<and> pl_player_id p = 0" "ws_players w"]
      find_index_holds [of "\<lambda>p. \<not> pl_alive p \<and> pl_player_id p = 0" "ws_players w"]
    by (auto simp: j_def w1_def empty_player_def simp del: find_index_None split: option.split)
  have alive: "pl_alive ?p" using can by (simp add: ShroomPlayerCanSplit_def split: if_splits)
  have i: "ws_players w1 ! i = ?p" using w1 assms(2) by (auto simp: nth_append)
  then have "i \<noteq> j" using alive j(2) by auto
  then have eq': "ws_players (snd (ShroomWorldSplitPlayerToward w i aim)) = (ws_players w1)[j := child, i := parent ?p]"
    using eq i by simp
  show ?thesis
    by (rule that [OF eq' \<open>i \<noteq> j\<close> w1 j]) (simp_all add: child_def parent_def half_def can alive)
qed

end
