(* ===== verification/C_Numbers.thy ===== *)
theory C_Numbers
  imports C_Text
begin

text \<open>
  Numbers as texts: what \<open>printf\<close> writes for \<open>%u\<close> and \<open>%d\<close>, and what \<open>strtol\<close> and \<open>strtoul\<close> read (base ten),
  with their round trips.
\<close>

text \<open>Text in bytes.\<close>

definition ascii :: "string \<Rightarrow> u8 list" where
  "ascii s = map of_char s"

lemma ascii_eq_iff [simp]: "ascii a = ascii b \<longleftrightarrow> a = b"
proof -
  have "inj (of_char :: char \<Rightarrow> u8)"
  proof (rule injI)
    fix c d :: char assume "(of_char c :: u8) = of_char d"
    then have "unat (of_nat (of_char c) :: u8) = unat (of_nat (of_char d) :: u8)" by (simp only: of_nat_of_char)
    then have "(of_char c mod 256 :: nat) = of_char d mod 256" by (simp add: unat_of_nat del: of_char_mod_256 of_nat_of_char)
    then show "c = d" by simp
  qed
  then show ?thesis by (simp add: ascii_def inj_map_eq_map)
qed

fun decimal :: "nat \<Rightarrow> u8 list" where
  "decimal n = (if n < 10 then [word_of_nat (48 + n)] else decimal (n div 10) @ [word_of_nat (48 + n mod 10)])"

declare decimal.simps [simp del]

definition decimal_int :: "int \<Rightarrow> u8 list" where
  "decimal_int v = (if v < 0 then 0x2D # decimal (nat (- v)) else decimal (nat v))"

definition digits_value :: "u8 list \<Rightarrow> nat" where
  "digits_value ds = foldl (\<lambda>n d. 10 * n + (unat d - 48)) 0 ds"

text \<open>The sign and the digits of a number after leading white space, the value and what follows; without digits
  nothing is read.\<close>

definition read_number :: "u8 list \<Rightarrow> int \<times> u8 list" where
  "read_number text =
     (let s = dropWhile isspace text; negative = (s \<noteq> [] \<and> hd s = 0x2D);
          s = (if s \<noteq> [] \<and> (hd s = 0x2D \<or> hd s = 0x2B) then tl s else s); ds = takeWhile isdigit s
      in if ds = [] then (0, text)
         else (if negative then - int (digits_value ds) else int (digits_value ds), dropWhile isdigit s))"

lemma unat_digit: "k < 10 \<Longrightarrow> unat (word_of_nat (48 + k) :: u8) = 48 + k"
  by (rule unat_word_of_nat_small) simp

lemma decimal_digits: "d \<in> set (decimal n) \<Longrightarrow> isdigit d" and decimal_nonempty: "decimal n \<noteq> []"
proof (induction n rule: decimal.induct)
  case (1 n)
  { case 1
    have digit: "isdigit (word_of_nat (48 + k))" if "k < 10" for k
      using unat_digit [OF that] that by (simp add: isdigit_def word_le_nat_alt del: of_nat_add)
    from 1 "1.IH"(1) digit [of n] digit [of "n mod 10"] show ?case by (subst (asm) decimal.simps) (auto split: if_splits)
  next
    case 2
    show ?case by (subst decimal.simps) simp
  }
qed

lemma digits_value_decimal: "digits_value (decimal n) = n"
proof (induction n rule: decimal.induct)
  case (1 n)
  show ?case
  proof (cases "n < 10")
    case True
    then show ?thesis using unat_digit [OF True]
      by (subst decimal.simps) (simp add: digits_value_def del: of_nat_add)
  next
    case False
    have "n mod 10 < 10" by simp
    note digit = unat_digit [OF this]
    have "digits_value (decimal n) = 10 * digits_value (decimal (n div 10)) + n mod 10"
      using False digit by (subst decimal.simps) (simp add: digits_value_def del: of_nat_add)
    also have "digits_value (decimal (n div 10)) = n div 10" using 1 False by simp
    finally show ?thesis by simp
  qed
qed

lemma digit_not_space: "isdigit d \<Longrightarrow> \<not> isspace d" "isdigit d \<Longrightarrow> d \<noteq> 0x2D \<and> d \<noteq> 0x2B \<and> d \<noteq> 0 \<and> d \<noteq> 10 \<and> d \<noteq> 13 \<and> d \<noteq> 0x3D \<and> d \<noteq> 0x7C"
  by (auto simp: isdigit_def isspace_def word_le_nat_alt)

lemma read_number_decimal:
  assumes "rest = [] \<or> \<not> isdigit (hd rest)"
  shows "read_number (decimal n @ rest) = (int n, rest)"
proof -
  obtain d ds where d: "decimal n = d # ds" using decimal_nonempty [of n] by (cases "decimal n") auto
  have digits: "\<forall>x\<in>set (decimal n). isdigit x" using decimal_digits by blast
  then have t: "takeWhile isdigit (decimal n @ rest) = decimal n" "dropWhile isdigit (decimal n @ rest) = rest"
    using assms by (cases rest; simp add: takeWhile_append2 dropWhile_append2)+
  have "isdigit d" using digits d by simp
  note first = digit_not_space [OF this]
  have s: "dropWhile isspace (decimal n @ rest) = decimal n @ rest" "hd (decimal n @ rest) = d" "decimal n @ rest \<noteq> []"
    using first d by simp_all
  show ?thesis using first decimal_nonempty [of n] unfolding read_number_def Let_def s t by (simp add: t digits_value_decimal)
qed

lemma read_number_decimal_int:
  assumes "rest = [] \<or> \<not> isdigit (hd rest)"
  shows "read_number (decimal_int v @ rest) = (v, rest)"
proof (cases "v < 0")
  case True
  let ?n = "nat (- v)"
  have digits: "\<forall>x\<in>set (decimal ?n). isdigit x" using decimal_digits by blast
  then have t: "takeWhile isdigit (decimal ?n @ rest) = decimal ?n" "dropWhile isdigit (decimal ?n @ rest) = rest"
    using assms by (cases rest; simp add: takeWhile_append2 dropWhile_append2)+
  have "\<not> isspace 0x2D" by (simp add: isspace_def)
  with True show ?thesis using decimal_nonempty [of ?n]
    by (simp add: read_number_def decimal_int_def Let_def t digits_value_decimal)
next
  case False
  then show ?thesis using read_number_decimal [OF assms, of "nat v"] by (simp add: decimal_int_def)
qed

lemma decimal_int_chars: "d \<in> set (decimal_int v) \<Longrightarrow> isdigit d \<or> d = 0x2D" "decimal_int v \<noteq> []"
  using decimal_digits decimal_nonempty by (auto simp: decimal_int_def split: if_splits)

text \<open>A number below \<open>10 ^ k\<close> has at most \<open>k\<close> digits.\<close>

lemma decimal_length: "n < 10 ^ k \<Longrightarrow> 0 < k \<Longrightarrow> length (decimal n) \<le> k"
proof (induction n arbitrary: k rule: decimal.induct)
  case (1 n)
  show ?case
  proof (cases "n < 10")
    case True
    then show ?thesis using 1 by (subst decimal.simps) simp
  next
    case False
    with "1.prems" have "1 < k" by (metis less_one linorder_neqE_nat not_less_iff_gr_or_eq power_one_right)
    moreover have "n div 10 < 10 ^ (k - 1)" using "1.prems" calculation by (cases k) auto
    ultimately have "length (decimal (n div 10)) \<le> k - 1" using "1.IH" False by simp
    with False \<open>1 < k\<close> show ?thesis by (subst decimal.simps) simp
  qed
qed

end
