(* ===== verification/Server_Lobby.thy ===== *)
theory Server_Lobby
  imports Server_Input Sim_Spawning C_Numbers
begin

text \<open>
  Lobbies (\<open>src/src/server/main.c\<close>, \<open>lobby_capacity.c\<close>, \<open>session_cleanup.c\<close>): counting who is there,
  the bots that fill a lobby, creating lobbies, entering and leaving them, and the vote between two
  rounds.  What SQLite, the clock and the random source answer are arguments.
\<close>

section \<open>Who is in a lobby\<close>

definition CountLobbyRealPlayers :: "server_peer list \<Rightarrow> u32 \<Rightarrow> u16" where
  "CountLobbyRealPlayers peers lobby_id =
     word_of_nat (count_if (\<lambda>p. in_lobby lobby_id p \<and> \<not> se_spectating (pe_session p)) peers)"

definition CountLobbySpectators :: "server_peer list \<Rightarrow> u32 \<Rightarrow> u16" where
  "CountLobbySpectators peers lobby_id =
     word_of_nat (count_if (\<lambda>p. in_lobby lobby_id p \<and> se_spectating (pe_session p)) peers)"

definition alive_bot :: "ShroomPlayerState \<Rightarrow> bool" where
  "alive_bot p \<longleftrightarrow> pl_alive p \<and> pl_is_bot p \<and> pl_piece_index p = 0"

definition CountLobbyAliveBots :: "ShroomLobby \<Rightarrow> u16" where
  "CountLobbyAliveBots lobby = word_of_nat (count_if alive_bot (ws_players (lb_world lobby)))"

definition CountAdvertisedPlayers :: "server_peer list \<Rightarrow> u16" where
  "CountAdvertisedPlayers peers =
     (let count = count_if (\<lambda>p. pe_connected p \<and> pe_attached p \<and> se_active (pe_session p) \<and>
            \<not> se_spectating (pe_session p)) peers
      in if 0xFFFF < count then 0xFFFF else word_of_nat count)"

definition FindLobbyById :: "ShroomLobby list \<Rightarrow> u32 \<Rightarrow> nat option" where
  "FindLobbyById lobbies lobby_id =
     (if lobby_id = 0 then None else find_index (\<lambda>l. lb_active l \<and> lb_lobby_id l = lobby_id) lobbies)"

section \<open>Bots\<close>

definition GetLobbyBotTarget :: "u16 \<Rightarrow> u16" where
  "GetLobbyBotTarget real_player_count =
     (let weighted_real_players = ucast real_player_count * SHROOM_BOT_REAL_PLAYER_WEIGHT;
          target = (if SHROOM_BOT_TARGET_TOTAL \<le> weighted_real_players then SHROOM_BOT_FLOOR
                    else SHROOM_BOT_TARGET_TOTAL - weighted_real_players);
          max_bots_for_capacity = (if SHROOM_MAX_PARTICIPANTS \<le> unat real_player_count then 0
                    else word_of_nat SHROOM_MAX_PARTICIPANTS - ucast real_player_count);
          target = (if target < SHROOM_BOT_FLOOR \<and> SHROOM_BOT_FLOOR \<le> max_bots_for_capacity
                    then SHROOM_BOT_FLOOR else target);
          target = (if max_bots_for_capacity < target then max_bots_for_capacity else target)
      in ucast target)"

definition kBotNamePrefixes :: "u8 list list" where
  "kBotNamePrefixes = map ascii [''Mycelium'', ''Sporecap'', ''Hyphae'', ''Spore'', ''Fungal'', ''Myco'', ''Shroom'', ''Mold'']"

definition AssignBotName :: "ShroomPlayerState \<Rightarrow> u32 \<Rightarrow> ShroomPlayerState" where
  "AssignBotName player bot_number =
     player\<lparr>pl_name := fst (snprintf_s (pl_name player)
       (kBotNamePrefixes ! unat ((bot_number - 1) mod 8) @ ascii ''-'' @ decimal (unat bot_number)))\<rparr>"

definition AddLobbyBot :: "libm \<Rightarrow> ShroomLobby \<Rightarrow> u32 \<Rightarrow> bool \<times> ShroomLobby \<times> u32" where
  "AddLobbyBot lm lobby next_player_id =
     (case ShroomWorldSpawnPlayer lm (lb_world lobby) next_player_id True of
        (None, world) \<Rightarrow> (False, lobby\<lparr>lb_world := world\<rparr>, next_player_id + 1)
      | (Some i, world) \<Rightarrow>
          (True, lobby\<lparr>lb_world := upd_player world i (\<lambda>p. AssignBotName p next_player_id)\<rparr>, next_player_id + 1))"

text \<open>The last live primary bot; all the pieces of that player are zeroed.\<close>

definition RemoveLobbyBot :: "ShroomLobby \<Rightarrow> bool \<times> ShroomLobby" where
  "RemoveLobbyBot lobby =
     (let players = ws_players (lb_world lobby);
          removed_player_id = (case find alive_bot (rev players) of None \<Rightarrow> 0 | Some p \<Rightarrow> pl_player_id p)
      in if removed_player_id = 0 then (False, lobby)
         else (True, upd_world (\<lambda>world. world\<lparr>ws_players :=
                map (\<lambda>p. if pl_player_id p = removed_player_id then empty_player else p) players\<rparr>) lobby))"

definition AdjustLobbyBots :: "libm \<Rightarrow> ShroomLobby \<Rightarrow> server_peer list \<Rightarrow> u32 \<Rightarrow> u64 \<Rightarrow> ShroomLobby \<times> u32" where
  "AdjustLobbyBots lm lobby peers next_player_id now_ms =
     (let target_bot_count = GetLobbyBotTarget (CountLobbyRealPlayers peers (lb_lobby_id lobby));
          current_bot_count = CountLobbyAliveBots lobby
      in if current_bot_count = target_bot_count then (lobby\<lparr>lb_last_bot_adjust_ms := now_ms\<rparr>, next_player_id)
         else if lb_last_bot_adjust_ms lobby \<noteq> 0 \<and> now_ms - lb_last_bot_adjust_ms lobby < kBotAdjustIntervalMs
         then (lobby, next_player_id)
         else
           let lobby = lobby\<lparr>lb_last_bot_adjust_ms := now_ms\<rparr>
           in if current_bot_count < target_bot_count
              then snd (AddLobbyBot lm lobby next_player_id)
              else (snd (RemoveLobbyBot lobby), next_player_id))"

section \<open>Filling a new lobby\<close>

text \<open>Adding a bot that finds room adds exactly one to the count, so the loop ends.\<close>

lemma unat_less_Suc: "(a :: 'a::len word) < b \<Longrightarrow> unat (a + 1) = Suc (unat a)"
  by unat_arith

lemma AddLobbyBot_count:
  assumes "AddLobbyBot lm lobby k = (True, lobby', k')"
  shows "CountLobbyAliveBots lobby' = CountLobbyAliveBots lobby + 1"
proof -
  obtain i w where sp: "ShroomWorldSpawnPlayer lm (lb_world lobby) k True = (Some i, w)"
    and l': "lobby' = lobby\<lparr>lb_world := upd_player w i (\<lambda>p. AssignBotName p k)\<rparr>"
    using assms by (auto simp: AddLobbyBot_def split: prod.splits option.splits)
  from SpawnPlayer_players [OF sp] obtain ps p where p: "ws_players w = ps[i := p]"
    "ps = ws_players (lb_world lobby) \<or> ps = ws_players (lb_world lobby) @ [empty_player]" "i < length ps"
    "\<not> pl_alive (ps ! i)" "pl_alive p" "pl_is_bot p" "pl_piece_index p = 0" by metis
  have "count_if alive_bot ps = count_if alive_bot (ws_players (lb_world lobby))"
    using p(2) by (auto simp: count_if_def alive_bot_def empty_player_def)
  moreover have "count_if alive_bot (ps[i := AssignBotName p k]) = Suc (count_if alive_bot ps)"
    using p(4-7) count_if_update [OF p(3), of alive_bot "AssignBotName p k"] by (simp add: alive_bot_def AssignBotName_def)
  ultimately show ?thesis using p(1,3) by (simp add: CountLobbyAliveBots_def l' upd_player_def)
qed

function InitializeLobbyBots :: "libm \<Rightarrow> ShroomLobby \<Rightarrow> u32 \<Rightarrow> ShroomLobby \<times> u32" where
  "InitializeLobbyBots lm lobby next_player_id =
     (if CountLobbyAliveBots lobby < GetLobbyBotTarget 0 then
        case AddLobbyBot lm lobby next_player_id of
          (False, lobby, next_player_id) \<Rightarrow> (lobby, next_player_id)
        | (True, lobby, next_player_id) \<Rightarrow> InitializeLobbyBots lm lobby next_player_id
      else (lobby, next_player_id))"
  by pat_completeness simp

termination
proof (relation "measure (\<lambda>(lm, lobby, k). unat (GetLobbyBotTarget 0) - unat (CountLobbyAliveBots lobby))")
  fix lm lobby k b y lobby' k'
  assume less: "CountLobbyAliveBots lobby < GetLobbyBotTarget 0"
    and step: "(b, y) = AddLobbyBot lm lobby k" "b = True" "(lobby', k') = y"
  from step have "AddLobbyBot lm lobby k = (True, lobby', k')" by simp
  then have "CountLobbyAliveBots lobby' = CountLobbyAliveBots lobby + 1" by (rule AddLobbyBot_count)
  moreover have "unat (CountLobbyAliveBots lobby + 1) = Suc (unat (CountLobbyAliveBots lobby))"
    by (rule unat_less_Suc [OF less])
  ultimately show "((lm, lobby', k'), (lm, lobby, k)) \<in>
      measure (\<lambda>(lm, lobby, k). unat (GetLobbyBotTarget 0) - unat (CountLobbyAliveBots lobby))"
    using less by (simp add: word_less_nat_alt)
qed simp

declare InitializeLobbyBots.simps [simp del]

end
