(* ===== verification/Player_Identity.thy ===== *)
theory Player_Identity
  imports C_Text Protocol
begin

text \<open>
  Player names (\<open>src/src/shared/player_identity.h\<close>).  The loop appends to the text written so far;
  \<open>None\<close>: the terminating NUL is written behind the array.
\<close>

definition name_byte :: "u8 \<Rightarrow> bool" where
  "name_byte c \<longleftrightarrow> isalnum c \<or> c = 0x5F \<or> c = 0x2D \<or> c = 0x2E"

fun sanitize_loop :: "u8 list \<Rightarrow> u8 list \<Rightarrow> bool \<Rightarrow> u8 list" where
  "sanitize_loop [] written pending_space = written"
| "sanitize_loop (c # source) written pending_space =
     (if \<not> length written + 1 < SHROOM_MAX_NAME_LENGTH then written
      else if isspace c then sanitize_loop source written (written \<noteq> [])
      else if \<not> name_byte c then sanitize_loop source written pending_space
      else
        let written = (if pending_space \<and> length written + 1 < SHROOM_MAX_NAME_LENGTH then written @ [0x20] else written)
        in sanitize_loop source (written @ [c]) False)"

definition ShroomSanitizePlayerName :: "u8 list \<Rightarrow> u8 list option \<Rightarrow> u8 list option" where
  "ShroomSanitizePlayerName dest source =
     (case source of
        None \<Rightarrow> Some (0 # tl dest)
      | Some source \<Rightarrow>
          let written = sanitize_loop (c_string source) [] False
          in if length written < SHROOM_MAX_NAME_LENGTH then Some (written @ 0 # drop (Suc (length written)) dest) else None)"

text \<open>Words of name bytes, separated by single spaces.\<close>

fun name_shape :: "bool \<Rightarrow> u8 list \<Rightarrow> bool" where
  "name_shape space_allowed [] \<longleftrightarrow> True"
| "name_shape space_allowed (c # cs) \<longleftrightarrow>
     (if c = 0x20 then space_allowed \<and> cs \<noteq> [] \<and> name_shape False cs else name_byte c \<and> name_shape True cs)"

lemma name_shape_append:
  "name_shape b written \<Longrightarrow> name_byte c \<Longrightarrow> c \<noteq> 0x20 \<Longrightarrow> name_shape b (written @ [c])"
  by (induction written arbitrary: b) auto

lemma name_shape_space:
  "name_shape b written \<Longrightarrow> written \<noteq> [] \<Longrightarrow> name_byte c \<Longrightarrow> c \<noteq> 0x20 \<Longrightarrow> name_shape b (written @ [0x20, c])"
proof (induction written arbitrary: b)
  case (Cons d written)
  then show ?case by (cases "written = []") auto
qed simp

lemma name_byte_space: "\<not> name_byte 0x20" "\<not> name_byte 0"
  by (simp_all add: name_byte_def isalnum_def isalpha_def isdigit_def)

lemma sanitize_loop_shape:
  "name_shape False written \<Longrightarrow> (pending \<longrightarrow> written \<noteq> []) \<Longrightarrow> name_shape False (sanitize_loop source written pending)"
proof (induction source written pending rule: sanitize_loop.induct)
  case (2 c source written pending)
  show ?case
  proof (cases "length written + 1 < SHROOM_MAX_NAME_LENGTH \<and> \<not> isspace c \<and> name_byte c")
    case True
    then have "c \<noteq> 0x20" using name_byte_space by metis
    with True 2 show ?thesis by (auto simp: Let_def name_shape_append name_shape_space)
  qed (use 2 in auto)
qed simp

lemma name_shape_last: "\<not> name_shape b (written @ [0x20])"
  by (induction written arbitrary: b) auto

lemma name_shape_nonzero: "name_shape b written \<Longrightarrow> 0 \<notin> set written"
  by (induction b written rule: name_shape.induct) (auto simp: name_byte_space split: if_splits)

section \<open>The text of a name\<close>

text \<open>
  What the loop computes, without its bound: the words of the source, separated by any white
  space, each without the bytes a name may not have, the empty ones dropped, joined by one space.
\<close>

function name_words :: "u8 list \<Rightarrow> u8 list list" where
  "name_words [] = []"
| "name_words (c # cs) =
     (if isspace c then name_words cs
      else takeWhile (\<lambda>c. \<not> isspace c) (c # cs) # name_words (dropWhile (\<lambda>c. \<not> isspace c) cs))"
  by pat_completeness auto
termination
  by (relation "measure length") (simp_all add: length_dropWhile_le le_imp_less_Suc)

definition join_words :: "u8 list list \<Rightarrow> u8 list" where
  "join_words ws = (case ws of [] \<Rightarrow> [] | w # ws \<Rightarrow> w @ concat (map (\<lambda>v. 0x20 # v) ws))"

definition kept_words :: "u8 list \<Rightarrow> u8 list list" where
  "kept_words source = filter (\<lambda>w. w \<noteq> []) (map (filter name_byte) (name_words source))"

definition normal_name :: "u8 list \<Rightarrow> u8 list" where
  "normal_name source = join_words (kept_words source)"

text \<open>What the loop appends, without its bound.\<close>

fun emitted :: "u8 list \<Rightarrow> bool \<Rightarrow> bool \<Rightarrow> u8 list" where
  "emitted [] started pending = []"
| "emitted (c # source) started pending =
     (if isspace c then emitted source started started
      else if \<not> name_byte c then emitted source started pending
      else (if pending then [0x20, c] else [c]) @ emitted source True False)"

lemma emitted_word:
  "emitted source started pending =
     (let w = filter name_byte (takeWhile (\<lambda>c. \<not> isspace c) source);
          rest = dropWhile (\<lambda>c. \<not> isspace c) source
      in if w = [] then emitted rest started pending
         else (if pending then 0x20 # w else w) @ emitted rest True False)"
  by (induction source started pending rule: emitted.induct) (auto simp: Let_def)

lemma emitted_at_space:
  "emitted (dropWhile (\<lambda>c. \<not> isspace c) source) True False = emitted (dropWhile (\<lambda>c. \<not> isspace c) source) True True"
  by (induction source) auto

lemma kept_words_Cons:
  "kept_words (c # cs) =
     (if isspace c then kept_words cs
      else let w = filter name_byte (takeWhile (\<lambda>c. \<not> isspace c) (c # cs));
               rest = kept_words (dropWhile (\<lambda>c. \<not> isspace c) cs)
           in if w = [] then rest else w # rest)"
  by (simp add: kept_words_def Let_def)

lemma emitted_pending: "emitted source True True = concat (map (\<lambda>v. 0x20 # v) (kept_words source))"
proof (induction source rule: name_words.induct)
  case (2 c cs)
  show ?case
  proof (cases "isspace c")
    case True
    with 2 show ?thesis by (simp add: kept_words_Cons)
  next
    case False
    with 2 show ?thesis
      by (subst emitted_word) (simp add: kept_words_Cons Let_def emitted_at_space)
  qed
qed (simp add: kept_words_def)

lemma emitted_normal: "emitted source False False = normal_name source"
proof (induction source rule: name_words.induct)
  case (2 c cs)
  show ?case
  proof (cases "isspace c")
    case True
    with 2 show ?thesis by (simp add: kept_words_Cons normal_name_def)
  next
    case False
    with 2 show ?thesis
      by (subst emitted_word)
        (simp add: kept_words_Cons Let_def emitted_at_space emitted_pending normal_name_def join_words_def)
  qed
qed (simp add: kept_words_def normal_name_def join_words_def)

text \<open>The bounded loop writes a prefix of that text: 31 bytes, or 32 when the 31st is a space.\<close>

lemma sanitize_loop_prefix:
  "length written \<le> 30 \<Longrightarrow> sanitize_loop source written pending =
     (let T = written @ emitted source (written \<noteq> []) pending
      in take (if 30 < length T \<and> T ! 30 = 0x20 then 32 else 31) T)"
proof (induction source written pending rule: sanitize_loop.induct)
  case (2 c source written pending)
  show ?case
  proof (cases "isspace c \<or> \<not> name_byte c")
    case True
    with 2 show ?thesis by (auto simp: SHROOM_MAX_NAME_LENGTH_def)
  next
    case False
    then have c: "\<not> isspace c" "name_byte c" "c \<noteq> 0x20" using name_byte_space by auto
    let ?w = "(if pending then written @ [0x20] else written) @ [c]"
    have step: "sanitize_loop (c # source) written pending = sanitize_loop source ?w False"
      using c 2(4) by (simp add: SHROOM_MAX_NAME_LENGTH_def)
    have txts: "written @ emitted (c # source) (written \<noteq> []) pending = ?w @ emitted source (?w \<noteq> []) False"
      using c by simp
    show ?thesis
    proof (cases "length ?w \<le> 30")
      case True
      have space: "(if pending \<and> length written + 1 < SHROOM_MAX_NAME_LENGTH then written @ [0x20] else written) =
          (if pending then written @ [0x20] else written)" using 2(4) by (simp add: SHROOM_MAX_NAME_LENGTH_def)
      have "\<not> \<not> length written + 1 < SHROOM_MAX_NAME_LENGTH" using 2(4) by (simp add: SHROOM_MAX_NAME_LENGTH_def)
      from 2(3) [OF this c(1) _ refl] c(2) True show ?thesis unfolding step txts space by blast
    next
      case False
      then have stop: "sanitize_loop source ?w False = ?w" by (cases source) (simp_all add: SHROOM_MAX_NAME_LENGTH_def)
      consider "length written = 30" | "length written = 29" "pending" using False 2(4) by (cases pending; simp; linarith)
      then show ?thesis unfolding step txts stop
        by cases (use c in \<open>auto simp: Let_def nth_append\<close>)
    qed
  qed
qed simp

text \<open>C35.
  The sanitised name is the text of the source's words, cut to the 31 bytes that fit.  The single
  exception is a text whose 31st byte is a space: there the function writes its terminating
  NUL behind the array.  Otherwise the array keeps its length, what is written is a NUL-terminated
  string of words of letters, digits and the three punctuation marks separated by single spaces, and
  the rest of the array is untouched.
\<close>

theorem sanitized_name:
  fixes source dest :: "u8 list"
  assumes "length dest = SHROOM_MAX_NAME_LENGTH"
  defines "T \<equiv> normal_name (c_string source)"
  shows "if 30 < length T \<and> T ! 30 = 0x20
    then ShroomSanitizePlayerName dest (Some source) = None
    else \<exists>name. ShroomSanitizePlayerName dest (Some source) = Some name \<and>
      name = take 31 T @ 0 # drop (Suc (min 31 (length T))) dest \<and>
      length name = SHROOM_MAX_NAME_LENGTH \<and> c_string name = take 31 T \<and> name_shape False (take 31 T)"
proof -
  let ?w = "sanitize_loop (c_string source) [] False"
  have w: "?w = take (if 30 < length T \<and> T ! 30 = 0x20 then 32 else 31) T"
    using sanitize_loop_prefix [of "[]" "c_string source" False] by (simp add: T_def emitted_normal Let_def)
  show ?thesis
  proof (cases "30 < length T \<and> T ! 30 = 0x20")
    case True
    have "name_shape False ?w" by (rule sanitize_loop_shape) simp_all
    have "length T \<noteq> 31"
    proof
      assume "length T = 31"
      then have "T = take 30 T @ [T ! 30]" using take_Suc_conv_app_nth [of 30 T] by simp
      with True w \<open>length T = 31\<close> have "?w = take 30 T @ [0x20]" by simp
      with \<open>name_shape False ?w\<close> show False by (simp add: name_shape_last)
    qed
    with True have "31 < length T" by simp
    with True w show ?thesis by (simp add: ShroomSanitizePlayerName_def SHROOM_MAX_NAME_LENGTH_def)
  next
    case False
    have w31: "?w = take 31 T" using w by (simp only: if_not_P [OF False])
    have shape: "name_shape False (take 31 T)"
      using sanitize_loop_shape [of "[]" False "c_string source"] w31 by simp
    have "length (take 31 T) = min 31 (length T)" "min 31 (length T) < 32" by auto
    then show ?thesis
      using False assms(1) w31 shape c_string_text [OF name_shape_nonzero [OF shape]]
      by (simp add: ShroomSanitizePlayerName_def SHROOM_MAX_NAME_LENGTH_def Let_def del: length_take)
  qed
qed

text \<open>A short name, one that is cut, and 30 letters followed by a space and a letter.\<close>

theorem sanitized_name_witness:
  "(\<exists>name. ShroomSanitizePlayerName (replicate 32 0) (Some [0x20, 0x41, 0x20, 0x09, 0x7B, 0x42, 0x20, 0]) = Some name \<and>
      c_string name = [0x41, 0x20, 0x42]) \<and>
   (\<exists>name. ShroomSanitizePlayerName (replicate 32 0) (Some (replicate 29 0x41 @ [0x20, 0x42, 0x43, 0x44, 0])) = Some name \<and>
      c_string name = replicate 29 0x41 @ [0x20, 0x42] \<and> length name = 32) \<and>
   ShroomSanitizePlayerName (replicate 32 0) (Some (replicate 30 0x41 @ [0x20, 0x41, 0])) = None"
proof -
  have dest: "length (replicate 32 0 :: u8 list) = SHROOM_MAX_NAME_LENGTH" by (simp add: SHROOM_MAX_NAME_LENGTH_def)
  have txts: "normal_name (c_string [0x20, 0x41, 0x20, 0x09, 0x7B, 0x42, 0x20, 0]) = [0x41, 0x20, 0x42]"
    "normal_name (c_string (replicate 29 0x41 @ [0x20, 0x42, 0x43, 0x44, 0])) = replicate 29 0x41 @ [0x20, 0x42, 0x43, 0x44]"
    "normal_name (c_string (replicate 30 0x41 @ [0x20, 0x41, 0])) = replicate 30 0x41 @ [0x20, 0x41]"
    by code_simp+
  show ?thesis
    using sanitized_name [OF dest, of "[0x20, 0x41, 0x20, 0x09, 0x7B, 0x42, 0x20, 0]"]
      sanitized_name [OF dest, of "replicate 29 0x41 @ [0x20, 0x42, 0x43, 0x44, 0]"]
      sanitized_name [OF dest, of "replicate 30 0x41 @ [0x20, 0x41, 0]"]
    unfolding txts by (simp add: nth_append SHROOM_MAX_NAME_LENGTH_def)
qed

end
