(* ===== verification/Server_Handlers.thy ===== *)
theory Server_Handlers
  imports Server_Lobby Player_Identity
begin

text \<open>
  The handlers of the game server (\<open>src/src/server/main.c\<close>): what each packet of a client does to the
  server, the messages sent, and the dispatch by packet type.  The clock, SQLite and the
  authentication module answer through the environment.  A handler gives the new server and the
  messages in the order they are sent.  Log lines and telemetry are left out.
\<close>

text \<open>A row of \<open>mushroom_species\<close>: identifier, name, description, pattern, rarity and colour as SQLite gives them.\<close>

record species_row =
  rw_species_id :: int
  rw_name :: "u8 list option"
  rw_description :: "u8 list option"
  rw_pattern_id :: int
  rw_rarity_tier :: int
  rw_cap_color_rgba :: int

record server_env =
  en_libm :: libm
  en_now_ms :: u64
  en_now_sec :: u32 \<comment> \<open>\<open>time(NULL)\<close>\<close>
  en_seed :: u32 \<comment> \<open>the seed \<open>ShroomWorldInit\<close> takes from the clock\<close>
  en_db :: bool \<comment> \<open>the database is open\<close>
  en_stored_identity :: "u64 option"
  en_random_identity :: u64
  en_history_rows :: "(chat_row list \<times> bool) option"
  en_species_rows :: "species_row list option" \<comment> \<open>the rows of the species query, if it can be prepared\<close>

section \<open>Broadcasts\<close>

definition roster_entry :: "ServerSession \<Rightarrow> ShroomLobbyRosterEntry" where
  "roster_entry session = \<lparr>re_player_id = se_player_id session,
     re_is_spectator = (if se_spectating session then 1 else 0), re_is_ready = (if se_is_ready session then 1 else 0),
     re_entered_match = (if se_entered_match session then 1 else 0)\<rparr>"

definition SHROOM_LOBBY_ROSTER_ENTRIES_PER_PACKET :: nat where "SHROOM_LOBBY_ROSTER_ENTRIES_PER_PACKET = 128"

definition roster_packet :: "u32 \<Rightarrow> u32 \<Rightarrow> bool \<Rightarrow> ShroomLobbyRosterEntry list \<Rightarrow> nat \<Rightarrow> nat \<Rightarrow> ShroomLobbyRosterPacket" where
  "roster_packet lobby_id generation match_started entries chunk_count chunk_index =
     \<lparr>ro_lobby_id = lobby_id, ro_generation = generation, ro_total_player_count = word_of_nat (length entries),
      ro_chunk_index = word_of_nat chunk_index, ro_chunk_count = word_of_nat chunk_count,
      ro_match_started = (if match_started then 1 else 0),
      ro_players = take SHROOM_LOBBY_ROSTER_ENTRIES_PER_PACKET
        (drop (chunk_index * SHROOM_LOBBY_ROSTER_ENTRIES_PER_PACKET) entries)\<rparr>"

definition BroadcastLobbyRoster :: "server \<Rightarrow> u32 \<Rightarrow> server \<times> sends" where
  "BroadcastLobbyRoster sv lobby_id =
     (if lobby_id = 0 then (sv, [])
      else
        let peers = members (sv_peers sv) lobby_id;
            listed = map (session_at sv) (take SHROOM_MAX_PARTICIPANTS peers);
            entries = map roster_entry listed;
            match_started = list_ex se_entered_match listed;
            generation = (if sv_roster_generation sv = 0xFFFFFFFF then 1 else sv_roster_generation sv + 1);
            chunk_count = (if entries = [] then 1
              else (length entries + SHROOM_LOBBY_ROSTER_ENTRIES_PER_PACKET - 1) div SHROOM_LOBBY_ROSTER_ENTRIES_PER_PACKET)
        in (sv\<lparr>sv_roster_generation := generation\<rparr>,
            concat (map (\<lambda>chunk_index. map (\<lambda>i. (i, Lobby_Roster
                (roster_packet lobby_id generation match_started entries chunk_count chunk_index))) peers)
              [0..<chunk_count])))"

definition FindIntermissionVoter :: "ShroomIntermissionState \<Rightarrow> u32 \<Rightarrow> ShroomIntermissionVoter option" where
  "FindIntermissionVoter state player_id = find (\<lambda>v. iv_player_id v = player_id) (is_voters state)"

definition intermission_status :: "ShroomLobby \<Rightarrow> ServerSession \<Rightarrow> ShroomIntermissionStatusPacket" where
  "intermission_status lobby session =
     (let state = lb_intermission lobby; voter = FindIntermissionVoter state (se_player_id session)
      in \<lparr>im_round_id = is_round_id state,
          im_seconds_remaining = ws_match_results_time_remaining (lb_world lobby),
          im_eligible_count = is_eligible_count state, im_play_again_votes = is_play_again_votes state,
          im_return_to_lobby_votes = is_return_to_lobby_votes state, im_spectate_votes = is_spectate_votes state,
          im_resolved = (if is_resolved state then 1 else 0), im_decision = is_decision state,
          im_your_vote = (case voter of Some v \<Rightarrow> iv_vote v | None \<Rightarrow> SHROOM_REMATCH_VOTE_NONE),
          im_can_vote = (case voter of Some v \<Rightarrow> if iv_eligible v \<and> \<not> is_resolved state then 1 else 0 | None \<Rightarrow> 0)\<rparr>)"

definition BroadcastIntermissionStatus :: "server \<Rightarrow> ShroomLobby \<Rightarrow> sends" where
  "BroadcastIntermissionStatus sv lobby =
     map (\<lambda>i. (i, Intermission_Status (intermission_status lobby (session_at sv i))))
       (members (sv_peers sv) (lb_lobby_id lobby))"

section \<open>Sessions end\<close>

text \<open>\<open>session_cleanup.c\<close>: the world, and the session whose pointers are cleared.\<close>

definition ShroomServerCleanupPlayer ::
  "ShroomWorldState option \<Rightarrow> ServerSession \<Rightarrow> ShroomWorldState option \<times> ServerSession" where
  "ShroomServerCleanupPlayer world session =
     (map_option (\<lambda>w. snd (ShroomWorldRemovePlayer w (se_player_id session))) world,
      session\<lparr>se_player := None, se_focused_entity_id := 0\<rparr>)"

definition RemoveSessionPlayer :: "server \<Rightarrow> nat \<Rightarrow> server" where
  "RemoveSessionPlayer sv i =
     (let session = session_at sv i;
          lobby = (if se_player_id session \<noteq> 0 then FindLobbyById (sv_lobbies sv) (se_lobby_id session) else None)
      in case lobby of
           None \<Rightarrow> upd_session sv i (\<lambda>s. snd (ShroomServerCleanupPlayer None s))
         | Some l \<Rightarrow>
             let (world, session) = ShroomServerCleanupPlayer (Some (lb_world (lobby_at sv l))) session
             in upd_session (upd_lobby sv l (upd_world (\<lambda>_. the world))) i (\<lambda>_. session))"

definition DisconnectSession :: "server \<Rightarrow> nat \<Rightarrow> server" where
  "DisconnectSession sv i =
     (if \<not> se_active (session_at sv i) then sv
      else upd_session (RemoveSessionPlayer sv i) i (\<lambda>_. zero_session))"

text \<open>A voter that goes is taken off the vote, and the others are told.\<close>

definition withdraw_voter :: "server \<Rightarrow> nat \<Rightarrow> u32 \<Rightarrow> server \<times> sends" where
  "withdraw_voter sv l player_id =
     (case ShroomIntermissionRemoveVoter (Some (lb_intermission (lobby_at sv l))) player_id of
        (Some intermission, removed) \<Rightarrow>
          let sv = upd_lobby sv l (\<lambda>lobby. lobby\<lparr>lb_intermission := intermission\<rparr>)
          in (sv, if removed then BroadcastIntermissionStatus sv (lobby_at sv l) else [])
      | (None, _) \<Rightarrow> (sv, []))"

section \<open>Creating lobbies\<close>

definition GenerateLobbyHistoryIdentity :: "server_env \<Rightarrow> bool \<Rightarrow> u64" where
  "GenerateLobbyHistoryIdentity env is_dynamic =
     (let identity = (if en_db env \<and> \<not> is_dynamic then (case en_stored_identity env of Some x \<Rightarrow> x | None \<Rightarrow> 0) else 0)
      in if sint identity \<le> 0
         then (let identity = en_random_identity env AND 0x7FFFFFFFFFFFFFFF in if identity = 0 then 1 else identity)
         else identity)"

text \<open>The history a new lobby starts with; the load gives a history whether the query works or not.\<close>

definition loaded_history :: "server_env \<Rightarrow> u64 \<Rightarrow> ShroomServerChatHistory" where
  "loaded_history env identity =
     the (snd (the (ShroomServerChatHistoryLoad (if en_db env then en_history_rows env else None)
       (ShroomServerChatHistoryInit (Some zero_chat_history) identity) (en_now_sec env))))"

definition new_lobby :: "server_env \<Rightarrow> server \<Rightarrow> u32 \<Rightarrow> u8 list option \<Rightarrow> bool \<Rightarrow> u32 \<Rightarrow> ShroomLobby" where
  "new_lobby env sv lobby_id name is_dynamic game_mode =
     (let identity = GenerateLobbyHistoryIdentity env is_dynamic;
          shown = (case name of Some n \<Rightarrow> if c_string n \<noteq> [] then n else ascii ''Arena '' @ decimal (unat lobby_id)
                   | None \<Rightarrow> ascii ''Arena '' @ decimal (unat lobby_id));
          world = ShroomWorldInitWithSeed (en_libm env) (en_seed env);
          world = ShroomWorldSetGameMode world game_mode;
          world = ShroomWorldSetMatchDuration world (sv_match_duration_seconds sv)
      in zero_lobby\<lparr>lb_active := True, lb_lobby_id := lobby_id, lb_chat_history_identity := identity,
           lb_chat_history := loaded_history env identity, lb_is_dynamic := is_dynamic,
           lb_name := fst (snprintf_s (lb_name zero_lobby) shown), lb_world := world,
           lb_snapshot_scheduler := the (fst (ShroomSnapshotSchedulerInit (Some zero_scheduler) 30
             (ucast (sv_snapshot_rate sv))))\<rparr>)"

definition CreateLobby ::
  "server_env \<Rightarrow> server \<Rightarrow> u32 \<Rightarrow> u8 list option \<Rightarrow> bool \<Rightarrow> u32 \<Rightarrow> server \<times> nat option" where
  "CreateLobby env sv lobby_id name is_dynamic game_mode =
     (case find_index (\<lambda>l. \<not> lb_active l) (sv_lobbies sv) of
        None \<Rightarrow> (sv, None)
      | Some l \<Rightarrow>
          let (lobby, next_player_id) = InitializeLobbyBots (en_libm env)
                (new_lobby env sv lobby_id name is_dynamic game_mode) (sv_next_player_id sv)
          in ((upd_lobby sv l (\<lambda>_. lobby))\<lparr>sv_next_player_id := next_player_id\<rparr>, Some l))"

text \<open>The initial server: no sessions, and the fixed lobbies.\<close>

definition empty_server :: "f32 \<Rightarrow> u16 \<Rightarrow> server" where
  "empty_server match_duration_seconds snapshot_rate =
     \<lparr>sv_peers = replicate SHROOM_SERVER_MAX_CLIENTS \<lparr>pe_connected = False, pe_attached = False, pe_session = zero_session\<rparr>,
      sv_lobbies = replicate SHROOM_MAX_LOBBIES zero_lobby,
      sv_voice_relay = \<lparr>vr_peers = replicate SHROOM_SERVER_MAX_CLIENTS ResetPeer\<rparr>,
      sv_next_player_id = 1, sv_next_lobby_id = 1, sv_roster_generation = 0, sv_chat_message_epoch = 0,
      sv_chat_message_sequence = 0, sv_match_duration_seconds = match_duration_seconds,
      sv_snapshot_rate = snapshot_rate\<rparr>"

definition create_next :: "server_env \<Rightarrow> u8 list option \<Rightarrow> bool \<Rightarrow> u32 \<Rightarrow> server \<Rightarrow> server \<times> nat option" where
  "create_next env name is_dynamic game_mode sv =
     CreateLobby env (sv\<lparr>sv_next_lobby_id := sv_next_lobby_id sv + 1\<rparr>) (sv_next_lobby_id sv) name is_dynamic game_mode"

definition create_default :: "(nat \<Rightarrow> server_env) \<Rightarrow> nat \<Rightarrow> server \<Rightarrow> server" where
  "create_default env li sv = fst (create_next (env li) None False
     (if li < SHROOM_LOBBY_DEFAULT_COUNT div 2 then SHROOM_GAME_MODE_FFA else SHROOM_GAME_MODE_KING_OF_HILL) sv)"

definition default_lobbies :: "(nat \<Rightarrow> server_env) \<Rightarrow> f32 \<Rightarrow> u16 \<Rightarrow> server" where
  "default_lobbies env match_duration_seconds snapshot_rate =
     fold (create_default env) [0..<SHROOM_LOBBY_DEFAULT_COUNT] (empty_server match_duration_seconds snapshot_rate)"

section \<open>The handshake\<close>

definition SHROOM_MAX_MUSHROOM_SPECIES :: nat where "SHROOM_MAX_MUSHROOM_SPECIES = 10"

definition species_entry :: "species_row \<Rightarrow> ShroomMushroomSpeciesEntry" where
  "species_entry row = \<lparr>sp_species_id = word_of_int (rw_species_id row), sp_pattern_id = word_of_int (rw_pattern_id row),
     sp_rarity_tier = word_of_int (rw_rarity_tier row), sp_cap_color_rgba = word_of_int (rw_cap_color_rgba row),
     sp_name = (case rw_name row of Some n \<Rightarrow> take 31 (c_string n) | None \<Rightarrow> []),
     sp_description = (case rw_description row of Some d \<Rightarrow> take 127 (c_string d) | None \<Rightarrow> [])\<rparr>"

definition SendMushroomSpeciesCatalog :: "server_env \<Rightarrow> nat \<Rightarrow> sends" where
  "SendMushroomSpeciesCatalog env i =
     (if \<not> en_db env then []
      else case en_species_rows env of
             None \<Rightarrow> []
           | Some rows \<Rightarrow>
               let species = map species_entry (take SHROOM_MAX_MUSHROOM_SPECIES rows)
               in if species = [] then [] else [(i, Species_Catalog species)])"

definition HandleHelloPacket :: "server_env \<Rightarrow> server \<Rightarrow> nat \<Rightarrow> u32 \<Rightarrow> u8 list \<Rightarrow> server \<times> sends" where
  "HandleHelloPacket env sv i protocol_version name =
     (if protocol_version \<noteq> SHROOM_PROTOCOL_VERSION then (sv, [(i, Disconnect)])
      else if se_handshake_received (session_at sv i) then (sv, [])
      else
        let raw_name = name[SHROOM_MAX_NAME_LENGTH - 1 := 0];
            display_name = the (ShroomSanitizePlayerName (se_display_name (session_at sv i)) (Some raw_name));
            display_name = (if display_name ! 0 = 0 then fst (snprintf_s display_name (ascii ''Player'')) else display_name)
        in (upd_session sv i (\<lambda>s. s\<lparr>se_display_name := display_name, se_active := True, se_handshake_received := True\<rparr>),
            (i, Welcome SHROOM_PROTOCOL_VERSION 30 (sv_snapshot_rate sv)) # SendMushroomSpeciesCatalog env i))"

text \<open>The answers of the authentication module to one request.\<close>

record auth_token =
  at_user_id :: u32
  at_token :: "u8 list"

record auth_answers =
  au_register :: "u8 \<times> u32" \<comment> \<open>result, \<open>user.player_id\<close>\<close>
  au_login :: "u8 \<times> auth_token"
  au_anonymous :: "u8 \<times> auth_token"
  au_validated :: u32 \<comment> \<open>\<open>user.player_id\<close> after \<open>ShroomAuthValidateToken\<close>\<close>

definition SHROOM_AUTH_ANONYMOUS :: u8 where "SHROOM_AUTH_ANONYMOUS = 0"
definition SHROOM_AUTH_PASSWORD :: u8 where "SHROOM_AUTH_PASSWORD = 1"
definition SHROOM_AUTH_SUCCESS :: u8 where "SHROOM_AUTH_SUCCESS = 0"
definition SHROOM_AUTH_INVALID_CREDENTIALS :: u8 where "SHROOM_AUTH_INVALID_CREDENTIALS = 1"
definition SHROOM_AUTH_USERNAME_TAKEN :: u8 where "SHROOM_AUTH_USERNAME_TAKEN = 2"
definition SHROOM_AUTH_INVALID_INPUT :: u8 where "SHROOM_AUTH_INVALID_INPUT = 6"
definition SHROOM_AUTH_TOKEN_LENGTH :: nat where "SHROOM_AUTH_TOKEN_LENGTH = 64"

text \<open>The token and the message as the arrays of the packet hold them.\<close>

definition SendAuthResponse :: "nat \<Rightarrow> u8 \<Rightarrow> u32 \<Rightarrow> u8 list \<Rightarrow> string \<Rightarrow> sends" where
  "SendAuthResponse i result player_id token message =
     [(i, Auth_Response result player_id (take (SHROOM_AUTH_TOKEN_LENGTH - 1) (c_string token)) (take 63 (ascii message)))]"

definition authenticate :: "server \<Rightarrow> nat \<Rightarrow> auth_token \<Rightarrow> server" where
  "authenticate sv i token = upd_session sv i (\<lambda>s. s\<lparr>se_authenticated := True, se_user_id := at_user_id token\<rparr>)"

definition HandleAuthRequestPacket :: "auth_answers \<Rightarrow> server \<Rightarrow> nat \<Rightarrow> u8 \<Rightarrow> bool \<Rightarrow> server \<times> sends" where
  "HandleAuthRequestPacket auth sv i auth_method is_register =
     (if se_authenticated (session_at sv i)
      then (sv, SendAuthResponse i SHROOM_AUTH_INVALID_INPUT 0 [] ''Already authenticated'')
      else if auth_method = SHROOM_AUTH_PASSWORD then
        if is_register then
          let (result, player_id) = au_register auth
          in if result = SHROOM_AUTH_SUCCESS then
               let (result, token) = au_login auth
               in if result = SHROOM_AUTH_SUCCESS
                  then (authenticate sv i token, SendAuthResponse i result player_id (at_token token) ''Registration successful'')
                  else (sv, SendAuthResponse i result 0 [] ''Login after registration failed'')
             else (sv, SendAuthResponse i result 0 []
                    (if result = SHROOM_AUTH_USERNAME_TAKEN then ''Username already taken'' else ''Registration failed''))
        else
          let (result, token) = au_login auth
          in if result = SHROOM_AUTH_SUCCESS
             then (authenticate sv i token, SendAuthResponse i result (au_validated auth) (at_token token) ''Login successful'')
             else (sv, SendAuthResponse i result 0 []
                    (if result = SHROOM_AUTH_INVALID_CREDENTIALS then ''Invalid username or password'' else ''Login failed''))
      else if auth_method = SHROOM_AUTH_ANONYMOUS then
        let (result, token) = au_anonymous auth
        in if result = SHROOM_AUTH_SUCCESS
           then (authenticate sv i token, SendAuthResponse i result (au_validated auth) (at_token token) ''Anonymous login successful'')
           else (sv, SendAuthResponse i result 0 [] ''Anonymous login failed'')
      else (sv, SendAuthResponse i SHROOM_AUTH_INVALID_INPUT 0 [] ''Unsupported auth method''))"

section \<open>Lobbies\<close>

definition lobby_entry :: "server \<Rightarrow> ShroomLobby \<Rightarrow> ShroomLobbyEntry" where
  "lobby_entry sv lobby = \<lparr>le_lobby_id = lb_lobby_id lobby,
     le_name = fst (snprintf_s (replicate SHROOM_LOBBY_MAX_NAME_LENGTH 0) (lb_name lobby)),
     le_player_count = CountLobbyRealPlayers (sv_peers sv) (lb_lobby_id lobby),
     le_bot_count = CountLobbyAliveBots lobby, le_max_players = ucast SHROOM_MAX_PLAYABLE_PARTICIPANTS,
     le_spectator_count = CountLobbySpectators (sv_peers sv) (lb_lobby_id lobby),
     le_is_dynamic = (if lb_is_dynamic lobby then 1 else 0), le_game_mode = ucast (ws_game_mode (lb_world lobby))\<rparr>"

definition HandleLobbyListQuery :: "server \<Rightarrow> nat \<Rightarrow> server \<times> sends" where
  "HandleLobbyListQuery sv i =
     (if \<not> se_handshake_received (session_at sv i) then (sv, [])
      else (sv, [(i, Lobby_List (map (lobby_entry sv) (filter lb_active (sv_lobbies sv))))]))"

record ShroomLobbyAdmissionPlan =
  ap_accepted :: bool
  ap_bots_to_remove :: u16

definition ShroomLobbyPlanAdmission :: "u16 \<Rightarrow> u16 \<Rightarrow> ShroomLobbyAdmissionPlan" where
  "ShroomLobbyPlanAdmission real_player_count bot_count =
     (if SHROOM_MAX_PLAYABLE_PARTICIPANTS \<le> ucast real_player_count then \<lparr>ap_accepted = False, ap_bots_to_remove = 0\<rparr>
      else
        let occupied = ucast real_player_count + ucast bot_count :: u32;
            bots_to_remove = (if occupied < word_of_nat SHROOM_MAX_PARTICIPANTS then 0
              else ucast (occupied - word_of_nat SHROOM_MAX_PARTICIPANTS + 1))
        in \<lparr>ap_accepted = (bots_to_remove \<le> bot_count), ap_bots_to_remove = bots_to_remove\<rparr>)"

text \<open>The loop stops at the first bot that cannot be removed.\<close>

fun remove_bots :: "nat \<Rightarrow> ShroomLobby \<Rightarrow> bool \<times> ShroomLobby" where
  "remove_bots 0 lobby = (True, lobby)"
| "remove_bots (Suc n) lobby =
     (case RemoveLobbyBot lobby of (False, lobby) \<Rightarrow> (False, lobby) | (True, lobby) \<Rightarrow> remove_bots n lobby)"

definition lobby_joined :: "server \<Rightarrow> ServerSession \<Rightarrow> ShroomLobby \<Rightarrow> ShroomLobbyJoinedPacket" where
  "lobby_joined sv session lobby =
     \<lparr>lj_lobby_id = lb_lobby_id lobby, lj_chat_history_identity = lb_chat_history_identity lobby,
      lj_player_id = se_player_id session,
      lj_entity_id = (case se_player session of Some p \<Rightarrow> pl_entity_id (player_at (lb_world lobby) p) | None \<Rightarrow> 0),
      lj_spectating = (if se_spectating session then 1 else 0), lj_game_mode = ucast (ws_game_mode (lb_world lobby)),
      lj_lobby_name = fst (snprintf_s (replicate SHROOM_LOBBY_MAX_NAME_LENGTH 0) (lb_name lobby)),
      lj_server_tick_rate = 30, lj_snapshot_rate = sv_snapshot_rate sv,
      lj_max_players = ucast SHROOM_MAX_PLAYABLE_PARTICIPANTS,
      lj_world_width = ws_width (lb_world lobby), lj_world_height = ws_height (lb_world lobby)\<rparr>"

definition history_packet :: "ShroomServerChatHistoryMessage \<Rightarrow> ShroomChatPacket" where
  "history_packet m = \<lparr>cp_sender_id = hm_sender_id m, cp_message_id = hm_message_id m,
     cp_timestamp_sec = hm_timestamp_sec m, cp_sender_name = hm_sender_name m, cp_message = hm_message m\<rparr>"

definition set_voice_peer :: "server \<Rightarrow> nat \<Rightarrow> bool \<Rightarrow> u32 \<Rightarrow> u32 \<Rightarrow> server" where
  "set_voice_peer sv i connected lobby_id player_id =
     sv\<lparr>sv_voice_relay := the (ShroomVoiceRelaySetPeer (Some (sv_voice_relay sv)) i connected lobby_id player_id)\<rparr>"

text \<open>Taking a place in the lobby: the bots that have to go first, for a player.\<close>

definition admit :: "server \<Rightarrow> nat \<Rightarrow> bool \<Rightarrow> bool \<times> server" where
  "admit sv l spectate =
     (if spectate then (True, sv)
      else
        let lobby = lobby_at sv l;
            admission = ShroomLobbyPlanAdmission (CountLobbyRealPlayers (sv_peers sv) (lb_lobby_id lobby))
              (CountLobbyAliveBots lobby)
        in if \<not> ap_accepted admission then (False, sv)
           else case remove_bots (unat (ap_bots_to_remove admission)) lobby of
                  (ok, lobby) \<Rightarrow> (ok, upd_lobby sv l (\<lambda>_. lobby)))"

definition fresh_replication :: "ServerSession \<Rightarrow> ServerSession" where
  "fresh_replication s = s\<lparr>se_world_replication := zero_replication, se_snapshot_interest := zero_interest,
     se_snapshot_history := zero_history, se_acknowledged_snapshot_tick := 0\<rparr>"

text \<open>Entering the world.  \<open>False\<close>: no place was free, and the session has no lobby again.\<close>

definition spawn_session :: "server_env \<Rightarrow> server \<Rightarrow> nat \<Rightarrow> nat \<Rightarrow> bool \<times> server" where
  "spawn_session env sv i l =
     (let player_id = sv_next_player_id sv; sv = sv\<lparr>sv_next_player_id := player_id + 1\<rparr>
      in case ShroomWorldSpawnPlayer (en_libm env) (lb_world (lobby_at sv l)) player_id False of
           (None, world) \<Rightarrow>
             (False, upd_session (upd_lobby sv l (upd_world (\<lambda>_. world))) i (\<lambda>s. s\<lparr>se_player := None, se_lobby_id := 0\<rparr>))
         | (Some p, world) \<Rightarrow>
             let world = upd_player world p (\<lambda>q. q\<lparr>pl_name :=
                   fst (snprintf_s (pl_name q) (se_display_name (session_at sv i)))\<rparr>)
             in (True, upd_session (upd_lobby sv l (upd_world (\<lambda>_. world))) i
                   (\<lambda>s. s\<lparr>se_player := Some p, se_player_id := pl_player_id (player_at world p)\<rparr>)))"

definition HandleLobbyJoin :: "server_env \<Rightarrow> server \<Rightarrow> nat \<Rightarrow> u32 \<Rightarrow> bool \<Rightarrow> server \<times> sends" where
  "HandleLobbyJoin env sv i lobby_id spectate =
     (if \<not> se_handshake_received (session_at sv i) \<or> se_lobby_id (session_at sv i) \<noteq> 0 then (sv, [])
      else case FindLobbyById (sv_lobbies sv) lobby_id of
        None \<Rightarrow> (sv, [])
      | Some l \<Rightarrow>
          let (admitted, sv) = admit sv l spectate
          in if \<not> admitted then (sv, [])
             else
               let sv = upd_session sv i (\<lambda>s. (fresh_replication s)\<lparr>se_lobby_id := lb_lobby_id (lobby_at sv l),
                     se_spectating := spectate, se_is_ready := False, se_entered_match := False\<rparr>);
                   (placed, sv) = (if spectate then (True, sv) else spawn_session env sv i l)
               in if \<not> placed then (sv, [])
                  else
                    let session = session_at sv i; lobby = lobby_at sv l;
                        sv = set_voice_peer sv i True (se_lobby_id session) (se_player_id session);
                        joined = (i, Lobby_Joined (lobby_joined sv session lobby)) #
                          map (\<lambda>m. (i, Chat (history_packet m))) (ch_messages (lb_chat_history lobby));
                        (sv, roster) = BroadcastLobbyRoster sv (lb_lobby_id lobby)
                    in (sv, joined @ roster @
                          (if ws_match_phase (lb_world lobby) = SHROOM_MATCH_PHASE_RESULTS
                           then BroadcastIntermissionStatus sv lobby else [])))"

definition HandleLobbyLeave :: "server \<Rightarrow> nat \<Rightarrow> server \<times> sends" where
  "HandleLobbyLeave sv i =
     (let session = session_at sv i;
          (sv, told) = (case FindLobbyById (sv_lobbies sv) (se_lobby_id session) of
              None \<Rightarrow> (sv, []) | Some l \<Rightarrow> withdraw_voter sv l (se_player_id session));
          sv = RemoveSessionPlayer sv i;
          sv = upd_session sv i (\<lambda>s. (fresh_replication s)\<lparr>se_lobby_id := 0, se_spectating := False, se_is_ready := False,
                 se_entered_match := False, se_player_id := 0\<rparr>);
          sv = set_voice_peer sv i True 0 0;
          (sv, roster) = BroadcastLobbyRoster sv (se_lobby_id session)
      in (sv, told @ roster))"

definition HandleLobbyCreate :: "server_env \<Rightarrow> server \<Rightarrow> nat \<Rightarrow> u8 list \<Rightarrow> u8 \<Rightarrow> server \<times> sends" where
  "HandleLobbyCreate env sv i name game_mode =
     (if \<not> se_handshake_received (session_at sv i) then (sv, [])
      else if ucast game_mode \<noteq> SHROOM_GAME_MODE_FFA \<and> ucast game_mode \<noteq> SHROOM_GAME_MODE_KING_OF_HILL then (sv, [])
      else case create_next env (Some name) True (ucast game_mode) sv of
             (sv, None) \<Rightarrow> (sv, [])
           | (sv, Some l) \<Rightarrow> (sv, [(i, Lobby_Created (lb_lobby_id (lobby_at sv l))
               (fst (snprintf_s (replicate SHROOM_LOBBY_MAX_NAME_LENGTH 0) (lb_name (lobby_at sv l)))))]))"

definition HandleReadyStatePacket :: "server \<Rightarrow> nat \<Rightarrow> u32 \<Rightarrow> bool \<Rightarrow> server \<times> sends" where
  "HandleReadyStatePacket sv i player_id is_ready =
     (let session = session_at sv i
      in if \<not> se_active session \<or> se_player session = None then (sv, [])
         else if se_lobby_id session = 0 \<or> player_id \<noteq> se_player_id session then (sv, [])
         else BroadcastLobbyRoster (upd_session sv i (\<lambda>s. s\<lparr>se_is_ready := is_ready\<rparr>)) (se_lobby_id session))"

definition HandleEnterMatchPacket :: "server \<Rightarrow> nat \<Rightarrow> u32 \<Rightarrow> server \<times> sends" where
  "HandleEnterMatchPacket sv i lobby_id =
     (let session = session_at sv i
      in if \<not> se_active session then (sv, [])
         else if se_lobby_id session = 0 \<or> lobby_id \<noteq> se_lobby_id session \<or>
                 \<not> se_spectating session \<and> (se_player session = None \<or> \<not> se_is_ready session) then (sv, [])
         else if se_entered_match session then (sv, [])
         else
           let sv = upd_session sv i (\<lambda>s. s\<lparr>se_entered_match := True, se_focused_entity_id := 0\<rparr>);
               sv = (case (se_player session, FindLobbyById (sv_lobbies sv) (se_lobby_id session)) of
                   (Some p, Some l) \<Rightarrow> upd_lobby sv l (upd_world (\<lambda>world. upd_player world p (\<lambda>q.
                     q\<lparr>pl_input_direction := zero_vec2, pl_spawn_protection_timer := SHROOM_PLAYER_SPAWN_PROTECTION_SECONDS\<rparr>)))
                 | _ \<Rightarrow> sv)
           in BroadcastLobbyRoster sv (se_lobby_id session))"

end
