(* ===== verification/Server_Packets.thy ===== *)
theory Server_Packets
  imports Server_Handlers
begin

text \<open>
  The remaining handlers of the game server (\<open>src/src/server/main.c\<close>) and \<open>HandlePacket\<close>, which
  checks a packet and hands it to its handler.  The body of a packet is the view of its bytes as
  the structure of the type in its header.
\<close>

section \<open>Chat\<close>

definition NextChatMessageId :: "server_env \<Rightarrow> server \<Rightarrow> u64 \<times> server" where
  "NextChatMessageId env sv =
     (let epoch = (if sv_chat_message_epoch sv = 0 then en_now_sec env else sv_chat_message_epoch sv);
          sequence = sv_chat_message_sequence sv + 1;
          sequence = (if sequence = 0 then 1 else sequence)
      in (push_bit 32 (ucast epoch) OR ucast sequence,
          sv\<lparr>sv_chat_message_epoch := epoch, sv_chat_message_sequence := sequence\<rparr>))"

definition append_history :: "ShroomServerChatHistory \<Rightarrow> ShroomServerChatHistoryMessage \<Rightarrow> u32 \<Rightarrow> ShroomServerChatHistory" where
  "append_history history message now_sec = snd (the (ShroomServerChatHistoryAppend history message now_sec))"

definition chat_window :: "u64 \<Rightarrow> ServerSession \<Rightarrow> ServerSession" where
  "chat_window now_ms s =
     (if SHROOM_CHAT_RATE_LIMIT_WINDOW_MS \<le> now_ms - se_chat_window_start_ms s
      then s\<lparr>se_chat_window_start_ms := now_ms, se_chat_message_count := 0, se_chat_rate_limit_logged := False\<rparr> else s)"

text \<open>The broadcast goes to the connected peers whose session has the lobby of the sender.\<close>

definition chat_recipients :: "server \<Rightarrow> u32 \<Rightarrow> nat list" where
  "chat_recipients sv lobby_id =
     filter (\<lambda>i. pe_connected (peer_at sv i) \<and> pe_attached (peer_at sv i) \<and> se_lobby_id (session_at sv i) = lobby_id)
       [0..<length (sv_peers sv)]"

definition HandleChatPacket ::
  "server_env \<Rightarrow> server \<Rightarrow> nat \<Rightarrow> nat option \<Rightarrow> bool \<Rightarrow> u8 list \<Rightarrow> server \<times> sends" where
  "HandleChatPacket env sv i lobby structurally_valid message =
     (let session = session_at sv i
      in if lobby = None \<or> \<not> en_db env \<or> \<not> se_active session \<or> se_player session = None
         then (if se_active session then snd (NextChatMessageId env sv) else sv, [])
         else
           let l = the lobby;
               sv = upd_session sv i (chat_window (en_now_ms env));
               session = session_at sv i
           in if SHROOM_CHAT_RATE_LIMIT_COUNT \<le> se_chat_message_count session then
                (if se_chat_rate_limit_logged session then sv
                 else upd_session (snd (NextChatMessageId env sv)) i (\<lambda>s. s\<lparr>se_chat_rate_limit_logged := True\<rparr>), [])
              else
                let sv = upd_session sv i (\<lambda>s. s\<lparr>se_chat_message_count := se_chat_message_count s + 1\<rparr>)
                in case (if structurally_valid
                         then ShroomChatCanonicalizeMessage (Some message) (SHROOM_CHAT_MAX_MESSAGE_LENGTH + 1) True
                                (SHROOM_CHAT_MAX_MESSAGE_LENGTH + 1) else (False, None)) of
                     (False, _) \<Rightarrow> (snd (NextChatMessageId env sv), [])
                   | (True, canonical) \<Rightarrow>
                       let name = c_string (pl_name (player_at (lb_world (lobby_at sv l)) (the (se_player session))));
                           name = (if name = [] then ascii ''Unknown'' else name);
                           (message_id, sv) = NextChatMessageId env sv;
                           broadcast = \<lparr>cp_sender_id = se_player_id session, cp_message_id = message_id,
                             cp_timestamp_sec = en_now_sec env, cp_sender_name = name, cp_message = the canonical\<rparr>;
                           sv = upd_lobby sv l (\<lambda>lobby. lobby\<lparr>lb_chat_history := append_history (lb_chat_history lobby)
                             \<lparr>hm_sender_id = cp_sender_id broadcast, hm_message_id = message_id,
                              hm_timestamp_sec = en_now_sec env, hm_sender_name = name, hm_message = the canonical\<rparr>
                             (en_now_sec env)\<rparr>)
                       in (sv, map (\<lambda>j. (j, Chat broadcast)) (chat_recipients sv (se_lobby_id session))))"

section \<open>Voice\<close>

definition HandleVoiceFramePacket :: "server_env \<Rightarrow> server \<Rightarrow> nat \<Rightarrow> ShroomVoiceFramePacket \<Rightarrow> nat \<Rightarrow> server \<times> sends" where
  "HandleVoiceFramePacket env sv i frame wire_size =
     (let session = session_at sv i
      in if \<not> se_active session \<or> \<not> se_handshake_received session then (sv, [])
         else
           let sv = set_voice_peer sv i True (se_lobby_id session) (se_player_id session);
               send = (\<lambda>peer_index out size. peer_index < length (sv_peers sv) \<and> pe_connected (peer_at sv peer_index));
               (_, relay, calls, _) = ShroomVoiceRelayRoute (Some (sv_voice_relay sv)) i (Some frame) wire_size
                 (en_now_ms env) (Some send)
           in (sv\<lparr>sv_voice_relay := the relay\<rparr>,
               map (\<lambda>(j, out). (j, Voice_Frame out)) (filter (\<lambda>(j, out). send j out wire_size) calls)))"

section \<open>Votes and acknowledgements\<close>

definition DispatchRematchVote :: "server \<Rightarrow> nat \<Rightarrow> u32 \<Rightarrow> u8 \<Rightarrow> server \<times> sends" where
  "DispatchRematchVote sv i round_id vote =
     (let session = session_at sv i
      in case FindLobbyById (sv_lobbies sv) (se_lobby_id session) of
           None \<Rightarrow> (sv, [])
         | Some l \<Rightarrow>
             if \<not> se_active session \<or> se_spectating session \<or>
                ws_match_phase (lb_world (lobby_at sv l)) \<noteq> SHROOM_MATCH_PHASE_RESULTS \<or>
                round_id \<noteq> is_round_id (lb_intermission (lobby_at sv l)) then (sv, [])
             else case ShroomIntermissionCastVote (Some (lb_intermission (lobby_at sv l))) (se_player_id session) vote of
                    (intermission, cast') \<Rightarrow>
                      let sv = upd_lobby sv l (\<lambda>lobby. lobby\<lparr>lb_intermission := the intermission\<rparr>)
                      in (sv, if cast' then BroadcastIntermissionStatus sv (lobby_at sv l) else []))"

definition DispatchSnapshotAckPacket :: "server \<Rightarrow> nat \<Rightarrow> bool \<Rightarrow> u64 \<Rightarrow> server" where
  "DispatchSnapshotAckPacket sv i well_sized tick =
     (if \<not> well_sized \<or> ShroomSnapshotHistoryFind (Some (se_snapshot_history (session_at sv i))) tick = None then sv
      else if se_acknowledged_snapshot_tick (session_at sv i) = 0 \<or>
              ShroomSnapshotTickIsNewer tick (se_acknowledged_snapshot_tick (session_at sv i))
      then upd_session sv i (\<lambda>s. s\<lparr>se_acknowledged_snapshot_tick := tick\<rparr>) else sv)"

definition SendServerProbeResponse :: "server \<Rightarrow> nat \<Rightarrow> u32 \<Rightarrow> u32 \<Rightarrow> u32 \<Rightarrow> sends" where
  "SendServerProbeResponse sv i protocol_version generation nonce =
     (if protocol_version \<noteq> SHROOM_PROTOCOL_VERSION \<or> generation = 0 \<or> nonce = 0 then []
      else [(i, Probe_Response \<lparr>pr_header = the (ShroomPacketHeaderInit (Some \<lparr>ph_type = 0, ph_reserved = 0, ph_size = 0\<rparr>)
                   SHROOM_PACKET_SERVER_PROBE_RESPONSE (word_of_nat (size_of ShroomServerProbeResponsePacket_layout))),
                 pr_protocol_version = SHROOM_PROTOCOL_VERSION, pr_generation = generation, pr_nonce = nonce,
                 pr_player_count = CountAdvertisedPlayers (sv_peers sv),
                 pr_capacity = word_of_nat SHROOM_SERVER_MAX_CLIENTS\<rparr>)])"

section \<open>Dispatch\<close>

datatype client_message =
    Hello u32 "u8 list"
  | Input ShroomInputPacket
  | Snapshot_Ack u64
  | Auth_Request u8 bool auth_answers
  | Ping u32
  | Server_Probe u32 u32 u32
  | Chat_Request "u8 list"
  | Voice_Request ShroomVoiceFramePacket
  | Lobby_List_Query
  | Lobby_Join u32 bool
  | Lobby_Leave
  | Lobby_Create "u8 list" u8
  | Ready_State u32 bool
  | Enter_Match u32
  | Rematch_Vote u32 u8

text \<open>\<open>kServerPacketDispatch\<close>: the types that have a handler, by the structure they carry.\<close>

fun message_type :: "client_message \<Rightarrow> nat" where
  "message_type (Hello _ _) = SHROOM_PACKET_HELLO"
| "message_type (Input _) = SHROOM_PACKET_INPUT"
| "message_type (Snapshot_Ack _) = SHROOM_PACKET_SNAPSHOT_ACK"
| "message_type (Auth_Request _ _ _) = SHROOM_PACKET_AUTH_REQUEST"
| "message_type (Ping _) = SHROOM_PACKET_PING"
| "message_type (Server_Probe _ _ _) = SHROOM_PACKET_SERVER_PROBE"
| "message_type (Chat_Request _) = SHROOM_PACKET_CHAT"
| "message_type (Voice_Request _) = SHROOM_PACKET_VOICE_FRAME"
| "message_type Lobby_List_Query = SHROOM_PACKET_LOBBY_LIST_QUERY"
| "message_type (Lobby_Join _ _) = SHROOM_PACKET_LOBBY_JOIN"
| "message_type Lobby_Leave = SHROOM_PACKET_LOBBY_LEAVE"
| "message_type (Lobby_Create _ _) = SHROOM_PACKET_LOBBY_CREATE"
| "message_type (Ready_State _ _) = SHROOM_PACKET_READY_STATE"
| "message_type (Enter_Match _) = SHROOM_PACKET_ENTER_MATCH"
| "message_type (Rematch_Vote _ _) = SHROOM_PACKET_REMATCH_VOTE"

text \<open>The input packet goes to the world of the session's lobby; a session without a lobby has no player.\<close>

definition DispatchInput :: "server_env \<Rightarrow> server \<Rightarrow> nat \<Rightarrow> ShroomInputPacket \<Rightarrow> server \<times> sends" where
  "DispatchInput env sv i packet =
     (case FindLobbyById (sv_lobbies sv) (se_lobby_id (session_at sv i)) of
        None \<Rightarrow> (sv, [])
      | Some l \<Rightarrow>
          (case ReceiveInput (session_at sv i) packet (en_now_ms env) (lb_world (lobby_at sv l)) of
             (outcome, session, world) \<Rightarrow>
               (upd_session (upd_lobby sv l (upd_world (\<lambda>_. world))) i (\<lambda>_. session),
                if outcome = Input_invalid True then [(i, Disconnect)] else [])))"

definition DispatchMessage :: "server_env \<Rightarrow> server \<Rightarrow> nat \<Rightarrow> nat \<Rightarrow> u16 \<Rightarrow> client_message \<Rightarrow> server \<times> sends" where
  "DispatchMessage env sv i data_length header_size body =
     (case body of
        Hello version name \<Rightarrow> HandleHelloPacket env sv i version name
      | Input packet \<Rightarrow> DispatchInput env sv i packet
      | Snapshot_Ack tick \<Rightarrow>
          (DispatchSnapshotAckPacket sv i (unat header_size = size_of ShroomSnapshotAckPacket_layout \<and>
             data_length = size_of ShroomSnapshotAckPacket_layout) tick, [])
      | Auth_Request auth_method is_register answers \<Rightarrow> HandleAuthRequestPacket answers sv i auth_method is_register
      | Ping nonce \<Rightarrow> (sv, [(i, Pong nonce)])
      | Server_Probe version generation nonce \<Rightarrow>
          (sv, if data_length = size_of ShroomServerProbePacket_layout
               then SendServerProbeResponse sv i version generation nonce else [])
      | Chat_Request message \<Rightarrow>
          HandleChatPacket env sv i (FindLobbyById (sv_lobbies sv) (se_lobby_id (session_at sv i)))
            (size_of ShroomChatPacket_layout \<le> data_length) message
      | Voice_Request frame \<Rightarrow> HandleVoiceFramePacket env sv i frame data_length
      | Lobby_List_Query \<Rightarrow> HandleLobbyListQuery sv i
      | Lobby_Join lobby_id spectate \<Rightarrow> HandleLobbyJoin env sv i lobby_id spectate
      | Lobby_Leave \<Rightarrow> HandleLobbyLeave sv i
      | Lobby_Create name game_mode \<Rightarrow> HandleLobbyCreate env sv i name game_mode
      | Ready_State player_id is_ready \<Rightarrow> HandleReadyStatePacket sv i player_id is_ready
      | Enter_Match lobby_id \<Rightarrow> HandleEnterMatchPacket sv i lobby_id
      | Rematch_Vote round_id vote \<Rightarrow> DispatchRematchVote sv i round_id vote)"

definition HandlePacket ::
  "server_env \<Rightarrow> server \<Rightarrow> nat \<Rightarrow> ShroomPacketHeader \<Rightarrow> nat \<Rightarrow> u8 \<Rightarrow> client_message \<Rightarrow> server \<times> sends" where
  "HandlePacket env sv i header data_length channel_id body =
     (if data_length < size_of ShroomPacketHeader_layout then (sv, [])
      else if \<not> ShroomPacketHeaderUsesExpectedChannel (Some header) channel_id then (sv, [])
      else
        let packet_type = unat (ph_type header); minimum_size = ShroomPacketTypeMinimumSize packet_type
        in if minimum_size = 0 \<or> data_length < unat minimum_size then (sv, [])
           else if packet_type \<noteq> message_type body then (sv, [])
           else DispatchMessage env sv i data_length (ph_size header) body)"

end
