(* ===== verification/Server_Tick.thy ===== *)
theory Server_Tick
  imports Server_Packets
begin

text \<open>
  The main loop of the game server (\<open>src/src/server/main.c\<close>): peers that connect and disconnect, the
  tick of a lobby with its intermission, and what is sent to the clients after it.  One step of the
  loop is a connection, a packet, a disconnection, a change of a peer's state inside ENet, or the
  tick of one lobby.
\<close>

section \<open>The intermission\<close>

definition BeginIntermission :: "server \<Rightarrow> nat \<Rightarrow> server \<times> sends" where
  "BeginIntermission sv l =
     (let lobby = lobby_at sv l;
          voters = filter (\<lambda>i. \<not> se_spectating (session_at sv i) \<and> se_entered_match (session_at sv i) \<and>
              se_player_id (session_at sv i) \<noteq> 0) (members (sv_peers sv) (lb_lobby_id lobby));
          player_ids = map (\<lambda>i. se_player_id (session_at sv i)) (take SHROOM_MAX_PARTICIPANTS voters);
          round_id = lb_next_round_id lobby + 1;
          intermission = the (ShroomIntermissionBegin (Some (lb_intermission lobby)) (Some player_ids)
            (word_of_nat (length player_ids)) round_id);
          sv = upd_lobby sv l (\<lambda>lobby. lobby\<lparr>lb_intermission := intermission, lb_next_round_id := round_id,
            lb_last_intermission_second := 0xFFFF\<rparr>)
      in (sv, BroadcastIntermissionStatus sv (lobby_at sv l)))"

text \<open>What the decision does to one session of the lobby and to the world.\<close>

definition resolve_session ::
  "ShroomIntermissionState \<Rightarrow> u8 \<Rightarrow> ServerSession \<Rightarrow> ShroomWorldState \<Rightarrow> ServerSession \<times> ShroomWorldState" where
  "resolve_session intermission decision session world =
     (let session = session\<lparr>se_is_ready := False\<rparr>
      in if \<not> se_spectating session \<and> ShroomIntermissionPlayerContinuesMatch (Some intermission) (se_player_id session)
         then (session\<lparr>se_entered_match := True\<rparr>, world)
         else
           let session = session\<lparr>se_entered_match := False\<rparr>
           in if decision = SHROOM_REMATCH_VOTE_SPECTATE \<and> \<not> se_spectating session
              then (case ShroomServerCleanupPlayer (Some world) session of
                      (world, session) \<Rightarrow> (session\<lparr>se_spectating := True\<rparr>, the world))
              else (session, world))"

definition resolve_peer :: "nat \<Rightarrow> u8 \<Rightarrow> nat \<Rightarrow> server \<Rightarrow> server" where
  "resolve_peer l decision i sv =
     (if \<not> in_lobby (lb_lobby_id (lobby_at sv l)) (peer_at sv i) then sv
      else case resolve_session (lb_intermission (lobby_at sv l)) decision (session_at sv i) (lb_world (lobby_at sv l)) of
             (session, world) \<Rightarrow> upd_session (upd_lobby sv l (upd_world (\<lambda>_. world))) i (\<lambda>_. session))"

definition ResolveIntermission :: "libm \<Rightarrow> server \<Rightarrow> nat \<Rightarrow> server \<times> sends" where
  "ResolveIntermission lm sv l =
     (case ShroomIntermissionResolve (Some (lb_intermission (lobby_at sv l))) of
        (intermission, decision) \<Rightarrow>
          let sv = upd_lobby sv l (\<lambda>lobby. lobby\<lparr>lb_intermission := the intermission\<rparr>);
              told = BroadcastIntermissionStatus sv (lobby_at sv l);
              sv = fold (resolve_peer l decision) [0..<length (sv_peers sv)] sv;
              sv = upd_lobby sv l (upd_world (ShroomWorldResetMatch lm));
              (sv, roster) = BroadcastLobbyRoster sv (lb_lobby_id (lobby_at sv l))
          in (sv, told @ roster))"

section \<open>The tick of a lobby\<close>

text \<open>The tick lasts a thirtieth of a second: \<open>1.0f / SHROOM_SERVER_TICK_RATE\<close>.\<close>

definition tick_seconds :: f32 where
  "tick_seconds = f32_div 0x3f800000 0x41f00000"

text \<open>An empty lobby rests; a dynamic one that stays empty closes.\<close>

definition rest_lobby :: "u64 \<Rightarrow> ShroomLobby \<Rightarrow> ShroomLobby" where
  "rest_lobby now_ms lobby =
     (if \<not> lb_is_dynamic lobby then lobby
      else if lb_empty_since_ms lobby = 0 then lobby\<lparr>lb_empty_since_ms := now_ms\<rparr>
      else if SHROOM_LOBBY_DYNAMIC_EMPTY_TIMEOUT_S * 1000 \<le> now_ms - lb_empty_since_ms lobby
      then lobby\<lparr>lb_active := False\<rparr> else lobby)"

text \<open>Players who are in the lobby but not yet in the match stay protected.\<close>

definition protect_waiting :: "nat \<Rightarrow> nat \<Rightarrow> server \<Rightarrow> server" where
  "protect_waiting l i sv =
     (let session = session_at sv i
      in case se_player session of
           None \<Rightarrow> sv
         | Some p \<Rightarrow>
             if pe_connected (peer_at sv i) \<and> in_lobby (lb_lobby_id (lobby_at sv l)) (peer_at sv i) \<and>
                \<not> se_spectating session \<and> \<not> se_entered_match session \<and> pl_alive (player_at (lb_world (lobby_at sv l)) p)
             then upd_lobby sv l (upd_world (\<lambda>world. upd_player world p (\<lambda>q.
                    q\<lparr>pl_spawn_protection_timer := SHROOM_PLAYER_SPAWN_PROTECTION_SECONDS\<rparr>)))
             else sv)"

definition adjust_ai :: "nat \<Rightarrow> nat \<Rightarrow> server \<Rightarrow> server" where
  "adjust_ai l i sv =
     (if pe_connected (peer_at sv i) \<and> in_lobby (lb_lobby_id (lobby_at sv l)) (peer_at sv i)
      then (case AdjustSessionAiControl (session_at sv i) (lb_world (lobby_at sv l)) of
              (session, world) \<Rightarrow> upd_session (upd_lobby sv l (upd_world (\<lambda>_. world))) i (\<lambda>_. session))
      else sv)"

text \<open>The match after the step: its end opens the vote, and the vote or the clock starts it over.\<close>

definition tell_seconds :: "server \<Rightarrow> nat \<Rightarrow> server \<times> sends" where
  "tell_seconds sv l =
     (let seconds = word_of_int (f32_to_int (ws_match_results_time_remaining (lb_world (lobby_at sv l)))) :: u16
      in if seconds = lb_last_intermission_second (lobby_at sv l) then (sv, [])
         else
           let sv = upd_lobby sv l (\<lambda>lobby. lobby\<lparr>lb_last_intermission_second := seconds\<rparr>)
           in (sv, BroadcastIntermissionStatus sv (lobby_at sv l)))"

definition after_step :: "libm \<Rightarrow> server \<Rightarrow> nat \<Rightarrow> u32 \<Rightarrow> server \<times> sends" where
  "after_step lm sv l previous_phase =
     (let phase = (\<lambda>sv. ws_match_phase (lb_world (lobby_at sv l)));
          (sv, begun) = (if previous_phase = SHROOM_MATCH_PHASE_RUNNING \<and> phase sv = SHROOM_MATCH_PHASE_RESULTS
            then BeginIntermission sv l else (sv, []));
          (sv, voted) = (if phase sv = SHROOM_MATCH_PHASE_RESULTS then
              let (sv, told) = tell_seconds sv l
              in if ShroomIntermissionAllEligibleVoted (Some (lb_intermission (lobby_at sv l)))
                 then (case ResolveIntermission lm sv l of (sv, resolved) \<Rightarrow> (sv, told @ resolved))
                 else (sv, told)
            else (sv, []));
          (sv, reset) = (if phase sv = SHROOM_MATCH_PHASE_RESET then ResolveIntermission lm sv l else (sv, []))
      in (sv, begun @ voted @ reset))"

section \<open>Snapshots and world states\<close>

definition SHROOM_SNAPSHOT_KEYFRAME_TICKS :: u64 where "SHROOM_SNAPSHOT_KEYFRAME_TICKS = 30"

definition snapshot_metadata :: "ServerSession \<Rightarrow> ShroomWorldState \<Rightarrow> ShroomSnapshotFrameMetadata" where
  "snapshot_metadata session world =
     \<lparr>fm_tick = ws_tick world, fm_last_processed_input_sequence = se_last_processed_input_sequence session,
      fm_player_id = se_player_id session,
      fm_entity_id = (case se_player session of Some p \<Rightarrow> pl_entity_id (player_at world p) | None \<Rightarrow> 0),
      fm_match_phase = ucast (ws_match_phase world), fm_game_mode = ucast (ws_game_mode world),
      fm_match_time_remaining = ws_match_time_remaining world,
      fm_objective_target_score = ws_objective_target_score world,
      fm_objective_controller_id = ws_objective_controller_id world,
      fm_objective_contested = (if ws_objective_contested world then 1 else 0),
      fm_podium_player_ids = ws_podium_player_ids world, fm_podium_masses = ws_podium_masses world\<rparr>"

definition SendSnapshot :: "nat \<Rightarrow> ServerSession \<Rightarrow> ShroomWorldState \<Rightarrow> ServerSession \<times> sends" where
  "SendSnapshot i session world =
     (if \<not> se_active session \<or> \<not> se_spectating session \<and> se_player session = None then (session, [])
      else
        let (selected, interest) = ShroomSnapshotSelectPlayers (se_snapshot_interest session) world (se_player_id session)
              (se_focused_entity_id session) (se_spectating session) SHROOM_MAX_SNAPSHOT_PLAYERS;
            session = session\<lparr>se_snapshot_interest := interest\<rparr>;
            players = map (\<lambda>k. snapshot_of world (player_at world (unat k))) selected;
            baseline = ShroomSnapshotHistoryFind (Some (se_snapshot_history session)) (se_acknowledged_snapshot_tick session);
            keyframe = (baseline = None \<or> ws_tick world mod SHROOM_SNAPSHOT_KEYFRAME_TICKS = 0)
        in case ShroomSnapshotEncodeFrame (snapshot_metadata session world) players baseline keyframe of
             None \<Rightarrow> (session, [])
           | Some encoded \<Rightarrow>
               (session\<lparr>se_snapshot_history := the (ShroomSnapshotHistoryStore (Some (se_snapshot_history session))
                  (ws_tick world) (Some players))\<rparr>,
                map (\<lambda>p. (i, Snapshot p)) (ef_packets encoded)))"

definition ReplicationInterestCenter :: "ServerSession \<Rightarrow> ShroomWorldState \<Rightarrow> ShroomVec2" where
  "ReplicationInterestCenter session world =
     (let watched = find (\<lambda>p. pl_alive p \<and> pl_piece_index p = 0) (ws_players world);
          otherwise = (case watched of Some p \<Rightarrow> pl_position p
            | None \<Rightarrow> \<lparr>v2_x = f32_mul (ws_width world) 0x3f000000, v2_y = f32_mul (ws_height world) 0x3f000000\<rparr>)
      in case se_player session of
           Some p \<Rightarrow> if pl_alive (player_at world p) then pl_position (player_at world p) else otherwise
         | None \<Rightarrow> otherwise)"

definition SendWorldState :: "nat \<Rightarrow> ServerSession \<Rightarrow> ShroomWorldState \<Rightarrow> ServerSession \<times> sends" where
  "SendWorldState i session world =
     (let (batch, replication, records) = ShroomWorldReplicationBuild (se_world_replication session) world
            (ReplicationInterestCenter session world) False SHROOM_MAX_WORLD_STATE_RECORDS
      in (session\<lparr>se_world_replication := replication\<rparr>,
          map (\<lambda>p. (i, World_State p)) (SendWorldState_packets batch records)))"

text \<open>Sending to the members of the lobby, in the order of their peers.\<close>

definition send_to ::
  "(nat \<Rightarrow> ServerSession \<Rightarrow> ShroomWorldState \<Rightarrow> ServerSession \<times> sends) \<Rightarrow> nat \<Rightarrow> nat \<Rightarrow> server \<times> sends \<Rightarrow> server \<times> sends" where
  "send_to f l i state =
     (case state of (sv, sent) \<Rightarrow>
        (case f i (session_at sv i) (lb_world (lobby_at sv l)) of
           (session, packets) \<Rightarrow> (upd_session sv i (\<lambda>_. session), sent @ packets)))"

definition send_all ::
  "(nat \<Rightarrow> ServerSession \<Rightarrow> ShroomWorldState \<Rightarrow> ServerSession \<times> sends) \<Rightarrow> server \<Rightarrow> nat \<Rightarrow> server \<times> sends" where
  "send_all f sv l = fold (send_to f l) (members (sv_peers sv) (lb_lobby_id (lobby_at sv l))) (sv, [])"

text \<open>\<open>(uint64_t)(SHROOM_SERVER_TICK_RATE / (float)SHROOM_WORLD_REPLICATION_RATE)\<close>\<close>

definition spore_interval_ticks :: u64 where "spore_interval_ticks = 6"

definition TickLobby :: "server_env \<Rightarrow> server \<Rightarrow> nat \<Rightarrow> server \<times> sends" where
  "TickLobby env sv l =
     (let lobby = lobby_at sv l
      in if \<not> lb_active lobby then (sv, [])
         else if unat (CountLobbyRealPlayers (sv_peers sv) (lb_lobby_id lobby)) +
                 unat (CountLobbySpectators (sv_peers sv) (lb_lobby_id lobby)) = 0
         then (upd_lobby sv l (rest_lobby (en_now_ms env)), [])
         else
           let sv = upd_lobby sv l (\<lambda>lobby. lobby\<lparr>lb_empty_since_ms := 0\<rparr>);
               sv = fold (protect_waiting l) [0..<length (sv_peers sv)] sv;
               (lobby, next_player_id) = AdjustLobbyBots (en_libm env) (lobby_at sv l) (sv_peers sv)
                 (sv_next_player_id sv) (en_now_ms env);
               sv = (upd_lobby sv l (\<lambda>_. lobby))\<lparr>sv_next_player_id := next_player_id\<rparr>;
               previous_phase = ws_match_phase (lb_world lobby);
               sv = upd_lobby sv l (upd_world (\<lambda>world. ShroomWorldStep (en_libm env) world tick_seconds));
               (sv, told) = after_step (en_libm env) sv l previous_phase;
               sv = fold (adjust_ai l) [0..<length (sv_peers sv)] sv;
               (scheduler, emit) = ShroomSnapshotSchedulerStep (Some (lb_snapshot_scheduler (lobby_at sv l)));
               sv = upd_lobby sv l (\<lambda>lobby. lobby\<lparr>lb_snapshot_scheduler := the scheduler\<rparr>);
               (sv, snapshots) = (if emit then send_all SendSnapshot sv l else (sv, []));
               (sv, states) = (if ws_tick (lb_world (lobby_at sv l)) mod spore_interval_ticks = 0
                 then send_all SendWorldState sv l else (sv, []))
           in (sv, told @ snapshots @ states))"

section \<open>Peers\<close>

definition ConnectPeer :: "server \<Rightarrow> nat \<Rightarrow> server" where
  "ConnectPeer sv i =
     set_voice_peer (sv\<lparr>sv_peers := (sv_peers sv)[i := (peer_at sv i)\<lparr>pe_connected := True, pe_attached := True\<rparr>]\<rparr>) i True 0 0"

text \<open>The peer has left: ENet has already taken it out of the connected ones.\<close>

definition DisconnectPeer :: "server \<Rightarrow> nat \<Rightarrow> server \<times> sends" where
  "DisconnectPeer sv i =
     (let sv = sv\<lparr>sv_peers := (sv_peers sv)[i := (peer_at sv i)\<lparr>pe_connected := False\<rparr>]\<rparr>;
          session = session_at sv i;
          lobby_id = (if pe_attached (peer_at sv i) then se_lobby_id session else 0);
          (sv, told) = (case FindLobbyById (sv_lobbies sv) lobby_id of
              None \<Rightarrow> (sv, []) | Some l \<Rightarrow> withdraw_voter sv l (se_player_id session));
          sv = (if pe_attached (peer_at sv i) then DisconnectSession sv i else sv);
          sv = set_voice_peer sv i False 0 0;
          sv = sv\<lparr>sv_peers := (sv_peers sv)[i := (peer_at sv i)\<lparr>pe_attached := False\<rparr>]\<rparr>;
          (sv, roster) = BroadcastLobbyRoster sv lobby_id
      in (sv, told @ roster))"

text \<open>
  One step of the main loop, with the C library's \<open>cosf\<close> and \<open>sinf\<close> as a parameter.  A packet comes
  from a peer whose connection was announced.
\<close>

inductive server_step :: "libm \<Rightarrow> server \<Rightarrow> sends \<Rightarrow> server \<Rightarrow> bool" for lm where
  connect: "i < SHROOM_SERVER_MAX_CLIENTS \<Longrightarrow> \<not> pe_attached (peer_at sv i) \<Longrightarrow> server_step lm sv [] (ConnectPeer sv i)"
| receive: "i < SHROOM_SERVER_MAX_CLIENTS \<Longrightarrow> pe_attached (peer_at sv i) \<Longrightarrow> en_libm env = lm \<Longrightarrow>
    HandlePacket env sv i header data_length channel_id body = (sv', sent) \<Longrightarrow> server_step lm sv sent sv'"
| disconnecting: "i < SHROOM_SERVER_MAX_CLIENTS \<Longrightarrow>
    server_step lm sv [] (sv\<lparr>sv_peers := (sv_peers sv)[i := (peer_at sv i)\<lparr>pe_connected := False\<rparr>]\<rparr>)"
| disconnect: "i < SHROOM_SERVER_MAX_CLIENTS \<Longrightarrow> DisconnectPeer sv i = (sv', sent) \<Longrightarrow> server_step lm sv sent sv'"
| tick: "l < SHROOM_MAX_LOBBIES \<Longrightarrow> en_libm env = lm \<Longrightarrow> TickLobby env sv l = (sv', sent) \<Longrightarrow> server_step lm sv sent sv'"

end
