(* ===== verification/Sim_Sound_Tick.thy ===== *)
theory Sim_Sound_Tick
  imports Sim_Sound_Rules
begin

text \<open>The rules of a tick (\<open>Sim_Rules\<close>) keep a sound world sound and leave the match alone.\<close>

section \<open>The magnet\<close>

text \<open>One coordinate of a spore that moves by a part of its way to the player.\<close>

lemma pulled_coordinate:
  assumes s: "f32_within 0 0x45bb8000 s" and p: "f32_within 0x41200000 0x45bb3000 p" and t: "f32_within 0 0x3f800000 t"
  shows "f32_within 0 0x45bb8000 (f32_add s (f32_mul (f32_sub p s) t))"
proof -
  let ?U = "2 ^ 149 :: int"
  have u: "f32_units 0 = 0" "f32_units 0x45bb8000 = 6000 * ?U" "f32_units 0x41200000 = 10 * ?U" "f32_units 0x45bb3000 = 5990 * ?U"
    and f: "f32_finite 0" "f32_finite 0x45bb8000"
    by code_simp+
  note s' = withinD [OF s, unfolded u] and p' = withinD [OF p, unfolded u]
  define k where "k = f32_units s div ?U"
  have k: "k * ?U \<le> f32_units s" "f32_units s < (k + 1) * ?U" "0 \<le> k" "k \<le> 6000"
  proof -
    have "k * ?U + f32_units s mod ?U = f32_units s" unfolding k_def by (rule div_mult_mod_eq)
    moreover have "0 \<le> f32_units s mod ?U" "f32_units s mod ?U < ?U" by (simp_all add: pos_mod_bound)
    ultimately show "k * ?U \<le> f32_units s" "f32_units s < (k + 1) * ?U" by (simp_all add: distrib_right)
    show "0 \<le> k" using s'(2) by (simp add: k_def pos_imp_zdiv_nonneg_iff)
    show "k \<le> 6000" unfolding k_def using zdiv_mono1 [OF s'(3), of ?U] by simp
  qed
  define n m where "n = max 0 (5990 - k)" and "m = max 0 (k - 9)"
  have n: "0 \<le> n" "n < 2 ^ 24" "0 \<le> m" "m < 2 ^ 24" "5990 - k \<le> n" "n + k \<le> 5999 \<or> n = 0" "k - 9 \<le> m" "m \<le> k"
    using k(3,4) by (auto simp: n_def m_def)
  obtain hi where hi: "f32_finite hi" "f32_units hi = n * ?U" using int_unit [OF n(1,2)] by blast
  obtain lo where lo: "f32_finite lo" "f32_units lo = m * ?U" using int_unit [OF n(3,4)] by blast
  have d: "f32_within (f32_uminus lo) hi (f32_sub p s)"
  proof (rule within_rounded [OF f32_sub_rounded [OF p'(1) s'(1)]])
    show "f32_finite (f32_uminus lo)" "f32_finite hi" using lo hi by (simp_all add: f32_uminus_simps)
    have "(k - 9) * ?U \<le> m * ?U" "(5990 - k) * ?U \<le> n * ?U" using n by (intro mult_right_mono; simp)+
    then show "f32_units (f32_uminus lo) * 2 ^ 0 \<le> f32_units p - f32_units s" "f32_units p - f32_units s \<le> f32_units hi * 2 ^ 0"
      unfolding f32_uminus_simps lo(2) hi(2) using s' p' k by (simp_all add: algebra_simps)
  qed
  have r: "f32_within (f32_uminus lo) hi (f32_mul (f32_sub p s) t)"
    by (rule within_scaled(2) [OF t d]) (use lo hi n in \<open>simp_all add: f32_uminus_simps\<close>)
  note r' = withinD [OF r, unfolded f32_uminus_simps lo(2) hi(2)]
  have "m * ?U \<le> k * ?U" using n by (intro mult_right_mono) simp_all
  moreover have "n * ?U + f32_units s \<le> 6000 * ?U"
  proof (cases "n = 0")
    case False
    with n have "(n + k + 1) * ?U \<le> 6000 * ?U" by (intro mult_right_mono) simp_all
    with k(2) show ?thesis by (simp add: algebra_simps)
  qed (use s' in simp)
  ultimately show ?thesis
    using r' s' k by (intro within_rounded [OF f32_add_rounded f]) (simp_all add: u)
qed

lemma min_le:
  assumes "f32_within l1 h1 a" and "f32_within l2 h2 b" and "f32_units lo \<le> f32_units l1" and "f32_units lo \<le> f32_units l2"
  shows "f32_within lo a (f32_min a b)"
  using assms by (auto simp: f32_within_def units_mono_iff f32_min_def f32_lt_iff)

lemma pull_ratio:
  assumes "f32_within 0 0x48800000 d2" and "\<not> f32_le d2 0x38d1b717" and "f32_within 0 0x3f800000 dt"
  shows "f32_within 0 0x3f800000 (f32_div (f32_min (f32_sqrt d2) (f32_mul SHROOM_POWERUP_MAGNET_PULL_SPEED dt)) (f32_sqrt d2))"
proof -
  have "f32_finite 0x38d1b717" by code_simp
  note low = not_le_within [OF assms(1,2) this]
  have root: "f32_within 0x3c000000 0x44000000 (f32_sqrt d2)" by (rule within_sqrt [OF low]) code_simp+
  have v: "f32_within 0x44020000 0x44020000 SHROOM_POWERUP_MAGNET_PULL_SPEED" by code_simp
  have step: "f32_within 0 0x44020000 (f32_mul SHROOM_POWERUP_MAGNET_PULL_SPEED dt)"
    by (rule within_mul_nonneg [OF v assms(3)]) code_simp+
  have c: "f32_units 0 \<le> f32_units 0x3c000000" "f32_units 0 \<le> f32_units 0" "0 < f32_units 0x3c000000"
    "f32_finite 0" "f32_finite 0x3f800000" "f32_units 0 = 0" "f32_units 0x3f800000 = 2 ^ 149"
    by code_simp+
  have pos: "0 < f32_units (f32_sqrt d2)" using withinD(2) [OF root] c(3) by linarith
  have self: "f32_within (f32_sqrt d2) (f32_sqrt d2) (f32_sqrt d2)" using root by (simp add: f32_within_def)
  show ?thesis by (rule within_div [OF min_le [OF root step c(1,2)] self]) (use pos c in simp_all)
qed

lemma vec_within_sub:
  assumes "in_arena a" and "in_arena b"
  shows "vec_within 0x45bb8000 (ShroomVec2Sub a b)"
proof -
  have w: "SHROOM_WORLD_WIDTH = 0x45bb8000" "SHROOM_WORLD_HEIGHT = 0x45bb8000" by code_simp+
  have sub: "f32_within (f32_uminus 0x45bb8000) 0x45bb8000 (f32_sub x y)" if "f32_within 0 0x45bb8000 x" "f32_within 0 0x45bb8000 y" for x y
    by (rule within_sub [OF that]) code_simp+
  show ?thesis using assms by (simp add: vec_within_def ShroomVec2Sub_def in_arena_def w sub)
qed

lemma vec_within_weaken: "vec_within a v \<Longrightarrow> f32_units a \<le> f32_units b \<Longrightarrow> vec_within b v"
  by (auto simp: vec_within_def f32_uminus_simps intro: within_weaken)

lemma pull_spore_in_arena:
  assumes "position_ok (pl_position p)" and "in_arena (pl_position p)" and "in_arena (spo_position s)" and "f32_within 0 0x3f800000 dt"
  shows "in_arena (spo_position (pull_spore p dt s))"
proof -
  define v where "v = ShroomVec2Sub (pl_position p) (spo_position s)"
  define d2 where "d2 = ShroomVec2LengthSqr v"
  define t where "t = f32_div (f32_min (f32_sqrt d2) (f32_mul SHROOM_POWERUP_MAGNET_PULL_SPEED dt)) (f32_sqrt d2)"
  let ?R = "f32_mul SHROOM_POWERUP_MAGNET_RADIUS SHROOM_POWERUP_MAGNET_RADIUS"
  have "f32_units 0x45bb8000 \<le> f32_units 0x49800000" by code_simp
  then have "vec_within 0x49800000 v" unfolding v_def by (rule vec_within_weaken [OF vec_within_sub [OF assms(2,3)]])
  note l = length_sqr_within(1) [OF this, folded d2_def]
  show ?thesis
  proof (cases "\<not> spo_active s \<or> f32_le d2 0x38d1b717 \<or> f32_lt ?R d2")
    case True
    then show ?thesis using assms(3) by (auto simp: pull_spore_def Let_def d2_def v_def)
  next
    case False
    have R: "?R = 0x47992000" "f32_finite 0x47992000" "\<not> f32_is_nan 0x47992000" "f32_units 0x47992000 \<le> f32_units 0x48800000" by code_simp+
    have "f32_order d2 \<le> f32_order 0x47992000" using False R(3) within_not_nan [OF l] by (simp add: R(1) f32_lt_iff)
    then have "f32_within 0 0x48800000 d2" using l R by (auto simp: f32_within_def units_mono_iff)
    then have t: "f32_within 0 0x3f800000 t" unfolding t_def using False assms(4) by (intro pull_ratio) simp_all
    have w: "SHROOM_WORLD_WIDTH = 0x45bb8000" "SHROOM_WORLD_HEIGHT = 0x45bb8000" by code_simp+
    have "spo_position (pull_spore p dt s) = ShroomVec2Add (spo_position s) (ShroomVec2Scale v t)"
      using False by (simp add: pull_spore_def Let_def d2_def v_def t_def)
    then show ?thesis using assms(1,3) pulled_coordinate [OF _ _ t]
      by (simp add: in_arena_def position_ok_def ShroomVec2Add_def ShroomVec2Scale_def v_def ShroomVec2Sub_def w)
  qed
qed

lemma ApplyMagnet_sound:
  assumes "world_ok w" and "player_ok p" and "pl_alive p" and "f32_within 0 0x3f800000 dt"
  shows "sound_step w (ShroomApplyMagnetToSpores w p dt)"
proof -
  have "list_all (\<lambda>s. in_arena (spo_position s)) (map (pull_spore p dt) (take n (ws_spores w)) @ drop n (ws_spores w))" for n
    using assms by (auto simp: world_ok_def list_all_iff player_ok_def intro!: pull_spore_in_arena dest: in_set_takeD in_set_dropD)
  then show ?thesis by (simp add: ShroomApplyMagnetToSpores_def sound_step_def same_match_def world_ok_def)
qed

lemma ApplyMagnet_players [simp]: "ws_players (ShroomApplyMagnetToSpores w p dt) = ws_players w"
  by (simp add: ShroomApplyMagnetToSpores_def)

section \<open>Collecting\<close>

lemma of_uint16_finite: "f32_finite (f32_of_int (uint (v :: u16)))"
proof -
  have "uint v < 2 ^ 16" using uint_lt2p [of v] by simp
  then have "uint v * 2 ^ 149 \<le> 2 ^ 16 * 2 ^ 149" by (intro mult_right_mono) simp_all
  moreover have "f32_units 0x47800000 = 2 ^ 16 * 2 ^ 149" "f32_units 0 = 0" "f32_finite 0" "f32_finite 0x47800000" by code_simp+
  ultimately show ?thesis by (intro within_finite [OF of_int_within, of 0 "0x47800000"]) simp_all
qed

lemma collect_spore_sound:
  assumes "libm_ok lm" and "world_ok w"
  shows "sound_step w (collect_spore lm i r k w)"
proof -
  let ?p = "player_at w i" and ?s = "spore_at w k"
  define w1 where "w1 = upd_player w i (\<lambda>p. p\<lparr>pl_mass :=
    ShroomClamp (f32_add (pl_mass p) (f32_of_int (uint (spo_value ?s)))) 0 SHROOM_MAX_PLAYER_MASS\<rparr>)"
  have s1: "sound_step w w1" unfolding w1_def
    by (rule upd_player_sound) (simp add: player_ok_def mass_gain of_uint16_finite)
  note s2 = SpawnOrResetSpore_sound [OF assms(1) sound_step_ok [OF s1 assms(2)], of k]
  show ?thesis
    unfolding collect_spore_def Let_def w1_def [symmetric]
    by (simp split: if_split) (blast intro: sound_step_trans [OF sound_step_trans [OF s1 s2] note_stats_sound])
qed

lemma sound_fold:
  assumes "\<And>x w'. x \<in> set xs \<Longrightarrow> sound_step w w' \<Longrightarrow> world_ok w' \<Longrightarrow> sound_step w' (f x w')" and "world_ok w" and "sound_step v w"
  shows "sound_step v (fold f xs w)"
  by (rule sound_step_trans [OF assms(3) sound_step_fold [OF assms(1,2)]])

lemma collect_spores_of_sound:
  assumes "libm_ok lm" and "world_ok w" and "f32_within 0 0x3f800000 dt" and "i < length (ws_players w)"
  shows "sound_step w (collect_spores_of lm grid dt i w)"
proof (cases "pl_alive (player_at w i)")
  case True
  let ?w = "ShroomApplyMagnetToSpores w (player_at w i) dt"
  have s: "sound_step w ?w" using assms True by (simp add: ApplyMagnet_sound player_okD)
  note ok = sound_step_ok [OF s assms(2)]
  have "sound_step w (fold (collect_spore lm i r) ks ?w)" for r ks
    by (rule sound_fold [OF _ ok s]) (rule collect_spore_sound [OF assms(1)])
  with s True show ?thesis by (simp add: collect_spores_of_def Let_def)
qed (simp add: collect_spores_of_def Let_def)

lemma CollectSpores_sound:
  assumes "libm_ok lm" and "world_ok w" and "f32_within 0 0x3f800000 dt"
  shows "sound_step w (ShroomCollectSpores lm w grid dt)"
  unfolding ShroomCollectSpores_def
  by (rule sound_step_fold [OF _ assms(2)]) (auto intro!: collect_spores_of_sound [OF assms(1) _ assms(3)] dest: sound_step_length)

section \<open>Consuming\<close>

lemma gain_finite: "mass_ok m \<Longrightarrow> f32_finite (f32_mul m SHROOM_CONSUME_MASS_GAIN_FACTOR)"
proof (rule within_finite, rule within_mul_nonneg)
  assume "mass_ok m"
  then show "f32_within 0 SHROOM_MAX_PLAYER_MASS m" by (simp add: mass_ok_def)
  show "f32_within 0 0x3f800000 SHROOM_CONSUME_MASS_GAIN_FACTOR" "0 \<le> f32_units 0" "0 \<le> f32_units 0" "f32_finite 0"
    "f32_finite SHROOM_MAX_PLAYER_MASS" "f32_units 0 * 2 ^ 149 \<le> f32_units 0 * f32_units 0"
    "f32_units SHROOM_MAX_PLAYER_MASS * f32_units 0x3f800000 \<le> f32_units SHROOM_MAX_PLAYER_MASS * 2 ^ 149"
    by code_simp+
qed

lemma clear_orphan_sound: "sound_step w (clear_orphan v k i w)"
  by (auto simp: clear_orphan_def Let_def empty_player_ok intro!: upd_player_sound)

lemma consume_victim_sound:
  assumes "libm_ok lm" and "world_ok w" and "v < length (ws_players w)"
  shows "sound_step w (consume_victim lm v i w)"
proof -
  let ?victim = "player_at w v"
  define w1 where "w1 = upd_player w i (\<lambda>p. p\<lparr>pl_mass := ShroomClamp
    (f32_add (pl_mass p) (f32_mul (pl_mass ?victim) SHROOM_CONSUME_MASS_GAIN_FACTOR)) 0 SHROOM_MAX_PLAYER_MASS\<rparr>)"
  define w2 where "w2 = upd_player w1 v (\<lambda>p. p\<lparr>pl_alive := False\<rparr>)"
  define w3 where "w3 = note_stats w2 (pl_player_id (player_at w2 i)) (\<lambda>s. s\<lparr>rs_kills := rs_kills s + 1,
    rs_mass_consumed := f32_add (rs_mass_consumed s) (f32_mul (pl_mass ?victim) SHROOM_CONSUME_MASS_GAIN_FACTOR)\<rparr>)"
  define w4 where "w4 = note_stats w3 (pl_player_id ?victim) (\<lambda>s. s\<lparr>rs_mass_lost := f32_add (rs_mass_lost s) (pl_mass ?victim),
    rs_deaths := if pl_piece_index ?victim = 0 then rs_deaths s + 1 else rs_deaths s\<rparr>)"
  have v: "mass_ok (pl_mass ?victim)" using player_okD [OF assms(2,3)] by (simp add: player_ok_def)
  have s1: "sound_step w w1" unfolding w1_def
    by (rule upd_player_sound) (simp add: player_ok_def mass_gain gain_finite v)
  have s2: "sound_step w1 w2" unfolding w2_def by (rule upd_player_sound) (simp add: player_ok_def)
  have s3: "sound_step w2 w4" unfolding w4_def w3_def by (rule sound_step_trans [OF note_stats_sound note_stats_sound])
  note s4 = sound_step_trans [OF sound_step_trans [OF s1 s2] s3]
  note ok = sound_step_ok [OF s4 assms(2)]
  note s5 = sound_step_trans [OF s4 RespawnPlayer_sound [OF assms(1) ok, of v]]
  note s6 = sound_fold [OF clear_orphan_sound sound_step_ok [OF s5 assms(2)] s5]
  have "sound_step w4 (upd_player w4 v (\<lambda>p. p\<lparr>pl_mass := 0, pl_radius := 0, pl_split_velocity := zero_vec2,
      pl_merge_timer := 0, pl_ai_controlled := False, pl_piece_index := 0, pl_player_id := 0\<rparr>))"
    by (rule upd_player_sound) (simp add: player_ok_def unit_zero)
  note s7 = sound_step_trans [OF s4 this]
  show ?thesis
    unfolding consume_victim_def Let_def w1_def [symmetric] w2_def [symmetric] w3_def [symmetric] w4_def [symmetric]
    by (cases "pl_piece_index ?victim = 0") (simp_all add: s6 s7)
qed

lemma ResolveConsumes_sound:
  assumes "libm_ok lm" and "world_ok w"
  shows "sound_step w (ShroomResolveConsumes lm w)"
  unfolding ShroomResolveConsumes_def Let_def
  by (rule sound_step_fold [OF _ assms(2)])
    (auto intro!: consume_victim_sound [OF assms(1)] dest: sound_step_length split: option.split)

section \<open>Losing mass\<close>

text \<open>What is left of the accumulator when the whole part has become a spore.\<close>

lemma fraction_left:
  assumes "f32_within 0 0x43800000 a" and "v = (word_of_int (f32_to_int a) :: u16)"
  shows "f32_within 0 0x3f800000 (f32_sub a (f32_of_int (uint v)))" and "\<not> 0 < v \<Longrightarrow> f32_within 0 0x3f800000 a"
proof -
  let ?U = "2 ^ 149 :: int"
  have u: "f32_units 0 = 0" "f32_units 0x43800000 = 256 * ?U" "f32_units 0x3f800000 = ?U"
    and f: "f32_finite 0" "f32_finite 0x3f800000" by code_simp+
  note a = withinD [OF assms(1), unfolded u]
  define n where "n = f32_units a div ?U"
  have "n * ?U + f32_units a mod ?U = f32_units a" unfolding n_def by (rule div_mult_mod_eq)
  moreover have "0 \<le> f32_units a mod ?U" "f32_units a mod ?U < ?U" by simp_all
  ultimately have n: "n * ?U \<le> f32_units a" "f32_units a < n * ?U + ?U" by simp_all
  have "0 \<le> n" using a(2) by (simp add: n_def pos_imp_zdiv_nonneg_iff)
  moreover have "n \<le> 256" unfolding n_def using zdiv_mono1 [OF a(3), of ?U] by simp
  ultimately have r: "0 \<le> n" "n < 2 ^ 24" "n < 2 ^ 16" by simp_all
  have "f32_to_int a = n"
  proof (cases "f32_neg a")
    case True
    then have "f32_units a \<le> 0" using f32_neg_units(2) [of a] by linarith
    with a(2) True show ?thesis by (simp add: f32_to_int_def n_def)
  qed (use a in \<open>simp add: f32_to_int_def n_def\<close>)
  then have v: "uint v = n" using r by (simp add: assms(2) unsigned_of_int take_bit_int_eq_self)
  obtain c where c: "f32_finite c" "f32_units c = n * ?U" using int_unit [OF r(1,2)] by blast
  have "f32_within c c (f32_of_int n)" by (rule of_int_within [OF c(1,1)]) (simp_all add: c)
  then have i: "f32_finite (f32_of_int n)" "f32_units (f32_of_int n) = n * ?U" using withinD(1-3) [of c c] c(2) by fastforce+
  show "f32_within 0 0x3f800000 (f32_sub a (f32_of_int (uint v)))"
    unfolding v by (rule within_rounded [OF f32_sub_rounded [OF a(1) i(1)] f]) (use n in \<open>simp_all add: i u\<close>)
  assume "\<not> 0 < v"
  then have "v = 0" by (metis word_gt_0)
  with v have "n = 0" by simp
  then show "f32_within 0 0x3f800000 a" using n a(1) f u by (simp add: f32_within_def flip: units_mono_iff)
qed

lemma mass_less:
  assumes "mass_ok m" and "f32_finite x"
  shows "mass_ok (ShroomClamp (f32_sub m x) 0 SHROOM_MAX_PLAYER_MASS)"
  by (rule mass_clamp, rule rounded_not_nan [OF f32_sub_rounded]) (use assms in \<open>simp_all add: mass_finite\<close>)

lemma ApplyMassLoss_sound:
  assumes "libm_ok lm" and "world_ok w" and "f32_within 0xc3000000 0x43000000 loss" and "i < length (ws_players w)"
    and "pl_alive (player_at w i)"
  shows "sound_step w (ShroomApplyMassLoss lm w i loss)"
proof (cases "f32_le loss 0")
  case False
  have z: "f32_finite 0" by code_simp
  have loss: "f32_within 0 0x43000000 loss" by (rule not_le_within [OF assms(3) False z])
  let ?p = "player_at w i"
  have p: "player_ok ?p" by (rule player_okD [OF assms(2,4)])
  define r where "r = f32_add (pl_radius ?p) 0x41400000"
  obtain angle w1 where 1: "ShroomRandomFloat w 0 0x40c90fdb = (angle, w1)" by fastforce
  define q where "q = \<lparr>v2_x = ShroomClamp (f32_add (v2_x (pl_position ?p)) (f32_mul (lm_cosf lm angle) r)) 0x42700000 (f32_sub (ws_width w1) 0x42700000),
    v2_y = ShroomClamp (f32_add (v2_y (pl_position ?p)) (f32_mul (lm_sinf lm angle) r)) 0x42700000 (f32_sub (ws_height w1) 0x42700000)\<rparr>"
  have s1: "sound_step w w1" using ShroomRandomFloat_reseeds [of w 0 "0x40c90fdb"] by (simp add: 1 reseeded_sound)
  note ok1 = sound_step_ok [OF s1 assms(2)]
  have k: "f32_within 0 0 0" "f32_within 0 0x40c90fdb (f32_sub 0x40c90fdb 0)" by code_simp+
  have "f32_within 0 0x40c90fdb (fst (ShroomRandomFloat w 0 0x40c90fdb))" by (rule ShroomRandomFloat_within [OF k]) code_simp+
  then have t: "f32_within 0xbf800000 0x3f800000 (lm_cosf lm angle)" "f32_within 0xbf800000 0x3f800000 (lm_sinf lm angle)"
    using assms(1) by (simp_all add: 1 libm_ok_def within_finite)
  have twelve: "f32_within 0x41400000 0x41400000 0x41400000" by code_simp
  have "f32_within 0 0x438b8000 (pl_radius ?p)" using p by (simp add: player_ok_def)
  then have r: "f32_within 0 0x45800000 r" unfolding r_def by (rule within_add [OF _ twelve]) code_simp+
  have m: "f32_finite 0x42700000" "f32_finite (f32_sub SHROOM_WORLD_WIDTH 0x42700000)"
    "f32_order 0x42700000 \<le> f32_order (f32_sub SHROOM_WORLD_WIDTH 0x42700000)"
    "f32_units 0 \<le> f32_units 0x42700000" "f32_units (f32_sub SHROOM_WORLD_WIDTH 0x42700000) \<le> f32_units SHROOM_WORLD_WIDTH"
    "SHROOM_WORLD_WIDTH = 0x45bb8000" "SHROOM_WORLD_HEIGHT = SHROOM_WORLD_WIDTH"
    by code_simp+
  have size: "ws_width w1 = SHROOM_WORLD_WIDTH" "ws_height w1 = SHROOM_WORLD_WIDTH" using ok1 m(7) by (simp_all add: world_ok_def)
  have c: "f32_within 0 0x45bb8000 (v2_x (pl_position ?p))" "f32_within 0 0x45bb8000 (v2_y (pl_position ?p))"
    using p by (simp_all add: player_ok_def in_arena_def m(6,7))
  have q: "in_arena q"
    unfolding q_def in_arena_def m(7) size ShroomVec2.select_convs
    by (intro conjI within_weaken [OF clamped_coordinate [OF t(1) r c(1) m(1-3)] m(4,5)]
        within_weaken [OF clamped_coordinate [OF t(2) r c(2) m(1-3)] m(4,5)])
  have acc: "f32_within 0 0x43800000 (f32_add (pl_decay_spore_accumulator ?p) loss)"
  proof (rule within_add [OF _ loss])
    show "f32_within 0 0x3f800000 (pl_decay_spore_accumulator ?p)" using p by (simp add: player_ok_def)
  qed code_simp+
  define v where "v = (word_of_int (f32_to_int (f32_add (pl_decay_spore_accumulator ?p) loss)) :: u16)"
  note left = fraction_left [OF acc v_def]
  define w2 where "w2 = upd_player w1 i (\<lambda>p. p\<lparr>pl_mass := ShroomClamp (f32_sub (pl_mass p) loss) 0 SHROOM_MAX_PLAYER_MASS\<rparr>)"
  define w3 where "w3 = note_stats w2 (pl_player_id ?p) (\<lambda>s. s\<lparr>rs_mass_lost := f32_add (rs_mass_lost s) loss\<rparr>)"
  let ?put = "\<lambda>w a. upd_player w i (\<lambda>p. p\<lparr>pl_decay_spore_accumulator := a\<rparr>)"
  define w4 where "w4 = ?put w3 (f32_add (pl_decay_spore_accumulator ?p) loss)"
  have "sound_step w1 w2" unfolding w2_def
    by (rule upd_player_sound) (simp add: player_ok_def mass_less within_finite [OF loss])
  then have s3: "sound_step w w3" unfolding w3_def by (blast intro: s1 sound_step_trans note_stats_sound)
  have eq: "ShroomApplyMassLoss lm w i loss = (if 0 < v then ?put (ShroomSpawnDecaySpore w4 q v)
      (f32_sub (f32_add (pl_decay_spore_accumulator ?p) loss) (f32_of_int (uint v))) else w4)"
    using False unfolding ShroomApplyMassLoss_def Let_def 1 prod.case r_def [symmetric] q_def [symmetric] w2_def [symmetric]
      w3_def [symmetric] w4_def [symmetric] v_def [symmetric] by simp
  show ?thesis
  proof (cases "0 < v")
    case False
    then have "sound_step w3 w4" unfolding w4_def by (intro upd_player_sound) (simp add: player_ok_def left(2))
    with False s3 show ?thesis by (auto simp: eq intro: sound_step_trans)
  next
    case True
    have len: "i < length (ws_players w3)" by (rule sound_step_length [OF s3 assms(4)])
    have "?put (ShroomSpawnDecaySpore w4 q v) a = ?put (ShroomSpawnDecaySpore w3 q v) a" for a
      using len by (auto simp: ShroomSpawnDecaySpore_def w4_def upd_player_def fresh_entity_def ShroomNextRandom_def Let_def)
    moreover have "sound_step (ShroomSpawnDecaySpore w3 q v)
        (?put (ShroomSpawnDecaySpore w3 q v) (f32_sub (f32_add (pl_decay_spore_accumulator ?p) loss) (f32_of_int (uint v))))"
      by (rule upd_player_sound) (simp add: player_ok_def left(1))
    moreover have "sound_step w (ShroomSpawnDecaySpore w3 q v)"
      by (rule sound_step_trans [OF s3 SpawnDecaySpore_sound [OF q sound_step_ok [OF s3 assms(2)]]])
    ultimately show ?thesis using True by (auto simp: eq intro: sound_step_trans)
  qed
qed (simp add: ShroomApplyMassLoss_def)

end
