(* ===== verification/Sim_Sound_Pieces.thy ===== *)
theory Sim_Sound_Pieces
  imports Sim_Sound_Tick
begin

text \<open>
  Decay, powerups, splitting, ejecting, merging and the moves of bots keep a sound world sound and
  leave the match alone.
\<close>

section \<open>Decay\<close>

lemma mass_not_nan: "mass_ok m \<Longrightarrow> \<not> f32_is_nan m"
  by (simp add: mass_ok_def within_not_nan)

lemma decay_loss_within:
  assumes "mass_ok m" and "f32_within 0 0x3f800000 dt"
  shows "f32_within 0xc3000000 0x43000000
    (f32_mul (f32_mul (f32_sub m (ShroomDecayMassThresholdAtPosition w p)) (ShroomDecayRateAtPosition w p)) dt)"
proof -
  have m: "f32_within 0 SHROOM_MAX_PLAYER_MASS m" using assms(1) by (simp add: mass_ok_def)
  have t: "f32_within 0 0x44f00000 (ShroomDecayMassThresholdAtPosition w p)"
    by (cases "ShroomGetZoneAtPosition w p"; simp add: ShroomDecayMassThresholdAtPosition_def; code_simp)
  have r: "f32_within (f32_uminus 0x3d800000) 0x3d800000 (ShroomDecayRateAtPosition w p)"
    by (cases "ShroomGetZoneAtPosition w p"; simp add: ShroomDecayRateAtPosition_def; code_simp)
  have e: "f32_within (f32_uminus 0x44f00000) 0x44f00000 (f32_sub m (ShroomDecayMassThresholdAtPosition w p))"
    by (rule within_sub [OF m t]) code_simp+
  have "f32_within (f32_uminus 0x43000000) 0x43000000 (f32_mul (f32_sub m (ShroomDecayMassThresholdAtPosition w p)) (ShroomDecayRateAtPosition w p))"
    by (rule within_mul_abs [OF e r]) code_simp+
  moreover have "f32_uminus 0x43000000 = 0xc3000000" by code_simp
  ultimately have "f32_within 0xc3000000 0x43000000 (f32_mul (f32_sub m (ShroomDecayMassThresholdAtPosition w p)) (ShroomDecayRateAtPosition w p))"
    by simp
  then show ?thesis by (rule within_scaled(2) [OF assms(2)]) code_simp+
qed

lemma idle_loss_within:
  assumes "f32_within 0 0x3f800000 dt"
  shows "f32_within 0xc3000000 0x43000000 (f32_mul SHROOM_IDLE_PENALTY_BLEED_PER_SECOND dt)"
proof -
  have k: "f32_within 0xc3000000 0x43000000 SHROOM_IDLE_PENALTY_BLEED_PER_SECOND" by code_simp
  show ?thesis by (rule within_scaled(2) [OF assms k]) code_simp+
qed

lemma ApplyMassLoss_alive:
  assumes "i < length (ws_players w)" and "pl_alive (player_at w i)"
  shows "pl_alive (player_at (ShroomApplyMassLoss lm w i loss) i)"
proof (cases "f32_le loss 0")
  case False
  obtain angle w1 where 1: "ShroomRandomFloat w 0 0x40c90fdb = (angle, w1)" by fastforce
  then have "ws_players w1 = ws_players w" using ShroomRandomFloat_reseeds [of w 0 "0x40c90fdb"] by simp
  with assms False show ?thesis by (simp add: ShroomApplyMassLoss_def Let_def 1 upd_player_def)
qed (use assms in \<open>simp add: ShroomApplyMassLoss_def\<close>)

lemma mass_rules_of_sound:
  assumes "libm_ok lm" and "world_ok w" and "f32_within 0 0x3f800000 dt" and "i < length (ws_players w)"
  shows "sound_step w (mass_rules_of lm dt now i w)"
proof (cases "pl_alive (player_at w i)")
  case True
  define w1 where "w1 = upd_player w i (\<lambda>p. p\<lparr>pl_mass := ShroomClamp (pl_mass p) 0 SHROOM_MAX_PLAYER_MASS\<rparr>)"
  define w2 where "w2 = (if ShroomPlayerCanDecay w1 (player_at w1 i)
    then ShroomApplyMassLoss lm w1 i (f32_mul (f32_mul (f32_sub (pl_mass (player_at w1 i))
      (ShroomDecayMassThresholdAtPosition w1 (pl_position (player_at w1 i))))
      (ShroomDecayRateAtPosition w1 (pl_position (player_at w1 i)))) dt) else w1)"
  define w3 where "w3 = (if f32_le (pl_decay_immune_powerup_timer (player_at w2 i)) 0 \<and>
      ShroomPlayerIdlePenaltyActive (player_at w2 i) now
    then ShroomApplyMassLoss lm w2 i (f32_mul SHROOM_IDLE_PENALTY_BLEED_PER_SECOND dt) else w2)"
  have s1: "sound_step w w1" unfolding w1_def
    by (rule upd_player_sound) (simp add: player_ok_def mass_clamp mass_not_nan)
  note ok1 = sound_step_ok [OF s1 assms(2)] and l1 = sound_step_length [OF s1 assms(4)]
  have a1: "pl_alive (player_at w1 i)" using True assms(4) by (simp add: w1_def)
  have m1: "mass_ok (pl_mass (player_at w1 i))" using player_okD [OF ok1 l1] by (simp add: player_ok_def)
  have s2: "sound_step w1 w2" and a2: "pl_alive (player_at w2 i)"
    using ApplyMassLoss_sound [OF assms(1) ok1 decay_loss_within [OF m1 assms(3)] l1 a1] ApplyMassLoss_alive [OF l1 a1] a1
    by (auto simp: w2_def)
  note l2 = sound_step_length [OF s2 l1]
  have s3: "sound_step w2 w3"
    using ApplyMassLoss_sound [OF assms(1) sound_step_ok [OF s2 ok1] idle_loss_within [OF assms(3)] l2 a2] by (auto simp: w3_def)
  have "sound_step w3 (upd_player w3 i (\<lambda>p. p\<lparr>pl_radius := ShroomMassToRadius (pl_mass p)\<rparr>))"
  proof (rule upd_player_sound)
    have b: "f32_units 0 \<le> f32_units 0x41200000" "f32_units 0x438b8000 \<le> f32_units 0x438b8000" by code_simp+
    assume "player_ok (player_at w3 i)"
    then show "player_ok ((player_at w3 i)\<lparr>pl_radius := ShroomMassToRadius (pl_mass (player_at w3 i))\<rparr>)"
      by (simp add: player_ok_def within_weaken [OF radius_within b])
  qed
  then have "sound_step w (upd_player w3 i (\<lambda>p. p\<lparr>pl_radius := ShroomMassToRadius (pl_mass p)\<rparr>))"
    by (blast intro: s1 s2 s3 sound_step_trans)
  with True show ?thesis
    unfolding mass_rules_of_def Let_def w1_def [symmetric] w2_def [symmetric] w3_def [symmetric] by simp
qed (simp add: mass_rules_of_def)

lemma ApplyMassRules_sound:
  assumes "libm_ok lm" and "world_ok w" and "f32_within 0 0x3f800000 dt"
  shows "sound_step w (ShroomApplyMassRules lm w dt now)"
  unfolding ShroomApplyMassRules_def
  by (rule sound_step_fold [OF _ assms(2)]) (auto intro!: mass_rules_of_sound [OF assms(1) _ assms(3)] dest: sound_step_length)

section \<open>Powerups\<close>

lemma grant_powerup_ok: "player_ok p \<Longrightarrow> player_ok (grant_powerup t p)"
  by (simp add: grant_powerup_def player_ok_def)

lemma powerup_position: "world_ok w \<Longrightarrow> k < SHROOM_MAX_POWERUPS \<Longrightarrow> in_arena (pow_position (ws_powerups w ! k))"
  by (simp add: world_ok_def list_all_length)

lemma powerup_in_place_sound:
  assumes "world_ok w" and "pow_position s = pow_position (ws_powerups w ! k)"
  shows "sound_step w (w\<lparr>ws_powerups := (ws_powerups w)[k := s]\<rparr>)"
proof (cases "k < length (ws_powerups w)")
  case True
  with assms have "in_arena (pow_position s)" by (simp add: world_ok_def list_all_length)
  then show ?thesis by (rule powerup_update_sound)
qed (simp add: list_update_beyond)

lemma collect_powerup_sound:
  assumes "world_ok w"
  shows "sound_step w (collect_powerup i k w)"
proof -
  let ?s = "(ws_powerups w ! k)\<lparr>pow_active := False, pow_respawn_timer := SHROOM_POWERUP_RESPAWN_SECONDS\<rparr>"
  have s1: "sound_step w (w\<lparr>ws_powerups := (ws_powerups w)[k := ?s]\<rparr>)" by (rule powerup_in_place_sound [OF assms]) simp
  have "(upd_player w i f)\<lparr>ws_powerups := ps\<rparr> = upd_player (w\<lparr>ws_powerups := ps\<rparr>) i f" for f ps by (simp add: upd_player_def)
  moreover have "sound_step w' (upd_player w' i (grant_powerup t))" for w' t by (rule upd_player_sound) (rule grant_powerup_ok)
  ultimately show ?thesis using s1 by (auto simp: collect_powerup_def Let_def intro: sound_step_trans)
qed

lemma CollectPowerups_sound:
  assumes "world_ok w"
  shows "sound_step w (ShroomCollectPowerups w)"
  unfolding ShroomCollectPowerups_def
  by (rule sound_step_fold [OF _ assms]) (simp add: sound_step_fold collect_powerup_sound)

lemma update_powerup_sound:
  assumes "libm_ok lm" and "world_ok w"
  shows "sound_step w (update_powerup lm dt k w)"
proof -
  let ?s = "(ws_powerups w ! k)\<lparr>pow_respawn_timer := f32_sub (pow_respawn_timer (ws_powerups w ! k)) dt\<rparr>"
  have s1: "sound_step w (w\<lparr>ws_powerups := (ws_powerups w)[k := ?s]\<rparr>)" by (rule powerup_in_place_sound [OF assms(2)]) simp
  note s2 = sound_step_trans [OF s1 SpawnOrResetPowerup_sound [OF assms(1) sound_step_ok [OF s1 assms(2)]]]
  show ?thesis using s1 s2 by (simp add: update_powerup_def Let_def)
qed

lemma UpdatePowerups_sound:
  assumes "libm_ok lm" and "world_ok w"
  shows "sound_step w (ShroomUpdatePowerups lm w dt)"
  unfolding ShroomUpdatePowerups_def by (rule sound_step_fold [OF _ assms(2)]) (rule update_powerup_sound [OF assms(1)])

lemma UpdatePlayerEffects_sound: "sound_step w (ShroomUpdatePlayerEffects w dt)"
proof -
  have "list_all player_ok (ws_players w) \<Longrightarrow> list_all player_ok (ws_players (ShroomUpdatePlayerEffects w dt))"
    by (auto simp: ShroomUpdatePlayerEffects_def list_all_iff player_ok_def)
  then show ?thesis by (simp add: sound_step_def same_match_def world_ok_def ShroomUpdatePlayerEffects_def)
qed

section \<open>Splitting\<close>

lemma half_mass_ok:
  assumes "mass_ok m" and "\<not> f32_lt m SHROOM_SPLIT_MIN_MASS"
  shows "mass_ok (f32_div (f32_sub m (f32_mul m SHROOM_SPLIT_MASS_LOSS_FRACTION)) 0x40000000)"
proof -
  have fin: "f32_finite SHROOM_SPLIT_MIN_MASS" by code_simp
  have m: "f32_within SHROOM_SPLIT_MIN_MASS SHROOM_MAX_PLAYER_MASS m"
    using assms(1) unfolding mass_ok_def by (rule not_lt_within [OF _ assms(2) fin])
  have k: "f32_within SHROOM_SPLIT_MASS_LOSS_FRACTION SHROOM_SPLIT_MASS_LOSS_FRACTION SHROOM_SPLIT_MASS_LOSS_FRACTION"
    "f32_within 0x40000000 0x40000000 0x40000000" by code_simp+
  have c: "f32_within 0 0x43000000 (f32_mul m SHROOM_SPLIT_MASS_LOSS_FRACTION)"
    by (rule within_mul_nonneg [OF m k(1)]) code_simp+
  have d: "f32_within 0x43800000 0x44f00000 (f32_sub m (f32_mul m SHROOM_SPLIT_MASS_LOSS_FRACTION))"
    by (rule within_sub [OF m c]) code_simp+
  show ?thesis unfolding mass_ok_def by (rule within_div [OF d k(2)]) code_simp+
qed

lemma launch_direction_within:
  assumes "vec_within 0x49800000 a" and "vec_within 0x49800000 b"
  shows "vec_within 0x40000000 (launch_direction a b)"
proof -
  have "vec_within 0x40000000 \<lparr>v2_x = 0x3f800000, v2_y = 0\<rparr>" unfolding vec_within_def by code_simp
  with assms show ?thesis by (simp add: launch_direction_def Let_def normalized_within)
qed

lemma vec_within_scale:
  assumes "vec_within a v" and "f32_within (f32_uminus b) b k" and "f32_finite c" and "f32_units a * f32_units b \<le> f32_units c * 2 ^ 149"
  shows "vec_within c (ShroomVec2Scale v k)"
  using assms by (auto simp: vec_within_def ShroomVec2Scale_def intro!: within_mul_abs)

lemma radius_ok: "mass_ok m \<Longrightarrow> f32_within 0 0x438b8000 (ShroomMassToRadius m)"
proof -
  assume "mass_ok m"
  have "f32_units 0 \<le> f32_units 0x41200000" "f32_units 0x438b8000 \<le> f32_units 0x438b8000" by code_simp+
  with radius_within [OF \<open>mass_ok m\<close>] show ?thesis by (rule within_weaken)
qed

lemma direction_small: "vec_within 0x40000000 v \<Longrightarrow> vec_within 0x49800000 v"
proof -
  have "f32_units 0x40000000 \<le> f32_units 0x49800000" by code_simp
  then show "vec_within 0x40000000 v \<Longrightarrow> vec_within 0x49800000 v" by (rule vec_within_weaken [rotated])
qed

lemma SplitPlayerToward_sound:
  assumes "world_ok w" and "i < length (ws_players w)" and "vec_within 0x49800000 aim"
  shows "sound_step w (snd (ShroomWorldSplitPlayerToward w i aim))"
proof -
  let ?p = "player_at w i"
  let ?free = "find_index (\<lambda>p. \<not> pl_alive p \<and> pl_player_id p = 0) (ws_players w)"
  consider "\<not> ShroomPlayerCanSplit w ?p \<or> ?free = None \<and> SHROOM_MAX_PLAYER_ENTITIES \<le> length (ws_players w)"
    | "ShroomPlayerCanSplit w ?p" "?free = None \<longrightarrow> length (ws_players w) < SHROOM_MAX_PLAYER_ENTITIES" by fastforce
  then show ?thesis
  proof cases
    case 1
    then show ?thesis by (auto simp: ShroomWorldSplitPlayerToward_def Let_def)
  next
    case 2
    have p: "player_ok ?p" by (rule player_okD [OF assms(1,2)])
    have alive: "pl_alive ?p" and big: "\<not> f32_lt (pl_mass ?p) SHROOM_SPLIT_MIN_MASS"
      using 2(1) by (auto simp: ShroomPlayerCanSplit_def split: if_splits)
    define half where "half = f32_div (f32_sub (pl_mass ?p) (f32_mul (pl_mass ?p) SHROOM_SPLIT_MASS_LOSS_FRACTION)) 0x40000000"
    have half: "mass_ok half" unfolding half_def by (rule half_mass_ok) (use p big in \<open>simp_all add: player_ok_def\<close>)
    define dir where "dir = launch_direction aim (pl_input_direction ?p)"
    have dir: "vec_within 0x40000000 dir"
      unfolding dir_def by (rule launch_direction_within [OF assms(3)]) (use p in \<open>simp add: player_ok_def direction_small\<close>)
    have speed: "f32_within (f32_uminus SHROOM_SPLIT_IMPULSE_SPEED) SHROOM_SPLIT_IMPULSE_SPEED SHROOM_SPLIT_IMPULSE_SPEED"
      and v: "f32_finite 0x43dc0000" "f32_units 0x40000000 * f32_units SHROOM_SPLIT_IMPULSE_SPEED \<le> f32_units 0x43dc0000 * 2 ^ 149"
      by code_simp+
    have impulse: "vec_within 0x43dc0000 (ShroomVec2Scale dir SHROOM_SPLIT_IMPULSE_SPEED)" by (rule vec_within_scale [OF dir speed v])
    define j where "j = (case ?free of Some j \<Rightarrow> j | None \<Rightarrow> length (ws_players w))"
    define w1 where "w1 = (case ?free of Some _ \<Rightarrow> w | None \<Rightarrow> w\<lparr>ws_players := ws_players w @ [empty_player]\<rparr>)"
    obtain e w2 where e: "fresh_entity 0 w1 = (e, w2)" by fastforce
    have s1: "sound_step w w1" using 2(2) append_player_sound [of w]
      by (cases ?free) (simp_all add: w1_def del: find_index_None)
    have s2: "sound_step w1 w2" using fresh_entity_sound [of w1 0] by (simp add: e)
    define w3 where "w3 = upd_player w2 j (\<lambda>_. empty_player\<lparr>pl_player_id := pl_player_id ?p, pl_entity_id := e,
      pl_position := pl_position ?p, pl_input_direction := dir, pl_mass := half, pl_radius := ShroomMassToRadius half,
      pl_last_move_time_ms := ShroomWorldCurrentTimeMs w2,
      pl_name := fst (snprintf_s (replicate SHROOM_MAX_NAME_LENGTH 0) (pl_name ?p)),
      pl_alive := True, pl_is_bot := pl_is_bot ?p, pl_ai_controlled := pl_is_bot ?p,
      pl_split_velocity := ShroomVec2Scale dir SHROOM_SPLIT_IMPULSE_SPEED, pl_merge_timer := SHROOM_SPLIT_MERGE_SECONDS,
      pl_spawn_protection_timer := SHROOM_SPLIT_PROTECTION_SECONDS,
      pl_piece_index := word_of_nat (ShroomCountPlayerPieces w (pl_player_id ?p)), pl_life_generation := pl_life_generation ?p\<rparr>)"
    have s3: "sound_step w2 w3" unfolding w3_def
      by (rule upd_player_sound) (use p alive half dir impulse empty_player_ok in \<open>simp add: player_ok_def radius_ok\<close>)
    have "sound_step w3 (upd_player w3 i (\<lambda>p. p\<lparr>pl_mass := half, pl_radius := ShroomMassToRadius half,
      pl_last_move_time_ms := ShroomWorldCurrentTimeMs w3, pl_has_split := True,
      pl_merge_timer := if f32_le (pl_merge_timer p) 0 then SHROOM_SPLIT_MERGE_SECONDS else pl_merge_timer p,
      pl_spawn_protection_timer := SHROOM_SPLIT_PROTECTION_SECONDS\<rparr>))"
      by (rule upd_player_sound) (use half in \<open>simp add: player_ok_def radius_ok\<close>)
    note s4 = sound_step_trans [OF sound_step_trans [OF sound_step_trans [OF s1 s2] s3] this]
    have room: "(?free = None \<and> SHROOM_MAX_PLAYER_ENTITIES \<le> length (ws_players w)) = False" using 2(2) by (blast dest: leD)
    have can: "(\<not> ShroomPlayerCanSplit w ?p) = False" using 2(1) by simp
    show ?thesis using s4
      unfolding ShroomWorldSplitPlayerToward_def Let_def j_def [symmetric] w1_def [symmetric] half_def [symmetric] dir_def [symmetric] e
        prod.case w3_def [symmetric]
      by (simp only: room can if_False snd_conv)
  qed
qed

end
