(* ===== verification/Sim_Sound_Step.thy ===== *)
theory Sim_Sound_Step
  imports Sim_Sound_Pieces
begin

text \<open>
  Ejecting, merging and the bots keep a sound world sound, and so does the step of the world as a
  whole; of the match, the step only changes its clocks, its phase and, at the end, the podium.
\<close>

section \<open>Ejecting and merging\<close>

lemma clamp_radius:
  assumes "\<not> f32_is_nan v"
  shows "f32_within 0 SHROOM_WORLD_WIDTH (ShroomClamp v SHROOM_POWERUP_RADIUS (f32_sub SHROOM_WORLD_WIDTH SHROOM_POWERUP_RADIUS))"
proof -
  have m: "f32_finite SHROOM_POWERUP_RADIUS" "f32_finite (f32_sub SHROOM_WORLD_WIDTH SHROOM_POWERUP_RADIUS)"
    "f32_order SHROOM_POWERUP_RADIUS \<le> f32_order (f32_sub SHROOM_WORLD_WIDTH SHROOM_POWERUP_RADIUS)"
    "f32_units 0 \<le> f32_units SHROOM_POWERUP_RADIUS"
    "f32_units (f32_sub SHROOM_WORLD_WIDTH SHROOM_POWERUP_RADIUS) \<le> f32_units SHROOM_WORLD_WIDTH"
    by code_simp+
  show ?thesis by (rule within_weaken [OF clamp_within [OF assms m(1-3)] m(4,5)])
qed

lemma EjectMass_sound:
  assumes "world_ok w" and "i < length (ws_players w)" and "vec_within 0x49800000 aim"
  shows "sound_step w (snd (ShroomWorldEjectMass w i aim))"
proof -
  let ?p = "player_at w i"
  define mass where "mass = f32_sub (pl_mass ?p) eject_cost"
  consider "\<not> pl_alive ?p \<or> f32_lt 0 (pl_eject_cooldown_timer ?p) \<or> f32_lt (pl_mass ?p) SHROOM_EJECT_MIN_MASS \<or>
      f32_lt mass SHROOM_DEFAULT_PLAYER_MASS"
    | "pl_alive ?p" "\<not> f32_lt 0 (pl_eject_cooldown_timer ?p)" "\<not> f32_lt (pl_mass ?p) SHROOM_EJECT_MIN_MASS"
      "\<not> f32_lt mass SHROOM_DEFAULT_PLAYER_MASS" by blast
  then show ?thesis
  proof cases
    case 1
    then have "snd (ShroomWorldEjectMass w i aim) = w" by (auto simp: ShroomWorldEjectMass_def Let_def mass_def)
    then show ?thesis by simp
  next
    case 2
    have p: "player_ok ?p" by (rule player_okD [OF assms(1,2)])
    have m: "f32_within 0 SHROOM_MAX_PLAYER_MASS (pl_mass ?p)" using p by (simp add: player_ok_def mass_ok_def)
    have cost: "f32_within 0x41800000 0x42000000 eject_cost" and f: "f32_finite SHROOM_DEFAULT_PLAYER_MASS" by code_simp+
    have "f32_within 0xc2000000 0x44f00000 mass" unfolding mass_def by (rule within_sub [OF m cost]) code_simp+
    from not_lt_within [OF this 2(4) f] have mass: "mass_ok mass" unfolding mass_ok_def by (rule within_weaken) code_simp+
    define dir where "dir = launch_direction aim (pl_input_direction ?p)"
    have dir: "vec_within 0x40000000 dir"
      unfolding dir_def by (rule launch_direction_within [OF assms(3)]) (use p in \<open>simp add: player_ok_def direction_small\<close>)
    define reach where "reach = f32_add (f32_add (pl_radius ?p) SHROOM_POWERUP_RADIUS) SHROOM_EJECT_IMPULSE_RANGE"
    have k: "f32_within 0 0x42000000 SHROOM_POWERUP_RADIUS" "f32_within 0 0x43000000 SHROOM_EJECT_IMPULSE_RANGE" by code_simp+
    have "f32_within 0 0x438b8000 (pl_radius ?p)" using p by (simp add: player_ok_def)
    then have "f32_within 0 0x44000000 (f32_add (pl_radius ?p) SHROOM_POWERUP_RADIUS)" by (rule within_add [OF _ k(1)]) code_simp+
    then have "f32_within (f32_uminus 0x44800000) 0x44800000 reach" unfolding reach_def by (rule within_add [OF _ k(2)]) code_simp+
    note reach = this
    have v: "f32_finite 0x45800000" "f32_units 0x40000000 * f32_units 0x44800000 \<le> f32_units 0x45800000 * 2 ^ 149" by code_simp+
    define target where "target = ShroomVec2Add (pl_position ?p) (ShroomVec2Scale dir reach)"
    have "vec_within 0x45800000 (ShroomVec2Scale dir reach)" by (rule vec_within_scale [OF dir reach v])
    then have nan: "\<not> f32_is_nan (v2_x target)" "\<not> f32_is_nan (v2_y target)"
      using p by (auto simp: target_def ShroomVec2Add_def player_ok_def in_arena_def vec_within_def sum_not_nan dest!: within_finite)
    have h: "SHROOM_WORLD_HEIGHT = SHROOM_WORLD_WIDTH" by code_simp
    have size: "ws_width w = SHROOM_WORLD_WIDTH" "ws_height w = SHROOM_WORLD_WIDTH" using assms(1) h by (simp_all add: world_ok_def)
    define q where "q = \<lparr>v2_x = ShroomClamp (v2_x target) SHROOM_POWERUP_RADIUS (f32_sub (ws_width w) SHROOM_POWERUP_RADIUS),
      v2_y = ShroomClamp (v2_y target) SHROOM_POWERUP_RADIUS (f32_sub (ws_height w) SHROOM_POWERUP_RADIUS)\<rparr>"
    have q: "in_arena q" unfolding q_def in_arena_def h size using nan by (simp add: clamp_radius)
    define w1 where "w1 = upd_player w i (\<lambda>p. p\<lparr>pl_mass := mass, pl_radius := ShroomMassToRadius mass,
      pl_eject_cooldown_timer := SHROOM_EJECT_COOLDOWN_SECONDS\<rparr>)"
    have s1: "sound_step w w1" unfolding w1_def
      by (rule upd_player_sound) (use mass in \<open>simp add: player_ok_def radius_ok\<close>)
    note s2 = sound_step_trans [OF s1 SpawnDecaySpore_sound [OF q sound_step_ok [OF s1 assms(1)]]]
    show ?thesis
      unfolding ShroomWorldEjectMass_def Let_def mass_def [symmetric] dir_def [symmetric] reach_def [symmetric] target_def [symmetric]
        q_def [symmetric] w1_def [symmetric]
      using 2 s2 by simp
  qed
qed

lemma merge_piece_sound:
  assumes "world_ok w" and "i < length (ws_players w)"
  shows "sound_step w (merge_piece i w)"
proof -
  let ?p = "player_at w i"
  have p: "mass_ok (pl_mass ?p)" using player_okD [OF assms] by (simp add: player_ok_def)
  have "sound_step w (upd_player (upd_player w k (\<lambda>p. let mass = ShroomClamp (f32_add (pl_mass p) (pl_mass ?p)) 0 SHROOM_MAX_PLAYER_MASS
      in p\<lparr>pl_mass := mass, pl_radius := ShroomMassToRadius mass\<rparr>)) i (\<lambda>_. empty_player))" for k
  proof (rule sound_step_trans; rule upd_player_sound)
    assume "player_ok (player_at w k)"
    then show "player_ok (let mass = ShroomClamp (f32_add (pl_mass (player_at w k)) (pl_mass ?p)) 0 SHROOM_MAX_PLAYER_MASS
        in (player_at w k)\<lparr>pl_mass := mass, pl_radius := ShroomMassToRadius mass\<rparr>)"
      by (simp add: Let_def player_ok_def radius_ok mass_gain mass_finite [OF p])
  qed (rule empty_player_ok)
  then show ?thesis by (simp add: merge_piece_def Let_def [of ?p] split: option.split)
qed

lemma ResolveMerges_sound:
  assumes "world_ok w"
  shows "sound_step w (ShroomResolveMerges w)"
  unfolding ShroomResolveMerges_def
  by (rule sound_step_fold [OF _ assms]) (auto intro!: merge_piece_sound dest: sound_step_length)

lemma input_small: "player_ok p \<Longrightarrow> vec_within 0x49800000 (pl_input_direction p)"
  by (simp add: player_ok_def direction_small)

lemma forced_split_sound:
  assumes "world_ok w" and "i < length (ws_players w)"
  shows "sound_step w (forced_split i w)"
  using assms by (simp add: forced_split_def Let_def ShroomWorldSplitPlayer_def SplitPlayerToward_sound input_small player_okD)

lemma ApplyForcedSplits_sound:
  assumes "world_ok w"
  shows "sound_step w (ShroomApplyForcedSplits w)"
  unfolding ShroomApplyForcedSplits_def
  by (rule sound_step_fold [OF _ assms]) (auto intro!: forced_split_sound dest: sound_step_length)

section \<open>Bots\<close>

lemma power_position: "world_ok w \<Longrightarrow> k < ws_powerup_count w \<Longrightarrow> in_arena (pow_position (ws_powerups w ! k))"
  by (simp add: world_ok_def list_all_length)

lemma spore_position: "world_ok w \<Longrightarrow> k < SHROOM_MAX_SPORES \<Longrightarrow> in_arena (spo_position (spore_at w k))"
  by (simp add: world_ok_def list_all_length)

lemma player_position: "world_ok w \<Longrightarrow> k < length (ws_players w) \<Longrightarrow> in_arena (pl_position (player_at w k))"
  using player_okD [of w k] by (simp add: player_ok_def)

lemma way_small: "in_arena a \<Longrightarrow> in_arena b \<Longrightarrow> vec_within 0x49800000 (ShroomVec2Sub a b)"
proof -
  have "f32_units 0x45bb8000 \<le> f32_units 0x49800000" by code_simp
  then show "in_arena a \<Longrightarrow> in_arena b \<Longrightarrow> vec_within 0x49800000 (ShroomVec2Sub a b)"
    by (rule vec_within_weaken [OF vec_within_sub, rotated 2])
qed

definition candidate_ok :: "nat \<Rightarrow> candidate \<Rightarrow> bool" where
  "candidate_ok n c = (case c of None \<Rightarrow> True | Some (k, _, _) \<Rightarrow> k < n)"

lemma keep_better_ok: "candidate_ok n c \<Longrightarrow> k < n \<Longrightarrow> candidate_ok n (keep_better k score d c)"
  by (cases c) (auto simp: candidate_ok_def keep_better_def)

lemma weigh_players_ok:
  "n = length (ws_players w) \<Longrightarrow>
   candidate_ok n (fst (fold (weigh_player w i) [0..<n] (None, None))) \<and>
   candidate_ok n (snd (fold (weigh_player w i) [0..<n] (None, None)))"
  by (rule fold_invariant [where Q = "\<lambda>k. k < n"])
    (auto simp: candidate_ok_def [of _ None] weigh_player_def Let_def keep_better_ok split: prod.split)

lemma weigh_powerups_ok: "candidate_ok n (fold (weigh_powerup w i) [0..<n] None)"
  by (rule fold_invariant [where Q = "\<lambda>k. k < n"]) (auto simp: candidate_ok_def [of _ None] weigh_powerup_def Let_def keep_better_ok)

lemma weigh_spores_ok: "\<forall>k\<in>set ks. k < n \<Longrightarrow> candidate_ok n (fold (weigh_spore w i) ks None)"
  by (rule fold_invariant [where Q = "\<lambda>k. k < n"]) (auto simp: candidate_ok_def [of _ None] weigh_spore_def Let_def keep_better_ok)

text \<open>The grid only holds indices of spores, and no lookup leaves it.\<close>

definition grid_ok :: "spore_grid \<Rightarrow> bool" where
  "grid_ok grid \<longleftrightarrow> length grid = SHROOM_SPORE_GRID_CELLS \<and> (\<forall>cell\<in>set grid. \<forall>k\<in>set cell. k < SHROOM_MAX_SPORES)"

lemma grid_size: "SHROOM_SPORE_GRID_COLS = 31" "SHROOM_SPORE_GRID_ROWS = 31" "SHROOM_SPORE_GRID_CELLS = 961"
  by code_simp+

lemma grid_cell:
  assumes "0 \<le> row" and "row < SHROOM_SPORE_GRID_ROWS" and "0 \<le> col" and "col < SHROOM_SPORE_GRID_COLS"
  shows "nat (row * SHROOM_SPORE_GRID_COLS + col) < SHROOM_SPORE_GRID_CELLS"
  using assms unfolding grid_size by simp

lemma grid_insert_ok:
  assumes "grid_ok grid" and "k < SHROOM_MAX_SPORES" and "cell < SHROOM_SPORE_GRID_CELLS"
  shows "grid_ok (grid[cell := grid ! cell @ [k]])"
proof -
  have "x < SHROOM_MAX_SPORES" if "c \<in> set (grid[cell := grid ! cell @ [k]])" "x \<in> set c" for c x
  proof -
    from that(1) have "c = grid ! cell @ [k] \<or> c \<in> set grid" using set_update_subset_insert by fastforce
    moreover have "grid ! cell \<in> set grid" using assms(1,3) by (simp add: grid_ok_def)
    ultimately show ?thesis using assms(1,2) that(2) by (auto simp: grid_ok_def)
  qed
  then show ?thesis using assms(1) by (simp add: grid_ok_def)
qed

lemma place_spore_ok:
  assumes "grid_ok grid" and "k < SHROOM_MAX_SPORES"
  shows "grid_ok (place_spore w k grid)"
proof (cases "spo_active (spore_at w k)")
  case True
  have clamp: "0 \<le> (let c = (if x < 0 then 0 else x) in if n \<le> c then n - 1 else c) \<and>
      (let c = (if x < 0 then 0 else x) in if n \<le> c then n - 1 else c) < n" if "0 < n" for x n :: int
    using that by (simp add: Let_def)
  have n: "0 < SHROOM_SPORE_GRID_COLS" "0 < SHROOM_SPORE_GRID_ROWS" by (simp_all add: grid_size)
  note x = clamp [OF n(1), of "grid_coordinate (v2_x (spo_position (spore_at w k)))", unfolded Let_def]
    and y = clamp [OF n(2), of "grid_coordinate (v2_y (spo_position (spore_at w k)))", unfolded Let_def]
  show ?thesis
    unfolding place_spore_def Let_def
    using True grid_insert_ok [OF assms grid_cell [OF y [THEN conjunct1] y [THEN conjunct2] x [THEN conjunct1] x [THEN conjunct2]]] assms(1)
    by (simp only: if_True if_False not_True_eq_False split: if_split) simp
qed (use assms in \<open>simp add: place_spore_def Let_def\<close>)

lemma BuildSporeGrid_ok:
  assumes "world_ok w"
  shows "grid_ok (ShroomBuildSporeGrid w)"
  unfolding ShroomBuildSporeGrid_def
  by (rule fold_invariant [where Q = "\<lambda>k. k < SHROOM_MAX_SPORES"])
    (use assms in \<open>auto simp: world_ok_def grid_ok_def [of "replicate _ _"] place_spore_ok\<close>)

lemma spores_near_ok:
  assumes "grid_ok grid" and "k \<in> set (spores_near grid p r)"
  shows "k < SHROOM_MAX_SPORES"
proof -
  from assms(2) obtain row col where r: "row \<in> set (grid_range (v2_y p) r SHROOM_SPORE_GRID_ROWS)"
    "col \<in> set (grid_range (v2_x p) r SHROOM_SPORE_GRID_COLS)" "k \<in> set (grid ! nat (row * SHROOM_SPORE_GRID_COLS + col))"
    unfolding spores_near_def by auto
  from r(1,2) have "nat (row * SHROOM_SPORE_GRID_COLS + col) < SHROOM_SPORE_GRID_CELLS"
    by (intro grid_cell) (auto simp: grid_range_def Let_def split: if_splits)
  with assms(1) r(3) show ?thesis unfolding grid_ok_def by (metis nth_mem)
qed

lemma bot_direction_within:
  assumes w: "world_ok w" and i: "i < length (ws_players w)" and g: "\<forall>g. grid = Some g \<longrightarrow> grid_ok g"
    and c: "candidate_ok (length (ws_players w)) threat" "candidate_ok (length (ws_players w)) prey"
      "candidate_ok (ws_powerup_count w) powerup"
  shows "vec_within 0x40000000 (bot_direction w i grid threat prey powerup)"
proof -
  let ?p = "pl_position (player_at w i)"
  define ks where "ks = (case grid of Some g \<Rightarrow> spores_near g ?p SHROOM_BOT_SPORE_SEARCH_RADIUS | None \<Rightarrow> [0..<ws_spore_count w])"
  define spore where "spore = fold (weigh_spore w i) ks None"
  have "\<forall>k\<in>set ks. k < SHROOM_MAX_SPORES" using g w spores_near_ok by (auto simp: ks_def world_ok_def split: option.split)
  then have spore: "candidate_ok SHROOM_MAX_SPORES spore" unfolding spore_def by (rule weigh_spores_ok)
  have h: "SHROOM_WORLD_HEIGHT = SHROOM_WORLD_WIDTH" by code_simp
  have size: "ws_width w = SHROOM_WORLD_WIDTH" "ws_height w = SHROOM_WORLD_HEIGHT" using w by (simp_all add: world_ok_def)
  have center: "in_arena (ShroomWorldCenter w)"
    unfolding ShroomWorldCenter_def size in_arena_def h by code_simp
  have p: "in_arena ?p" by (rule player_position [OF w i])
  have up: "f32_units 0x45bb8000 \<le> f32_units 0x49000000" by code_simp
  have small: "vec_within 0x49000000 (ShroomVec2Sub a b)" if "in_arena a" "in_arena b" for a b
    by (rule vec_within_weaken [OF vec_within_sub [OF that] up])
  have k: "f32_within (f32_uminus 0x3f800000) 0x3f800000 0x3ee66666" "f32_finite 0x49000000" "f32_finite 0x49800000"
    "f32_units 0x49000000 * f32_units 0x3f800000 \<le> f32_units 0x49000000 * 2 ^ 149"
    "f32_units 0x49000000 * f32_units 0x40000000 \<le> f32_units 0x49800000 * 2 ^ 149"
    "f32_units (f32_uminus 0x49800000) \<le> f32_units (f32_uminus 0x49000000) + f32_units (f32_uminus 0x49000000)"
    "f32_units 0x49000000 + f32_units 0x49000000 \<le> f32_units 0x49800000"
    "f32_finite (f32_uminus 0x49800000)"
    by code_simp+
  have flee: "vec_within 0x49800000 (ShroomVec2Add a (ShroomVec2Scale b 0x3ee66666))"
    if "vec_within 0x49000000 a" "vec_within 0x49000000 b" for a b
  proof -
    have "vec_within 0x49000000 (ShroomVec2Scale b 0x3ee66666)" by (rule vec_within_scale [OF that(2) k(1,2,4)])
    with that(1) show ?thesis
      by (auto simp: vec_within_def ShroomVec2Add_def intro!: within_add [OF _ _ k(8,3,6,7)])
  qed
  have "f32_within (f32_uminus 0x40000000) 0x40000000 (ShroomBotCenterPressureWeight m z)" for m z
  proof -
    have "f32_within (f32_uminus 0x40000000) 0x40000000 0x3e800000" "f32_within (f32_uminus 0x40000000) 0x40000000 0x3ee66666"
      "f32_within (f32_uminus 0x40000000) 0x40000000 0x3f99999a" "f32_within (f32_uminus 0x40000000) 0x40000000 0x3f4ccccd"
      by code_simp+
    then show ?thesis by (simp add: ShroomBotCenterPressureWeight_def)
  qed
  then have push: "vec_within 0x49800000 (ShroomVec2Scale v (ShroomBotCenterPressureWeight m z))" if "vec_within 0x49000000 v" for v m z
    by (rule vec_within_scale [OF that _ k(3,5)])
  have t: "in_arena (pl_position (player_at w (fst (the threat))))" if "threat \<noteq> None"
    using c(1) that by (auto simp: candidate_ok_def intro: player_position [OF w])
  have y: "in_arena (pl_position (player_at w (fst (the prey))))" if "prey \<noteq> None"
    using c(2) that by (auto simp: candidate_ok_def intro: player_position [OF w])
  have u: "in_arena (pow_position (ws_powerups w ! fst (the powerup)))" if "powerup \<noteq> None"
    using c(3) that by (auto simp: candidate_ok_def intro: power_position [OF w])
  have s: "in_arena (spo_position (spore_at w (fst (the spore))))" if "spore \<noteq> None"
    using spore that by (auto simp: candidate_ok_def intro: spore_position [OF w])
  have near: "threat \<noteq> None" if "case threat of None \<Rightarrow> False | Some (_, _, d) \<Rightarrow> f32_lt d x" for x
    using that by (auto split: option.splits)
  have choose: "vec_within c (if b then x else y)" if "b \<Longrightarrow> vec_within c x" "\<not> b \<Longrightarrow> vec_within c y" for b c x y
    using that by simp
  have last: "vec_within 0x40000000 (case spore of None \<Rightarrow> ShroomNormalizeOrZero (ShroomVec2Sub (ShroomWorldCenter w) ?p)
      | Some (k, _) \<Rightarrow> ShroomNormalizeOrZero (ShroomVec2Sub (spo_position (spore_at w k)) ?p))"
    using s by (cases spore) (auto intro!: normalized_within way_small center p)
  show ?thesis
    unfolding bot_direction_def Let_def ks_def [symmetric] spore_def [symmetric]
    by (intro choose last normalized_within way_small flee small push t [OF near] y u center p; assumption?; blast)
qed

lemma SplitPlayerToward_refused: "\<not> fst (ShroomWorldSplitPlayerToward w i aim) \<Longrightarrow> snd (ShroomWorldSplitPlayerToward w i aim) = w"
  unfolding ShroomWorldSplitPlayerToward_def Let_def split_beta
  by (simp only: fst_conv snd_conv simp_thms split: if_split if_split_asm)

lemma EjectMass_refused: "\<not> fst (ShroomWorldEjectMass w i aim) \<Longrightarrow> snd (ShroomWorldEjectMass w i aim) = w"
  unfolding ShroomWorldEjectMass_def Let_def
  by (simp only: fst_conv snd_conv simp_thms split: if_split if_split_asm)

lemma BotTryTacticalAction_sound:
  assumes w: "world_ok w" and i: "i < length (ws_players w)"
    and prey: "\<forall>k d. prey = Some (k, d) \<longrightarrow> k < length (ws_players w)"
    and objective: "\<forall>k. objective = Some k \<longrightarrow> k < ws_powerup_count w"
  shows "sound_step w (snd (ShroomBotTryTacticalAction w i prey threat objective))"
proof -
  have split: "sound_step w (snd (split_onto_prey w i prey close))" for close
    using prey by (auto simp: split_onto_prey_def Let_def intro!: SplitPlayerToward_sound [OF w i] way_small player_position [OF w] i split: option.split)
  have eject: "sound_step w (snd (eject_at_prey w i prey close))" for close
    using prey by (auto simp: eject_at_prey_def Let_def intro!: EjectMass_sound [OF w i] way_small player_position [OF w] i split: option.split)
  have goal: "sound_step w (snd (eject_for_objective w i objective close))" for close
    using objective by (auto simp: eject_for_objective_def Let_def intro!: EjectMass_sound [OF w i] way_small player_position [OF w] power_position [OF w] i split: option.split)
  have same: "snd (split_onto_prey w i prey close) = w" if "\<not> fst (split_onto_prey w i prey close)" for close
    using that by (auto simp: split_onto_prey_def Let_def SplitPlayerToward_refused split: option.splits if_splits)
  have same2: "snd (eject_at_prey w i prey close) = w" if "\<not> fst (eject_at_prey w i prey close)" for close
    using that by (auto simp: eject_at_prey_def Let_def EjectMass_refused split: option.splits if_splits)
  have cool: "sound_step w' (upd_player w' i (\<lambda>p. p\<lparr>pl_bot_tactical_cooldown_timer := t\<rparr>))" for w' t
    by (rule upd_player_sound) (simp add: player_ok_def)
  define close where "close = (case threat of None \<Rightarrow> False
    | Some (_, threat_distance_sqr) \<Rightarrow> f32_lt threat_distance_sqr (f32_mul 0x442f0000 0x442f0000))"
  obtain b1 w1 where 1: "split_onto_prey w i prey close = (b1, w1)" by fastforce
  obtain b2 w2 where 2: "eject_at_prey w i prey close = (b2, w2)" by fastforce
  obtain b3 w3 where 3: "eject_for_objective w i objective close = (b3, w3)" by fastforce
  have sound: "sound_step w w1" "sound_step w w2" "sound_step w w3" using split [of close] eject [of close] goal [of close] 1 2 3 by simp_all
  have stay: "\<not> b1 \<Longrightarrow> w1 = w" "\<not> b2 \<Longrightarrow> w2 = w" using same [of close] same2 [of close] 1 2 by simp_all
  note cooled = sound [THEN sound_step_trans, OF cool]
  show ?thesis
  proof (cases "pl_piece_index (player_at w i) \<noteq> 0 \<or> f32_lt 0 (pl_bot_tactical_cooldown_timer (player_at w i))")
    case False
    then show ?thesis
      unfolding ShroomBotTryTacticalAction_def Let_def close_def [symmetric] 1 using stay 2 3 sound cooled
      by (cases b1; cases b2; cases b3) simp_all
  qed (simp add: ShroomBotTryTacticalAction_def)
qed

text \<open>The arrays of powerups are not touched by a tactical action.\<close>

lemma SpawnDecaySpore_powerups: "ws_powerup_count (ShroomSpawnDecaySpore w p v) = ws_powerup_count w"
  by (auto simp: ShroomSpawnDecaySpore_def fresh_entity_def ShroomNextRandom_def Let_def)

lemma SplitPlayerToward_powerups: "ws_powerup_count (snd (ShroomWorldSplitPlayerToward w i aim)) = ws_powerup_count w"
  by (simp add: ShroomWorldSplitPlayerToward_def Let_def upd_player_def fresh_entity_def split: option.split)

lemma EjectMass_powerups: "ws_powerup_count (snd (ShroomWorldEjectMass w i aim)) = ws_powerup_count w"
  by (simp add: ShroomWorldEjectMass_def Let_def upd_player_def SpawnDecaySpore_powerups)

lemma BotTryTacticalAction_powerups:
  "ws_powerup_count (snd (ShroomBotTryTacticalAction w i prey threat objective)) = ws_powerup_count w"
proof -
  have 1: "ws_powerup_count (snd (split_onto_prey w i prey close)) = ws_powerup_count w" for w close
    by (simp add: split_onto_prey_def Let_def SplitPlayerToward_powerups split: option.split)
  have 2: "ws_powerup_count (snd (eject_at_prey w i prey close)) = ws_powerup_count w" for w close
    by (simp add: eject_at_prey_def Let_def EjectMass_powerups split: option.split)
  have 3: "ws_powerup_count (snd (eject_for_objective w i objective close)) = ws_powerup_count w" for w close
    by (simp add: eject_for_objective_def Let_def EjectMass_powerups split: option.split)
  have cool: "ws_powerup_count (upd_player w' i f) = ws_powerup_count w'" for w' f by (simp add: upd_player_def)
  show ?thesis
    unfolding ShroomBotTryTacticalAction_def Let_def split_beta
    by (simp add: split_beta 1 2 3 cool split: bool.split)
qed

end
