(* ===== verification/Sim_Sound_World.thy ===== *)
theory Sim_Sound_World
  imports Sim_Sound_Step
begin

text \<open>
  The step of the world, put together from the rules: a sound world stays sound, and of the match
  only the clocks, the phase and, at the end, the podium change.  The same for starting a match over.
\<close>

section \<open>Steering\<close>

lemma UpdateBotInput_sound:
  assumes "world_ok w" and "i < length (ws_players w)" and "\<forall>g. grid = Some g \<longrightarrow> grid_ok g"
  shows "sound_step w (ShroomUpdateBotInput w i grid)"
proof -
  obtain threat prey where 1: "fold (weigh_player w i) [0..<length (ws_players w)] (None, None) = (threat, prey)" by fastforce
  define powerup where "powerup = fold (weigh_powerup w i) [0..<ws_powerup_count w] None"
  let ?d = "map_option (\<lambda>(index, _, distance_sqr). (index, distance_sqr))"
  obtain b w' where 2: "ShroomBotTryTacticalAction w i (?d prey) (?d threat) (map_option fst powerup) = (b, w')" by fastforce
  have c: "candidate_ok (length (ws_players w)) threat" "candidate_ok (length (ws_players w)) prey"
    using weigh_players_ok [OF refl, of w i] by (simp_all add: 1)
  have u: "candidate_ok (ws_powerup_count w) powerup" unfolding powerup_def by (rule weigh_powerups_ok)
  have p: "\<forall>k d. ?d prey = Some (k, d) \<longrightarrow> k < length (ws_players w)" using c(2) by (auto simp: candidate_ok_def)
  have o: "\<forall>k. map_option fst powerup = Some k \<longrightarrow> k < ws_powerup_count w" using u by (auto simp: candidate_ok_def)
  have s: "sound_step w w'" using BotTryTacticalAction_sound [OF assms(1,2) p o, of "?d threat"] by (simp add: 2)
  note w' = sound_step_ok [OF s assms(1)] and i' = sound_step_length [OF s assms(2)]
  have "length (ws_players w) \<le> length (ws_players w')" using s by (simp add: sound_step_def same_match_def)
  then have c': "candidate_ok (length (ws_players w')) threat" "candidate_ok (length (ws_players w')) prey"
    using c by (auto simp: candidate_ok_def split: option.splits)
  have count: "ws_powerup_count w' = ws_powerup_count w"
    using BotTryTacticalAction_powerups [of w i "?d prey" "?d threat" "map_option fst powerup"] by (simp add: 2)
  have "vec_within 0x40000000 (bot_direction w' i grid threat prey powerup)"
    by (rule bot_direction_within [OF w' i' assms(3) c']) (simp add: count u)
  then have "sound_step w' (upd_player w' i (\<lambda>p. p\<lparr>pl_input_direction := bot_direction w' i grid threat prey powerup\<rparr>))"
    by (intro upd_player_sound) (simp add: player_ok_def)
  from sound_step_trans [OF s this] show ?thesis
    by (simp add: ShroomUpdateBotInput_def 1 2 Let_def flip: powerup_def)
qed

lemma steer_bots_sound:
  assumes "world_ok w" and "grid_ok grid"
  shows "sound_step w (steer_bots grid w)"
  unfolding steer_bots_def
  by (rule sound_step_fold [OF _ assms(1)]) (use assms(2) in \<open>auto intro: UpdateBotInput_sound\<close>)

section \<open>Moving\<close>

lemma MassToSpeed_within:
  assumes "mass_ok m"
  shows "f32_within 0 0x43800000 (ShroomMassToSpeed m)"
proof -
  have m: "f32_within 0 SHROOM_MAX_PLAYER_MASS m" using assms by (simp add: mass_ok_def)
  define threshold where "threshold = f32_mul SHROOM_DEFAULT_PLAYER_MASS 0x41000000"
  define floor_speed where "floor_speed = f32_mul SHROOM_MIN_PLAYER_SPEED SHROOM_SPEED_FLOOR_FACTOR"
  define slow where "slow = f32_div (f32_mul m SHROOM_PLAYER_SPEED_MASS_SCALE) 0x42c80000"
  define base where "base = ShroomClamp (f32_div SHROOM_MAX_PLAYER_SPEED (f32_add 0x3f800000 slow)) SHROOM_MIN_PLAYER_SPEED SHROOM_MAX_PLAYER_SPEED"
  have t: "threshold = 0x44400000" "f32_sub SHROOM_MAX_PLAYER_MASS threshold = 0x44900000" "f32_finite threshold"
    unfolding threshold_def by code_simp+
  have fl: "f32_within 0x42800000 0x42c80000 floor_speed" "f32_within 0xc2800000 0 (f32_sub floor_speed SHROOM_MIN_PLAYER_SPEED)"
    "f32_finite floor_speed" "f32_order floor_speed \<le> f32_order SHROOM_MIN_PLAYER_SPEED"
    "f32_within 0 0x43800000 floor_speed" "f32_units 0 \<le> f32_units floor_speed"
    unfolding floor_speed_def by code_simp+
  have k: "f32_within SHROOM_PLAYER_SPEED_MASS_SCALE SHROOM_PLAYER_SPEED_MASS_SCALE SHROOM_PLAYER_SPEED_MASS_SCALE"
    "f32_within 0x42c80000 0x42c80000 0x42c80000" "f32_within 0x3f800000 0x3f800000 0x3f800000"
    "f32_within SHROOM_MAX_PLAYER_SPEED SHROOM_MAX_PLAYER_SPEED SHROOM_MAX_PLAYER_SPEED"
    "f32_within SHROOM_MIN_PLAYER_SPEED SHROOM_MIN_PLAYER_SPEED SHROOM_MIN_PLAYER_SPEED" "f32_within 0x44900000 0x44900000 0x44900000"
    by code_simp+
  have "f32_within 0 0x44800000 (f32_mul m SHROOM_PLAYER_SPEED_MASS_SCALE)" by (rule within_mul_nonneg [OF m k(1)]) code_simp+
  then have "f32_within 0 0x41800000 slow" unfolding slow_def by (rule within_div [OF _ k(2)]) code_simp+
  then have "f32_within 0x3f800000 0x42000000 (f32_add 0x3f800000 slow)" by (rule within_add [OF k(3)]) code_simp+
  then have "f32_within 0 0x43800000 (f32_div SHROOM_MAX_PLAYER_SPEED (f32_add 0x3f800000 slow))" by (rule within_div [OF k(4)]) code_simp+
  then have "f32_within SHROOM_MIN_PLAYER_SPEED SHROOM_MAX_PLAYER_SPEED base"
    unfolding base_def by (intro clamp_within [OF within_not_nan]; (assumption | code_simp))
  then have base: "f32_within 0 0x43800000 base" by (rule within_weaken) code_simp+
  define share where "share = ShroomClamp (f32_div (f32_sub m threshold) (f32_sub SHROOM_MAX_PLAYER_MASS threshold)) 0 0x3f800000"
  define late where "late = ShroomClamp (f32_add SHROOM_MIN_PLAYER_SPEED (f32_mul (f32_sub floor_speed SHROOM_MIN_PLAYER_SPEED) share)) floor_speed SHROOM_MIN_PLAYER_SPEED"
  have late: "f32_within 0 0x43800000 late" if "\<not> f32_le m threshold"
  proof -
    have "f32_within threshold SHROOM_MAX_PLAYER_MASS m" by (rule not_le_within [OF m that t(3)])
    then have "f32_within 0x44400000 SHROOM_MAX_PLAYER_MASS m" by (simp add: t(1))
    moreover have h: "f32_within 0x44400000 0x44400000 0x44400000" by code_simp
    ultimately have "f32_within 0 0x44900000 (f32_sub m 0x44400000)" by (rule within_sub) code_simp+
    then have "f32_within 0 0x3f800000 (f32_div (f32_sub m 0x44400000) 0x44900000)" by (rule within_div [OF _ k(6)]) code_simp+
    then have "\<not> f32_is_nan (f32_div (f32_sub m threshold) (f32_sub SHROOM_MAX_PLAYER_MASS threshold))"
      unfolding t(2) unfolding t(1) by (rule within_not_nan)
    then have "f32_within 0 0x3f800000 share" unfolding share_def by (rule clamp_within) code_simp+
    then have "f32_within 0xc2800000 0 (f32_mul (f32_sub floor_speed SHROOM_MIN_PLAYER_SPEED) share)"
      by (rule within_scaled(2) [OF _ fl(2)]) code_simp+
    then have "f32_within 0 0x43800000 (f32_add SHROOM_MIN_PLAYER_SPEED (f32_mul (f32_sub floor_speed SHROOM_MIN_PLAYER_SPEED) share))"
      by (rule within_add [OF k(5)]) code_simp+
    moreover have "f32_finite SHROOM_MIN_PLAYER_SPEED" "f32_units SHROOM_MIN_PLAYER_SPEED \<le> f32_units 0x43800000" by code_simp+
    ultimately show ?thesis
      unfolding late_def by (intro within_weaken [OF clamp_within [OF within_not_nan _ _ fl(4)] fl(6)] fl(3))
  qed
  show ?thesis
    unfolding ShroomMassToSpeed_def Let_def threshold_def [symmetric] floor_speed_def [symmetric] slow_def [symmetric] base_def [symmetric]
      share_def [symmetric] late_def [symmetric]
    using base late fl(5) by simp
qed

lemma keep_inside_ok:
  assumes "f32_within 0x41200000 0x438b8000 r" and "\<not> f32_is_nan (v2_x p)" and "\<not> f32_is_nan (v2_y p)" and "world_ok w"
  shows "position_ok (keep_inside w r p)" and "in_arena (keep_inside w r p)"
proof -
  have h: "SHROOM_WORLD_HEIGHT = SHROOM_WORLD_WIDTH" by code_simp
  have size: "ws_width w = SHROOM_WORLD_WIDTH" "ws_height w = SHROOM_WORLD_WIDTH" using assms(4) h by (simp_all add: world_ok_def)
  have k: "f32_within SHROOM_WORLD_WIDTH SHROOM_WORLD_WIDTH SHROOM_WORLD_WIDTH" by code_simp
  have hi: "f32_within 0x45b00000 0x45bb3000 (f32_sub SHROOM_WORLD_WIDTH r)" by (rule within_sub [OF k assms(1)]) code_simp+
  have gap: "f32_units 0x438b8000 \<le> f32_units 0x45b00000" by code_simp
  have le: "f32_order r \<le> f32_order (f32_sub SHROOM_WORLD_WIDTH r)"
    unfolding units_mono_iff [symmetric] using withinD(3) [OF assms(1)] withinD(2) [OF hi] gap by linarith
  have c: "f32_within r (f32_sub SHROOM_WORLD_WIDTH r) (ShroomClamp x r (f32_sub SHROOM_WORLD_WIDTH r))" if "\<not> f32_is_nan x" for x
    by (rule clamp_within [OF that within_finite [OF assms(1)] within_finite [OF hi] le])
  have n: "f32_units 0 \<le> f32_units 0x41200000" "f32_units 0x45bb3000 \<le> f32_units SHROOM_WORLD_WIDTH" by code_simp+
  have b: "f32_within 0x41200000 0x45bb3000 (ShroomClamp x r (f32_sub SHROOM_WORLD_WIDTH r))" if "\<not> f32_is_nan x" for x
    by (rule within_weaken [OF c [OF that] withinD(2) [OF assms(1)] withinD(3) [OF hi]])
  show "position_ok (keep_inside w r p)" "in_arena (keep_inside w r p)"
    using assms(2,3) b within_weaken [OF b n] by (simp_all add: position_ok_def in_arena_def keep_inside_def size h)
qed

lemma step_velocity_within:
  assumes "player_ok p" and "f32_within 0 0x3f800000 dt"
  shows "vec_within 0x44800000 (step_velocity dt p)"
proof -
  define speed where "speed = (if f32_lt 0 (pl_speed_powerup_timer p) then f32_mul (ShroomMassToSpeed (pl_mass p)) SHROOM_POWERUP_SPEED_MULTIPLIER
    else ShroomMassToSpeed (pl_mass p))"
  have s: "f32_within 0 0x43800000 (ShroomMassToSpeed (pl_mass p))" using assms(1) by (simp add: player_ok_def MassToSpeed_within)
  have k: "f32_within 0 0x40000000 SHROOM_POWERUP_SPEED_MULTIPLIER" by code_simp
  have "f32_within 0 0x44000000 (f32_mul (ShroomMassToSpeed (pl_mass p)) SHROOM_POWERUP_SPEED_MULTIPLIER)"
    by (rule within_mul_nonneg [OF s k]) code_simp+
  moreover have "f32_within 0 0x44000000 (ShroomMassToSpeed (pl_mass p))" by (rule within_weaken [OF s]) code_simp+
  ultimately have "f32_within 0 0x44000000 speed" by (simp add: speed_def)
  then have "f32_within 0 0x44000000 (f32_mul speed dt)" by (rule within_scaled(2) [OF assms(2)]) code_simp+
  then have k: "f32_within (f32_uminus 0x44000000) 0x44000000 (f32_mul speed dt)" by (rule within_weaken) code_simp+
  have v: "f32_finite 0x44800000" "f32_units 0x40000000 * f32_units 0x44000000 \<le> f32_units 0x44800000 * 2 ^ 149" by code_simp+
  have "vec_within 0x40000000 (pl_input_direction p)" using assms(1) by (simp add: player_ok_def)
  from vec_within_scale [OF this k v] show ?thesis by (simp add: step_velocity_def Let_def speed_def)
qed

lemma sum_in_arena_not_nan:
  assumes "in_arena a" and "vec_within b v"
  shows "\<not> f32_is_nan (v2_x (ShroomVec2Add a v))" and "\<not> f32_is_nan (v2_y (ShroomVec2Add a v))"
  using assms by (auto simp: in_arena_def vec_within_def ShroomVec2Add_def sum_not_nan dest!: within_finite)

lemma apply_impulse_ok:
  assumes "player_ok p" and "pl_alive p" and "f32_within 0x41200000 0x438b8000 (pl_radius p)" and "world_ok w" and "f32_within 0 0x3f800000 dt"
  shows "player_ok (apply_impulse w dt p)"
proof (cases "f32_lt 0x3f800000 (ShroomVec2LengthSqr (pl_split_velocity p))")
  case True
  define decay where "decay = (if f32_lt (f32_sub 0x3f800000 (f32_mul SHROOM_SPLIT_IMPULSE_DECAY dt)) 0 then 0
    else f32_sub 0x3f800000 (f32_mul SHROOM_SPLIT_IMPULSE_DECAY dt))"
  have v: "vec_within 0x43dc0000 (pl_split_velocity p)" "in_arena (pl_position p)" using assms(1) by (simp_all add: player_ok_def)
  have one: "f32_within (f32_uminus 0x3f800000) 0x3f800000 dt" by (rule within_weaken [OF assms(5)]) code_simp+
  have k: "f32_finite 0x43dc0000" "f32_units 0x43dc0000 * f32_units 0x3f800000 \<le> f32_units 0x43dc0000 * 2 ^ 149"
    "f32_within 0 0x40400000 SHROOM_SPLIT_IMPULSE_DECAY" "f32_within 0x3f800000 0x3f800000 0x3f800000" "f32_finite 0"
    "f32_within 0 0x3f800000 0" "f32_units 0 \<le> 0"
    by code_simp+
  note q = sum_in_arena_not_nan [OF v(2) vec_within_scale [OF v(1) one k(1,2)]]
  have "f32_within 0 0x40400000 (f32_mul SHROOM_SPLIT_IMPULSE_DECAY dt)" by (rule within_scaled(2) [OF assms(5) k(3)]) code_simp+
  then have "f32_within 0xc0400000 0x3f800000 (f32_sub 0x3f800000 (f32_mul SHROOM_SPLIT_IMPULSE_DECAY dt))"
    by (rule within_sub [OF k(4)]) code_simp+
  then have "f32_within 0 0x3f800000 decay" using not_lt_within k(5,6) by (simp add: decay_def)
  then have "f32_within (f32_uminus 0x3f800000) 0x3f800000 decay" by (rule within_weaken) code_simp+
  note d = vec_within_scale [OF v(1) this k(1,2)]
  show ?thesis
    using True assms(1,2) keep_inside_ok [OF assms(3) q assms(4)] d unit_zero
    by (auto simp: apply_impulse_def Let_def player_ok_def decay_def)
qed (use assms(1) in \<open>simp add: apply_impulse_def\<close>)

lemma moved_player_ok:
  assumes "player_ok p" and "pl_alive p" and "world_ok w" and "f32_within 0 0x3f800000 dt"
  shows "player_ok (moved_player w dt now p)"
proof -
  define q where "q = p\<lparr>pl_last_move_time_ms := if f32_lt SHROOM_IDLE_PENALTY_MOVEMENT_THRESHOLD_SQR (ShroomVec2LengthSqr (pl_input_direction p))
      then now else pl_last_move_time_ms p, pl_radius := ShroomMassToRadius (pl_mass p),
    pl_position := keep_inside w (ShroomMassToRadius (pl_mass p)) (ShroomVec2Add (pl_position p) (step_velocity dt p))\<rparr>"
  have m: "mass_ok (pl_mass p)" "in_arena (pl_position p)" using assms(1) by (simp_all add: player_ok_def)
  note inside = keep_inside_ok [OF radius_within [OF m(1)] sum_in_arena_not_nan [OF m(2) step_velocity_within [OF assms(1,4)]] assms(3)]
  have "player_ok q" using assms(1) inside radius_ok [OF m(1)] by (simp add: q_def player_ok_def)
  then have "player_ok (apply_impulse w dt q)"
    by (rule apply_impulse_ok) (use assms m in \<open>simp_all add: q_def radius_within\<close>)
  then show ?thesis by (simp add: moved_player_def Let_def player_ok_def flip: q_def)
qed

lemma move_player_sound:
  assumes "world_ok w" and "f32_within 0 0x3f800000 dt"
  shows "sound_step w (move_player dt now i w)"
proof (cases "pl_alive (player_at w i)")
  case True
  have "sound_step w (upd_player w i (moved_player w dt now))"
    by (rule upd_player_sound) (rule moved_player_ok [OF _ True assms])
  with True show ?thesis by (simp add: move_player_def Let_def) (blast intro: sound_step_trans note_stats_sound)
qed (simp add: move_player_def)

section \<open>The objective, the statistics and the podium\<close>

lemma SetObjectiveScore_sound: "sound_step w (snd (ShroomWorldSetObjectiveScore w k score))"
proof -
  consider "k = 0 \<or> (find_index (\<lambda>id'. id' = k) (ws_objective_player_ids w) = None \<and>
      find_index (\<lambda>id'. id' = 0) (ws_objective_player_ids w) = None)"
    | i where "k \<noteq> 0" "find_index (\<lambda>id'. id' = k) (ws_objective_player_ids w) = Some i"
    | i where "k \<noteq> 0" "find_index (\<lambda>id'. id' = k) (ws_objective_player_ids w) = None"
      "find_index (\<lambda>id'. id' = 0) (ws_objective_player_ids w) = Some i"
    by fastforce
  then show ?thesis
  proof cases
    case 1
    then have "snd (ShroomWorldSetObjectiveScore w k score) = w"
      by (auto simp: ShroomWorldSetObjectiveScore_def simp del: find_index_None)
    then show ?thesis by simp
  next
    case 2
    then show ?thesis by (simp add: ShroomWorldSetObjectiveScore_def sound_step_def same_match_def world_ok_def)
  next
    case 3
    then have "k \<notin> set (ws_objective_player_ids w)" "ws_objective_player_ids w ! i = 0" using find_index_SomeD [OF 3(3)] by auto
    with 3 show ?thesis
      by (simp add: ShroomWorldSetObjectiveScore_def sound_step_def same_match_def world_ok_def ids_ok_insert del: find_index_None)
  qed
qed

lemma UpdateKingOfHill_sound: "sound_step w (snd (ShroomUpdateKingOfHill w dt))"
proof -
  have set: "sound_step w (w\<lparr>ws_objective_contested := b, ws_objective_controller_id := c\<rparr>)"
    "sound_step w (w\<lparr>ws_objective_controller_id := c, ws_objective_contested := b\<rparr>)" for b c
    by (simp_all add: sound_step_def same_match_def world_ok_def)
  note scored = sound_step_trans [OF set(1) SetObjectiveScore_sound]
  show ?thesis by (simp add: ShroomUpdateKingOfHill_def Let_def set scored)
qed

lemma UpdateColonyRoundStats_sound:
  assumes "world_ok w"
  shows "sound_step w (ShroomUpdateColonyRoundStats w dt)"
proof -
  define w1 where "w1 = fold (\<lambda>player w. if pl_alive player then snd (ShroomWorldEnsureRoundStats w (pl_player_id player)) else w) (ws_players w) w"
  have s: "sound_step w w1" unfolding w1_def by (rule sound_step_fold [OF _ assms]) (simp add: EnsureRoundStats_sound)
  have "map rss_player_id (map (colony_round_stats w1 dt) slots) = map rss_player_id slots" for slots
    by (simp add: colony_round_stats_def Let_def split: option.split)
  then have "sound_step w1 (w1\<lparr>ws_round_stats := map (colony_round_stats w1 dt) (ws_round_stats w1)\<rparr>)"
    by (simp add: sound_step_def same_match_def world_ok_def del: map_map)
  from sound_step_trans [OF s this] show ?thesis by (simp add: ShroomUpdateColonyRoundStats_def Let_def flip: w1_def)
qed

lemma clear_podium_ok: "world_ok w \<Longrightarrow> world_ok (clear_podium w)"
  by (simp add: clear_podium_def world_ok_def)

lemma place_on_podium_ok: "world_ok w \<Longrightarrow> world_ok (place_on_podium k w)"
  by (auto simp: place_on_podium_def Let_def world_ok_def shift_in_def split: option.split)

lemma ComputeMatchPodium_ok:
  assumes "world_ok w"
  shows "world_ok (ShroomComputeMatchPodium w)"
  unfolding ShroomComputeMatchPodium_def
  by (rule fold_invariant [where Q = "\<lambda>_. True"]) (simp_all add: clear_podium_ok place_on_podium_ok assms)

section \<open>The step\<close>

text \<open>A running tick is a sound step, whose end may close the match.\<close>

lemma running_step:
  assumes "libm_ok lm" and "world_ok w" and "f32_within 0 0x3f800000 dt" and "ws_match_phase w = SHROOM_MATCH_PHASE_RUNNING"
  obtains won w' where "sound_step w w'" and "ShroomWorldStep lm w dt = finish_step won dt w'"
proof -
  define now where "now = ShroomWorldStepEndTimeMs w dt"
  define grid where "grid = ShroomBuildSporeGrid w"
  define w1 where "w1 = steer_bots grid w"
  define w2 where "w2 = fold (move_player dt now) [0..<length (ws_players w1)] w1"
  define w3 where "w3 = ShroomUpdatePlayerEffects w2 dt"
  define w4 where "w4 = ShroomCollectSpores lm w3 grid dt"
  define w5 where "w5 = ShroomCollectPowerups w4"
  define w6 where "w6 = ShroomResolveConsumes lm w5"
  obtain won w7 where 7: "ShroomUpdateKingOfHill w6 dt = (won, w7)" by fastforce
  define w8 where "w8 = ShroomUpdateColonyRoundStats w7 dt"
  define w9 where "w9 = ShroomApplyMassRules lm w8 dt now"
  define w10 where "w10 = ShroomApplyForcedSplits w9"
  define w11 where "w11 = ShroomResolveMerges w10"
  define w12 where "w12 = ShroomUpdatePowerups lm w11 dt"
  have s1: "sound_step w w1" unfolding w1_def grid_def by (rule steer_bots_sound [OF assms(2) BuildSporeGrid_ok [OF assms(2)]])
  have ok: "world_ok v" if "sound_step w v" for v by (rule sound_step_ok [OF that assms(2)])
  have s2: "sound_step w w2" unfolding w2_def by (rule sound_fold [OF _ ok [OF s1] s1]) (rule move_player_sound [OF _ assms(3)])
  have s3: "sound_step w w3" unfolding w3_def by (rule sound_step_trans [OF s2 UpdatePlayerEffects_sound])
  have s4: "sound_step w w4" unfolding w4_def by (rule sound_step_trans [OF s3 CollectSpores_sound [OF assms(1) ok [OF s3] assms(3)]])
  have s5: "sound_step w w5" unfolding w5_def by (rule sound_step_trans [OF s4 CollectPowerups_sound [OF ok [OF s4]]])
  have s6: "sound_step w w6" unfolding w6_def by (rule sound_step_trans [OF s5 ResolveConsumes_sound [OF assms(1) ok [OF s5]]])
  have s7: "sound_step w w7" using sound_step_trans [OF s6 UpdateKingOfHill_sound [of w6 dt]] by (simp add: 7)
  have s8: "sound_step w w8" unfolding w8_def by (rule sound_step_trans [OF s7 UpdateColonyRoundStats_sound [OF ok [OF s7]]])
  have s9: "sound_step w w9" unfolding w9_def by (rule sound_step_trans [OF s8 ApplyMassRules_sound [OF assms(1) ok [OF s8] assms(3)]])
  have s10: "sound_step w w10" unfolding w10_def by (rule sound_step_trans [OF s9 ApplyForcedSplits_sound [OF ok [OF s9]]])
  have s11: "sound_step w w11" unfolding w11_def by (rule sound_step_trans [OF s10 ResolveMerges_sound [OF ok [OF s10]]])
  have s12: "sound_step w w12" unfolding w12_def by (rule sound_step_trans [OF s11 UpdatePowerups_sound [OF assms(1) ok [OF s11]]])
  have "ShroomWorldStep lm w dt = finish_step won dt w12"
    unfolding ShroomWorldStep_def Let_def assms(4) now_def [symmetric] grid_def [symmetric] w1_def [symmetric] w2_def [symmetric]
      w3_def [symmetric] w4_def [symmetric] w5_def [symmetric] w6_def [symmetric] 7 prod.case w8_def [symmetric] w9_def [symmetric]
      w10_def [symmetric] w11_def [symmetric] w12_def [symmetric]
    by simp
  with s12 that show thesis by blast
qed

lemma finish_step_ok:
  assumes "world_ok w"
  shows "world_ok (finish_step won dt w)"
proof -
  have set: "world_ok (w\<lparr>ws_match_time_remaining := t\<rparr>)" for t using assms by (simp add: world_ok_def)
  have "world_ok (ShroomComputeMatchPodium (w\<lparr>ws_match_time_remaining := t\<rparr>))" for t by (rule ComputeMatchPodium_ok [OF set])
  then show ?thesis using set by (simp add: finish_step_def Let_def world_ok_def)
qed

lemma intermission_step_ok: "world_ok w \<Longrightarrow> world_ok (intermission_step w dt)"
  by (simp add: intermission_step_def Let_def world_ok_def)

lemma WorldStep_ok:
  assumes "libm_ok lm" and "world_ok w" and "f32_within 0 0x3f800000 dt"
  shows "world_ok (ShroomWorldStep lm w dt)"
proof (cases "ws_match_phase w = SHROOM_MATCH_PHASE_RUNNING")
  case True
  from running_step [OF assms True] show ?thesis using assms(2) by (metis finish_step_ok sound_step_ok)
next
  case False
  then show ?thesis using assms(2) by (simp add: ShroomWorldStep_def intermission_step_ok)
qed

section \<open>Starting over\<close>

lemma reset_player_sound:
  assumes "libm_ok lm" and "world_ok w"
  shows "sound_step w (reset_player lm i w)"
proof -
  let ?f = "\<lambda>position world p. p\<lparr>pl_position := position,
    pl_life_generation := ShroomNextLifeGeneration (pl_life_generation p),
    pl_mass := SHROOM_DEFAULT_PLAYER_MASS, pl_radius := ShroomMassToRadius SHROOM_DEFAULT_PLAYER_MASS,
    pl_input_direction := zero_vec2, pl_split_velocity := zero_vec2, pl_ai_controlled := False,
    pl_has_split := False, pl_piece_index := 0, pl_merge_timer := 0,
    pl_spawn_protection_timer := if pl_is_bot p then 0 else SHROOM_PLAYER_SPAWN_PROTECTION_SECONDS,
    pl_speed_powerup_timer := 0, pl_shield_powerup_timer := 0, pl_magnet_powerup_timer := 0,
    pl_decay_immune_powerup_timer := 0, pl_eject_cooldown_timer := 0, pl_decay_spore_accumulator := 0,
    pl_last_move_time_ms := ShroomWorldCurrentTimeMs world\<rparr>"
  obtain c w1 where 1: "ShroomRandomSpawnPosition lm w True = (c, w1)" by fastforce
  note p = ShroomRandomSpawnPosition_ok [OF assms, unfolded 1 fst_conv snd_conv]
  have "sound_step w1 (upd_player w1 i (?f c w1))"
    by (rule upd_player_sound) (use p default_mass unit_zero in \<open>simp add: player_ok_def\<close>)
  note s = sound_step_trans [OF reseeded_sound [OF p(1)] this]
  have e: "sound_step w (upd_player w i (\<lambda>_. empty_player))" by (rule upd_player_sound) (rule empty_player_ok)
  show ?thesis unfolding reset_player_def Let_def 1 prod.case using s e by (simp only: sound_step_refl split: if_split) simp
qed

lemma clear_objective_ok: "world_ok w \<Longrightarrow> world_ok (clear_objective w)"
  by (simp add: clear_objective_def world_ok_def ids_ok_zero)

lemma ResetMatch_ok:
  assumes "libm_ok lm" and "world_ok w"
  shows "world_ok (ShroomWorldResetMatch lm w)"
proof -
  define w1 where "w1 = fold (reset_player lm) [0..<length (ws_players w)] w"
  have "sound_step w w1" unfolding w1_def by (rule sound_step_fold [OF _ assms(2)]) (rule reset_player_sound [OF assms(1)])
  then have "world_ok w1" by (rule sound_step_ok [OF _ assms(2)])
  define w2 where "w2 = w1\<lparr>ws_spore_count := 0, ws_powerup_count := 0\<rparr>"
  from \<open>world_ok w1\<close> have w2: "world_ok w2" by (simp add: w2_def world_ok_def)
  note w3 = sound_step_ok [OF InitializeSpores_sound [OF assms(1) w2] w2]
  note w4 = sound_step_ok [OF InitializePowerups_sound [OF assms(1) w3] w3]
  from w4 have "world_ok (clear_podium (ShroomInitializePowerups lm (ShroomInitializeSpores lm w2)))" by (rule clear_podium_ok)
  moreover have "ids_ok (map rss_player_id (replicate SHROOM_MAX_PARTICIPANTS zero_stats_slot))"
    by (simp add: ids_ok_zero zero_stats_slot_def)
  ultimately show ?thesis unfolding ShroomWorldResetMatch_def Let_def w1_def [symmetric] w2_def [symmetric]
    by (intro clear_objective_ok) (simp add: world_ok_def)
qed

lemma SetGameMode_ok: "world_ok w \<Longrightarrow> world_ok (ShroomWorldSetGameMode w mode)"
  by (auto simp: ShroomWorldSetGameMode_def world_ok_def clear_objective_def ids_ok_zero)

lemma SetMatchDuration_ok: "world_ok w \<Longrightarrow> world_ok (ShroomWorldSetMatchDuration w t)"
  by (simp add: ShroomWorldSetMatchDuration_def Let_def world_ok_def)

lemma InitWithSeed_ok:
  assumes "libm_ok lm"
  shows "world_ok (ShroomWorldInitWithSeed lm seed)"
proof -
  define w where "w = zero_world\<lparr>ws_width := SHROOM_WORLD_WIDTH, ws_height := SHROOM_WORLD_HEIGHT,
    ws_random_seed := ShroomNormalizeSeed seed, ws_random_state := ShroomNormalizeSeed seed, ws_next_entity_id := 1,
    ws_match_phase := SHROOM_MATCH_PHASE_RUNNING, ws_match_duration_seconds := SHROOM_MATCH_DURATION_SECONDS,
    ws_match_time_remaining := SHROOM_MATCH_DURATION_SECONDS, ws_match_results_time_remaining := 0,
    ws_game_mode := SHROOM_GAME_MODE_FFA, ws_objective_target_score := SHROOM_KOTH_TARGET_SCORE\<rparr>"
  have "ShroomNormalizeSeed seed \<noteq> 0" by (simp add: ShroomNormalizeSeed_def)
  then have w: "world_ok w"
    using unit_zero(6) by (simp add: w_def world_ok_def zero_world_def ids_ok_zero list_all_iff zero_stats_slot_def)
  note s = InitializeSpores_sound [OF assms w]
  show ?thesis unfolding ShroomWorldInitWithSeed_def Let_def w_def [symmetric]
    by (rule sound_step_ok [OF InitializePowerups_sound [OF assms sound_step_ok [OF s w]] sound_step_ok [OF s w]])
qed

end
