(* ===== verification/Server_Input_Sound.thy ===== *)
theory Server_Input_Sound
  imports Server_Input Sim_Sound_World
begin

text \<open>What a client sends as input keeps the world sound, whatever the bytes of the packet.\<close>

section \<open>Inputs keep the world sound\<close>

lemma NormalizeInput_within: "vec_within 0x49800000 v \<Longrightarrow> vec_within 0x40000000 (NormalizeInput v)"
  using normalized_within [of v] by (simp add: NormalizeInput_def ShroomNormalizeOrZero_def)

text \<open>A vector that passes the check is far from overflowing when it is normalised.\<close>

lemma valid_vector_within:
  assumes "IsInputVectorValid x y"
  shows "vec_within 0x49800000 \<lparr>v2_x = x, v2_y = y\<rparr>"
proof -
  let ?l = "f32_add (f32_mul x x) (f32_mul y y)"
  have f: "f32_finite x" "f32_finite y" "f32_finite ?l" "f32_le ?l 0x40800000" using assms by (simp_all add: IsInputVectorValid_def Let_def)
  have c: "f32_finite 0x40800000" "f32_finite 0" "f32_units 0 = 0" "f32_units 0x40000000 = 2 ^ 150" "f32_units 0x40800000 = 2 ^ 151"
    "\<not> f32_is_nan 0x40800000"
    by code_simp+
  have l: "f32_order ?l \<le> f32_order 0x40800000" using f(3,4) c(6) by (simp add: f32_le_iff)
  have r: "rounded (f32_units a * f32_units a) 149 (f32_mul a a)" if "f32_finite a" for a by (rule f32_mul_rounded [OF that that])
  have nonneg: "0 \<le> f32_order (f32_mul a a)" if "f32_finite a" for a
  proof -
    have "f32_order 0 \<le> f32_order (f32_mul a a)" by (rule rounded_ge [OF r [OF that] c(2)]) (simp add: c(3))
    moreover have "f32_order 0 = 0" by code_simp
    ultimately show ?thesis by simp
  qed
  have inf: "f32_is_inf a \<or> f32_finite a" if "rounded s k a" for s k a
    using that by (auto simp: rounded_def f32_is_inf_iff f32_finite_def)
  have fin: "f32_finite (f32_mul x x)" "f32_finite (f32_mul y y)"
    using f(3) inf [OF r [OF f(1)]] inf [OF r [OF f(2)]] nonneg [OF f(1)] nonneg [OF f(2)]
    by (auto simp: f32_add_def Let_def f32_is_nan_iff f32_is_inf_iff f32_finite_def order_eq split: if_splits)
  have u: "0 \<le> f32_units (f32_mul x x)" "0 \<le> f32_units (f32_mul y y)"
    using nonneg f(1,2) units_mono_iff [of 0 "f32_mul x x"] units_mono_iff [of 0 "f32_mul y y"] c(3)
    by (simp_all add: f32_order_zero [of 0, OF f32_is_zero_def [THEN iffD2]])
  have le: "f32_units (f32_mul x x) \<le> 2 ^ 151" "f32_units (f32_mul y y) \<le> 2 ^ 151"
    using add_nonneg_le [OF fin] u l unfolding units_mono_iff [symmetric] c(5) by linarith+
  have big: "\<bar>f32_units a\<bar> \<le> f32_units 0x49800000" if a: "f32_finite a" "f32_units (f32_mul a a) \<le> 2 ^ 151" for a
  proof (rule ccontr)
    assume "\<not> \<bar>f32_units a\<bar> \<le> f32_units 0x49800000"
    moreover have k: "f32_units 0x49800000 = 2 ^ 169" "f32_units 0x53800000 = 2 ^ 189" "f32_finite 0x53800000" by code_simp+
    ultimately have "(2 :: int) ^ 169 \<le> \<bar>f32_units a\<bar>" by simp
    then have "(2 :: int) ^ 169 * 2 ^ 169 \<le> \<bar>f32_units a\<bar> * \<bar>f32_units a\<bar>" by (intro mult_mono) simp_all
    then have "f32_units 0x53800000 * 2 ^ 149 \<le> f32_units a * f32_units a" by (simp add: k(2) abs_mult_self_eq)
    from rounded_ge [OF r [OF a(1)] k(3) this] have "f32_units 0x53800000 \<le> f32_units (f32_mul a a)" by (simp add: units_mono_iff)
    with a(2) show False by (simp add: k(2))
  qed
  show ?thesis
    unfolding vec_within_def using abs_units [OF f(1) big [OF f(1) le(1)]] abs_units [OF f(2) big [OF f(2) le(2)]] by simp
qed

lemma with_ai_sound:
  "sound_step w (w\<lparr>ws_players := map (\<lambda>p. if P p then p\<lparr>pl_ai_controlled := b p\<rparr> else p) (ws_players w)\<rparr>)"
  by (auto simp: sound_step_def same_match_def world_ok_def list_all_iff player_ok_def)

lemma target_piece_less: "player < length (ws_players w) \<Longrightarrow> target_piece s player e w < length (ws_players w)"
  by (auto simp: target_piece_def dest: find_index_less split: option.split)

lemma HandleInputPacket_sound:
  assumes "world_ok w" and "\<And>i. se_player s = Some i \<Longrightarrow> i < length (ws_players w)" and "IsInputPacketValid packet"
  shows "sound_step w (snd (HandleInputPacket s packet w))"
proof (cases "\<not> se_active s \<or> se_spectating s \<or> \<not> se_entered_match s \<or> se_player s = None")
  case False
  then obtain player where player: "se_player s = Some player" by auto
  define i where "i = target_piece (s\<lparr>se_last_processed_input_sequence := ip_sequence packet\<rparr>) player (ip_focused_entity_id packet) w"
  define aim where "aim = NormalizeInput \<lparr>v2_x = ip_split_direction_x packet, v2_y = ip_split_direction_y packet\<rparr>"
  define w1 where "w1 = upd_player w i (\<lambda>p. ShroomPlayerSetInput p (NormalizeInput \<lparr>v2_x = ip_direction_x packet, v2_y = ip_direction_y packet\<rparr>))"
  define w2 where "w2 = w1\<lparr>ws_players := map (\<lambda>p. if pl_alive p \<and> pl_player_id p = se_player_id s
    then p\<lparr>pl_ai_controlled := pl_is_bot p \<and> pl_entity_id p \<noteq> pl_entity_id (player_at w i)\<rparr> else p) (ws_players w1)\<rparr>"
  define w3 where "w3 = (if ip_split_requested packet \<noteq> 0 then snd (ShroomWorldSplitPlayerToward w2 i aim) else w2)"
  define w4 where "w4 = (if ip_eject_requested packet \<noteq> 0 then snd (ShroomWorldEjectMass w3 i aim) else w3)"
  have i: "i < length (ws_players w)" unfolding i_def by (rule target_piece_less [OF assms(2) [OF player]])
  have dirs: "vec_within 0x40000000 aim" "vec_within 0x40000000 (NormalizeInput \<lparr>v2_x = ip_direction_x packet, v2_y = ip_direction_y packet\<rparr>)"
    using assms(3) by (simp_all add: aim_def IsInputPacketValid_def NormalizeInput_within valid_vector_within)
  have "sound_step w w1" unfolding w1_def
    by (rule upd_player_sound) (use dirs in \<open>simp add: ShroomPlayerSetInput_def player_ok_def\<close>)
  then have s2: "sound_step w w2" unfolding w2_def by (rule sound_step_trans [OF _ with_ai_sound])
  have s3: "sound_step w w3" unfolding w3_def
    using sound_step_trans [OF s2 SplitPlayerToward_sound [OF sound_step_ok [OF s2 assms(1)] sound_step_length [OF s2 i] direction_small [OF dirs(1)]]] s2 by simp
  have "sound_step w w4" unfolding w4_def
    using sound_step_trans [OF s3 EjectMass_sound [OF sound_step_ok [OF s3 assms(1)] sound_step_length [OF s3 i] direction_small [OF dirs(1)]]] s3 by simp
  moreover have "snd (HandleInputPacket s packet w) = w4"
    using False player
    unfolding w4_def w3_def w2_def w1_def aim_def i_def by (simp add: HandleInputPacket_def Let_def)
  ultimately show ?thesis by simp
qed (auto simp: HandleInputPacket_def)

lemma ReceiveInput_sound:
  assumes "world_ok w" and "\<And>i. se_player s = Some i \<Longrightarrow> i < length (ws_players w)"
  shows "sound_step w (snd (snd (ReceiveInput s packet now w)))"
  using HandleInputPacket_sound [of w "s\<lparr>se_input_admission := _\<rparr>" packet] assms
  by (auto simp: ReceiveInput_def Let_def split: prod.split)

lemma AdjustSessionAiControl_sound: "sound_step w (snd (AdjustSessionAiControl s w))"
  using with_ai_sound [of w "\<lambda>p. pl_alive p \<and> pl_player_id p = se_player_id s" "\<lambda>_. False"]
  by (simp add: AdjustSessionAiControl_def)

end
