(* ===== verification/Sim_Primaries.thy ===== *)
theory Sim_Primaries
  imports Sim_Sound_World Sim_Spawning
begin

text \<open>
  The server keeps pointers to the primary pieces of its players while the simulation runs.  This
  theory shows what that rests on: a step of the world leaves every primary piece in its slot, with
  its player and its kind, and no other slot becomes one.
\<close>

section \<open>Primary pieces\<close>

definition slot_key :: "ShroomPlayerState \<Rightarrow> bool \<times> u32 \<times> u8 \<times> bool" where
  "slot_key p = (pl_alive p, pl_player_id p, pl_piece_index p, pl_is_bot p)"

definition primary_key :: "ShroomWorldState \<Rightarrow> nat \<Rightarrow> (u32 \<times> bool) option" where
  "primary_key w i =
     (if i < length (ws_players w) \<and> pl_alive (player_at w i) \<and> pl_piece_index (player_at w i) = 0 \<and>
         pl_player_id (player_at w i) \<noteq> 0
      then Some (pl_player_id (player_at w i), pl_is_bot (player_at w i)) else None)"

text \<open>Dead slots belong to nobody, and every player has one primary piece at most.\<close>

definition tidy :: "ShroomWorldState \<Rightarrow> bool" where
  "tidy w \<longleftrightarrow> (\<forall>p\<in>set (ws_players w). pl_alive p \<or> pl_player_id p = 0) \<and>
     (\<forall>i j k b c. primary_key w i = Some (k, b) \<longrightarrow> primary_key w j = Some (k, c) \<longrightarrow> i = j)"

definition player_ids :: "ShroomWorldState \<Rightarrow> u32 set" where
  "player_ids w = pl_player_id ` set (ws_players w) - {0}"

definition keeps :: "ShroomWorldState \<Rightarrow> ShroomWorldState \<Rightarrow> bool" where
  "keeps w w' \<longleftrightarrow> length (ws_players w) \<le> length (ws_players w') \<and> (tidy w \<longrightarrow> tidy w' \<and> primary_key w' = primary_key w \<and> player_ids w' \<subseteq> player_ids w)"

lemma keeps_refl [simp]: "keeps w w"
  by (simp add: keeps_def)

lemma keeps_trans: "keeps w w' \<Longrightarrow> keeps w' w'' \<Longrightarrow> keeps w w''"
  by (auto simp: keeps_def)

lemma keeps_fold: "(\<And>x w. keeps w (f x w)) \<Longrightarrow> keeps w (fold f xs w)"
  by (induction xs arbitrary: w) (auto intro: keeps_trans)

text \<open>Most operations leave all keys as they are.\<close>

definition same_slots :: "ShroomWorldState \<Rightarrow> ShroomWorldState \<Rightarrow> bool" where
  "same_slots w w' \<longleftrightarrow> map slot_key (ws_players w') = map slot_key (ws_players w)"

lemma same_slots_refl [simp]: "same_slots w w"
  by (simp add: same_slots_def)

lemma same_slots_trans: "same_slots w w' \<Longrightarrow> same_slots w' w'' \<Longrightarrow> same_slots w w''"
  by (simp add: same_slots_def)

lemma same_slots_fold: "(\<And>x w. same_slots w (f x w)) \<Longrightarrow> same_slots w (fold f xs w)"
  by (induction xs arbitrary: w) (auto intro: same_slots_trans)

lemma same_players: "ws_players w' = ws_players w \<Longrightarrow> same_slots w w'"
  by (simp add: same_slots_def)

lemma same_slots_length: "same_slots w w' \<Longrightarrow> length (ws_players w') = length (ws_players w)"
  unfolding same_slots_def by (metis length_map)

lemma same_slots_nth: "same_slots w w' \<Longrightarrow> i < length (ws_players w) \<Longrightarrow> slot_key (player_at w' i) = slot_key (player_at w i)"
  unfolding same_slots_def by (metis length_map nth_map)

lemma same_slots_keeps:
  assumes "same_slots w w'"
  shows "keeps w w'"
proof -
  note len = same_slots_length [OF assms] and nth = same_slots_nth [OF assms, unfolded slot_key_def]
  have keys: "primary_key w' = primary_key w" using nth by (intro ext) (auto simp: primary_key_def len)
  have "player_ids w' = player_ids w"
  proof -
    have "pl_player_id ` set ps = (\<lambda>(a, k, j, b). k) ` set (map slot_key ps)" for ps by (force simp: slot_key_def)
    with assms show ?thesis by (simp add: player_ids_def same_slots_def del: set_map)
  qed
  moreover have "(\<forall>p\<in>set (ws_players w'). pl_alive p \<or> pl_player_id p = 0) \<longleftrightarrow>
      (\<forall>p\<in>set (ws_players w). pl_alive p \<or> pl_player_id p = 0)"
    using nth len by (auto simp: all_set_conv_all_nth)
  ultimately show ?thesis by (simp add: keeps_def tidy_def keys len)
qed

lemma upd_player_same:
  "(i < length (ws_players w) \<Longrightarrow> slot_key (f (player_at w i)) = slot_key (player_at w i)) \<Longrightarrow> same_slots w (upd_player w i f)"
  by (cases "i < length (ws_players w)") (auto simp: same_slots_def upd_player_def map_update list_update_same_conv list_update_beyond)

section \<open>The rules that leave all keys alone\<close>

lemma note_stats_same: "same_slots w (note_stats w k f)"
  by (rule same_players) simp

lemma upd_then: "same_slots w w' \<Longrightarrow> (\<And>p. slot_key (f p) = slot_key p) \<Longrightarrow> same_slots w (upd_player w' i f)"
  by (rule same_slots_trans [OF _ upd_player_same])

lemma map_keys_same: "(\<And>p. slot_key (f p) = slot_key p) \<Longrightarrow> same_slots w (w\<lparr>ws_players := map f (ws_players w)\<rparr>)"
  by (simp add: same_slots_def)

lemma collect_spore_same: "same_slots w (collect_spore lm i r k w)"
proof (cases "spo_active (spore_at w k) \<and> f32_le (ShroomDistanceSqr (pl_position (player_at w i)) (spo_position (spore_at w k))) (f32_mul r r)")
  case True
  have "same_slots w (upd_player w i (\<lambda>p. p\<lparr>pl_mass := g p\<rparr>))" for g
    by (rule upd_player_same) (simp add: slot_key_def)
  with True show ?thesis
    by (auto simp: collect_spore_def Let_def same_slots_def)
qed (auto simp: collect_spore_def Let_def)

lemma CollectSpores_same: "same_slots w (ShroomCollectSpores lm w grid dt)"
  unfolding ShroomCollectSpores_def
proof (rule same_slots_fold)
  fix i w
  have "same_slots w (fold (collect_spore lm i r) ks (ShroomApplyMagnetToSpores w p dt))" for r ks p
    by (rule same_slots_trans [OF same_players same_slots_fold [OF collect_spore_same]]) simp
  then show "same_slots w (collect_spores_of lm grid dt i w)"
    by (simp add: collect_spores_of_def Let_def same_players)
qed

lemma CollectPowerups_same: "same_slots w (ShroomCollectPowerups w)"
proof -
  have key: "slot_key (grant_powerup t p) = slot_key p" for t p by (simp add: grant_powerup_def slot_key_def)
  have "same_slots w (collect_powerup i k w)" for i k w
    using upd_player_same [of i w "grant_powerup (pow_type (ws_powerups w ! k))"] key
    by (simp add: collect_powerup_def Let_def same_slots_def)
  then show ?thesis unfolding ShroomCollectPowerups_def by (intro same_slots_fold) (simp add: same_slots_fold)
qed

lemma UpdatePlayerEffects_same: "same_slots w (ShroomUpdatePlayerEffects w dt)"
  unfolding ShroomUpdatePlayerEffects_def by (rule map_keys_same) (simp add: slot_key_def)

lemma UpdatePowerups_same: "same_slots w (ShroomUpdatePowerups lm w dt)"
  unfolding ShroomUpdatePowerups_def
  by (rule same_slots_fold) (simp add: update_powerup_def Let_def same_players)

lemma move_player_same: "same_slots w (move_player dt now i w)"
proof -
  have "slot_key (apply_impulse w dt p) = slot_key p" for w p by (simp add: apply_impulse_def slot_key_def Let_def)
  then have "slot_key (moved_player w dt now p) = slot_key p" for p by (simp add: moved_player_def slot_key_def Let_def)
  then have "same_slots w (upd_player w i (moved_player w dt now))" by (intro upd_player_same)
  then show ?thesis by (simp add: move_player_def Let_def same_slots_def)
qed

lemma ApplyMassLoss_same: "same_slots w (ShroomApplyMassLoss lm w i loss)"
proof (cases "f32_le loss 0")
  case False
  obtain a w1 where 1: "ShroomRandomFloat w 0 0x40c90fdb = (a, w1)" by fastforce
  have w1: "ws_players w1 = ws_players w" using reseeded_players [OF ShroomRandomFloat_reseeds [of w 0 "0x40c90fdb"]] by (simp add: 1)
  have upd: "map slot_key (ws_players (upd_player v i f)) = map slot_key (ws_players v)"
    if "\<And>p. slot_key (f p) = slot_key p" for v f
    using upd_player_same [of i v f] that by (simp add: same_slots_def)
  show ?thesis using False
    by (simp add: ShroomApplyMassLoss_def 1 Let_def same_slots_def upd slot_key_def w1)
qed (simp add: ShroomApplyMassLoss_def)

lemma ApplyMassRules_same: "same_slots w (ShroomApplyMassRules lm w dt now)"
  unfolding ShroomApplyMassRules_def
proof (rule same_slots_fold)
  fix i w
  define w1 where "w1 = upd_player w i (\<lambda>p. p\<lparr>pl_mass := ShroomClamp (pl_mass p) 0 SHROOM_MAX_PLAYER_MASS\<rparr>)"
  have 1: "same_slots w w1" unfolding w1_def by (rule upd_player_same) (simp add: slot_key_def)
  define w2 where "w2 = (if ShroomPlayerCanDecay w1 (player_at w1 i)
    then ShroomApplyMassLoss lm w1 i (f32_mul (f32_mul (f32_sub (pl_mass (player_at w1 i))
      (ShroomDecayMassThresholdAtPosition w1 (pl_position (player_at w1 i)))) (ShroomDecayRateAtPosition w1 (pl_position (player_at w1 i)))) dt)
    else w1)"
  have 2: "same_slots w w2" unfolding w2_def using 1 by (simp add: same_slots_trans [OF 1 ApplyMassLoss_same])
  define w3 where "w3 = (if f32_le (pl_decay_immune_powerup_timer (player_at w2 i)) 0 \<and>
      ShroomPlayerIdlePenaltyActive (player_at w2 i) now
    then ShroomApplyMassLoss lm w2 i (f32_mul SHROOM_IDLE_PENALTY_BLEED_PER_SECOND dt) else w2)"
  have 3: "same_slots w w3" unfolding w3_def using 2 by (simp add: same_slots_trans [OF 2 ApplyMassLoss_same])
  have "mass_rules_of lm dt now i w = (if \<not> pl_alive (player_at w i) then w
      else upd_player w3 i (\<lambda>p. p\<lparr>pl_radius := ShroomMassToRadius (pl_mass p)\<rparr>))"
    unfolding mass_rules_of_def Let_def w1_def [symmetric] w2_def [symmetric] w3_def [symmetric] ..
  then show "same_slots w (mass_rules_of lm dt now i w)"
    using upd_then [OF 3, of "\<lambda>p. p\<lparr>pl_radius := ShroomMassToRadius (pl_mass p)\<rparr>" i] by (simp add: slot_key_def)
qed

lemma EjectMass_same: "same_slots w (snd (ShroomWorldEjectMass w i aim))"
proof -
  have "map slot_key (ws_players (upd_player w i (\<lambda>p. p\<lparr>pl_mass := m, pl_radius := r, pl_eject_cooldown_timer := t\<rparr>))) =
      map slot_key (ws_players w)" for m r t
    using upd_player_same [of i w "\<lambda>p. p\<lparr>pl_mass := m, pl_radius := r, pl_eject_cooldown_timer := t\<rparr>"]
    by (simp add: same_slots_def slot_key_def)
  then show ?thesis by (simp add: ShroomWorldEjectMass_def Let_def same_slots_def)
qed

lemma keeps_fold_index:
  assumes "\<And>i w. i < n \<Longrightarrow> n \<le> length (ws_players w) \<Longrightarrow> keeps w (f i w)" and "n \<le> length (ws_players w)"
  shows "keeps w (fold f [0..<n] w)"
proof -
  have "keeps w (fold f xs w)" if "set xs \<subseteq> {0..<n}" for xs
    using that assms(2)
  proof (induction xs arbitrary: w)
    case (Cons x xs)
    then have "keeps w (f x w)" by (intro assms(1)) auto
    moreover from this have "n \<le> length (ws_players (f x w))" using Cons.prems(2) by (simp add: keeps_def)
    ultimately show ?case using Cons.IH [of "f x w"] Cons.prems(1) by (auto intro: keeps_trans)
  qed simp
  then show ?thesis by simp
qed

section \<open>The rules that change keys\<close>

definition no_primary :: "ShroomPlayerState \<Rightarrow> bool" where
  "no_primary p \<longleftrightarrow> \<not> (pl_alive p \<and> pl_piece_index p = 0 \<and> pl_player_id p \<noteq> 0)"

text \<open>A slot that is no primary piece may become anything else that is none.\<close>

lemma keeps_slot:
  assumes w': "ws_players w' = (ws_players w)[j := q]"
    and old: "tidy w \<Longrightarrow> j < length (ws_players w) \<Longrightarrow> no_primary (player_at w j)"
    and new: "no_primary q" "pl_alive q \<or> pl_player_id q = 0" "pl_player_id q \<in> insert 0 (player_ids w)"
  shows "keeps w w'"
proof -
  have "tidy w' \<and> primary_key w' = primary_key w \<and> player_ids w' \<subseteq> player_ids w" if t: "tidy w"
  proof -
    have keys: "primary_key w' = primary_key w"
    proof
      fix i
      show "primary_key w' i = primary_key w i"
        using old [OF t] new(1) by (cases "i = j") (auto simp: primary_key_def w' no_primary_def)
    qed
    have "set (ws_players w') \<subseteq> insert q (set (ws_players w))" by (simp add: w' set_update_subset_insert)
    then show ?thesis using t new keys by (auto simp: tidy_def player_ids_def)
  qed
  then show ?thesis by (simp add: keeps_def w')
qed

lemma no_primary_empty [simp]: "no_primary empty_player" "pl_player_id empty_player = 0" "\<not> pl_alive empty_player"
  by (simp_all add: no_primary_def empty_player_def)

lemma keeps_append: "keeps w (w\<lparr>ws_players := ws_players w @ [empty_player]\<rparr>)"
proof -
  let ?w = "w\<lparr>ws_players := ws_players w @ [empty_player]\<rparr>"
  have "primary_key ?w = primary_key w"
    by (auto simp: primary_key_def nth_append empty_player_def fun_eq_iff)
  then show ?thesis by (auto simp: keeps_def tidy_def player_ids_def)
qed

lemma fresh_entity_players: "ws_players (snd (fresh_entity e w)) = ws_players w"
  by (simp add: fresh_entity_def)

lemma piece_count_word:
  assumes "ShroomPlayerCanSplit w p" and "p \<in> set (ws_players w)"
  shows "(word_of_nat (ShroomCountPlayerPieces w (pl_player_id p)) :: u8) \<noteq> 0"
proof -
  have "0 < ShroomCountPlayerPieces w (pl_player_id p)" "ShroomCountPlayerPieces w (pl_player_id p) < 4"
    using assms by (auto simp: ShroomPlayerCanSplit_def SHROOM_MAX_SPLIT_PIECES_def ShroomCountPlayerPieces_def
        count_if_def filter_empty_conv split: if_splits)
  then have "unat (word_of_nat (ShroomCountPlayerPieces w (pl_player_id p)) :: u8) \<noteq> 0"
    by (simp add: unat_word_of_nat_small)
  then show ?thesis by (metis unat_0)
qed

lemma SplitPlayerToward_keeps:
  assumes "i < length (ws_players w)"
  shows "keeps w (snd (ShroomWorldSplitPlayerToward w i aim))"
proof (cases "fst (ShroomWorldSplitPlayerToward w i aim)")
  case True
  let ?w' = "snd (ShroomWorldSplitPlayerToward w i aim)"
  obtain ps j child parent where
    eq: "ws_players ?w' = ps[j := child, i := parent]" and ij: "i \<noteq> j"
    and ps: "ps = ws_players w \<or> ps = ws_players w @ [empty_player] \<and> length (ws_players w) < SHROOM_MAX_PLAYER_ENTITIES"
    and j: "j < length ps" "\<not> pl_alive (ps ! j)" "pl_player_id (ps ! j) = 0"
    and child: "pl_alive child" "pl_player_id child = pl_player_id (player_at w i)" "pl_is_bot child = pl_is_bot (player_at w i)"
      "pl_piece_index child = word_of_nat (ShroomCountPlayerPieces w (pl_player_id (player_at w i)))"
      "pl_mass child = half_mass (pl_mass (player_at w i))"
    and parent: "pl_alive parent" "pl_player_id parent = pl_player_id (player_at w i)"
      "pl_is_bot parent = pl_is_bot (player_at w i)" "pl_piece_index parent = pl_piece_index (player_at w i)"
      "pl_mass parent = half_mass (pl_mass (player_at w i))"
    and can: "ShroomPlayerCanSplit w (player_at w i)"
    by (rule SplitPlayerToward_done [OF True assms])
  define w1 where "w1 = w\<lparr>ws_players := ps\<rparr>"
  define w2 where "w2 = w1\<lparr>ws_players := ps[j := child]\<rparr>"
  have 1: "keeps w w1" using ps keeps_append [of w] by (auto simp: w1_def)
  have "no_primary child" using child(4) piece_count_word [OF can] assms by (simp add: no_primary_def)
  moreover have "pl_player_id child \<in> insert 0 (player_ids w1)" using assms ps child(2) by (auto simp: player_ids_def w1_def)
  ultimately have 2: "keeps w1 w2" using j(2) child(1) by (intro keeps_slot [of _ _ j child]) (simp_all add: w1_def w2_def no_primary_def)
  have "slot_key (player_at w2 i) = slot_key parent"
    using ij ps assms parent can by (auto simp: w2_def slot_key_def nth_append ShroomPlayerCanSplit_def split: if_splits)
  then have "same_slots w2 (upd_player w2 i (\<lambda>_. parent))" by (intro upd_player_same) simp
  then have "same_slots w2 ?w'" by (simp add: same_slots_def eq upd_player_def w2_def)
  then show ?thesis by (rule keeps_trans [OF keeps_trans [OF 1 2] same_slots_keeps])
qed (simp add: SplitPlayerToward_refused)

lemma SplitPlayer_keeps: "i < length (ws_players w) \<Longrightarrow> keeps w (snd (ShroomWorldSplitPlayer w i))"
  unfolding ShroomWorldSplitPlayer_def by (rule SplitPlayerToward_keeps)

lemma merge_piece_keeps: "keeps w (merge_piece i w)"
proof (cases "ShroomFindPrimaryPiece w (pl_player_id (player_at w i))")
  case (Some k)
  define g where "g = (\<lambda>p. let mass = ShroomClamp (f32_add (pl_mass p) (pl_mass (player_at w i))) 0 SHROOM_MAX_PLAYER_MASS
    in p\<lparr>pl_mass := mass, pl_radius := ShroomMassToRadius mass\<rparr> :: ShroomPlayerState)"
  define w1 where "w1 = upd_player w k g"
  have key: "slot_key (g p) = slot_key p" for p by (simp add: g_def slot_key_def Let_def)
  have same: "same_slots w w1" unfolding w1_def by (rule upd_player_same) (rule key)
  have "keeps w (upd_player w1 i (\<lambda>_. empty_player))" if "pl_piece_index (player_at w i) \<noteq> 0"
  proof (rule keeps_trans [OF same_slots_keeps [OF same] keeps_slot [of _ _ i empty_player]])
    show "no_primary (player_at w1 i)" if "i < length (ws_players w1)"
      using same_slots_nth [OF same, of i] same_slots_length [OF same] that \<open>pl_piece_index (player_at w i) \<noteq> 0\<close>
      by (simp add: no_primary_def slot_key_def)
  qed (simp_all add: upd_player_def)
  then show ?thesis
    unfolding merge_piece_def Let_def Some option.case g_def [unfolded Let_def, symmetric] w1_def [symmetric] by simp
qed (simp add: merge_piece_def Let_def)

lemma ResolveMerges_keeps: "keeps w (ShroomResolveMerges w)"
  unfolding ShroomResolveMerges_def by (rule keeps_fold) (rule merge_piece_keeps)

section \<open>Bots\<close>

lemma BotTryTacticalAction_keeps:
  assumes i: "i < length (ws_players w)"
  shows "keeps w (snd (ShroomBotTryTacticalAction w i prey threat objective))"
proof -
  note split = SplitPlayerToward_keeps [OF i] and eject = same_slots_keeps [OF EjectMass_same]
  define close where "close = (case threat of None \<Rightarrow> False
    | Some (_, threat_distance_sqr) \<Rightarrow> f32_lt threat_distance_sqr (f32_mul 0x442f0000 0x442f0000))"
  obtain b1 w1 where 1: "split_onto_prey w i prey close = (b1, w1)" by fastforce
  obtain b2 w2 where 2: "eject_at_prey w i prey close = (b2, w2)" by fastforce
  obtain b3 w3 where 3: "eject_for_objective w i objective close = (b3, w3)" by fastforce
  have "keeps w (snd (split_onto_prey w i prey close))" "keeps w (snd (eject_at_prey w i prey close))"
    "keeps w (snd (eject_for_objective w i objective close))"
    by (auto simp: split_onto_prey_def eject_at_prey_def eject_for_objective_def Let_def split eject split: option.split)
  then have keep: "keeps w w1" "keeps w w2" "keeps w w3" by (simp_all add: 1 2 3)
  have same: "snd (split_onto_prey w i prey close) = w" if "\<not> fst (split_onto_prey w i prey close)" for close
    using that by (auto simp: split_onto_prey_def Let_def SplitPlayerToward_refused split: option.splits if_splits)
  have same2: "snd (eject_at_prey w i prey close) = w" if "\<not> fst (eject_at_prey w i prey close)" for close
    using that by (auto simp: eject_at_prey_def Let_def EjectMass_refused split: option.splits if_splits)
  have stay: "\<not> b1 \<Longrightarrow> w1 = w" "\<not> b2 \<Longrightarrow> w2 = w" using same [of close] same2 [of close] 1 2 by simp_all
  have "keeps w' (upd_player w' i (\<lambda>p. p\<lparr>pl_bot_tactical_cooldown_timer := t\<rparr>))" for w' t
    by (rule same_slots_keeps [OF upd_player_same]) (simp add: slot_key_def)
  note cooled = keep [THEN keeps_trans, OF this]
  show ?thesis
  proof (cases "pl_piece_index (player_at w i) \<noteq> 0 \<or> f32_lt 0 (pl_bot_tactical_cooldown_timer (player_at w i))")
    case False
    then show ?thesis
      unfolding ShroomBotTryTacticalAction_def Let_def close_def [symmetric] 1 using stay 2 3 keep cooled
      by (cases b1; cases b2; cases b3) simp_all
  qed (simp add: ShroomBotTryTacticalAction_def)
qed

lemma steer_bots_keeps: "keeps w (steer_bots grid w)"
  unfolding steer_bots_def
proof (rule keeps_fold)
  fix i w
  have "keeps w (ShroomUpdateBotInput w i g)" if i: "i < length (ws_players w)" for g
  proof -
    obtain threat prey where 1: "fold (weigh_player w i) [0..<length (ws_players w)] (None, None) = (threat, prey)" by fastforce
    define powerup where "powerup = fold (weigh_powerup w i) [0..<ws_powerup_count w] None"
    let ?d = "map_option (\<lambda>(index, _, distance_sqr). (index, distance_sqr))"
    obtain b w' where 2: "ShroomBotTryTacticalAction w i (?d prey) (?d threat) (map_option fst powerup) = (b, w')" by fastforce
    have "keeps w w'" using BotTryTacticalAction_keeps [OF i] by (metis 2 snd_conv)
    moreover have "keeps w' (upd_player w' i (\<lambda>p. p\<lparr>pl_input_direction := v\<rparr>))" for v
      by (rule same_slots_keeps [OF upd_player_same]) (simp add: slot_key_def)
    ultimately show ?thesis
      by (simp add: ShroomUpdateBotInput_def 1 2 Let_def keeps_trans flip: powerup_def)
  qed
  then show "keeps w (if i < length (ws_players w) \<and> (pl_is_bot (player_at w i) \<or> pl_ai_controlled (player_at w i)) \<and>
      pl_alive (player_at w i) then ShroomUpdateBotInput w i (Some grid) else w)" by simp
qed

lemma ApplyForcedSplits_keeps: "keeps w (ShroomApplyForcedSplits w)"
  unfolding ShroomApplyForcedSplits_def
  by (rule keeps_fold_index) (simp_all add: forced_split_def Let_def SplitPlayer_keeps)

section \<open>Consuming\<close>

lemma RespawnPlayer_players:
  assumes "i < length (ws_players w)"
  obtains p where "ws_players (ShroomRespawnPlayer lm w i) = (ws_players w)[i := p]"
    and "slot_key p = (True, pl_player_id (player_at w i), 0, pl_is_bot (player_at w i))"
proof -
  define w1 where "w1 = upd_player w i (\<lambda>p. p\<lparr>pl_life_generation := ShroomNextLifeGeneration (pl_life_generation p)\<rparr>)"
  obtain c w2 where 2: "ShroomRandomSpawnPosition lm w1 True = (c, w2)" by fastforce
  have "ws_players w2 = ws_players w1"
    using reseeded_players [OF spawn_position_reseeds [of w1 lm True]] by (simp add: 2)
  then have ps: "ws_players w2 = (ws_players w)[i := (player_at w i)\<lparr>pl_life_generation := ShroomNextLifeGeneration (pl_life_generation (player_at w i))\<rparr>]"
    by (simp add: w1_def upd_player_def)
  let ?w = "ShroomRespawnPlayer lm w i"
  have "ws_players ?w = (ws_players w)[i := player_at ?w i]"
    unfolding ShroomRespawnPlayer_def Let_def w1_def [symmetric] 2 prod.case by (simp add: upd_player_def ps assms)
  moreover have "slot_key (player_at ?w i) = (True, pl_player_id (player_at w i), 0, pl_is_bot (player_at w i))"
    unfolding ShroomRespawnPlayer_def Let_def w1_def [symmetric] 2 prod.case by (simp add: upd_player_def ps assms slot_key_def)
  ultimately show ?thesis by (rule that)
qed

lemma clear_orphan_keeps: "keeps w (clear_orphan v k i w)"
proof -
  have "keeps w (upd_player w i (\<lambda>_. empty_player))" if "0 < pl_piece_index (player_at w i)"
  proof (rule keeps_slot [of _ _ i empty_player])
    show "ws_players (upd_player w i (\<lambda>_. empty_player)) = (ws_players w)[i := empty_player]" by (simp add: upd_player_def)
    show "no_primary (player_at w i)" using that by (simp add: no_primary_def word_gt_0)
  qed simp_all
  then show ?thesis by (simp add: clear_orphan_def Let_def)
qed

lemma consume_victim_keeps:
  assumes v: "v < length (ws_players w)"
  shows "keeps w (consume_victim lm v i w)"
proof -
  let ?victim = "player_at w v"
  define w1 where "w1 = upd_player w i (\<lambda>p. p\<lparr>pl_mass := ShroomClamp
    (f32_add (pl_mass p) (f32_mul (pl_mass ?victim) SHROOM_CONSUME_MASS_GAIN_FACTOR)) 0 SHROOM_MAX_PLAYER_MASS\<rparr>)"
  define w2 where "w2 = upd_player w1 v (\<lambda>p. p\<lparr>pl_alive := False\<rparr>)"
  define w3 where "w3 = note_stats w2 (pl_player_id (player_at w2 i)) (\<lambda>s. s\<lparr>rs_kills := rs_kills s + 1,
    rs_mass_consumed := f32_add (rs_mass_consumed s) (f32_mul (pl_mass ?victim) SHROOM_CONSUME_MASS_GAIN_FACTOR)\<rparr>)"
  define w4 where "w4 = note_stats w3 (pl_player_id ?victim) (\<lambda>s. s\<lparr>rs_mass_lost := f32_add (rs_mass_lost s) (pl_mass ?victim),
    rs_deaths := if pl_piece_index ?victim = 0 then rs_deaths s + 1 else rs_deaths s\<rparr>)"
  define w5 where "w5 = upd_player w4 v (\<lambda>p. p\<lparr>pl_mass := 0, pl_radius := 0, pl_split_velocity := zero_vec2,
      pl_merge_timer := 0, pl_ai_controlled := False, pl_piece_index := 0, pl_player_id := 0\<rparr>)"
  have same: "same_slots w w1" unfolding w1_def by (rule upd_player_same) (simp add: slot_key_def)
  have v1: "v < length (ws_players w1)" and key: "slot_key (player_at w1 v) = slot_key ?victim"
    using same_slots_length [OF same] same_slots_nth [OF same v] v by simp_all
  have w4: "ws_players w4 = (ws_players w1)[v := (player_at w1 v)\<lparr>pl_alive := False\<rparr>]"
    by (simp add: w4_def w3_def w2_def upd_player_def)
  show ?thesis
  proof (cases "pl_piece_index ?victim = 0")
    case True
    have "v < length (ws_players w4)" by (simp add: w4 v1)
    then obtain p where p: "ws_players (ShroomRespawnPlayer lm w4 v) = (ws_players w4)[v := p]"
      "slot_key p = (True, pl_player_id (player_at w4 v), 0, pl_is_bot (player_at w4 v))"
      by (rule RespawnPlayer_players)
    have q: "slot_key p = (True, pl_player_id ?victim, 0, pl_is_bot ?victim)"
      using p(2) key v1 by (simp add: w4 slot_key_def)
    have ps: "ws_players (ShroomRespawnPlayer lm w4 v) = (ws_players w1)[v := p]" using p(1) by (simp add: w4)
    have "keeps w1 (ShroomRespawnPlayer lm w4 v)"
    proof (cases "pl_alive ?victim")
      case alive: True
      have "same_slots w1 (upd_player w1 v (\<lambda>_. p))"
        by (rule upd_player_same) (use q key alive True in \<open>simp add: slot_key_def\<close>)
      then have "same_slots w1 (ShroomRespawnPlayer lm w4 v)" by (simp add: same_slots_def ps upd_player_def)
      then show ?thesis by (rule same_slots_keeps)
    next
      case False
      show ?thesis
      proof (cases "tidy w1")
        case tidy: True
        have "\<not> pl_alive (player_at w1 v)" using False key by (simp add: slot_key_def)
        then have "pl_player_id (player_at w1 v) = 0" using tidy v1 nth_mem by (auto simp: tidy_def)
        then have "pl_player_id p = 0" using q key by (simp add: slot_key_def)
        then show ?thesis
          by (intro keeps_slot [OF ps]) (use False key in \<open>simp_all add: no_primary_def slot_key_def\<close>)
      qed (simp add: keeps_def ps)
    qed
    then have "keeps w (fold (clear_orphan v (pl_player_id ?victim)) [0..<length (ws_players (ShroomRespawnPlayer lm w4 v))]
        (ShroomRespawnPlayer lm w4 v))"
      by (rule keeps_trans [OF keeps_trans [OF same_slots_keeps [OF same]] keeps_fold]) (rule clear_orphan_keeps)
    with True show ?thesis
      unfolding consume_victim_def Let_def w1_def [symmetric] w2_def [symmetric] w3_def [symmetric] w4_def [symmetric] by simp
  next
    case False
    have "ws_players w5 = (ws_players w1)[v := player_at w5 v]"
      by (simp add: w5_def upd_player_def w4 v1)
    moreover have "pl_player_id (player_at w5 v) = 0" using v1 by (simp add: w5_def w4 upd_player_def)
    moreover have "no_primary (player_at w1 v)" using False key by (simp add: no_primary_def slot_key_def)
    ultimately have "keeps w1 w5" by (intro keeps_slot [of w5 w1 v "player_at w5 v"]) (simp_all add: no_primary_def)
    then have "keeps w w5" by (rule keeps_trans [OF same_slots_keeps [OF same]])
    with False show ?thesis
      unfolding consume_victim_def Let_def w1_def [symmetric] w2_def [symmetric] w3_def [symmetric] w4_def [symmetric] w5_def [symmetric]
      by simp
  qed
qed

lemma ResolveConsumes_keeps: "keeps w (ShroomResolveConsumes lm w)"
  unfolding ShroomResolveConsumes_def Let_def
  by (rule keeps_fold_index) (auto intro!: consume_victim_keeps split: option.split)

end
