(* ===== verification/Sim_Sessions.thy ===== *)
theory Sim_Sessions
  imports Sim_Primaries
begin

text \<open>
  What the operations of the server do to the primary pieces: the step of the world and the start of
  a new match keep them all, a spawn adds one, and removing a player takes that player's away.
\<close>

section \<open>The step\<close>

lemma SetObjectiveScore_players: "ws_players (snd (ShroomWorldSetObjectiveScore w k score)) = ws_players w"
  by (simp add: ShroomWorldSetObjectiveScore_def split: option.split)

lemma UpdateKingOfHill_players: "ws_players (snd (ShroomUpdateKingOfHill w dt)) = ws_players w"
  by (simp add: ShroomUpdateKingOfHill_def Let_def SetObjectiveScore_players)

lemma UpdateColonyRoundStats_players: "ws_players (ShroomUpdateColonyRoundStats w dt) = ws_players w"
  by (simp add: ShroomUpdateColonyRoundStats_def Let_def fold_players)

lemma place_on_podium_players: "ws_players (place_on_podium k w) = ws_players w"
  by (simp add: place_on_podium_def Let_def split: option.split)

lemma ComputeMatchPodium_players: "ws_players (ShroomComputeMatchPodium w) = ws_players w"
  unfolding ShroomComputeMatchPodium_def
  by (subst fold_players) (simp_all add: place_on_podium_players clear_podium_def)

lemma finish_step_players: "ws_players (finish_step won dt w) = ws_players w"
  by (simp add: finish_step_def Let_def ComputeMatchPodium_players)

lemma WorldStep_keeps: "keeps w (ShroomWorldStep lm w dt)"
proof (cases "ws_match_phase w = SHROOM_MATCH_PHASE_RUNNING")
  case True
  define now where "now = ShroomWorldStepEndTimeMs w dt"
  define grid where "grid = ShroomBuildSporeGrid w"
  define w1 where "w1 = steer_bots grid w"
  define w2 where "w2 = fold (move_player dt now) [0..<length (ws_players w1)] w1"
  define w3 where "w3 = ShroomUpdatePlayerEffects w2 dt"
  define w4 where "w4 = ShroomCollectSpores lm w3 grid dt"
  define w5 where "w5 = ShroomCollectPowerups w4"
  define w6 where "w6 = ShroomResolveConsumes lm w5"
  obtain won w7 where 7: "ShroomUpdateKingOfHill w6 dt = (won, w7)" by fastforce
  define w8 where "w8 = ShroomUpdateColonyRoundStats w7 dt"
  define w9 where "w9 = ShroomApplyMassRules lm w8 dt now"
  define w10 where "w10 = ShroomApplyForcedSplits w9"
  define w11 where "w11 = ShroomResolveMerges w10"
  define w12 where "w12 = ShroomUpdatePowerups lm w11 dt"
  note same = keeps_trans [OF _ same_slots_keeps]
  have s1: "keeps w w1" unfolding w1_def by (rule steer_bots_keeps)
  have s2: "keeps w w2" unfolding w2_def by (rule keeps_trans [OF s1 keeps_fold]) (rule same_slots_keeps [OF move_player_same])
  have s3: "keeps w w3" unfolding w3_def by (rule same [OF s2 UpdatePlayerEffects_same])
  have s4: "keeps w w4" unfolding w4_def by (rule same [OF s3 CollectSpores_same])
  have s5: "keeps w w5" unfolding w5_def by (rule same [OF s4 CollectPowerups_same])
  have s6: "keeps w w6" unfolding w6_def by (rule keeps_trans [OF s5 ResolveConsumes_keeps])
  have s7: "keeps w w7" using same [OF s6 same_players [OF UpdateKingOfHill_players [of w6 dt]]] by (simp add: 7)
  have s8: "keeps w w8" unfolding w8_def by (rule same [OF s7 same_players [OF UpdateColonyRoundStats_players]])
  have s9: "keeps w w9" unfolding w9_def by (rule same [OF s8 ApplyMassRules_same])
  have s10: "keeps w w10" unfolding w10_def by (rule keeps_trans [OF s9 ApplyForcedSplits_keeps])
  have s11: "keeps w w11" unfolding w11_def by (rule keeps_trans [OF s10 ResolveMerges_keeps])
  have s12: "keeps w w12" unfolding w12_def by (rule same [OF s11 UpdatePowerups_same])
  have "ShroomWorldStep lm w dt = finish_step won dt w12"
    unfolding ShroomWorldStep_def Let_def True now_def [symmetric] grid_def [symmetric] w1_def [symmetric] w2_def [symmetric]
      w3_def [symmetric] w4_def [symmetric] w5_def [symmetric] w6_def [symmetric] 7 prod.case w8_def [symmetric] w9_def [symmetric]
      w10_def [symmetric] w11_def [symmetric] w12_def [symmetric]
    by simp
  then show ?thesis using same [OF s12 same_players [OF finish_step_players]] by simp
next
  case False
  have "ws_players (intermission_step w dt) = ws_players w" by (simp add: intermission_step_def Let_def)
  with False show ?thesis by (simp add: ShroomWorldStep_def same_slots_keeps same_players)
qed

section \<open>A new match\<close>

lemma reset_player_keeps:
  assumes "i < length (ws_players w)"
  shows "keeps w (reset_player lm i w)"
proof -
  obtain c w1 where 1: "ShroomRandomSpawnPosition lm w True = (c, w1)" by fastforce
  have w1: "ws_players w1 = ws_players w" using reseeded_players [OF spawn_position_reseeds [of w lm True]] by (simp add: 1)
  define seen where "seen = list_ex (\<lambda>p. pl_alive p \<and> pl_player_id p = pl_player_id (player_at w i) \<and> pl_piece_index p = 0)
    (take i (ws_players w))"
  consider "\<not> pl_alive (player_at w i)" | "pl_alive (player_at w i)" "pl_piece_index (player_at w i) \<noteq> 0 \<or> seen"
    | "pl_alive (player_at w i)" "pl_piece_index (player_at w i) = 0" "\<not> seen" by blast
  then show ?thesis
  proof cases
    case 2
    have "no_primary (player_at w i)" if t: "tidy w"
    proof (rule ccontr)
      assume "\<not> no_primary (player_at w i)"
      then have p: "pl_alive (player_at w i)" "pl_piece_index (player_at w i) = 0" "pl_player_id (player_at w i) \<noteq> 0"
        by (simp_all add: no_primary_def)
      with 2 obtain j where j: "j < i" "pl_alive (player_at w j)" "pl_player_id (player_at w j) = pl_player_id (player_at w i)"
          "pl_piece_index (player_at w j) = 0"
        using assms by (auto simp: seen_def list_ex_iff in_set_conv_nth)
      then have "primary_key w j = Some (pl_player_id (player_at w i), pl_is_bot (player_at w j))"
        "primary_key w i = Some (pl_player_id (player_at w i), pl_is_bot (player_at w i))"
        using p assms by (simp_all add: primary_key_def)
      then have "j = i" using t unfolding tidy_def by blast
      then show False using j(1) by simp
    qed
    then have "keeps w (upd_player w i (\<lambda>_. empty_player))"
      by (intro keeps_slot [of _ _ i empty_player]) (simp_all add: upd_player_def)
    moreover have "reset_player lm i w = upd_player w i (\<lambda>_. empty_player)"
      using 2 by (auto simp: reset_player_def Let_def seen_def)
    ultimately show ?thesis by simp
  next
    case 3
    have "same_slots w (reset_player lm i w)"
      unfolding reset_player_def Let_def 1 prod.case
      using 3 by (simp add: seen_def)
        (rule same_slots_trans [OF same_players [OF w1] upd_player_same], simp add: slot_key_def w1)
    then show ?thesis by (rule same_slots_keeps)
  qed (simp add: reset_player_def)
qed

lemma ResetMatch_keeps: "keeps w (ShroomWorldResetMatch lm w)"
proof -
  define w1 where "w1 = fold (reset_player lm) [0..<length (ws_players w)] w"
  have "keeps w w1" unfolding w1_def by (rule keeps_fold_index) (simp_all add: reset_player_keeps)
  moreover have "ws_players (ShroomWorldResetMatch lm w) = ws_players w1"
    unfolding ShroomWorldResetMatch_def Let_def w1_def [symmetric] by (simp add: clear_objective_def clear_podium_def)
  ultimately show ?thesis by (blast intro: keeps_trans same_slots_keeps same_players)
qed

section \<open>Newcomers and leavers\<close>

text \<open>The live primary piece of a person, and a world whose player ids were all given out before \<open>n\<close>.\<close>

definition human :: "ShroomWorldState \<Rightarrow> nat \<Rightarrow> u32 \<Rightarrow> bool" where
  "human w j v \<longleftrightarrow> primary_key w j = Some (v, False)"

definition world_good :: "nat \<Rightarrow> ShroomWorldState \<Rightarrow> bool" where
  "world_good n w \<longleftrightarrow> world_ok w \<and> tidy w \<and> (\<forall>k\<in>player_ids w. unat k < n)"

text \<open>A change of the world that keeps the pieces of all people, the player \<open>k\<close> apart.\<close>

definition world_step :: "u32 \<Rightarrow> nat \<Rightarrow> nat \<Rightarrow> ShroomWorldState \<Rightarrow> ShroomWorldState \<Rightarrow> bool" where
  "world_step k n n' w w' \<longleftrightarrow>
     (world_good n w \<longrightarrow> world_good n' w' \<and> (\<forall>j v. human w j v \<longrightarrow> v \<noteq> k \<longrightarrow> human w' j v))"

lemma human_iff:
  "human w j v \<longleftrightarrow> j < length (ws_players w) \<and> pl_alive (player_at w j) \<and> pl_piece_index (player_at w j) = 0 \<and>
     pl_player_id (player_at w j) = v \<and> v \<noteq> 0 \<and> \<not> pl_is_bot (player_at w j)"
  by (auto simp: human_def primary_key_def)

lemma world_step_refl [simp]: "world_step k n n w w"
  by (simp add: world_step_def)

lemma world_step_more: "n \<le> n' \<Longrightarrow> world_step k n n' w w"
  by (auto simp: world_step_def world_good_def)

lemma world_step_trans: "world_step k n n' w w' \<Longrightarrow> world_step k n' n'' w' w'' \<Longrightarrow> world_step k n n'' w w''"
  by (auto simp: world_step_def)

lemma keeps_world_step: "keeps w w' \<Longrightarrow> (world_ok w \<Longrightarrow> world_ok w') \<Longrightarrow> world_step k n n w w'"
  by (auto simp: world_step_def world_good_def keeps_def human_def)

lemma world_step_no_one: "world_step 0 n n' w w' \<Longrightarrow> world_step k n n' w w'"
  by (auto simp: world_step_def human_iff)

lemma tidy_unique:
  "tidy w \<Longrightarrow> primary_key w i = Some (k, b) \<Longrightarrow> primary_key w j = Some (k, c) \<Longrightarrow> i = j"
  unfolding tidy_def by blast

text \<open>Slots that become empty take away exactly what was in them.\<close>

lemma clear_players_keys:
  assumes "tidy w" and "ws_players w' = map (\<lambda>p. if pl_player_id p = k then empty_player else p) (ws_players w)" and "k \<noteq> 0"
  shows "tidy w'" and "player_ids w' \<subseteq> player_ids w"
    and "primary_key w' = (\<lambda>i. case primary_key w i of Some (v, b) \<Rightarrow> if v = k then None else Some (v, b) | None \<Rightarrow> None)"
proof -
  show keys: "primary_key w' = (\<lambda>i. case primary_key w i of Some (v, b) \<Rightarrow> if v = k then None else Some (v, b) | None \<Rightarrow> None)"
  proof
    fix i
    show "primary_key w' i = (case primary_key w i of Some (v, b) \<Rightarrow> if v = k then None else Some (v, b) | None \<Rightarrow> None)"
      by (cases "i < length (ws_players w)") (use assms(3) in \<open>auto simp: primary_key_def assms(2) empty_player_def\<close>)
  qed
  show "player_ids w' \<subseteq> player_ids w" by (auto simp: player_ids_def assms(2) empty_player_def)
  have "i = j" if "primary_key w' i = Some (v, b)" "primary_key w' j = Some (v, c)" for i j v b c
    using that tidy_unique [OF assms(1), of i v b j c] by (auto simp: keys split: option.splits if_splits)
  moreover have "\<forall>p\<in>set (ws_players w'). pl_alive p \<or> pl_player_id p = 0"
    using assms(1) by (auto simp: assms(2) tidy_def)
  ultimately show "tidy w'" unfolding tidy_def by blast
qed

lemma drop_empty_tail_append:
  obtains qs where "ps = drop_empty_tail ps @ qs" and "\<forall>q\<in>set qs. pl_player_id q = 0"
proof
  let ?P = "\<lambda>p. pl_player_id p = 0"
  show "ps = drop_empty_tail ps @ rev (takeWhile ?P (rev ps))"
    unfolding drop_empty_tail_def rev_append [symmetric] by simp
  show "\<forall>q\<in>set (rev (takeWhile ?P (rev ps))). pl_player_id q = 0" by (auto dest: set_takeWhileD)
qed

lemma drop_tail_keys:
  assumes "tidy w" and "ws_players w' = drop_empty_tail (ws_players w)"
  shows "tidy w'" and "player_ids w' \<subseteq> player_ids w" and "primary_key w' = primary_key w"
proof -
  obtain qs where qs: "ws_players w = ws_players w' @ qs" "\<forall>q\<in>set qs. pl_player_id q = 0"
    using drop_empty_tail_append [of "ws_players w"] assms(2) by metis
  show keys: "primary_key w' = primary_key w"
    using qs(2) by (auto simp: primary_key_def qs(1) nth_append fun_eq_iff all_set_conv_all_nth)
  show "player_ids w' \<subseteq> player_ids w" by (auto simp: player_ids_def qs(1))
  have "\<forall>p\<in>set (ws_players w'). pl_alive p \<or> pl_player_id p = 0" using assms(1) by (simp add: tidy_def qs(1))
  then show "tidy w'" using assms(1) unfolding tidy_def keys by blast
qed

lemma RemovePlayer_players:
  assumes "k \<noteq> 0"
  shows "ws_players (snd (ShroomWorldRemovePlayer w k)) = drop_empty_tail (map (\<lambda>p. if pl_player_id p = k then empty_player else p) (ws_players w))
    \<or> snd (ShroomWorldRemovePlayer w k) = w"
  using assms by (simp add: ShroomWorldRemovePlayer_def Let_def split: option.split)

lemma RemovePlayer_step: "world_step k n n w (snd (ShroomWorldRemovePlayer w k))"
proof (cases "k = 0")
  case False
  define w1 where "w1 = w\<lparr>ws_players := map (\<lambda>p. if pl_player_id p = k then empty_player else p) (ws_players w)\<rparr>"
  let ?w = "snd (ShroomWorldRemovePlayer w k)"
  consider "ws_players ?w = drop_empty_tail (ws_players w1)" | "?w = w"
    using RemovePlayer_players [OF False] by (auto simp: w1_def)
  then show ?thesis
  proof cases
    case 1
    show ?thesis
      unfolding world_step_def world_good_def
    proof (intro impI conjI)
      assume w: "world_ok w \<and> tidy w \<and> (\<forall>k\<in>player_ids w. unat k < n)"
      then show "world_ok ?w" using RemovePlayer_ok by blast
      have k1: "tidy w1" "player_ids w1 \<subseteq> player_ids w"
        "primary_key w1 = (\<lambda>i. case primary_key w i of Some (v, b) \<Rightarrow> if v = k then None else Some (v, b) | None \<Rightarrow> None)"
        using clear_players_keys [of w w1 k] w False by (simp_all add: w1_def)
      note k2 = drop_tail_keys [OF k1(1) 1]
      show "tidy ?w" by (rule k2(1))
      show "\<forall>k\<in>player_ids ?w. unat k < n" using w k1(2) k2(2) by blast
      show "\<forall>j v. human w j v \<longrightarrow> v \<noteq> k \<longrightarrow> human ?w j v" by (simp add: human_def k1(3) k2(3))
    qed
  qed simp
qed (simp add: ShroomWorldRemovePlayer_def)

text \<open>A spawn with a fresh player id adds one primary piece.\<close>

lemma SpawnPlayer_keys:
  assumes "ShroomWorldSpawnPlayer lm w k b = (Some i, w')" and "tidy w" and "k \<notin> player_ids w"
  shows "tidy w'" and "primary_key w' = (primary_key w)(i \<mapsto> (k, b))" and "player_ids w' \<subseteq> insert k (player_ids w)"
    and "primary_key w i = None"
proof -
  from SpawnPlayer_players [OF assms(1)] obtain ps p where p: "ws_players w' = ps[i := p]"
    "ps = ws_players w \<or> ps = ws_players w @ [empty_player]" "i < length ps" "\<not> pl_alive (ps ! i)"
    "pl_player_id p = k" "pl_alive p" "pl_is_bot p = b" "pl_piece_index p = 0" "k \<noteq> 0" .
  define w1 where "w1 = w\<lparr>ws_players := ps\<rparr>"
  have "keeps w w1" using p(2) keeps_append [of w] by (auto simp: w1_def)
  then have w1: "tidy w1" "primary_key w1 = primary_key w" "player_ids w1 \<subseteq> player_ids w" using assms(2) by (simp_all add: keeps_def)
  have none: "primary_key w1 i = None" using p(4) by (simp add: primary_key_def w1_def)
  show keys: "primary_key w' = (primary_key w)(i \<mapsto> (k, b))"
    using p(3-) by (auto simp: w1(2) [symmetric] primary_key_def p(1) w1_def fun_eq_iff)
  show "primary_key w i = None" using none w1(2) by simp
  have sub: "set (ws_players w') \<subseteq> insert p (set ps)" by (simp add: p(1) set_update_subset_insert)
  then show "player_ids w' \<subseteq> insert k (player_ids w)" using w1(3) p(5) by (auto simp: player_ids_def w1_def)
  have fresh: "fst v \<noteq> k" if "primary_key w j = Some v" for j v
    using that assms(3) by (auto simp: primary_key_def player_ids_def split: if_splits)
  have "\<forall>p\<in>set (ws_players w'). pl_alive p \<or> pl_player_id p = 0" using sub w1(1) p(6) by (auto simp: tidy_def w1_def)
  moreover have "a = c" if "primary_key w' a = Some (v, x)" "primary_key w' c = Some (v, y)" for a c v x y
    using that fresh [of a "(v, x)"] fresh [of c "(v, y)"] tidy_unique [OF assms(2), of a v x c y]
    by (auto simp: keys split: if_splits)
  ultimately show "tidy w'" unfolding tidy_def by blast
qed

lemma SpawnPlayer_refused: "ShroomWorldSpawnPlayer lm w k b = (None, w') \<Longrightarrow> w' = w"
  by (auto simp: ShroomWorldSpawnPlayer_def Let_def split: prod.splits if_splits)

lemma SpawnPlayer_step:
  assumes "ShroomWorldSpawnPlayer lm w k b = (r, w')" and "libm_ok lm" and "n \<le> unat k" and "unat k < n'"
  shows "world_step 0 n n' w w'" and "world_good n w \<Longrightarrow> r = Some i \<Longrightarrow> b = False \<Longrightarrow> human w' i k"
proof -
  have some: "world_good n' w' \<and> (\<forall>j v. human w j v \<longrightarrow> human w' j v) \<and> (b = False \<longrightarrow> human w' i k)"
    if w: "world_good n w" and r: "r = Some i" for i
  proof -
    have k: "k \<notin> player_ids w" using w assms(3) by (auto simp: world_good_def)
    note keys = SpawnPlayer_keys [OF assms(1) [unfolded r] _ k]
    have "world_ok w'" using SpawnPlayer_sound [OF assms(2), of w k b] w by (auto simp: sound_step_def world_good_def assms(1))
    moreover have "tidy w" using w by (simp add: world_good_def)
    moreover have "\<forall>x\<in>player_ids w'. unat x < n'" using keys(3) [OF \<open>tidy w\<close>] w assms(3,4) by (fastforce simp: world_good_def)
    ultimately show ?thesis using keys(1,2,4) by (auto simp: world_good_def human_def)
  qed
  moreover have "world_step 0 n n' w w'" if "r = None"
    using SpawnPlayer_refused [of lm w k b w'] assms that by (simp add: world_step_more)
  ultimately show "world_step 0 n n' w w'" by (cases r) (auto simp: world_step_def)
  show "world_good n w \<Longrightarrow> r = Some i \<Longrightarrow> b = False \<Longrightarrow> human w' i k"
    using some by blast
qed

end
