(* ===== verification/Server_Invariant.thy ===== *)
theory Server_Invariant
  imports Server_Tick Server_Input_Sound Sim_Sessions
begin

text \<open>
  The invariant of the game server: the pointer of a session leads to the live primary piece of its
  own player in the world of its lobby, and all worlds that run are sound.  Most handlers are quiet:
  they leave all that the invariant speaks of alone.
\<close>

section \<open>The invariant\<close>

definition session_key :: "ServerSession \<Rightarrow> bool \<times> bool \<times> bool \<times> u32 \<times> u32 \<times> nat option" where
  "session_key s = (se_active s, se_handshake_received s, se_spectating s, se_lobby_id s, se_player_id s, se_player s)"

definition peer_key :: "server_peer \<Rightarrow> bool \<times> bool \<times> bool \<times> bool \<times> u32 \<times> u32 \<times> nat option" where
  "peer_key p = (pe_attached p, session_key (pe_session p))"

definition lobby_key :: "ShroomLobby \<Rightarrow> bool \<times> u32" where
  "lobby_key l = (lb_active l, lb_lobby_id l)"

abbreviation ids_used :: "server \<Rightarrow> nat" where
  "ids_used sv \<equiv> unat (sv_next_player_id sv)"

definition lobbies_ok :: "server \<Rightarrow> bool" where
  "lobbies_ok sv \<longleftrightarrow> length (sv_lobbies sv) = SHROOM_MAX_LOBBIES \<and> sv_next_lobby_id sv \<noteq> 0 \<and>
     (\<forall>l<SHROOM_MAX_LOBBIES. lb_active (lobby_at sv l) \<longrightarrow>
        lb_lobby_id (lobby_at sv l) \<noteq> 0 \<and> lb_lobby_id (lobby_at sv l) < sv_next_lobby_id sv \<and>
        world_good (ids_used sv) (lb_world (lobby_at sv l))) \<and>
     (\<forall>l<SHROOM_MAX_LOBBIES. \<forall>m<SHROOM_MAX_LOBBIES. lb_active (lobby_at sv l) \<longrightarrow> lb_active (lobby_at sv m) \<longrightarrow>
        lb_lobby_id (lobby_at sv l) = lb_lobby_id (lobby_at sv m) \<longrightarrow> l = m)"

text \<open>A session is in a lobby only if it is active; then the lobby runs and the player is in its world.\<close>

definition session_ok :: "server \<Rightarrow> server_peer \<Rightarrow> bool" where
  "session_ok sv p \<longleftrightarrow>
     (let s = pe_session p
      in (se_handshake_received s \<longleftrightarrow> se_active s) \<and> (se_active s \<longrightarrow> pe_attached p) \<and>
         unat (se_player_id s) < ids_used sv \<and>
         (se_lobby_id s = 0 \<longrightarrow> se_player s = None) \<and>
         (se_lobby_id s \<noteq> 0 \<longrightarrow> se_active s \<and>
           (\<exists>l<SHROOM_MAX_LOBBIES. lb_active (lobby_at sv l) \<and> lb_lobby_id (lobby_at sv l) = se_lobby_id s \<and>
             (\<forall>k. se_player s = Some k \<longrightarrow> \<not> se_spectating s \<and> human (lb_world (lobby_at sv l)) k (se_player_id s)))))"

definition server_ok :: "server \<Rightarrow> bool" where
  "server_ok sv \<longleftrightarrow> lobbies_ok sv \<and> length (sv_peers sv) = SHROOM_SERVER_MAX_CLIENTS \<and>
     (\<forall>i<SHROOM_SERVER_MAX_CLIENTS. session_ok sv (peer_at sv i)) \<and>
     (\<forall>i<SHROOM_SERVER_MAX_CLIENTS. \<forall>j<SHROOM_SERVER_MAX_CLIENTS. i \<noteq> j \<longrightarrow>
        se_player_id (session_at sv i) = se_player_id (session_at sv j) \<longrightarrow> se_player_id (session_at sv i) = 0)"

lemma server_okD:
  assumes "server_ok sv"
  shows "lobbies_ok sv" and "length (sv_peers sv) = SHROOM_SERVER_MAX_CLIENTS" and "length (sv_lobbies sv) = SHROOM_MAX_LOBBIES"
    and "i < SHROOM_SERVER_MAX_CLIENTS \<Longrightarrow> session_ok sv (peer_at sv i)"
  using assms by (auto simp: server_ok_def lobbies_ok_def)

text \<open>The lobby of a session is the one its id finds.\<close>

lemma find_lobby:
  assumes "lobbies_ok sv" and "l < SHROOM_MAX_LOBBIES" and "lb_active (lobby_at sv l)"
  shows "FindLobbyById (sv_lobbies sv) (lb_lobby_id (lobby_at sv l)) = Some l"
proof -
  let ?P = "\<lambda>m. lb_active m \<and> lb_lobby_id m = lb_lobby_id (lobby_at sv l)"
  have len: "length (sv_lobbies sv) = SHROOM_MAX_LOBBIES" using assms(1) by (simp add: lobbies_ok_def)
  have "lobby_at sv l \<in> set (sv_lobbies sv)" using assms(2) len by simp
  then obtain m where m: "find_index ?P (sv_lobbies sv) = Some m"
    using assms(3) by (cases "find_index ?P (sv_lobbies sv)") auto
  then have "m < length (sv_lobbies sv)" "?P (lobby_at sv m)" using find_index_less find_index_holds by fastforce+
  then have "m = l" using assms len unfolding lobbies_ok_def by (metis (no_types, lifting))
  moreover have "lb_lobby_id (lobby_at sv l) \<noteq> 0" using assms by (auto simp: lobbies_ok_def)
  ultimately show ?thesis using m by (simp add: FindLobbyById_def)
qed

lemma find_lobbyD:
  assumes "FindLobbyById (sv_lobbies sv) x = Some l" and "length (sv_lobbies sv) = SHROOM_MAX_LOBBIES"
  shows "l < SHROOM_MAX_LOBBIES" and "lb_active (lobby_at sv l)" and "lb_lobby_id (lobby_at sv l) = x" and "x \<noteq> 0"
  using assms find_index_less [of _ "sv_lobbies sv" l] find_index_holds [of _ "sv_lobbies sv" l]
  by (auto simp: FindLobbyById_def split: if_splits)

text \<open>The player of a session, as the handlers look it up.\<close>

lemma session_player:
  assumes "server_ok sv" and "i < SHROOM_SERVER_MAX_CLIENTS" and "se_player (session_at sv i) = Some k"
    and "FindLobbyById (sv_lobbies sv) (se_lobby_id (session_at sv i)) = Some l"
  shows "human (lb_world (lobby_at sv l)) k (se_player_id (session_at sv i))"
proof -
  have "session_ok sv (peer_at sv i)" using assms by (simp add: server_ok_def)
  then obtain m where m: "m < SHROOM_MAX_LOBBIES" "lb_active (lobby_at sv m)" "lb_lobby_id (lobby_at sv m) = se_lobby_id (session_at sv i)"
    "human (lb_world (lobby_at sv m)) k (se_player_id (session_at sv i))"
    using assms(3) by (auto simp: session_ok_def Let_def)
  from find_lobby [OF server_okD(1) [OF assms(1)] m(1,2)] have "m = l" using assms(4) m(3) by simp
  with m(4) show ?thesis by simp
qed

section \<open>Steps that keep the invariant\<close>

text \<open>A session that did not change stays right if its lobby and its player are still there.\<close>

lemma session_ok_kept:
  assumes s: "session_ok sv p" and key: "peer_key p' = peer_key p" and more: "ids_used sv \<le> ids_used sv'"
    and own: "se_player_id (pe_session p) \<noteq> k \<or> se_player_id (pe_session p) = 0"
    and kept: "\<And>l. l < SHROOM_MAX_LOBBIES \<Longrightarrow> lb_active (lobby_at sv l) \<Longrightarrow>
      se_lobby_id (pe_session p) = lb_lobby_id (lobby_at sv l) \<Longrightarrow>
      lobby_key (lobby_at sv' l) = lobby_key (lobby_at sv l) \<and>
      (\<forall>q v. human (lb_world (lobby_at sv l)) q v \<longrightarrow> v \<noteq> k \<longrightarrow> human (lb_world (lobby_at sv' l)) q v)"
  shows "session_ok sv' p'"
proof -
  note keys = key [unfolded peer_key_def session_key_def prod.inject]
  show ?thesis
  proof (cases "se_lobby_id (pe_session p) = 0")
    case True
    with s more keys show ?thesis by (simp add: session_ok_def Let_def)
  next
    case False
    with s obtain l where l: "l < SHROOM_MAX_LOBBIES" "lb_active (lobby_at sv l)"
      "lb_lobby_id (lobby_at sv l) = se_lobby_id (pe_session p)"
      "\<And>q. se_player (pe_session p) = Some q \<Longrightarrow> \<not> se_spectating (pe_session p) \<and>
        human (lb_world (lobby_at sv l)) q (se_player_id (pe_session p))"
      by (auto simp: session_ok_def Let_def)
    note same = kept [OF l(1,2) l(3) [symmetric]]
    have "\<not> se_spectating (pe_session p') \<and> human (lb_world (lobby_at sv' l)) q (se_player_id (pe_session p'))"
      if "se_player (pe_session p') = Some q" for q
      using l(4) [of q] that same own keys by (auto simp: human_iff)
    moreover have "lb_active (lobby_at sv' l)" "lb_lobby_id (lobby_at sv' l) = se_lobby_id (pe_session p')"
      using same l(2,3) keys by (simp_all add: lobby_key_def)
    ultimately show ?thesis using s False l(1) more keys by (auto simp: session_ok_def Let_def)
  qed
qed

text \<open>A step in which one session changes, and at most that session's player leaves its world.\<close>

lemma server_ok_step:
  assumes ok: "server_ok sv" and i: "i < SHROOM_SERVER_MAX_CLIENTS"
    and k: "k = 0 \<or> k = se_player_id (session_at sv i)"
    and lobbies: "lobbies_ok sv'" and more: "ids_used sv \<le> ids_used sv'"
    and kept: "\<And>l j. l < SHROOM_MAX_LOBBIES \<Longrightarrow> lb_active (lobby_at sv l) \<Longrightarrow> j < SHROOM_SERVER_MAX_CLIENTS \<Longrightarrow> j \<noteq> i \<Longrightarrow>
      se_lobby_id (session_at sv j) = lb_lobby_id (lobby_at sv l) \<Longrightarrow>
      lobby_key (lobby_at sv' l) = lobby_key (lobby_at sv l) \<and>
      (\<forall>p v. human (lb_world (lobby_at sv l)) p v \<longrightarrow> v \<noteq> k \<longrightarrow> human (lb_world (lobby_at sv' l)) p v)"
    and len: "length (sv_peers sv') = SHROOM_SERVER_MAX_CLIENTS"
    and others: "\<And>j. j < SHROOM_SERVER_MAX_CLIENTS \<Longrightarrow> j \<noteq> i \<Longrightarrow> peer_key (peer_at sv' j) = peer_key (peer_at sv j)"
    and changed: "session_ok sv' (peer_at sv' i)"
    and id: "se_player_id (session_at sv' i) = 0 \<or> se_player_id (session_at sv' i) = se_player_id (session_at sv i) \<or>
      ids_used sv \<le> unat (se_player_id (session_at sv' i))"
  shows "server_ok sv'"
proof -
  have own: "se_player_id (session_at sv j) \<noteq> k \<or> se_player_id (session_at sv j) = 0"
    if "j < SHROOM_SERVER_MAX_CLIENTS" "j \<noteq> i" for j
    using ok that i k by (auto simp: server_ok_def)
  have "session_ok sv' (peer_at sv' j)" if j: "j < SHROOM_SERVER_MAX_CLIENTS" "j \<noteq> i" for j
  proof (rule session_ok_kept [OF _ others [OF j] more own [OF j] kept [OF _ _ j]])
    show "session_ok sv (peer_at sv j)" using ok j(1) by (simp add: server_ok_def)
  qed
  with changed have sessions: "\<forall>j<SHROOM_SERVER_MAX_CLIENTS. session_ok sv' (peer_at sv' j)" by metis
  have same: "se_player_id (session_at sv' j) = se_player_id (session_at sv j)" if "j < SHROOM_SERVER_MAX_CLIENTS" "j \<noteq> i" for j
    using others [OF that] by (simp add: peer_key_def session_key_def)
  have old: "unat (se_player_id (session_at sv j)) < ids_used sv" if "j < SHROOM_SERVER_MAX_CLIENTS" for j
    using ok that by (simp add: server_ok_def session_ok_def Let_def)
  have "se_player_id (session_at sv' a) = 0"
    if "a < SHROOM_SERVER_MAX_CLIENTS" "b < SHROOM_SERVER_MAX_CLIENTS" "a \<noteq> b"
      "se_player_id (session_at sv' a) = se_player_id (session_at sv' b)" for a b
  proof -
    have apart: "se_player_id (session_at sv c) = se_player_id (session_at sv d) \<Longrightarrow> se_player_id (session_at sv c) = 0"
      if "c < SHROOM_SERVER_MAX_CLIENTS" "d < SHROOM_SERVER_MAX_CLIENTS" "c \<noteq> d" for c d
      using ok that by (simp add: server_ok_def)
    have "a \<noteq> b" by (rule that(3))
    then consider "a \<noteq> i" "b \<noteq> i" | "a = i" "b \<noteq> i" | "a \<noteq> i" "b = i" by blast
    then show ?thesis
    proof cases
      case 1
      with that same apart show ?thesis by metis
    next
      case 2
      then show ?thesis using id that same [of b] apart [of i b] old [of b] by fastforce
    next
      case 3
      then show ?thesis using id that same [of a] apart [of i a] old [of a] by fastforce
    qed
  qed
  with sessions lobbies len show ?thesis unfolding server_ok_def by blast
qed

section \<open>Quiet steps\<close>

text \<open>Steps that leave the keys of all sessions and lobbies alone and keep the people in the worlds.\<close>

definition lobby_quiet :: "nat \<Rightarrow> ShroomLobby \<Rightarrow> ShroomLobby \<Rightarrow> bool" where
  "lobby_quiet n l l' \<longleftrightarrow> lobby_key l' = lobby_key l \<and> world_step 0 n n (lb_world l) (lb_world l')"

definition server_quiet :: "server \<Rightarrow> server \<Rightarrow> bool" where
  "server_quiet sv sv' \<longleftrightarrow> map peer_key (sv_peers sv') = map peer_key (sv_peers sv) \<and>
     list_all2 (lobby_quiet (ids_used sv)) (sv_lobbies sv) (sv_lobbies sv') \<and>
     sv_next_player_id sv' = sv_next_player_id sv \<and> sv_next_lobby_id sv' = sv_next_lobby_id sv"

lemma lobby_quiet_refl [simp]: "lobby_quiet n l l"
  by (simp add: lobby_quiet_def)

lemma server_quiet_refl [simp]: "server_quiet sv sv"
  by (simp add: server_quiet_def list_all2_same)

lemma server_quiet_trans [trans]:
  assumes "server_quiet a b" and "server_quiet b c"
  shows "server_quiet a c"
proof -
  have "list_all2 (lobby_quiet (ids_used a)) (sv_lobbies a) (sv_lobbies c)"
    by (rule list_all2_trans [of "lobby_quiet (ids_used a)" "lobby_quiet (ids_used a)" _ _ "sv_lobbies b"])
      (use assms in \<open>auto simp: server_quiet_def lobby_quiet_def intro: world_step_trans\<close>)
  with assms show ?thesis by (simp add: server_quiet_def)
qed

lemma quiet_rest:
  "sv_peers sv' = sv_peers sv \<Longrightarrow> sv_lobbies sv' = sv_lobbies sv \<Longrightarrow> sv_next_player_id sv' = sv_next_player_id sv \<Longrightarrow>
   sv_next_lobby_id sv' = sv_next_lobby_id sv \<Longrightarrow> server_quiet sv sv'"
  by (simp add: server_quiet_def list_all2_same)

lemma quiet_session: "session_key (f (session_at sv i)) = session_key (session_at sv i) \<Longrightarrow> server_quiet sv (upd_session sv i f)"
  by (cases "i < length (sv_peers sv)")
    (auto simp: server_quiet_def upd_session_def list_all2_same map_update peer_key_def list_update_same_conv list_update_beyond)

lemma quiet_lobby:
  assumes "lobby_quiet (ids_used sv) (lobby_at sv l) (f (lobby_at sv l))"
  shows "server_quiet sv (upd_lobby sv l f)"
proof -
  have "list_all2 (lobby_quiet (ids_used sv)) (sv_lobbies sv) ((sv_lobbies sv)[l := f (lobby_at sv l)])"
  proof (rule list_all2_all_nthI)
    fix m
    show "lobby_quiet (ids_used sv) (lobby_at sv m) ((sv_lobbies sv)[l := f (lobby_at sv l)] ! m)" if "m < length (sv_lobbies sv)"
      using assms that by (cases "m = l") simp_all
  qed simp
  then show ?thesis by (simp add: server_quiet_def upd_lobby_def)
qed

lemma quiet_fold: "(\<And>x sv. server_quiet sv (f x sv)) \<Longrightarrow> server_quiet sv (fold f xs sv)"
  by (induction xs arbitrary: sv) (auto intro: server_quiet_trans)

lemma quiet_find:
  assumes "server_quiet sv sv'"
  shows "FindLobbyById (sv_lobbies sv') x = FindLobbyById (sv_lobbies sv) x"
proof -
  have eq: "find_index (\<lambda>l. lb_active l \<and> lb_lobby_id l = x) b = find_index (\<lambda>l. lb_active l \<and> lb_lobby_id l = x) a"
    if "list_all2 (lobby_quiet n) a b" for a b :: "ShroomLobby list" and n
    using that by induction (simp_all add: lobby_quiet_def lobby_key_def)
  have "list_all2 (lobby_quiet (ids_used sv)) (sv_lobbies sv) (sv_lobbies sv')" using assms by (simp add: server_quiet_def)
  from eq [OF this] show ?thesis by (simp only: FindLobbyById_def)
qed

lemma quiet_at:
  assumes "server_quiet sv sv'"
  shows "length (sv_peers sv') = length (sv_peers sv)" and "length (sv_lobbies sv') = length (sv_lobbies sv)"
    and "i < length (sv_peers sv) \<Longrightarrow> peer_key (peer_at sv' i) = peer_key (peer_at sv i)"
    and "l < length (sv_lobbies sv) \<Longrightarrow> lobby_quiet (ids_used sv) (lobby_at sv l) (lobby_at sv' l)"
proof -
  show len: "length (sv_peers sv') = length (sv_peers sv)" "length (sv_lobbies sv') = length (sv_lobbies sv)"
    using assms by (auto simp: server_quiet_def dest: arg_cong [of _ _ length] list_all2_lengthD)
  show "i < length (sv_peers sv) \<Longrightarrow> peer_key (peer_at sv' i) = peer_key (peer_at sv i)"
    using assms len unfolding server_quiet_def by (metis nth_map)
  show "l < length (sv_lobbies sv) \<Longrightarrow> lobby_quiet (ids_used sv) (lobby_at sv l) (lobby_at sv' l)"
    using assms by (simp add: server_quiet_def list_all2_conv_all_nth)
qed

lemma lobbies_ok_quiet:
  assumes "lobbies_ok sv" and "length (sv_lobbies sv') = length (sv_lobbies sv)"
    and "\<And>l. l < SHROOM_MAX_LOBBIES \<Longrightarrow> lobby_key (lobby_at sv' l) = lobby_key (lobby_at sv l) \<and>
      (lb_active (lobby_at sv l) \<longrightarrow> world_good (ids_used sv) (lb_world (lobby_at sv l)) \<longrightarrow>
        world_good (ids_used sv') (lb_world (lobby_at sv' l)))"
    and "sv_next_lobby_id sv' = sv_next_lobby_id sv"
  shows "lobbies_ok sv'"
  using assms(1,2,4) assms(3) unfolding lobbies_ok_def lobby_key_def by auto

text \<open>A step in which no session changes.\<close>

lemma server_ok_lobbies:
  assumes ok: "server_ok sv" and peers: "map peer_key (sv_peers sv') = map peer_key (sv_peers sv)"
    and lobbies: "lobbies_ok sv'" and more: "ids_used sv \<le> ids_used sv'"
    and kept: "\<And>l j. l < SHROOM_MAX_LOBBIES \<Longrightarrow> lb_active (lobby_at sv l) \<Longrightarrow> j < SHROOM_SERVER_MAX_CLIENTS \<Longrightarrow>
      se_lobby_id (session_at sv j) = lb_lobby_id (lobby_at sv l) \<Longrightarrow>
      lobby_key (lobby_at sv' l) = lobby_key (lobby_at sv l) \<and>
      (\<forall>q v. human (lb_world (lobby_at sv l)) q v \<longrightarrow> v \<noteq> 0 \<longrightarrow> human (lb_world (lobby_at sv' l)) q v)"
  shows "server_ok sv'"
proof -
  note len = server_okD(2) [OF ok]
  have len': "length (sv_peers sv') = length (sv_peers sv)" using arg_cong [OF peers, of length] by simp
  have i: "0 < SHROOM_SERVER_MAX_CLIENTS" by (simp add: SHROOM_SERVER_MAX_CLIENTS_def)
  have key: "peer_key (peer_at sv' j) = peer_key (peer_at sv j)" if "j < SHROOM_SERVER_MAX_CLIENTS" for j
    using peers that len len' by (metis nth_map)
  have "session_ok sv' (peer_at sv' 0)"
    by (rule session_ok_kept [OF server_okD(4) [OF ok i] key [OF i] more, of 0]) (use kept i in auto)
  moreover have "se_player_id (session_at sv' 0) = se_player_id (session_at sv 0)"
    using key [OF i] by (simp add: peer_key_def session_key_def)
  ultimately show ?thesis
    by (intro server_ok_step [OF ok i, of 0]) (use lobbies more kept key len len' in auto)
qed

lemma server_ok_quiet:
  assumes "server_ok sv" and "server_quiet sv sv'"
  shows "server_ok sv'"
proof -
  note len = server_okD(2,3) [OF assms(1)] and at = quiet_at [OF assms(2)]
  have next': "sv_next_player_id sv' = sv_next_player_id sv" "sv_next_lobby_id sv' = sv_next_lobby_id sv"
    "map peer_key (sv_peers sv') = map peer_key (sv_peers sv)"
    using assms(2) by (simp_all add: server_quiet_def)
  have lobby: "lobby_quiet (ids_used sv) (lobby_at sv l) (lobby_at sv' l)" if "l < SHROOM_MAX_LOBBIES" for l
    using at(4) that len by simp
  have lobbies: "lobbies_ok sv'"
    by (rule lobbies_ok_quiet [OF server_okD(1) [OF assms(1)] at(2)])
      (use lobby in \<open>auto simp: lobby_quiet_def next' world_step_def\<close>)
  have kept: "lobby_key (lobby_at sv' l) = lobby_key (lobby_at sv l) \<and>
      (\<forall>q v. human (lb_world (lobby_at sv l)) q v \<longrightarrow> v \<noteq> 0 \<longrightarrow> human (lb_world (lobby_at sv' l)) q v)"
    if l: "l < SHROOM_MAX_LOBBIES" "lb_active (lobby_at sv l)" for l
    using lobby [OF l(1)] server_okD(1) [OF assms(1)] l by (auto simp: lobby_quiet_def world_step_def lobbies_ok_def)
  show ?thesis by (rule server_ok_lobbies [OF assms(1) next'(3) lobbies]) (use next' kept in auto)
qed

text \<open>A step in which only one session changes.\<close>

lemma session_ok_cong:
  "sv_lobbies sv' = sv_lobbies sv \<Longrightarrow> sv_next_player_id sv' = sv_next_player_id sv \<Longrightarrow> session_ok sv' p = session_ok sv p"
  by (simp add: session_ok_def)

lemma server_ok_session:
  assumes ok: "server_ok sv" and i: "i < SHROOM_SERVER_MAX_CLIENTS" and peers: "sv_peers sv' = (sv_peers sv)[i := p]"
    and same: "sv_lobbies sv' = sv_lobbies sv" "sv_next_player_id sv' = sv_next_player_id sv" "sv_next_lobby_id sv' = sv_next_lobby_id sv"
    and changed: "session_ok sv p" and id: "se_player_id (pe_session p) = 0 \<or> se_player_id (pe_session p) = se_player_id (session_at sv i)"
  shows "server_ok sv'"
proof (rule server_ok_step [OF ok i, of 0])
  show "lobbies_ok sv'" using server_okD(1) [OF ok] by (simp add: lobbies_ok_def same)
  show "session_ok sv' (peer_at sv' i)" using changed i server_okD(2) [OF ok] by (simp add: peers session_ok_cong [OF same(1,2)])
qed (use id i server_okD(2) [OF ok] in \<open>auto simp: peers same\<close>)

text \<open>A session whose player has left its world.\<close>

lemma leave_ok:
  assumes ok: "server_ok sv" and i: "i < SHROOM_SERVER_MAX_CLIENTS" and s': "se_player s' = None"
    "se_active s' = se_active (session_at sv i)" "se_handshake_received s' = se_handshake_received (session_at sv i)"
    "se_lobby_id s' = se_lobby_id (session_at sv i)" "se_player_id s' = se_player_id (session_at sv i)"
  shows "server_ok (upd_session (upd_lobby sv l (upd_world (\<lambda>w. snd (ShroomWorldRemovePlayer w (se_player_id (session_at sv i)))))) i (\<lambda>_. s'))"
    (is "server_ok ?sv")
proof -
  let ?k = "se_player_id (session_at sv i)"
  note lobbies = server_okD(1) [OF ok] and len = server_okD(2,3) [OF ok]
  have at: "lobby_at ?sv m = (if m = l then upd_world (\<lambda>w. snd (ShroomWorldRemovePlayer w ?k)) (lobby_at sv l) else lobby_at sv m)"
    if "m < SHROOM_MAX_LOBBIES" for m using that len by (simp add: upd_session_def upd_lobby_def nth_list_update)
  have fields: "ids_used ?sv = ids_used sv" "sv_next_lobby_id ?sv = sv_next_lobby_id sv"
    "length (sv_lobbies ?sv) = length (sv_lobbies sv)" "length (sv_peers ?sv) = length (sv_peers sv)"
    by (simp_all add: upd_session_def upd_lobby_def)
  have step: "world_step ?k n n (lb_world (lobby_at sv m)) (lb_world (lobby_at ?sv m))" "lobby_key (lobby_at ?sv m) = lobby_key (lobby_at sv m)"
    if "m < SHROOM_MAX_LOBBIES" for m n by (simp_all add: at [OF that] RemovePlayer_step lobby_key_def)
  have good: "world_good (ids_used sv) (lb_world (lobby_at sv m))" if "m < SHROOM_MAX_LOBBIES" "lb_active (lobby_at sv m)" for m
    using lobbies that by (simp add: lobbies_ok_def)
  have peer: "peer_at ?sv i = (peer_at sv i)\<lparr>pe_session := s'\<rparr>" "j \<noteq> i \<Longrightarrow> peer_at ?sv j = peer_at sv j" for j
    using i len by (simp_all add: upd_session_def upd_lobby_def)
  have before: "session_ok sv (peer_at sv i)" using ok i by (simp add: server_ok_def)
  show ?thesis
  proof (rule server_ok_step [OF ok i, of ?k])
    show "lobbies_ok ?sv"
      by (rule lobbies_ok_quiet [OF lobbies fields(3)]) (use step fields in \<open>auto simp: world_step_def\<close>)
    show "session_ok ?sv (peer_at ?sv i)"
    proof (cases "se_lobby_id (session_at sv i) = 0")
      case True
      with before s' show ?thesis by (simp add: session_ok_def Let_def peer fields)
    next
      case False
      with before obtain m where m: "m < SHROOM_MAX_LOBBIES" "lb_active (lobby_at sv m)"
        "lb_lobby_id (lobby_at sv m) = se_lobby_id (session_at sv i)" by (auto simp: session_ok_def Let_def)
      then have "lb_active (lobby_at ?sv m)" "lb_lobby_id (lobby_at ?sv m) = se_lobby_id (session_at sv i)"
        using step(2) [OF m(1)] by (simp_all add: lobby_key_def)
      with before s' m(1) False show ?thesis by (auto simp: session_ok_def Let_def peer fields)
    qed
  qed (use step good peer fields len s'(5) in \<open>auto simp: world_step_def\<close>)
qed

end
