(* ===== verification/Server_Quiet.thy ===== *)
theory Server_Quiet
  imports Server_Invariant
begin

text \<open>The handlers that leave the sessions in their lobbies and the players in their worlds.\<close>

section \<open>Inputs\<close>

lemma with_ai_same: "same_slots w (w\<lparr>ws_players := map (\<lambda>p. if P p then p\<lparr>pl_ai_controlled := b p\<rparr> else p) (ws_players w)\<rparr>)"
  by (rule map_keys_same) (simp add: slot_key_def)

lemma HandleInputPacket_keeps:
  assumes "\<And>i. se_player s = Some i \<Longrightarrow> i < length (ws_players w)"
  shows "keeps w (snd (HandleInputPacket s packet w))"
proof (cases "\<not> se_active s \<or> se_spectating s \<or> \<not> se_entered_match s \<or> se_player s = None")
  case False
  then obtain player where player: "se_player s = Some player" by auto
  define i where "i = target_piece (s\<lparr>se_last_processed_input_sequence := ip_sequence packet\<rparr>) player (ip_focused_entity_id packet) w"
  define aim where "aim = NormalizeInput \<lparr>v2_x = ip_split_direction_x packet, v2_y = ip_split_direction_y packet\<rparr>"
  define w1 where "w1 = upd_player w i (\<lambda>p. ShroomPlayerSetInput p (NormalizeInput \<lparr>v2_x = ip_direction_x packet, v2_y = ip_direction_y packet\<rparr>))"
  define w2 where "w2 = w1\<lparr>ws_players := map (\<lambda>p. if pl_alive p \<and> pl_player_id p = se_player_id s
    then p\<lparr>pl_ai_controlled := pl_is_bot p \<and> pl_entity_id p \<noteq> pl_entity_id (player_at w i)\<rparr> else p) (ws_players w1)\<rparr>"
  define w3 where "w3 = (if ip_split_requested packet \<noteq> 0 then snd (ShroomWorldSplitPlayerToward w2 i aim) else w2)"
  define w4 where "w4 = (if ip_eject_requested packet \<noteq> 0 then snd (ShroomWorldEjectMass w3 i aim) else w3)"
  have i: "i < length (ws_players w)" unfolding i_def by (rule target_piece_less [OF assms [OF player]])
  have "same_slots w w1" unfolding w1_def by (rule upd_player_same) (simp add: ShroomPlayerSetInput_def slot_key_def)
  then have "same_slots w w2" unfolding w2_def by (rule same_slots_trans [OF _ with_ai_same])
  then have s2: "keeps w w2" and i2: "i < length (ws_players w2)" using i same_slots_length by (auto intro: same_slots_keeps)
  have s3: "keeps w w3" unfolding w3_def using keeps_trans [OF s2 SplitPlayerToward_keeps [OF i2]] s2 by simp
  have "keeps w w4" unfolding w4_def using keeps_trans [OF s3 same_slots_keeps [OF EjectMass_same]] s3 by simp
  moreover have "snd (HandleInputPacket s packet w) = w4"
    using False player
    unfolding w4_def w3_def w2_def w1_def aim_def i_def by (simp add: HandleInputPacket_def Let_def)
  ultimately show ?thesis by simp
qed (auto simp: HandleInputPacket_def)

lemma HandleInputPacket_key: "session_key (fst (HandleInputPacket s packet w)) = session_key s"
  by (simp add: HandleInputPacket_def Let_def session_key_def split: option.split)

lemma ReceiveInput_keeps:
  assumes "\<And>i. se_player s = Some i \<Longrightarrow> i < length (ws_players w)"
  shows "keeps w (snd (snd (ReceiveInput s packet now w)))" and "session_key (fst (snd (ReceiveInput s packet now w))) = session_key s"
  using HandleInputPacket_keeps [of "s\<lparr>se_input_admission := _\<rparr>" w packet] assms
    HandleInputPacket_key [of "s\<lparr>se_input_admission := _\<rparr>" packet w]
  by (auto simp: ReceiveInput_def Let_def session_key_def split: prod.split)

lemma AdjustSessionAiControl_keeps:
  "keeps w (snd (AdjustSessionAiControl s w))" "session_key (fst (AdjustSessionAiControl s w)) = session_key s"
  using same_slots_keeps [OF with_ai_same [of w "\<lambda>p. pl_alive p \<and> pl_player_id p = se_player_id s" "\<lambda>_. False"]]
  by (simp_all add: AdjustSessionAiControl_def session_key_def)

section \<open>Small changes\<close>

lemma quiet_world:
  assumes "keeps (lb_world (lobby_at sv l)) (f (lb_world (lobby_at sv l)))"
    and "world_ok (lb_world (lobby_at sv l)) \<Longrightarrow> world_ok (f (lb_world (lobby_at sv l)))"
  shows "server_quiet sv (upd_lobby sv l (upd_world f))"
  by (rule quiet_lobby) (simp add: lobby_quiet_def lobby_key_def keeps_world_step assms)

lemma quiet_same_world:
  "lobby_key (f (lobby_at sv l)) = lobby_key (lobby_at sv l) \<Longrightarrow> lb_world (f (lobby_at sv l)) = lb_world (lobby_at sv l) \<Longrightarrow>
   server_quiet sv (upd_lobby sv l f)"
  by (rule quiet_lobby) (simp add: lobby_quiet_def)

lemma quiet_player_field:
  assumes "\<And>p. slot_key (g p) = slot_key p" and "\<And>p. player_ok p \<Longrightarrow> player_ok (g p)"
  shows "server_quiet sv (upd_lobby sv l (upd_world (\<lambda>w. upd_player w k g)))"
proof (rule quiet_world)
  let ?w = "lb_world (lobby_at sv l)"
  show "keeps ?w (upd_player ?w k g)" by (rule same_slots_keeps [OF upd_player_same]) (rule assms(1))
  show "world_ok ?w \<Longrightarrow> world_ok (upd_player ?w k g)" by (rule sound_step_ok [OF upd_player_sound]) (use assms(2) in auto)
qed

lemma quiet_roster: "server_quiet sv (fst (BroadcastLobbyRoster sv x))"
  by (simp add: BroadcastLobbyRoster_def Let_def quiet_rest)

lemma quiet_voice: "server_quiet sv (set_voice_peer sv i c x y)"
  by (rule quiet_rest) (simp_all add: set_voice_peer_def)

lemma quiet_withdraw: "server_quiet sv (fst (withdraw_voter sv l k))"
  by (auto simp: withdraw_voter_def Let_def intro: quiet_same_world simp: lobby_key_def split: prod.split option.split)

lemma quiet_message_id: "server_quiet sv (snd (NextChatMessageId env sv))"
  by (rule quiet_rest) (simp_all add: NextChatMessageId_def Let_def)

text \<open>Fixing the result of a step that gives a pair.\<close>

lemma quiet_pair: "f = (sv', x) \<Longrightarrow> server_quiet sv (fst f) \<Longrightarrow> server_quiet sv sv'"
  by simp

section \<open>Handlers\<close>

lemma quiet_auth: "server_quiet sv (fst (HandleAuthRequestPacket auth sv i m r))"
  by (auto simp: HandleAuthRequestPacket_def authenticate_def session_key_def intro: quiet_session split: prod.split)

lemma quiet_ready: "server_quiet sv (fst (HandleReadyStatePacket sv i k b))"
proof -
  have "server_quiet sv (upd_session sv i (\<lambda>s. s\<lparr>se_is_ready := b\<rparr>))" by (rule quiet_session) (simp add: session_key_def)
  from server_quiet_trans [OF this quiet_roster] show ?thesis by (simp add: HandleReadyStatePacket_def Let_def)
qed

lemma quiet_enter: "server_quiet sv (fst (HandleEnterMatchPacket sv i x))"
proof -
  define sv1 where "sv1 = upd_session sv i (\<lambda>s. s\<lparr>se_entered_match := True, se_focused_entity_id := 0\<rparr>)"
  define sv2 where "sv2 = (case (se_player (session_at sv i), FindLobbyById (sv_lobbies sv1) (se_lobby_id (session_at sv i))) of
      (Some p, Some l) \<Rightarrow> upd_lobby sv1 l (upd_world (\<lambda>world. upd_player world p (\<lambda>q.
        q\<lparr>pl_input_direction := zero_vec2, pl_spawn_protection_timer := SHROOM_PLAYER_SPAWN_PROTECTION_SECONDS\<rparr>)))
    | _ \<Rightarrow> sv1)"
  have 1: "server_quiet sv sv1" unfolding sv1_def by (rule quiet_session) (simp add: session_key_def)
  have "server_quiet sv1 (upd_lobby sv1 l (upd_world (\<lambda>world. upd_player world p (\<lambda>q.
        q\<lparr>pl_input_direction := zero_vec2, pl_spawn_protection_timer := SHROOM_PLAYER_SPAWN_PROTECTION_SECONDS\<rparr>))))" for l p
    by (rule quiet_player_field) (use unit_zero in \<open>simp_all add: slot_key_def player_ok_def\<close>)
  then have "server_quiet sv sv2" unfolding sv2_def using 1 by (auto intro: server_quiet_trans split: option.split)
  moreover have "se_player (session_at sv1 i) = se_player (session_at sv i)" "se_lobby_id (session_at sv1 i) = se_lobby_id (session_at sv i)"
    by (cases "i < length (sv_peers sv)"; simp add: sv1_def upd_session_def list_update_beyond)+
  ultimately have "server_quiet sv (fst (BroadcastLobbyRoster sv2 x))" for x using server_quiet_trans [OF _ quiet_roster] by blast
  then show ?thesis unfolding HandleEnterMatchPacket_def Let_def sv1_def [symmetric] sv2_def [symmetric] by simp
qed

lemma quiet_chat: "server_quiet sv (fst (HandleChatPacket env sv i lobby valid message))"
proof -
  define sv1 where "sv1 = upd_session sv i (chat_window (en_now_ms env))"
  define sv2 where "sv2 = upd_session sv1 i (\<lambda>s. s\<lparr>se_chat_message_count := se_chat_message_count s + 1\<rparr>)"
  have 1: "server_quiet sv sv1" unfolding sv1_def by (rule quiet_session) (simp add: session_key_def chat_window_def)
  then have 2: "server_quiet sv sv2" unfolding sv2_def
    by (rule server_quiet_trans [OF _ quiet_session]) (simp add: session_key_def)
  obtain m sv3 where 3: "NextChatMessageId env sv2 = (m, sv3)" by fastforce
  have s3: "server_quiet sv sv3" using server_quiet_trans [OF 2 quiet_message_id [of sv2 env]] by (simp add: 3)
  have hist: "server_quiet sv (upd_lobby sv3 l (\<lambda>lobby. lobby\<lparr>lb_chat_history := h lobby\<rparr>))" for l h
    by (rule server_quiet_trans [OF s3 quiet_same_world]) (simp_all add: lobby_key_def)
  have logged: "server_quiet sv (upd_session (snd (NextChatMessageId env sv1)) i (\<lambda>s. s\<lparr>se_chat_rate_limit_logged := True\<rparr>))"
    by (rule server_quiet_trans [OF server_quiet_trans [OF 1 quiet_message_id] quiet_session]) (simp add: session_key_def)
  show ?thesis
    unfolding HandleChatPacket_def Let_def sv1_def [symmetric] sv2_def [symmetric]
    using 1 s3 hist logged server_quiet_trans [OF 2 quiet_message_id] quiet_message_id
    by (simp add: 3 split: prod.split bool.split)
qed

lemma quiet_voice_frame: "server_quiet sv (fst (HandleVoiceFramePacket env sv i frame size'))"
  by (auto simp: HandleVoiceFramePacket_def Let_def set_voice_peer_def intro!: quiet_rest split: prod.split)

lemma quiet_vote: "server_quiet sv (fst (DispatchRematchVote sv i r v))"
  by (auto simp: DispatchRematchVote_def Let_def lobby_key_def intro: quiet_same_world split: option.split prod.split)

lemma quiet_ack: "server_quiet sv (DispatchSnapshotAckPacket sv i b t)"
  by (simp add: DispatchSnapshotAckPacket_def quiet_session session_key_def)

lemma quiet_list: "server_quiet sv (fst (HandleLobbyListQuery sv i))"
  by (simp add: HandleLobbyListQuery_def)

lemma quiet_input:
  assumes "server_ok sv" and "i < SHROOM_SERVER_MAX_CLIENTS"
  shows "server_quiet sv (fst (DispatchInput env sv i packet))"
proof (cases "FindLobbyById (sv_lobbies sv) (se_lobby_id (session_at sv i))")
  case (Some l)
  let ?w = "lb_world (lobby_at sv l)"
  obtain outcome s w where r: "ReceiveInput (session_at sv i) packet (en_now_ms env) ?w = (outcome, s, w)"
    by (metis prod.exhaust)
  have less: "k < length (ws_players ?w)" if "se_player (session_at sv i) = Some k" for k
    using session_player [OF assms that Some] by (simp add: human_iff)
  have keep: "keeps ?w w" "session_key s = session_key (session_at sv i)"
    using ReceiveInput_keeps [OF less, of "session_at sv i" packet "en_now_ms env"] by (simp_all add: r)
  have sound: "world_ok w" if "world_ok ?w"
    using sound_step_ok [OF ReceiveInput_sound [OF that less, of "session_at sv i" packet "en_now_ms env"] that] by (simp add: r)
  define sv1 where "sv1 = upd_lobby sv l (upd_world (\<lambda>_. w))"
  have "server_quiet sv sv1" unfolding sv1_def by (rule quiet_world) (simp_all add: keep sound)
  moreover have "session_at sv1 i = session_at sv i" by (simp add: sv1_def upd_lobby_def)
  then have "server_quiet sv1 (upd_session sv1 i (\<lambda>_. s))" by (intro quiet_session) (simp add: keep)
  ultimately show ?thesis using Some r by (simp add: DispatchInput_def server_quiet_trans flip: sv1_def)
qed (simp add: DispatchInput_def)

end
