(* ===== verification/Server_Reach.thy ===== *)
theory Server_Reach
  imports Server_Quiet
begin

text \<open>
  Every step of the server keeps its invariant: entering and leaving lobbies, creating them, the
  ticks, and peers that come and go.  Player ids and lobby ids are counted up and never used again;
  the counters stay far from wrapping around.
\<close>

section \<open>Bots\<close>

lemma alive_botD:
  assumes "find alive_bot (rev ps) = Some p"
  obtains i where "i < length ps" and "ps ! i = p" and "pl_alive p" and "pl_is_bot p" and "pl_piece_index p = 0"
proof -
  obtain i where i: "i < length (rev ps)" "rev ps ! i = p" "alive_bot p" using assms unfolding find_Some_iff by blast
  then have "p \<in> set ps" using nth_mem [OF i(1)] by simp
  with i(3) show ?thesis using that by (auto simp: in_set_conv_nth alive_bot_def)
qed

lemma unat_succ: "unat k < 2 ^ 32 - 1 \<Longrightarrow> unat (k + 1) = Suc (unat k)" for k :: u32
  by (simp add: unat_word_ariths)

lemma RemoveLobbyBot_quiet: "lobby_quiet n lobby (snd (RemoveLobbyBot lobby))"
proof (cases "find alive_bot (rev (ws_players (lb_world lobby)))")
  case (Some p)
  let ?w = "lb_world lobby" and ?k = "pl_player_id p"
  define w' where "w' = ?w\<lparr>ws_players := map (\<lambda>q. if pl_player_id q = ?k then empty_player else q) (ws_players ?w)\<rparr>"
  from alive_botD [OF Some] obtain i where i: "i < length (ws_players ?w)" "player_at ?w i = p" "pl_alive p" "pl_is_bot p" "pl_piece_index p = 0"
    by blast
  have "world_step 0 n n ?w w'" if k: "?k \<noteq> 0"
    unfolding world_step_def world_good_def
  proof (intro impI conjI)
    assume w: "world_ok ?w \<and> tidy ?w \<and> (\<forall>k\<in>player_ids ?w. unat k < n)"
    have eq: "ws_players w' = map (\<lambda>q. if pl_player_id q = ?k then empty_player else q) (ws_players ?w)" by (simp add: w'_def)
    note keys = clear_players_keys [OF _ eq k]
    show "tidy w'" "\<forall>k\<in>player_ids w'. unat k < n" using keys w by blast+
    show "world_ok w'" using w empty_player_ok by (auto simp: world_ok_def w'_def list_all_iff)
    have bot: "primary_key ?w i = Some (?k, True)" using i k by (simp add: primary_key_def)
    have "v \<noteq> ?k" if "human ?w j v" for j v
      using that bot tidy_unique [of ?w j v False i True] w by (auto simp: human_def)
    then show "\<forall>j v. human ?w j v \<longrightarrow> v \<noteq> 0 \<longrightarrow> human w' j v" using keys(3) w by (auto simp: human_def)
  qed
  then show ?thesis by (simp add: RemoveLobbyBot_def Some Let_def lobby_quiet_def lobby_key_def w'_def)
qed (simp add: RemoveLobbyBot_def Let_def)

lemma remove_bots_quiet: "lobby_quiet n lobby (snd (remove_bots m lobby))"
proof (induction m arbitrary: lobby)
  case (Suc m)
  obtain b l where r: "RemoveLobbyBot lobby = (b, l)" by fastforce
  have 1: "lobby_quiet n lobby l" using RemoveLobbyBot_quiet [of n lobby] by (simp add: r)
  have "lobby_quiet n lobby (snd (remove_bots m l))"
    using 1 Suc.IH [of l] unfolding lobby_quiet_def lobby_key_def by (simp add: world_step_trans [of 0 n n _ "lb_world l"])
  with 1 show ?case by (simp add: r split: bool.split)
qed simp

lemma rename_step: "world_step k n n w (upd_player w i (\<lambda>p. p\<lparr>pl_name := f p\<rparr>))"
  by (rule keeps_world_step [OF same_slots_keeps [OF upd_player_same] sound_step_ok [OF upd_player_sound]])
    (simp_all add: slot_key_def player_ok_def)

lemma AddLobbyBot_step:
  assumes "AddLobbyBot lm lobby k = (b, lobby', k')" and "libm_ok lm" and "n \<le> unat k" and "unat k < n'"
  shows "lobby_key lobby' = lobby_key lobby" and "world_step 0 n n' (lb_world lobby) (lb_world lobby')" and "k' = k + 1"
proof -
  obtain r w where sp: "ShroomWorldSpawnPlayer lm (lb_world lobby) k True = (r, w)" by fastforce
  note step = SpawnPlayer_step(1) [OF sp assms(2-4)]
  have "world_step 0 n n' (lb_world lobby) (upd_player w i (\<lambda>p. AssignBotName p k))" for i
    unfolding AssignBotName_def by (rule world_step_trans [OF step rename_step])
  then show "lobby_key lobby' = lobby_key lobby" "world_step 0 n n' (lb_world lobby) (lb_world lobby')" "k' = k + 1"
    using assms(1) step by (auto simp: AddLobbyBot_def sp lobby_key_def split: option.splits)
qed

lemma AdjustLobbyBots_step:
  assumes "AdjustLobbyBots lm lobby peers k now = (lobby', k')" and "libm_ok lm" and "unat k < 2 ^ 31"
  shows "lobby_key lobby' = lobby_key lobby" and "world_step 0 (unat k) (unat k') (lb_world lobby) (lb_world lobby')"
    and "unat k \<le> unat k'"
proof -
  let ?l = "lobby\<lparr>lb_last_bot_adjust_ms := now\<rparr>"
  obtain b l1 k1 where a: "AddLobbyBot lm ?l k = (b, l1, k1)" by (metis prod.exhaust)
  have suc: "unat (k + 1) = Suc (unat k)" by (rule unat_succ) (use assms(3) in simp)
  note add = AddLobbyBot_step [OF a assms(2) order.refl, of "unat (k + 1)", unfolded suc, OF lessI]
  obtain b2 l2 where r: "RemoveLobbyBot ?l = (b2, l2)" by fastforce
  have rem: "lobby_quiet (unat k) ?l l2" using RemoveLobbyBot_quiet [of "unat k" ?l] by (simp add: r)
  consider "lobby_key lobby' = lobby_key lobby" "lb_world lobby' = lb_world lobby" "k' = k"
    | "lobby' = l1" "k' = k1" | "lobby' = l2" "k' = k"
    using assms(1) by (fastforce simp: AdjustLobbyBots_def Let_def a r lobby_key_def split: if_splits)
  then have "lobby_key lobby' = lobby_key lobby \<and> world_step 0 (unat k) (unat k') (lb_world lobby) (lb_world lobby') \<and> unat k \<le> unat k'"
  proof cases
    case 2
    then show ?thesis using add suc by (simp add: lobby_key_def)
  next
    case 3
    then show ?thesis using rem by (simp add: lobby_quiet_def lobby_key_def)
  qed simp
  then show "lobby_key lobby' = lobby_key lobby" "world_step 0 (unat k) (unat k') (lb_world lobby) (lb_world lobby')"
    "unat k \<le> unat k'" by simp_all
qed

lemma InitializeLobbyBots_step:
  assumes "libm_ok lm" and "unat k + (16 - unat (CountLobbyAliveBots lobby)) + 1 < 2 ^ 32"
    and "InitializeLobbyBots lm lobby k = (lobby', k')" and "world_good (unat k) (lb_world lobby)"
  shows "lobby_key lobby' = lobby_key lobby \<and> world_good (unat k') (lb_world lobby') \<and> unat k \<le> unat k'"
  using assms
proof (induction lm lobby k arbitrary: lobby' k' rule: InitializeLobbyBots.induct)
  case (1 lm lobby k)
  have target: "unat (GetLobbyBotTarget 0) = 16" by code_simp
  show ?case
  proof (cases "CountLobbyAliveBots lobby < GetLobbyBotTarget 0")
    case True
    obtain b l1 k1 where a: "AddLobbyBot lm lobby k = (b, l1, k1)" by (metis prod.exhaust)
    have less: "unat (CountLobbyAliveBots lobby) < 16" using True target by (simp add: word_less_nat_alt)
    have suc: "unat (k + 1) = Suc (unat k)" by (rule unat_succ) (use "1.prems"(2) less in simp)
    note add = AddLobbyBot_step [OF a "1.prems"(1) order.refl, of "Suc (unat k)", OF lessI]
    have good: "world_good (unat k1) (lb_world l1)" using add(2,3) "1.prems"(4) suc by (simp add: world_step_def)
    show ?thesis
    proof (cases b)
      case False
      then show ?thesis using "1.prems"(3) True a add good suc by (simp add: InitializeLobbyBots.simps [of lm lobby k])
    next
      case b: True
      have count: "CountLobbyAliveBots l1 = CountLobbyAliveBots lobby + 1" using AddLobbyBot_count [of lm lobby k l1 k1] a b by simp
      have "unat (CountLobbyAliveBots lobby + 1) = Suc (unat (CountLobbyAliveBots lobby))" by (rule unat_less_Suc [OF True])
      then have room: "unat k1 + (16 - unat (CountLobbyAliveBots l1)) + 1 < 2 ^ 32"
        using "1.prems"(2) add(3) suc count less by simp
      have "InitializeLobbyBots lm l1 k1 = (lobby', k')"
        using "1.prems"(3) True a b by (simp add: InitializeLobbyBots.simps [of lm lobby k])
      from "1.IH" [OF True a [symmetric] _ refl, of lobby' k'] b this "1.prems"(1) room good
      have "lobby_key lobby' = lobby_key l1 \<and> world_good (unat k') (lb_world lobby') \<and> unat k1 \<le> unat k'" by simp
      then show ?thesis using add suc by simp
    qed
  next
    case False
    then show ?thesis using "1.prems" by (simp add: InitializeLobbyBots.simps [of lm lobby k])
  qed
qed

text \<open>Filling a lobby uses at most one id and one slot for every bot, and one id more.\<close>

lemma AddLobbyBot_grow:
  assumes "AddLobbyBot lm lobby k = (b, lobby', k')"
  shows "unat k' \<le> Suc (unat k)" and "length (ws_players (lb_world lobby')) \<le> Suc (length (ws_players (lb_world lobby)))"
proof -
  obtain r w where sp: "ShroomWorldSpawnPlayer lm (lb_world lobby) k True = (r, w)" by fastforce
  have "length (ws_players w) \<le> Suc (length (ws_players (lb_world lobby)))"
  proof (cases r)
    case None
    then show ?thesis using SpawnPlayer_refused [of lm "lb_world lobby" k True w] sp by simp
  next
    case (Some i)
    with sp have "ShroomWorldSpawnPlayer lm (lb_world lobby) k True = (Some i, w)" by simp
    then show ?thesis by (rule SpawnPlayer_players) auto
  qed
  moreover have "unat (k + 1) \<le> Suc (unat k)" by unat_arith
  ultimately show "unat k' \<le> Suc (unat k)" "length (ws_players (lb_world lobby')) \<le> Suc (length (ws_players (lb_world lobby)))"
    using assms by (auto simp: AddLobbyBot_def sp upd_player_def split: option.splits)
qed

lemma InitializeLobbyBots_grow:
  assumes "InitializeLobbyBots lm lobby k = (lobby', k')"
  shows "unat k' \<le> unat k + (16 - unat (CountLobbyAliveBots lobby)) + 1 \<and>
    length (ws_players (lb_world lobby')) \<le> length (ws_players (lb_world lobby)) + (16 - unat (CountLobbyAliveBots lobby)) + 1"
  using assms
proof (induction lm lobby k arbitrary: lobby' k' rule: InitializeLobbyBots.induct)
  case (1 lm lobby k)
  have target: "unat (GetLobbyBotTarget 0) = 16" by code_simp
  show ?case
  proof (cases "CountLobbyAliveBots lobby < GetLobbyBotTarget 0")
    case True
    obtain b l1 k1 where a: "AddLobbyBot lm lobby k = (b, l1, k1)" by (metis prod.exhaust)
    note grow = AddLobbyBot_grow [OF a]
    show ?thesis
    proof (cases b)
      case False
      then show ?thesis using "1.prems" True a grow by (simp add: InitializeLobbyBots.simps [of lm lobby k])
    next
      case b: True
      have "CountLobbyAliveBots l1 = CountLobbyAliveBots lobby + 1" using AddLobbyBot_count [of lm lobby k l1 k1] a b by simp
      then have count: "unat (CountLobbyAliveBots l1) = Suc (unat (CountLobbyAliveBots lobby))" using unat_less_Suc [OF True] by simp
      have less: "unat (CountLobbyAliveBots lobby) < 16" using True target by (simp add: word_less_nat_alt)
      have "InitializeLobbyBots lm l1 k1 = (lobby', k')"
        using "1.prems" True a b by (simp add: InitializeLobbyBots.simps [of lm lobby k])
      from "1.IH" [OF True a [symmetric] _ refl, of lobby' k'] b this
      have "unat k' \<le> unat k1 + (16 - unat (CountLobbyAliveBots l1)) + 1 \<and> length (ws_players (lb_world lobby')) \<le>
        length (ws_players (lb_world l1)) + (16 - unat (CountLobbyAliveBots l1)) + 1" by simp
      then show ?thesis using grow count less by linarith
    qed
  next
    case False
    then show ?thesis using "1.prems" by (simp add: InitializeLobbyBots.simps [of lm lobby k])
  qed
qed

section \<open>Creating lobbies\<close>

lemma SetGameMode_players: "ws_players (ShroomWorldSetGameMode w mode) = ws_players w"
  by (simp add: ShroomWorldSetGameMode_def clear_objective_def)

lemma new_world_good:
  assumes "libm_ok lm"
  shows "world_good n (ShroomWorldSetMatchDuration (ShroomWorldSetGameMode (ShroomWorldInitWithSeed lm seed) mode) d)"
    (is "world_good n ?w")
proof -
  have none: "ws_players ?w = []"
    by (simp add: ShroomWorldSetMatchDuration_def SetGameMode_players ShroomWorldInitWithSeed_def Let_def zero_world_def)
  moreover have "world_ok ?w" by (intro SetMatchDuration_ok SetGameMode_ok InitWithSeed_ok assms)
  ultimately show ?thesis by (simp add: world_good_def tidy_def player_ids_def primary_key_def)
qed

lemma new_lobby_good:
  assumes "libm_ok (en_libm env)"
  shows "lb_active (new_lobby env sv x name dyn mode)" and "lb_lobby_id (new_lobby env sv x name dyn mode) = x"
    and "world_good n (lb_world (new_lobby env sv x name dyn mode))" and "CountLobbyAliveBots (new_lobby env sv x name dyn mode) = 0"
proof -
  let ?w = "ShroomWorldSetMatchDuration (ShroomWorldSetGameMode (ShroomWorldInitWithSeed (en_libm env) (en_seed env)) mode)
    (sv_match_duration_seconds sv)"
  have w: "lb_world (new_lobby env sv x name dyn mode) = ?w" by (simp add: new_lobby_def Let_def)
  show "lb_active (new_lobby env sv x name dyn mode)" "lb_lobby_id (new_lobby env sv x name dyn mode) = x"
    by (simp_all add: new_lobby_def Let_def)
  show "world_good n (lb_world (new_lobby env sv x name dyn mode))" unfolding w by (rule new_world_good [OF assms])
  have "ws_players ?w = []"
    by (simp add: ShroomWorldSetMatchDuration_def SetGameMode_players ShroomWorldInitWithSeed_def Let_def zero_world_def)
  then show "CountLobbyAliveBots (new_lobby env sv x name dyn mode) = 0" by (simp add: CountLobbyAliveBots_def w)
qed

text \<open>A lobby in the first free slot, with an id that none has had before.\<close>

lemma create_next_ok:
  assumes ok: "server_ok sv" and lm: "libm_ok (en_libm env)" and few: "ids_used sv < 2 ^ 31" "unat (sv_next_lobby_id sv) < 2 ^ 31"
  shows "server_ok (fst (create_next env name dyn mode sv))"
proof -
  let ?id = "sv_next_lobby_id sv"
  define sv1 where "sv1 = sv\<lparr>sv_next_lobby_id := ?id + 1\<rparr>"
  have suc: "unat (?id + 1) = Suc (unat ?id)" by (rule unat_succ) (use few(2) in simp)
  then have less: "?id < ?id + 1" and nz: "?id + 1 \<noteq> 0" by (simp_all add: word_less_nat_alt) (metis suc unat_0 nat.distinct(1))
  have lobbies1: "lobbies_ok sv1"
    using server_okD(1) [OF ok] less nz unfolding lobbies_ok_def sv1_def by (auto dest: order.strict_trans)
  have ok1: "server_ok sv1" by (rule server_ok_lobbies [OF ok _ lobbies1]) (simp_all add: sv1_def)
  show ?thesis
  proof (cases "find_index (\<lambda>l. \<not> lb_active l) (sv_lobbies sv1)")
    case None
    then have "create_next env name dyn mode sv = (sv1, None)"
      by (simp add: create_next_def CreateLobby_def sv1_def del: find_index_None)
    with ok1 show ?thesis by simp
  next
    case (Some l)
    note len = server_okD(3) [OF ok1]
    have l: "l < SHROOM_MAX_LOBBIES" "\<not> lb_active (lobby_at sv1 l)"
      using find_index_less [OF Some] find_index_holds [OF Some] len by simp_all
    define lobby where "lobby = new_lobby env sv1 ?id name dyn mode"
    have lobby: "lb_active lobby" "lb_lobby_id lobby = ?id" "world_good (ids_used sv1) (lb_world lobby)" "CountLobbyAliveBots lobby = 0"
      unfolding lobby_def by (rule new_lobby_good [OF lm])+
    obtain lobby' k' where init: "InitializeLobbyBots (en_libm env) lobby (sv_next_player_id sv1) = (lobby', k')" by fastforce
    have "ids_used sv1 < 2 ^ 31" using few(1) by (simp add: sv1_def)
    then have step: "lobby_key lobby' = lobby_key lobby" "world_good (unat k') (lb_world lobby')" "ids_used sv1 \<le> unat k'"
      using InitializeLobbyBots_step [OF lm _ init lobby(3)] lobby(4) by simp_all
    define sv2 where "sv2 = (upd_lobby sv1 l (\<lambda>_. lobby'))\<lparr>sv_next_player_id := k'\<rparr>"
    have at: "lobby_at sv2 m = (if m = l then lobby' else lobby_at sv1 m)" if "m < SHROOM_MAX_LOBBIES" for m
      using that len by (simp add: sv2_def upd_lobby_def nth_list_update)
    have fields: "sv_peers sv2 = sv_peers sv1" "length (sv_lobbies sv2) = length (sv_lobbies sv1)" "sv_next_player_id sv2 = k'"
      "sv_next_lobby_id sv2 = ?id + 1" by (simp_all add: sv2_def upd_lobby_def sv1_def)
    have new: "lb_active lobby'" "lb_lobby_id lobby' = ?id" using step(1) lobby by (simp_all add: lobby_key_def)
    have old: "lb_lobby_id (lobby_at sv1 m) \<noteq> 0 \<and> lb_lobby_id (lobby_at sv1 m) < ?id \<and> world_good (ids_used sv1) (lb_world (lobby_at sv1 m))"
      if "m < SHROOM_MAX_LOBBIES" "lb_active (lobby_at sv1 m)" for m
      using server_okD(1) [OF ok] that by (simp add: lobbies_ok_def sv1_def)
    have nz0: "?id \<noteq> 0" using server_okD(1) [OF ok] by (simp add: lobbies_ok_def)
    have grow: "world_good (unat k') w" if "world_good (ids_used sv1) w" for w
      using that step(3) by (auto simp: world_good_def)
    have lobbies2: "lobbies_ok sv2"
      unfolding lobbies_ok_def
    proof (intro conjI allI impI)
      fix m m' assume m: "m < SHROOM_MAX_LOBBIES" "m' < SHROOM_MAX_LOBBIES" "lb_active (lobby_at sv2 m)" "lb_active (lobby_at sv2 m')"
        "lb_lobby_id (lobby_at sv2 m) = lb_lobby_id (lobby_at sv2 m')"
      have apart: "lb_active (lobby_at sv1 m) \<Longrightarrow> lb_active (lobby_at sv1 m') \<Longrightarrow>
          lb_lobby_id (lobby_at sv1 m) = lb_lobby_id (lobby_at sv1 m') \<Longrightarrow> m = m'"
        using lobbies1 m(1,2) unfolding lobbies_ok_def by blast
      show "m = m'"
        using apart old [of m] old [of m'] new(2) m by (cases "m = l"; cases "m' = l") (simp_all add: at)
    qed (use old new step(2) grow less nz nz0 len in \<open>auto simp: at fields split: if_splits dest: order.strict_trans\<close>)
    have "server_ok sv2"
      by (rule server_ok_lobbies [OF ok1 _ lobbies2]) (use step(3) l(2) in \<open>auto simp: fields at\<close>)
    then show ?thesis by (simp add: create_next_def CreateLobby_def Some init sv2_def flip: sv1_def lobby_def del: find_index_None)
  qed
qed

text \<open>What a new lobby looks like, and how far the counters moved.\<close>

lemma new_lobby_players: "ws_players (lb_world (new_lobby env sv x name dyn mode)) = []"
  by (simp add: new_lobby_def Let_def ShroomWorldSetMatchDuration_def SetGameMode_players ShroomWorldInitWithSeed_def zero_world_def)

lemma create_next_grow:
  assumes "create_next env name dyn mode sv = (sv', r)"
  shows "ids_used sv' \<le> ids_used sv + 17" and "sv_next_lobby_id sv' = sv_next_lobby_id sv + 1" and "sv_peers sv' = sv_peers sv"
    and "length (sv_lobbies sv') = length (sv_lobbies sv)"
    and "r = Some l \<Longrightarrow> libm_ok (en_libm env) \<Longrightarrow> ids_used sv < 2 ^ 31 \<Longrightarrow> l < length (sv_lobbies sv) \<and> \<not> lb_active (lobby_at sv l) \<and>
      lb_active (lobby_at sv' l) \<and> lb_lobby_id (lobby_at sv' l) = sv_next_lobby_id sv \<and>
      length (ws_players (lb_world (lobby_at sv' l))) \<le> 17 \<and>
      (\<forall>m<length (sv_lobbies sv). m \<noteq> l \<longrightarrow> lobby_at sv' m = lobby_at sv m)"
proof -
  define sv1 where "sv1 = sv\<lparr>sv_next_lobby_id := sv_next_lobby_id sv + 1\<rparr>"
  define lobby where "lobby = new_lobby env sv1 (sv_next_lobby_id sv) name dyn mode"
  obtain lobby' k' where init: "InitializeLobbyBots (en_libm env) lobby (sv_next_player_id sv1) = (lobby', k')" by fastforce
  have none: "ws_players (lb_world lobby) = []" "CountLobbyAliveBots lobby = 0"
    by (simp_all add: lobby_def new_lobby_players CountLobbyAliveBots_def)
  note grow = InitializeLobbyBots_grow [OF init, unfolded none, simplified]
  have eq: "create_next env name dyn mode sv = (case find_index (\<lambda>l. \<not> lb_active l) (sv_lobbies sv) of None \<Rightarrow> (sv1, None)
      | Some l \<Rightarrow> ((upd_lobby sv1 l (\<lambda>_. lobby'))\<lparr>sv_next_player_id := k'\<rparr>, Some l))"
    by (simp add: create_next_def CreateLobby_def init flip: sv1_def lobby_def del: find_index_None cong: option.case_cong)
      (simp add: sv1_def)
  then show "ids_used sv' \<le> ids_used sv + 17" "sv_next_lobby_id sv' = sv_next_lobby_id sv + 1" "sv_peers sv' = sv_peers sv"
    "length (sv_lobbies sv') = length (sv_lobbies sv)"
    using assms grow by (auto simp: sv1_def upd_lobby_def simp del: find_index_None split: option.splits)
  assume r: "r = Some l" and lm: "libm_ok (en_libm env)" and few: "ids_used sv < 2 ^ 31"
  have free: "find_index (\<lambda>l. \<not> lb_active l) (sv_lobbies sv) = Some l" and sv': "sv' = (upd_lobby sv1 l (\<lambda>_. lobby'))\<lparr>sv_next_player_id := k'\<rparr>"
    using assms r eq by (auto simp del: find_index_None split: option.splits)
  have l: "l < length (sv_lobbies sv)" "\<not> lb_active (lobby_at sv l)" using find_index_less [OF free] find_index_holds [OF free] by simp_all
  have good: "lb_active lobby" "lb_lobby_id lobby = sv_next_lobby_id sv" "world_good n (lb_world lobby)" for n
    unfolding lobby_def by (rule new_lobby_good [OF lm])+
  have "lobby_key lobby' = lobby_key lobby"
    using InitializeLobbyBots_step [OF lm _ init good(3)] few by (simp add: none sv1_def)
  then show "l < length (sv_lobbies sv) \<and> \<not> lb_active (lobby_at sv l) \<and>
      lb_active (lobby_at sv' l) \<and> lb_lobby_id (lobby_at sv' l) = sv_next_lobby_id sv \<and>
      length (ws_players (lb_world (lobby_at sv' l))) \<le> 17 \<and>
      (\<forall>m<length (sv_lobbies sv). m \<noteq> l \<longrightarrow> lobby_at sv' m = lobby_at sv m)"
    using l good(1,2) grow by (simp add: sv' sv1_def upd_lobby_def lobby_key_def)
qed

lemma create_next_none: "create_next env name dyn mode sv = (sv', None) \<Longrightarrow> sv_lobbies sv' = sv_lobbies sv"
  by (auto simp: create_next_def CreateLobby_def split: option.splits prod.splits)

text \<open>A lobby that runs is not touched when another one is created.\<close>

lemma create_next_others:
  assumes "create_next env name dyn mode sv = (sv', r)" and "libm_ok (en_libm env)" and "ids_used sv < 2 ^ 31"
    and "m < length (sv_lobbies sv)" and "lb_active (lobby_at sv m)"
  shows "lobby_at sv' m = lobby_at sv m"
proof (cases r)
  case None
  then show ?thesis using create_next_none assms(1) by metis
next
  case (Some l)
  from create_next_grow(5) [OF assms(1) Some assms(2,3)] assms(4,5) show ?thesis by metis
qed

end
