(* ===== verification/Server_Steps.thy ===== *)
theory Server_Steps
  imports Server_Reach
begin

text \<open>The steps of the server that move sessions in and out of lobbies, and the tick of a lobby.\<close>

lemmas ok_quiet_trans = server_ok_quiet [OF _ server_quiet_trans]

section \<open>Leaving\<close>

lemma RemoveSessionPlayer_session:
  assumes "i < length (sv_peers sv)"
  shows "peer_at (RemoveSessionPlayer sv i) i = (peer_at sv i)\<lparr>pe_session := (session_at sv i)\<lparr>se_player := None, se_focused_entity_id := 0\<rparr>\<rparr>"
    and "length (sv_peers (RemoveSessionPlayer sv i)) = length (sv_peers sv)"
    and "ids_used (RemoveSessionPlayer sv i) = ids_used sv"
  using assms by (auto simp: RemoveSessionPlayer_def Let_def ShroomServerCleanupPlayer_def upd_session_def upd_lobby_def split: option.split)

lemma session_without_player:
  "session_ok sv p \<Longrightarrow> se_player s = None \<Longrightarrow> se_active s = se_active (pe_session p) \<Longrightarrow>
   se_handshake_received s = se_handshake_received (pe_session p) \<Longrightarrow> se_lobby_id s = se_lobby_id (pe_session p) \<Longrightarrow>
   se_player_id s = se_player_id (pe_session p) \<Longrightarrow> session_ok sv (p\<lparr>pe_session := s\<rparr>)"
  by (auto simp: session_ok_def Let_def)

lemma RemoveSessionPlayer_ok:
  assumes "server_ok sv" and "i < SHROOM_SERVER_MAX_CLIENTS"
  shows "server_ok (RemoveSessionPlayer sv i)"
proof (cases "if se_player_id (session_at sv i) \<noteq> 0 then FindLobbyById (sv_lobbies sv) (se_lobby_id (session_at sv i)) else None")
  case None
  have "server_ok (upd_session sv i (\<lambda>s. s\<lparr>se_player := None, se_focused_entity_id := 0\<rparr>))"
  proof (rule server_ok_session [OF assms])
    show "session_ok sv ((peer_at sv i)\<lparr>pe_session := (session_at sv i)\<lparr>se_player := None, se_focused_entity_id := 0\<rparr>\<rparr>)"
      by (rule session_without_player [OF server_okD(4) [OF assms]]) simp_all
  qed (simp_all add: upd_session_def)
  with None show ?thesis unfolding RemoveSessionPlayer_def Let_def None by (simp add: ShroomServerCleanupPlayer_def)
next
  case (Some l)
  have "server_ok (upd_session (upd_lobby sv l (upd_world (\<lambda>w. snd (ShroomWorldRemovePlayer w (se_player_id (session_at sv i)))))) i
      (\<lambda>_. (session_at sv i)\<lparr>se_player := None, se_focused_entity_id := 0\<rparr>))"
    by (rule leave_ok [OF assms]) simp_all
  then show ?thesis unfolding RemoveSessionPlayer_def Let_def Some
    by (simp add: ShroomServerCleanupPlayer_def upd_lobby_def upd_session_def)
qed

lemma DisconnectSession_ok:
  assumes "server_ok sv" and "i < SHROOM_SERVER_MAX_CLIENTS"
  shows "server_ok (DisconnectSession sv i)" and "\<not> se_active (session_at (DisconnectSession sv i) i)"
    and "length (sv_peers (DisconnectSession sv i)) = length (sv_peers sv)"
proof -
  have len: "i < length (sv_peers sv)" using assms server_okD(2) by simp
  note r = RemoveSessionPlayer_session [OF len]
  have "server_ok (upd_session (RemoveSessionPlayer sv i) i (\<lambda>_. zero_session))"
  proof (rule server_ok_session [OF RemoveSessionPlayer_ok [OF assms] assms(2)])
    have "0 < ids_used sv" using server_okD(4) [OF assms] by (simp add: session_ok_def Let_def)
    then show "session_ok (RemoveSessionPlayer sv i) ((peer_at sv i)\<lparr>pe_session := zero_session\<rparr>)"
      using r(3) by (simp add: session_ok_def Let_def zero_session_def)
  qed (simp_all add: upd_session_def r zero_session_def)
  then show "server_ok (DisconnectSession sv i)" using assms(1) by (simp add: DisconnectSession_def)
  show "\<not> se_active (session_at (DisconnectSession sv i) i)" "length (sv_peers (DisconnectSession sv i)) = length (sv_peers sv)"
    using len r by (auto simp: DisconnectSession_def upd_session_def zero_session_def)
qed

lemma HandleLobbyLeave_ok:
  assumes "server_ok sv" and "i < SHROOM_SERVER_MAX_CLIENTS"
  shows "server_ok (fst (HandleLobbyLeave sv i))"
proof -
  let ?x = "se_lobby_id (session_at sv i)"
  define sv1 where "sv1 = (case FindLobbyById (sv_lobbies sv) ?x of
    None \<Rightarrow> sv | Some l \<Rightarrow> fst (withdraw_voter sv l (se_player_id (session_at sv i))))"
  define sv2 where "sv2 = RemoveSessionPlayer sv1 i"
  define sv3 where "sv3 = upd_session sv2 i (\<lambda>s. (fresh_replication s)\<lparr>se_lobby_id := 0, se_spectating := False,
    se_is_ready := False, se_entered_match := False, se_player_id := 0\<rparr>)"
  have "server_quiet sv sv1" by (simp add: sv1_def quiet_withdraw split: option.split)
  then have 1: "server_ok sv1" by (rule server_ok_quiet [OF assms(1)])
  have 2: "server_ok sv2" unfolding sv2_def by (rule RemoveSessionPlayer_ok [OF 1 assms(2)])
  have len: "i < length (sv_peers sv1)" using 1 assms(2) server_okD(2) by simp
  have 3: "server_ok sv3"
  proof (rule server_ok_session [OF 2 assms(2)])
    show "session_ok sv2 ((peer_at sv2 i)\<lparr>pe_session := (fresh_replication (session_at sv2 i))\<lparr>se_lobby_id := 0,
        se_spectating := False, se_is_ready := False, se_entered_match := False, se_player_id := 0\<rparr>\<rparr>)"
      using server_okD(4) [OF 2 assms(2)] RemoveSessionPlayer_session(1) [OF len]
      by (auto simp: session_ok_def Let_def fresh_replication_def sv2_def)
  qed (simp_all add: sv3_def upd_session_def)
  obtain told where told: "(case FindLobbyById (sv_lobbies sv) ?x of
      None \<Rightarrow> (sv, []) | Some l \<Rightarrow> withdraw_voter sv l (se_player_id (session_at sv i))) = (sv1, told)"
    by (cases "FindLobbyById (sv_lobbies sv) ?x"; simp add: sv1_def) (metis prod.collapse)+
  have "server_ok (fst (BroadcastLobbyRoster (set_voice_peer sv3 i True 0 0) ?x))"
    by (rule ok_quiet_trans [OF 3 quiet_voice quiet_roster])
  then show ?thesis
    unfolding HandleLobbyLeave_def Let_def told prod.case sv2_def [symmetric] sv3_def [symmetric]
    by (simp add: case_prod_beta)
qed

section \<open>Joining\<close>

lemma admit_quiet: "server_quiet sv (snd (admit sv l spectate))"
proof -
  have "server_quiet sv (upd_lobby sv l (\<lambda>_. snd (remove_bots n (lobby_at sv l))))" for n
    by (rule quiet_lobby) (rule remove_bots_quiet)
  then show ?thesis by (simp add: admit_def Let_def case_prod_beta)
qed

text \<open>A player enters the world with the next player id.\<close>

lemma spawn_session_ok:
  assumes ok: "server_ok sv" and i: "i < SHROOM_SERVER_MAX_CLIENTS" and lm: "libm_ok (en_libm env)" and few: "ids_used sv < 2 ^ 31"
    and l: "l < SHROOM_MAX_LOBBIES" "lb_active (lobby_at sv l)"
    and s: "se_lobby_id (session_at sv i) = lb_lobby_id (lobby_at sv l)" "\<not> se_spectating (session_at sv i)"
      "se_player (session_at sv i) = None"
  shows "server_ok (snd (spawn_session env sv i l))"
proof -
  let ?k = "sv_next_player_id sv" and ?w = "lb_world (lobby_at sv l)"
  have suc: "unat (?k + 1) = Suc (unat ?k)" by (rule unat_succ) (use few in simp)
  obtain r w where sp: "ShroomWorldSpawnPlayer (en_libm env) ?w ?k False = (r, w)" by fastforce
  note lobbies = server_okD(1) [OF ok] and len = server_okD(2,3) [OF ok]
  have before: "session_ok sv (peer_at sv i)" using ok i by (simp add: server_ok_def)
  have good: "world_good (unat ?k) ?w" using lobbies l by (simp add: lobbies_ok_def)
  note step = SpawnPlayer_step [OF sp lm order.refl, of "unat (?k + 1)", unfolded suc, OF lessI]
  define w' where "w' = (case r of None \<Rightarrow> w | Some p \<Rightarrow> upd_player w p (\<lambda>q. q\<lparr>pl_name := fst (snprintf_s (pl_name q) (se_display_name (session_at sv i)))\<rparr>))"
  have w': "world_step 0 (unat ?k) (Suc (unat ?k)) ?w w'"
    using step(1) world_step_trans [OF step(1) rename_step] by (simp add: w'_def split: option.split)
  have human: "human w' p ?k" if "r = Some p" for p
    using step(2) [OF good that refl] that by (auto simp: human_iff w'_def upd_player_def nth_list_update)
  define s' where "s' = (case r of None \<Rightarrow> (session_at sv i)\<lparr>se_player := None, se_lobby_id := 0\<rparr>
    | Some p \<Rightarrow> (session_at sv i)\<lparr>se_player := Some p, se_player_id := ?k\<rparr>)"
  define sv' where "sv' = upd_session (upd_lobby (sv\<lparr>sv_next_player_id := ?k + 1\<rparr>) l (upd_world (\<lambda>_. w'))) i (\<lambda>_. s')"
  have eq: "snd (spawn_session env sv i l) = sv'"
  proof (cases r)
    case None
    then show ?thesis by (simp add: spawn_session_def Let_def sp sv'_def w'_def s'_def upd_lobby_def upd_session_def)
  next
    case (Some p)
    have "pl_player_id (player_at w' p) = ?k" using human [OF Some] by (simp add: human_iff)
    with Some show ?thesis by (simp add: spawn_session_def Let_def sp sv'_def w'_def s'_def upd_lobby_def upd_session_def)
  qed
  have at: "lobby_at sv' m = (if m = l then upd_world (\<lambda>_. w') (lobby_at sv l) else lobby_at sv m)" if "m < SHROOM_MAX_LOBBIES" for m
    using that len by (simp add: sv'_def upd_lobby_def upd_session_def nth_list_update)
  have fields: "ids_used sv' = Suc (ids_used sv)" "sv_next_lobby_id sv' = sv_next_lobby_id sv" "length (sv_lobbies sv') = length (sv_lobbies sv)"
    "length (sv_peers sv') = length (sv_peers sv)" "peer_at sv' i = (peer_at sv i)\<lparr>pe_session := s'\<rparr>" "j \<noteq> i \<Longrightarrow> peer_at sv' j = peer_at sv j" for j
    using i len by (simp_all add: sv'_def upd_lobby_def upd_session_def suc)
  have more: "world_good (Suc (unat ?k)) v" if "world_good (unat ?k) v" for v
    using that by (auto simp: world_good_def intro: less_SucI)
  show ?thesis unfolding eq
  proof (rule server_ok_step [OF ok i, of 0])
    show "lobbies_ok sv'"
      by (rule lobbies_ok_quiet [OF lobbies fields(3)]) (use w' more in \<open>auto simp: at fields lobby_key_def world_step_def\<close>)
    show "session_ok sv' (peer_at sv' i)"
    proof (cases r)
      case None
      with before s show ?thesis by (auto simp: session_ok_def Let_def fields s'_def)
    next
      case (Some p)
      have "lb_lobby_id (lobby_at sv l) \<noteq> 0" using lobbies l by (simp add: lobbies_ok_def)
      then show ?thesis using before s l human [OF Some] Some by (auto simp: session_ok_def Let_def fields s'_def at)
    qed
    show "lobby_key (lobby_at sv' m) = lobby_key (lobby_at sv m) \<and>
      (\<forall>q v. human (lb_world (lobby_at sv m)) q v \<longrightarrow> v \<noteq> 0 \<longrightarrow> human (lb_world (lobby_at sv' m)) q v)"
      if "m < SHROOM_MAX_LOBBIES" for m
      using w' good by (simp add: at [OF that] lobby_key_def world_step_def)
    show "se_player_id (session_at sv' i) = 0 \<or> se_player_id (session_at sv' i) = se_player_id (session_at sv i) \<or>
        ids_used sv \<le> unat (se_player_id (session_at sv' i))"
      by (simp add: fields s'_def split: option.split)
  qed (use fields len in auto)
qed

lemma HandleLobbyJoin_ok:
  assumes ok: "server_ok sv" and i: "i < SHROOM_SERVER_MAX_CLIENTS" and lm: "libm_ok (en_libm env)" and few: "ids_used sv < 2 ^ 31"
  shows "server_ok (fst (HandleLobbyJoin env sv i lobby_id spectate))"
proof (cases "\<not> se_handshake_received (session_at sv i) \<or> se_lobby_id (session_at sv i) \<noteq> 0 \<or> FindLobbyById (sv_lobbies sv) lobby_id = None")
  case True
  with ok show ?thesis by (auto simp: HandleLobbyJoin_def)
next
  case False
  then obtain l where l: "FindLobbyById (sv_lobbies sv) lobby_id = Some l" by auto
  obtain b sv1 where 1: "admit sv l spectate = (b, sv1)" by fastforce
  have quiet1: "server_quiet sv sv1" using admit_quiet [of sv l spectate] by (simp add: 1)
  note ok1 = server_ok_quiet [OF ok quiet1]
  define sv2 where "sv2 = upd_session sv1 i (\<lambda>s. (fresh_replication s)\<lparr>se_lobby_id := lb_lobby_id (lobby_at sv1 l),
    se_spectating := spectate, se_is_ready := False, se_entered_match := False\<rparr>)"
  define sv3 where "sv3 = (if spectate then sv2 else snd (spawn_session env sv2 i l))"
  note len1 = server_okD(2,3) [OF ok1]
  have at1: "l < SHROOM_MAX_LOBBIES" "lb_active (lobby_at sv1 l)" "lb_lobby_id (lobby_at sv1 l) \<noteq> 0"
    using find_lobbyD [OF l server_okD(3) [OF ok]] quiet_at(4) [OF quiet1, of l] server_okD(3) [OF ok]
    by (simp_all add: lobby_quiet_def lobby_key_def)
  have "peer_key (peer_at sv1 i) = peer_key (peer_at sv i)" using quiet_at(3) [OF quiet1, of i] server_okD(2) [OF ok] i by simp
  then have s1: "se_handshake_received (session_at sv1 i)" "se_lobby_id (session_at sv1 i) = 0"
    using False by (simp_all add: peer_key_def session_key_def)
  have before: "session_ok sv1 (peer_at sv1 i)" using ok1 i by (simp add: server_ok_def)
  have ok2: "server_ok sv2"
  proof (rule server_ok_session [OF ok1 i])
    show "session_ok sv1 ((peer_at sv1 i)\<lparr>pe_session := (fresh_replication (session_at sv1 i))\<lparr>se_lobby_id := lb_lobby_id (lobby_at sv1 l),
        se_spectating := spectate, se_is_ready := False, se_entered_match := False\<rparr>\<rparr>)"
      using before s1 at1 by (auto simp: session_ok_def Let_def fresh_replication_def)
  qed (simp_all add: sv2_def upd_session_def fresh_replication_def)
  have same2: "lobby_at sv2 l = lobby_at sv1 l" "ids_used sv2 = ids_used sv" "se_lobby_id (session_at sv2 i) = lb_lobby_id (lobby_at sv2 l)"
    "se_spectating (session_at sv2 i) = spectate" "se_player (session_at sv2 i) = None"
    using i len1 quiet1 before s1 by (auto simp: sv2_def upd_session_def server_quiet_def fresh_replication_def session_ok_def Let_def)
  have ok3: "server_ok sv3"
    unfolding sv3_def using ok2 spawn_session_ok [OF ok2 i lm _ at1(1), unfolded same2] few at1(2) by simp
  have told: "server_ok (fst (BroadcastLobbyRoster (set_voice_peer sv3 i True x y) z))" for x y z
    by (rule ok_quiet_trans [OF ok3 quiet_voice quiet_roster])
  show ?thesis
    using False ok1 ok3 told
    unfolding HandleLobbyJoin_def Let_def l option.case 1 prod.case sv2_def [symmetric]
    by (auto simp: sv3_def case_prod_beta)
qed

section \<open>The handshake and the other handlers\<close>

lemma HandleHelloPacket_ok:
  assumes "server_ok sv" and "i < SHROOM_SERVER_MAX_CLIENTS" and "pe_attached (peer_at sv i)"
  shows "server_ok (fst (HandleHelloPacket env sv i version name))"
proof -
  have "server_ok (upd_session sv i (\<lambda>s. s\<lparr>se_display_name := n, se_active := True, se_handshake_received := True\<rparr>))"
    if "\<not> se_handshake_received (session_at sv i)" for n
  proof (rule server_ok_session [OF assms(1,2)])
    show "session_ok sv ((peer_at sv i)\<lparr>pe_session := (session_at sv i)\<lparr>se_display_name := n, se_active := True, se_handshake_received := True\<rparr>\<rparr>)"
      using server_okD(4) [OF assms(1,2)] assms(3) that by (auto simp: session_ok_def Let_def)
  qed (simp_all add: upd_session_def)
  with assms(1) show ?thesis by (simp add: HandleHelloPacket_def Let_def)
qed

lemma HandleLobbyCreate_ok:
  assumes "server_ok sv" and "libm_ok (en_libm env)" and "ids_used sv < 2 ^ 31" and "unat (sv_next_lobby_id sv) < 2 ^ 31"
  shows "server_ok (fst (HandleLobbyCreate env sv i name mode))"
proof -
  obtain sv1 r where c: "create_next env (Some name) True (ucast mode) sv = (sv1, r)" by fastforce
  have "server_ok sv1" using create_next_ok [OF assms, of "Some name" True "ucast mode"] by (simp add: c)
  with assms(1) show ?thesis by (simp add: HandleLobbyCreate_def c split: option.split)
qed

lemma HandlePacket_ok:
  assumes ok: "server_ok sv" and i: "i < SHROOM_SERVER_MAX_CLIENTS" "pe_attached (peer_at sv i)" and lm: "libm_ok (en_libm env)"
    and few: "ids_used sv < 2 ^ 31" "unat (sv_next_lobby_id sv) < 2 ^ 31"
  shows "server_ok (fst (HandlePacket env sv i header data_length channel_id body))"
proof -
  note quiet = server_ok_quiet [OF ok]
  have "server_ok (fst (DispatchMessage env sv i data_length x body))" for x
    by (cases body)
      (auto simp: DispatchMessage_def ok HandleHelloPacket_ok [OF ok i] HandleLobbyJoin_ok [OF ok i(1) lm few(1)]
        HandleLobbyLeave_ok [OF ok i(1)] HandleLobbyCreate_ok [OF ok lm few] quiet [OF quiet_input [OF ok i(1)]]
        quiet [OF quiet_ack] quiet [OF quiet_auth] quiet [OF quiet_chat] quiet [OF quiet_voice_frame] quiet [OF quiet_list]
        quiet [OF quiet_ready] quiet [OF quiet_enter] quiet [OF quiet_vote])
  then show ?thesis by (simp add: HandlePacket_def Let_def ok)
qed

end
