(* ===== verification/Server_Sound.thy ===== *)
theory Server_Sound
  imports Server_Steps
begin

text \<open>
  The tick of a lobby and the comings and goings of peers keep the invariant; so it holds in every
  state the server reaches.
\<close>

section \<open>The intermission\<close>

lemma quiet_begin: "server_quiet sv (fst (BeginIntermission sv l))"
  unfolding BeginIntermission_def Let_def by (simp, rule quiet_same_world) (simp_all add: lobby_key_def)

lemma quiet_tell: "server_quiet sv (fst (tell_seconds sv l))"
  by (simp add: tell_seconds_def Let_def quiet_same_world lobby_key_def)

lemma resolve_peer_ok:
  assumes ok: "server_ok sv" and i: "i < SHROOM_SERVER_MAX_CLIENTS"
  shows "server_ok (resolve_peer l d i sv)"
proof (cases "in_lobby (lb_lobby_id (lobby_at sv l)) (peer_at sv i)")
  case True
  let ?s = "session_at sv i" and ?w = "lb_world (lobby_at sv l)"
  obtain s w where r: "resolve_session (lb_intermission (lobby_at sv l)) d ?s ?w = (s, w)" by fastforce
  have eq: "resolve_peer l d i sv = upd_session (upd_lobby sv l (upd_world (\<lambda>_. w))) i (\<lambda>_. s)"
    using True by (simp add: resolve_peer_def r)
  consider "session_key s = session_key ?s" "w = ?w"
    | "se_player s = None" "session_key s = (se_active ?s, se_handshake_received ?s, True, se_lobby_id ?s, se_player_id ?s, None)"
      "w = snd (ShroomWorldRemovePlayer ?w (se_player_id ?s))"
    using r by (auto simp: resolve_session_def Let_def ShroomServerCleanupPlayer_def session_key_def split: if_splits)
  then show ?thesis
  proof cases
    case 1
    have "server_quiet sv (upd_lobby sv l (upd_world (\<lambda>_. w)))" by (rule quiet_same_world) (simp_all add: lobby_key_def 1)
    moreover have "server_quiet (upd_lobby sv l (upd_world (\<lambda>_. w))) (resolve_peer l d i sv)"
      unfolding eq by (rule quiet_session) (simp add: 1 upd_lobby_def)
    ultimately show ?thesis by (rule ok_quiet_trans [OF ok])
  next
    case 2
    have "resolve_peer l d i sv = upd_session (upd_lobby sv l (upd_world (\<lambda>w. snd (ShroomWorldRemovePlayer w (se_player_id ?s))))) i (\<lambda>_. s)"
      unfolding eq by (simp add: 2(3) upd_lobby_def)
    then show ?thesis using leave_ok [OF ok i 2(1), of l] 2(2) by (simp add: session_key_def)
  qed
qed (simp add: resolve_peer_def ok)

lemma server_ok_fold:
  assumes "\<And>i sv. server_ok sv \<Longrightarrow> i < SHROOM_SERVER_MAX_CLIENTS \<Longrightarrow> server_ok (f i sv)" and "server_ok sv"
  shows "server_ok (fold f [0..<length (sv_peers sv)] sv)"
proof -
  have "server_ok (fold f xs sv)" if "set xs \<subseteq> {..<SHROOM_SERVER_MAX_CLIENTS}" "server_ok sv" for xs sv
    using that by (induction xs arbitrary: sv) (simp_all add: assms(1))
  moreover have "set [0..<length (sv_peers sv)] \<subseteq> {..<SHROOM_SERVER_MAX_CLIENTS}" using server_okD(2) [OF assms(2)] by auto
  ultimately show ?thesis using assms(2) by blast
qed

lemma ResolveIntermission_ok:
  assumes ok: "server_ok sv" and lm: "libm_ok lm"
  shows "server_ok (fst (ResolveIntermission lm sv l))"
proof -
  obtain im d where r: "ShroomIntermissionResolve (Some (lb_intermission (lobby_at sv l))) = (im, d)" by fastforce
  define sv1 where "sv1 = upd_lobby sv l (\<lambda>lobby. lobby\<lparr>lb_intermission := the im\<rparr>)"
  define sv2 where "sv2 = fold (resolve_peer l d) [0..<length (sv_peers sv1)] sv1"
  define sv3 where "sv3 = upd_lobby sv2 l (upd_world (ShroomWorldResetMatch lm))"
  have "server_quiet sv sv1" unfolding sv1_def by (rule quiet_same_world) (simp_all add: lobby_key_def)
  then have 1: "server_ok sv1" by (rule server_ok_quiet [OF ok])
  have 2: "server_ok sv2" unfolding sv2_def by (rule server_ok_fold [OF resolve_peer_ok 1])
  have "server_quiet sv2 sv3" unfolding sv3_def
    by (rule quiet_world [where f = "ShroomWorldResetMatch lm"]) (simp_all add: ResetMatch_keeps ResetMatch_ok [OF lm])
  then have "server_ok (fst (BroadcastLobbyRoster sv3 x))" for x by (rule ok_quiet_trans [OF 2 _ quiet_roster])
  then show ?thesis
    unfolding ResolveIntermission_def r prod.case Let_def sv1_def [symmetric] sv2_def [symmetric] sv3_def [symmetric]
    by (simp add: case_prod_beta)
qed

lemma after_step_ok:
  assumes ok: "server_ok sv" and lm: "libm_ok lm"
  shows "server_ok (fst (after_step lm sv l phase))"
proof -
  let ?phase = "\<lambda>sv. ws_match_phase (lb_world (lobby_at sv l))"
  define r1 where "r1 = (if phase = SHROOM_MATCH_PHASE_RUNNING \<and> ?phase sv = SHROOM_MATCH_PHASE_RESULTS
    then BeginIntermission sv l else (sv, []))"
  have 1: "server_ok (fst r1)" using ok server_ok_quiet [OF ok quiet_begin] by (simp add: r1_def)
  define r2 where "r2 = (if ?phase (fst r1) = SHROOM_MATCH_PHASE_RESULTS then
      let (sv, told) = tell_seconds (fst r1) l
      in if ShroomIntermissionAllEligibleVoted (Some (lb_intermission (lobby_at sv l)))
         then (case ResolveIntermission lm sv l of (sv, resolved) \<Rightarrow> (sv, told @ resolved)) else (sv, told)
    else (fst r1, []))"
  have "server_ok (fst (tell_seconds (fst r1) l))" by (rule server_ok_quiet [OF 1 quiet_tell])
  from this ResolveIntermission_ok [OF this lm, of l] have 2: "server_ok (fst r2)"
    using 1 by (simp add: r2_def Let_def case_prod_beta)
  have "fst (after_step lm sv l phase) = fst (if ?phase (fst r2) = SHROOM_MATCH_PHASE_RESET
      then ResolveIntermission lm (fst r2) l else (fst r2, []))"
    unfolding after_step_def Let_def r1_def r2_def by (simp add: case_prod_beta)
  then show ?thesis using 2 ResolveIntermission_ok [OF 2 lm, of l] by simp
qed

section \<open>The tick\<close>

lemma quiet_protect: "server_quiet sv (protect_waiting l i sv)"
proof -
  have "server_quiet sv (upd_lobby sv l (upd_world (\<lambda>w. upd_player w k (\<lambda>q.
      q\<lparr>pl_spawn_protection_timer := SHROOM_PLAYER_SPAWN_PROTECTION_SECONDS\<rparr>))))" for k
    by (rule quiet_player_field) (simp_all add: slot_key_def player_ok_def)
  then show ?thesis by (simp add: protect_waiting_def Let_def split: option.split)
qed

lemma quiet_adjust_ai: "server_quiet sv (adjust_ai l i sv)"
proof -
  obtain s w where r: "AdjustSessionAiControl (session_at sv i) (lb_world (lobby_at sv l)) = (s, w)" by fastforce
  let ?sv = "upd_lobby sv l (upd_world (\<lambda>_. w))"
  have keep: "keeps (lb_world (lobby_at sv l)) w" "session_key s = session_key (session_at sv i)"
    using AdjustSessionAiControl_keeps [where s = "session_at sv i" and w = "lb_world (lobby_at sv l)"] by (simp_all add: r)
  have "world_ok (lb_world (lobby_at sv l)) \<Longrightarrow> world_ok w"
    using sound_step_ok [OF AdjustSessionAiControl_sound [of "lb_world (lobby_at sv l)" "session_at sv i"]] by (simp add: r)
  then have "server_quiet sv ?sv" by (intro quiet_world) (simp_all add: keep)
  moreover have "server_quiet ?sv (upd_session ?sv i (\<lambda>_. s))" by (rule quiet_session) (simp add: upd_lobby_def keep)
  ultimately show ?thesis by (simp add: adjust_ai_def r server_quiet_trans)
qed

lemma quiet_send_all:
  assumes "\<And>i s w. session_key (fst (f i s w)) = session_key s"
  shows "server_quiet sv (fst (send_all f sv l))"
proof -
  have step: "server_quiet (fst st) (fst (send_to f l i st))" for i st
  proof -
    obtain sv' sent where st: "st = (sv', sent)" by fastforce
    obtain s packets where r: "f i (session_at sv' i) (lb_world (lobby_at sv' l)) = (s, packets)" by fastforce
    have "session_key s = session_key (session_at sv' i)" using assms [of i "session_at sv' i" "lb_world (lobby_at sv' l)"] by (simp add: r)
    then show ?thesis by (simp add: send_to_def st r quiet_session)
  qed
  have "server_quiet (fst st) (fst (fold (send_to f l) xs st))" for xs st
  proof (induction xs arbitrary: st)
    case (Cons i xs)
    show ?case using server_quiet_trans [OF step Cons.IH] by simp
  qed simp
  from this [of "(sv, [])"] show ?thesis by (simp add: send_all_def)
qed

lemma send_keys: "session_key (fst (SendSnapshot i s w)) = session_key s" "session_key (fst (SendWorldState i s w)) = session_key s"
  by (auto simp: SendSnapshot_def SendWorldState_def Let_def session_key_def split: prod.split option.split)

text \<open>A lobby nobody is in may close.\<close>

lemma nobody_in_lobby:
  assumes ok: "server_ok sv" and j: "j < SHROOM_SERVER_MAX_CLIENTS"
    and none: "unat (CountLobbyRealPlayers (sv_peers sv) x) + unat (CountLobbySpectators (sv_peers sv) x) = 0"
  shows "\<not> in_lobby x (peer_at sv j)"
proof
  assume "in_lobby x (peer_at sv j)"
  have exact: "unat (word_of_nat (count_if P (sv_peers sv)) :: u16) = count_if P (sv_peers sv)" for P
    using count_if_le_length [of P "sv_peers sv"] server_okD(2) [OF ok]
    by (intro unat_word_of_nat_small) (simp add: SHROOM_SERVER_MAX_CLIENTS_def)
  have "peer_at sv j \<in> set (sv_peers sv)" using j server_okD(2) [OF ok] by simp
  moreover have "count_if (\<lambda>p. in_lobby x p \<and> \<not> se_spectating (pe_session p)) (sv_peers sv) = 0"
    "count_if (\<lambda>p. in_lobby x p \<and> se_spectating (pe_session p)) (sv_peers sv) = 0"
    using none unfolding CountLobbyRealPlayers_def CountLobbySpectators_def exact by simp_all
  ultimately show False using \<open>in_lobby x (peer_at sv j)\<close> by (auto simp: count_if_def filter_empty_conv)
qed

lemma rest_lobby_ok:
  assumes ok: "server_ok sv" and l: "l < SHROOM_MAX_LOBBIES"
    and none: "unat (CountLobbyRealPlayers (sv_peers sv) (lb_lobby_id (lobby_at sv l))) +
      unat (CountLobbySpectators (sv_peers sv) (lb_lobby_id (lobby_at sv l))) = 0"
  shows "server_ok (upd_lobby sv l (rest_lobby now))" (is "server_ok ?sv")
proof -
  have rest: "lb_lobby_id (rest_lobby now x) = lb_lobby_id x" "lb_world (rest_lobby now x) = lb_world x"
    "lb_active (rest_lobby now x) \<Longrightarrow> lb_active x" for x by (auto simp: rest_lobby_def split: if_splits)
  note len = server_okD(3) [OF ok]
  have at: "lobby_at ?sv m = (if m = l then rest_lobby now (lobby_at sv l) else lobby_at sv m)" if "m < SHROOM_MAX_LOBBIES" for m
    using that len by (simp add: upd_lobby_def nth_list_update)
  have fields: "sv_peers ?sv = sv_peers sv" "ids_used ?sv = ids_used sv" "sv_next_lobby_id ?sv = sv_next_lobby_id sv"
    "length (sv_lobbies ?sv) = length (sv_lobbies sv)" by (simp_all add: upd_lobby_def)
  show ?thesis
  proof (rule server_ok_lobbies [OF ok])
    show "lobbies_ok ?sv"
      using server_okD(1) [OF ok] unfolding lobbies_ok_def fields
      by (auto simp: at rest split: if_splits dest: rest(3))
    fix m j assume a: "m < SHROOM_MAX_LOBBIES" "lb_active (lobby_at sv m)" "j < SHROOM_SERVER_MAX_CLIENTS"
      "se_lobby_id (session_at sv j) = lb_lobby_id (lobby_at sv m)"
    have "lb_lobby_id (lobby_at sv m) \<noteq> 0" using server_okD(1) [OF ok] a by (simp add: lobbies_ok_def)
    then have "in_lobby (lb_lobby_id (lobby_at sv m)) (peer_at sv j)"
      using server_okD(4) [OF ok a(3)] a(4) by (auto simp: session_ok_def Let_def in_lobby_def)
    then have "m \<noteq> l" using nobody_in_lobby [OF ok a(3) none] by auto
    then show "lobby_key (lobby_at ?sv m) = lobby_key (lobby_at sv m) \<and>
        (\<forall>q v. human (lb_world (lobby_at sv m)) q v \<longrightarrow> v \<noteq> 0 \<longrightarrow> human (lb_world (lobby_at ?sv m)) q v)"
      by (simp add: at [OF a(1)])
  qed (simp_all add: fields)
qed

lemma tick_seconds_within: "f32_within 0 0x3f800000 tick_seconds"
  by code_simp

lemma bots_ok:
  assumes ok: "server_ok sv" and l: "l < SHROOM_MAX_LOBBIES" and lm: "libm_ok lm" and few: "ids_used sv < 2 ^ 31"
    and adj: "AdjustLobbyBots lm (lobby_at sv l) peers (sv_next_player_id sv) now = (lobby, k)"
  shows "server_ok ((upd_lobby sv l (\<lambda>_. lobby))\<lparr>sv_next_player_id := k\<rparr>)"
proof -
  define sv' where "sv' = (upd_lobby sv l (\<lambda>_. lobby))\<lparr>sv_next_player_id := k\<rparr>"
  note step = AdjustLobbyBots_step [OF adj lm few] and len = server_okD(3) [OF ok]
  have at: "lobby_at sv' m = (if m = l then lobby else lobby_at sv m)" if "m < SHROOM_MAX_LOBBIES" for m
    using that len by (simp add: sv'_def upd_lobby_def nth_list_update)
  have fields: "sv_peers sv' = sv_peers sv" "ids_used sv' = unat k" "sv_next_lobby_id sv' = sv_next_lobby_id sv"
    "length (sv_lobbies sv') = length (sv_lobbies sv)" by (simp_all add: sv'_def upd_lobby_def)
  have more: "world_good (unat k) w" if "world_good (ids_used sv) w" for w
    using that step(3) by (auto simp: world_good_def)
  have good: "world_good (ids_used sv) (lb_world (lobby_at sv m))" if "m < SHROOM_MAX_LOBBIES" "lb_active (lobby_at sv m)" for m
    using server_okD(1) [OF ok] that by (simp add: lobbies_ok_def)
  show ?thesis unfolding sv'_def [symmetric]
  proof (rule server_ok_lobbies [OF ok])
    show "lobbies_ok sv'"
      by (rule lobbies_ok_quiet [OF server_okD(1) [OF ok] fields(4)])
        (use step more in \<open>auto simp: at fields world_step_def\<close>)
  qed (use step good in \<open>auto simp: at fields world_step_def\<close>)
qed

lemma TickLobby_ok:
  assumes ok: "server_ok sv" and l: "l < SHROOM_MAX_LOBBIES" and lm: "libm_ok (en_libm env)" and few: "ids_used sv < 2 ^ 31"
  shows "server_ok (fst (TickLobby env sv l))"
proof -
  let ?x = "lb_lobby_id (lobby_at sv l)"
  consider "\<not> lb_active (lobby_at sv l)"
    | "lb_active (lobby_at sv l)" "unat (CountLobbyRealPlayers (sv_peers sv) ?x) + unat (CountLobbySpectators (sv_peers sv) ?x) = 0"
    | "lb_active (lobby_at sv l)" "unat (CountLobbyRealPlayers (sv_peers sv) ?x) + unat (CountLobbySpectators (sv_peers sv) ?x) \<noteq> 0"
    by blast
  then show ?thesis
  proof cases
    case 1
    with ok show ?thesis by (simp add: TickLobby_def)
  next
    case 2
    have "fst (TickLobby env sv l) = upd_lobby sv l (rest_lobby (en_now_ms env))" using 2 by (simp add: TickLobby_def)
    then show ?thesis using rest_lobby_ok [OF ok l 2(2)] by simp
  next
    case 3
    define sv1 where "sv1 = upd_lobby sv l (\<lambda>lobby. lobby\<lparr>lb_empty_since_ms := 0\<rparr>)"
    define sv2 where "sv2 = fold (protect_waiting l) [0..<length (sv_peers sv1)] sv1"
    obtain lobby k where adj: "AdjustLobbyBots (en_libm env) (lobby_at sv2 l) (sv_peers sv2) (sv_next_player_id sv2) (en_now_ms env) = (lobby, k)"
      by fastforce
    define sv3 where "sv3 = (upd_lobby sv2 l (\<lambda>_. lobby))\<lparr>sv_next_player_id := k\<rparr>"
    define sv4 where "sv4 = upd_lobby sv3 l (upd_world (\<lambda>world. ShroomWorldStep (en_libm env) world tick_seconds))"
    obtain sv5 told where 5: "after_step (en_libm env) sv4 l (ws_match_phase (lb_world lobby)) = (sv5, told)" by fastforce
    define sv6 where "sv6 = fold (adjust_ai l) [0..<length (sv_peers sv5)] sv5"
    obtain sch emit where sch: "ShroomSnapshotSchedulerStep (Some (lb_snapshot_scheduler (lobby_at sv6 l))) = (sch, emit)" by fastforce
    define sv7 where "sv7 = upd_lobby sv6 l (\<lambda>lobby. lobby\<lparr>lb_snapshot_scheduler := the sch\<rparr>)"
    obtain sv8 snaps where 8: "(if emit then send_all SendSnapshot sv7 l else (sv7, [])) = (sv8, snaps)" by fastforce
    obtain sv9 states where 9: "(if ws_tick (lb_world (lobby_at sv8 l)) mod spore_interval_ticks = 0
      then send_all SendWorldState sv8 l else (sv8, [])) = (sv9, states)" by fastforce
    have 1: "server_quiet sv sv1" unfolding sv1_def by (rule quiet_same_world) (simp_all add: lobby_key_def)
    have 2: "server_quiet sv sv2" unfolding sv2_def by (rule server_quiet_trans [OF 1 quiet_fold]) (rule quiet_protect)
    have "ids_used sv2 = ids_used sv" using 2 by (simp add: server_quiet_def)
    then have ok3: "server_ok sv3" unfolding sv3_def using bots_ok [OF server_ok_quiet [OF ok 2] l lm _ adj] few by simp
    have "server_quiet sv3 sv4" unfolding sv4_def
      by (rule quiet_world [where f = "\<lambda>world. ShroomWorldStep (en_libm env) world tick_seconds"])
        (simp_all add: WorldStep_keeps WorldStep_ok [OF lm _ tick_seconds_within])
    then have ok5: "server_ok sv5" using after_step_ok [OF server_ok_quiet [OF ok3] lm, of sv4 l] by (metis 5 fst_conv)
    have 6: "server_quiet sv5 sv6" unfolding sv6_def by (rule quiet_fold) (rule quiet_adjust_ai)
    have 7: "server_quiet sv5 sv7" unfolding sv7_def
      by (rule server_quiet_trans [OF 6 quiet_same_world]) (simp_all add: lobby_key_def)
    have "server_quiet sv7 sv8" using 8 quiet_send_all [where f = SendSnapshot and sv = sv7 and l = l, OF send_keys(1)] by (simp split: if_splits)
    then have "server_quiet sv5 sv8" by (rule server_quiet_trans [OF 7])
    moreover have "server_quiet sv8 sv9" using 9 quiet_send_all [where f = SendWorldState and sv = sv8 and l = l, OF send_keys(2)] by (simp split: if_splits)
    ultimately have "server_ok sv9" by (rule ok_quiet_trans [OF ok5])
    moreover have "(\<not> lb_active (lobby_at sv l)) = False"
      "(unat (CountLobbyRealPlayers (sv_peers sv) ?x) + unat (CountLobbySpectators (sv_peers sv) ?x) = 0) = False" using 3 by blast+
    then have "fst (TickLobby env sv l) = sv9"
      unfolding TickLobby_def Let_def sv1_def [symmetric] sv2_def [symmetric] adj prod.case sv3_def [symmetric] sv4_def [symmetric] 5
        sv6_def [symmetric] sch sv7_def [symmetric] 8 9
      by (simp only: if_False fst_conv)
    ultimately show ?thesis by simp
  qed
qed

section \<open>Peers\<close>

lemma peer_ok:
  assumes ok: "server_ok sv" and i: "i < SHROOM_SERVER_MAX_CLIENTS" and p: "pe_session p = session_at sv i"
    and attached: "se_active (pe_session p) \<Longrightarrow> pe_attached p"
  shows "server_ok (sv\<lparr>sv_peers := (sv_peers sv)[i := p]\<rparr>)"
proof (rule server_ok_session [OF ok i])
  show "session_ok sv p" using server_okD(4) [OF ok i] p attached by (simp add: session_ok_def Let_def)
qed (simp_all add: p)

lemma ConnectPeer_ok: "server_ok sv \<Longrightarrow> i < SHROOM_SERVER_MAX_CLIENTS \<Longrightarrow> server_ok (ConnectPeer sv i)"
  unfolding ConnectPeer_def by (rule server_ok_quiet [OF peer_ok quiet_voice]) simp_all

lemma DisconnectPeer_ok:
  assumes ok: "server_ok sv" and i: "i < SHROOM_SERVER_MAX_CLIENTS"
  shows "server_ok (fst (DisconnectPeer sv i))"
proof -
  define sv1 where "sv1 = sv\<lparr>sv_peers := (sv_peers sv)[i := (peer_at sv i)\<lparr>pe_connected := False\<rparr>]\<rparr>"
  have 1: "server_ok sv1" unfolding sv1_def
    by (rule peer_ok [OF ok i]) (use server_okD(4) [OF ok i] in \<open>simp_all add: session_ok_def Let_def\<close>)
  define x where "x = (if pe_attached (peer_at sv1 i) then se_lobby_id (session_at sv1 i) else 0)"
  define r where "r = (case FindLobbyById (sv_lobbies sv1) x of
    None \<Rightarrow> (sv1, []) | Some l \<Rightarrow> withdraw_voter sv1 l (se_player_id (session_at sv1 i)))"
  define sv3 where "sv3 = (if pe_attached (peer_at (fst r) i) then DisconnectSession (fst r) i else fst r)"
  define sv4 where "sv4 = set_voice_peer sv3 i False 0 0"
  define sv5 where "sv5 = sv4\<lparr>sv_peers := (sv_peers sv4)[i := (peer_at sv4 i)\<lparr>pe_attached := False\<rparr>]\<rparr>"
  have "server_quiet sv1 (fst r)" by (simp add: r_def quiet_withdraw split: option.split)
  then have 2: "server_ok (fst r)" by (rule server_ok_quiet [OF 1])
  have 3: "server_ok sv3" using DisconnectSession_ok(1) [OF 2 i] 2 by (simp add: sv3_def)
  have gone: "\<not> se_active (session_at sv3 i)"
    using DisconnectSession_ok(2) [OF 2 i] server_okD(4) [OF 2 i] by (auto simp: sv3_def session_ok_def Let_def)
  have 4: "server_ok sv4" unfolding sv4_def by (rule server_ok_quiet [OF 3 quiet_voice])
  have "server_ok sv5" unfolding sv5_def by (rule peer_ok [OF 4 i]) (use gone in \<open>simp_all add: sv4_def set_voice_peer_def\<close>)
  then have "server_ok (fst (BroadcastLobbyRoster sv5 x))" by (rule server_ok_quiet [OF _ quiet_roster])
  moreover have "fst (DisconnectPeer sv i) = fst (BroadcastLobbyRoster sv5 x)"
    unfolding DisconnectPeer_def Let_def sv1_def [symmetric] x_def [symmetric] r_def [symmetric]
    by (simp add: case_prod_beta sv5_def sv4_def sv3_def)
  ultimately show ?thesis by simp
qed

section \<open>Reachable states\<close>

lemma server_step_ok:
  assumes "server_step lm sv sent sv'" and "server_ok sv" and "libm_ok lm"
    and "ids_used sv < 2 ^ 31" and "unat (sv_next_lobby_id sv) < 2 ^ 31"
  shows "server_ok sv'"
  using assms
proof cases
  case (connect i)
  with assms show ?thesis by (simp add: ConnectPeer_ok)
next
  case (receive i env header data_length channel_id body)
  then show ?thesis using HandlePacket_ok [OF assms(2) receive(1,2) _ assms(4,5), of env header data_length channel_id body] assms(3) by simp
next
  case (disconnecting i)
  show ?thesis unfolding disconnecting
    by (rule peer_ok [OF assms(2) disconnecting(3)])
      (use server_okD(4) [OF assms(2) disconnecting(3)] in \<open>simp_all add: session_ok_def Let_def\<close>)
next
  case (disconnect i)
  then show ?thesis using DisconnectPeer_ok [OF assms(2) disconnect(1)] by simp
next
  case (tick l env)
  then show ?thesis using TickLobby_ok [OF assms(2) tick(1) _ assms(4), of env] assms(3) by simp
qed

text \<open>The states reached while fewer than \<open>2^31\<close> player ids and lobby ids have been given out.\<close>

inductive server_reach :: "libm \<Rightarrow> server \<Rightarrow> bool" for lm where
  start: "(\<And>li. en_libm (env li) = lm) \<Longrightarrow> server_reach lm (default_lobbies env duration rate)"
| step: "server_reach lm sv \<Longrightarrow> ids_used sv < 2 ^ 31 \<Longrightarrow> unat (sv_next_lobby_id sv) < 2 ^ 31 \<Longrightarrow>
    server_step lm sv sent sv' \<Longrightarrow> server_reach lm sv'"

lemma empty_server_ok: "server_ok (empty_server duration rate)"
  by (simp add: server_ok_def lobbies_ok_def session_ok_def empty_server_def zero_lobby_def zero_session_def)

text \<open>The fixed lobbies, one after the other.  The first one has the id 1.\<close>

lemma default_prefix:
  fixes duration :: f32 and rate :: u16
  assumes "libm_ok lm" and "\<And>li. en_libm (env li) = lm" and "n \<le> SHROOM_LOBBY_DEFAULT_COUNT"
  defines "sv \<equiv> fold (create_default env) [0..<n] (empty_server duration rate)"
  shows "server_ok sv \<and> ids_used sv \<le> 1 + 17 * n \<and> unat (sv_next_lobby_id sv) \<le> 1 + n \<and>
    sv_peers sv = sv_peers (empty_server duration rate) \<and>
    (0 < n \<longrightarrow> lb_active (lobby_at sv 0) \<and> lb_lobby_id (lobby_at sv 0) = 1 \<and> length (ws_players (lb_world (lobby_at sv 0))) \<le> 17)"
  using assms(3) unfolding sv_def
proof (induction n)
  case 0
  then show ?case by (simp add: empty_server_ok) (simp add: empty_server_def)
next
  case (Suc n)
  let ?sv = "fold (create_default env) [0..<n] (empty_server duration rate)"
  let ?mode = "if n < SHROOM_LOBBY_DEFAULT_COUNT div 2 then SHROOM_GAME_MODE_FFA else SHROOM_GAME_MODE_KING_OF_HILL"
  have ih: "server_ok ?sv" "ids_used ?sv \<le> 1 + 17 * n" "unat (sv_next_lobby_id ?sv) \<le> 1 + n"
    "sv_peers ?sv = sv_peers (empty_server duration rate)" using Suc by simp_all
  obtain sv' r where c: "create_next (env n) None False ?mode ?sv = (sv', r)" by fastforce
  have few: "ids_used ?sv < 2 ^ 31" "unat (sv_next_lobby_id ?sv) < 2 ^ 31"
    using ih Suc.prems by (simp_all add: SHROOM_LOBBY_DEFAULT_COUNT_def)
  have lm: "libm_ok (en_libm (env n))" using assms by simp
  from create_next_ok [OF ih(1) lm few] have ok: "server_ok sv'" using c by (metis fst_conv)
  note grow = create_next_grow(1,2,3) [OF c] and len = server_okD(3) [OF ih(1)]
  have first: "lb_active (lobby_at sv' 0) \<and> lb_lobby_id (lobby_at sv' 0) = 1 \<and> length (ws_players (lb_world (lobby_at sv' 0))) \<le> 17"
  proof (cases "n = 0")
    case True
    have lobbies: "sv_lobbies ?sv = replicate SHROOM_MAX_LOBBIES zero_lobby" "sv_next_lobby_id ?sv = 1"
      using True by (simp_all add: empty_server_def)
    have "find_index (\<lambda>l. \<not> lb_active l) (sv_lobbies ?sv) = Some 0"
      unfolding lobbies by (simp add: SHROOM_MAX_LOBBIES_def zero_lobby_def eval_nat_numeral)
    then have "r = Some 0" using c by (auto simp: create_next_def CreateLobby_def split: prod.splits)
    from create_next_grow(5) [OF c this lm few(1)] show ?thesis using lobbies(2) by simp
  next
    case False
    then have "lb_active (lobby_at ?sv 0) \<and> lb_lobby_id (lobby_at ?sv 0) = 1 \<and> length (ws_players (lb_world (lobby_at ?sv 0))) \<le> 17"
      using Suc by simp
    then show ?thesis using create_next_others [OF c lm few(1), of 0] len by (simp add: SHROOM_MAX_LOBBIES_def)
  qed
  have "unat (sv_next_lobby_id ?sv + 1) \<le> Suc (unat (sv_next_lobby_id ?sv))" by unat_arith
  moreover have "fold (create_default env) [0..<Suc n] (empty_server duration rate) = sv'"
    using c by (simp add: create_default_def)
  moreover have "ids_used sv' \<le> 1 + 17 * Suc n" using grow ih(2) by simp
  moreover have "unat (sv_next_lobby_id sv') \<le> 1 + Suc n" using grow ih(3) calculation(1) by simp
  moreover have "sv_peers sv' = sv_peers (empty_server duration rate)" using grow ih(4) by simp
  ultimately show ?case using ok first by (simp only:) simp
qed

lemma default_lobbies_ok:
  assumes "libm_ok lm" and "\<And>li. en_libm (env li) = lm"
  shows "server_ok (default_lobbies env duration rate)"
  using default_prefix [OF assms order.refl, where duration = duration and rate = rate] by (simp add: default_lobbies_def)

lemma reach_ok:
  assumes "server_reach lm sv" and "libm_ok lm"
  shows "server_ok sv"
  using assms(1) by induction (simp_all add: default_lobbies_ok [OF assms(2)] server_step_ok [OF _ _ assms(2)])

end
