(* ===== verification/Server_Play.thy ===== *)
theory Server_Play
  imports Server_Sound
begin

text \<open>
  What the invariant says of every state the server reaches, and that a player who asks for a lobby
  with room gets into it.  The witnesses run the server: a peer connects, says hello and joins.
\<close>

section \<open>Filling a lobby\<close>

lemma SpawnPlayer_room:
  assumes "k \<noteq> 0" and "length (ws_players w) < SHROOM_MAX_PLAYER_ENTITIES"
  obtains i w' where "ShroomWorldSpawnPlayer lm w k b = (Some i, w')"
proof -
  have "fst (ShroomWorldSpawnPlayer lm w k b) \<noteq> None"
    using assms by (simp add: ShroomWorldSpawnPlayer_def Let_def case_prod_beta del: find_index_None)
  then show ?thesis using that by (metis option.exhaust prod.collapse)
qed

lemma AddLobbyBot_room:
  assumes "k \<noteq> 0" and "length (ws_players (lb_world lobby)) < SHROOM_MAX_PLAYER_ENTITIES"
  obtains lobby' where "AddLobbyBot lm lobby k = (True, lobby', k + 1)"
proof -
  obtain i w where "ShroomWorldSpawnPlayer lm (lb_world lobby) k True = (Some i, w)" using SpawnPlayer_room [OF assms] .
  then show ?thesis using that by (simp add: AddLobbyBot_def)
qed

lemma InitializeLobbyBots_fills:
  assumes "CountLobbyAliveBots lobby \<le> GetLobbyBotTarget 0" and "k \<noteq> 0" and "unat k + (16 - unat (CountLobbyAliveBots lobby)) < 2 ^ 32"
    and "length (ws_players (lb_world lobby)) + (16 - unat (CountLobbyAliveBots lobby)) \<le> SHROOM_MAX_PLAYER_ENTITIES"
    and "InitializeLobbyBots lm lobby k = (lobby', k')"
  shows "CountLobbyAliveBots lobby' = GetLobbyBotTarget 0 \<and> unat k' = unat k + (16 - unat (CountLobbyAliveBots lobby))"
  using assms
proof (induction "16 - unat (CountLobbyAliveBots lobby)" arbitrary: lobby k)
  case 0
  have target: "unat (GetLobbyBotTarget 0) = 16" by code_simp
  then have "CountLobbyAliveBots lobby = GetLobbyBotTarget 0" using 0 by (simp add: word_le_nat_alt word_unat_eq_iff)
  then show ?case using "0.prems"(5) target by (simp add: InitializeLobbyBots.simps [of lm lobby k])
next
  case (Suc n)
  have target: "unat (GetLobbyBotTarget 0) = 16" by code_simp
  have less: "CountLobbyAliveBots lobby < GetLobbyBotTarget 0" using Suc.hyps(2) target by (simp add: word_less_nat_alt)
  obtain l1 where a: "AddLobbyBot lm lobby k = (True, l1, k + 1)"
    using AddLobbyBot_room [of k lobby lm] Suc.hyps(2) Suc.prems(2,4) by auto
  have count: "CountLobbyAliveBots l1 = CountLobbyAliveBots lobby + 1" by (rule AddLobbyBot_count [OF a])
  then have c: "unat (CountLobbyAliveBots l1) = Suc (unat (CountLobbyAliveBots lobby))" using unat_less_Suc [OF less] by simp
  have suc: "unat (k + 1) = Suc (unat k)" by (rule unat_succ) (use Suc.prems(3) Suc.hyps(2) in simp)
  show ?case
  proof (cases "n = 0")
    case True
    then have full: "CountLobbyAliveBots l1 = GetLobbyBotTarget 0" using c Suc.hyps(2) target by (simp add: word_unat_eq_iff)
    have "InitializeLobbyBots lm lobby k = (l1, k + 1)"
      using less a full by (simp add: InitializeLobbyBots.simps [of lm lobby k] InitializeLobbyBots.simps [of lm l1 "k + 1"])
    then show ?thesis using Suc.prems(5) full suc True Suc.hyps(2) by simp
  next
    case False
    have "InitializeLobbyBots lm l1 (k + 1) = (lobby', k')"
      using Suc.prems(5) less a by (simp add: InitializeLobbyBots.simps [of lm lobby k])
    moreover have "CountLobbyAliveBots l1 \<le> GetLobbyBotTarget 0" using c Suc.hyps(2) target by (simp add: word_le_nat_alt)
    moreover have "k + 1 \<noteq> 0" using suc by (metis nat.distinct(1) unat_0)
    moreover have "length (ws_players (lb_world l1)) + (16 - unat (CountLobbyAliveBots l1)) \<le> SHROOM_MAX_PLAYER_ENTITIES"
      using AddLobbyBot_grow(2) [OF a] c Suc.hyps(2) Suc.prems(4) by linarith
    moreover have "n = 16 - unat (CountLobbyAliveBots l1)" using c Suc.hyps(2) by linarith
    moreover have "unat (k + 1) + (16 - unat (CountLobbyAliveBots l1)) < 2 ^ 32" using suc c Suc.hyps(2) Suc.prems(3) by linarith
    ultimately show ?thesis using Suc.hyps(1) [of l1 "k + 1"] suc c Suc.hyps(2) by simp
  qed
qed

text \<open>A concrete C library for the witnesses; every value within the range of cosine and sine will do.\<close>

definition witness_libm :: libm where
  "witness_libm = \<lparr>lm_cosf = (\<lambda>_. 0), lm_sinf = (\<lambda>_. 0)\<rparr>"

lemma witness_libm_ok: "libm_ok witness_libm"
proof -
  have "f32_within 0xbf800000 0x3f800000 0" by code_simp
  then show ?thesis by (simp add: libm_ok_def witness_libm_def)
qed

text \<open>C19. Filling a lobby ends: starting with at most the target number of bots and with slots for all,
  \<open>InitializeLobbyBots\<close> leaves exactly the target number of live bots and has used one player id for each.
\<close>

theorem bots_fill_lobby:
  assumes "CountLobbyAliveBots lobby \<le> GetLobbyBotTarget 0" and "k \<noteq> 0" and "unat k + (16 - unat (CountLobbyAliveBots lobby)) < 2 ^ 32"
    and "length (ws_players (lb_world lobby)) + (16 - unat (CountLobbyAliveBots lobby)) \<le> SHROOM_MAX_PLAYER_ENTITIES"
  shows "CountLobbyAliveBots (fst (InitializeLobbyBots lm lobby k)) = GetLobbyBotTarget 0 \<and> GetLobbyBotTarget 0 = 16 \<and>
    unat (snd (InitializeLobbyBots lm lobby k)) = unat k + (16 - unat (CountLobbyAliveBots lobby))"
proof -
  have "GetLobbyBotTarget 0 = 16" by code_simp
  with InitializeLobbyBots_fills [OF assms] show ?thesis by (metis prod.collapse)
qed

theorem bots_fill_lobby_witness:
  "CountLobbyAliveBots (fst (InitializeLobbyBots witness_libm zero_lobby 1)) = 16 \<and>
   unat (snd (InitializeLobbyBots witness_libm zero_lobby 1)) = 17"
proof -
  have "CountLobbyAliveBots zero_lobby = 0" "length (ws_players (lb_world zero_lobby)) = 0"
    by (simp_all add: CountLobbyAliveBots_def zero_lobby_def zero_world_def)
  moreover have "16 \<le> SHROOM_MAX_PLAYER_ENTITIES" by code_simp
  ultimately show ?thesis using bots_fill_lobby [of zero_lobby 1 witness_libm] by auto
qed

section \<open>Joining\<close>

lemma admission_with_room:
  assumes "unat real + unat bots < 256"
  shows "ShroomLobbyPlanAdmission real bots = \<lparr>ap_accepted = True, ap_bots_to_remove = 0\<rparr>"
proof -
  have "unat (ucast real :: u32) = unat real" "unat (ucast bots :: u32) = unat bots" by simp_all
  moreover have "unat (ucast real + ucast bots :: u32) = unat real + unat bots"
    using assms calculation by (simp add: unat_word_ariths)
  ultimately show ?thesis
    using assms by (simp add: ShroomLobbyPlanAdmission_def Let_def word_le_nat_alt word_less_nat_alt
        SHROOM_MAX_PLAYABLE_PARTICIPANTS_def SHROOM_MAX_PARTICIPANTS_def)
qed

lemma join_succeeds:
  assumes ok: "server_ok sv" and i: "i < SHROOM_SERVER_MAX_CLIENTS" and few: "ids_used sv < 2 ^ 31"
    and s: "se_handshake_received (session_at sv i)" "se_lobby_id (session_at sv i) = 0"
    and l: "FindLobbyById (sv_lobbies sv) x = Some l"
    and room: "unat (CountLobbyRealPlayers (sv_peers sv) x) + unat (CountLobbyAliveBots (lobby_at sv l)) < 256"
      "length (ws_players (lb_world (lobby_at sv l))) < SHROOM_MAX_PLAYER_ENTITIES"
  obtains p where "se_player (session_at (fst (HandleLobbyJoin env sv i x False)) i) = Some p"
    and "se_lobby_id (session_at (fst (HandleLobbyJoin env sv i x False)) i) = x"
    and "se_player_id (session_at (fst (HandleLobbyJoin env sv i x False)) i) = sv_next_player_id sv"
proof -
  let ?lb = "lobby_at sv l" and ?k = "sv_next_player_id sv"
  have lx: "lb_lobby_id ?lb = x" "l < length (sv_lobbies sv)" using find_lobbyD [OF l server_okD(3) [OF ok]] server_okD(3) [OF ok] by simp_all
  have len: "i < length (sv_peers sv)" using i server_okD(2) [OF ok] by simp
  have "upd_lobby sv l (\<lambda>_. ?lb) = sv" by (simp add: upd_lobby_def)
  then have admit: "admit sv l False = (True, sv)"
    using admission_with_room [OF room(1)] by (simp add: admit_def Let_def lx)
  define sv2 where "sv2 = upd_session sv i (\<lambda>s. (fresh_replication s)\<lparr>se_lobby_id := lb_lobby_id ?lb,
    se_spectating := False, se_is_ready := False, se_entered_match := False\<rparr>)"
  have sv2: "sv_next_player_id sv2 = ?k" "lobby_at sv2 l = ?lb" "length (sv_peers sv2) = length (sv_peers sv)"
    "sv_lobbies sv2 = sv_lobbies sv" "se_lobby_id (session_at sv2 i) = x" using len by (simp_all add: sv2_def upd_session_def lx)
  have "0 < ids_used sv" using server_okD(4) [OF ok i] by (simp add: session_ok_def Let_def)
  then have "?k \<noteq> 0" by auto
  then obtain p w where sp: "ShroomWorldSpawnPlayer (en_libm env) (lb_world ?lb) ?k False = (Some p, w)"
    using SpawnPlayer_room room(2) by blast
  define w' where "w' = upd_player w p (\<lambda>q. q\<lparr>pl_name := fst (snprintf_s (pl_name q) (se_display_name (session_at sv2 i)))\<rparr>)"
  have "pl_player_id (player_at w' p) = ?k"
  proof (rule SpawnPlayer_players [OF sp])
    fix ps q assume "ws_players w = ps[p := q]" "p < length ps" "pl_player_id q = ?k"
    then show ?thesis by (simp add: w'_def upd_player_def)
  qed
  define sv3 where "sv3 = upd_session (upd_lobby (sv2\<lparr>sv_next_player_id := ?k + 1\<rparr>) l (upd_world (\<lambda>_. w'))) i
    (\<lambda>s. s\<lparr>se_player := Some p, se_player_id := ?k\<rparr>)"
  have spawn: "spawn_session env sv2 i l = (True, sv3)"
    using \<open>pl_player_id (player_at w' p) = ?k\<close> unfolding spawn_session_def Let_def
    by (simp add: sv2 sp sv3_def upd_lobby_def upd_session_def w'_def)
  have s3: "se_player (session_at sv3 i) = Some p" "se_lobby_id (session_at sv3 i) = x" "se_player_id (session_at sv3 i) = ?k"
    using len sv2 by (simp_all add: sv3_def upd_session_def upd_lobby_def)
  have peers: "sv_peers (fst (BroadcastLobbyRoster (set_voice_peer sv3 i True a b) c)) = sv_peers sv3" for a b c
    by (simp add: BroadcastLobbyRoster_def Let_def set_voice_peer_def)
  have eq: "sv_peers (fst (HandleLobbyJoin env sv i x False)) = sv_peers sv3"
    using s peers unfolding HandleLobbyJoin_def l option.case admit Let_def prod.case sv2_def [symmetric]
    by (simp add: spawn case_prod_beta)
  show ?thesis by (rule that [of p]) (simp_all add: eq s3)
qed

end
