(* ===== verification/Server_Safety.thy ===== *)
theory Server_Safety
  imports Server_Play
begin

text \<open>The properties of all reachable states of the server, and a run that reaches one with a player.\<close>

section \<open>A run\<close>

definition witness_env :: server_env where
  "witness_env = \<lparr>en_libm = witness_libm, en_now_ms = 0, en_now_sec = 0, en_seed = 1, en_db = False,
     en_stored_identity = None, en_random_identity = 5, en_history_rows = None, en_species_rows = None\<rparr>"

definition witness_header :: "nat \<Rightarrow> ShroomPacketHeader" where
  "witness_header t = \<lparr>ph_type = word_of_nat t, ph_reserved = ShroomPacketTypeToChannel t, ph_size = 100\<rparr>"

definition witness_start :: server where
  "witness_start = default_lobbies (\<lambda>_. witness_env) 0x43960000 15"

definition witness_connected :: server where
  "witness_connected = ConnectPeer witness_start 0"

definition witness_greeted :: server where
  "witness_greeted = fst (HandlePacket witness_env witness_connected 0 (witness_header SHROOM_PACKET_HELLO) 100
     (ShroomPacketTypeToChannel SHROOM_PACKET_HELLO) (Hello SHROOM_PROTOCOL_VERSION (replicate 32 65)))"

definition witness_joined :: server where
  "witness_joined = fst (HandlePacket witness_env witness_greeted 0 (witness_header SHROOM_PACKET_LOBBY_JOIN) 100
     (ShroomPacketTypeToChannel SHROOM_PACKET_LOBBY_JOIN) (Lobby_Join 1 False))"

lemma witness_env_libm [simp]: "en_libm witness_env = witness_libm"
  by (simp add: witness_env_def)

lemma witness_start_facts:
  "server_reach witness_libm witness_start" "server_ok witness_start" "ids_used witness_start \<le> 69" "unat (sv_next_lobby_id witness_start) \<le> 5"
  "sv_peers witness_start = sv_peers (empty_server 0x43960000 15)" "lb_active (lobby_at witness_start 0)"
  "lb_lobby_id (lobby_at witness_start 0) = 1" "length (ws_players (lb_world (lobby_at witness_start 0))) \<le> 17"
proof -
  show "server_reach witness_libm witness_start" unfolding witness_start_def by (rule start) simp
  have "SHROOM_LOBBY_DEFAULT_COUNT = 4" by (simp add: SHROOM_LOBBY_DEFAULT_COUNT_def)
  with default_prefix [OF witness_libm_ok _ order.refl, where env = "\<lambda>_. witness_env" and duration = "0x43960000" and rate = 15]
  show "server_ok witness_start" "ids_used witness_start \<le> 69" "unat (sv_next_lobby_id witness_start) \<le> 5"
    "sv_peers witness_start = sv_peers (empty_server 0x43960000 15)" "lb_active (lobby_at witness_start 0)"
    "lb_lobby_id (lobby_at witness_start 0) = 1" "length (ws_players (lb_world (lobby_at witness_start 0))) \<le> 17"
    by (simp_all add: witness_start_def default_lobbies_def)
qed

text \<open>A packet with the header of its type reaches its handler.\<close>

lemma witness_sizes:
  "ShroomPacketTypeMinimumSize SHROOM_PACKET_HELLO = 40" "ShroomPacketTypeMinimumSize SHROOM_PACKET_LOBBY_JOIN = 12"
proof -
  have "size_of ShroomHelloPacket_layout = 40" "size_of ShroomLobbyJoinPacket_layout = 12"
    by (simp_all add: packet_layouts c_header_eval basic_layout)
  then show "ShroomPacketTypeMinimumSize SHROOM_PACKET_HELLO = 40" "ShroomPacketTypeMinimumSize SHROOM_PACKET_LOBBY_JOIN = 12"
    by (simp_all add: ShroomPacketTypeMinimumSize_def SHROOM_PACKET_METADATA_def)
qed

lemma witness_packet:
  assumes "message_type body = t" and "t = SHROOM_PACKET_HELLO \<or> t = SHROOM_PACKET_LOBBY_JOIN"
  shows "HandlePacket env sv i (witness_header t) 100 (ShroomPacketTypeToChannel t) body = DispatchMessage env sv i 100 100 body"
proof -
  have t: "unat (word_of_nat t :: u8) = t"
    using assms(2) by auto
  have m: "ShroomPacketTypeMinimumSize t \<noteq> 0 \<and> \<not> 100 < unat (ShroomPacketTypeMinimumSize t)"
    using assms(2) witness_sizes by auto
  have "ShroomPacketHeaderUsesExpectedChannel (Some (witness_header t)) (ShroomPacketTypeToChannel t)"
    using t by (simp add: ShroomPacketHeaderUsesExpectedChannel_def witness_header_def)
  with t m show ?thesis using assms(1) by (simp add: HandlePacket_def Let_def witness_header_def packet_sizes)
qed

text \<open>The peer connects, says hello and asks for the first lobby.\<close>

lemma witness_peers:
  "i < SHROOM_SERVER_MAX_CLIENTS \<Longrightarrow> peer_at witness_start i = \<lparr>pe_connected = False, pe_attached = False, pe_session = zero_session\<rparr>"
  "length (sv_peers witness_start) = SHROOM_SERVER_MAX_CLIENTS"
  using witness_start_facts(5) by (simp_all add: empty_server_def)

lemma witness_connected_facts:
  "sv_lobbies witness_connected = sv_lobbies witness_start" "sv_next_player_id witness_connected = sv_next_player_id witness_start"
  "sv_next_lobby_id witness_connected = sv_next_lobby_id witness_start"
  "sv_peers witness_connected = (sv_peers witness_start)[0 := \<lparr>pe_connected = True, pe_attached = True, pe_session = zero_session\<rparr>]"
  using witness_peers(1) [of 0] by (simp_all add: witness_connected_def ConnectPeer_def set_voice_peer_def SHROOM_SERVER_MAX_CLIENTS_def)

lemma witness_greeted_facts:
  "sv_lobbies witness_greeted = sv_lobbies witness_start" "sv_next_player_id witness_greeted = sv_next_player_id witness_start"
  "sv_next_lobby_id witness_greeted = sv_next_lobby_id witness_start"
  "se_handshake_received (session_at witness_greeted 0)" "se_lobby_id (session_at witness_greeted 0) = 0"
  "CountLobbyRealPlayers (sv_peers witness_greeted) 1 = 0" "pe_attached (peer_at witness_greeted 0)"
proof -
  note c = witness_connected_facts
  have len: "0 < length (sv_peers witness_start)" using witness_peers(2) by (simp add: SHROOM_SERVER_MAX_CLIENTS_def)
  obtain f where f: "witness_greeted = upd_session witness_connected 0 (\<lambda>s. s\<lparr>se_display_name := f, se_active := True, se_handshake_received := True\<rparr>)"
    using witness_packet [of "Hello SHROOM_PROTOCOL_VERSION (replicate 32 65)" SHROOM_PACKET_HELLO witness_env witness_connected 0] len
    by (simp add: witness_greeted_def DispatchMessage_def HandleHelloPacket_def Let_def c zero_session_def)
  show "sv_lobbies witness_greeted = sv_lobbies witness_start" "sv_next_player_id witness_greeted = sv_next_player_id witness_start"
    "sv_next_lobby_id witness_greeted = sv_next_lobby_id witness_start"
    "se_handshake_received (session_at witness_greeted 0)" "se_lobby_id (session_at witness_greeted 0) = 0" "pe_attached (peer_at witness_greeted 0)"
    using len by (simp_all add: f upd_session_def c zero_session_def)
  have "p \<in> set (sv_peers witness_greeted) \<Longrightarrow> se_lobby_id (pe_session p) = 0" for p
    using len witness_start_facts(5)
    by (auto simp: f upd_session_def c zero_session_def empty_server_def dest!: set_update_subset_insert [THEN subsetD])
  then have "count_if (\<lambda>p. in_lobby 1 p \<and> \<not> se_spectating (pe_session p)) (sv_peers witness_greeted) = 0"
    by (auto simp: in_lobby_def count_if_def filter_empty_conv)
  then show "CountLobbyRealPlayers (sv_peers witness_greeted) 1 = 0" by (simp add: CountLobbyRealPlayers_def)
qed

lemma witness_reach: "server_reach witness_libm witness_connected" "server_reach witness_libm witness_greeted"
  "server_reach witness_libm witness_joined"
proof -
  have few: "ids_used sv < 2 ^ 31" "unat (sv_next_lobby_id sv) < 2 ^ 31"
    if "sv_next_player_id sv = sv_next_player_id witness_start" "sv_next_lobby_id sv = sv_next_lobby_id witness_start" for sv
    using witness_start_facts(3,4) that by simp_all
  have "server_step witness_libm witness_start [] witness_connected"
    unfolding witness_connected_def by (rule connect) (simp_all add: witness_peers SHROOM_SERVER_MAX_CLIENTS_def)
  then show 1: "server_reach witness_libm witness_connected" by (rule server_reach.step [OF witness_start_facts(1) few, rotated -1]) simp_all
  let ?hello = "HandlePacket witness_env witness_connected 0 (witness_header SHROOM_PACKET_HELLO) 100
     (ShroomPacketTypeToChannel SHROOM_PACKET_HELLO) (Hello SHROOM_PROTOCOL_VERSION (replicate 32 65))"
  have "server_step witness_libm witness_connected (snd ?hello) witness_greeted"
    by (rule receive [of 0 _ witness_env])
      (simp_all add: witness_greeted_def witness_connected_facts witness_peers SHROOM_SERVER_MAX_CLIENTS_def)
  then show 2: "server_reach witness_libm witness_greeted" by (rule server_reach.step [OF 1 few, rotated -1]) (simp_all add: witness_connected_facts)
  let ?join = "HandlePacket witness_env witness_greeted 0 (witness_header SHROOM_PACKET_LOBBY_JOIN) 100
     (ShroomPacketTypeToChannel SHROOM_PACKET_LOBBY_JOIN) (Lobby_Join 1 False)"
  have "server_step witness_libm witness_greeted (snd ?join) witness_joined"
    by (rule receive [of 0 _ witness_env])
      (simp_all add: witness_joined_def witness_greeted_facts SHROOM_SERVER_MAX_CLIENTS_def)
  then show "server_reach witness_libm witness_joined" by (rule server_reach.step [OF 2 few, rotated -1]) (simp_all add: witness_greeted_facts)
qed

lemma witness_room:
  "server_ok witness_greeted" "FindLobbyById (sv_lobbies witness_greeted) 1 = Some 0"
  "unat (CountLobbyRealPlayers (sv_peers witness_greeted) 1) + unat (CountLobbyAliveBots (lobby_at witness_greeted 0)) < 256"
  "length (ws_players (lb_world (lobby_at witness_greeted 0))) < SHROOM_MAX_PLAYER_ENTITIES" "ids_used witness_greeted < 2 ^ 31"
proof -
  note g = witness_greeted_facts and s = witness_start_facts
  show ok: "server_ok witness_greeted" by (rule reach_ok [OF witness_reach(2) witness_libm_ok])
  from find_lobby [OF server_okD(1) [OF s(2)], of 0] s(6,7) g(1) show "FindLobbyById (sv_lobbies witness_greeted) 1 = Some 0"
    by (simp add: SHROOM_MAX_LOBBIES_def)
  have len: "length (ws_players (lb_world (lobby_at witness_greeted 0))) \<le> 17" using s(8) g(1) by simp
  then show "length (ws_players (lb_world (lobby_at witness_greeted 0))) < SHROOM_MAX_PLAYER_ENTITIES" by (simp add: SHROOM_MAX_PLAYER_ENTITIES_def SHROOM_MAX_PARTICIPANTS_def SHROOM_MAX_SPLIT_PIECES_def)
  have "count_if alive_bot (ws_players (lb_world (lobby_at witness_greeted 0))) \<le> 17"
    using len by (simp add: count_if_def le_trans [OF length_filter_le])
  then have "unat (CountLobbyAliveBots (lobby_at witness_greeted 0)) \<le> 17" unfolding CountLobbyAliveBots_def
    by (simp add: unat_word_of_nat_small)
  then show "unat (CountLobbyRealPlayers (sv_peers witness_greeted) 1) + unat (CountLobbyAliveBots (lobby_at witness_greeted 0)) < 256"
    by (simp add: g)
  show "ids_used witness_greeted < 2 ^ 31" using s(3) g(2) by simp
qed

section \<open>What holds of every reachable state\<close>

text \<open>C2. In every state the server reaches, the player pointer of a session leads into the world of the lobby
  the session is in, to the living primary piece that carries the session's player id; it is no bot, and no
  other session has that id.  The pointer stays right while pieces are consumed, split, merged and removed.
\<close>

theorem session_keeps_its_player:
  assumes "libm_ok lm" and "server_reach lm sv" and "i < SHROOM_SERVER_MAX_CLIENTS" and "se_player (session_at sv i) = Some p"
  shows "\<exists>l. FindLobbyById (sv_lobbies sv) (se_lobby_id (session_at sv i)) = Some l \<and>
    p < length (ws_players (lb_world (lobby_at sv l))) \<and>
    (let player = player_at (lb_world (lobby_at sv l)) p
     in pl_alive player \<and> pl_piece_index player = 0 \<and> \<not> pl_is_bot player \<and>
        pl_player_id player = se_player_id (session_at sv i) \<and> pl_player_id player \<noteq> 0) \<and>
    (\<forall>j<SHROOM_SERVER_MAX_CLIENTS. j \<noteq> i \<longrightarrow> se_player_id (session_at sv j) \<noteq> se_player_id (session_at sv i))"
proof -
  have ok: "server_ok sv" using assms(1,2) by (simp add: reach_ok)
  then have "session_ok sv (peer_at sv i)" using assms(3) by (rule server_okD)
  then obtain l where l: "l < SHROOM_MAX_LOBBIES" "lb_active (lobby_at sv l)" "lb_lobby_id (lobby_at sv l) = se_lobby_id (session_at sv i)"
    and h: "human (lb_world (lobby_at sv l)) p (se_player_id (session_at sv i))"
    using assms(4) by (auto simp: session_ok_def Let_def)
  from find_lobby [OF server_okD(1) [OF ok] l(1,2)] l(3)
  have "FindLobbyById (sv_lobbies sv) (se_lobby_id (session_at sv i)) = Some l" by simp
  moreover have "\<forall>j<SHROOM_SERVER_MAX_CLIENTS. j \<noteq> i \<longrightarrow> se_player_id (session_at sv j) \<noteq> se_player_id (session_at sv i)"
    using ok assms(3) h unfolding server_ok_def human_iff by metis
  ultimately show ?thesis using h by (auto simp: human_iff Let_def)
qed

text \<open>C5. The world of every lobby that runs is sound in every state the server reaches: positions inside
  the arena, masses, timers and counters within their bounds, no more players, spores and powerups than
  the arrays hold; and the lobby is the one its id finds.
\<close>

theorem server_worlds_sound:
  assumes "libm_ok lm" and "server_reach lm sv" and "l < SHROOM_MAX_LOBBIES" and "lb_active (lobby_at sv l)"
  shows "world_ok (lb_world (lobby_at sv l)) \<and> FindLobbyById (sv_lobbies sv) (lb_lobby_id (lobby_at sv l)) = Some l"
proof -
  have ok: "server_ok sv" using assms(1,2) by (simp add: reach_ok)
  from server_okD(1) [OF ok] assms(3,4) have "world_ok (lb_world (lobby_at sv l))" by (simp add: lobbies_ok_def world_good_def)
  with find_lobby [OF server_okD(1) [OF ok] assms(3,4)] show ?thesis by simp
qed

theorem server_worlds_sound_witness:
  "world_ok (lb_world (lobby_at witness_start 0)) \<and> FindLobbyById (sv_lobbies witness_start) 1 = Some 0"
  using server_worlds_sound [OF witness_libm_ok witness_start_facts(1), of 0] witness_start_facts(6,7)
  by (simp add: SHROOM_MAX_LOBBIES_def)

text \<open>C4. Joining succeeds when there is room: a session in no lobby that has said hello and asks for a lobby
  with a free place gets a living player of its own there, under a fresh player id, and nothing that the
  invariant says of the server is lost.
\<close>

theorem join_enters_lobby:
  assumes "libm_ok (en_libm env)" and "server_reach (en_libm env) sv" and "i < SHROOM_SERVER_MAX_CLIENTS" and "ids_used sv < 2 ^ 31"
    and "se_handshake_received (session_at sv i)" and "se_lobby_id (session_at sv i) = 0"
    and "FindLobbyById (sv_lobbies sv) x = Some l"
    and "unat (CountLobbyRealPlayers (sv_peers sv) x) + unat (CountLobbyAliveBots (lobby_at sv l)) < 256"
    and "length (ws_players (lb_world (lobby_at sv l))) < SHROOM_MAX_PLAYER_ENTITIES"
  shows "\<exists>p m. se_player (session_at (fst (HandleLobbyJoin env sv i x False)) i) = Some p \<and>
    se_lobby_id (session_at (fst (HandleLobbyJoin env sv i x False)) i) = x \<and>
    FindLobbyById (sv_lobbies (fst (HandleLobbyJoin env sv i x False))) x = Some m \<and>
    pl_alive (player_at (lb_world (lobby_at (fst (HandleLobbyJoin env sv i x False)) m)) p) \<and>
    pl_player_id (player_at (lb_world (lobby_at (fst (HandleLobbyJoin env sv i x False)) m)) p) = sv_next_player_id sv \<and>
    server_ok (fst (HandleLobbyJoin env sv i x False))"
proof -
  have ok: "server_ok sv" using assms(1,2) by (simp add: reach_ok)
  let ?sv = "fst (HandleLobbyJoin env sv i x False)"
  obtain p where p: "se_player (session_at ?sv i) = Some p" "se_lobby_id (session_at ?sv i) = x"
    "se_player_id (session_at ?sv i) = sv_next_player_id sv"
    using join_succeeds [OF ok assms(3,4,5,6,7,8,9), of env] by blast
  have ok': "server_ok ?sv" by (rule HandleLobbyJoin_ok [OF ok assms(3,1,4)])
  then have "session_ok ?sv (peer_at ?sv i)" using assms(3) by (rule server_okD)
  moreover have "x \<noteq> 0" using assms(7) by (auto simp: FindLobbyById_def split: if_splits)
  ultimately obtain m where m: "m < SHROOM_MAX_LOBBIES" "lb_active (lobby_at ?sv m)" "lb_lobby_id (lobby_at ?sv m) = x"
    using p by (auto simp: session_ok_def Let_def)
  from find_lobby [OF server_okD(1) [OF ok'] m(1,2)] m(3) have f: "FindLobbyById (sv_lobbies ?sv) x = Some m" by simp
  from session_player [OF ok' assms(3) p(1), of m] f p have "human (lb_world (lobby_at ?sv m)) p (sv_next_player_id sv)" by simp
  with p f ok' show ?thesis by (auto simp: human_iff)
qed

theorem join_enters_lobby_witness:
  "\<exists>p. se_player (session_at (fst (HandleLobbyJoin witness_env witness_greeted 0 1 False)) 0) = Some p"
  using join_enters_lobby [of witness_env witness_greeted 0 1 0, simplified, OF witness_libm_ok witness_reach(2) _ _
      witness_greeted_facts(4,5) witness_room(2,3,4)] witness_room(5) by (auto simp: SHROOM_SERVER_MAX_CLIENTS_def)

text \<open>The player of the run's session.\<close>

lemma witness_joined_player:
  obtains p where "se_player (session_at witness_joined 0) = Some p"
proof -
  have "witness_joined = fst (HandleLobbyJoin witness_env witness_greeted 0 1 False)"
    unfolding witness_joined_def by (subst witness_packet) (simp_all add: DispatchMessage_def)
  with join_succeeds [OF witness_room(1) _ witness_room(5) witness_greeted_facts(4,5) witness_room(2,3,4), of witness_env]
  show ?thesis using that by (auto simp: SHROOM_SERVER_MAX_CLIENTS_def)
qed

theorem session_keeps_its_player_witness:
  "\<exists>p l. se_player (session_at witness_joined 0) = Some p \<and> pl_alive (player_at (lb_world (lobby_at witness_joined l)) p)"
proof -
  obtain p where p: "se_player (session_at witness_joined 0) = Some p" by (rule witness_joined_player)
  with session_keeps_its_player [OF witness_libm_ok witness_reach(3) _ p] show ?thesis
    by (auto simp: SHROOM_SERVER_MAX_CLIENTS_def Let_def)
qed

end
