(* ===== verification/Matchmaking.thy ===== *)
theory Matchmaking
  imports Directory_Registry C_Text Sim_Sound "HOL-Library.Product_Lexorder" "HOL-Library.List_Lexorder"
begin

text \<open>
  The choice of a server for a quick match (\<open>src/src/client/matchmaking_selector.c\<close>): every server that can be
  joined gets a score from its latency and its load, and the best one is taken, with ties broken by latency, load,
  host and port.  The choice is shown to be a minimum of a total order on the candidates.
\<close>

section \<open>Definitions\<close>

definition SHROOM_MATCHMAKING_DEFAULT_LATENCY_WEIGHT :: f32 where "SHROOM_MATCHMAKING_DEFAULT_LATENCY_WEIGHT = 0x3f333333"
definition SHROOM_MATCHMAKING_DEFAULT_LOAD_WEIGHT :: f32 where "SHROOM_MATCHMAKING_DEFAULT_LOAD_WEIGHT = 0x3e99999a"
definition SHROOM_MATCHMAKING_PREFERRED_LATENCY_MS :: nat where "SHROOM_MATCHMAKING_PREFERRED_LATENCY_MS = 200"
definition SIZE_MAX :: nat where "SIZE_MAX = 2 ^ 64 - 1"

record ShroomMatchmakingWeights =
  mw_latency :: f32
  mw_load :: f32

text \<open>The host is a pointer to a text.\<close>

record ShroomMatchmakingCandidate =
  mc_host :: "u8 list option"
  mc_port :: u16
  mc_latency_ms :: u16
  mc_player_count :: u16
  mc_capacity :: u16
  mc_reachable :: bool

record ShroomMatchmakingSelection =
  ms_candidate_index :: nat
  ms_score :: f32
  ms_high_latency_fallback :: bool

text \<open>\<open>strcmp\<close> compares the bytes as unsigned numbers; here its sign.\<close>

definition strcmp :: "u8 list \<Rightarrow> u8 list \<Rightarrow> int" where
  "strcmp a b = (if c_string a < c_string b then - 1 else if c_string a = c_string b then 0 else 1)"

definition CandidateIsJoinable :: "ShroomMatchmakingCandidate \<Rightarrow> bool" where
  "CandidateIsJoinable c \<longleftrightarrow>
     mc_reachable c \<and> (case mc_host c of None \<Rightarrow> False | Some host \<Rightarrow> host ! 0 \<noteq> 0) \<and> mc_port c \<noteq> 0 \<and>
     mc_capacity c \<noteq> 0 \<and> mc_player_count c < mc_capacity c"

definition LoadRatio :: "ShroomMatchmakingCandidate \<Rightarrow> f32" where
  "LoadRatio c = f32_div (f32_of_int (uint (mc_player_count c))) (f32_of_int (uint (mc_capacity c)))"

definition CandidateWinsTie :: "ShroomMatchmakingCandidate \<Rightarrow> ShroomMatchmakingCandidate \<Rightarrow> bool" where
  "CandidateWinsTie candidate incumbent =
     (let host_order = strcmp (the (mc_host candidate)) (the (mc_host incumbent))
      in if mc_latency_ms candidate \<noteq> mc_latency_ms incumbent then mc_latency_ms candidate < mc_latency_ms incumbent
         else if \<not> f32_eq (LoadRatio candidate) (LoadRatio incumbent) then f32_lt (LoadRatio candidate) (LoadRatio incumbent)
         else if host_order \<noteq> 0 then host_order < 0
         else mc_port candidate < mc_port incumbent)"

definition ShroomMatchmakingDefaultWeights :: ShroomMatchmakingWeights where
  "ShroomMatchmakingDefaultWeights =
     \<lparr>mw_latency = SHROOM_MATCHMAKING_DEFAULT_LATENCY_WEIGHT, mw_load = SHROOM_MATCHMAKING_DEFAULT_LOAD_WEIGHT\<rparr>"

definition ShroomMatchmakingWeightsAreValid :: "ShroomMatchmakingWeights \<Rightarrow> bool" where
  "ShroomMatchmakingWeightsAreValid w \<longleftrightarrow>
     f32_finite (mw_latency w) \<and> f32_finite (mw_load w) \<and> f32_le 0 (mw_latency w) \<and> f32_le 0 (mw_load w) \<and>
     f32_finite (f32_add (mw_latency w) (mw_load w)) \<and> f32_lt 0 (f32_add (mw_latency w) (mw_load w))"

text \<open>The candidates the second and the third loop do not skip.\<close>

definition in_play :: "bool \<Rightarrow> ShroomMatchmakingCandidate \<Rightarrow> bool" where
  "in_play fallback c \<longleftrightarrow>
     CandidateIsJoinable c \<and> (fallback \<or> unat (mc_latency_ms c) \<le> SHROOM_MATCHMAKING_PREFERRED_LATENCY_MS)"

definition high_latency_fallback :: "ShroomMatchmakingCandidate list \<Rightarrow> bool" where
  "high_latency_fallback cs \<longleftrightarrow> \<not> list_ex (in_play False) cs"

definition maximum_latency :: "bool \<Rightarrow> ShroomMatchmakingCandidate list \<Rightarrow> u16" where
  "maximum_latency fallback cs =
     (let m = fold (\<lambda>c m. if in_play fallback c \<and> m < mc_latency_ms c then mc_latency_ms c else m) cs 0
      in if m = 0 then 1 else m)"

definition candidate_score :: "ShroomMatchmakingWeights \<Rightarrow> u16 \<Rightarrow> ShroomMatchmakingCandidate \<Rightarrow> f32" where
  "candidate_score w maximum c =
     (let total = f32_add (mw_latency w) (mw_load w)
      in f32_add
           (f32_mul (f32_div (mw_latency w) total) (f32_div (f32_of_int (uint (mc_latency_ms c))) (f32_of_int (uint maximum))))
           (f32_mul (f32_div (mw_load w) total) (LoadRatio c)))"

definition outranks :: "ShroomMatchmakingWeights \<Rightarrow> u16 \<Rightarrow> ShroomMatchmakingCandidate \<Rightarrow> ShroomMatchmakingCandidate \<Rightarrow> bool" where
  "outranks w maximum c d \<longleftrightarrow>
     f32_lt (candidate_score w maximum c) (candidate_score w maximum d) \<or>
     f32_eq (candidate_score w maximum c) (candidate_score w maximum d) \<and> CandidateWinsTie c d"

definition select_step ::
  "ShroomMatchmakingWeights \<Rightarrow> u16 \<Rightarrow> bool \<Rightarrow> ShroomMatchmakingCandidate list \<Rightarrow> nat \<Rightarrow> nat option \<Rightarrow> nat option" where
  "select_step w maximum fallback cs i selected =
     (if \<not> in_play fallback (cs ! i) then selected
      else case selected of
        None \<Rightarrow> Some i
      | Some j \<Rightarrow> if outranks w maximum (cs ! i) (cs ! j) then Some i else Some j)"

text \<open>\<open>ShroomMatchmakingSelect\<close>, for a selection to fill; \<open>candidates\<close> may be NULL.\<close>

definition ShroomMatchmakingSelect ::
  "ShroomMatchmakingCandidate list option \<Rightarrow> ShroomMatchmakingWeights \<Rightarrow> bool \<times> ShroomMatchmakingSelection" where
  "ShroomMatchmakingSelect candidates w =
     (let nothing = \<lparr>ms_candidate_index = SIZE_MAX, ms_score = 0, ms_high_latency_fallback = False\<rparr>
      in case candidates of
        None \<Rightarrow> (False, nothing)
      | Some cs \<Rightarrow>
          if cs = [] \<or> \<not> ShroomMatchmakingWeightsAreValid w then (False, nothing)
          else
            let fallback = high_latency_fallback cs; maximum = maximum_latency fallback cs
            in case fold (select_step w maximum fallback cs) [0..<length cs] None of
                 None \<Rightarrow> (False, nothing)
               | Some i \<Rightarrow> (True, \<lparr>ms_candidate_index = i, ms_score = candidate_score w maximum (cs ! i),
                   ms_high_latency_fallback = fallback\<rparr>))"

section \<open>Scores are numbers\<close>

lemma range_units: "f32_units 0x3f800000 = 2 ^ 149" "f32_units 0x47800000 = 2 ^ 16 * 2 ^ 149" "f32_units 0x48000000 = 2 ^ 17 * 2 ^ 149"
  "f32_units 0 = 0" "f32_finite 0x3f800000" "f32_finite 0" "f32_finite 0x47800000" "f32_finite 0x48000000"
  by code_simp+

lemma u16_within: "f32_within 0 0x47800000 (f32_of_int (uint (v :: u16)))"
  and u16_pos_within: "v \<noteq> 0 \<Longrightarrow> f32_within 0x3f800000 0x47800000 (f32_of_int (uint v))"
proof -
  have "uint v \<le> 2 ^ 16" using uint_lt2p [of v] by simp
  then have up: "uint v * 2 ^ 149 \<le> 2 ^ 16 * 2 ^ 149" by (intro mult_right_mono) simp_all
  then show "f32_within 0 0x47800000 (f32_of_int (uint v))" by (intro of_int_within) (simp_all add: range_units)
  assume "v \<noteq> 0"
  then have "uint v \<noteq> 0" by (simp add: word_uint_eq_iff)
  then have "1 \<le> uint v" using uint_ge_0 [of v] by linarith
  then have "1 * 2 ^ 149 \<le> uint v * (2 ^ 149 :: int)" by (intro mult_right_mono) simp_all
  with up show "f32_within 0x3f800000 0x47800000 (f32_of_int (uint v))" by (intro of_int_within) (simp_all add: range_units)
qed

lemma ratio_within: "m \<noteq> 0 \<Longrightarrow> f32_within 0 0x47800000 (f32_div (f32_of_int (uint (n :: u16))) (f32_of_int (uint (m :: u16))))"
  by (rule within_div [OF u16_within u16_pos_within]) (simp_all add: range_units)

lemma weight_within:
  assumes "f32_finite a" and "0 \<le> f32_units a" and "rounded (f32_units a + x) 0 t" and "0 \<le> x" and "f32_finite t" and "0 < f32_units t"
  shows "f32_within 0 0x3f800000 (f32_div a t)"
proof -
  have "f32_order a \<le> f32_order t" using assms(4) by (intro rounded_ge [OF assms(3,1)]) simp
  then have le: "f32_units a \<le> f32_units t" by (simp add: units_mono_iff)
  show ?thesis
  proof (rule within_div)
    show "f32_within a a a" "f32_within t t t" using assms by (simp_all add: f32_within_def)
  qed (use assms le in \<open>simp_all add: range_units\<close>)
qed

lemma weights_positive:
  assumes "ShroomMatchmakingWeightsAreValid w"
  shows "0 \<le> f32_units (mw_latency w)" "0 \<le> f32_units (mw_load w)" "0 < f32_units (f32_add (mw_latency w) (mw_load w))"
proof -
  have z: "\<not> f32_is_nan 0" "f32_order 0 = 0" by code_simp+
  note v = assms [unfolded ShroomMatchmakingWeightsAreValid_def]
  have "f32_order 0 \<le> f32_order (mw_latency w)" "f32_order 0 \<le> f32_order (mw_load w)"
    "\<not> f32_order (f32_add (mw_latency w) (mw_load w)) \<le> f32_order 0"
    using v z by (auto simp: f32_le_iff f32_lt_iff)
  then show "0 \<le> f32_units (mw_latency w)" "0 \<le> f32_units (mw_load w)" "0 < f32_units (f32_add (mw_latency w) (mw_load w))"
    by (simp_all add: units_mono_iff [symmetric] range_units)
qed

lemma score_not_nan:
  assumes "ShroomMatchmakingWeightsAreValid w" and "mc_capacity c \<noteq> 0" and "maximum \<noteq> 0"
  shows "\<not> f32_is_nan (candidate_score w maximum c)" and "\<not> f32_is_nan (LoadRatio c)"
proof -
  let ?t = "f32_add (mw_latency w) (mw_load w)"
  note v = assms(1) [unfolded ShroomMatchmakingWeightsAreValid_def] and pos = weights_positive [OF assms(1)]
  have r: "rounded (f32_units (mw_latency w) + f32_units (mw_load w)) 0 ?t" by (rule f32_add_rounded) (use v in simp_all)
  then have r': "rounded (f32_units (mw_load w) + f32_units (mw_latency w)) 0 ?t" by (simp add: add.commute)
  have l: "f32_within 0 0x3f800000 (f32_div (mw_latency w) ?t)"
    by (rule weight_within [OF _ pos(1) r pos(2) _ pos(3)]) (use v in simp_all)
  have k: "f32_within 0 0x3f800000 (f32_div (mw_load w) ?t)"
    by (rule weight_within [OF _ pos(2) r' pos(1) _ pos(3)]) (use v in simp_all)
  have load: "f32_within 0 0x47800000 (LoadRatio c)" unfolding LoadRatio_def by (rule ratio_within [OF assms(2)])
  then show "\<not> f32_is_nan (LoadRatio c)" by (rule withinD)
  have "f32_within 0 0x48000000 (candidate_score w maximum c)"
    unfolding candidate_score_def Let_def
    by (rule within_add [OF within_scaled(1) [OF l ratio_within [OF assms(3)]] within_scaled(1) [OF k load]]) (simp_all add: range_units)
  then show "\<not> f32_is_nan (candidate_score w maximum c)" by (rule withinD)
qed

lemma default_weights_valid: "ShroomMatchmakingWeightsAreValid ShroomMatchmakingDefaultWeights"
  by code_simp

section \<open>The order of the candidates\<close>

text \<open>On joinable candidates, \<open>outranks\<close> is the strict order of these keys.\<close>

definition candidate_key :: "ShroomMatchmakingWeights \<Rightarrow> u16 \<Rightarrow> ShroomMatchmakingCandidate \<Rightarrow> int \<times> nat \<times> int \<times> u8 list \<times> nat" where
  "candidate_key w maximum c =
     (f32_order (candidate_score w maximum c), unat (mc_latency_ms c), f32_order (LoadRatio c),
      c_string (the (mc_host c)), unat (mc_port c))"

lemma outranks_key:
  assumes "ShroomMatchmakingWeightsAreValid w" and "maximum \<noteq> 0" and "CandidateIsJoinable c" and "CandidateIsJoinable d"
  shows "outranks w maximum c d \<longleftrightarrow> candidate_key w maximum c < candidate_key w maximum d"
proof -
  have cap: "mc_capacity c \<noteq> 0" "mc_capacity d \<noteq> 0" using assms(3,4) by (simp_all add: CandidateIsJoinable_def)
  note n = score_not_nan [OF assms(1) cap(1) assms(2)] score_not_nan [OF assms(1) cap(2) assms(2)]
  show ?thesis
    by (auto simp: outranks_def CandidateWinsTie_def candidate_key_def Let_def strcmp_def n f32_lt_iff f32_eq_iff
        word_less_nat_alt word_unat_eq_iff less_prod_simp)
qed

lemma maximum_latency_nonzero: "maximum_latency fallback cs \<noteq> 0"
  by (simp add: maximum_latency_def Let_def)

text \<open>The loop keeps the best of the candidates seen.\<close>

lemma select_fold:
  assumes "ShroomMatchmakingWeightsAreValid w" and "maximum \<noteq> 0"
  shows "case fold (select_step w maximum fallback cs) [0..<n] None of
      None \<Rightarrow> \<forall>j<n. \<not> in_play fallback (cs ! j)
    | Some i \<Rightarrow> i < n \<and> in_play fallback (cs ! i) \<and>
        (\<forall>j<n. in_play fallback (cs ! j) \<longrightarrow>
           \<not> outranks w maximum (cs ! j) (cs ! i) \<and> (j < i \<longrightarrow> outranks w maximum (cs ! i) (cs ! j)))"
proof (induction n)
  case (Suc n)
  define f where "f = fold (select_step w maximum fallback cs) [0..<n] None"
  note ih = Suc.IH [folded f_def]
  have nxt: "fold (select_step w maximum fallback cs) [0..<Suc n] None = select_step w maximum fallback cs n f"
    by (simp add: f_def)
  have join: "in_play fallback (cs ! j) \<Longrightarrow> CandidateIsJoinable (cs ! j)" for j by (simp add: in_play_def)
  note key = outranks_key [OF assms join join]
  show ?case
  proof (cases "in_play fallback (cs ! n)")
    case False
    then have "select_step w maximum fallback cs n f = f" by (simp add: select_step_def)
    with ih False show ?thesis unfolding nxt by (auto simp: less_Suc_eq split: option.splits)
  next
    case True
    show ?thesis
    proof (cases f)
      case None
      with True have "select_step w maximum fallback cs n f = Some n" by (simp add: select_step_def)
      with ih None True show ?thesis unfolding nxt by (auto simp: less_Suc_eq key)
    next
      case (Some i)
      have i: "i < n" "in_play fallback (cs ! i)" "\<And>j. j < n \<Longrightarrow> in_play fallback (cs ! j) \<Longrightarrow>
          \<not> outranks w maximum (cs ! j) (cs ! i) \<and> (j < i \<longrightarrow> outranks w maximum (cs ! i) (cs ! j))"
        using ih Some by auto
      have step: "select_step w maximum fallback cs n f = Some (if outranks w maximum (cs ! n) (cs ! i) then n else i)"
        using True Some by (simp add: select_step_def)
      show ?thesis
      proof (cases "outranks w maximum (cs ! n) (cs ! i)")
        case True
        have "\<not> outranks w maximum (cs ! j) (cs ! n) \<and> (j < n \<longrightarrow> outranks w maximum (cs ! n) (cs ! j))"
          if j: "j < Suc n" "in_play fallback (cs ! j)" for j
        proof (cases "j = n")
          case False
          with j(1) have "j < n" by simp
          with i(3) [OF this j(2)] have "\<not> candidate_key w maximum (cs ! j) < candidate_key w maximum (cs ! i)"
            using key [OF j(2) i(2)] by simp
          moreover have "candidate_key w maximum (cs ! n) < candidate_key w maximum (cs ! i)"
            using True key [OF \<open>in_play fallback (cs ! n)\<close> i(2)] by simp
          ultimately have "candidate_key w maximum (cs ! n) < candidate_key w maximum (cs ! j)" by order
          then show ?thesis using key [OF \<open>in_play fallback (cs ! n)\<close> j(2)] key [OF j(2) \<open>in_play fallback (cs ! n)\<close>] by simp
        qed (simp add: key \<open>in_play fallback (cs ! n)\<close>)
        then show ?thesis unfolding nxt step using True \<open>in_play fallback (cs ! n)\<close> by simp
      next
        case False
        then show ?thesis unfolding nxt step using i by (auto simp: less_Suc_eq)
      qed
    qed
  qed
qed simp

text \<open>What a selection is, in both cases.\<close>

lemma select_chosen:
  assumes "ShroomMatchmakingSelect (Some cs) w = (True, s)"
  shows "ShroomMatchmakingWeightsAreValid w" and "ms_candidate_index s < length cs"
    and "in_play (high_latency_fallback cs) (cs ! ms_candidate_index s)" and "ms_high_latency_fallback s = high_latency_fallback cs"
    and "\<And>j. j < length cs \<Longrightarrow> in_play (high_latency_fallback cs) (cs ! j) \<Longrightarrow>
      \<not> outranks w (maximum_latency (high_latency_fallback cs) cs) (cs ! j) (cs ! ms_candidate_index s) \<and>
      (j < ms_candidate_index s \<longrightarrow>
        outranks w (maximum_latency (high_latency_fallback cs) cs) (cs ! ms_candidate_index s) (cs ! j))"
proof -
  let ?f = "fold (select_step w (maximum_latency (high_latency_fallback cs) cs) (high_latency_fallback cs) cs) [0..<length cs] None"
  have w: "ShroomMatchmakingWeightsAreValid w"
    using assms by (simp add: ShroomMatchmakingSelect_def Let_def split: if_splits)
  then obtain i where i: "?f = Some i" "s = \<lparr>ms_candidate_index = i,
      ms_score = candidate_score w (maximum_latency (high_latency_fallback cs) cs) (cs ! i),
      ms_high_latency_fallback = high_latency_fallback cs\<rparr>"
    using assms by (auto simp: ShroomMatchmakingSelect_def Let_def split: if_splits option.splits)
  note f = select_fold [OF w maximum_latency_nonzero [of "high_latency_fallback cs" cs],
      where fallback = "high_latency_fallback cs" and cs = cs and n = "length cs", unfolded i(1) option.case]
  show "ShroomMatchmakingWeightsAreValid w" by (rule w)
  show "ms_candidate_index s < length cs" "in_play (high_latency_fallback cs) (cs ! ms_candidate_index s)"
    "ms_high_latency_fallback s = high_latency_fallback cs" using f i(2) by simp_all
  fix j assume "j < length cs" "in_play (high_latency_fallback cs) (cs ! j)"
  with f i(2) show "\<not> outranks w (maximum_latency (high_latency_fallback cs) cs) (cs ! j) (cs ! ms_candidate_index s) \<and>
      (j < ms_candidate_index s \<longrightarrow>
        outranks w (maximum_latency (high_latency_fallback cs) cs) (cs ! ms_candidate_index s) (cs ! j))" by simp
qed

lemma in_play_fallback: "in_play (high_latency_fallback cs) c \<Longrightarrow> c \<in> set cs \<Longrightarrow> CandidateIsJoinable c"
  by (simp add: in_play_def)

lemma joinable_in_play:
  assumes "c \<in> set cs" and "CandidateIsJoinable c"
  shows "\<exists>d\<in>set cs. in_play (high_latency_fallback cs) d"
  using assms by (cases "high_latency_fallback cs") (auto simp: high_latency_fallback_def in_play_def list_ex_iff)

lemma select_refused:
  assumes "ShroomMatchmakingSelect (Some cs) w = (False, s)" and "ShroomMatchmakingWeightsAreValid w"
  shows "\<not> list_ex CandidateIsJoinable cs" and "ms_candidate_index s = SIZE_MAX"
proof -
  let ?f = "fold (select_step w (maximum_latency (high_latency_fallback cs) cs) (high_latency_fallback cs) cs) [0..<length cs] None"
  show "ms_candidate_index s = SIZE_MAX"
    using assms by (auto simp: ShroomMatchmakingSelect_def Let_def split: if_splits option.splits)
  have "cs = [] \<or> ?f = None"
  proof (cases "cs = []")
    case False
    with assms show ?thesis by (cases ?f) (simp_all add: ShroomMatchmakingSelect_def Let_def)
  qed simp
  then have "\<forall>j<length cs. \<not> in_play (high_latency_fallback cs) (cs ! j)"
    using select_fold [OF assms(2) maximum_latency_nonzero [of "high_latency_fallback cs" cs],
        where fallback = "high_latency_fallback cs" and cs = cs and n = "length cs"] by auto
  then have "\<forall>d\<in>set cs. \<not> in_play (high_latency_fallback cs) d" by (auto simp: in_set_conv_nth)
  then show "\<not> list_ex CandidateIsJoinable cs" using joinable_in_play [of _ cs] by (auto simp: list_ex_iff)
qed

text \<open>C36. The server chosen for a quick match can be joined, is one with a latency of at most 200 ms if there is
  any, and no other such server has a lower score, or the same score and wins the tie; of servers that are equal in all
  of this the first one in the list is taken.\<close>

theorem best_server_selected:
  assumes "ShroomMatchmakingSelect (Some cs) w = (True, s)" and "j < length cs" and "CandidateIsJoinable (cs ! j)"
    and "unat (mc_latency_ms (cs ! j)) \<le> 200 \<or> \<not> list_ex (in_play False) cs"
  shows "ms_candidate_index s < length cs \<and> CandidateIsJoinable (cs ! ms_candidate_index s) \<and>
    (unat (mc_latency_ms (cs ! ms_candidate_index s)) \<le> 200 \<or> ms_high_latency_fallback s) \<and>
    (ms_high_latency_fallback s \<longleftrightarrow> \<not> list_ex (in_play False) cs) \<and>
    (let maximum = maximum_latency (ms_high_latency_fallback s) cs
     in \<not> outranks w maximum (cs ! j) (cs ! ms_candidate_index s) \<and>
        (j < ms_candidate_index s \<longrightarrow> outranks w maximum (cs ! ms_candidate_index s) (cs ! j)))"
proof -
  note c = select_chosen [OF assms(1)]
  have "in_play (high_latency_fallback cs) (cs ! j)"
    using assms(3,4) by (auto simp: in_play_def high_latency_fallback_def SHROOM_MATCHMAKING_PREFERRED_LATENCY_MS_def)
  from c(5) [OF assms(2) this] c(2-4) show ?thesis
    by (auto simp: Let_def in_play_def high_latency_fallback_def SHROOM_MATCHMAKING_PREFERRED_LATENCY_MS_def)
qed

definition witness_servers :: "ShroomMatchmakingCandidate list" where
  "witness_servers = [\<lparr>mc_host = Some [97, 0], mc_port = 7777, mc_latency_ms = 90, mc_player_count = 3, mc_capacity = 8, mc_reachable = True\<rparr>,
     \<lparr>mc_host = Some [98, 0], mc_port = 7777, mc_latency_ms = 30, mc_player_count = 2, mc_capacity = 8, mc_reachable = True\<rparr>]"

theorem best_server_selected_witness:
  "\<exists>s. ShroomMatchmakingSelect (Some witness_servers) ShroomMatchmakingDefaultWeights = (True, s) \<and> ms_candidate_index s < 2"
proof -
  have first: "CandidateIsJoinable (witness_servers ! 0)" "unat (mc_latency_ms (witness_servers ! 0)) \<le> 200"
    by (simp_all add: witness_servers_def CandidateIsJoinable_def)
  obtain b s where "ShroomMatchmakingSelect (Some witness_servers) ShroomMatchmakingDefaultWeights = (b, s)" by fastforce
  moreover have "list_ex CandidateIsJoinable witness_servers" using first by (auto simp: list_ex_iff witness_servers_def)
  ultimately have s: "ShroomMatchmakingSelect (Some witness_servers) ShroomMatchmakingDefaultWeights = (True, s)"
    using select_refused(1) [OF _ default_weights_valid] by (cases b) auto
  from best_server_selected [OF s, of 0] first s show ?thesis by (auto simp: witness_servers_def)
qed

end
