(* ===== verification/Quick_Match.thy ===== *)
theory Quick_Match
  imports Matchmaking
begin

text \<open>
  Quick match (\<open>src/src/client/quick_match.c\<close>): the best of the servers found is shown for a moment and then
  connected to; one that fails is excluded and the next best is tried.  And the state of the server browser
  (\<open>server_browser_model.c\<close>).
\<close>

section \<open>State\<close>

definition SHROOM_QUICK_MATCH_PREVIEW_MS :: u64 where "SHROOM_QUICK_MATCH_PREVIEW_MS = 750"

datatype ShroomQuickMatchPhase =
  SHROOM_QUICK_MATCH_IDLE | SHROOM_QUICK_MATCH_FINDING | SHROOM_QUICK_MATCH_PREVIEW | SHROOM_QUICK_MATCH_CONNECTING
| SHROOM_QUICK_MATCH_SUCCEEDED | SHROOM_QUICK_MATCH_CANCELLED | SHROOM_QUICK_MATCH_FAILED

datatype ShroomQuickMatchFailure =
  SHROOM_QUICK_MATCH_FAILURE_NONE | SHROOM_QUICK_MATCH_FAILURE_DIRECTORY | SHROOM_QUICK_MATCH_FAILURE_NO_SERVERS
| SHROOM_QUICK_MATCH_FAILURE_SERVERS_FULL | SHROOM_QUICK_MATCH_FAILURE_EXHAUSTED

record ShroomQuickMatchCandidate =
  qc_name :: "u8 list"
  qc_host :: "u8 list"
  qc_port :: u16
  qc_latency_ms :: u16
  qc_player_count :: u16
  qc_capacity :: u16
  qc_reachable :: bool

record ShroomQuickMatchState =
  qm_phase :: ShroomQuickMatchPhase
  qm_failure :: ShroomQuickMatchFailure
  qm_weights :: ShroomMatchmakingWeights
  qm_preview_started_ms :: u64
  qm_candidate_count :: nat
  qm_selected_index :: nat
  qm_attempt_count :: nat
  qm_high_latency_fallback :: bool
  qm_excluded :: "bool list"
  qm_candidates :: "ShroomQuickMatchCandidate list"

definition zero_quick_candidate :: ShroomQuickMatchCandidate where
  "zero_quick_candidate = \<lparr>qc_name = replicate SHROOM_DIRECTORY_SERVER_NAME_LENGTH 0,
     qc_host = replicate SHROOM_DIRECTORY_HOST_LENGTH 0, qc_port = 0, qc_latency_ms = 0, qc_player_count = 0,
     qc_capacity = 0, qc_reachable = False\<rparr>"

section \<open>Operations\<close>

definition ShroomQuickMatchInit :: ShroomQuickMatchState where
  "ShroomQuickMatchInit =
     \<lparr>qm_phase = SHROOM_QUICK_MATCH_IDLE, qm_failure = SHROOM_QUICK_MATCH_FAILURE_NONE,
      qm_weights = ShroomMatchmakingDefaultWeights, qm_preview_started_ms = 0, qm_candidate_count = 0,
      qm_selected_index = SIZE_MAX, qm_attempt_count = 0, qm_high_latency_fallback = False,
      qm_excluded = replicate SHROOM_DIRECTORY_MAX_ENTRIES False,
      qm_candidates = replicate SHROOM_DIRECTORY_MAX_ENTRIES zero_quick_candidate\<rparr>"

definition ShroomQuickMatchBegin :: ShroomQuickMatchState where
  "ShroomQuickMatchBegin = ShroomQuickMatchInit\<lparr>qm_phase := SHROOM_QUICK_MATCH_FINDING\<rparr>"

definition matchmaking_candidate :: "ShroomQuickMatchCandidate \<Rightarrow> ShroomMatchmakingCandidate" where
  "matchmaking_candidate c =
     \<lparr>mc_host = Some (qc_host c), mc_port = qc_port c, mc_latency_ms = qc_latency_ms c,
      mc_player_count = qc_player_count c, mc_capacity = qc_capacity c, mc_reachable = qc_reachable c\<rparr>"

definition source_indices :: "ShroomQuickMatchState \<Rightarrow> nat list" where
  "source_indices st = filter (\<lambda>i. \<not> qm_excluded st ! i) [0..<qm_candidate_count st]"

definition SelectNext :: "ShroomQuickMatchState \<Rightarrow> u64 \<Rightarrow> bool \<times> ShroomQuickMatchState" where
  "SelectNext st now_ms =
     (let candidates = map (\<lambda>i. matchmaking_candidate (qm_candidates st ! i)) (source_indices st);
          (found, selection) = ShroomMatchmakingSelect (Some candidates) (qm_weights st)
      in if \<not> found
         then (False, st\<lparr>qm_selected_index := SIZE_MAX, qm_high_latency_fallback := False, qm_phase := SHROOM_QUICK_MATCH_FAILED,
                qm_failure := if 0 < qm_attempt_count st then SHROOM_QUICK_MATCH_FAILURE_EXHAUSTED
                              else SHROOM_QUICK_MATCH_FAILURE_NO_SERVERS\<rparr>)
         else (True, st\<lparr>qm_selected_index := source_indices st ! ms_candidate_index selection,
                qm_high_latency_fallback := ms_high_latency_fallback selection, qm_preview_started_ms := now_ms,
                qm_phase := SHROOM_QUICK_MATCH_PREVIEW, qm_failure := SHROOM_QUICK_MATCH_FAILURE_NONE\<rparr>))"

text \<open>A candidate copied into the state: the last byte of its texts is a NUL.\<close>

definition copy_candidate :: "ShroomQuickMatchCandidate \<Rightarrow> ShroomQuickMatchCandidate" where
  "copy_candidate c = c\<lparr>qc_name := (qc_name c)[SHROOM_DIRECTORY_SERVER_NAME_LENGTH - 1 := 0],
     qc_host := (qc_host c)[SHROOM_DIRECTORY_HOST_LENGTH - 1 := 0]\<rparr>"

definition is_full_candidate :: "ShroomQuickMatchCandidate \<Rightarrow> bool" where
  "is_full_candidate c \<longleftrightarrow> qc_reachable c \<and> 0 < qc_capacity c \<and> qc_capacity c \<le> qc_player_count c"

definition ShroomQuickMatchSetCandidates ::
  "ShroomQuickMatchState \<Rightarrow> ShroomQuickMatchCandidate list \<Rightarrow> u64 \<Rightarrow> bool \<times> ShroomQuickMatchState" where
  "ShroomQuickMatchSetCandidates st candidates now_ms =
     (if qm_phase st \<noteq> SHROOM_QUICK_MATCH_FINDING then (False, st)
      else
        let taken = take SHROOM_DIRECTORY_MAX_ENTRIES candidates;
            st = st\<lparr>qm_candidate_count := length taken,
                    qm_candidates := map copy_candidate taken @ drop (length taken) (qm_candidates st)\<rparr>;
            saw_full = list_ex is_full_candidate taken
        in case SelectNext st now_ms of
             (True, st) \<Rightarrow> (True, st)
           | (False, st) \<Rightarrow>
               (False, if qm_attempt_count st = 0 \<and> saw_full
                       then st\<lparr>qm_failure := SHROOM_QUICK_MATCH_FAILURE_SERVERS_FULL\<rparr> else st))"

definition fail_search :: "ShroomQuickMatchFailure \<Rightarrow> ShroomQuickMatchState \<Rightarrow> ShroomQuickMatchState" where
  "fail_search failure st =
     (if qm_phase st = SHROOM_QUICK_MATCH_FINDING
      then st\<lparr>qm_phase := SHROOM_QUICK_MATCH_FAILED, qm_failure := failure\<rparr> else st)"

definition ShroomQuickMatchDirectoryFailed :: "ShroomQuickMatchState \<Rightarrow> ShroomQuickMatchState" where
  "ShroomQuickMatchDirectoryFailed = fail_search SHROOM_QUICK_MATCH_FAILURE_DIRECTORY"

definition ShroomQuickMatchServersFull :: "ShroomQuickMatchState \<Rightarrow> ShroomQuickMatchState" where
  "ShroomQuickMatchServersFull = fail_search SHROOM_QUICK_MATCH_FAILURE_SERVERS_FULL"

definition ShroomQuickMatchUpdate :: "ShroomQuickMatchState \<Rightarrow> u64 \<Rightarrow> ShroomQuickMatchState" where
  "ShroomQuickMatchUpdate st now_ms =
     (if qm_phase st = SHROOM_QUICK_MATCH_PREVIEW \<and> qm_preview_started_ms st \<le> now_ms \<and>
         SHROOM_QUICK_MATCH_PREVIEW_MS \<le> now_ms - qm_preview_started_ms st
      then st\<lparr>qm_phase := SHROOM_QUICK_MATCH_CONNECTING, qm_attempt_count := qm_attempt_count st + 1\<rparr> else st)"

definition ShroomQuickMatchConnectionFailed :: "ShroomQuickMatchState \<Rightarrow> u64 \<Rightarrow> ShroomQuickMatchState" where
  "ShroomQuickMatchConnectionFailed st now_ms =
     (if qm_phase st \<noteq> SHROOM_QUICK_MATCH_CONNECTING \<or> qm_candidate_count st \<le> qm_selected_index st then st
      else snd (SelectNext (st\<lparr>qm_excluded := (qm_excluded st)[qm_selected_index st := True]\<rparr>) now_ms))"

definition ShroomQuickMatchConnectionSucceeded :: "ShroomQuickMatchState \<Rightarrow> ShroomQuickMatchState" where
  "ShroomQuickMatchConnectionSucceeded st =
     (if qm_phase st = SHROOM_QUICK_MATCH_CONNECTING
      then st\<lparr>qm_phase := SHROOM_QUICK_MATCH_SUCCEEDED, qm_failure := SHROOM_QUICK_MATCH_FAILURE_NONE\<rparr> else st)"

definition ShroomQuickMatchIsActive :: "ShroomQuickMatchState \<Rightarrow> bool" where
  "ShroomQuickMatchIsActive st \<longleftrightarrow> qm_phase st = SHROOM_QUICK_MATCH_FINDING \<or>
     qm_phase st = SHROOM_QUICK_MATCH_PREVIEW \<or> qm_phase st = SHROOM_QUICK_MATCH_CONNECTING"

definition ShroomQuickMatchCancel :: "ShroomQuickMatchState \<Rightarrow> ShroomQuickMatchState" where
  "ShroomQuickMatchCancel st =
     (if ShroomQuickMatchIsActive st
      then st\<lparr>qm_phase := SHROOM_QUICK_MATCH_CANCELLED, qm_failure := SHROOM_QUICK_MATCH_FAILURE_NONE\<rparr> else st)"

definition ShroomQuickMatchSelected :: "ShroomQuickMatchState \<Rightarrow> ShroomQuickMatchCandidate option" where
  "ShroomQuickMatchSelected st =
     (if qm_candidate_count st \<le> qm_selected_index st then None else Some (qm_candidates st ! qm_selected_index st))"

definition ShroomQuickMatchStatusText :: "ShroomQuickMatchState \<Rightarrow> string" where
  "ShroomQuickMatchStatusText st =
     (case qm_phase st of
        SHROOM_QUICK_MATCH_FINDING \<Rightarrow> ''Finding the best live server...''
      | SHROOM_QUICK_MATCH_PREVIEW \<Rightarrow> ''Server selected. Joining shortly...''
      | SHROOM_QUICK_MATCH_CONNECTING \<Rightarrow> ''Connecting to selected server...''
      | SHROOM_QUICK_MATCH_SUCCEEDED \<Rightarrow> ''Connected.''
      | SHROOM_QUICK_MATCH_CANCELLED \<Rightarrow> ''Quick Match cancelled.''
      | SHROOM_QUICK_MATCH_FAILED \<Rightarrow>
          (case qm_failure st of
             SHROOM_QUICK_MATCH_FAILURE_DIRECTORY \<Rightarrow> ''The server directory is unavailable. Retry or browse manually.''
           | SHROOM_QUICK_MATCH_FAILURE_SERVERS_FULL \<Rightarrow> ''All live servers are full. Retry or browse manually.''
           | SHROOM_QUICK_MATCH_FAILURE_EXHAUSTED \<Rightarrow> ''Every selected server failed to connect. Retry or browse manually.''
           | _ \<Rightarrow> ''No joinable live servers were found. Retry or browse manually.'')
      | SHROOM_QUICK_MATCH_IDLE \<Rightarrow> ''Quick Match ready.'')"

section \<open>Runs\<close>

datatype quick_event =
  Candidates "ShroomQuickMatchCandidate list" u64 | Directory_Failed | Servers_Full | Update u64
| Connection_Failed u64 | Connection_Succeeded | Cancel

definition quick_step :: "quick_event \<Rightarrow> ShroomQuickMatchState \<Rightarrow> ShroomQuickMatchState" where
  "quick_step event st =
     (case event of
        Candidates cs now_ms \<Rightarrow> snd (ShroomQuickMatchSetCandidates st cs now_ms)
      | Directory_Failed \<Rightarrow> ShroomQuickMatchDirectoryFailed st
      | Servers_Full \<Rightarrow> ShroomQuickMatchServersFull st
      | Update now_ms \<Rightarrow> ShroomQuickMatchUpdate st now_ms
      | Connection_Failed now_ms \<Rightarrow> ShroomQuickMatchConnectionFailed st now_ms
      | Connection_Succeeded \<Rightarrow> ShroomQuickMatchConnectionSucceeded st
      | Cancel \<Rightarrow> ShroomQuickMatchCancel st)"

text \<open>A run with the servers that were connected to, in order.\<close>

definition quick_run_step :: "quick_event \<Rightarrow> ShroomQuickMatchState \<times> nat list \<Rightarrow> ShroomQuickMatchState \<times> nat list" where
  "quick_run_step e run =
     (let st = quick_step e (fst run)
      in (st, if qm_phase (fst run) \<noteq> SHROOM_QUICK_MATCH_CONNECTING \<and> qm_phase st = SHROOM_QUICK_MATCH_CONNECTING
              then snd run @ [qm_selected_index st] else snd run))"

definition quick_run :: "quick_event list \<Rightarrow> ShroomQuickMatchState \<times> nat list" where
  "quick_run es = fold quick_run_step es (ShroomQuickMatchBegin, [])"

definition excluded_at :: "ShroomQuickMatchState \<Rightarrow> nat set" where
  "excluded_at st = {i. i < qm_candidate_count st \<and> qm_excluded st ! i}"

definition joinable_at :: "ShroomQuickMatchState \<Rightarrow> nat set" where
  "joinable_at st = {i. i < qm_candidate_count st \<and> CandidateIsJoinable (matchmaking_candidate (qm_candidates st ! i))}"

definition arrays_ok :: "ShroomQuickMatchState \<Rightarrow> bool" where
  "arrays_ok st \<longleftrightarrow> length (qm_excluded st) = SHROOM_DIRECTORY_MAX_ENTRIES \<and>
     length (qm_candidates st) = SHROOM_DIRECTORY_MAX_ENTRIES \<and>
     qm_candidate_count st \<le> SHROOM_DIRECTORY_MAX_ENTRIES \<and> ShroomMatchmakingWeightsAreValid (qm_weights st)"

definition tried_ok :: "ShroomQuickMatchState \<Rightarrow> nat list \<Rightarrow> bool" where
  "tried_ok st tried \<longleftrightarrow> distinct tried \<and> length tried = qm_attempt_count st \<and> set tried \<subseteq> joinable_at st"

definition phase_ok :: "ShroomQuickMatchState \<Rightarrow> nat list \<Rightarrow> bool" where
  "phase_ok st tried =
     (case qm_phase st of
        SHROOM_QUICK_MATCH_FINDING \<Rightarrow> qm_candidate_count st = 0 \<and> True \<notin> set (qm_excluded st)
      | SHROOM_QUICK_MATCH_PREVIEW \<Rightarrow> set tried = excluded_at st \<and> qm_selected_index st \<in> joinable_at st - excluded_at st
      | SHROOM_QUICK_MATCH_CONNECTING \<Rightarrow> set tried = insert (qm_selected_index st) (excluded_at st) \<and>
          qm_selected_index st \<in> joinable_at st - excluded_at st
      | SHROOM_QUICK_MATCH_FAILED \<Rightarrow> qm_failure st = SHROOM_QUICK_MATCH_FAILURE_EXHAUSTED \<longrightarrow> joinable_at st \<subseteq> set tried
      | _ \<Rightarrow> True)"

abbreviation run_ok :: "ShroomQuickMatchState \<times> nat list \<Rightarrow> bool" where
  "run_ok run \<equiv> arrays_ok (fst run) \<and> tried_ok (fst run) (snd run) \<and> phase_ok (fst run) (snd run)"

text \<open>What \<open>SelectNext\<close> chooses from.\<close>

lemma source_indices_set: "set (source_indices st) = {i. i < qm_candidate_count st \<and> \<not> qm_excluded st ! i}"
  by (auto simp: source_indices_def)

lemma SelectNext_found:
  assumes "SelectNext st now = (True, st')"
  shows "\<exists>i h. i \<in> joinable_at st - excluded_at st \<and> st' = st\<lparr>qm_selected_index := i, qm_high_latency_fallback := h,
    qm_preview_started_ms := now, qm_phase := SHROOM_QUICK_MATCH_PREVIEW, qm_failure := SHROOM_QUICK_MATCH_FAILURE_NONE\<rparr>"
proof -
  let ?cs = "map (\<lambda>i. matchmaking_candidate (qm_candidates st ! i)) (source_indices st)"
  obtain b sel where sel: "ShroomMatchmakingSelect (Some ?cs) (qm_weights st) = (b, sel)" by fastforce
  with assms have b: b by (auto simp: SelectNext_def Let_def split: if_splits)
  let ?k = "ms_candidate_index sel"
  have c: "?k < length (source_indices st)" "CandidateIsJoinable (?cs ! ?k)"
    using select_chosen(2,3) [of ?cs "qm_weights st" sel] sel b by (simp_all add: in_play_def)
  then have "source_indices st ! ?k \<in> set (source_indices st)" by simp
  then have "source_indices st ! ?k \<in> joinable_at st - excluded_at st"
    using c by (simp add: joinable_at_def excluded_at_def source_indices_set)
  moreover have "st' = st\<lparr>qm_selected_index := source_indices st ! ?k, qm_high_latency_fallback := ms_high_latency_fallback sel,
      qm_preview_started_ms := now, qm_phase := SHROOM_QUICK_MATCH_PREVIEW, qm_failure := SHROOM_QUICK_MATCH_FAILURE_NONE\<rparr>"
    using assms sel b by (simp add: SelectNext_def Let_def)
  ultimately show ?thesis by blast
qed

lemma SelectNext_none:
  assumes "SelectNext st now = (False, st')" and "ShroomMatchmakingWeightsAreValid (qm_weights st)"
  shows "joinable_at st \<subseteq> excluded_at st" and "st' = st\<lparr>qm_selected_index := SIZE_MAX, qm_high_latency_fallback := False,
    qm_phase := SHROOM_QUICK_MATCH_FAILED, qm_failure := if 0 < qm_attempt_count st then SHROOM_QUICK_MATCH_FAILURE_EXHAUSTED
      else SHROOM_QUICK_MATCH_FAILURE_NO_SERVERS\<rparr>"
proof -
  let ?cs = "map (\<lambda>i. matchmaking_candidate (qm_candidates st ! i)) (source_indices st)"
  obtain b sel where sel: "ShroomMatchmakingSelect (Some ?cs) (qm_weights st) = (b, sel)" by fastforce
  with assms have b: "\<not> b" by (auto simp: SelectNext_def Let_def split: if_splits)
  have "\<not> list_ex CandidateIsJoinable ?cs" using select_refused(1) [OF _ assms(2), of ?cs sel] sel b by simp
  then show "joinable_at st \<subseteq> excluded_at st"
    by (auto simp: joinable_at_def excluded_at_def list_ex_iff source_indices_set)
  show "st' = st\<lparr>qm_selected_index := SIZE_MAX, qm_high_latency_fallback := False,
    qm_phase := SHROOM_QUICK_MATCH_FAILED, qm_failure := if 0 < qm_attempt_count st then SHROOM_QUICK_MATCH_FAILURE_EXHAUSTED
      else SHROOM_QUICK_MATCH_FAILURE_NO_SERVERS\<rparr>"
    using assms sel b by (auto simp: SelectNext_def Let_def split: if_splits)
qed

text \<open>Choosing the next server when those tried so far are the excluded ones.\<close>

lemma SelectNext_ok:
  assumes "arrays_ok st" and "tried_ok st tried" and "set tried = excluded_at st"
  shows "run_ok (snd (SelectNext st now), tried) \<and> qm_phase (snd (SelectNext st now)) \<noteq> SHROOM_QUICK_MATCH_CONNECTING"
proof -
  obtain b st' where s: "SelectNext st now = (b, st')" by fastforce
  show ?thesis
  proof (cases b)
    case True
    from SelectNext_found [of st now st'] s True obtain i h where i: "i \<in> joinable_at st - excluded_at st"
      "st' = st\<lparr>qm_selected_index := i, qm_high_latency_fallback := h,
        qm_preview_started_ms := now, qm_phase := SHROOM_QUICK_MATCH_PREVIEW, qm_failure := SHROOM_QUICK_MATCH_FAILURE_NONE\<rparr>" by auto
    then show ?thesis using assms s
      by (simp add: arrays_ok_def tried_ok_def phase_ok_def joinable_at_def excluded_at_def)
  next
    case False
    with s have n: "joinable_at st \<subseteq> excluded_at st" "st' = st\<lparr>qm_selected_index := SIZE_MAX, qm_high_latency_fallback := False,
      qm_phase := SHROOM_QUICK_MATCH_FAILED, qm_failure := if 0 < qm_attempt_count st then SHROOM_QUICK_MATCH_FAILURE_EXHAUSTED
        else SHROOM_QUICK_MATCH_FAILURE_NO_SERVERS\<rparr>"
      using SelectNext_none [of st now st'] assms(1) by (simp_all add: arrays_ok_def)
    then show ?thesis using assms s
      by (auto simp: arrays_ok_def tried_ok_def phase_ok_def joinable_at_def excluded_at_def)
  qed
qed

lemma phase_changed:
  assumes "arrays_ok st" and "tried_ok st tried"
    and "qm_phase st' \<in> {SHROOM_QUICK_MATCH_SUCCEEDED, SHROOM_QUICK_MATCH_CANCELLED} \<or>
      qm_phase st' = SHROOM_QUICK_MATCH_FAILED \<and> qm_failure st' \<noteq> SHROOM_QUICK_MATCH_FAILURE_EXHAUSTED"
    and "st' = st\<lparr>qm_phase := qm_phase st', qm_failure := qm_failure st'\<rparr>"
  shows "run_ok (st', tried)"
proof -
  have "arrays_ok st'" "tried_ok st' tried" using assms(1,2)
    by (subst assms(4), simp add: arrays_ok_def tried_ok_def joinable_at_def)+
  with assms(3) show ?thesis by (auto simp: phase_ok_def)
qed

lemma quick_run_step_ok:
  assumes "run_ok run"
  shows "run_ok (quick_run_step e run)"
proof -
  obtain st tried where run: "run = (st, tried)" by fastforce
  have ok: "arrays_ok st" "tried_ok st tried" "phase_ok st tried" using assms run by simp_all
  show ?thesis
  proof (cases e)
    case (Candidates cs now)
    show ?thesis
    proof (cases "qm_phase st = SHROOM_QUICK_MATCH_FINDING")
      case False
      with Candidates ok show ?thesis by (simp add: quick_run_step_def quick_step_def run ShroomQuickMatchSetCandidates_def Let_def)
    next
      case True
      let ?taken = "take SHROOM_DIRECTORY_MAX_ENTRIES cs"
      define st1 where "st1 = st\<lparr>qm_candidate_count := length ?taken,
          qm_candidates := map copy_candidate ?taken @ drop (length ?taken) (qm_candidates st)\<rparr>"
      have len: "length (qm_excluded st) = SHROOM_DIRECTORY_MAX_ENTRIES" "length (qm_candidates st) = SHROOM_DIRECTORY_MAX_ENTRIES"
        "ShroomMatchmakingWeightsAreValid (qm_weights st)" "True \<notin> set (qm_excluded st)" "qm_candidate_count st = 0"
        using ok True by (simp_all add: arrays_ok_def phase_ok_def)
      have a1: "arrays_ok st1" using len by (simp add: arrays_ok_def st1_def)
      have "\<not> qm_excluded st1 ! i" if i: "i < qm_candidate_count st1" for i
      proof -
        have "qm_excluded st1 = qm_excluded st" by (simp add: st1_def)
        moreover have "i < length (qm_excluded st1)" using i a1 unfolding arrays_ok_def by linarith
        ultimately show ?thesis using len(4) by (metis (full_types) nth_mem)
      qed
      then have no: "excluded_at st1 = {}" by (auto simp: excluded_at_def)
      have none: "tried = []" using ok(2) len(5) by (simp add: tried_ok_def joinable_at_def)
      then have t1: "tried_ok st1 tried" using ok(2) by (simp add: tried_ok_def st1_def)
      have s: "run_ok (snd (SelectNext st1 now), tried)" "qm_phase (snd (SelectNext st1 now)) \<noteq> SHROOM_QUICK_MATCH_CONNECTING"
        using SelectNext_ok [OF a1 t1, of now] no none by simp_all
      obtain b st2 where s2: "SelectNext st1 now = (b, st2)" by fastforce
      let ?st3 = "if b then st2 else if qm_attempt_count st2 = 0 \<and> list_ex is_full_candidate ?taken
        then st2\<lparr>qm_failure := SHROOM_QUICK_MATCH_FAILURE_SERVERS_FULL\<rparr> else st2"
      have q: "quick_step e st = ?st3"
        using True Candidates s2 by (simp add: quick_step_def ShroomQuickMatchSetCandidates_def Let_def st1_def split: bool.splits)
      have "qm_phase st2 = SHROOM_QUICK_MATCH_FAILED" if "\<not> b"
        using SelectNext_none(2) [of st1 now st2] s2 that len by (simp add: st1_def)
      then have "run_ok (?st3, tried) \<and> qm_phase ?st3 \<noteq> SHROOM_QUICK_MATCH_CONNECTING"
        using s s2 phase_changed [of st2 tried "st2\<lparr>qm_failure := SHROOM_QUICK_MATCH_FAILURE_SERVERS_FULL\<rparr>"] by auto
      then show ?thesis using q by (simp add: quick_run_step_def run Let_def)
    qed
  next
    case Directory_Failed
    then show ?thesis using ok phase_changed [OF ok(1,2), of "fail_search SHROOM_QUICK_MATCH_FAILURE_DIRECTORY st"]
      by (auto simp: quick_run_step_def quick_step_def run Let_def ShroomQuickMatchDirectoryFailed_def fail_search_def)
  next
    case Servers_Full
    then show ?thesis using ok phase_changed [OF ok(1,2), of "fail_search SHROOM_QUICK_MATCH_FAILURE_SERVERS_FULL st"]
      by (auto simp: quick_run_step_def quick_step_def run Let_def ShroomQuickMatchServersFull_def fail_search_def)
  next
    case (Update now)
    show ?thesis
    proof (cases "ShroomQuickMatchUpdate st now = st")
      case True
      with ok show ?thesis by (auto simp: quick_run_step_def quick_step_def run Let_def Update)
    next
      case False
      then have p: "qm_phase st = SHROOM_QUICK_MATCH_PREVIEW" and st': "ShroomQuickMatchUpdate st now =
          st\<lparr>qm_phase := SHROOM_QUICK_MATCH_CONNECTING, qm_attempt_count := qm_attempt_count st + 1\<rparr>"
        by (simp_all add: ShroomQuickMatchUpdate_def split: if_splits)
      then show ?thesis using ok
        by (auto simp: quick_run_step_def quick_step_def run Let_def Update arrays_ok_def tried_ok_def phase_ok_def joinable_at_def
            excluded_at_def)
    qed
  next
    case (Connection_Failed now)
    show ?thesis
    proof (cases "qm_phase st \<noteq> SHROOM_QUICK_MATCH_CONNECTING \<or> qm_candidate_count st \<le> qm_selected_index st")
      case True
      with ok Connection_Failed show ?thesis
        by (simp add: quick_run_step_def quick_step_def run Let_def ShroomQuickMatchConnectionFailed_def)
    next
      case False
      let ?k = "qm_selected_index st"
      define st1 where "st1 = st\<lparr>qm_excluded := (qm_excluded st)[?k := True]\<rparr>"
      have "?k < length (qm_excluded st)" using False ok(1) by (simp add: arrays_ok_def)
      then have ex: "excluded_at st1 = insert ?k (excluded_at st)"
        using False by (auto simp: excluded_at_def st1_def nth_list_update split: if_splits)
      have "arrays_ok st1" "tried_ok st1 tried" using ok by (simp_all add: st1_def arrays_ok_def tried_ok_def joinable_at_def)
      moreover have "set tried = excluded_at st1" using ok(3) False ex by (simp add: phase_ok_def)
      ultimately have "run_ok (snd (SelectNext st1 now), tried)" "qm_phase (snd (SelectNext st1 now)) \<noteq> SHROOM_QUICK_MATCH_CONNECTING"
        using SelectNext_ok by simp_all
      then show ?thesis using False Connection_Failed
        by (simp add: quick_run_step_def quick_step_def run Let_def ShroomQuickMatchConnectionFailed_def st1_def)
    qed
  next
    case Connection_Succeeded
    then show ?thesis using ok phase_changed [OF ok(1,2), of "ShroomQuickMatchConnectionSucceeded st"]
      by (auto simp: quick_run_step_def quick_step_def run Let_def ShroomQuickMatchConnectionSucceeded_def)
  next
    case Cancel
    then show ?thesis using ok phase_changed [OF ok(1,2), of "ShroomQuickMatchCancel st"]
      by (auto simp: quick_run_step_def quick_step_def run Let_def ShroomQuickMatchCancel_def ShroomQuickMatchIsActive_def)
  qed
qed

lemma quick_run_ok: "run_ok (quick_run es)"
proof -
  have "run_ok (ShroomQuickMatchBegin, [])"
    by (simp add: ShroomQuickMatchBegin_def ShroomQuickMatchInit_def arrays_ok_def tried_ok_def phase_ok_def default_weights_valid)
  moreover have "run_ok (fold quick_run_step es run)" if "run_ok run" for run
    using that quick_run_step_ok by (induction es arbitrary: run) simp_all
  ultimately show ?thesis unfolding quick_run_def by blast
qed

text \<open>C37. Whatever happens in whatever order, quick match never connects to the same server twice and only to servers
  that can be joined, so it makes at most as many attempts as there are candidates; and it reports that every server
  has failed only after it has tried every candidate that can be joined.\<close>

theorem quick_match_tries_each_once:
  "let (st, tried) = quick_run es
   in distinct tried \<and> set tried \<subseteq> joinable_at st \<and> length tried = qm_attempt_count st \<and>
      qm_attempt_count st \<le> qm_candidate_count st \<and> qm_candidate_count st \<le> SHROOM_DIRECTORY_MAX_ENTRIES \<and>
      (if qm_phase st = SHROOM_QUICK_MATCH_FAILED \<and> qm_failure st = SHROOM_QUICK_MATCH_FAILURE_EXHAUSTED
       then set tried = joinable_at st else True)"
proof -
  obtain st tried where run: "quick_run es = (st, tried)" by fastforce
  have ok: "arrays_ok st" "tried_ok st tried" "phase_ok st tried" using quick_run_ok [of es] run by simp_all
  have "card (set tried) \<le> card {..<qm_candidate_count st}"
    using ok(2) by (intro card_mono) (auto simp: tried_ok_def joinable_at_def)
  then have "length tried \<le> qm_candidate_count st" using ok(2) by (simp add: tried_ok_def distinct_card)
  then show ?thesis using ok run by (auto simp: arrays_ok_def tried_ok_def phase_ok_def)
qed

section \<open>The server browser\<close>

datatype ShroomServerBrowserDiscoveryState =
  SHROOM_SERVER_DISCOVERY_EMPTY | SHROOM_SERVER_DISCOVERY_LOADING | SHROOM_SERVER_DISCOVERY_READY
| SHROOM_SERVER_DISCOVERY_FAILED | SHROOM_SERVER_DISCOVERY_STALE | SHROOM_SERVER_DISCOVERY_CANCELLED

datatype ShroomServerSortKey = SHROOM_SERVER_SORT_NAME | SHROOM_SERVER_SORT_PLAYERS | SHROOM_SERVER_SORT_PING

record ShroomServerBrowserModel =
  bm_discovery_state :: ShroomServerBrowserDiscoveryState
  bm_sort_key :: ShroomServerSortKey
  bm_sort_descending :: bool

definition ShroomServerBrowserModelInit :: ShroomServerBrowserModel where
  "ShroomServerBrowserModelInit = \<lparr>bm_discovery_state = SHROOM_SERVER_DISCOVERY_EMPTY,
     bm_sort_key = SHROOM_SERVER_SORT_PING, bm_sort_descending = False\<rparr>"

definition ShroomServerBrowserBeginRefresh :: "ShroomServerBrowserModel \<Rightarrow> ShroomServerBrowserModel" where
  "ShroomServerBrowserBeginRefresh model = model\<lparr>bm_discovery_state := SHROOM_SERVER_DISCOVERY_LOADING\<rparr>"

definition ShroomServerBrowserFinishRefresh :: "ShroomServerBrowserModel \<Rightarrow> bool \<Rightarrow> nat \<Rightarrow> ShroomServerBrowserModel" where
  "ShroomServerBrowserFinishRefresh model succeeded result_count =
     model\<lparr>bm_discovery_state := if \<not> succeeded then SHROOM_SERVER_DISCOVERY_FAILED
       else if result_count = 0 then SHROOM_SERVER_DISCOVERY_EMPTY else SHROOM_SERVER_DISCOVERY_READY\<rparr>"

definition ShroomServerBrowserMarkStale :: "ShroomServerBrowserModel \<Rightarrow> ShroomServerBrowserModel" where
  "ShroomServerBrowserMarkStale model =
     (if bm_discovery_state model = SHROOM_SERVER_DISCOVERY_READY
      then model\<lparr>bm_discovery_state := SHROOM_SERVER_DISCOVERY_STALE\<rparr> else model)"

definition ShroomServerBrowserCancelRefresh :: "ShroomServerBrowserModel \<Rightarrow> ShroomServerBrowserModel" where
  "ShroomServerBrowserCancelRefresh model =
     (if bm_discovery_state model = SHROOM_SERVER_DISCOVERY_LOADING
      then model\<lparr>bm_discovery_state := SHROOM_SERVER_DISCOVERY_CANCELLED\<rparr> else model)"

definition ShroomServerBrowserSetSort :: "ShroomServerBrowserModel \<Rightarrow> ShroomServerSortKey \<Rightarrow> ShroomServerBrowserModel" where
  "ShroomServerBrowserSetSort model key =
     (if bm_sort_key model = key then model\<lparr>bm_sort_descending := \<not> bm_sort_descending model\<rparr>
      else model\<lparr>bm_sort_key := key, bm_sort_descending := False\<rparr>)"

definition ShroomServerBrowserSortLabel :: "ShroomServerSortKey \<Rightarrow> string" where
  "ShroomServerBrowserSortLabel key =
     (case key of SHROOM_SERVER_SORT_PLAYERS \<Rightarrow> ''Players'' | SHROOM_SERVER_SORT_PING \<Rightarrow> ''Ping''
      | SHROOM_SERVER_SORT_NAME \<Rightarrow> ''Name'')"

end
