(* ===== verification/Client_Models.thy ===== *)
theory Client_Models
  imports Sim_Match Server_State C_Numbers
begin

text \<open>
  Small models behind the screens of the client: the player a spectator follows
  (\<open>src/src/client/spectator_target.c\<close>), where the results screen goes next and what it shows
  (\<open>results_transition.c\<close>, \<open>results_summary.c\<close>), when the presentation of a match starts over
  (\<open>match_feedback.c\<close>), how much of a player is drawn (\<open>render_lod.c\<close>), the game modes on offer
  (\<open>game_mode_availability.c\<close>), and the mixer of voices (\<open>voice_mixer.c\<close>).
\<close>

section \<open>The spectator's target\<close>

definition ShroomSpectatorTargetIsEligible :: "ShroomPlayerState \<Rightarrow> u32 \<Rightarrow> bool" where
  "ShroomSpectatorTargetIsEligible player excluded_player_id \<longleftrightarrow>
     pl_alive player \<and> pl_player_id player \<noteq> 0 \<and> pl_entity_id player \<noteq> 0 \<and> pl_piece_index player = 0 \<and>
     (excluded_player_id = 0 \<or> pl_player_id player \<noteq> excluded_player_id)"

text \<open>The order in which the array is searched, and the first player in it who qualifies.\<close>

definition target_order :: "nat \<Rightarrow> nat \<Rightarrow> bool \<Rightarrow> nat list" where
  "target_order start n backward =
     map (\<lambda>offset. if backward then (start + n - offset) mod n else (start + offset) mod n) [1..<Suc n]"

definition is_target :: "ShroomPlayerState \<Rightarrow> u32 \<Rightarrow> u32 \<Rightarrow> bool" where
  "is_target player excluded_player_id excluded_entity_id \<longleftrightarrow>
     pl_entity_id player \<noteq> excluded_entity_id \<and> ShroomSpectatorTargetIsEligible player excluded_player_id"

definition ShroomSpectatorSelectNextTarget ::
  "ShroomPlayerState list \<Rightarrow> u32 \<Rightarrow> u32 \<Rightarrow> u32 \<Rightarrow> int \<Rightarrow> u32" where
  "ShroomSpectatorSelectNextTarget players current_entity_id excluded_player_id excluded_entity_id direction =
     (let n = length players in
      if players = [] then 0
      else
        let start = (case find_index (\<lambda>p. pl_entity_id p = current_entity_id) players of
              Some i \<Rightarrow> i | None \<Rightarrow> if direction < 0 then 0 else n - 1)
        in case List.find (\<lambda>i. is_target (players ! i) excluded_player_id excluded_entity_id) (target_order start n (direction < 0)) of
             None \<Rightarrow> 0
           | Some i \<Rightarrow> pl_entity_id (players ! i))"

definition ShroomSpectatorTargetLifeEnded :: "ShroomPlayerState option \<Rightarrow> ShroomPlayerState option \<Rightarrow> bool" where
  "ShroomSpectatorTargetLifeEnded previous current =
     (case previous of
        None \<Rightarrow> False
      | Some p \<Rightarrow>
          if \<not> pl_alive p \<or> pl_entity_id p = 0 then False
          else case current of
            None \<Rightarrow> True
          | Some c \<Rightarrow> if \<not> pl_alive c \<or> pl_player_id c \<noteq> pl_player_id p \<or> pl_entity_id c \<noteq> pl_entity_id p then True
                      else pl_life_generation c \<noteq> pl_life_generation p)"

text \<open>The search visits every player once, the current one last.\<close>

lemma target_order_set:
  assumes "start < n"
  shows "set (target_order start n backward) = {..<n}" and "last (target_order start n backward) = start"
proof -
  let ?f = "\<lambda>offset. if backward then (start + n - offset) mod n else (start + offset) mod n"
  have "?f ` {1..<Suc n} = {..<n}"
  proof
    show "?f ` {1..<Suc n} \<subseteq> {..<n}" using assms by auto
    show "{..<n} \<subseteq> ?f ` {1..<Suc n}"
    proof
      fix i assume "i \<in> {..<n}"
      then have i: "i < n" by simp
      show "i \<in> ?f ` {1..<Suc n}"
      proof (cases backward)
        case True
        define k where "k = (if i < start then start - i else start + n - i)"
        have k: "1 \<le> k" "k \<le> n" unfolding k_def using i assms by (auto split: if_split)
        have "start + n - k = (if i < start then n + i else i)" using i assms by (simp add: k_def)
        then have "(start + n - k) mod n = i" using i by simp
        with k True show ?thesis by (intro image_eqI [of _ _ k]) simp_all
      next
        case False
        define k where "k = (if start < i then i - start else i + n - start)"
        have k: "1 \<le> k" "k \<le> n" unfolding k_def using i assms by (auto split: if_split)
        have "start + k = (if start < i then i else n + i)" using i assms by (simp add: k_def)
        then have "(start + k) mod n = i" using i by simp
        with k False show ?thesis by (intro image_eqI [of _ _ k]) simp_all
      qed
    qed
  qed
  then show "set (target_order start n backward) = {..<n}" by (simp only: target_order_def set_map set_upt)
  show "last (target_order start n backward) = start"
    using assms by (simp add: target_order_def)
qed

text \<open>Whenever somebody qualifies, somebody who qualifies is chosen.\<close>

lemma spectator_target_found:
  assumes "\<exists>p\<in>set players. is_target p excluded excluded_entity"
  shows "\<exists>p\<in>set players. is_target p excluded excluded_entity \<and>
    ShroomSpectatorSelectNextTarget players current excluded excluded_entity direction = pl_entity_id p"
proof -
  have ne: "players \<noteq> []" using assms by auto
  define start where "start = (case find_index (\<lambda>p. pl_entity_id p = current) players of
      Some i \<Rightarrow> i | None \<Rightarrow> if direction < 0 then 0 else length players - 1)"
  have start: "start < length players"
    using ne find_index_less [of _ players] by (auto simp: start_def split: option.splits)
  let ?P = "\<lambda>i. is_target (players ! i) excluded excluded_entity"
  obtain j where "j < length players" "?P j" using assms by (auto simp: in_set_conv_nth)
  then have "List.find ?P (target_order start (length players) (direction < 0)) \<noteq> None"
    using target_order_set(1) [OF start] by (auto simp: find_None_iff)
  then obtain i where i: "List.find ?P (target_order start (length players) (direction < 0)) = Some i" by blast
  then have "?P i" "i < length players"
    using target_order_set(1) [OF start] by (auto simp: find_Some_iff) (metis lessThan_iff nth_mem)
  with i ne show ?thesis
    by (intro bexI [of _ "players ! i"]) (simp_all add: ShroomSpectatorSelectNextTarget_def Let_def start_def [symmetric])
qed

section \<open>The results\<close>

datatype ShroomResultsRoute =
  SHROOM_RESULTS_ROUTE_WAIT | SHROOM_RESULTS_ROUTE_GAME | SHROOM_RESULTS_ROUTE_LOBBY | SHROOM_RESULTS_ROUTE_SPECTATE

definition ShroomIntermissionRoundIsNewer :: "u32 \<Rightarrow> u32 \<Rightarrow> bool" where
  "ShroomIntermissionRoundIsNewer candidate reference \<longleftrightarrow> 0 < sint (candidate - reference)"

definition ShroomResultsResolveRoute ::
  "u32 \<Rightarrow> bool \<Rightarrow> ShroomIntermissionStatusPacket option \<Rightarrow> bool \<Rightarrow> u32 \<Rightarrow> ShroomResultsRoute" where
  "ShroomResultsResolveRoute phase status_received status consumed_round_valid consumed_round_id =
     (let after = (if phase = SHROOM_MATCH_PHASE_RUNNING then SHROOM_RESULTS_ROUTE_GAME else SHROOM_RESULTS_ROUTE_WAIT)
      in case status of
           None \<Rightarrow> after
         | Some st \<Rightarrow>
             if status_received \<and> (\<not> consumed_round_valid \<or> ShroomIntermissionRoundIsNewer (im_round_id st) consumed_round_id)
             then if im_resolved st = 0 then SHROOM_RESULTS_ROUTE_WAIT
               else if im_decision st = SHROOM_REMATCH_VOTE_RETURN_TO_LOBBY then SHROOM_RESULTS_ROUTE_LOBBY
               else if im_decision st = SHROOM_REMATCH_VOTE_SPECTATE then SHROOM_RESULTS_ROUTE_SPECTATE
               else if im_decision st \<noteq> SHROOM_REMATCH_VOTE_PLAY_AGAIN then SHROOM_RESULTS_ROUTE_WAIT
               else after
             else after)"

text \<open>The game starts again only while the match runs, and never against a decision that is due.\<close>

lemma route_game:
  "ShroomResultsResolveRoute phase received status valid consumed = SHROOM_RESULTS_ROUTE_GAME \<Longrightarrow>
     phase = SHROOM_MATCH_PHASE_RUNNING \<and>
     (\<forall>st. status = Some st \<and> received \<and> (valid \<longrightarrow> ShroomIntermissionRoundIsNewer (im_round_id st) consumed) \<longrightarrow>
        im_resolved st \<noteq> 0 \<and> im_decision st = SHROOM_REMATCH_VOTE_PLAY_AGAIN)"
  by (auto simp: ShroomResultsResolveRoute_def Let_def split: option.splits if_splits)

interpretation round_serial: serial_order ShroomIntermissionRoundIsNewer
proof
  fix a b :: u32
  show "ShroomIntermissionRoundIsNewer a b \<longleftrightarrow> 0 < unat (a - b) \<and> unat (a - b) < 2 ^ (LENGTH(32) - 1)"
    by (simp add: ShroomIntermissionRoundIsNewer_def sint_pos_iff)
qed

definition ShroomResultsElapsedSeconds :: "f32 \<Rightarrow> f32 \<Rightarrow> u32" where
  "ShroomResultsElapsedSeconds start_time end_time =
     (if f32_le end_time start_time then 0 else word_of_int (f32_to_int (f32_sub end_time start_time)))"

text \<open>\<open>%02u\<close>.\<close>

definition two_digits :: "nat \<Rightarrow> u8 list" where
  "two_digits n = (if n < 10 then ascii ''0'' @ decimal n else decimal n)"

definition duration_text :: "u32 \<Rightarrow> u8 list" where
  "duration_text seconds = decimal (unat seconds div 60) @ ascii '':'' @ two_digits (unat seconds mod 60)"

text \<open>The formatters write as much of their text as the buffer holds.\<close>

definition format_into :: "nat \<Rightarrow> u8 list \<Rightarrow> u8 list option" where
  "format_into buffer_size s = (if buffer_size = 0 then None else Some (take (buffer_size - 1) s))"

definition ShroomResultsFormatDuration :: "u32 \<Rightarrow> nat \<Rightarrow> u8 list option" where
  "ShroomResultsFormatDuration duration_seconds buffer_size = format_into buffer_size (duration_text duration_seconds)"

definition ShroomResultsVoteLabel :: "u8 \<Rightarrow> u8 list" where
  "ShroomResultsVoteLabel vote =
     (if vote = SHROOM_REMATCH_VOTE_PLAY_AGAIN then ascii ''Play Again''
      else if vote = SHROOM_REMATCH_VOTE_RETURN_TO_LOBBY then ascii ''Return to Lobby''
      else if vote = SHROOM_REMATCH_VOTE_SPECTATE then ascii ''Spectate'' else ascii ''Not cast'')"

definition ShroomResultsFormatVoteParticipation :: "u16 \<Rightarrow> u16 \<Rightarrow> u16 \<Rightarrow> u16 \<Rightarrow> nat \<Rightarrow> u8 list option" where
  "ShroomResultsFormatVoteParticipation play_again return_to_lobby spectate eligible buffer_size =
     format_into buffer_size (ascii ''Participation: '' @ decimal (unat play_again + unat return_to_lobby + unat spectate) @
       ascii '' / '' @ decimal (unat eligible) @ ascii '' eligible'')"

definition ShroomResultsFormatLocalVote :: "u8 \<Rightarrow> bool \<Rightarrow> nat \<Rightarrow> u8 list option" where
  "ShroomResultsFormatLocalVote vote can_vote buffer_size =
     format_into buffer_size (if \<not> can_vote then ascii ''Your vote: Not eligible'' else ascii ''Your vote: '' @ ShroomResultsVoteLabel vote)"

definition ShroomResultsFormatDecision :: "u8 \<Rightarrow> nat \<Rightarrow> u8 list option" where
  "ShroomResultsFormatDecision decision buffer_size = format_into buffer_size (ascii ''Decision: '' @ ShroomResultsVoteLabel decision)"

section \<open>Presentation\<close>

definition ShroomMatchPresentationNeedsReset :: "u32 \<Rightarrow> u32 \<Rightarrow> bool" where
  "ShroomMatchPresentationNeedsReset previous_phase current_phase \<longleftrightarrow>
     previous_phase = SHROOM_MATCH_PHASE_RESULTS \<and> current_phase = SHROOM_MATCH_PHASE_RUNNING"

datatype ShroomPlayerRenderLodTier = SHROOM_PLAYER_LOD_FULL | SHROOM_PLAYER_LOD_MEDIUM | SHROOM_PLAYER_LOD_MINIMAL

definition SHROOM_PLAYER_LOD_MEDIUM_RADIUS :: f32 where "SHROOM_PLAYER_LOD_MEDIUM_RADIUS = 0x428c0000"
definition SHROOM_PLAYER_LOD_MINIMAL_RADIUS :: f32 where "SHROOM_PLAYER_LOD_MINIMAL_RADIUS = 0x430c0000"

definition ShroomPlayerRenderLodForRadius :: "f32 \<Rightarrow> ShroomPlayerRenderLodTier" where
  "ShroomPlayerRenderLodForRadius radius =
     (if f32_le SHROOM_PLAYER_LOD_MINIMAL_RADIUS radius then SHROOM_PLAYER_LOD_MINIMAL
      else if f32_le SHROOM_PLAYER_LOD_MEDIUM_RADIUS radius then SHROOM_PLAYER_LOD_MEDIUM else SHROOM_PLAYER_LOD_FULL)"

definition ShroomPlayerRenderLodShouldDrawInnerHighlight :: "ShroomPlayerRenderLodTier \<Rightarrow> bool" where
  "ShroomPlayerRenderLodShouldDrawInnerHighlight tier \<longleftrightarrow> tier = SHROOM_PLAYER_LOD_FULL"
definition ShroomPlayerRenderLodShouldDrawPrimaryTopLight :: "ShroomPlayerRenderLodTier \<Rightarrow> bool" where
  "ShroomPlayerRenderLodShouldDrawPrimaryTopLight tier \<longleftrightarrow> tier \<noteq> SHROOM_PLAYER_LOD_MINIMAL"
definition ShroomPlayerRenderLodShouldDrawSecondaryHighlight :: "ShroomPlayerRenderLodTier \<Rightarrow> bool" where
  "ShroomPlayerRenderLodShouldDrawSecondaryHighlight tier \<longleftrightarrow> tier = SHROOM_PLAYER_LOD_FULL"
definition ShroomPlayerRenderLodShouldDrawSpeciesPattern :: "ShroomPlayerRenderLodTier \<Rightarrow> bool" where
  "ShroomPlayerRenderLodShouldDrawSpeciesPattern tier \<longleftrightarrow> tier = SHROOM_PLAYER_LOD_FULL"
definition ShroomPlayerRenderLodTextShadowPasses :: "ShroomPlayerRenderLodTier \<Rightarrow> int" where
  "ShroomPlayerRenderLodTextShadowPasses tier =
     (case tier of SHROOM_PLAYER_LOD_MINIMAL \<Rightarrow> 1 | SHROOM_PLAYER_LOD_MEDIUM \<Rightarrow> 2 | SHROOM_PLAYER_LOD_FULL \<Rightarrow> 4)"

text \<open>The bigger a player, the less is drawn of it.\<close>

lemma lod_monotone:
  assumes "f32_le r s"
  shows "ShroomPlayerRenderLodTextShadowPasses (ShroomPlayerRenderLodForRadius s)
    \<le> ShroomPlayerRenderLodTextShadowPasses (ShroomPlayerRenderLodForRadius r)"
proof -
  have "\<not> f32_is_nan r" "\<not> f32_is_nan s" using assms by (auto simp: f32_le_def f32_lt_def f32_eq_def)
  moreover have "\<not> f32_is_nan SHROOM_PLAYER_LOD_MEDIUM_RADIUS" "\<not> f32_is_nan SHROOM_PLAYER_LOD_MINIMAL_RADIUS"
    "f32_order SHROOM_PLAYER_LOD_MEDIUM_RADIUS \<le> f32_order SHROOM_PLAYER_LOD_MINIMAL_RADIUS" by code_simp+
  ultimately show ?thesis using assms
    by (auto simp: ShroomPlayerRenderLodForRadius_def ShroomPlayerRenderLodTextShadowPasses_def f32_le_iff)
qed

section \<open>Game modes\<close>

record ShroomGameModeCapability =
  gc_mode :: u32
  gc_label :: string
  gc_summary :: string
  gc_available :: bool

abbreviation (input) SHROOM_GAME_MODE_TEAMS_2V2 :: u32 where "SHROOM_GAME_MODE_TEAMS_2V2 \<equiv> 1"
abbreviation (input) SHROOM_GAME_MODE_TEAMS_3V3 :: u32 where "SHROOM_GAME_MODE_TEAMS_3V3 \<equiv> 2"
abbreviation (input) SHROOM_GAME_MODE_TEAMS_4V4 :: u32 where "SHROOM_GAME_MODE_TEAMS_4V4 \<equiv> 3"
abbreviation (input) SHROOM_GAME_MODE_BATTLE_ROYALE :: u32 where "SHROOM_GAME_MODE_BATTLE_ROYALE \<equiv> 4"
abbreviation (input) SHROOM_GAME_MODE_MASS_RACE :: u32 where "SHROOM_GAME_MODE_MASS_RACE \<equiv> 6"

definition ShroomGameModeCapabilities :: "ShroomGameModeCapability list" where
  "ShroomGameModeCapabilities =
     [\<lparr>gc_mode = SHROOM_GAME_MODE_FFA, gc_label = ''Free-for-All (FFA)'',
       gc_summary = ''Grow, split, and outlast every other colony in the arena.'', gc_available = True\<rparr>,
      \<lparr>gc_mode = SHROOM_GAME_MODE_TEAMS_2V2, gc_label = ''Teams 2v2'',
       gc_summary = ''Coordinate with one ally against another pair.'', gc_available = False\<rparr>,
      \<lparr>gc_mode = SHROOM_GAME_MODE_TEAMS_3V3, gc_label = ''Teams 3v3'',
       gc_summary = ''Three-player squads compete for total control.'', gc_available = False\<rparr>,
      \<lparr>gc_mode = SHROOM_GAME_MODE_TEAMS_4V4, gc_label = ''Teams 4v4'',
       gc_summary = ''Large squads share pressure across the arena.'', gc_available = False\<rparr>,
      \<lparr>gc_mode = SHROOM_GAME_MODE_BATTLE_ROYALE, gc_label = ''Battle Royale'',
       gc_summary = ''Survive a shrinking arena until one colony remains.'', gc_available = False\<rparr>,
      \<lparr>gc_mode = SHROOM_GAME_MODE_KING_OF_HILL, gc_label = ''King of the Hill'',
       gc_summary = ''Hold the center zone to build a winning score.'', gc_available = True\<rparr>,
      \<lparr>gc_mode = SHROOM_GAME_MODE_MASS_RACE, gc_label = ''Mass Race'',
       gc_summary = ''Be the first colony to reach the mass target.'', gc_available = False\<rparr>]"

definition ShroomGameModeIsAvailable :: "u32 \<Rightarrow> bool" where
  "ShroomGameModeIsAvailable mode =
     (case List.find (\<lambda>c. gc_mode c = mode) ShroomGameModeCapabilities of Some c \<Rightarrow> gc_available c | None \<Rightarrow> False)"

text \<open>The modes a client offers are the ones \<open>HandleLobbyCreate\<close> accepts.\<close>

lemma available_modes: "ShroomGameModeIsAvailable mode \<longleftrightarrow> mode = SHROOM_GAME_MODE_FFA \<or> mode = SHROOM_GAME_MODE_KING_OF_HILL"
  by (auto simp: ShroomGameModeIsAvailable_def ShroomGameModeCapabilities_def
      SHROOM_GAME_MODE_FFA_def SHROOM_GAME_MODE_KING_OF_HILL_def)

section \<open>Mixing voices\<close>

definition f32_isfinite :: "f32 \<Rightarrow> bool" where "f32_isfinite a \<longleftrightarrow> \<not> f32_is_nan a \<and> \<not> f32_is_inf a"

definition ShroomVoiceMixAdd :: "f32 list \<Rightarrow> f32 list \<Rightarrow> f32 \<Rightarrow> f32 list" where
  "ShroomVoiceMixAdd mix source volume =
     (if \<not> f32_isfinite volume \<or> f32_le volume 0 then mix
      else map2 (\<lambda>m s. f32_add m (f32_mul s volume)) mix source)"

definition ShroomVoiceMixClamp :: "f32 list \<Rightarrow> f32 list" where
  "ShroomVoiceMixClamp mix =
     map (\<lambda>m. if \<not> f32_isfinite m then 0 else if f32_lt 0x3f800000 m then 0x3f800000
              else if f32_lt m 0xbf800000 then 0xbf800000 else m) mix"

text \<open>The samples given to the audio device are between minus one and one, whatever was mixed.\<close>

lemma mix_clamped: "s \<in> set (ShroomVoiceMixClamp mix) \<Longrightarrow> f32_within 0xbf800000 0x3f800000 s"
proof -
  have c: "f32_within 0xbf800000 0x3f800000 0" "f32_within 0xbf800000 0x3f800000 0x3f800000" "f32_within 0xbf800000 0x3f800000 0xbf800000"
    "\<not> f32_is_nan 0x3f800000" "\<not> f32_is_nan 0xbf800000" "f32_finite 0x3f800000" "f32_finite 0xbf800000" by code_simp+
  have "f32_within 0xbf800000 0x3f800000 m" if "f32_isfinite m" "\<not> f32_lt 0x3f800000 m" "\<not> f32_lt m 0xbf800000" for m
    using that c(4,5) by (intro withinI [OF c(7,6)]) (auto simp: f32_isfinite_def f32_lt_iff)
  then show "s \<in> set (ShroomVoiceMixClamp mix) \<Longrightarrow> f32_within 0xbf800000 0x3f800000 s"
    using c(1-3) by (auto simp: ShroomVoiceMixClamp_def)
qed

end
