(* ===== verification/Client_Input.thy ===== *)
theory Client_Input
  imports Input_Admission Sim_Match
begin

text \<open>
  Inputs on the side of the client: the scheduler that sends one packet per thirtieth of a second and keeps
  the actions asked for in a queue (\<open>src/src/client/input_scheduler.c\<close>), the prediction of the own position
  from the inputs the server has not acknowledged (\<open>prediction.c\<close>), and the buffer of these inputs
  (\<open>game.c\<close>).
\<close>

section \<open>Double precision\<close>

text \<open>Sums, comparison and \<open>fmod\<close> of nonnegative doubles; the last two are exact.\<close>

definition f64_scaled :: "f64 \<Rightarrow> int \<Rightarrow> int" where
  "f64_scaled a e = fst a * 2 ^ nat (snd a - e)"

definition f64_add :: "f64 \<Rightarrow> f64 \<Rightarrow> f64" where
  "f64_add a b = (let e = min (snd a) (snd b) in f64_round (f64_scaled a e + f64_scaled b e) e)"

definition f64_lt :: "f64 \<Rightarrow> f64 \<Rightarrow> bool" where
  "f64_lt a b \<longleftrightarrow> (let e = min (snd a) (snd b) in f64_scaled a e < f64_scaled b e)"

definition f64_mod :: "f64 \<Rightarrow> f64 \<Rightarrow> f64" where
  "f64_mod a b = (let e = min (snd a) (snd b) in (f64_scaled a e mod f64_scaled b e, e))"

definition kInputIntervalSeconds :: f64 where "kInputIntervalSeconds = f64_div (1, 0) (30, 0)"

section \<open>The scheduler\<close>

definition SHROOM_CLIENT_ACTION_QUEUE_CAPACITY :: nat where "SHROOM_CLIENT_ACTION_QUEUE_CAPACITY = 16"

record ShroomClientScheduledActions =
  ca_split_requested :: bool
  ca_eject_requested :: bool
  ca_direction :: ShroomVec2
  ca_focused_entity_id :: u32
  ca_intent_id :: u64

record ShroomClientInputScheduler =
  cs_accumulator_seconds :: f64
  cs_action_queue :: "ShroomClientScheduledActions list"
  cs_action_queue_head :: nat
  cs_action_queue_count :: nat
  cs_next_action_intent_id :: u64
  cs_sent_count :: u64
  cs_suppressed_catchup_count :: u64
  cs_action_overflow_count :: u64

definition no_actions :: ShroomClientScheduledActions where
  "no_actions = \<lparr>ca_split_requested = False, ca_eject_requested = False, ca_direction = zero_vec2,
     ca_focused_entity_id = 0, ca_intent_id = 0\<rparr>"

definition ShroomClientInputSchedulerReset :: ShroomClientInputScheduler where
  "ShroomClientInputSchedulerReset =
     \<lparr>cs_accumulator_seconds = (0, 0), cs_action_queue = replicate SHROOM_CLIENT_ACTION_QUEUE_CAPACITY no_actions,
      cs_action_queue_head = 0, cs_action_queue_count = 0, cs_next_action_intent_id = 0, cs_sent_count = 0,
      cs_suppressed_catchup_count = 0, cs_action_overflow_count = 0\<rparr>"

definition ShroomClientInputSchedulerPause :: "ShroomClientInputScheduler \<Rightarrow> ShroomClientInputScheduler" where
  "ShroomClientInputSchedulerPause s =
     s\<lparr>cs_accumulator_seconds := (0, 0), cs_action_queue_head := 0, cs_action_queue_count := 0\<rparr>"

definition ShroomClientInputSchedulerQueueActions ::
  "ShroomClientInputScheduler \<Rightarrow> bool \<Rightarrow> bool \<Rightarrow> ShroomVec2 \<Rightarrow> u32 \<Rightarrow> bool \<times> ShroomClientInputScheduler" where
  "ShroomClientInputSchedulerQueueActions s split_requested eject_requested direction focused_entity_id =
     (if \<not> split_requested \<and> \<not> eject_requested then (False, s)
      else if SHROOM_CLIENT_ACTION_QUEUE_CAPACITY \<le> cs_action_queue_count s
      then (False, s\<lparr>cs_action_overflow_count := cs_action_overflow_count s + 1\<rparr>)
      else
        let intent = cs_next_action_intent_id s + 1; intent = (if intent = 0 then 1 else intent);
            tail = (cs_action_queue_head s + cs_action_queue_count s) mod SHROOM_CLIENT_ACTION_QUEUE_CAPACITY
        in (True, s\<lparr>cs_next_action_intent_id := intent,
              cs_action_queue := (cs_action_queue s)[tail := \<lparr>ca_split_requested = split_requested,
                ca_eject_requested = eject_requested, ca_direction = direction,
                ca_focused_entity_id = focused_entity_id, ca_intent_id = intent\<rparr>],
              cs_action_queue_count := cs_action_queue_count s + 1\<rparr>))"

definition ShroomClientInputSchedulerPrepare ::
  "ShroomClientInputScheduler \<Rightarrow> f32 \<Rightarrow> bool \<times> ShroomClientScheduledActions \<times> ShroomClientInputScheduler" where
  "ShroomClientInputSchedulerPrepare s delta_time =
     (if f32_is_nan delta_time \<or> f32_is_inf delta_time \<or> f32_le delta_time 0 then (False, no_actions, s)
      else
        let accumulator = f64_add (cs_accumulator_seconds s) (f64_of_f32 delta_time)
        in if f64_lt accumulator kInputIntervalSeconds
           then (False, no_actions, s\<lparr>cs_accumulator_seconds := accumulator\<rparr>)
           else
             let elapsed_slots = f64_to_u64 (f64_div accumulator kInputIntervalSeconds);
                 s = (if 1 < elapsed_slots
                      then s\<lparr>cs_suppressed_catchup_count := cs_suppressed_catchup_count s + (elapsed_slots - 1)\<rparr> else s);
                 s = s\<lparr>cs_accumulator_seconds := f64_mod accumulator kInputIntervalSeconds\<rparr>
             in (True, if 0 < cs_action_queue_count s then cs_action_queue s ! cs_action_queue_head s else no_actions, s))"

definition ShroomClientInputSchedulerCommit ::
  "ShroomClientInputScheduler \<Rightarrow> ShroomClientScheduledActions \<Rightarrow> ShroomClientInputScheduler" where
  "ShroomClientInputSchedulerCommit s actions =
     (let s = (if ca_intent_id actions \<noteq> 0 \<and> 0 < cs_action_queue_count s \<and>
                  ca_intent_id (cs_action_queue s ! cs_action_queue_head s) = ca_intent_id actions
               then s\<lparr>cs_action_queue_head := (cs_action_queue_head s + 1) mod SHROOM_CLIENT_ACTION_QUEUE_CAPACITY,
                      cs_action_queue_count := cs_action_queue_count s - 1\<rparr>
               else s)
      in s\<lparr>cs_sent_count := cs_sent_count s + 1\<rparr>)"

section \<open>The ring is a queue\<close>

definition scheduler_ok :: "ShroomClientInputScheduler \<Rightarrow> bool" where
  "scheduler_ok s \<longleftrightarrow> length (cs_action_queue s) = SHROOM_CLIENT_ACTION_QUEUE_CAPACITY \<and>
     cs_action_queue_head s < SHROOM_CLIENT_ACTION_QUEUE_CAPACITY \<and>
     cs_action_queue_count s \<le> SHROOM_CLIENT_ACTION_QUEUE_CAPACITY"

definition queued :: "ShroomClientInputScheduler \<Rightarrow> ShroomClientScheduledActions list" where
  "queued s = map (\<lambda>i. cs_action_queue s ! ((cs_action_queue_head s + i) mod SHROOM_CLIENT_ACTION_QUEUE_CAPACITY))
     [0..<cs_action_queue_count s]"

lemma queue_actions:
  assumes ok: "scheduler_ok s" and "split_requested \<or> eject_requested" and "length (queued s) < SHROOM_CLIENT_ACTION_QUEUE_CAPACITY"
  shows "\<exists>s' a. ShroomClientInputSchedulerQueueActions s split_requested eject_requested direction entity = (True, s') \<and>
    scheduler_ok s' \<and> queued s' = queued s @ [a] \<and> ca_intent_id a \<noteq> 0 \<and> ca_split_requested a = split_requested \<and>
    ca_eject_requested a = eject_requested \<and> ca_direction a = direction \<and> ca_focused_entity_id a = entity"
proof -
  let ?n = "cs_action_queue_count s" and ?h = "cs_action_queue_head s" and ?cap = SHROOM_CLIENT_ACTION_QUEUE_CAPACITY
  have n: "?n < ?cap" using assms(3) by (simp add: queued_def)
  define intent where "intent = (if cs_next_action_intent_id s + 1 = 0 then 1 else cs_next_action_intent_id s + 1)"
  define a where "a = \<lparr>ca_split_requested = split_requested, ca_eject_requested = eject_requested, ca_direction = direction,
    ca_focused_entity_id = entity, ca_intent_id = intent\<rparr>"
  define s' where "s' = s\<lparr>cs_next_action_intent_id := intent, cs_action_queue := (cs_action_queue s)[(?h + ?n) mod ?cap := a],
    cs_action_queue_count := ?n + 1\<rparr>"
  have q: "ShroomClientInputSchedulerQueueActions s split_requested eject_requested direction entity = (True, s')"
    using assms(2) n by (auto simp: ShroomClientInputSchedulerQueueActions_def Let_def s'_def a_def intent_def)
  have other: False if i: "i < ?n" and eq: "(?h + ?n) mod ?cap = (?h + i) mod ?cap" for i
  proof -
    have "?cap dvd ?h + ?n - (?h + i)" using i mod_eq_dvd_iff_nat [of "?h + i" "?h + ?n" ?cap] eq by simp
    then have "?cap dvd ?n - i" by simp
    with i n show False by (auto dest: dvd_imp_le)
  qed
  have "(?h + ?n) mod ?cap < ?cap" by (simp add: SHROOM_CLIENT_ACTION_QUEUE_CAPACITY_def)
  then have "queued s' = queued s @ [a]"
    using ok by (auto simp: queued_def s'_def scheduler_ok_def nth_list_update dest: other)
  moreover have "scheduler_ok s'" using ok n by (simp add: scheduler_ok_def s'_def)
  moreover have "ca_intent_id a \<noteq> 0" by (simp add: a_def intent_def)
  ultimately show ?thesis using q by (intro exI [of _ s'] exI [of _ a]) (simp add: a_def)
qed

lemma queued_head:
  assumes "scheduler_ok s" and "0 < cs_action_queue_count s"
  shows "queued s = cs_action_queue s ! cs_action_queue_head s # tl (queued s)"
proof -
  obtain n where "cs_action_queue_count s = Suc n" using assms(2) by (auto simp: gr0_conv_Suc)
  with assms(1) show ?thesis by (simp add: queued_def scheduler_ok_def upt_conv_Cons del: upt_Suc)
qed

text \<open>What is sent is the oldest action; until it is committed it stays at the head.\<close>

lemma prepare_head:
  assumes "ShroomClientInputSchedulerPrepare s delta_time = (True, actions, s')" and "scheduler_ok s"
  shows "queued s' = queued s" and "scheduler_ok s'" and "actions = (if queued s = [] then no_actions else hd (queued s))"
proof -
  have eq: "cs_action_queue s' = cs_action_queue s" "cs_action_queue_head s' = cs_action_queue_head s"
    "cs_action_queue_count s' = cs_action_queue_count s"
    "actions = (if 0 < cs_action_queue_count s then cs_action_queue s ! cs_action_queue_head s else no_actions)"
    using assms by (auto simp: ShroomClientInputSchedulerPrepare_def Let_def split: if_splits)
  then show "queued s' = queued s" and "scheduler_ok s'" using assms(2) by (simp_all add: queued_def scheduler_ok_def)
  show "actions = (if queued s = [] then no_actions else hd (queued s))"
  proof (cases "0 < cs_action_queue_count s")
    case True
    from queued_head [OF assms(2) this] eq True show ?thesis by (metis list.discI list.sel(1))
  next
    case False
    then have "queued s = []" by (simp add: queued_def)
    then show ?thesis using eq False by simp
  qed
qed

lemma commit_head:
  assumes "scheduler_ok s" and "queued s = a # rest" and "ca_intent_id a \<noteq> 0"
  shows "queued (ShroomClientInputSchedulerCommit s a) = rest" and "scheduler_ok (ShroomClientInputSchedulerCommit s a)"
proof -
  let ?n = "cs_action_queue_count s" and ?h = "cs_action_queue_head s" and ?cap = SHROOM_CLIENT_ACTION_QUEUE_CAPACITY
  have n: "0 < ?n" using assms(2) by (cases ?n) (simp_all add: queued_def)
  with queued_head [OF assms(1)] assms(2) have a: "cs_action_queue s ! ?h = a" and rest: "rest = tl (queued s)" by auto
  have s': "ShroomClientInputSchedulerCommit s a = s\<lparr>cs_action_queue_head := (?h + 1) mod ?cap, cs_action_queue_count := ?n - 1,
      cs_sent_count := cs_sent_count s + 1\<rparr>"
    using n a assms(3) by (simp add: ShroomClientInputSchedulerCommit_def Let_def)
  have "map f [0..<?n - 1] = tl (map g [0..<?n])" if "\<And>i. f i = g (Suc i)" for f g :: "nat \<Rightarrow> ShroomClientScheduledActions"
    using n that by (intro nth_equalityI) (simp_all add: nth_tl)
  moreover have "((?h + 1) mod ?cap + i) mod ?cap = (?h + Suc i) mod ?cap" for i by (simp add: mod_add_left_eq)
  ultimately show "queued (ShroomClientInputSchedulerCommit s a) = rest" unfolding rest s' queued_def by simp
  have "(?h + 1) mod ?cap < ?cap" by (simp add: SHROOM_CLIENT_ACTION_QUEUE_CAPACITY_def)
  with assms(1) show "scheduler_ok (ShroomClientInputSchedulerCommit s a)" unfolding s'
    by (auto simp: scheduler_ok_def intro: le_trans [OF diff_le_self])
qed

section \<open>Prediction\<close>

record ShroomPendingInput =
  pi_sequence :: u32
  pi_direction :: ShroomVec2

definition prediction_clamp :: "f32 \<Rightarrow> f32 \<Rightarrow> f32 \<Rightarrow> f32" where
  "prediction_clamp v minimum maximum = (if f32_lt v minimum then minimum else if f32_lt maximum v then maximum else v)"

definition prediction_newer :: "u32 \<Rightarrow> u32 \<Rightarrow> bool" where
  "prediction_newer sequence previous = (let delta = sequence - previous in delta \<noteq> 0 \<and> delta < 0x80000000)"

definition ShroomPredictionApplyInput :: "ShroomVec2 \<Rightarrow> ShroomVec2 \<Rightarrow> f32 \<Rightarrow> f32 \<Rightarrow> f32 \<Rightarrow> f32 \<Rightarrow> f32 \<Rightarrow> ShroomVec2" where
  "ShroomPredictionApplyInput position direction speed delta_time radius world_width world_height =
     (let x = f32_add (v2_x position) (f32_mul (f32_mul (v2_x direction) speed) delta_time);
          y = f32_add (v2_y position) (f32_mul (f32_mul (v2_y direction) speed) delta_time)
      in \<lparr>v2_x = prediction_clamp x radius (f32_sub world_width radius),
          v2_y = prediction_clamp y radius (f32_sub world_height radius)\<rparr>)"

definition ShroomPredictionDiscardAcknowledged :: "ShroomPendingInput list \<Rightarrow> u32 \<Rightarrow> ShroomPendingInput list" where
  "ShroomPredictionDiscardAcknowledged inputs acknowledged_sequence =
     filter (\<lambda>i. prediction_newer (pi_sequence i) acknowledged_sequence) inputs"

definition ShroomPredictionReplay :: "ShroomVec2 \<Rightarrow> ShroomPendingInput list \<Rightarrow> f32 \<Rightarrow> f32 \<Rightarrow> f32 \<Rightarrow> f32 \<Rightarrow> f32 \<Rightarrow> ShroomVec2" where
  "ShroomPredictionReplay position inputs speed tick_delta_time radius world_width world_height =
     fold (\<lambda>i p. ShroomPredictionApplyInput p (pi_direction i) speed tick_delta_time radius world_width world_height) inputs position"

definition SHROOM_PREDICTION_SNAP_DISTANCE :: f32 where "SHROOM_PREDICTION_SNAP_DISTANCE = 0x42c00000"
definition SHROOM_PREDICTION_CORRECTION_RATE :: f32 where "SHROOM_PREDICTION_CORRECTION_RATE = 0x41400000"

definition ShroomPredictionReconcileRender :: "ShroomVec2 \<Rightarrow> ShroomVec2 \<Rightarrow> bool \<times> ShroomVec2" where
  "ShroomPredictionReconcileRender render_position predicted_position =
     (let threshold_sqr = f32_mul SHROOM_PREDICTION_SNAP_DISTANCE SHROOM_PREDICTION_SNAP_DISTANCE;
          error_x = f32_sub (v2_x predicted_position) (v2_x render_position);
          error_y = f32_sub (v2_y predicted_position) (v2_y render_position)
      in if f32_lt threshold_sqr (f32_add (f32_mul error_x error_x) (f32_mul error_y error_y))
         then (True, predicted_position) else (False, render_position))"

definition ShroomPredictionSmoothRender :: "ShroomVec2 \<Rightarrow> ShroomVec2 \<Rightarrow> f32 \<Rightarrow> ShroomVec2" where
  "ShroomPredictionSmoothRender render_position predicted_position delta_time =
     (let blend = f32_min 0x3f800000 (f32_mul delta_time SHROOM_PREDICTION_CORRECTION_RATE)
      in \<lparr>v2_x = f32_add (v2_x render_position) (f32_mul (f32_sub (v2_x predicted_position) (v2_x render_position)) blend),
          v2_y = f32_add (v2_y render_position) (f32_mul (f32_sub (v2_y predicted_position) (v2_y render_position)) blend)\<rparr>)"

text \<open>The buffer of the inputs sent (\<open>game.c\<close>).\<close>

definition SHROOM_CLIENT_PENDING_INPUT_CAPACITY :: nat where "SHROOM_CLIENT_PENDING_INPUT_CAPACITY = 128"

definition AppendPendingInput :: "ShroomPendingInput list \<Rightarrow> u32 \<Rightarrow> ShroomVec2 \<Rightarrow> ShroomPendingInput list" where
  "AppendPendingInput inputs sequence direction =
     (if sequence = 0 then inputs
      else (if length inputs = SHROOM_CLIENT_PENDING_INPUT_CAPACITY then tl inputs else inputs) @
        [\<lparr>pi_sequence = sequence, pi_direction = direction\<rparr>])"

definition ApplyPredictedInputToPlayer ::
  "ShroomWorldState \<Rightarrow> ShroomPlayerState option \<Rightarrow> ShroomVec2 \<Rightarrow> f32 \<Rightarrow> ShroomVec2 \<times> ShroomPlayerState option" where
  "ApplyPredictedInputToPlayer world player input_direction delta_time =
     (case player of
        None \<Rightarrow> (zero_vec2, None)
      | Some p \<Rightarrow>
          if \<not> pl_alive p then (zero_vec2, Some p)
          else
            let position = ShroomPredictionApplyInput (pl_position p) input_direction (ShroomMassToSpeed (pl_mass p)) delta_time
                  (pl_radius p) (ws_width world) (ws_height world)
            in (\<lparr>v2_x = f32_sub (v2_x position) (v2_x (pl_position p)), v2_y = f32_sub (v2_y position) (v2_y (pl_position p))\<rparr>,
                Some (p\<lparr>pl_input_direction := input_direction, pl_position := position\<rparr>)))"

definition ReapplyPendingInputs :: "ShroomWorldState \<Rightarrow> ShroomPlayerState option \<Rightarrow> ShroomPendingInput list \<Rightarrow> ShroomPlayerState option" where
  "ReapplyPendingInputs world player inputs =
     (case player of
        None \<Rightarrow> None
      | Some p \<Rightarrow>
          if \<not> pl_alive p then Some p
          else Some (p\<lparr>pl_position := ShroomPredictionReplay (pl_position p) inputs (ShroomMassToSpeed (pl_mass p))
            (f32_div 0x3f800000 0x41f00000) (pl_radius p) (ws_width world) (ws_height world)\<rparr>))"

section \<open>What prediction keeps\<close>

lemma prediction_newer_eq: "prediction_newer = SequenceIsNewer"
  by (simp add: fun_eq_iff prediction_newer_def SequenceIsNewer_def)

text \<open>A number every input of the buffer comes after: the inputs in the buffer are in the order they were sent.\<close>

definition pending_ok :: "ShroomPendingInput list \<Rightarrow> bool" where
  "pending_ok inputs \<longleftrightarrow> length inputs \<le> SHROOM_CLIENT_PENDING_INPUT_CAPACITY \<and>
     successively (\<lambda>a b. SequenceIsNewer (pi_sequence b) (pi_sequence a)) inputs"

text \<open>The sequence number the client uses next (\<open>SendInput\<close> of \<open>net.c\<close>) is newer for the server, also when it wraps.\<close>

definition next_sequence :: "u32 \<Rightarrow> u32" where
  "next_sequence last_input_sequence = (if last_input_sequence = 0xFFFFFFFF then 1 else last_input_sequence + 1)"

lemma next_sequence_newer: "SequenceIsNewer (next_sequence s) s" and next_sequence_nonzero: "next_sequence s \<noteq> 0"
proof -
  have "s + 1 \<noteq> 0" if "s \<noteq> 0xFFFFFFFF" using that by (auto simp: eq_neg_iff_add_eq_0 [symmetric])
  then show "next_sequence s \<noteq> 0" by (simp add: next_sequence_def)
  show "SequenceIsNewer (next_sequence s) s" by (simp add: next_sequence_def SequenceIsNewer_def)
qed

lemma pending_append:
  assumes "pending_ok inputs" and "inputs = [] \<or> pi_sequence (last inputs) = s"
  shows "pending_ok (AppendPendingInput inputs (next_sequence s) direction)"
proof -
  define kept where "kept = (if length inputs = SHROOM_CLIENT_PENDING_INPUT_CAPACITY then tl inputs else inputs)"
  have len: "length kept < SHROOM_CLIENT_PENDING_INPUT_CAPACITY" using assms(1)
    by (auto simp: kept_def pending_ok_def SHROOM_CLIENT_PENDING_INPUT_CAPACITY_def)
  have "successively (\<lambda>a b. SequenceIsNewer (pi_sequence b) (pi_sequence a)) kept"
    using assms(1) by (cases inputs) (auto simp: kept_def pending_ok_def successively_Cons)
  moreover have "kept = [] \<or> pi_sequence (last kept) = s" using assms(2) by (cases inputs; cases "tl inputs") (auto simp: kept_def)
  ultimately have "successively (\<lambda>a b. SequenceIsNewer (pi_sequence b) (pi_sequence a))
      (kept @ [\<lparr>pi_sequence = next_sequence s, pi_direction = direction\<rparr>])"
    using next_sequence_newer by (auto simp: successively_append_iff)
  with len show ?thesis unfolding pending_ok_def AppendPendingInput_def kept_def [symmetric] by (simp add: next_sequence_nonzero)
qed

text \<open>A predicted position is inside the arena.\<close>

lemma predicted_inside:
  assumes "f32_finite radius" and "f32_finite (f32_sub world_width radius)" and "f32_order radius \<le> f32_order (f32_sub world_width radius)"
    and "\<not> f32_is_nan (f32_add (v2_x position) (f32_mul (f32_mul (v2_x direction) speed) delta_time))"
  shows "f32_within radius (f32_sub world_width radius)
    (v2_x (ShroomPredictionApplyInput position direction speed delta_time radius world_width world_height))"
  using assms
  by (intro withinI [OF assms(1,2)]) (auto simp: ShroomPredictionApplyInput_def Let_def prediction_clamp_def f32_lt_iff)

text \<open>Inputs acknowledged in two steps: what is replayed afterwards is the same.\<close>

lemma replay_append:
  "ShroomPredictionReplay p (a @ b) v t r w h = ShroomPredictionReplay (ShroomPredictionReplay p a v t r w h) b v t r w h"
  by (simp add: ShroomPredictionReplay_def)

text \<open>
  The prediction is not the server's movement: it ignores the speed powerup, with which the server moves a player
  faster than the client predicts.
\<close>

lemma prediction_ignores_speed_powerup:
  "ApplyPredictedInputToPlayer world (Some (p\<lparr>pl_speed_powerup_timer := t\<rparr>)) d dt =
     (fst (ApplyPredictedInputToPlayer world (Some p) d dt),
      map_option (\<lambda>q. q\<lparr>pl_speed_powerup_timer := t\<rparr>) (snd (ApplyPredictedInputToPlayer world (Some p) d dt)))"
  by (simp add: ApplyPredictedInputToPlayer_def Let_def)

end
