(* ===== verification/Client_Net.thy ===== *)
theory Client_Net
  imports Server_Packets Client_Models Client_Input World_Client Snapshot_Assembly
begin

text \<open>
  The network session of the client (\<open>src/src/client/net.c\<close>): its state, the handlers of the packets of the
  server, what the client sends, and the parts of a frame.  The ENet peer is \<open>Some c\<close>, with \<open>c\<close> for the
  connected state, or \<open>None\<close>.  ENet, the clock and the chat cache file answer through the environment;
  telemetry is left out.  A handler gives the new state and what leaves the session.  The state is one record,
  extended part by part; the count of an array is the length of its list, except for the roster and the chat
  ring, whose arrays are kept whole.
\<close>

section \<open>State\<close>

datatype ClientNetStatus = CLIENT_NET_DISCONNECTED | CLIENT_NET_CONNECTING | CLIENT_NET_CONNECTED | CLIENT_NET_ERROR

record ChatMessage =
  cm_sender_id :: u32
  cm_message_id :: u64
  cm_timestamp_sec :: u32
  cm_sender_name :: "u8 list"
  cm_message :: "u8 list"

record net_link =
  nt_host :: bool
  nt_peer :: "bool option"
  nt_enet_initialized :: bool
  nt_status :: ClientNetStatus
  nt_status_text :: "u8 list"
  nt_player_name :: "u8 list"
  nt_server_host :: "u8 list"
  nt_server_port :: u16
  nt_server_tick_rate :: u16
  nt_snapshot_rate :: u16
  nt_next_ping_nonce :: u32
  nt_pending_ping_nonce :: u32
  nt_pending_ping_sent_time_ms :: u32
  nt_connect_started_ms :: u32
  nt_rtt_ms :: u32
  nt_rtt_average_ms :: u32
  nt_rtt_samples :: "u32 list"
  nt_rtt_sample_count :: nat
  nt_rtt_sample_index :: nat
  nt_ping_send_accumulator :: f32

record net_chat = net_link +
  nt_chat_history :: "ChatMessage list"
  nt_chat_history_count :: nat
  nt_chat_history_head :: nat
  nt_chat_unread_count :: u32
  nt_chat_history_identity :: u64

record net_lobby = net_chat +
  nt_handshake_received :: bool
  nt_welcome_received :: bool
  nt_player_id :: u32
  nt_entity_id :: u32
  nt_spectating :: bool
  nt_match_entry_sent :: bool
  nt_lobby_id :: u32
  nt_lobby_name :: "u8 list"
  nt_lobby_max_players :: u16
  nt_world_width :: f32
  nt_world_height :: f32
  nt_lobby_list :: "ShroomLobbyEntry list"
  nt_lobby_roster_received :: bool
  nt_lobby_match_started :: bool
  nt_lobby_roster_count :: u16
  nt_lobby_roster_generation :: u32
  nt_lobby_roster_chunk_count :: u16
  nt_lobby_roster_received_chunks :: u32
  nt_lobby_roster :: "ShroomLobbyRosterEntry list"
  nt_intermission :: ShroomIntermissionStatusPacket
  nt_intermission_received :: bool
  nt_consumed_intermission_round_id :: u32
  nt_consumed_intermission_round_valid :: bool

record ClientNetState = net_lobby +
  nt_last_input_sequence :: u32
  nt_last_processed_input_sequence :: u32
  nt_last_snapshot_tick :: u64
  nt_snapshot_received :: bool
  nt_snapshot_players :: "ShroomSnapshotPlayerState list"
  nt_snapshot_assembly :: ShroomSnapshotAssembly
  nt_snapshot_history :: ShroomSnapshotHistory
  nt_snapshot_spores :: "ShroomSnapshotSporeState list"
  nt_snapshot_powerups :: "ShroomSnapshotPowerupState list"
  nt_world_replication :: ShroomWorldReplicationClientState
  nt_mushroom_species :: "ShroomMushroomSpeciesEntry list"
  nt_mushroom_species_catalog_received :: bool
  nt_input_scheduler :: ShroomClientInputScheduler
  nt_match_phase :: u8
  nt_game_mode :: u8
  nt_match_time_remaining :: f32
  nt_objective_target_score :: f32
  nt_objective_controller_id :: u32
  nt_objective_contested :: bool
  nt_podium_player_ids :: "u32 list"
  nt_podium_masses :: "f32 list"
  nt_voice_handler :: bool

definition SHROOM_CLIENT_RTT_SAMPLE_COUNT :: nat where "SHROOM_CLIENT_RTT_SAMPLE_COUNT = 10"
definition SHROOM_CLIENT_CHAT_HISTORY_COUNT :: nat where "SHROOM_CLIENT_CHAT_HISTORY_COUNT = 50"
definition SHROOM_CLIENT_PING_TIMEOUT_MS :: u32 where "SHROOM_CLIENT_PING_TIMEOUT_MS = 2000"
definition SHROOM_CLIENT_CONNECT_TIMEOUT_MS :: u32 where "SHROOM_CLIENT_CONNECT_TIMEOUT_MS = 5000"
definition SHROOM_CLIENT_PING_INTERVAL_SECONDS :: f32 where "SHROOM_CLIENT_PING_INTERVAL_SECONDS = 0x3f800000"
definition SHROOM_LOBBY_ROSTER_MAX_CHUNKS :: nat where
  "SHROOM_LOBBY_ROSTER_MAX_CHUNKS =
     (SHROOM_MAX_PARTICIPANTS + SHROOM_LOBBY_ROSTER_ENTRIES_PER_PACKET - 1) div SHROOM_LOBBY_ROSTER_ENTRIES_PER_PACKET"
definition SHROOM_NET_CONNECT_UNREACHABLE_MSG :: "u8 list" where
  "SHROOM_NET_CONNECT_UNREACHABLE_MSG = ascii ''Unable to connect to that server, does it exist?''"

definition no_roster_entry :: ShroomLobbyRosterEntry where
  "no_roster_entry = \<lparr>re_player_id = 0, re_is_spectator = 0, re_is_ready = 0, re_entered_match = 0\<rparr>"

definition no_chat_message :: ChatMessage where
  "no_chat_message = \<lparr>cm_sender_id = 0, cm_message_id = 0, cm_timestamp_sec = 0, cm_sender_name = [], cm_message = []\<rparr>"

definition no_intermission :: ShroomIntermissionStatusPacket where
  "no_intermission = \<lparr>im_round_id = 0, im_seconds_remaining = 0, im_eligible_count = 0, im_play_again_votes = 0,
     im_return_to_lobby_votes = 0, im_spectate_votes = 0, im_resolved = 0, im_decision = 0, im_your_vote = 0, im_can_vote = 0\<rparr>"

definition no_assembly :: ShroomSnapshotAssembly where
  "no_assembly = (start_assembly zero_packet)\<lparr>as_active := False\<rparr>"

definition no_world_replication :: ShroomWorldReplicationClientState where
  "no_world_replication = \<lparr>rc_tick_received = False, rc_latest_tick = 0, rc_keyframe_pending = False, rc_keyframe_tick = 0,
     rc_keyframe_chunk_count = 0, rc_keyframe_chunks = no_chunks, rc_keyframe_spores = [], rc_keyframe_powerups = []\<rparr>"

definition zero_net :: ClientNetState where
  "zero_net = \<lparr>nt_host = False, nt_peer = None, nt_enet_initialized = False, nt_status = CLIENT_NET_DISCONNECTED,
     nt_status_text = [], nt_player_name = replicate SHROOM_MAX_NAME_LENGTH 0, nt_server_host = [], nt_server_port = 0,
     nt_server_tick_rate = 0, nt_snapshot_rate = 0, nt_next_ping_nonce = 0, nt_pending_ping_nonce = 0,
     nt_pending_ping_sent_time_ms = 0, nt_connect_started_ms = 0, nt_rtt_ms = 0, nt_rtt_average_ms = 0,
     nt_rtt_samples = replicate SHROOM_CLIENT_RTT_SAMPLE_COUNT 0, nt_rtt_sample_count = 0, nt_rtt_sample_index = 0,
     nt_ping_send_accumulator = 0,
     nt_chat_history = replicate SHROOM_CLIENT_CHAT_HISTORY_COUNT no_chat_message, nt_chat_history_count = 0,
     nt_chat_history_head = 0, nt_chat_unread_count = 0, nt_chat_history_identity = 0,
     nt_handshake_received = False, nt_welcome_received = False, nt_player_id = 0, nt_entity_id = 0, nt_spectating = False,
     nt_match_entry_sent = False, nt_lobby_id = 0, nt_lobby_name = [], nt_lobby_max_players = 0, nt_world_width = 0,
     nt_world_height = 0, nt_lobby_list = [], nt_lobby_roster_received = False, nt_lobby_match_started = False,
     nt_lobby_roster_count = 0, nt_lobby_roster_generation = 0, nt_lobby_roster_chunk_count = 0,
     nt_lobby_roster_received_chunks = 0, nt_lobby_roster = replicate SHROOM_MAX_PARTICIPANTS no_roster_entry,
     nt_intermission = no_intermission, nt_intermission_received = False, nt_consumed_intermission_round_id = 0,
     nt_consumed_intermission_round_valid = False,
     nt_last_input_sequence = 0, nt_last_processed_input_sequence = 0, nt_last_snapshot_tick = 0,
     nt_snapshot_received = False, nt_snapshot_players = [], nt_snapshot_assembly = no_assembly,
     nt_snapshot_history = zero_history, nt_snapshot_spores = [], nt_snapshot_powerups = [],
     nt_world_replication = no_world_replication, nt_mushroom_species = [], nt_mushroom_species_catalog_received = False,
     nt_input_scheduler = ShroomClientInputSchedulerReset, nt_match_phase = 0, nt_game_mode = 0,
     nt_match_time_remaining = 0, nt_objective_target_score = 0, nt_objective_controller_id = 0,
     nt_objective_contested = False, nt_podium_player_ids = [0, 0, 0], nt_podium_masses = [0, 0, 0], nt_voice_handler = False\<rparr>"

text \<open>What answers the client, and what leaves the session: a packet on a channel, reliable or not, a message for
  the cache file, and a frame for the voice handler.\<close>

record client_env =
  ce_now_ms :: u32 \<comment> \<open>\<open>enet_time_get\<close>\<close>
  ce_accepts :: "client_message \<Rightarrow> bool" \<comment> \<open>\<open>enet_peer_send\<close> succeeds\<close>
  ce_cached :: "ChatMessage list" \<comment> \<open>what \<open>ShroomChatCacheLoadContext\<close> finds\<close>

datatype client_effect =
    Send u8 bool client_message
  | Store_Chat ChatMessage
  | Play_Voice ShroomVoiceFramePacket nat

type_synonym client_step = "ClientNetState \<times> client_effect list"

definition SetStatus :: "ClientNetState \<Rightarrow> ClientNetStatus \<Rightarrow> u8 list \<Rightarrow> ClientNetState" where
  "SetStatus net status s = net\<lparr>nt_status := status, nt_status_text := take 63 s\<rparr>"

definition ResetIntermissionLifecycle :: "ClientNetState \<Rightarrow> ClientNetState" where
  "ResetIntermissionLifecycle net = net\<lparr>nt_intermission := no_intermission, nt_intermission_received := False,
     nt_consumed_intermission_round_id := 0, nt_consumed_intermission_round_valid := False\<rparr>"

definition ResetWorldReplication :: "ClientNetState \<Rightarrow> ClientNetState" where
  "ResetWorldReplication net = net\<lparr>nt_world_replication := no_world_replication, nt_snapshot_assembly := no_assembly,
     nt_snapshot_history := zero_history, nt_snapshot_spores := [], nt_snapshot_powerups := []\<rparr>"

definition SendPacket :: "client_env \<Rightarrow> ClientNetState \<Rightarrow> u8 \<Rightarrow> bool \<Rightarrow> client_message \<Rightarrow> bool \<times> client_effect list" where
  "SendPacket env net channel reliable message =
     (if nt_peer net = None \<or> \<not> ce_accepts env message then (False, []) else (True, [Send channel reliable message]))"

text \<open>A packet of the protocol's type is sent the way the packet table says.\<close>

definition SendProtocol :: "client_env \<Rightarrow> ClientNetState \<Rightarrow> u8 \<Rightarrow> client_message \<Rightarrow> bool \<times> client_effect list" where
  "SendProtocol env net channel message =
     SendPacket env net channel (ShroomPacketTypeUsesReliableDelivery (message_type message)) message"

section \<open>Round trips and time-outs\<close>

definition RecordRTTSample :: "ClientNetState \<Rightarrow> u32 \<Rightarrow> ClientNetState" where
  "RecordRTTSample net rtt_ms =
     (let samples = (nt_rtt_samples net)[nt_rtt_sample_index net := rtt_ms];
          n = (if nt_rtt_sample_count net < SHROOM_CLIENT_RTT_SAMPLE_COUNT then nt_rtt_sample_count net + 1
               else nt_rtt_sample_count net);
          sum = foldl (\<lambda>sum rtt. sum + ucast rtt) (0 :: u64) (take n samples)
      in net\<lparr>nt_rtt_ms := rtt_ms, nt_rtt_samples := samples, nt_rtt_sample_count := n,
           nt_rtt_sample_index := (nt_rtt_sample_index net + 1) mod SHROOM_CLIENT_RTT_SAMPLE_COUNT,
           nt_rtt_average_ms := (if 0 < n then ucast (sum div word_of_nat n) else 0)\<rparr>)"

definition ElapsedMs :: "u32 \<Rightarrow> u32 \<Rightarrow> u32" where
  "ElapsedMs now_ms then_ms = now_ms - then_ms"

definition ClearStalePendingPing :: "ClientNetState \<Rightarrow> u32 \<Rightarrow> ClientNetState" where
  "ClearStalePendingPing net now_ms =
     (if nt_pending_ping_nonce net \<noteq> 0 \<and>
         SHROOM_CLIENT_PING_TIMEOUT_MS \<le> ElapsedMs now_ms (nt_pending_ping_sent_time_ms net)
      then net\<lparr>nt_pending_ping_nonce := 0\<rparr> else net)"

definition CheckConnectTimeout :: "ClientNetState \<Rightarrow> u32 \<Rightarrow> ClientNetState" where
  "CheckConnectTimeout net now_ms =
     (if nt_status net = CLIENT_NET_CONNECTING \<and> nt_connect_started_ms net \<noteq> 0 \<and>
         SHROOM_CLIENT_CONNECT_TIMEOUT_MS \<le> ElapsedMs now_ms (nt_connect_started_ms net)
      then (SetStatus net CLIENT_NET_ERROR SHROOM_NET_CONNECT_UNREACHABLE_MSG)\<lparr>nt_connect_started_ms := 0\<rparr> else net)"

definition CompletePendingPing :: "ClientNetState \<Rightarrow> u32 \<Rightarrow> u32 \<Rightarrow> bool \<times> ClientNetState" where
  "CompletePendingPing net nonce now_ms =
     (if nt_pending_ping_nonce net = 0 \<or> nonce \<noteq> nt_pending_ping_nonce net then (False, net)
      else
        let rtt_ms = ElapsedMs now_ms (nt_pending_ping_sent_time_ms net); net = net\<lparr>nt_pending_ping_nonce := 0\<rparr>
        in if SHROOM_CLIENT_PING_TIMEOUT_MS \<le> rtt_ms then (False, net) else (True, RecordRTTSample net rtt_ms))"

definition SendPing :: "client_env \<Rightarrow> ClientNetState \<Rightarrow> client_step" where
  "SendPing env net =
     (if \<not> nt_welcome_received net \<or> nt_peer net \<noteq> Some True \<or> nt_pending_ping_nonce net \<noteq> 0 then (net, [])
      else
        let nonce = nt_next_ping_nonce net + 1;
            net = net\<lparr>nt_next_ping_nonce := nonce, nt_pending_ping_nonce := nonce,
              nt_pending_ping_sent_time_ms := ce_now_ms env\<rparr>
        in (net, snd (SendProtocol env net SHROOM_ENET_CHANNEL_CONTROL (Ping nonce))))"

section \<open>Greeting and input\<close>

definition BuildHelloPacket :: "ClientNetState \<Rightarrow> client_message" where
  "BuildHelloPacket net =
     (let sanitized_name = the (ShroomSanitizePlayerName (replicate SHROOM_MAX_NAME_LENGTH 0) (Some (nt_player_name net)))
      in Hello SHROOM_PROTOCOL_VERSION (fst (snprintf_s (replicate SHROOM_MAX_NAME_LENGTH 0)
           (if sanitized_name ! 0 \<noteq> 0 then sanitized_name else ascii ''Player''))))"

definition SendHello :: "client_env \<Rightarrow> ClientNetState \<Rightarrow> client_effect list" where
  "SendHello env net =
     (if nt_peer net \<noteq> Some True then []
      else snd (SendProtocol env net SHROOM_ENET_CHANNEL_CONTROL (BuildHelloPacket net)))"

definition CanSendGameplayInput :: "ClientNetState \<Rightarrow> bool" where
  "CanSendGameplayInput net \<longleftrightarrow> nt_welcome_received net \<and> nt_match_entry_sent net \<and>
     ucast (nt_match_phase net) = SHROOM_MATCH_PHASE_RUNNING \<and> nt_peer net = Some True"

definition SendInput ::
  "client_env \<Rightarrow> ClientNetState \<Rightarrow> ShroomVec2 \<Rightarrow> bool \<Rightarrow> bool \<Rightarrow> ShroomVec2 \<Rightarrow> u32 \<Rightarrow> bool \<times> client_step" where
  "SendInput env net input_direction split_requested eject_requested split_direction focused_entity_id =
     (if \<not> CanSendGameplayInput net then (False, net, [])
      else
        let sequence = next_sequence (nt_last_input_sequence net);
            packet = \<lparr>ip_sequence = sequence, ip_direction_x = v2_x input_direction, ip_direction_y = v2_y input_direction,
              ip_split_direction_x = v2_x split_direction, ip_split_direction_y = v2_y split_direction,
              ip_split_requested = (if split_requested then 1 else 0),
              ip_eject_requested = (if eject_requested then 1 else 0), ip_reserved = [0, 0],
              ip_focused_entity_id = focused_entity_id\<rparr>
        in case SendPacket env net SHROOM_ENET_CHANNEL_INPUT (split_requested \<or> eject_requested) (Input packet) of
             (False, sent) \<Rightarrow> (False, net, sent)
           | (True, sent) \<Rightarrow> (True, net\<lparr>nt_last_input_sequence := sequence\<rparr>, sent))"

section \<open>Lobbies\<close>

definition cadence_ok :: "u16 \<Rightarrow> u16 \<Rightarrow> bool" where
  "cadence_ok server_tick_rate snapshot_rate \<longleftrightarrow>
     \<not> (server_tick_rate = 0 \<or> ucast snapshot_rate < SHROOM_SNAPSHOT_RATE_MIN \<or>
        SHROOM_SNAPSHOT_RATE_MAX < ucast snapshot_rate \<or> server_tick_rate < snapshot_rate)"

definition HandleWelcome :: "ClientNetState \<Rightarrow> nat \<Rightarrow> u32 \<Rightarrow> u16 \<Rightarrow> u16 \<Rightarrow> ClientNetState" where
  "HandleWelcome net data_length protocol_version server_tick_rate snapshot_rate =
     (if data_length < size_of ShroomWelcomePacket_layout then net
      else if protocol_version \<noteq> SHROOM_PROTOCOL_VERSION then SetStatus net CLIENT_NET_ERROR (ascii ''Protocol mismatch'')
      else if \<not> cadence_ok server_tick_rate snapshot_rate
      then SetStatus net CLIENT_NET_ERROR (ascii ''Invalid server cadence'')
      else SetStatus (net\<lparr>nt_server_tick_rate := server_tick_rate, nt_snapshot_rate := snapshot_rate,
             nt_handshake_received := True\<rparr>) CLIENT_NET_CONNECTED (ascii ''Connected''))"

definition HandleLobbyList :: "ClientNetState \<Rightarrow> nat \<Rightarrow> ShroomLobbyEntry list \<Rightarrow> ClientNetState" where
  "HandleLobbyList net data_length lobbies =
     (let min_size = offset_of ShroomLobbyListPacket_layout 3; lobbies = take SHROOM_MAX_LOBBIES lobbies
      in if data_length < min_size then net
         else if data_length < min_size + length lobbies * size_of ShroomLobbyEntry_layout then net
         else net\<lparr>nt_lobby_list := lobbies\<rparr>)"

definition HandleLobbyJoined :: "client_env \<Rightarrow> ClientNetState \<Rightarrow> nat \<Rightarrow> ShroomLobbyJoinedPacket \<Rightarrow> ClientNetState" where
  "HandleLobbyJoined env net data_length packet =
     (if data_length < size_of ShroomLobbyJoinedPacket_layout then net
      else if \<not> cadence_ok (lj_server_tick_rate packet) (lj_snapshot_rate packet) \<or> lj_chat_history_identity packet = 0
      then SetStatus net CLIENT_NET_ERROR (ascii ''Invalid server cadence'')
      else
        let cached = take SHROOM_CLIENT_CHAT_HISTORY_COUNT (ce_cached env);
            net = ResetWorldReplication (ResetIntermissionLifecycle net);
            net = net\<lparr>nt_lobby_id := lj_lobby_id packet, nt_chat_history_identity := lj_chat_history_identity packet,
              nt_spectating := (lj_spectating packet \<noteq> 0), nt_game_mode := lj_game_mode packet,
              nt_world_width := lj_world_width packet, nt_world_height := lj_world_height packet,
              nt_lobby_max_players := lj_max_players packet, nt_server_tick_rate := lj_server_tick_rate packet,
              nt_snapshot_rate := lj_snapshot_rate packet, nt_match_entry_sent := False,
              nt_lobby_roster_received := False, nt_lobby_match_started := False, nt_lobby_roster_count := 0,
              nt_lobby_roster_generation := 0, nt_lobby_roster_chunk_count := 0, nt_lobby_roster_received_chunks := 0,
              nt_lobby_name := take (SHROOM_LOBBY_MAX_NAME_LENGTH - 1) (c_string (lj_lobby_name packet)),
              nt_chat_history := cached @ replicate (SHROOM_CLIENT_CHAT_HISTORY_COUNT - length cached) no_chat_message,
              nt_chat_history_count := length cached,
              nt_chat_history_head := length cached mod SHROOM_CLIENT_CHAT_HISTORY_COUNT, nt_chat_unread_count := 0\<rparr>
        in if nt_spectating net then net
           else net\<lparr>nt_player_id := lj_player_id packet, nt_entity_id := lj_entity_id packet, nt_welcome_received := True\<rparr>)"

text \<open>\<open>entry_count\<close> is the number of entries of the packet.\<close>

definition SHROOM_LOBBY_ROSTER_PACKET_SIZE :: "nat \<Rightarrow> nat" where
  "SHROOM_LOBBY_ROSTER_PACKET_SIZE entry_count =
     offset_of ShroomLobbyRosterPacket_layout 9 + entry_count * size_of ShroomLobbyRosterEntry_layout"

definition roster_acceptable :: "u32 \<Rightarrow> nat \<Rightarrow> ShroomLobbyRosterPacket \<Rightarrow> bool" where
  "roster_acceptable lobby_id data_length packet \<longleftrightarrow>
     (let entry_count = length (ro_players packet); total_count = unat (ro_total_player_count packet);
          chunk_count = unat (ro_chunk_count packet); chunk_index = unat (ro_chunk_index packet);
          first_entry = chunk_index * SHROOM_LOBBY_ROSTER_ENTRIES_PER_PACKET;
          required_chunks = (if total_count = 0 then 1
            else (total_count + SHROOM_LOBBY_ROSTER_ENTRIES_PER_PACKET - 1) div SHROOM_LOBBY_ROSTER_ENTRIES_PER_PACKET)
      in \<not> (data_length < offset_of ShroomLobbyRosterPacket_layout 9 \<or> ro_lobby_id packet \<noteq> lobby_id \<or>
            ro_generation packet = 0 \<or> SHROOM_MAX_PARTICIPANTS < total_count \<or> chunk_count = 0 \<or>
            SHROOM_LOBBY_ROSTER_MAX_CHUNKS < chunk_count \<or> chunk_count \<le> chunk_index \<or>
            SHROOM_LOBBY_ROSTER_ENTRIES_PER_PACKET < entry_count \<or>
            data_length \<noteq> SHROOM_LOBBY_ROSTER_PACKET_SIZE entry_count) \<and>
         \<not> (chunk_count \<noteq> required_chunks \<or> total_count < first_entry + entry_count \<or>
            chunk_index + 1 < chunk_count \<and> entry_count \<noteq> SHROOM_LOBBY_ROSTER_ENTRIES_PER_PACKET \<or>
            chunk_index + 1 = chunk_count \<and> first_entry + entry_count \<noteq> total_count))"

text \<open>\<open>memcpy\<close> into an array.\<close>

definition write_at :: "'a list \<Rightarrow> nat \<Rightarrow> 'a list \<Rightarrow> 'a list" where
  "write_at xs i ys = take i xs @ ys @ drop (i + length ys) xs"

definition HandleLobbyRoster :: "ClientNetState \<Rightarrow> nat \<Rightarrow> ShroomLobbyRosterPacket \<Rightarrow> ClientNetState" where
  "HandleLobbyRoster net data_length packet =
     (if \<not> roster_acceptable (nt_lobby_id net) data_length packet then net
      else
        let fresh = (nt_lobby_roster_generation net \<noteq> ro_generation packet);
            net = (if fresh then net\<lparr>nt_lobby_roster_generation := ro_generation packet,
                     nt_lobby_roster_chunk_count := ro_chunk_count packet, nt_lobby_roster_received_chunks := 0,
                     nt_lobby_roster_received := False, nt_lobby_roster_count := ro_total_player_count packet,
                     nt_lobby_roster := replicate SHROOM_MAX_PARTICIPANTS no_roster_entry\<rparr> else net)
        in if \<not> fresh \<and> (nt_lobby_roster_chunk_count net \<noteq> ro_chunk_count packet \<or>
                         nt_lobby_roster_count net \<noteq> ro_total_player_count packet) then net
           else
             let received = nt_lobby_roster_received_chunks net OR push_bit (unat (ro_chunk_index packet)) 1
             in net\<lparr>nt_lobby_match_started := (ro_match_started packet \<noteq> 0),
                  nt_lobby_roster := write_at (nt_lobby_roster net)
                    (unat (ro_chunk_index packet) * SHROOM_LOBBY_ROSTER_ENTRIES_PER_PACKET) (ro_players packet),
                  nt_lobby_roster_received_chunks := received,
                  nt_lobby_roster_received := (received = push_bit (unat (ro_chunk_count packet)) 1 - 1)\<rparr>)"

definition HandlePong :: "client_env \<Rightarrow> ClientNetState \<Rightarrow> nat \<Rightarrow> u32 \<Rightarrow> ClientNetState" where
  "HandlePong env net data_length nonce =
     (if data_length < size_of ShroomPongPacket_layout then net else snd (CompletePendingPing net nonce (ce_now_ms env)))"

definition HandleIntermissionStatus :: "ClientNetState \<Rightarrow> nat \<Rightarrow> ShroomIntermissionStatusPacket \<Rightarrow> ClientNetState" where
  "HandleIntermissionStatus net data_length packet =
     (if data_length < size_of ShroomIntermissionStatusPacket_layout then net
      else if nt_consumed_intermission_round_valid net \<and>
              \<not> ShroomIntermissionRoundIsNewer (im_round_id packet) (nt_consumed_intermission_round_id net) \<or>
              nt_intermission_received net \<and> im_round_id packet \<noteq> im_round_id (nt_intermission net) \<and>
              \<not> ShroomIntermissionRoundIsNewer (im_round_id packet) (im_round_id (nt_intermission net)) then net
      else net\<lparr>nt_intermission := packet, nt_intermission_received := True\<rparr>)"

section \<open>The world\<close>

definition SendSnapshotAck :: "client_env \<Rightarrow> ClientNetState \<Rightarrow> u64 \<Rightarrow> client_effect list" where
  "SendSnapshotAck env net tick = snd (SendProtocol env net SHROOM_ENET_CHANNEL_INPUT (Snapshot_Ack tick))"

definition take_metadata :: "ShroomSnapshotFrameMetadata \<Rightarrow> ClientNetState \<Rightarrow> ClientNetState" where
  "take_metadata metadata net = net\<lparr>nt_last_snapshot_tick := fm_tick metadata, nt_snapshot_received := True,
     nt_last_processed_input_sequence := fm_last_processed_input_sequence metadata,
     nt_match_phase := fm_match_phase metadata, nt_game_mode := fm_game_mode metadata,
     nt_match_time_remaining := fm_match_time_remaining metadata,
     nt_objective_target_score := fm_objective_target_score metadata,
     nt_objective_controller_id := fm_objective_controller_id metadata,
     nt_objective_contested := (fm_objective_contested metadata \<noteq> 0),
     nt_podium_player_ids := fm_podium_player_ids metadata, nt_podium_masses := fm_podium_masses metadata\<rparr>"

definition HandleSnapshot :: "client_env \<Rightarrow> ClientNetState \<Rightarrow> nat \<Rightarrow> ShroomSnapshotPacket \<Rightarrow> client_step" where
  "HandleSnapshot env net data_length packet =
     (if data_length < offset_of ShroomSnapshotPacket_layout 22 then (net, [])
      else if nt_snapshot_received net \<and> \<not> ShroomSnapshotTickIsNewer (sn_tick packet) (nt_last_snapshot_tick net)
      then (net, [])
      else case ShroomSnapshotAssemblyPush (nt_snapshot_assembly net) packet data_length (nt_snapshot_history net) of
             (result, assembly, history) \<Rightarrow>
               let net = net\<lparr>nt_snapshot_assembly := assembly, nt_snapshot_history := history\<rparr>
               in case result of
                    SHROOM_SNAPSHOT_ASSEMBLY_COMPLETE metadata players \<Rightarrow>
                      ((take_metadata metadata net)\<lparr>nt_snapshot_players := players\<rparr>, SendSnapshotAck env net (fm_tick metadata))
                  | _ \<Rightarrow> (net, []))"

definition HandleWorldState :: "ClientNetState \<Rightarrow> nat \<Rightarrow> ShroomWorldStatePacket \<Rightarrow> ClientNetState" where
  "HandleWorldState net data_length packet =
     (case ShroomWorldReplicationApplyPacket (nt_world_replication net) (nt_snapshot_spores net, nt_snapshot_powerups net)
             packet data_length of
        (_, replication, spores, powerups) \<Rightarrow>
          net\<lparr>nt_world_replication := replication, nt_snapshot_spores := spores, nt_snapshot_powerups := powerups\<rparr>)"

definition HandleMushroomSpeciesCatalog :: "ClientNetState \<Rightarrow> nat \<Rightarrow> ShroomMushroomSpeciesEntry list \<Rightarrow> ClientNetState" where
  "HandleMushroomSpeciesCatalog net data_length species =
     (let min_size = offset_of ShroomMushroomSpeciesCatalogPacket_layout 3; species = take SHROOM_MAX_MUSHROOM_SPECIES species
      in if data_length < min_size then net
         else if data_length < min_size + length species * size_of ShroomMushroomSpeciesEntry_layout then net
         else net\<lparr>nt_mushroom_species_catalog_received := True,
                nt_mushroom_species := map (\<lambda>e. e\<lparr>sp_name := take 31 (sp_name e), sp_description := take 127 (sp_description e)\<rparr>) species\<rparr>)"

section \<open>Chat and voice\<close>

text \<open>\<open>ShroomChatCacheSanitizeText\<close> of \<open>chat_cache.c\<close>: runs of white space become one space, what does not print
  goes.  The text without its NUL; one that fills its array with the NUL behind it would be longer than
  \<open>destination_size - 1\<close>.\<close>

fun sanitize_text :: "nat \<Rightarrow> u8 list \<Rightarrow> u8 list \<Rightarrow> bool \<Rightarrow> u8 list" where
  "sanitize_text destination_size [] written pending_space = written"
| "sanitize_text destination_size (c # source) written pending_space =
     (if \<not> length written + 1 < destination_size then written
      else if isspace c \<or> c < 0x20 \<or> c = 0x7F then sanitize_text destination_size source written (written \<noteq> [])
      else if 0x7E < c then sanitize_text destination_size source written pending_space
      else sanitize_text destination_size source ((if pending_space then written @ [0x20] else written) @ [c]) False)"

definition ShroomChatCacheSanitizeText :: "nat \<Rightarrow> u8 list \<Rightarrow> u8 list" where
  "ShroomChatCacheSanitizeText destination_size source =
     sanitize_text destination_size (take SHROOM_CHAT_MAX_MESSAGE_LENGTH (c_string source)) [] False"

definition ShroomChatCacheMessagesDuplicate :: "ChatMessage \<Rightarrow> ChatMessage \<Rightarrow> bool" where
  "ShroomChatCacheMessagesDuplicate left right \<longleftrightarrow>
     cm_message_id left \<noteq> 0 \<and> cm_message_id left = cm_message_id right"

text \<open>The arrays of the packet as lists; bytes that a list does not have are zero.\<close>

definition padded :: "nat \<Rightarrow> u8 list \<Rightarrow> u8 list" where
  "padded n bytes = take n bytes @ replicate (n - length bytes) 0"

definition incoming_chat :: "ShroomChatPacket \<Rightarrow> ChatMessage option" where
  "incoming_chat packet =
     (let bytes = padded (SHROOM_CHAT_MAX_MESSAGE_LENGTH + 1) (cp_message packet);
          name = ShroomChatCacheSanitizeText SHROOM_MAX_NAME_LENGTH
            (take (SHROOM_MAX_NAME_LENGTH - 1) (padded SHROOM_MAX_NAME_LENGTH (cp_sender_name packet)))
      in if 0 \<notin> set bytes then None
         else if cp_message_id packet = 0 \<or> cp_timestamp_sec packet = 0 then None
         else if \<not> ShroomChatIsCanonicalMessage (Some bytes) (SHROOM_CHAT_MAX_MESSAGE_LENGTH + 1) then None
         else if name = [] \<or> c_string bytes = [] then None
         else Some \<lparr>cm_sender_id = cp_sender_id packet, cm_message_id = cp_message_id packet,
                cm_timestamp_sec = cp_timestamp_sec packet, cm_sender_name = name, cm_message = c_string bytes\<rparr>)"

definition chat_ring :: "ClientNetState \<Rightarrow> ChatMessage list" where
  "chat_ring net = map (\<lambda>index. nt_chat_history net ! ((nt_chat_history_head net + SHROOM_CLIENT_CHAT_HISTORY_COUNT -
       nt_chat_history_count net + index) mod SHROOM_CLIENT_CHAT_HISTORY_COUNT)) [0..<nt_chat_history_count net]"

definition HandleChat :: "ClientNetState \<Rightarrow> nat \<Rightarrow> ShroomChatPacket \<Rightarrow> client_step" where
  "HandleChat net data_length packet =
     (if data_length < size_of ShroomChatPacket_layout then (net, [])
      else case incoming_chat packet of
             None \<Rightarrow> (net, [])
           | Some incoming \<Rightarrow>
               if list_ex (\<lambda>m. ShroomChatCacheMessagesDuplicate m incoming) (chat_ring net) then (net, [])
               else
                 (net\<lparr>nt_chat_history := (nt_chat_history net)[nt_chat_history_head net mod SHROOM_CLIENT_CHAT_HISTORY_COUNT := incoming],
                    nt_chat_history_head := (nt_chat_history_head net + 1) mod SHROOM_CLIENT_CHAT_HISTORY_COUNT,
                    nt_chat_history_count := (if nt_chat_history_count net < SHROOM_CLIENT_CHAT_HISTORY_COUNT
                      then nt_chat_history_count net + 1 else nt_chat_history_count net),
                    nt_chat_unread_count := nt_chat_unread_count net + 1\<rparr>,
                  if nt_lobby_id net \<noteq> 0 \<and> nt_server_host net \<noteq> [] then [Store_Chat incoming] else []))"

definition HandleVoiceFrame :: "ClientNetState \<Rightarrow> nat \<Rightarrow> ShroomVoiceFramePacket \<Rightarrow> client_step" where
  "HandleVoiceFrame net data_length packet =
     (if \<not> ShroomVoiceFramePacketIsValid (Some packet) data_length then (net, [])
      else (net, if nt_voice_handler net then [Play_Voice packet data_length] else []))"

section \<open>Events\<close>

fun server_packet_type :: "server_message \<Rightarrow> nat" where
  "server_packet_type (Welcome _ _ _) = SHROOM_PACKET_WELCOME"
| "server_packet_type (Species_Catalog _) = SHROOM_PACKET_MUSHROOM_SPECIES_CATALOG"
| "server_packet_type (Auth_Response _ _ _ _) = SHROOM_PACKET_AUTH_RESPONSE"
| "server_packet_type (Pong _) = SHROOM_PACKET_PONG"
| "server_packet_type (Probe_Response _) = SHROOM_PACKET_SERVER_PROBE_RESPONSE"
| "server_packet_type (Lobby_List _) = SHROOM_PACKET_LOBBY_LIST"
| "server_packet_type (Lobby_Joined _) = SHROOM_PACKET_LOBBY_JOINED"
| "server_packet_type (Lobby_Created _ _) = SHROOM_PACKET_LOBBY_CREATED"
| "server_packet_type (Lobby_Roster _) = SHROOM_PACKET_LOBBY_ROSTER"
| "server_packet_type (Intermission_Status _) = SHROOM_PACKET_INTERMISSION_STATUS"
| "server_packet_type (Chat _) = SHROOM_PACKET_CHAT"
| "server_packet_type (Voice_Frame _) = SHROOM_PACKET_VOICE_FRAME"
| "server_packet_type (Snapshot _) = SHROOM_PACKET_SNAPSHOT"
| "server_packet_type (World_State _) = SHROOM_PACKET_WORLD_STATE"
| "server_packet_type Disconnect = 0"

text \<open>The body of a packet is the view of its bytes as the structure of the type in its header.\<close>

fun dispatch_received :: "client_env \<Rightarrow> ClientNetState \<Rightarrow> nat \<Rightarrow> server_message \<Rightarrow> client_step" where
  "dispatch_received env net n (Welcome version tick_rate snapshot_rate) = (HandleWelcome net n version tick_rate snapshot_rate, [])"
| "dispatch_received env net n (Snapshot packet) = HandleSnapshot env net n packet"
| "dispatch_received env net n (World_State packet) = (HandleWorldState net n packet, [])"
| "dispatch_received env net n (Pong nonce) = (HandlePong env net n nonce, [])"
| "dispatch_received env net n (Chat packet) = HandleChat net n packet"
| "dispatch_received env net n (Lobby_List lobbies) = (HandleLobbyList net n lobbies, [])"
| "dispatch_received env net n (Lobby_Joined packet) = (HandleLobbyJoined env net n packet, [])"
| "dispatch_received env net n (Lobby_Roster packet) = (HandleLobbyRoster net n packet, [])"
| "dispatch_received env net n (Intermission_Status packet) = (HandleIntermissionStatus net n packet, [])"
| "dispatch_received env net n (Species_Catalog species) = (HandleMushroomSpeciesCatalog net n species, [])"
| "dispatch_received env net n (Voice_Frame packet) = HandleVoiceFrame net n packet"
| "dispatch_received env net n _ = (net, [])"

definition client_receive ::
  "client_env \<Rightarrow> ClientNetState \<Rightarrow> ShroomPacketHeader \<Rightarrow> nat \<Rightarrow> u8 \<Rightarrow> server_message \<Rightarrow> client_step" where
  "client_receive env net header data_length channel_id message =
     (if data_length < size_of ShroomPacketHeader_layout then (net, [])
      else
        let packet_type = unat (ph_type header); minimum_size = ShroomPacketTypeMinimumSize packet_type
        in if minimum_size = 0 \<or> data_length < unat minimum_size \<or>
              \<not> ShroomPacketHeaderUsesExpectedChannel (Some header) channel_id then (net, [])
           else if packet_type \<noteq> server_packet_type message then (net, [])
           else dispatch_received env net data_length message)"

datatype client_event = Net_Connect | Net_Receive ShroomPacketHeader nat u8 server_message | Net_Disconnect

fun client_event_step :: "client_env \<Rightarrow> ClientNetState \<Rightarrow> client_event \<Rightarrow> client_step" where
  "client_event_step env net Net_Connect =
     (let net = (SetStatus net CLIENT_NET_CONNECTING (ascii ''Handshaking''))\<lparr>nt_peer := Some True\<rparr>
      in (net, SendHello env net))"
| "client_event_step env net (Net_Receive header data_length channel_id message) =
     client_receive env net header data_length channel_id message"
| "client_event_step env net Net_Disconnect =
     (SetStatus (net\<lparr>nt_peer := None, nt_welcome_received := False, nt_match_entry_sent := False,
        nt_input_scheduler := ShroomClientInputSchedulerPause (nt_input_scheduler net)\<rparr>)
        CLIENT_NET_DISCONNECTED (ascii ''Disconnected''), [])"

text \<open>A packet of the server as it arrives: its size, and the header of its type on the channel of its type.\<close>

fun sent_size :: "server_message \<Rightarrow> nat" where
  "sent_size (Welcome _ _ _) = size_of ShroomWelcomePacket_layout"
| "sent_size (Species_Catalog species) =
     offset_of ShroomMushroomSpeciesCatalogPacket_layout 3 + length species * size_of ShroomMushroomSpeciesEntry_layout"
| "sent_size (Auth_Response _ _ _ _) = size_of ShroomAuthResponsePacket_layout"
| "sent_size (Pong _) = size_of ShroomPongPacket_layout"
| "sent_size (Probe_Response _) = size_of ShroomServerProbeResponsePacket_layout"
| "sent_size (Lobby_List lobbies) =
     offset_of ShroomLobbyListPacket_layout 3 + length lobbies * size_of ShroomLobbyEntry_layout"
| "sent_size (Lobby_Joined _) = size_of ShroomLobbyJoinedPacket_layout"
| "sent_size (Lobby_Created _ _) = size_of ShroomLobbyCreatedPacket_layout"
| "sent_size (Lobby_Roster packet) = SHROOM_LOBBY_ROSTER_PACKET_SIZE (length (ro_players packet))"
| "sent_size (Intermission_Status _) = size_of ShroomIntermissionStatusPacket_layout"
| "sent_size (Chat _) = size_of ShroomChatPacket_layout"
| "sent_size (Voice_Frame packet) = unat (ph_size (vf_header packet))"
| "sent_size (Snapshot packet) = unat (ph_size (sn_header packet))"
| "sent_size (World_State packet) = unat (ph_size (wp_header packet))"
| "sent_size Disconnect = 0"

definition sent_header :: "server_message \<Rightarrow> ShroomPacketHeader" where
  "sent_header message = the (ShroomPacketHeaderInit (Some \<lparr>ph_type = 0, ph_reserved = 0, ph_size = 0\<rparr>)
     (server_packet_type message) (word_of_nat (sent_size message)))"

definition sent_event :: "server_message \<Rightarrow> client_event" where
  "sent_event message = (if message = Disconnect then Net_Disconnect
     else Net_Receive (sent_header message) (sent_size message) (ShroomPacketTypeToChannel (server_packet_type message)) message)"

definition messages_to :: "nat \<Rightarrow> sends \<Rightarrow> server_message list" where
  "messages_to i out = map snd (filter (\<lambda>(j, message). j = i) out)"

text \<open>The events of a frame, in order.\<close>

fun client_events :: "client_env \<Rightarrow> ClientNetState \<Rightarrow> client_event list \<Rightarrow> client_step" where
  "client_events env net [] = (net, [])"
| "client_events env net (event # events) =
     (let (net, out) = client_event_step env net event; (net, out') = client_events env net events in (net, out @ out'))"

text \<open>The pings due: the loop subtracts one second from the accumulator until less than one is left.\<close>

partial_function (option) ping_loop :: "client_env \<Rightarrow> ClientNetState \<Rightarrow> client_effect list \<Rightarrow> client_step option" where
  "ping_loop env net out =
     (if f32_le SHROOM_CLIENT_PING_INTERVAL_SECONDS (nt_ping_send_accumulator net)
      then
        let (net, sent) = SendPing env net
        in ping_loop env (net\<lparr>nt_ping_send_accumulator :=
             f32_sub (nt_ping_send_accumulator net) SHROOM_CLIENT_PING_INTERVAL_SECONDS\<rparr>) (out @ sent)
      else Some (net, out))"

text \<open>The input of a frame: actions are queued, and a packet is sent when one is due.\<close>

definition client_input ::
  "client_env \<Rightarrow> ClientNetState \<Rightarrow> ShroomVec2 \<Rightarrow> bool \<Rightarrow> bool \<Rightarrow> ShroomVec2 \<Rightarrow> u32 \<Rightarrow> f32 \<Rightarrow> client_step" where
  "client_input env net input_direction split_requested eject_requested split_direction focused_entity_id delta_time =
     (if \<not> CanSendGameplayInput net
      then (net\<lparr>nt_input_scheduler := ShroomClientInputSchedulerPause (nt_input_scheduler net)\<rparr>, [])
      else
        let scheduler = snd (ShroomClientInputSchedulerQueueActions (nt_input_scheduler net) split_requested
              eject_requested split_direction focused_entity_id)
        in case ShroomClientInputSchedulerPrepare scheduler delta_time of
             (False, _, scheduler) \<Rightarrow> (net\<lparr>nt_input_scheduler := scheduler\<rparr>, [])
           | (True, actions, scheduler) \<Rightarrow>
               let has_action = ca_split_requested actions \<or> ca_eject_requested actions;
                   (sent, net, out) = SendInput env (net\<lparr>nt_input_scheduler := scheduler\<rparr>) input_direction
                     (ca_split_requested actions) (ca_eject_requested actions)
                     (if has_action then ca_direction actions else split_direction)
                     (if has_action then ca_focused_entity_id actions else focused_entity_id)
               in (if sent then net\<lparr>nt_input_scheduler := ShroomClientInputSchedulerCommit (nt_input_scheduler net) actions\<rparr>
                   else net, out))"

definition ClientNetUpdate ::
  "client_env \<Rightarrow> ClientNetState \<Rightarrow> client_event list \<Rightarrow> ShroomVec2 \<Rightarrow> bool \<Rightarrow> bool \<Rightarrow> ShroomVec2 \<Rightarrow> u32 \<Rightarrow> f32 \<Rightarrow> client_step option" where
  "ClientNetUpdate env net events input_direction split_requested eject_requested split_direction focused_entity_id delta_time =
     (if \<not> nt_host net then Some (net, [])
      else
        let (net, out) = client_events env net events; net = CheckConnectTimeout net (ce_now_ms env)
        in if nt_peer net = None then Some (net, out)
           else
             let net = ClearStalePendingPing net (ce_now_ms env);
                 (net, out') = client_input env net input_direction split_requested eject_requested split_direction
                   focused_entity_id delta_time
             in ping_loop env (net\<lparr>nt_ping_send_accumulator := f32_add (nt_ping_send_accumulator net) delta_time\<rparr>) (out @ out'))"

section \<open>Requests of the screens\<close>

text \<open>The answers of ENet to the start of a connection.\<close>

record connect_answers =
  ca_initialized :: bool
  ca_host_created :: bool
  ca_address_found :: bool
  ca_peer_created :: bool

definition ClientNetShutdown :: ClientNetState where "ClientNetShutdown = zero_net"

definition ClientNetInit :: "client_env \<Rightarrow> connect_answers \<Rightarrow> u8 list option \<Rightarrow> u16 \<Rightarrow> u8 list \<Rightarrow> bool \<times> ClientNetState" where
  "ClientNetInit env answers host_name port player_name =
     (let name = the (ShroomSanitizePlayerName (nt_player_name zero_net) (Some player_name));
          name = (if name ! 0 = 0 then fst (snprintf_s name (ascii ''Player'')) else name);
          net = zero_net\<lparr>nt_player_name := name, nt_server_port := port,
            nt_server_host := (case host_name of Some h \<Rightarrow> take 63 (c_string h) | None \<Rightarrow> [])\<rparr>
      in if \<not> ca_initialized answers then (False, SetStatus net CLIENT_NET_ERROR (ascii ''ENet init failed''))
         else if \<not> ca_host_created answers then (False, SetStatus net CLIENT_NET_ERROR (ascii ''Client host create failed''))
         else if \<not> ca_address_found answers \<or> \<not> ca_peer_created answers
         then (False, SetStatus net CLIENT_NET_ERROR SHROOM_NET_CONNECT_UNREACHABLE_MSG)
         else (True, SetStatus (net\<lparr>nt_enet_initialized := True, nt_host := True, nt_peer := Some False,
                nt_connect_started_ms := ce_now_ms env\<rparr>) CLIENT_NET_CONNECTING (ascii ''Connecting'')))"

definition ClientNetSendRematchVote :: "client_env \<Rightarrow> ClientNetState \<Rightarrow> u8 \<Rightarrow> client_effect list" where
  "ClientNetSendRematchVote env net vote =
     (if nt_peer net = None \<or> \<not> nt_intermission_received net \<or> im_can_vote (nt_intermission net) = 0 \<or>
         im_resolved (nt_intermission net) \<noteq> 0 then []
      else snd (SendProtocol env net SHROOM_ENET_CHANNEL_CONTROL (Rematch_Vote (im_round_id (nt_intermission net)) vote)))"

definition ClientNetConsumeIntermission :: "ClientNetState \<Rightarrow> ClientNetState" where
  "ClientNetConsumeIntermission net =
     (if \<not> nt_intermission_received net then net
      else net\<lparr>nt_consumed_intermission_round_id := im_round_id (nt_intermission net),
             nt_consumed_intermission_round_valid := True, nt_intermission_received := False\<rparr>)"

definition ClientNetCanResumeLobbySession :: "ClientNetState \<Rightarrow> bool" where
  "ClientNetCanResumeLobbySession net \<longleftrightarrow>
     nt_enet_initialized net \<and> nt_host net \<and> nt_peer net \<noteq> None \<and> nt_status net = CLIENT_NET_CONNECTED \<and>
     nt_lobby_id net \<noteq> 0 \<and> nt_match_entry_sent net \<and>
     (nt_spectating net \<or> nt_welcome_received net \<and> nt_player_id net \<noteq> 0 \<and> nt_entity_id net \<noteq> 0)"

definition ClientNetStatusLabel :: "ClientNetState \<Rightarrow> u8 list" where
  "ClientNetStatusLabel net = (if nt_status_text net \<noteq> [] then nt_status_text net else ascii ''Offline'')"

definition ClientNetSendLobbyListQuery :: "client_env \<Rightarrow> ClientNetState \<Rightarrow> client_effect list" where
  "ClientNetSendLobbyListQuery env net =
     (if nt_peer net \<noteq> Some True then [] else snd (SendProtocol env net SHROOM_ENET_CHANNEL_CONTROL Lobby_List_Query))"

definition ClientNetSendLobbyJoin :: "client_env \<Rightarrow> ClientNetState \<Rightarrow> u32 \<Rightarrow> bool \<Rightarrow> client_effect list" where
  "ClientNetSendLobbyJoin env net lobby_id spectate =
     (if nt_peer net \<noteq> Some True then []
      else snd (SendProtocol env net SHROOM_ENET_CHANNEL_CONTROL (Lobby_Join lobby_id spectate)))"

definition ClientNetSendLobbyLeave :: "client_env \<Rightarrow> ClientNetState \<Rightarrow> client_step" where
  "ClientNetSendLobbyLeave env net =
     (if nt_peer net \<noteq> Some True then (net, [])
      else
        let out = snd (SendProtocol env net SHROOM_ENET_CHANNEL_CONTROL Lobby_Leave);
            net = net\<lparr>nt_welcome_received := False, nt_match_entry_sent := False, nt_lobby_roster_received := False,
              nt_lobby_match_started := False, nt_lobby_roster_count := 0, nt_lobby_roster_generation := 0,
              nt_lobby_roster_chunk_count := 0, nt_lobby_roster_received_chunks := 0, nt_lobby_id := 0,
              nt_spectating := False\<rparr>
        in (ResetWorldReplication (ResetIntermissionLifecycle net), out))"

definition ClientNetSendLobbyCreate :: "client_env \<Rightarrow> ClientNetState \<Rightarrow> u8 list option \<Rightarrow> u8 \<Rightarrow> client_effect list" where
  "ClientNetSendLobbyCreate env net name game_mode =
     (if nt_peer net \<noteq> Some True then []
      else
        let blank = replicate SHROOM_LOBBY_MAX_NAME_LENGTH 0;
            packet_name = (case name of None \<Rightarrow> blank | Some n \<Rightarrow> fst (snprintf_s blank n))
        in snd (SendProtocol env net SHROOM_ENET_CHANNEL_CONTROL (Lobby_Create packet_name game_mode)))"

definition ClientNetSendReadyState :: "client_env \<Rightarrow> ClientNetState \<Rightarrow> bool \<Rightarrow> client_effect list" where
  "ClientNetSendReadyState env net is_ready =
     (if nt_peer net \<noteq> Some True \<or> \<not> nt_welcome_received net then []
      else snd (SendProtocol env net SHROOM_ENET_CHANNEL_CONTROL (Ready_State (nt_player_id net) is_ready)))"

definition ClientNetSendEnterMatch :: "client_env \<Rightarrow> ClientNetState \<Rightarrow> client_step" where
  "ClientNetSendEnterMatch env net =
     (if \<not> nt_welcome_received net \<and> \<not> nt_spectating net \<or> nt_lobby_id net = 0 \<or> nt_peer net \<noteq> Some True then (net, [])
      else case SendProtocol env net SHROOM_ENET_CHANNEL_CONTROL (Enter_Match (nt_lobby_id net)) of
             (sent, out) \<Rightarrow> (if sent then net\<lparr>nt_match_entry_sent := True\<rparr> else net, out))"

text \<open>The name and the identifier of the sender that the packet also carries are not used by the server.\<close>

definition ClientNetSendChat :: "client_env \<Rightarrow> ClientNetState \<Rightarrow> u8 list option \<Rightarrow> bool \<times> client_effect list" where
  "ClientNetSendChat env net message =
     (case message of
        None \<Rightarrow> (False, [])
      | Some m \<Rightarrow>
          if c_string m = [] \<or> \<not> nt_welcome_received net \<or> nt_peer net \<noteq> Some True then (False, [])
          else SendProtocol env net SHROOM_ENET_CHANNEL_CHAT
                 (Chat_Request (fst (snprintf_s (replicate (SHROOM_CHAT_MAX_MESSAGE_LENGTH + 1) 0) m))))"

definition ClientNetSendVoiceFrame :: "client_env \<Rightarrow> ClientNetState \<Rightarrow> ShroomVoiceFramePacket \<Rightarrow> nat \<Rightarrow> bool \<times> client_effect list" where
  "ClientNetSendVoiceFrame env net data wire_size =
     (if nt_peer net \<noteq> Some True \<or> nt_lobby_id net = 0 \<or> \<not> ShroomVoiceFramePacketIsValid (Some data) wire_size then (False, [])
      else SendPacket env net SHROOM_ENET_CHANNEL_VOICE False (Voice_Request data))"

definition ClientNetSetVoiceFrameHandler :: "ClientNetState \<Rightarrow> bool \<Rightarrow> ClientNetState" where
  "ClientNetSetVoiceFrameHandler net present = net\<lparr>nt_voice_handler := present\<rparr>"

end
