(* ===== verification/Client_Packets.thy ===== *)
theory Client_Packets
  imports Client_Net
begin

text \<open>
  What the client sends (\<open>src/client/net.c\<close>), and how the server's \<open>HandlePacket\<close>
  (\<open>src/server/main.c\<close>) takes it: the channels and sizes that the senders write out agree with the packet
  table of the protocol, by which the server judges a packet before it looks at its contents.
\<close>

section \<open>The senders\<close>

text \<open>A packet that one of the client's senders gives to ENet, by sender.\<close>

inductive client_sends :: "client_env \<Rightarrow> ClientNetState \<Rightarrow> client_effect \<Rightarrow> bool" for env net where
  "e \<in> set (SendHello env net) \<Longrightarrow> client_sends env net e"
| "e \<in> set (snd (SendPing env net)) \<Longrightarrow> client_sends env net e"
| "e \<in> set (snd (snd (SendInput env net direction split eject split_direction focused))) \<Longrightarrow> client_sends env net e"
| "e \<in> set (SendSnapshotAck env net tick) \<Longrightarrow> client_sends env net e"
| "e \<in> set (ClientNetSendRematchVote env net vote) \<Longrightarrow> client_sends env net e"
| "e \<in> set (ClientNetSendLobbyListQuery env net) \<Longrightarrow> client_sends env net e"
| "e \<in> set (ClientNetSendLobbyJoin env net lobby_id spectate) \<Longrightarrow> client_sends env net e"
| "e \<in> set (snd (ClientNetSendLobbyLeave env net)) \<Longrightarrow> client_sends env net e"
| "e \<in> set (ClientNetSendLobbyCreate env net name game_mode) \<Longrightarrow> client_sends env net e"
| "e \<in> set (ClientNetSendReadyState env net is_ready) \<Longrightarrow> client_sends env net e"
| "e \<in> set (snd (ClientNetSendEnterMatch env net)) \<Longrightarrow> client_sends env net e"
| "e \<in> set (snd (ClientNetSendChat env net text')) \<Longrightarrow> client_sends env net e"
| "e \<in> set (snd (ClientNetSendVoiceFrame env net data wire_size)) \<Longrightarrow> client_sends env net e"

text \<open>The bytes of a packet: the size of its structure, of a voice frame the size in its own header.  The other
  headers are written by \<open>ShroomPacketHeaderInit\<close>.\<close>

fun client_size :: "client_message \<Rightarrow> nat" where
  "client_size (Hello _ _) = size_of ShroomHelloPacket_layout"
| "client_size (Input _) = size_of ShroomInputPacket_layout"
| "client_size (Snapshot_Ack _) = size_of ShroomSnapshotAckPacket_layout"
| "client_size (Auth_Request _ _ _) = size_of ShroomAuthRequestPacket_layout"
| "client_size (Ping _) = size_of ShroomPingPacket_layout"
| "client_size (Server_Probe _ _ _) = size_of ShroomServerProbePacket_layout"
| "client_size (Chat_Request _) = size_of ShroomChatPacket_layout"
| "client_size (Voice_Request frame) = unat (ph_size (vf_header frame))"
| "client_size Lobby_List_Query = size_of ShroomPacketHeader_layout"
| "client_size (Lobby_Join _ _) = size_of ShroomLobbyJoinPacket_layout"
| "client_size Lobby_Leave = size_of ShroomLobbyLeavePacket_layout"
| "client_size (Lobby_Create _ _) = size_of ShroomLobbyCreatePacket_layout"
| "client_size (Ready_State _ _) = size_of ShroomReadyStatePacket_layout"
| "client_size (Enter_Match _) = size_of ShroomEnterMatchPacket_layout"
| "client_size (Rematch_Vote _ _) = size_of ShroomRematchVotePacket_layout"

definition client_header :: "client_message \<Rightarrow> ShroomPacketHeader" where
  "client_header message =
     (case message of
        Voice_Request frame \<Rightarrow> vf_header frame
      | _ \<Rightarrow> the (ShroomPacketHeaderInit (Some \<lparr>ph_type = 0, ph_reserved = 0, ph_size = 0\<rparr>)
               (message_type message) (word_of_nat (client_size message))))"

text \<open>One-shot actions are sent reliably.\<close>

fun is_action :: "client_message \<Rightarrow> bool" where
  "is_action (Input packet) \<longleftrightarrow> ip_split_requested packet \<noteq> 0 \<or> ip_eject_requested packet \<noteq> 0"
| "is_action _ \<longleftrightarrow> False"

section \<open>What is sent\<close>

lemma send_packet_effects:
  "Send channel reliable message \<in> set (snd (SendPacket env net c r m)) \<Longrightarrow> channel = c \<and> reliable = r \<and> message = m"
  by (auto simp: SendPacket_def split: if_splits)

text \<open>The channel that the sender of a message writes out, and when the packet is reliable.\<close>

fun sender_channel :: "client_message \<Rightarrow> u8" where
  "sender_channel (Input _) = SHROOM_ENET_CHANNEL_INPUT"
| "sender_channel (Snapshot_Ack _) = SHROOM_ENET_CHANNEL_INPUT"
| "sender_channel (Chat_Request _) = SHROOM_ENET_CHANNEL_CHAT"
| "sender_channel (Voice_Request _) = SHROOM_ENET_CHANNEL_VOICE"
| "sender_channel _ = SHROOM_ENET_CHANNEL_CONTROL"

fun valid_contents :: "client_message \<Rightarrow> bool" where
  "valid_contents (Voice_Request frame) \<longleftrightarrow> (\<exists>n. ShroomVoiceFramePacketIsValid (Some frame) n)"
| "valid_contents (Auth_Request _ _ _) \<longleftrightarrow> False"
| "valid_contents (Server_Probe _ _ _) \<longleftrightarrow> False"
| "valid_contents _ \<longleftrightarrow> True"

definition sent_well :: "u8 \<Rightarrow> bool \<Rightarrow> client_message \<Rightarrow> bool" where
  "sent_well channel reliable message \<longleftrightarrow> channel = sender_channel message \<and> valid_contents message \<and>
     (reliable \<longleftrightarrow> channel = SHROOM_ENET_CHANNEL_CONTROL \<or> channel = SHROOM_ENET_CHANNEL_CHAT \<or> is_action message)"

lemma protocol_effect:
  assumes "Send channel reliable message \<in> set (snd (SendProtocol env net (sender_channel m) m))"
    and "valid_contents m" and "\<not> (\<exists>packet. m = Input packet)"
  shows "sent_well channel reliable message"
proof -
  have "ShroomPacketTypeUsesReliableDelivery (message_type m) \<longleftrightarrow>
      sender_channel m = SHROOM_ENET_CHANNEL_CONTROL \<or> sender_channel m = SHROOM_ENET_CHANNEL_CHAT \<or> is_action m"
    using assms(3) by (cases m) (simp_all add: ShroomPacketTypeUsesReliableDelivery_def SHROOM_PACKET_METADATA_def)
  with assms send_packet_effects [OF assms(1) [unfolded SendProtocol_def]] show ?thesis by (simp add: sent_well_def)
qed

lemma input_effect:
  assumes "Send channel reliable message \<in> set (snd (snd (SendInput env net direction split eject split_direction focused)))"
  shows "sent_well channel reliable message"
proof -
  define packet where "packet = \<lparr>ip_sequence = next_sequence (nt_last_input_sequence net), ip_direction_x = v2_x direction,
    ip_direction_y = v2_y direction, ip_split_direction_x = v2_x split_direction,
    ip_split_direction_y = v2_y split_direction, ip_split_requested = (if split then 1 else 0),
    ip_eject_requested = (if eject then 1 else 0), ip_reserved = [0, 0], ip_focused_entity_id = focused\<rparr>"
  have "Send channel reliable message \<in> set (snd (SendPacket env net SHROOM_ENET_CHANNEL_INPUT (split \<or> eject) (Input packet)))"
    using assms unfolding SendInput_def packet_def Let_def by (auto simp: case_prod_beta split: if_splits bool.splits)
  with send_packet_effects [OF this] show ?thesis by (auto simp: sent_well_def packet_def)
qed

lemma voice_effect:
  assumes "Send channel reliable message \<in> set (snd (ClientNetSendVoiceFrame env net data n))"
  shows "sent_well channel reliable message"
proof -
  have "ShroomVoiceFramePacketIsValid (Some data) n"
    "Send channel reliable message \<in> set (snd (SendPacket env net SHROOM_ENET_CHANNEL_VOICE False (Voice_Request data)))"
    using assms by (auto simp: ClientNetSendVoiceFrame_def split: if_splits)
  with send_packet_effects [OF this(2)] show ?thesis by (auto simp: sent_well_def)
qed

lemmas sender_defs = SendHello_def BuildHelloPacket_def SendPing_def SendSnapshotAck_def ClientNetSendRematchVote_def
  ClientNetSendLobbyListQuery_def ClientNetSendLobbyJoin_def ClientNetSendLobbyLeave_def ClientNetSendLobbyCreate_def
  ClientNetSendReadyState_def ClientNetSendEnterMatch_def ClientNetSendChat_def

lemma client_sends_well:
  assumes "client_sends env net (Send channel reliable message)"
  shows "sent_well channel reliable message"
proof -
  have sent: "Send channel reliable message \<in> set (snd (SendProtocol env n c m)) \<Longrightarrow> c = sender_channel m \<Longrightarrow>
      valid_contents m \<Longrightarrow> \<not> (\<exists>packet. m = Input packet) \<Longrightarrow> sent_well channel reliable message" for n c m
    using protocol_effect by blast
  from assms show ?thesis
    by (cases rule: client_sends.cases)
      (auto simp: sender_defs Let_def case_prod_beta split: if_splits option.splits
        intro: input_effect voice_effect elim!: sent)
qed

section \<open>What the server makes of it\<close>

lemma client_packet_sizes:
  "size_of ShroomHelloPacket_layout = 40" "size_of ShroomInputPacket_layout = 32" "size_of ShroomSnapshotAckPacket_layout = 16"
  "size_of ShroomPingPacket_layout = 8" "size_of ShroomChatPacket_layout = 256" "size_of ShroomLobbyJoinPacket_layout = 12"
  "size_of ShroomLobbyLeavePacket_layout = 8" "size_of ShroomLobbyCreatePacket_layout = 40"
  "size_of ShroomReadyStatePacket_layout = 12" "size_of ShroomEnterMatchPacket_layout = 8"
  "size_of ShroomRematchVotePacket_layout = 12"
  by (simp_all add: packet_layouts c_header_eval c_entries_eval basic_layout)

text \<open>The rows of the packet table for what the client sends.\<close>

lemma client_rows:
  assumes "valid_contents m"
  shows "ShroomPacketTypeToChannel (message_type m) = sender_channel m"
    and "0 < unat (ShroomPacketTypeMinimumSize (message_type m))"
    and "unat (ShroomPacketTypeMinimumSize (message_type m)) \<le> client_size m"
    and "(\<forall>frame. m \<noteq> Voice_Request frame) \<Longrightarrow> unat (ShroomPacketTypeMinimumSize (message_type m)) = client_size m"
    and "4 \<le> client_size m" and "client_size m < 2 ^ 16"
    and "unat (word_of_nat (message_type m) :: u8) = message_type m"
proof -
  have frame: "24 \<le> unat (ph_size (vf_header f)) \<and> unat (ph_size (vf_header f)) < 65536" if "m = Voice_Request f" for f
  proof -
    have "unat (ph_size (vf_header f)) < 2 ^ LENGTH(16)" by (rule unsigned_less)
    with assms that show ?thesis
      by (auto simp: ShroomVoiceFramePacketIsValid_def SHROOM_VOICE_FRAME_HEADER_SIZE_def size_simps split: if_splits)
  qed
  show "ShroomPacketTypeToChannel (message_type m) = sender_channel m"
    using assms by (cases m) (simp_all add: ShroomPacketTypeToChannel_def SHROOM_PACKET_METADATA_def)
  show "0 < unat (ShroomPacketTypeMinimumSize (message_type m))"
    "unat (ShroomPacketTypeMinimumSize (message_type m)) \<le> client_size m"
    "4 \<le> client_size m" "client_size m < 2 ^ 16"
    using assms frame by (cases m; simp add: ShroomPacketTypeMinimumSize_def SHROOM_PACKET_METADATA_def
        client_packet_sizes SHROOM_VOICE_FRAME_HEADER_SIZE_def size_simps)+
  show "unat (ShroomPacketTypeMinimumSize (message_type m)) = client_size m" if "\<forall>frame. m \<noteq> Voice_Request frame"
    using assms that by (cases m) (simp_all add: ShroomPacketTypeMinimumSize_def SHROOM_PACKET_METADATA_def
        client_packet_sizes size_simps)
  show "unat (word_of_nat (message_type m) :: u8) = message_type m" by (cases m) simp_all
qed

lemma client_header_fields:
  assumes "valid_contents m"
  shows "unat (ph_type (client_header m)) = message_type m" and "ph_reserved (client_header m) = sender_channel m"
    and "ph_size (client_header m) = word_of_nat (client_size m)"
  using assms client_rows(1,7) [OF assms]
  by (cases m; auto simp: client_header_def ShroomPacketHeaderInit_def ShroomVoiceFramePacketIsValid_def split: if_splits)+

text \<open>C18. The client's senders agree with the server's packet checks.  Whatever packet a sender of \<open>net.c\<close> hands to
  ENet, on the channel that it writes out and with the header it writes, it carries its channel in its header and
  the server's \<open>HandlePacket\<close> passes it to the handler of its type; the same packet on any other channel, or
  with any other channel in its header, is dropped, and so is one cut short (a voice frame, whose size varies,
  when less than its fixed part is left).  Requests and chat are sent reliably, snapshot
  acknowledgements and voice are not, input only when it carries a one-shot action.\<close>

theorem client_packets_reach_handlers:
  assumes "client_sends env net (Send channel reliable message)"
  shows "ph_reserved (client_header message) = channel \<and> unat channel < SHROOM_ENET_CHANNEL_COUNT \<and>
    (reliable \<longleftrightarrow> channel = SHROOM_ENET_CHANNEL_CONTROL \<or> channel = SHROOM_ENET_CHANNEL_CHAT \<or> is_action message) \<and>
    (\<forall>written used. HandlePacket senv sv i ((client_header message)\<lparr>ph_reserved := written\<rparr>) (client_size message) used message =
       (if written = channel \<and> used = channel
        then DispatchMessage senv sv i (client_size message) (word_of_nat (client_size message)) message else (sv, []))) \<and>
    (\<forall>n < (case message of Voice_Request _ \<Rightarrow> SHROOM_VOICE_FRAME_HEADER_SIZE | _ \<Rightarrow> client_size message).
       HandlePacket senv sv i (client_header message) n channel message = (sv, []))"
proof -
  have well: "channel = sender_channel message" "valid_contents message"
    "reliable \<longleftrightarrow> channel = SHROOM_ENET_CHANNEL_CONTROL \<or> channel = SHROOM_ENET_CHANNEL_CHAT \<or> is_action message"
    using client_sends_well [OF assms] by (simp_all add: sent_well_def)
  note rows = client_rows [OF well(2)] and fields = client_header_fields [OF well(2)]
  have "unat channel < SHROOM_ENET_CHANNEL_COUNT"
    unfolding well(1) by (cases message) (simp_all add: SHROOM_ENET_CHANNEL_COUNT_def)
  moreover have "HandlePacket senv sv i ((client_header message)\<lparr>ph_reserved := written\<rparr>) (client_size message) used message =
       (if written = channel \<and> used = channel
        then DispatchMessage senv sv i (client_size message) (word_of_nat (client_size message)) message else (sv, []))"
    for written used
    using rows(1-3,5) fields well(1)
    by (auto simp: HandlePacket_def Let_def ShroomPacketHeaderUsesExpectedChannel_def size_simps)
  moreover have "HandlePacket senv sv i (client_header message) n channel message = (sv, [])"
    if n: "n < (case message of Voice_Request _ \<Rightarrow> SHROOM_VOICE_FRAME_HEADER_SIZE | _ \<Rightarrow> client_size message)" for n
  proof -
    have "n < unat (ShroomPacketTypeMinimumSize (message_type message))"
    proof (cases "\<forall>frame. message \<noteq> Voice_Request frame")
      case True
      with n rows(4) show ?thesis by (cases message) simp_all
    next
      case False
      with n show ?thesis
        by (auto simp: ShroomPacketTypeMinimumSize_def SHROOM_PACKET_METADATA_def SHROOM_VOICE_FRAME_HEADER_SIZE_def size_simps)
    qed
    with fields(1) show ?thesis by (simp add: HandlePacket_def Let_def)
  qed
  ultimately show ?thesis using well fields(2) by blast
qed

text \<open>A connected client in a match sends a split, and asks for another lobby.\<close>

definition playing_client :: ClientNetState where
  "playing_client = zero_net\<lparr>nt_peer := Some True, nt_welcome_received := True, nt_match_entry_sent := True,
     nt_match_phase := ucast SHROOM_MATCH_PHASE_RUNNING, nt_lobby_id := 1\<rparr>"

definition accepting_env :: client_env where
  "accepting_env = \<lparr>ce_now_ms = 0, ce_accepts = (\<lambda>_. True), ce_cached = []\<rparr>"

definition split_message :: client_message where
  "split_message = Input \<lparr>ip_sequence = 1, ip_direction_x = 0, ip_direction_y = 0, ip_split_direction_x = 0,
     ip_split_direction_y = 0, ip_split_requested = 1, ip_eject_requested = 0, ip_reserved = [0, 0],
     ip_focused_entity_id = 7\<rparr>"

lemma playing_client_sends:
  "client_sends accepting_env playing_client (Send SHROOM_ENET_CHANNEL_INPUT True split_message)"
  "client_sends accepting_env playing_client (Send SHROOM_ENET_CHANNEL_CONTROL True (Lobby_Join 2 False))"
proof -
  have "Send SHROOM_ENET_CHANNEL_INPUT True split_message \<in> set (snd (snd (SendInput accepting_env playing_client
      \<lparr>v2_x = 0, v2_y = 0\<rparr> True False \<lparr>v2_x = 0, v2_y = 0\<rparr> 7)))"
    by (simp add: SendInput_def CanSendGameplayInput_def SendPacket_def playing_client_def accepting_env_def split_message_def
        zero_net_def next_sequence_def SHROOM_MATCH_PHASE_RUNNING_def Let_def)
  then show "client_sends accepting_env playing_client (Send SHROOM_ENET_CHANNEL_INPUT True split_message)"
    by (rule client_sends.intros(3))
  have "Send SHROOM_ENET_CHANNEL_CONTROL True (Lobby_Join 2 False) \<in>
      set (ClientNetSendLobbyJoin accepting_env playing_client 2 False)"
    by (simp add: ClientNetSendLobbyJoin_def SendProtocol_def SendPacket_def playing_client_def accepting_env_def
        ShroomPacketTypeUsesReliableDelivery_def SHROOM_PACKET_METADATA_def)
  then show "client_sends accepting_env playing_client (Send SHROOM_ENET_CHANNEL_CONTROL True (Lobby_Join 2 False))"
    by (rule client_sends.intros(7))
qed

theorem client_packets_reach_handlers_witness:
  "\<forall>senv sv i. HandlePacket senv sv i \<lparr>ph_type = 3, ph_reserved = 2, ph_size = 32\<rparr> 32 2 split_message =
       DispatchMessage senv sv i 32 32 split_message \<and>
     HandlePacket senv sv i \<lparr>ph_type = 3, ph_reserved = 0, ph_size = 32\<rparr> 32 0 split_message = (sv, []) \<and>
     HandlePacket senv sv i \<lparr>ph_type = 3, ph_reserved = 2, ph_size = 32\<rparr> 31 2 split_message = (sv, []) \<and>
     HandlePacket senv sv i \<lparr>ph_type = 13, ph_reserved = 0, ph_size = 12\<rparr> 12 0 (Lobby_Join 2 False) =
       DispatchMessage senv sv i 12 12 (Lobby_Join 2 False)"
proof (intro allI)
  fix senv sv i
  have header: "client_header split_message = \<lparr>ph_type = 3, ph_reserved = 2, ph_size = 32\<rparr>" "client_size split_message = 32"
    by (simp_all add: client_header_def split_message_def ShroomPacketHeaderInit_def ShroomPacketTypeToChannel_def
        SHROOM_PACKET_METADATA_def client_packet_sizes)
  have join_header: "client_header (Lobby_Join 2 False) = \<lparr>ph_type = 13, ph_reserved = 0, ph_size = 12\<rparr>"
    by (simp add: client_header_def ShroomPacketHeaderInit_def ShroomPacketTypeToChannel_def SHROOM_PACKET_METADATA_def
        client_packet_sizes)
  have short: "31 < (case split_message of Voice_Request _ \<Rightarrow> SHROOM_VOICE_FRAME_HEADER_SIZE | _ \<Rightarrow> 32)"
    by (simp add: split_message_def)
  note split = client_packets_reach_handlers [OF playing_client_sends(1), of senv sv i, unfolded header]
  note join = client_packets_reach_handlers [OF playing_client_sends(2), of senv sv i, unfolded join_header]
  have "HandlePacket senv sv i \<lparr>ph_type = 3, ph_reserved = 2, ph_size = 32\<rparr> 31 2 split_message = (sv, [])"
    using split short by blast
  moreover have "HandlePacket senv sv i \<lparr>ph_type = 13, ph_reserved = 0, ph_size = 12\<rparr> 12 0 (Lobby_Join 2 False) =
       DispatchMessage senv sv i 12 12 (Lobby_Join 2 False)"
    using join by (auto simp: client_packet_sizes dest!: spec [of _ "0 :: u8"])
  ultimately show "HandlePacket senv sv i \<lparr>ph_type = 3, ph_reserved = 2, ph_size = 32\<rparr> 32 2 split_message =
       DispatchMessage senv sv i 32 32 split_message \<and>
     HandlePacket senv sv i \<lparr>ph_type = 3, ph_reserved = 0, ph_size = 32\<rparr> 32 0 split_message = (sv, []) \<and>
     HandlePacket senv sv i \<lparr>ph_type = 3, ph_reserved = 2, ph_size = 32\<rparr> 31 2 split_message = (sv, []) \<and>
     HandlePacket senv sv i \<lparr>ph_type = 13, ph_reserved = 0, ph_size = 12\<rparr> 12 0 (Lobby_Join 2 False) =
       DispatchMessage senv sv i 12 12 (Lobby_Join 2 False)"
    using split by auto
qed

end
