(* ===== verification/Client_Session.thy ===== *)
theory Client_Session
  imports Client_Net Server_Safety
begin

text \<open>
  What the network session of the client does: a frame ends, the roster of a lobby is put together from its
  chunks, and joining a lobby reaches the client.
\<close>

section \<open>The pings of a frame\<close>

text \<open>Below \<open>2 ^ 24\<close> neighbouring floats are at most one apart, so subtracting one makes a float smaller.\<close>

lemma bits_units_step:
  assumes "0x1000000 \<le> m" and "m \<le> 0x4b800000"
  shows "bits_units m - bits_units (m - 1) \<le> 2 ^ 149"
proof -
  define e where "e = nat (m div 0x800000)"
  define f where "f = m mod 0x800000"
  have m: "m = int e * 0x800000 + f" "0 \<le> f" "f < 0x800000"
    using assms by (simp_all add: e_def f_def pos_imp_zdiv_nonneg_iff)
  then have e: "2 \<le> e" "e \<le> 151" "e = 151 \<Longrightarrow> f = 0" using assms by linarith+
  have u: "bits_units (int e' * 0x800000 + f') = (0x800000 + f') * 2 ^ (e' - 1)" if "1 \<le> e'" "0 \<le> f'" "f' < 0x800000" for e' f'
  proof -
    have "(int e' * 0x800000 + f') div 0x800000 = int e'" "(int e' * 0x800000 + f') mod 0x800000 = f'" using that by auto
    with that show ?thesis unfolding bits_units_def Let_def by simp
  qed
  show ?thesis
  proof (cases "f = 0")
    case False
    then have "m - 1 = int e * 0x800000 + (f - 1)" using m by simp
    then have "bits_units m - bits_units (m - 1) = 2 ^ (e - 1)"
      using u [of e f] u [of e "f - 1"] m e(1) False by (simp add: algebra_simps)
    moreover have "e - 1 \<le> 149" using e False by (cases "e = 151") auto
    then have "(2 :: int) ^ (e - 1) \<le> 2 ^ 149" by (intro power_increasing) auto
    ultimately show ?thesis by simp
  next
    case True
    have p: "(2 :: int) ^ (e - 1) = 2 * 2 ^ (e - 2)" using e(1) by (simp flip: power_Suc)
    have "m - 1 = int (e - 1) * 0x800000 + 0x7fffff" using m(1) True e(1) by (simp add: of_nat_diff)
    then have "bits_units m - bits_units (m - 1) = 2 ^ (e - 2)"
      using u [of e 0] u [of "e - 1" "0x7fffff"] m(1) True e(1) p by (simp add: numeral_2_eq_2)
    also have "\<dots> \<le> (2 :: int) ^ 149" using e by (intro power_increasing) auto
    finally show ?thesis .
  qed
qed

lemma f32_sub_one_less:
  assumes "f32_order 0x3f800000 \<le> f32_order a" and "f32_order a \<le> 0x4b800000"
  shows "f32_order (f32_sub a 0x3f800000) < f32_order a" and "0 \<le> f32_order (f32_sub a 0x3f800000)"
proof -
  let ?m = "f32_order a"
  have one: "f32_order 0x3f800000 = 0x3f800000" "f32_units 0x3f800000 = 2 ^ 149" "f32_finite 0x3f800000" by code_simp+
  have a: "\<not> f32_neg a" "f32_magnitude a = ?m" using assms one f32_magnitude_nonneg [of a] by (auto simp: order_eq split: if_splits)
  define c where "c = f32_with_sign False (?m - 1)"
  have c: "f32_magnitude c = ?m - 1" "\<not> f32_neg c" using f32_with_sign [of "?m - 1" False] assms one by (simp_all add: c_def)
  have fin: "f32_finite a" "f32_finite c" using a c assms one by (simp_all add: f32_finite_def)
  have r: "rounded (f32_units a - 2 ^ 149) 0 (f32_sub a 0x3f800000)" using f32_sub_rounded [OF fin(1) one(3)] one(2) by simp
  have "f32_units a - 2 ^ 149 \<le> f32_units c" using bits_units_step [of ?m] assms one a c by (simp add: f32_units_eq)
  then have "f32_order (f32_sub a 0x3f800000) \<le> f32_order c" using rounded_le [OF r fin(2)] by simp
  then show less: "f32_order (f32_sub a 0x3f800000) < ?m" using c by (simp add: order_eq)
  have "f32_units 0 * 2 ^ 0 \<le> f32_units a - 2 ^ 149"
    using assms(1) units_mono_iff [of "0x3f800000" a] one(2) by (simp add: f32_units_zero [of 0] f32_is_zero_def)
  moreover have "f32_finite 0" "f32_order 0 = 0" by code_simp+
  ultimately show "0 \<le> f32_order (f32_sub a 0x3f800000)" using rounded_ge [OF r, of 0] by simp
qed

text \<open>Less than a second is left when the loop ends.\<close>

definition second_part :: "f32 \<Rightarrow> bool" where
  "second_part a \<longleftrightarrow> 0 \<le> f32_order a \<and> f32_order a < 0x3f800000"

lemma ping_loop_returns:
  assumes "0 \<le> f32_order (nt_ping_send_accumulator net)" and "f32_order (nt_ping_send_accumulator net) \<le> 0x4b800000"
  shows "\<exists>net' out'. ping_loop env net out = Some (net', out') \<and> second_part (nt_ping_send_accumulator net')"
  using assms
proof (induction "nat (f32_order (nt_ping_send_accumulator net))" arbitrary: net out rule: less_induct)
  case less
  let ?a = "nt_ping_send_accumulator net"
  have one: "f32_order 0x3f800000 = 0x3f800000" "\<not> f32_is_nan 0x3f800000" by code_simp+
  have "f32_finite ?a" using less.prems f32_magnitude_nonneg [of ?a] by (auto simp: f32_finite_def order_eq split: if_splits)
  then have le: "f32_le 0x3f800000 ?a \<longleftrightarrow> 0x3f800000 \<le> f32_order ?a" using one by (simp add: f32_le_iff)
  show ?case
  proof (cases "f32_le 0x3f800000 ?a")
    case True
    then have lo: "f32_order 0x3f800000 \<le> f32_order ?a" using le one by simp
    note s = f32_sub_one_less [OF lo less.prems(2)]
    obtain net1 sent where p: "SendPing env net = (net1, sent)" by fastforce
    then have acc: "nt_ping_send_accumulator net1 = ?a" by (auto simp: SendPing_def Let_def split: if_splits)
    let ?net = "net1\<lparr>nt_ping_send_accumulator := f32_sub ?a 0x3f800000\<rparr>"
    have "\<exists>net' out'. ping_loop env ?net (out @ sent) = Some (net', out') \<and> second_part (nt_ping_send_accumulator net')"
      using s lo one(1) less.prems(2) by (intro less.hyps) (simp_all add: nat_less_iff)
    with True p acc show ?thesis by (subst ping_loop.simps) (simp add: SHROOM_CLIENT_PING_INTERVAL_SECONDS_def Let_def)
  next
    case False
    then show ?thesis using le less.prems(1)
      by (subst ping_loop.simps) (simp add: SHROOM_CLIENT_PING_INTERVAL_SECONDS_def second_part_def)
  qed
qed

lemma handlers_keep_accumulator:
  "nt_ping_send_accumulator (fst (client_event_step env net event)) = nt_ping_send_accumulator net"
proof (cases event)
  case (Net_Receive header data_length channel_id message)
  have "nt_ping_send_accumulator (fst (dispatch_received env net data_length message)) = nt_ping_send_accumulator net"
  proof (cases message)
    case (Snapshot packet)
    then show ?thesis by (auto simp: HandleSnapshot_def take_metadata_def Let_def split: prod.split ShroomSnapshotAssemblyResult.split)
  next
    case (Pong nonce)
    then show ?thesis by (auto simp: HandlePong_def CompletePendingPing_def RecordRTTSample_def Let_def)
  next
    case (Lobby_Joined packet)
    then show ?thesis by (auto simp: HandleLobbyJoined_def SetStatus_def ResetWorldReplication_def ResetIntermissionLifecycle_def Let_def)
  qed (auto simp: HandleWelcome_def SetStatus_def HandleWorldState_def HandleChat_def HandleLobbyList_def HandleLobbyRoster_def
      HandleIntermissionStatus_def HandleMushroomSpeciesCatalog_def HandleVoiceFrame_def Let_def split: prod.split option.split)
  then show ?thesis by (simp add: Net_Receive client_receive_def Let_def)
qed (simp_all add: SetStatus_def Let_def)

lemma events_keep_accumulator:
  "nt_ping_send_accumulator (fst (client_events env net events)) = nt_ping_send_accumulator net"
  by (induction events arbitrary: net) (simp_all add: handlers_keep_accumulator Let_def case_prod_beta)

lemma input_keeps_accumulator:
  "nt_ping_send_accumulator (fst (client_input env net a b c d e f)) = nt_ping_send_accumulator net"
  by (simp add: client_input_def SendInput_def Let_def case_prod_beta split: prod.split bool.split)

lemma added_time:
  assumes "second_part a" and "0 \<le> f32_order b" and "f32_order b \<le> 0x4b000000"
  shows "0 \<le> f32_order (f32_add a b) \<and> f32_order (f32_add a b) \<le> 0x4b800000"
proof -
  have c: "f32_order 0 = 0" "f32_units 0 = 0" "f32_finite 0" "f32_order 0x3f800000 = 0x3f800000"
    "f32_order 0x4b000000 = 0x4b000000" "f32_order 0x4b800000 = 0x4b800000" "f32_finite 0x4b800000"
    "f32_units 0x3f800000 + f32_units 0x4b000000 \<le> f32_units 0x4b800000" by code_simp+
  have fin: "f32_finite a" "f32_finite b" using assms f32_magnitude_nonneg [of a] f32_magnitude_nonneg [of b]
    by (auto simp: f32_finite_def order_eq second_part_def split: if_splits)
  have "0 \<le> f32_units a" "f32_units a \<le> f32_units 0x3f800000" "0 \<le> f32_units b" "f32_units b \<le> f32_units 0x4b000000"
    using assms units_mono_iff [of 0 a] units_mono_iff [of 0 b] units_mono_iff [of a "0x3f800000"]
      units_mono_iff [of b "0x4b000000"] c by (simp_all add: second_part_def)
  moreover from this have "f32_units a + f32_units b \<le> f32_units 0x4b800000" using c(8) by linarith
  ultimately show ?thesis
    using rounded_ge [OF f32_add_rounded [OF fin], of 0] rounded_le [OF f32_add_rounded [OF fin], of "0x4b800000"] c by simp
qed

text \<open>C40. A frame of the session ends, whatever the events and the answers of the network, and leaves less than a second
  in the ping accumulator, from which the next frame ends as well, if the time since the last frame is not negative and
  at most \<open>2 ^ 23\<close> seconds.
\<close>

theorem frame_returns:
  assumes "second_part (nt_ping_send_accumulator net)" and "0 \<le> f32_order delta_time" and "f32_order delta_time \<le> 0x4b000000"
  shows "\<exists>net' out. ClientNetUpdate env net events input_direction split_requested eject_requested split_direction entity delta_time
    = Some (net', out) \<and> second_part (nt_ping_send_accumulator net')"
proof (cases "nt_host net")
  case True
  obtain net1 out1 where e: "client_events env net events = (net1, out1)" by fastforce
  define net2 where "net2 = CheckConnectTimeout net1 (ce_now_ms env)"
  have acc: "nt_ping_send_accumulator net2 = nt_ping_send_accumulator net"
    using events_keep_accumulator [of env net events] e by (simp add: net2_def CheckConnectTimeout_def SetStatus_def)
  show ?thesis
  proof (cases "nt_peer net2 = None")
    case True
    with e \<open>nt_host net\<close> acc assms(1) show ?thesis by (simp add: ClientNetUpdate_def Let_def net2_def)
  next
    case False
    obtain net3 out3 where i: "client_input env (ClearStalePendingPing net2 (ce_now_ms env)) input_direction split_requested
        eject_requested split_direction entity delta_time = (net3, out3)" by fastforce
    let ?cleared = "ClearStalePendingPing net2 (ce_now_ms env)"
    have "nt_ping_send_accumulator (fst (client_input env ?cleared input_direction split_requested eject_requested
        split_direction entity delta_time)) = nt_ping_send_accumulator ?cleared" by (rule input_keeps_accumulator)
    also have "\<dots> = nt_ping_send_accumulator net" using acc by (simp add: ClearStalePendingPing_def)
    finally have acc3: "nt_ping_send_accumulator net3 = nt_ping_send_accumulator net" unfolding i by simp
    let ?a = "f32_add (nt_ping_send_accumulator net) delta_time"
    from added_time [OF assms] ping_loop_returns [of "net3\<lparr>nt_ping_send_accumulator := ?a\<rparr>" env "out1 @ out3"]
    have "\<exists>net' out'. ping_loop env (net3\<lparr>nt_ping_send_accumulator := ?a\<rparr>) (out1 @ out3) = Some (net', out') \<and>
      second_part (nt_ping_send_accumulator net')" by simp
    then show ?thesis using True False e i acc3 by (auto simp: ClientNetUpdate_def Let_def net2_def)
  qed
qed (use assms in \<open>simp add: ClientNetUpdate_def\<close>)

section \<open>The roster of a lobby\<close>

text \<open>The chunks that have arrived are the bits of a word.\<close>

interpretation roster_receipts: chunk_receipts "0 :: u32" bit "\<lambda>m i. m OR push_bit i 1" "\<lambda>_. True" 32
  by unfold_locales (auto simp: bit_or_iff bit_exp_iff)

lemma roster_receipts_complete:
  assumes "roster_receipts.holds received I" and "n < 32" and "I \<subseteq> {..<n}"
  shows "received = push_bit n 1 - 1 \<longleftrightarrow> I = {..<n}"
proof -
  have m: "push_bit n 1 - 1 = (mask n :: u32)" by (simp add: mask_eq_exp_minus_1)
  have "received = mask n \<longleftrightarrow> (\<forall>j<32. bit received j \<longleftrightarrow> j < n)"
    by (auto simp: bit_eq_iff bit_mask_iff dest: bit_imp_le_length)
  also have "\<dots> \<longleftrightarrow> I = {..<n}" using assms by (auto simp: roster_receipts.holds_def)
  finally show ?thesis unfolding m .
qed

text \<open>What the client knows of a roster \<open>E\<close> when the chunks \<open>I\<close> of its \<open>n\<close> have arrived.\<close>

definition roster_known :: "u32 \<Rightarrow> ShroomLobbyRosterEntry list \<Rightarrow> nat \<Rightarrow> nat set \<Rightarrow> ClientNetState \<Rightarrow> bool" where
  "roster_known generation E n I net \<longleftrightarrow>
     nt_lobby_roster_generation net = generation \<and> nt_lobby_roster_chunk_count net = word_of_nat n \<and>
     nt_lobby_roster_count net = word_of_nat (length E) \<and> length (nt_lobby_roster net) = SHROOM_MAX_PARTICIPANTS \<and>
     roster_receipts.holds (nt_lobby_roster_received_chunks net) I \<and> I \<subseteq> {..<n} \<and>
     (nt_lobby_roster_received net \<longleftrightarrow> I = {..<n}) \<and>
     (\<forall>j<length E. j div SHROOM_LOBBY_ROSTER_ENTRIES_PER_PACKET \<in> I \<longrightarrow> nt_lobby_roster net ! j = E ! j)"

definition roster_chunks :: "'a list \<Rightarrow> nat" where
  "roster_chunks E = (if E = [] then 1
     else (length E + SHROOM_LOBBY_ROSTER_ENTRIES_PER_PACKET - 1) div SHROOM_LOBBY_ROSTER_ENTRIES_PER_PACKET)"

lemmas roster_sizes = SHROOM_LOBBY_ROSTER_ENTRIES_PER_PACKET_def SHROOM_MAX_PARTICIPANTS_def SHROOM_LOBBY_ROSTER_MAX_CHUNKS_def

lemma roster_chunks_cases:
  assumes "length E \<le> SHROOM_MAX_PARTICIPANTS"
  shows "roster_chunks E = 1 \<and> length E \<le> 128 \<or> roster_chunks E = 2 \<and> 128 < length E"
proof (cases "length E \<le> 128")
  case True
  then have "(length E + 127) div 128 = 1" if "E \<noteq> []" using that by (intro div_nat_eqI) (auto simp: Suc_le_eq)
  then show ?thesis using True by (simp add: roster_chunks_def roster_sizes add.commute)
next
  case False
  then have "(length E + 127) div 128 = 2" using assms by (intro div_nat_eqI) (auto simp: roster_sizes)
  with False show ?thesis by (auto simp: roster_chunks_def roster_sizes)
qed

lemma roster_packet_acceptable:
  assumes "length E \<le> SHROOM_MAX_PARTICIPANTS" and "k < roster_chunks E" and "generation \<noteq> 0"
  shows "roster_acceptable lobby_id (SHROOM_LOBBY_ROSTER_PACKET_SIZE (length (ro_players
      (roster_packet lobby_id generation started E (roster_chunks E) k))))
    (roster_packet lobby_id generation started E (roster_chunks E) k)"
proof -
  let ?n = "roster_chunks E" and ?m = "length (take 128 (drop (k * 128) E))"
  have n: "?n = 1 \<and> length E \<le> 128 \<or> ?n = 2 \<and> 128 < length E" using roster_chunks_cases [OF assms(1)] .
  have w: "unat (word_of_nat (length E) :: u16) = length E" "unat (word_of_nat ?n :: u16) = ?n" "unat (word_of_nat k :: u16) = k"
    using assms n by (auto simp: roster_sizes unat_word_of_nat_small)
  have req: "E = [] \<Longrightarrow> roster_chunks ([] :: ShroomLobbyRosterEntry list) = 1" "E \<noteq> [] \<Longrightarrow> ?n = (127 + length E) div 128"
    by (simp_all add: roster_chunks_def roster_sizes add.commute)
  have m: "?m \<le> 128" "k * 128 + ?m \<le> length E" "k + 1 < ?n \<longrightarrow> ?m = 128" "k + 1 = ?n \<longrightarrow> k * 128 + ?m = length E"
    using n assms(1,2) by (auto simp: min_def roster_sizes split: if_splits)
  have e: "ro_players (roster_packet lobby_id generation started E ?n k) = take 128 (drop (k * 128) E)"
    by (simp add: roster_packet_def roster_sizes)
  have bounds: "length E \<le> 256" "?n \<noteq> 0" "?n \<le> 2" "k < ?n" using assms n by (auto simp: roster_sizes)
  show ?thesis
    unfolding roster_acceptable_def e Let_def
    using m bounds req assms(3) by (simp add: roster_packet_def w roster_sizes SHROOM_LOBBY_ROSTER_PACKET_SIZE_def)
qed

lemma roster_entry_written:
  assumes "length E \<le> SHROOM_MAX_PARTICIPANTS" and "k < roster_chunks E" and "length roster = SHROOM_MAX_PARTICIPANTS"
  defines "part \<equiv> take SHROOM_LOBBY_ROSTER_ENTRIES_PER_PACKET (drop (k * SHROOM_LOBBY_ROSTER_ENTRIES_PER_PACKET) E)"
  shows "j < length E \<Longrightarrow> write_at roster (k * SHROOM_LOBBY_ROSTER_ENTRIES_PER_PACKET) part ! j =
      (if j div SHROOM_LOBBY_ROSTER_ENTRIES_PER_PACKET = k then E ! j else roster ! j)"
    and "length (write_at roster (k * SHROOM_LOBBY_ROSTER_ENTRIES_PER_PACKET) part) = SHROOM_MAX_PARTICIPANTS"
proof -
  let ?b = "k * 128"
  note n = roster_chunks_cases [OF assms(1)]
  have b: "?b + length part \<le> 256" "?b \<le> 256" using n assms(1,2) by (auto simp: part_def roster_sizes)
  then show "length (write_at roster (k * SHROOM_LOBBY_ROSTER_ENTRIES_PER_PACKET) part) = SHROOM_MAX_PARTICIPANTS"
    using assms(3) by (simp add: write_at_def roster_sizes)
  assume jE: "j < length E"
  have j: "j div 128 = k \<longleftrightarrow> ?b \<le> j \<and> j < ?b + length part"
    using jE by (auto simp: part_def roster_sizes min_def div_nat_eqI Suc_le_eq)
  have "write_at roster ?b part ! j = (if ?b \<le> j \<and> j < ?b + length part then E ! j else roster ! j)"
    using b jE assms(3) by (auto simp: write_at_def nth_append part_def roster_sizes min_def)
  with j show "write_at roster (k * SHROOM_LOBBY_ROSTER_ENTRIES_PER_PACKET) part ! j =
      (if j div SHROOM_LOBBY_ROSTER_ENTRIES_PER_PACKET = k then E ! j else roster ! j)"
    by (simp add: SHROOM_LOBBY_ROSTER_ENTRIES_PER_PACKET_def)
qed

text \<open>A chunk of a roster is noted, whether it is the first of its generation, a further one or a repeated one.\<close>

lemma roster_chunk_noted:
  fixes E :: "ShroomLobbyRosterEntry list" and started :: bool and net :: ClientNetState and lobby_id :: u32
  assumes E: "length E \<le> SHROOM_MAX_PARTICIPANTS" and k: "k < roster_chunks E" and gen: "generation \<noteq> 0"
    and lobby: "nt_lobby_id net = lobby_id"
    and known: "nt_lobby_roster_generation net \<noteq> generation \<and> I = {} \<or> roster_known generation E (roster_chunks E) I net"
  defines "packet \<equiv> roster_packet lobby_id generation started E (roster_chunks E) k"
  defines "net' \<equiv> HandleLobbyRoster net (SHROOM_LOBBY_ROSTER_PACKET_SIZE (length (ro_players packet))) packet"
  shows "roster_known generation E (roster_chunks E) (insert k I) net'" and "nt_lobby_id net' = lobby_id"
    and "nt_lobby_match_started net' = started"
proof -
  let ?n = "roster_chunks E"
  define net1 where "net1 = (if nt_lobby_roster_generation net \<noteq> generation
    then net\<lparr>nt_lobby_roster_generation := generation, nt_lobby_roster_chunk_count := word_of_nat ?n,
      nt_lobby_roster_received_chunks := 0, nt_lobby_roster_received := False,
      nt_lobby_roster_count := word_of_nat (length E), nt_lobby_roster := replicate SHROOM_MAX_PARTICIPANTS no_roster_entry\<rparr>
    else net)"
  have n: "0 < ?n" "?n \<le> 2" using roster_chunks_cases [OF E] by auto
  have pk: "ro_lobby_id packet = lobby_id" "ro_generation packet = generation" "ro_chunk_count packet = word_of_nat ?n"
    "ro_total_player_count packet = word_of_nat (length E)" "unat (ro_chunk_index packet) = k"
    "unat (word_of_nat ?n :: u16) = ?n" "ro_match_started packet \<noteq> 0 \<longleftrightarrow> started"
    "ro_players packet = take SHROOM_LOBBY_ROSTER_ENTRIES_PER_PACKET (drop (k * SHROOM_LOBBY_ROSTER_ENTRIES_PER_PACKET) E)"
    using k n by (simp_all add: packet_def roster_packet_def unat_word_of_nat_small)
  have known1: "roster_known generation E ?n I net1 \<or> I = {} \<and> nt_lobby_roster_generation net \<noteq> generation"
    using known by (auto simp: net1_def roster_known_def)
  have one: "nt_lobby_roster_generation net1 = generation" "nt_lobby_roster_chunk_count net1 = word_of_nat ?n"
    "nt_lobby_roster_count net1 = word_of_nat (length E)" "length (nt_lobby_roster net1) = SHROOM_MAX_PARTICIPANTS"
    "roster_receipts.holds (nt_lobby_roster_received_chunks net1) I" "I \<subseteq> {..<?n}" "nt_lobby_id net1 = lobby_id"
    "\<forall>j<length E. j div SHROOM_LOBBY_ROSTER_ENTRIES_PER_PACKET \<in> I \<longrightarrow> nt_lobby_roster net1 ! j = E ! j"
    using known lobby roster_receipts.holds_none by (auto simp: net1_def roster_known_def)
  let ?r = "nt_lobby_roster_received_chunks net1 OR push_bit k 1"
  have net': "net' = net1\<lparr>nt_lobby_match_started := started,
      nt_lobby_roster := write_at (nt_lobby_roster net1) (k * SHROOM_LOBBY_ROSTER_ENTRIES_PER_PACKET) (ro_players packet),
      nt_lobby_roster_received_chunks := ?r, nt_lobby_roster_received := (?r = push_bit ?n 1 - 1)\<rparr>"
    using roster_packet_acceptable [OF E k gen, of lobby_id started] one(2,3) lobby
    unfolding net'_def packet_def [symmetric] HandleLobbyRoster_def Let_def
    by (simp add: pk net1_def [symmetric] cong: if_cong)
  have r: "roster_receipts.holds ?r (insert k I)" using roster_receipts.holds_mark [OF one(5), of k] k n by simp
  moreover have "insert k I \<subseteq> {..<?n}" using one(6) k by simp
  ultimately have "?r = push_bit ?n 1 - 1 \<longleftrightarrow> insert k I = {..<?n}" using n by (intro roster_receipts_complete) auto
  then show "roster_known generation E ?n (insert k I) net'"
    using one r k roster_entry_written [OF E k one(4)] n
    unfolding net' roster_known_def pk by (auto simp: roster_sizes)
  show "nt_lobby_id net' = lobby_id" "nt_lobby_match_started net' = started" using one by (simp_all add: net')
qed

section \<open>Packets reach their handlers\<close>

lemma client_sizes:
  "size_of ShroomLobbyRosterEntry_layout = 8" "offset_of ShroomLobbyRosterPacket_layout 9 = 24"
  "size_of ShroomLobbyJoinedPacket_layout = 80" "size_of ShroomChatPacket_layout = 256"
  "size_of ShroomIntermissionStatusPacket_layout = 24"
proof -
  show "size_of ShroomLobbyRosterEntry_layout = 8"
    unfolding size_of_def c_ShroomLobbyRosterEntry_def [symmetric] by (simp add: c_entries_eval)
  show "offset_of ShroomLobbyRosterPacket_layout 9 = 24" "size_of ShroomLobbyJoinedPacket_layout = 80"
    "size_of ShroomChatPacket_layout = 256" "size_of ShroomIntermissionStatusPacket_layout = 24"
    by (simp_all add: packet_layouts c_header_eval c_entries_eval basic_layout)
qed

lemma receive_sent:
  assumes "server_packet_type message = t" and "t \<in> {SHROOM_PACKET_LOBBY_JOINED, SHROOM_PACKET_CHAT, SHROOM_PACKET_LOBBY_ROSTER,
    SHROOM_PACKET_INTERMISSION_STATUS}"
  shows "client_event_step env net (sent_event message) = dispatch_received env net (sent_size message) message"
proof -
  have t: "unat (word_of_nat t :: u8) = t" using assms(2) by auto
  have small: "ShroomPacketTypeMinimumSize t \<noteq> 0 \<and> 4 \<le> sent_size message \<and> unat (ShroomPacketTypeMinimumSize t) \<le> sent_size message"
    using assms by (cases message) (auto simp: ShroomPacketTypeMinimumSize_def SHROOM_PACKET_METADATA_def client_sizes
        SHROOM_LOBBY_ROSTER_PACKET_SIZE_def)
  have "message \<noteq> Disconnect" using assms by auto
  then show ?thesis using assms(1) small t
    by (simp add: sent_event_def sent_header_def client_receive_def ShroomPacketHeaderInit_def Let_def packet_sizes
        ShroomPacketHeaderUsesExpectedChannel_def)
qed

lemma client_events_append:
  "fst (client_events env net (a @ b)) = fst (client_events env (fst (client_events env net a)) b)"
  by (induction a arbitrary: net) (auto simp: Let_def case_prod_beta)

text \<open>The state of the session in a lobby that chat and votes leave alone.\<close>

definition lobby_view :: "ClientNetState \<Rightarrow> net_lobby" where
  "lobby_view net = net_lobby.truncate (net\<lparr>nt_chat_history := [], nt_chat_history_head := 0, nt_chat_history_count := 0,
     nt_chat_unread_count := 0, nt_intermission := no_intermission, nt_intermission_received := False\<rparr>)"

lemma lobby_view_eq:
  assumes "lobby_view a = lobby_view b"
  shows "nt_lobby_id a = nt_lobby_id b" "nt_spectating a = nt_spectating b" "nt_player_id a = nt_player_id b"
    "nt_entity_id a = nt_entity_id b" "nt_welcome_received a = nt_welcome_received b"
    "nt_lobby_roster_generation a = nt_lobby_roster_generation b" "nt_lobby_roster_chunk_count a = nt_lobby_roster_chunk_count b"
    "nt_lobby_roster_received_chunks a = nt_lobby_roster_received_chunks b" "nt_lobby_roster_received a = nt_lobby_roster_received b"
    "nt_lobby_roster_count a = nt_lobby_roster_count b" "nt_lobby_roster a = nt_lobby_roster b"
    "nt_lobby_match_started a = nt_lobby_match_started b"
  using assms by (simp_all add: lobby_view_def net_lobby.truncate_def)

lemma lobby_view_chat: "lobby_view (fst (HandleChat net n packet)) = lobby_view net"
  by (simp add: HandleChat_def lobby_view_def net_lobby.truncate_def split: option.split)

lemma lobby_view_intermission: "lobby_view (HandleIntermissionStatus net n packet) = lobby_view net"
  by (simp add: HandleIntermissionStatus_def lobby_view_def net_lobby.truncate_def)

lemma lobby_view_events:
  assumes "\<forall>m\<in>set ms. (\<exists>packet. m = Chat packet) \<or> (\<exists>packet. m = Intermission_Status packet)"
  shows "lobby_view (fst (client_events env net (map sent_event ms))) = lobby_view net"
  using assms
proof (induction ms arbitrary: net)
  case (Cons m ms)
  have "lobby_view (fst (client_event_step env net (sent_event m))) = lobby_view net"
    using Cons.prems by (auto simp: receive_sent lobby_view_chat lobby_view_intermission)
  with Cons show ?case by (simp add: Let_def case_prod_beta)
qed simp

text \<open>A roster does not change who the client is.\<close>

lemma roster_player_kept:
  "nt_spectating (fst (client_events env net (map (\<lambda>k. sent_event (Lobby_Roster (f k))) ks))) = nt_spectating net \<and>
   nt_player_id (fst (client_events env net (map (\<lambda>k. sent_event (Lobby_Roster (f k))) ks))) = nt_player_id net \<and>
   nt_entity_id (fst (client_events env net (map (\<lambda>k. sent_event (Lobby_Roster (f k))) ks))) = nt_entity_id net \<and>
   nt_welcome_received (fst (client_events env net (map (\<lambda>k. sent_event (Lobby_Roster (f k))) ks))) = nt_welcome_received net"
proof (induction ks arbitrary: net)
  case (Cons k ks)
  have "nt_spectating (HandleLobbyRoster net n packet) = nt_spectating net \<and>
    nt_player_id (HandleLobbyRoster net n packet) = nt_player_id net \<and>
    nt_entity_id (HandleLobbyRoster net n packet) = nt_entity_id net \<and>
    nt_welcome_received (HandleLobbyRoster net n packet) = nt_welcome_received net" for n packet
    by (simp add: HandleLobbyRoster_def Let_def)
  with Cons show ?case by (simp add: receive_sent Let_def case_prod_beta)
qed simp

section \<open>A roster arrives\<close>

lemma roster_run:
  fixes started :: bool and env :: client_env and net :: ClientNetState and lobby_id :: u32
  assumes E: "length E \<le> SHROOM_MAX_PARTICIPANTS" and gen: "generation \<noteq> 0" and lobby: "nt_lobby_id net = lobby_id"
    and known: "nt_lobby_roster_generation net \<noteq> generation \<and> I = {} \<or> roster_known generation E (roster_chunks E) I net"
    and ks: "set ks \<subseteq> {..<roster_chunks E}"
  shows "(ks = [] \<or> roster_known generation E (roster_chunks E) (I \<union> set ks) (fst (client_events env net (map (\<lambda>k. sent_event
      (Lobby_Roster (roster_packet lobby_id generation started E (roster_chunks E) k))) ks)))) \<and>
    nt_lobby_id (fst (client_events env net (map (\<lambda>k. sent_event
      (Lobby_Roster (roster_packet lobby_id generation started E (roster_chunks E) k))) ks))) = lobby_id"
  using lobby known ks
proof (induction ks arbitrary: net I)
  case (Cons k ks)
  let ?m = "Lobby_Roster (roster_packet lobby_id generation started E (roster_chunks E) k)"
  let ?net = "fst (client_event_step env net (sent_event ?m))"
  have step: "client_event_step env net (sent_event ?m) = (HandleLobbyRoster net (sent_size ?m)
      (roster_packet lobby_id generation started E (roster_chunks E) k), [])"
    by (simp add: receive_sent)
  have k: "k < roster_chunks E" using Cons.prems by simp
  have noted: "nt_lobby_id ?net = lobby_id" "roster_known generation E (roster_chunks E) (insert k I) ?net"
    using roster_chunk_noted [OF E k gen Cons.prems(1,2), of started] by (simp_all add: step)
  have ks: "set ks \<subseteq> {..<roster_chunks E}" using Cons.prems(3) by simp
  from Cons.IH [OF noted(1) disjI2 [OF noted(2)] ks] noted show ?case
    by (cases "ks = []") (simp_all add: Let_def case_prod_beta)
qed simp

lemma roster_known_complete:
  assumes "roster_known generation E (roster_chunks E) {..<roster_chunks E} net" and "length E \<le> SHROOM_MAX_PARTICIPANTS"
  shows "nt_lobby_roster_received net" and "take (unat (nt_lobby_roster_count net)) (nt_lobby_roster net) = E"
proof -
  show "nt_lobby_roster_received net" using assms(1) by (simp add: roster_known_def)
  have n: "unat (nt_lobby_roster_count net) = length E" "length (nt_lobby_roster net) = SHROOM_MAX_PARTICIPANTS"
    using assms by (simp_all add: roster_known_def unat_word_of_nat_small roster_sizes)
  have "j div SHROOM_LOBBY_ROSTER_ENTRIES_PER_PACKET < roster_chunks E" if "j < length E" for j
    using roster_chunks_cases [OF assms(2)] that assms(2) by (auto simp: roster_sizes less_mult_imp_div_less)
  then have "\<forall>j<length E. nt_lobby_roster net ! j = E ! j" using assms(1) by (simp add: roster_known_def)
  with n assms(2) show "take (unat (nt_lobby_roster_count net)) (nt_lobby_roster net) = E"
    by (intro nth_equalityI) simp_all
qed

text \<open>The roster of a lobby as the server lists it, and the messages that carry it.\<close>

definition server_roster :: "server \<Rightarrow> u32 \<Rightarrow> ShroomLobbyRosterEntry list" where
  "server_roster sv lobby_id = map (\<lambda>i. roster_entry (session_at sv i)) (take SHROOM_MAX_PARTICIPANTS (members (sv_peers sv) lobby_id))"

lemma messages_to_simps [simp]:
  "messages_to i [] = []" "messages_to i (a @ b) = messages_to i a @ messages_to i b"
  "messages_to i ((j, m) # out) = (if j = i then m # messages_to i out else messages_to i out)"
  by (simp_all add: messages_to_def)

lemma messages_to_one:
  "distinct is \<Longrightarrow> messages_to i (map (\<lambda>j. (j, f j)) is) = (if i \<in> set is then [f i] else [])"
  by (induction "is") auto

lemma messages_to_concat: "messages_to i (concat xss) = concat (map (messages_to i) xss)"
  by (induction xss) simp_all

lemma members_distinct: "distinct (members peers lobby_id)"
  by (simp add: members_def)

lemma roster_messages:
  assumes "lobby_id \<noteq> 0" and "i \<in> set (members (sv_peers sv) lobby_id)"
  obtains started where
    "messages_to i (snd (BroadcastLobbyRoster sv lobby_id)) =
       map (\<lambda>k. Lobby_Roster (roster_packet lobby_id (sv_roster_generation (fst (BroadcastLobbyRoster sv lobby_id))) started
         (server_roster sv lobby_id) (roster_chunks (server_roster sv lobby_id)) k)) [0..<roster_chunks (server_roster sv lobby_id)]"
    "sv_roster_generation (fst (BroadcastLobbyRoster sv lobby_id)) \<noteq> 0"
proof -
  let ?peers = "members (sv_peers sv) lobby_id" and ?E = "server_roster sv lobby_id"
  define generation where "generation = sv_roster_generation (fst (BroadcastLobbyRoster sv lobby_id))"
  define started where "started = list_ex se_entered_match (map (session_at sv) (take SHROOM_MAX_PARTICIPANTS ?peers))"
  have E: "?E = map roster_entry (map (session_at sv) (take SHROOM_MAX_PARTICIPANTS ?peers))" by (simp add: server_roster_def)
  have g: "generation = (if sv_roster_generation sv = 0xFFFFFFFF then 1 else sv_roster_generation sv + 1)"
    using assms(1) by (simp add: generation_def BroadcastLobbyRoster_def Let_def)
  have out: "snd (BroadcastLobbyRoster sv lobby_id) = concat (map (\<lambda>k. map (\<lambda>j. (j, Lobby_Roster
      (roster_packet lobby_id generation started ?E (roster_chunks ?E) k))) ?peers) [0..<roster_chunks ?E])"
    using assms(1) unfolding BroadcastLobbyRoster_def Let_def g E started_def roster_chunks_def by simp
  have "messages_to i (snd (BroadcastLobbyRoster sv lobby_id)) =
      map (\<lambda>k. Lobby_Roster (roster_packet lobby_id generation started ?E (roster_chunks ?E) k)) [0..<roster_chunks ?E]"
    using assms(2) unfolding out messages_to_concat
    by (simp add: messages_to_one [OF members_distinct] comp_def concat_map_singleton)
  moreover have "generation \<noteq> 0" using next_sequence_nonzero [of "sv_roster_generation sv"] by (simp add: g next_sequence_def)
  ultimately show ?thesis using that [of started] unfolding generation_def by blast
qed

lemma server_roster_length: "length (server_roster sv lobby_id) \<le> SHROOM_MAX_PARTICIPANTS"
  by (simp add: server_roster_def)

text \<open>C38. The roster of a lobby reaches its members: whatever order the packets of one broadcast to a client arrive in,
  and however often each of them, once all have arrived the client shows exactly the roster of the server.
\<close>

theorem lobby_roster_delivered:
  assumes "lobby_id \<noteq> 0" and "i \<in> set (members (sv_peers sv) lobby_id)" and "nt_lobby_id net = lobby_id"
    and "nt_lobby_roster_generation net \<noteq> sv_roster_generation (fst (BroadcastLobbyRoster sv lobby_id))"
    and "set arrivals = set (messages_to i (snd (BroadcastLobbyRoster sv lobby_id)))"
  shows "nt_lobby_roster_received (fst (client_events env net (map sent_event arrivals))) \<and>
    take (unat (nt_lobby_roster_count (fst (client_events env net (map sent_event arrivals)))))
      (nt_lobby_roster (fst (client_events env net (map sent_event arrivals)))) = server_roster sv lobby_id"
proof -
  let ?E = "server_roster sv lobby_id" and ?n = "roster_chunks (server_roster sv lobby_id)"
  let ?g = "sv_roster_generation (fst (BroadcastLobbyRoster sv lobby_id))"
  obtain started where m: "messages_to i (snd (BroadcastLobbyRoster sv lobby_id)) =
      map (\<lambda>k. Lobby_Roster (roster_packet lobby_id ?g started ?E ?n k)) [0..<?n]" and g: "?g \<noteq> 0"
    by (rule roster_messages [OF assms(1,2)])
  let ?p = "\<lambda>k. Lobby_Roster (roster_packet lobby_id ?g started ?E ?n k)"
  have "set arrivals = ?p ` {..<?n}" using assms(5) unfolding m by (simp add: atLeast0LessThan)
  let ?idx = "\<lambda>m. case m of Lobby_Roster packet \<Rightarrow> unat (ro_chunk_index packet) | _ \<Rightarrow> 0"
  have idx: "?idx (?p k) = k" if "k < ?n" for k
    using that roster_chunks_cases [OF server_roster_length, of sv lobby_id] by (auto simp: roster_packet_def unat_word_of_nat_small)
  define ks where "ks = map ?idx arrivals"
  have p: "?p (?idx m) = m \<and> ?idx m < ?n" if "m \<in> set arrivals" for m
    using that idx \<open>set arrivals = ?p ` {..<?n}\<close> by auto
  then have ks: "arrivals = map ?p ks" by (simp add: ks_def map_idI)
  have "set ks = {..<?n}" using idx p unfolding ks_def \<open>set arrivals = ?p ` {..<?n}\<close> set_map by force
  moreover have "0 < ?n" using roster_chunks_cases [OF server_roster_length, of sv lobby_id] by linarith
  then have "ks \<noteq> []" using \<open>set ks = {..<?n}\<close> by (cases ks) (simp_all add: lessThan_def)
  ultimately have "roster_known ?g ?E ?n {..<?n} (fst (client_events env net (map sent_event arrivals)))"
    using roster_run [OF server_roster_length g assms(3) disjI1 [OF conjI [OF assms(4) refl]], of ks sv lobby_id env started]
    unfolding ks map_map comp_def by simp
  from roster_known_complete [OF this server_roster_length] show ?thesis by simp
qed

text \<open>A server with one player in lobby 1, for the witnesses.\<close>

definition witness_peer :: "u32 \<Rightarrow> server_peer" where
  "witness_peer lobby_id = \<lparr>pe_connected = True, pe_attached = True,
     pe_session = zero_session\<lparr>se_active := True, se_handshake_received := True, se_lobby_id := lobby_id\<rparr>\<rparr>"

definition witness_server :: "u32 \<Rightarrow> server" where
  "witness_server lobby_id = (empty_server 0 15)\<lparr>sv_peers := [witness_peer lobby_id],
     sv_lobbies := [zero_lobby\<lparr>lb_active := True, lb_lobby_id := 1, lb_chat_history_identity := 5\<rparr>]\<rparr>"

definition witness_client_env :: client_env where
  "witness_client_env = \<lparr>ce_now_ms = 0, ce_accepts = (\<lambda>_. True), ce_cached = []\<rparr>"

lemma witness_member: "0 \<in> set (members (sv_peers (witness_server 1)) 1)"
  by (simp add: members_def witness_server_def witness_peer_def in_lobby_def)

theorem lobby_roster_delivered_witness:
  "nt_lobby_roster_received (fst (client_events witness_client_env (zero_net\<lparr>nt_lobby_id := 1\<rparr>)
     (map sent_event (messages_to 0 (snd (BroadcastLobbyRoster (witness_server 1) 1))))))"
proof -
  have "sv_roster_generation (fst (BroadcastLobbyRoster (witness_server 1) 1)) = 1"
    by (simp add: BroadcastLobbyRoster_def Let_def witness_server_def empty_server_def)
  then show ?thesis
    using lobby_roster_delivered [of 1 0 "witness_server 1" "zero_net\<lparr>nt_lobby_id := 1\<rparr>", OF _ witness_member _ _ refl]
    by (simp add: zero_net_def)
qed

section \<open>Joining a lobby\<close>

lemma remove_bots_identity:
  "lb_chat_history_identity (snd (remove_bots n lobby)) = lb_chat_history_identity lobby \<and>
   lb_lobby_id (snd (remove_bots n lobby)) = lb_lobby_id lobby"
proof (induction n arbitrary: lobby)
  case (Suc n)
  obtain b l where r: "RemoveLobbyBot lobby = (b, l)" by fastforce
  then have "lb_chat_history_identity l = lb_chat_history_identity lobby \<and> lb_lobby_id l = lb_lobby_id lobby"
    by (auto simp: RemoveLobbyBot_def Let_def split: if_splits)
  with Suc [of l] show ?case by (simp add: r split: bool.split)
qed simp

text \<open>What joining leaves of the peers, the identifiers and the rate.\<close>

definition join_kept :: "server \<Rightarrow> server \<Rightarrow> nat \<Rightarrow> nat \<Rightarrow> bool" where
  "join_kept sv sv' i l \<longleftrightarrow> length (sv_peers sv') = length (sv_peers sv) \<and> sv_snapshot_rate sv' = sv_snapshot_rate sv \<and>
     pe_connected (peer_at sv' i) = pe_connected (peer_at sv i) \<and> pe_attached (peer_at sv' i) = pe_attached (peer_at sv i) \<and>
     se_active (session_at sv' i) = se_active (session_at sv i) \<and>
     lb_chat_history_identity (lobby_at sv' l) = lb_chat_history_identity (lobby_at sv l) \<and>
     lb_lobby_id (lobby_at sv' l) = lb_lobby_id (lobby_at sv l)"

lemma admit_kept: "l < length (sv_lobbies sv) \<Longrightarrow> join_kept sv (snd (admit sv l spectate)) i l"
  using remove_bots_identity by (auto simp: admit_def join_kept_def Let_def upd_lobby_def case_prod_beta)

lemma spawn_kept:
  assumes "i < length (sv_peers sv)" and "l < length (sv_lobbies sv)"
  shows "join_kept sv (snd (spawn_session env sv i l)) i l"
    and "fst (spawn_session env sv i l) \<Longrightarrow> se_lobby_id (session_at (snd (spawn_session env sv i l)) i) = se_lobby_id (session_at sv i) \<and>
      se_spectating (session_at (snd (spawn_session env sv i l)) i) = se_spectating (session_at sv i)"
  using assms by (auto simp: spawn_session_def Let_def join_kept_def upd_session_def upd_lobby_def split: prod.split option.split)

lemma join_kept_trans: "join_kept a b i l \<Longrightarrow> join_kept b c i l \<Longrightarrow> join_kept a c i l"
  by (simp add: join_kept_def)

text \<open>What an accepted request to join sends to the client that asked.\<close>

lemma join_messages:
  assumes "HandleLobbyJoin env sv i x spectate = (sv', out)" and "out \<noteq> []"
    and i: "i < length (sv_peers sv)" "pe_connected (peer_at sv i)" "pe_attached (peer_at sv i)" "se_active (session_at sv i)"
    and l: "FindLobbyById (sv_lobbies sv) x = Some l"
  obtains sv3 chats votes where
    "messages_to i out = Lobby_Joined (lobby_joined sv3 (session_at sv3 i) (lobby_at sv3 l)) # map Chat chats @
       messages_to i (snd (BroadcastLobbyRoster sv3 x)) @ map Intermission_Status votes"
    "sv_peers sv' = sv_peers sv3" "sv_lobbies sv' = sv_lobbies sv3" "i \<in> set (members (sv_peers sv3) x)" "x \<noteq> 0"
    "se_spectating (session_at sv3 i) = spectate" "lb_lobby_id (lobby_at sv3 l) = x"
    "lb_chat_history_identity (lobby_at sv3 l) = lb_chat_history_identity (lobby_at sv l)"
    "sv_snapshot_rate sv3 = sv_snapshot_rate sv"
proof -
  have x: "x \<noteq> 0" "l < length (sv_lobbies sv)" "lb_lobby_id (lobby_at sv l) = x"
    using l find_index_less [of _ "sv_lobbies sv" l] find_index_holds [of _ "sv_lobbies sv" l]
    by (auto simp: FindLobbyById_def split: if_splits)
  have asked: "se_handshake_received (session_at sv i)" "se_lobby_id (session_at sv i) = 0"
    using assms(1,2) by (auto simp: HandleLobbyJoin_def split: if_splits)
  define sv1 where "sv1 = snd (admit sv l spectate)"
  define sv2 where "sv2 = upd_session sv1 i (\<lambda>s. (fresh_replication s)\<lparr>se_lobby_id := lb_lobby_id (lobby_at sv1 l),
    se_spectating := spectate, se_is_ready := False, se_entered_match := False\<rparr>)"
  define placed where "placed = (if spectate then (True, sv2) else spawn_session env sv2 i l)"
  define sv3 where "sv3 = set_voice_peer (snd placed) i True (se_lobby_id (session_at (snd placed) i)) (se_player_id (session_at (snd placed) i))"
  have "fst (admit sv l spectate)" "fst placed" and
    out: "sv' = fst (BroadcastLobbyRoster sv3 (lb_lobby_id (lobby_at (snd placed) l)))"
    "out = (i, Lobby_Joined (lobby_joined sv3 (session_at (snd placed) i) (lobby_at (snd placed) l))) #
       map (\<lambda>m. (i, Chat (history_packet m))) (ch_messages (lb_chat_history (lobby_at (snd placed) l))) @
       snd (BroadcastLobbyRoster sv3 (lb_lobby_id (lobby_at (snd placed) l))) @
       (if ws_match_phase (lb_world (lobby_at (snd placed) l)) = SHROOM_MATCH_PHASE_RESULTS
        then BroadcastIntermissionStatus (fst (BroadcastLobbyRoster sv3 (lb_lobby_id (lobby_at (snd placed) l))))
          (lobby_at (snd placed) l) else [])"
    using assms(1,2) asked unfolding HandleLobbyJoin_def l option.case Let_def case_prod_beta
      sv1_def [symmetric] sv2_def [symmetric] placed_def [symmetric] sv3_def [symmetric]
    by (auto split: if_splits)
  let ?p = "snd placed"
  have len: "length (sv_lobbies sv1) = length (sv_lobbies sv)"
    by (simp add: sv1_def admit_def Let_def upd_lobby_def case_prod_beta)
  have k1: "join_kept sv sv1 i l" unfolding sv1_def by (rule admit_kept [OF x(2)])
  have k2: "join_kept sv1 sv2 i l" using k1 i(1)
    by (simp add: sv2_def join_kept_def upd_session_def fresh_replication_def)
  have s2: "se_lobby_id (session_at sv2 i) = x" "se_spectating (session_at sv2 i) = spectate"
    using k1 i(1) x(3) by (simp_all add: sv2_def join_kept_def upd_session_def)
  have i2: "i < length (sv_peers sv2)" "l < length (sv_lobbies sv2)"
    using k1 i(1) x(2) len by (simp_all add: sv2_def join_kept_def upd_session_def)
  have k3: "join_kept sv2 ?p i l" using spawn_kept(1) [OF i2] by (simp add: placed_def join_kept_def)
  have s3: "se_lobby_id (session_at ?p i) = x" "se_spectating (session_at ?p i) = spectate"
    using s2 spawn_kept(2) [OF i2, of env] \<open>fst placed\<close> by (auto simp: placed_def split: if_splits)
  have k: "join_kept sv ?p i l" by (rule join_kept_trans [OF join_kept_trans [OF k1 k2] k3])
  have sv3: "sv_peers sv3 = sv_peers ?p" "sv_lobbies sv3 = sv_lobbies ?p" "sv_snapshot_rate sv3 = sv_snapshot_rate ?p"
    by (simp_all add: sv3_def set_voice_peer_def)
  have lx: "lb_lobby_id (lobby_at ?p l) = x" using k x(3) by (simp add: join_kept_def)
  have member: "i \<in> set (members (sv_peers sv3) x)" using k i s3(1) by (simp add: members_def in_lobby_def join_kept_def sv3)
  define chats where "chats = map history_packet (ch_messages (lb_chat_history (lobby_at ?p l)))"
  have c: "messages_to i (map (\<lambda>m. (i, Chat (history_packet m))) ms) = map Chat (map history_packet ms)" for ms
    by (induction ms) simp_all
  obtain votes where v: "messages_to i (if ws_match_phase (lb_world (lobby_at ?p l)) = SHROOM_MATCH_PHASE_RESULTS
      then BroadcastIntermissionStatus (fst (BroadcastLobbyRoster sv3 x)) (lobby_at ?p l) else []) = map Intermission_Status votes"
  proof -
    have "\<exists>votes. messages_to i (BroadcastIntermissionStatus a b) = map Intermission_Status votes" for a b
      unfolding BroadcastIntermissionStatus_def messages_to_one [OF members_distinct]
      by (metis (no_types, lifting) list.simps(8) list.simps(9))
    with that show ?thesis by (cases "ws_match_phase (lb_world (lobby_at ?p l)) = SHROOM_MATCH_PHASE_RESULTS")
      (auto intro: that [of "[]"])
  qed
  show ?thesis
  proof (rule that [of sv3 chats votes])
    show "messages_to i out = Lobby_Joined (lobby_joined sv3 (session_at sv3 i) (lobby_at sv3 l)) # map Chat chats @
        messages_to i (snd (BroadcastLobbyRoster sv3 x)) @ map Intermission_Status votes"
      unfolding out lx by (simp add: c v chats_def sv3)
    show "sv_peers sv' = sv_peers sv3" "sv_lobbies sv' = sv_lobbies sv3"
      unfolding out by (simp_all add: BroadcastLobbyRoster_def Let_def)
  qed (use k member x(1) s3 lx in \<open>simp_all add: join_kept_def sv3\<close>)
qed

text \<open>C39. Joining reaches the client: when the server accepts the request of a connected client that said hello, the
  messages it sends to that client, handled in order, leave the client in that lobby, with the player and the entity of
  its session when it plays, and showing exactly the roster of the lobby on the server after the join.  Nothing is
  assumed of the state of the client, only that the cadence and the chat identity of the server are valid.
\<close>

theorem joining_reaches_client:
  assumes "HandleLobbyJoin env sv i x spectate = (sv', out)" and "out \<noteq> []"
    and "i < length (sv_peers sv)" and "pe_connected (peer_at sv i)" and "pe_attached (peer_at sv i)" and "se_active (session_at sv i)"
    and "FindLobbyById (sv_lobbies sv) x = Some l" and "lb_chat_history_identity (lobby_at sv l) \<noteq> 0"
    and "cadence_ok 30 (sv_snapshot_rate sv)"
  shows "\<exists>net'. net' = fst (client_events cenv net (map sent_event (messages_to i out))) \<and>
    nt_lobby_id net' = x \<and> nt_spectating net' = spectate \<and>
    (spectate \<or> nt_welcome_received net' \<and> nt_player_id net' = se_player_id (session_at sv' i) \<and>
      nt_entity_id net' = (case se_player (session_at sv' i) of None \<Rightarrow> 0
        | Some p \<Rightarrow> pl_entity_id (player_at (lb_world (lobby_at sv' l)) p))) \<and>
    nt_lobby_roster_received net' \<and>
    take (unat (nt_lobby_roster_count net')) (nt_lobby_roster net') = server_roster sv' x"
proof -
  obtain sv3 chats votes where m: "messages_to i out = Lobby_Joined (lobby_joined sv3 (session_at sv3 i) (lobby_at sv3 l)) # map Chat chats @
      messages_to i (snd (BroadcastLobbyRoster sv3 x)) @ map Intermission_Status votes"
    and sv3: "sv_peers sv' = sv_peers sv3" "sv_lobbies sv' = sv_lobbies sv3" "i \<in> set (members (sv_peers sv3) x)" "x \<noteq> 0"
      "se_spectating (session_at sv3 i) = spectate" "lb_lobby_id (lobby_at sv3 l) = x"
      "lb_chat_history_identity (lobby_at sv3 l) = lb_chat_history_identity (lobby_at sv l)"
      "sv_snapshot_rate sv3 = sv_snapshot_rate sv"
    by (rule join_messages [OF assms(1-7)])
  let ?j = "lobby_joined sv3 (session_at sv3 i) (lobby_at sv3 l)"
  let ?roster = "messages_to i (snd (BroadcastLobbyRoster sv3 x))"
  define net1 where "net1 = fst (client_event_step cenv net (sent_event (Lobby_Joined ?j)))"
  define net2 where "net2 = fst (client_events cenv net1 (map sent_event (map Chat chats)))"
  define net3 where "net3 = fst (client_events cenv net2 (map sent_event ?roster))"
  define net4 where "net4 = fst (client_events cenv net3 (map sent_event (map Intermission_Status votes)))"
  have "net1 = HandleLobbyJoined cenv net (sent_size (Lobby_Joined ?j)) ?j" by (simp add: net1_def receive_sent)
  then have 1: "nt_lobby_id net1 = x" "nt_spectating net1 = spectate" "nt_lobby_roster_generation net1 = 0"
    "spectate \<or> nt_welcome_received net1 \<and> nt_player_id net1 = se_player_id (session_at sv' i) \<and>
      nt_entity_id net1 = (case se_player (session_at sv' i) of None \<Rightarrow> 0
        | Some p \<Rightarrow> pl_entity_id (player_at (lb_world (lobby_at sv' l)) p))"
    using assms(8,9) sv3 by (simp_all add: HandleLobbyJoined_def lobby_joined_def Let_def split: option.split)
  have "lobby_view net2 = lobby_view net1" unfolding net2_def by (rule lobby_view_events) auto
  note 2 = lobby_view_eq [OF this]
  obtain started where r: "?roster = map (\<lambda>k. Lobby_Roster (roster_packet x (sv_roster_generation (fst (BroadcastLobbyRoster sv3 x)))
      started (server_roster sv3 x) (roster_chunks (server_roster sv3 x)) k)) [0..<roster_chunks (server_roster sv3 x)]"
    and g: "sv_roster_generation (fst (BroadcastLobbyRoster sv3 x)) \<noteq> 0"
    by (rule roster_messages [OF sv3(4,3)])
  let ?g = "sv_roster_generation (fst (BroadcastLobbyRoster sv3 x))" and ?E = "server_roster sv3 x"
  have n: "[0..<roster_chunks ?E] \<noteq> []" using roster_chunks_cases [OF server_roster_length, of sv3 x] by auto
  have "roster_known ?g ?E (roster_chunks ?E) {..<roster_chunks ?E} net3 \<and> nt_lobby_id net3 = x"
    using roster_run [OF server_roster_length g, of net2 x "{}" sv3 x "[0..<roster_chunks ?E]" cenv started] n g 1 2
    unfolding net3_def r map_map comp_def by (simp add: atLeast0LessThan)
  moreover from this have "nt_lobby_roster_received net3" "take (unat (nt_lobby_roster_count net3)) (nt_lobby_roster net3) = ?E"
    using roster_known_complete [OF _ server_roster_length] by blast+
  moreover have "nt_spectating net3 = nt_spectating net2" "nt_player_id net3 = nt_player_id net2" "nt_entity_id net3 = nt_entity_id net2"
    "nt_welcome_received net3 = nt_welcome_received net2"
    using roster_player_kept unfolding net3_def r map_map comp_def by blast+
  moreover have "lobby_view net4 = lobby_view net3" unfolding net4_def by (rule lobby_view_events) auto
  note 4 = lobby_view_eq [OF this]
  have "net4 = fst (client_events cenv net (map sent_event (messages_to i out)))"
    unfolding m net4_def net3_def net2_def net1_def
    by (simp add: client_events_append Let_def case_prod_beta)
  moreover have "?E = server_roster sv' x" by (simp add: server_roster_def sv3(1))
  ultimately show ?thesis using 1 2 4 by (intro exI [of _ net4]) auto
qed


theorem joining_reaches_client_witness:
  "\<exists>sv' out. HandleLobbyJoin witness_env (witness_server 0) 0 1 True = (sv', out) \<and>
     nt_lobby_roster_received (fst (client_events witness_client_env zero_net (map sent_event (messages_to 0 out))))"
proof -
  let ?join = "HandleLobbyJoin witness_env (witness_server 0) 0 1 True"
  have find: "FindLobbyById (sv_lobbies (witness_server 0)) 1 = Some 0"
    by (simp add: FindLobbyById_def witness_server_def)
  have peer: "0 < length (sv_peers (witness_server 0))" "pe_connected (peer_at (witness_server 0) 0)"
    "pe_attached (peer_at (witness_server 0) 0)" "se_active (session_at (witness_server 0) 0)"
    "lb_chat_history_identity (lobby_at (witness_server 0) 0) \<noteq> 0" "cadence_ok 30 (sv_snapshot_rate (witness_server 0))"
    by (simp_all add: witness_server_def witness_peer_def empty_server_def cadence_ok_def SHROOM_SNAPSHOT_RATE_MIN_def
        SHROOM_SNAPSHOT_RATE_MAX_def)
  have "snd ?join \<noteq> []" unfolding HandleLobbyJoin_def find option.case
    by (simp add: witness_server_def witness_peer_def zero_session_def admit_def Let_def case_prod_beta)
  from joining_reaches_client [OF prod.collapse [symmetric] this peer(1-4) find peer(5,6), of witness_client_env zero_net]
  show ?thesis by (metis prod.collapse)
qed

theorem frame_returns_witness:
  "\<exists>net' out. ClientNetUpdate witness_client_env (zero_net\<lparr>nt_host := True, nt_peer := Some True\<rparr>) []
     zero_vec2 False False zero_vec2 0 0x40600000 = Some (net', out) \<and> second_part (nt_ping_send_accumulator net')"
proof -
  have "second_part 0" "0 \<le> f32_order 0x40600000" "f32_order 0x40600000 \<le> 0x4b000000" by code_simp+
  then show ?thesis by (intro frame_returns) (simp_all add: zero_net_def)
qed

end
