(* ===== verification/Spec2Isabelle.thy ===== *)
theory Spec2Isabelle
  imports Chat_Admission Lifecycle Intermission Input_Admission Snapshot_Scheduler Snapshot_Safety World_Delivery
    Voice_Relay Voice_Jitter Chat_History Rest_Rate_Limit Server_Discovery Server_Safety
    Quick_Match Client_Packets Client_Session
begin

text \<open>
  A verification development for shroomio, a multiplayer game written in C: clients steer mushroom
  colonies that collect spores and consume each other on a server that simulates the world and
  sends every client what it may see.  The theories model the parts of the program that carry its
  rules, in the order in which data flows through them; the library they share comes first.

  \<^bold>\<open>The library.\<close>
  \<open>Prelude\<close> has the C integer types (\<open>u8\<close> to \<open>u64\<close> are words that wrap as in C), the first match in
  an array, removal by \<open>memmove\<close>, arrays that are searched by an identifier and tables of slots with
  their laws.  \<open>Byte_Codec\<close> has little-endian memory images and bounded reads and writes with their
  round trips, \<open>C_Text\<close> the string functions of the C library on fixed arrays, \<open>Serial_Numbers\<close> (locale
  for sequence numbers compared modulo a power of two, interpreted at 16, 32 and 64 bits) and
  \<open>Chunk_Receipts\<close> (locale for the note of the chunks that have arrived, interpreted on the two
  64-bit words of the clients, the array of the server search and the word of the roster).  \<open>C_Numbers\<close> has the decimal
  texts of numbers.  \<open>Float32\<close>, \<open>Float_Arith\<close> and
  \<open>Float_Order\<close> define IEEE single precision on the 32-bit images, exactly: addition, subtraction,
  multiplication, division, square root, comparison and conversion with rounding to nearest, and prove that
  rounding is monotone, so that bounds are proved of the floats the program computes and not of reals.
  \<open>cosf\<close> and \<open>sinf\<close> are the only functions of the C library that are parameters (record \<open>libm\<close>);
  \<open>libm_ok\<close> says that their values lie between minus one and one.

  \<^bold>\<open>The protocol\<close> (\<open>src/src/shared/protocol.h\<close>): \<open>Protocol\<close> computes the size of every packet from
  the C layout of its structure, the table of packet types with their channels, and the checks of a header.
  Its channels and sizes are held against what the senders write in \<open>Client_Packets\<close>.

  \<^bold>\<open>Snapshots\<close> (\<open>src/src/shared/snapshot_replication.c\<close>): \<open>Snapshot_Codec\<close> has the records of one player,
  \<open>Snapshot_Encoder\<close> the server's side (frames, deltas against an acknowledged baseline, chunks),
  \<open>Snapshot_Assembly\<close> the client's side; \<open>Snapshot_Delta\<close> and \<open>Snapshot_Delivery\<close> prove that a frame is
  reconstructed exactly, whatever order its chunks arrive in; \<open>Snapshot_Safety\<close> what holds for arbitrary datagrams
  (a packet is the fields at the start and the payload bytes that came behind them, whatever size it announces),
  and that every frame fits the packet budget.  \<open>Snapshot_Interest\<close> is the choice of the players a client is
  shown, \<open>Snapshot_Scheduler\<close> when a snapshot is due (\<open>snapshot_scheduler.c\<close>).

  \<^bold>\<open>Spores and powerups\<close> (\<open>world_replication.c\<close>): \<open>World_Replication\<close> builds the batches of the server,
  \<open>World_Client\<close> applies them at the client, \<open>World_Delivery\<close> proves that the client ends up with exactly the
  entities of the server, in any order of arrival.

  \<^bold>\<open>The simulation\<close> (\<open>src/src/shared/sim.c\<close>, \<open>world.h\<close>, \<open>config.h\<close>): \<open>World\<close>, \<open>Sim_Math\<close>, \<open>Sim_Spawn\<close>, \<open>Sim_Rules\<close>,
  \<open>Sim_Bots\<close> and \<open>Sim_Match\<close> model it function by function, up to \<open>ShroomWorldStep\<close> and
  \<open>ShroomWorldResetMatch\<close>.  \<open>Sim_Sound\<close> defines when a world is sound (\<open>world_ok\<close>: positions inside the arena, masses,
  timers and counters in range, arrays within their capacities), and \<open>Sim_Sound_Rules\<close>, \<open>Sim_Sound_Tick\<close>,
  \<open>Sim_Sound_Pieces\<close>, \<open>Sim_Sound_Step\<close> and \<open>Sim_Sound_World\<close> prove that every rule keeps it.
  \<open>Sim_Spawning\<close>, \<open>Sim_Primaries\<close> and \<open>Sim_Sessions\<close> follow the primary piece of each player through a tick:
  the server keeps a pointer to it.

  \<^bold>\<open>The server\<close> (\<open>src/src/server/main.c\<close>): \<open>Server_State\<close> is its state (sessions, lobbies, peers) and what it
  sends; \<open>Server_Lobby\<close>, \<open>Server_Input\<close>, \<open>Server_Handlers\<close> and \<open>Server_Packets\<close> are the handlers of all packets,
  with \<open>HandlePacket\<close>; \<open>Server_Tick\<close> is the tick of a lobby, the sending of snapshots, peers that come and go,
  and the step relation \<open>server_step\<close>.  Around it: \<open>Input_Admission\<close>, \<open>Chat_Admission\<close>, \<open>Chat_History\<close>, \<open>Intermission\<close>,
  \<open>Voice_Relay\<close>, \<open>Lifecycle\<close>, \<open>Rest_Rate_Limit\<close>, \<open>Directory_Registry\<close> and \<open>Player_Identity\<close>, each named after its file.
  Their limits are stated with their conditions: the replay filter for sequence numbers within half of their range,
  the relay's rate window by window, the REST limiter as a bounded map that forgets the client seen longest ago
  (so that its limit per minute holds while a minute sees at most 128 clients), the sanitised name with the one case
  in which the function writes behind its array.
  \<open>Server_Invariant\<close> states the invariant of the server, \<open>Server_Quiet\<close>, \<open>Server_Reach\<close>, \<open>Server_Steps\<close> and
  \<open>Server_Sound\<close> show that every step keeps it; \<open>Server_Play\<close> and \<open>Server_Safety\<close> draw the consequences:
  a session's pointer always leads to its own living player, worlds stay sound, joining a lobby with room succeeds.

  \<^bold>\<open>The client\<close> (\<open>src/src/client\<close>): \<open>Server_Discovery\<close> (\<open>server_discovery_state.c\<close>) is the search for servers, joined
  with the directory's lists to a delivery theorem; \<open>Matchmaking\<close> (\<open>matchmaking_selector.c\<close>) chooses one of them and
  \<open>Quick_Match\<close> (\<open>quick_match.c\<close>, \<open>server_browser_model.c\<close>) tries them one after the other.  \<open>Client_Net\<close> (\<open>net.c\<close>) is the
  network session: its state, a handler for every packet of the server, the frame and the requests; \<open>Client_Packets\<close>
  proves that whatever it sends passes the packet checks of the server and reaches its handler, \<open>Client_Session\<close>
  proves what server and client do together, up to the client that asked to join showing the lobby of the server.
  \<open>Client_Input\<close> (\<open>input_scheduler.c\<close>, \<open>prediction.c\<close>) sends inputs and predicts the own position, \<open>Client_Models\<close>
  has the small models behind the screens (spectating, results, detail levels, game modes, voice mixing), and
  \<open>Voice_Jitter\<close> (\<open>voice_jitter.c\<close>) plays voice frames in order.

  \<^bold>\<open>Parameters.\<close>
  SQLite, the clock and the random generator of the system are not part of the program's own code: their answers are
  arguments (\<open>server_env\<close>, \<open>client_env\<close>, the answers of the database in \<open>Chat_History\<close>), and so are those of the
  authentication module (\<open>auth_answers\<close>), whose work is SQL, and of the client's cache file of chat messages.
  ENet is modelled by what it is given to send and by the events it may deliver; it may lose, repeat and reorder
  unreliable packets, and the delivery theorems are stated for any order.

  \<^bold>\<open>Bounds.\<close>
  No definition uses fuel: loops over arrays are folds or structural recursions, the others terminate by a measure, except
  the loop of the pings of a frame, a partial function that \<open>frame_returns\<close> proves to return.
  The invariant of the server is proved while fewer than \<open>2^31\<close> player ids and lobby ids have been given out (the C
  counters are 32 bits wide and are never reset).  Capacities are those of \<open>config.h\<close> and \<open>protocol.h\<close>.

  \<^bold>\<open>Not modelled.\<close>
  Drawing, input devices, audio and the immediate-mode screens of the client; threads, the Opus codec and
  HTTP; files of the user; the SQL statements that store accounts and match results; log output; the parsing of the
  configuration and the directory mode of the server process.  They are input and output around the rules modelled here.
\<close>

end
